(* ===== verification/Py_Prelude.thy ===== *)
theory Py_Prelude
  imports Main "HOL-Library.AList" "HOL-Library.Char_ord" "HOL-Library.List_Lexorder"
begin

text \<open>
  What the components share: Python exceptions as values of a sum type, the string
  operations the sources call (\<open>strip\<close>, \<open>lower\<close>, \<open>split\<close>, \<open>startswith\<close>, \<open>join\<close>), decimal
  numbers, and insertion-ordered dictionaries as association lists.

  A Python \<open>str\<close> is a \<^typ>\<open>string\<close> whose characters are read as the code points
  U+0000 to U+00FF; white space and lower case are Python's on that range.
\<close>

section \<open>Exceptions and fallible results\<close>

datatype pyexn =
    ValueError string
  | RuntimeError string
  | TypeError string
  | OverflowError string
  | IntegrityError string
  | AuthorizationError string
  | AuthenticationConfigurationError string
  | SessionVerificationError string
  | CancelledError

type_synonym 'a result = "pyexn + 'a"

definition rbind :: "'a result \<Rightarrow> ('a \<Rightarrow> 'b result) \<Rightarrow> 'b result" where
  "rbind m f = (case m of Inl e \<Rightarrow> Inl e | Inr x \<Rightarrow> f x)"

lemma rbind_simps [simp]:
  "rbind (Inl e) f = Inl e"
  "rbind (Inr x) f = f x"
  by (simp_all add: rbind_def)

lemma rbind_eq_Inr [simp]: "rbind m f = Inr y \<longleftrightarrow> (\<exists>x. m = Inr x \<and> f x = Inr y)"
  by (cases m) simp_all

lemma rbind_eq_Inl: "rbind m f = Inl e \<longleftrightarrow> m = Inl e \<or> (\<exists>x. m = Inr x \<and> f x = Inl e)"
  by (cases m) simp_all

text \<open>The first failing element of a list decides, as in a comprehension that raises.\<close>

fun rmap :: "('a \<Rightarrow> 'b result) \<Rightarrow> 'a list \<Rightarrow> 'b list result" where
  "rmap f [] = Inr []"
| "rmap f (x # xs) = rbind (f x) (\<lambda>y. rbind (rmap f xs) (\<lambda>ys. Inr (y # ys)))"

lemma rmap_eq_Inr: "rmap f xs = Inr ys \<longleftrightarrow> list_all2 (\<lambda>x y. f x = Inr y) xs ys"
  by (induction xs arbitrary: ys) (auto simp: list_all2_Cons1)

text \<open>All the elements of a list, when each has a value.\<close>

fun omap :: "('a \<Rightarrow> 'b option) \<Rightarrow> 'a list \<Rightarrow> 'b list option" where
  "omap f [] = Some []"
| "omap f (x # xs) = (case f x of None \<Rightarrow> None | Some y \<Rightarrow> map_option (Cons y) (omap f xs))"

text \<open>Consecutive pieces of a list; the last may be shorter.\<close>

fun pieces :: "nat \<Rightarrow> 'a list \<Rightarrow> 'a list list" where
  "pieces n xs = (if xs = [] \<or> n = 0 then [] else take n xs # pieces n (drop n xs))"

declare pieces.simps [simp del]

section \<open>Characters and strings\<close>

named_theorems py_str \<open>laws of the string operations\<close>

definition py_isspace :: "char \<Rightarrow> bool" where
  "py_isspace c \<longleftrightarrow> (let n = of_char c :: nat in
     (9 \<le> n \<and> n \<le> 13) \<or> (28 \<le> n \<and> n \<le> 32) \<or> n = 133 \<or> n = 160)"

definition py_isdigit :: "char \<Rightarrow> bool" where
  "py_isdigit c \<longleftrightarrow> (let n = of_char c :: nat in (48 \<le> n \<and> n \<le> 57) \<or> n = 178 \<or> n = 179 \<or> n = 185)"

definition lower_char :: "char \<Rightarrow> char" where
  "lower_char c = (let n = of_char c :: nat in
     if (65 \<le> n \<and> n \<le> 90) \<or> (192 \<le> n \<and> n \<le> 222 \<and> n \<noteq> 215) then char_of (n + 32) else c)"

text \<open>
  Upper case: \<open>0xDF\<close> becomes two letters; the two characters whose upper case lies beyond U+00FF stay as they are.
\<close>

definition upper_char :: "char \<Rightarrow> string" where
  "upper_char c = (let n = of_char c :: nat in
     if (97 \<le> n \<and> n \<le> 122) \<or> (224 \<le> n \<and> n \<le> 254 \<and> n \<noteq> 247) then [char_of (n - 32)]
     else if n = 223 then ''SS'' else [c])"

definition py_upper :: "string \<Rightarrow> string" where
  "py_upper s = concat (map upper_char s)"

definition py_lower :: "string \<Rightarrow> string" where
  "py_lower s = map lower_char s"

definition lstrip :: "string \<Rightarrow> string" where
  "lstrip s = dropWhile py_isspace s"

definition rstrip :: "string \<Rightarrow> string" where
  "rstrip s = rev (dropWhile py_isspace (rev s))"

definition strip :: "string \<Rightarrow> string" where
  "strip s = rstrip (lstrip s)"

definition startswith :: "string \<Rightarrow> string \<Rightarrow> bool" where
  "startswith s p \<longleftrightarrow> take (length p) s = p"

definition endswith :: "string \<Rightarrow> string \<Rightarrow> bool" where
  "endswith s p \<longleftrightarrow> length p \<le> length s \<and> drop (length s - length p) s = p"

fun str_join :: "string \<Rightarrow> string list \<Rightarrow> string" where
  "str_join sep [] = []"
| "str_join sep [x] = x"
| "str_join sep (x # y # xs) = x @ sep @ str_join sep (y # xs)"

text \<open>\<open>s.split(c)\<close> for a one-character separator, and \<open>s.partition(c)\<close>.\<close>

fun split_char :: "char \<Rightarrow> string \<Rightarrow> string list" where
  "split_char c [] = [[]]"
| "split_char c (x # xs) =
     (if x = c then [] # split_char c xs
      else case split_char c xs of [] \<Rightarrow> [[x]] | w # ws \<Rightarrow> (x # w) # ws)"

definition str_partition :: "char \<Rightarrow> string \<Rightarrow> string \<times> string \<times> string" where
  "str_partition c s =
     (if c \<in> set s
      then (takeWhile (\<lambda>x. x \<noteq> c) s, [c], tl (dropWhile (\<lambda>x. x \<noteq> c) s))
      else (s, [], []))"

text \<open>\<open>sub in s\<close>.\<close>

fun str_contains :: "string \<Rightarrow> string \<Rightarrow> bool" where
  "str_contains sub [] = (sub = [])"
| "str_contains sub (x # xs) = (startswith (x # xs) sub \<or> str_contains sub xs)"

lemma lower_char_idem [simp]: "lower_char (lower_char c) = lower_char c"
proof -
  have bound: "(of_char c :: nat) < 256" by simp
  show ?thesis
    using bound by (auto simp: lower_char_def Let_def)
qed

lemma isspace_lower_char [simp]: "py_isspace (lower_char c) = py_isspace c"
proof -
  have bound: "(of_char c :: nat) < 256" by simp
  show ?thesis
    using bound by (auto simp: lower_char_def py_isspace_def Let_def)
qed

lemma dropWhile_map_pred: "(\<And>x. P (f x) = P x) \<Longrightarrow> dropWhile P (map f xs) = map f (dropWhile P xs)"
  by (induction xs) auto

lemma strip_lower [py_str]: "strip (py_lower s) = py_lower (strip s)"
  by (simp add: strip_def rstrip_def lstrip_def py_lower_def dropWhile_map_pred rev_map)

lemma lower_idem [simp]: "py_lower (py_lower s) = py_lower s"
  by (simp add: py_lower_def)

lemma lower_eq_Nil [simp]: "py_lower s = [] \<longleftrightarrow> s = []"
  by (simp add: py_lower_def)

lemma length_lower [simp]: "length (py_lower s) = length s"
  by (simp add: py_lower_def)

lemma lstrip_Nil [simp]: "lstrip [] = []" and rstrip_Nil [simp]: "rstrip [] = []"
  and strip_Nil [simp]: "strip [] = []"
  by (simp_all add: lstrip_def rstrip_def strip_def)

lemma rstrip_eq_Nil: "rstrip s = [] \<longleftrightarrow> (\<forall>c\<in>set s. py_isspace c)"
  by (simp add: rstrip_def dropWhile_eq_Nil_conv)

lemma lstrip_eq_Nil: "lstrip s = [] \<longleftrightarrow> (\<forall>c\<in>set s. py_isspace c)"
  by (simp add: lstrip_def dropWhile_eq_Nil_conv)

lemma hd_dropWhile_not: "dropWhile P xs = y # ys \<Longrightarrow> \<not> P y"
  by (metis dropWhile_eq_Cons_conv)

lemma strip_eq_Nil [py_str]: "strip s = [] \<longleftrightarrow> (\<forall>c\<in>set s. py_isspace c)"
proof -
  have "(\<forall>c\<in>set (lstrip s). py_isspace c) \<longleftrightarrow> (\<forall>c\<in>set s. py_isspace c)"
  proof
    assume sp: "\<forall>c\<in>set (lstrip s). py_isspace c"
    show "\<forall>c\<in>set s. py_isspace c"
    proof (cases "lstrip s")
      case Nil
      then show ?thesis by (simp add: lstrip_eq_Nil)
    next
      case (Cons y ys)
      then have "\<not> py_isspace y" unfolding lstrip_def by (rule hd_dropWhile_not)
      with sp Cons show ?thesis by simp
    qed
  qed (auto simp: lstrip_def dest: set_dropWhileD)
  then show ?thesis by (simp add: strip_def rstrip_eq_Nil)
qed

lemma rstrip_Cons: "\<not> py_isspace y \<Longrightarrow> rstrip (y # ys) = y # rstrip ys"
  by (simp add: rstrip_def dropWhile_append dropWhile_eq_Nil_conv)

lemma rstrip_idem [simp]: "rstrip (rstrip s) = rstrip s"
  by (simp add: rstrip_def)

lemma lstrip_strip [simp]: "lstrip (strip s) = strip s"
proof (cases "lstrip s")
  case Nil
  then show ?thesis by (simp add: strip_def)
next
  case (Cons y ys)
  then have "\<not> py_isspace y" unfolding lstrip_def by (rule hd_dropWhile_not)
  with Cons have "strip s = y # rstrip ys" by (simp add: strip_def rstrip_Cons)
  with \<open>\<not> py_isspace y\<close> show ?thesis by (simp add: lstrip_def)
qed

lemma strip_idem [simp]: "strip (strip s) = strip s"
proof -
  have "strip (strip s) = rstrip (lstrip (strip s))" by (simp only: strip_def)
  also have "\<dots> = rstrip (strip s)" by simp
  also have "\<dots> = strip s" by (simp add: strip_def)
  finally show ?thesis .
qed

lemma length_strip_le: "length (strip s) \<le> length s"
proof -
  have "length (strip s) \<le> length (lstrip s)"
    by (metis strip_def rstrip_def length_rev length_dropWhile_le)
  also have "\<dots> \<le> length s" by (simp add: lstrip_def length_dropWhile_le)
  finally show ?thesis .
qed

lemma strip_idem_of_no_space: "\<forall>c\<in>set s. \<not> py_isspace c \<Longrightarrow> strip s = s"
proof -
  have drop: "dropWhile py_isspace xs = xs" if "\<forall>c\<in>set xs. \<not> py_isspace c" for xs
    using that by (cases xs) auto
  assume "\<forall>c\<in>set s. \<not> py_isspace c"
  then show ?thesis by (simp add: strip_def lstrip_def rstrip_def drop)
qed

lemma set_strip_subset: "set (strip s) \<subseteq> set s"
  by (auto simp: strip_def lstrip_def rstrip_def dest!: set_dropWhileD)

lemma split_char_not_Nil [simp]: "split_char c s \<noteq> []"
  by (induction s) (auto split: list.splits)

lemma split_char_join [py_str]: "str_join [c] (split_char c s) = s"
proof (induction s)
  case (Cons x xs)
  then show ?case
    by (cases "split_char c xs") (auto split: list.splits, (case_tac list; simp)+)
qed simp

section \<open>Decimal numbers\<close>

definition digit_char :: "nat \<Rightarrow> char" where
  "digit_char n = char_of (48 + n mod 10)"

fun show_nat :: "nat \<Rightarrow> string" where
  "show_nat n = (if n < 10 then [digit_char n] else show_nat (n div 10) @ [digit_char n])"

declare show_nat.simps [simp del]

definition show_int :: "int \<Rightarrow> string" where
  "show_int i = (if i < 0 then CHR ''-'' # show_nat (nat (- i)) else show_nat (nat i))"

text \<open>Zero-padded decimal of a fixed width, Python's \<open>{n:0wd}\<close> for \<open>n < 10 ^ w\<close>.\<close>

fun pad_nat :: "nat \<Rightarrow> nat \<Rightarrow> string" where
  "pad_nat 0 n = []"
| "pad_nat (Suc w) n = pad_nat w (n div 10) @ [digit_char n]"

lemma length_pad_nat [simp]: "length (pad_nat w n) = w"
  by (induction w arbitrary: n) auto

lemma show_nat_not_Nil [simp]: "show_nat n \<noteq> []"
  by (subst show_nat.simps) simp

lemma digit_char_less: "m mod 10 < n mod 10 \<Longrightarrow> digit_char m < digit_char n"
  by (simp add: digit_char_def less_char_def)

lemma digit_char_eq_iff: "digit_char m = digit_char n \<longleftrightarrow> m mod 10 = n mod 10"
  using digit_char_less [of m n] digit_char_less [of n m]
  by (metis digit_char_def linorder_neqE_nat less_irrefl)

lemma list_less_append_same_length:
  fixes xs ys :: "'a::linorder list"
  shows "length xs = length ys \<Longrightarrow>
    xs @ us < ys @ vs \<longleftrightarrow> xs < ys \<or> (xs = ys \<and> us < vs)"
  by (induction xs ys rule: list_induct2) auto

lemma pad_nat_less: "n < 10 ^ w \<Longrightarrow> m < n \<Longrightarrow> pad_nat w m < pad_nat w n"
proof (induction w arbitrary: m n)
  case (Suc w)
  have "n div 10 < 10 ^ w" using Suc.prems(1) by auto
  moreover have "m div 10 < n div 10 \<or> (m div 10 = n div 10 \<and> m mod 10 < n mod 10)"
    using Suc.prems(2) by (metis div_le_mono div_mult_mod_eq le_eq_less_or_eq
        less_or_eq_imp_le nat_add_left_cancel_less)
  ultimately show ?case
    using Suc.IH by (auto simp: list_less_append_same_length digit_char_less)
qed simp

section \<open>Insertion-ordered dictionaries\<close>

text \<open>
  A \<open>dict\<close> is an association list with distinct keys in insertion order:
  \<^const>\<open>AList.update\<close> overwrites in place or appends, \<^const>\<open>AList.delete\<close> is \<open>del\<close>, and
  \<^const>\<open>AList.map_entry\<close> is a mutation of the object stored under a key.
\<close>

type_synonym ('k, 'v) dict = "('k \<times> 'v) list"

definition wf_dict :: "('k, 'v) dict \<Rightarrow> bool" where
  "wf_dict d \<longleftrightarrow> distinct (map fst d)"

definition dict_update :: "('k, 'v) dict \<Rightarrow> ('k, 'v) dict \<Rightarrow> ('k, 'v) dict" where
  "dict_update d e = fold (\<lambda>(k, v). AList.update k v) e d"

definition dict_setdefault :: "'k \<Rightarrow> 'v \<Rightarrow> ('k, 'v) dict \<Rightarrow> ('k, 'v) dict" where
  "dict_setdefault k v d = (case map_of d k of None \<Rightarrow> d @ [(k, v)] | Some _ \<Rightarrow> d)"

text \<open>\<open>list(dict.fromkeys(xs))\<close>: the first occurrences, in order.\<close>

fun dedup_from :: "'a list \<Rightarrow> 'a list \<Rightarrow> 'a list" where
  "dedup_from seen [] = []"
| "dedup_from seen (x # xs) =
     (if x \<in> set seen then dedup_from seen xs else x # dedup_from (x # seen) xs)"

definition fromkeys :: "'a list \<Rightarrow> 'a list" where
  "fromkeys xs = dedup_from [] xs"

lemma set_dedup_from: "set (dedup_from seen xs) = set xs - set seen"
  by (induction seen xs rule: dedup_from.induct) auto

lemma set_fromkeys [simp]: "set (fromkeys xs) = set xs"
  by (simp add: fromkeys_def set_dedup_from)

lemma distinct_dedup_from: "distinct (dedup_from seen xs)"
  by (induction seen xs rule: dedup_from.induct) (auto simp: set_dedup_from)

lemma distinct_fromkeys [simp]: "distinct (fromkeys xs)"
  by (simp add: fromkeys_def distinct_dedup_from)

lemma dedup_from_filter: "dedup_from (filter P seen) (filter P xs) = filter P (dedup_from seen xs)"
  by (induction seen xs rule: dedup_from.induct) auto

lemma fromkeys_filter: "fromkeys (filter P xs) = filter P (fromkeys xs)"
  using dedup_from_filter [of P "[]" xs] by (simp add: fromkeys_def)

lemma dedup_from_id: "distinct xs \<Longrightarrow> set xs \<inter> set seen = {} \<Longrightarrow> dedup_from seen xs = xs"
  by (induction seen xs rule: dedup_from.induct) auto

lemma fromkeys_id [simp]: "distinct xs \<Longrightarrow> fromkeys xs = xs"
  by (simp add: fromkeys_def dedup_from_id)

lemma keys_map_entry [simp]: "map fst (AList.map_entry k f d) = map fst d"
  by (induction d) auto

lemma map_of_map_entry [simp]:
  "map_of (AList.map_entry k f d) = (map_of d)(k := map_option f (map_of d k))"
  by (induction d) (auto simp: fun_eq_iff)

lemma wf_dict_map_entry [simp]: "wf_dict (AList.map_entry k f d) = wf_dict d"
  by (simp add: wf_dict_def)

lemma wf_dict_update [simp]: "wf_dict d \<Longrightarrow> wf_dict (AList.update k v d)"
  by (simp add: wf_dict_def distinct_update)

lemma wf_dict_delete [simp]: "wf_dict d \<Longrightarrow> wf_dict (AList.delete k d)"
  by (simp add: wf_dict_def distinct_delete)

lemma wf_dict_dict_update [simp]: "wf_dict d \<Longrightarrow> wf_dict (dict_update d e)"
  unfolding dict_update_def by (induction e arbitrary: d) auto

lemma map_of_dict_update: "map_of (dict_update d e) = map_of d ++ map_of (rev e)"
  unfolding dict_update_def
  by (induction e arbitrary: d) (auto simp: update_conv' map_add_def fun_eq_iff split: option.splits)

lemma map_of_in_set: "wf_dict d \<Longrightarrow> map_of d k = Some v \<longleftrightarrow> (k, v) \<in> set d"
  by (simp add: wf_dict_def)

lemma set_map_entry:
  "wf_dict d \<Longrightarrow>
   (k', v') \<in> set (AList.map_entry k f d) \<longleftrightarrow>
     (if k' = k then \<exists>v. (k, v) \<in> set d \<and> v' = f v else (k', v') \<in> set d)"
  by (simp add: map_of_in_set [symmetric]) auto

end
