(* ===== verification/Py_Datetime.thy ===== *)
theory Py_Datetime
  imports Py_Prelude
begin

text \<open>
  UTC timestamps as the sources use them. A \<open>datetime\<close> is the number of microseconds since
  0001-01-01T00:00:00+00:00 (Python's \<open>datetime.min\<close>); a \<open>timedelta\<close> is a difference of
  such numbers. \<open>isoformat\<close> prints the proleptic Gregorian date and the time of day.

  The stores compare timestamps as text. The main fact of this theory is that the text
  order is the time order on the range Python can represent (years 1 to 9999).
\<close>

type_synonym datetime = nat

abbreviation usec_per_day :: nat where "usec_per_day \<equiv> 86400000000"

definition timedelta_days :: "nat \<Rightarrow> nat" where
  "timedelta_days n = n * usec_per_day"

section \<open>The calendar\<close>

text \<open>Days before the year \<open>k + 1\<close>, and the number of whole years before a day.\<close>

definition days_before_year :: "nat \<Rightarrow> nat" where
  "days_before_year k = 365 * k + k div 4 + k div 400 - k div 100"

lemma mod_0_trans: "c dvd d \<Longrightarrow> n mod d = 0 \<Longrightarrow> n mod c = (0::nat)"
  by (metis dvd_eq_mod_eq_0 dvd_trans)

definition is_leap :: "nat \<Rightarrow> bool" where
  "is_leap y \<longleftrightarrow> y mod 4 = 0 \<and> (y mod 100 \<noteq> 0 \<or> y mod 400 = 0)"

lemma days_before_year_step:
  "days_before_year (Suc k) = days_before_year k + (if is_leap (Suc k) then 366 else 365)"
proof -
  have "k div 100 \<le> k" by (rule div_le_dividend)
  then show ?thesis
    using mod_0_trans [of 100 400 "Suc k"] mod_0_trans [of 4 100 "Suc k"]
    by (simp add: days_before_year_def is_leap_def div_Suc ac_simps)
qed

lemma days_before_year_Suc: "days_before_year k + 365 \<le> days_before_year (Suc k)"
  by (simp add: days_before_year_step)

lemma days_before_year_less: "j < k \<Longrightarrow> days_before_year j < days_before_year k"
proof (induction k)
  case (Suc k)
  then show ?case using days_before_year_Suc [of k] by (cases "j = k") auto
qed simp

lemma days_before_year_mono: "j \<le> k \<Longrightarrow> days_before_year j \<le> days_before_year k"
  using days_before_year_less [of j k] by (cases "j = k") auto

function years_from :: "nat \<Rightarrow> nat \<Rightarrow> nat" where
  "years_from k n = (if days_before_year (Suc k) \<le> n then years_from (Suc k) n else k)"
  by pat_completeness auto
termination
proof (relation "measure (\<lambda>(k, n). n - days_before_year k)", goal_cases)
  case (2 k n)
  then show ?case using days_before_year_Suc [of k] by simp
qed simp

declare years_from.simps [simp del]

definition years_before :: "nat \<Rightarrow> nat" where
  "years_before n = years_from (n div 366) n"

lemma years_from_bounds:
  "days_before_year k \<le> n \<Longrightarrow>
   days_before_year (years_from k n) \<le> n \<and> n < days_before_year (Suc (years_from k n))"
proof (induction k n rule: years_from.induct)
  case (1 k n)
  then show ?case by (cases "days_before_year (Suc k) \<le> n") (simp_all add: years_from.simps [of k n])
qed

lemma years_before_bounds:
  "days_before_year (years_before n) \<le> n" "n < days_before_year (Suc (years_before n))"
proof -
  have "days_before_year k \<le> 366 * k" for k
    by (induction k) (auto simp: days_before_year_step, simp add: days_before_year_def)
  then have "days_before_year (n div 366) \<le> n"
    by (meson div_times_less_eq_dividend le_trans mult.commute times_div_less_eq_dividend)
  from years_from_bounds [OF this]
  show "days_before_year (years_before n) \<le> n" "n < days_before_year (Suc (years_before n))"
    by (simp_all add: years_before_def)
qed

lemma years_before_mono: "m \<le> n \<Longrightarrow> years_before m \<le> years_before n"
proof (rule ccontr)
  assume "m \<le> n" and "\<not> years_before m \<le> years_before n"
  then have "days_before_year (Suc (years_before n)) \<le> days_before_year (years_before m)"
    by (intro days_before_year_mono) simp
  with years_before_bounds(1) [of m] years_before_bounds(2) [of n] \<open>m \<le> n\<close> show False by simp
qed

text \<open>Lengths of January to November; December is what is left.\<close>

definition month_lengths :: "nat \<Rightarrow> nat list" where
  "month_lengths y = [31, if is_leap y then 29 else 28, 31, 30, 31, 30, 31, 31, 30, 31, 30]"

text \<open>The segment a position falls into and its offset there.\<close>

fun segment :: "nat list \<Rightarrow> nat \<Rightarrow> nat \<times> nat" where
  "segment [] d = (0, d)"
| "segment (w # ws) d = (if d < w then (0, d) else (case segment ws (d - w) of (m, r) \<Rightarrow> (Suc m, r)))"

lemma segment_less:
  "d < e \<Longrightarrow> fst (segment ws d) < fst (segment ws e) \<or>
     (fst (segment ws d) = fst (segment ws e) \<and> snd (segment ws d) < snd (segment ws e))"
proof (induction ws arbitrary: d e)
  case (Cons w ws)
  show ?case
    using Cons.prems Cons.IH [of "d - w" "e - w"]
    by (auto split: prod.splits)
qed simp

lemma segment_fst_le: "fst (segment ws d) \<le> length ws"
  by (induction ws arbitrary: d) (auto split: prod.splits, metis fst_conv)

lemma segment_snd_less:
  "\<forall>w\<in>set ws. w \<le> b \<Longrightarrow> d < sum_list ws + b \<Longrightarrow> snd (segment ws d) < b"
proof (induction ws arbitrary: d)
  case (Cons w ws)
  have "d - w < sum_list ws + b" if "\<not> d < w" using Cons.prems(2) that by simp
  with Cons show ?case by (auto split: prod.splits) (metis snd_conv)
qed simp

text \<open>Year, month and day of a day number.\<close>

definition ymd :: "nat \<Rightarrow> nat \<times> nat \<times> nat" where
  "ymd n = (let k = years_before n; y = k + 1;
                (m, r) = segment (month_lengths y) (n - days_before_year k)
            in (y, m + 1, r + 1))"

section \<open>Printing\<close>

definition iso_date :: "nat \<Rightarrow> string" where
  "iso_date n = (case ymd n of (y, m, d) \<Rightarrow>
     pad_nat 4 y @ ''-'' @ pad_nat 2 m @ ''-'' @ pad_nat 2 d)"

definition iso_clock :: "nat \<Rightarrow> string" where
  "iso_clock s = pad_nat 2 (s div 3600) @ '':'' @
     pad_nat 2 (s mod 3600 div 60) @ '':'' @ pad_nat 2 (s mod 3600 mod 60)"

text \<open>Date and time of day, to the second; then the three renderings the sources use.\<close>

definition iso_second :: "datetime \<Rightarrow> string" where
  "iso_second t = (let s = t div 1000000 in iso_date (s div 86400) @ ''T'' @ iso_clock (s mod 86400))"

definition isoformat :: "datetime \<Rightarrow> string" where
  "isoformat t = iso_second t @
     (if t mod 1000000 = 0 then [] else ''.'' @ pad_nat 6 (t mod 1000000)) @ ''+00:00''"

definition isoformat_millis :: "datetime \<Rightarrow> string" where
  "isoformat_millis t = iso_second t @ ''.'' @ pad_nat 3 (t div 1000 mod 1000) @ ''+00:00''"

text \<open>\<open>t.replace(microsecond=0)\<close>.\<close>

definition floor_second :: "datetime \<Rightarrow> datetime" where
  "floor_second t = t - t mod 1000000"

text \<open>\<open>datetime.max\<close> is the last microsecond of the year 9999.\<close>

definition datetime_limit :: nat where
  "datetime_limit = days_before_year 9999 * 86400 * 1000000"

section \<open>The text order is the time order\<close>

lemma length_iso_date [simp]: "length (iso_date n) = 10"
  by (simp add: iso_date_def split: prod.splits)

lemma length_iso_clock [simp]: "length (iso_clock s) = 8"
  by (simp add: iso_clock_def)

lemma length_iso_second [simp]: "length (iso_second t) = 19"
  by (simp add: iso_second_def Let_def)

lemmas text_less = list_less_append_same_length

lemma div_mod_less:
  "a < b \<Longrightarrow> a div c < b div c \<or> a div c = b div c \<and> a mod c < b mod (c::nat)"
  by (metis div_le_mono div_mult_mod_eq le_eq_less_or_eq less_or_eq_imp_le nat_add_left_cancel_less)

lemma padded3_less:
  assumes "x < x' \<or> x = x' \<and> (y < y' \<or> y = y' \<and> z < z')"
    and "x' < 10 ^ u" and "y' < 10 ^ v" and "z' < 10 ^ w"
  shows "pad_nat u x @ sep @ pad_nat v y @ sep' @ pad_nat w z
       < pad_nat u x' @ sep @ pad_nat v y' @ sep' @ pad_nat w z'"
  using assms pad_nat_less by (auto simp: text_less)

lemma ymd_bounds:
  assumes "n < days_before_year 9999" and "ymd n = (y, m, d)"
  shows "y < 10 ^ 4" "m < 10 ^ 2" "d < 10 ^ 2"
proof -
  let ?k = "years_before n"
  let ?ws = "month_lengths (?k + 1)"
  have off: "n - days_before_year ?k < sum_list ?ws + 31"
  proof -
    have "n < days_before_year (Suc ?k)" by (rule years_before_bounds)
    moreover have "days_before_year (Suc ?k) = days_before_year ?k + (sum_list ?ws + 31)"
      by (simp add: days_before_year_step month_lengths_def)
    ultimately show ?thesis using years_before_bounds(1) [of n] by linarith
  qed
  have "?k < 9999"
    using assms(1) years_before_bounds(1) [of n] days_before_year_mono [of 9999 ?k] by linarith
  moreover have "fst (segment ?ws (n - days_before_year ?k)) \<le> 11"
    using segment_fst_le [of ?ws "n - days_before_year ?k"] by (simp add: month_lengths_def)
  moreover have "snd (segment ?ws (n - days_before_year ?k)) < 31"
    by (rule segment_snd_less [OF _ off]) (simp add: month_lengths_def)
  ultimately show "y < 10 ^ 4" "m < 10 ^ 2" "d < 10 ^ 2"
    using assms(2) by (auto simp: ymd_def Let_def split: prod.splits)
qed

lemma ymd_less:
  assumes "a < b" and "ymd a = (y, m, d)" and "ymd b = (y', m', d')"
  shows "y < y' \<or> y = y' \<and> (m < m' \<or> m = m' \<and> d < d')"
proof (cases "years_before a = years_before b")
  case True
  then have "a - days_before_year (years_before a) < b - days_before_year (years_before b)"
    using assms(1) years_before_bounds(1) [of a] by simp
  then show ?thesis
    using segment_less [of _ _ "month_lengths (years_before a + 1)"] True assms(2,3)
    by (fastforce simp: ymd_def Let_def split: prod.splits)
next
  case False
  then have "years_before a < years_before b" using years_before_mono [of a b] assms(1) by simp
  with assms(2,3) show ?thesis by (auto simp: ymd_def Let_def split: prod.splits)
qed

lemma iso_date_less:
  assumes "a < b" and "b < days_before_year 9999"
  shows "iso_date a < iso_date b"
proof -
  obtain y m d where a: "ymd a = (y, m, d)" by (cases "ymd a") auto
  obtain y' m' d' where b: "ymd b = (y', m', d')" by (cases "ymd b") auto
  show ?thesis
    unfolding iso_date_def a b prod.case
    using ymd_less [OF assms(1) a b] ymd_bounds [OF assms(2) b] by (rule padded3_less)
qed

lemma iso_clock_less:
  assumes "r < s" and "s < 86400"
  shows "iso_clock r < iso_clock s"
proof -
  have "s div 3600 < 10 ^ 2" "s mod 3600 div 60 < 10 ^ 2" "s mod 3600 mod 60 < 10 ^ 2"
    using assms(2) by (simp_all add: less_mult_imp_div_less)
  moreover have "r div 3600 < s div 3600 \<or> r div 3600 = s div 3600 \<and>
      (r mod 3600 div 60 < s mod 3600 div 60 \<or>
       r mod 3600 div 60 = s mod 3600 div 60 \<and> r mod 3600 mod 60 < s mod 3600 mod 60)"
    using div_mod_less [OF assms(1), of 3600] div_mod_less [of "r mod 3600" "s mod 3600" 60]
    by blast
  ultimately show ?thesis
    unfolding iso_clock_def by (rule padded3_less [rotated 1])
qed

lemma iso_second_less:
  assumes "a div 1000000 < b div 1000000" and "b < datetime_limit"
  shows "iso_second a < iso_second b"
proof -
  have "b div 1000000 div 86400 < days_before_year 9999"
    using assms(2) unfolding datetime_limit_def by (intro less_mult_imp_div_less)
  then show ?thesis
    using div_mod_less [OF assms(1), of 86400]
    by (auto simp: iso_second_def Let_def text_less iso_date_less iso_clock_less)
qed

lemma iso_second_cong: "a div 1000000 = b div 1000000 \<Longrightarrow> iso_second a = iso_second b"
  by (simp add: iso_second_def)

lemma div_million: "t div 1000000 = t div 1000 div (1000::nat)"
  by (simp add: div_mult2_eq [symmetric])

lemma isoformat_millis_less:
  assumes "a div 1000 < b div 1000" and "b < datetime_limit"
  shows "isoformat_millis a < isoformat_millis b"
  using div_mod_less [OF assms(1), of 1000] iso_second_less [OF _ assms(2)] iso_second_cong [of a b]
  by (auto simp: isoformat_millis_def div_million text_less pad_nat_less)

lemma isoformat_millis_cong: "a div 1000 = b div 1000 \<Longrightarrow> isoformat_millis a = isoformat_millis b"
  using iso_second_cong [of a b] by (simp add: isoformat_millis_def div_million)

lemma isoformat_millis_le:
  assumes "a \<le> b" and "b < datetime_limit"
  shows "isoformat_millis a \<le> isoformat_millis b"
proof (cases "a div 1000 = b div 1000")
  case False
  then have "a div 1000 < b div 1000" using assms(1) by (simp add: div_le_mono le_neq_implies_less)
  from isoformat_millis_less [OF this assms(2)] show ?thesis by simp
next
  case True
  then have "isoformat_millis a = isoformat_millis b" by (rule isoformat_millis_cong)
  then show ?thesis by simp
qed

lemma isoformat_floor_less:
  assumes "a div 1000000 < b div 1000000" and "b < datetime_limit"
  shows "isoformat (floor_second a) < isoformat (floor_second b)"
proof -
  have "floor_second t mod 1000000 = 0" "floor_second t div 1000000 = t div 1000000" for t
    by (simp_all add: floor_second_def minus_mod_eq_mult_div)
  then show ?thesis
    using iso_second_less [OF assms] iso_second_cong [of "floor_second a" a]
      iso_second_cong [of "floor_second b" b]
    by (simp add: isoformat_def text_less)
qed

end
