(* ===== verification/Json_Value.thy ===== *)
theory Json_Value
  imports Py_Datetime
begin

text \<open>
  Python values as they reach metadata, results and database columns: JSON trees, the text
  \<open>json.dumps(value, sort_keys=True)\<close> prints for them with and without \<open>ensure_ascii\<close>, and the
  object graph \<open>_json_safe_value\<close> of core/runtime/execution_tasks.py normalises. A float is kept
  as the text Python prints for it.
\<close>

section \<open>JSON trees and their text\<close>

datatype json =
    JNull
  | JBool bool
  | JInt int
  | JFloat string
  | JStr string
  | JList "json list"
  | JDict "(string \<times> json) list"

definition hex_char :: "nat \<Rightarrow> char" where
  "hex_char n = (if n mod 16 < 10 then char_of (48 + n mod 16) else char_of (87 + n mod 16))"

text \<open>The escapes of \<open>json.dumps\<close>, for code points below 256.\<close>

definition esc_char :: "bool \<Rightarrow> char \<Rightarrow> string" where
  "esc_char ascii c = (let n = of_char c :: nat in
     if n = 34 then [CHR 0x5C, CHR 0x22]
     else if n = 92 then [CHR 0x5C, CHR 0x5C]
     else if n = 10 then [CHR 0x5C, CHR ''n'']
     else if n = 13 then [CHR 0x5C, CHR ''r'']
     else if n = 9 then [CHR 0x5C, CHR ''t'']
     else if n = 12 then [CHR 0x5C, CHR ''f'']
     else if n = 8 then [CHR 0x5C, CHR ''b'']
     else if n < 32 \<or> (ascii \<and> 126 < n)
       then [CHR 0x5C, CHR ''u'', CHR ''0'', CHR ''0'', hex_char (n div 16), hex_char n]
     else [c])"

definition json_quote :: "bool \<Rightarrow> string \<Rightarrow> string" where
  "json_quote ascii s = [CHR 0x22] @ concat (map (esc_char ascii) s) @ [CHR 0x22]"

primrec json_dumps :: "bool \<Rightarrow> json \<Rightarrow> string" where
  "json_dumps ascii JNull = ''null''"
| "json_dumps ascii (JBool b) = (if b then ''true'' else ''false'')"
| "json_dumps ascii (JInt i) = show_int i"
| "json_dumps ascii (JFloat f) = f"
| "json_dumps ascii (JStr s) = json_quote ascii s"
| "json_dumps ascii (JList xs) = ''['' @ str_join '', '' (map (json_dumps ascii) xs) @ '']''"
| "json_dumps ascii (JDict d) = ''{'' @ str_join '', ''
     (map (\<lambda>(k, t). json_quote ascii k @ '': '' @ t)
       (sort_key fst (map (map_prod id (json_dumps ascii)) d))) @ ''}''"

lemma length_esc_char: "1 \<le> length (esc_char ascii c)" "length (esc_char ascii c) \<le> 6"
  by (auto simp: esc_char_def Let_def)

lemma length_json_quote_Nil [simp]: "length (json_quote ascii []) = 2"
  by (simp add: json_quote_def)

lemma length_concat_esc: "length s \<le> length (concat (map (esc_char ascii) s))"
proof (induction s)
  case (Cons c s)
  then show ?case using length_esc_char(1) [of ascii c] by simp
qed simp

text \<open>A string of visible ASCII, such as the output of \<open>json.dumps\<close> with \<open>ensure_ascii\<close>, at most doubles.\<close>

definition visible_ascii :: "string \<Rightarrow> bool" where
  "visible_ascii s \<longleftrightarrow> (\<forall>c\<in>set s. 32 \<le> (of_char c :: nat) \<and> (of_char c :: nat) \<le> 126)"

lemma length_quote_visible:
  "visible_ascii s \<Longrightarrow> length (json_quote ascii s) \<le> 2 * length s + 2"
proof -
  assume "visible_ascii s"
  then have "length (concat (map (esc_char ascii) s)) \<le> 2 * length s"
    by (induction s) (auto simp: visible_ascii_def esc_char_def Let_def)
  then show ?thesis by (simp add: json_quote_def)
qed

section \<open>\<open>str\<close> and \<open>repr\<close>\<close>

definition repr_printable :: "nat \<Rightarrow> bool" where
  "repr_printable n \<longleftrightarrow> (32 \<le> n \<and> n < 127) \<or> (160 < n \<and> n \<noteq> 173)"

definition repr_char :: "char \<Rightarrow> char \<Rightarrow> string" where
  "repr_char q c = (let n = of_char c :: nat in
     if c = q \<or> n = 92 then [CHR 0x5C, c]
     else if n = 10 then [CHR 0x5C, CHR ''n'']
     else if n = 13 then [CHR 0x5C, CHR ''r'']
     else if n = 9 then [CHR 0x5C, CHR ''t'']
     else if repr_printable n then [c]
     else [CHR 0x5C, CHR ''x'', hex_char (n div 16), hex_char n])"

definition repr_string :: "string \<Rightarrow> string" where
  "repr_string s =
     (let q = (if CHR 0x27 \<in> set s \<and> CHR 0x22 \<notin> set s then CHR 0x22 else CHR 0x27)
      in [q] @ concat (map (repr_char q) s) @ [q])"

primrec py_repr :: "json \<Rightarrow> string" where
  "py_repr JNull = ''None''"
| "py_repr (JBool b) = (if b then ''True'' else ''False'')"
| "py_repr (JInt i) = show_int i"
| "py_repr (JFloat f) = f"
| "py_repr (JStr s) = repr_string s"
| "py_repr (JList xs) = ''['' @ str_join '', '' (map py_repr xs) @ '']''"
| "py_repr (JDict d) = ''{'' @ str_join '', ''
     (map (\<lambda>(k, t). repr_string k @ '': '' @ t) (map (map_prod id py_repr) d)) @ ''}''"

fun py_str :: "json \<Rightarrow> string" where
  "py_str (JStr s) = s"
| "py_str v = py_repr v"

text \<open>Truth of a value: \<open>None\<close>, \<open>False\<close>, zero and empty containers are false. A float is zero
  when it prints as zero.\<close>

fun truthy :: "json \<Rightarrow> bool" where
  "truthy JNull = False"
| "truthy (JBool b) = b"
| "truthy (JInt i) = (i \<noteq> 0)"
| "truthy (JFloat f) = (f \<noteq> ''0.0'' \<and> f \<noteq> ''-0.0'')"
| "truthy (JStr s) = (s \<noteq> [])"
| "truthy (JList xs) = (xs \<noteq> [])"
| "truthy (JDict d) = (d \<noteq> [])"

definition json_of_opt :: "string option \<Rightarrow> json" where
  "json_of_opt x = (case x of None \<Rightarrow> JNull | Some s \<Rightarrow> JStr s)"

section \<open>Python object graphs\<close>

text \<open>
  Containers live in a heap and are referred to by their identity (\<open>id(value)\<close>), so that cyclic
  values exist. Keys of a \<open>dict\<close> are given by \<open>str(key)\<close>. A set is the list of its elements
  in iteration order.
\<close>

datatype pyval =
    PyNone
  | PyBool bool
  | PyInt int
  | PyFloat bool string  \<comment> \<open>whether it is finite, and its \<open>repr\<close>\<close>
  | PyStr string
  | PyDatetime datetime
  | PyOther string       \<comment> \<open>any other object, by its \<open>str\<close>\<close>
  | PyRef nat

datatype pycontainer = PyDict "(string \<times> pyval) list" | PySeq "pyval list"

type_synonym pyheap = "pycontainer list"

text \<open>A comprehension \<open>{k: v for ...}\<close>: later duplicates overwrite earlier ones.\<close>

definition dict_of :: "('k \<times> 'v) list \<Rightarrow> ('k, 'v) dict" where
  "dict_of kvs = dict_update [] kvs"

lemma wf_dict_dict_of [simp]: "wf_dict (dict_of kvs)"
  by (simp add: dict_of_def wf_dict_def [of "[]"])

lemma unseen_card_less:
  "i \<notin> set seen \<Longrightarrow> i < (n::nat) \<Longrightarrow> card ({..<n} - set (i # seen)) < card ({..<n} - set seen)"
  by (rule psubset_card_mono) (simp, auto simp: psubset_eq)

function json_safe_value :: "pyheap \<Rightarrow> nat list \<Rightarrow> pyval \<Rightarrow> json" where
  "json_safe_value h seen PyNone = JNull"
| "json_safe_value h seen (PyBool b) = JBool b"
| "json_safe_value h seen (PyInt i) = JInt i"
| "json_safe_value h seen (PyFloat fin r) = (if fin then JFloat r else JStr r)"
| "json_safe_value h seen (PyStr s) = JStr s"
| "json_safe_value h seen (PyDatetime t) = JStr (isoformat t)"
| "json_safe_value h seen (PyOther s) = JStr s"
| "json_safe_value h seen (PyRef i) =
     (if i \<in> set seen then JStr ''<recursive>''
      else if length h \<le> i then JNull
      else case h ! i of
        PyDict d \<Rightarrow> JDict (dict_of (map (\<lambda>(k, v). (k, json_safe_value h (i # seen) v)) d))
      | PySeq xs \<Rightarrow> JList (map (json_safe_value h (i # seen)) xs))"
  by pat_completeness auto
termination
  by (relation "measure (\<lambda>(h, seen, v). card ({..<length h} - set seen))")
    (simp_all add: unseen_card_less not_le del: list.set)

text \<open>Every dictionary of a tree has distinct keys: the trees Python can build.\<close>

primrec wf_json :: "json \<Rightarrow> bool" where
  "wf_json JNull = True"
| "wf_json (JBool b) = True"
| "wf_json (JInt i) = True"
| "wf_json (JFloat f) = True"
| "wf_json (JStr s) = True"
| "wf_json (JList xs) = list_all id (map wf_json xs)"
| "wf_json (JDict d) = (wf_dict d \<and> list_all (id o snd) (map (map_prod id wf_json) d))"

lemma set_dict_of: "set (dict_of kvs) \<subseteq> set kvs"
proof -
  have "set (fold (\<lambda>(k, v). AList.update k v) kvs d) \<subseteq> set d \<union> set kvs" for d
  proof (induction kvs arbitrary: d)
    case (Cons kv kvs)
    have "set (AList.update (fst kv) (snd kv) d) \<subseteq> insert kv (set d)"
      by (induction d) auto
    with Cons [of "AList.update (fst kv) (snd kv) d"] show ?case
      by (auto simp: split_beta)
  qed simp
  from this [of "[]"] show ?thesis by (simp add: dict_of_def dict_update_def)
qed

lemma wf_json_safe_value: "wf_json (json_safe_value h seen v)"
proof (induction h seen v rule: json_safe_value.induct)
  case (8 h seen i)
  show ?case
  proof (cases "i \<in> set seen \<or> length h \<le> i")
    case False
    show ?thesis
    proof (cases "h ! i")
      case (PyDict d)
      with False 8 show ?thesis
        by (auto simp: list_all_iff dest!: set_mp [OF set_dict_of])
    next
      case (PySeq xs)
      with False 8 show ?thesis by (auto simp: list_all_iff)
    qed
  qed auto
qed auto

end
