(* ===== verification/Identity.thy ===== *)
theory Identity
  imports Py_Prelude
begin

text \<open>
  Principals, execution authority and the authorization policy
  (core/identity/models.py, core/identity/authorization.py, core/identity/context.py).
  The context variable of context.py is an explicit \<open>ExecutionAuthority option\<close>.
\<close>

section \<open>core/identity/models.py\<close>

definition LOCAL_USER_PRINCIPAL_ID :: string where
  "LOCAL_USER_PRINCIPAL_ID = ''local-user''"

definition SYSTEM_PRINCIPAL_ID :: string where
  "SYSTEM_PRINCIPAL_ID = ''system''"

datatype PrincipalType = USER | SYSTEM

definition normalize_principal_id :: "string \<Rightarrow> string result" where
  "normalize_principal_id v =
     (let normalized = strip v in
      if normalized = [] then Inl (ValueError ''Principal ID cannot be empty.'')
      else if length normalized > 128 then Inl (ValueError ''Principal ID cannot exceed 128 characters.'')
      else if list_ex py_isspace normalized
        then Inl (ValueError ''Principal ID cannot contain whitespace.'')
      else Inr normalized)"

record Principal =
  p_principal_id :: string
  p_principal_type :: PrincipalType
  p_roles :: "string list"

record ExecutionAuthority =
  ea_principal_id :: string

text \<open>Construction runs \<open>__post_init__\<close>, which stores the normalized identifier or raises.\<close>

definition new_Principal :: "string \<Rightarrow> PrincipalType \<Rightarrow> string list \<Rightarrow> Principal result" where
  "new_Principal pid ptype roles = rbind (normalize_principal_id pid)
     (\<lambda>n. Inr \<lparr>p_principal_id = n, p_principal_type = ptype, p_roles = roles\<rparr>)"

definition new_ExecutionAuthority :: "string \<Rightarrow> ExecutionAuthority result" where
  "new_ExecutionAuthority pid = rbind (normalize_principal_id pid) (\<lambda>n. Inr \<lparr>ea_principal_id = n\<rparr>)"

definition from_principal :: "Principal \<Rightarrow> ExecutionAuthority result" where
  "from_principal p = new_ExecutionAuthority (p_principal_id p)"

definition LOCAL_USER_PRINCIPAL :: Principal where
  "LOCAL_USER_PRINCIPAL =
     \<lparr>p_principal_id = LOCAL_USER_PRINCIPAL_ID, p_principal_type = USER, p_roles = [''admin'']\<rparr>"

definition SYSTEM_PRINCIPAL :: Principal where
  "SYSTEM_PRINCIPAL =
     \<lparr>p_principal_id = SYSTEM_PRINCIPAL_ID, p_principal_type = SYSTEM, p_roles = []\<rparr>"

definition LOCAL_USER_AUTHORITY :: ExecutionAuthority where
  "LOCAL_USER_AUTHORITY = \<lparr>ea_principal_id = LOCAL_USER_PRINCIPAL_ID\<rparr>"

definition SYSTEM_AUTHORITY :: ExecutionAuthority where
  "SYSTEM_AUTHORITY = \<lparr>ea_principal_id = SYSTEM_PRINCIPAL_ID\<rparr>"

section \<open>core/identity/authorization.py\<close>

text \<open>The arguments are the identifiers the protocol classes expose.\<close>

definition can_access_session :: "string \<Rightarrow> string \<Rightarrow> bool" where
  "can_access_session principal_id owner_principal_id \<longleftrightarrow> owner_principal_id = principal_id"

definition require_session_access :: "string \<Rightarrow> string \<Rightarrow> unit result" where
  "require_session_access principal_id owner_principal_id =
     (if can_access_session principal_id owner_principal_id then Inr ()
      else Inl (AuthorizationError ''The principal cannot access this chat session.''))"

definition can_access_execution_task :: "string \<Rightarrow> string \<Rightarrow> bool" where
  "can_access_execution_task principal_id task_principal_id \<longleftrightarrow>
     principal_id = LOCAL_USER_PRINCIPAL_ID \<or> task_principal_id = principal_id"

definition require_execution_task_access :: "string \<Rightarrow> string \<Rightarrow> unit result" where
  "require_execution_task_access principal_id task_principal_id =
     (if can_access_execution_task principal_id task_principal_id then Inr ()
      else Inl (AuthorizationError ''The principal cannot access this execution task.''))"

section \<open>core/identity/context.py\<close>

definition require_current_execution_authority :: "ExecutionAuthority option \<Rightarrow> ExecutionAuthority result" where
  "require_current_execution_authority ctx =
     (case ctx of None \<Rightarrow> Inl (RuntimeError ''Execution authority is required for this operation.'')
      | Some authority \<Rightarrow> Inr authority)"

text \<open>
  The body runs with the authority installed; whatever it returns or raises, the variable has
  its old value afterwards.
\<close>

definition use_execution_authority ::
  "ExecutionAuthority \<Rightarrow> (ExecutionAuthority option \<Rightarrow> 'r \<times> ExecutionAuthority option) \<Rightarrow>
   ExecutionAuthority option \<Rightarrow> 'r \<times> ExecutionAuthority option" where
  "use_execution_authority authority body ctx = (fst (body (Some authority)), ctx)"

section \<open>Facts\<close>

text \<open>What an accepted identifier looks like.\<close>

definition valid_principal_id :: "string \<Rightarrow> bool" where
  "valid_principal_id s \<longleftrightarrow> s \<noteq> [] \<and> length s \<le> 128 \<and> (\<forall>c\<in>set s. \<not> py_isspace c)"

lemma normalize_principal_id_valid:
  "normalize_principal_id v = Inr n \<Longrightarrow> valid_principal_id n \<and> n = strip v"
  by (auto simp: normalize_principal_id_def valid_principal_id_def Let_def list_ex_iff split: if_splits)

lemma normalize_valid: "valid_principal_id s \<Longrightarrow> normalize_principal_id s = Inr s"
  by (auto simp: normalize_principal_id_def valid_principal_id_def Let_def list_ex_iff
      strip_idem_of_no_space)

lemma new_ExecutionAuthority_valid:
  "new_ExecutionAuthority pid = Inr a \<Longrightarrow> valid_principal_id (ea_principal_id a)"
  by (auto simp: new_ExecutionAuthority_def dest: normalize_principal_id_valid)

lemma well_known_valid:
  "valid_principal_id LOCAL_USER_PRINCIPAL_ID" "valid_principal_id SYSTEM_PRINCIPAL_ID"
  by (simp_all add: valid_principal_id_def LOCAL_USER_PRINCIPAL_ID_def SYSTEM_PRINCIPAL_ID_def
      py_isspace_def Let_def)

lemma well_known_authorities:
  "new_Principal LOCAL_USER_PRINCIPAL_ID USER [''admin''] = Inr LOCAL_USER_PRINCIPAL"
  "new_Principal SYSTEM_PRINCIPAL_ID SYSTEM [] = Inr SYSTEM_PRINCIPAL"
  "from_principal LOCAL_USER_PRINCIPAL = Inr LOCAL_USER_AUTHORITY"
  "from_principal SYSTEM_PRINCIPAL = Inr SYSTEM_AUTHORITY"
  by (simp_all add: new_Principal_def from_principal_def new_ExecutionAuthority_def
      LOCAL_USER_PRINCIPAL_def SYSTEM_PRINCIPAL_def LOCAL_USER_AUTHORITY_def SYSTEM_AUTHORITY_def
      normalize_valid well_known_valid)

end
