(* ===== verification/Execution_Tasks.thy ===== *)
theory Execution_Tasks
  imports Json_Value Identity
begin

text \<open>
  The process-local execution task coordinator (core/runtime/execution_tasks.py): its data,
  and one definition per operation of \<open>TaskCoordinator\<close>.

  Concurrency. Every section under \<open>self._lock\<close> runs without an await, so the lock is never
  contended, and awaiting another operation of the coordinator runs it to its end before the
  event loop gets control back. An operation other than \<open>wait_for_tasks\<close> is therefore one state
  transformer here, and interleavings of tasks are sequences of operations.

  Environment. The clock is an arbitrary sequence of readings (\<open>c_clock\<close>, read in order), a task
  handle is the identity of an asyncio task, \<open>c_done_handles\<close> are the handles whose task has ended
  and \<open>c_cancel_calls\<close> the calls of \<open>handle.cancel()\<close>. The log and the calls of the terminal
  observers are output fields; \<open>c_notifies\<close> counts the calls of \<open>notify_all\<close>.

  Recursion. \<open>cancel_task\<close> and \<open>mark_cancelled\<close> call each other along the parent-child tree. The
  model has fuel for the depth of that recursion and is \<^const>\<open>None\<close> without enough of it; the
  theory of properties shows that one unit more than the number of records is enough.
\<close>

section \<open>Data\<close>

datatype ExecutionTaskStatus = QUEUED | RUNNING | COMPLETED | FAILED | CANCELLED | TIMED_OUT | SKIPPED

fun status_value :: "ExecutionTaskStatus \<Rightarrow> string" where
  "status_value QUEUED = ''queued''"
| "status_value RUNNING = ''running''"
| "status_value COMPLETED = ''completed''"
| "status_value FAILED = ''failed''"
| "status_value CANCELLED = ''cancelled''"
| "status_value TIMED_OUT = ''timed_out''"
| "status_value SKIPPED = ''skipped''"

datatype ExecutionTaskKind =
    CHAT | DELEGATE | WORKFLOW | HISTORY_COMPACTION | SESSION_MAP_AUTHORING
  | CONTEXT_STRATEGY_UPGRADE | INGESTION

fun kind_value :: "ExecutionTaskKind \<Rightarrow> string" where
  "kind_value CHAT = ''chat''"
| "kind_value DELEGATE = ''delegate''"
| "kind_value WORKFLOW = ''workflow''"
| "kind_value HISTORY_COMPACTION = ''history_compaction''"
| "kind_value SESSION_MAP_AUTHORING = ''session_map_authoring''"
| "kind_value CONTEXT_STRATEGY_UPGRADE = ''context_strategy_upgrade''"
| "kind_value INGESTION = ''ingestion''"

datatype ExecutionTaskSource = API_SOURCE | SCHEDULER_SOURCE | TOOL_SOURCE | SYSTEM_SOURCE

fun source_value :: "ExecutionTaskSource \<Rightarrow> string" where
  "source_value API_SOURCE = ''api''"
| "source_value SCHEDULER_SOURCE = ''scheduler''"
| "source_value TOOL_SOURCE = ''tool''"
| "source_value SYSTEM_SOURCE = ''system''"

definition TERMINAL_STATUSES :: "ExecutionTaskStatus set" where
  "TERMINAL_STATUSES = {COMPLETED, FAILED, CANCELLED, TIMED_OUT, SKIPPED}"

definition TERMINAL_STATUS_VALUES :: "string set" where
  "TERMINAL_STATUS_VALUES = status_value ` TERMINAL_STATUSES"

definition EXECUTION_TASK_RESULT_MAX_CHARS :: nat where
  "EXECUTION_TASK_RESULT_MAX_CHARS = 65536"

definition EXECUTION_TASK_ACTIVITY_TEXT_MAX_CHARS :: nat where
  "EXECUTION_TASK_ACTIVITY_TEXT_MAX_CHARS = 500"

definition chat_session_scope :: "string \<Rightarrow> string" where
  "chat_session_scope session_id = ''chat_session:'' @ session_id"

definition workflow_vault_scope :: "string \<Rightarrow> string" where
  "workflow_vault_scope vault_name = ''workflow_vault:'' @ vault_name"

definition ingestion_vault_scope :: "string \<Rightarrow> string" where
  "ingestion_vault_scope vault_name = ''ingestion_vault:'' @ vault_name"

definition chat_task_label :: "string \<Rightarrow> string" where
  "chat_task_label session_id = ''chat:'' @ session_id"

definition ingestion_task_label :: "int \<Rightarrow> string" where
  "ingestion_task_label job_id = ''ingestion:'' @ show_int job_id"

definition compaction_task_label :: "string \<Rightarrow> string" where
  "compaction_task_label session_id = ''compact:'' @ session_id"

definition session_map_task_label :: "string \<Rightarrow> string" where
  "session_map_task_label session_id = ''session-map:'' @ session_id"

definition context_strategy_upgrade_task_label :: "string \<Rightarrow> string" where
  "context_strategy_upgrade_task_label session_id = ''upgrade-context:'' @ session_id"

type_synonym metadata = "(string, json) dict"

definition clean_goal_context_value :: "json \<Rightarrow> string option" where
  "clean_goal_context_value v =
     (if v = JNull then None
      else (let text = strip (py_str v) in if text = [] then None else Some text))"

definition goal_task_metadata :: "string option \<Rightarrow> string option \<Rightarrow> metadata" where
  "goal_task_metadata goal_id step_id =
     (case clean_goal_context_value (json_of_opt goal_id) of
        None \<Rightarrow> [] | Some g \<Rightarrow> [(''goal_id'', JStr g)]) @
     (case clean_goal_context_value (json_of_opt step_id) of
        None \<Rightarrow> [] | Some s \<Rightarrow> [(''step_id'', JStr s)])"

text \<open>\<open>metadata.get(key)\<close> gives \<open>None\<close> for a missing key.\<close>

definition meta_get :: "metadata \<Rightarrow> string \<Rightarrow> json" where
  "meta_get m k = (case map_of m k of None \<Rightarrow> JNull | Some v \<Rightarrow> v)"

definition goal_context_from_metadata :: "metadata option \<Rightarrow> string option \<times> string option" where
  "goal_context_from_metadata metadata =
     (case metadata of None \<Rightarrow> (None, None)
      | Some m \<Rightarrow> (clean_goal_context_value (meta_get m ''goal_id''),
                  clean_goal_context_value (meta_get m ''step_id'')))"

record ExecutionTaskSnapshot =
  ts_task_id :: string
  ts_kind :: string
  ts_scope :: string
  ts_source :: string
  ts_label :: string
  ts_principal_id :: string
  ts_status :: string
  ts_created_at :: datetime
  ts_started_at :: "datetime option"
  ts_finished_at :: "datetime option"
  ts_cancel_requested :: bool
  ts_terminal_reason :: "string option"
  ts_terminal_error_type :: "string option"
  ts_latest_event :: "string option"
  ts_parent_task_id :: "string option"
  ts_detached_from_parent_lifecycle :: bool
  ts_revision :: int
  ts_last_heartbeat_at :: "datetime option"
  ts_heartbeat_status :: "string option"
  ts_last_progress_at :: "datetime option"
  ts_health_status :: string
  ts_result :: "metadata option"
  ts_result_truncated :: bool
  ts_metadata :: metadata

definition is_terminal :: "ExecutionTaskSnapshot \<Rightarrow> bool" where
  "is_terminal s \<longleftrightarrow> ts_status s \<in> TERMINAL_STATUS_VALUES"

record ExecutionTaskCancellationResult =
  cr_snapshot :: ExecutionTaskSnapshot
  cr_effective :: bool

record ExecutionTaskWaitResult =
  wr_snapshots :: "ExecutionTaskSnapshot list"
  wr_timed_out :: bool

record ExecutionTaskRecord =
  tr_task_id :: string
  tr_kind :: string
  tr_scope :: string
  tr_source :: string
  tr_label :: string
  tr_authority :: ExecutionAuthority
  tr_status :: ExecutionTaskStatus
  tr_created_at :: datetime
  tr_started_at :: "datetime option"
  tr_finished_at :: "datetime option"
  tr_cancel_requested :: bool
  tr_terminal_reason :: "string option"
  tr_terminal_error_type :: "string option"
  tr_latest_event :: "string option"
  tr_parent_task_id :: "string option"
  tr_detached_from_parent_lifecycle :: bool
  tr_revision :: int
  tr_last_heartbeat_at :: "datetime option"
  tr_heartbeat_status :: "string option"
  tr_last_progress_at :: "datetime option"
  tr_health_status :: string
  tr_result :: "metadata option"
  tr_result_truncated :: bool
  tr_metadata :: metadata
  tr_handle :: "nat option"
  tr_awaiting_handle :: bool
  tr_accepting_children :: bool

definition snapshot :: "ExecutionTaskRecord \<Rightarrow> ExecutionTaskSnapshot" where
  "snapshot r =
     \<lparr>ts_task_id = tr_task_id r, ts_kind = tr_kind r, ts_scope = tr_scope r,
      ts_source = tr_source r, ts_label = tr_label r,
      ts_principal_id = ea_principal_id (tr_authority r), ts_status = status_value (tr_status r),
      ts_created_at = tr_created_at r, ts_started_at = tr_started_at r,
      ts_finished_at = tr_finished_at r, ts_cancel_requested = tr_cancel_requested r,
      ts_terminal_reason = tr_terminal_reason r, ts_terminal_error_type = tr_terminal_error_type r,
      ts_latest_event = tr_latest_event r, ts_parent_task_id = tr_parent_task_id r,
      ts_detached_from_parent_lifecycle = tr_detached_from_parent_lifecycle r,
      ts_revision = tr_revision r, ts_last_heartbeat_at = tr_last_heartbeat_at r,
      ts_heartbeat_status = tr_heartbeat_status r, ts_last_progress_at = tr_last_progress_at r,
      ts_health_status = tr_health_status r, ts_result = tr_result r,
      ts_result_truncated = tr_result_truncated r, ts_metadata = tr_metadata r\<rparr>"

abbreviation rec_terminal :: "ExecutionTaskRecord \<Rightarrow> bool" where
  "rec_terminal r \<equiv> tr_status r \<in> TERMINAL_STATUSES"

section \<open>Coordinator state\<close>

datatype log_level = Log_Info | Log_Warning | Log_Error

record log_entry =
  le_level :: log_level
  le_validation_only :: bool
  le_event :: string
  le_data :: metadata

text \<open>An observer by its name, with the exception (type and text) it raises, if any.\<close>

type_synonym terminal_observer = "string \<times> (ExecutionTaskSnapshot \<Rightarrow> (string \<times> string) option)"

record TaskCoordinator =
  c_records :: "(string, ExecutionTaskRecord) dict"
  c_terminal_order :: "string list"
  c_terminal_history_limit :: nat
  c_accepting_tasks :: bool
  c_terminal_observers :: "terminal_observer list"
  c_clock :: "nat \<Rightarrow> datetime"
  c_clock_reads :: nat
  c_notifies :: nat
  c_log :: "log_entry list"
  c_notified :: "(string \<times> ExecutionTaskSnapshot) list"
  c_done_handles :: "nat list"
  c_cancel_calls :: "nat list"

definition new_TaskCoordinator :: "int \<Rightarrow> terminal_observer list \<Rightarrow> (nat \<Rightarrow> datetime) \<Rightarrow> TaskCoordinator" where
  "new_TaskCoordinator terminal_history_limit observers clock =
     \<lparr>c_records = [], c_terminal_order = [],
      c_terminal_history_limit = nat (max 1 terminal_history_limit),
      c_accepting_tasks = True, c_terminal_observers = observers,
      c_clock = clock, c_clock_reads = 0, c_notifies = 0, c_log = [], c_notified = [],
      c_done_handles = [], c_cancel_calls = []\<rparr>"

abbreviation find_record :: "TaskCoordinator \<Rightarrow> string \<Rightarrow> ExecutionTaskRecord option" where
  "find_record c \<equiv> map_of (c_records c)"

definition put_record :: "string \<Rightarrow> ExecutionTaskRecord \<Rightarrow> TaskCoordinator \<Rightarrow> TaskCoordinator" where
  "put_record tid r c = c\<lparr>c_records := AList.update tid r (c_records c)\<rparr>"

definition notify_all :: "TaskCoordinator \<Rightarrow> TaskCoordinator" where
  "notify_all c = c\<lparr>c_notifies := Suc (c_notifies c)\<rparr>"

text \<open>\<open>self._now()\<close>: the next reading, and the state in which it has been read.\<close>

definition now_reading :: "TaskCoordinator \<Rightarrow> datetime" where
  "now_reading c = c_clock c (c_clock_reads c)"

definition after_now :: "TaskCoordinator \<Rightarrow> TaskCoordinator" where
  "after_now c = c\<lparr>c_clock_reads := Suc (c_clock_reads c)\<rparr>"

text \<open>\<open>_touch\<close> bumps the revision of the record (here) and notifies the condition (\<open>notify_all\<close>).\<close>

definition touch_record :: "ExecutionTaskRecord \<Rightarrow> ExecutionTaskRecord" where
  "touch_record r = r\<lparr>tr_revision := tr_revision r + 1\<rparr>"

definition new_task_id :: "string \<Rightarrow> string" where
  "new_task_id uuid_hex = ''task_'' @ uuid_hex"

section \<open>Logging and observers\<close>

definition bound_activity_text :: "string option \<Rightarrow> string option" where
  "bound_activity_text v =
     (case v of None \<Rightarrow> None
      | Some s \<Rightarrow> if length s \<le> EXECUTION_TASK_ACTIVITY_TEXT_MAX_CHARS then Some s
                 else Some (take EXECUTION_TASK_ACTIVITY_TEXT_MAX_CHARS s @ ''...''))"

definition opt_truthy :: "string option \<Rightarrow> bool" where
  "opt_truthy v \<longleftrightarrow> v \<noteq> None \<and> v \<noteq> Some []"

definition or_else :: "string option \<Rightarrow> string \<Rightarrow> string" where
  "or_else v d = (case v of None \<Rightarrow> d | Some s \<Rightarrow> if s = [] then d else s)"

definition log_event_entry :: "string \<Rightarrow> ExecutionTaskSnapshot \<Rightarrow> metadata \<Rightarrow> log_entry" where
  "log_event_entry event s extra =
     (let terminal_reason = bound_activity_text (ts_terminal_reason s);
          data = [(''event'', JStr event), (''task_id'', JStr (ts_task_id s)),
                  (''kind'', JStr (ts_kind s)), (''scope'', JStr (ts_scope s)),
                  (''source'', JStr (ts_source s)), (''label'', JStr (ts_label s)),
                  (''principal_id'', JStr (ts_principal_id s)),
                  (''parent_task_id'', json_of_opt (ts_parent_task_id s)),
                  (''detached_from_parent_lifecycle'', JBool (ts_detached_from_parent_lifecycle s)),
                  (''status'', JStr (ts_status s)), (''cancel_requested'', JBool (ts_cancel_requested s)),
                  (''terminal_reason'', json_of_opt terminal_reason),
                  (''last_heartbeat_at'', json_of_opt (map_option isoformat (ts_last_heartbeat_at s))),
                  (''heartbeat_status'', json_of_opt (ts_heartbeat_status s))];
          (goal_id, step_id) = goal_context_from_metadata (Some (ts_metadata s));
          data = (case goal_id of None \<Rightarrow> data | Some g \<Rightarrow> AList.update ''goal_id'' (JStr g) data);
          data = (case step_id of None \<Rightarrow> data | Some g \<Rightarrow> AList.update ''step_id'' (JStr g) data);
          data = (if opt_truthy terminal_reason
                  then AList.update ''reason'' (json_of_opt terminal_reason) data else data);
          data = (if event = ''execution_task_failed''
                  then AList.update ''error_type''
                         (JStr (or_else (ts_terminal_error_type s) ''ExecutionTaskFailure''))
                         (AList.update ''error'' (JStr (or_else terminal_reason ''Execution task failed'')) data)
                  else data);
          data = dict_update data extra;
          validation_only = event \<in> {''execution_task_metadata_updated'', ''execution_task_heartbeat''}
      in if event = ''execution_task_failed''
         then \<lparr>le_level = Log_Error, le_validation_only = validation_only, le_event = event, le_data = data\<rparr>
         else if event = ''execution_task_timed_out''
         then \<lparr>le_level = Log_Warning, le_validation_only = validation_only, le_event = event,
               le_data = AList.update ''issue'' (JStr (''execution_task_timeout:'' @ ts_task_id s)) data\<rparr>
         else \<lparr>le_level = Log_Info, le_validation_only = validation_only, le_event = event, le_data = data\<rparr>)"

definition log_event :: "string \<Rightarrow> ExecutionTaskSnapshot \<Rightarrow> metadata \<Rightarrow> TaskCoordinator \<Rightarrow> TaskCoordinator" where
  "log_event event s extra c = c\<lparr>c_log := c_log c @ [log_event_entry event s extra]\<rparr>"

definition observer_failed_entry :: "string \<Rightarrow> string \<times> string \<Rightarrow> ExecutionTaskSnapshot \<Rightarrow> log_entry" where
  "observer_failed_entry name exc s =
     \<lparr>le_level = Log_Error, le_validation_only = False,
      le_event = ''execution_task_terminal_observer_failed'',
      le_data = [(''event'', JStr ''execution_task_terminal_observer_failed''),
                 (''task_id'', JStr (ts_task_id s)), (''kind'', JStr (ts_kind s)),
                 (''status'', JStr (ts_status s)), (''observer'', JStr name),
                 (''error_type'', JStr (fst exc)), (''error'', JStr (snd exc))]\<rparr>"

definition notify_observer :: "ExecutionTaskSnapshot \<Rightarrow> terminal_observer \<Rightarrow> TaskCoordinator \<Rightarrow> TaskCoordinator" where
  "notify_observer s obs c =
     (let c' = c\<lparr>c_notified := c_notified c @ [(fst obs, s)]\<rparr>
      in case snd obs s of
           None \<Rightarrow> c'
         | Some exc \<Rightarrow> c'\<lparr>c_log := c_log c' @ [observer_failed_entry (fst obs) exc s]\<rparr>)"

definition notify_terminal_observers :: "ExecutionTaskSnapshot \<Rightarrow> TaskCoordinator \<Rightarrow> TaskCoordinator" where
  "notify_terminal_observers s c = fold (notify_observer s) (c_terminal_observers c) c"

section \<open>Bounded results\<close>

definition serialize_json :: "json \<Rightarrow> string" where
  "serialize_json v = json_dumps False v"

fun preserve_references :: "json list \<Rightarrow> json list \<Rightarrow> json list" where
  "preserve_references kept [] = kept"
| "preserve_references kept (r # rs) =
     (if length (serialize_json (JList (kept @ [r]))) > 4096 then kept
      else preserve_references (kept @ [r]) rs)"

definition bounded_base :: "metadata \<Rightarrow> metadata" where
  "bounded_base normalized =
     (let bounded = [(''truncated'', JBool True)]
      in case map_of normalized ''artifact_references'' of
           Some (JList refs) \<Rightarrow>
             (let preserved = preserve_references [] (take 50 refs)
              in if preserved = [] then bounded
                 else bounded @ [(''artifact_references'', JList preserved)])
         | _ \<Rightarrow> bounded)"

definition with_preview :: "metadata \<Rightarrow> string \<Rightarrow> json" where
  "with_preview bounded preview = JDict (bounded @ [(''preview'', JStr preview)])"

text \<open>The loop that shortens the preview; \<^const>\<open>None\<close> would mean that it does not end.\<close>

partial_function (option) shrink_preview :: "metadata \<Rightarrow> string \<Rightarrow> string option" where
  "shrink_preview bounded preview =
     (let size = length (serialize_json (with_preview bounded preview))
      in if size > EXECUTION_TASK_RESULT_MAX_CHARS
         then shrink_preview bounded
                (take (length preview - (size - EXECUTION_TASK_RESULT_MAX_CHARS)) preview)
         else Some preview)"

definition bound_execution_task_result :: "pyheap \<Rightarrow> pyval \<Rightarrow> (metadata \<times> bool) option" where
  "bound_execution_task_result h result =
     (let normalized = (case json_safe_value h [] result of JDict d \<Rightarrow> d | v \<Rightarrow> [(''value'', v)]);
          serialized = serialize_json (JDict normalized)
      in if length serialized \<le> EXECUTION_TASK_RESULT_MAX_CHARS then Some (normalized, False)
         else (let bounded = bounded_base normalized;
                   preview_budget = EXECUTION_TASK_RESULT_MAX_CHARS
                                      - length (serialize_json (JDict bounded)) - 32
               in map_option (\<lambda>preview. (bounded @ [(''preview'', JStr preview)], True))
                    (shrink_preview bounded (take preview_budget serialized))))"

section \<open>Reading operations\<close>

definition get_task :: "string \<Rightarrow> TaskCoordinator \<Rightarrow> ExecutionTaskSnapshot option" where
  "get_task tid c = map_option snapshot (find_record c tid)"

definition list_tasks :: "string option \<Rightarrow> string option \<Rightarrow> bool \<Rightarrow> TaskCoordinator \<Rightarrow> ExecutionTaskSnapshot list" where
  "list_tasks kind scope include_terminal c =
     sort_key ts_created_at
       (map (snapshot \<circ> snd)
         (filter (\<lambda>(_, r). (kind = None \<or> kind = Some (tr_kind r)) \<and>
                          (scope = None \<or> scope = Some (tr_scope r)) \<and>
                          (include_terminal \<or> \<not> rec_terminal r)) (c_records c)))"

definition list_child_tasks :: "string \<Rightarrow> bool \<Rightarrow> TaskCoordinator \<Rightarrow> ExecutionTaskSnapshot list" where
  "list_child_tasks parent_task_id include_terminal c =
     sort_key ts_created_at
       (map (snapshot \<circ> snd)
         (filter (\<lambda>(_, r). tr_parent_task_id r = Some parent_task_id \<and>
                          (include_terminal \<or> \<not> rec_terminal r)) (c_records c)))"

definition snapshots_for_ids :: "string list \<Rightarrow> TaskCoordinator \<Rightarrow> ExecutionTaskSnapshot list" where
  "snapshots_for_ids ids c = List.map_filter (\<lambda>tid. get_task tid c) ids"

section \<open>Creating and starting records\<close>

definition new_record ::
  "string \<Rightarrow> string \<Rightarrow> string \<Rightarrow> string \<Rightarrow> string \<Rightarrow> ExecutionAuthority \<Rightarrow> nat option \<Rightarrow> metadata option \<Rightarrow>
   string option \<Rightarrow> bool \<Rightarrow> bool \<Rightarrow> datetime \<Rightarrow> ExecutionTaskRecord" where
  "new_record tid kind scope source label authority handle metadata parent detached awaiting t =
     \<lparr>tr_task_id = tid, tr_kind = kind, tr_scope = scope, tr_source = source, tr_label = label,
      tr_authority = authority, tr_status = QUEUED, tr_created_at = t, tr_started_at = None,
      tr_finished_at = None, tr_cancel_requested = False, tr_terminal_reason = None,
      tr_terminal_error_type = None, tr_latest_event = None, tr_parent_task_id = parent,
      tr_detached_from_parent_lifecycle = detached, tr_revision = 0, tr_last_heartbeat_at = Some t,
      tr_heartbeat_status = Some ''queued'', tr_last_progress_at = Some t,
      tr_health_status = ''healthy'', tr_result = None, tr_result_truncated = False,
      tr_metadata = dict_setdefault ''heartbeat_status'' (JStr ''queued'')
                      (dict_setdefault ''last_heartbeat_at'' (JStr (isoformat t))
                        (case metadata of None \<Rightarrow> [] | Some m \<Rightarrow> m)),
      tr_handle = handle, tr_awaiting_handle = awaiting, tr_accepting_children = True\<rparr>"

definition create_record ::
  "string \<Rightarrow> string \<Rightarrow> string \<Rightarrow> string \<Rightarrow> string \<Rightarrow> ExecutionAuthority \<Rightarrow> nat option \<Rightarrow> metadata option \<Rightarrow>
   string option \<Rightarrow> bool \<Rightarrow> bool \<Rightarrow> TaskCoordinator \<Rightarrow> unit result \<times> TaskCoordinator" where
  "create_record tid kind scope source label authority handle metadata parent_task_id detached awaiting c =
     (let record = new_record tid kind scope source label authority handle metadata parent_task_id
                     detached awaiting (now_reading c);
          c = after_now c;
          admitted = log_event ''execution_task_created'' (snapshot record) []
                       (notify_all (put_record tid record c))
      in if \<not> c_accepting_tasks c
         then (Inl (RuntimeError ''Execution task coordinator is shutting down''), c)
         else case parent_task_id of
           None \<Rightarrow> (Inr (), admitted)
         | Some pid \<Rightarrow>
             (case find_record c pid of
                None \<Rightarrow> (Inl (RuntimeError (''Parent execution task not found: '' @ pid)), c)
              | Some parent \<Rightarrow>
                  if tr_authority parent \<noteq> authority
                  then (Inl (RuntimeError (''Child execution authority must match its parent: '' @ pid)), c)
                  else if rec_terminal parent \<or> \<not> tr_accepting_children parent
                  then (Inl (RuntimeError
                         (''Parent execution task is no longer accepting children: '' @ pid)), c)
                  else (Inr (), admitted)))"

definition create_queued_task ::
  "string \<Rightarrow> string \<Rightarrow> string \<Rightarrow> string \<Rightarrow> string \<Rightarrow> ExecutionAuthority \<Rightarrow> metadata option \<Rightarrow>
   string option \<Rightarrow> bool \<Rightarrow> bool \<Rightarrow> TaskCoordinator \<Rightarrow> ExecutionTaskSnapshot result \<times> TaskCoordinator" where
  "create_queued_task uuid_hex kind scope source label authority metadata parent_task_id detached awaiting c =
     (let tid = new_task_id uuid_hex
      in case create_record tid kind scope source label authority None metadata parent_task_id
                detached awaiting c of
           (Inl e, c) \<Rightarrow> (Inl e, c)
         | (Inr _, c) \<Rightarrow>
             (case get_task tid c of
                None \<Rightarrow> (Inl (RuntimeError (''Execution task disappeared: '' @ tid)), c)
              | Some s \<Rightarrow> (Inr s, c)))"

definition heartbeat_metadata :: "datetime \<Rightarrow> string \<Rightarrow> metadata \<Rightarrow> metadata" where
  "heartbeat_metadata t status m =
     AList.update ''heartbeat_status'' (JStr status)
       (AList.update ''last_heartbeat_at'' (JStr (isoformat t)) m)"

definition started_record :: "datetime \<Rightarrow> ExecutionTaskRecord \<Rightarrow> ExecutionTaskRecord" where
  "started_record t r = touch_record
     (r\<lparr>tr_status := RUNNING, tr_started_at := Some t, tr_latest_event := Some ''started'',
        tr_last_heartbeat_at := Some t, tr_heartbeat_status := Some ''started'',
        tr_last_progress_at := Some t,
        tr_metadata := heartbeat_metadata t ''started'' (tr_metadata r)\<rparr>)"

definition mark_started :: "string \<Rightarrow> TaskCoordinator \<Rightarrow> unit result \<times> TaskCoordinator" where
  "mark_started tid c =
     (case find_record c tid of
        None \<Rightarrow> (Inr (), c)
      | Some r \<Rightarrow>
          if tr_status r \<noteq> QUEUED
          then (Inl (RuntimeError (''Execution task cannot start from '' @ status_value (tr_status r)
                                    @ '': '' @ tid)), c)
          else if tr_cancel_requested r
          then (Inl (RuntimeError (''Execution task cannot start after cancellation: '' @ tid)), c)
          else (let r' = started_record (now_reading c) r
                in (Inr (), log_event ''execution_task_started'' (snapshot r') []
                              (notify_all (put_record tid r' (after_now c))))))"

section \<open>Progress of a running record\<close>

definition update_metadata :: "string \<Rightarrow> metadata \<Rightarrow> TaskCoordinator \<Rightarrow> TaskCoordinator" where
  "update_metadata tid metadata c =
     (case find_record c tid of
        None \<Rightarrow> c
      | Some r \<Rightarrow>
          (let r' = touch_record (r\<lparr>tr_metadata := dict_update (tr_metadata r) metadata\<rparr>)
           in log_event ''execution_task_metadata_updated'' (snapshot r') []
                (notify_all (put_record tid r' c))))"

definition heartbeat_record :: "datetime \<Rightarrow> string \<Rightarrow> metadata option \<Rightarrow> ExecutionTaskRecord \<Rightarrow> ExecutionTaskRecord" where
  "heartbeat_record t status metadata r = touch_record
     (r\<lparr>tr_last_heartbeat_at := Some t, tr_heartbeat_status := Some status,
        tr_last_progress_at := Some t, tr_latest_event := Some ''heartbeat'',
        tr_metadata := (let m = heartbeat_metadata t status (tr_metadata r)
                        in case metadata of None \<Rightarrow> m | Some e \<Rightarrow> dict_update m e)\<rparr>)"

definition heartbeat :: "string \<Rightarrow> string \<Rightarrow> metadata option \<Rightarrow> TaskCoordinator \<Rightarrow> TaskCoordinator" where
  "heartbeat tid status metadata c =
     (case find_record c tid of
        None \<Rightarrow> c
      | Some r \<Rightarrow>
          if rec_terminal r then c
          else (let r' = heartbeat_record (now_reading c) status metadata r
                in log_event ''execution_task_heartbeat'' (snapshot r') []
                     (notify_all (put_record tid r' (after_now c)))))"

definition publish_progress :: "string \<Rightarrow> metadata \<Rightarrow> string \<Rightarrow> TaskCoordinator \<Rightarrow> TaskCoordinator" where
  "publish_progress tid metadata health_status c =
     (case find_record c tid of
        None \<Rightarrow> c
      | Some r \<Rightarrow>
          if rec_terminal r then c
          else notify_all (put_record tid
                 (touch_record (r\<lparr>tr_last_progress_at := Some (now_reading c),
                    tr_health_status := health_status,
                    tr_metadata := dict_update (tr_metadata r) metadata,
                    tr_latest_event := Some ''progress''\<rparr>))
                 (after_now c)))"

text \<open>\<open>len((snapshot.result or {}).get("artifact_references", []))\<close>, which raises on a value
  without a length.\<close>

definition artifact_reference_count :: "metadata \<Rightarrow> nat result" where
  "artifact_reference_count result =
     (case map_of result ''artifact_references'' of
        None \<Rightarrow> Inr 0
      | Some (JList refs) \<Rightarrow> Inr (length refs)
      | Some (JStr s) \<Rightarrow> Inr (length s)
      | Some (JDict d) \<Rightarrow> Inr (length d)
      | Some _ \<Rightarrow> Inl (TypeError ''object has no len()''))"

definition result_log_extra :: "metadata \<Rightarrow> bool \<Rightarrow> nat \<Rightarrow> metadata" where
  "result_log_extra result truncated references =
     [(''result_chars'', JInt (int (length (json_dumps False (JDict result))))),
      (''truncated'', JBool truncated),
      (''artifact_reference_count'', JInt (int references))]"

definition result_record :: "metadata \<Rightarrow> bool \<Rightarrow> ExecutionTaskRecord \<Rightarrow> ExecutionTaskRecord" where
  "result_record bounded truncated r = touch_record
     (r\<lparr>tr_result := Some bounded, tr_result_truncated := truncated,
        tr_latest_event := Some ''execution_task_result_recorded''\<rparr>)"

definition record_result ::
  "string \<Rightarrow> pyheap \<Rightarrow> pyval \<Rightarrow> TaskCoordinator \<Rightarrow> (unit result \<times> TaskCoordinator) option" where
  "record_result tid h result c =
     (case find_record c tid of
        None \<Rightarrow> Some (Inr (), c)
      | Some r \<Rightarrow>
          if rec_terminal r then Some (Inr (), c)
          else map_option
                 (\<lambda>(bounded, truncated).
                    let r' = result_record bounded truncated r;
                        c1 = notify_all (put_record tid r' c)
                    in case artifact_reference_count bounded of
                         Inl e \<Rightarrow> (Inl e, c1)
                       | Inr n \<Rightarrow> (Inr (), log_event ''execution_task_result_recorded'' (snapshot r')
                                            (result_log_extra bounded truncated n) c1))
                 (bound_execution_task_result h result))"

section \<open>Terminal states and cancellation\<close>

fun evict_terminal ::
  "nat \<Rightarrow> string list \<Rightarrow> (string, ExecutionTaskRecord) dict \<Rightarrow> string list \<times> (string, ExecutionTaskRecord) dict" where
  "evict_terminal limit [] recs = ([], recs)"
| "evict_terminal limit (stale_id # rest) recs =
     (if length (stale_id # rest) > limit
      then (case map_of recs stale_id of
              None \<Rightarrow> evict_terminal limit rest recs
            | Some r \<Rightarrow> if rec_terminal r then evict_terminal limit rest (AList.delete stale_id recs)
                       else evict_terminal limit rest recs)
      else (stale_id # rest, recs))"

definition remember_terminal :: "string \<Rightarrow> TaskCoordinator \<Rightarrow> TaskCoordinator" where
  "remember_terminal tid c =
     (let order = remove1 tid (c_terminal_order c) @ [tid];
          (order', recs') = evict_terminal (c_terminal_history_limit c) order (c_records c)
      in c\<lparr>c_terminal_order := order', c_records := recs'\<rparr>)"

definition terminal_record ::
  "datetime \<Rightarrow> ExecutionTaskStatus \<Rightarrow> string option \<Rightarrow> string option \<Rightarrow> string \<Rightarrow> ExecutionTaskRecord \<Rightarrow> ExecutionTaskRecord" where
  "terminal_record t status reason error_type event r = touch_record
     (r\<lparr>tr_status := status, tr_finished_at := Some t, tr_terminal_reason := reason,
        tr_terminal_error_type := error_type, tr_latest_event := Some event,
        tr_last_heartbeat_at := Some t, tr_heartbeat_status := Some (status_value status),
        tr_last_progress_at := Some t,
        tr_metadata := heartbeat_metadata t (status_value status) (tr_metadata r),
        tr_handle := None\<rparr>)"

definition mark_terminal ::
  "string \<Rightarrow> ExecutionTaskStatus \<Rightarrow> string option \<Rightarrow> string \<Rightarrow> string option \<Rightarrow> TaskCoordinator \<Rightarrow> TaskCoordinator" where
  "mark_terminal tid status reason event error_type c =
     (case find_record c tid of
        None \<Rightarrow> c
      | Some r \<Rightarrow>
          if rec_terminal r then c
          else (let r' = terminal_record (now_reading c) status reason error_type event r;
                    c1 = remember_terminal tid (notify_all (put_record tid r' (after_now c)))
                in notify_terminal_observers (snapshot r') (log_event event (snapshot r') [] c1)))"

text \<open>The loop \<open>for child in children: await self.cancel_task(child.task_id, ...)\<close>.\<close>

fun cancel_each :: "(string \<Rightarrow> TaskCoordinator \<Rightarrow> TaskCoordinator option) \<Rightarrow> string list \<Rightarrow> TaskCoordinator \<Rightarrow> TaskCoordinator option" where
  "cancel_each cancel [] c = Some c"
| "cancel_each cancel (i # is) c = Option.bind (cancel i c) (cancel_each cancel is)"

definition active_children :: "string \<Rightarrow> TaskCoordinator \<Rightarrow> string list" where
  "active_children tid c =
     map (tr_task_id \<circ> snd)
       (filter (\<lambda>(_, r). tr_parent_task_id r = Some tid \<and> \<not> rec_terminal r \<and>
                        \<not> tr_detached_from_parent_lifecycle r) (c_records c))"

definition cancel_active_children_with ::
  "(string \<Rightarrow> TaskCoordinator \<Rightarrow> TaskCoordinator option) \<Rightarrow> string \<Rightarrow> TaskCoordinator \<Rightarrow> TaskCoordinator option" where
  "cancel_active_children_with cancel tid c =
     (case find_record c tid of
        None \<Rightarrow> Some c
      | Some parent \<Rightarrow>
          (let c1 = put_record tid (parent\<lparr>tr_accepting_children := False\<rparr>) c
           in cancel_each cancel (active_children tid c1) c1))"

definition finish_with ::
  "(string \<Rightarrow> TaskCoordinator \<Rightarrow> TaskCoordinator option) \<Rightarrow> string \<Rightarrow> ExecutionTaskStatus \<Rightarrow> string option \<Rightarrow>
   string \<Rightarrow> string option \<Rightarrow> TaskCoordinator \<Rightarrow> TaskCoordinator option" where
  "finish_with cancel tid status reason event error_type c =
     map_option (mark_terminal tid status reason event error_type)
       (cancel_active_children_with cancel tid c)"

fun cancel_task ::
  "nat \<Rightarrow> string \<Rightarrow> string \<Rightarrow> TaskCoordinator \<Rightarrow>
   (ExecutionTaskCancellationResult option \<times> TaskCoordinator) option" where
  "cancel_task 0 tid reason c = None"
| "cancel_task (Suc fuel) tid reason c =
     (case find_record c tid of
        None \<Rightarrow> Some (None, c)
      | Some r \<Rightarrow>
          if rec_terminal r
          then Some (Some \<lparr>cr_snapshot = snapshot r, cr_effective = False\<rparr>,
                     log_event ''execution_task_cancel_ignored'' (snapshot r)
                       [(''reason'', JStr reason), (''ignored_reason'', JStr ''task_terminal'')] c)
          else (let r' = touch_record (r\<lparr>tr_cancel_requested := True, tr_latest_event := Some reason\<rparr>);
                    c1 = log_event ''execution_task_cancel_requested'' (snapshot r') []
                           (notify_all (put_record tid r' c));
                    res = Some \<lparr>cr_snapshot = snapshot r', cr_effective = True\<rparr>
                in case tr_handle r' of
                     Some h \<Rightarrow>
                       if h \<notin> set (c_done_handles c1)
                       then Some (res, c1\<lparr>c_cancel_calls := c_cancel_calls c1 @ [h]\<rparr>)
                       else Some (res, c1)
                   | None \<Rightarrow>
                       if tr_awaiting_handle r' then Some (res, c1)
                       else map_option (\<lambda>c2. (res, c2))
                              (finish_with
                                 (\<lambda>child c. map_option snd (cancel_task fuel child ''parent_cancelled'' c))
                                 tid CANCELLED (Some reason) ''execution_task_cancelled'' None c1)))"

definition cancel_child :: "nat \<Rightarrow> string \<Rightarrow> string \<Rightarrow> TaskCoordinator \<Rightarrow> TaskCoordinator option" where
  "cancel_child fuel reason child c = map_option snd (cancel_task fuel child reason c)"

definition cancel_active_children :: "nat \<Rightarrow> string \<Rightarrow> string \<Rightarrow> TaskCoordinator \<Rightarrow> TaskCoordinator option" where
  "cancel_active_children fuel tid reason c = cancel_active_children_with (cancel_child fuel reason) tid c"

definition mark_completed :: "nat \<Rightarrow> string \<Rightarrow> string option \<Rightarrow> TaskCoordinator \<Rightarrow> TaskCoordinator option" where
  "mark_completed fuel tid reason c =
     map_option (mark_terminal tid COMPLETED reason ''execution_task_completed'' None)
       (cancel_active_children fuel tid ''parent_completed'' c)"

definition mark_failed :: "nat \<Rightarrow> string \<Rightarrow> string option \<Rightarrow> string option \<Rightarrow> TaskCoordinator \<Rightarrow> TaskCoordinator option" where
  "mark_failed fuel tid reason error_type c =
     map_option (mark_terminal tid FAILED reason ''execution_task_failed'' error_type)
       (cancel_active_children fuel tid ''parent_failed'' c)"

definition mark_cancelled :: "nat \<Rightarrow> string \<Rightarrow> string option \<Rightarrow> TaskCoordinator \<Rightarrow> TaskCoordinator option" where
  "mark_cancelled fuel tid reason c =
     map_option (mark_terminal tid CANCELLED reason ''execution_task_cancelled'' None)
       (cancel_active_children fuel tid ''parent_cancelled'' c)"

definition mark_timed_out :: "nat \<Rightarrow> string \<Rightarrow> string option \<Rightarrow> TaskCoordinator \<Rightarrow> TaskCoordinator option" where
  "mark_timed_out fuel tid reason c =
     map_option (mark_terminal tid TIMED_OUT reason ''execution_task_timed_out'' None)
       (cancel_active_children fuel tid ''parent_timed_out'' c)"

definition mark_skipped :: "nat \<Rightarrow> string \<Rightarrow> string option \<Rightarrow> TaskCoordinator \<Rightarrow> TaskCoordinator option" where
  "mark_skipped fuel tid reason c =
     map_option (mark_terminal tid SKIPPED reason ''execution_task_skipped'' None)
       (cancel_active_children fuel tid ''parent_skipped'' c)"

fun cancel_collect ::
  "nat \<Rightarrow> string \<Rightarrow> string list \<Rightarrow> TaskCoordinator \<Rightarrow> (ExecutionTaskSnapshot list \<times> TaskCoordinator) option" where
  "cancel_collect fuel reason [] c = Some ([], c)"
| "cancel_collect fuel reason (tid # tids) c =
     Option.bind (cancel_task fuel tid reason c) (\<lambda>(res, c1).
       map_option (\<lambda>(snaps, c2).
         ((case res of None \<Rightarrow> snaps | Some cancellation \<Rightarrow> cr_snapshot cancellation # snaps), c2))
         (cancel_collect fuel reason tids c1))"

definition cancel_scope :: "nat \<Rightarrow> string \<Rightarrow> string \<Rightarrow> TaskCoordinator \<Rightarrow> (ExecutionTaskSnapshot list \<times> TaskCoordinator) option" where
  "cancel_scope fuel scope reason c =
     cancel_collect fuel reason (map ts_task_id (list_tasks None (Some scope) False c)) c"

definition shutdown :: "nat \<Rightarrow> string \<Rightarrow> TaskCoordinator \<Rightarrow> TaskCoordinator option" where
  "shutdown fuel reason c =
     (let c1 = c\<lparr>c_accepting_tasks := False\<rparr>;
          active = map (tr_task_id \<circ> snd) (filter (\<lambda>(_, r). \<not> rec_terminal r) (c_records c1))
      in cancel_each (cancel_child fuel reason) active c1)"

definition mark_unfinished_cancelled :: "nat \<Rightarrow> string \<Rightarrow> TaskCoordinator \<Rightarrow> TaskCoordinator option" where
  "mark_unfinished_cancelled fuel reason c =
     cancel_each (\<lambda>tid. mark_cancelled fuel tid (Some reason))
       (map ts_task_id (list_tasks None None False c)) c"

section \<open>Tracking a running asyncio task\<close>

text \<open>
  The exception classes of the HTTP and model libraries that the sources tell apart, with the
  attributes they read; an exception is of the most specific of them. A chain of exceptions is a
  list of nodes: whether a node is an instance of the classes looked for, its \<open>__cause__\<close> and its
  \<open>__context__\<close>, by index.
\<close>

type_synonym exn_chain = "(bool \<times> nat option \<times> nat option) list"

datatype exn_class =
    Plain_Exception
  | ModelStreamIdleTimeout string               \<comment> \<open>\<open>timeout_seconds\<close>\<close>
  | UsageLimitExceeded
  | OpenAI_APIStatusError int "string option"   \<comment> \<open>\<open>status_code\<close>, the Retry-After header\<close>
  | OpenAI_APIError
  | ModelHTTPError int string string            \<comment> \<open>\<open>status_code\<close>, \<open>str(body or "")\<close>, \<open>model_name\<close>\<close>
  | ModelAPIError string exn_chain              \<comment> \<open>\<open>model_name\<close>, the chain that starts at the exception\<close>
  | UnexpectedModelBehavior
  | HTTPX_TimeoutException
  | HTTPX_HTTPStatusError int "string option"   \<comment> \<open>\<open>status_code\<close>, the Retry-After header\<close>
  | HTTPX_RequestError

text \<open>
  An exception by its class name, its text and the \<open>"error"\<close> entry that
  \<open>provider_exception_details(exc, include_transport_errors=False)\<close> finds in it, if any. The body
  of an \<open>async with\<close> block is a state transformer that returns, is cancelled or raises; it gets the
  snapshot and the authority the block installs.
\<close>

record exn_info =
  exn_type :: string
  exn_str :: string
  exn_provider_error :: "string option"
  exn_class :: exn_class

datatype 'a body_outcome = Body_Returns 'a | Body_Cancelled | Body_Raises exn_info

type_synonym 'a task_body =
  "ExecutionTaskSnapshot \<Rightarrow> ExecutionAuthority \<Rightarrow> TaskCoordinator \<Rightarrow> 'a body_outcome \<times> TaskCoordinator"

fun exn_info_of :: "pyexn \<Rightarrow> exn_info" where
  "exn_info_of (ValueError m) = \<lparr>exn_type = ''ValueError'', exn_str = m, exn_provider_error = None, exn_class = Plain_Exception\<rparr>"
| "exn_info_of (RuntimeError m) = \<lparr>exn_type = ''RuntimeError'', exn_str = m, exn_provider_error = None, exn_class = Plain_Exception\<rparr>"
| "exn_info_of (TypeError m) = \<lparr>exn_type = ''TypeError'', exn_str = m, exn_provider_error = None, exn_class = Plain_Exception\<rparr>"
| "exn_info_of (OverflowError m) = \<lparr>exn_type = ''OverflowError'', exn_str = m, exn_provider_error = None, exn_class = Plain_Exception\<rparr>"
| "exn_info_of (IntegrityError m) = \<lparr>exn_type = ''IntegrityError'', exn_str = m, exn_provider_error = None, exn_class = Plain_Exception\<rparr>"
| "exn_info_of (AuthorizationError m) =
     \<lparr>exn_type = ''AuthorizationError'', exn_str = m, exn_provider_error = None, exn_class = Plain_Exception\<rparr>"
| "exn_info_of CancelledError = \<lparr>exn_type = ''CancelledError'', exn_str = [], exn_provider_error = None, exn_class = Plain_Exception\<rparr>"

definition execution_task_failure_reason :: "string \<Rightarrow> exn_info \<Rightarrow> string" where
  "execution_task_failure_reason kind exc =
     (if kind \<in> {kind_value HISTORY_COMPACTION, kind_value SESSION_MAP_AUTHORING,
                 kind_value CONTEXT_STRATEGY_UPGRADE}
      then exn_type exc @ '': '' @ kind @ '' failed''
      else exn_type exc @ '': '' @
             (case exn_provider_error exc of None \<Rightarrow> exn_str exc | Some message \<Rightarrow> message))"

text \<open>
  \<open>_finish_cancelled_task\<close> and \<open>_finish_failed_task\<close> run the operation in a shielded task and wait
  for it through every further cancellation.
\<close>

definition finish_cancelled_task :: "nat \<Rightarrow> string \<Rightarrow> string \<Rightarrow> TaskCoordinator \<Rightarrow> TaskCoordinator option" where
  "finish_cancelled_task fuel tid reason c = mark_cancelled fuel tid (Some reason) c"

definition finish_failed_task ::
  "nat \<Rightarrow> string \<Rightarrow> string \<Rightarrow> string \<Rightarrow> TaskCoordinator \<Rightarrow> TaskCoordinator option" where
  "finish_failed_task fuel tid reason error_type c = mark_failed fuel tid (Some reason) (Some error_type) c"

text \<open>What the two context managers do with the outcome of their body.\<close>

definition close_tracking ::
  "nat \<Rightarrow> string \<Rightarrow> string \<Rightarrow> 'a body_outcome \<times> TaskCoordinator \<Rightarrow> ('a body_outcome \<times> TaskCoordinator) option" where
  "close_tracking fuel tid kind res =
     (case res of
        (Body_Returns x, c) \<Rightarrow> map_option (Pair (Body_Returns x)) (mark_completed fuel tid None c)
      | (Body_Cancelled, c) \<Rightarrow>
          map_option (Pair Body_Cancelled) (finish_cancelled_task fuel tid ''cancelled'' c)
      | (Body_Raises exc, c) \<Rightarrow>
          map_option (Pair (Body_Raises exc))
            (finish_failed_task fuel tid (execution_task_failure_reason kind exc) (exn_type exc) c))"

definition track_current_task ::
  "nat \<Rightarrow> nat option \<Rightarrow> string \<Rightarrow> string \<Rightarrow> string \<Rightarrow> string \<Rightarrow> string \<Rightarrow> ExecutionAuthority \<Rightarrow> metadata option \<Rightarrow>
   string option \<Rightarrow> bool \<Rightarrow> bool \<Rightarrow> 'a task_body \<Rightarrow> TaskCoordinator \<Rightarrow>
   ('a body_outcome \<times> TaskCoordinator) option" where
  "track_current_task fuel current uuid_hex kind scope source label authority metadata parent_task_id
     detached start_immediately body c =
     (if current = None
      then Some (Body_Raises (exn_info_of
             (RuntimeError ''TaskCoordinator requires an active asyncio task'')), c)
      else let tid = new_task_id uuid_hex
      in case create_record tid kind scope source label authority current metadata parent_task_id
                detached False c of
           (Inl e, c1) \<Rightarrow> Some (Body_Raises (exn_info_of e), c1)
         | (Inr _, c1) \<Rightarrow>
             (case (if start_immediately then mark_started tid c1 else (Inr (), c1)) of
                (Inl e, c2) \<Rightarrow> close_tracking fuel tid kind (Body_Raises (exn_info_of e), c2)
              | (Inr _, c2) \<Rightarrow>
                  (case get_task tid c2 of
                     None \<Rightarrow> close_tracking fuel tid kind
                       (Body_Raises (exn_info_of (RuntimeError (''Execution task disappeared: '' @ tid))), c2)
                   | Some s \<Rightarrow> close_tracking fuel tid kind (body s authority c2))))"

definition attach_handle :: "string \<Rightarrow> nat \<Rightarrow> TaskCoordinator \<Rightarrow> (ExecutionTaskRecord \<times> bool) result \<times> TaskCoordinator" where
  "attach_handle tid current c =
     (case find_record c tid of
        None \<Rightarrow> (Inl (RuntimeError (''Execution task not found: '' @ tid)), c)
      | Some r \<Rightarrow>
          if rec_terminal r then (Inl (RuntimeError (''Execution task already terminal: '' @ tid)), c)
          else (let r' = r\<lparr>tr_handle := Some current, tr_awaiting_handle := False\<rparr>
                in (Inr (r', tr_cancel_requested r), put_record tid r' c)))"

definition track_existing_task ::
  "nat \<Rightarrow> nat option \<Rightarrow> string \<Rightarrow> 'a task_body \<Rightarrow> TaskCoordinator \<Rightarrow> ('a body_outcome \<times> TaskCoordinator) option" where
  "track_existing_task fuel current tid body c =
     (case current of
        None \<Rightarrow> Some (Body_Raises (exn_info_of
                 (RuntimeError ''TaskCoordinator requires an active asyncio task'')), c)
      | Some handle \<Rightarrow>
          (case attach_handle tid handle c of
             (Inl e, c1) \<Rightarrow> Some (Body_Raises (exn_info_of e), c1)
           | (Inr (r, should_cancel), c1) \<Rightarrow>
               if should_cancel then Some (Body_Cancelled, c1)
               else close_tracking fuel tid (tr_kind r) (body (snapshot r) (tr_authority r) c1)))"

section \<open>Waiting for tasks\<close>

definition wait_ready ::
  "string list \<Rightarrow> (string, int) dict \<Rightarrow> bool \<Rightarrow> bool \<Rightarrow> TaskCoordinator \<Rightarrow> bool" where
  "wait_ready unique_ids revisions terminal_or_attention_only wake_on_attention c =
     (let snapshots = snapshots_for_ids unique_ids c
      in if length snapshots \<noteq> length unique_ids then True
         else if list_ex (\<lambda>s. is_terminal s \<or>
                   (wake_on_attention \<and> ts_health_status s = ''attention_required'')) snapshots then True
         else if terminal_or_attention_only then False
         else list_ex (\<lambda>s. ts_revision s >
                (case map_of revisions (ts_task_id s) of None \<Rightarrow> -1 | Some v \<Rightarrow> v)) snapshots)"

text \<open>
  What happens to a caller that waits: the condition is notified in some state, or its time is
  up in some state. The result is \<^const>\<open>None\<close> while the caller still waits.
\<close>

datatype wait_event = Notified TaskCoordinator | Timeout TaskCoordinator

fun wait_loop ::
  "(TaskCoordinator \<Rightarrow> bool) \<Rightarrow> string list \<Rightarrow> wait_event list \<Rightarrow> ExecutionTaskWaitResult option" where
  "wait_loop ready ids [] = None"
| "wait_loop ready ids (Notified c # es) =
     (if ready c then Some \<lparr>wr_snapshots = snapshots_for_ids ids c, wr_timed_out = False\<rparr>
      else wait_loop ready ids es)"
| "wait_loop ready ids (Timeout c # es) =
     Some \<lparr>wr_snapshots = snapshots_for_ids ids c, wr_timed_out = True\<rparr>"

definition wait_for_tasks ::
  "string list \<Rightarrow> (string, int) dict option \<Rightarrow> bool \<Rightarrow> bool \<Rightarrow> TaskCoordinator \<Rightarrow> wait_event list \<Rightarrow>
   ExecutionTaskWaitResult option" where
  "wait_for_tasks task_ids after_revisions terminal_or_attention_only wake_on_attention c events =
     (let unique_ids = fromkeys task_ids
      in if unique_ids = [] then Some \<lparr>wr_snapshots = [], wr_timed_out = False\<rparr>
         else let revisions = (case after_revisions of
                    Some revs \<Rightarrow> revs
                  | None \<Rightarrow> map (\<lambda>s. (ts_task_id s, ts_revision s)) (snapshots_for_ids unique_ids c));
                  ready = wait_ready unique_ids revisions terminal_or_attention_only wake_on_attention
              in if ready c then Some \<lparr>wr_snapshots = snapshots_for_ids unique_ids c, wr_timed_out = False\<rparr>
                 else wait_loop ready unique_ids events)"

end
