(* ===== verification/Task_Cascade.thy ===== *)
theory Task_Cascade
  imports Execution_Tasks
begin

text \<open>
  How a cancellation spreads. \<open>cancel_task\<close>, \<open>_cancel_active_children\<close> and the \<open>mark_*\<close>
  operations are built from a handful of atomic sections. The locale \<open>cascade_contract\<close> states a
  relation between states that each of these sections satisfies on the tasks it may touch, and
  derives it for every operation built from them. The first interpretation is the evolution
  relation: identity fields never change, cancellation requests and closed parents stay, a
  terminal record keeps its outcome, and no record appears.
\<close>

section \<open>Fields the auxiliary updates keep\<close>

named_theorems coord_simps \<open>how the primitive updates act on the fields of the coordinator\<close>

lemma put_record_simps [simp, coord_simps]:
  "c_records (put_record tid r c) = AList.update tid r (c_records c)"
  "c_terminal_order (put_record tid r c) = c_terminal_order c"
  "c_terminal_history_limit (put_record tid r c) = c_terminal_history_limit c"
  "c_accepting_tasks (put_record tid r c) = c_accepting_tasks c"
  "c_terminal_observers (put_record tid r c) = c_terminal_observers c"
  "c_notifies (put_record tid r c) = c_notifies c"
  "c_done_handles (put_record tid r c) = c_done_handles c"
  "c_cancel_calls (put_record tid r c) = c_cancel_calls c"
  "c_log (put_record tid r c) = c_log c"
  "c_notified (put_record tid r c) = c_notified c"
  by (simp_all add: put_record_def)

lemma notify_all_simps [simp, coord_simps]:
  "c_records (notify_all c) = c_records c"
  "c_terminal_order (notify_all c) = c_terminal_order c"
  "c_terminal_history_limit (notify_all c) = c_terminal_history_limit c"
  "c_accepting_tasks (notify_all c) = c_accepting_tasks c"
  "c_terminal_observers (notify_all c) = c_terminal_observers c"
  "c_notifies (notify_all c) = Suc (c_notifies c)"
  "c_done_handles (notify_all c) = c_done_handles c"
  "c_cancel_calls (notify_all c) = c_cancel_calls c"
  "c_log (notify_all c) = c_log c"
  "c_notified (notify_all c) = c_notified c"
  by (simp_all add: notify_all_def)

lemma after_now_simps [simp, coord_simps]:
  "c_records (after_now c) = c_records c"
  "c_terminal_order (after_now c) = c_terminal_order c"
  "c_terminal_history_limit (after_now c) = c_terminal_history_limit c"
  "c_accepting_tasks (after_now c) = c_accepting_tasks c"
  "c_terminal_observers (after_now c) = c_terminal_observers c"
  "c_notifies (after_now c) = c_notifies c"
  "c_done_handles (after_now c) = c_done_handles c"
  "c_cancel_calls (after_now c) = c_cancel_calls c"
  "c_log (after_now c) = c_log c"
  "c_notified (after_now c) = c_notified c"
  by (simp_all add: after_now_def)

lemma log_event_simps [simp, coord_simps]:
  "c_records (log_event e s x c) = c_records c"
  "c_terminal_order (log_event e s x c) = c_terminal_order c"
  "c_terminal_history_limit (log_event e s x c) = c_terminal_history_limit c"
  "c_accepting_tasks (log_event e s x c) = c_accepting_tasks c"
  "c_terminal_observers (log_event e s x c) = c_terminal_observers c"
  "c_notifies (log_event e s x c) = c_notifies c"
  "c_done_handles (log_event e s x c) = c_done_handles c"
  "c_cancel_calls (log_event e s x c) = c_cancel_calls c"
  "c_notified (log_event e s x c) = c_notified c"
  by (simp_all add: log_event_def)

lemma notify_observer_simps [simp]:
  "c_records (notify_observer s obs c) = c_records c"
  "c_terminal_order (notify_observer s obs c) = c_terminal_order c"
  "c_terminal_history_limit (notify_observer s obs c) = c_terminal_history_limit c"
  "c_accepting_tasks (notify_observer s obs c) = c_accepting_tasks c"
  "c_terminal_observers (notify_observer s obs c) = c_terminal_observers c"
  "c_notifies (notify_observer s obs c) = c_notifies c"
  "c_done_handles (notify_observer s obs c) = c_done_handles c"
  "c_cancel_calls (notify_observer s obs c) = c_cancel_calls c"
  "c_notified (notify_observer s obs c) = c_notified c @ [(fst obs, s)]"
  by (simp_all add: notify_observer_def Let_def split: option.splits)

lemma fold_notify_observer_simps:
  "c_records (fold (notify_observer s) os c) = c_records c"
  "c_terminal_order (fold (notify_observer s) os c) = c_terminal_order c"
  "c_terminal_history_limit (fold (notify_observer s) os c) = c_terminal_history_limit c"
  "c_accepting_tasks (fold (notify_observer s) os c) = c_accepting_tasks c"
  "c_terminal_observers (fold (notify_observer s) os c) = c_terminal_observers c"
  "c_notifies (fold (notify_observer s) os c) = c_notifies c"
  "c_done_handles (fold (notify_observer s) os c) = c_done_handles c"
  "c_cancel_calls (fold (notify_observer s) os c) = c_cancel_calls c"
  "c_notified (fold (notify_observer s) os c) = c_notified c @ map (\<lambda>obs. (fst obs, s)) os"
  by (induction os arbitrary: c) auto

lemma notify_terminal_observers_simps [simp, coord_simps]:
  "c_records (notify_terminal_observers s c) = c_records c"
  "c_terminal_order (notify_terminal_observers s c) = c_terminal_order c"
  "c_terminal_history_limit (notify_terminal_observers s c) = c_terminal_history_limit c"
  "c_accepting_tasks (notify_terminal_observers s c) = c_accepting_tasks c"
  "c_terminal_observers (notify_terminal_observers s c) = c_terminal_observers c"
  "c_notifies (notify_terminal_observers s c) = c_notifies c"
  "c_done_handles (notify_terminal_observers s c) = c_done_handles c"
  "c_cancel_calls (notify_terminal_observers s c) = c_cancel_calls c"
  "c_notified (notify_terminal_observers s c) =
     c_notified c @ map (\<lambda>obs. (fst obs, s)) (c_terminal_observers c)"
  by (simp_all add: notify_terminal_observers_def fold_notify_observer_simps)

lemma remember_terminal_simps [simp, coord_simps]:
  "c_terminal_history_limit (remember_terminal tid c) = c_terminal_history_limit c"
  "c_accepting_tasks (remember_terminal tid c) = c_accepting_tasks c"
  "c_terminal_observers (remember_terminal tid c) = c_terminal_observers c"
  "c_notifies (remember_terminal tid c) = c_notifies c"
  "c_done_handles (remember_terminal tid c) = c_done_handles c"
  "c_cancel_calls (remember_terminal tid c) = c_cancel_calls c"
  "c_notified (remember_terminal tid c) = c_notified c"
  by (simp_all add: remember_terminal_def Let_def split_beta)

lemma map_of_alist_update [simp]: "map_of (AList.update k v d) = (map_of d)(k \<mapsto> v)"
  by (simp add: update_conv')

section \<open>Eviction from the terminal history\<close>

text \<open>Eviction only removes records, and only terminal ones.\<close>

lemma evict_terminal_lookup:
  "map_of (snd (evict_terminal limit order recs)) k = Some r \<Longrightarrow> map_of recs k = Some r"
proof (induction limit order recs rule: evict_terminal.induct)
  case (2 limit stale_id rest recs)
  then show ?case
    by (auto simp: delete_conv' split: if_splits option.splits)
qed simp

lemma evict_terminal_active:
  "map_of recs k = Some r \<Longrightarrow> \<not> rec_terminal r \<Longrightarrow>
   map_of (snd (evict_terminal limit order recs)) k = Some r"
proof (induction limit order recs rule: evict_terminal.induct)
  case (2 limit stale_id rest recs)
  then show ?case
    by (cases "k = stale_id"; cases "map_of recs stale_id") (auto simp: delete_conv')
qed simp

lemma evict_terminal_order:
  "fst (evict_terminal limit order recs) = drop (length order - limit) order"
proof (induction limit order recs rule: evict_terminal.induct)
  case (2 limit stale_id rest recs)
  then show ?case
    by (auto simp: Suc_diff_le not_less_eq_eq split: option.splits)
qed simp

lemma remember_terminal_lookup:
  "find_record (remember_terminal tid c) k = Some r \<Longrightarrow> find_record c k = Some r"
  by (auto simp: remember_terminal_def Let_def split_beta dest: evict_terminal_lookup)

lemma remember_terminal_active:
  "find_record c k = Some r \<Longrightarrow> \<not> rec_terminal r \<Longrightarrow>
   find_record (remember_terminal tid c) k = Some r"
  by (simp add: remember_terminal_def Let_def split_beta evict_terminal_active)

text \<open>What \<open>_mark_terminal\<close> leaves under a key.\<close>

lemma mark_terminal_lookup:
  assumes "find_record (mark_terminal tid status reason event err c) k = Some r'"
  shows "find_record c k = Some r' \<or>
         (k = tid \<and> (\<exists>r. find_record c tid = Some r \<and> \<not> rec_terminal r \<and>
            r' = terminal_record (now_reading c) status reason err event r))"
  using assms
  by (auto simp: mark_terminal_def Let_def dest!: remember_terminal_lookup
      split: option.splits if_splits)

lemma mark_terminal_other_active:
  assumes "find_record c k = Some r" and "\<not> rec_terminal r" and "k \<noteq> tid"
  shows "find_record (mark_terminal tid status reason event err c) k = Some r"
  using assms
  by (auto simp: mark_terminal_def Let_def remember_terminal_active split: option.splits)

section \<open>The cascade contract\<close>

text \<open>
  \<open>R\<close> relates the state before and after; \<open>T c tid\<close> says that the operation may touch \<open>tid\<close>;
  \<open>G c tid\<close> is what the code has established when it publishes a terminal status: that the
  record no longer accepts children.
\<close>

locale cascade_contract =
  fixes R :: "TaskCoordinator \<Rightarrow> TaskCoordinator \<Rightarrow> bool"
    and T :: "TaskCoordinator \<Rightarrow> string \<Rightarrow> bool"
    and G :: "TaskCoordinator \<Rightarrow> string \<Rightarrow> bool"
  assumes R_refl: "R c c"
    and R_trans: "R c1 c2 \<Longrightarrow> R c2 c3 \<Longrightarrow> R c1 c3"
    and T_keep: "R c c' \<Longrightarrow> T c i \<Longrightarrow> T c' i"
    and T_child: "T c tid \<Longrightarrow> find_record c tid = Some r \<Longrightarrow> i \<in> set (active_children tid c) \<Longrightarrow> T c i"
    and G_keep: "R c c' \<Longrightarrow> G c i \<Longrightarrow> G c' i"
    and G_absent: "find_record c tid = None \<Longrightarrow> G c tid"
    and G_close: "find_record c tid = Some r \<Longrightarrow> G (put_record tid (r\<lparr>tr_accepting_children := False\<rparr>) c) tid"
    and R_log: "R c (log_event e s x c)"
    and R_request: "T c tid \<Longrightarrow> find_record c tid = Some r \<Longrightarrow> \<not> rec_terminal r \<Longrightarrow>
      R c (notify_all (put_record tid
             (touch_record (r\<lparr>tr_cancel_requested := True, tr_latest_event := Some reason\<rparr>)) c))"
    and R_cancel_call: "R c (c\<lparr>c_cancel_calls := calls\<rparr>)"
    and R_close: "T c tid \<Longrightarrow> find_record c tid = Some r \<Longrightarrow>
      R c (put_record tid (r\<lparr>tr_accepting_children := False\<rparr>) c)"
    and R_terminal: "T c tid \<Longrightarrow> G c tid \<Longrightarrow> status \<in> TERMINAL_STATUSES \<Longrightarrow>
      R c (mark_terminal tid status terminal_reason event err c)"
begin

lemma cancel_each_R:
  assumes "\<And>i c c'. i \<in> set is \<Longrightarrow> T c i \<Longrightarrow> K i c = Some c' \<Longrightarrow> R c c'"
    and "\<And>i. i \<in> set is \<Longrightarrow> T c i"
    and "cancel_each K is c = Some c'"
  shows "R c c'"
  using assms
proof (induction "is" arbitrary: c)
  case (Cons i "is")
  from Cons.prems(3) obtain c1 where c1: "K i c = Some c1" "cancel_each K is c1 = Some c'"
    by (auto simp: bind_eq_Some_conv)
  have "R c c1" by (rule Cons.prems(1) [OF _ Cons.prems(2) c1(1)]) simp_all
  moreover have "R c1 c'"
    using Cons.prems(1,2) c1(2) \<open>R c c1\<close> by (intro Cons.IH) (auto intro: T_keep)
  ultimately show ?case by (rule R_trans)
qed (simp add: R_refl)

lemma cancel_active_children_with_R:
  assumes K: "\<And>i c c'. T c i \<Longrightarrow> K i c = Some c' \<Longrightarrow> R c c'"
    and "T c tid" and "cancel_active_children_with K tid c = Some c'"
  shows "R c c' \<and> G c' tid"
proof (cases "find_record c tid")
  case None
  with assms(3) show ?thesis
    by (simp add: cancel_active_children_with_def R_refl G_absent)
next
  case (Some r)
  let ?c1 = "put_record tid (r\<lparr>tr_accepting_children := False\<rparr>) c"
  from assms(3) Some have loop: "cancel_each K (active_children tid ?c1) ?c1 = Some c'"
    by (simp add: cancel_active_children_with_def Let_def)
  have "R c ?c1" using assms(2) Some by (rule R_close)
  then have "T ?c1 tid" using assms(2) by (rule T_keep)
  then have "T ?c1 i" if "i \<in> set (active_children tid ?c1)" for i
    by (rule T_child [OF _ _ that]) simp_all
  then have "R ?c1 c'" using loop by (rule cancel_each_R [rotated]) (simp, rule K)
  moreover have "G ?c1 tid" using Some by (rule G_close)
  ultimately show ?thesis using R_trans [OF \<open>R c ?c1\<close>] G_keep by metis
qed

lemma finish_R:
  assumes K: "\<And>i c c'. T c i \<Longrightarrow> K i c = Some c' \<Longrightarrow> R c c'"
    and "T c tid" and "status \<in> TERMINAL_STATUSES"
    and "map_option (mark_terminal tid status reason event err)
           (cancel_active_children_with K tid c) = Some c'"
  shows "R c c'"
proof -
  from assms(4) obtain c1 where c1: "cancel_active_children_with K tid c = Some c1"
    and c': "c' = mark_terminal tid status reason event err c1" by auto
  have "R c c1" "G c1 tid" using cancel_active_children_with_R [OF K assms(2) c1] by auto
  moreover have "T c1 tid" using \<open>R c c1\<close> assms(2) by (rule T_keep)
  ultimately show ?thesis using assms(3) c' by (blast intro: R_trans R_terminal)
qed

lemma cancel_task_R: "T c tid \<Longrightarrow> cancel_task fuel tid reason c = Some (res, c') \<Longrightarrow> R c c'"
proof (induction fuel arbitrary: tid reason c res c')
  case (Suc fuel)
  show ?case
  proof (cases "find_record c tid")
    case None
    with Suc.prems show ?thesis by (simp add: R_refl)
  next
    case (Some r)
    show ?thesis
    proof (cases "rec_terminal r")
      case True
      with Some Suc.prems show ?thesis by (auto simp: R_log)
    next
      case False
      let ?r = "touch_record (r\<lparr>tr_cancel_requested := True, tr_latest_event := Some reason\<rparr>)"
      let ?c1 = "log_event ''execution_task_cancel_requested'' (snapshot ?r) []
                   (notify_all (put_record tid ?r c))"
      have "R c ?c1"
        using R_request [OF Suc.prems(1) Some False, of reason] by (rule R_trans) (rule R_log)
      moreover have "T ?c1 tid" using \<open>R c ?c1\<close> Suc.prems(1) by (rule T_keep)
      moreover have "R ?c1 c'"
      proof (cases "tr_handle ?r = None \<and> \<not> tr_awaiting_handle ?r")
        case True
        with Suc.prems(2) Some False have
          "finish_with (\<lambda>i c. map_option snd (cancel_task fuel i ''parent_cancelled'' c)) tid
             CANCELLED (Some reason) ''execution_task_cancelled'' None ?c1 = Some c'"
          by (auto simp: Let_def)
        then show ?thesis
          unfolding finish_with_def
          using \<open>T ?c1 tid\<close> Suc.IH by (elim finish_R [rotated 3]) (auto simp: TERMINAL_STATUSES_def)
      next
        case no_finish: False
        with Suc.prems(2) Some False show ?thesis
          by (auto simp: Let_def R_refl R_cancel_call split: option.splits if_splits)
      qed
      ultimately show ?thesis by (blast intro: R_trans)
    qed
  qed
qed simp

lemma cancel_child_R: "T c i \<Longrightarrow> cancel_child fuel reason i c = Some c' \<Longrightarrow> R c c'"
  by (auto simp: cancel_child_def dest: cancel_task_R)

lemma mark_any_R:
  "T c tid \<Longrightarrow> status \<in> TERMINAL_STATUSES \<Longrightarrow>
   map_option (mark_terminal tid status reason event err) (cancel_active_children fuel tid child_reason c) = Some c'
   \<Longrightarrow> R c c'"
  unfolding cancel_active_children_def by (rule finish_R [OF cancel_child_R])

lemma mark_R:
  "T c tid \<Longrightarrow> mark_completed fuel tid reason c = Some c' \<Longrightarrow> R c c'"
  "T c tid \<Longrightarrow> mark_failed fuel tid reason err c = Some c' \<Longrightarrow> R c c'"
  "T c tid \<Longrightarrow> mark_cancelled fuel tid reason c = Some c' \<Longrightarrow> R c c'"
  "T c tid \<Longrightarrow> mark_timed_out fuel tid reason c = Some c' \<Longrightarrow> R c c'"
  "T c tid \<Longrightarrow> mark_skipped fuel tid reason c = Some c' \<Longrightarrow> R c c'"
  unfolding mark_completed_def mark_failed_def mark_cancelled_def mark_timed_out_def mark_skipped_def
  by - (erule mark_any_R [rotated 2], assumption, simp add: TERMINAL_STATUSES_def)+

lemma cancel_collect_R:
  "(\<And>i. i \<in> set tids \<Longrightarrow> T c i) \<Longrightarrow> cancel_collect fuel reason tids c = Some (snaps, c') \<Longrightarrow> R c c'"
proof (induction tids arbitrary: c snaps)
  case (Cons i tids)
  from Cons.prems(2) obtain res c1 snaps' where
    "cancel_task fuel i reason c = Some (res, c1)"
    and rest: "cancel_collect fuel reason tids c1 = Some (snaps', c')"
    by (auto simp: bind_eq_Some_conv)
  with Cons.prems(1) have "R c c1" by (auto intro: cancel_task_R)
  moreover have "R c1 c'"
    using Cons.prems(1) \<open>R c c1\<close> by (intro Cons.IH [OF _ rest]) (auto intro: T_keep)
  ultimately show ?case by (rule R_trans)
qed (simp add: R_refl)

lemma cancel_scope_R:
  "(\<And>i. T c i) \<Longrightarrow> cancel_scope fuel scope reason c = Some (snaps, c') \<Longrightarrow> R c c'"
  unfolding cancel_scope_def by (rule cancel_collect_R)

lemma mark_unfinished_cancelled_R:
  "(\<And>i. T c i) \<Longrightarrow> mark_unfinished_cancelled fuel reason c = Some c' \<Longrightarrow> R c c'"
  unfolding mark_unfinished_cancelled_def by (rule cancel_each_R) (auto intro: mark_R)

lemma shutdown_R:
  assumes "R c (c\<lparr>c_accepting_tasks := False\<rparr>)" and "\<And>i. T c i"
    and "shutdown fuel reason c = Some c'"
  shows "R c c'"
proof -
  have "T (c\<lparr>c_accepting_tasks := False\<rparr>) i" for i using assms(1,2) by (rule T_keep)
  then have "R (c\<lparr>c_accepting_tasks := False\<rparr>) c'"
    using assms(3) unfolding shutdown_def Let_def
    by (intro cancel_each_R [OF cancel_child_R]) auto
  with assms(1) show ?thesis by (rule R_trans)
qed

end

section \<open>Evolution of records\<close>

text \<open>What may happen to a record: the fields of its identity are fixed, and some bits only grow.\<close>

definition rec_identity :: "ExecutionTaskRecord \<Rightarrow> _" where
  "rec_identity r = (tr_task_id r, tr_kind r, tr_scope r, tr_source r, tr_label r, tr_authority r,
     tr_created_at r, tr_parent_task_id r, tr_detached_from_parent_lifecycle r)"

definition rec_outcome :: "ExecutionTaskRecord \<Rightarrow> _" where
  "rec_outcome r = (tr_status r, tr_started_at r, tr_finished_at r, tr_cancel_requested r,
     tr_terminal_reason r, tr_terminal_error_type r, tr_latest_event r, tr_heartbeat_status r,
     tr_health_status r, tr_result r, tr_result_truncated r)"

definition rec_evolves :: "ExecutionTaskRecord \<Rightarrow> ExecutionTaskRecord \<Rightarrow> bool" where
  "rec_evolves r r' \<longleftrightarrow>
     rec_identity r' = rec_identity r \<and> tr_revision r \<le> tr_revision r' \<and>
     (tr_cancel_requested r \<longrightarrow> tr_cancel_requested r') \<and>
     (\<not> tr_accepting_children r \<longrightarrow> \<not> tr_accepting_children r') \<and>
     (rec_terminal r \<longrightarrow> rec_outcome r' = rec_outcome r) \<and>
     (tr_status r = RUNNING \<longrightarrow> tr_status r' \<noteq> QUEUED)"

lemma rec_evolves_refl [simp]: "rec_evolves r r"
  by (simp add: rec_evolves_def)

lemma not_terminal_cases: "\<not> rec_terminal r \<Longrightarrow> tr_status r = QUEUED \<or> tr_status r = RUNNING"
  by (cases "tr_status r") (auto simp: TERMINAL_STATUSES_def)

lemma rec_outcome_status: "rec_outcome r' = rec_outcome r \<Longrightarrow> tr_status r' = tr_status r"
  by (simp add: rec_outcome_def)

lemma rec_evolves_trans:
  assumes "rec_evolves r1 r2" and "rec_evolves r2 r3"
  shows "rec_evolves r1 r3"
proof -
  have "rec_outcome r3 = rec_outcome r1" if "rec_terminal r1"
    using assms that rec_outcome_status [of r2 r1] by (simp add: rec_evolves_def)
  moreover have "tr_status r3 \<noteq> QUEUED" if "tr_status r1 = RUNNING"
    using assms that not_terminal_cases [of r2] rec_outcome_status [of r3 r2]
    by (auto simp: rec_evolves_def)
  ultimately show ?thesis using assms by (simp add: rec_evolves_def)
qed

definition evolves :: "TaskCoordinator \<Rightarrow> TaskCoordinator \<Rightarrow> bool" where
  "evolves c c' \<longleftrightarrow>
     (\<forall>k r'. find_record c' k = Some r' \<longrightarrow> (\<exists>r. find_record c k = Some r \<and> rec_evolves r r'))"

lemma evolves_refl [simp]: "evolves c c"
  by (auto simp: evolves_def)

lemma evolves_trans: "evolves c1 c2 \<Longrightarrow> evolves c2 c3 \<Longrightarrow> evolves c1 c3"
  unfolding evolves_def by (meson rec_evolves_trans)

lemma evolvesD:
  "evolves c c' \<Longrightarrow> find_record c' k = Some r' \<Longrightarrow> \<exists>r. find_record c k = Some r \<and> rec_evolves r r'"
  by (auto simp: evolves_def)

lemma evolves_records_eq: "c_records c' = c_records c \<Longrightarrow> evolves c c'"
  by (auto simp: evolves_def)

lemma evolves_put:
  "find_record c tid = Some r \<Longrightarrow> rec_evolves r r' \<Longrightarrow>
   c_records c' = AList.update tid r' (c_records c) \<Longrightarrow> evolves c c'"
  by (auto simp: evolves_def)

lemmas rec_evolves_defs = rec_evolves_def rec_identity_def rec_outcome_def touch_record_def

lemma rec_evolves_terminal:
  "\<not> rec_terminal r \<Longrightarrow> status \<in> TERMINAL_STATUSES \<Longrightarrow>
   rec_evolves r (terminal_record t status reason err event r)"
  by (auto simp: rec_evolves_defs terminal_record_def TERMINAL_STATUSES_def)

lemma evolves_mark_terminal:
  assumes "status \<in> TERMINAL_STATUSES"
  shows "evolves c (mark_terminal tid status reason event err c)"
  unfolding evolves_def
proof (intro allI impI)
  fix k r' assume "find_record (mark_terminal tid status reason event err c) k = Some r'"
  then show "\<exists>r. find_record c k = Some r \<and> rec_evolves r r'"
    using mark_terminal_lookup [of tid status reason event err c k r'] rec_evolves_terminal [OF _ assms]
    by auto
qed

interpretation evo: cascade_contract evolves "\<lambda>_ _. True" "\<lambda>_ _. True"
proof unfold_locales
  show "evolves c (notify_all (put_record tid
      (touch_record (r\<lparr>tr_cancel_requested := True, tr_latest_event := Some reason\<rparr>)) c))"
    if "find_record c tid = Some r" and "\<not> rec_terminal r" for c tid r reason
    using that by (intro evolves_put [of c tid r]) (auto simp: rec_evolves_defs)
  show "evolves c (put_record tid (r\<lparr>tr_accepting_children := False\<rparr>) c)"
    if "find_record c tid = Some r" for c tid r
    using that by (intro evolves_put [of c tid r]) (auto simp: rec_evolves_defs)
qed (auto intro: evolves_trans evolves_records_eq evolves_mark_terminal)

end
