(* ===== verification/Result_Bounds.thy ===== *)
theory Result_Bounds
  imports Execution_Tasks "HOL-Library.Sublist"
begin

text \<open>
  \<open>_bound_execution_task_result\<close> of core/runtime/execution_tasks.py: the loop that shortens the
  preview ends, and what is stored serialises to at most \<open>EXECUTION_TASK_RESULT_MAX_CHARS\<close>
  characters.
\<close>

lemma length_preserve_references:
  "length (serialize_json (JList kept)) \<le> 4096 \<Longrightarrow>
   length (serialize_json (JList (preserve_references kept refs))) \<le> 4096"
  by (induction kept refs rule: preserve_references.induct) auto

lemma bounded_base_cases:
  "bounded_base normalized = [(''truncated'', JBool True)] \<or>
   (\<exists>refs. bounded_base normalized =
      [(''truncated'', JBool True), (''artifact_references'', JList refs)] \<and>
      length (serialize_json (JList refs)) \<le> 4096)"
proof -
  have "length (serialize_json (JList [])) \<le> 4096" by (simp add: serialize_json_def)
  then have "length (serialize_json (JList (preserve_references [] refs))) \<le> 4096" for refs
    by (rule length_preserve_references)
  then show ?thesis
    unfolding bounded_base_def Let_def
    by (auto split: option.splits json.splits)
qed

text \<open>The size of the stored value is that of the preview, quoted, and at most 4200 more.\<close>

lemma with_preview_size:
  "\<exists>K \<le> 4200. \<forall>preview.
     length (serialize_json (with_preview (bounded_base normalized) preview)) =
     K + length (json_quote False preview)"
proof -
  consider "bounded_base normalized = [(''truncated'', JBool True)]"
    | refs where "bounded_base normalized =
        [(''truncated'', JBool True), (''artifact_references'', JList refs)]"
        "length (serialize_json (JList refs)) \<le> 4096"
    using bounded_base_cases by blast
  then show ?thesis
  proof cases
    case 1
    then show ?thesis
      by (intro exI [of _ 32]) (simp add: with_preview_def serialize_json_def json_quote_def esc_char_def)
  next
    case (2 refs)
    then show ?thesis
      by (intro exI [of _ "57 + length (json_dumps False (JList refs))"])
         (simp add: with_preview_def serialize_json_def json_quote_def esc_char_def)
  qed
qed

lemma shrink_preview_returns:
  assumes "\<forall>preview. length (serialize_json (with_preview bounded preview)) =
             K + length (json_quote False preview)"
    and "K + 2 \<le> EXECUTION_TASK_RESULT_MAX_CHARS"
  shows "\<exists>preview'. shrink_preview bounded preview = Some preview' \<and> prefix preview' preview \<and>
           length (serialize_json (with_preview bounded preview')) \<le> EXECUTION_TASK_RESULT_MAX_CHARS"
proof (induction "length preview" arbitrary: preview rule: less_induct)
  case less
  let ?size = "length (serialize_json (with_preview bounded preview))"
  let ?shorter = "take (length preview - (?size - EXECUTION_TASK_RESULT_MAX_CHARS)) preview"
  show ?case
  proof (cases "?size > EXECUTION_TASK_RESULT_MAX_CHARS")
    case False
    then show ?thesis by (subst shrink_preview.simps) (simp add: Let_def)
  next
    case True
    with assms have "0 < length preview" by auto
    with True have "length ?shorter < length preview" unfolding length_take by linarith
    from less [OF this] obtain p where "shrink_preview bounded ?shorter = Some p" "prefix p ?shorter"
      "length (serialize_json (with_preview bounded p)) \<le> EXECUTION_TASK_RESULT_MAX_CHARS" by blast
    with True show ?thesis
      by (subst shrink_preview.simps) (auto simp: Let_def intro: prefix_order.trans take_is_prefix)
  qed
qed

lemma bound_execution_task_result_bounded:
  "\<exists>m truncated. bound_execution_task_result h v = Some (m, truncated) \<and>
     length (serialize_json (JDict m)) \<le> EXECUTION_TASK_RESULT_MAX_CHARS"
proof -
  let ?n = "case json_safe_value h [] v of JDict d \<Rightarrow> d | w \<Rightarrow> [(''value'', w)]"
  obtain K where K: "\<forall>preview. length (serialize_json (with_preview (bounded_base ?n) preview)) =
      K + length (json_quote False preview)" "K \<le> 4200"
    using with_preview_size by blast
  then have "K + 2 \<le> EXECUTION_TASK_RESULT_MAX_CHARS" by (simp add: EXECUTION_TASK_RESULT_MAX_CHARS_def)
  from shrink_preview_returns [OF K(1) this] show ?thesis
    unfolding bound_execution_task_result_def Let_def with_preview_def
    by (metis (no_types, lifting) option.simps(9))
qed

end
