(* ===== verification/Task_Lifecycle.thy ===== *)
theory Task_Lifecycle
  imports Task_Cascade Result_Bounds "HOL-Library.Sublist"
begin

text \<open>
  The invariant of the coordinator and its life cycle. \<open>coord_inv\<close> collects what holds of the
  records (keys, timestamps, closed terminal records, bounded results), of the parent relation
  (a child comes after its parent in the dict and has its authority), of the terminal history and
  of the observer notifications. Three interpretations of the cascade contract carry it, the
  confinement of a cancellation to one authority, and the wake-up discipline of the condition
  variable through the recursive operations; \<open>coord_step\<close> is the step relation of the coordinator.
\<close>

section \<open>Invariant\<close>

definition rec_ok :: "ExecutionTaskRecord \<Rightarrow> bool" where
  "rec_ok r \<longleftrightarrow>
     (tr_status r = QUEUED \<longrightarrow> tr_started_at r = None \<and> tr_finished_at r = None) \<and>
     (tr_status r = RUNNING \<longrightarrow> tr_started_at r \<noteq> None \<and> tr_finished_at r = None) \<and>
     (rec_terminal r \<longrightarrow> tr_finished_at r \<noteq> None \<and> tr_handle r = None \<and> \<not> tr_accepting_children r) \<and>
     (\<forall>m. tr_result r = Some m \<longrightarrow> length (serialize_json (JDict m)) \<le> EXECUTION_TASK_RESULT_MAX_CHARS)"

text \<open>The parent of an entry is not the entry itself and does not come after it.\<close>

fun parents_first :: "(string, ExecutionTaskRecord) dict \<Rightarrow> bool" where
  "parents_first [] = True"
| "parents_first ((k, r) # rest) =
     ((case tr_parent_task_id r of None \<Rightarrow> True | Some p \<Rightarrow> p \<noteq> k \<and> p \<notin> fst ` set rest) \<and>
      parents_first rest)"

definition lineage_inv :: "(string, ExecutionTaskRecord) dict \<Rightarrow> bool" where
  "lineage_inv recs \<longleftrightarrow>
     (\<forall>k r p pr. map_of recs k = Some r \<longrightarrow> tr_parent_task_id r = Some p \<longrightarrow>
        map_of recs p = Some pr \<longrightarrow> tr_authority pr = tr_authority r)"

definition records_inv :: "(string, ExecutionTaskRecord) dict \<Rightarrow> bool" where
  "records_inv recs \<longleftrightarrow> distinct (map fst recs) \<and>
     (\<forall>k r. map_of recs k = Some r \<longrightarrow> tr_task_id r = k \<and> rec_ok r) \<and>
     parents_first recs \<and> lineage_inv recs"

definition history_inv :: "TaskCoordinator \<Rightarrow> bool" where
  "history_inv c \<longleftrightarrow> distinct (c_terminal_order c) \<and>
     (\<forall>k. k \<in> set (c_terminal_order c) \<longleftrightarrow> (\<exists>r. find_record c k = Some r \<and> rec_terminal r)) \<and>
     length (c_terminal_order c) \<le> c_terminal_history_limit c \<and> 1 \<le> c_terminal_history_limit c"

text \<open>The observers that have been told the end of a task, in order.\<close>

definition notified_of :: "string \<Rightarrow> TaskCoordinator \<Rightarrow> string list" where
  "notified_of k c = map fst (filter (\<lambda>(_, s). ts_task_id s = k) (c_notified c))"

definition notified_inv :: "TaskCoordinator \<Rightarrow> bool" where
  "notified_inv c \<longleftrightarrow>
     (\<forall>k. notified_of k c \<in> {[], map fst (c_terminal_observers c)}) \<and>
     (\<forall>k r. find_record c k = Some r \<longrightarrow>
        notified_of k c = (if rec_terminal r then map fst (c_terminal_observers c) else []))"

definition coord_inv :: "TaskCoordinator \<Rightarrow> bool" where
  "coord_inv c \<longleftrightarrow> records_inv (c_records c) \<and> history_inv c \<and> notified_inv c"

text \<open>An id of which the coordinator has no trace.\<close>

definition fresh_id :: "TaskCoordinator \<Rightarrow> string \<Rightarrow> bool" where
  "fresh_id c k \<longleftrightarrow> find_record c k = None \<and> notified_of k c = [] \<and>
     (\<forall>i r. find_record c i = Some r \<longrightarrow> tr_parent_task_id r \<noteq> Some k)"

section \<open>Updating a record in place\<close>

lemma alist_update_in: "k \<in> fst ` set d \<Longrightarrow> map fst (AList.update k v d) = map fst d"
  by (induction d) auto

lemma alist_update_notin: "k \<notin> fst ` set d \<Longrightarrow> AList.update k v d = d @ [(k, v)]"
  by (induction d) auto

lemma map_of_key: "map_of d k = Some v \<Longrightarrow> k \<in> fst ` set d"
  using weak_map_of_SomeI map_of_SomeD by force

lemma parents_first_update:
  "map_of recs k = Some r \<Longrightarrow> tr_parent_task_id r' = tr_parent_task_id r \<Longrightarrow>
   parents_first recs \<Longrightarrow> parents_first (AList.update k r' recs)"
proof (induction recs)
  case (Cons e recs)
  obtain k0 r0 where e: "e = (k0, r0)" by force
  show ?case
  proof (cases "k0 = k")
    case False
    with Cons.prems(1) e have "k \<in> fst ` set recs" by (auto dest: map_of_key)
    then have "fst ` set (AList.update k r' recs) = fst ` set recs"
      using alist_update_in [of k recs r'] by (metis set_map)
    with Cons e False show ?thesis by (auto split: option.splits)
  qed (use Cons e in auto)
qed simp

lemma parents_first_append:
  "parents_first recs \<Longrightarrow> (\<forall>(i, r0) \<in> set recs. tr_parent_task_id r0 \<noteq> Some k) \<Longrightarrow>
   tr_parent_task_id r \<noteq> Some k \<Longrightarrow> parents_first (recs @ [(k, r)])"
  by (induction recs) (auto split: option.splits)

lemma parents_first_filter: "parents_first recs \<Longrightarrow> parents_first (filter P recs)"
  by (induction recs) (auto split: option.splits)

lemma parents_first_delete: "parents_first recs \<Longrightarrow> parents_first (AList.delete k recs)"
  by (simp add: AList.delete_eq parents_first_filter)

text \<open>Every entry of \<open>recs'\<close> has an entry with the same identity fields in \<open>recs\<close>.\<close>

definition same_identities ::
  "(string, ExecutionTaskRecord) dict \<Rightarrow> (string, ExecutionTaskRecord) dict \<Rightarrow> bool" where
  "same_identities recs recs' \<longleftrightarrow>
     (\<forall>k r'. map_of recs' k = Some r' \<longrightarrow> (\<exists>r. map_of recs k = Some r \<and> rec_identity r' = rec_identity r))"

lemma rec_identityD:
  "rec_identity r' = rec_identity r \<Longrightarrow>
   tr_task_id r' = tr_task_id r \<and> tr_parent_task_id r' = tr_parent_task_id r \<and>
   tr_authority r' = tr_authority r \<and>
   tr_detached_from_parent_lifecycle r' = tr_detached_from_parent_lifecycle r"
  by (simp add: rec_identity_def)

lemma lineage_inv_same:
  assumes "lineage_inv recs" and "same_identities recs recs'"
  shows "lineage_inv recs'"
  unfolding lineage_inv_def
proof (intro allI impI)
  fix k r p pr
  assume *: "map_of recs' k = Some r" "tr_parent_task_id r = Some p" "map_of recs' p = Some pr"
  from assms(2) * obtain r0 pr0 where "map_of recs k = Some r0" "rec_identity r = rec_identity r0"
    "map_of recs p = Some pr0" "rec_identity pr = rec_identity pr0"
    unfolding same_identities_def by metis
  moreover have "tr_parent_task_id r0 = Some p"
    using rec_identityD [OF \<open>rec_identity r = rec_identity r0\<close>] *(2) by simp
  ultimately have "tr_authority pr0 = tr_authority r0"
    using assms(1) unfolding lineage_inv_def by blast
  then show "tr_authority pr = tr_authority r"
    using rec_identityD [OF \<open>rec_identity r = rec_identity r0\<close>]
      rec_identityD [OF \<open>rec_identity pr = rec_identity pr0\<close>] by simp
qed

lemma same_identities_update:
  "map_of recs k = Some r \<Longrightarrow> rec_identity r' = rec_identity r \<Longrightarrow>
   same_identities recs (AList.update k r' recs)"
  unfolding same_identities_def by simp

lemma same_identities_delete: "same_identities recs (AList.delete k recs)"
  unfolding same_identities_def by (simp add: delete_conv')

lemma records_inv_lookup:
  "records_inv recs \<Longrightarrow> map_of recs k = Some r \<Longrightarrow> tr_task_id r = k \<and> rec_ok r"
  unfolding records_inv_def by blast

lemma records_inv_update:
  assumes inv: "records_inv recs" and k: "map_of recs k = Some r"
    and same: "rec_identity r' = rec_identity r" and ok: "rec_ok r'"
  shows "records_inv (AList.update k r' recs)"
  unfolding records_inv_def
proof (intro conjI allI impI)
  show "distinct (map fst (AList.update k r' recs))"
    using inv map_of_key [OF k] by (simp add: alist_update_in records_inv_def)
  show "parents_first (AList.update k r' recs)"
    using inv same by (intro parents_first_update [OF k]) (auto simp: records_inv_def rec_identity_def)
  show "lineage_inv (AList.update k r' recs)"
    using inv same_identities_update [OF k same] by (auto simp: records_inv_def intro: lineage_inv_same)
next
  fix k1 r1 assume *: "map_of (AList.update k r' recs) k1 = Some r1"
  have "tr_task_id r' = k"
    using records_inv_lookup [OF inv k] same by (simp add: rec_identity_def)
  then show "tr_task_id r1 = k1" "rec_ok r1"
    using * ok records_inv_lookup [OF inv] by (simp_all split: if_splits)
qed

lemma records_inv_delete:
  assumes inv: "records_inv recs"
  shows "records_inv (AList.delete k recs)"
  unfolding records_inv_def
proof (intro conjI allI impI)
  show "distinct (map fst (AList.delete k recs))"
    using inv by (simp add: distinct_delete records_inv_def)
  show "parents_first (AList.delete k recs)"
    using inv by (simp add: parents_first_delete records_inv_def)
  show "lineage_inv (AList.delete k recs)"
    using inv same_identities_delete by (auto simp: records_inv_def intro: lineage_inv_same)
next
  fix k1 r1 assume "map_of (AList.delete k recs) k1 = Some r1"
  then have "map_of recs k1 = Some r1" by (simp add: delete_conv' split: if_splits)
  then show "tr_task_id r1 = k1" "rec_ok r1" using records_inv_lookup [OF inv] by simp_all
qed

lemma evict_terminal_records_inv:
  "records_inv recs \<Longrightarrow> records_inv (snd (evict_terminal limit order recs))"
  by (induction limit order recs rule: evict_terminal.induct)
     (auto simp: records_inv_delete split: option.splits)

text \<open>An update that keeps the identity, the status and the outputs keeps the invariant.\<close>

lemma coord_inv_update:
  assumes inv: "coord_inv c" and tid: "find_record c tid = Some r"
    and same: "rec_identity r' = rec_identity r" and ok: "rec_ok r'"
    and ends: "rec_terminal r' = rec_terminal r"
    and c': "c_records c' = AList.update tid r' (c_records c)"
      "c_terminal_order c' = c_terminal_order c"
      "c_terminal_history_limit c' = c_terminal_history_limit c"
      "c_terminal_observers c' = c_terminal_observers c" "c_notified c' = c_notified c"
  shows "coord_inv c'"
proof -
  have "history_inv c'"
    using inv tid ends unfolding coord_inv_def history_inv_def c' by auto
  moreover have "notified_inv c'"
    using inv tid ends unfolding coord_inv_def notified_inv_def c' notified_of_def
    by auto
  ultimately show ?thesis
    using inv records_inv_update [OF _ tid same ok] by (simp add: coord_inv_def c'(1))
qed

lemma coord_inv_cong:
  assumes "c_records c' = c_records c" and "c_terminal_order c' = c_terminal_order c"
    and "c_terminal_history_limit c' = c_terminal_history_limit c"
    and "c_terminal_observers c' = c_terminal_observers c" and "c_notified c' = c_notified c"
  shows "coord_inv c' = coord_inv c"
  unfolding coord_inv_def history_inv_def notified_inv_def notified_of_def assms by (rule refl)

lemma coord_inv_lookup:
  "coord_inv c \<Longrightarrow> find_record c k = Some r \<Longrightarrow> tr_task_id r = k \<and> rec_ok r"
  unfolding coord_inv_def using records_inv_lookup by blast

section \<open>Becoming terminal\<close>

lemma notified_of_observers:
  "notified_of k (notify_terminal_observers s c) =
   notified_of k c @ (if ts_task_id s = k then map fst (c_terminal_observers c) else [])"
  by (simp add: notified_of_def filter_map comp_def)

lemma snapshot_id [simp]: "ts_task_id (snapshot r) = tr_task_id r"
  by (simp add: snapshot_def)

lemma terminal_record_simps [simp]:
  "tr_status (terminal_record t status reason err event r) = status"
  "tr_task_id (terminal_record t status reason err event r) = tr_task_id r"
  "tr_accepting_children (terminal_record t status reason err event r) = tr_accepting_children r"
  "rec_identity (terminal_record t status reason err event r) = rec_identity r"
  by (simp_all add: terminal_record_def touch_record_def rec_identity_def)

lemma rec_ok_terminal_record:
  "rec_ok r \<Longrightarrow> status \<in> TERMINAL_STATUSES \<Longrightarrow> \<not> tr_accepting_children r \<Longrightarrow>
   rec_ok (terminal_record t status reason err event r)"
  by (auto simp: rec_ok_def terminal_record_def touch_record_def TERMINAL_STATUSES_def)

text \<open>Which records an eviction keeps: all but the terminal ones that drop out of the window.\<close>

lemma evict_terminal_records:
  "distinct order \<Longrightarrow> (\<forall>k \<in> set order. \<exists>r. map_of recs k = Some r \<and> rec_terminal r) \<Longrightarrow>
   map_of (snd (evict_terminal limit order recs)) k =
     (if k \<in> set (take (length order - limit) order) then None else map_of recs k)"
proof (induction limit order recs rule: evict_terminal.induct)
  case (2 limit stale_id rest recs)
  show ?case
  proof (cases "limit < Suc (length rest)")
    case True
    obtain r where r: "map_of recs stale_id = Some r" "rec_terminal r" using "2.prems"(2) by auto
    have "\<forall>k \<in> set rest. \<exists>r. map_of (AList.delete stale_id recs) k = Some r \<and> rec_terminal r"
      using "2.prems" by (auto simp: delete_conv')
    with True r "2.prems"(1) have "map_of (snd (evict_terminal limit rest (AList.delete stale_id recs))) k =
      (if k \<in> set (take (length rest - limit) rest) then None else map_of (AList.delete stale_id recs) k)"
      by (intro "2.IH"(2)) auto
    then show ?thesis using True r by (auto simp: delete_conv' Suc_diff_le)
  qed simp
qed simp

lemma remember_terminal_fields:
  "c_records (remember_terminal tid c) =
     snd (evict_terminal (c_terminal_history_limit c) (remove1 tid (c_terminal_order c) @ [tid]) (c_records c))"
  "c_terminal_order (remember_terminal tid c) =
     fst (evict_terminal (c_terminal_history_limit c) (remove1 tid (c_terminal_order c) @ [tid]) (c_records c))"
  by (simp_all add: remember_terminal_def Let_def split_beta)

lemma history_inv_remember:
  assumes inv: "history_inv c" and old: "find_record c tid = Some r" "\<not> rec_terminal r"
    and r': "rec_terminal r'"
    and c1: "c_records c1 = AList.update tid r' (c_records c)"
      "c_terminal_order c1 = c_terminal_order c"
      "c_terminal_history_limit c1 = c_terminal_history_limit c"
  shows "history_inv (remember_terminal tid c1)"
proof -
  let ?limit = "c_terminal_history_limit c" and ?order = "c_terminal_order c @ [tid]"
  let ?n = "length ?order - ?limit"
  have new: "tid \<notin> set (c_terminal_order c)" using inv old by (auto simp: history_inv_def)
  then have dist: "distinct ?order" using inv by (simp add: history_inv_def)
  have ends: "\<forall>k \<in> set ?order. \<exists>r. find_record c1 k = Some r \<and> rec_terminal r"
    using inv r' unfolding c1 history_inv_def by auto
  have order: "c_terminal_order (remember_terminal tid c1) = drop ?n ?order"
    using new by (simp add: remember_terminal_fields evict_terminal_order c1 remove1_idem)
  have recs: "find_record (remember_terminal tid c1) k =
      (if k \<in> set (take ?n ?order) then None else find_record c1 k)" for k
    using new evict_terminal_records [OF dist ends]
    unfolding remember_terminal_fields c1(2,3) by (simp only: remove1_idem [OF new])
  have "set ?order = set (take ?n ?order) \<union> set (drop ?n ?order)"
    by (metis append_take_drop_id set_append)
  moreover have "set (take ?n ?order) \<inter> set (drop ?n ?order) = {}"
    by (rule set_take_disj_set_drop_if_distinct [OF dist]) simp
  moreover have "k \<in> set ?order \<longleftrightarrow> (\<exists>r. find_record c1 k = Some r \<and> rec_terminal r)" for k
    using inv r' unfolding c1 history_inv_def by auto
  ultimately have "k \<in> set (drop ?n ?order) \<longleftrightarrow>
      (\<exists>r. find_record (remember_terminal tid c1) k = Some r \<and> rec_terminal r)" for k
    unfolding recs by auto
  moreover have "length (drop ?n ?order) \<le> ?limit" by simp
  moreover have "distinct (drop ?n ?order)" using dist by (rule distinct_drop)
  moreover have "1 \<le> ?limit" using inv by (simp add: history_inv_def)
  ultimately show ?thesis
    unfolding history_inv_def order remember_terminal_simps c1 by blast
qed

lemma coord_inv_mark_terminal:
  assumes inv: "coord_inv c" and status: "status \<in> TERMINAL_STATUSES"
    and closed: "\<And>r. find_record c tid = Some r \<Longrightarrow> \<not> tr_accepting_children r"
  shows "coord_inv (mark_terminal tid status reason event err c)"
proof (cases "\<exists>r. find_record c tid = Some r \<and> \<not> rec_terminal r")
  case False
  then show ?thesis using inv by (auto simp: mark_terminal_def split: option.splits)
next
  case True
  then obtain r where r: "find_record c tid = Some r" "\<not> rec_terminal r" by blast
  let ?r = "terminal_record (now_reading c) status reason err event r"
  let ?c1 = "notify_all (put_record tid ?r (after_now c))"
  let ?c2 = "remember_terminal tid ?c1"
  have c': "mark_terminal tid status reason event err c =
      notify_terminal_observers (snapshot ?r) (log_event event (snapshot ?r) [] ?c2)"
    using r by (simp add: mark_terminal_def Let_def)
  have id: "tr_task_id r = tid" using coord_inv_lookup [OF inv r(1)] by simp
  have recs1: "records_inv (c_records ?c1)"
    using inv records_inv_update [OF _ r(1)] coord_inv_lookup [OF inv r(1)]
      rec_ok_terminal_record [OF _ status closed [OF r(1)]]
    by (simp add: coord_inv_def)
  then have "records_inv (c_records ?c2)"
    by (simp only: remember_terminal_fields evict_terminal_records_inv)
  moreover have "history_inv ?c2"
    using inv status by (intro history_inv_remember [OF _ r, of ?r]) (simp_all add: coord_inv_def)
  then have "history_inv (mark_terminal tid status reason event err c)"
    unfolding c' history_inv_def by simp
  moreover have "notified_inv (mark_terminal tid status reason event err c)"
    unfolding notified_inv_def
  proof (intro conjI allI impI)
    have nb: "notified_of k (mark_terminal tid status reason event err c) =
        notified_of k c @ (if k = tid then map fst (c_terminal_observers c) else [])" for k
      unfolding c' notified_of_observers by (simp add: notified_of_def id)
    have obs: "c_terminal_observers (mark_terminal tid status reason event err c) = c_terminal_observers c"
      unfolding c' by simp
    have none: "notified_of tid c = []"
      using inv r by (simp add: coord_inv_def notified_inv_def)
    fix k
    show "notified_of k (mark_terminal tid status reason event err c) \<in>
        {[], map fst (c_terminal_observers (mark_terminal tid status reason event err c))}"
      using inv none unfolding nb obs by (simp add: coord_inv_def notified_inv_def)
    fix r1 assume "find_record (mark_terminal tid status reason event err c) k = Some r1"
    then have "find_record ?c1 k = Some r1" unfolding c' by (auto dest: remember_terminal_lookup)
    then show "notified_of k (mark_terminal tid status reason event err c) =
        (if rec_terminal r1
         then map fst (c_terminal_observers (mark_terminal tid status reason event err c)) else [])"
      using inv none status unfolding nb obs
      by (auto simp: coord_inv_def notified_inv_def split: if_splits)
  qed
  ultimately show ?thesis unfolding coord_inv_def c' by simp
qed

section \<open>The invariant through the cascade\<close>

text \<open>The keys that are left after an operation are a subsequence of the keys before it.\<close>

definition task_keys :: "TaskCoordinator \<Rightarrow> string list" where
  "task_keys c = map fst (c_records c)"

definition keeps :: "TaskCoordinator \<Rightarrow> TaskCoordinator \<Rightarrow> bool" where
  "keeps c c' \<longleftrightarrow> evolves c c' \<and> subseq (task_keys c') (task_keys c) \<and> (coord_inv c \<longrightarrow> coord_inv c') \<and>
     (\<forall>k. find_record c k = None \<longrightarrow> notified_of k c' = notified_of k c) \<and>
     c_terminal_history_limit c' = c_terminal_history_limit c \<and> c_terminal_observers c' = c_terminal_observers c"

definition closed_parent :: "TaskCoordinator \<Rightarrow> string \<Rightarrow> bool" where
  "closed_parent c tid \<longleftrightarrow> (\<forall>r. find_record c tid = Some r \<longrightarrow> \<not> tr_accepting_children r)"

lemma closed_parent_evolves: "evolves c c' \<Longrightarrow> closed_parent c tid \<Longrightarrow> closed_parent c' tid"
  unfolding evolves_def closed_parent_def rec_evolves_def by blast

lemma keeps_refl [simp]: "keeps c c"
  by (simp add: keeps_def)

lemma evolves_None: "evolves c c' \<Longrightarrow> find_record c k = None \<Longrightarrow> find_record c' k = None"
  unfolding evolves_def by (metis not_None_eq option.distinct(1))

lemma keeps_evolves: "keeps c c' \<Longrightarrow> evolves c c'"
  by (simp add: keeps_def)

lemma keeps_trans: "keeps c1 c2 \<Longrightarrow> keeps c2 c3 \<Longrightarrow> keeps c1 c3"
  unfolding keeps_def
  by (auto intro: evolves_trans subseq_order.order_trans dest: evolves_None)

lemma fresh_id_keeps:
  assumes "keeps c c'" and "fresh_id c k"
  shows "fresh_id c' k"
  unfolding fresh_id_def
proof (intro conjI allI impI)
  show "find_record c' k = None" "notified_of k c' = []"
    using assms evolves_None by (auto simp: keeps_def fresh_id_def)
  fix i r assume "find_record c' i = Some r"
  then obtain r0 where "find_record c i = Some r0" "rec_identity r = rec_identity r0"
    using evolvesD [OF keeps_evolves [OF assms(1)]] unfolding rec_evolves_def by blast
  with assms(2) show "tr_parent_task_id r \<noteq> Some k"
    using rec_identityD by (metis fresh_id_def)
qed

lemma keeps_put:
  assumes "find_record c tid = Some r" and "rec_evolves r r'" and "rec_terminal r' = rec_terminal r"
    and "rec_ok r \<Longrightarrow> rec_ok r'"
    and c': "c_records c' = AList.update tid r' (c_records c)"
      "c_terminal_order c' = c_terminal_order c"
      "c_terminal_history_limit c' = c_terminal_history_limit c"
      "c_terminal_observers c' = c_terminal_observers c" "c_notified c' = c_notified c"
  shows "keeps c c'"
  unfolding keeps_def
proof (intro conjI allI impI)
  show "evolves c c'" using assms(1,2) c'(1) by (rule evolves_put)
  show "subseq (task_keys c') (task_keys c)"
    using map_of_key [OF assms(1)] by (simp add: task_keys_def c' alist_update_in)
  show "coord_inv c'" if "coord_inv c"
    using that assms(2-4) coord_inv_lookup [OF that assms(1)]
    by (intro coord_inv_update [OF that assms(1) _ _ _ c']) (auto simp: rec_evolves_def)
  show "notified_of k c' = notified_of k c" for k by (simp add: notified_of_def c')
qed (rule c')+

lemma keeps_cong:
  assumes "c_records c' = c_records c" and "c_terminal_order c' = c_terminal_order c"
    and "c_terminal_history_limit c' = c_terminal_history_limit c"
    and "c_terminal_observers c' = c_terminal_observers c" and "c_notified c' = c_notified c"
  shows "keeps c c'"
  unfolding keeps_def coord_inv_cong [OF assms]
  using evolves_records_eq [OF assms(1)] by (simp add: task_keys_def notified_of_def assms)

lemma subseq_delete: "subseq (map fst (AList.delete k recs)) (map fst recs)"
  by (simp add: AList.delete_eq subseq_map)

lemma subseq_evict: "subseq (map fst (snd (evict_terminal limit order recs))) (map fst recs)"
proof (induction limit order recs rule: evict_terminal.induct)
  case (2 limit stale_id rest recs)
  then show ?case using subseq_delete [of stale_id recs] subseq_order.order_trans
    by (auto split: option.splits)
qed simp

lemma subseq_mark_terminal:
  "subseq (task_keys (mark_terminal tid status reason event err c)) (task_keys c)"
proof (cases "find_record c tid")
  case (Some r)
  have "map fst (AList.update tid r' (c_records c)) = task_keys c" for r'
    using map_of_key [OF Some] by (simp add: task_keys_def alist_update_in)
  then show ?thesis
    using Some subseq_evict [where recs = "AList.update tid _ (c_records c)"]
    by (simp add: mark_terminal_def Let_def task_keys_def remember_terminal_fields)
qed (simp add: mark_terminal_def)

lemma notified_mark_terminal:
  "coord_inv c \<Longrightarrow> find_record c k = None \<Longrightarrow>
   notified_of k (mark_terminal tid status reason event err c) = notified_of k c"
  using coord_inv_lookup [of c tid]
  by (auto simp: mark_terminal_def Let_def notified_of_observers split: option.splits)
     (auto simp: notified_of_def)

lemma mark_terminal_config:
  "c_terminal_history_limit (mark_terminal tid status reason event err c) = c_terminal_history_limit c"
  "c_terminal_observers (mark_terminal tid status reason event err c) = c_terminal_observers c"
  by (simp_all add: mark_terminal_def Let_def split: option.splits)

lemma keeps_mark_terminal:
  "coord_inv c \<Longrightarrow> closed_parent c tid \<Longrightarrow> status \<in> TERMINAL_STATUSES \<Longrightarrow>
   keeps c (mark_terminal tid status reason event err c)"
  unfolding keeps_def closed_parent_def
  by (simp add: evolves_mark_terminal subseq_mark_terminal coord_inv_mark_terminal notified_mark_terminal
      mark_terminal_config)

lemma keeps_request:
  "find_record c tid = Some r \<Longrightarrow> \<not> rec_terminal r \<Longrightarrow>
   keeps c (notify_all (put_record tid
     (touch_record (r\<lparr>tr_cancel_requested := True, tr_latest_event := Some reason\<rparr>)) c))"
  by (erule keeps_put) (auto simp: rec_evolves_defs rec_ok_def)

lemma keeps_close:
  "find_record c tid = Some r \<Longrightarrow> keeps c (put_record tid (r\<lparr>tr_accepting_children := False\<rparr>) c)"
  by (erule keeps_put) (auto simp: rec_evolves_defs rec_ok_def)

interpretation kept: cascade_contract keeps "\<lambda>c _. coord_inv c" closed_parent
proof unfold_locales
  show "coord_inv c'" if "keeps c c'" and "coord_inv c" for c c' using that by (simp add: keeps_def)
  show "closed_parent c' i" if "keeps c c'" and "closed_parent c i" for c c' i
    using that closed_parent_evolves by (auto simp: keeps_def)
qed (auto simp: closed_parent_def intro: keeps_trans keeps_request keeps_close keeps_mark_terminal keeps_cong)

section \<open>Confinement of a cancellation\<close>

text \<open>
  Apart from the eviction of finished records, an operation that starts at a task of authority
  \<open>a\<close> leaves the records of every other authority as they are.
\<close>

definition confined :: "ExecutionAuthority \<Rightarrow> TaskCoordinator \<Rightarrow> TaskCoordinator \<Rightarrow> bool" where
  "confined a c c' \<longleftrightarrow> keeps c c' \<and>
     (\<forall>k r. find_record c k = Some r \<longrightarrow> tr_authority r \<noteq> a \<longrightarrow>
        find_record c' k = Some r \<or> (rec_terminal r \<and> find_record c' k = None))"

definition owned :: "ExecutionAuthority \<Rightarrow> TaskCoordinator \<Rightarrow> string \<Rightarrow> bool" where
  "owned a c tid \<longleftrightarrow> coord_inv c \<and> (\<forall>r. find_record c tid = Some r \<longrightarrow> tr_authority r = a)"

lemma owned_keeps: "keeps c c' \<Longrightarrow> owned a c i \<Longrightarrow> owned a c' i"
  unfolding owned_def keeps_def evolves_def rec_evolves_def using rec_identityD by metis

lemma active_childrenD:
  assumes "i \<in> set (active_children tid c)" and "coord_inv c"
  shows "\<exists>r. find_record c i = Some r \<and> tr_parent_task_id r = Some tid \<and> \<not> rec_terminal r \<and>
             \<not> tr_detached_from_parent_lifecycle r"
proof -
  from assms(1) obtain k r where r: "(k, r) \<in> set (c_records c)" "i = tr_task_id r"
    "tr_parent_task_id r = Some tid" "\<not> rec_terminal r" "\<not> tr_detached_from_parent_lifecycle r"
    by (auto simp: active_children_def)
  with assms(2) have "find_record c k = Some r"
    by (simp add: coord_inv_def records_inv_def)
  with r coord_inv_lookup [OF assms(2)] show ?thesis by auto
qed

lemma active_childrenI:
  assumes "find_record c i = Some r" and "tr_parent_task_id r = Some tid" and "\<not> rec_terminal r"
    and "\<not> tr_detached_from_parent_lifecycle r" and "coord_inv c"
  shows "i \<in> set (active_children tid c)"
  using assms map_of_SomeD [OF assms(1)] coord_inv_lookup [OF assms(5,1)]
  by (force simp: active_children_def)

lemma owned_child:
  assumes "owned a c tid" and "find_record c tid = Some r" and "i \<in> set (active_children tid c)"
  shows "owned a c i"
proof -
  have inv: "coord_inv c" using assms(1) by (simp add: owned_def)
  from active_childrenD [OF assms(3) inv] obtain ri where
    "find_record c i = Some ri" "tr_parent_task_id ri = Some tid" by blast
  moreover have "lineage_inv (c_records c)" using inv by (simp add: coord_inv_def records_inv_def)
  ultimately have "tr_authority r = tr_authority ri"
    using assms(2) unfolding lineage_inv_def by blast
  with \<open>find_record c i = Some ri\<close> assms(1,2) show ?thesis by (simp add: owned_def)
qed

lemma confined_same: "keeps c c' \<Longrightarrow> c_records c' = c_records c \<Longrightarrow> confined a c c'"
  unfolding confined_def by simp

lemma confined_silent:
  "confined a c (log_event e s x c)" "confined a c (c\<lparr>c_cancel_calls := calls\<rparr>)"
  by (auto intro!: confined_same keeps_cong)

lemma confinedD:
  "confined a c c' \<Longrightarrow> find_record c k = Some r \<Longrightarrow> tr_authority r \<noteq> a \<Longrightarrow>
   find_record c' k = Some r \<or> (rec_terminal r \<and> find_record c' k = None)"
  unfolding confined_def by blast

lemma confined_trans:
  assumes "confined a c1 c2" and "confined a c2 c3"
  shows "confined a c1 c3"
  unfolding confined_def
proof (intro conjI allI impI)
  show "keeps c1 c3" using assms keeps_trans unfolding confined_def by blast
  have "evolves c2 c3" using assms(2) keeps_evolves by (simp add: confined_def)
  fix k r assume "find_record c1 k = Some r" "tr_authority r \<noteq> a"
  then show "find_record c3 k = Some r \<or> rec_terminal r \<and> find_record c3 k = None"
    using confinedD [OF assms(1)] confinedD [OF assms(2)] evolves_None [OF \<open>evolves c2 c3\<close>] by blast
qed

lemma confined_put:
  "keeps c c' \<Longrightarrow> find_record c tid = Some r \<Longrightarrow> tr_authority r = a \<Longrightarrow>
   c_records c' = AList.update tid r' (c_records c) \<Longrightarrow> confined a c c'"
  unfolding confined_def by auto

lemma mark_terminal_others:
  assumes "find_record c k = Some r" and "k \<noteq> tid"
  shows "find_record (mark_terminal tid status reason event err c) k = Some r \<or>
         (rec_terminal r \<and> find_record (mark_terminal tid status reason event err c) k = None)"
proof (cases "rec_terminal r")
  case False
  with assms mark_terminal_other_active show ?thesis by blast
next
  case True
  with assms show ?thesis
    using mark_terminal_lookup [of tid status reason event err c k]
    by (cases "find_record (mark_terminal tid status reason event err c) k") auto
qed

lemma confined_mark_terminal:
  assumes "owned a c tid" and "closed_parent c tid" and "status \<in> TERMINAL_STATUSES"
  shows "confined a c (mark_terminal tid status reason event err c)"
  unfolding confined_def
proof (intro conjI allI impI)
  show "keeps c (mark_terminal tid status reason event err c)"
    using assms keeps_mark_terminal by (simp add: owned_def)
  fix k r assume k: "find_record c k = Some r" "tr_authority r \<noteq> a"
  with assms(1) have "k \<noteq> tid" by (auto simp: owned_def)
  with k(1) show "find_record (mark_terminal tid status reason event err c) k = Some r \<or>
      rec_terminal r \<and> find_record (mark_terminal tid status reason event err c) k = None"
    by (rule mark_terminal_others)
qed

interpretation conf: cascade_contract "confined a" "owned a" closed_parent for a
proof unfold_locales
  show "owned a c' i" if "confined a c c'" and "owned a c i" for c c' i
    using that owned_keeps unfolding confined_def by blast
  show "closed_parent c' i" if "confined a c c'" and "closed_parent c i" for c c' i
    using that closed_parent_evolves keeps_evolves unfolding confined_def by blast
  show "confined a c (notify_all (put_record tid
      (touch_record (r\<lparr>tr_cancel_requested := True, tr_latest_event := Some reason\<rparr>)) c))"
    if "owned a c tid" "find_record c tid = Some r" "\<not> rec_terminal r" for c tid r reason
    using that by (intro confined_put [of c _ tid r] keeps_request) (auto simp: owned_def)
  show "confined a c (put_record tid (r\<lparr>tr_accepting_children := False\<rparr>) c)"
    if "owned a c tid" "find_record c tid = Some r" for c tid r
    using that by (intro confined_put [of c _ tid r] keeps_close) (auto simp: owned_def)
qed (auto simp: closed_parent_def intro: confined_trans owned_child confined_mark_terminal confined_silent confined_same)

section \<open>Wake-up discipline\<close>

text \<open>
  A change that a snapshot shows is always announced: while the number of notifications stays the
  same, so does every snapshot.
\<close>

definition announced :: "TaskCoordinator \<Rightarrow> TaskCoordinator \<Rightarrow> bool" where
  "announced c c' \<longleftrightarrow> c_notifies c \<le> c_notifies c' \<and>
     (c_notifies c' = c_notifies c \<longrightarrow> (\<forall>k. get_task k c' = get_task k c))"

lemma announced_refl [simp]: "announced c c"
  by (simp add: announced_def)

lemma announced_trans: "announced c1 c2 \<Longrightarrow> announced c2 c3 \<Longrightarrow> announced c1 c3"
  unfolding announced_def by auto

lemma announced_notify: "c_notifies c < c_notifies c' \<Longrightarrow> announced c c'"
  by (simp add: announced_def)

lemma announced_silent:
  "c_notifies c' = c_notifies c \<Longrightarrow> c_records c' = c_records c \<Longrightarrow> announced c c'"
  by (simp add: announced_def get_task_def)

lemma announced_put:
  "find_record c tid = Some r \<Longrightarrow> snapshot r' = snapshot r \<Longrightarrow> announced c (put_record tid r' c)"
  by (simp add: announced_def get_task_def)

lemma announced_mark_terminal: "announced c (mark_terminal tid status reason event err c)"
  by (auto simp: mark_terminal_def Let_def intro: announced_notify split: option.splits)

interpretation wake: cascade_contract announced "\<lambda>_ _. True" "\<lambda>_ _. True"
  by unfold_locales
     (auto intro: announced_trans announced_notify announced_silent announced_mark_terminal
        announced_put simp: snapshot_def)

end
