(* ===== verification/Task_Steps.thy ===== *)
theory Task_Steps
  imports Task_Lifecycle
begin

text \<open>
  Termination of the cancellation cascade, what a closed parent means for its children, the step
  relation of the coordinator with its reachable states, and the properties of the coordinator.
\<close>

section \<open>Termination of the cascade\<close>

text \<open>
  The number of dict entries from a task's own to the end. A child's is smaller than its parent's,
  and no operation of the cascade makes one larger, so it bounds the depth of the recursion.
\<close>

definition key_rank :: "string list \<Rightarrow> string \<Rightarrow> nat" where
  "key_rank ks tid = length (dropWhile (\<lambda>k. k \<noteq> tid) ks)"

abbreviation task_rank :: "TaskCoordinator \<Rightarrow> string \<Rightarrow> nat" where
  "task_rank c \<equiv> key_rank (task_keys c)"

lemma key_rank_le: "key_rank ks tid \<le> length ks"
  by (simp add: key_rank_def length_dropWhile_le)

lemma key_rank_subseq: "subseq ks' ks \<Longrightarrow> key_rank ks' tid \<le> key_rank ks tid"
proof (induction rule: list_emb.induct)
  case (list_emb_Cons xs ys y)
  then show ?case
    by (auto simp: key_rank_def intro: le_SucI order_trans [OF _ length_dropWhile_le])
next
  case (list_emb_Cons2 x y xs ys)
  then show ?case by (auto simp: key_rank_def dest: list_emb_length)
qed (simp add: key_rank_def)

lemma key_rank_child:
  "parents_first recs \<Longrightarrow> map_of recs i = Some r \<Longrightarrow> tr_parent_task_id r = Some p \<Longrightarrow>
   map_of recs p = Some pr \<Longrightarrow> key_rank (map fst recs) i < key_rank (map fst recs) p"
proof (induction recs)
  case (Cons e recs)
  obtain k0 r0 where e: "e = (k0, r0)" by force
  show ?case
  proof (cases "k0 = p \<or> k0 = i")
    case True
    with Cons.prems e have "k0 = p \<and> k0 \<noteq> i"
      by (auto dest: map_of_key split: if_splits)
    then show ?thesis
      using e key_rank_le [of "map fst recs" i] by (auto simp: key_rank_def)
  next
    case False
    with Cons.prems e have "key_rank (map fst recs) i < key_rank (map fst recs) p"
      by (intro Cons.IH) (auto split: if_splits)
    with False e show ?thesis by (simp add: key_rank_def)
  qed
qed simp

lemma task_rank_keeps: "keeps c c' \<Longrightarrow> task_rank c' i \<le> task_rank c i"
  by (simp add: keeps_def key_rank_subseq)

lemma task_rank_child:
  assumes "coord_inv c" and "find_record c tid = Some r" and "i \<in> set (active_children tid c)"
  shows "task_rank c i < task_rank c tid"
  using active_childrenD [OF assms(3,1)] assms(1,2) key_rank_child
  by (auto simp: task_keys_def coord_inv_def records_inv_def)

text \<open>\<open>K\<close> returns, and keeps what the cascade keeps, on every task of rank below \<open>n\<close>.\<close>

definition returns_below ::
  "nat \<Rightarrow> (string \<Rightarrow> TaskCoordinator \<Rightarrow> TaskCoordinator option) \<Rightarrow> bool" where
  "returns_below n K \<longleftrightarrow>
     (\<forall>i c. coord_inv c \<longrightarrow> task_rank c i < n \<longrightarrow> (\<exists>c'. K i c = Some c' \<and> keeps c c'))"

lemma cancel_each_returns:
  "returns_below n K \<Longrightarrow> coord_inv c \<Longrightarrow> \<forall>i \<in> set is. task_rank c i < n \<Longrightarrow>
   \<exists>c'. cancel_each K is c = Some c'"
proof (induction "is" arbitrary: c)
  case (Cons i "is")
  then obtain c1 where c1: "K i c = Some c1" "keeps c c1" unfolding returns_below_def by force
  have "\<forall>i \<in> set is. task_rank c1 i < n"
    using Cons.prems(3) task_rank_keeps [OF c1(2)] order.strict_trans1 by fastforce
  moreover have "coord_inv c1" using c1(2) Cons.prems(2) by (simp add: keeps_def)
  ultimately show ?case using Cons.IH [OF Cons.prems(1)] c1(1) by simp
qed simp

lemma cancel_active_children_with_returns:
  assumes "returns_below n K" and "coord_inv c" and "task_rank c tid \<le> n"
  shows "\<exists>c'. cancel_active_children_with K tid c = Some c'"
proof (cases "find_record c tid")
  case (Some r)
  let ?c1 = "put_record tid (r\<lparr>tr_accepting_children := False\<rparr>) c"
  have k: "keeps c ?c1" using Some by (rule keeps_close)
  then have inv1: "coord_inv ?c1" using assms(2) by (simp add: keeps_def)
  have "task_rank ?c1 i < n" if "i \<in> set (active_children tid ?c1)" for i
    using task_rank_child [OF inv1 _ that] task_rank_keeps [OF k, of tid] assms(3) by fastforce
  then show ?thesis
    using cancel_each_returns [OF assms(1) inv1] Some
    by (simp add: cancel_active_children_with_def Let_def)
qed (simp add: cancel_active_children_with_def)

lemma cancel_task_returns:
  "coord_inv c \<Longrightarrow> task_rank c tid < fuel \<Longrightarrow> \<exists>res c'. cancel_task fuel tid reason c = Some (res, c')"
proof (induction fuel arbitrary: tid reason c)
  case (Suc fuel)
  have K: "returns_below fuel (\<lambda>i c. map_option snd (cancel_task fuel i ''parent_cancelled'' c))"
    unfolding returns_below_def
  proof (intro allI impI)
    fix i c assume c: "coord_inv c" "task_rank c i < fuel"
    then obtain res c' where "cancel_task fuel i ''parent_cancelled'' c = Some (res, c')"
      using Suc.IH by blast
    then show "\<exists>c'. map_option snd (cancel_task fuel i ''parent_cancelled'' c) = Some c' \<and> keeps c c'"
      using kept.cancel_task_R c(1) by auto
  qed
  show ?case
  proof (cases "\<exists>r. find_record c tid = Some r \<and> \<not> rec_terminal r")
    case False
    then show ?thesis by (auto split: option.splits)
  next
    case True
    then obtain r where r: "find_record c tid = Some r" "\<not> rec_terminal r" by blast
    let ?r = "touch_record (r\<lparr>tr_cancel_requested := True, tr_latest_event := Some reason\<rparr>)"
    let ?c1 = "log_event ''execution_task_cancel_requested'' (snapshot ?r) []
                 (notify_all (put_record tid ?r c))"
    have k: "keeps c ?c1"
      by (rule keeps_trans [OF keeps_request [OF r]]) (rule kept.R_log)
    then have "coord_inv ?c1" "task_rank ?c1 tid \<le> fuel"
      using Suc.prems task_rank_keeps [OF k, of tid] by (auto simp: keeps_def)
    then obtain c2 where
      "cancel_active_children_with (\<lambda>i c. map_option snd (cancel_task fuel i ''parent_cancelled'' c))
         tid ?c1 = Some c2"
      using cancel_active_children_with_returns [OF K] by blast
    then show ?thesis using r by (auto simp: Let_def finish_with_def split: option.splits)
  qed
qed simp

lemma cancel_child_returns_below: "returns_below fuel (cancel_child fuel reason)"
  unfolding returns_below_def
proof (intro allI impI)
  fix i c assume c: "coord_inv c" "task_rank c i < fuel"
  then obtain res c' where "cancel_task fuel i reason c = Some (res, c')"
    using cancel_task_returns by blast
  then show "\<exists>c'. cancel_child fuel reason i c = Some c' \<and> keeps c c'"
    using kept.cancel_task_R c(1) by (auto simp: cancel_child_def)
qed

lemma cancel_active_children_returns:
  "coord_inv c \<Longrightarrow> task_rank c tid \<le> fuel \<Longrightarrow> \<exists>c'. cancel_active_children fuel tid reason c = Some c'"
  unfolding cancel_active_children_def
  by (rule cancel_active_children_with_returns [OF cancel_child_returns_below])

lemma mark_returns:
  assumes "coord_inv c" and "task_rank c tid \<le> fuel"
  shows "\<exists>c'. mark_completed fuel tid reason c = Some c'"
    and "\<exists>c'. mark_failed fuel tid reason err c = Some c'"
    and "\<exists>c'. mark_cancelled fuel tid reason c = Some c'"
    and "\<exists>c'. mark_timed_out fuel tid reason c = Some c'"
    and "\<exists>c'. mark_skipped fuel tid reason c = Some c'"
  unfolding mark_completed_def mark_failed_def mark_cancelled_def mark_timed_out_def mark_skipped_def
  using cancel_active_children_returns [OF assms] by simp_all

lemma mark_cancelled_returns_below:
  "returns_below (Suc fuel) (\<lambda>tid. mark_cancelled fuel tid reason)"
  unfolding returns_below_def
proof (intro allI impI)
  fix i c assume c: "coord_inv c" "task_rank c i < Suc fuel"
  then obtain c' where "mark_cancelled fuel i reason c = Some c'"
    using mark_returns(3) [of c i fuel reason] by auto
  then show "\<exists>c'. mark_cancelled fuel i reason c = Some c' \<and> keeps c c'"
    using kept.mark_R(3) c(1) by blast
qed

lemma task_rank_le_records: "task_rank c tid \<le> length (c_records c)"
  using key_rank_le [of "task_keys c" tid] by (simp add: task_keys_def)

lemma shutdown_returns:
  assumes "coord_inv c" and "length (c_records c) < fuel"
  shows "\<exists>c'. shutdown fuel reason c = Some c'"
proof -
  let ?c1 = "c\<lparr>c_accepting_tasks := False\<rparr>"
  have "coord_inv ?c1" using assms(1) coord_inv_cong [of ?c1 c] by simp
  moreover have "task_rank ?c1 i < fuel" for i
    using task_rank_le_records [of ?c1 i] assms(2) by simp
  ultimately show ?thesis
    unfolding shutdown_def Let_def by (intro cancel_each_returns [OF cancel_child_returns_below]) auto
qed

lemma mark_unfinished_cancelled_returns:
  assumes "coord_inv c" and "length (c_records c) \<le> fuel"
  shows "\<exists>c'. mark_unfinished_cancelled fuel reason c = Some c'"
  unfolding mark_unfinished_cancelled_def
  using assms task_rank_le_records [of c]
  by (intro cancel_each_returns [OF mark_cancelled_returns_below assms(1)]) (auto intro: le_imp_less_Suc order_trans)

lemma cancel_collect_returns:
  "coord_inv c \<Longrightarrow> \<forall>i \<in> set tids. task_rank c i < fuel \<Longrightarrow>
   \<exists>snaps c'. cancel_collect fuel reason tids c = Some (snaps, c')"
proof (induction tids arbitrary: c)
  case (Cons i tids)
  then obtain res c1 where c1: "cancel_task fuel i reason c = Some (res, c1)"
    using cancel_task_returns by fastforce
  then have "keeps c c1" using kept.cancel_task_R Cons.prems(1) by blast
  then have "\<forall>i \<in> set tids. task_rank c1 i < fuel" "coord_inv c1"
    using Cons.prems task_rank_keeps [OF \<open>keeps c c1\<close>] order.strict_trans1
    by (fastforce, simp add: keeps_def)
  then show ?case using Cons.IH c1 by fastforce
qed simp

section \<open>Children of a closed parent\<close>

text \<open>
  Once a parent is closed (it is terminal or becomes so), each of its attached children that still
  runs has been asked to stop.
\<close>

definition settled :: "TaskCoordinator \<Rightarrow> string \<Rightarrow> bool" where
  "settled c i \<longleftrightarrow> (\<forall>r. find_record c i = Some r \<longrightarrow> rec_terminal r \<or> tr_cancel_requested r)"

definition closed_at :: "TaskCoordinator \<Rightarrow> string \<Rightarrow> bool" where
  "closed_at c p \<longleftrightarrow>
     (\<forall>pr i r. find_record c p = Some pr \<longrightarrow> \<not> tr_accepting_children pr \<longrightarrow>
        find_record c i = Some r \<longrightarrow> tr_parent_task_id r = Some p \<longrightarrow>
        \<not> tr_detached_from_parent_lifecycle r \<longrightarrow> \<not> rec_terminal r \<longrightarrow> tr_cancel_requested r)"

lemma rec_evolves_active: "rec_evolves r r' \<Longrightarrow> \<not> rec_terminal r' \<Longrightarrow> \<not> rec_terminal r"
  unfolding rec_evolves_def using rec_outcome_status by metis

lemma settled_evolves: "evolves c c' \<Longrightarrow> settled c i \<Longrightarrow> settled c' i"
  unfolding settled_def
  by (metis (no_types, lifting) evolvesD rec_evolves_active rec_evolves_def)

lemma closed_at_evolves:
  assumes "evolves c c'" and "closed_at c p"
    and "\<And>pr. find_record c' p = Some pr \<Longrightarrow> \<not> tr_accepting_children pr \<Longrightarrow>
           \<exists>pr0. find_record c p = Some pr0 \<and> \<not> tr_accepting_children pr0"
  shows "closed_at c' p"
  unfolding closed_at_def
proof (intro allI impI)
  fix pr i r
  assume p: "find_record c' p = Some pr" "\<not> tr_accepting_children pr"
    and r: "find_record c' i = Some r" "tr_parent_task_id r = Some p"
      "\<not> tr_detached_from_parent_lifecycle r" "\<not> rec_terminal r"
  from evolvesD [OF assms(1) r(1)] obtain r0 where r0: "find_record c i = Some r0" "rec_evolves r0 r"
    by blast
  have "rec_identity r = rec_identity r0" using r0(2) by (simp add: rec_evolves_def)
  then have "tr_parent_task_id r0 = Some p" "\<not> tr_detached_from_parent_lifecycle r0" "\<not> rec_terminal r0"
    using r rec_identityD [of r r0] rec_evolves_active [OF r0(2) r(4)] by simp_all
  with assms(2) assms(3) [OF p] r0(1) have "tr_cancel_requested r0" unfolding closed_at_def by blast
  with r0(2) show "tr_cancel_requested r" by (simp add: rec_evolves_def)
qed

lemma closed_at_children:
  assumes "evolves c c'" and "coord_inv c" and "\<forall>i \<in> set (active_children p c). settled c' i"
  shows "closed_at c' p"
  unfolding closed_at_def
proof (intro allI impI)
  fix pr i r
  assume r: "find_record c' i = Some r" "tr_parent_task_id r = Some p"
      "\<not> tr_detached_from_parent_lifecycle r" "\<not> rec_terminal r"
  from evolvesD [OF assms(1) r(1)] obtain r0 where r0: "find_record c i = Some r0" "rec_evolves r0 r"
    by blast
  then have "i \<in> set (active_children p c)"
    using r rec_identityD [of r r0] rec_evolves_active [OF r0(2) r(4)]
    by (intro active_childrenI [OF r0(1) _ _ _ assms(2)]) (auto simp: rec_evolves_def)
  with assms(3) r show "tr_cancel_requested r" by (auto simp: settled_def)
qed

text \<open>
  What the operations on one task promise: they keep the invariant, the task is settled after
  them, and no parent outside a given set is left with a running child that was not asked to stop.
\<close>

definition closed_outside :: "string set \<Rightarrow> TaskCoordinator \<Rightarrow> bool" where
  "closed_outside S c \<longleftrightarrow> (\<forall>q. q \<notin> S \<longrightarrow> closed_at c q)"

definition closing :: "TaskCoordinator \<Rightarrow> string \<Rightarrow> TaskCoordinator \<Rightarrow> bool" where
  "closing c i c' \<longleftrightarrow> keeps c c' \<and> settled c' i \<and> (\<forall>S. closed_outside S c \<longrightarrow> closed_outside S c')"

definition closing_op :: "(string \<Rightarrow> TaskCoordinator \<Rightarrow> TaskCoordinator option) \<Rightarrow> bool" where
  "closing_op K \<longleftrightarrow> (\<forall>i c c'. coord_inv c \<longrightarrow> K i c = Some c' \<longrightarrow> closing c i c')"

lemma closed_outside_evolves:
  assumes "evolves c c'" and "closed_outside S c"
    and "\<And>q pr. q \<notin> S \<Longrightarrow> find_record c' q = Some pr \<Longrightarrow> \<not> tr_accepting_children pr \<Longrightarrow>
           \<exists>pr0. find_record c q = Some pr0 \<and> \<not> tr_accepting_children pr0"
  shows "closed_outside S c'"
  using assms(2,3) closed_at_evolves [OF assms(1)] unfolding closed_outside_def by blast

lemma closing_same_records:
  assumes "keeps c c'" and "c_records c' = c_records c1" and "settled c1 i"
    and "\<And>S. closed_outside S c \<Longrightarrow> closed_outside S c1"
  shows "closing c i c'"
proof -
  have "settled c' i = settled c1 i" "closed_outside S c' = closed_outside S c1" for S
    unfolding settled_def closed_outside_def closed_at_def assms(2) by (rule refl)+
  with assms show ?thesis by (simp add: closing_def)
qed

lemma cancel_each_closing:
  "closing_op K \<Longrightarrow> coord_inv c \<Longrightarrow> cancel_each K is c = Some c' \<Longrightarrow>
   keeps c c' \<and> (\<forall>i \<in> set is. settled c' i) \<and> (closed_outside S c \<longrightarrow> closed_outside S c')"
proof (induction "is" arbitrary: c)
  case (Cons i "is")
  from Cons.prems(3) obtain c1 where c1: "K i c = Some c1" "cancel_each K is c1 = Some c'"
    by (auto simp: bind_eq_Some_conv)
  with Cons.prems(1,2) have k: "closing c i c1" unfolding closing_op_def by blast
  then have "coord_inv c1" using Cons.prems(2) by (simp add: closing_def keeps_def)
  with Cons.IH [OF Cons.prems(1) _ c1(2)] have rest: "keeps c1 c' \<and> (\<forall>i \<in> set is. settled c' i) \<and>
      (closed_outside S c1 \<longrightarrow> closed_outside S c')" by blast
  then have "settled c' i" using k keeps_evolves settled_evolves unfolding closing_def by blast
  moreover have "keeps c c'" using k rest keeps_trans unfolding closing_def by blast
  ultimately show ?case using rest k unfolding closing_def by simp
qed simp

lemma cancel_active_children_closing:
  assumes "closing_op K" and "coord_inv c" and "cancel_active_children_with K tid c = Some c'"
  shows "keeps c c' \<and> closed_parent c' tid \<and> closed_at c' tid \<and>
         (closed_outside S c \<longrightarrow> closed_outside S c')"
proof (cases "find_record c tid")
  case None
  with assms(3) show ?thesis
    by (auto simp: cancel_active_children_with_def closed_parent_def closed_at_def)
next
  case (Some r)
  let ?c1 = "put_record tid (r\<lparr>tr_accepting_children := False\<rparr>) c"
  have loop: "cancel_each K (active_children tid ?c1) ?c1 = Some c'"
    using assms(3) Some by (simp add: cancel_active_children_with_def Let_def)
  have k1: "keeps c ?c1" using Some by (rule keeps_close)
  then have inv1: "coord_inv ?c1" using assms(2) by (simp add: keeps_def)
  note L = cancel_each_closing [OF assms(1) inv1 loop]
  then have k2: "keeps ?c1 c'" by blast
  have at: "closed_at c' tid"
    using closed_at_children [OF keeps_evolves [OF k2] inv1] L by blast
  have "closed_parent ?c1 tid" by (simp add: closed_parent_def)
  then have "closed_parent c' tid" using closed_parent_evolves keeps_evolves [OF k2] by blast
  moreover have "closed_outside S c'" if "closed_outside S c"
  proof -
    have "closed_outside (insert tid S) c" using that by (simp add: closed_outside_def)
    then have "closed_outside (insert tid S) ?c1"
      by (rule closed_outside_evolves [OF keeps_evolves [OF k1]]) simp
    then have "closed_outside (insert tid S) c'" using L by blast
    with at show ?thesis by (auto simp: closed_outside_def)
  qed
  ultimately show ?thesis using k1 k2 at keeps_trans by blast
qed

lemma mark_terminal_settled:
  assumes "status \<in> TERMINAL_STATUSES" and "find_record (mark_terminal tid status reason event err c) tid = Some r"
  shows "rec_terminal r"
  using assms
  by (auto simp: mark_terminal_def Let_def dest!: remember_terminal_lookup split: option.splits if_splits)

lemma closed_outside_mark_terminal:
  assumes "status \<in> TERMINAL_STATUSES" and "closed_outside S c"
  shows "closed_outside S (mark_terminal tid status reason event err c)"
proof (rule closed_outside_evolves [OF evolves_mark_terminal [OF assms(1)] assms(2)])
  fix q pr
  assume "find_record (mark_terminal tid status reason event err c) q = Some pr" "\<not> tr_accepting_children pr"
  then show "\<exists>pr0. find_record c q = Some pr0 \<and> \<not> tr_accepting_children pr0"
    using mark_terminal_lookup [of tid status reason event err c q pr] by auto
qed

lemma finish_closing:
  assumes "closing_op K" and "coord_inv c" and status: "status \<in> TERMINAL_STATUSES"
    and "map_option (mark_terminal tid status reason event err)
           (cancel_active_children_with K tid c) = Some c'"
  shows "closing c tid c'" and "\<And>r. find_record c' tid = Some r \<Longrightarrow> rec_terminal r"
proof -
  from assms(4) obtain c1 where c1: "cancel_active_children_with K tid c = Some c1"
    and c': "c' = mark_terminal tid status reason event err c1" by auto
  note L = cancel_active_children_closing [OF assms(1,2) c1]
  then have "coord_inv c1" using assms(2) by (simp add: keeps_def)
  then have "keeps c1 c'" using L status unfolding c' by (intro keeps_mark_terminal) auto
  then have "keeps c c'" using L keeps_trans by blast
  moreover show ends: "rec_terminal r" if "find_record c' tid = Some r" for r
    using that mark_terminal_settled [OF status] unfolding c' by blast
  ultimately show "closing c tid c'"
    using L closed_outside_mark_terminal [OF status, of _ c1] unfolding closing_def settled_def c' by blast
qed

lemma cancel_task_closing:
  "coord_inv c \<Longrightarrow> cancel_task fuel tid reason c = Some (res, c') \<Longrightarrow> closing c tid c'"
proof (induction fuel arbitrary: tid reason c res c')
  case (Suc fuel)
  let ?K = "\<lambda>i c. map_option snd (cancel_task fuel i ''parent_cancelled'' c)"
  have K: "closing_op ?K" using Suc.IH by (auto simp: closing_op_def)
  have k: "keeps c c'" using kept.cancel_task_R Suc.prems by blast
  show ?case
  proof (cases "\<exists>r. find_record c tid = Some r \<and> \<not> rec_terminal r")
    case False
    with Suc.prems have "c_records c' = c_records c" and "settled c tid"
      by (auto simp: settled_def split: option.splits if_splits)
    with k show ?thesis by (rule closing_same_records)
  next
    case True
    then obtain r where r: "find_record c tid = Some r" "\<not> rec_terminal r" by blast
    let ?r = "touch_record (r\<lparr>tr_cancel_requested := True, tr_latest_event := Some reason\<rparr>)"
    let ?c1 = "log_event ''execution_task_cancel_requested'' (snapshot ?r) []
                 (notify_all (put_record tid ?r c))"
    have k1: "keeps c ?c1"
      by (rule keeps_trans [OF keeps_request [OF r]]) (rule kept.R_log)
    have closed1: "closed_outside S ?c1" if "closed_outside S c" for S
      using r by (intro closed_outside_evolves [OF keeps_evolves [OF k1] that])
        (auto simp: touch_record_def split: if_splits)
    have settled1: "settled ?c1 tid" by (simp add: settled_def touch_record_def)
    show ?thesis
    proof (cases "tr_handle ?r = None \<and> \<not> tr_awaiting_handle ?r")
      case True
      then have "map_option (mark_terminal tid CANCELLED (Some reason) ''execution_task_cancelled'' None)
          (cancel_active_children_with ?K tid ?c1) = Some c'"
        using Suc.prems(2) r by (auto simp: Let_def finish_with_def)
      moreover have "coord_inv ?c1" using k1 Suc.prems(1) by (simp add: keeps_def)
      ultimately have "closing ?c1 tid c'"
        by (intro finish_closing(1) [OF K]) (auto simp: TERMINAL_STATUSES_def)
      then show ?thesis using k closed1 unfolding closing_def by blast
    next
      case False
      then have "c_records c' = c_records ?c1"
        using Suc.prems(2) r by (auto simp: Let_def split: option.splits if_splits)
      with k show ?thesis using settled1 closed1 by (rule closing_same_records)
    qed
  qed
qed simp

lemma terminal_statuses [simp, intro]:
  "COMPLETED \<in> TERMINAL_STATUSES" "FAILED \<in> TERMINAL_STATUSES" "CANCELLED \<in> TERMINAL_STATUSES"
  "TIMED_OUT \<in> TERMINAL_STATUSES" "SKIPPED \<in> TERMINAL_STATUSES"
  "QUEUED \<notin> TERMINAL_STATUSES" "RUNNING \<notin> TERMINAL_STATUSES"
  by (simp_all add: TERMINAL_STATUSES_def)

section \<open>What every operation keeps\<close>

text \<open>
  \<open>step_ok\<close> is what a caller may rely on after any operation that creates no task: the invariant,
  the evolution of records, settled children of closed parents, and announced changes.
\<close>

definition step_ok :: "TaskCoordinator \<Rightarrow> TaskCoordinator \<Rightarrow> bool" where
  "step_ok c c' \<longleftrightarrow> keeps c c' \<and> (\<forall>S. closed_outside S c \<longrightarrow> closed_outside S c') \<and> announced c c'"

lemma step_ok_refl [simp]: "step_ok c c"
  by (simp add: step_ok_def)

lemma step_ok_trans: "step_ok c1 c2 \<Longrightarrow> step_ok c2 c3 \<Longrightarrow> step_ok c1 c3"
  unfolding step_ok_def using keeps_trans announced_trans by blast

lemma step_ok_put:
  assumes "find_record c tid = Some r" and "rec_evolves r r'" and "rec_terminal r' = rec_terminal r"
    and "rec_ok r \<Longrightarrow> rec_ok r'" and "tr_accepting_children r' = tr_accepting_children r"
    and c': "c_records c' = AList.update tid r' (c_records c)"
      "c_terminal_order c' = c_terminal_order c"
      "c_terminal_history_limit c' = c_terminal_history_limit c"
      "c_terminal_observers c' = c_terminal_observers c" "c_notified c' = c_notified c"
    and n: "c_notifies c < c_notifies c' \<or> c_notifies c' = c_notifies c \<and> snapshot r' = snapshot r"
  shows "step_ok c c'"
  unfolding step_ok_def
proof (intro conjI allI impI)
  show k: "keeps c c'" by (rule keeps_put [OF assms(1-4) c'])
  show "announced c c'" using n assms(1) by (auto simp: announced_def get_task_def c'(1))
  fix S assume "closed_outside S c"
  then show "closed_outside S c'"
    using assms(1,5) by (intro closed_outside_evolves [OF keeps_evolves [OF k]])
      (auto simp: c'(1) split: if_splits)
qed

lemma step_ok_silent:
  assumes "c_records c' = c_records c" and "c_terminal_order c' = c_terminal_order c"
    and "c_terminal_history_limit c' = c_terminal_history_limit c"
    and "c_terminal_observers c' = c_terminal_observers c" and "c_notified c' = c_notified c"
    and "c_notifies c' = c_notifies c"
  shows "step_ok c c'"
proof -
  have "closed_outside S c' = closed_outside S c" for S
    unfolding closed_outside_def closed_at_def assms(1) by (rule refl)
  then show ?thesis
    using keeps_cong [OF assms(1-5)] announced_silent [OF assms(6,1)] by (simp add: step_ok_def)
qed

lemma mark_started_ok:
  assumes "mark_started tid c = (res, c')"
  shows "step_ok c c'"
proof (cases "\<exists>r. find_record c tid = Some r \<and> tr_status r = QUEUED \<and> \<not> tr_cancel_requested r")
  case True
  then obtain r where r: "find_record c tid = Some r" "tr_status r = QUEUED" "\<not> tr_cancel_requested r"
    by blast
  then have "c' = log_event ''execution_task_started'' (snapshot (started_record (now_reading c) r)) []
      (notify_all (put_record tid (started_record (now_reading c) r) (after_now c)))"
    using assms by (auto simp: mark_started_def Let_def)
  then show ?thesis using r
    by (intro step_ok_put [OF r(1), of "started_record (now_reading c) r"])
       (auto simp: rec_evolves_defs rec_ok_def started_record_def TERMINAL_STATUSES_def)
next
  case False
  with assms show ?thesis by (auto simp: mark_started_def split: option.splits if_splits)
qed

lemma update_metadata_ok: "step_ok c (update_metadata tid metadata c)"
proof (cases "find_record c tid")
  case (Some r)
  show ?thesis
    unfolding update_metadata_def Some option.case Let_def
    by (rule step_ok_put [OF Some]) (auto simp: rec_evolves_defs rec_ok_def)
qed (simp add: update_metadata_def)

lemma heartbeat_ok: "step_ok c (heartbeat tid status metadata c)"
proof (cases "\<exists>r. find_record c tid = Some r \<and> \<not> rec_terminal r")
  case True
  then obtain r where r: "find_record c tid = Some r" "\<not> rec_terminal r" by blast
  have "step_ok c (log_event ''execution_task_heartbeat''
      (snapshot (heartbeat_record (now_reading c) status metadata r)) []
      (notify_all (put_record tid (heartbeat_record (now_reading c) status metadata r) (after_now c))))"
    using r by (intro step_ok_put [OF r(1)]) (auto simp: rec_evolves_defs rec_ok_def heartbeat_record_def)
  then show ?thesis using r by (simp add: heartbeat_def Let_def)
qed (auto simp: heartbeat_def split: option.splits)

lemma publish_progress_ok: "step_ok c (publish_progress tid metadata health_status c)"
proof (cases "\<exists>r. find_record c tid = Some r \<and> \<not> rec_terminal r")
  case True
  then obtain r where r: "find_record c tid = Some r" "\<not> rec_terminal r" by blast
  let ?r = "touch_record (r\<lparr>tr_last_progress_at := Some (now_reading c),
              tr_health_status := health_status, tr_metadata := dict_update (tr_metadata r) metadata,
              tr_latest_event := Some ''progress''\<rparr>)"
  have "step_ok c (notify_all (put_record tid ?r (after_now c)))"
    using r by (intro step_ok_put [OF r(1)]) (auto simp: rec_evolves_defs rec_ok_def)
  then show ?thesis using r by (simp add: publish_progress_def)
qed (auto simp: publish_progress_def split: option.splits)

lemma record_result_ok:
  assumes "record_result tid h v c = Some (res, c')"
  shows "step_ok c c'"
proof (cases "\<exists>r. find_record c tid = Some r \<and> \<not> rec_terminal r")
  case True
  then obtain r where r: "find_record c tid = Some r" "\<not> rec_terminal r" by blast
  obtain m b where m: "bound_execution_task_result h v = Some (m, b)"
    "length (serialize_json (JDict m)) \<le> EXECUTION_TASK_RESULT_MAX_CHARS"
    using bound_execution_task_result_bounded by blast
  have ok: "step_ok c (notify_all (put_record tid (result_record m b r) c))"
    using r m(2) by (intro step_ok_put [OF r(1)]) (auto simp: rec_evolves_defs rec_ok_def result_record_def)
  have "step_ok c1 (log_event e s x c1)" for c1 e s x by (rule step_ok_silent) simp_all
  with ok assms r m(1) show ?thesis
    by (auto simp: record_result_def Let_def intro: step_ok_trans split: sum.splits)
next
  case False
  with assms show ?thesis by (auto simp: record_result_def split: option.splits if_splits)
qed

lemma record_result_returns: "\<exists>res c'. record_result tid h v c = Some (res, c')"
proof -
  obtain m b where "bound_execution_task_result h v = Some (m, b)"
    using bound_execution_task_result_bounded by blast
  then show ?thesis by (auto simp: record_result_def Let_def split: option.splits sum.splits)
qed

lemma attach_handle_ok:
  assumes "attach_handle tid h c = (res, c')"
  shows "step_ok c c'"
proof (cases "\<exists>r. find_record c tid = Some r \<and> \<not> rec_terminal r")
  case True
  then obtain r where r: "find_record c tid = Some r" "\<not> rec_terminal r" by blast
  have "step_ok c (put_record tid (r\<lparr>tr_handle := Some h, tr_awaiting_handle := False\<rparr>) c)"
    using r by (intro step_ok_put [OF r(1), of "r\<lparr>tr_handle := Some h, tr_awaiting_handle := False\<rparr>"])
      (auto simp: rec_evolves_defs rec_ok_def snapshot_def)
  with assms r show ?thesis by (auto simp: attach_handle_def Let_def)
next
  case False
  with assms show ?thesis by (auto simp: attach_handle_def split: option.splits if_splits)
qed

lemma cancel_task_ok:
  "coord_inv c \<Longrightarrow> cancel_task fuel tid reason c = Some (res, c') \<Longrightarrow> step_ok c c'"
  using cancel_task_closing wake.cancel_task_R unfolding step_ok_def closing_def by blast

lemma cancel_child_closing: "closing_op (cancel_child fuel reason)"
  unfolding closing_op_def cancel_child_def using cancel_task_closing by auto

lemma mark_closing:
  assumes "coord_inv c" and "status \<in> TERMINAL_STATUSES"
    and "map_option (mark_terminal tid status reason event err)
           (cancel_active_children fuel tid child_reason c) = Some c'"
  shows "closing c tid c'" and "\<And>r. find_record c' tid = Some r \<Longrightarrow> rec_terminal r"
  using finish_closing [OF cancel_child_closing assms(1,2)] assms(3)
  unfolding cancel_active_children_def by blast+

lemmas mark_defs = mark_completed_def mark_failed_def mark_cancelled_def mark_timed_out_def mark_skipped_def

lemma mark_ok:
  assumes inv: "coord_inv c"
  shows "mark_completed fuel tid reason c = Some c' \<Longrightarrow> step_ok c c'"
    and "mark_failed fuel tid reason err c = Some c' \<Longrightarrow> step_ok c c'"
    and "mark_cancelled fuel tid reason c = Some c' \<Longrightarrow> step_ok c c'"
    and "mark_timed_out fuel tid reason c = Some c' \<Longrightarrow> step_ok c c'"
    and "mark_skipped fuel tid reason c = Some c' \<Longrightarrow> step_ok c c'"
proof -
  have "step_ok c c'" if "map_option (mark_terminal tid status reason event err)
      (cancel_active_children fuel tid child_reason c) = Some c'" "status \<in> TERMINAL_STATUSES"
    for status event err child_reason
    using mark_closing(1) [OF inv that(2,1)] wake.mark_any_R [OF _ that(2,1)]
    unfolding step_ok_def closing_def by blast
  then show "mark_completed fuel tid reason c = Some c' \<Longrightarrow> step_ok c c'"
    "mark_failed fuel tid reason err c = Some c' \<Longrightarrow> step_ok c c'"
    "mark_cancelled fuel tid reason c = Some c' \<Longrightarrow> step_ok c c'"
    "mark_timed_out fuel tid reason c = Some c' \<Longrightarrow> step_ok c c'"
    "mark_skipped fuel tid reason c = Some c' \<Longrightarrow> step_ok c c'"
    unfolding mark_defs by (blast intro: terminal_statuses)+
qed

lemma mark_cancelled_closing: "closing_op (\<lambda>tid. mark_cancelled fuel tid reason)"
  unfolding closing_op_def mark_cancelled_def using mark_closing(1) terminal_statuses by blast

lemma cancel_each_ok:
  assumes "closing_op K" and "\<And>i c c'. K i c = Some c' \<Longrightarrow> announced c c'" and "coord_inv c"
    and "cancel_each K is c = Some c'"
  shows "step_ok c c'"
proof -
  have "announced c c'" by (rule wake.cancel_each_R [OF assms(2) _ assms(4)]) simp_all
  then show ?thesis using cancel_each_closing [OF assms(1,3,4)] unfolding step_ok_def by blast
qed

lemma cancel_scope_ok:
  assumes "coord_inv c" and "cancel_scope fuel scope reason c = Some (snaps, c')"
  shows "step_ok c c'"
proof -
  have "coord_inv c \<Longrightarrow> cancel_collect fuel reason tids c = Some (snaps, c') \<Longrightarrow> step_ok c c'"
    for tids snaps c'
  proof (induction tids arbitrary: c snaps)
    case (Cons i tids)
    then obtain res c1 snaps' where c1: "cancel_task fuel i reason c = Some (res, c1)"
      "cancel_collect fuel reason tids c1 = Some (snaps', c')"
      by (auto simp: bind_eq_Some_conv)
    have "step_ok c c1" using cancel_task_ok [OF Cons.prems(1) c1(1)] .
    moreover have "coord_inv c1" using calculation Cons.prems(1) by (simp add: step_ok_def keeps_def)
    ultimately show ?case using Cons.IH c1(2) step_ok_trans by blast
  qed simp
  with assms show ?thesis unfolding cancel_scope_def by blast
qed

lemma shutdown_ok:
  assumes "coord_inv c" and "shutdown fuel reason c = Some c'"
  shows "step_ok c c'"
proof -
  let ?c1 = "c\<lparr>c_accepting_tasks := False\<rparr>"
  have ok: "step_ok c ?c1" by (rule step_ok_silent) simp_all
  then have "coord_inv ?c1" using assms(1) by (simp add: step_ok_def keeps_def)
  then have "step_ok ?c1 c'"
    using assms(2) unfolding shutdown_def Let_def
    by (intro cancel_each_ok [OF cancel_child_closing]) (auto intro: wake.cancel_child_R)
  with ok show ?thesis by (rule step_ok_trans)
qed

lemma mark_unfinished_cancelled_ok:
  "coord_inv c \<Longrightarrow> mark_unfinished_cancelled fuel reason c = Some c' \<Longrightarrow> step_ok c c'"
  unfolding mark_unfinished_cancelled_def
  by (rule cancel_each_ok [OF mark_cancelled_closing]) (auto intro: wake.mark_R)

text \<open>Creating a task: an error changes nothing but the clock; an admission adds one entry.\<close>

lemma create_record_cases:
  assumes "create_record tid kind scope source label authority handle metadata parent_id detached awaiting c = (res, c')"
  obtains (rejected) e where "res = Inl e" "c' = after_now c"
  | (admitted) r where "res = Inr ()"
      "r = new_record tid kind scope source label authority handle metadata parent_id detached awaiting (now_reading c)"
      "c' = log_event ''execution_task_created'' (snapshot r) [] (notify_all (put_record tid r (after_now c)))"
      "c_accepting_tasks c"
      "\<And>p. parent_id = Some p \<Longrightarrow> \<exists>pr. find_record c p = Some pr \<and> tr_authority pr = authority \<and>
         \<not> rec_terminal pr \<and> tr_accepting_children pr"
proof -
  note d = assms [unfolded create_record_def Let_def]
  show thesis
  proof (cases "c_accepting_tasks c")
    case False
    with d that(1) show ?thesis by auto
  next
    case True
    show ?thesis
    proof (cases parent_id)
      case None
      with d True that(2) show ?thesis by auto
    next
      case (Some p)
      with d True that show ?thesis
        by (cases "find_record c p") (auto split: if_splits)
    qed
  qed
qed

lemma new_record_simps [simp]:
  "tr_task_id (new_record tid k sc so l a h m p d aw t) = tid"
  "tr_status (new_record tid k sc so l a h m p d aw t) = QUEUED"
  "tr_parent_task_id (new_record tid k sc so l a h m p d aw t) = p"
  "tr_authority (new_record tid k sc so l a h m p d aw t) = a"
  "tr_accepting_children (new_record tid k sc so l a h m p d aw t) = True"
  "rec_ok (new_record tid k sc so l a h m p d aw t)"
  by (simp_all add: new_record_def rec_ok_def)

lemma records_inv_append:
  assumes inv: "records_inv recs" and new: "map_of recs tid = None"
    and no_child: "\<And>i r0. map_of recs i = Some r0 \<Longrightarrow> tr_parent_task_id r0 \<noteq> Some tid"
    and r: "tr_task_id r = tid" "rec_ok r"
    and parent: "\<And>p. tr_parent_task_id r = Some p \<Longrightarrow> \<exists>pr. map_of recs p = Some pr \<and> tr_authority pr = tr_authority r"
  shows "records_inv (recs @ [(tid, r)])"
  unfolding records_inv_def
proof (intro conjI allI impI)
  have keys: "tid \<notin> fst ` set recs" using new by (simp add: map_of_eq_None_iff)
  have dist: "distinct (map fst recs)" using inv by (simp add: records_inv_def)
  show "distinct (map fst (recs @ [(tid, r)]))" using keys dist by simp
  have lookup: "map_of (recs @ [(tid, r)]) k = (if k = tid then Some r else map_of recs k)" for k
    using new by (simp add: map_add_def split: option.splits)
  have "\<forall>(i, r0) \<in> set recs. tr_parent_task_id r0 \<noteq> Some tid"
    using no_child dist by (auto simp: map_of_eq_Some_iff)
  moreover have "tr_parent_task_id r \<noteq> Some tid" using parent new by fastforce
  ultimately show "parents_first (recs @ [(tid, r)])"
    using inv by (intro parents_first_append) (simp_all add: records_inv_def)
  have "lineage_inv recs" using inv by (simp add: records_inv_def)
  then show "lineage_inv (recs @ [(tid, r)])"
    unfolding lineage_inv_def lookup using no_child parent \<open>tr_parent_task_id r \<noteq> Some tid\<close>
    by (auto split: if_splits)
  fix k1 r1 assume "map_of (recs @ [(tid, r)]) k1 = Some r1"
  then show "tr_task_id r1 = k1" "rec_ok r1"
    using r records_inv_lookup [OF inv] by (auto simp: lookup split: if_splits)
qed

text \<open>A record added under a fresh id, or nothing but a reading of the clock.\<close>

definition creates :: "string \<Rightarrow> TaskCoordinator \<Rightarrow> TaskCoordinator \<Rightarrow> bool" where
  "creates tid c c' \<longleftrightarrow> coord_inv c' \<and> announced c c' \<and>
     (\<forall>S. closed_outside S c \<longrightarrow> closed_outside S c') \<and>
     (\<forall>k. k \<noteq> tid \<longrightarrow> find_record c' k = find_record c k) \<and>
     (\<forall>k. notified_of k c' = notified_of k c) \<and>
     (\<forall>r p. find_record c' tid = Some r \<longrightarrow> tr_parent_task_id r = Some p \<longrightarrow> find_record c p \<noteq> None) \<and>
     c_terminal_history_limit c' = c_terminal_history_limit c \<and> c_terminal_observers c' = c_terminal_observers c"

lemma creates_rejected:
  assumes "coord_inv c" and "find_record c tid = None"
  shows "creates tid c (after_now c)"
proof -
  have "step_ok c (after_now c)" by (rule step_ok_silent) simp_all
  then show ?thesis
    using assms by (auto simp: creates_def step_ok_def keeps_def notified_of_def)
qed

lemma creates_admitted:
  assumes inv: "coord_inv c" and fresh: "fresh_id c tid"
    and r: "tr_task_id r = tid" "tr_status r = QUEUED" "tr_accepting_children r" "rec_ok r"
    and parent: "\<And>p. tr_parent_task_id r = Some p \<Longrightarrow> \<exists>pr. find_record c p = Some pr \<and>
      tr_authority pr = tr_authority r \<and> \<not> rec_terminal pr \<and> tr_accepting_children pr"
    and c': "c' = log_event ev s x (notify_all (put_record tid r (after_now c)))"
  shows "creates tid c c'"
  unfolding creates_def
proof (intro conjI allI impI)
  have none: "find_record c tid = None" using fresh by (simp add: fresh_id_def)
  then have recs: "c_records c' = c_records c @ [(tid, r)]"
    using c' alist_update_notin [of tid "c_records c" r] by (simp add: map_of_eq_None_iff)
  have lookup: "find_record c' k = (if k = tid then Some r else find_record c k)" for k
    using c' by simp
  have "records_inv (c_records c')"
    unfolding recs
  proof (rule records_inv_append [OF _ none _ r(1,4)])
    show "records_inv (c_records c)" using inv by (simp add: coord_inv_def)
    show "tr_parent_task_id r0 \<noteq> Some tid" if "find_record c i = Some r0" for i r0
      using that fresh unfolding fresh_id_def by blast
    show "\<exists>pr. find_record c p = Some pr \<and> tr_authority pr = tr_authority r"
      if "tr_parent_task_id r = Some p" for p using parent [OF that] by blast
  qed
  moreover have "history_inv c'"
    using inv none r(2) c' unfolding coord_inv_def history_inv_def lookup by auto
  moreover have nb: "notified_of k c' = notified_of k c" for k using c' by (simp add: notified_of_def)
  moreover have "notified_inv c'"
    using inv fresh r(2) c' unfolding coord_inv_def notified_inv_def lookup fresh_id_def nb by simp
  ultimately show "coord_inv c'" by (simp add: coord_inv_def)
  show "announced c c'" using c' by (simp add: announced_notify)
  show "notified_of k c' = notified_of k c" for k by (rule nb)
  show "find_record c' k = find_record c k" if "k \<noteq> tid" for k using that lookup by simp
  show "find_record c p \<noteq> None"
    if "find_record c' tid = Some r0" "tr_parent_task_id r0 = Some p" for r0 p
    using that lookup parent by auto
  show "c_terminal_history_limit c' = c_terminal_history_limit c"
    "c_terminal_observers c' = c_terminal_observers c" using c' by simp_all
  show "closed_outside S c'" if "closed_outside S c" for S
    unfolding closed_outside_def closed_at_def
  proof (intro allI impI)
    fix q pr i ri
    assume q: "q \<notin> S" and pr: "find_record c' q = Some pr" "\<not> tr_accepting_children pr"
      and ri: "find_record c' i = Some ri" "tr_parent_task_id ri = Some q"
        "\<not> tr_detached_from_parent_lifecycle ri" "\<not> rec_terminal ri"
    have "q \<noteq> tid" using pr lookup r(3) by auto
    then have pr0: "find_record c q = Some pr" using pr(1) lookup by simp
    have "i \<noteq> tid" using ri(1,2) lookup parent [of q] pr0 pr(2) by auto
    then have "find_record c i = Some ri" using ri(1) lookup by simp
    then show "tr_cancel_requested ri"
      using that q pr0 pr(2) ri unfolding closed_outside_def closed_at_def by blast
  qed
qed

lemma create_record_ok:
  assumes inv: "coord_inv c" and fresh: "fresh_id c tid"
    and "create_record tid kind scope source label authority handle metadata parent_id detached awaiting c = (res, c')"
  shows "creates tid c c'"
  using assms(3)
proof (cases rule: create_record_cases)
  case rejected
  then show ?thesis using creates_rejected inv fresh by (simp add: fresh_id_def)
next
  case (admitted r)
  then show ?thesis by (intro creates_admitted [OF inv fresh, of r]) simp_all
qed

section \<open>Steps and reachable states\<close>

text \<open>
  A state of a run is the coordinator with the ids \<open>uuid4\<close> has given out so far: a new task gets an
  id that is not among them. Every operation of the class is a step, and so is the end of an
  asyncio task outside it.
\<close>

inductive coord_step :: "string list \<times> TaskCoordinator \<Rightarrow> string list \<times> TaskCoordinator \<Rightarrow> bool" where
  step_create: "tid \<notin> set ids \<Longrightarrow>
    create_record tid kind scope source label authority handle metadata parent_id detached awaiting c = (res, c') \<Longrightarrow>
    coord_step (ids, c) (tid # ids, c')"
| step_start: "mark_started tid c = (res, c') \<Longrightarrow> coord_step (ids, c) (ids, c')"
| step_attach: "attach_handle tid h c = (res, c') \<Longrightarrow> coord_step (ids, c) (ids, c')"
| step_metadata: "coord_step (ids, c) (ids, update_metadata tid metadata c)"
| step_heartbeat: "coord_step (ids, c) (ids, heartbeat tid hb_status hb_metadata c)"
| step_progress: "coord_step (ids, c) (ids, publish_progress tid metadata health_status c)"
| step_result: "record_result tid h result c = Some (res, c') \<Longrightarrow> coord_step (ids, c) (ids, c')"
| step_cancel: "cancel_task fuel tid reason c = Some (res, c') \<Longrightarrow> coord_step (ids, c) (ids, c')"
| step_cancel_scope: "cancel_scope fuel scope reason c = Some (snaps, c') \<Longrightarrow> coord_step (ids, c) (ids, c')"
| step_completed: "mark_completed fuel tid opt_reason c = Some c' \<Longrightarrow> coord_step (ids, c) (ids, c')"
| step_failed: "mark_failed fuel tid opt_reason err c = Some c' \<Longrightarrow> coord_step (ids, c) (ids, c')"
| step_cancelled: "mark_cancelled fuel tid opt_reason c = Some c' \<Longrightarrow> coord_step (ids, c) (ids, c')"
| step_timed_out: "mark_timed_out fuel tid opt_reason c = Some c' \<Longrightarrow> coord_step (ids, c) (ids, c')"
| step_skipped: "mark_skipped fuel tid opt_reason c = Some c' \<Longrightarrow> coord_step (ids, c) (ids, c')"
| step_shutdown: "shutdown fuel reason c = Some c' \<Longrightarrow> coord_step (ids, c) (ids, c')"
| step_unfinished: "mark_unfinished_cancelled fuel reason c = Some c' \<Longrightarrow> coord_step (ids, c) (ids, c')"
| step_task_ends: "coord_step (ids, c) (ids, c\<lparr>c_done_handles := hs\<rparr>)"

definition run_inv :: "string list \<times> TaskCoordinator \<Rightarrow> bool" where
  "run_inv s \<longleftrightarrow> coord_inv (snd s) \<and> closed_outside {} (snd s) \<and> (\<forall>k. k \<notin> set (fst s) \<longrightarrow> fresh_id (snd s) k)"

text \<open>Every step but a creation is an \<open>step_ok\<close> transition.\<close>

lemma coord_step_cases:
  assumes "coord_step (ids, c) (ids', c')" and "coord_inv c"
  shows "(ids' = ids \<and> step_ok c c') \<or>
         (\<exists>tid. tid \<notin> set ids \<and> ids' = tid # ids \<and> (fresh_id c tid \<longrightarrow> creates tid c c'))"
  using assms
proof (cases rule: coord_step.cases)
  case step_create
  then show ?thesis using create_record_ok [OF assms(2)] by blast
next
  case step_task_ends
  then show ?thesis by (simp add: step_ok_silent)
qed (auto simp: mark_started_ok attach_handle_ok update_metadata_ok heartbeat_ok publish_progress_ok
       record_result_ok cancel_task_ok cancel_scope_ok mark_ok shutdown_ok mark_unfinished_cancelled_ok)

lemma fresh_id_creates:
  assumes "creates tid c c'" and "fresh_id c k" and "k \<noteq> tid"
  shows "fresh_id c' k"
  unfolding fresh_id_def
proof (intro conjI allI impI)
  show "find_record c' k = None" "notified_of k c' = []"
    using assms by (auto simp: creates_def fresh_id_def)
  fix i r assume i: "find_record c' i = Some r"
  show "tr_parent_task_id r \<noteq> Some k"
  proof (cases "i = tid")
    case True
    with i assms(1,2) show ?thesis unfolding creates_def fresh_id_def by blast
  next
    case False
    with i assms(1,2) show ?thesis unfolding creates_def fresh_id_def by metis
  qed
qed

lemma run_inv_step:
  assumes "coord_step s s'" and "run_inv s"
  shows "run_inv s'"
proof -
  obtain ids c ids' c' where s: "s = (ids, c)" "s' = (ids', c')" by force
  have inv: "coord_inv c" "closed_outside {} c" and fresh: "\<And>k. k \<notin> set ids \<Longrightarrow> fresh_id c k"
    using assms(2) s by (auto simp: run_inv_def)
  from coord_step_cases [OF assms(1) [unfolded s] inv(1)] show ?thesis
  proof (elim disjE exE conjE)
    assume "ids' = ids" and ok: "step_ok c c'"
    then show ?thesis
      using inv fresh fresh_id_keeps [of c c'] unfolding run_inv_def s step_ok_def keeps_def by simp
  next
    fix tid assume "tid \<notin> set ids" "ids' = tid # ids" "fresh_id c tid \<longrightarrow> creates tid c c'"
    then have "creates tid c c'" using fresh by blast
    then show ?thesis
      using inv fresh \<open>ids' = tid # ids\<close> fresh_id_creates [of tid c c']
      unfolding run_inv_def s by (auto simp: creates_def)
  qed
qed

lemma run_inv_init: "run_inv ([], new_TaskCoordinator limit observers clock)"
  by (simp add: run_inv_def new_TaskCoordinator_def coord_inv_def records_inv_def lineage_inv_def
      history_inv_def notified_inv_def notified_of_def closed_outside_def closed_at_def fresh_id_def)

end
