(* ===== verification/Task_Publish.thy ===== *)
theory Task_Publish
  imports Task_Steps
begin

text \<open>
  A terminal operation publishes its own status: the cascade it starts stays strictly below the
  task in the parent-child order, so the task itself is still active when \<open>_mark_terminal\<close> runs, and
  the eviction that follows keeps the newest terminal record.
\<close>

definition active_record :: "TaskCoordinator \<Rightarrow> string \<Rightarrow> ExecutionTaskRecord \<Rightarrow> bool" where
  "active_record c tid r \<longleftrightarrow> find_record c tid = Some r \<and> \<not> rec_terminal r"

definition spares :: "string \<Rightarrow> TaskCoordinator \<Rightarrow> TaskCoordinator \<Rightarrow> bool" where
  "spares tid c c' \<longleftrightarrow> keeps c c' \<and> (\<forall>r. active_record c tid r \<longrightarrow> active_record c' tid r)"

definition below :: "string \<Rightarrow> TaskCoordinator \<Rightarrow> string \<Rightarrow> bool" where
  "below tid c i \<longleftrightarrow> coord_inv c \<and> (\<exists>r. active_record c tid r) \<and> task_rank c i < task_rank c tid"

lemma key_rank_subseq_less:
  "subseq ks' ks \<Longrightarrow> distinct ks \<Longrightarrow> tid \<in> set ks' \<Longrightarrow> key_rank ks i < key_rank ks tid \<Longrightarrow>
   key_rank ks' i < key_rank ks' tid"
proof (induction rule: list_emb.induct)
  case (list_emb_Cons xs ys y)
  then have "tid \<noteq> y" by (auto dest: list_emb_set)
  with list_emb_Cons.prems(3) have "i \<noteq> y"
    using key_rank_le [of ys tid] by (auto simp: key_rank_def)
  with \<open>tid \<noteq> y\<close> list_emb_Cons show ?case by (simp add: key_rank_def)
next
  case (list_emb_Cons2 x y xs ys)
  have xy: "x = y" using list_emb_Cons2.hyps by simp
  show ?case
  proof (cases "x = tid")
    case True
    then have "i \<noteq> x" using list_emb_Cons2.prems(3) xy by auto
    then show ?thesis using True key_rank_le [of xs i] by (simp add: key_rank_def)
  next
    case False
    then have "i \<noteq> x"
      using list_emb_Cons2.prems(3) xy key_rank_le [of ys tid] by (auto simp: key_rank_def)
    with False list_emb_Cons2 xy show ?thesis by (simp add: key_rank_def)
  qed
qed simp

lemma spares_trans: "spares tid c1 c2 \<Longrightarrow> spares tid c2 c3 \<Longrightarrow> spares tid c1 c3"
  unfolding spares_def using keeps_trans by blast

lemma below_spares:
  assumes "spares tid c c'" and "below tid c i"
  shows "below tid c' i"
proof -
  obtain r where r: "active_record c' tid r" and inv: "coord_inv c"
    using assms by (auto simp: spares_def below_def)
  have sub: "subseq (task_keys c') (task_keys c)" and inv': "coord_inv c'"
    using assms(1) inv by (auto simp: spares_def keeps_def)
  have dist: "distinct (task_keys c)" using inv by (simp add: coord_inv_def records_inv_def task_keys_def)
  have "find_record c' tid = Some r" using r by (simp add: active_record_def)
  then have mem: "tid \<in> set (task_keys c')" using map_of_key by (simp add: task_keys_def)
  have "task_rank c i < task_rank c tid" using assms(2) by (simp add: below_def)
  then have "task_rank c' i < task_rank c' tid" by (rule key_rank_subseq_less [OF sub dist mem])
  with inv' r show ?thesis unfolding below_def by blast
qed

lemma spares_other:
  assumes "keeps c c'" and "i \<noteq> tid" and "c_records c' = AList.update i r' (c_records c)"
  shows "spares tid c c'"
  using assms by (auto simp: spares_def active_record_def)

lemma below_neq: "below tid c i \<Longrightarrow> i \<noteq> tid"
  by (auto simp: below_def)

lemma spares_mark_terminal:
  assumes "below tid c i" and "closed_parent c i" and "status \<in> TERMINAL_STATUSES"
  shows "spares tid c (mark_terminal i status reason event err c)"
  using assms below_neq [OF assms(1)] mark_terminal_other_active
  by (auto simp: spares_def active_record_def below_def intro: keeps_mark_terminal)

lemma below_child:
  assumes "below tid c j" and "find_record c j = Some r" and "i \<in> set (active_children j c)"
  shows "below tid c i"
  using assms(1) task_rank_child [OF _ assms(2,3)] by (auto simp: below_def)

lemma spares_silent:
  assumes "keeps c c'" and "c_records c' = c_records c"
  shows "spares tid c c'"
  using assms by (simp add: spares_def active_record_def)

interpretation spare: cascade_contract "spares tid" "below tid" closed_parent for tid
proof unfold_locales
  show "below tid c' i" if "spares tid c c'" "below tid c i" for c c' i
    using that by (rule below_spares)
  show "closed_parent c' i" if "spares tid c c'" and "closed_parent c i" for c c' i
    using that closed_parent_evolves keeps_evolves unfolding spares_def by blast
  show "spares tid c (notify_all (put_record i
      (touch_record (r\<lparr>tr_cancel_requested := True, tr_latest_event := Some reason\<rparr>)) c))"
    if "below tid c i" "find_record c i = Some r" "\<not> rec_terminal r" for c i r reason
    by (rule spares_other [OF keeps_request [OF that(2,3)] below_neq [OF that(1)]]) simp
  show "spares tid c (put_record i (r\<lparr>tr_accepting_children := False\<rparr>) c)"
    if "below tid c i" "find_record c i = Some r" for c i r
    by (rule spares_other [OF keeps_close [OF that(2)] below_neq [OF that(1)]]) simp
  show "spares tid c (log_event e s x c)" for c e s x
    by (rule spares_silent [OF kept.R_log]) simp
  show "spares tid c (c\<lparr>c_cancel_calls := calls\<rparr>)" for c calls
    by (rule spares_silent [OF kept.R_cancel_call]) simp
qed (auto simp: closed_parent_def intro: spares_trans spares_silent spares_mark_terminal below_child)

text \<open>The eviction after a terminal mark keeps the record it was made for.\<close>

lemma mark_terminal_publishes:
  assumes inv: "coord_inv c" and r: "active_record c tid r" and status: "status \<in> TERMINAL_STATUSES"
  shows "find_record (mark_terminal tid status reason event err c) tid =
         Some (terminal_record (now_reading c) status reason err event r)"
proof -
  let ?r = "terminal_record (now_reading c) status reason err event r"
  let ?c1 = "notify_all (put_record tid ?r (after_now c))"
  let ?order = "c_terminal_order c @ [tid]"
  have hist: "history_inv c" using inv by (simp add: coord_inv_def)
  have r': "find_record c tid = Some r" "\<not> rec_terminal r" using r by (auto simp: active_record_def)
  then have new: "tid \<notin> set (c_terminal_order c)" using hist by (auto simp: history_inv_def)
  have ends: "\<forall>k \<in> set ?order. \<exists>r. find_record ?c1 k = Some r \<and> rec_terminal r"
    using hist status by (auto simp: history_inv_def)
  have dist: "distinct ?order" using new hist by (simp add: history_inv_def)
  have "tid \<notin> set (take (length ?order - c_terminal_history_limit c) ?order)"
    using new hist in_set_takeD [of tid _ "c_terminal_order c"] by (auto simp: history_inv_def)
  then have "find_record (remember_terminal tid ?c1) tid = Some ?r"
    using evict_terminal_records [OF dist ends, of "c_terminal_history_limit c" tid] new
    by (simp add: remember_terminal_fields remove1_idem)
  then show ?thesis using r' by (simp add: mark_terminal_def Let_def)
qed

text \<open>The operation finds the record as it was, closed to further children.\<close>

lemma cancel_active_children_spares:
  assumes inv: "coord_inv c" and r: "active_record c tid r"
    and "cancel_active_children fuel tid child_reason c = Some c1"
  shows "coord_inv c1 \<and> active_record c1 tid (r\<lparr>tr_accepting_children := False\<rparr>)"
proof -
  let ?r = "r\<lparr>tr_accepting_children := False\<rparr>"
  let ?c0 = "put_record tid ?r c"
  have f: "find_record c tid = Some r" using r by (simp add: active_record_def)
  have loop: "cancel_each (cancel_child fuel child_reason) (active_children tid ?c0) ?c0 = Some c1"
    using assms(3) f by (simp add: cancel_active_children_def cancel_active_children_with_def Let_def)
  have inv0: "coord_inv ?c0" using keeps_close [OF f] inv by (simp add: keeps_def)
  have act0: "active_record ?c0 tid ?r" using r by (simp add: active_record_def)
  have "below tid ?c0 i" if "i \<in> set (active_children tid ?c0)" for i
    using task_rank_child [OF inv0 _ that] act0 inv0 by (auto simp: below_def active_record_def)
  then have "spares tid ?c0 c1"
    using loop by (rule spare.cancel_each_R [rotated]) (simp, rule spare.cancel_child_R)
  with inv0 act0 show ?thesis by (auto simp: spares_def keeps_def)
qed

lemma mark_publishes:
  assumes "coord_inv c" and "active_record c tid r" and "status \<in> TERMINAL_STATUSES"
    and "map_option (mark_terminal tid status reason event err)
           (cancel_active_children fuel tid child_reason c) = Some c'"
  shows "\<exists>t. find_record c' tid =
    Some (terminal_record t status reason err event (r\<lparr>tr_accepting_children := False\<rparr>))"
proof -
  from assms(4) obtain c1 where c1: "cancel_active_children fuel tid child_reason c = Some c1"
    "c' = mark_terminal tid status reason event err c1" by auto
  have "coord_inv c1" "active_record c1 tid (r\<lparr>tr_accepting_children := False\<rparr>)"
    using cancel_active_children_spares [OF assms(1,2) c1(1)] by auto
  from mark_terminal_publishes [OF this assms(3)] show ?thesis unfolding c1(2) by blast
qed

end
