(* ===== verification/Lifecycle.thy ===== *)
theory Lifecycle
  imports Py_Prelude
begin

text \<open>
  The contract the three stores of work items share: execution tasks (core/runtime), workflow runs
  (core/workflow_runs) and ingestion jobs (core/ingestion). Items are found under an id; ids are
  given out once; a final item keeps its outcome for as long as it is kept.
\<close>

locale lifecycle =
  fixes step :: "'s \<Rightarrow> 's \<Rightarrow> bool"
    and inv :: "'s \<Rightarrow> bool"
    and item :: "'s \<Rightarrow> 'k \<Rightarrow> 'r option"
    and issued :: "'s \<Rightarrow> 'k \<Rightarrow> bool"
    and final :: "'r \<Rightarrow> bool"
    and outcome :: "'r \<Rightarrow> 'o"
  assumes inv_step: "step s s' \<Longrightarrow> inv s \<Longrightarrow> inv s'"
    and issued_step: "step s s' \<Longrightarrow> inv s \<Longrightarrow> issued s k \<Longrightarrow> issued s' k"
    and gone_step: "step s s' \<Longrightarrow> inv s \<Longrightarrow> issued s k \<Longrightarrow> item s k = None \<Longrightarrow> item s' k = None"
    and item_issued: "inv s \<Longrightarrow> item s k = Some r \<Longrightarrow> issued s k"
    and final_step: "step s s' \<Longrightarrow> inv s \<Longrightarrow> item s k = Some r \<Longrightarrow> final r \<Longrightarrow> item s' k = Some r' \<Longrightarrow>
      final r' \<and> outcome r' = outcome r"
begin

lemma inv_run: "step\<^sup>*\<^sup>* s s' \<Longrightarrow> inv s \<Longrightarrow> inv s'"
  by (induction rule: rtranclp_induct) (auto intro: inv_step)

lemma issued_run: "step\<^sup>*\<^sup>* s s' \<Longrightarrow> inv s \<Longrightarrow> issued s k \<Longrightarrow> issued s' k"
  by (induction rule: rtranclp_induct) (auto intro: issued_step inv_run)

lemma gone_run:
  "step\<^sup>*\<^sup>* s s' \<Longrightarrow> inv s \<Longrightarrow> issued s k \<Longrightarrow> item s k = None \<Longrightarrow> item s' k = None"
  by (induction rule: rtranclp_induct) (auto intro: gone_step inv_run issued_run)

text \<open>A final item is either gone or has the outcome it had.\<close>

lemma final_run:
  assumes "step\<^sup>*\<^sup>* s s'" and "inv s" and "item s k = Some r" and "final r"
  shows "item s' k = None \<or> (\<exists>r'. item s' k = Some r' \<and> final r' \<and> outcome r' = outcome r)"
  using assms(1)
proof (induction rule: rtranclp_induct)
  case base
  show ?case using assms by simp
next
  case (step s1 s2)
  have inv1: "inv s1" and iss1: "issued s1 k"
    using step.hyps(1) assms item_issued by (auto intro: inv_run issued_run)
  show ?case
  proof (cases "item s1 k")
    case None
    then show ?thesis using gone_step [OF step.hyps(2) inv1 iss1] by simp
  next
    case (Some r1)
    with step.IH have "final r1" "outcome r1 = outcome r" by auto
    then show ?thesis
      using final_step [OF step.hyps(2) inv1 Some] by (cases "item s2 k") auto
  qed
qed

text \<open>So the outcome of a final item stands in every later state, and an item that is gone in one of them is gone in all that follow.\<close>

lemma final_then_gone:
  assumes "step\<^sup>*\<^sup>* s s'" and "step\<^sup>*\<^sup>* s' s''" and "inv s" and "item s k = Some r" and "final r"
  shows "(\<forall>r'. item s' k = Some r' \<longrightarrow> final r' \<and> outcome r' = outcome r) \<and> (item s' k = None \<longrightarrow> item s'' k = None)"
proof
  show "\<forall>r'. item s' k = Some r' \<longrightarrow> final r' \<and> outcome r' = outcome r"
    using final_run [OF assms(1,3-5)] by auto
  show "item s' k = None \<longrightarrow> item s'' k = None"
    using gone_run [OF assms(2) inv_run [OF assms(1,3)] issued_run [OF assms(1,3) item_issued [OF assms(3,4)]]] by blast
qed

end

end
