(* ===== verification/Task_Properties.thy ===== *)
theory Task_Properties
  imports Task_Publish Lifecycle
begin

text \<open>
  The properties of the execution task coordinator over its reachable states, and concrete runs
  that show each of them at work.
\<close>

section \<open>Reachable states\<close>

definition coord_reachable :: "string list \<Rightarrow> TaskCoordinator \<Rightarrow> bool" where
  "coord_reachable ids c \<longleftrightarrow>
     (\<exists>limit observers clock. coord_step\<^sup>*\<^sup>* ([], new_TaskCoordinator limit observers clock) (ids, c))"

lemma step_ok_final:
  assumes "step_ok c c'" and "find_record c k = Some r" and "rec_terminal r"
    and "find_record c' k = Some r'"
  shows "rec_terminal r' \<and> rec_outcome r' = rec_outcome r"
proof -
  have "evolves c c'" using assms(1) by (simp add: step_ok_def keeps_def)
  from evolvesD [OF this assms(4)] assms(2) have "rec_evolves r r'" by auto
  with assms(3) rec_outcome_status [of r' r] show ?thesis by (simp add: rec_evolves_def)
qed

lemma coord_step_split:
  assumes "coord_step s s'" and "run_inv s"
  shows "(fst s' = fst s \<and> step_ok (snd s) (snd s')) \<or>
         (\<exists>tid. tid \<notin> set (fst s) \<and> fst s' = tid # fst s \<and> creates tid (snd s) (snd s'))"
  using coord_step_cases [of "fst s" "snd s" "fst s'" "snd s'"] assms
  by (auto simp: run_inv_def)

interpretation coord: lifecycle coord_step run_inv "\<lambda>s. find_record (snd s)" "\<lambda>s k. k \<in> set (fst s)"
  rec_terminal rec_outcome
proof unfold_locales
  fix s s' :: "string list \<times> TaskCoordinator" and k r r'
  assume step: "coord_step s s'" and inv: "run_inv s"
  note cases = coord_step_split [OF step inv]
  show "run_inv s'" using run_inv_step [OF step inv] .
  show "k \<in> set (fst s')" if "k \<in> set (fst s)" using that cases by auto
  show "find_record (snd s') k = None" if "k \<in> set (fst s)" "find_record (snd s) k = None"
    using cases
  proof (elim disjE exE conjE)
    assume "step_ok (snd s) (snd s')"
    then have "evolves (snd s) (snd s')" by (simp add: step_ok_def keeps_def)
    then show ?thesis using that(2) by (rule evolves_None)
  next
    fix tid assume "tid \<notin> set (fst s)" "creates tid (snd s) (snd s')"
    moreover from this have "k \<noteq> tid" using that(1) by blast
    ultimately show ?thesis using that(2) by (simp add: creates_def)
  qed
  show "rec_terminal r' \<and> rec_outcome r' = rec_outcome r"
    if r: "find_record (snd s) k = Some r" "rec_terminal r" "find_record (snd s') k = Some r'"
    using cases
  proof (elim disjE exE conjE)
    assume "step_ok (snd s) (snd s')"
    then show ?thesis using r by (rule step_ok_final)
  next
    fix tid assume tid: "tid \<notin> set (fst s)" "creates tid (snd s) (snd s')"
    then have "k \<noteq> tid" using inv r(1) unfolding run_inv_def fresh_id_def by auto
    then show ?thesis using tid(2) r by (auto simp: creates_def)
  qed
next
  show "k \<in> set (fst s)" if "run_inv s" "find_record (snd s) k = Some r" for s k r
    using that unfolding run_inv_def fresh_id_def by auto
qed

lemma reachable_run_inv: "coord_reachable ids c \<Longrightarrow> run_inv (ids, c)"
  unfolding coord_reachable_def using coord.inv_run run_inv_init by blast

lemma reachable_inv: "coord_reachable ids c \<Longrightarrow> coord_inv c"
  using reachable_run_inv by (auto simp: run_inv_def)

text \<open>
  A concrete run: Alice's task with two children, one running and one detached from the parent's
  life cycle, and a task of Bob.
\<close>

definition alice :: ExecutionAuthority where
  "alice = \<lparr>ea_principal_id = ''alice''\<rparr>"

definition bob :: ExecutionAuthority where
  "bob = \<lparr>ea_principal_id = ''bob''\<rparr>"

definition demo_create ::
  "string \<Rightarrow> ExecutionAuthority \<Rightarrow> nat option \<Rightarrow> string option \<Rightarrow> bool \<Rightarrow> TaskCoordinator \<Rightarrow> TaskCoordinator" where
  "demo_create tid authority handle parent_id detached c =
     snd (create_record tid ''chat'' ''s'' ''api'' tid authority handle None parent_id detached False c)"

definition demo0 :: TaskCoordinator where
  "demo0 = new_TaskCoordinator 2 [(''obs'', \<lambda>_. None)] (\<lambda>n. n)"

definition demo :: TaskCoordinator where
  "demo = demo_create ''b'' bob None None False (demo_create ''k2'' alice None (Some ''p'') True
            (demo_create ''k1'' alice (Some 7) (Some ''p'') False (demo_create ''p'' alice None None False demo0)))"

abbreviation demo_ids :: "string list" where
  "demo_ids \<equiv> [''b'', ''k2'', ''k1'', ''p'']"

lemma coord_reachable_step:
  "coord_reachable ids c \<Longrightarrow> coord_step (ids, c) (ids', c') \<Longrightarrow> coord_reachable ids' c'"
  unfolding coord_reachable_def by (meson rtranclp.rtrancl_into_rtrancl)

lemma demo_create_reachable:
  "coord_reachable ids c \<Longrightarrow> tid \<notin> set ids \<Longrightarrow>
   coord_reachable (tid # ids) (demo_create tid authority handle parent_id detached c)"
  unfolding demo_create_def
  by (erule coord_reachable_step) (erule step_create, rule surjective_pairing)

lemma demo_reachable: "coord_reachable demo_ids demo"
proof -
  have "coord_reachable [] demo0" unfolding coord_reachable_def demo0_def by blast
  then show ?thesis unfolding demo_def by (intro demo_create_reachable) simp_all
qed

definition demo_record ::
  "string \<Rightarrow> ExecutionAuthority \<Rightarrow> nat option \<Rightarrow> string option \<Rightarrow> bool \<Rightarrow> datetime \<Rightarrow> ExecutionTaskRecord" where
  "demo_record tid authority handle parent_id detached t =
     new_record tid ''chat'' ''s'' ''api'' tid authority handle None parent_id detached False t"

lemma demo_record_simps [simp]:
  "tr_status (demo_record tid a h p d t) = QUEUED"
  "tr_parent_task_id (demo_record tid a h p d t) = p"
  "tr_authority (demo_record tid a h p d t) = a"
  "tr_handle (demo_record tid a h p d t) = h"
  "tr_detached_from_parent_lifecycle (demo_record tid a h p d t) = d"
  "tr_task_id (demo_record tid a h p d t) = tid"
  "tr_revision (demo_record tid a h p d t) = 0"
  by (simp_all add: demo_record_def new_record_def)

lemma demo_records:
  "c_records demo = [(''p'', demo_record ''p'' alice None None False 0),
     (''k1'', demo_record ''k1'' alice (Some 7) (Some ''p'') False 1),
     (''k2'', demo_record ''k2'' alice None (Some ''p'') True 2),
     (''b'', demo_record ''b'' bob None None False 3)]"
  "c_done_handles demo = []"
  by (simp_all add: demo_def demo_create_def demo0_def create_record_def new_TaskCoordinator_def Let_def
      demo_record_def now_reading_def after_now_def put_record_def notify_all_def log_event_def numeral_eq_Suc)

section \<open>Properties\<close>

text \<open>
  In every reachable state the records are indexed by their own id and their fields agree with
  their status: a queued task has neither started nor finished, a running task has started and not
  finished, a terminal task has a finish time, holds no asyncio handle and admits no children; a
  child has the authority of its parent.
\<close>

theorem coordinator_records_consistent:
  assumes "coord_reachable ids c" and "find_record c k = Some r"
  shows "tr_task_id r = k \<and>
         (tr_status r = QUEUED \<longrightarrow> tr_started_at r = None \<and> tr_finished_at r = None) \<and>
         (tr_status r = RUNNING \<longrightarrow> tr_started_at r \<noteq> None \<and> tr_finished_at r = None) \<and>
         (rec_terminal r \<longrightarrow> tr_finished_at r \<noteq> None \<and> tr_handle r = None \<and> \<not> tr_accepting_children r) \<and>
         (\<forall>p pr. tr_parent_task_id r = Some p \<longrightarrow> find_record c p = Some pr \<longrightarrow> tr_authority pr = tr_authority r)"
proof -
  have inv: "coord_inv c" using assms(1) by (rule reachable_inv)
  then have "lineage_inv (c_records c)" by (simp add: coord_inv_def records_inv_def)
  then show ?thesis
    using coord_inv_lookup [OF inv assms(2)] assms(2) unfolding rec_ok_def lineage_inv_def by blast
qed

theorem coordinator_records_consistent_witness:
  "\<exists>r. find_record demo ''k1'' = Some r \<and> tr_task_id r = ''k1'' \<and> tr_finished_at r = None"
proof -
  obtain r where r: "find_record demo ''k1'' = Some r" "tr_status r = QUEUED" by (simp add: demo_records)
  show ?thesis
    using r coordinator_records_consistent [OF demo_reachable r(1)] by blast
qed

text \<open>
  C1. A terminal status is final: along every run, a task that has reached a terminal status keeps
  its status, times, reason, error type, result and cancellation flag for as long as its record is
  kept; once the record has left the bounded history, the id is not found in any later state.
\<close>

theorem terminal_outcome_final:
  assumes "coord_reachable ids c" and "find_record c k = Some r" and "rec_terminal r"
    and "coord_step\<^sup>*\<^sup>* (ids, c) (ids', c')" and "coord_step\<^sup>*\<^sup>* (ids', c') (ids'', c'')"
  shows "(\<forall>r'. find_record c' k = Some r' \<longrightarrow> rec_terminal r' \<and> rec_outcome r' = rec_outcome r) \<and>
         (find_record c' k = None \<longrightarrow> find_record c'' k = None)"
  using coord.final_then_gone [OF assms(4,5) reachable_run_inv [OF assms(1)]] assms(2,3) by simp

text \<open>The demo run continued: the parent is marked completed.\<close>

definition demo_done :: TaskCoordinator where
  "demo_done = the (mark_completed 4 ''p'' None demo)"

lemma demo_done_eq: "mark_completed 4 ''p'' None demo = Some demo_done"
proof -
  have "task_rank demo ''p'' \<le> 4" using task_rank_le_records [of demo "''p''"] by (simp add: demo_records)
  then show ?thesis
    using mark_returns(1) [OF reachable_inv [OF demo_reachable]] unfolding demo_done_def by fastforce
qed

lemma demo_done_reachable: "coord_reachable demo_ids demo_done"
  by (rule coord_reachable_step [OF demo_reachable step_completed [OF demo_done_eq]])

lemma demo_done_parent: "\<exists>r. find_record demo_done ''p'' = Some r \<and> tr_status r = COMPLETED"
proof -
  have "active_record demo ''p'' (demo_record ''p'' alice None None False 0)"
    by (simp add: active_record_def demo_records)
  from mark_publishes [OF reachable_inv [OF demo_reachable] this, of COMPLETED]
  show ?thesis using demo_done_eq by (fastforce simp: mark_completed_def)
qed

theorem terminal_outcome_final_witness:
  "\<exists>r. find_record (update_metadata ''p'' [] demo_done) ''p'' = Some r \<and> tr_status r = COMPLETED"
proof -
  obtain r where r: "find_record demo_done ''p'' = Some r" "tr_status r = COMPLETED"
    using demo_done_parent by blast
  then have "find_record (update_metadata ''p'' [] demo_done) ''p'' \<noteq> None"
    by (simp add: update_metadata_def Let_def)
  then obtain r' where r': "find_record (update_metadata ''p'' [] demo_done) ''p'' = Some r'" by blast
  have "rec_terminal r" using r(2) by simp
  from terminal_outcome_final [OF demo_done_reachable r(1) this
      r_into_rtranclp [where r = coord_step, OF step_metadata] rtranclp.rtrancl_refl]
  have "rec_outcome r' = rec_outcome r" using r' by blast
  then show ?thesis using r' r(2) rec_outcome_status by metis
qed

text \<open>
  The terminal history is bounded: at most \<open>terminal_history_limit\<close> records are terminal at any
  time, and the eviction order lists exactly these.
\<close>

theorem terminal_history_bounded:
  assumes "coord_reachable ids c"
  shows "length (filter (\<lambda>(_, r). rec_terminal r) (c_records c)) \<le> c_terminal_history_limit c \<and>
         set (c_terminal_order c) = {k. \<exists>r. find_record c k = Some r \<and> rec_terminal r}"
proof -
  have inv: "coord_inv c" using assms by (rule reachable_inv)
  then have order: "set (c_terminal_order c) = {k. \<exists>r. find_record c k = Some r \<and> rec_terminal r}"
    by (auto simp: coord_inv_def history_inv_def)
  let ?ends = "filter (\<lambda>(_, r). rec_terminal r) (c_records c)"
  have dist: "distinct (map fst (c_records c))" using inv by (simp add: coord_inv_def records_inv_def)
  then have "distinct (map fst ?ends)" by (rule distinct_map_filter)
  then have "length ?ends = card (fst ` set ?ends)"
    by (metis distinct_card length_map set_map)
  also have "fst ` set ?ends \<subseteq> set (c_terminal_order c)"
    unfolding order using dist by force
  then have "card (fst ` set ?ends) \<le> card (set (c_terminal_order c))" by (simp add: card_mono)
  also have "\<dots> \<le> length (c_terminal_order c)" by (rule card_length)
  also have "\<dots> \<le> c_terminal_history_limit c" using inv by (simp add: coord_inv_def history_inv_def)
  finally show ?thesis using order by blast
qed

theorem terminal_history_bounded_witness:
  "length (filter (\<lambda>(_, r). rec_terminal r) (c_records demo)) \<le> c_terminal_history_limit demo"
  using terminal_history_bounded [OF demo_reachable] by blast

text \<open>
  C17. Cancellation always returns: on a reachable state, a recursion depth of one more than the
  number of records is enough for \<open>cancel_task\<close>; afterwards the task is gone, terminal or asked to
  stop, and the coordinator's invariant still holds.
\<close>

theorem cancel_task_terminates:
  assumes "coord_reachable ids c"
  shows "\<exists>res c'. cancel_task (Suc (length (c_records c))) tid reason c = Some (res, c') \<and>
           coord_reachable ids c' \<and>
           (\<forall>r. find_record c' tid = Some r \<longrightarrow> rec_terminal r \<or> tr_cancel_requested r)"
proof -
  have inv: "coord_inv c" using assms by (rule reachable_inv)
  obtain res c' where c': "cancel_task (Suc (length (c_records c))) tid reason c = Some (res, c')"
    using cancel_task_returns [OF inv] task_rank_le_records le_imp_less_Suc by blast
  have "coord_reachable ids c'"
    using coord_reachable_step [OF assms step_cancel [OF c']] .
  moreover have "settled c' tid" using cancel_task_closing [OF inv c'] by (simp add: closing_def)
  ultimately show ?thesis using c' by (auto simp: settled_def)
qed

theorem cancel_task_terminates_witness:
  "\<exists>res c'. cancel_task (Suc (length (c_records demo))) ''p'' ''stop'' demo = Some (res, c') \<and>
     coord_reachable demo_ids c'"
  using cancel_task_terminates [OF demo_reachable, of "''p''" "''stop''"] by blast

text \<open>
  Each terminal operation on an active task returns and publishes exactly its own status,
  reason and error type, whatever the cancellation of its children does.
\<close>

theorem terminal_marks_publish:
  assumes "coord_reachable ids c" and "find_record c tid = Some r" and "\<not> rec_terminal r"
    and "length (c_records c) \<le> fuel"
  shows "(\<exists>c' r'. mark_completed fuel tid reason c = Some c' \<and> find_record c' tid = Some r' \<and>
            tr_status r' = COMPLETED \<and> tr_terminal_reason r' = reason) \<and>
         (\<exists>c' r'. mark_failed fuel tid reason err c = Some c' \<and> find_record c' tid = Some r' \<and>
            tr_status r' = FAILED \<and> tr_terminal_reason r' = reason \<and> tr_terminal_error_type r' = err) \<and>
         (\<exists>c' r'. mark_cancelled fuel tid reason c = Some c' \<and> find_record c' tid = Some r' \<and>
            tr_status r' = CANCELLED \<and> tr_terminal_reason r' = reason) \<and>
         (\<exists>c' r'. mark_timed_out fuel tid reason c = Some c' \<and> find_record c' tid = Some r' \<and>
            tr_status r' = TIMED_OUT \<and> tr_terminal_reason r' = reason) \<and>
         (\<exists>c' r'. mark_skipped fuel tid reason c = Some c' \<and> find_record c' tid = Some r' \<and>
            tr_status r' = SKIPPED \<and> tr_terminal_reason r' = reason)"
proof -
  have inv: "coord_inv c" using assms(1) by (rule reachable_inv)
  have act: "active_record c tid r" using assms(2,3) by (simp add: active_record_def)
  have rank: "task_rank c tid \<le> fuel" using task_rank_le_records assms(4) order_trans by blast
  have "\<exists>c' r'. map_option (mark_terminal tid status reason event e)
      (cancel_active_children fuel tid child_reason c) = Some c' \<and> find_record c' tid = Some r' \<and>
      tr_status r' = status \<and> tr_terminal_reason r' = reason \<and> tr_terminal_error_type r' = e"
    if status: "status \<in> TERMINAL_STATUSES" for status event e child_reason
  proof -
    obtain c1 where "cancel_active_children fuel tid child_reason c = Some c1"
      using cancel_active_children_returns [OF inv rank] by blast
    then have c1: "map_option (mark_terminal tid status reason event e)
        (cancel_active_children fuel tid child_reason c) = Some (mark_terminal tid status reason event e c1)"
      by simp
    from mark_publishes [OF inv act status c1] c1 show ?thesis
      by (auto simp: terminal_record_def touch_record_def)
  qed
  note P = this
  show ?thesis
    unfolding mark_defs
    using P [OF terminal_statuses(1), of "''execution_task_completed''" None "''parent_completed''"]
      P [OF terminal_statuses(2), of "''execution_task_failed''" err "''parent_failed''"]
      P [OF terminal_statuses(3), of "''execution_task_cancelled''" None "''parent_cancelled''"]
      P [OF terminal_statuses(4), of "''execution_task_timed_out''" None "''parent_timed_out''"]
      P [OF terminal_statuses(5), of "''execution_task_skipped''" None "''parent_skipped''"]
    by blast
qed

theorem terminal_marks_publish_witness:
  "\<exists>c' r'. mark_cancelled 4 ''k1'' (Some ''user'') demo = Some c' \<and>
     find_record c' ''k1'' = Some r' \<and> tr_status r' = CANCELLED \<and> tr_terminal_reason r' = Some ''user''"
proof -
  obtain r where r: "find_record demo ''k1'' = Some r" "tr_status r = QUEUED" by (simp add: demo_records)
  show ?thesis
    using terminal_marks_publish [OF demo_reachable r(1), of 4 "Some ''user''"] r(2) by (simp add: demo_records)
qed

text \<open>
  C12. No orphans: in every reachable state, when a parent has stopped admitting children (it is
  terminal, or is being made so), every attached child that is still active has been asked to
  cancel. Detached children are left alone by design.
\<close>

theorem closed_parents_have_cancelled_children:
  assumes "coord_reachable ids c" and "find_record c p = Some pr" and "\<not> tr_accepting_children pr"
    and "find_record c i = Some r" and "tr_parent_task_id r = Some p"
    and "\<not> tr_detached_from_parent_lifecycle r" and "\<not> rec_terminal r"
  shows "tr_cancel_requested r"
proof -
  have "closed_outside {} c" using reachable_run_inv [OF assms(1)] by (simp add: run_inv_def)
  then show ?thesis using assms(2-) unfolding closed_outside_def closed_at_def by blast
qed

text \<open>Cancelling a task that runs in an asyncio task asks it to stop and interrupts it.\<close>

lemma cancel_task_live:
  assumes "find_record c tid = Some r" and "\<not> rec_terminal r" and "tr_handle r = Some h"
    and "h \<notin> set (c_done_handles c)"
  shows "\<exists>res c' r'. cancel_task (Suc fuel) tid reason c = Some (res, c') \<and>
    r' = touch_record (r\<lparr>tr_cancel_requested := True, tr_latest_event := Some reason\<rparr>) \<and>
    c_records c' = AList.update tid r' (c_records c) \<and> c_cancel_calls c' = c_cancel_calls c @ [h]"
  using assms by (simp add: Let_def touch_record_def)

lemma demo_done_child:
  "\<exists>r. find_record demo_done ''k1'' = Some r \<and> \<not> rec_terminal r \<and> tr_parent_task_id r = Some ''p'' \<and>
     \<not> tr_detached_from_parent_lifecycle r"
proof -
  let ?c1 = "put_record ''p'' (demo_record ''p'' alice None None False 0\<lparr>tr_accepting_children := False\<rparr>) demo"
  let ?k1 = "demo_record ''k1'' alice (Some 7) (Some ''p'') False 1"
  have "active_children ''p'' ?c1 = [''k1'']" by (simp add: active_children_def demo_records)
  moreover have "\<exists>res c' r'. cancel_task (Suc 3) ''k1'' ''parent_completed'' ?c1 = Some (res, c') \<and>
      r' = touch_record (?k1\<lparr>tr_cancel_requested := True, tr_latest_event := Some ''parent_completed''\<rparr>) \<and>
      c_records c' = AList.update ''k1'' r' (c_records ?c1) \<and> c_cancel_calls c' = c_cancel_calls ?c1 @ [7]"
    by (rule cancel_task_live) (simp_all add: demo_records)
  then obtain res c2 where c2: "cancel_task 4 ''k1'' ''parent_completed'' ?c1 = Some (res, c2)"
    "find_record c2 ''k1'' = Some (touch_record
       (?k1\<lparr>tr_cancel_requested := True, tr_latest_event := Some ''parent_completed''\<rparr>))"
    by (auto simp: numeral_eq_Suc)
  ultimately have "cancel_active_children 4 ''p'' ''parent_completed'' demo = Some c2"
    by (simp add: cancel_active_children_def cancel_active_children_with_def Let_def demo_records cancel_child_def)
  then have "demo_done = mark_terminal ''p'' COMPLETED None ''execution_task_completed'' None c2"
    by (simp add: demo_done_def mark_completed_def)
  moreover have "find_record (mark_terminal ''p'' COMPLETED None ''execution_task_completed'' None c2) ''k1'' =
      Some (touch_record (?k1\<lparr>tr_cancel_requested := True, tr_latest_event := Some ''parent_completed''\<rparr>))"
    by (rule mark_terminal_other_active [OF c2(2)]) (simp_all add: touch_record_def)
  ultimately show ?thesis by (auto simp: touch_record_def)
qed

theorem closed_parents_have_cancelled_children_witness:
  "\<exists>r. find_record demo_done ''k1'' = Some r \<and> \<not> rec_terminal r \<and> tr_cancel_requested r"
proof -
  obtain r where r: "find_record demo_done ''k1'' = Some r" "\<not> rec_terminal r"
    "tr_parent_task_id r = Some ''p''" "\<not> tr_detached_from_parent_lifecycle r" using demo_done_child by blast
  obtain pr where pr: "find_record demo_done ''p'' = Some pr" "tr_status pr = COMPLETED"
    using demo_done_parent by blast
  have "\<not> tr_accepting_children pr"
    using coord_inv_lookup [OF reachable_inv [OF demo_done_reachable] pr(1)] pr(2) by (simp add: rec_ok_def)
  from closed_parents_have_cancelled_children [OF demo_done_reachable pr(1) this r(1,3,4,2)] r(1,2)
  show ?thesis by blast
qed

text \<open>
  C18. A cancellation is confined to one authority: apart from the eviction of records that were
  already terminal, \<open>cancel_task\<close> leaves the record of every task of another authority untouched.
\<close>

theorem cancel_confined_to_authority:
  assumes "coord_reachable ids c" and "find_record c tid = Some r"
    and "cancel_task fuel tid reason c = Some (res, c')"
    and "find_record c k = Some other" and "tr_authority other \<noteq> tr_authority r"
  shows "find_record c' k = Some other \<or> (rec_terminal other \<and> find_record c' k = None)"
proof -
  have "owned (tr_authority r) c tid"
    using assms(2) reachable_inv [OF assms(1)] by (simp add: owned_def)
  from conf.cancel_task_R [OF this assms(3)] show ?thesis using assms(4,5) by (rule confinedD)
qed

theorem cancel_confined_to_authority_witness:
  "\<exists>res c' r. cancel_task 5 ''p'' ''stop'' demo = Some (res, c') \<and> find_record c' ''b'' = Some r \<and> tr_status r = QUEUED"
proof -
  obtain res c' where c': "cancel_task 5 ''p'' ''stop'' demo = Some (res, c')"
    using cancel_task_returns [OF reachable_inv [OF demo_reachable], of "''p''" 5 "''stop''"]
      task_rank_le_records [of demo "''p''"] by (auto simp: demo_records)
  have "find_record demo ''p'' = Some (demo_record ''p'' alice None None False 0)"
    "find_record demo ''b'' = Some (demo_record ''b'' bob None None False 3)" by (simp_all add: demo_records)
  from cancel_confined_to_authority [OF demo_reachable this(1) c' this(2)] c'
  show ?thesis by (simp add: alice_def bob_def)
qed

text \<open>
  C30. No lost wake-up: whenever a step changes what \<open>wait_for_tasks\<close> would see, be it a snapshot or
  the readiness of a wait, the condition variable has been notified in that step.
\<close>

theorem no_lost_wakeup:
  assumes "coord_reachable ids c" and "coord_step (ids, c) (ids', c')"
    and "snapshots_for_ids wanted c' \<noteq> snapshots_for_ids wanted c \<or>
         wait_ready wanted revisions terminal_only attention c' \<noteq> wait_ready wanted revisions terminal_only attention c"
  shows "c_notifies c < c_notifies c'"
proof -
  have "announced c c'"
    using coord_step_split [OF assms(2) reachable_run_inv [OF assms(1)]]
    by (auto simp: step_ok_def creates_def)
  moreover have "snapshots_for_ids wanted c' = snapshots_for_ids wanted c" if "\<forall>k. get_task k c' = get_task k c"
    using that by (simp add: snapshots_for_ids_def)
  then have "\<not> (\<forall>k. get_task k c' = get_task k c)"
    using assms(3) by (auto simp: wait_ready_def)
  ultimately show ?thesis unfolding announced_def by fastforce
qed

theorem no_lost_wakeup_witness: "c_notifies demo < c_notifies (update_metadata ''k1'' [] demo)"
proof (rule no_lost_wakeup [where wanted = "[''k1'']" and revisions = "[]" and terminal_only = True
      and attention = False, OF demo_reachable step_metadata])
  have "snapshots_for_ids [''k1''] (update_metadata ''k1'' [] demo) \<noteq> snapshots_for_ids [''k1''] demo"
    by (simp add: snapshots_for_ids_def get_task_def update_metadata_def demo_records List.map_filter_def
        snapshot_def touch_record_def)
  then show "snapshots_for_ids [''k1''] (update_metadata ''k1'' [] demo) \<noteq> snapshots_for_ids [''k1''] demo \<or>
      wait_ready [''k1''] [] True False (update_metadata ''k1'' [] demo) \<noteq> wait_ready [''k1''] [] True False demo"
    by blast
qed

text \<open>
  C31. Observers are told the end of a task exactly once: for an active task no terminal observer
  has been called, for a terminal one each has been called once, in the order of registration.
\<close>

theorem observers_notified_once:
  assumes "coord_reachable ids c" and "find_record c k = Some r"
  shows "map fst (filter (\<lambda>(_, s). ts_task_id s = k) (c_notified c)) =
         (if rec_terminal r then map fst (c_terminal_observers c) else [])"
  using reachable_inv [OF assms(1)] assms(2)
  unfolding coord_inv_def notified_inv_def notified_of_def by blast

text \<open>
  A recorded result is always bounded: \<open>record_result\<close> returns for every Python value, cyclic
  ones included, and in every reachable state a stored result serialises to at most
  \<open>EXECUTION_TASK_RESULT_MAX_CHARS\<close> characters.
\<close>

theorem stored_results_bounded:
  assumes "coord_reachable ids c"
  shows "(\<exists>res c'. record_result tid h v c = Some (res, c')) \<and>
         (\<forall>k r m. find_record c k = Some r \<longrightarrow> tr_result r = Some m \<longrightarrow>
            length (serialize_json (JDict m)) \<le> EXECUTION_TASK_RESULT_MAX_CHARS)"
proof
  show "\<exists>res c'. record_result tid h v c = Some (res, c')" by (rule record_result_returns)
  show "\<forall>k r m. find_record c k = Some r \<longrightarrow> tr_result r = Some m \<longrightarrow>
            length (serialize_json (JDict m)) \<le> EXECUTION_TASK_RESULT_MAX_CHARS"
    using coord_inv_lookup [OF reachable_inv [OF assms]] unfolding rec_ok_def by blast
qed

theorem observers_notified_once_witness:
  "map fst (filter (\<lambda>(_, s). ts_task_id s = ''p'') (c_notified demo_done)) = map fst (c_terminal_observers demo_done)"
  using demo_done_parent observers_notified_once [OF demo_done_reachable] by force

theorem stored_results_bounded_witness:
  "\<exists>res c'. record_result ''k1'' [PySeq [PyRef 0]] (PyRef 0) demo = Some (res, c')"
  using stored_results_bounded [OF demo_reachable] by blast

lemma close_tracking_ends:
  assumes inv: "coord_inv c" and "length (c_records c) \<le> fuel"
  shows "\<exists>c'. close_tracking fuel tid kind (out, c) = Some (out, c') \<and>
           (\<forall>r. find_record c' tid = Some r \<longrightarrow> rec_terminal r)"
proof -
  have rank: "task_rank c tid \<le> fuel" using task_rank_le_records assms(2) order_trans by blast
  have ends: "\<forall>r. find_record c' tid = Some r \<longrightarrow> rec_terminal r"
    if "mark_completed fuel tid reason c = Some c' \<or> mark_failed fuel tid reason err c = Some c' \<or>
        mark_cancelled fuel tid reason c = Some c'" for reason err c'
    using that unfolding mark_defs
    by (elim disjE) (blast intro: mark_closing(2) [OF inv] terminal_statuses)+
  show ?thesis
  proof (cases out)
    case (Body_Returns x)
    obtain c' where "mark_completed fuel tid None c = Some c'"
      using mark_returns(1) [OF inv rank] by blast
    with ends show ?thesis by (auto simp: close_tracking_def Body_Returns)
  next
    case Body_Cancelled
    obtain c' where "mark_cancelled fuel tid (Some ''cancelled'') c = Some c'"
      using mark_returns(3) [OF inv rank] by blast
    with ends show ?thesis by (auto simp: close_tracking_def finish_cancelled_task_def Body_Cancelled)
  next
    case (Body_Raises exc)
    obtain c' where "mark_failed fuel tid (Some (execution_task_failure_reason kind exc)) (Some (exn_type exc)) c = Some c'"
      using mark_returns(2) [OF inv rank] by blast
    with ends show ?thesis by (auto simp: close_tracking_def finish_failed_task_def Body_Raises)
  qed
qed

text \<open>
  A tracked operation always ends in the books: whatever the body of \<open>track_current_task\<close> does
  (return, be cancelled, raise), the block passes its outcome on and leaves its record terminal or
  already evicted. The body may run any sequence of coordinator operations.
\<close>

theorem tracked_task_ends:
  assumes reach: "coord_reachable ids c" and new: "new_task_id uuid \<notin> set ids"
    and fuel: "Suc (length (c_records c)) \<le> fuel"
    and body: "\<And>s a c1 out c2. coord_reachable (new_task_id uuid # ids) c1 \<Longrightarrow>
      length (c_records c1) \<le> Suc (length (c_records c)) \<Longrightarrow> body s a c1 = (out, c2) \<Longrightarrow>
      \<exists>ids2. coord_step\<^sup>*\<^sup>* (new_task_id uuid # ids, c1) (ids2, c2) \<and> length (c_records c2) \<le> fuel"
  shows "\<exists>out c'. track_current_task fuel current uuid kind scope source label authority metadata parent_id
           detached start_now body c = Some (out, c') \<and>
           (\<forall>r. find_record c' (new_task_id uuid) = Some r \<longrightarrow> rec_terminal r)"
proof -
  let ?tid = "new_task_id uuid"
  have fresh: "find_record c ?tid = None"
    using reachable_run_inv [OF reach] new by (auto simp: run_inv_def fresh_id_def)
  obtain res c1 where c1: "create_record ?tid kind scope source label authority current metadata parent_id
      detached False c = (res, c1)" by force
  have reach1: "coord_reachable (?tid # ids) c1" by (rule coord_reachable_step [OF reach step_create [OF new c1]])
  have len1: "length (c_records c1) \<le> Suc (length (c_records c))"
    using c1
    by (cases rule: create_record_cases) (simp_all add: alist_update_notin fresh map_of_eq_None_iff [symmetric])
  show ?thesis
  proof (cases "current = None \<or> (\<exists>e. res = Inl e)")
    case True
    have "c1 = after_now c" if "\<exists>e. res = Inl e"
      using c1 that by (cases rule: create_record_cases) auto
    with True fresh c1 show ?thesis by (auto simp: track_current_task_def Let_def)
  next
    case False
    then have res: "res = Inr ()" "current \<noteq> None" by (cases res; simp)+
    obtain res2 c2 where c2: "(if start_now then mark_started ?tid c1 else (Inr (), c1)) = (res2, c2)" by force
    have reach2: "coord_reachable (?tid # ids) c2"
      using c2 reach1 coord_reachable_step [OF reach1 step_start] by (auto split: if_splits)
    have "keeps c1 c2" using c2 mark_started_ok by (auto simp: step_ok_def split: if_splits)
    then have "subseq (task_keys c2) (task_keys c1)" by (simp add: keeps_def)
    then have len2: "length (c_records c2) \<le> Suc (length (c_records c))"
      using len1 list_emb_length by (fastforce simp: task_keys_def)
    then have "length (c_records c2) \<le> fuel" using fuel by simp
    note raises = close_tracking_ends [OF reachable_inv [OF reach2] this]
    have returns: "\<exists>out c'. close_tracking fuel ?tid kind (body s authority c2) = Some (out, c') \<and>
        (\<forall>r. find_record c' ?tid = Some r \<longrightarrow> rec_terminal r)" for s
    proof -
      obtain out c3 where b: "body s authority c2 = (out, c3)" by force
      from body [OF reach2 len2 b] obtain ids3 where c3: "coord_step\<^sup>*\<^sup>* (?tid # ids, c2) (ids3, c3)"
        "length (c_records c3) \<le> fuel" by blast
      have "run_inv (ids3, c3)" using coord.inv_run [OF c3(1) reachable_run_inv [OF reach2]] .
      then have "coord_inv c3" by (simp add: run_inv_def)
      from close_tracking_ends [OF this c3(2)] show ?thesis unfolding b by blast
    qed
    show ?thesis
    proof (cases res2)
      case (Inl e)
      then show ?thesis
        using res c1 c2 raises [of ?tid kind "Body_Raises (exn_info_of e)"]
        by (auto simp: track_current_task_def Let_def)
    next
      case (Inr u)
      then show ?thesis
        using res c1 c2 raises [of ?tid kind "Body_Raises (exn_info_of
          (RuntimeError (''Execution task disappeared: '' @ ?tid)))"] returns
        by (cases "get_task ?tid c2") (auto simp: track_current_task_def Let_def)
    qed
  qed
qed

theorem tracked_task_ends_witness:
  "\<exists>out c'. track_current_task 9 (Some 1) ''x'' ''chat'' ''s'' ''api'' ''l'' alice None (Some ''p'') False True
     (\<lambda>s a c. (Body_Raises (exn_info_of (ValueError ''boom'')), c)) demo = Some (out, c')"
proof -
  have "\<exists>out c'. track_current_task 9 (Some 1) ''x'' ''chat'' ''s'' ''api'' ''l'' alice None (Some ''p'') False True
     (\<lambda>s a c. (Body_Raises (exn_info_of (ValueError ''boom'')), c)) demo = Some (out, c') \<and>
     (\<forall>r. find_record c' (new_task_id ''x'') = Some r \<longrightarrow> rec_terminal r)"
    by (rule tracked_task_ends [OF demo_reachable]) (auto simp: demo_records new_task_id_def)
  then show ?thesis by blast
qed

end
