(* ===== verification/Task_Access.thy ===== *)
theory Task_Access
  imports Task_Properties
begin

text \<open>
  \<open>ExecutionTaskAccessService\<close> of core/runtime/task_access.py: task reads and cancellation under the
  active execution authority, which is an explicit argument here. A task of another principal is
  reported exactly like a task that does not exist.
\<close>

section \<open>Operations\<close>

definition access_get_task ::
  "ExecutionAuthority option \<Rightarrow> string \<Rightarrow> TaskCoordinator \<Rightarrow> ExecutionTaskSnapshot option result" where
  "access_get_task ctx tid c =
     rbind (require_current_execution_authority ctx) (\<lambda>authority.
       Inr (case get_task tid c of
              None \<Rightarrow> None
            | Some s \<Rightarrow>
                if \<not> can_access_execution_task (ea_principal_id authority) (ts_principal_id s)
                then None else Some s))"

definition access_list_tasks ::
  "ExecutionAuthority option \<Rightarrow> string option \<Rightarrow> string option \<Rightarrow> bool \<Rightarrow> TaskCoordinator \<Rightarrow>
   ExecutionTaskSnapshot list result" where
  "access_list_tasks ctx kind scope include_terminal c =
     rbind (require_current_execution_authority ctx) (\<lambda>authority.
       Inr (filter (\<lambda>s. can_access_execution_task (ea_principal_id authority) (ts_principal_id s))
              (list_tasks kind scope include_terminal c)))"

definition access_cancel_task ::
  "nat \<Rightarrow> ExecutionAuthority option \<Rightarrow> string \<Rightarrow> string \<Rightarrow> TaskCoordinator \<Rightarrow>
   (ExecutionTaskCancellationResult option result \<times> TaskCoordinator) option" where
  "access_cancel_task fuel ctx tid reason c =
     (case access_get_task ctx tid c of
        Inl e \<Rightarrow> Some (Inl e, c)
      | Inr None \<Rightarrow> Some (Inr None, c)
      | Inr (Some _) \<Rightarrow> map_option (\<lambda>(res, c'). (Inr res, c')) (cancel_task fuel tid reason c))"

text \<open>\<open>[snapshot for id in ids if (snapshot := await self.get_task(id)) is not None]\<close>\<close>

fun access_snapshots ::
  "ExecutionAuthority option \<Rightarrow> string list \<Rightarrow> TaskCoordinator \<Rightarrow> ExecutionTaskSnapshot list result" where
  "access_snapshots ctx [] c = Inr []"
| "access_snapshots ctx (tid # tids) c =
     rbind (access_get_task ctx tid c) (\<lambda>s.
       rbind (access_snapshots ctx tids c) (\<lambda>rest.
         Inr (case s of None \<Rightarrow> rest | Some s \<Rightarrow> s # rest)))"

text \<open>
  The state in which the coordinator's wait returns is the last argument: the second filter of
  the service runs there.
\<close>

definition access_wait_for_tasks ::
  "ExecutionAuthority option \<Rightarrow> string list \<Rightarrow> TaskCoordinator \<Rightarrow> wait_event list \<Rightarrow> TaskCoordinator \<Rightarrow>
   ExecutionTaskWaitResult result option" where
  "access_wait_for_tasks ctx task_ids c events c_end =
     (case access_snapshots ctx (fromkeys task_ids) c of
        Inl e \<Rightarrow> Some (Inl e)
      | Inr initial \<Rightarrow>
          map_option
            (\<lambda>result.
               rbind (rmap (\<lambda>s. rbind (access_get_task ctx (ts_task_id s) c_end)
                                 (\<lambda>found. Inr (s, found \<noteq> None))) (wr_snapshots result)) (\<lambda>checked.
                 Inr \<lparr>wr_snapshots = map fst (filter snd checked), wr_timed_out = wr_timed_out result\<rparr>))
            (wait_for_tasks (map ts_task_id initial)
               (Some (map (\<lambda>s. (ts_task_id s, ts_revision s)) initial)) True True c events))"

section \<open>Properties\<close>

lemma access_get_task_some:
  "access_get_task (Some a) tid c = Inr (Some s) \<longleftrightarrow>
   get_task tid c = Some s \<and> can_access_execution_task (ea_principal_id a) (ts_principal_id s)"
  by (auto simp: access_get_task_def require_current_execution_authority_def split: option.splits)

text \<open>Everything a wait through the service returns was accessible when it returned.\<close>

lemma access_wait_accessible:
  assumes "access_wait_for_tasks (Some a) task_ids c events c_end = Some (Inr result)" and "s \<in> set (wr_snapshots result)"
  shows "\<exists>s'. get_task (ts_task_id s) c_end = Some s' \<and>
    can_access_execution_task (ea_principal_id a) (ts_principal_id s')"
proof -
  from assms(1) obtain initial where "access_snapshots (Some a) (fromkeys task_ids) c = Inr initial"
    by (cases "access_snapshots (Some a) (fromkeys task_ids) c") (auto simp: access_wait_for_tasks_def)
  with assms obtain wr :: ExecutionTaskWaitResult and checked where
    "rmap (\<lambda>s. rbind (access_get_task (Some a) (ts_task_id s) c_end) (\<lambda>found. Inr (s, found \<noteq> None)))
       (wr_snapshots wr) = Inr checked" and s: "(s, True) \<in> set checked"
    by (auto simp: access_wait_for_tasks_def)
  then have all2: "list_all2 (\<lambda>s y. rbind (access_get_task (Some a) (ts_task_id s) c_end)
      (\<lambda>found. Inr (s, found \<noteq> None)) = Inr y) (wr_snapshots wr) checked"
    by (simp add: rmap_eq_Inr)
  from s obtain i where "i < length checked" "checked ! i = (s, True)" by (auto simp: in_set_conv_nth)
  with all2 have "access_get_task (Some a) (ts_task_id s) c_end \<noteq> Inr None \<and>
      (\<exists>f. access_get_task (Some a) (ts_task_id s) c_end = Inr (Some f))"
    by (auto simp: list_all2_conv_all_nth)
  then show ?thesis by (auto simp: access_get_task_some)
qed

text \<open>An id that the service does not answer for makes no difference to a wait.\<close>

lemma access_snapshots_skip:
  "access_get_task (Some a) tid c = Inr None \<Longrightarrow>
   access_snapshots (Some a) (filter (\<lambda>i. i \<noteq> tid) ids) c = access_snapshots (Some a) ids c"
proof (induction ids)
  case (Cons i ids)
  then show ?case by (cases "access_snapshots (Some a) ids c") auto
qed simp

lemma access_wait_skip:
  assumes "access_get_task (Some a) tid c = Inr None"
  shows "access_wait_for_tasks (Some a) ids c events c_end =
    access_wait_for_tasks (Some a) (filter (\<lambda>i. i \<noteq> tid) ids) c events c_end"
  using access_snapshots_skip [OF assms, of "fromkeys ids"] by (simp add: access_wait_for_tasks_def fromkeys_filter)

text \<open>
  C32. Concealment: to a principal that may not access a task, the access service answers every read and every
  cancellation exactly as if the task did not exist, and a cancellation changes nothing. The listing leaves the task out; a
  wait that names it is the same wait without its id, and no wait that returns now tells anything of it.
\<close>

theorem foreign_tasks_concealed:
  assumes "find_record c tid = Some r"
    and "\<not> can_access_execution_task (ea_principal_id a) (ea_principal_id (tr_authority r))"
  shows "access_get_task (Some a) tid c = Inr None \<and>
         access_cancel_task fuel (Some a) tid reason c = Some (Inr None, c) \<and>
         (\<forall>kind scope include_terminal snaps.
            access_list_tasks (Some a) kind scope include_terminal c = Inr snaps \<longrightarrow> snapshot r \<notin> set snaps) \<and>
         (\<forall>ids events c_end. access_wait_for_tasks (Some a) ids c events c_end =
            access_wait_for_tasks (Some a) (filter (\<lambda>i. i \<noteq> tid) ids) c events c_end) \<and>
         (\<forall>ids c_start events result.
            access_wait_for_tasks (Some a) ids c_start events c = Some (Inr result) \<longrightarrow>
            tid \<notin> ts_task_id ` set (wr_snapshots result))"
proof (intro conjI allI impI)
  show none: "access_get_task (Some a) tid c = Inr None"
    using assms by (simp add: access_get_task_def require_current_execution_authority_def get_task_def snapshot_def)
  then show "access_cancel_task fuel (Some a) tid reason c = Some (Inr None, c)" by (simp add: access_cancel_task_def)
  show "snapshot r \<notin> set snaps" if "access_list_tasks (Some a) kind scope include_terminal c = Inr snaps"
    for kind scope include_terminal snaps
    using that assms(2) by (auto simp: access_list_tasks_def require_current_execution_authority_def snapshot_def)
  show "access_wait_for_tasks (Some a) ids c events c_end =
      access_wait_for_tasks (Some a) (filter (\<lambda>i. i \<noteq> tid) ids) c events c_end" for ids events c_end
    using access_wait_skip [OF none] .
  show "tid \<notin> ts_task_id ` set (wr_snapshots result)"
    if "access_wait_for_tasks (Some a) ids c_start events c = Some (Inr result)" for ids c_start events result
  proof
    assume "tid \<in> ts_task_id ` set (wr_snapshots result)"
    then obtain s where s: "s \<in> set (wr_snapshots result)" "ts_task_id s = tid" by auto
    from access_wait_accessible [OF that s(1)] show False
      using assms s(2) by (auto simp: get_task_def snapshot_def)
  qed
qed

theorem foreign_tasks_concealed_witness:
  "access_cancel_task 5 (Some bob) ''p'' ''stop'' demo = Some (Inr None, demo) \<and>
   access_wait_for_tasks (Some bob) [''p''] demo [Timeout demo] demo = access_wait_for_tasks (Some bob) [] demo [Timeout demo] demo"
proof -
  have "find_record demo ''p'' = Some (demo_record ''p'' alice None None False 0)" by (simp add: demo_records)
  moreover have "\<not> can_access_execution_task (ea_principal_id bob) (ea_principal_id (tr_authority (demo_record ''p'' alice None None False 0)))"
    by (simp add: can_access_execution_task_def alice_def bob_def LOCAL_USER_PRINCIPAL_ID_def)
  ultimately have "access_cancel_task 5 (Some bob) ''p'' ''stop'' demo = Some (Inr None, demo)"
    "access_wait_for_tasks (Some bob) [''p''] demo [Timeout demo] demo =
      access_wait_for_tasks (Some bob) (filter (\<lambda>i. i \<noteq> ''p'') [''p'']) demo [Timeout demo] demo"
    using foreign_tasks_concealed by blast+
  then show ?thesis by simp
qed

text \<open>
  Isolation: a cancellation through the access service by a principal other than the local
  user leaves every record of other principals untouched, apart from the eviction of records that
  were already terminal.
\<close>

theorem access_cancel_isolated:
  assumes "coord_reachable ids c" and "ea_principal_id a \<noteq> LOCAL_USER_PRINCIPAL_ID"
    and "access_cancel_task fuel (Some a) tid reason c = Some (res, c')"
    and "find_record c k = Some other" and "ea_principal_id (tr_authority other) \<noteq> ea_principal_id a"
  shows "find_record c' k = Some other \<or> (rec_terminal other \<and> find_record c' k = None)"
proof (cases "\<exists>s. access_get_task (Some a) tid c = Inr (Some s)")
  case False
  then have "c' = c"
    using assms(3)
    by (auto simp: access_cancel_task_def access_get_task_def require_current_execution_authority_def split: if_splits option.splits)
  then show ?thesis using assms(4) by simp
next
  case True
  then obtain s where s: "access_get_task (Some a) tid c = Inr (Some s)" by blast
  then obtain r where r: "find_record c tid = Some r" "s = snapshot r"
    and acc: "can_access_execution_task (ea_principal_id a) (ts_principal_id s)"
    by (auto simp: access_get_task_some get_task_def)
  then have mine: "ea_principal_id (tr_authority r) = ea_principal_id a"
    using assms(2) by (auto simp: can_access_execution_task_def snapshot_def)
  then have own: "owned (tr_authority r) c tid"
    using r(1) reachable_inv [OF assms(1)] by (simp add: owned_def)
  obtain res' where "cancel_task fuel tid reason c = Some (res', c')"
    using assms(3) s by (auto simp: access_cancel_task_def)
  then have "confined (tr_authority r) c c'" by (rule conf.cancel_task_R [OF own])
  moreover have "tr_authority other \<noteq> tr_authority r" using assms(5) mine by auto
  ultimately show ?thesis using assms(4) confinedD by blast
qed

theorem access_cancel_isolated_witness:
  "\<exists>res c' r. access_cancel_task 5 (Some alice) ''p'' ''stop'' demo = Some (res, c') \<and>
     find_record c' ''b'' = Some r \<and> tr_status r = QUEUED"
proof -
  have p: "find_record demo ''p'' = Some (demo_record ''p'' alice None None False 0)"
    and b: "find_record demo ''b'' = Some (demo_record ''b'' bob None None False 3)" by (simp_all add: demo_records)
  obtain res c' where "cancel_task 5 ''p'' ''stop'' demo = Some (res, c')"
    using cancel_task_returns [OF reachable_inv [OF demo_reachable], of "''p''" 5 "''stop''"]
      task_rank_le_records [of demo "''p''"] by (auto simp: demo_records)
  then have c': "access_cancel_task 5 (Some alice) ''p'' ''stop'' demo = Some (Inr res, c')"
    using p by (simp add: access_cancel_task_def access_get_task_def require_current_execution_authority_def
        get_task_def snapshot_def can_access_execution_task_def)
  from access_cancel_isolated [OF demo_reachable _ c' b] c' show ?thesis
    by (simp add: alice_def bob_def LOCAL_USER_PRINCIPAL_ID_def)
qed

end
