(* ===== verification/Task_Runner.thy ===== *)
theory Task_Runner
  imports Task_Properties Complex_Main
begin

text \<open>
  The execution task runner (core/runtime/task_runner.py): bounded-concurrency lanes, keyed gates,
  timeouts and the background and inline shells around a task.

  Sections under \<open>self._gate_guard\<close> await only the coordinator, which never suspends (see
  \<open>Execution_Tasks\<close>), so each of them is one state transformer. Where the code really suspends (the
  caller's coroutine, a hook, a future, a lock) the model takes a state transformer as an argument:
  whatever else happens to the runner meanwhile is part of its effect.
\<close>

section \<open>Data\<close>

text \<open>A finite float, here a number of seconds: its value, its \<open>repr\<close> and \<open>f"{x:g}"\<close>.\<close>

record py_seconds =
  to_value :: rat
  to_repr :: string
  to_text :: string

record ExecutionTaskSpec =
  sp_kind :: string
  sp_scope :: string
  sp_source :: string
  sp_label :: string
  sp_authority :: ExecutionAuthority
  sp_metadata :: metadata
  sp_parent_task_id :: "string option"
  sp_detached_from_parent_lifecycle :: bool
  sp_timeout_seconds :: "py_seconds option"
  sp_timeout_reason :: "string option"

text \<open>A value a coroutine returns, with the heap its containers live in.\<close>

type_synonym pyobj = "pyheap \<times> pyval"

definition is_py_dict :: "pyobj \<Rightarrow> bool" where
  "is_py_dict v =
     (case v of (h, PyRef i) \<Rightarrow> i < length h \<and> (case h ! i of PyDict _ \<Rightarrow> True | _ \<Rightarrow> False)
      | _ \<Rightarrow> False)"

record ExecutionTaskRunOutcome =
  ro_value :: pyobj
  ro_status :: ExecutionTaskStatus
  ro_reason :: "string option"
  ro_error_type :: "string option"

datatype run_result = Plain_Result pyobj | Outcome_Result ExecutionTaskRunOutcome

record ExecutionGateWait =
  gw_key :: string
  gw_queue_position :: nat
  gw_holder_task_id :: "string option"

record ExecutionGatePolicy =
  gp_key :: string
  gp_queued_status :: string
  gp_queued_metadata :: metadata
  gp_queue_position_key :: "string option"
  gp_holder_task_id_key :: "string option"
  gp_clear_metadata :: metadata

record ExecutionConcurrencyWait =
  cw_key :: string
  cw_queue_position :: nat
  cw_active_task_ids :: "string list"

record ExecutionConcurrencyPolicy =
  cp_key :: string
  cp_limit :: int
  cp_queued_status :: string
  cp_queued_metadata :: metadata
  cp_clear_metadata :: metadata

text \<open>A future by its identity; which ones are cancelled or resolved is in the runner's state.\<close>

record ExecutionConcurrencyWaiter =
  wa_task_id :: string
  wa_future :: nat
  wa_queued_status :: string
  wa_queued_metadata :: metadata

text \<open>The set of holders is a list without repetitions.\<close>

record ExecutionConcurrencyLane =
  ln_limit :: int
  ln_holders :: "string list"
  ln_waiters :: "ExecutionConcurrencyWaiter list"

text \<open>An \<open>asyncio.Lock\<close>: whether it is locked, and who waits for it, first come first served.\<close>

record gate_lock =
  gl_locked :: bool
  gl_queue :: "string list"

record ExecutionTaskRunner =
  rn_coord :: TaskCoordinator
  rn_gate_locks :: "(string, gate_lock) dict"
  rn_gate_holders :: "(string, string) dict"
  rn_gate_waiters :: "(string, string list) dict"
  rn_lanes :: "(string, ExecutionConcurrencyLane) dict"
  rn_futures :: nat                    \<comment> \<open>futures created so far\<close>
  rn_cancelled_futures :: "nat list"
  rn_resolved_futures :: "nat list"
  rn_spawned :: "string list"          \<comment> \<open>tasks handed to the background spawner\<close>
  rn_log :: "log_entry list"

definition new_ExecutionTaskRunner :: "TaskCoordinator \<Rightarrow> ExecutionTaskRunner" where
  "new_ExecutionTaskRunner c =
     \<lparr>rn_coord = c, rn_gate_locks = [], rn_gate_holders = [], rn_gate_waiters = [], rn_lanes = [],
      rn_futures = 0, rn_cancelled_futures = [], rn_resolved_futures = [], rn_spawned = [], rn_log = []\<rparr>"

definition on_coord :: "(TaskCoordinator \<Rightarrow> TaskCoordinator) \<Rightarrow> 'x ExecutionTaskRunner_scheme \<Rightarrow> 'x ExecutionTaskRunner_scheme" where
  "on_coord f s = s\<lparr>rn_coord := f (rn_coord s)\<rparr>"

definition on_coord_opt ::
  "(TaskCoordinator \<Rightarrow> TaskCoordinator option) \<Rightarrow> 'x ExecutionTaskRunner_scheme \<Rightarrow> 'x ExecutionTaskRunner_scheme option" where
  "on_coord_opt f s = map_option (\<lambda>c. s\<lparr>rn_coord := c\<rparr>) (f (rn_coord s))"

section \<open>Bounded-concurrency lanes\<close>

definition concurrency_has_capacity :: "ExecutionConcurrencyLane \<Rightarrow> bool" where
  "concurrency_has_capacity lane \<longleftrightarrow> ln_limit lane \<le> 0 \<or> int (length (ln_holders lane)) < ln_limit lane"

text \<open>The loop of \<open>_admit_concurrency_waiters\<close>, with the futures it resolves.\<close>

function admit_concurrency_waiters ::
  "nat list \<Rightarrow> ExecutionConcurrencyLane \<Rightarrow> ExecutionConcurrencyLane \<times> nat list" where
  "admit_concurrency_waiters cancelled lane =
     (case ln_waiters lane of
        [] \<Rightarrow> (lane, [])
      | queued # rest \<Rightarrow>
          if concurrency_has_capacity lane
          then if wa_future queued \<in> set cancelled
               then admit_concurrency_waiters cancelled (lane\<lparr>ln_waiters := rest\<rparr>)
               else (let (lane', resolved) = admit_concurrency_waiters cancelled
                           (lane\<lparr>ln_waiters := rest, ln_holders := List.insert (wa_task_id queued) (ln_holders lane)\<rparr>)
                     in (lane', wa_future queued # resolved))
          else (lane, []))"
  by pat_completeness auto
termination by (relation "measure (\<lambda>(_, lane). length (ln_waiters lane))") auto

declare admit_concurrency_waiters.simps [simp del]

definition waiter_metadata :: "nat \<Rightarrow> string list \<Rightarrow> ExecutionConcurrencyWaiter \<Rightarrow> metadata" where
  "waiter_metadata position active_task_ids queued =
     dict_update (wa_queued_metadata queued)
       [(''queue_position'', JInt (int position)),
        (''active_task_ids'', JList (map JStr active_task_ids))]"

definition publish_concurrency_waiters :: "ExecutionConcurrencyLane \<Rightarrow> TaskCoordinator \<Rightarrow> TaskCoordinator" where
  "publish_concurrency_waiters lane c =
     fold (\<lambda>(position, queued). heartbeat (wa_task_id queued) (wa_queued_status queued)
             (Some (waiter_metadata position (sort (ln_holders lane)) queued)))
       (enumerate 1 (ln_waiters lane)) c"

text \<open>What an operation on one lane leaves: the lane, the resolved futures, its answer.\<close>

definition reserve_lane ::
  "nat list \<Rightarrow> nat \<Rightarrow> string \<Rightarrow> ExecutionConcurrencyPolicy \<Rightarrow> ExecutionConcurrencyLane option \<Rightarrow>
   (ExecutionConcurrencyWait \<times> nat) option \<times> ExecutionConcurrencyLane \<times> nat list" where
  "reserve_lane cancelled future tid policy old =
     (let (lane, resolved) =
            (case old of
               None \<Rightarrow> (\<lparr>ln_limit = cp_limit policy, ln_holders = [], ln_waiters = []\<rparr>, [])
             | Some lane \<Rightarrow> admit_concurrency_waiters cancelled (lane\<lparr>ln_limit := cp_limit policy\<rparr>))
      in if concurrency_has_capacity lane \<and> ln_waiters lane = []
         then (None, lane\<lparr>ln_holders := List.insert tid (ln_holders lane)\<rparr>, resolved)
         else (let lane' = lane\<lparr>ln_waiters := ln_waiters lane @
                     [\<lparr>wa_task_id = tid, wa_future = future, wa_queued_status = cp_queued_status policy,
                       wa_queued_metadata = cp_queued_metadata policy\<rparr>]\<rparr>
               in (Some (\<lparr>cw_key = cp_key policy, cw_queue_position = length (ln_waiters lane'),
                          cw_active_task_ids = sort (ln_holders lane')\<rparr>, future), lane', resolved)))"

definition reserve_concurrency_slot ::
  "string \<Rightarrow> ExecutionConcurrencyPolicy \<Rightarrow> 'x ExecutionTaskRunner_scheme \<Rightarrow>
   (ExecutionConcurrencyWait \<times> nat) option \<times> 'x ExecutionTaskRunner_scheme" where
  "reserve_concurrency_slot tid policy s =
     (let (wait, lane, resolved) = reserve_lane (rn_cancelled_futures s) (rn_futures s) tid policy
                                     (map_of (rn_lanes s) (cp_key policy))
      in (wait, s\<lparr>rn_lanes := AList.update (cp_key policy) lane (rn_lanes s),
                  rn_futures := (if wait = None then rn_futures s else Suc (rn_futures s)),
                  rn_resolved_futures := rn_resolved_futures s @ resolved,
                  rn_coord := publish_concurrency_waiters lane (rn_coord s)\<rparr>))"

definition cleanup_lane ::
  "nat list \<Rightarrow> string \<Rightarrow> ExecutionConcurrencyLane \<Rightarrow> ExecutionConcurrencyLane \<times> nat list" where
  "cleanup_lane cancelled tid lane =
     admit_concurrency_waiters cancelled
       (lane\<lparr>ln_waiters := filter (\<lambda>item. wa_task_id item \<noteq> tid) (ln_waiters lane),
             ln_holders := removeAll tid (ln_holders lane)\<rparr>)"

definition cleanup_concurrency_registration :: "string \<Rightarrow> string \<Rightarrow> 'x ExecutionTaskRunner_scheme \<Rightarrow> 'x ExecutionTaskRunner_scheme" where
  "cleanup_concurrency_registration tid key s =
     (case map_of (rn_lanes s) key of
        None \<Rightarrow> s
      | Some lane \<Rightarrow>
          (let (lane', resolved) = cleanup_lane (rn_cancelled_futures s) tid lane
           in s\<lparr>rn_lanes := (if ln_holders lane' = [] \<and> ln_waiters lane' = []
                             then AList.delete key (rn_lanes s) else AList.update key lane' (rn_lanes s)),
                rn_resolved_futures := rn_resolved_futures s @ resolved,
                rn_coord := publish_concurrency_waiters lane' (rn_coord s)\<rparr>))"

section \<open>Laws of the lanes\<close>

text \<open>
  A lane in order: its holders are distinct, and nobody waits while there is room.
\<close>

definition lane_ok :: "ExecutionConcurrencyLane \<Rightarrow> bool" where
  "lane_ok lane \<longleftrightarrow> distinct (ln_holders lane) \<and> (ln_waiters lane \<noteq> [] \<longrightarrow> \<not> concurrency_has_capacity lane)"

text \<open>
  Admission takes the waiters in order: those dropped are a prefix of the queue, of which exactly
  the ones not cancelled become holders with their future resolved.
\<close>

lemma admit_concurrency_waiters_spec:
  "distinct (ln_holders lane) \<Longrightarrow>
   (case admit_concurrency_waiters cancelled lane of (lane', resolved) \<Rightarrow>
      (\<exists>n. ln_waiters lane' = drop n (ln_waiters lane) \<and>
           (let admitted = filter (\<lambda>w. wa_future w \<notin> set cancelled) (take n (ln_waiters lane))
            in set (ln_holders lane') = set (ln_holders lane) \<union> wa_task_id ` set admitted \<and>
               resolved = map wa_future admitted)) \<and>
      ln_limit lane' = ln_limit lane \<and> lane_ok lane' \<and>
      (0 < ln_limit lane \<longrightarrow> int (length (ln_holders lane')) \<le> max (ln_limit lane) (int (length (ln_holders lane)))))"
proof (induction cancelled lane rule: admit_concurrency_waiters.induct)
  case (1 cancelled lane)
  show ?case
  proof (cases "ln_waiters lane")
    case Nil
    then show ?thesis
      using "1.prems" by (subst admit_concurrency_waiters.simps) (auto simp: lane_ok_def)
  next
    case (Cons queued rest)
    show ?thesis
    proof (cases "concurrency_has_capacity lane")
      case False
      then show ?thesis
        using "1.prems" Cons
        by (subst admit_concurrency_waiters.simps) (auto simp: lane_ok_def intro: exI [of _ 0])
    next
      case True
      show ?thesis
      proof (cases "wa_future queued \<in> set cancelled")
        case dead: True
        obtain lane' resolved where adm:
          "admit_concurrency_waiters cancelled (lane\<lparr>ln_waiters := rest\<rparr>) = (lane', resolved)" by force
        with "1.IH"(1) [OF Cons True dead] "1.prems" obtain n where n:
          "ln_waiters lane' = drop n rest"
          "set (ln_holders lane') = set (ln_holders lane) \<union>
             wa_task_id ` set (filter (\<lambda>w. wa_future w \<notin> set cancelled) (take n rest))"
          "resolved = map wa_future (filter (\<lambda>w. wa_future w \<notin> set cancelled) (take n rest))"
          "ln_limit lane' = ln_limit lane" "lane_ok lane'"
          "0 < ln_limit lane \<longrightarrow> int (length (ln_holders lane')) \<le> max (ln_limit lane) (int (length (ln_holders lane)))"
          by (auto simp: Let_def)
        have "admit_concurrency_waiters cancelled lane = (lane', resolved)"
          using adm Cons True dead by (subst admit_concurrency_waiters.simps) simp
        with n dead Cons show ?thesis by (auto simp: Let_def intro!: exI [of _ "Suc n"])
      next
        case live: False
        let ?lane1 = "lane\<lparr>ln_waiters := rest, ln_holders := List.insert (wa_task_id queued) (ln_holders lane)\<rparr>"
        obtain lane' resolved where adm: "admit_concurrency_waiters cancelled ?lane1 = (lane', resolved)" by force
        with "1.IH"(2) [OF Cons True live] "1.prems" obtain n where n:
          "ln_waiters lane' = drop n rest"
          "set (ln_holders lane') = insert (wa_task_id queued) (set (ln_holders lane)) \<union>
             wa_task_id ` set (filter (\<lambda>w. wa_future w \<notin> set cancelled) (take n rest))"
          "resolved = map wa_future (filter (\<lambda>w. wa_future w \<notin> set cancelled) (take n rest))"
          "ln_limit lane' = ln_limit lane" "lane_ok lane'"
          "0 < ln_limit lane \<longrightarrow> int (length (ln_holders lane')) \<le> max (ln_limit lane) (int (length (ln_holders ?lane1)))"
          by (auto simp: Let_def)
        have "0 < ln_limit lane \<longrightarrow> int (length (ln_holders ?lane1)) \<le> ln_limit lane"
          using True by (auto simp: concurrency_has_capacity_def List.insert_def)
        then have "0 < ln_limit lane \<longrightarrow>
            int (length (ln_holders lane')) \<le> max (ln_limit lane) (int (length (ln_holders lane)))"
          using n(6) by linarith
        moreover have "admit_concurrency_waiters cancelled lane = (lane', wa_future queued # resolved)"
          using adm Cons True live by (subst admit_concurrency_waiters.simps) simp
        ultimately show ?thesis using n(1-5) live Cons by (auto simp: Let_def intro!: exI [of _ "Suc n"])
      qed
    qed
  qed
qed

lemmas admit_spec = admit_concurrency_waiters_spec [unfolded Let_def]

text \<open>What happens to a queued task while others reserve and leave.\<close>

definition still_served :: "nat list \<Rightarrow> nat list \<Rightarrow> ExecutionConcurrencyWaiter \<Rightarrow> ExecutionConcurrencyLane \<Rightarrow> bool" where
  "still_served cancelled resolved w lane \<longleftrightarrow>
     wa_future w \<in> set cancelled \<or> w \<in> set (ln_waiters lane) \<or>
     (wa_task_id w \<in> set (ln_holders lane) \<and> wa_future w \<in> set resolved)"

lemma admit_serves:
  assumes "distinct (ln_holders lane)" and "admit_concurrency_waiters cancelled lane = (lane', resolved)"
    and "w \<in> set (ln_waiters lane)"
  shows "still_served cancelled resolved w lane'"
proof -
  from admit_spec [OF assms(1), of cancelled] assms(2) obtain n where n:
    "ln_waiters lane' = drop n (ln_waiters lane)"
    "set (ln_holders lane') = set (ln_holders lane) \<union>
       wa_task_id ` set (filter (\<lambda>w. wa_future w \<notin> set cancelled) (take n (ln_waiters lane)))"
    "resolved = map wa_future (filter (\<lambda>w. wa_future w \<notin> set cancelled) (take n (ln_waiters lane)))"
    by auto
  have "w \<in> set (take n (ln_waiters lane)) \<or> w \<in> set (drop n (ln_waiters lane))"
    using assms(3) by (metis append_take_drop_id set_append Un_iff)
  then show ?thesis using n by (auto simp: still_served_def)
qed

lemma reserve_lane_spec:
  assumes ok: "\<And>lane. old = Some lane \<Longrightarrow> lane_ok lane"
    and res: "reserve_lane cancelled future tid policy old = (wait, lane', resolved)"
  shows "lane_ok lane' \<and> ln_limit lane' = cp_limit policy \<and>
    (0 < cp_limit policy \<longrightarrow> int (length (ln_holders lane')) \<le>
       max (cp_limit policy) (int (case old of None \<Rightarrow> 0 | Some lane \<Rightarrow> length (ln_holders lane)))) \<and>
    (case wait of
       None \<Rightarrow> tid \<in> set (ln_holders lane')
     | Some (w, f) \<Rightarrow> f = future \<and> cw_queue_position w = length (ln_waiters lane') \<and>
         ln_waiters lane' \<noteq> [] \<and> wa_task_id (last (ln_waiters lane')) = tid \<and> wa_future (last (ln_waiters lane')) = future)"
proof -
  obtain lane r where l: "(case old of None \<Rightarrow> (\<lparr>ln_limit = cp_limit policy, ln_holders = [], ln_waiters = []\<rparr>, [])
      | Some lane \<Rightarrow> admit_concurrency_waiters cancelled (lane\<lparr>ln_limit := cp_limit policy\<rparr>)) = (lane, r)" by force
  have base: "lane_ok lane \<and> ln_limit lane = cp_limit policy \<and>
      (0 < cp_limit policy \<longrightarrow> int (length (ln_holders lane)) \<le>
         max (cp_limit policy) (int (case old of None \<Rightarrow> 0 | Some lane \<Rightarrow> length (ln_holders lane))))"
  proof (cases old)
    case None
    then show ?thesis using l by (auto simp: lane_ok_def)
  next
    case (Some lane0)
    then have "distinct (ln_holders (lane0\<lparr>ln_limit := cp_limit policy\<rparr>))" using ok by (simp add: lane_ok_def)
    from admit_spec [OF this, of cancelled] l Some show ?thesis by auto
  qed
  have wait: "(wait, lane', resolved) = (if concurrency_has_capacity lane \<and> ln_waiters lane = []
      then (None, lane\<lparr>ln_holders := List.insert tid (ln_holders lane)\<rparr>, r)
      else (let lane' = lane\<lparr>ln_waiters := ln_waiters lane @
              [\<lparr>wa_task_id = tid, wa_future = future, wa_queued_status = cp_queued_status policy,
                wa_queued_metadata = cp_queued_metadata policy\<rparr>]\<rparr>
            in (Some (\<lparr>cw_key = cp_key policy, cw_queue_position = length (ln_waiters lane'),
                       cw_active_task_ids = sort (ln_holders lane')\<rparr>, future), lane', r)))"
    using res l by (simp add: reserve_lane_def)
  show ?thesis
  proof (cases "concurrency_has_capacity lane \<and> ln_waiters lane = []")
    case True
    then have "0 < cp_limit policy \<longrightarrow> int (length (List.insert tid (ln_holders lane))) \<le> cp_limit policy"
      using base by (auto simp: concurrency_has_capacity_def List.insert_def)
    with True wait base show ?thesis by (auto simp: lane_ok_def)
  next
    case False
    with wait base show ?thesis by (auto simp: lane_ok_def Let_def concurrency_has_capacity_def)
  qed
qed

lemma reserve_lane_serves:
  assumes "lane_ok lane" and "reserve_lane cancelled future tid policy (Some lane) = (wait, lane', resolved)"
    and "w \<in> set (ln_waiters lane)"
  shows "still_served cancelled resolved w lane'"
proof -
  obtain lane1 r where adm: "admit_concurrency_waiters cancelled (lane\<lparr>ln_limit := cp_limit policy\<rparr>) = (lane1, r)"
    by force
  have "still_served cancelled r w lane1"
    using assms(1,3) by (intro admit_serves [OF _ adm]) (simp_all add: lane_ok_def)
  then show ?thesis
    using assms(2) adm by (auto simp: reserve_lane_def still_served_def Let_def split: if_splits)
qed

lemma cleanup_lane_spec:
  assumes "lane_ok lane" and "cleanup_lane cancelled tid lane = (lane', resolved)"
  shows "lane_ok lane' \<and> ln_limit lane' = ln_limit lane \<and>
    (0 < ln_limit lane \<longrightarrow> int (length (ln_holders lane')) \<le> max (ln_limit lane) (int (length (ln_holders lane)))) \<and>
    (\<forall>w \<in> set (ln_waiters lane). wa_task_id w \<noteq> tid \<longrightarrow> still_served cancelled resolved w lane')"
proof -
  let ?lane = "lane\<lparr>ln_waiters := filter (\<lambda>item. wa_task_id item \<noteq> tid) (ln_waiters lane),
                    ln_holders := removeAll tid (ln_holders lane)\<rparr>"
  have dist: "distinct (ln_holders ?lane)" using assms(1) by (simp add: lane_ok_def distinct_removeAll)
  have adm: "admit_concurrency_waiters cancelled ?lane = (lane', resolved)" using assms(2) by (simp add: cleanup_lane_def)
  from admit_spec [OF dist, of cancelled] adm have
    "lane_ok lane'" "ln_limit lane' = ln_limit lane"
    "0 < ln_limit lane \<longrightarrow> int (length (ln_holders lane')) \<le> max (ln_limit lane) (int (length (removeAll tid (ln_holders lane))))"
    by auto
  moreover have "length (removeAll tid (ln_holders lane)) \<le> length (ln_holders lane)"
    by (simp add: removeAll_filter_not_eq)
  moreover have "still_served cancelled resolved w lane'"
    if "w \<in> set (ln_waiters lane)" "wa_task_id w \<noteq> tid" for w
    using that by (intro admit_serves [OF dist adm]) simp
  ultimately show ?thesis
    by (intro conjI impI ballI; (linarith | blast)?)
qed

section \<open>Runs of the lanes\<close>

text \<open>
  The steps that touch lanes: a task reserves under a policy, whose limit is one of those that may be configured for the
  key, a task leaves, the future a task waits for is cancelled with it, and everything else the program does leaves the
  lanes alone. Every reservation brings its own limit, so that the limit of a lane may change, also to and from 0 (none).
\<close>

inductive lane_step :: "(string \<Rightarrow> int set) \<Rightarrow> 'x ExecutionTaskRunner_scheme \<Rightarrow> 'x ExecutionTaskRunner_scheme \<Rightarrow> bool"
  for limits :: "string \<Rightarrow> int set" where
  lane_reserve: "cp_limit policy \<in> limits (cp_key policy) \<Longrightarrow>
    lane_step limits s (snd (reserve_concurrency_slot tid policy s))"
| lane_cleanup: "lane_step limits s (cleanup_concurrency_registration tid key s)"
| lane_cancel_future: "lane_step limits s (s\<lparr>rn_cancelled_futures := f # rn_cancelled_futures s\<rparr>)"
| lane_other: "rn_lanes s' = rn_lanes s \<Longrightarrow> lane_step limits s s'"

inductive_simps lane_step_simps: "lane_step limits s s'"

definition lane_held :: "string \<Rightarrow> 'x ExecutionTaskRunner_scheme \<Rightarrow> int" where
  "lane_held key s = (case map_of (rn_lanes s) key of None \<Rightarrow> 0 | Some lane \<Rightarrow> int (length (ln_holders lane)))"

text \<open>A lane that a step leaves behind: in order, and over its limit only as far as it was before.\<close>

definition lane_kept :: "(string \<Rightarrow> int set) \<Rightarrow> string \<Rightarrow> int \<Rightarrow> ExecutionConcurrencyLane \<Rightarrow> bool" where
  "lane_kept limits key before lane \<longleftrightarrow> lane_ok lane \<and> ln_limit lane \<in> limits key \<and>
     (0 < ln_limit lane \<longrightarrow> int (length (ln_holders lane)) \<le> max (ln_limit lane) before)"

definition lanes_ok :: "(string \<Rightarrow> int set) \<Rightarrow> 'x ExecutionTaskRunner_scheme \<Rightarrow> bool" where
  "lanes_ok limits s \<longleftrightarrow>
     (\<forall>key lane. map_of (rn_lanes s) key = Some lane \<longrightarrow> lane_ok lane \<and> ln_limit lane \<in> limits key)"

lemma new_lanes_ok: "lanes_ok limits (new_ExecutionTaskRunner c)"
  by (simp add: lanes_ok_def new_ExecutionTaskRunner_def)

lemma lane_kept_unchanged:
  "lanes_ok limits s \<Longrightarrow> map_of (rn_lanes s) key = Some lane \<Longrightarrow> lane_kept limits key (lane_held key s) lane"
  by (simp add: lanes_ok_def lane_kept_def lane_held_def)

lemma lane_kept_update:
  assumes "lanes_ok limits s" and "lane_kept limits k (lane_held k s) lane"
    and "rn_lanes s' = AList.update k lane (rn_lanes s) \<or> rn_lanes s' = AList.delete k (rn_lanes s)"
    and "map_of (rn_lanes s') key = Some lane'"
  shows "lane_kept limits key (lane_held key s) lane'"
  using assms lane_kept_unchanged [OF assms(1), of key] by (auto simp: delete_conv' update_conv' split: if_splits)

lemma lane_kept_reserve:
  assumes ok: "lanes_ok limits s" and pol: "cp_limit policy \<in> limits (cp_key policy)"
    and "map_of (rn_lanes (snd (reserve_concurrency_slot tid policy s))) key = Some lane'"
  shows "lane_kept limits key (lane_held key s) lane'"
proof -
  let ?old = "map_of (rn_lanes s) (cp_key policy)"
  obtain wait lane resolved where r:
    "reserve_lane (rn_cancelled_futures s) (rn_futures s) tid policy ?old = (wait, lane, resolved)"
    by (metis prod_cases3)
  have "lane_ok lane0" if "?old = Some lane0" for lane0 using ok that by (auto simp: lanes_ok_def)
  from reserve_lane_spec [OF this r]
  have "lane_kept limits (cp_key policy) (lane_held (cp_key policy) s) lane"
    using pol by (cases ?old) (auto simp: lane_kept_def lane_held_def)
  then show ?thesis
    using r assms(3) by (intro lane_kept_update [OF ok _ _ assms(3)]) (auto simp: reserve_concurrency_slot_def)
qed

lemma lane_kept_cleanup:
  assumes ok: "lanes_ok limits s"
    and "map_of (rn_lanes (cleanup_concurrency_registration tid k s)) key = Some lane'"
  shows "lane_kept limits key (lane_held key s) lane'"
proof (cases "map_of (rn_lanes s) k")
  case None
  then show ?thesis using assms lane_kept_unchanged by (simp add: cleanup_concurrency_registration_def)
next
  case (Some lane)
  obtain lane1 resolved where r: "cleanup_lane (rn_cancelled_futures s) tid lane = (lane1, resolved)" by force
  have "lane_ok lane" "ln_limit lane \<in> limits k" using ok Some by (auto simp: lanes_ok_def)
  with cleanup_lane_spec [OF this(1) r] have "lane_kept limits k (lane_held k s) lane1"
    using Some by (simp add: lane_kept_def lane_held_def)
  then show ?thesis
    using Some r by (intro lane_kept_update [OF ok _ _ assms(2)]) (auto simp: cleanup_concurrency_registration_def)
qed

lemma lane_step_kept:
  assumes "lane_step limits s s'" and "lanes_ok limits s" and "map_of (rn_lanes s') key = Some lane'"
  shows "lane_kept limits key (lane_held key s) lane'"
  using assms(1)
proof cases
  case (lane_reserve policy tid)
  then show ?thesis using lane_kept_reserve assms(2,3) by blast
next
  case (lane_cleanup tid k)
  then show ?thesis using lane_kept_cleanup assms(2,3) by blast
qed (use assms(2,3) lane_kept_unchanged in auto)

lemma lanes_ok_run: "(lane_step limits)\<^sup>*\<^sup>* s s' \<Longrightarrow> lanes_ok limits s \<Longrightarrow> lanes_ok limits s'"
proof (induction rule: rtranclp_induct)
  case (step s1 s2)
  then show ?case using lane_step_kept [OF step.hyps(2)] unfolding lanes_ok_def lane_kept_def by blast
qed

lemma lane_held_bounded:
  assumes "(lane_step limits)\<^sup>*\<^sup>* (new_ExecutionTaskRunner c) s" and "\<forall>l \<in> limits key. 0 < l \<and> l \<le> bound" and "0 \<le> bound"
  shows "lane_held key s \<le> bound"
  using assms(1)
proof (induction rule: rtranclp_induct)
  case base
  show ?case using assms(3) by (simp add: lane_held_def new_ExecutionTaskRunner_def)
next
  case (step s1 s2)
  show ?case
  proof (cases "map_of (rn_lanes s2) key")
    case (Some lane)
    with lane_step_kept [OF step.hyps(2) lanes_ok_run [OF step.hyps(1) new_lanes_ok] Some] step.IH assms(2)
    show ?thesis by (fastforce simp: lane_kept_def lane_held_def)
  qed (simp add: lane_held_def assms(3))
qed

text \<open>
  C27. The lanes are bounded and work-conserving, also while limits change from one reservation to the next: a task waits in a
  lane only while the lane has a limit and is full; a step never takes a lane with a limit over that limit, so that a lane has
  more holders than its limit only as far as it had them before the limit was lowered or set; and where every limit ever
  configured for the key is positive and at most some bound, the lane never has more holders than the bound.
\<close>

theorem concurrency_lanes_bounded:
  assumes "(lane_step limits)\<^sup>*\<^sup>* (new_ExecutionTaskRunner c) s" and "map_of (rn_lanes s) key = Some lane"
  shows "(ln_waiters lane \<noteq> [] \<longrightarrow> 0 < ln_limit lane \<and> ln_limit lane \<le> int (length (ln_holders lane))) \<and>
         (\<forall>s' lane'. lane_step limits s s' \<longrightarrow> map_of (rn_lanes s') key = Some lane' \<longrightarrow> 0 < ln_limit lane' \<longrightarrow>
            int (length (ln_holders lane')) \<le> max (ln_limit lane') (int (length (ln_holders lane)))) \<and>
         (\<forall>bound. (\<forall>l \<in> limits key. 0 < l \<and> l \<le> bound) \<longrightarrow> int (length (ln_holders lane)) \<le> bound)"
proof (intro conjI allI impI)
  have ok: "lanes_ok limits s" using lanes_ok_run [OF assms(1) new_lanes_ok] .
  then have lane: "lane_ok lane" "ln_limit lane \<in> limits key" using assms(2) by (auto simp: lanes_ok_def)
  then show "0 < ln_limit lane" "ln_limit lane \<le> int (length (ln_holders lane))" if "ln_waiters lane \<noteq> []"
    using that by (auto simp: lane_ok_def concurrency_has_capacity_def)
  show "int (length (ln_holders lane')) \<le> max (ln_limit lane') (int (length (ln_holders lane)))"
    if "lane_step limits s s'" "map_of (rn_lanes s') key = Some lane'" "0 < ln_limit lane'" for s' lane'
    using lane_step_kept [OF that(1) ok that(2)] that(3) assms(2) by (simp add: lane_kept_def lane_held_def)
  show "int (length (ln_holders lane)) \<le> bound" if "\<forall>l \<in> limits key. 0 < l \<and> l \<le> bound" for bound
    using lane_held_bounded [OF assms(1) that] that lane(2) assms(2) by (fastforce simp: lane_held_def)
qed

definition demo_policy :: ExecutionConcurrencyPolicy where
  "demo_policy = \<lparr>cp_key = ''delegate'', cp_limit = 1, cp_queued_status = ''queued'', cp_queued_metadata = [],
     cp_clear_metadata = []\<rparr>"

definition demo_runner :: ExecutionTaskRunner where
  "demo_runner = snd (reserve_concurrency_slot ''t3'' demo_policy (snd (reserve_concurrency_slot ''t2'' demo_policy
     (snd (reserve_concurrency_slot ''t1'' demo_policy (new_ExecutionTaskRunner demo0))))))"

lemma demo_runner_run: "(lane_step (\<lambda>_. {1}))\<^sup>*\<^sup>* (new_ExecutionTaskRunner demo0) demo_runner"
proof -
  have "lane_step (\<lambda>_. {1}) s (snd (reserve_concurrency_slot tid demo_policy s))" for tid s
    by (rule lane_reserve) (simp add: demo_policy_def)
  note into = rtranclp.rtrancl_into_rtrancl [where r = "lane_step (\<lambda>_. {1})", OF _ this]
  show ?thesis unfolding demo_runner_def by (intro into rtranclp.rtrancl_refl)
qed

lemma demo_runner_lane:
  "\<exists>lane. map_of (rn_lanes demo_runner) ''delegate'' = Some lane \<and> ln_holders lane = [''t1''] \<and>
     map wa_task_id (ln_waiters lane) = [''t2'', ''t3'']"
  by (simp add: demo_runner_def reserve_concurrency_slot_def reserve_lane_def new_ExecutionTaskRunner_def
      demo_policy_def concurrency_has_capacity_def admit_concurrency_waiters.simps Let_def)

theorem concurrency_lanes_bounded_witness:
  "\<exists>lane. map_of (rn_lanes demo_runner) ''delegate'' = Some lane \<and> ln_waiters lane \<noteq> [] \<and> length (ln_holders lane) = 1"
proof -
  obtain lane where lane: "map_of (rn_lanes demo_runner) ''delegate'' = Some lane" "ln_waiters lane \<noteq> []"
    using demo_runner_lane by fastforce
  note claim = concurrency_lanes_bounded [OF demo_runner_run lane(1)]
  have "0 < ln_limit lane" "ln_limit lane \<le> int (length (ln_holders lane))" using claim lane(2) by simp_all
  moreover have "int (length (ln_holders lane)) \<le> 1" using claim [THEN conjunct2, THEN conjunct2, THEN spec, of 1] by simp
  ultimately have "length (ln_holders lane) = 1" by linarith
  with lane show ?thesis by blast
qed

lemma cleanup_registration_fifo:
  assumes "lanes_ok limits s" and "map_of (rn_lanes s) key = Some lane"
  shows "\<exists>n lane'. let queue = filter (\<lambda>w. wa_task_id w \<noteq> tid) (ln_waiters lane);
             admitted = filter (\<lambda>w. wa_future w \<notin> set (rn_cancelled_futures s)) (take n queue);
             s' = cleanup_concurrency_registration tid key s
         in ln_waiters lane' = drop n queue \<and>
            set (ln_holders lane') = (set (ln_holders lane) - {tid}) \<union> wa_task_id ` set admitted \<and>
            rn_resolved_futures s' = rn_resolved_futures s @ map wa_future admitted \<and>
            (ln_waiters lane' \<noteq> [] \<longrightarrow> \<not> concurrency_has_capacity lane') \<and>
            map_of (rn_lanes s') key = (if ln_holders lane' = [] \<and> ln_waiters lane' = [] then None else Some lane')"
proof -
  let ?lane = "lane\<lparr>ln_waiters := filter (\<lambda>item. wa_task_id item \<noteq> tid) (ln_waiters lane),
                    ln_holders := removeAll tid (ln_holders lane)\<rparr>"
  obtain lane' resolved where adm: "admit_concurrency_waiters (rn_cancelled_futures s) ?lane = (lane', resolved)" by force
  have "distinct (ln_holders ?lane)"
    using assms by (simp add: lanes_ok_def lane_ok_def distinct_removeAll)
  from admit_spec [OF this, of "rn_cancelled_futures s"] adm obtain n where n:
    "ln_waiters lane' = drop n (ln_waiters ?lane)"
    "set (ln_holders lane') = set (ln_holders ?lane) \<union>
       wa_task_id ` set (filter (\<lambda>w. wa_future w \<notin> set (rn_cancelled_futures s)) (take n (ln_waiters ?lane)))"
    "resolved = map wa_future (filter (\<lambda>w. wa_future w \<notin> set (rn_cancelled_futures s)) (take n (ln_waiters ?lane)))"
    and full: "ln_waiters lane' \<noteq> [] \<longrightarrow> \<not> concurrency_has_capacity lane'"
    by (auto simp: lane_ok_def)
  have "cleanup_lane (rn_cancelled_futures s) tid lane = (lane', resolved)" using adm by (simp add: cleanup_lane_def)
  then have s': "cleanup_concurrency_registration tid key s =
      s\<lparr>rn_lanes := (if ln_holders lane' = [] \<and> ln_waiters lane' = []
          then AList.delete key (rn_lanes s) else AList.update key lane' (rn_lanes s)),
        rn_resolved_futures := rn_resolved_futures s @ resolved,
        rn_coord := publish_concurrency_waiters lane' (rn_coord s)\<rparr>"
    using assms(2) by (simp add: cleanup_concurrency_registration_def)
  show ?thesis
    unfolding s' Let_def using n full by (intro exI [of _ n] exI [of _ lane']) (simp add: delete_conv')
qed

text \<open>
  First come, first served, and nobody is lost: when a task leaves its lane, the waiters that are
  admitted are exactly the live ones of a prefix of the queue, in order, each as a holder with its
  future resolved; every other live waiter is still queued.
\<close>

theorem concurrency_admission_fifo:
  assumes "lanes_ok limits s" and "map_of (rn_lanes s) key = Some lane"
  shows "\<exists>n lane'. let queue = filter (\<lambda>w. wa_task_id w \<noteq> tid) (ln_waiters lane);
             admitted = filter (\<lambda>w. wa_future w \<notin> set (rn_cancelled_futures s)) (take n queue);
             s' = cleanup_concurrency_registration tid key s
         in ln_waiters lane' = drop n queue \<and>
            set (ln_holders lane') = (set (ln_holders lane) - {tid}) \<union> wa_task_id ` set admitted \<and>
            rn_resolved_futures s' = rn_resolved_futures s @ map wa_future admitted \<and>
            (ln_waiters lane' \<noteq> [] \<longrightarrow> \<not> concurrency_has_capacity lane') \<and>
            map_of (rn_lanes s') key = (if ln_holders lane' = [] \<and> ln_waiters lane' = [] then None else Some lane')"
  using assms by (rule cleanup_registration_fifo)

theorem concurrency_admission_fifo_witness:
  "\<exists>n. rn_resolved_futures (cleanup_concurrency_registration ''t1'' ''delegate'' demo_runner) =
     rn_resolved_futures demo_runner @ take n [0, 1]"
proof -
  have ok: "lanes_ok (\<lambda>_. {1}) demo_runner"
    by (rule lanes_ok_run [OF demo_runner_run new_lanes_ok])
  obtain lane where lane: "map_of (rn_lanes demo_runner) ''delegate'' = Some lane"
    "map wa_task_id (ln_waiters lane) = [''t2'', ''t3'']" "map wa_future (ln_waiters lane) = [0, 1]"
    and live: "rn_cancelled_futures demo_runner = []"
    by (simp add: demo_runner_def reserve_concurrency_slot_def reserve_lane_def new_ExecutionTaskRunner_def
      demo_policy_def concurrency_has_capacity_def admit_concurrency_waiters.simps Let_def)
  have "filter (\<lambda>w. wa_task_id w \<noteq> ''t1'') (ln_waiters lane) = ln_waiters lane"
    using lane(2) by (auto simp: filter_id_conv)
  with concurrency_admission_fifo [OF ok lane(1), of "''t1''"] live obtain n where
    "rn_resolved_futures (cleanup_concurrency_registration ''t1'' ''delegate'' demo_runner) =
     rn_resolved_futures demo_runner @ map wa_future (take n (ln_waiters lane))"
    by (auto simp: Let_def simp del: take_Cons')
  moreover have "map wa_future (take n (ln_waiters lane)) = take n [0, 1]" by (simp only: take_map [symmetric] lane(3))
  ultimately show ?thesis by metis
qed

text \<open>Without any assumption on the lane: admission invents no holders and no waiters.\<close>

lemma admit_subset:
  "admit_concurrency_waiters cancelled lane = (lane', resolved) \<Longrightarrow>
   set (ln_waiters lane') \<subseteq> set (ln_waiters lane) \<and>
   set (ln_holders lane') \<subseteq> set (ln_holders lane) \<union> wa_task_id ` set (ln_waiters lane)"
proof (induction cancelled lane arbitrary: lane' resolved rule: admit_concurrency_waiters.induct)
  case (1 cancelled lane)
  show ?case
  proof (cases "ln_waiters lane = [] \<or> \<not> concurrency_has_capacity lane")
    case True
    then show ?thesis
      using "1.prems" by (subst (asm) admit_concurrency_waiters.simps) (auto split: list.splits)
  next
    case False
    then obtain queued rest where q: "ln_waiters lane = queued # rest" and cap: "concurrency_has_capacity lane"
      by (cases "ln_waiters lane") auto
    show ?thesis
    proof (cases "wa_future queued \<in> set cancelled")
      case True
      with "1.prems" q cap have "admit_concurrency_waiters cancelled (lane\<lparr>ln_waiters := rest\<rparr>) = (lane', resolved)"
        by (subst (asm) admit_concurrency_waiters.simps) simp
      from "1.IH"(1) [OF q cap True this] q show ?thesis by auto
    next
      case False
      with "1.prems" q cap obtain resolved' where "admit_concurrency_waiters cancelled
          (lane\<lparr>ln_waiters := rest, ln_holders := List.insert (wa_task_id queued) (ln_holders lane)\<rparr>) = (lane', resolved')"
        by (subst (asm) admit_concurrency_waiters.simps) (auto split: prod.splits)
      from "1.IH"(2) [OF q cap False this] q show ?thesis by auto
    qed
  qed
qed

lemma cleanup_removes:
  assumes "map_of (rn_lanes (cleanup_concurrency_registration tid key s)) key = Some lane"
  shows "tid \<notin> set (ln_holders lane) \<and> tid \<notin> wa_task_id ` set (ln_waiters lane)"
proof (cases "map_of (rn_lanes s) key")
  case None
  with assms show ?thesis by (simp add: cleanup_concurrency_registration_def)
next
  case (Some lane0)
  let ?lane = "lane0\<lparr>ln_waiters := filter (\<lambda>item. wa_task_id item \<noteq> tid) (ln_waiters lane0),
                     ln_holders := removeAll tid (ln_holders lane0)\<rparr>"
  obtain lane' resolved where adm: "admit_concurrency_waiters (rn_cancelled_futures s) ?lane = (lane', resolved)" by force
  with assms Some have "lane = lane'"
    by (auto simp: cleanup_concurrency_registration_def cleanup_lane_def delete_conv' split: if_splits)
  moreover have "set (ln_waiters lane') \<subseteq> set (ln_waiters ?lane)"
    "set (ln_holders lane') \<subseteq> set (ln_holders ?lane) \<union> wa_task_id ` set (ln_waiters ?lane)"
    using admit_subset [OF adm] by auto
  ultimately show ?thesis by auto
qed

end
