(* ===== verification/Runner_Shell.thy ===== *)
theory Runner_Shell
  imports Task_Runner
begin

text \<open>
  The rest of core/runtime/task_runner.py: hooks, timeouts, publication of a run's outcome, the
  inline and background shells, the concurrency shell and the keyed gates.
\<close>

section \<open>Hooks\<close>

text \<open>
  A hook is the caller's coroutine: it may do anything to the runner and returns, is cancelled or
  raises.
\<close>

type_synonym ('a, 'x) effect = "'x ExecutionTaskRunner_scheme \<Rightarrow> 'a body_outcome \<times> 'x ExecutionTaskRunner_scheme"

record ('r, 'x) ExecutionTaskHooks =
  hk_on_cancelled :: "(string \<Rightarrow> (unit, 'x) effect) option"
  hk_on_failed :: "(string \<Rightarrow> exn_info \<Rightarrow> (unit, 'x) effect) option"
  hk_on_timed_out :: "(string \<Rightarrow> py_seconds \<Rightarrow> string \<Rightarrow> ('r, 'x) effect) option"

text \<open>
  The runner handles results of any type. What it looks at is which one is \<open>None\<close>, the answer when
  there is no hook, and which ones are dicts.
\<close>

record 'r result_view =
  rv_none :: 'r
  rv_dict :: "'r \<Rightarrow> pyobj option"

definition cancel_hook_failed_entry :: "string \<Rightarrow> exn_info \<Rightarrow> log_entry" where
  "cancel_hook_failed_entry tid exc =
     \<lparr>le_level = Log_Error, le_validation_only = False, le_event = ''execution_task_cancel_hook_failed'',
      le_data = [(''event'', JStr ''execution_task_cancel_hook_failed''), (''status'', JStr ''failed''),
                 (''task_id'', JStr tid), (''error_type'', JStr (exn_type exc)), (''error'', JStr (exn_str exc))]\<rparr>"

text \<open>An exception of the cancellation hook is logged; a cancellation of it goes through.\<close>

definition call_cancelled_hook :: "('r, 'x) ExecutionTaskHooks option \<Rightarrow> string \<Rightarrow> (unit, 'x) effect" where
  "call_cancelled_hook hooks tid s =
     (case Option.bind hooks hk_on_cancelled of
        None \<Rightarrow> (Body_Returns (), s)
      | Some hook \<Rightarrow>
          (case hook tid s of
             (Body_Raises exc, s1) \<Rightarrow>
               (Body_Returns (), s1\<lparr>rn_log := rn_log s1 @ [cancel_hook_failed_entry tid exc]\<rparr>)
           | (out, s1) \<Rightarrow> (out, s1)))"

definition call_failed_hook :: "('r, 'x) ExecutionTaskHooks option \<Rightarrow> string \<Rightarrow> exn_info \<Rightarrow> (unit, 'x) effect" where
  "call_failed_hook hooks tid exc s =
     (case Option.bind hooks hk_on_failed of
        None \<Rightarrow> (Body_Returns (), s) | Some hook \<Rightarrow> hook tid exc s)"

definition call_timed_out_hook ::
  "'r result_view \<Rightarrow> ('r, 'x) ExecutionTaskHooks option \<Rightarrow> string \<Rightarrow> py_seconds \<Rightarrow> string \<Rightarrow> ('r, 'x) effect" where
  "call_timed_out_hook view hooks tid timeout reason s =
     (case Option.bind hooks hk_on_timed_out of
        None \<Rightarrow> (Body_Returns (rv_none view), s) | Some hook \<Rightarrow> hook tid timeout reason s)"

section \<open>Timeouts and outcomes\<close>

text \<open>\<open>record_result\<close> on a dict; it raises where \<open>len\<close> of the stored references does.\<close>

definition record_dict_result :: "string \<Rightarrow> pyobj option \<Rightarrow> 'x ExecutionTaskRunner_scheme \<Rightarrow> (unit result \<times> 'x ExecutionTaskRunner_scheme) option" where
  "record_dict_result tid v s =
     (case v of
        None \<Rightarrow> Some (Inr (), s)
      | Some d \<Rightarrow> map_option (\<lambda>(res, c). (res, s\<lparr>rn_coord := c\<rparr>)) (record_result tid (fst d) (snd d) (rn_coord s)))"

text \<open>
  \<open>expired\<close> tells whether the deadline has expired when the block raises. A coroutine the deadline
  interrupts ends in \<open>TimeoutError\<close>.
\<close>

definition run_with_timeout ::
  "'r result_view \<Rightarrow> nat \<Rightarrow> ('x ExecutionTaskRunner_scheme \<Rightarrow> bool) \<Rightarrow> string \<Rightarrow> ExecutionTaskSpec \<Rightarrow> ('r, 'x) ExecutionTaskHooks option \<Rightarrow>
   ('r, 'x) effect \<Rightarrow> 'x ExecutionTaskRunner_scheme \<Rightarrow> ('r body_outcome \<times> 'x ExecutionTaskRunner_scheme) option" where
  "run_with_timeout view fuel expired tid spec hooks run s =
     (case sp_timeout_seconds spec of
        None \<Rightarrow> Some (run s)
      | Some timeout \<Rightarrow>
          if to_value timeout \<le> 0 then Some (run s)
          else (case run s of
             (Body_Raises exc, s1) \<Rightarrow>
               if exn_type exc \<noteq> ''TimeoutError'' \<or> \<not> expired s1 then Some (Body_Raises exc, s1)
               else (let reason = or_else (sp_timeout_reason spec) (''execution_task_timeout:'' @ to_text timeout @ ''s'')
                     in case call_timed_out_hook view hooks tid timeout reason s1 of
                          (Body_Returns v, s2) \<Rightarrow>
                            Option.bind (record_dict_result tid (rv_dict view v) s2) (\<lambda>(res, s3).
                              case res of
                                Inl e \<Rightarrow> Some (Body_Raises (exn_info_of e), s3)
                              | Inr _ \<Rightarrow> map_option (Pair (Body_Returns v))
                                          (on_coord_opt (mark_timed_out fuel tid (Some reason)) s3))
                        | (Body_Cancelled, s2) \<Rightarrow> Some (Body_Cancelled, s2)
                        | (Body_Raises e, s2) \<Rightarrow> Some (Body_Raises e, s2))
           | (out, s1) \<Rightarrow> Some (out, s1)))"

text \<open>In the shells a result is a plain object or an \<open>ExecutionTaskRunOutcome\<close>.\<close>

definition py_none :: pyobj where
  "py_none = ([], PyNone)"

definition dict_view :: "pyobj \<Rightarrow> pyobj option" where
  "dict_view v = (if is_py_dict v then Some v else None)"

definition shell_view :: "run_result result_view" where
  "shell_view = \<lparr>rv_none = Plain_Result py_none,
     rv_dict = (\<lambda>r. case r of Plain_Result v \<Rightarrow> dict_view v | Outcome_Result _ \<Rightarrow> None)\<rparr>"

definition run_outcome :: "run_result \<Rightarrow> ExecutionTaskRunOutcome" where
  "run_outcome result =
     (case result of
        Outcome_Result outcome \<Rightarrow> outcome
      | Plain_Result v \<Rightarrow> \<lparr>ro_value = v, ro_status = COMPLETED, ro_reason = None, ro_error_type = None\<rparr>)"

definition publish_run_outcome ::
  "nat \<Rightarrow> string \<Rightarrow> run_result \<Rightarrow> 'x ExecutionTaskRunner_scheme \<Rightarrow> (pyobj body_outcome \<times> 'x ExecutionTaskRunner_scheme) option" where
  "publish_run_outcome fuel tid result s =
     (let outcome = run_outcome result
      in Option.bind (record_dict_result tid (dict_view (ro_value outcome)) s) (\<lambda>(res, s1).
           case res of
             Inl e \<Rightarrow> Some (Body_Raises (exn_info_of e), s1)
           | Inr _ \<Rightarrow>
               map_option (Pair (Body_Returns (ro_value outcome)))
                 (case ro_status outcome of
                    FAILED \<Rightarrow> on_coord_opt (mark_failed fuel tid (ro_reason outcome) (ro_error_type outcome)) s1
                  | CANCELLED \<Rightarrow> on_coord_opt (mark_cancelled fuel tid (ro_reason outcome)) s1
                  | TIMED_OUT \<Rightarrow> on_coord_opt (mark_timed_out fuel tid (ro_reason outcome)) s1
                  | SKIPPED \<Rightarrow> on_coord_opt (mark_skipped fuel tid (ro_reason outcome)) s1
                  | _ \<Rightarrow> Some s1)))"

text \<open>The body of both shells: run under the timeout, then publish.\<close>

definition run_and_publish ::
  "nat \<Rightarrow> ('x ExecutionTaskRunner_scheme \<Rightarrow> bool) \<Rightarrow> string \<Rightarrow> ExecutionTaskSpec \<Rightarrow> (run_result, 'x) ExecutionTaskHooks option \<Rightarrow>
   (run_result, 'x) effect \<Rightarrow> 'x ExecutionTaskRunner_scheme \<Rightarrow> (pyobj body_outcome \<times> 'x ExecutionTaskRunner_scheme) option" where
  "run_and_publish fuel expired tid spec hooks run s =
     Option.bind (run_with_timeout shell_view fuel expired tid spec hooks run s) (\<lambda>(out, s1).
       case out of
         Body_Returns result \<Rightarrow> publish_run_outcome fuel tid result s1
       | Body_Cancelled \<Rightarrow> Some (Body_Cancelled, s1)
       | Body_Raises e \<Rightarrow> Some (Body_Raises e, s1))"

section \<open>Inline and background execution\<close>

text \<open>What \<open>track_current_task\<close> and \<open>track_existing_task\<close> do with the outcome of a body that runs on the runner.\<close>

definition close_runner_tracking ::
  "nat \<Rightarrow> string \<Rightarrow> string \<Rightarrow> 'a body_outcome \<times> 'x ExecutionTaskRunner_scheme \<Rightarrow> ('a body_outcome \<times> 'x ExecutionTaskRunner_scheme) option" where
  "close_runner_tracking fuel tid kind res =
     map_option (\<lambda>(out, c). (out, (snd res)\<lparr>rn_coord := c\<rparr>)) (close_tracking fuel tid kind (fst res, rn_coord (snd res)))"

definition run_inline ::
  "nat \<Rightarrow> ('x ExecutionTaskRunner_scheme \<Rightarrow> bool) \<Rightarrow> nat \<Rightarrow> string \<Rightarrow> ExecutionTaskSpec \<Rightarrow> (run_result, 'x) ExecutionTaskHooks option \<Rightarrow> bool \<Rightarrow>
   (ExecutionTaskSnapshot \<Rightarrow> (run_result, 'x) effect) \<Rightarrow> 'x ExecutionTaskRunner_scheme \<Rightarrow> (pyobj body_outcome \<times> 'x ExecutionTaskRunner_scheme) option" where
  "run_inline fuel expired current uuid_hex spec hooks start_immediately run s =
     (if sp_detached_from_parent_lifecycle spec
      then Some (Body_Raises (exn_info_of (ValueError ''Inline execution tasks cannot detach from their caller'')), s)
      else let tid = new_task_id uuid_hex
      in case create_record tid (sp_kind spec) (sp_scope spec) (sp_source spec) (sp_label spec) (sp_authority spec)
                (Some current) (Some (sp_metadata spec)) (sp_parent_task_id spec)
                (sp_detached_from_parent_lifecycle spec) False (rn_coord s) of
           (Inl e, c1) \<Rightarrow> Some (Body_Raises (exn_info_of e), s\<lparr>rn_coord := c1\<rparr>)
         | (Inr _, c1) \<Rightarrow>
             (case (if start_immediately then mark_started tid c1 else (Inr (), c1)) of
                (Inl e, c2) \<Rightarrow> close_runner_tracking fuel tid (sp_kind spec)
                                (Body_Raises (exn_info_of e), s\<lparr>rn_coord := c2\<rparr>)
              | (Inr _, c2) \<Rightarrow>
                  (case get_task tid c2 of
                     None \<Rightarrow> close_runner_tracking fuel tid (sp_kind spec)
                       (Body_Raises (exn_info_of (RuntimeError (''Execution task disappeared: '' @ tid))), s\<lparr>rn_coord := c2\<rparr>)
                   | Some task \<Rightarrow>
                       Option.bind (run_and_publish fuel expired tid spec hooks (run task) (s\<lparr>rn_coord := c2\<rparr>))
                         (close_runner_tracking fuel tid (sp_kind spec)))))"

definition task_has_cancelled :: "string \<Rightarrow> TaskCoordinator \<Rightarrow> bool" where
  "task_has_cancelled tid c =
     (case get_task tid c of
        None \<Rightarrow> True
      | Some s \<Rightarrow> ts_status s = ''cancelled'' \<or> (\<not> is_terminal s \<and> ts_cancel_requested s))"

text \<open>
  The cleanup runs in a task of its own that is waited for through every cancellation; the hook's
  own cancellation is raised again after the task is marked.
\<close>

definition runner_finish_cancelled_task ::
  "nat \<Rightarrow> ('r, 'x) ExecutionTaskHooks option \<Rightarrow> string \<Rightarrow> 'x ExecutionTaskRunner_scheme \<Rightarrow> (unit body_outcome \<times> 'x ExecutionTaskRunner_scheme) option" where
  "runner_finish_cancelled_task fuel hooks tid s =
     (case call_cancelled_hook hooks tid s of
        (out, s1) \<Rightarrow> map_option (Pair out) (on_coord_opt (mark_cancelled fuel tid (Some ''cancelled'')) s1))"

definition abort_background_reservation ::
  "nat \<Rightarrow> ('r, 'x) ExecutionTaskHooks option \<Rightarrow> ExecutionTaskSnapshot result \<Rightarrow> 'x ExecutionTaskRunner_scheme \<Rightarrow>
   (unit body_outcome \<times> 'x ExecutionTaskRunner_scheme) option" where
  "abort_background_reservation fuel hooks reservation s =
     (case reservation of
        Inl _ \<Rightarrow> Some (Body_Returns (), s)
      | Inr task \<Rightarrow>
          (case call_cancelled_hook hooks (ts_task_id task) s of
             (out, s1) \<Rightarrow> map_option (Pair out)
               (on_coord_opt (mark_cancelled fuel (ts_task_id task) (Some ''background_start_cancelled'')) s1)))"

text \<open>\<open>_run\<close>, the coroutine that \<open>start_background\<close> spawns.\<close>

definition background_body ::
  "nat \<Rightarrow> ('x ExecutionTaskRunner_scheme \<Rightarrow> bool) \<Rightarrow> nat \<Rightarrow> string \<Rightarrow> ExecutionTaskSpec \<Rightarrow> (run_result, 'x) ExecutionTaskHooks option \<Rightarrow> bool \<Rightarrow>
   (ExecutionTaskSnapshot \<Rightarrow> (run_result, 'x) effect) \<Rightarrow> 'x ExecutionTaskRunner_scheme \<Rightarrow> (pyobj body_outcome \<times> 'x ExecutionTaskRunner_scheme) option" where
  "background_body fuel expired current tid spec hooks start_immediately run s =
     (case attach_handle tid current (rn_coord s) of
        (Inl e, c1) \<Rightarrow> Some (Body_Raises (exn_info_of e), s\<lparr>rn_coord := c1\<rparr>)
      | (Inr (r, should_cancel), c1) \<Rightarrow>
          if should_cancel then Some (Body_Cancelled, s\<lparr>rn_coord := c1\<rparr>)
          else Option.bind
            (case (if start_immediately then mark_started tid c1 else (Inr (), c1)) of
               (Inl e, c2) \<Rightarrow> Some (Body_Raises (exn_info_of e), s\<lparr>rn_coord := c2\<rparr>)
             | (Inr _, c2) \<Rightarrow> run_and_publish fuel expired tid spec hooks (run (snapshot r)) (s\<lparr>rn_coord := c2\<rparr>))
            (close_runner_tracking fuel tid (tr_kind r)))"

definition background_run ::
  "nat \<Rightarrow> ('x ExecutionTaskRunner_scheme \<Rightarrow> bool) \<Rightarrow> nat \<Rightarrow> string \<Rightarrow> ExecutionTaskSpec \<Rightarrow> (run_result, 'x) ExecutionTaskHooks option \<Rightarrow> bool \<Rightarrow>
   (ExecutionTaskSnapshot \<Rightarrow> (run_result, 'x) effect) \<Rightarrow> 'x ExecutionTaskRunner_scheme \<Rightarrow> (unit body_outcome \<times> 'x ExecutionTaskRunner_scheme) option" where
  "background_run fuel expired current tid spec hooks start_immediately run s =
     Option.bind (background_body fuel expired current tid spec hooks start_immediately run s) (\<lambda>(out, s1).
       case out of
         Body_Returns _ \<Rightarrow> Some (Body_Returns (), s1)
       | Body_Cancelled \<Rightarrow> map_option (\<lambda>(_, s2). (Body_Cancelled, s2)) (runner_finish_cancelled_task fuel hooks tid s1)
       | Body_Raises exc \<Rightarrow>
           if task_has_cancelled tid (rn_coord s1) then runner_finish_cancelled_task fuel hooks tid s1
           else Some (call_failed_hook hooks tid exc s1))"

definition start_background ::
  "nat \<Rightarrow> string \<Rightarrow> ExecutionTaskSpec \<Rightarrow> ('r, 'x) ExecutionTaskHooks option \<Rightarrow> bool \<Rightarrow> 'x ExecutionTaskRunner_scheme \<Rightarrow>
   (ExecutionTaskSnapshot body_outcome \<times> 'x ExecutionTaskRunner_scheme) option" where
  "start_background fuel uuid_hex spec hooks cancelled_meanwhile s =
     (case create_queued_task uuid_hex (sp_kind spec) (sp_scope spec) (sp_source spec) (sp_label spec)
             (sp_authority spec) (Some (sp_metadata spec)) (sp_parent_task_id spec)
             (sp_detached_from_parent_lifecycle spec) True (rn_coord s) of
        (res, c) \<Rightarrow>
          let s1 = s\<lparr>rn_coord := c\<rparr>
          in if cancelled_meanwhile
             then map_option (\<lambda>(_, s2). (Body_Cancelled, s2)) (abort_background_reservation fuel hooks res s1)
             else (case res of
                     Inl e \<Rightarrow> Some (Body_Raises (exn_info_of e), s1)
                   | Inr task \<Rightarrow> Some (Body_Returns task, s1\<lparr>rn_spawned := rn_spawned s1 @ [ts_task_id task]\<rparr>)))"

end
