(* ===== verification/Runner_Gates.thy ===== *)
theory Runner_Gates
  imports Runner_Shell
begin

text \<open>
  The keyed gates and the concurrency shell of core/runtime/task_runner.py, and the properties of
  the shells.
\<close>

section \<open>Gates\<close>

definition get_gate_lock :: "string \<Rightarrow> 'x ExecutionTaskRunner_scheme \<Rightarrow> 'x ExecutionTaskRunner_scheme" where
  "get_gate_lock key s =
     (case map_of (rn_gate_locks s) key of
        None \<Rightarrow> s\<lparr>rn_gate_locks := AList.update key \<lparr>gl_locked = False, gl_queue = []\<rparr> (rn_gate_locks s)\<rparr>
      | Some _ \<Rightarrow> s)"

definition gate_lock_of :: "string \<Rightarrow> 'x ExecutionTaskRunner_scheme \<Rightarrow> gate_lock" where
  "gate_lock_of key s =
     (case map_of (rn_gate_locks s) key of None \<Rightarrow> \<lparr>gl_locked = False, gl_queue = []\<rparr> | Some l \<Rightarrow> l)"

definition set_gate_lock :: "string \<Rightarrow> gate_lock \<Rightarrow> 'x ExecutionTaskRunner_scheme \<Rightarrow> 'x ExecutionTaskRunner_scheme" where
  "set_gate_lock key l s = s\<lparr>rn_gate_locks := AList.update key l (rn_gate_locks s)\<rparr>"

definition register_gate_waiter ::
  "string \<Rightarrow> string \<Rightarrow> 'x ExecutionTaskRunner_scheme \<Rightarrow> ExecutionGateWait option \<times> 'x ExecutionTaskRunner_scheme" where
  "register_gate_waiter tid key s =
     (if \<not> gl_locked (gate_lock_of key s) then (None, s)
      else (let waiters = (case map_of (rn_gate_waiters s) key of None \<Rightarrow> [] | Some ws \<Rightarrow> ws) @ [tid]
            in (Some \<lparr>gw_key = key, gw_queue_position = length waiters,
                      gw_holder_task_id = map_of (rn_gate_holders s) key\<rparr>,
                s\<lparr>rn_gate_waiters := AList.update key waiters (rn_gate_waiters s)\<rparr>)))"

definition unregister_gate_waiter :: "string \<Rightarrow> string \<Rightarrow> 'x ExecutionTaskRunner_scheme \<Rightarrow> 'x ExecutionTaskRunner_scheme" where
  "unregister_gate_waiter tid key s =
     (case map_of (rn_gate_waiters s) key of
        None \<Rightarrow> s
      | Some waiters \<Rightarrow>
          (let waiters' = remove1 tid waiters
           in s\<lparr>rn_gate_waiters := (if waiters' = [] then AList.delete key (rn_gate_waiters s)
                                    else AList.update key waiters' (rn_gate_waiters s))\<rparr>))"

definition mark_gate_acquired :: "string \<Rightarrow> string \<Rightarrow> 'x ExecutionTaskRunner_scheme \<Rightarrow> 'x ExecutionTaskRunner_scheme" where
  "mark_gate_acquired tid key s = s\<lparr>rn_gate_holders := AList.update key tid (rn_gate_holders s)\<rparr>"

definition release_gate :: "string \<Rightarrow> string \<Rightarrow> 'x ExecutionTaskRunner_scheme \<Rightarrow> 'x ExecutionTaskRunner_scheme" where
  "release_gate tid key s =
     (let s1 = (if map_of (rn_gate_holders s) key = Some tid
                then s\<lparr>rn_gate_holders := AList.delete key (rn_gate_holders s)\<rparr> else s)
      in set_gate_lock key ((gate_lock_of key s1)\<lparr>gl_locked := False\<rparr>) s1)"

definition gate_wait_metadata :: "ExecutionGatePolicy \<Rightarrow> ExecutionGateWait \<Rightarrow> metadata" where
  "gate_wait_metadata policy wait =
     (let m = gp_queued_metadata policy;
          m = (case gp_queue_position_key policy of
                 None \<Rightarrow> m | Some k \<Rightarrow> AList.update k (JInt (int (gw_queue_position wait))) m)
      in case gp_holder_task_id_key policy of
           None \<Rightarrow> m | Some k \<Rightarrow> AList.update k (json_of_opt (gw_holder_task_id wait)) m)"

text \<open>
  \<open>acquire\<close> is \<open>await lock.acquire()\<close>: when it returns, the lock is held. The \<open>finally\<close> block runs
  whatever the body does. The body is \<open>None\<close> where the recursion bound of a coordinator operation
  it calls is too small.
\<close>

definition run_with_gate ::
  "string \<Rightarrow> ExecutionGatePolicy \<Rightarrow> (ExecutionGateWait \<Rightarrow> (unit, 'x) effect) option \<Rightarrow> (unit, 'x) effect \<Rightarrow>
   ('x ExecutionTaskRunner_scheme \<Rightarrow> ('a body_outcome \<times> 'x ExecutionTaskRunner_scheme) option) \<Rightarrow>
   'x ExecutionTaskRunner_scheme \<Rightarrow> ('a body_outcome \<times> 'x ExecutionTaskRunner_scheme) option" where
  "run_with_gate tid policy on_queued acquire run s =
     (let key = gp_key policy;
          s1 = get_gate_lock key s
      in case register_gate_waiter tid key s1 of (wait, s2) \<Rightarrow>
         (case (case wait of
                  None \<Rightarrow> (Body_Returns (), s2)
                | Some w \<Rightarrow>
                    (let s3 = on_coord (heartbeat tid (gp_queued_status policy) (Some (gate_wait_metadata policy w))) s2
                     in case on_queued of None \<Rightarrow> (Body_Returns (), s3) | Some hook \<Rightarrow> hook w s3)) of
            (Body_Cancelled, s3) \<Rightarrow> Some (Body_Cancelled, s3)
          | (Body_Raises e, s3) \<Rightarrow> Some (Body_Raises e, s3)
          | (Body_Returns _, s3) \<Rightarrow>
              (case acquire s3 of
                 (Body_Cancelled, s4) \<Rightarrow> Some (Body_Cancelled, unregister_gate_waiter tid key s4)
               | (Body_Raises e, s4) \<Rightarrow> Some (Body_Raises e, unregister_gate_waiter tid key s4)
               | (Body_Returns _, s4) \<Rightarrow>
                   (let s5 = mark_gate_acquired tid key s4;
                        s6 = (if gp_clear_metadata policy = [] then s5
                              else on_coord (update_metadata tid (gp_clear_metadata policy)) s5)
                    in map_option (\<lambda>(out, s7). (out, release_gate tid key (unregister_gate_waiter tid key s7))) (run s6)))))"

section \<open>The concurrency shell\<close>

definition finish_concurrency_cleanup :: "string \<Rightarrow> string \<Rightarrow> 'x ExecutionTaskRunner_scheme \<Rightarrow> 'x ExecutionTaskRunner_scheme" where
  "finish_concurrency_cleanup tid key s = cleanup_concurrency_registration tid key s"

text \<open>
  \<open>await_future f\<close> suspends until the future is resolved or the task is cancelled. Whatever happens
  on the way, the registration is cleaned up at the end.
\<close>

definition run_with_concurrency ::
  "string \<Rightarrow> ExecutionConcurrencyPolicy \<Rightarrow> (ExecutionConcurrencyWait \<Rightarrow> (unit, 'x) effect) option \<Rightarrow> (nat \<Rightarrow> (unit, 'x) effect) \<Rightarrow>
   ('a, 'x) effect \<Rightarrow> ('a, 'x) effect" where
  "run_with_concurrency tid policy on_queued await_future run s =
     (case reserve_concurrency_slot tid policy s of (wait, s1) \<Rightarrow>
        case (case wait of
                None \<Rightarrow> (Body_Returns (), s1)
              | Some (w, future) \<Rightarrow>
                  (case (case on_queued of None \<Rightarrow> (Body_Returns (), s1) | Some hook \<Rightarrow> hook w s1) of
                     (Body_Returns _, s2) \<Rightarrow> await_future future s2
                   | (out, s2) \<Rightarrow> (out, s2))) of
          (Body_Cancelled, s3) \<Rightarrow> (Body_Cancelled, finish_concurrency_cleanup tid (cp_key policy) s3)
        | (Body_Raises e, s3) \<Rightarrow> (Body_Raises e, finish_concurrency_cleanup tid (cp_key policy) s3)
        | (Body_Returns _, s3) \<Rightarrow>
            (case mark_started tid (rn_coord s3) of
               (Inl e, c4) \<Rightarrow>
                 (Body_Raises (exn_info_of e), finish_concurrency_cleanup tid (cp_key policy) (s3\<lparr>rn_coord := c4\<rparr>))
             | (Inr _, c4) \<Rightarrow>
                 (let s4 = s3\<lparr>rn_coord := c4\<rparr>;
                      s5 = (if cp_clear_metadata policy = [] then s4
                            else on_coord (update_metadata tid (cp_clear_metadata policy)) s4)
                  in case run s5 of (out, s6) \<Rightarrow> (out, finish_concurrency_cleanup tid (cp_key policy) s6))))"

section \<open>Properties of the concurrency shell\<close>

text \<open>
  A slot is always given back: however the work in a lane ends, and whatever the hooks, the wait
  and the work do to the runner, afterwards the task neither holds a slot of the lane nor waits
  for one.
\<close>

theorem concurrency_slot_released:
  assumes "map_of (rn_lanes (snd (run_with_concurrency tid policy on_queued await_future run s))) (cp_key policy) = Some lane"
  shows "tid \<notin> set (ln_holders lane) \<and> tid \<notin> wa_task_id ` set (ln_waiters lane)"
proof -
  have "\<exists>out s6. run_with_concurrency tid policy on_queued await_future run s =
      (out, cleanup_concurrency_registration tid (cp_key policy) s6)"
    unfolding run_with_concurrency_def finish_concurrency_cleanup_def Let_def
    by (auto split: prod.splits body_outcome.splits sum.splits)
  then obtain out s6 where "run_with_concurrency tid policy on_queued await_future run s =
      (out, cleanup_concurrency_registration tid (cp_key policy) s6)" by blast
  with assms show ?thesis using cleanup_removes by simp
qed

section \<open>Properties of the gates\<close>

lemma gate_lock_of_set [simp]: "gate_lock_of key (set_gate_lock key l s) = l"
  by (simp add: gate_lock_of_def set_gate_lock_def)

lemma set_gate_lock_fields [simp]:
  "rn_gate_holders (set_gate_lock key l s) = rn_gate_holders s"
  "rn_gate_waiters (set_gate_lock key l s) = rn_gate_waiters s"
  by (simp_all add: set_gate_lock_def)

lemma release_gate_free:
  "\<not> gl_locked (gate_lock_of key (release_gate tid key s)) \<and> map_of (rn_gate_holders (release_gate tid key s)) key \<noteq> Some tid"
  by (simp add: release_gate_def Let_def delete_conv')

text \<open>Behind a gate that is acquired, everything but the release happens in the body.\<close>

lemma gate_reached:
  assumes "\<And>s. \<exists>s'. acquire s = (Body_Returns (), s')"
    and "\<And>hook w s. on_queued = Some hook \<Longrightarrow> \<exists>s'. hook w s = (Body_Returns (), s')"
  shows "\<exists>s6. run_with_gate tid policy on_queued acquire run s =
      map_option (\<lambda>(out, s7). (out, release_gate tid (gp_key policy) (unregister_gate_waiter tid (gp_key policy) s7))) (run s6)"
proof -
  let ?key = "gp_key policy"
  obtain wait s2 where reg: "register_gate_waiter tid ?key (get_gate_lock ?key s) = (wait, s2)" by force
  have "\<exists>s3. (case wait of
                  None \<Rightarrow> (Body_Returns (), s2)
                | Some w \<Rightarrow>
                    (let s3 = on_coord (heartbeat tid (gp_queued_status policy) (Some (gate_wait_metadata policy w))) s2
                     in case on_queued of None \<Rightarrow> (Body_Returns (), s3) | Some hook \<Rightarrow> hook w s3)) = (Body_Returns (), s3)"
    using assms(2) by (auto simp: Let_def split: option.splits)
  then obtain s3 s4 where "(case wait of
                  None \<Rightarrow> (Body_Returns (), s2)
                | Some w \<Rightarrow>
                    (let s3 = on_coord (heartbeat tid (gp_queued_status policy) (Some (gate_wait_metadata policy w))) s2
                     in case on_queued of None \<Rightarrow> (Body_Returns (), s3) | Some hook \<Rightarrow> hook w s3)) = (Body_Returns (), s3)"
    "acquire s3 = (Body_Returns (), s4)" using assms(1) by blast
  with reg show ?thesis by (auto simp: run_with_gate_def Let_def)
qed

text \<open>
  A gate is released by whoever held it: when the work behind a gate ends, normally or not, the
  lock is free again and the task is no longer recorded as its holder.
\<close>

theorem gate_released:
  assumes "\<And>s. \<exists>s'. acquire s = (Body_Returns (), s')" and "\<And>s. run s \<noteq> None"
  shows "\<exists>out s'. run_with_gate tid policy None acquire run s = Some (out, s') \<and>
           \<not> gl_locked (gate_lock_of (gp_key policy) s') \<and> map_of (rn_gate_holders s') (gp_key policy) \<noteq> Some tid"
proof -
  obtain s3 where "run_with_gate tid policy None acquire run s =
      map_option (\<lambda>(out, s7). (out, release_gate tid (gp_key policy) (unregister_gate_waiter tid (gp_key policy) s7))) (run s3)"
    using gate_reached [of acquire None tid policy run s] assms(1) by blast
  moreover obtain out s7 where "run s3 = Some (out, s7)" using assms(2) by fastforce
  ultimately show ?thesis
    using release_gate_free [of "gp_key policy" tid "unregister_gate_waiter tid (gp_key policy) s7"] by simp
qed

definition demo_gate :: ExecutionGatePolicy where
  "demo_gate = \<lparr>gp_key = ''vault'', gp_queued_status = ''queued'', gp_queued_metadata = [],
     gp_queue_position_key = Some ''queue_position'', gp_holder_task_id_key = Some ''waiting_for_task_id'',
     gp_clear_metadata = []\<rparr>"

text \<open>Taking a free lock.\<close>

definition take_lock :: "string \<Rightarrow> (unit, unit) effect" where
  "take_lock key s = (Body_Returns (), set_gate_lock key ((gate_lock_of key s)\<lparr>gl_locked := True\<rparr>) s)"

theorem gate_released_witness:
  "\<exists>out s'. run_with_gate ''t1'' demo_gate None (take_lock ''vault'') (\<lambda>s. Some (Body_Returns (), s)) demo_runner =
       Some (out, s') \<and> \<not> gl_locked (gate_lock_of ''vault'' s')"
proof -
  have "\<exists>s'. take_lock ''vault'' s = (Body_Returns (), s')" for s by (simp add: take_lock_def)
  from gate_released [where acquire = "take_lock ''vault''", OF this, where tid = "''t1''" and policy = demo_gate
      and run = "\<lambda>s. Some (Body_Returns (), s)" and s = demo_runner]
  show ?thesis by (auto simp: demo_gate_def)
qed

theorem concurrency_slot_released_witness:
  "\<exists>lane. map_of (rn_lanes (snd (run_with_concurrency ''t1'' demo_policy None (\<lambda>_ s. (Body_Cancelled, s))
       (\<lambda>s. (Body_Returns (), s)) demo_runner))) ''delegate'' = Some lane \<and> ''t1'' \<notin> set (ln_holders lane)"
proof -
  let ?s = "snd (run_with_concurrency ''t1'' demo_policy None (\<lambda>_ s. (Body_Cancelled, s)) (\<lambda>s. (Body_Returns (), s)) demo_runner)"
  have "map_of (rn_lanes ?s) ''delegate'' \<noteq> None"
    by (simp add: run_with_concurrency_def finish_concurrency_cleanup_def cleanup_concurrency_registration_def
        cleanup_lane_def demo_runner_def reserve_concurrency_slot_def reserve_lane_def new_ExecutionTaskRunner_def
        demo_policy_def concurrency_has_capacity_def admit_concurrency_waiters.simps Let_def)
  then obtain lane where lane: "map_of (rn_lanes ?s) ''delegate'' = Some lane" by blast
  with concurrency_slot_released [of "''t1''" demo_policy None "\<lambda>_ s. (Body_Cancelled, s)"
      "\<lambda>s. (Body_Returns (), s)" demo_runner lane]
  show ?thesis by (simp add: demo_policy_def)
qed

definition gate_handover :: "ExecutionTaskRunner \<Rightarrow> ExecutionTaskRunner" where
  "gate_handover s =
     (let s1 = snd (register_gate_waiter ''second'' ''vault''
                 (mark_gate_acquired ''first'' ''vault'' (snd (take_lock ''vault'' (get_gate_lock ''vault'' s)))));
          s2 = release_gate ''first'' ''vault'' (unregister_gate_waiter ''first'' ''vault'' s1)
      in mark_gate_acquired ''second'' ''vault'' (snd (take_lock ''vault'' s2)))"

text \<open>
  The reported queue position counts a task that already runs: a task that had to wait stays in
  the waiter list while its work runs behind the gate (it is unregistered only in the \<open>finally\<close>
  block), so the next task to arrive is told position two although it is the only one waiting.
\<close>

theorem gate_queue_position_counts_holder:
  "case register_gate_waiter ''third'' ''vault'' (gate_handover (new_ExecutionTaskRunner c)) of
     (wait, _) \<Rightarrow> \<exists>w. wait = Some w \<and> gw_holder_task_id w = Some ''second'' \<and> gw_queue_position w = 2"
  by (simp add: gate_handover_def register_gate_waiter_def unregister_gate_waiter_def release_gate_def
      mark_gate_acquired_def take_lock_def get_gate_lock_def gate_lock_of_def set_gate_lock_def
      new_ExecutionTaskRunner_def Let_def)

text \<open>
  A gate waiter can be left behind: the \<open>on_queued\<close> hook runs before the \<open>try\<close> block, so when it
  raises or is cancelled the task stays in the waiter list for good, and every later task is
  told a position that counts it.
\<close>

theorem gate_waiter_left_behind:
  assumes "gl_locked (gate_lock_of (gp_key policy) s)" and "out = Body_Cancelled \<or> out = Body_Raises e"
  shows "\<exists>out' s' ws. run_with_gate tid policy (Some (\<lambda>_ s. (out, s))) acquire run s = Some (out', s') \<and>
           map_of (rn_gate_waiters s') (gp_key policy) = Some ws \<and> tid \<in> set ws"
  using assms
  by (auto simp: run_with_gate_def get_gate_lock_def register_gate_waiter_def gate_lock_of_def on_coord_def Let_def
      split: option.splits)

theorem gate_waiter_left_behind_witness:
  "\<exists>out' s' ws. run_with_gate ''t1'' demo_gate (Some (\<lambda>_ s. (Body_Cancelled, s)))
       (take_lock ''vault'') (\<lambda>s. Some (Body_Returns (), s)) (gate_handover demo_runner) = Some (out', s') \<and>
     map_of (rn_gate_waiters s') ''vault'' = Some ws \<and> ''t1'' \<in> set ws"
proof -
  have "gl_locked (gate_lock_of (gp_key demo_gate) (gate_handover demo_runner))"
    by (simp add: gate_handover_def demo_gate_def mark_gate_acquired_def take_lock_def gate_lock_of_def set_gate_lock_def Let_def)
  from gate_waiter_left_behind [OF this, of Body_Cancelled undefined "''t1''" "take_lock ''vault''" "\<lambda>s. Some (Body_Returns (), s)"]
  show ?thesis by (simp add: demo_gate_def)
qed

section \<open>Every shell ends its task\<close>

text \<open>
  \<open>ended tid c\<close>: the task has a terminal record or none. \<open>ready fuel c\<close>: the invariant holds and the
  recursion bound covers the records. A caller's effect is \<open>tame\<close> when it respects both, as every
  sequence of coordinator operations does.
\<close>

definition ended :: "string \<Rightarrow> TaskCoordinator \<Rightarrow> bool" where
  "ended tid c \<longleftrightarrow> (\<forall>r. find_record c tid = Some r \<longrightarrow> rec_terminal r)"

definition ready :: "nat \<Rightarrow> TaskCoordinator \<Rightarrow> bool" where
  "ready fuel c \<longleftrightarrow> coord_inv c \<and> length (c_records c) \<le> fuel"

definition tame_change :: "nat \<Rightarrow> string \<Rightarrow> TaskCoordinator \<Rightarrow> TaskCoordinator \<Rightarrow> bool" where
  "tame_change fuel tid c c' \<longleftrightarrow> (ready fuel c \<longrightarrow> ready fuel c' \<and> (ended tid c \<longrightarrow> ended tid c'))"

definition tame :: "nat \<Rightarrow> string \<Rightarrow> ('a, 'x) effect \<Rightarrow> bool" where
  "tame fuel tid f \<longleftrightarrow> (\<forall>s. tame_change fuel tid (rn_coord s) (rn_coord (snd (f s))))"

lemma tame_trans: "tame_change fuel tid c1 c2 \<Longrightarrow> tame_change fuel tid c2 c3 \<Longrightarrow> tame_change fuel tid c1 c3"
  by (auto simp: tame_change_def)

lemma tame_step_ok:
  assumes "step_ok c c'"
  shows "tame_change fuel tid c c'"
proof -
  have k: "keeps c c'" using assms by (simp add: step_ok_def)
  then have "length (c_records c') \<le> length (c_records c)"
    using list_emb_length by (fastforce simp: keeps_def task_keys_def)
  moreover have "ended tid c'" if "ended tid c"
    using that evolvesD [OF keeps_evolves [OF k]] rec_evolves_active unfolding ended_def by blast
  ultimately show ?thesis using k by (auto simp: tame_change_def ready_def keeps_def)
qed

text \<open>Any run of coordinator operations is tame for a task that has been created before.\<close>

lemma tame_run:
  assumes "coord_step\<^sup>*\<^sup>* (ids, c) (ids', c')" and "run_inv (ids, c)" and "tid \<in> set ids"
    and "length (c_records c') \<le> fuel"
  shows "tame_change fuel tid c c'"
proof -
  have "run_inv (ids', c')" using coord.inv_run [OF assms(1,2)] .
  moreover have "ended tid c'" if "ended tid c"
  proof (cases "find_record c tid")
    case None
    then show ?thesis using coord.gone_run [OF assms(1,2), of tid] assms(3) by (simp add: ended_def)
  next
    case (Some r)
    then show ?thesis using coord.final_run [OF assms(1,2), of tid r] that by (auto simp: ended_def)
  qed
  ultimately show ?thesis using assms(4) by (auto simp: tame_change_def ready_def run_inv_def)
qed

definition tame_hooks :: "nat \<Rightarrow> string \<Rightarrow> ('r, 'x) ExecutionTaskHooks option \<Rightarrow> bool" where
  "tame_hooks fuel tid hooks \<longleftrightarrow>
     (\<forall>hk. hooks = Some hk \<longrightarrow>
        (\<forall>f. hk_on_cancelled hk = Some f \<longrightarrow> tame fuel tid (f tid)) \<and>
        (\<forall>f exc. hk_on_failed hk = Some f \<longrightarrow> tame fuel tid (f tid exc)) \<and>
        (\<forall>f timeout reason. hk_on_timed_out hk = Some f \<longrightarrow> tame fuel tid (f tid timeout reason)))"

lemma tame_refl [simp]: "tame_change fuel tid c c"
  by (simp add: tame_change_def)

lemma tame_snd: "tame fuel tid f \<Longrightarrow> f s = (out, s') \<Longrightarrow> tame_change fuel tid (rn_coord s) (rn_coord s')"
  unfolding tame_def by (metis snd_conv)

lemma hooks_tame:
  assumes "tame_hooks fuel tid hooks"
  shows "tame fuel tid (call_cancelled_hook hooks tid)" and "tame fuel tid (call_failed_hook hooks tid exc)"
    and "tame fuel tid (call_timed_out_hook view hooks tid timeout reason)"
proof -
  have failed: "tame fuel tid (f tid exc)" if "Option.bind hooks hk_on_failed = Some f" for f
    using assms that unfolding tame_hooks_def by (auto simp: bind_eq_Some_conv)
  have timed: "tame fuel tid (f tid timeout reason)" if "Option.bind hooks hk_on_timed_out = Some f" for f
    using assms that unfolding tame_hooks_def by (auto simp: bind_eq_Some_conv)
  show "tame fuel tid (call_failed_hook hooks tid exc)" "tame fuel tid (call_timed_out_hook view hooks tid timeout reason)"
    using failed timed
    by (auto simp: tame_def call_failed_hook_def call_timed_out_hook_def split: option.splits)
  show "tame fuel tid (call_cancelled_hook hooks tid)"
    unfolding tame_def
  proof
    fix s
    show "tame_change fuel tid (rn_coord s) (rn_coord (snd (call_cancelled_hook hooks tid s)))"
    proof (cases "Option.bind hooks hk_on_cancelled")
      case None
      then show ?thesis by (simp add: call_cancelled_hook_def)
    next
      case (Some hook)
      then have "tame fuel tid (hook tid)" using assms unfolding tame_hooks_def by (auto simp: bind_eq_Some_conv)
      moreover obtain out s1 where "hook tid s = (out, s1)" by force
      ultimately show ?thesis
        using Some tame_snd [of fuel tid "hook tid" s out s1] by (cases out) (simp_all add: call_cancelled_hook_def)
    qed
  qed
qed

lemma record_dict_result_returns:
  "\<exists>res s'. record_dict_result tid v s = Some (res, s') \<and> tame_change fuel tid' (rn_coord s) (rn_coord s')"
proof (cases v)
  case (Some d)
  obtain res c' where r: "record_result tid (fst d) (snd d) (rn_coord s) = Some (res, c')"
    using record_result_returns by blast
  from tame_step_ok [OF record_result_ok [OF r]] r Some show ?thesis by (simp add: record_dict_result_def)
qed (simp add: record_dict_result_def)

lemma marks_return:
  assumes "ready fuel c"
  shows "\<exists>c'. mark_failed fuel tid reason err c = Some c' \<and> tame_change fuel tid c c' \<and> ended tid c'"
    and "\<exists>c'. mark_cancelled fuel tid reason c = Some c' \<and> tame_change fuel tid c c' \<and> ended tid c'"
    and "\<exists>c'. mark_timed_out fuel tid reason c = Some c' \<and> tame_change fuel tid c c' \<and> ended tid c'"
    and "\<exists>c'. mark_skipped fuel tid reason c = Some c' \<and> tame_change fuel tid c c' \<and> ended tid c'"
    and "\<exists>c'. mark_completed fuel tid reason c = Some c' \<and> tame_change fuel tid c c' \<and> ended tid c'"
proof -
  have inv: "coord_inv c" using assms by (simp add: ready_def)
  have rank: "task_rank c tid \<le> fuel"
    using assms task_rank_le_records [of c tid] by (simp add: ready_def)
  have ends: "ended tid c'" if "map_option (mark_terminal tid status reason event e)
      (cancel_active_children fuel tid child_reason c) = Some c'" "status \<in> TERMINAL_STATUSES"
    for status event e child_reason c'
    using mark_closing(2) [OF inv that(2,1)] by (simp add: ended_def)
  note ok = mark_ok [OF inv, THEN tame_step_ok]
  show "\<exists>c'. mark_failed fuel tid reason err c = Some c' \<and> tame_change fuel tid c c' \<and> ended tid c'"
    using mark_returns(2) [OF inv rank] ok(2) ends terminal_statuses unfolding mark_failed_def by metis
  show "\<exists>c'. mark_cancelled fuel tid reason c = Some c' \<and> tame_change fuel tid c c' \<and> ended tid c'"
    using mark_returns(3) [OF inv rank] ok(3) ends terminal_statuses unfolding mark_cancelled_def by metis
  show "\<exists>c'. mark_timed_out fuel tid reason c = Some c' \<and> tame_change fuel tid c c' \<and> ended tid c'"
    using mark_returns(4) [OF inv rank] ok(4) ends terminal_statuses unfolding mark_timed_out_def by metis
  show "\<exists>c'. mark_skipped fuel tid reason c = Some c' \<and> tame_change fuel tid c c' \<and> ended tid c'"
    using mark_returns(5) [OF inv rank] ok(5) ends terminal_statuses unfolding mark_skipped_def by metis
  show "\<exists>c'. mark_completed fuel tid reason c = Some c' \<and> tame_change fuel tid c c' \<and> ended tid c'"
    using mark_returns(1) [OF inv rank] ok(1) ends terminal_statuses unfolding mark_completed_def by metis
qed

lemma run_with_timeout_returns:
  assumes ready: "ready fuel (rn_coord s)" and run: "tame fuel tid run" and hooks: "tame_hooks fuel tid hooks"
  shows "\<exists>out s'. run_with_timeout view fuel expired tid spec hooks run s = Some (out, s') \<and>
           tame_change fuel tid (rn_coord s) (rn_coord s')"
proof -
  obtain out s1 where r: "run s = (out, s1)" by force
  have t1: "tame_change fuel tid (rn_coord s) (rn_coord s1)" by (rule tame_snd [OF run r])
  show ?thesis
  proof (cases "\<exists>timeout exc. sp_timeout_seconds spec = Some timeout \<and> 0 < to_value timeout \<and> out = Body_Raises exc \<and>
      exn_type exc = ''TimeoutError'' \<and> expired s1")
    case False
    then have "run_with_timeout view fuel expired tid spec hooks run s = Some (out, s1)"
      using r by (cases out) (auto simp: run_with_timeout_def not_le split: option.splits)
    with t1 show ?thesis by blast
  next
    case True
    then obtain timeout exc where T: "sp_timeout_seconds spec = Some timeout" "0 < to_value timeout"
      "out = Body_Raises exc" "exn_type exc = ''TimeoutError''" "expired s1" by blast
    let ?reason = "or_else (sp_timeout_reason spec) (''execution_task_timeout:'' @ to_text timeout @ ''s'')"
    obtain o2 s2 where h: "call_timed_out_hook view hooks tid timeout ?reason s1 = (o2, s2)" by force
    have t2: "tame_change fuel tid (rn_coord s) (rn_coord s2)"
      using t1 tame_snd [OF hooks_tame(3) [OF hooks] h] by (rule tame_trans)
    show ?thesis
    proof (cases o2)
      case (Body_Returns v)
      obtain res s3 where d: "record_dict_result tid (rv_dict view v) s2 = Some (res, s3)"
        "tame_change fuel tid (rn_coord s2) (rn_coord s3)" using record_dict_result_returns by blast
      have t3: "tame_change fuel tid (rn_coord s) (rn_coord s3)" using t2 d(2) by (rule tame_trans)
      then have "ready fuel (rn_coord s3)" using ready by (simp add: tame_change_def)
      then obtain c4 where c4: "mark_timed_out fuel tid (Some ?reason) (rn_coord s3) = Some c4"
        "tame_change fuel tid (rn_coord s3) c4" using marks_return(3) by blast
      have "tame_change fuel tid (rn_coord s) c4" using t3 c4(2) by (rule tame_trans)
      then show ?thesis
        using r T h Body_Returns d(1) t3 c4(1)
        by (cases res) (auto simp: run_with_timeout_def Let_def on_coord_opt_def)
    qed (use r T h t2 in \<open>auto simp: run_with_timeout_def Let_def\<close>)
  qed
qed

lemma publish_run_outcome_returns:
  assumes ready: "ready fuel (rn_coord s)"
  shows "\<exists>out s'. publish_run_outcome fuel tid result s = Some (out, s') \<and> tame_change fuel tid (rn_coord s) (rn_coord s')"
proof -
  let ?o = "run_outcome result"
  obtain res s1 where d: "record_dict_result tid (dict_view (ro_value ?o)) s = Some (res, s1)"
    "tame_change fuel tid (rn_coord s) (rn_coord s1)" using record_dict_result_returns by blast
  show ?thesis
  proof (cases res)
    case (Inl e)
    with d show ?thesis by (simp add: publish_run_outcome_def Let_def)
  next
    case (Inr u)
    have "ready fuel (rn_coord s1)" using d(2) ready by (simp add: tame_change_def)
    note M = marks_return [OF this]
    have "\<exists>s2. (case ro_status ?o of
        FAILED \<Rightarrow> on_coord_opt (mark_failed fuel tid (ro_reason ?o) (ro_error_type ?o)) s1
      | CANCELLED \<Rightarrow> on_coord_opt (mark_cancelled fuel tid (ro_reason ?o)) s1
      | TIMED_OUT \<Rightarrow> on_coord_opt (mark_timed_out fuel tid (ro_reason ?o)) s1
      | SKIPPED \<Rightarrow> on_coord_opt (mark_skipped fuel tid (ro_reason ?o)) s1
      | _ \<Rightarrow> Some s1) = Some s2 \<and> tame_change fuel tid (rn_coord s1) (rn_coord s2)"
      using M(1) [of tid "ro_reason ?o" "ro_error_type ?o"] M(2-4) [of tid "ro_reason ?o"]
      by (cases "ro_status ?o") (auto simp: on_coord_opt_def)
    then obtain s2 where "(case ro_status ?o of
        FAILED \<Rightarrow> on_coord_opt (mark_failed fuel tid (ro_reason ?o) (ro_error_type ?o)) s1
      | CANCELLED \<Rightarrow> on_coord_opt (mark_cancelled fuel tid (ro_reason ?o)) s1
      | TIMED_OUT \<Rightarrow> on_coord_opt (mark_timed_out fuel tid (ro_reason ?o)) s1
      | SKIPPED \<Rightarrow> on_coord_opt (mark_skipped fuel tid (ro_reason ?o)) s1
      | _ \<Rightarrow> Some s1) = Some s2" "tame_change fuel tid (rn_coord s1) (rn_coord s2)" by blast
    with d Inr show ?thesis
      using tame_trans by (auto simp: publish_run_outcome_def Let_def)
  qed
qed

lemma run_and_publish_returns:
  assumes ready: "ready fuel (rn_coord s)" and "tame fuel tid run" and "tame_hooks fuel tid hooks"
  shows "\<exists>out s'. run_and_publish fuel expired tid spec hooks run s = Some (out, s') \<and>
           tame_change fuel tid (rn_coord s) (rn_coord s')"
proof -
  obtain out s1 where r: "run_with_timeout shell_view fuel expired tid spec hooks run s = Some (out, s1)"
    "tame_change fuel tid (rn_coord s) (rn_coord s1)" using run_with_timeout_returns [OF assms] by blast
  then have "ready fuel (rn_coord s1)" using ready by (simp add: tame_change_def)
  from publish_run_outcome_returns [OF this] r tame_trans show ?thesis
    by (cases out) (fastforce simp: run_and_publish_def)+
qed

lemma close_runner_tracking_ends:
  assumes "ready fuel (rn_coord s)"
  shows "\<exists>s'. close_runner_tracking fuel tid kind (out, s) = Some (out, s') \<and> ready fuel (rn_coord s') \<and> ended tid (rn_coord s')"
proof -
  have *: "ready fuel c'" if "tame_change fuel tid (rn_coord s) c'" for c'
    using assms that by (simp add: tame_change_def)
  show ?thesis
    using marks_return(5) [OF assms, of tid None] marks_return(2) [OF assms, of tid "Some ''cancelled''"]
      marks_return(1) [OF assms, of tid] *
    by (cases out) (fastforce simp: close_runner_tracking_def close_tracking_def finish_cancelled_task_def finish_failed_task_def)+
qed

lemma runner_finish_cancelled_ends:
  assumes ready: "ready fuel (rn_coord s)" and "tame_hooks fuel tid hooks"
  shows "\<exists>out s'. runner_finish_cancelled_task fuel hooks tid s = Some (out, s') \<and> ended tid (rn_coord s')"
proof -
  obtain out s1 where h: "call_cancelled_hook hooks tid s = (out, s1)" by force
  have "ready fuel (rn_coord s1)"
    using tame_snd [OF hooks_tame(1) [OF assms(2)] h] ready by (simp add: tame_change_def)
  then obtain c2 where "mark_cancelled fuel tid (Some ''cancelled'') (rn_coord s1) = Some c2" "ended tid c2"
    using marks_return(2) by blast
  with h show ?thesis by (simp add: runner_finish_cancelled_task_def on_coord_opt_def)
qed

lemma background_body_returns:
  assumes ready: "ready fuel (rn_coord s)" and run: "\<forall>task. tame fuel tid (run task)" and hooks: "tame_hooks fuel tid hooks"
  shows "\<exists>out s'. background_body fuel expired current tid spec hooks start_now run s = Some (out, s') \<and>
           ready fuel (rn_coord s') \<and> (ended tid (rn_coord s') \<or> out = Body_Cancelled)"
proof -
  obtain res c1 where a: "attach_handle tid current (rn_coord s) = (res, c1)" by force
  have ready1: "ready fuel c1"
    using tame_step_ok [OF attach_handle_ok [OF a]] ready by (auto simp: tame_change_def)
  show ?thesis
  proof (cases res)
    case (Inl e)
    with a have "ended tid c1" by (auto simp: attach_handle_def ended_def Let_def split: option.splits if_splits)
    with a Inl ready1 show ?thesis by (simp add: background_body_def)
  next
    case (Inr p)
    obtain r should_cancel where p: "p = (r, should_cancel)" by force
    show ?thesis
    proof (cases should_cancel)
      case True
      with a Inr p ready1 show ?thesis by (simp add: background_body_def)
    next
      case False
      obtain res2 c2 where m: "(if start_now then mark_started tid c1 else (Inr (), c1)) = (res2, c2)" by force
      then have ready2: "ready fuel c2"
        using ready1 tame_step_ok [OF mark_started_ok] by (auto simp: tame_change_def split: if_splits)
      let ?inner = "case (if start_now then mark_started tid c1 else (Inr (), c1)) of
               (Inl e, c2) \<Rightarrow> Some (Body_Raises (exn_info_of e), s\<lparr>rn_coord := c2\<rparr>)
             | (Inr _, c2) \<Rightarrow> run_and_publish fuel expired tid spec hooks (run (snapshot r)) (s\<lparr>rn_coord := c2\<rparr>)"
      have "tame fuel tid (run (snapshot r))" using run by blast
      then obtain o3 s3 where "run_and_publish fuel expired tid spec hooks (run (snapshot r)) (s\<lparr>rn_coord := c2\<rparr>) =
          Some (o3, s3)" "ready fuel (rn_coord s3)"
        using ready2 run_and_publish_returns [of fuel "s\<lparr>rn_coord := c2\<rparr>" tid "run (snapshot r)" hooks expired spec] hooks
        by (auto simp: tame_change_def)
      then have "\<exists>out s3. ?inner = Some (out, s3) \<and> ready fuel (rn_coord s3)"
        using m ready2 by (cases res2) auto
      then obtain out s3 where i: "?inner = Some (out, s3)" "ready fuel (rn_coord s3)" by blast
      from close_runner_tracking_ends [OF i(2), of tid "tr_kind r" out] show ?thesis
        using a Inr p False i(1) by (auto simp add: background_body_def)
    qed
  qed
qed

text \<open>
  C25. A background task always ends in the books: whatever its work and its hooks do, the coroutine
  that \<open>start_background\<close> spawns comes to its end, and afterwards the task's record is terminal or
  already evicted; in particular a task cancelled before its coroutine starts is marked too.
\<close>

theorem background_task_ends:
  assumes "ready fuel (rn_coord s)" and "\<forall>task. tame fuel tid (run task)" and "tame_hooks fuel tid hooks"
  shows "\<exists>out s'. background_run fuel expired current tid spec hooks start_now run s = Some (out, s') \<and>
           (\<forall>r. find_record (rn_coord s') tid = Some r \<longrightarrow> rec_terminal r)"
proof -
  obtain out s1 where b: "background_body fuel expired current tid spec hooks start_now run s = Some (out, s1)"
    "ready fuel (rn_coord s1)" "ended tid (rn_coord s1) \<or> out = Body_Cancelled"
    using background_body_returns [OF assms] by blast
  have fin: "\<exists>out s'. runner_finish_cancelled_task fuel hooks tid s1 = Some (out, s') \<and> ended tid (rn_coord s')"
    using runner_finish_cancelled_ends [OF b(2) assms(3)] .
  have failed: "ended tid (rn_coord (snd (call_failed_hook hooks tid exc s1)))" if "ended tid (rn_coord s1)" for exc
    using hooks_tame(2) [OF assms(3)] b(2) that by (simp add: tame_def tame_change_def)
  show ?thesis
    unfolding ended_def [symmetric] background_run_def
    using b(1,3) fin failed by (cases out) (auto, (metis surjective_pairing)+)
qed

text \<open>
  The same holds for inline work: \<open>run_inline\<close> returns, and its task is terminal or evicted, or was
  never created.
\<close>

theorem inline_task_ends:
  assumes "run_inv (ids, rn_coord s)" and "new_task_id uuid \<notin> set ids"
    and "Suc (length (c_records (rn_coord s))) \<le> fuel"
    and "\<forall>task. tame fuel (new_task_id uuid) (run task)" and "tame_hooks fuel (new_task_id uuid) hooks"
  shows "\<exists>out s'. run_inline fuel expired current uuid spec hooks start_now run s = Some (out, s') \<and>
           (\<forall>r. find_record (rn_coord s') (new_task_id uuid) = Some r \<longrightarrow> rec_terminal r)"
proof -
  let ?tid = "new_task_id uuid"
  have fresh: "fresh_id (rn_coord s) ?tid" and inv: "coord_inv (rn_coord s)" using assms(1,2) by (auto simp: run_inv_def)
  then have none: "find_record (rn_coord s) ?tid = None" by (simp add: fresh_id_def)
  obtain res c1 where c1: "create_record ?tid (sp_kind spec) (sp_scope spec) (sp_source spec) (sp_label spec) (sp_authority spec)
      (Some current) (Some (sp_metadata spec)) (sp_parent_task_id spec) False False (rn_coord s) = (res, c1)" by force
  have "length (c_records c1) \<le> Suc (length (c_records (rn_coord s)))"
    using c1 none by (cases rule: create_record_cases) (simp_all add: alist_update_notin map_of_eq_None_iff [symmetric])
  then have ready1: "ready fuel c1"
    using create_record_ok [OF inv fresh c1] assms(3) by (simp add: ready_def creates_def)
  show ?thesis
  proof (cases "sp_detached_from_parent_lifecycle spec \<or> (\<exists>e. res = Inl e)")
    case True
    have "c1 = after_now (rn_coord s)" if "\<exists>e. res = Inl e"
      using c1 that by (cases rule: create_record_cases) auto
    with True c1 none show ?thesis by (auto simp: run_inline_def Let_def)
  next
    case False
    then have res: "\<not> sp_detached_from_parent_lifecycle spec" "res = Inr ()" by (cases res; simp)+
    obtain res2 c2 where m: "(if start_now then mark_started ?tid c1 else (Inr (), c1)) = (res2, c2)" by force
    then have ready2: "ready fuel (rn_coord (s\<lparr>rn_coord := c2\<rparr>))"
      using ready1 tame_step_ok [OF mark_started_ok] by (auto simp: tame_change_def split: if_splits)
    have R: "\<exists>out s'. Option.bind (run_and_publish fuel expired ?tid spec hooks (run task) (s\<lparr>rn_coord := c2\<rparr>))
        (close_runner_tracking fuel ?tid (sp_kind spec)) = Some (out, s') \<and> ended ?tid (rn_coord s')" for task
    proof -
      have "tame fuel ?tid (run task)" using assms(4) by blast
      then obtain out s3 where r: "run_and_publish fuel expired ?tid spec hooks (run task) (s\<lparr>rn_coord := c2\<rparr>) = Some (out, s3)"
        "ready fuel (rn_coord s3)"
        using run_and_publish_returns [OF ready2 _ assms(5), of "run task" expired spec] ready2
        by (auto simp: tame_change_def)
      from close_runner_tracking_ends [OF r(2), of ?tid "sp_kind spec" out] r(1) show ?thesis by auto
    qed
    have E: "\<exists>out s'. close_runner_tracking fuel ?tid (sp_kind spec) (Body_Raises e, s\<lparr>rn_coord := c2\<rparr>) = Some (out, s') \<and>
        ended ?tid (rn_coord s')" for e :: exn_info
      using close_runner_tracking_ends [OF ready2, of ?tid "sp_kind spec"] by blast
    have body: "run_inline fuel expired current uuid spec hooks start_now run s =
        (case (res2, c2) of
           (Inl e, c2) \<Rightarrow> close_runner_tracking fuel ?tid (sp_kind spec) (Body_Raises (exn_info_of e), s\<lparr>rn_coord := c2\<rparr>)
         | (Inr _, c2) \<Rightarrow> (case get_task ?tid c2 of
              None \<Rightarrow> close_runner_tracking fuel ?tid (sp_kind spec)
                (Body_Raises (exn_info_of (RuntimeError (''Execution task disappeared: '' @ ?tid))), s\<lparr>rn_coord := c2\<rparr>)
            | Some task \<Rightarrow> Option.bind (run_and_publish fuel expired ?tid spec hooks (run task) (s\<lparr>rn_coord := c2\<rparr>))
                (close_runner_tracking fuel ?tid (sp_kind spec))))"
      using res c1 by (simp add: run_inline_def Let_def m)
    show ?thesis
      unfolding ended_def [symmetric] body using R E by (cases res2; cases "get_task ?tid c2") simp_all
  qed
qed

definition demo_spec :: ExecutionTaskSpec where
  "demo_spec = \<lparr>sp_kind = ''chat'', sp_scope = ''s'', sp_source = ''api'', sp_label = ''l'', sp_authority = alice,
     sp_metadata = [], sp_parent_task_id = Some ''p'', sp_detached_from_parent_lifecycle = False,
     sp_timeout_seconds = Some \<lparr>to_value = 30, to_repr = ''30.0'', to_text = ''30''\<rparr>, sp_timeout_reason = None\<rparr>"

definition demo_work :: "ExecutionTaskSnapshot \<Rightarrow> (run_result, unit) effect" where
  "demo_work task s = (Body_Raises \<lparr>exn_type = ''TimeoutError'', exn_str = [], exn_provider_error = None, exn_class = Plain_Exception\<rparr>, s)"

theorem background_task_ends_witness:
  "\<exists>out s'. background_run 9 (\<lambda>_. True) 7 ''k1'' demo_spec None True demo_work (new_ExecutionTaskRunner demo) = Some (out, s')"
proof -
  have "ready 9 (rn_coord (new_ExecutionTaskRunner demo))"
    using reachable_inv [OF demo_reachable] by (simp add: ready_def new_ExecutionTaskRunner_def demo_records)
  moreover have "\<forall>task. tame 9 ''k1'' (demo_work task)" by (simp add: tame_def demo_work_def)
  moreover have "tame_hooks 9 ''k1'' None" by (simp add: tame_hooks_def)
  ultimately show ?thesis using background_task_ends by blast
qed

theorem inline_task_ends_witness:
  "\<exists>out s'. run_inline 9 (\<lambda>_. True) 7 ''x'' demo_spec None True demo_work (new_ExecutionTaskRunner demo) = Some (out, s')"
proof -
  have "run_inv (demo_ids, rn_coord (new_ExecutionTaskRunner demo))"
    using reachable_run_inv [OF demo_reachable] by (simp add: new_ExecutionTaskRunner_def)
  moreover have "new_task_id ''x'' \<notin> set demo_ids" by (simp add: new_task_id_def)
  moreover have "Suc (length (c_records (rn_coord (new_ExecutionTaskRunner demo)))) \<le> 9"
    by (simp add: new_ExecutionTaskRunner_def demo_records)
  moreover have "\<forall>task. tame 9 (new_task_id ''x'') (demo_work task)" by (simp add: tame_def demo_work_def)
  moreover have "tame_hooks 9 (new_task_id ''x'') None" by (simp add: tame_hooks_def)
  ultimately show ?thesis using inline_task_ends by blast
qed

end
