(* ===== verification/Workflow_Runs.thy ===== *)
theory Workflow_Runs
  imports Json_Value Lifecycle Complex_Main "HOL-Library.Product_Lexorder"
begin

text \<open>
  Durable workflow history (core/workflow_runs/store.py with the table, the unique index and the
  view of core/workflow_runs/schema.py). The table is the list of its rows. A JSON column is the
  value whose text \<open>json.dumps(..., ensure_ascii=True, sort_keys=True)\<close> is stored, so that reading a
  row back needs no parser; text columns, timestamps included, are strings and are compared as
  strings, as SQLite does. Instants are UTC; \<open>now\<close> is the reading of \<open>datetime.now(UTC)\<close> that stands
  in for a missing argument. A method is one transaction on the table.
\<close>

section \<open>Data\<close>

definition ACTIVE_WORKFLOW_RUN_STATUSES :: "string list" where
  "ACTIVE_WORKFLOW_RUN_STATUSES = [''queued'', ''running'']"

definition TERMINAL_WORKFLOW_RUN_STATUSES :: "string list" where
  "TERMINAL_WORKFLOW_RUN_STATUSES =
     [''completed'', ''failed'', ''skipped'', ''cancelled'', ''timed_out'', ''missed'']"

definition WORKFLOW_RUN_RETENTION_DAYS :: nat where "WORKFLOW_RUN_RETENTION_DAYS = 90"
definition WORKFLOW_RUN_MAX_PER_WORKFLOW :: nat where "WORKFLOW_RUN_MAX_PER_WORKFLOW = 500"
definition MAX_TEXT_LENGTH :: nat where "MAX_TEXT_LENGTH = 4000"
definition MAX_FAILURE_JSON_LENGTH :: nat where "MAX_FAILURE_JSON_LENGTH = 16000"
definition MAX_OUTPUT_FILES :: nat where "MAX_OUTPUT_FILES = 100"

record WorkflowRunRecord =
  wr_run_id :: string
  wr_workflow_id :: string
  wr_workflow_name :: string
  wr_vault_name :: string
  wr_source :: string
  wr_owner_principal_id :: string
  wr_status :: string
  wr_queued_at :: string
  wr_task_id :: "string option"
  wr_step_name :: "string option"
  wr_scheduler_job_id :: "string option"
  wr_scheduler_event_key :: "string option"
  wr_scheduled_run_time :: "string option"
  wr_reason :: "string option"
  wr_message :: "string option"
  wr_failure :: "json option"
  wr_output_files :: "string list"
  wr_execution_time_seconds :: "rat option"
  wr_started_at :: "string option"
  wr_completed_at :: "string option"

type_synonym run_table = "WorkflowRunRecord list"

section \<open>Text and JSON cleaning\<close>

definition wf_optional_text :: "string option \<Rightarrow> string option" where
  "wf_optional_text v =
     (let clean = strip (case v of None \<Rightarrow> [] | Some s \<Rightarrow> s) in if clean = [] then None else Some clean)"

definition wf_required_text :: "string option \<Rightarrow> string \<Rightarrow> string result" where
  "wf_required_text v field_name =
     (case wf_optional_text v of
        None \<Rightarrow> Inl (ValueError (field_name @ '' is required'')) | Some clean \<Rightarrow> Inr clean)"

definition wf_bounded_text :: "string option \<Rightarrow> string option" where
  "wf_bounded_text v = map_option (take MAX_TEXT_LENGTH) (wf_optional_text v)"

text \<open>The value whose text is stored, for a dict argument.\<close>

definition wf_bounded_json :: "(string, json) dict option \<Rightarrow> nat \<Rightarrow> json option" where
  "wf_bounded_json v max_length =
     (case v of
        None \<Rightarrow> None
      | Some d \<Rightarrow>
          if d = [] then None
          else (let encoded = json_dumps True (JDict d)
                in if length encoded > max_length
                   then Some (JDict [(''truncated'', JBool True), (''summary'', JStr (take (max_length - 40) encoded))])
                   else Some (JDict d)))"

definition wf_output_files :: "string list option \<Rightarrow> string list" where
  "wf_output_files values =
     map (take MAX_TEXT_LENGTH) (take MAX_OUTPUT_FILES (case values of None \<Rightarrow> [] | Some vs \<Rightarrow> vs))"

definition wf_terminal_status :: "string option \<Rightarrow> string result" where
  "wf_terminal_status v =
     rbind (wf_required_text v ''status'') (\<lambda>clean.
       let clean = py_lower clean
       in if clean \<in> set TERMINAL_WORKFLOW_RUN_STATUSES then Inr clean
          else Inl (ValueError (''Unsupported workflow run terminal status '' @ [CHR 0x27] @ clean @ [CHR 0x27] @
                 ''. Expected: '' @ str_join '', '' (sort TERMINAL_WORKFLOW_RUN_STATUSES))))"

definition wf_optional_duration :: "rat option \<Rightarrow> rat option" where
  "wf_optional_duration v = map_option (\<lambda>d. max d 0) v"

definition wf_iso_timestamp :: "datetime \<Rightarrow> datetime option \<Rightarrow> string" where
  "wf_iso_timestamp now v = isoformat_millis (case v of None \<Rightarrow> now | Some t \<Rightarrow> t)"

section \<open>Queries\<close>

definition find_run :: "run_table \<Rightarrow> string \<Rightarrow> WorkflowRunRecord option" where
  "find_run table run_id = find (\<lambda>r. wr_run_id r = run_id) table"

definition wf_require_run :: "run_table \<Rightarrow> string \<Rightarrow> WorkflowRunRecord result" where
  "wf_require_run table run_id =
     (case find_run table run_id of
        None \<Rightarrow> Inl (ValueError (''Workflow run not found: '' @ run_id)) | Some r \<Rightarrow> Inr r)"

text \<open>\<open>ORDER BY completed_at DESC, run_id DESC\<close> among rows with a completion time.\<close>

definition completed :: "WorkflowRunRecord \<Rightarrow> bool" where
  "completed r \<longleftrightarrow> wr_completed_at r \<noteq> None"

definition completion_key :: "WorkflowRunRecord \<Rightarrow> string \<times> string" where
  "completion_key r = (case wr_completed_at r of None \<Rightarrow> [] | Some t \<Rightarrow> t, wr_run_id r)"

definition terminal_rows :: "run_table \<Rightarrow> string \<Rightarrow> run_table" where
  "terminal_rows table workflow_id = filter (\<lambda>r. completed r \<and> wr_workflow_id r = workflow_id) table"

text \<open>The view \<open>workflow_latest_runs\<close>.\<close>

definition is_latest :: "run_table \<Rightarrow> WorkflowRunRecord \<Rightarrow> bool" where
  "is_latest table r \<longleftrightarrow> completed r \<and>
     list_all (\<lambda>candidate. completion_key candidate \<le> completion_key r) (terminal_rows table (wr_workflow_id r))"

definition workflow_latest_runs :: "run_table \<Rightarrow> run_table" where
  "workflow_latest_runs table = filter (is_latest table) table"

definition get_run :: "run_table \<Rightarrow> string option \<Rightarrow> WorkflowRunRecord option result" where
  "get_run table run_id = rbind (wf_required_text run_id ''run_id'') (\<lambda>rid. Inr (find_run table rid))"

definition get_latest_run :: "run_table \<Rightarrow> string option \<Rightarrow> WorkflowRunRecord option result" where
  "get_latest_run table workflow_id =
     rbind (wf_required_text workflow_id ''workflow_id'') (\<lambda>wid.
       Inr (find (\<lambda>r. wr_workflow_id r = wid) (workflow_latest_runs table)))"

text \<open>\<open>ORDER BY COALESCE(completed_at, started_at, queued_at) DESC, run_id DESC\<close>\<close>

definition history_key :: "WorkflowRunRecord \<Rightarrow> string \<times> string" where
  "history_key r =
     (case wr_completed_at r of
        Some t \<Rightarrow> t
      | None \<Rightarrow> (case wr_started_at r of Some t \<Rightarrow> t | None \<Rightarrow> wr_queued_at r), wr_run_id r)"

definition clean_limit :: "int \<Rightarrow> nat" where
  "clean_limit limit = nat (max 1 (min limit 500))"

definition list_runs :: "run_table \<Rightarrow> string option \<Rightarrow> int \<Rightarrow> WorkflowRunRecord list result" where
  "list_runs table workflow_id limit =
     rbind (wf_required_text workflow_id ''workflow_id'') (\<lambda>wid.
       Inr (take (clean_limit limit) (rev (sort_key history_key (filter (\<lambda>r. wr_workflow_id r = wid) table)))))"

definition list_runs_by_workflow_name :: "run_table \<Rightarrow> string option \<Rightarrow> int \<Rightarrow> WorkflowRunRecord list result" where
  "list_runs_by_workflow_name table workflow_name limit =
     rbind (wf_required_text workflow_name ''workflow_name'') (\<lambda>name.
       Inr (take (clean_limit limit) (rev (sort_key history_key (filter (\<lambda>r. wr_workflow_name r = name) table)))))"

text \<open>\<open>ORDER BY completed_at DESC, workflow_id\<close>: a stable sort by the second key, then by the first.\<close>

definition list_latest_runs :: "run_table \<Rightarrow> WorkflowRunRecord list" where
  "list_latest_runs table =
     rev (sort_key (\<lambda>r. fst (completion_key r)) (rev (sort_key wr_workflow_id (workflow_latest_runs table))))"

section \<open>Retention\<close>

definition prune_expired :: "string \<Rightarrow> run_table \<Rightarrow> run_table" where
  "prune_expired cutoff table =
     filter (\<lambda>r. \<not> ((case wr_completed_at r of None \<Rightarrow> False | Some t \<Rightarrow> t < cutoff) \<and>
                    wr_run_id r \<notin> wr_run_id ` set (workflow_latest_runs table))) table"

text \<open>\<open>ROW_NUMBER() OVER (PARTITION BY workflow_id ORDER BY completed_at DESC, run_id DESC)\<close>\<close>

definition run_position :: "run_table \<Rightarrow> WorkflowRunRecord \<Rightarrow> nat" where
  "run_position table r =
     Suc (length (filter (\<lambda>s. completion_key r < completion_key s) (terminal_rows table (wr_workflow_id r))))"

definition prune_overflow :: "run_table \<Rightarrow> run_table" where
  "prune_overflow table =
     filter (\<lambda>r. \<not> (completed r \<and> run_position table r > WORKFLOW_RUN_MAX_PER_WORKFLOW)) table"

definition prune_in_conn :: "datetime \<Rightarrow> datetime option \<Rightarrow> run_table \<Rightarrow> run_table" where
  "prune_in_conn now stamp table =
     (let cutoff = (case stamp of None \<Rightarrow> now | Some t \<Rightarrow> t) - timedelta_days WORKFLOW_RUN_RETENTION_DAYS
      in prune_overflow (prune_expired (isoformat_millis cutoff) table))"

section \<open>Updates\<close>

text \<open>The primary key and the unique index on scheduler event keys.\<close>

definition insert_run :: "WorkflowRunRecord \<Rightarrow> run_table \<Rightarrow> run_table result" where
  "insert_run r table =
     (if wr_run_id r \<in> wr_run_id ` set table then Inl (IntegrityError ''UNIQUE constraint failed: workflow_runs.run_id'')
      else if wr_scheduler_event_key r \<noteq> None \<and> wr_scheduler_event_key r \<in> wr_scheduler_event_key ` set table
      then Inl (IntegrityError ''UNIQUE constraint failed: workflow_runs.scheduler_event_key'')
      else Inr (table @ [r]))"

definition new_run ::
  "string \<Rightarrow> string \<Rightarrow> string \<Rightarrow> string \<Rightarrow> string \<Rightarrow> string \<Rightarrow> string \<Rightarrow> string \<Rightarrow> WorkflowRunRecord" where
  "new_run run_id workflow_id workflow_name vault_name source owner status queued_at =
     \<lparr>wr_run_id = run_id, wr_workflow_id = workflow_id, wr_workflow_name = workflow_name, wr_vault_name = vault_name,
      wr_source = source, wr_owner_principal_id = owner, wr_status = status, wr_queued_at = queued_at,
      wr_task_id = None, wr_step_name = None, wr_scheduler_job_id = None, wr_scheduler_event_key = None,
      wr_scheduled_run_time = None, wr_reason = None, wr_message = None, wr_failure = None, wr_output_files = [],
      wr_execution_time_seconds = None, wr_started_at = None, wr_completed_at = None\<rparr>"

definition create_run ::
  "datetime \<Rightarrow> string \<Rightarrow> string option \<Rightarrow> string option \<Rightarrow> string option \<Rightarrow> string option \<Rightarrow> string option \<Rightarrow> string option \<Rightarrow>
   string option \<Rightarrow> string option \<Rightarrow> string option \<Rightarrow> datetime option \<Rightarrow> run_table \<Rightarrow> WorkflowRunRecord result \<times> run_table" where
  "create_run now uuid_hex workflow_id workflow_name vault_name source owner task_id step_name scheduler_job_id
     scheduled_run_time queued_at table =
     (let run_id = ''run_'' @ uuid_hex;
          row = rbind (wf_required_text workflow_id ''workflow_id'') (\<lambda>wid.
                rbind (wf_required_text workflow_name ''workflow_name'') (\<lambda>wname.
                rbind (wf_required_text vault_name ''vault_name'') (\<lambda>vault.
                rbind (wf_required_text source ''source'') (\<lambda>src.
                rbind (wf_required_text owner ''owner_principal_id'') (\<lambda>own.
                  Inr ((new_run run_id wid wname vault src own ''queued'' (wf_iso_timestamp now queued_at))
                    \<lparr>wr_task_id := wf_optional_text task_id, wr_step_name := wf_optional_text step_name,
                     wr_scheduler_job_id := wf_optional_text scheduler_job_id,
                     wr_scheduled_run_time := wf_optional_text scheduled_run_time\<rparr>))))))
      in case rbind row (\<lambda>r. insert_run r table) of
           Inl e \<Rightarrow> (Inl e, table)
         | Inr table' \<Rightarrow> (wf_require_run table' run_id, table'))"

definition run_started :: "string \<Rightarrow> WorkflowRunRecord \<Rightarrow> WorkflowRunRecord" where
  "run_started t r =
     r\<lparr>wr_status := ''running'', wr_started_at := (case wr_started_at r of None \<Rightarrow> Some t | Some s \<Rightarrow> Some s)\<rparr>"

definition run_mark_started ::
  "datetime \<Rightarrow> string option \<Rightarrow> datetime option \<Rightarrow> run_table \<Rightarrow> WorkflowRunRecord result \<times> run_table" where
  "run_mark_started now run_id started_at table =
     (case wf_required_text run_id ''run_id'' of
        Inl e \<Rightarrow> (Inl e, table)
      | Inr rid \<Rightarrow>
          (let table' = map (\<lambda>r. if wr_run_id r = rid \<and> wr_status r = ''queued''
                                then run_started (wf_iso_timestamp now started_at) r else r) table
           in (wf_require_run table' rid, table')))"

definition run_finalized ::
  "string \<Rightarrow> string option \<Rightarrow> string option \<Rightarrow> json option \<Rightarrow> string list \<Rightarrow> rat option \<Rightarrow> string \<Rightarrow>
   WorkflowRunRecord \<Rightarrow> WorkflowRunRecord" where
  "run_finalized status reason message failure outputs duration completed_at r =
     r\<lparr>wr_status := status, wr_reason := reason, wr_message := message, wr_failure := failure,
       wr_output_files := outputs, wr_execution_time_seconds := duration, wr_completed_at := Some completed_at\<rparr>"

definition finalize_run ::
  "datetime \<Rightarrow> string option \<Rightarrow> string option \<Rightarrow> string option \<Rightarrow> string option \<Rightarrow> (string, json) dict option \<Rightarrow>
   string list option \<Rightarrow> rat option \<Rightarrow> datetime option \<Rightarrow> run_table \<Rightarrow> WorkflowRunRecord result \<times> run_table" where
  "finalize_run now run_id status reason message failure output_files execution_time_seconds completed_at table =
     (case rbind (wf_required_text run_id ''run_id'') (\<lambda>rid. rbind (wf_terminal_status status) (\<lambda>st. Inr (rid, st))) of
        Inl e \<Rightarrow> (Inl e, table)
      | Inr (rid, st) \<Rightarrow>
          (let active = (\<lambda>r. wr_run_id r = rid \<and> wr_status r \<in> set ACTIVE_WORKFLOW_RUN_STATUSES)
           in if \<not> list_ex active table
              then (rbind (wf_require_run table rid) (\<lambda>existing.
                      if wr_status existing \<notin> set TERMINAL_WORKFLOW_RUN_STATUSES
                      then Inl (RuntimeError (''Workflow run could not be finalized: '' @ rid))
                      else Inr existing), table)
              else (let upd = run_finalized st (wf_bounded_text reason) (wf_bounded_text message)
                                (wf_bounded_json failure MAX_FAILURE_JSON_LENGTH) (wf_output_files output_files)
                                (wf_optional_duration execution_time_seconds) (wf_iso_timestamp now completed_at);
                        table' = prune_in_conn now completed_at (map (\<lambda>r. if active r then upd r else r) table)
                    in (wf_require_run table' rid, table'))))"

text \<open>The row \<open>record_terminal_run\<close> inserts, after validation in the order of the argument tuple.\<close>

definition terminal_run_row ::
  "string \<Rightarrow> string \<Rightarrow> string option \<Rightarrow> string option \<Rightarrow> string option \<Rightarrow> string option \<Rightarrow> string option \<Rightarrow> string option \<Rightarrow>
   string option \<Rightarrow> string option \<Rightarrow> string option \<Rightarrow> string option \<Rightarrow> string option \<Rightarrow> WorkflowRunRecord result" where
  "terminal_run_row run_id stamp workflow_id workflow_name vault_name source owner status reason message
     scheduler_job_id clean_event_key scheduled_run_time =
     rbind (wf_required_text workflow_id ''workflow_id'') (\<lambda>wid.
     rbind (wf_required_text workflow_name ''workflow_name'') (\<lambda>wname.
     rbind (wf_required_text vault_name ''vault_name'') (\<lambda>vault.
     rbind (wf_required_text source ''source'') (\<lambda>src.
     rbind (wf_required_text owner ''owner_principal_id'') (\<lambda>own.
     rbind (wf_terminal_status status) (\<lambda>st.
       Inr ((new_run run_id wid wname vault src own st
               (case wf_optional_text scheduled_run_time of None \<Rightarrow> stamp | Some t \<Rightarrow> t))
         \<lparr>wr_scheduler_job_id := wf_optional_text scheduler_job_id, wr_scheduler_event_key := clean_event_key,
          wr_scheduled_run_time := wf_optional_text scheduled_run_time,
          wr_reason := wf_bounded_text reason, wr_message := wf_bounded_text message,
          wr_completed_at := Some stamp\<rparr>)))))))"

definition record_terminal_run ::
  "datetime \<Rightarrow> string \<Rightarrow> string option \<Rightarrow> string option \<Rightarrow> string option \<Rightarrow> string option \<Rightarrow> string option \<Rightarrow> string option \<Rightarrow>
   string option \<Rightarrow> string option \<Rightarrow> string option \<Rightarrow> string option \<Rightarrow> string option \<Rightarrow> datetime option \<Rightarrow> run_table \<Rightarrow>
   WorkflowRunRecord result \<times> run_table" where
  "record_terminal_run now uuid_hex workflow_id workflow_name vault_name source owner status reason message
     scheduler_job_id scheduler_event_key scheduled_run_time completed_at table =
     (let clean_event_key = wf_optional_text scheduler_event_key;
          run_id = ''run_'' @ uuid_hex
      in case terminal_run_row run_id (wf_iso_timestamp now completed_at) workflow_id workflow_name vault_name source
                owner status reason message scheduler_job_id clean_event_key scheduled_run_time of
           Inl e \<Rightarrow> (Inl e, table)
         | Inr r \<Rightarrow>
             (case insert_run r table of
                Inl e \<Rightarrow>
                  (case clean_event_key of
                     None \<Rightarrow> (Inl e, table)
                   | Some key \<Rightarrow>
                       (case find (\<lambda>r. wr_scheduler_event_key r = Some key) table of
                          None \<Rightarrow> (Inl e, table) | Some existing \<Rightarrow> (Inr existing, table)))
              | Inr table' \<Rightarrow>
                  (let table'' = prune_in_conn now completed_at table'
                   in (wf_require_run table'' run_id, table''))))"

end
