(* ===== verification/Workflow_Run_Props.thy ===== *)
theory Workflow_Run_Props
  imports Workflow_Runs
begin

text \<open>
  The workflow history store keeps its promises: a run is finalized once, retention removes only
  what it may and never the latest outcome of a workflow, and a scheduler event is recorded once.
\<close>

section \<open>Invariant\<close>

definition run_row_ok :: "WorkflowRunRecord \<Rightarrow> bool" where
  "run_row_ok r \<longleftrightarrow>
     (wr_status r \<in> set ACTIVE_WORKFLOW_RUN_STATUSES \<and> wr_completed_at r = None) \<or>
     (wr_status r \<in> set TERMINAL_WORKFLOW_RUN_STATUSES \<and> wr_completed_at r \<noteq> None)"

definition run_table_ok :: "run_table \<Rightarrow> bool" where
  "run_table_ok table \<longleftrightarrow> distinct (map wr_run_id table) \<and> list_all run_row_ok table \<and>
     (\<forall>r \<in> set table. \<forall>s \<in> set table. wr_scheduler_event_key r = wr_scheduler_event_key s \<longrightarrow>
        wr_scheduler_event_key r \<noteq> None \<longrightarrow> r = s)"

lemma find_run_Some:
  "distinct (map wr_run_id table) \<Longrightarrow> find_run table k = Some r \<longleftrightarrow> r \<in> set table \<and> wr_run_id r = k"
proof (induction table)
  case (Cons a table)
  then show ?case by (auto simp: find_run_def)
qed (simp add: find_run_def)

lemma find_run_None: "find_run table k = None \<longleftrightarrow> k \<notin> wr_run_id ` set table"
  by (induction table) (auto simp: find_run_def)

lemma run_table_ok_filter: "run_table_ok table \<Longrightarrow> run_table_ok (filter P table)"
  by (auto simp: run_table_ok_def distinct_map_filter list_all_iff)

lemma prune_filter: "\<exists>P. prune_in_conn now stamp table = filter P table"
  unfolding prune_in_conn_def prune_overflow_def prune_expired_def Let_def filter_filter by blast

lemma prune_subset: "set (prune_in_conn now stamp table) \<subseteq> set table"
  by (auto simp: prune_in_conn_def prune_overflow_def prune_expired_def Let_def)

lemma run_table_ok_prune: "run_table_ok table \<Longrightarrow> run_table_ok (prune_in_conn now stamp table)"
  using prune_filter [of now stamp table] run_table_ok_filter by metis

lemma run_table_ok_insert:
  "run_table_ok table \<Longrightarrow> run_row_ok r \<Longrightarrow> insert_run r table = Inr table' \<Longrightarrow> run_table_ok table'"
  by (auto simp: insert_run_def run_table_ok_def list_all_iff rev_image_eqI split: if_splits)

lemma run_table_ok_map:
  assumes ok: "run_table_ok table"
    and f: "\<And>r. wr_run_id (f r) = wr_run_id r" "\<And>r. wr_scheduler_event_key (f r) = wr_scheduler_event_key r"
      "\<And>r. run_row_ok r \<Longrightarrow> run_row_ok (f r)"
  shows "run_table_ok (map f table)"
proof -
  have "distinct (map wr_run_id (map f table))" using ok f(1) by (simp add: run_table_ok_def comp_def)
  moreover have "list_all run_row_ok (map f table)" using ok f(3) by (simp add: run_table_ok_def list_all_iff)
  ultimately show ?thesis using ok f(2) unfolding run_table_ok_def by auto
qed

lemma active_not_terminal:
  "s \<in> set ACTIVE_WORKFLOW_RUN_STATUSES \<Longrightarrow> s \<notin> set TERMINAL_WORKFLOW_RUN_STATUSES"
  by (auto simp: ACTIVE_WORKFLOW_RUN_STATUSES_def TERMINAL_WORKFLOW_RUN_STATUSES_def)

lemma terminal_status_in: "wf_terminal_status v = Inr st \<Longrightarrow> st \<in> set TERMINAL_WORKFLOW_RUN_STATUSES"
  by (auto simp: wf_terminal_status_def Let_def split: if_splits)

section \<open>Steps\<close>

text \<open>A state of a run of the store is the table with the run ids given out so far.\<close>

inductive run_store_step :: "string list \<times> run_table \<Rightarrow> string list \<times> run_table \<Rightarrow> bool" where
  rs_create: "''run_'' @ uuid \<notin> set ids \<Longrightarrow>
    create_run now uuid wid wname vault src owner task step job sched queued table = (res, table') \<Longrightarrow>
    run_store_step (ids, table) ((''run_'' @ uuid) # ids, table')"
| rs_start: "run_mark_started now rid started table = (res, table') \<Longrightarrow> run_store_step (ids, table) (ids, table')"
| rs_finalize: "finalize_run now rid status reason message failure outputs duration stamp table = (res, table') \<Longrightarrow>
    run_store_step (ids, table) (ids, table')"
| rs_record: "''run_'' @ uuid \<notin> set ids \<Longrightarrow>
    record_terminal_run now uuid wid wname vault src owner status reason message job key sched stamp table = (res, table') \<Longrightarrow>
    run_store_step (ids, table) ((''run_'' @ uuid) # ids, table')"

definition run_store_inv :: "string list \<times> run_table \<Rightarrow> bool" where
  "run_store_inv s \<longleftrightarrow> run_table_ok (snd s) \<and> wr_run_id ` set (snd s) \<subseteq> set (fst s)"

text \<open>What an operation does to the rows: it changes active rows only, adds at most a row under a new
  id, and removes rows.\<close>

definition rows_evolve :: "string option \<Rightarrow> run_table \<Rightarrow> run_table \<Rightarrow> bool" where
  "rows_evolve new table table' \<longleftrightarrow>
     (\<forall>r' \<in> set table'. Some (wr_run_id r') = new \<or>
        (\<exists>r \<in> set table. wr_run_id r' = wr_run_id r \<and>
           (wr_status r \<in> set TERMINAL_WORKFLOW_RUN_STATUSES \<longrightarrow> r' = r)))"

lemma rows_evolve_prune: "rows_evolve new table table1 \<Longrightarrow> rows_evolve new table (prune_in_conn now stamp table1)"
  using prune_filter [of now stamp table1] by (auto simp: rows_evolve_def)

lemma rows_evolve_refl [simp]: "rows_evolve new table table"
  by (auto simp: rows_evolve_def)

lemma create_run_spec:
  assumes "create_run now uuid wid wname vault src owner task step job sched queued table = (res, table')"
  shows "table' = table \<or> (\<exists>r. insert_run r table = Inr table' \<and> wr_run_id r = ''run_'' @ uuid \<and> run_row_ok r)"
  using assms
  by (auto simp: create_run_def Let_def new_run_def run_row_ok_def ACTIVE_WORKFLOW_RUN_STATUSES_def split: sum.splits)

lemma terminal_run_row_spec:
  "terminal_run_row rid stamp wid wname vault src owner status reason message job key sched = Inr r \<Longrightarrow>
   wr_run_id r = rid \<and> run_row_ok r \<and> wr_completed_at r = Some stamp \<and> wr_scheduler_event_key r = key"
  by (auto simp: terminal_run_row_def new_run_def run_row_ok_def dest: terminal_status_in)

lemma record_terminal_run_spec:
  assumes "record_terminal_run now uuid wid wname vault src owner status reason message job key sched stamp table = (res, table')"
  shows "table' = table \<or> (\<exists>r table1. insert_run r table = Inr table1 \<and> wr_run_id r = ''run_'' @ uuid \<and> run_row_ok r \<and>
           table' = prune_in_conn now stamp table1)"
  using assms
  by (auto simp: record_terminal_run_def Let_def dest: terminal_run_row_spec split: sum.splits option.splits)

lemma finalize_run_spec:
  assumes "finalize_run now rid status reason message failure outputs duration stamp table = (res, table')"
  shows "table' = table \<or> (\<exists>rid st f. table' = prune_in_conn now stamp
           (map (\<lambda>r. if wr_run_id r = rid \<and> wr_status r \<in> set ACTIVE_WORKFLOW_RUN_STATUSES then f r else r) table) \<and>
           st \<in> set TERMINAL_WORKFLOW_RUN_STATUSES \<and>
           (\<forall>r. wr_run_id (f r) = wr_run_id r \<and> wr_scheduler_event_key (f r) = wr_scheduler_event_key r \<and>
                wr_status (f r) = st \<and> wr_completed_at (f r) \<noteq> None))"
proof (cases "rbind (wf_required_text rid ''run_id'') (\<lambda>rid. rbind (wf_terminal_status status) (\<lambda>st. Inr (rid, st)))")
  case (Inl e)
  with assms show ?thesis by (simp add: finalize_run_def)
next
  case (Inr p)
  obtain k st where p: "p = (k, st)" by (cases p)
  with Inr have st: "st \<in> set TERMINAL_WORKFLOW_RUN_STATUSES"
    by (cases "wf_required_text rid ''run_id''"; cases "wf_terminal_status status") (auto dest: terminal_status_in)
  define upd where "upd = run_finalized st (wf_bounded_text reason) (wf_bounded_text message)
    (wf_bounded_json failure MAX_FAILURE_JSON_LENGTH) (wf_output_files outputs)
    (wf_optional_duration duration) (wf_iso_timestamp now stamp)"
  have "table' = table \<or> table' = prune_in_conn now stamp
      (map (\<lambda>r. if wr_run_id r = k \<and> wr_status r \<in> set ACTIVE_WORKFLOW_RUN_STATUSES then upd r else r) table)"
    using assms unfolding finalize_run_def Inr p upd_def by (auto simp: Let_def split: if_splits)
  moreover have "\<forall>r. wr_run_id (upd r) = wr_run_id r \<and> wr_scheduler_event_key (upd r) = wr_scheduler_event_key r \<and>
      wr_status (upd r) = st \<and> wr_completed_at (upd r) \<noteq> None"
    by (simp add: upd_def run_finalized_def)
  ultimately show ?thesis using st by blast
qed

lemma active_map:
  assumes "run_table_ok table"
    and "\<And>r. wr_run_id (f r) = wr_run_id r" "\<And>r. wr_scheduler_event_key (f r) = wr_scheduler_event_key r"
      "\<And>r. run_row_ok r \<Longrightarrow> run_row_ok (f r)" "\<And>r. wr_status r \<in> set TERMINAL_WORKFLOW_RUN_STATUSES \<Longrightarrow> f r = r"
  shows "run_table_ok (map f table) \<and> rows_evolve None table (map f table) \<and> wr_run_id ` set (map f table) = wr_run_id ` set table"
  using run_table_ok_map [of table f] assms by (auto simp: rows_evolve_def image_image)

lemma run_store_inv_step:
  assumes "run_store_step s s'" and "run_store_inv s"
  shows "run_store_inv s' \<and> (\<exists>new. (new = None \<and> fst s' = fst s \<or> (\<exists>k. new = Some k \<and> k \<notin> set (fst s) \<and> fst s' = k # fst s)) \<and>
           rows_evolve new (snd s) (snd s'))"
  using assms(1)
proof cases
  case (rs_create uuid ids now wid wname vault src owner task step job sched queued table res table')
  from create_run_spec [OF rs_create(4)] show ?thesis
    using assms(2) rs_create run_table_ok_insert
    by (fastforce simp: run_store_inv_def rows_evolve_def insert_run_def split: if_splits)
next
  case (rs_record uuid ids now wid wname vault src owner status reason message job key sched stamp table res table')
  from record_terminal_run_spec [OF rs_record(4)] show ?thesis
  proof (elim disjE exE conjE)
    assume "table' = table"
    then show ?thesis using assms(2) rs_record by (auto simp: run_store_inv_def)
  next
    fix r table1
    assume r: "insert_run r table = Inr table1" "wr_run_id r = ''run_'' @ uuid" "run_row_ok r"
      and t: "table' = prune_in_conn now stamp table1"
    have "run_table_ok table1" using run_table_ok_insert r assms(2) rs_record by (auto simp: run_store_inv_def)
    then have "run_table_ok table'" unfolding t by (rule run_table_ok_prune)
    moreover have "set table' \<subseteq> insert r (set table)"
      using prune_filter [of now stamp table1] r(1) unfolding t by (auto simp: insert_run_def split: if_splits)
    moreover have "rows_evolve (Some (''run_'' @ uuid)) table table'"
      using calculation(2) r(2) by (auto simp: rows_evolve_def)
    ultimately show ?thesis using assms(2) rs_record r(2) by (auto simp: run_store_inv_def)
  qed
next
  case (rs_start now rid started table res table' ids)
  have ok: "run_table_ok table" using assms(2) rs_start by (simp add: run_store_inv_def)
  have "run_table_ok table' \<and> rows_evolve None table table' \<and> wr_run_id ` set table' = wr_run_id ` set table"
  proof (cases "wf_required_text rid ''run_id''")
    case (Inl e)
    with rs_start ok show ?thesis by (auto simp: run_mark_started_def)
  next
    case (Inr k)
    with rs_start have t: "table' = map (\<lambda>r. if wr_run_id r = k \<and> wr_status r = ''queued''
        then run_started (wf_iso_timestamp now started) r else r) table"
      by (auto simp: run_mark_started_def Let_def)
    show ?thesis
      unfolding t using ok
      by (intro active_map) (auto simp: run_started_def run_row_ok_def ACTIVE_WORKFLOW_RUN_STATUSES_def
          TERMINAL_WORKFLOW_RUN_STATUSES_def)
  qed
  then show ?thesis using assms(2) rs_start by (auto simp: run_store_inv_def)
next
  case (rs_finalize now rid status reason message failure outputs duration stamp table res table' ids)
  have ok: "run_table_ok table" using assms(2) rs_finalize by (simp add: run_store_inv_def)
  from finalize_run_spec [OF rs_finalize(3)]
  have "run_table_ok table' \<and> rows_evolve None table table' \<and> wr_run_id ` set table' \<subseteq> wr_run_id ` set table"
  proof (elim disjE exE conjE)
    assume "table' = table" then show ?thesis using ok by simp
  next
    fix k st and f :: "WorkflowRunRecord \<Rightarrow> WorkflowRunRecord"
    let ?f = "\<lambda>r. if wr_run_id r = k \<and> wr_status r \<in> set ACTIVE_WORKFLOW_RUN_STATUSES then f r else r"
    assume t: "table' = prune_in_conn now stamp (map ?f table)" and st: "st \<in> set TERMINAL_WORKFLOW_RUN_STATUSES"
      and f: "\<forall>r. wr_run_id (f r) = wr_run_id r \<and> wr_scheduler_event_key (f r) = wr_scheduler_event_key r \<and>
                wr_status (f r) = st \<and> wr_completed_at (f r) \<noteq> None"
    have m: "run_table_ok (map ?f table) \<and> rows_evolve None table (map ?f table) \<and>
        wr_run_id ` set (map ?f table) = wr_run_id ` set table"
      using ok st f by (intro active_map) (auto simp: run_row_ok_def dest: active_not_terminal)
    have "run_table_ok table'" unfolding t by (rule run_table_ok_prune [OF conjunct1 [OF m]])
    moreover have "rows_evolve None table table'"
      unfolding t by (rule rows_evolve_prune [OF conjunct1 [OF conjunct2 [OF m]]])
    moreover have "wr_run_id ` set table' \<subseteq> wr_run_id ` set (map ?f table)"
      unfolding t by (rule image_mono [OF prune_subset])
    ultimately show ?thesis unfolding conjunct2 [OF conjunct2 [OF m]] by blast
  qed
  then show ?thesis using assms(2) rs_finalize by (auto simp: run_store_inv_def image_subset_iff)
qed

interpretation runs: lifecycle run_store_step run_store_inv "\<lambda>s. find_run (snd s)" "\<lambda>s k. k \<in> set (fst s)"
  "\<lambda>r. wr_status r \<in> set TERMINAL_WORKFLOW_RUN_STATUSES" "\<lambda>r. r"
proof unfold_locales
  fix s s' :: "string list \<times> run_table" and k r r'
  assume step: "run_store_step s s'" and inv: "run_store_inv s"
  obtain new where inv': "run_store_inv s'" and new: "new = None \<and> fst s' = fst s \<or> (\<exists>k. new = Some k \<and> k \<notin> set (fst s) \<and> fst s' = k # fst s)"
    and ev: "rows_evolve new (snd s) (snd s')" using run_store_inv_step [OF step inv] by blast
  show "run_store_inv s'" by (rule inv')
  show "k \<in> set (fst s')" if "k \<in> set (fst s)" using that new by auto
  have dist: "distinct (map wr_run_id (snd s))" "distinct (map wr_run_id (snd s'))"
    using inv inv' by (simp_all add: run_store_inv_def run_table_ok_def)
  show "find_run (snd s') k = None" if "k \<in> set (fst s)" "find_run (snd s) k = None"
    using that new ev unfolding find_run_None rows_evolve_def by fastforce
  show "wr_status r' \<in> set TERMINAL_WORKFLOW_RUN_STATUSES \<and> r' = r"
    if "find_run (snd s) k = Some r" "wr_status r \<in> set TERMINAL_WORKFLOW_RUN_STATUSES" "find_run (snd s') k = Some r'"
  proof -
    from that dist have r: "r \<in> set (snd s)" "wr_run_id r = k" and r': "r' \<in> set (snd s')" "wr_run_id r' = k"
      by (simp_all add: find_run_Some)
    have "k \<in> set (fst s)" using inv r by (auto simp: run_store_inv_def)
    then obtain r0 where "r0 \<in> set (snd s)" "wr_run_id r0 = k"
      "wr_status r0 \<in> set TERMINAL_WORKFLOW_RUN_STATUSES \<longrightarrow> r' = r0"
      using ev r' new unfolding rows_evolve_def by fastforce
    moreover from this r dist(1) have "r0 = r" by (metis find_run_Some option.inject)
    ultimately show ?thesis using that(2) by simp
  qed
next
  show "k \<in> set (fst s)" if "run_store_inv s" "find_run (snd s) k = Some r" for s k r
    using that by (auto simp: run_store_inv_def find_run_Some run_table_ok_def)
qed

section \<open>A finished run keeps its record\<close>

text \<open>
  The invariant holds along every sequence of operations from an empty table, whatever the
  arguments: run ids and scheduler event keys are unique, an active run has no completion time and a
  finished one has a terminal status and a completion time.
\<close>

theorem run_history_well_formed:
  "run_store_step\<^sup>*\<^sup>* ([], []) (ids, table) \<Longrightarrow> run_table_ok table"
  using runs.inv_run [of "([], [])" "(ids, table)"] by (simp add: run_store_inv_def run_table_ok_def)

text \<open>
  C33. A run with a terminal status is never written again: after any further operations of the store
  its record is exactly the same or has been removed by retention, and a run that was removed is not found
  under its id in any state that follows.
\<close>

theorem finished_run_immutable:
  assumes "run_store_step\<^sup>*\<^sup>* ([], []) (ids, table)" and "run_store_step\<^sup>*\<^sup>* (ids, table) (ids', table')"
    and "run_store_step\<^sup>*\<^sup>* (ids', table') (ids'', table'')"
    and "find_run table k = Some r" and "wr_status r \<in> set TERMINAL_WORKFLOW_RUN_STATUSES"
  shows "(\<forall>r'. find_run table' k = Some r' \<longrightarrow> r' = r) \<and> (find_run table' k = None \<longrightarrow> find_run table'' k = None)"
proof -
  have "run_store_inv ([], [])" by (simp add: run_store_inv_def run_table_ok_def)
  then have "run_store_inv (ids, table)" using runs.inv_run [OF assms(1)] by blast
  from runs.final_then_gone [OF assms(2,3) this, of k r] assms(4,5) show ?thesis by simp
qed

section \<open>Retention\<close>

lemma is_latest_prune:
  assumes "r \<in> set (prune_in_conn now stamp table)" and "is_latest table r"
  shows "is_latest (prune_in_conn now stamp table) r"
  using assms prune_subset [of now stamp table] by (auto simp: is_latest_def terminal_rows_def list_all_iff)

lemma latest_position:
  assumes "is_latest table r"
  shows "run_position table r = 1"
proof -
  have "filter (\<lambda>s. completion_key r < completion_key s) (terminal_rows table (wr_workflow_id r)) = []"
    using assms by (auto simp: is_latest_def list_all_iff filter_empty_conv not_less)
  then show ?thesis by (simp add: run_position_def)
qed

lemma is_latest_subset:
  "is_latest table r \<Longrightarrow> set table' \<subseteq> set table \<Longrightarrow> is_latest table' r"
  by (auto simp: is_latest_def terminal_rows_def list_all_iff)

lemma prune_expired_subset: "set (prune_expired cutoff table) \<subseteq> set table"
  by (auto simp: prune_expired_def)

lemma latest_kept:
  assumes "r \<in> set table" and "is_latest table r"
  shows "r \<in> set (prune_in_conn now stamp table)"
proof -
  let ?t = "prune_expired (isoformat_millis ((case stamp of None \<Rightarrow> now | Some t \<Rightarrow> t) - timedelta_days WORKFLOW_RUN_RETENTION_DAYS)) table"
  have "r \<in> set ?t" using assms by (auto simp: prune_expired_def workflow_latest_runs_def)
  moreover have "run_position ?t r = 1"
    using is_latest_subset [OF assms(2) prune_expired_subset] by (rule latest_position)
  ultimately show ?thesis
    by (auto simp: prune_in_conn_def prune_overflow_def Let_def WORKFLOW_RUN_MAX_PER_WORKFLOW_def)
qed

text \<open>Some completed run of a workflow is its latest.\<close>

lemma latest_exists:
  assumes "r \<in> set table" and "completed r"
  obtains l where "l \<in> set table" "wr_workflow_id l = wr_workflow_id r" "is_latest table l"
proof -
  let ?rows = "terminal_rows table (wr_workflow_id r)"
  have ne: "completion_key ` set ?rows \<noteq> {}" using assms by (auto simp: terminal_rows_def)
  then obtain l where l: "l \<in> set ?rows" "completion_key l = Max (completion_key ` set ?rows)"
    using Max_in [OF _ ne] by fastforce
  then have "\<forall>s \<in> set ?rows. completion_key s \<le> completion_key l" by (metis Max_ge finite_imageI finite_set imageI)
  with l(1) show ?thesis by (intro that [of l]) (auto simp: is_latest_def terminal_rows_def list_all_iff)
qed

lemma latest_unique:
  assumes "distinct (map wr_run_id table)" and "r \<in> set table" "s \<in> set table"
    and "is_latest table r" "is_latest table s" "wr_workflow_id r = wr_workflow_id s"
  shows "r = s"
proof -
  have "completion_key s \<le> completion_key r" "completion_key r \<le> completion_key s"
    using assms by (auto simp: is_latest_def list_all_iff terminal_rows_def)
  then have "wr_run_id r = wr_run_id s" by (auto simp: completion_key_def)
  with assms(1-3) show ?thesis by (metis find_run_Some option.inject)
qed

text \<open>
  C23. Retention never changes what the view workflow_latest_runs shows: the latest outcome of every
  workflow survives, however old it is and however many runs the workflow has, and no older run takes
  its place.
\<close>

theorem latest_runs_survive_retention:
  assumes "run_table_ok table"
  shows "workflow_latest_runs (prune_in_conn now stamp table) = workflow_latest_runs table"
proof -
  let ?t = "prune_in_conn now stamp table"
  have dist: "distinct (map wr_run_id table)" using assms by (simp add: run_table_ok_def)
  have same: "is_latest ?t r \<longleftrightarrow> is_latest table r" if r: "r \<in> set ?t" for r
  proof
    assume l: "is_latest ?t r"
    then have c: "completed r" by (simp add: is_latest_def)
    have r': "r \<in> set table" using r prune_subset by blast
    obtain l' where l': "l' \<in> set table" "wr_workflow_id l' = wr_workflow_id r" "is_latest table l'"
      using latest_exists [OF r' c] .
    have "l' \<in> set ?t" "is_latest ?t l'"
      using latest_kept [OF l'(1,3), of now stamp] is_latest_prune l'(3) by simp_all
    moreover have "distinct (map wr_run_id ?t)"
      using run_table_ok_prune [OF assms] by (simp add: run_table_ok_def)
    ultimately have "l' = r" using latest_unique r l l'(2) by blast
    with l'(3) show "is_latest table r" by simp
  qed (use r is_latest_prune in blast)
  obtain P where P: "?t = filter P table" using prune_filter by blast
  have "P r" if "r \<in> set table" "is_latest table r" for r
    using latest_kept [OF that, of now stamp] unfolding P by simp
  moreover have "workflow_latest_runs ?t = filter (is_latest table) ?t"
    unfolding workflow_latest_runs_def using same by (auto intro: filter_cong)
  ultimately show ?thesis
    unfolding P workflow_latest_runs_def by (auto simp: P intro!: filter_cong)
qed

lemma completion_key_inj:
  assumes "distinct (map wr_run_id table)" "r \<in> set table" "s \<in> set table" "completion_key r = completion_key s"
  shows "r = s"
proof -
  have "wr_run_id r = wr_run_id s" using assms(4) by (auto simp: completion_key_def)
  with assms(1-3) show ?thesis by (metis find_run_Some option.inject)
qed

lemma run_position_less:
  assumes "r \<in> set (terminal_rows table w)" "s \<in> set (terminal_rows table w)" "completion_key r < completion_key s"
  shows "run_position table s < run_position table r"
proof -
  have ws: "wr_workflow_id r = w" "wr_workflow_id s = w" using assms(1,2) by (simp_all add: terminal_rows_def)
  have imp: "completion_key s < completion_key x \<Longrightarrow> completion_key r < completion_key x" for x
    using assms(3) by simp
  have "length (filter (\<lambda>x. completion_key s < completion_key x) xs) < length (filter (\<lambda>x. completion_key r < completion_key x) xs)"
    if "s \<in> set xs" for xs
    using that
  proof (induction xs)
    case (Cons a xs)
    have "length (filter (\<lambda>x. completion_key s < completion_key x) xs) \<le> length (filter (\<lambda>x. completion_key r < completion_key x) xs)"
      using imp by (induction xs) auto
    with Cons assms(3) imp show ?case by (cases "s = a") auto
  qed simp
  with assms(2) ws show ?thesis by (simp add: run_position_def)
qed

lemma distinct_terminal_rows: "distinct (map wr_run_id table) \<Longrightarrow> distinct (terminal_rows (filter P table) w)"
  by (simp add: terminal_rows_def distinct_map)

lemma overflow_bound:
  assumes "distinct (map wr_run_id table)"
  shows "length (terminal_rows (prune_overflow table) w) \<le> WORKFLOW_RUN_MAX_PER_WORKFLOW"
proof -
  let ?rows = "terminal_rows (prune_overflow table) w"
  have d: "distinct ?rows"
    unfolding prune_overflow_def using assms by (rule distinct_terminal_rows)
  have sub: "set ?rows \<subseteq> set (terminal_rows table w)" by (auto simp: terminal_rows_def prune_overflow_def)
  have "inj_on (run_position table) (set ?rows)"
  proof (rule inj_onI, rule ccontr)
    fix r s assume rs: "r \<in> set ?rows" "s \<in> set ?rows" "run_position table r = run_position table s" "r \<noteq> s"
    then have "completion_key r \<noteq> completion_key s"
      using completion_key_inj [OF assms] sub by (auto simp: terminal_rows_def)
    then have "completion_key r < completion_key s \<or> completion_key s < completion_key r" by (rule neq_iff [THEN iffD1])
    moreover have "r \<in> set (terminal_rows table w)" "s \<in> set (terminal_rows table w)" using rs(1,2) sub by blast+
    ultimately show False using run_position_less rs(3) by (metis less_irrefl)
  qed
  moreover have "run_position table ` set ?rows \<subseteq> {1..WORKFLOW_RUN_MAX_PER_WORKFLOW}"
    by (auto simp: terminal_rows_def prune_overflow_def run_position_def)
  ultimately have "card (set ?rows) \<le> WORKFLOW_RUN_MAX_PER_WORKFLOW"
    by (metis card_image card_mono finite_atLeastAtMost card_atLeastAtMost diff_Suc_1)
  with d show ?thesis by (simp add: distinct_card)
qed

text \<open>
  After a run is finalized or a terminal event recorded, a workflow has at most 500 finished runs
  in the table: pruning bounds the history of every workflow, whatever the table held before.
\<close>

theorem history_bounded:
  assumes "run_table_ok table"
  shows "length (terminal_rows (prune_in_conn now stamp table) w) \<le> WORKFLOW_RUN_MAX_PER_WORKFLOW"
  using assms unfolding prune_in_conn_def Let_def
  by (intro overflow_bound) (simp add: run_table_ok_def prune_expired_def distinct_map_filter)

lemma filter_mono_length:
  assumes "set xs \<subseteq> set ys" and "distinct xs"
  shows "length (filter P xs) \<le> length (filter P ys)"
proof -
  have "length (filter P xs) = card (set (filter P xs))" using assms(2) by (simp add: distinct_card del: set_filter)
  also have "\<dots> \<le> card (set (filter P ys))" using assms(1) by (intro card_mono) auto
  also have "\<dots> \<le> length (filter P ys)" by (rule card_length)
  finally show ?thesis .
qed

text \<open>
  Retention removes a run only when it is finished, is not the latest outcome of its workflow, and
  either completed more than 90 days before the pruning instant, in real time and not only by the text
  of its timestamp, or has at least 500 newer finished runs in its workflow.
\<close>

theorem retention_removes_only_old_runs:
  assumes "run_table_ok table" and "r \<in> set table" and "r \<notin> set (prune_in_conn now (Some t) table)"
    and "wr_completed_at r = map_option isoformat_millis finished"
    and "pred_option (\<lambda>c. c < datetime_limit) finished" and "t < datetime_limit"
  shows "\<exists>c. finished = Some c \<and> \<not> is_latest table r \<and>
    (c < t - timedelta_days WORKFLOW_RUN_RETENTION_DAYS \<or>
     WORKFLOW_RUN_MAX_PER_WORKFLOW \<le>
       length (filter (\<lambda>s. completion_key r < completion_key s) (terminal_rows table (wr_workflow_id r))))"
proof -
  let ?cut = "t - timedelta_days WORKFLOW_RUN_RETENTION_DAYS"
  let ?t1 = "prune_expired (isoformat_millis ?cut) table"
  have nl: "\<not> is_latest table r" using latest_kept assms(2,3) by blast
  show ?thesis
  proof (cases "r \<in> set ?t1")
    case True
    with assms(3) have c: "completed r" and pos: "run_position ?t1 r > WORKFLOW_RUN_MAX_PER_WORKFLOW"
      by (auto simp: prune_in_conn_def prune_overflow_def Let_def)
    have "distinct (terminal_rows ?t1 (wr_workflow_id r))"
      unfolding prune_expired_def using assms(1) by (intro distinct_terminal_rows) (simp add: run_table_ok_def)
    moreover have "set (terminal_rows ?t1 (wr_workflow_id r)) \<subseteq> set (terminal_rows table (wr_workflow_id r))"
      by (auto simp: terminal_rows_def prune_expired_def)
    ultimately have "length (filter (\<lambda>s. completion_key r < completion_key s) (terminal_rows ?t1 (wr_workflow_id r)))
        \<le> length (filter (\<lambda>s. completion_key r < completion_key s) (terminal_rows table (wr_workflow_id r)))"
      by (rule filter_mono_length [rotated])
    with pos c nl assms(4) show ?thesis by (cases finished) (auto simp: run_position_def completed_def)
  next
    case False
    then obtain c where c: "finished = Some c" and less: "isoformat_millis c < isoformat_millis ?cut"
      using assms(2,4) by (cases finished) (auto simp: prune_expired_def)
    then have "\<not> ?cut \<le> c" using isoformat_millis_le [of ?cut c] assms(5) by auto
    with c nl show ?thesis by simp
  qed
qed

section \<open>Scheduler events\<close>

lemma find_event:
  assumes "run_table_ok table" and "r \<in> set table" and "wr_scheduler_event_key r = Some key"
  shows "find (\<lambda>r. wr_scheduler_event_key r = Some key) table = Some r"
proof (cases "find (\<lambda>r. wr_scheduler_event_key r = Some key) table")
  case None
  then show ?thesis using assms(2,3) by (auto simp: find_None_iff)
next
  case (Some s)
  then have "s \<in> set table" "wr_scheduler_event_key s = Some key" by (auto simp: find_Some_iff)
  with assms Some show ?thesis unfolding run_table_ok_def by (metis option.distinct(1))
qed

lemma terminal_run_row_valid:
  "terminal_run_row rid stamp wid wname vault src owner status reason message job key sched = Inr r \<Longrightarrow>
   \<exists>r'. terminal_run_row rid' stamp' wid wname vault src owner status reason message job key sched = Inr r'"
  by (cases "wf_required_text wid ''workflow_id''"; cases "wf_required_text wname ''workflow_name''";
      cases "wf_required_text vault ''vault_name''"; cases "wf_required_text src ''source''";
      cases "wf_required_text owner ''owner_principal_id''"; cases "wf_terminal_status status")
    (simp_all add: terminal_run_row_def)

lemma record_existing_event:
  assumes "run_table_ok table" and "existing \<in> set table" and "wr_scheduler_event_key existing = wf_optional_text key"
    and "wf_optional_text key \<noteq> None"
    and "terminal_run_row (''run_'' @ uuid) (wf_iso_timestamp now stamp) wid wname vault src owner status reason message job
       (wf_optional_text key) sched = Inr r"
  shows "record_terminal_run now uuid wid wname vault src owner status reason message job key sched stamp table = (Inr existing, table)"
proof -
  from assms(5) have "wr_scheduler_event_key r = wf_optional_text key" by (simp add: terminal_run_row_spec)
  then have "\<exists>e. insert_run r table = Inl e"
    using assms(2-4) by (auto simp: insert_run_def) (metis image_eqI)
  then show ?thesis
    using assms find_event [OF assms(1,2)] by (auto simp: record_terminal_run_def Let_def split: option.splits)
qed

text \<open>
  Recording a scheduler event is idempotent: once an event is recorded, recording it again (a
  duplicate listener call, a second process, at any later time) returns the same record and leaves the
  history as it is.
\<close>

theorem scheduler_event_recorded_once:
  assumes "run_table_ok table"
    and "record_terminal_run now uuid wid wname vault src owner status reason message job key sched stamp table = (Inr r, table1)"
    and "wf_optional_text key = Some k"
  shows "record_terminal_run now' uuid' wid wname vault src owner status reason message job key sched stamp' table1 = (Inr r, table1)"
proof -
  obtain row where row: "terminal_run_row (''run_'' @ uuid) (wf_iso_timestamp now stamp) wid wname vault src owner status
      reason message job (wf_optional_text key) sched = Inr row"
    using assms(2) by (auto simp: record_terminal_run_def Let_def split: sum.splits)
  then obtain row' where row': "terminal_run_row (''run_'' @ uuid') (wf_iso_timestamp now' stamp') wid wname vault src owner
      status reason message job (wf_optional_text key) sched = Inr row'"
    using terminal_run_row_valid by blast
  have "run_table_ok table1 \<and> r \<in> set table1 \<and> wr_scheduler_event_key r = wf_optional_text key"
  proof (cases "insert_run row table")
    case (Inl e)
    with assms row show ?thesis
      by (auto simp: record_terminal_run_def Let_def find_Some_iff split: option.splits)
  next
    case (Inr table0)
    have t1: "table1 = prune_in_conn now stamp table0" and req: "wf_require_run table1 (''run_'' @ uuid) = Inr r"
      using assms(2) row Inr by (auto simp: record_terminal_run_def Let_def)
    have ok0: "run_table_ok table0"
      using run_table_ok_insert [OF assms(1) _ Inr] terminal_run_row_spec [OF row] by blast
    have ok1: "run_table_ok table1" unfolding t1 using ok0 by (rule run_table_ok_prune)
    have r: "r \<in> set table1" "wr_run_id r = ''run_'' @ uuid"
      using req find_run_Some [of table1 "''run_'' @ uuid" r] ok1
      by (auto simp: wf_require_run_def run_table_ok_def split: option.splits)
    have "r \<in> set table0" "row \<in> set table0" "wr_run_id row = wr_run_id r"
      using r prune_subset [of now stamp table0] Inr terminal_run_row_spec [OF row]
      unfolding t1 by (auto simp: insert_run_def split: if_splits)
    then have "r = row" using ok0 unfolding run_table_ok_def by (metis find_run_Some option.inject)
    with ok1 r terminal_run_row_spec [OF row] show ?thesis by simp
  qed
  with assms(3) show ?thesis by (intro record_existing_event [OF _ _ _ _ row']) auto
qed

section \<open>A worked history\<close>

lemma prune_single: "completed r \<Longrightarrow> prune_in_conn now stamp [r] = [r]"
  using latest_kept [of r "[r]" now stamp] prune_filter [of now stamp "[r]"]
  by (auto simp: is_latest_def terminal_rows_def split: if_splits)

definition demo_event_row :: WorkflowRunRecord where
  "demo_event_row = (new_run ''run_a'' ''v/daily'' ''daily'' ''v'' ''scheduler'' ''p1'' ''missed'' (isoformat_millis 0))
     \<lparr>wr_scheduler_event_key := Some ''evt'', wr_completed_at := Some (isoformat_millis 0)\<rparr>"

definition record_demo_event :: "datetime \<Rightarrow> string \<Rightarrow> run_table \<Rightarrow> WorkflowRunRecord result \<times> run_table" where
  "record_demo_event now uuid table =
     record_terminal_run now uuid (Some ''v/daily'') (Some ''daily'') (Some ''v'') (Some ''scheduler'') (Some ''p1'')
       (Some ''MISSED'') None None None (Some ''evt'') None None table"

lemma demo_strip:
  "strip ''v/daily'' = ''v/daily'' \<and> strip ''daily'' = ''daily'' \<and> strip ''v'' = ''v'' \<and> strip ''scheduler'' = ''scheduler'' \<and>
   strip ''p1'' = ''p1'' \<and> strip ''MISSED'' = ''MISSED'' \<and> py_lower ''MISSED'' = ''missed'' \<and> strip ''evt'' = ''evt''"
  by code_simp

lemma demo_event_row_fields:
  "terminal_run_row ''run_a'' (isoformat_millis 0) (Some ''v/daily'') (Some ''daily'') (Some ''v'') (Some ''scheduler'')
     (Some ''p1'') (Some ''MISSED'') None None None (Some ''evt'') None = Inr demo_event_row"
  using demo_strip
  by (simp add: terminal_run_row_def wf_required_text_def wf_optional_text_def wf_terminal_status_def wf_bounded_text_def
      TERMINAL_WORKFLOW_RUN_STATUSES_def demo_event_row_def new_run_def)

lemma record_demo_first: "record_demo_event 0 ''a'' [] = (Inr demo_event_row, [demo_event_row])"
proof -
  have key: "wf_optional_text (Some ''evt'') = Some ''evt''" using demo_strip by (simp add: wf_optional_text_def)
  have "completed demo_event_row" "wr_run_id demo_event_row = ''run_a''"
    by (simp_all add: demo_event_row_def completed_def new_run_def)
  then show ?thesis
    using demo_event_row_fields
    by (simp add: record_demo_event_def record_terminal_run_def key wf_iso_timestamp_def insert_run_def prune_single
        wf_require_run_def find_run_def)
qed

lemma record_demo_step:
  "''run_'' @ uuid \<notin> set ids \<Longrightarrow> record_demo_event now uuid table = (res, table') \<Longrightarrow>
   run_store_step (ids, table) ((''run_'' @ uuid) # ids, table')"
  unfolding record_demo_event_def by (rule rs_record)

lemma demo_history: "run_store_step\<^sup>*\<^sup>* ([], []) ([''run_a''], [demo_event_row])"
  using record_demo_step [of "''a''" "[]" 0 "[]", OF _ record_demo_first] by auto

lemma demo_table_ok: "run_table_ok [demo_event_row]"
  using runs.inv_run [OF demo_history] by (simp add: run_store_inv_def run_table_ok_def)

theorem run_history_well_formed_witness: "run_table_ok [demo_event_row]"
  by (rule run_history_well_formed [OF demo_history])

theorem finished_run_immutable_witness:
  "find_run [demo_event_row] ''run_a'' = Some demo_event_row"
  using finished_run_immutable [OF demo_history rtranclp.rtrancl_refl rtranclp.rtrancl_refl, of "''run_a''" demo_event_row]
  by (auto simp: find_run_def demo_event_row_def new_run_def TERMINAL_WORKFLOW_RUN_STATUSES_def)

theorem latest_runs_survive_retention_witness:
  "workflow_latest_runs (prune_in_conn (timedelta_days 400) None [demo_event_row]) = [demo_event_row]"
  unfolding latest_runs_survive_retention [OF demo_table_ok]
  by (simp add: workflow_latest_runs_def is_latest_def terminal_rows_def completed_def demo_event_row_def new_run_def)

theorem history_bounded_witness:
  "length (terminal_rows (prune_in_conn (timedelta_days 400) None [demo_event_row]) ''v/daily'') \<le> 500"
  using history_bounded [OF demo_table_ok] by (simp add: WORKFLOW_RUN_MAX_PER_WORKFLOW_def)

theorem scheduler_event_recorded_once_witness:
  "record_demo_event 7 ''b'' [demo_event_row] = (Inr demo_event_row, [demo_event_row])"
  unfolding record_demo_event_def
  by (rule scheduler_event_recorded_once [OF _ record_demo_first [unfolded record_demo_event_def], where k = "''evt''"])
    (use demo_strip in \<open>simp_all add: run_table_ok_def wf_optional_text_def\<close>)

definition demo_newer_row :: WorkflowRunRecord where
  "demo_newer_row = (new_run ''run_b'' ''v/daily'' ''daily'' ''v'' ''manual'' ''p1'' ''completed'' (isoformat_millis 0))
     \<lparr>wr_completed_at := Some (isoformat_millis (timedelta_days 100))\<rparr>"

lemma demo_newer:
  "isoformat_millis 0 < isoformat_millis (timedelta_days 100)" "isoformat_millis 0 < isoformat_millis (timedelta_days 10)"
  by (rule isoformat_millis_less; simp add: timedelta_days_def datetime_limit_def days_before_year_def)+

lemma demo_newer_latest: "\<not> is_latest [demo_event_row, demo_newer_row] demo_event_row"
  using demo_newer(1)
  by (auto simp: is_latest_def terminal_rows_def completed_def demo_event_row_def demo_newer_row_def new_run_def completion_key_def)

lemma demo_expired: "demo_event_row \<notin> set (prune_in_conn 0 (Some (timedelta_days 100)) [demo_event_row, demo_newer_row])"
proof -
  have "timedelta_days 100 - timedelta_days WORKFLOW_RUN_RETENTION_DAYS = timedelta_days 10"
    by (simp add: timedelta_days_def WORKFLOW_RUN_RETENTION_DAYS_def)
  moreover have "wr_run_id demo_event_row \<notin> wr_run_id ` set (workflow_latest_runs [demo_event_row, demo_newer_row])"
    using demo_newer_latest by (auto simp: workflow_latest_runs_def demo_event_row_def demo_newer_row_def new_run_def)
  moreover have "wr_completed_at demo_event_row = Some (isoformat_millis 0)" by (simp add: demo_event_row_def)
  ultimately have "demo_event_row \<notin> set (prune_expired (isoformat_millis
      (timedelta_days 100 - timedelta_days WORKFLOW_RUN_RETENTION_DAYS)) [demo_event_row, demo_newer_row])"
    using demo_newer(2) by (auto simp: prune_expired_def)
  then show ?thesis by (auto simp: prune_in_conn_def prune_overflow_def Let_def)
qed

lemma demo_pair_ok: "run_table_ok [demo_event_row, demo_newer_row]"
  by (auto simp: run_table_ok_def run_row_ok_def demo_event_row_def demo_newer_row_def new_run_def
      TERMINAL_WORKFLOW_RUN_STATUSES_def)

theorem retention_removes_only_old_runs_witness:
  "\<not> is_latest [demo_event_row, demo_newer_row] demo_event_row \<and>
   0 < timedelta_days 100 - timedelta_days WORKFLOW_RUN_RETENTION_DAYS"
proof -
  have "length (filter P (terminal_rows [demo_event_row, demo_newer_row] w)) \<le> 2" for P w
    by (auto simp: terminal_rows_def)
  then have "\<not> 500 \<le> length (filter P (terminal_rows [demo_event_row, demo_newer_row] w))" for P w
    by (metis le_trans numeral_le_iff semiring_norm(69) semiring_norm(71))
  then show ?thesis
    using retention_removes_only_old_runs [OF demo_pair_ok _ demo_expired, of "Some 0"]
    by (simp add: demo_event_row_def new_run_def datetime_limit_def days_before_year_def timedelta_days_def
        WORKFLOW_RUN_MAX_PER_WORKFLOW_def)
qed

section \<open>The bound on failure details\<close>

definition escaped_quotes :: "nat \<Rightarrow> string" where
  "escaped_quotes n = concat (replicate n [CHR 0x5C, CHR 0x22])"

lemma length_concat_esc_escaped:
  "set s \<subseteq> {CHR 0x5C, CHR 0x22} \<Longrightarrow> length (concat (map (esc_char True) s)) = 2 * length s"
  by (induction s) (auto simp: esc_char_def)

lemma set_escaped_quotes: "set (escaped_quotes n) \<subseteq> {CHR 0x5C, CHR 0x22}" "length (escaped_quotes n) = 2 * n"
  by (induction n) (auto simp: escaped_quotes_def)

lemma esc_quotes: "concat (map (esc_char True) (replicate n (CHR 0x22))) = escaped_quotes n"
  by (induction n) (simp_all add: escaped_quotes_def esc_char_def)

lemma demo_failure_text:
  "json_dumps True (JDict [(''e'', JStr (replicate n (CHR 0x22)))]) =
     [CHR ''{'', CHR 0x22, CHR ''e'', CHR 0x22, CHR '':'', CHR '' '', CHR 0x22] @ escaped_quotes n @ [CHR 0x22, CHR ''}'']"
  using esc_quotes [of n] by (simp add: json_quote_def del: map_replicate) (simp add: esc_char_def)

text \<open>
  The limit on stored failure details does not hold: a value whose text is too long is replaced by
  a summary of the text, which is escaped a second time, so that for every limit of at least 200 (the
  store uses 16000) there are details whose stored text is longer than the limit.
\<close>

theorem bounded_failure_exceeds_limit:
  "\<exists>d v. wf_bounded_json (Some d) (200 + m) = Some v \<and> 200 + m < length (json_dumps True v)"
proof -
  let ?n = "200 + m"
  let ?d = "[(''e'', JStr (replicate ?n (CHR 0x22)))]"
  let ?text = "json_dumps True (JDict ?d)"
  let ?s = "take (?n - 40) ?text"
  let ?v = "JDict [(''truncated'', JBool True), (''summary'', JStr ?s)]"
  let ?e = "\<lambda>s. concat (map (esc_char True) s)"
  have "?n < length ?text" unfolding demo_failure_text using set_escaped_quotes(2) [of ?n] by simp
  then have v: "wf_bounded_json (Some ?d) ?n = Some ?v" by (simp add: wf_bounded_json_def Let_def)
  have s: "?s = take 7 ?text @ take (153 + m) (escaped_quotes ?n)"
    unfolding demo_failure_text using set_escaped_quotes(2) [of ?n] by (simp add: take_Cons')
  have "set (take (153 + m) (escaped_quotes ?n)) \<subseteq> {CHR 0x5C, CHR 0x22}"
    using set_escaped_quotes(1) set_take_subset by fast
  then have "length (?e (take (153 + m) (escaped_quotes ?n))) = 2 * (153 + m)"
    using set_escaped_quotes(2) [of ?n] by (subst length_concat_esc_escaped) simp_all
  then have "2 * (153 + m) \<le> length (?e ?s)" unfolding s by simp
  moreover have "length (?e ?s) \<le> length (json_dumps True ?v)"
    by (simp add: json_quote_def)
  ultimately have "2 * (153 + m) \<le> length (json_dumps True ?v)" by (rule le_trans)
  then have "?n < length (json_dumps True ?v)" by (rule less_le_trans [rotated]) simp
  with v show ?thesis by blast
qed

end
