(* ===== verification/Goal_Store.thy ===== *)
theory Goal_Store
  imports Json_Value Complex_Main "HOL-Library.Product_Lexorder"
begin

text \<open>
  Durable goals (core/goals/store.py with the tables of core/goals/schema.py). The database is the
  three tables the store writes; \<open>goal_steps\<close> is never written. Arguments of type \<open>Any\<close> are Python
  values of JSON shape, \<open>JNull\<close> being \<open>None\<close>; a JSON column is the value whose text it stores.
  A method that raises leaves the database as it was, because it is one SQLite transaction.
\<close>

section \<open>Data\<close>

definition GOAL_STATUSES :: "string list" where
  "GOAL_STATUSES = [''active'', ''paused'', ''completed'', ''cancelled'', ''blocked'']"
definition GOAL_SOURCE_TYPES :: "string list" where
  "GOAL_SOURCE_TYPES = [''chat'', ''workflow'', ''context'']"
definition PURGEABLE_GOAL_STATUSES :: "string list" where
  "PURGEABLE_GOAL_STATUSES = [''completed'', ''cancelled'']"

record GoalRecord =
  g_goal_id :: string
  g_vault_name :: string
  g_workspace_path_hint :: "string option"
  g_source_type :: "string option"
  g_source_id :: "string option"
  g_source_task_id :: "string option"
  g_source_label :: "string option"
  g_title :: string
  g_objective :: string
  g_status :: string
  g_success_criteria :: "string list"
  g_plan :: json
  g_metadata :: "(string, json) dict"
  g_created_at :: string
  g_updated_at :: string

record GoalEventRecord =
  ge_event_id :: string
  ge_goal_id :: string
  ge_event_type :: string
  ge_message :: string
  ge_metadata :: "(string, json) dict"
  ge_created_at :: string

record GoalCheckpointRecord =
  gc_checkpoint_id :: string
  gc_goal_id :: string
  gc_summary :: string
  gc_current_state :: "string option"
  gc_next_actions :: "string list"
  gc_open_questions :: "string list"
  gc_risks :: "string list"
  gc_metadata :: "(string, json) dict"
  gc_created_at :: string

record goal_db =
  db_goals :: "GoalRecord list"
  db_events :: "GoalEventRecord list"
  db_checkpoints :: "GoalCheckpointRecord list"

abbreviation empty_goal_db :: goal_db where
  "empty_goal_db \<equiv> \<lparr>db_goals = [], db_events = [], db_checkpoints = []\<rparr>"

definition json_strings :: "string list \<Rightarrow> json" where
  "json_strings xs = JList (map JStr xs)"

definition goal_to_dict :: "GoalRecord \<Rightarrow> (string, json) dict" where
  "goal_to_dict g =
     [(''goal_id'', JStr (g_goal_id g)), (''vault_name'', JStr (g_vault_name g)),
      (''workspace_path_hint'', json_of_opt (g_workspace_path_hint g)),
      (''source_type'', json_of_opt (g_source_type g)), (''source_id'', json_of_opt (g_source_id g)),
      (''source_task_id'', json_of_opt (g_source_task_id g)), (''source_label'', json_of_opt (g_source_label g)),
      (''title'', JStr (g_title g)), (''objective'', JStr (g_objective g)), (''status'', JStr (g_status g)),
      (''success_criteria'', json_strings (g_success_criteria g)), (''plan'', g_plan g),
      (''metadata'', JDict (g_metadata g)), (''created_at'', JStr (g_created_at g)),
      (''updated_at'', JStr (g_updated_at g))]"

definition checkpoint_to_dict :: "GoalCheckpointRecord \<Rightarrow> (string, json) dict" where
  "checkpoint_to_dict c =
     [(''checkpoint_id'', JStr (gc_checkpoint_id c)), (''goal_id'', JStr (gc_goal_id c)),
      (''summary'', JStr (gc_summary c)), (''current_state'', json_of_opt (gc_current_state c)),
      (''next_actions'', json_strings (gc_next_actions c)), (''open_questions'', json_strings (gc_open_questions c)),
      (''risks'', json_strings (gc_risks c)), (''metadata'', JDict (gc_metadata c)),
      (''created_at'', JStr (gc_created_at c))]"

section \<open>Cleaning of arguments\<close>

definition goal_utc_now :: "datetime \<Rightarrow> string" where
  "goal_utc_now now = isoformat (floor_second now)"

definition goal_new_id :: "string \<Rightarrow> string \<Rightarrow> string" where
  "goal_new_id prefix uuid_hex = prefix @ ''_'' @ uuid_hex"

definition goal_required_text :: "json \<Rightarrow> string \<Rightarrow> string result" where
  "goal_required_text v field_name =
     (let text = (if v = JNull then [] else strip (py_str v))
      in if text = [] then Inl (ValueError (field_name @ '' is required'')) else Inr text)"

definition goal_optional_text :: "json \<Rightarrow> string option" where
  "goal_optional_text v =
     (if v = JNull then None else let text = strip (py_str v) in if text = [] then None else Some text)"

fun goal_clean_string_list :: "json \<Rightarrow> string list result" where
  "goal_clean_string_list JNull = Inr []"
| "goal_clean_string_list (JList items) = Inr (List.map_filter goal_optional_text items)"
| "goal_clean_string_list v = Inl (ValueError ''expected a list of strings'')"

fun goal_clean_dict :: "json \<Rightarrow> (string, json) dict result" where
  "goal_clean_dict JNull = Inr []"
| "goal_clean_dict (JDict d) = Inr d"
| "goal_clean_dict v = Inl (ValueError ''expected an object'')"

text \<open>A value \<open>json.dumps\<close> refuses is \<open>None\<close> here.\<close>

definition goal_clean_json_value :: "json option \<Rightarrow> json result" where
  "goal_clean_json_value v =
     (case v of None \<Rightarrow> Inl (ValueError ''expected a JSON-serializable value'') | Some j \<Rightarrow> Inr j)"

definition goal_validate_status :: "json \<Rightarrow> string list \<Rightarrow> string \<Rightarrow> string result" where
  "goal_validate_status v allowed label =
     rbind (goal_required_text v label) (\<lambda>text.
       let status = py_lower text
       in if status \<in> set allowed then Inr status
          else Inl (ValueError (''Invalid '' @ label @ '': '' @ status @ ''. Expected one of: '' @
                 str_join '', '' (sort allowed))))"

definition goal_optional_source_type :: "json \<Rightarrow> string option result" where
  "goal_optional_source_type v =
     (case goal_optional_text v of
        None \<Rightarrow> Inr None
      | Some text \<Rightarrow> rbind (goal_validate_status (JStr text) GOAL_SOURCE_TYPES ''goal source_type'') (\<lambda>t. Inr (Some t)))"

text \<open>\<open>None\<close> stands for a value \<open>int\<close> refuses.\<close>

definition goal_bounded_limit :: "int option \<Rightarrow> nat" where
  "goal_bounded_limit v = nat (max 1 (min 100 (case v of None \<Rightarrow> 20 | Some i \<Rightarrow> i)))"

section \<open>Rows\<close>

definition find_goal :: "goal_db \<Rightarrow> string \<Rightarrow> GoalRecord option" where
  "find_goal db goal_id = find (\<lambda>g. g_goal_id g = goal_id) (db_goals db)"

definition require_goal :: "goal_db \<Rightarrow> string \<Rightarrow> GoalRecord result" where
  "require_goal db goal_id =
     (case find_goal db goal_id of
        None \<Rightarrow> Inl (ValueError (''Goal not found: '' @ goal_id)) | Some g \<Rightarrow> Inr g)"

definition insert_goal :: "GoalRecord \<Rightarrow> goal_db \<Rightarrow> goal_db result" where
  "insert_goal g db =
     (if g_goal_id g \<in> g_goal_id ` set (db_goals db)
      then Inl (IntegrityError ''UNIQUE constraint failed: goals.goal_id'')
      else Inr (db\<lparr>db_goals := db_goals db @ [g]\<rparr>))"

definition insert_event ::
  "string \<Rightarrow> string \<Rightarrow> string \<Rightarrow> string \<Rightarrow> (string, json) dict \<Rightarrow> string \<Rightarrow> goal_db \<Rightarrow> goal_db result" where
  "insert_event uuid_hex goal_id event_type message metadata now db =
     rbind (goal_required_text (JStr event_type) ''event_type'') (\<lambda>event_type.
     rbind (goal_required_text (JStr message) ''message'') (\<lambda>message.
       let event_id = goal_new_id ''event'' uuid_hex
       in if event_id \<in> ge_event_id ` set (db_events db)
          then Inl (IntegrityError ''UNIQUE constraint failed: goal_events.event_id'')
          else if goal_id \<notin> g_goal_id ` set (db_goals db)
          then Inl (IntegrityError ''FOREIGN KEY constraint failed'')
          else Inr (db\<lparr>db_events := db_events db @
                 [\<lparr>ge_event_id = event_id, ge_goal_id = goal_id, ge_event_type = event_type, ge_message = message,
                   ge_metadata = metadata, ge_created_at = now\<rparr>]\<rparr>)))"

definition insert_checkpoint :: "GoalCheckpointRecord \<Rightarrow> goal_db \<Rightarrow> goal_db result" where
  "insert_checkpoint c db =
     (if gc_checkpoint_id c \<in> gc_checkpoint_id ` set (db_checkpoints db)
      then Inl (IntegrityError ''UNIQUE constraint failed: goal_checkpoints.checkpoint_id'')
      else if gc_goal_id c \<notin> g_goal_id ` set (db_goals db)
      then Inl (IntegrityError ''FOREIGN KEY constraint failed'')
      else Inr (db\<lparr>db_checkpoints := db_checkpoints db @ [c]\<rparr>))"

definition on_goal :: "string \<Rightarrow> (GoalRecord \<Rightarrow> GoalRecord) \<Rightarrow> goal_db \<Rightarrow> goal_db" where
  "on_goal goal_id f db = db\<lparr>db_goals := map (\<lambda>g. if g_goal_id g = goal_id then f g else g) (db_goals db)\<rparr>"

definition touch_goal :: "string \<Rightarrow> string \<Rightarrow> goal_db \<Rightarrow> goal_db" where
  "touch_goal goal_id now db = on_goal goal_id (\<lambda>g. g\<lparr>g_updated_at := now\<rparr>) db"

text \<open>\<open>ORDER BY created_at DESC, checkpoint_id DESC LIMIT 1\<close>\<close>

definition latest_checkpoint_in_conn :: "goal_db \<Rightarrow> string \<Rightarrow> GoalCheckpointRecord option" where
  "latest_checkpoint_in_conn db goal_id =
     (case rev (sort_key (\<lambda>c. (gc_created_at c, gc_checkpoint_id c))
                (filter (\<lambda>c. gc_goal_id c = goal_id) (db_checkpoints db))) of
        [] \<Rightarrow> None | c # _ \<Rightarrow> Some c)"

definition goal_payload :: "goal_db \<Rightarrow> string \<Rightarrow> (string, json) dict result" where
  "goal_payload db goal_id =
     rbind (require_goal db goal_id) (\<lambda>g.
       Inr (goal_to_dict g @
         [(''latest_checkpoint'', case latest_checkpoint_in_conn db goal_id of
             None \<Rightarrow> JNull | Some c \<Rightarrow> JDict (checkpoint_to_dict c))]))"

section \<open>Operations\<close>

text \<open>The end of a transaction: commit and read the answer, or roll back.\<close>

definition goal_commit :: "(goal_db \<Rightarrow> 'a result) \<Rightarrow> goal_db \<Rightarrow> goal_db result \<Rightarrow> 'a result \<times> goal_db" where
  "goal_commit answer db txn = (case txn of Inl e \<Rightarrow> (Inl e, db) | Inr db' \<Rightarrow> (answer db', db'))"

definition create_goal ::
  "datetime \<Rightarrow> string \<Rightarrow> string \<Rightarrow> json \<Rightarrow> json \<Rightarrow> json \<Rightarrow> json \<Rightarrow> json \<Rightarrow> json \<Rightarrow> json option \<Rightarrow> json \<Rightarrow> json \<Rightarrow> json \<Rightarrow> json \<Rightarrow>
   goal_db \<Rightarrow> (string, json) dict result \<times> goal_db" where
  "create_goal now uuid event_uuid vault_name title objective workspace_path_hint success_criteria metadata plan
     source_type source_id source_task_id source_label db =
     (let goal_id = goal_new_id ''goal'' uuid; stamp = goal_utc_now now
      in goal_commit (\<lambda>db'. goal_payload db' goal_id) db
       (rbind (goal_required_text vault_name ''vault_name'') (\<lambda>clean_vault.
        rbind (goal_required_text title ''title'') (\<lambda>clean_title.
        rbind (goal_required_text objective ''objective'') (\<lambda>clean_objective.
        rbind (goal_clean_string_list success_criteria) (\<lambda>criteria.
        rbind (goal_clean_dict metadata) (\<lambda>clean_metadata.
        rbind (goal_clean_json_value plan) (\<lambda>clean_plan.
        rbind (goal_optional_source_type source_type) (\<lambda>clean_source_type.
        rbind (insert_goal
          \<lparr>g_goal_id = goal_id, g_vault_name = clean_vault, g_workspace_path_hint = goal_optional_text workspace_path_hint,
           g_source_type = clean_source_type, g_source_id = goal_optional_text source_id,
           g_source_task_id = goal_optional_text source_task_id, g_source_label = goal_optional_text source_label,
           g_title = clean_title, g_objective = clean_objective, g_status = ''active'', g_success_criteria = criteria,
           g_plan = clean_plan, g_metadata = clean_metadata, g_created_at = stamp, g_updated_at = stamp\<rparr> db) (\<lambda>db1.
        insert_event event_uuid goal_id ''created'' (''Created goal: '' @ clean_title)
          [(''source_type'', json_of_opt clean_source_type), (''source_id'', json_of_opt (goal_optional_text source_id)),
           (''source_task_id'', json_of_opt (goal_optional_text source_task_id))] stamp db1))))))))))"

text \<open>A field to update is \<open>None\<close> when it is \<open>GOAL_FIELD_UNSET\<close>; \<open>plan\<close> is doubly optional because a
  given plan may be unserializable. The loop over the fields builds the new row and \<open>changed\<close>.\<close>

type_synonym goal_changes = "(GoalRecord \<Rightarrow> GoalRecord) \<times> (string, json) dict"

definition set_field ::
  "json option \<Rightarrow> string \<Rightarrow> (json \<Rightarrow> 'a result) \<Rightarrow> ('a \<Rightarrow> json) \<Rightarrow> ('a \<Rightarrow> GoalRecord \<Rightarrow> GoalRecord) \<Rightarrow>
   goal_changes \<Rightarrow> goal_changes result" where
  "set_field arg name clean show upd ch =
     (case arg of
        None \<Rightarrow> Inr ch
      | Some v \<Rightarrow> rbind (clean v) (\<lambda>x. Inr (upd x \<circ> fst ch, snd ch @ [(name, show x)])))"

definition goal_changes_of ::
  "json option \<Rightarrow> json option \<Rightarrow> json option \<Rightarrow> json option \<Rightarrow> json option \<Rightarrow> json option option \<Rightarrow> json option \<Rightarrow>
   goal_changes result" where
  "goal_changes_of title objective status workspace_path_hint success_criteria plan metadata =
     rbind (set_field title ''title'' (\<lambda>v. goal_required_text v ''title'') JStr (\<lambda>x g. g\<lparr>g_title := x\<rparr>) (id, [])) (\<lambda>ch.
     rbind (set_field objective ''objective'' (\<lambda>v. goal_required_text v ''objective'') JStr (\<lambda>x g. g\<lparr>g_objective := x\<rparr>) ch) (\<lambda>ch.
     rbind (set_field status ''status'' (\<lambda>v. goal_validate_status (JStr (py_str v)) GOAL_STATUSES ''goal status'') JStr
       (\<lambda>x g. g\<lparr>g_status := x\<rparr>) ch) (\<lambda>ch.
     rbind (set_field workspace_path_hint ''workspace_path_hint'' (\<lambda>v. Inr (goal_optional_text v)) json_of_opt
       (\<lambda>x g. g\<lparr>g_workspace_path_hint := x\<rparr>) ch) (\<lambda>ch.
     rbind (set_field success_criteria ''success_criteria'' goal_clean_string_list json_strings
       (\<lambda>x g. g\<lparr>g_success_criteria := x\<rparr>) ch) (\<lambda>ch.
     rbind (case plan of
              None \<Rightarrow> Inr ch
            | Some p \<Rightarrow> rbind (goal_clean_json_value p) (\<lambda>x. Inr ((\<lambda>g. g\<lparr>g_plan := x\<rparr>) \<circ> fst ch, snd ch @ [(''plan'', x)]))) (\<lambda>ch.
       set_field metadata ''metadata'' goal_clean_dict JDict (\<lambda>x g. g\<lparr>g_metadata := x\<rparr>) ch))))))"

definition update_goal ::
  "datetime \<Rightarrow> string \<Rightarrow> json \<Rightarrow> json option \<Rightarrow> json option \<Rightarrow> json option \<Rightarrow> json option \<Rightarrow> json option \<Rightarrow> json option option \<Rightarrow>
   json option \<Rightarrow> json \<Rightarrow> goal_db \<Rightarrow> (string, json) dict result \<times> goal_db" where
  "update_goal now event_uuid goal_id title objective status workspace_path_hint success_criteria plan metadata reason db =
     (case rbind (goal_required_text goal_id ''goal_id'') (\<lambda>clean_goal_id.
           rbind (goal_changes_of title objective status workspace_path_hint success_criteria plan metadata) (\<lambda>ch.
             if snd ch = [] then Inl (ValueError ''update_goal requires at least one field to update'')
             else Inr (clean_goal_id, ch))) of
        Inl e \<Rightarrow> (Inl e, db)
      | Inr (clean_goal_id, upd, changed) \<Rightarrow>
          goal_commit (\<lambda>db'. goal_payload db' clean_goal_id) db
            (rbind (require_goal db clean_goal_id) (\<lambda>_.
             insert_event event_uuid clean_goal_id
               (if ''status'' \<in> fst ` set changed then ''status_changed'' else ''goal_updated'')
               (case goal_optional_text reason of None \<Rightarrow> ''Updated goal.'' | Some m \<Rightarrow> m)
               [(''changed'', JDict changed)] (goal_utc_now now)
               (on_goal clean_goal_id (\<lambda>g. (upd g)\<lparr>g_updated_at := goal_utc_now now\<rparr>) db))))"

definition get_goal :: "goal_db \<Rightarrow> json \<Rightarrow> (string, json) dict result" where
  "get_goal db goal_id =
     rbind (goal_required_text goal_id ''goal_id'') (\<lambda>gid. rbind (require_goal db gid) (\<lambda>_. goal_payload db gid))"

text \<open>SQLite's \<open>LIKE\<close>: percent for any text, underscore for one character, ASCII letters without case.\<close>

definition ascii_lower :: "char \<Rightarrow> char" where
  "ascii_lower c = (let n = of_char c :: nat in if 65 \<le> n \<and> n \<le> 90 then char_of (n + 32) else c)"

fun sql_like :: "string \<Rightarrow> string \<Rightarrow> bool" where
  "sql_like [] t \<longleftrightarrow> t = []"
| "sql_like (p # ps) [] \<longleftrightarrow> p = CHR ''%'' \<and> sql_like ps []"
| "sql_like (p # ps) (c # t) \<longleftrightarrow>
     (if p = CHR ''%'' then sql_like ps (c # t) \<or> sql_like (p # ps) t
      else (p = CHR ''_'' \<or> ascii_lower p = ascii_lower c) \<and> sql_like ps t)"

definition goal_filter ::
  "string \<Rightarrow> string option \<Rightarrow> json option \<Rightarrow> string option \<Rightarrow> string option \<Rightarrow> string option \<Rightarrow> GoalRecord \<Rightarrow> bool" where
  "goal_filter vault status workspace source_type source_id query g \<longleftrightarrow>
     g_vault_name g = vault \<and>
     (case status of None \<Rightarrow> True | Some s \<Rightarrow> g_status g = s) \<and>
     (case workspace of None \<Rightarrow> True | Some w \<Rightarrow> g_workspace_path_hint g = goal_optional_text w) \<and>
     (case source_type of None \<Rightarrow> True | Some t \<Rightarrow> g_source_type g = Some t) \<and>
     (case source_id of None \<Rightarrow> True | Some i \<Rightarrow> g_source_id g = Some i) \<and>
     (case query of None \<Rightarrow> True
      | Some q \<Rightarrow> (let like = ''%'' @ strip q @ ''%'' in sql_like like (g_title g) \<or> sql_like like (g_objective g)))"

text \<open>An empty string filters nothing; \<open>workspace_path_hint\<close> does, as \<open>IS NULL\<close>.\<close>

definition truthy_text :: "string option \<Rightarrow> string option" where
  "truthy_text v = (if v = Some [] then None else v)"

definition opt_check :: "string option \<Rightarrow> (string \<Rightarrow> string result) \<Rightarrow> string option result" where
  "opt_check v f = (case truthy_text v of None \<Rightarrow> Inr None | Some s \<Rightarrow> rbind (f s) (\<lambda>x. Inr (Some x)))"

definition list_goals ::
  "goal_db \<Rightarrow> json \<Rightarrow> string option \<Rightarrow> json option \<Rightarrow> string option \<Rightarrow> string option \<Rightarrow> string option \<Rightarrow> int option \<Rightarrow>
   (string, json) dict list result" where
  "list_goals db vault_name status workspace_path_hint source_type source_id query limit =
     rbind (goal_required_text vault_name ''vault_name'') (\<lambda>clean_vault.
     rbind (opt_check status (\<lambda>s. goal_validate_status (JStr s) GOAL_STATUSES ''goal status'')) (\<lambda>st.
     rbind (opt_check source_type (\<lambda>s. goal_validate_status (JStr s) GOAL_SOURCE_TYPES ''goal source_type'')) (\<lambda>src.
     rbind (opt_check source_id (\<lambda>s. goal_required_text (JStr s) ''source_id'')) (\<lambda>sid.
       Inr (map goal_to_dict (take (goal_bounded_limit limit)
         (rev (sort_key (\<lambda>g. (g_updated_at g, g_created_at g, g_goal_id g))
           (filter (goal_filter clean_vault st workspace_path_hint src sid (truthy_text query)) (db_goals db))))))))))"

definition goal_checkpoint ::
  "datetime \<Rightarrow> string \<Rightarrow> string \<Rightarrow> json \<Rightarrow> json \<Rightarrow> json \<Rightarrow> json \<Rightarrow> json \<Rightarrow> json \<Rightarrow> json \<Rightarrow> goal_db \<Rightarrow>
   (string, json) dict result \<times> goal_db" where
  "goal_checkpoint now uuid event_uuid goal_id summary current_state next_actions open_questions risks metadata db =
     (case rbind (goal_required_text goal_id ''goal_id'') (\<lambda>gid.
           rbind (goal_required_text summary ''summary'') (\<lambda>text. Inr (gid, text))) of
        Inl e \<Rightarrow> (Inl e, db)
      | Inr (gid, text) \<Rightarrow>
          goal_commit (\<lambda>db'. Inr (case latest_checkpoint_in_conn db' gid of None \<Rightarrow> [] | Some c \<Rightarrow> checkpoint_to_dict c)) db
            (rbind (require_goal db gid) (\<lambda>_.
             rbind (goal_clean_string_list next_actions) (\<lambda>actions.
             rbind (goal_clean_string_list open_questions) (\<lambda>questions.
             rbind (goal_clean_string_list risks) (\<lambda>clean_risks.
             rbind (goal_clean_dict metadata) (\<lambda>clean_metadata.
             rbind (insert_checkpoint
               \<lparr>gc_checkpoint_id = goal_new_id ''checkpoint'' uuid, gc_goal_id = gid, gc_summary = text,
                gc_current_state = goal_optional_text current_state, gc_next_actions = actions,
                gc_open_questions = questions, gc_risks = clean_risks, gc_metadata = clean_metadata,
                gc_created_at = goal_utc_now now\<rparr> db) (\<lambda>db1.
             rbind (insert_event event_uuid gid ''checkpoint'' text
               [(''checkpoint_id'', JStr (goal_new_id ''checkpoint'' uuid))] (goal_utc_now now) db1) (\<lambda>db2.
               Inr (touch_goal gid (goal_utc_now now) db2))))))))))"

text \<open>The rows \<open>DELETE FROM goals\<close> removes; events and checkpoints go with their goal.\<close>

definition delete_goals :: "(GoalRecord \<Rightarrow> bool) \<Rightarrow> goal_db \<Rightarrow> goal_db" where
  "delete_goals doomed db =
     (let kept = filter (Not \<circ> doomed) (db_goals db); ids = g_goal_id ` set kept
      in \<lparr>db_goals = kept, db_events = filter (\<lambda>e. ge_goal_id e \<in> ids) (db_events db),
          db_checkpoints = filter (\<lambda>c. gc_goal_id c \<in> ids) (db_checkpoints db)\<rparr>)"

definition purge_cutoff :: "datetime \<Rightarrow> int option \<Rightarrow> string option result" where
  "purge_cutoff now older_than_days =
     (case older_than_days of
        None \<Rightarrow> Inr None
      | Some d \<Rightarrow>
          if d < 0 then Inl (ValueError ''older_than_days must be zero or greater'')
          else if floor_second now < timedelta_days (nat d) then Inl (OverflowError ''date value out of range'')
          else Inr (Some (isoformat (floor_second now - timedelta_days (nat d)))))"

definition purge_match :: "string \<Rightarrow> string list \<Rightarrow> string option \<Rightarrow> GoalRecord \<Rightarrow> bool" where
  "purge_match vault statuses cutoff g \<longleftrightarrow>
     g_vault_name g = vault \<and> g_status g \<in> set statuses \<and>
     (case cutoff of None \<Rightarrow> True | Some t \<Rightarrow> g_updated_at g < t)"

text \<open>The checked request: which rows it dooms.\<close>

definition purge_request :: "datetime \<Rightarrow> json \<Rightarrow> json list \<Rightarrow> int option \<Rightarrow> (GoalRecord \<Rightarrow> bool) result" where
  "purge_request now vault_name statuses older_than_days =
     rbind (goal_required_text vault_name ''vault_name'') (\<lambda>vault.
     rbind (rmap (\<lambda>s. goal_validate_status (JStr (py_str s)) PURGEABLE_GOAL_STATUSES ''purge goal status'') statuses)
       (\<lambda>clean_statuses.
        if clean_statuses = [] then Inl (ValueError ''At least one purge goal status is required'')
        else rbind (purge_cutoff now older_than_days) (\<lambda>cutoff. Inr (purge_match vault clean_statuses cutoff))))"

definition purge_goals :: "datetime \<Rightarrow> json \<Rightarrow> json list \<Rightarrow> int option \<Rightarrow> goal_db \<Rightarrow> nat result \<times> goal_db" where
  "purge_goals now vault_name statuses older_than_days db =
     (case purge_request now vault_name statuses older_than_days of
        Inl e \<Rightarrow> (Inl e, db)
      | Inr doomed \<Rightarrow> (Inr (length (filter doomed (db_goals db))), delete_goals doomed db))"

section \<open>Activity\<close>

text \<open>What the vault state service reports of a goal (core/vault_state/service.py); the service itself is
  the argument \<open>list_activities\<close>.\<close>

record VaultMutationItem =
  vm_id :: int
  vm_activity_id :: string
  vm_operation_id :: string
  vm_task_id :: "string option"
  vm_task_kind :: "string option"
  vm_task_source :: "string option"
  vm_task_scope :: "string option"
  vm_task_label :: "string option"
  vm_goal_id :: "string option"
  vm_step_id :: "string option"
  vm_path :: string
  vm_related_path :: "string option"
  vm_target_kind :: string
  vm_operation :: string
  vm_status :: string
  vm_event_sequence :: "int option"
  vm_before_exists :: bool
  vm_before_hash :: "string option"
  vm_before_snapshot_id :: "int option"
  vm_after_exists :: bool
  vm_after_hash :: "string option"
  vm_after_snapshot_id :: "int option"
  vm_snapshot_ref :: "string option"
  vm_created_at :: datetime
  vm_expires_at :: "datetime option"
  vm_metadata :: "(string, json) dict"

record VaultActivityGroup =
  vg_activity_id :: string
  vg_activity_kind :: string
  vg_activity_label :: string
  vg_chat_session_id :: "string option"
  vg_chat_session_title :: "string option"
  vg_chat_session_created_at :: "string option"
  vg_chat_session_last_activity_at :: "string option"
  vg_status :: string
  vg_rollback_status :: "string option"
  vg_task_id :: "string option"
  vg_task_kind :: "string option"
  vg_task_source :: "string option"
  vg_task_scope :: "string option"
  vg_task_label :: "string option"
  vg_goal_id :: "string option"
  vg_step_id :: "string option"
  vg_vault_id :: string
  vg_vault_name :: string
  vg_mutation_count :: int
  vg_operation_count :: int
  vg_first_mutation_at :: datetime
  vg_last_mutation_at :: datetime
  vg_expires_at :: "datetime option"
  vg_mutations :: "VaultMutationItem list"

definition mutation_to_dict :: "VaultMutationItem \<Rightarrow> json" where
  "mutation_to_dict m = JDict
     [(''id'', JInt (vm_id m)), (''activity_id'', JStr (vm_activity_id m)), (''operation_id'', JStr (vm_operation_id m)),
      (''task_id'', json_of_opt (vm_task_id m)), (''task_kind'', json_of_opt (vm_task_kind m)),
      (''task_source'', json_of_opt (vm_task_source m)), (''task_scope'', json_of_opt (vm_task_scope m)),
      (''task_label'', json_of_opt (vm_task_label m)), (''goal_id'', json_of_opt (vm_goal_id m)),
      (''step_id'', json_of_opt (vm_step_id m)), (''path'', JStr (vm_path m)),
      (''related_path'', json_of_opt (vm_related_path m)), (''target_kind'', JStr (vm_target_kind m)),
      (''operation'', JStr (vm_operation m)), (''status'', JStr (vm_status m)),
      (''event_sequence'', case vm_event_sequence m of None \<Rightarrow> JNull | Some i \<Rightarrow> JInt i),
      (''before_exists'', JBool (vm_before_exists m)), (''after_exists'', JBool (vm_after_exists m)),
      (''created_at'', JStr (isoformat (vm_created_at m)))]"

definition mutation_group_to_dict :: "VaultActivityGroup \<Rightarrow> (string, json) dict" where
  "mutation_group_to_dict grp =
     [(''activity_id'', JStr (vg_activity_id grp)), (''activity_kind'', JStr (vg_activity_kind grp)),
      (''activity_label'', JStr (vg_activity_label grp)), (''status'', JStr (vg_status grp)),
      (''rollback_status'', json_of_opt (vg_rollback_status grp)), (''task_id'', json_of_opt (vg_task_id grp)),
      (''task_kind'', json_of_opt (vg_task_kind grp)), (''task_source'', json_of_opt (vg_task_source grp)),
      (''task_scope'', json_of_opt (vg_task_scope grp)), (''task_label'', json_of_opt (vg_task_label grp)),
      (''goal_id'', json_of_opt (vg_goal_id grp)), (''step_id'', json_of_opt (vg_step_id grp)),
      (''vault_id'', JStr (vg_vault_id grp)), (''vault_name'', JStr (vg_vault_name grp)),
      (''mutation_count'', JInt (vg_mutation_count grp)), (''operation_count'', JInt (vg_operation_count grp)),
      (''first_mutation_at'', JStr (isoformat (vg_first_mutation_at grp))),
      (''last_mutation_at'', JStr (isoformat (vg_last_mutation_at grp))),
      (''mutations'', JList (map mutation_to_dict (vg_mutations grp)))]"

definition list_activity ::
  "(string \<Rightarrow> nat \<Rightarrow> string \<Rightarrow> string option \<Rightarrow> VaultActivityGroup list) \<Rightarrow> goal_db \<Rightarrow> json \<Rightarrow> json \<Rightarrow> int option \<Rightarrow>
   (string, json) dict list result" where
  "list_activity list_activities db goal_id step_id limit =
     rbind (goal_required_text goal_id ''goal_id'') (\<lambda>gid.
     rbind (require_goal db gid) (\<lambda>g.
       Inr (map mutation_group_to_dict
         (list_activities (g_vault_name g) (goal_bounded_limit limit) gid (goal_optional_text step_id)))))"

end
