(* ===== verification/Goal_Props.thy ===== *)
theory Goal_Props
  imports Goal_Store Lifecycle
begin

text \<open>
  What the goal store promises: its tables stay consistent, what a goal was created from never changes,
  an update touches what it was given, purging removes finished goals of one vault only.
\<close>

section \<open>Invariant\<close>

definition goal_row_ok :: "GoalRecord \<Rightarrow> bool" where
  "goal_row_ok g \<longleftrightarrow> g_vault_name g \<noteq> [] \<and> g_title g \<noteq> [] \<and> g_objective g \<noteq> [] \<and> g_status g \<in> set GOAL_STATUSES \<and>
     (case g_source_type g of None \<Rightarrow> True | Some t \<Rightarrow> t \<in> set GOAL_SOURCE_TYPES)"

definition goal_db_ok :: "goal_db \<Rightarrow> bool" where
  "goal_db_ok db \<longleftrightarrow>
     distinct (map g_goal_id (db_goals db)) \<and> distinct (map ge_event_id (db_events db)) \<and>
     distinct (map gc_checkpoint_id (db_checkpoints db)) \<and> list_all goal_row_ok (db_goals db) \<and>
     list_all (\<lambda>e. ge_goal_id e \<in> g_goal_id ` set (db_goals db)) (db_events db) \<and>
     list_all (\<lambda>c. gc_goal_id c \<in> g_goal_id ` set (db_goals db)) (db_checkpoints db)"

text \<open>Where a goal comes from.\<close>

definition provenance :: "GoalRecord \<Rightarrow> string \<times> string option \<times> string option \<times> string option \<times> string option \<times> string" where
  "provenance g = (g_vault_name g, g_source_type g, g_source_id g, g_source_task_id g, g_source_label g, g_created_at g)"

definition goal_change_ok :: "(GoalRecord \<Rightarrow> GoalRecord) \<Rightarrow> bool" where
  "goal_change_ok f \<longleftrightarrow> (\<forall>g. g_goal_id (f g) = g_goal_id g \<and> provenance (f g) = provenance g \<and>
     (goal_row_ok g \<longrightarrow> goal_row_ok (f g)))"

lemma goal_change_ok_id [simp]: "goal_change_ok id" and goal_change_ok_comp: "goal_change_ok f \<Longrightarrow> goal_change_ok h \<Longrightarrow> goal_change_ok (f \<circ> h)"
  by (simp_all add: goal_change_ok_def)

lemma goal_required_text_ne: "goal_required_text v field = Inr x \<Longrightarrow> x \<noteq> []"
  by (auto simp: goal_required_text_def Let_def split: if_splits)

lemma goal_validate_status_in: "goal_validate_status v allowed label = Inr x \<Longrightarrow> x \<in> set allowed"
  by (auto simp: goal_validate_status_def Let_def split: if_splits)

lemma set_field_ok:
  assumes "set_field arg name clean show upd ch = Inr ch'" and "goal_change_ok (fst ch)"
    and "\<And>v x. clean v = Inr x \<Longrightarrow> goal_change_ok (upd x)"
  shows "goal_change_ok (fst ch')"
  using assms by (auto simp: set_field_def goal_change_ok_comp split: option.splits)

lemmas field_simps_ok = goal_change_ok_def provenance_def goal_row_ok_def

lemma goal_changes_of_steps:
  assumes "goal_changes_of title objective status hint criteria plan metadata = Inr ch"
  obtains c1 c2 c3 c4 c5 c6 where
    "set_field title ''title'' (\<lambda>v. goal_required_text v ''title'') JStr (\<lambda>x g. g\<lparr>g_title := x\<rparr>) (id, []) = Inr c1"
    "set_field objective ''objective'' (\<lambda>v. goal_required_text v ''objective'') JStr (\<lambda>x g. g\<lparr>g_objective := x\<rparr>) c1 = Inr c2"
    "set_field status ''status'' (\<lambda>v. goal_validate_status (JStr (py_str v)) GOAL_STATUSES ''goal status'') JStr
       (\<lambda>x g. g\<lparr>g_status := x\<rparr>) c2 = Inr c3"
    "set_field hint ''workspace_path_hint'' (\<lambda>v. Inr (goal_optional_text v)) json_of_opt
       (\<lambda>x g. g\<lparr>g_workspace_path_hint := x\<rparr>) c3 = Inr c4"
    "set_field criteria ''success_criteria'' goal_clean_string_list json_strings
       (\<lambda>x g. g\<lparr>g_success_criteria := x\<rparr>) c4 = Inr c5"
    "(case plan of None \<Rightarrow> Inr c5
          | Some p \<Rightarrow> rbind (goal_clean_json_value p) (\<lambda>x. Inr ((\<lambda>g. g\<lparr>g_plan := x\<rparr>) \<circ> fst c5, snd c5 @ [(''plan'', x)]))) = Inr c6"
    "set_field metadata ''metadata'' goal_clean_dict JDict (\<lambda>x g. g\<lparr>g_metadata := x\<rparr>) c6 = Inr ch"
  using assms unfolding goal_changes_of_def by auto

lemma goal_changes_of_ok:
  assumes "goal_changes_of title objective status hint criteria plan metadata = Inr ch"
  shows "goal_change_ok (fst ch)"
  using assms
proof (rule goal_changes_of_steps)
  fix c1 c2 c3 c4 c5 c6
  assume
    c1: "set_field title ''title'' (\<lambda>v. goal_required_text v ''title'') JStr (\<lambda>x g. g\<lparr>g_title := x\<rparr>) (id, []) = Inr c1" and
    c2: "set_field objective ''objective'' (\<lambda>v. goal_required_text v ''objective'') JStr (\<lambda>x g. g\<lparr>g_objective := x\<rparr>) c1 = Inr c2" and
    c3: "set_field status ''status'' (\<lambda>v. goal_validate_status (JStr (py_str v)) GOAL_STATUSES ''goal status'') JStr
       (\<lambda>x g. g\<lparr>g_status := x\<rparr>) c2 = Inr c3" and
    c4: "set_field hint ''workspace_path_hint'' (\<lambda>v. Inr (goal_optional_text v)) json_of_opt
       (\<lambda>x g. g\<lparr>g_workspace_path_hint := x\<rparr>) c3 = Inr c4" and
    c5: "set_field criteria ''success_criteria'' goal_clean_string_list json_strings
       (\<lambda>x g. g\<lparr>g_success_criteria := x\<rparr>) c4 = Inr c5" and
    c6: "(case plan of None \<Rightarrow> Inr c5
          | Some p \<Rightarrow> rbind (goal_clean_json_value p) (\<lambda>x. Inr ((\<lambda>g. g\<lparr>g_plan := x\<rparr>) \<circ> fst c5, snd c5 @ [(''plan'', x)]))) = Inr c6" and
    c7: "set_field metadata ''metadata'' goal_clean_dict JDict (\<lambda>x g. g\<lparr>g_metadata := x\<rparr>) c6 = Inr ch"
  have "goal_change_ok (fst c1)" using c1 by (rule set_field_ok) (auto simp: field_simps_ok dest: goal_required_text_ne)
  with c2 have "goal_change_ok (fst c2)" by (rule set_field_ok) (auto simp: field_simps_ok dest: goal_required_text_ne)
  with c3 have "goal_change_ok (fst c3)" by (rule set_field_ok) (auto simp: field_simps_ok dest: goal_validate_status_in)
  with c4 have "goal_change_ok (fst c4)" by (rule set_field_ok) (auto simp: field_simps_ok)
  with c5 have "goal_change_ok (fst c5)" by (rule set_field_ok) (auto simp: field_simps_ok)
  moreover have "goal_change_ok (\<lambda>g. g\<lparr>g_plan := x\<rparr>)" for x by (auto simp: field_simps_ok)
  ultimately have "goal_change_ok (fst c6)" using c6 by (auto simp: goal_change_ok_comp split: option.splits)
  with c7 show ?thesis by (rule set_field_ok) (auto simp: field_simps_ok)
qed

lemma find_goal_Some:
  "distinct (map g_goal_id (db_goals db)) \<Longrightarrow> find_goal db k = Some g \<longleftrightarrow> g \<in> set (db_goals db) \<and> g_goal_id g = k"
proof -
  have "distinct (map g_goal_id gs) \<Longrightarrow> find (\<lambda>g. g_goal_id g = k) gs = Some g \<longleftrightarrow> g \<in> set gs \<and> g_goal_id g = k" for gs
    by (induction gs) auto
  then show "distinct (map g_goal_id (db_goals db)) \<Longrightarrow> ?thesis" by (simp add: find_goal_def)
qed

lemma find_goal_None: "find_goal db k = None \<longleftrightarrow> k \<notin> g_goal_id ` set (db_goals db)"
  by (auto simp: find_goal_def find_None_iff)

section \<open>Steps\<close>

text \<open>A state of a run of the store is the database with the goal ids given out so far.\<close>

inductive goal_step :: "string list \<times> goal_db \<Rightarrow> string list \<times> goal_db \<Rightarrow> bool" where
  gs_create: "goal_new_id ''goal'' uuid \<notin> set ids \<Longrightarrow>
    create_goal now uuid ev vault title objective hint criteria metadata plan stype sid stask slabel db = (res, db') \<Longrightarrow>
    goal_step (ids, db) (goal_new_id ''goal'' uuid # ids, db')"
| gs_update: "update_goal now ev gid title objective status hint criteria plan metadata reason db = (res, db') \<Longrightarrow>
    goal_step (ids, db) (ids, db')"
| gs_checkpoint: "goal_checkpoint now uuid ev gid summary current actions questions risks metadata db = (res, db') \<Longrightarrow>
    goal_step (ids, db) (ids, db')"
| gs_purge: "purge_goals now vault statuses days db = (res, db') \<Longrightarrow> goal_step (ids, db) (ids, db')"

definition goal_run_inv :: "string list \<times> goal_db \<Rightarrow> bool" where
  "goal_run_inv s \<longleftrightarrow> goal_db_ok (snd s) \<and> g_goal_id ` set (db_goals (snd s)) \<subseteq> set (fst s)"

text \<open>Every goal afterwards is new or comes from one before.\<close>

definition goals_evolve :: "string option \<Rightarrow> goal_db \<Rightarrow> goal_db \<Rightarrow> bool" where
  "goals_evolve new db db' \<longleftrightarrow>
     (\<forall>g' \<in> set (db_goals db'). Some (g_goal_id g') = new \<or>
        (\<exists>g \<in> set (db_goals db). g_goal_id g' = g_goal_id g \<and> provenance g' = provenance g))"

lemma goals_evolve_refl [simp]: "goals_evolve new db db"
  by (auto simp: goals_evolve_def)

lemma insert_event_spec:
  assumes "insert_event uuid gid ty msg meta now db = Inr db'" and "goal_db_ok db"
  shows "goal_db_ok db' \<and> db_goals db' = db_goals db"
  using assms by (auto simp: insert_event_def goal_db_ok_def Let_def split: if_splits)

lemma insert_checkpoint_spec:
  assumes "insert_checkpoint c db = Inr db'" and "goal_db_ok db"
  shows "goal_db_ok db' \<and> db_goals db' = db_goals db"
  using assms by (auto simp: insert_checkpoint_def goal_db_ok_def split: if_splits)

lemma on_goal_spec:
  assumes "goal_db_ok db" and "goal_change_ok f"
  shows "goal_db_ok (on_goal k f db) \<and> goals_evolve None db (on_goal k f db) \<and>
    g_goal_id ` set (db_goals (on_goal k f db)) = g_goal_id ` set (db_goals db)"
proof -
  let ?f = "\<lambda>g. if g_goal_id g = k then f g else g"
  have ids: "g_goal_id (?f g) = g_goal_id g" for g using assms(2) by (simp add: goal_change_ok_def)
  then have comp: "g_goal_id \<circ> ?f = g_goal_id" by (simp add: comp_def)
  then have img: "g_goal_id ` set (map ?f (db_goals db)) = g_goal_id ` set (db_goals db)"
    by (simp only: set_map image_comp comp)
  have "goals_evolve None db (on_goal k f db)" using assms(2) by (auto simp: on_goal_def goals_evolve_def goal_change_ok_def)
  moreover have "list_all goal_row_ok (map ?f (db_goals db))"
    using assms by (auto simp: goal_db_ok_def list_all_iff goal_change_ok_def)
  ultimately show ?thesis
    using assms(1) img comp by (simp add: on_goal_def goal_db_ok_def del: set_map list.set_map list.pred_map)
qed

lemma optional_source_type_in:
  "goal_optional_source_type v = Inr x \<Longrightarrow> (case x of None \<Rightarrow> True | Some t \<Rightarrow> t \<in> set GOAL_SOURCE_TYPES)"
  by (auto simp: goal_optional_source_type_def dest: goal_validate_status_in split: option.splits)

lemma create_goal_spec:
  assumes "create_goal now uuid ev vault title objective hint criteria metadata plan stype sid stask slabel db = (res, db')"
    and "goal_db_ok db"
  shows "goal_db_ok db' \<and> goals_evolve (Some (goal_new_id ''goal'' uuid)) db db' \<and>
    g_goal_id ` set (db_goals db') \<subseteq> insert (goal_new_id ''goal'' uuid) (g_goal_id ` set (db_goals db))"
proof (cases "db' = db")
  case False
  let ?g = "\<lambda>cv ct co cr cm cp cs.
    \<lparr>g_goal_id = goal_new_id ''goal'' uuid, g_vault_name = cv, g_workspace_path_hint = goal_optional_text hint,
     g_source_type = cs, g_source_id = goal_optional_text sid, g_source_task_id = goal_optional_text stask,
     g_source_label = goal_optional_text slabel, g_title = ct, g_objective = co, g_status = ''active'',
     g_success_criteria = cr, g_plan = cp, g_metadata = cm, g_created_at = goal_utc_now now, g_updated_at = goal_utc_now now\<rparr>"
  obtain cv ct co cr cm cp cs db1 where c: "goal_required_text vault ''vault_name'' = Inr cv" "goal_required_text title ''title'' = Inr ct"
      "goal_required_text objective ''objective'' = Inr co" "goal_optional_source_type stype = Inr cs"
    and g: "insert_goal (?g cv ct co cr cm cp cs) db = Inr db1"
    and ev: "\<exists>ty msg meta t. insert_event ev (goal_new_id ''goal'' uuid) ty msg meta t db1 = Inr db'"
    using assms(1) False unfolding create_goal_def goal_commit_def Let_def
    by (auto split: sum.splits) blast
  have ok: "goal_row_ok (?g cv ct co cr cm cp cs)"
    using c by (simp add: goal_row_ok_def GOAL_STATUSES_def goal_required_text_ne optional_source_type_in)
  have "goal_db_ok db1"
    using g ok assms(2) unfolding insert_goal_def goal_db_ok_def by (auto simp: list_all_iff split: if_splits)
  with ev have "goal_db_ok db' \<and> db_goals db' = db_goals db1" using insert_event_spec by blast
  with g show ?thesis by (auto simp: insert_goal_def goals_evolve_def split: if_splits)
qed (use assms(2) in auto)

lemma goals_evolve_trans:
  "goals_evolve None db db1 \<Longrightarrow> db_goals db' = db_goals db1 \<Longrightarrow> goals_evolve None db db'"
  by (simp add: goals_evolve_def)

lemma update_goal_spec:
  assumes "update_goal now ev gid title objective status hint criteria plan metadata reason db = (res, db')" and "goal_db_ok db"
  shows "goal_db_ok db' \<and> goals_evolve None db db' \<and> g_goal_id ` set (db_goals db') \<subseteq> g_goal_id ` set (db_goals db)"
proof (cases "db' = db")
  case False
  then obtain k ch ty msg meta where
    ch: "goal_changes_of title objective status hint criteria plan metadata = Inr ch" and
    ev: "insert_event ev k ty msg meta (goal_utc_now now)
           (on_goal k (\<lambda>g. (fst ch g)\<lparr>g_updated_at := goal_utc_now now\<rparr>) db) = Inr db'"
    using assms(1) unfolding update_goal_def goal_commit_def by (force split: sum.splits prod.splits if_splits)
  have "goal_change_ok (\<lambda>g. (fst ch g)\<lparr>g_updated_at := goal_utc_now now\<rparr>)"
    using goal_changes_of_ok [OF ch] by (auto simp: field_simps_ok)
  from on_goal_spec [OF assms(2) this, of k] insert_event_spec [OF ev] goals_evolve_trans show ?thesis by auto
qed (use assms(2) in auto)

lemma checkpoint_spec:
  assumes "goal_checkpoint now uuid ev gid summary current actions questions risks metadata db = (res, db')" and "goal_db_ok db"
  shows "goal_db_ok db' \<and> goals_evolve None db db' \<and> g_goal_id ` set (db_goals db') \<subseteq> g_goal_id ` set (db_goals db)"
proof (cases "db' = db")
  case False
  then obtain k c db1 db2 ty msg meta where
    c: "insert_checkpoint c db = Inr db1" and
    ev: "insert_event ev k ty msg meta (goal_utc_now now) db1 = Inr db2" and
    db': "db' = touch_goal k (goal_utc_now now) db2"
    using assms(1) unfolding goal_checkpoint_def goal_commit_def by (force split: sum.splits prod.splits if_splits)
  have "goal_change_ok (\<lambda>g. g\<lparr>g_updated_at := goal_utc_now now\<rparr>)" by (auto simp: field_simps_ok)
  moreover have "goal_db_ok db2" "db_goals db2 = db_goals db"
    using insert_checkpoint_spec [OF c assms(2)] insert_event_spec [OF ev] by auto
  ultimately show ?thesis
    using on_goal_spec [of db2 _ k] unfolding db' touch_goal_def by (auto simp: goals_evolve_def)
qed (use assms(2) in auto)

lemma delete_goals_spec:
  assumes "goal_db_ok db"
  shows "goal_db_ok (delete_goals doomed db) \<and> goals_evolve None db (delete_goals doomed db) \<and>
    g_goal_id ` set (db_goals (delete_goals doomed db)) \<subseteq> g_goal_id ` set (db_goals db)"
  using assms by (auto simp: delete_goals_def goal_db_ok_def goals_evolve_def Let_def distinct_map_filter list_all_iff)

lemma purge_goals_cases:
  assumes "purge_goals now vault statuses days db = (res, db')"
  shows "db' = db \<or> (\<exists>doomed. db' = delete_goals doomed db)"
  using assms by (auto simp: purge_goals_def split: sum.splits)

lemma goal_run_inv_same:
  "goal_run_inv (ids, db) \<Longrightarrow> goal_db_ok db' \<Longrightarrow> g_goal_id ` set (db_goals db') \<subseteq> g_goal_id ` set (db_goals db) \<Longrightarrow>
   goal_run_inv (ids, db')"
  unfolding goal_run_inv_def fst_conv snd_conv by blast

lemma goal_run_inv_step:
  assumes "goal_step s s'" and "goal_run_inv s"
  shows "goal_run_inv s' \<and> (\<exists>new. (new = None \<and> fst s' = fst s \<or> (\<exists>k. new = Some k \<and> k \<notin> set (fst s) \<and> fst s' = k # fst s)) \<and>
    goals_evolve new (snd s) (snd s'))"
  using assms(1)
proof cases
  case (gs_create uuid ids now ev vault title objective hint criteria metadata plan stype sid stask slabel db res db')
  then have "g_goal_id ` set (db_goals db') \<subseteq> insert (goal_new_id ''goal'' uuid) (set ids)"
    using create_goal_spec [OF gs_create(4)] assms(2) by (auto simp: goal_run_inv_def image_subset_iff)
  then show ?thesis using create_goal_spec [OF gs_create(4)] gs_create assms(2) by (auto simp: goal_run_inv_def)
next
  case (gs_update now ev gid title objective status hint criteria plan metadata reason db res db' ids)
  moreover have "goal_db_ok db" using gs_update assms(2) by (simp add: goal_run_inv_def)
  ultimately show ?thesis using update_goal_spec [OF gs_update(3)] assms(2) goal_run_inv_same by auto
next
  case (gs_checkpoint now uuid ev gid summary current actions questions risks metadata db res db' ids)
  moreover have "goal_db_ok db" using gs_checkpoint assms(2) by (simp add: goal_run_inv_def)
  ultimately show ?thesis using checkpoint_spec [OF gs_checkpoint(3)] assms(2) goal_run_inv_same by auto
next
  case (gs_purge now vault statuses days db res db' ids)
  have "goal_db_ok db" using gs_purge assms(2) by (simp add: goal_run_inv_def)
  then have "goal_db_ok db' \<and> goals_evolve None db db' \<and> g_goal_id ` set (db_goals db') \<subseteq> g_goal_id ` set (db_goals db)"
    using purge_goals_cases [OF gs_purge(3)] by (elim disjE exE) (simp_all add: delete_goals_spec)
  then show ?thesis using assms(2) gs_purge goal_run_inv_same by auto
qed

interpretation goals: lifecycle goal_step goal_run_inv "\<lambda>s. find_goal (snd s)" "\<lambda>s k. k \<in> set (fst s)" "\<lambda>_. True" provenance
proof unfold_locales
  fix s s' :: "string list \<times> goal_db" and k r r'
  assume step: "goal_step s s'" and inv: "goal_run_inv s"
  obtain new where inv': "goal_run_inv s'" and new: "new = None \<and> fst s' = fst s \<or> (\<exists>k. new = Some k \<and> k \<notin> set (fst s) \<and> fst s' = k # fst s)"
    and ev: "goals_evolve new (snd s) (snd s')" using goal_run_inv_step [OF step inv] by blast
  show "goal_run_inv s'" by (rule inv')
  show "k \<in> set (fst s')" if "k \<in> set (fst s)" using that new by auto
  have dist: "distinct (map g_goal_id (db_goals (snd s)))" "distinct (map g_goal_id (db_goals (snd s')))"
    using inv inv' by (simp_all add: goal_run_inv_def goal_db_ok_def)
  show "find_goal (snd s') k = None" if "k \<in> set (fst s)" "find_goal (snd s) k = None"
    using that new ev unfolding find_goal_None goals_evolve_def by fastforce
  show "True \<and> provenance r' = provenance r" if "find_goal (snd s) k = Some r" "find_goal (snd s') k = Some r'"
  proof -
    from that dist have r: "r \<in> set (db_goals (snd s))" "g_goal_id r = k" and r': "r' \<in> set (db_goals (snd s'))" "g_goal_id r' = k"
      by (simp_all add: find_goal_Some)
    have "k \<in> set (fst s)" using inv r by (auto simp: goal_run_inv_def)
    then obtain r0 where "r0 \<in> set (db_goals (snd s))" "g_goal_id r0 = k" "provenance r' = provenance r0"
      using ev r' new unfolding goals_evolve_def by fastforce
    moreover from this r dist(1) have "r0 = r" by (metis find_goal_Some option.inject)
    ultimately show ?thesis by simp
  qed
next
  show "k \<in> set (fst s)" if "goal_run_inv s" "find_goal (snd s) k = Some r" for s k r
    using that by (auto simp: goal_run_inv_def find_goal_Some goal_db_ok_def)
qed

section \<open>Consistency\<close>

text \<open>
  The tables stay consistent along every sequence of operations with any arguments: goal, event
  and checkpoint ids are unique, every event and checkpoint belongs to an existing goal, and every goal
  has a vault, a title, an objective, a known status and a known source type.
\<close>

theorem goal_tables_consistent:
  "goal_step\<^sup>*\<^sup>* ([], empty_goal_db) (ids, db) \<Longrightarrow> goal_db_ok db"
  using goals.inv_run [of "([], empty_goal_db)" "(ids, db)"] by (simp add: goal_run_inv_def goal_db_ok_def)

text \<open>
  Where a goal comes from is fixed: after any further operations a goal is gone or still has the
  vault, the source and the creation time it was created with.
\<close>

theorem goal_provenance_immutable:
  assumes "goal_step\<^sup>*\<^sup>* ([], empty_goal_db) (ids, db)" and "goal_step\<^sup>*\<^sup>* (ids, db) (ids', db')"
    and "find_goal db k = Some g"
  shows "find_goal db' k = None \<or> (\<exists>g'. find_goal db' k = Some g' \<and> provenance g' = provenance g)"
proof -
  have "goal_run_inv ([], empty_goal_db)" by (simp add: goal_run_inv_def goal_db_ok_def)
  then have "goal_run_inv (ids, db)" using goals.inv_run [OF assms(1)] by blast
  from goals.final_run [OF assms(2) this, of k g] assms(3) show ?thesis by auto
qed

section \<open>Purging\<close>

lemma isoformat_floor_lessD:
  assumes "isoformat (floor_second a) < isoformat (floor_second b)" and "a < datetime_limit"
  shows "a div 1000000 < b div 1000000"
proof (rule ccontr)
  assume "\<not> a div 1000000 < b div 1000000"
  then consider "b div 1000000 < a div 1000000" | "a div 1000000 = b div 1000000" by linarith
  then show False
  proof cases
    case 1
    from isoformat_floor_less [OF this assms(2)] assms(1) show False by simp
  next
    case 2
    then have "floor_second a = floor_second b" by (simp add: floor_second_def minus_mod_eq_mult_div)
    with assms(1) show False by simp
  qed
qed

lemma floor_second_shift: "floor_second (floor_second now - timedelta_days d) = floor_second now - timedelta_days d"
proof -
  have "timedelta_days d = 1000000 * (d * 86400)" by (simp add: timedelta_days_def)
  moreover have "floor_second now = 1000000 * (now div 1000000)" by (simp add: floor_second_def minus_mod_eq_mult_div)
  ultimately have "floor_second now - timedelta_days d = 1000000 * (now div 1000000 - d * 86400)"
    by (simp only: diff_mult_distrib2)
  then show ?thesis by (simp add: floor_second_def)
qed

lemma floor_second_diff_div: "(floor_second now - timedelta_days d) div 1000000 = now div 1000000 - d * 86400"
proof -
  have "floor_second now - timedelta_days d = 1000000 * (now div 1000000) - 1000000 * (d * 86400)"
    by (simp add: timedelta_days_def floor_second_def minus_mod_eq_mult_div)
  then show ?thesis by (simp add: diff_mult_distrib2 [symmetric])
qed

lemma rmap_all: "rmap f xs = Inr ys \<Longrightarrow> (\<And>x y. f x = Inr y \<Longrightarrow> P y) \<Longrightarrow> \<forall>y \<in> set ys. P y"
  by (induction xs arbitrary: ys) auto

lemma purge_request_match:
  assumes "purge_request now vault statuses days = Inr doomed" and "doomed g"
  shows "goal_required_text vault ''vault_name'' = Inr (g_vault_name g) \<and> g_status g \<in> set PURGEABLE_GOAL_STATUSES \<and>
    (\<forall>d u. days = Some d \<longrightarrow> g_updated_at g = goal_utc_now u \<longrightarrow> u < datetime_limit \<longrightarrow>
       u div 1000000 < now div 1000000 - nat d * 86400)"
proof -
  let ?check = "\<lambda>s. goal_validate_status (JStr (py_str s)) PURGEABLE_GOAL_STATUSES ''purge goal status''"
  obtain v sts cutoff where v: "goal_required_text vault ''vault_name'' = Inr v" and sts: "rmap ?check statuses = Inr sts"
    and cut: "purge_cutoff now days = Inr cutoff" and doomed: "doomed = purge_match v sts cutoff"
    using assms(1) unfolding purge_request_def by (auto split: if_splits)
  have "set sts \<subseteq> set PURGEABLE_GOAL_STATUSES"
    using rmap_all [OF sts, of "\<lambda>y. y \<in> set PURGEABLE_GOAL_STATUSES"] by (auto dest: goal_validate_status_in)
  moreover have "u div 1000000 < now div 1000000 - nat d * 86400"
    if "days = Some d" "g_updated_at g = goal_utc_now u" "u < datetime_limit" for d u
  proof -
    have "g_updated_at g < isoformat (floor_second now - timedelta_days (nat d))"
      using assms(2) cut that(1) unfolding doomed by (auto simp: purge_match_def purge_cutoff_def split: if_splits)
    then have "isoformat (floor_second u) < isoformat (floor_second (floor_second now - timedelta_days (nat d)))"
      unfolding that(2) goal_utc_now_def floor_second_shift .
    from isoformat_floor_lessD [OF this that(3)] show ?thesis by (simp add: floor_second_diff_div)
  qed
  ultimately show ?thesis using assms(2) v unfolding doomed by (auto simp: purge_match_def)
qed

text \<open>
  C28. Purging is confined: a purge that succeeds removes only completed or cancelled goals of the named
  vault, and with an age only goals last updated that many days before, in real time; it returns how
  many it removed, and the other goals keep their row, their events and their checkpoints.
\<close>

theorem purge_confined:
  assumes "purge_goals now vault statuses days db = (Inr n, db')" and "goal_db_ok db" and "g \<in> set (db_goals db)"
  shows "length (db_goals db') + n = length (db_goals db) \<and>
    (if g \<in> set (db_goals db')
     then filter (\<lambda>e. ge_goal_id e = g_goal_id g) (db_events db') = filter (\<lambda>e. ge_goal_id e = g_goal_id g) (db_events db) \<and>
       filter (\<lambda>c. gc_goal_id c = g_goal_id g) (db_checkpoints db') = filter (\<lambda>c. gc_goal_id c = g_goal_id g) (db_checkpoints db)
     else goal_required_text vault ''vault_name'' = Inr (g_vault_name g) \<and> g_status g \<in> set PURGEABLE_GOAL_STATUSES \<and>
       (\<forall>d u. days = Some d \<longrightarrow> g_updated_at g = goal_utc_now u \<longrightarrow> u < datetime_limit \<longrightarrow>
          u div 1000000 < now div 1000000 - nat d * 86400))"
proof -
  obtain doomed where req: "purge_request now vault statuses days = Inr doomed"
    and n: "n = length (filter doomed (db_goals db))" and db': "db' = delete_goals doomed db"
    using assms(1) by (auto simp: purge_goals_def split: sum.splits)
  have "length (db_goals db') + n = length (db_goals db)"
    unfolding n db' delete_goals_def using sum_length_filter_compl [of doomed "db_goals db"] by (simp add: Let_def comp_def)
  moreover have "doomed g" if "g \<notin> set (db_goals db')" using that assms(3) unfolding db' by (auto simp: delete_goals_def Let_def)
  moreover have "g_goal_id g \<in> g_goal_id ` set (db_goals db')" if "g \<in> set (db_goals db')" using that by simp
  ultimately show ?thesis
    using purge_request_match [OF req] unfolding db'
    by (auto simp: delete_goals_def Let_def intro!: filter_cong)
qed

section \<open>Updates\<close>

text \<open>What the fields of a changed goal are, for a field that is given and for one that is not.\<close>

definition field_after :: "json option \<Rightarrow> (json \<Rightarrow> 'a result) \<Rightarrow> 'a \<Rightarrow> 'a \<Rightarrow> bool" where
  "field_after arg clean old new \<longleftrightarrow> (case arg of None \<Rightarrow> new = old | Some v \<Rightarrow> clean v = Inr new)"

definition goal_after ::
  "json option \<Rightarrow> json option \<Rightarrow> json option \<Rightarrow> json option \<Rightarrow> json option \<Rightarrow> json option option \<Rightarrow> json option \<Rightarrow>
   GoalRecord \<Rightarrow> GoalRecord \<Rightarrow> bool" where
  "goal_after title objective status hint criteria plan metadata g g' \<longleftrightarrow>
     field_after title (\<lambda>v. goal_required_text v ''title'') (g_title g) (g_title g') \<and>
     field_after objective (\<lambda>v. goal_required_text v ''objective'') (g_objective g) (g_objective g') \<and>
     field_after status (\<lambda>v. goal_validate_status (JStr (py_str v)) GOAL_STATUSES ''goal status'') (g_status g) (g_status g') \<and>
     field_after hint (\<lambda>v. Inr (goal_optional_text v)) (g_workspace_path_hint g) (g_workspace_path_hint g') \<and>
     field_after criteria goal_clean_string_list (g_success_criteria g) (g_success_criteria g') \<and>
     (case plan of None \<Rightarrow> g_plan g' = g_plan g | Some p \<Rightarrow> p = Some (g_plan g')) \<and>
     field_after metadata goal_clean_dict (g_metadata g) (g_metadata g')"

lemma set_field_step:
  assumes "set_field arg name clean show upd ch = Inr ch'" and "\<And>h. upd (p h) h = h"
  shows "\<exists>x. fst ch' g = upd x (fst ch g) \<and> field_after arg clean (p (fst ch g)) x"
  using assms by (cases arg) (auto simp: set_field_def field_after_def)

lemma goal_changes_of_after:
  assumes "goal_changes_of title objective status hint criteria plan metadata = Inr ch"
  shows "goal_after title objective status hint criteria plan metadata g (fst ch g)"
  using assms
proof (rule goal_changes_of_steps)
  fix c1 c2 c3 c4 c5 c6
  assume
    c1: "set_field title ''title'' (\<lambda>v. goal_required_text v ''title'') JStr (\<lambda>x g. g\<lparr>g_title := x\<rparr>) (id, []) = Inr c1" and
    c2: "set_field objective ''objective'' (\<lambda>v. goal_required_text v ''objective'') JStr (\<lambda>x g. g\<lparr>g_objective := x\<rparr>) c1 = Inr c2" and
    c3: "set_field status ''status'' (\<lambda>v. goal_validate_status (JStr (py_str v)) GOAL_STATUSES ''goal status'') JStr
       (\<lambda>x g. g\<lparr>g_status := x\<rparr>) c2 = Inr c3" and
    c4: "set_field hint ''workspace_path_hint'' (\<lambda>v. Inr (goal_optional_text v)) json_of_opt
       (\<lambda>x g. g\<lparr>g_workspace_path_hint := x\<rparr>) c3 = Inr c4" and
    c5: "set_field criteria ''success_criteria'' goal_clean_string_list json_strings
       (\<lambda>x g. g\<lparr>g_success_criteria := x\<rparr>) c4 = Inr c5" and
    c6: "(case plan of None \<Rightarrow> Inr c5
          | Some p \<Rightarrow> rbind (goal_clean_json_value p) (\<lambda>x. Inr ((\<lambda>g. g\<lparr>g_plan := x\<rparr>) \<circ> fst c5, snd c5 @ [(''plan'', x)]))) = Inr c6" and
    c7: "set_field metadata ''metadata'' goal_clean_dict JDict (\<lambda>x g. g\<lparr>g_metadata := x\<rparr>) c6 = Inr ch"
  obtain t where t: "fst c1 g = g\<lparr>g_title := t\<rparr>" "field_after title (\<lambda>v. goal_required_text v ''title'') (g_title g) t"
    using set_field_step [OF c1, of g_title g] by auto
  obtain ob where ob: "fst c2 g = g\<lparr>g_title := t, g_objective := ob\<rparr>"
      "field_after objective (\<lambda>v. goal_required_text v ''objective'') (g_objective g) ob"
    using set_field_step [OF c2, of g_objective g] t(1) by auto
  obtain st where st: "fst c3 g = g\<lparr>g_title := t, g_objective := ob, g_status := st\<rparr>"
      "field_after status (\<lambda>v. goal_validate_status (JStr (py_str v)) GOAL_STATUSES ''goal status'') (g_status g) st"
    using set_field_step [OF c3, of g_status g] ob(1) by auto
  obtain w where w: "fst c4 g = g\<lparr>g_title := t, g_objective := ob, g_status := st, g_workspace_path_hint := w\<rparr>"
      "field_after hint (\<lambda>v. Inr (goal_optional_text v)) (g_workspace_path_hint g) w"
    using set_field_step [OF c4, of g_workspace_path_hint g] st(1) by auto
  obtain cr where cr: "fst c5 g = g\<lparr>g_title := t, g_objective := ob, g_status := st, g_workspace_path_hint := w, g_success_criteria := cr\<rparr>"
      "field_after criteria goal_clean_string_list (g_success_criteria g) cr"
    using set_field_step [OF c5, of g_success_criteria g] w(1) by auto
  obtain p where p: "fst c6 g = (fst c5 g)\<lparr>g_plan := p\<rparr>" "case plan of None \<Rightarrow> p = g_plan g | Some q \<Rightarrow> q = Some p"
    using c6 cr(1) by (auto simp: goal_clean_json_value_def split: option.splits)
  obtain m where m: "fst ch g = (fst c6 g)\<lparr>g_metadata := m\<rparr>" "field_after metadata goal_clean_dict (g_metadata g) m"
    using set_field_step [OF c7, of g_metadata g] p(1) cr(1) by auto
  show ?thesis using t(2) ob(2) st(2) w(2) cr(2) p(2) m unfolding goal_after_def by (simp add: p(1) cr(1) split: option.splits)
qed

lemma find_on_goal:
  assumes "\<And>g. g_goal_id (f g) = g_goal_id g"
  shows "find_goal (on_goal k f db) j = map_option (if j = k then f else id) (find_goal db j)"
proof -
  have "find (\<lambda>g. g_goal_id g = j) (map (\<lambda>g. if g_goal_id g = k then f g else g) gs) =
      map_option (if j = k then f else id) (find (\<lambda>g. g_goal_id g = j) gs)" for gs
    using assms by (induction gs) auto
  then show ?thesis by (simp add: find_goal_def on_goal_def)
qed

lemma on_goal_fields [simp]:
  "db_events (on_goal k f db) = db_events db" "db_checkpoints (on_goal k f db) = db_checkpoints db"
  by (simp_all add: on_goal_def)

lemma on_goal_ids:
  assumes "\<And>g. g_goal_id (f g) = g_goal_id g"
  shows "j \<in> g_goal_id ` set (db_goals (on_goal k f db)) \<longleftrightarrow> j \<in> g_goal_id ` set (db_goals db)"
  using find_on_goal [of f k db j, OF assms] find_goal_None [of db j] find_goal_None [of "on_goal k f db" j]
  by (metis option.map_disc_iff)

lemma update_goal_committed:
  assumes "update_goal now ev gid title objective status hint criteria plan metadata reason db = (res, db')"
    and "goal_db_ok db" and "(\<exists>payload. res = Inr payload) \<or> db' \<noteq> db"
  shows "\<exists>k g g'. goal_required_text gid ''goal_id'' = Inr k \<and> find_goal db k = Some g \<and> find_goal db' k = Some g' \<and>
    goal_after title objective status hint criteria plan metadata g g' \<and> g_updated_at g' = goal_utc_now now \<and>
    provenance g' = provenance g \<and> (\<forall>j. j \<noteq> k \<longrightarrow> find_goal db' j = find_goal db j) \<and> res = goal_payload db' k"
proof -
  obtain k ch ty msg meta where
    k: "goal_required_text gid ''goal_id'' = Inr k" and res: "res = goal_payload db' k" and
    ch: "goal_changes_of title objective status hint criteria plan metadata = Inr ch" and
    g: "\<exists>g. require_goal db k = Inr g" and
    ev: "insert_event ev k ty msg meta (goal_utc_now now)
           (on_goal k (\<lambda>g. (fst ch g)\<lparr>g_updated_at := goal_utc_now now\<rparr>) db) = Inr db'"
    using assms(1,3) unfolding update_goal_def goal_commit_def by (force split: sum.splits prod.splits if_splits)
  let ?f = "\<lambda>g. (fst ch g)\<lparr>g_updated_at := goal_utc_now now\<rparr>"
  have ok: "goal_change_ok ?f" using goal_changes_of_ok [OF ch] by (auto simp: field_simps_ok)
  then have "goal_db_ok (on_goal k ?f db)" using on_goal_spec [OF assms(2)] by blast
  from insert_event_spec [OF ev this] have "find_goal db' = find_goal (on_goal k ?f db)" by (simp add: find_goal_def fun_eq_iff)
  then have f: "find_goal db' j = map_option (if j = k then ?f else id) (find_goal db j)" for j
    using find_on_goal [of ?f k db j] ok by (simp add: goal_change_ok_def)
  obtain g where g: "find_goal db k = Some g" using g by (auto simp: require_goal_def split: option.splits)
  have "goal_after title objective status hint criteria plan metadata g (?f g)"
    using goal_changes_of_after [OF ch, of g] by (simp add: goal_after_def split: option.splits)
  moreover have "provenance (?f g) = provenance g" using ok by (simp add: goal_change_ok_def)
  ultimately show ?thesis using k g f res by (auto simp: option.map_id)
qed

text \<open>
  An update changes what it was given: a successful update sets each given field to its cleaned
  value, keeps every other field, stamps the update time, and leaves every other goal as it was; an
  update that fails leaves the whole database as it was.
\<close>

theorem update_goal_frame:
  assumes "update_goal now ev gid title objective status hint criteria plan metadata reason db = (res, db')"
    and "goal_db_ok db"
  shows "case res of
      Inl _ \<Rightarrow> db' = db
    | Inr _ \<Rightarrow> \<exists>k g g'. goal_required_text gid ''goal_id'' = Inr k \<and> find_goal db k = Some g \<and> find_goal db' k = Some g' \<and>
        goal_after title objective status hint criteria plan metadata g g' \<and> g_updated_at g' = goal_utc_now now \<and>
        provenance g' = provenance g \<and> (\<forall>j. j \<noteq> k \<longrightarrow> find_goal db' j = find_goal db j)"
proof (cases res)
  case (Inl e)
  have "db' = db"
  proof (rule ccontr)
    assume "db' \<noteq> db"
    then obtain k g' where "find_goal db' k = Some g'" "res = goal_payload db' k"
      using update_goal_committed [OF assms] by blast
    with Inl show False by (simp add: goal_payload_def require_goal_def)
  qed
  with Inl show ?thesis by simp
next
  case (Inr payload)
  with update_goal_committed [OF assms] show ?thesis unfolding Inr sum.case by blast
qed

section \<open>Checkpoints\<close>

text \<open>
  A checkpoint may be answered with another one: checkpoints carry a time cut to the second and ties
  are broken by their random ids, so of two checkpoints stored in one second the second call can return
  the first checkpoint, and the goal shows that one as its latest.
\<close>

theorem checkpoint_answers_another:
  assumes "now div 1000000 = now' div 1000000" and "find_goal db ''g'' = Some g" and "db_checkpoints db = []"
    and "db_events db = []"
  shows "let first = goal_checkpoint now ''b'' ''e1'' (JStr ''g'') (JStr ''first'') JNull JNull JNull JNull JNull db;
             second = goal_checkpoint now' ''a'' ''e2'' (JStr ''g'') (JStr ''second'') JNull JNull JNull JNull JNull (snd first)
         in \<exists>d. fst second = Inr d \<and> map_of d ''summary'' = Some (JStr ''first'') \<and> fst second = fst first"
proof -
  have t: "goal_utc_now now' = goal_utc_now now"
    using assms(1) by (simp add: goal_utc_now_def floor_second_def minus_mod_eq_mult_div)
  have texts: "goal_required_text (JStr ''g'') f = Inr ''g''" "goal_required_text (JStr ''first'') f = Inr ''first''"
    "goal_required_text (JStr ''second'') f = Inr ''second''" "goal_required_text (JStr ''checkpoint'') f = Inr ''checkpoint''" for f
    by (simp_all add: goal_required_text_def strip_def lstrip_def rstrip_def py_isspace_def)
  have g: "''g'' \<in> g_goal_id ` set (db_goals db)" using assms(2) by (metis find_goal_None option.distinct(1))
  have [simp]: "find_goal (db\<lparr>db_checkpoints := cs, db_events := es\<rparr>) k = find_goal db k" for cs es k by (simp add: find_goal_def)
  show ?thesis
    using assms(2-4) g
    by (simp add: goal_checkpoint_def texts t require_goal_def goal_commit_def insert_checkpoint_def insert_event_def
        touch_goal_def find_on_goal on_goal_ids latest_checkpoint_in_conn_def goal_new_id_def Let_def checkpoint_to_dict_def)
qed

section \<open>A worked example\<close>

definition demo_goal :: GoalRecord where
  "demo_goal = \<lparr>g_goal_id = ''goal_g'', g_vault_name = ''v'', g_workspace_path_hint = None, g_source_type = None,
     g_source_id = None, g_source_task_id = None, g_source_label = None, g_title = ''T'', g_objective = ''O'',
     g_status = ''active'', g_success_criteria = [], g_plan = JNull, g_metadata = [],
     g_created_at = goal_utc_now 0, g_updated_at = goal_utc_now 0\<rparr>"

definition demo_goal_create :: "(string, json) dict result \<times> goal_db" where
  "demo_goal_create = create_goal 0 ''g'' ''e'' (JStr ''v'') (JStr ''T'') (JStr ''O'') JNull JNull JNull (Some JNull)
     JNull JNull JNull JNull empty_goal_db"

definition demo_goal_db :: goal_db where "demo_goal_db = snd demo_goal_create"

lemma demo_goal_texts:
  "goal_required_text (JStr ''v'') f = Inr ''v''" "goal_required_text (JStr ''T'') f = Inr ''T''"
  "goal_required_text (JStr ''O'') f = Inr ''O''" "goal_required_text (JStr ''created'') f = Inr ''created''"
  "goal_required_text (JStr ''goal_g'') f = Inr ''goal_g''" "goal_required_text (JStr ''N'') f = Inr ''N''"
  "goal_required_text (JStr ''goal_updated'') f = Inr ''goal_updated''"
  "goal_required_text (JStr ''Updated goal.'') f = Inr ''Updated goal.''"
  "goal_required_text (JStr ''Created goal: T'') f = Inr ''Created goal: T''"
  "goal_required_text (JStr ''completed'') f = Inr ''completed''" "goal_optional_text JNull = None"
  by (simp_all add: goal_required_text_def goal_optional_text_def strip_def lstrip_def rstrip_def py_isspace_def)

lemma demo_goal_goals: "db_goals demo_goal_db = [demo_goal]"
  by (simp add: demo_goal_db_def demo_goal_create_def create_goal_def goal_commit_def demo_goal_texts insert_goal_def
      insert_event_def goal_new_id_def goal_clean_json_value_def goal_optional_source_type_def Let_def demo_goal_def)

lemma demo_goal_run: "goal_step\<^sup>*\<^sup>* ([], empty_goal_db) ([''goal_g''], demo_goal_db)"
proof -
  have "goal_step ([], empty_goal_db) (goal_new_id ''goal'' ''g'' # [], demo_goal_db)"
    by (rule gs_create [where res = "fst demo_goal_create"]) (auto simp: demo_goal_db_def demo_goal_create_def)
  then show ?thesis by (simp add: goal_new_id_def)
qed

lemma demo_goal_ok: "goal_db_ok demo_goal_db"
  using goals.inv_run [OF demo_goal_run] by (simp add: goal_run_inv_def goal_db_ok_def)

theorem goal_tables_consistent_witness: "goal_db_ok demo_goal_db"
  by (rule goal_tables_consistent [OF demo_goal_run])

theorem goal_provenance_immutable_witness:
  "find_goal demo_goal_db ''goal_g'' = Some demo_goal \<and> provenance demo_goal = (''v'', None, None, None, None, goal_utc_now 0)"
proof -
  have g: "find_goal demo_goal_db ''goal_g'' = Some demo_goal"
    unfolding find_goal_def demo_goal_goals by (simp add: demo_goal_def)
  from goal_provenance_immutable [OF demo_goal_run rtranclp.rtrancl_refl g] g
  show ?thesis by (auto simp: provenance_def demo_goal_def)
qed

definition demo_done_db :: goal_db where
  "demo_done_db = \<lparr>db_goals = [demo_goal, demo_goal\<lparr>g_goal_id := ''goal_h'', g_status := ''completed''\<rparr>],
     db_events = [], db_checkpoints = []\<rparr>"

theorem purge_confined_witness:
  "fst (purge_goals 0 (JStr ''v'') [JStr ''completed''] None demo_done_db) = Inr 1 \<and>
   length (db_goals (snd (purge_goals 0 (JStr ''v'') [JStr ''completed''] None demo_done_db))) = 1"
proof -
  have n: "fst (purge_goals 0 (JStr ''v'') [JStr ''completed''] None demo_done_db) = Inr 1"
    by (simp add: purge_goals_def purge_request_def purge_cutoff_def goal_validate_status_def demo_goal_texts
        PURGEABLE_GOAL_STATUSES_def purge_match_def demo_done_db_def demo_goal_def py_lower_def lower_char_def)
  have ok: "goal_db_ok demo_done_db"
    by (simp add: goal_db_ok_def goal_row_ok_def demo_done_db_def demo_goal_def GOAL_STATUSES_def)
  have g: "demo_goal \<in> set (db_goals demo_done_db)" by (simp add: demo_done_db_def)
  from purge_confined [OF _ ok g, of 0 "JStr ''v''" "[JStr ''completed'']" None 1] n
  show ?thesis by (cases "purge_goals 0 (JStr ''v'') [JStr ''completed''] None demo_done_db") (simp add: demo_done_db_def)
qed

theorem update_goal_frame_witness:
  "\<exists>g'. find_goal (snd (update_goal 0 ''e2'' (JStr ''goal_g'') (Some (JStr ''N'')) None None None None None None JNull demo_goal_db)) ''goal_g'' = Some g' \<and>
     g_title g' = ''N'' \<and> g_objective g' = ''O''"
proof -
  let ?u = "update_goal 0 ''e2'' (JStr ''goal_g'') (Some (JStr ''N'')) None None None None None None JNull demo_goal_db"
  have e: "ge_event_id ` set (db_events demo_goal_db) = {''event_e''}"
    by (simp add: demo_goal_db_def demo_goal_create_def create_goal_def goal_commit_def demo_goal_texts insert_goal_def
      insert_event_def goal_new_id_def goal_clean_json_value_def goal_optional_source_type_def Let_def)
  have g: "find_goal demo_goal_db ''goal_g'' = Some demo_goal"
    unfolding find_goal_def demo_goal_goals by (simp add: demo_goal_def)
  have "\<exists>p. fst ?u = Inr p"
    using g e
    by (auto simp: update_goal_def demo_goal_texts goal_changes_of_def set_field_def require_goal_def goal_commit_def
        insert_event_def goal_new_id_def goal_payload_def Let_def on_goal_def demo_goal_goals demo_goal_def find_goal_def)
  then show ?thesis
    using update_goal_frame [OF _ demo_goal_ok, of 0 "''e2''" "JStr ''goal_g''" "Some (JStr ''N'')" None None None None None None JNull "fst ?u" "snd ?u"] g
    by (auto simp: demo_goal_texts goal_after_def field_after_def demo_goal_def)
qed

theorem checkpoint_answers_another_witness:
  "let db = \<lparr>db_goals = [demo_goal\<lparr>g_goal_id := ''g''\<rparr>], db_events = [], db_checkpoints = []\<rparr>;
       first = goal_checkpoint 0 ''b'' ''e1'' (JStr ''g'') (JStr ''first'') JNull JNull JNull JNull JNull db
   in fst (goal_checkpoint 1 ''a'' ''e2'' (JStr ''g'') (JStr ''second'') JNull JNull JNull JNull JNull (snd first)) = fst first"
  using checkpoint_answers_another [of 0 1 "\<lparr>db_goals = [demo_goal\<lparr>g_goal_id := ''g''\<rparr>], db_events = [], db_checkpoints = []\<rparr>"
      "demo_goal\<lparr>g_goal_id := ''g''\<rparr>"]
  by (auto simp: find_goal_def Let_def)

end
