(* ===== verification/Json_Parse.thy ===== *)
theory Json_Parse
  imports Json_Value
begin

text \<open>
  \<open>json.loads\<close> of the standard library, for texts whose code points are below U+0100 (an escape of a
  larger one is refused), and the printer with its separators. A float literal is kept as it is
  written. The parser runs on a bound for its recursion; \<open>json_loads\<close> gives it enough, and the main
  fact is that it reads back what the printer wrote.
\<close>

section \<open>The printer with separators\<close>

primrec json_text :: "bool \<Rightarrow> string \<Rightarrow> string \<Rightarrow> json \<Rightarrow> string" where
  "json_text ascii isep ksep JNull = ''null''"
| "json_text ascii isep ksep (JBool b) = (if b then ''true'' else ''false'')"
| "json_text ascii isep ksep (JInt i) = show_int i"
| "json_text ascii isep ksep (JFloat f) = f"
| "json_text ascii isep ksep (JStr s) = json_quote ascii s"
| "json_text ascii isep ksep (JList xs) = ''['' @ str_join isep (map (json_text ascii isep ksep) xs) @ '']''"
| "json_text ascii isep ksep (JDict d) = ''{'' @ str_join isep
     (map (\<lambda>(k, t). json_quote ascii k @ ksep @ t)
       (sort_key fst (map (map_prod id (json_text ascii isep ksep)) d))) @ ''}''"

lemma json_dumps_text: "json_dumps ascii v = json_text ascii '', '' '': '' v"
proof (induction v)
  case (JList xs)
  then have "map (json_dumps ascii) xs = map (json_text ascii '', '' '': '') xs" by simp
  then show ?case by (simp only: json_dumps.simps json_text.simps)
next
  case (JDict d)
  then have "map (map_prod id (json_dumps ascii)) d = map (map_prod id (json_text ascii '', '' '': '')) d"
    by (auto simp: map_prod_def split_beta)
  then show ?case by (simp only: json_dumps.simps json_text.simps)
qed simp_all

section \<open>The parser\<close>

definition json_space :: "char \<Rightarrow> bool" where
  "json_space c \<longleftrightarrow> c \<in> {CHR '' '', CHR 0x09, CHR 0x0A, CHR 0x0D}"

definition skip_ws :: "string \<Rightarrow> string" where
  "skip_ws s = dropWhile json_space s"

definition hex_value :: "char \<Rightarrow> nat option" where
  "hex_value c = (let n = of_char c :: nat in
     if 48 \<le> n \<and> n \<le> 57 then Some (n - 48) else if 97 \<le> n \<and> n \<le> 102 then Some (n - 87)
     else if 65 \<le> n \<and> n \<le> 70 then Some (n - 55) else None)"

definition simple_escape :: "char \<Rightarrow> char option" where
  "simple_escape c = (if c \<in> {CHR 0x22, CHR 0x5C, CHR ''/''} then Some c
     else if c = CHR ''b'' then Some (CHR 0x08) else if c = CHR ''f'' then Some (CHR 0x0C)
     else if c = CHR ''n'' then Some (CHR 0x0A) else if c = CHR ''r'' then Some (CHR 0x0D)
     else if c = CHR ''t'' then Some (CHR 0x09) else None)"

text \<open>The code point of four hexadecimal digits, when it is below 256.\<close>

definition hex4 :: "string \<Rightarrow> char option" where
  "hex4 s = (case s of
     [a, b, c, d] \<Rightarrow>
       (case (hex_value a, hex_value b, hex_value c, hex_value d) of
          (Some 0, Some 0, Some x, Some y) \<Rightarrow> Some (char_of (16 * x + y)) | _ \<Rightarrow> None)
   | _ \<Rightarrow> None)"

text \<open>A string after its opening quote.\<close>

fun scan_string :: "string \<Rightarrow> (string \<times> string) option" where
  "scan_string [] = None"
| "scan_string (c # cs) =
     (if c = CHR 0x22 then Some ([], cs)
      else if c = CHR 0x5C
      then (case cs of
              [] \<Rightarrow> None
            | e # es \<Rightarrow>
                if e = CHR ''u''
                then (case hex4 (take 4 es) of
                        None \<Rightarrow> None
                      | Some x \<Rightarrow> map_option (apfst (Cons x)) (scan_string (drop 4 es)))
                else (case simple_escape e of
                        None \<Rightarrow> None
                      | Some x \<Rightarrow> map_option (apfst (Cons x)) (scan_string es)))
      else if (of_char c :: nat) < 32 then None
      else map_option (apfst (Cons c)) (scan_string cs))"

definition is_digit :: "char \<Rightarrow> bool" where
  "is_digit c \<longleftrightarrow> 48 \<le> (of_char c :: nat) \<and> (of_char c :: nat) \<le> 57"

definition read_nat :: "string \<Rightarrow> nat" where
  "read_nat ds = foldl (\<lambda>n c. 10 * n + (of_char c - 48)) 0 ds"

text \<open>The number at the head of a text: \<open>(-?(?:0|[1-9][0-9]*))(\.[0-9]+)?([eE][-+]?[0-9]+)?\<close>.\<close>

definition int_digits :: "string \<Rightarrow> string" where
  "int_digits s = (case s of [] \<Rightarrow> [] | c # _ \<Rightarrow> if c = CHR ''0'' then [c] else takeWhile is_digit s)"

definition frac_part :: "string \<Rightarrow> string" where
  "frac_part s = (case s of
     c # cs \<Rightarrow> if c = CHR ''.'' \<and> takeWhile is_digit cs \<noteq> [] then c # takeWhile is_digit cs else []
   | [] \<Rightarrow> [])"

definition exp_part :: "string \<Rightarrow> string" where
  "exp_part s = (case s of
     c # cs \<Rightarrow>
       if c \<in> {CHR ''e'', CHR ''E''}
       then (let sign = (case cs of d # _ \<Rightarrow> if d \<in> {CHR ''-'', CHR ''+''} then [d] else [] | [] \<Rightarrow> []);
                 digits = takeWhile is_digit (drop (length sign) cs)
             in if digits = [] then [] else c # sign @ digits)
       else []
   | [] \<Rightarrow> [])"

definition number_parts :: "string \<Rightarrow> string \<times> string \<times> string \<times> string" where
  "number_parts s =
     (let digits = int_digits s; s1 = drop (length digits) s;
          frac = frac_part s1; s2 = drop (length frac) s1;
          expo = exp_part s2
      in (digits, frac, expo, drop (length expo) s2))"

definition scan_number :: "string \<Rightarrow> (json \<times> string) option" where
  "scan_number s =
     (let neg = startswith s ''-''
      in case number_parts (if neg then tl s else s) of
           (digits, frac, expo, rest) \<Rightarrow>
             if digits = [] then None
             else if frac = [] \<and> expo = []
             then Some (JInt (if neg then - int (read_nat digits) else int (read_nat digits)), rest)
             else Some (JFloat ((if neg then ''-'' else []) @ digits @ frac @ expo), rest))"

definition scan_literal :: "string \<Rightarrow> (json \<times> string) option" where
  "scan_literal s =
     (if startswith s ''null'' then Some (JNull, drop 4 s)
      else if startswith s ''true'' then Some (JBool True, drop 4 s)
      else if startswith s ''false'' then Some (JBool False, drop 5 s)
      else case scan_number s of
             Some x \<Rightarrow> Some x
           | None \<Rightarrow>
               if startswith s ''NaN'' then Some (JFloat ''NaN'', drop 3 s)
               else if startswith s ''Infinity'' then Some (JFloat ''Infinity'', drop 8 s)
               else if startswith s ''-Infinity'' then Some (JFloat ''-Infinity'', drop 9 s)
               else None)"

fun parse_value :: "nat \<Rightarrow> string \<Rightarrow> (json \<times> string) option"
  and parse_elems :: "nat \<Rightarrow> string \<Rightarrow> (json list \<times> string) option"
  and parse_members :: "nat \<Rightarrow> string \<Rightarrow> ((string \<times> json) list \<times> string) option" where
  "parse_value 0 s = None"
| "parse_value (Suc n) s =
     (case s of
        [] \<Rightarrow> None
      | c # cs \<Rightarrow>
          if c = CHR 0x22 then map_option (apfst JStr) (scan_string cs)
          else if c = CHR ''{''
          then (if startswith (skip_ws cs) ''}'' then Some (JDict [], tl (skip_ws cs))
                else map_option (apfst (JDict \<circ> dict_of)) (parse_members n (skip_ws cs)))
          else if c = CHR ''[''
          then (if startswith (skip_ws cs) '']'' then Some (JList [], tl (skip_ws cs))
                else map_option (apfst JList) (parse_elems n (skip_ws cs)))
          else scan_literal s)"
| "parse_elems 0 s = None"
| "parse_elems (Suc n) s =
     Option.bind (parse_value n s) (\<lambda>(v, r).
       case skip_ws r of
         [] \<Rightarrow> None
       | d # ds \<Rightarrow>
           if d = CHR '']'' then Some ([v], ds)
           else if d = CHR '','' then map_option (apfst (Cons v)) (parse_elems n (skip_ws ds))
           else None)"
| "parse_members 0 s = None"
| "parse_members (Suc n) s =
     (if \<not> startswith s [CHR 0x22] then None
      else Option.bind (scan_string (tl s)) (\<lambda>(k, r).
        if \<not> startswith (skip_ws r) '':'' then None
        else Option.bind (parse_value n (skip_ws (tl (skip_ws r)))) (\<lambda>(v, r).
          case skip_ws r of
            [] \<Rightarrow> None
          | d # ds \<Rightarrow>
              if d = CHR ''}'' then Some ([(k, v)], ds)
              else if d = CHR '','' then map_option (apfst (Cons (k, v))) (parse_members n (skip_ws ds))
              else None)))"

text \<open>Twice the length bounds the recursion: every call but the first of a list or object element
  is on a shorter text.\<close>

definition json_loads :: "string \<Rightarrow> json option" where
  "json_loads s =
     (case parse_value (2 * length s) (skip_ws s) of
        Some (v, r) \<Rightarrow> if skip_ws r = [] then Some v else None
      | None \<Rightarrow> None)"

section \<open>The bound on the recursion is enough\<close>

lemma scan_string_shorter: "scan_string s = Some (x, r) \<Longrightarrow> length r < length s"
proof (induction s arbitrary: x r rule: scan_string.induct)
  case (2 c cs)
  show ?case
  proof (cases "c = CHR 0x5C")
    case True
    with 2 show ?thesis by (fastforce split: list.splits if_splits option.splits)
  next
    case False
    with 2 show ?thesis by (fastforce split: if_splits)
  qed
qed simp

lemma skip_ws_le: "length (skip_ws s) \<le> length s"
  by (simp add: skip_ws_def length_dropWhile_le)

lemma skip_ws_tail: "skip_ws s = x # xs \<Longrightarrow> length xs < length s"
  using skip_ws_le [of s] by simp

lemma scan_number_shorter: "scan_number s = Some (v, r) \<Longrightarrow> length r < length s"
proof -
  assume "scan_number s = Some (v, r)"
  then obtain t d f e where p: "number_parts t = (d, f, e, r)" and d: "d \<noteq> []" and t: "length t \<le> length s"
    by (auto simp: scan_number_def Let_def split: prod.splits if_splits)
  have "length r \<le> length t - length d" "length d \<le> length t"
    using p length_takeWhile_le [of is_digit t] by (auto simp: number_parts_def int_digits_def Let_def split: list.splits if_splits)
  with d t show ?thesis by (cases d) auto
qed

lemma scan_literal_shorter: "scan_literal s = Some (v, r) \<Longrightarrow> length r < length s"
proof -
  have "length p \<le> length s" if "startswith s p" for p using that unfolding startswith_def by (metis length_take min.cobounded1)
  from this [of "''null''"] this [of "''true''"] this [of "''false''"] this [of "''NaN''"] this [of "''Infinity''"] this [of "''-Infinity''"]
  show "scan_literal s = Some (v, r) \<Longrightarrow> ?thesis"
    by (auto simp: scan_literal_def dest: scan_number_shorter split: if_splits option.splits)
qed

lemma parse_elems_SucD:
  assumes "parse_elems (Suc n) s = Some (vs, r)"
  obtains v r1 x xs where "parse_value n s = Some (v, r1)" "skip_ws r1 = x # xs"
    "r = xs \<or> (\<exists>ws. x \<noteq> CHR '']'' \<and> x = CHR '','' \<and> parse_elems n (skip_ws xs) = Some (ws, r))"
proof (cases "parse_value n s")
  case (Some p)
  obtain v r1 where p: "p = (v, r1)" by (cases p)
  show ?thesis
  proof (cases "skip_ws r1")
    case (Cons x xs)
    with assms Some p have "r = xs \<or> (\<exists>ws. x \<noteq> CHR '']'' \<and> x = CHR '','' \<and> parse_elems n (skip_ws xs) = Some (ws, r))"
      by (simp split: if_splits) blast+
    with Some p Cons that show ?thesis by blast
  qed (use assms Some p in simp)
qed (use assms in simp)

lemma parse_members_SucD:
  assumes "parse_members (Suc n) s = Some (d, r)"
  obtains k t v r1 x xs where "startswith s [CHR 0x22]" "scan_string (tl s) = Some (k, t)" "startswith (skip_ws t) '':''"
    "parse_value n (skip_ws (tl (skip_ws t))) = Some (v, r1)" "skip_ws r1 = x # xs"
    "r = xs \<or> (\<exists>ws. x \<noteq> CHR ''}'' \<and> x = CHR '','' \<and> parse_members n (skip_ws xs) = Some (ws, r))"
proof -
  have s: "startswith s [CHR 0x22]" using assms by (simp split: if_splits)
  obtain k t where k: "scan_string (tl s) = Some (k, t)" using assms s by (cases "scan_string (tl s)") auto
  have t: "startswith (skip_ws t) '':''" using assms s k by (simp split: if_splits)
  obtain v r1 where v: "parse_value n (skip_ws (tl (skip_ws t))) = Some (v, r1)"
    using assms s k t by (cases "parse_value n (skip_ws (tl (skip_ws t)))") auto
  obtain x xs where x: "skip_ws r1 = x # xs" using assms s k t v by (cases "skip_ws r1") auto
  have "r = xs \<or> (\<exists>ws. x \<noteq> CHR ''}'' \<and> x = CHR '','' \<and> parse_members n (skip_ws xs) = Some (ws, r))"
    using assms s k t v x by (simp split: if_splits) blast+
  with s k t v x that show ?thesis by blast
qed

lemma parse_shorter:
  "parse_value n s = Some (v, r) \<Longrightarrow> length r < length s"
  "parse_elems n s = Some (vs, r) \<Longrightarrow> length r < length s"
  "parse_members n s = Some (d, r) \<Longrightarrow> length r < length s"
proof (induction n s and n s and n s arbitrary: v r and vs r and d r rule: parse_value_parse_elems_parse_members.induct)
  case (2 n s)
  show ?case
  proof (cases s)
    case (Cons c cs)
    have "length (skip_ws cs) \<le> length cs" by (rule skip_ws_le)
    with Cons 2 show ?thesis
      by (auto dest: scan_string_shorter scan_literal_shorter split: if_splits) fastforce+
  qed (use 2 in simp)
next
  case (4 n s)
  from 4(3) obtain v r1 x xs where v: "parse_value n s = Some (v, r1)" and x: "skip_ws r1 = x # xs"
    and r: "r = xs \<or> (\<exists>ws. x \<noteq> CHR '']'' \<and> x = CHR '','' \<and> parse_elems n (skip_ws xs) = Some (ws, r))"
    by (rule parse_elems_SucD)
  have "length r1 < length s" using 4(1) v by blast
  moreover have "length xs < length r1" using x by (rule skip_ws_tail)
  moreover have "length r \<le> length xs" using r
  proof (elim disjE exE conjE)
    fix ws assume "x \<noteq> CHR '']''" "x = CHR '',''" "parse_elems n (skip_ws xs) = Some (ws, r)"
    then have "length r < length (skip_ws xs)" using 4(2) [OF v _ x] by blast
    then show ?thesis using skip_ws_le [of xs] by linarith
  qed simp
  ultimately show ?case by linarith
next
  case (6 n s)
  from 6(3) obtain k t v r1 x xs where s: "startswith s [CHR 0x22]" and k: "scan_string (tl s) = Some (k, t)"
    and t: "startswith (skip_ws t) '':''" and v: "parse_value n (skip_ws (tl (skip_ws t))) = Some (v, r1)" and x: "skip_ws r1 = x # xs"
    and r: "r = xs \<or> (\<exists>ws. x \<noteq> CHR ''}'' \<and> x = CHR '','' \<and> parse_members n (skip_ws xs) = Some (ws, r))"
    by (rule parse_members_SucD)
  have "length r1 < length (skip_ws (tl (skip_ws t)))" using 6(1) s k t v by blast
  also have "\<dots> \<le> length t" using skip_ws_le [of "tl (skip_ws t)"] skip_ws_le [of t] by simp
  also have "\<dots> \<le> length s" using scan_string_shorter [OF k] by simp
  finally have "length r1 < length s" .
  moreover have "length xs < length r1" using x by (rule skip_ws_tail)
  moreover have "length r \<le> length xs" using r
  proof (elim disjE exE conjE)
    fix ws assume "x \<noteq> CHR ''}''" "x = CHR '',''" "parse_members n (skip_ws xs) = Some (ws, r)"
    then have "length r < length (skip_ws xs)" using 6(2) [OF _ k _ _ v _ x] s t by blast
    then show ?thesis using skip_ws_le [of xs] by linarith
  qed simp
  ultimately show ?case by linarith
qed simp_all

lemma parse_fuel:
  "(2 * length s \<le> n \<longrightarrow> 2 * length s \<le> m \<longrightarrow> parse_value n s = parse_value m s) \<and>
   (2 * length s < n \<longrightarrow> 2 * length s < m \<longrightarrow> parse_elems n s = parse_elems m s) \<and>
   (2 * length s < n \<longrightarrow> 2 * length s < m \<longrightarrow> parse_members n s = parse_members m s)"
proof (induction n arbitrary: m s)
  case 0
  show ?case by (cases m) auto
next
  case (Suc n)
  have elems: "parse_elems n t = parse_elems k t" "parse_members n t = parse_members k t"
    if "2 * length t < n" "2 * length t < k" for t k using Suc that by blast+
  have vals: "parse_value n t = parse_value k t" if "2 * length t \<le> n" "2 * length t \<le> k" for t k using Suc that by blast
  show ?case
  proof (intro conjI impI)
    assume len: "2 * length s \<le> Suc n" "2 * length s \<le> m"
    show "parse_value (Suc n) s = parse_value m s"
    proof (cases s)
      case Nil
      then show ?thesis by (cases m) auto
    next
      case (Cons c cs)
      then obtain k where m: "m = Suc k" using len(2) by (cases m) auto
      have "2 * length (skip_ws cs) < n" "2 * length (skip_ws cs) < k" using len Cons m skip_ws_le [of cs] by auto
      from elems [OF this] show ?thesis by (simp add: m Cons)
    qed
  next
    assume len: "2 * length s < Suc n" "2 * length s < m"
    then obtain k where m: "m = Suc k" by (cases m) auto
    have v: "parse_value n s = parse_value k s" using len m by (intro vals) auto
    have "parse_elems n (skip_ws xs) = parse_elems k (skip_ws xs)" if "parse_value k s = Some (x, r)" "skip_ws r = d # xs" for x r d xs
      using parse_shorter(1) [OF that(1)] skip_ws_tail [OF that(2)] skip_ws_le [of xs] len m by (intro elems) auto
    then show "parse_elems (Suc n) s = parse_elems m s"
      unfolding m by (simp add: v split: bind_split prod.splits list.splits)
  next
    assume len: "2 * length s < Suc n" "2 * length s < m"
    then obtain k where m: "m = Suc k" by (cases m) auto
    have le: "length (skip_ws (tl (skip_ws t))) < length s" if "scan_string (tl s) = Some (x, t)" for x t
      using scan_string_shorter [OF that] skip_ws_le [of "tl (skip_ws t)"] skip_ws_le [of t] by auto
    have v: "parse_value n (skip_ws (tl (skip_ws t))) = parse_value k (skip_ws (tl (skip_ws t)))"
      if "scan_string (tl s) = Some (x, t)" for x t
      using le [OF that] len m by (intro vals) auto
    have "parse_members n (skip_ws xs) = parse_members k (skip_ws xs)"
      if "scan_string (tl s) = Some (x, t)" "parse_value k (skip_ws (tl (skip_ws t))) = Some (y, r)" "skip_ws r = d # xs" for x t y r d xs
      using le [OF that(1)] parse_shorter(1) [OF that(2)] skip_ws_tail [OF that(3)] skip_ws_le [of xs] len m by (intro elems) auto
    with v show "parse_members (Suc n) s = parse_members m s"
      unfolding m by (simp split: bind_split prod.splits list.splits)
  qed
qed

section \<open>Reading back strings\<close>

lemma hex_value_hex_char: "hex_value (hex_char n) = Some (n mod 16)"
proof -
  have "n mod 16 < 16" by simp
  then show ?thesis by (auto simp: hex_value_def hex_char_def Let_def)
qed

lemma nibbles: "n < 256 \<Longrightarrow> 16 * (n div 16 mod 16) + n mod 16 = (n::nat)"
proof -
  assume "n < 256"
  then have "n div 16 < 16" by (intro less_mult_imp_div_less) simp
  then show ?thesis by (simp add: mult_div_mod_eq)
qed

lemma hex_value_0: "hex_value (CHR ''0'') = Some 0"
  by code_simp

lemma hex4_esc: "hex4 [CHR ''0'', CHR ''0'', hex_char (of_char c div 16), hex_char (of_char c)] = Some c"
proof -
  have "(of_char c :: nat) < 256" by simp
  from nibbles [OF this] have eq: "16 * (of_char c div 16 mod 16) + of_char c mod 16 = (of_char c :: nat)" .
  show ?thesis unfolding hex4_def list.case hex_value_hex_char hex_value_0 prod.case option.case nat.case eq char_of_char
    by simp
qed

lemma char_eq_of_char: "(of_char c :: nat) = of_char d \<Longrightarrow> c = d"
  by (metis char_of_char)

lemma scan_string_esc: "scan_string (esc_char ascii c @ t) = map_option (apfst (Cons c)) (scan_string t)"
proof -
  let ?n = "of_char c :: nat"
  consider "?n \<in> {34, 92, 10, 13, 9, 12, 8}" | "?n \<notin> {34, 92, 10, 13, 9, 12, 8}" "?n < 32 \<or> (ascii \<and> 126 < ?n)"
    | "?n \<notin> {34, 92, 10, 13, 9, 12, 8}" "\<not> (?n < 32 \<or> (ascii \<and> 126 < ?n))" by blast
  then show ?thesis
  proof cases
    case 1
    then have "c \<in> {CHR 0x22, CHR 0x5C, CHR 0x0A, CHR 0x0D, CHR 0x09, CHR 0x0C, CHR 0x08}"
      using char_eq_of_char [of c "CHR 0x22"] char_eq_of_char [of c "CHR 0x5C"] char_eq_of_char [of c "CHR 0x0A"]
        char_eq_of_char [of c "CHR 0x0D"] char_eq_of_char [of c "CHR 0x09"] char_eq_of_char [of c "CHR 0x0C"]
        char_eq_of_char [of c "CHR 0x08"] by auto
    then show ?thesis by (auto simp: esc_char_def simple_escape_def)
  next
    case 2
    then have "esc_char ascii c = [CHR 0x5C, CHR ''u'', CHR ''0'', CHR ''0'', hex_char (?n div 16), hex_char ?n]"
      by (simp add: esc_char_def Let_def)
    then show ?thesis using hex4_esc [of c] by simp
  next
    case 3
    then have "esc_char ascii c = [c]" by (simp add: esc_char_def Let_def)
    moreover have "c \<noteq> CHR 0x22" "c \<noteq> CHR 0x5C" using 3(1) by auto
    ultimately show ?thesis using 3 by simp
  qed
qed

lemma scan_quoted: "scan_string (concat (map (esc_char ascii) s) @ CHR 0x22 # r) = Some (s, r)"
  by (induction s) (simp_all add: scan_string_esc)

section \<open>Reading back numbers\<close>

text \<open>A text that cannot continue a number.\<close>

definition num_end :: "string \<Rightarrow> bool" where
  "num_end r \<longleftrightarrow> (case r of [] \<Rightarrow> True | c # _ \<Rightarrow> \<not> is_digit c \<and> c \<notin> {CHR ''.'', CHR ''e'', CHR ''E'', CHR ''+'', CHR ''-''})"

lemma num_end_simps [simp]:
  "num_end []" "num_end (CHR '','' # r)" "num_end (CHR '']'' # r)" "num_end (CHR ''}'' # r)"
  by (simp_all add: num_end_def is_digit_def)

lemma takeWhile_digits_append: "num_end r \<Longrightarrow> takeWhile is_digit (s @ r) = takeWhile is_digit s"
  by (induction s) (auto simp: num_end_def split: list.splits)

lemma digit_0: "is_digit (CHR ''0'')"
  by code_simp

lemma int_digits_append: "num_end r \<Longrightarrow> int_digits (s @ r) = int_digits s"
proof (cases s)
  case Nil
  assume "num_end r"
  with Nil digit_0 show ?thesis by (cases r) (auto simp: int_digits_def num_end_def)
next
  case (Cons c cs)
  assume "num_end r"
  then show ?thesis using takeWhile_digits_append [of r s] Cons by (simp add: int_digits_def)
qed

lemma frac_part_append: "num_end r \<Longrightarrow> frac_part (s @ r) = frac_part s"
proof (cases s)
  case Nil
  assume "num_end r"
  with Nil show ?thesis by (auto simp: frac_part_def num_end_def split: list.splits)
next
  case (Cons c cs)
  assume "num_end r"
  then show ?thesis using takeWhile_digits_append [of r cs] Cons by (simp add: frac_part_def)
qed

lemma exp_part_append: "num_end r \<Longrightarrow> exp_part (s @ r) = exp_part s"
proof (cases s)
  case Nil
  assume "num_end r"
  with Nil show ?thesis by (auto simp: exp_part_def num_end_def split: list.splits)
next
  case (Cons c cs)
  assume r: "num_end r"
  show ?thesis
  proof (cases cs)
    case Nil
    with r Cons show ?thesis by (cases r) (auto simp: exp_part_def num_end_def Let_def)
  next
    case (Cons d ds)
    then show ?thesis
      using takeWhile_digits_append [OF r, of ds] takeWhile_digits_append [OF r, of cs] \<open>s = c # cs\<close>
      by (auto simp: exp_part_def Let_def)
  qed
qed

lemma length_int_digits: "length (int_digits s) \<le> length s"
  by (auto simp: int_digits_def length_takeWhile_le split: list.splits)

lemma length_frac_part: "length (frac_part s) \<le> length s"
  by (auto simp: frac_part_def length_takeWhile_le split: list.splits)

lemma length_exp_part: "length (exp_part s) \<le> length s"
proof (cases s)
  case (Cons c cs)
  have "length sign + length (takeWhile is_digit (drop (length sign) cs)) \<le> length cs" if "length sign \<le> length cs" for sign
    using length_takeWhile_le [of is_digit "drop (length sign) cs"] that by simp
  from this [of "case cs of d # _ \<Rightarrow> if d \<in> {CHR ''-'', CHR ''+''} then [d] else [] | [] \<Rightarrow> []"] Cons
  show ?thesis by (auto simp: exp_part_def Let_def split: list.splits)
qed (simp add: exp_part_def)

lemma number_parts_append:
  assumes "num_end r"
  shows "number_parts (s @ r) = (case number_parts s of (d, f, e, t) \<Rightarrow> (d, f, e, t @ r))"
proof -
  have d: "drop (length (int_digits s)) (s @ r) = drop (length (int_digits s)) s @ r" for s using length_int_digits [of s] by simp
  have f: "drop (length (frac_part s)) (s @ r) = drop (length (frac_part s)) s @ r" for s using length_frac_part [of s] by simp
  have e: "drop (length (exp_part s)) (s @ r) = drop (length (exp_part s)) s @ r" for s using length_exp_part [of s] by simp
  show ?thesis
    unfolding number_parts_def Let_def int_digits_append [OF assms] d frac_part_append [OF assms] f exp_part_append [OF assms] e
    by simp
qed

lemma scan_number_append:
  assumes "num_end r"
  shows "scan_number (s @ r) = map_option (apsnd (\<lambda>t. t @ r)) (scan_number s)"
proof -
  have "startswith (s @ r) ''-'' \<longleftrightarrow> startswith s ''-''"
    using assms by (cases s; cases r) (auto simp: startswith_def num_end_def)
  moreover have "(if startswith s ''-'' then tl (s @ r) else s @ r) = (if startswith s ''-'' then tl s else s) @ r"
    by (cases s) (auto simp: startswith_def)
  ultimately show ?thesis
    using number_parts_append [OF assms] by (simp add: scan_number_def Let_def split: prod.splits)
qed

lemma read_nat_snoc: "read_nat (ds @ [c]) = 10 * read_nat ds + (of_char c - 48)"
  by (simp add: read_nat_def)

lemma of_char_digit_char: "(of_char (digit_char n) :: nat) = 48 + n mod 10"
proof -
  have "48 + n mod 10 < 256" by (rule less_trans [of _ 58]) simp_all
  then show ?thesis by (simp add: digit_char_def)
qed

lemma is_digit_digit_char [simp]: "is_digit (digit_char n)"
proof -
  have "n mod 10 < 10" by simp
  then show ?thesis unfolding is_digit_def of_char_digit_char by linarith
qed

lemma show_nat_digits: "list_all is_digit (show_nat n)"
proof (induction n rule: show_nat.induct)
  case (1 n)
  then show ?case by (subst show_nat.simps) (auto simp: list_all_iff)
qed

lemma read_show_nat: "read_nat (show_nat n) = n"
proof (induction n rule: show_nat.induct)
  case (1 n)
  show ?case
  proof (cases "n < 10")
    case True
    then show ?thesis by (subst show_nat.simps) (simp add: read_nat_def of_char_digit_char)
  next
    case False
    then show ?thesis using 1 by (subst show_nat.simps) (simp add: read_nat_snoc of_char_digit_char)
  qed
qed

lemma char_of_48: "char_of (48::nat) = CHR ''0''"
  by (rule char_eq_of_char) simp

lemma hd_show_nat: "hd (show_nat n) = CHR ''0'' \<longleftrightarrow> n = 0"
proof (induction n rule: show_nat.induct)
  case (1 n)
  have "digit_char n = CHR ''0'' \<longleftrightarrow> n mod 10 = 0"
  proof
    assume "digit_char n = CHR ''0''"
    then have "(of_char (digit_char n) :: nat) = 48" by simp
    then show "n mod 10 = 0" by (simp add: of_char_digit_char)
  qed (simp add: digit_char_def char_of_48)
  then show ?case
    using 1 by (cases "n < 10") (simp_all add: show_nat.simps [of n] hd_append)
qed

lemma int_digits_show_nat: "int_digits (show_nat n) = show_nat n"
proof (cases "n = 0")
  case True
  then show ?thesis by (simp add: show_nat.simps int_digits_def digit_char_def char_of_48)
next
  case False
  then have "hd (show_nat n) \<noteq> CHR ''0''" by (simp add: hd_show_nat)
  moreover have "takeWhile is_digit (show_nat n) = show_nat n"
    using show_nat_digits [of n] by (simp add: list_all_iff takeWhile_eq_all_conv)
  ultimately show ?thesis by (cases "show_nat n") (auto simp: int_digits_def)
qed

lemma number_parts_show_nat: "number_parts (show_nat n) = (show_nat n, [], [], [])"
  by (simp add: number_parts_def int_digits_show_nat frac_part_def exp_part_def)

lemma show_nat_not_minus: "\<not> startswith (show_nat n) ''-''"
proof -
  have "is_digit (hd (show_nat n))" using show_nat_digits [of n] by (cases "show_nat n") auto
  then show ?thesis by (cases "show_nat n") (auto simp: startswith_def is_digit_def)
qed

lemma scan_show_int: "scan_number (show_int i) = Some (JInt i, [])"
proof (cases "i < 0")
  case True
  then show ?thesis
    by (simp add: scan_number_def show_int_def startswith_def number_parts_show_nat read_show_nat)
next
  case False
  then show ?thesis
    by (simp add: scan_number_def show_int_def show_nat_not_minus number_parts_show_nat read_show_nat)
qed

lemma number_parts_head:
  assumes "number_parts s = (d, f, e, t)" and "d \<noteq> []"
  shows "\<exists>c cs. s = c # cs \<and> is_digit c"
  using assms digit_0 by (cases s) (auto simp: number_parts_def int_digits_def Let_def split: if_splits)

lemma scan_number_head:
  assumes "scan_number s = Some x"
  shows "\<exists>c cs. s = c # cs \<and> (is_digit c \<or> c = CHR ''-'')"
proof (cases "startswith s ''-''")
  case True
  then show ?thesis by (cases s) (auto simp: startswith_def)
next
  case False
  then show ?thesis
    using assms number_parts_head [of s] by (auto simp: scan_number_def Let_def split: prod.splits if_splits)
qed

lemma digit_head:
  assumes "is_digit c \<or> c = CHR ''-''"
  shows "c \<notin> {CHR ''n'', CHR ''t'', CHR ''f'', CHR 0x22, CHR ''{'', CHR ''['', CHR '']'', CHR ''}'', CHR '' '', CHR 0x09, CHR 0x0A, CHR 0x0D}"
  using assms by (auto simp: is_digit_def)

lemma scan_literal_number:
  assumes "scan_number s = Some (v, [])" and "num_end r"
  shows "scan_literal (s @ r) = Some (v, r)"
proof -
  obtain c cs where "s = c # cs" "is_digit c \<or> c = CHR ''-''" using scan_number_head [OF assms(1)] by blast
  then show ?thesis
    using digit_head [of c] scan_number_append [OF assms(2), of s] assms(1) by (auto simp: scan_literal_def startswith_def)
qed

section \<open>Reading back a value\<close>

text \<open>The trees the parser returns as they are: floats are float literals and the keys of every
  dictionary are distinct and sorted, the order the printer writes them in.\<close>

primrec json_canonical :: "json \<Rightarrow> bool" where
  "json_canonical JNull = True"
| "json_canonical (JBool b) = True"
| "json_canonical (JInt i) = True"
| "json_canonical (JFloat f) = (scan_number f = Some (JFloat f, []))"
| "json_canonical (JStr s) = True"
| "json_canonical (JList xs) = list_all id (map json_canonical xs)"
| "json_canonical (JDict d) = (sorted (map fst d) \<and> distinct (map fst d) \<and>
     list_all (id \<circ> snd) (map (map_prod id json_canonical) d))"

lemma dict_of_id: "distinct (map fst d) \<Longrightarrow> dict_of d = d"
proof -
  have "distinct (map fst (e @ d)) \<Longrightarrow> fold (\<lambda>(k, v). AList.update k v) d e = e @ d" for e
  proof (induction d arbitrary: e)
    case (Cons kv d)
    have "AList.update (fst kv) (snd kv) e = e @ [kv]"
      using Cons.prems by (induction e) auto
    with Cons.prems Cons.IH [of "e @ [kv]"] show ?case by (simp add: split_beta)
  qed simp
  from this [of "[]"] show "distinct (map fst d) \<Longrightarrow> ?thesis" by (simp add: dict_of_def dict_update_def)
qed

lemma skip_ws_spaces: "list_all json_space w \<Longrightarrow> \<not> json_space c \<Longrightarrow> skip_ws (w @ c # t) = c # t"
  unfolding skip_ws_def by (induction w) auto

lemma skip_ws_Cons: "\<not> json_space c \<Longrightarrow> skip_ws (c # t) = c # t"
  by (simp add: skip_ws_def)

lemma not_json_space [simp]:
  "\<not> json_space (CHR '','')" "\<not> json_space (CHR '':'')" "\<not> json_space (CHR '']'')" "\<not> json_space (CHR ''}'')"
  "\<not> json_space (CHR 0x22)"
  by (simp_all add: json_space_def)

lemma json_text_head:
  assumes "json_canonical v"
  shows "\<exists>c cs. json_text ascii isep ksep v = c # cs \<and> \<not> json_space c \<and> c \<noteq> CHR '']'' \<and> c \<noteq> CHR ''}''"
proof (cases v)
  case (JInt i)
  then show ?thesis using scan_number_head [OF scan_show_int [of i]] digit_head by (fastforce simp: json_space_def)
next
  case (JFloat f)
  then have "scan_number f = Some (JFloat f, [])" using assms by simp
  from scan_number_head [OF this] JFloat show ?thesis using digit_head by (fastforce simp: json_space_def)
qed (auto simp: json_space_def json_quote_def)

text \<open>Separators the parser skips: a comma or a colon, then white space.\<close>

lemma fuel_step: "2 * (a + b + c) < Suc m \<Longrightarrow> 0 < b \<Longrightarrow> 2 * c < (m::nat)"
  by simp

locale json_separators =
  fixes ascii :: bool and isep ksep :: string
  assumes isep_form: "\<exists>w. isep = CHR '','' # w \<and> list_all json_space w"
    and ksep_form: "\<exists>w. ksep = CHR '':'' # w \<and> list_all json_space w"
begin

lemma skip_isep: "\<not> json_space c \<Longrightarrow> \<exists>t. isep @ c # u = CHR '','' # t \<and> skip_ws t = c # u"
  using isep_form skip_ws_spaces by auto

lemma skip_ksep: "\<not> json_space c \<Longrightarrow> \<exists>t. ksep @ c # u = CHR '':'' # t \<and> skip_ws t = c # u"
  using ksep_form skip_ws_spaces by auto

lemma isep_pos: "0 < length isep"
  using isep_form by auto

lemma parse_elems_text:
  assumes "vs \<noteq> []" and "\<forall>v \<in> set vs. json_canonical v"
    and "\<And>v n r. v \<in> set vs \<Longrightarrow> num_end r \<Longrightarrow> 2 * length (json_text ascii isep ksep v) \<le> n \<Longrightarrow>
           parse_value n (json_text ascii isep ksep v @ r) = Some (v, r)"
    and "2 * length (str_join isep (map (json_text ascii isep ksep) vs)) < n"
  shows "parse_elems n (str_join isep (map (json_text ascii isep ksep) vs) @ CHR '']'' # r) = Some (vs, r)"
  using assms
proof (induction vs arbitrary: n)
  case (Cons v vs)
  obtain m where n: "n = Suc m" using Cons.prems(4) by (cases n) auto
  show ?case
  proof (cases vs)
    case Nil
    then show ?thesis using Cons.prems n by (simp add: skip_ws_Cons)
  next
    case (Cons v' vs')
    let ?rest = "str_join isep (map (json_text ascii isep ksep) vs)"
    obtain c cs where c: "?rest @ CHR '']'' # r = c # cs" "\<not> json_space c"
      using json_text_head [of v' ascii isep ksep] Cons.prems(2) \<open>vs = v' # vs'\<close> by (cases vs') auto
    obtain t where t: "isep @ c # cs = CHR '','' # t" "skip_ws t = c # cs" using skip_isep [OF c(2)] by blast
    have len: "length (str_join isep (map (json_text ascii isep ksep) (v # vs))) =
        length (json_text ascii isep ksep v) + length isep + length ?rest" using \<open>vs = v' # vs'\<close> by simp
    have "num_end (CHR '','' # t)" by simp
    then have "parse_value m (json_text ascii isep ksep v @ CHR '','' # t) = Some (v, CHR '','' # t)"
      using Cons.prems(3,4) len n by simp
    moreover have "2 * length ?rest < m" using Cons.prems(4) unfolding len n by (rule fuel_step [OF _ isep_pos])
    then have "parse_elems m (c # cs) = Some (vs, r)"
      unfolding c(1) [symmetric] using Cons.prems(2,3) \<open>vs = v' # vs'\<close> by (intro Cons.IH) auto
    ultimately show ?thesis
      using n t c(1) \<open>vs = v' # vs'\<close> by (simp add: skip_ws_Cons del: str_join.simps(2))
  qed
qed simp

lemma parse_members_text:
  assumes "d \<noteq> []" and "\<forall>(k, v) \<in> set d. json_canonical v"
    and "\<And>k v n r. (k, v) \<in> set d \<Longrightarrow> num_end r \<Longrightarrow> 2 * length (json_text ascii isep ksep v) \<le> n \<Longrightarrow>
           parse_value n (json_text ascii isep ksep v @ r) = Some (v, r)"
    and "2 * length (str_join isep (map (\<lambda>(k, v). json_quote ascii k @ ksep @ json_text ascii isep ksep v) d)) < n"
  shows "parse_members n (str_join isep (map (\<lambda>(k, v). json_quote ascii k @ ksep @ json_text ascii isep ksep v) d) @ CHR ''}'' # r)
    = Some (d, r)"
  using assms
proof (induction d arbitrary: n)
  case (Cons kv d)
  let ?m = "\<lambda>(k, v). json_quote ascii k @ ksep @ json_text ascii isep ksep v"
  obtain k v where kv: "kv = (k, v)" by (cases kv)
  obtain m where n: "n = Suc m" using Cons.prems(4) by (cases n) auto
  obtain c cs where c: "json_text ascii isep ksep v = c # cs" "\<not> json_space c"
    using json_text_head [of v ascii isep ksep] Cons.prems(2) kv by auto
  have member: "parse_members (Suc m) (?m kv @ u) =
      Option.bind (parse_value m (json_text ascii isep ksep v @ u)) (\<lambda>(v, r).
          case skip_ws r of [] \<Rightarrow> None
          | x # xs \<Rightarrow> if x = CHR ''}'' then Some ([(k, v)], xs)
              else if x = CHR '','' then map_option (apfst (Cons (k, v))) (parse_members m (skip_ws xs)) else None)" for u
  proof -
    obtain t where t: "ksep @ c # cs @ u = CHR '':'' # t" "skip_ws t = c # cs @ u" using skip_ksep [OF c(2)] by blast
    have "?m kv @ u = CHR 0x22 # concat (map (esc_char ascii) k) @ CHR 0x22 # CHR '':'' # t"
      using t(1) c(1) by (simp add: kv json_quote_def)
    then show ?thesis using t(2) c(1) by (simp add: scan_quoted startswith_def skip_ws_Cons)
  qed
  show ?case
  proof (cases d)
    case Nil
    have "parse_value m (json_text ascii isep ksep v @ CHR ''}'' # r) = Some (v, CHR ''}'' # r)"
      using Cons.prems(4) Nil n kv by (intro Cons.prems(3) [of k]) auto
    then show ?thesis using Nil member [of "CHR ''}'' # r"] n kv by (simp add: skip_ws_Cons)
  next
    case (Cons kv' d')
    let ?rest = "str_join isep (map ?m d)"
    obtain x xs where x: "?rest @ CHR ''}'' # r = x # xs" "\<not> json_space x"
      using \<open>d = kv' # d'\<close> by (cases kv'; cases d') (auto simp: json_quote_def)
    obtain t where t: "isep @ x # xs = CHR '','' # t" "skip_ws t = x # xs" using skip_isep [OF x(2)] by blast
    have len: "length (str_join isep (map ?m (kv # d))) = length (?m kv) + length isep + length ?rest"
      using \<open>d = kv' # d'\<close> by simp
    have "length (json_text ascii isep ksep v) \<le> length (?m kv)" by (simp add: kv)
    then have "parse_value m (json_text ascii isep ksep v @ CHR '','' # t) = Some (v, CHR '','' # t)"
      using Cons.prems(4) kv unfolding len n by (intro Cons.prems(3) [of k]) auto
    moreover have "2 * length ?rest < m" using Cons.prems(4) unfolding len n by (rule fuel_step [OF _ isep_pos])
    then have "parse_members m (x # xs) = Some (d, r)"
      unfolding x(1) [symmetric] using Cons.prems(2,3) \<open>d = kv' # d'\<close> by (intro Cons.IH) auto
    moreover have "str_join isep (map ?m (kv # d)) @ CHR ''}'' # r = ?m kv @ CHR '','' # t"
      using \<open>d = kv' # d'\<close> x(1) t(1) by simp
    ultimately show ?thesis using member [of "CHR '','' # t"] n t(2) kv by (simp add: skip_ws_Cons)
  qed
qed simp

lemma parse_json_text:
  "json_canonical v \<Longrightarrow> num_end r \<Longrightarrow> 2 * length (json_text ascii isep ksep v) \<le> n \<Longrightarrow>
   parse_value n (json_text ascii isep ksep v @ r) = Some (v, r)"
proof (induction v arbitrary: n r)
  case JNull
  then obtain m where "n = Suc m" by (cases n) auto
  then show ?case by (simp add: scan_literal_def startswith_def)
next
  case (JBool b)
  then obtain m where "n = Suc m" by (cases n; cases b) auto
  then show ?case by (simp add: scan_literal_def startswith_def)
next
  case (JInt i)
  obtain c cs where c: "show_int i = c # cs" "is_digit c \<or> c = CHR ''-''" using scan_number_head [OF scan_show_int [of i]] by blast
  then obtain m where "n = Suc m" using JInt.prems(3) by (cases n) auto
  then show ?case using scan_literal_number [OF scan_show_int JInt.prems(2), of i] c digit_head [OF c(2)] by simp
next
  case (JFloat f)
  then have f: "scan_number f = Some (JFloat f, [])" by simp
  obtain c cs where c: "f = c # cs" "is_digit c \<or> c = CHR ''-''" using scan_number_head [OF f] by blast
  then obtain m where "n = Suc m" using JFloat.prems(3) by (cases n) auto
  then show ?case using scan_literal_number [OF f JFloat.prems(2)] c digit_head [OF c(2)] by simp
next
  case (JStr s)
  then obtain m where "n = Suc m" by (cases n) (auto simp: json_quote_def)
  then show ?case by (simp add: json_quote_def scan_quoted)
next
  case (JList vs)
  then obtain m where n: "n = Suc m" by (cases n) auto
  show ?case
  proof (cases vs)
    case Nil
    then show ?thesis using n by (simp add: skip_ws_Cons startswith_def)
  next
    case (Cons v vs')
    let ?body = "str_join isep (map (json_text ascii isep ksep) vs)"
    have can: "\<forall>v \<in> set vs. json_canonical v" using JList.prems(1) by (auto simp: list_all_iff)
    obtain c cs where c: "?body @ CHR '']'' # r = c # cs" "\<not> json_space c" "c \<noteq> CHR '']''"
      using json_text_head [of v ascii isep ksep] can Cons by (cases vs') auto
    have "parse_elems m (?body @ CHR '']'' # r) = Some (vs, r)"
      using JList.prems(3) can Cons n by (intro parse_elems_text JList.IH) auto
    then show ?thesis using c n by (simp add: skip_ws_Cons startswith_def)
  qed
next
  case (JDict d)
  then obtain m where n: "n = Suc m" by (cases n) auto
  have sorted: "sort_key fst (map (map_prod id (json_text ascii isep ksep)) d) = map (map_prod id (json_text ascii isep ksep)) d"
    using JDict.prems(1) by (intro sort_key_id_if_sorted) (simp add: comp_def)
  let ?body = "str_join isep (map (\<lambda>(k, v). json_quote ascii k @ ksep @ json_text ascii isep ksep v) d)"
  have body: "json_text ascii isep ksep (JDict d) = CHR ''{'' # ?body @ ''}''"
    unfolding json_text.simps sorted by (simp add: comp_def map_prod_def case_prod_unfold)
  show ?case
  proof (cases d)
    case Nil
    then show ?thesis using n by (simp add: skip_ws_Cons startswith_def)
  next
    case (Cons kv d')
    have can: "\<forall>(k, v) \<in> set d. json_canonical v" using JDict.prems(1) by (auto simp: list_all_iff)
    obtain c cs where c: "?body @ CHR ''}'' # r = c # cs" "\<not> json_space c" "c \<noteq> CHR ''}''"
      using Cons by (cases kv; cases d') (auto simp: json_quote_def)
    have "parse_members m (?body @ CHR ''}'' # r) = Some (d, r)"
    proof (rule parse_members_text)
      show "parse_value n (json_text ascii isep ksep v @ r) = Some (v, r)"
        if "(k, v) \<in> set d" "num_end r" "2 * length (json_text ascii isep ksep v) \<le> n" for k v n r
        using JDict.IH [of "(k, v)" v r n] that can by auto
      show "2 * length ?body < m" using JDict.prems(3) unfolding body n by simp
    qed (use can Cons in auto)
    then show ?thesis
      using c n JDict.prems(1) unfolding body by (simp add: skip_ws_Cons startswith_def dict_of_id)
  qed
qed

lemma loads_json_text:
  assumes "json_canonical v"
  shows "json_loads (json_text ascii isep ksep v) = Some v"
proof -
  obtain c cs where c: "json_text ascii isep ksep v = c # cs" "\<not> json_space c" using json_text_head [OF assms] by blast
  have "parse_value (2 * length (json_text ascii isep ksep v)) (json_text ascii isep ksep v @ []) = Some (v, [])"
    using assms by (intro parse_json_text) auto
  then show ?thesis unfolding json_loads_def c(1) using c(2) by (simp add: skip_ws_def)
qed

end

interpretation json_default: json_separators ascii "'', ''" "'': ''" for ascii
  by unfold_locales (simp_all add: json_space_def)

interpretation json_compact: json_separators ascii "'',''" "'':''" for ascii
  by unfold_locales simp_all

end
