(* ===== verification/Ip_Address.thy ===== *)
theory Ip_Address
  imports Json_Parse "HOL-Library.Word"
begin

text \<open>
  The part of the standard library's \<open>ipaddress\<close> module that the ingress policy calls: parsing of
  IPv4 and IPv6 addresses (dotted quads, the \<open>::\<close> abbreviation, embedded IPv4 suffixes, scope
  identifiers), strict parsing of networks with a prefix length, netmask or hostmask, and membership of
  an address in a network. Addresses are words of their width. Parsing answers None where
  the module raises \<open>ValueError\<close>.
\<close>

unbundle bit_operations_syntax

section \<open>Addresses\<close>

datatype ip_address = IPv4Address "32 word" | IPv6Address "128 word" "string option"

definition parse_octet :: "string \<Rightarrow> nat option" where
  "parse_octet s =
     (if s = [] \<or> \<not> list_all is_digit s \<or> 3 < length s \<or> (s \<noteq> ''0'' \<and> hd s = CHR ''0'') \<or> 255 < read_nat s
      then None else Some (read_nat s))"

text \<open>Big-endian digits of a fixed number of bits.\<close>

definition word_of_digits :: "nat \<Rightarrow> nat list \<Rightarrow> 'a::len word" where
  "word_of_digits k ds = fold (\<lambda>d w. push_bit k w OR of_nat d) ds 0"

definition ipv4_int_from_string :: "string \<Rightarrow> 32 word option" where
  "ipv4_int_from_string s =
     (let octets = split_char (CHR ''.'') s
      in if length octets \<noteq> 4 then None else map_option (word_of_digits 8) (omap parse_octet octets))"

definition parse_ipv4 :: "string \<Rightarrow> ip_address option" where
  "parse_ipv4 s = (if CHR ''/'' \<in> set s then None else map_option IPv4Address (ipv4_int_from_string s))"

text \<open>\<open>int(s, 16)\<close> for at most four digits, and \<open>'%x' % n\<close>.\<close>

definition parse_hextet :: "string \<Rightarrow> nat option" where
  "parse_hextet s =
     (if s = [] \<or> 4 < length s then None else map_option (foldl (\<lambda>n d. 16 * n + d) 0) (omap hex_value s))"

fun hex_string :: "nat \<Rightarrow> string" where
  "hex_string n = (if n < 16 then [hex_char n] else hex_string (n div 16) @ [hex_char n])"

declare hex_string.simps [simp del]

definition expand_ipv4_suffix :: "string list \<Rightarrow> string list option" where
  "expand_ipv4_suffix parts =
     (if CHR ''.'' \<in> set (last parts)
      then case ipv4_int_from_string (last parts) of
             None \<Rightarrow> None
           | Some w \<Rightarrow> Some (butlast parts @ [hex_string (unat w div 2 ^ 16), hex_string (unat w mod 2 ^ 16)])
      else Some parts)"

text \<open>The hextets written before and after a run of omitted zeroes, and the length of the run.\<close>

definition ipv6_layout :: "string list \<Rightarrow> (string list \<times> nat \<times> string list) option" where
  "ipv6_layout parts =
     (let n = length parts
      in case filter (\<lambda>i. parts ! i = []) [1..<n - 1] of
           [] \<Rightarrow>
             if n \<noteq> 8 \<or> hd parts = [] \<or> last parts = [] then None else Some (parts, 0, [])
         | [i] \<Rightarrow>
             let hi = (if hd parts = [] then i - 1 else i);
                 lo = (if last parts = [] then n - i - 2 else n - i - 1)
             in if (hd parts = [] \<and> hi \<noteq> 0) \<or> (last parts = [] \<and> lo \<noteq> 0) \<or> 8 \<le> hi + lo then None
                else Some (take hi parts, 8 - (hi + lo), drop (n - lo) parts)
         | _ \<Rightarrow> None)"

definition ipv6_int_from_string :: "string \<Rightarrow> 128 word option" where
  "ipv6_int_from_string s =
     (let parts = split_char (CHR '':'') s
      in if length parts < 3 then None
         else case expand_ipv4_suffix parts of
                None \<Rightarrow> None
              | Some parts \<Rightarrow>
                  if 9 < length parts then None
                  else case ipv6_layout parts of
                         None \<Rightarrow> None
                       | Some (hi, skipped, lo) \<Rightarrow>
                           (case (omap parse_hextet hi, omap parse_hextet lo) of
                              (Some his, Some los) \<Rightarrow> Some (word_of_digits 16 (his @ replicate skipped 0 @ los))
                            | _ \<Rightarrow> None))"

definition split_scope_id :: "string \<Rightarrow> (string \<times> string option) option" where
  "split_scope_id s = (case str_partition (CHR ''%'') s of
     (addr, sep, scope_id) \<Rightarrow>
       if sep = [] then Some (addr, None)
       else if scope_id = [] \<or> CHR ''%'' \<in> set scope_id then None
       else Some (addr, Some scope_id))"

definition parse_ipv6 :: "string \<Rightarrow> ip_address option" where
  "parse_ipv6 s =
     (if CHR ''/'' \<in> set s then None
      else case split_scope_id s of
             None \<Rightarrow> None
           | Some (addr, scope_id) \<Rightarrow> map_option (\<lambda>w. IPv6Address w scope_id) (ipv6_int_from_string addr))"

definition parse_ip_string :: "string \<Rightarrow> ip_address option" where
  "parse_ip_string s = (case parse_ipv4 s of Some a \<Rightarrow> Some a | None \<Rightarrow> parse_ipv6 s)"

section \<open>Networks\<close>

datatype ip_network = IPv4Network "32 word" nat | IPv6Network "128 word" nat

definition netmask :: "nat \<Rightarrow> 'a::len word" where
  "netmask prefixlen = NOT (mask (LENGTH('a) - prefixlen))"

definition prefix_from_prefix_string :: "nat \<Rightarrow> string \<Rightarrow> nat option" where
  "prefix_from_prefix_string max_prefixlen s =
     (if s = [] \<or> \<not> list_all is_digit s \<or> max_prefixlen < read_nat s then None else Some (read_nat s))"

text \<open>The prefix length whose mask is the given word: ones followed by zeroes.\<close>

definition prefix_from_ip_int :: "32 word \<Rightarrow> nat option" where
  "prefix_from_ip_int w = find (\<lambda>n. netmask n = w) [0..<33]"

definition prefix_from_ip_string :: "string \<Rightarrow> nat option" where
  "prefix_from_ip_string s = (case ipv4_int_from_string s of
     None \<Rightarrow> None
   | Some w \<Rightarrow> (case prefix_from_ip_int w of Some n \<Rightarrow> Some n | None \<Rightarrow> prefix_from_ip_int (NOT w)))"

definition split_addr_prefix :: "string \<Rightarrow> (string \<times> string option) option" where
  "split_addr_prefix s = (case split_char (CHR ''/'') s of
     [addr] \<Rightarrow> Some (addr, None)
   | [addr, prefix] \<Rightarrow> Some (addr, Some prefix)
   | _ \<Rightarrow> None)"

definition make_netmask4 :: "string option \<Rightarrow> nat option" where
  "make_netmask4 prefix = (case prefix of
     None \<Rightarrow> Some 32
   | Some s \<Rightarrow> (case prefix_from_prefix_string 32 s of Some n \<Rightarrow> Some n | None \<Rightarrow> prefix_from_ip_string s))"

definition make_netmask6 :: "string option \<Rightarrow> nat option" where
  "make_netmask6 prefix = (case prefix of None \<Rightarrow> Some 128 | Some s \<Rightarrow> prefix_from_prefix_string 128 s)"

definition parse_ipv4_network :: "string \<Rightarrow> ip_network option" where
  "parse_ipv4_network s = (case split_addr_prefix s of
     None \<Rightarrow> None
   | Some (addr, prefix) \<Rightarrow>
       (case (parse_ipv4 addr, make_netmask4 prefix) of
          (Some (IPv4Address w), Some n) \<Rightarrow> if w AND netmask n = w then Some (IPv4Network w n) else None
        | _ \<Rightarrow> None))"

definition parse_ipv6_network :: "string \<Rightarrow> ip_network option" where
  "parse_ipv6_network s = (case split_addr_prefix s of
     None \<Rightarrow> None
   | Some (addr, prefix) \<Rightarrow>
       (case (parse_ipv6 addr, make_netmask6 prefix) of
          (Some (IPv6Address w scope_id), Some n) \<Rightarrow> if w AND netmask n = w then Some (IPv6Network w n) else None
        | _ \<Rightarrow> None))"

definition parse_ip_network :: "string \<Rightarrow> ip_network option" where
  "parse_ip_network s = (case parse_ipv4_network s of Some net \<Rightarrow> Some net | None \<Rightarrow> parse_ipv6_network s)"

fun in_network :: "ip_address \<Rightarrow> ip_network \<Rightarrow> bool" where
  "in_network (IPv4Address a) (IPv4Network w n) = (a AND netmask n = w)"
| "in_network (IPv6Address a scope_id) (IPv6Network w n) = (a AND netmask n = w)"
| "in_network _ _ = False"

section \<open>Membership is agreement on the prefix\<close>

lemma and_netmask: "a AND netmask n = push_bit (LENGTH('a) - n) (drop_bit (LENGTH('a) - n) (a::'a::len word))"
  by (rule bit_word_eqI) (auto simp: netmask_def bit_simps)

lemma parse_ip_network_host_bits:
  "parse_ip_network s = Some (IPv4Network w n) \<Longrightarrow> w AND netmask n = w"
  "parse_ip_network s = Some (IPv6Network w' n) \<Longrightarrow> w' AND netmask n = w'"
  by (auto simp: parse_ip_network_def parse_ipv4_network_def parse_ipv6_network_def
      split: option.splits ip_address.splits if_splits prod.splits)

lemma drop_bit_netmask: "drop_bit (LENGTH('a) - n) (a AND netmask n) = drop_bit (LENGTH('a) - n) (a::'a::len word)"
  by (rule bit_word_eqI) (auto simp: netmask_def bit_simps dest: bit_imp_le_length)

lemma and_netmask_eq:
  fixes a w :: "'a::len word"
  assumes "w AND netmask n = w"
  shows "a AND netmask n = w \<longleftrightarrow> drop_bit (LENGTH('a) - n) a = drop_bit (LENGTH('a) - n) w"
proof
  assume "a AND netmask n = w"
  then show "drop_bit (LENGTH('a) - n) a = drop_bit (LENGTH('a) - n) w"
    using drop_bit_netmask [of n a] by simp
next
  assume eq: "drop_bit (LENGTH('a) - n) a = drop_bit (LENGTH('a) - n) w"
  have "a AND netmask n = w AND netmask n" by (simp only: and_netmask eq)
  then show "a AND netmask n = w" using assms by simp
qed

lemma in_parsed_network:
  "parse_ip_network s = Some (IPv4Network w n) \<Longrightarrow>
     in_network (IPv4Address a) (IPv4Network w n) \<longleftrightarrow> drop_bit (32 - n) a = drop_bit (32 - n) w"
  "parse_ip_network s = Some (IPv6Network w' n) \<Longrightarrow>
     in_network (IPv6Address a' scope_id) (IPv6Network w' n) \<longleftrightarrow> drop_bit (128 - n) a' = drop_bit (128 - n) w'"
  by (simp_all add: parse_ip_network_host_bits and_netmask_eq)

end
