(* ===== verification/Base64.thy ===== *)
theory Base64
  imports Py_Prelude
begin

text \<open>
  The encodings the sources take from the standard library. A \<open>bytes\<close> object is the list of its bytes,
  each a \<^typ>\<open>char\<close>. \<open>base64.urlsafe_b64encode\<close>, \<open>base64.urlsafe_b64decode\<close> (which skips foreign
  characters) and \<open>base64.b64decode(..., validate=True)\<close> are the loops of \<open>binascii\<close>; the main fact is
  that both decoders undo the encoder, with its padding removed and put back.
\<close>

section \<open>Text encodings\<close>

definition is_ascii :: "string \<Rightarrow> bool" where
  "is_ascii s \<longleftrightarrow> list_all (\<lambda>c. (of_char c :: nat) < 128) s"

definition utf8_char :: "char \<Rightarrow> string" where
  "utf8_char c = (let n = of_char c :: nat in if n < 128 then [c] else [char_of (192 + n div 64), char_of (128 + n mod 64)])"

definition utf8_encode :: "string \<Rightarrow> string" where
  "utf8_encode s = concat (map utf8_char s)"

text \<open>Code points from U+0100 on are outside the model and refused like invalid bytes.\<close>

fun utf8_decode :: "string \<Rightarrow> string option" where
  "utf8_decode [] = Some []"
| "utf8_decode (b # bs) =
     (if (of_char b :: nat) < 128 then map_option (Cons b) (utf8_decode bs)
      else case bs of
             [] \<Rightarrow> None
           | b' # bs' \<Rightarrow>
               if (of_char b = (194::nat) \<or> of_char b = (195::nat)) \<and> 128 \<le> (of_char b' :: nat) \<and> (of_char b' :: nat) < 192
               then map_option (Cons (char_of ((of_char b - 192) * 64 + (of_char b' - 128) :: nat))) (utf8_decode bs')
               else None)"

lemma utf8_ascii: "is_ascii s \<Longrightarrow> utf8_encode s = s"
  by (induction s) (simp_all add: is_ascii_def utf8_encode_def utf8_char_def)

lemma utf8_decode_ascii: "is_ascii s \<Longrightarrow> utf8_decode s = Some s"
  by (induction s) (simp_all add: is_ascii_def)

lemma utf8_roundtrip [simp]: "utf8_decode (utf8_encode s) = Some s"
proof (induction s)
  case (Cons c s)
  let ?n = "of_char c :: nat"
  have "?n < 256" by simp
  show ?case
  proof (cases "?n < 128")
    case True
    then show ?thesis using Cons by (simp add: utf8_encode_def utf8_char_def)
  next
    case False
    define hi lo where "hi = ?n div 64" and "lo = ?n mod 64"
    have "2 \<le> hi" "hi < 4" using False \<open>?n < 256\<close>
      by (simp_all add: hi_def less_eq_div_iff_mult_less_eq div_less_iff_less_mult)
    then have hi: "hi = 2 \<or> hi = 3" by linarith
    have lo: "lo < 64" by (simp add: lo_def)
    have c: "char_of (hi * 64 + lo) = c" by (simp add: hi_def lo_def)
    have "(of_char (char_of (192 + hi)) :: nat) = 192 + hi" "(of_char (char_of (128 + lo)) :: nat) = 128 + lo"
      using hi lo by auto
    moreover have "utf8_encode (c # s) = char_of (192 + hi) # char_of (128 + lo) # utf8_encode s"
      using False by (simp add: utf8_encode_def utf8_char_def Let_def hi_def lo_def)
    ultimately show ?thesis using Cons hi lo by (simp only: utf8_decode.simps list.case) (auto simp: c)
  qed
qed (simp add: utf8_encode_def)

section \<open>Encoding\<close>

definition b64_char :: "nat \<Rightarrow> char" where
  "b64_char v = (if v < 26 then char_of (65 + v) else if v < 52 then char_of (71 + v)
     else if v < 62 then char_of (v - 4) else if v = 62 then CHR ''+'' else CHR ''/'')"

definition b64_value :: "char \<Rightarrow> nat option" where
  "b64_value c = (let n = of_char c :: nat in
     if 65 \<le> n \<and> n \<le> 90 then Some (n - 65) else if 97 \<le> n \<and> n \<le> 122 then Some (n - 71)
     else if 48 \<le> n \<and> n \<le> 57 then Some (n + 4) else if n = 43 then Some 62 else if n = 47 then Some 63 else None)"

fun b64_sextets :: "nat list \<Rightarrow> nat list" where
  "b64_sextets [] = []"
| "b64_sextets [a] = [a div 4, a mod 4 * 16]"
| "b64_sextets [a, b] = [a div 4, a mod 4 * 16 + b div 16, b mod 16 * 4]"
| "b64_sextets (a # b # c # bs) =
     a div 4 # (a mod 4 * 16 + b div 16) # (b mod 16 * 4 + c div 64) # c mod 64 # b64_sextets bs"

definition b64_padding :: "nat \<Rightarrow> string" where
  "b64_padding n = replicate ((4 - n mod 4) mod 4) (CHR ''='')"

definition b64encode :: "string \<Rightarrow> string" where
  "b64encode bs =
     (let digits = map b64_char (b64_sextets (map of_char bs)) in digits @ b64_padding (length digits))"

definition url_char :: "char \<Rightarrow> char" where
  "url_char c = (if c = CHR ''+'' then CHR ''-'' else if c = CHR ''/'' then CHR ''_'' else c)"

definition std_char :: "char \<Rightarrow> char" where
  "std_char c = (if c = CHR ''-'' then CHR ''+'' else if c = CHR ''_'' then CHR ''/'' else c)"

definition urlsafe_b64encode :: "string \<Rightarrow> string" where
  "urlsafe_b64encode bs = map url_char (b64encode bs)"

definition rstrip_char :: "char \<Rightarrow> string \<Rightarrow> string" where
  "rstrip_char c s = rev (dropWhile (\<lambda>x. x = c) (rev s))"

section \<open>Decoding\<close>

text \<open>\<open>binascii.a2b_base64\<close>: \<open>q\<close> digits of the current quad have been read, \<open>l\<close> holds the bits left over.\<close>

fun a2b_base64 :: "bool \<Rightarrow> bool \<Rightarrow> nat \<Rightarrow> nat \<Rightarrow> nat \<Rightarrow> string \<Rightarrow> string option" where
  "a2b_base64 strict started q l pads [] = (if q = 0 then Some [] else None)"
| "a2b_base64 strict started q l pads (c # cs) =
     (if c = CHR ''=''
      then if strict \<and> q = 0 then None
           else if 2 \<le> q \<and> 4 \<le> q + Suc pads then (if strict \<and> cs \<noteq> [] then None else Some [])
           else a2b_base64 strict True q l (if 2 \<le> q then Suc pads else pads) cs
      else case b64_value c of
             None \<Rightarrow> if strict then None else a2b_base64 strict started q l pads cs
           | Some v \<Rightarrow>
               if strict \<and> started then None
               else if q = 0 then a2b_base64 strict started 1 v 0 cs
               else if q = 1 then map_option (Cons (char_of (l * 4 + v div 16))) (a2b_base64 strict started 2 (v mod 16) 0 cs)
               else if q = 2 then map_option (Cons (char_of (l * 16 + v div 4))) (a2b_base64 strict started 3 (v mod 4) 0 cs)
               else map_option (Cons (char_of (l * 64 + v))) (a2b_base64 strict started 0 0 0 cs))"

definition b64decode_url :: "bool \<Rightarrow> string \<Rightarrow> string option" where
  "b64decode_url strict s = a2b_base64 strict False 0 0 0 (map std_char s)"

section \<open>Round trip\<close>

lemma of_char_char_of: "n < 256 \<Longrightarrow> of_char (char_of n) = (n::nat)"
  by simp

lemma of_char_b64:
  "v < 64 \<Longrightarrow> (of_char (b64_char v) :: nat) =
    (if v < 26 then 65 + v else if v < 52 then 71 + v else if v < 62 then v - 4 else if v = 62 then 43 else 47)"
  by (simp add: b64_char_def)

lemma char_neq_of_char: "(of_char c :: nat) \<noteq> of_char d \<Longrightarrow> c \<noteq> d"
  by auto

lemma b64_char_neq: "v < 64 \<Longrightarrow> b64_char v \<noteq> CHR ''='' \<and> b64_char v \<noteq> CHR ''-'' \<and> b64_char v \<noteq> CHR ''_''"
  by (intro conjI char_neq_of_char) (auto simp: of_char_b64)

lemma b64_char_cases: "v < 64 \<Longrightarrow> b64_value (b64_char v) = Some v \<and> b64_char v \<noteq> CHR ''=''"
  by (auto simp: b64_value_def of_char_b64 b64_char_neq Let_def)

lemma url_std_char: "v < 64 \<Longrightarrow> std_char (url_char (b64_char v)) = b64_char v \<and> url_char (b64_char v) \<noteq> CHR ''=''"
  using b64_char_neq [of v] by (auto simp: std_char_def url_char_def)

lemma b64_sextets_bound: "\<forall>b \<in> set bs. b < 256 \<Longrightarrow> \<forall>v \<in> set (b64_sextets bs). v < 64"
  by (induction bs rule: b64_sextets.induct) (auto simp: less_mult_imp_div_less)

lemma a2b_sextets:
  "\<forall>b \<in> set bs. b < 256 \<Longrightarrow>
   a2b_base64 strict False 0 0 0 (map b64_char (b64_sextets bs) @ b64_padding (length (b64_sextets bs))) = Some (map char_of bs)"
proof (induction bs rule: b64_sextets.induct)
  case 1
  then show ?case by (simp add: b64_padding_def)
next
  case (2 a)
  then have "a div 4 < 64" "a mod 4 * 16 < 64" by simp_all
  then show ?case by (simp add: b64_char_cases b64_padding_def numeral_2_eq_2)
next
  case (3 a b)
  then have "(a mod 4 * 16 + b div 16) div 16 = a mod 4" "(a mod 4 * 16 + b div 16) mod 16 = b div 16" by auto
  moreover have "a div 4 < 64" "a mod 4 * 16 + b div 16 < 64" "b mod 16 * 4 < 64" using 3 by auto
  ultimately show ?case by (simp add: b64_char_cases b64_padding_def)
next
  case (4 a b c bs)
  have "(a mod 4 * 16 + b div 16) div 16 = a mod 4" "(a mod 4 * 16 + b div 16) mod 16 = b div 16"
    "(b mod 16 * 4 + c div 64) div 4 = b mod 16" "(b mod 16 * 4 + c div 64) mod 4 = c div 64"
    using 4 by auto
  moreover have "a div 4 < 64" "a mod 4 * 16 + b div 16 < 64" "b mod 16 * 4 + c div 64 < 64" "c mod 64 < 64" using 4 by auto
  moreover have "b64_padding (Suc (Suc (Suc (Suc n)))) = b64_padding n" for n by (simp add: b64_padding_def)
  ultimately show ?case using 4 by (simp add: b64_char_cases)
qed

lemma rstrip_char_append:
  "CHR ''='' \<notin> set ds \<Longrightarrow> rstrip_char (CHR ''='') (ds @ replicate n (CHR ''='')) = ds"
proof -
  assume ds: "CHR ''='' \<notin> set ds"
  have "dropWhile (\<lambda>x. x = CHR ''='') (replicate n (CHR ''='') @ rev ds) = rev ds"
    using ds by (cases "rev ds") (auto simp: dropWhile_append)
  then show ?thesis by (simp add: rstrip_char_def)
qed

lemma url_segment:
  "rstrip_char (CHR ''='') (urlsafe_b64encode bs) = map (url_char \<circ> b64_char) (b64_sextets (map of_char bs))"
proof -
  let ?vs = "b64_sextets (map of_char bs :: nat list)"
  have bound: "\<forall>v \<in> set ?vs. v < 64" by (rule b64_sextets_bound) auto
  have "url_char (CHR ''='') = CHR ''=''" by (simp add: url_char_def)
  then have "urlsafe_b64encode bs = map (url_char \<circ> b64_char) ?vs @ replicate ((4 - length ?vs mod 4) mod 4) (CHR ''='')"
    by (simp add: urlsafe_b64encode_def b64encode_def b64_padding_def)
  moreover have "CHR ''='' \<notin> set (map (url_char \<circ> b64_char) ?vs)" using bound url_std_char by (auto, metis)
  ultimately show ?thesis using rstrip_char_append by simp
qed

theorem b64_url_roundtrip:
  "b64decode_url strict
     (rstrip_char (CHR ''='') (urlsafe_b64encode bs) @ b64_padding (length (rstrip_char (CHR ''='') (urlsafe_b64encode bs)))) = Some bs"
proof -
  let ?vs = "b64_sextets (map of_char bs :: nat list)"
  have bound: "\<forall>v \<in> set ?vs. v < 64" by (rule b64_sextets_bound) auto
  then have eq: "map (std_char \<circ> (url_char \<circ> b64_char)) ?vs = map b64_char ?vs" using url_std_char by auto
  have pad: "map std_char (b64_padding n) = b64_padding n" for n by (simp add: b64_padding_def std_char_def)
  have id: "map char_of (map of_char bs :: nat list) = bs" by (induction bs) simp_all
  have "\<forall>b \<in> set (map of_char bs :: nat list). b < 256" by auto
  from a2b_sextets [OF this, of strict]
  show ?thesis unfolding url_segment b64decode_url_def map_append map_map eq pad length_map by (simp add: id comp_def)
qed

lemma url_segment_chars:
  "set (rstrip_char (CHR ''='') (urlsafe_b64encode bs)) \<subseteq> {c. (of_char c :: nat) < 128 \<and> c \<noteq> CHR ''.''}"
proof -
  have "(of_char (url_char (b64_char v)) :: nat) < 128 \<and> url_char (b64_char v) \<noteq> CHR ''.''" if "v < 64" for v
    using of_char_b64 [OF that] char_neq_of_char [of "b64_char v" "CHR ''.''"]
    by (auto simp: url_char_def split: if_splits)
  moreover have "\<forall>v \<in> set (b64_sextets (map of_char bs :: nat list)). v < 64" by (rule b64_sextets_bound) auto
  ultimately show ?thesis unfolding url_segment by auto
qed

lemma b64_sextets_eq_Nil [simp]: "b64_sextets bs = [] \<longleftrightarrow> bs = []"
  by (cases bs rule: b64_sextets.cases) auto

lemma url_segment_Nil [simp]: "rstrip_char (CHR ''='') (urlsafe_b64encode bs) = [] \<longleftrightarrow> bs = []"
  unfolding url_segment by simp

lemma length_b64_sextets: "length (b64_sextets bs) \<le> 2 * length bs"
  by (induction bs rule: b64_sextets.induct) auto

end
