(* ===== verification/Sha256.thy ===== *)
theory Sha256
  imports Py_Prelude "HOL-Library.Word"
begin

text \<open>
  \<open>hashlib.sha256(data).digest()\<close> and \<open>hmac.new(key, data, hashlib.sha256).digest()\<close> (FIPS 180-4 and
  RFC 2104) on byte strings, with words of 32 bits and their wrap-around.
\<close>

unbundle bit_operations_syntax

text \<open>
  The constants are defined as the standard describes them: the first 32 bits of the fractional parts of the cube
  roots of the first 64 primes and of the square roots of the first eight. The integer root is built bit by bit.
\<close>

definition integer_root :: "nat \<Rightarrow> nat \<Rightarrow> nat" where
  "integer_root k n = fold (\<lambda>b r. if (r + 2 ^ b) ^ k \<le> n then r + 2 ^ b else r) (rev [0..<36]) 0"

definition is_prime :: "nat \<Rightarrow> bool" where
  "is_prime n \<longleftrightarrow> 2 \<le> n \<and> list_all (\<lambda>d. n mod d \<noteq> 0) [2..<n]"

definition root_fraction :: "nat \<Rightarrow> nat \<Rightarrow> 32 word" where
  "root_fraction k p = of_nat (integer_root k (p * 2 ^ (32 * k)))"

definition sha_K :: "32 word list" where
  "sha_K = map (root_fraction 3) (filter is_prime [2..<312])"

definition sha_H0 :: "32 word list" where
  "sha_H0 = map (root_fraction 2) [2, 3, 5, 7, 11, 13, 17, 19]"

definition be_bytes :: "nat \<Rightarrow> nat \<Rightarrow> string" where
  "be_bytes w n = map (\<lambda>i. char_of (n div 256 ^ i)) (rev [0..<w])"

definition be_word :: "string \<Rightarrow> 32 word" where
  "be_word bs = foldl (\<lambda>a b. 256 * a + word_of_nat (of_char b)) 0 bs"

definition sha_pad :: "string \<Rightarrow> string" where
  "sha_pad msg = msg @ [CHR 0x80] @ replicate ((119 - length msg mod 64) mod 64) (CHR 0x00) @ be_bytes 8 (8 * length msg)"

definition small_sigma0 :: "32 word \<Rightarrow> 32 word" where
  "small_sigma0 x = word_rotr 7 x XOR word_rotr 18 x XOR drop_bit 3 x"
definition small_sigma1 :: "32 word \<Rightarrow> 32 word" where
  "small_sigma1 x = word_rotr 17 x XOR word_rotr 19 x XOR drop_bit 10 x"
definition big_sigma0 :: "32 word \<Rightarrow> 32 word" where
  "big_sigma0 x = word_rotr 2 x XOR word_rotr 13 x XOR word_rotr 22 x"
definition big_sigma1 :: "32 word \<Rightarrow> 32 word" where
  "big_sigma1 x = word_rotr 6 x XOR word_rotr 11 x XOR word_rotr 25 x"

definition schedule_next :: "32 word list \<Rightarrow> 32 word list" where
  "schedule_next ws = (let n = length ws in
     ws @ [small_sigma1 (ws ! (n - 2)) + ws ! (n - 7) + small_sigma0 (ws ! (n - 15)) + ws ! (n - 16)])"

definition schedule :: "string \<Rightarrow> 32 word list" where
  "schedule block = (schedule_next ^^ 48) (map be_word (pieces 4 block))"

fun sha_round :: "32 word \<times> 32 word \<Rightarrow> 32 word list \<Rightarrow> 32 word list" where
  "sha_round (k, w) [a, b, c, d, e, f, g, h] =
     (let t1 = h + big_sigma1 e + ((e AND f) XOR (NOT e AND g)) + k + w;
          t2 = big_sigma0 a + ((a AND b) XOR (a AND c) XOR (b AND c))
      in [t1 + t2, a, b, c, d + t1, e, f, g])"
| "sha_round _ s = s"

definition sha_block :: "string \<Rightarrow> 32 word list \<Rightarrow> 32 word list" where
  "sha_block block hs = map2 (+) hs (fold sha_round (zip sha_K (schedule block)) hs)"

definition sha256 :: "string \<Rightarrow> string" where
  "sha256 msg = concat (map (\<lambda>w. be_bytes 4 (unat w)) (fold sha_block (pieces 64 (sha_pad msg)) sha_H0))"

definition xor_byte :: "nat \<Rightarrow> char \<Rightarrow> char" where
  "xor_byte n c = char_of ((of_char c :: nat) XOR n)"

definition hmac_key :: "string \<Rightarrow> string" where
  "hmac_key key = (let k = (if 64 < length key then sha256 key else key) in k @ replicate (64 - length k) (CHR 0x00))"

definition hmac_sha256 :: "string \<Rightarrow> string \<Rightarrow> string" where
  "hmac_sha256 key msg =
     (let k = hmac_key key
      in sha256 (map (xor_byte 0x5c) k @ sha256 (map (xor_byte 0x36) k @ msg)))"

section \<open>Length of a digest\<close>

lemma length_sha_round: "length hs = 8 \<Longrightarrow> length (sha_round kw hs) = 8"
  by (cases "(kw, hs)" rule: sha_round.cases) (auto simp: Let_def)

lemma length_sha_rounds: "length hs = 8 \<Longrightarrow> length (fold sha_round kws hs) = 8"
  by (induction kws arbitrary: hs) (simp_all add: length_sha_round)

lemma length_sha_blocks: "length hs = 8 \<Longrightarrow> length (fold sha_block bs hs) = 8"
  by (induction bs arbitrary: hs) (simp_all add: sha_block_def length_sha_rounds)

lemma length_sha256 [simp]: "length (sha256 msg) = 32"
proof -
  have "length (concat (map (\<lambda>w. be_bytes 4 (unat w)) ws)) = 4 * length ws" for ws :: "32 word list"
    by (induction ws) (simp_all add: be_bytes_def)
  then show ?thesis by (simp add: sha256_def length_sha_blocks sha_H0_def)
qed

lemma length_hmac_sha256 [simp]: "length (hmac_sha256 key msg) = 32"
  by (simp add: hmac_sha256_def Let_def)

end
