(* ===== verification/Auth_Policy.thy ===== *)
theory Auth_Policy
  imports Ip_Address Base64 Sha256 Identity
begin

text \<open>
  \<open>core/authentication/models.py\<close> and \<open>core/authentication/policy.py\<close>: the ingress-authentication modes,
  the validated secret, the policy built from the infrastructure settings and its admission decisions.
  Settings come as the raw values of the environment; the secret file is given by what reading
  it yields, None when the read fails.
\<close>

section \<open>Modes and identities\<close>

datatype AuthenticationMode = DISABLED | LOOPBACK | TRUSTED_PROXY | OWNER_TOKEN

fun mode_value :: "AuthenticationMode \<Rightarrow> string" where
  "mode_value DISABLED = ''disabled''"
| "mode_value LOOPBACK = ''loopback''"
| "mode_value TRUSTED_PROXY = ''trusted_proxy''"
| "mode_value OWNER_TOKEN = ''owner_token''"

datatype AuthenticationMechanism = BY_DISABLED | BY_LOOPBACK | BY_TRUSTED_PROXY | OWNER_BEARER | OWNER_SESSION

record AuthenticatedIdentity =
  ai_principal_id :: string
  ai_mechanism :: AuthenticationMechanism

definition local_user_identity :: "AuthenticationMechanism \<Rightarrow> AuthenticatedIdentity" where
  "local_user_identity mechanism = \<lparr>ai_principal_id = LOCAL_USER_PRINCIPAL_ID, ai_mechanism = mechanism\<rparr>"

section \<open>Secrets\<close>

definition MINIMUM_SECRET_BYTES :: nat where
  "MINIMUM_SECRET_BYTES = 32"

definition MAXIMUM_SECRET_BYTES :: nat where
  "MAXIMUM_SECRET_BYTES = 4096"

definition DEFAULT_PROXY_ASSERTION_HEADER :: string where
  "DEFAULT_PROXY_ASSERTION_HEADER = ''X-AssistantMD-Proxy-Assertion''"

definition candidate_bytes :: "string option \<Rightarrow> string option" where
  "candidate_bytes candidate = (case candidate of
     None \<Rightarrow> None
   | Some s \<Rightarrow>
       if \<not> is_ascii s then None
       else if MINIMUM_SECRET_BYTES \<le> length s \<and> length s \<le> MAXIMUM_SECRET_BYTES then Some s
       else None)"

definition secret_matches :: "string \<Rightarrow> string option \<Rightarrow> bool" where
  "secret_matches secret candidate = (case candidate_bytes candidate of None \<Rightarrow> False | Some bytes \<Rightarrow> secret = bytes)"

definition derive_key :: "string \<Rightarrow> string \<Rightarrow> string result" where
  "derive_key secret purpose =
     (if purpose = [] then Inl (ValueError ''Authentication key purpose cannot be empty.'')
      else Inr (hmac_sha256 secret purpose))"

definition validate_secret :: "string \<Rightarrow> string result" where
  "validate_secret bytes =
     (if length bytes < MINIMUM_SECRET_BYTES
      then Inl (AuthenticationConfigurationError ''Authentication secrets must contain at least 32 bytes.'')
      else if MAXIMUM_SECRET_BYTES < length bytes
      then Inl (AuthenticationConfigurationError ''Authentication secrets cannot exceed 4096 bytes.'')
      else if list_ex (\<lambda>b. (of_char b :: nat) < 0x21 \<or> 0x7E < (of_char b :: nat)) bytes
      then Inl (AuthenticationConfigurationError ''Authentication secrets must contain only visible ASCII characters.'')
      else Inr bytes)"

definition strip_newline :: "string \<Rightarrow> string" where
  "strip_newline raw =
     (if endswith raw [CHR 0x0D, CHR 0x0A] then take (length raw - 2) raw
      else if endswith raw [CHR 0x0A] then take (length raw - 1) raw
      else raw)"

text \<open>\<open>secret_file\<close> is None without a configured file, otherwise its path and what \<open>open\<close> and \<open>read\<close> give.\<close>

definition load_configured_secret :: "string option \<Rightarrow> (string \<times> string option) option \<Rightarrow> string option result" where
  "load_configured_secret direct_secret secret_file =
     (case (direct_secret, secret_file) of
        (Some _, Some _) \<Rightarrow>
          Inl (AuthenticationConfigurationError
            ''Configure only one of ASSISTANTMD_AUTH_SECRET and ASSISTANTMD_AUTH_SECRET_FILE.'')
      | (Some raw, None) \<Rightarrow> rbind (validate_secret (utf8_encode raw)) (\<lambda>s. Inr (Some s))
      | (None, None) \<Rightarrow> Inr None
      | (None, Some (path, None)) \<Rightarrow>
          Inl (AuthenticationConfigurationError (''Unable to read authentication secret file: '' @ path))
      | (None, Some (path, Some contents)) \<Rightarrow>
          rbind (validate_secret (strip_newline (take (MAXIMUM_SECRET_BYTES + 2) contents))) (\<lambda>s. Inr (Some s)))"

section \<open>The policy\<close>

record AuthenticationPolicy =
  ap_mode :: AuthenticationMode
  ap_secret :: "string option"
  ap_proxy_assertion_header :: string
  ap_trusted_proxy_networks :: "ip_network list"

definition is_protected :: "AuthenticationPolicy \<Rightarrow> bool" where
  "is_protected policy \<longleftrightarrow> ap_mode policy \<noteq> DISABLED"

definition parse_ip_address :: "string option \<Rightarrow> ip_address option" where
  "parse_ip_address raw_address = (case raw_address of None \<Rightarrow> None | Some s \<Rightarrow> parse_ip_string s)"

definition EXACT_LOOPBACK_ADDRESSES :: "ip_address list" where
  "EXACT_LOOPBACK_ADDRESSES = [IPv4Address 0x7F000001, IPv6Address 1 None]"

definition authenticate_disabled :: "AuthenticationPolicy \<Rightarrow> AuthenticatedIdentity option" where
  "authenticate_disabled policy =
     (if ap_mode policy \<noteq> DISABLED then None else Some (local_user_identity BY_DISABLED))"

definition authenticate_loopback :: "AuthenticationPolicy \<Rightarrow> string option \<Rightarrow> AuthenticatedIdentity option" where
  "authenticate_loopback policy peer_host =
     (if ap_mode policy \<noteq> LOOPBACK then None
      else case parse_ip_address peer_host of
             None \<Rightarrow> None
           | Some peer \<Rightarrow>
               if peer \<notin> set EXACT_LOOPBACK_ADDRESSES then None else Some (local_user_identity BY_LOOPBACK))"

definition peer_is_trusted_proxy :: "AuthenticationPolicy \<Rightarrow> string option \<Rightarrow> bool" where
  "peer_is_trusted_proxy policy peer_host =
     (if ap_trusted_proxy_networks policy = [] then True
      else case parse_ip_address peer_host of
             None \<Rightarrow> False
           | Some peer \<Rightarrow> list_ex (in_network peer) (ap_trusted_proxy_networks policy))"

definition policy_secret_matches :: "AuthenticationPolicy \<Rightarrow> string option \<Rightarrow> bool" where
  "policy_secret_matches policy candidate =
     (case ap_secret policy of None \<Rightarrow> False | Some secret \<Rightarrow> secret_matches secret candidate)"

definition authenticate_proxy :: "AuthenticationPolicy \<Rightarrow> string option \<Rightarrow> string option \<Rightarrow> AuthenticatedIdentity option" where
  "authenticate_proxy policy assertion peer_host =
     (if ap_mode policy \<noteq> TRUSTED_PROXY then None
      else if \<not> peer_is_trusted_proxy policy peer_host then None
      else if \<not> policy_secret_matches policy assertion then None
      else Some (local_user_identity BY_TRUSTED_PROXY))"

definition authenticate_owner_bearer :: "AuthenticationPolicy \<Rightarrow> string option \<Rightarrow> AuthenticatedIdentity option" where
  "authenticate_owner_bearer policy bearer_token =
     (if ap_mode policy \<noteq> OWNER_TOKEN then None
      else if \<not> policy_secret_matches policy bearer_token then None
      else Some (local_user_identity OWNER_BEARER))"

definition derive_session_key :: "AuthenticationPolicy \<Rightarrow> string result" where
  "derive_session_key policy = (case ap_secret policy of
     Some secret \<Rightarrow>
       if ap_mode policy \<noteq> OWNER_TOKEN
       then Inl (AuthenticationConfigurationError ''Owner session keys require owner-token authentication mode.'')
       else derive_key secret ''assistantmd-owner-session-v1''
   | None \<Rightarrow> Inl (AuthenticationConfigurationError ''Owner session keys require owner-token authentication mode.''))"

section \<open>Loading the policy\<close>

definition parse_mode :: "string option \<Rightarrow> AuthenticationMode result" where
  "parse_mode raw_mode =
     (let normalized = strip (case raw_mode of None \<Rightarrow> [] | Some s \<Rightarrow> s)
      in if normalized = []
         then Inl (AuthenticationConfigurationError
           ''ASSISTANTMD_AUTH_MODE must explicitly select disabled, loopback, trusted_proxy, or owner_token.'')
         else case find (\<lambda>m. mode_value m = normalized) [DISABLED, LOOPBACK, TRUSTED_PROXY, OWNER_TOKEN] of
                Some m \<Rightarrow> Inr m
              | None \<Rightarrow> Inl (AuthenticationConfigurationError
                  ''ASSISTANTMD_AUTH_MODE must be disabled, loopback, trusted_proxy, or owner_token.''))"

definition header_name_char :: "char \<Rightarrow> bool" where
  "header_name_char c \<longleftrightarrow> (let n = of_char c :: nat in
     (48 \<le> n \<and> n \<le> 57) \<or> (65 \<le> n \<and> n \<le> 90) \<or> (97 \<le> n \<and> n \<le> 122) \<or>
     c \<in> {CHR ''!'', CHR ''#'', CHR ''$'', CHR ''%'', CHR ''&'', CHR 0x27, CHR ''*'', CHR ''+'', CHR ''-'',
          CHR ''.'', CHR ''^'', CHR ''_'', CHR 0x60, CHR ''|'', CHR ''~''})"

definition validate_header_name :: "string \<Rightarrow> string result" where
  "validate_header_name raw_name =
     (let name = strip raw_name
      in if name = [] \<or> \<not> list_all header_name_char name
         then Inl (AuthenticationConfigurationError
           ''ASSISTANTMD_AUTH_PROXY_ASSERTION_HEADER must be a valid HTTP header name.'')
         else Inr name)"

definition parse_network :: "string \<Rightarrow> ip_network result" where
  "parse_network raw_network =
     (let v = strip raw_network
      in if v = []
         then Inl (AuthenticationConfigurationError ''Trusted proxy networks cannot contain an empty entry.'')
         else case parse_ip_network v of
                Some net \<Rightarrow> Inr net
              | None \<Rightarrow> Inl (AuthenticationConfigurationError (''Invalid trusted proxy network: '' @ v)))"

definition parse_networks :: "string option \<Rightarrow> ip_network list result" where
  "parse_networks raw_networks = (case raw_networks of
     None \<Rightarrow> Inr []
   | Some raw \<Rightarrow> if strip raw = [] then Inr [] else rmap parse_network (split_char (CHR '','') raw))"

record auth_settings =
  as_auth_mode :: "string option"
  as_auth_secret :: "string option"
  as_auth_secret_file :: "(string \<times> string option) option"
  as_auth_proxy_assertion_header :: string
  as_auth_trusted_proxy_networks :: "string option"

definition load_authentication_policy :: "auth_settings \<Rightarrow> AuthenticationPolicy result" where
  "load_authentication_policy settings =
     rbind (parse_mode (as_auth_mode settings)) (\<lambda>mode.
     rbind (load_configured_secret (as_auth_secret settings) (as_auth_secret_file settings)) (\<lambda>secret.
     rbind (parse_networks (as_auth_trusted_proxy_networks settings)) (\<lambda>trusted_networks.
     rbind (validate_header_name (as_auth_proxy_assertion_header settings)) (\<lambda>header.
       if mode \<in> {DISABLED, LOOPBACK}
       then if secret \<noteq> None
            then Inl (AuthenticationConfigurationError
              (''Authentication mode '' @ [CHR 0x27] @ mode_value mode @ [CHR 0x27] @ '' does not accept a secret.''))
            else if trusted_networks \<noteq> []
            then Inl (AuthenticationConfigurationError
              (''Authentication mode '' @ [CHR 0x27] @ mode_value mode @ [CHR 0x27] @ '' does not accept trusted proxy networks.''))
            else Inr \<lparr>ap_mode = mode, ap_secret = None, ap_proxy_assertion_header = header,
                      ap_trusted_proxy_networks = []\<rparr>
       else if secret = None
       then Inl (AuthenticationConfigurationError
         (''Authentication mode '' @ [CHR 0x27] @ mode_value mode @ [CHR 0x27] @ '' requires an authentication secret.''))
       else if mode = OWNER_TOKEN \<and> trusted_networks \<noteq> []
       then Inl (AuthenticationConfigurationError ''Owner-token mode does not accept trusted proxy networks.'')
       else Inr \<lparr>ap_mode = mode, ap_secret = secret, ap_proxy_assertion_header = header,
                 ap_trusted_proxy_networks = trusted_networks\<rparr>))))"

end
