(* ===== verification/Py_Float.thy ===== *)
theory Py_Float
  imports Json_Parse Complex_Main
begin

text \<open>
  Python's \<open>float\<close> as the sources use it: the double nearest to a decimal literal (ties to even, overflow to
  infinity), and \<open>int\<close> applied to a float or to a string. A finite float is the rational it
  denotes.
\<close>

datatype pyfloat = Finite rat | Infinite bool | NotANumber

definition decimal_value :: "string \<Rightarrow> rat" where
  "decimal_value s =
     (let neg = startswith s ''-'';
          (digits, frac, expo, rest) = number_parts (if neg then tl s else s);
          mantissa = rat_of_nat (read_nat (digits @ drop 1 frac)) / 10 ^ (length frac - 1);
          exp_digits = filter is_digit expo;
          scaled = (if CHR ''-'' \<in> set expo then mantissa / 10 ^ read_nat exp_digits
                    else mantissa * 10 ^ read_nat exp_digits)
      in if neg then - scaled else scaled)"

fun bit_length :: "nat \<Rightarrow> nat" where
  "bit_length n = (if n = 0 then 0 else Suc (bit_length (n div 2)))"

declare bit_length.simps [simp del]

definition two_power :: "int \<Rightarrow> rat" where
  "two_power e = (if 0 \<le> e then 2 ^ nat e else 1 / 2 ^ nat (- e))"

definition round_half_even :: "rat \<Rightarrow> int" where
  "round_half_even v =
     (let n = \<lfloor>v\<rfloor>; d = v - rat_of_int n
      in if d < 1 / 2 \<or> (d = 1 / 2 \<and> even n) then n else n + 1)"

text \<open>The exponent that leaves 53 bits of a positive rational, not below that of the subnormal numbers.\<close>

definition double_exponent :: "rat \<Rightarrow> int" where
  "double_exponent v =
     (case quotient_of v of (a, b) \<Rightarrow>
        let s = int (bit_length (nat a)) - int (bit_length (nat b))
        in max (- 1074) ((if two_power s \<le> v then s else s - 1) - 52))"

definition round_double :: "rat \<Rightarrow> pyfloat" where
  "round_double v =
     (if v = 0 then Finite 0
      else
        let e = double_exponent \<bar>v\<bar>;
            r = rat_of_int (round_half_even (\<bar>v\<bar> / two_power e)) * two_power e
        in if two_power 1024 \<le> r then Infinite (v < 0) else Finite (if v < 0 then - r else r))"

definition float_of_text :: "string \<Rightarrow> pyfloat" where
  "float_of_text s =
     (if s = ''NaN'' then NotANumber
      else if s = ''Infinity'' then Infinite False
      else if s = ''-Infinity'' then Infinite True
      else round_double (decimal_value s))"

text \<open>\<open>int(x)\<close> for a float truncates; infinities and NaN raise.\<close>

fun int_of_float :: "pyfloat \<Rightarrow> int result" where
  "int_of_float (Finite v) = Inr (if v < 0 then - \<lfloor>- v\<rfloor> else \<lfloor>v\<rfloor>)"
| "int_of_float (Infinite neg) = Inl (OverflowError ''cannot convert float infinity to integer'')"
| "int_of_float NotANumber = Inl (ValueError ''cannot convert float NaN to integer'')"

text \<open>Digits with single underscores between them; at most 4300 of them are converted.\<close>

fun int_body :: "bool \<Rightarrow> string \<Rightarrow> string option" where
  "int_body after [] = (if after then Some [] else None)"
| "int_body after (c # cs) =
     (if is_digit c then map_option (Cons c) (int_body True cs)
      else if c = CHR 0x5F \<and> after then int_body False cs
      else None)"

definition int_of_string :: "string \<Rightarrow> int option" where
  "int_of_string s =
     (let t = strip s;
          neg = startswith t ''-'';
          body = (if neg \<or> startswith t ''+'' then tl t else t)
      in case int_body False body of
           None \<Rightarrow> None
         | Some ds \<Rightarrow> if 4300 < length ds then None else Some (if neg then - int (read_nat ds) else int (read_nat ds)))"

end
