(* ===== verification/Auth_Session.thy ===== *)
theory Auth_Session
  imports Auth_Policy Py_Datetime Py_Float "HOL-Library.Signed_Division"
begin

text \<open>
  \<open>core/authentication/session.py\<close>: owner sessions as two base64url segments, the sorted compact JSON of
  the claims and its HMAC under a key derived from the owner secret. Random tokens and the wall clock are
  arguments. \<open>issue\<close> and \<open>verify\<close> are inverse within the lifetime, and \<open>verify\<close> accepts nothing
  that was not signed with the key.
\<close>

section \<open>Time\<close>

text \<open>
  A \<open>datetime\<close> argument is aware or naive; an aware one is given by its UTC instant.
  \<open>int(t.timestamp())\<close> truncates towards zero; up to \<open>2 ^ 34\<close> seconds after the epoch the conversion to a
  double does not move a time to another second.
\<close>

datatype py_datetime = Aware datetime | Naive datetime

definition utc_datetime :: "datetime \<Rightarrow> py_datetime option \<Rightarrow> datetime result" where
  "utc_datetime clock v = (case v of
     None \<Rightarrow> Inr clock
   | Some (Aware t) \<Rightarrow> Inr t
   | Some (Naive t) \<Rightarrow> Inl (ValueError ''Owner session timestamps must be timezone-aware.''))"

definition epoch_seconds :: nat where
  "epoch_seconds = days_before_year 1969 * 86400"

definition int_timestamp :: "datetime \<Rightarrow> int" where
  "int_timestamp t = (int t - int epoch_seconds * 1000000) sdiv 1000000"

definition from_timestamp :: "int \<Rightarrow> datetime option" where
  "from_timestamp s =
     (if 0 \<le> s + int epoch_seconds \<and> nat (s + int epoch_seconds) * 1000000 < datetime_limit
      then Some (nat (s + int epoch_seconds) * 1000000) else None)"

section \<open>Claims\<close>

definition SESSION_VERSION :: int where
  "SESSION_VERSION = 1"

definition DEFAULT_SESSION_LIFETIME :: nat where
  "DEFAULT_SESSION_LIFETIME = 12 * 3600 * 1000000"

definition MAXIMUM_SESSION_TOKEN_BYTES :: nat where
  "MAXIMUM_SESSION_TOKEN_BYTES = 4096"

definition CSRF_TOKEN_BYTES :: nat where
  "CSRF_TOKEN_BYTES = 32"

definition SESSION_NONCE_BYTES :: nat where
  "SESSION_NONCE_BYTES = 16"

record IssuedOwnerSession =
  io_cookie_value :: string
  io_csrf_token :: string
  io_expires_at :: datetime

record VerifiedOwnerSession =
  vo_identity :: AuthenticatedIdentity
  vo_issued_at :: datetime
  vo_expires_at :: datetime
  vo_csrf_digest :: string

record OwnerSessionCodec =
  oc_signing_key :: string
  oc_lifetime :: int

definition new_OwnerSessionCodec :: "AuthenticationPolicy \<Rightarrow> int \<Rightarrow> OwnerSessionCodec result" where
  "new_OwnerSessionCodec policy lifetime =
     (if lifetime \<le> 0 then Inl (ValueError ''Owner session lifetime must be positive.'')
      else rbind (derive_session_key policy) (\<lambda>key. Inr \<lparr>oc_signing_key = key, oc_lifetime = lifetime\<rparr>))"

text \<open>\<open>bytes.hex\<close> and \<open>bytes.fromhex\<close>, which skips ASCII white space between the pairs.\<close>

definition bytes_hex :: "string \<Rightarrow> string" where
  "bytes_hex bs = concat (map (\<lambda>b. [hex_char (of_char b div 16), hex_char (of_char b)]) bs)"

definition ascii_space :: "char \<Rightarrow> bool" where
  "ascii_space c \<longleftrightarrow> (let n = of_char c :: nat in (9 \<le> n \<and> n \<le> 13) \<or> n = 32)"

fun bytes_fromhex :: "string \<Rightarrow> string option" where
  "bytes_fromhex [] = Some []"
| "bytes_fromhex (c # cs) =
     (if ascii_space c then bytes_fromhex cs
      else case cs of
             [] \<Rightarrow> None
           | d # ds \<Rightarrow>
               (case (hex_value c, hex_value d) of
                  (Some hi, Some lo) \<Rightarrow> map_option (Cons (char_of (16 * hi + lo))) (bytes_fromhex ds)
                | _ \<Rightarrow> None))"

definition csrf_digest :: "string \<Rightarrow> string" where
  "csrf_digest csrf_token = sha256 (utf8_encode csrf_token)"

definition encode_segment :: "string \<Rightarrow> string" where
  "encode_segment bytes = rstrip_char (CHR ''='') (urlsafe_b64encode bytes)"

abbreviation session_invalid :: "'a result" where
  "session_invalid \<equiv> Inl (SessionVerificationError ''Owner session is invalid.'')"

definition decode_segment :: "string \<Rightarrow> string result" where
  "decode_segment text =
     (if \<not> is_ascii text then session_invalid
      else case b64decode_url True (text @ b64_padding (length text)) of
             None \<Rightarrow> session_invalid
           | Some bytes \<Rightarrow> Inr bytes)"

text \<open>\<open>secrets.token_urlsafe\<close> of the random bytes drawn.\<close>

definition token_urlsafe :: "string \<Rightarrow> string" where
  "token_urlsafe random_bytes = rstrip_char (CHR ''='') (urlsafe_b64encode random_bytes)"

definition session_payload :: "datetime \<Rightarrow> datetime \<Rightarrow> string \<Rightarrow> string \<Rightarrow> json" where
  "session_payload issued_at expires_at csrf_token nonce = JDict (sort_key fst
     [(''v'', JInt SESSION_VERSION),
      (''iat'', JInt (int_timestamp issued_at)),
      (''exp'', JInt (int_timestamp expires_at)),
      (''csrf'', JStr (bytes_hex (csrf_digest csrf_token))),
      (''nonce'', JStr nonce)])"

definition issue :: "OwnerSessionCodec \<Rightarrow> datetime \<Rightarrow> py_datetime option \<Rightarrow> string \<Rightarrow> string \<Rightarrow> IssuedOwnerSession result" where
  "issue codec clock now csrf_random nonce_random =
     rbind (utc_datetime clock now) (\<lambda>issued_at.
       let expires_at = int issued_at + oc_lifetime codec
       in if int datetime_limit \<le> expires_at then Inl (OverflowError ''date value out of range'')
          else
            let csrf_token = token_urlsafe csrf_random;
                encoded_payload = encode_segment (utf8_encode (json_text True '','' '':''
                  (session_payload issued_at (nat expires_at) csrf_token (token_urlsafe nonce_random))));
                signature = hmac_sha256 (oc_signing_key codec) encoded_payload
            in Inr \<lparr>io_cookie_value = encoded_payload @ ''.'' @ encode_segment signature,
                    io_csrf_token = csrf_token, io_expires_at = nat expires_at\<rparr>)"

section \<open>Verification\<close>

text \<open>\<open>version != 1\<close> compares numbers: \<open>True\<close> and every float literal that denotes \<open>1.0\<close> count as 1.\<close>

fun json_equals_one :: "json \<Rightarrow> bool" where
  "json_equals_one (JInt i) = (i = 1)"
| "json_equals_one (JBool b) = b"
| "json_equals_one (JFloat s) = (float_of_text s = Finite 1)"
| "json_equals_one _ = False"

definition decode_payload :: "string \<Rightarrow> (string, json) dict result" where
  "decode_payload encoded_payload = rbind (decode_segment encoded_payload) (\<lambda>decoded.
     case Option.bind (utf8_decode decoded) json_loads of
       Some (JDict payload) \<Rightarrow> Inr payload
     | _ \<Rightarrow> session_invalid)"

definition validate_claims :: "(string, json) dict \<Rightarrow> (datetime \<times> datetime \<times> string) result" where
  "validate_claims payload =
     (if set (map fst payload) \<noteq> {''v'', ''iat'', ''exp'', ''csrf'', ''nonce''} then session_invalid
      else if \<not> json_equals_one (the (map_of payload ''v'')) then session_invalid
      else case (the (map_of payload ''iat''), the (map_of payload ''exp''), the (map_of payload ''csrf''),
                 the (map_of payload ''nonce'')) of
             (JInt issued_timestamp, JInt expiry_timestamp, JStr csrf_hex, JStr nonce) \<Rightarrow>
               if nonce = [] then session_invalid
               else (case (from_timestamp issued_timestamp, from_timestamp expiry_timestamp, bytes_fromhex csrf_hex) of
                       (Some issued_at, Some expires_at, Some digest) \<Rightarrow>
                         if expires_at \<le> issued_at \<or> length digest \<noteq> 32 then session_invalid
                         else Inr (issued_at, expires_at, digest)
                     | _ \<Rightarrow> session_invalid)
           | _ \<Rightarrow> session_invalid)"

definition verify_segments :: "OwnerSessionCodec \<Rightarrow> datetime \<Rightarrow> py_datetime option \<Rightarrow> string \<Rightarrow> string \<Rightarrow> VerifiedOwnerSession result" where
  "verify_segments codec clock now encoded_payload encoded_signature =
     rbind (decode_segment encoded_signature) (\<lambda>signature.
       if \<not> is_ascii encoded_payload then session_invalid
       else if signature \<noteq> hmac_sha256 (oc_signing_key codec) encoded_payload then session_invalid
       else rbind (decode_payload encoded_payload) (\<lambda>payload.
            rbind (validate_claims payload) (\<lambda>(issued_at, expires_at, digest).
            rbind (utc_datetime clock now) (\<lambda>current_time.
              if current_time < issued_at \<or> expires_at \<le> current_time then session_invalid
              else Inr \<lparr>vo_identity = local_user_identity OWNER_SESSION, vo_issued_at = issued_at,
                        vo_expires_at = expires_at, vo_csrf_digest = digest\<rparr>))))"

definition verify :: "OwnerSessionCodec \<Rightarrow> datetime \<Rightarrow> py_datetime option \<Rightarrow> string option \<Rightarrow> VerifiedOwnerSession result" where
  "verify codec clock now cookie_value = (case cookie_value of
     None \<Rightarrow> session_invalid
   | Some cookie \<Rightarrow>
       if cookie = [] \<or> MAXIMUM_SESSION_TOKEN_BYTES < length (utf8_encode cookie) then session_invalid
       else (case split_char (CHR ''.'') cookie of
               [encoded_payload, encoded_signature] \<Rightarrow>
                 if encoded_payload = [] \<or> encoded_signature = [] then session_invalid
                 else verify_segments codec clock now encoded_payload encoded_signature
             | _ \<Rightarrow> session_invalid))"

definition verify_csrf :: "VerifiedOwnerSession \<Rightarrow> string option \<Rightarrow> unit result" where
  "verify_csrf session csrf_token = (case csrf_token of
     None \<Rightarrow> Inl (SessionVerificationError ''CSRF verification failed.'')
   | Some token \<Rightarrow>
       if vo_csrf_digest session \<noteq> csrf_digest token
       then Inl (SessionVerificationError ''CSRF verification failed.'') else Inr ())"

section \<open>Round trips of the encodings\<close>

lemma split_char_none: "c \<notin> set s \<Longrightarrow> split_char c s = [s]"
  by (induction s) auto

lemma split_char_append: "c \<notin> set s \<Longrightarrow> split_char c (s @ c # t) = s # split_char c t"
  by (induction s) auto

lemma encode_segment_ascii: "is_ascii (encode_segment bs)" and encode_segment_dot: "CHR ''.'' \<notin> set (encode_segment bs)"
  using url_segment_chars [of bs] by (auto simp: encode_segment_def is_ascii_def list_all_iff)

lemma encode_segment_Nil [simp]: "encode_segment bs = [] \<longleftrightarrow> bs = []"
  by (simp add: encode_segment_def)

lemma decode_encode_segment [simp]: "decode_segment (encode_segment bs) = Inr bs"
  using b64_url_roundtrip [of True bs] encode_segment_ascii [of bs]
  by (simp add: decode_segment_def encode_segment_def)

lemma length_encode_segment: "length (encode_segment bs) \<le> 2 * length bs"
  using length_b64_sextets [of "map of_char bs"] by (simp add: encode_segment_def url_segment)

lemma fromhex_hex [simp]: "bytes_fromhex (bytes_hex bs) = Some bs"
proof (induction bs)
  case (Cons b bs)
  have nibble: "\<not> ascii_space (hex_char n)" for n
    by (auto simp: ascii_space_def hex_char_def Let_def)
  have "16 * (of_char b div 16 mod 16) + of_char b mod 16 = (of_char b :: nat)" by (rule nibbles) simp
  then show ?case using Cons by (simp add: bytes_hex_def nibble hex_value_hex_char)
qed (simp add: bytes_hex_def)

lemma length_bytes_hex [simp]: "length (bytes_hex bs) = 2 * length bs"
  by (induction bs) (simp_all add: bytes_hex_def)

lemma length_show_nat: "n < 10 ^ Suc k \<Longrightarrow> length (show_nat n) \<le> Suc k"
proof (induction k arbitrary: n)
  case (Suc k)
  have "n div 10 < 10 ^ Suc k" using Suc.prems by auto
  then show ?case using Suc.IH [of "n div 10"] by (subst show_nat.simps) simp
qed (simp add: show_nat.simps)

lemma length_json_quote_le: "length (json_quote ascii s) \<le> 6 * length s + 2"
proof -
  have "length (concat (map (esc_char ascii) s)) \<le> 6 * length s"
    using length_esc_char(2) [of ascii] by (induction s) (simp_all add: add_mono)
  then show ?thesis by (simp add: json_quote_def)
qed

lemma epoch_numeral: "epoch_seconds = 62135596800"
  by (simp add: epoch_seconds_def days_before_year_def)

lemma datetime_limit_numeral: "datetime_limit = 315537897600000000"
  by (simp add: datetime_limit_def days_before_year_def)

lemma int_timestamp_after_epoch:
  "epoch_seconds * 1000000 \<le> t \<Longrightarrow> int_timestamp t = int (t div 1000000) - int epoch_seconds"
  using div_mult_self1 [of 1000000 "int t" "- int epoch_seconds"]
  by (simp add: int_timestamp_def signed_divide_int_def epoch_numeral sgn_if zdiv_int)

lemma from_int_timestamp:
  assumes "epoch_seconds * 1000000 \<le> t" "t < datetime_limit"
  shows "from_timestamp (int_timestamp t) = Some (floor_second t)"
proof -
  have "t div 1000000 * 1000000 = floor_second t"
    by (simp add: floor_second_def minus_mod_eq_div_mult [symmetric])
  moreover have "floor_second t \<le> t" by (simp add: floor_second_def)
  ultimately show ?thesis using assms(2) by (simp add: from_timestamp_def int_timestamp_after_epoch [OF assms(1)])
qed

lemma session_payload_sorted:
  "session_payload issued_at expires_at csrf_token nonce = JDict
     [(''csrf'', JStr (bytes_hex (csrf_digest csrf_token))), (''exp'', JInt (int_timestamp expires_at)),
      (''iat'', JInt (int_timestamp issued_at)), (''nonce'', JStr nonce), (''v'', JInt SESSION_VERSION)]"
  by (simp add: session_payload_def)

lemma session_json_roundtrip:
  "json_loads (json_text True '','' '':'' (session_payload issued_at expires_at csrf_token nonce)) =
     Some (session_payload issued_at expires_at csrf_token nonce)"
  by (rule json_compact.loads_json_text) (simp add: session_payload_sorted)

lemma int_timestamp_range:
  assumes "epoch_seconds * 1000000 \<le> t" "t < datetime_limit"
  shows "0 \<le> int_timestamp t" "int_timestamp t < 10 ^ 12"
proof -
  have "epoch_seconds \<le> t div 1000000" using assms(1) by (simp add: less_eq_div_iff_mult_less_eq)
  moreover have "t div 1000000 < 10 ^ 12" using assms(2) by (simp add: datetime_limit_numeral div_less_iff_less_mult)
  ultimately show "0 \<le> int_timestamp t" "int_timestamp t < 10 ^ 12"
    by (simp_all add: int_timestamp_after_epoch [OF assms(1)])
qed

lemma length_show_timestamp:
  assumes "epoch_seconds * 1000000 \<le> t" "t < datetime_limit"
  shows "length (show_int (int_timestamp t)) \<le> 12"
proof -
  note range = int_timestamp_range [OF assms]
  then have "nat (int_timestamp t) < 10 ^ Suc 11" by simp
  from length_show_nat [OF this] range(1) show ?thesis by (simp add: show_int_def)
qed

lemma length_session_json:
  assumes "epoch_seconds * 1000000 \<le> issued_at" "issued_at \<le> expires_at" "expires_at < datetime_limit"
  shows "length (json_text True '','' '':'' (session_payload issued_at expires_at csrf_token nonce)) \<le> 6 * length nonce + 500"
proof -
  let ?hex = "bytes_hex (csrf_digest csrf_token)"
  have "length (json_quote True ?hex) \<le> 6 * length ?hex + 2" by (rule length_json_quote_le)
  then have hex: "length (json_quote True ?hex) \<le> 386" by (simp add: csrf_digest_def)
  have exp: "length (show_int (int_timestamp expires_at)) \<le> 12"
    using assms by (intro length_show_timestamp) auto
  have iat: "length (show_int (int_timestamp issued_at)) \<le> 12"
    using assms by (intro length_show_timestamp) auto
  have version: "show_int 1 = ''1''" by code_simp
  have keys: "length (json_quote True ''csrf'') = 6" "length (json_quote True ''exp'') = 5"
    "length (json_quote True ''iat'') = 5" "length (json_quote True ''nonce'') = 7" "length (json_quote True ''v'') = 3"
    by code_simp+
  show ?thesis
    using hex exp iat length_json_quote_le [of True nonce]
    by (simp add: session_payload_sorted keys version SESSION_VERSION_def)
qed

lemma length_utf8_encode: "length (utf8_encode s) \<le> 2 * length s"
  by (induction s) (auto simp: utf8_encode_def utf8_char_def Let_def)

lemma length_session_cookie:
  assumes "epoch_seconds * 1000000 \<le> issued_at" "issued_at \<le> expires_at" "expires_at < datetime_limit"
    and "length nonce \<le> 2 * SESSION_NONCE_BYTES" and "length signature = 32"
  shows "length (encode_segment (utf8_encode (json_text True '','' '':''
      (session_payload issued_at expires_at csrf_token nonce))) @ ''.'' @ encode_segment signature) \<le> MAXIMUM_SESSION_TOKEN_BYTES"
proof -
  let ?json = "json_text True '','' '':'' (session_payload issued_at expires_at csrf_token nonce)"
  have "length (encode_segment (utf8_encode ?json)) \<le> 2 * (2 * length ?json)"
    using length_encode_segment length_utf8_encode by (meson mult_le_mono2 order_trans)
  moreover have "length ?json \<le> 6 * length nonce + 500" using assms(1-3) by (rule length_session_json)
  moreover have "length (encode_segment signature) \<le> 64" using length_encode_segment [of signature] assms(5) by simp
  ultimately show ?thesis using assms(4) by (simp add: SESSION_NONCE_BYTES_def MAXIMUM_SESSION_TOKEN_BYTES_def)
qed

lemma validate_session_payload:
  assumes "epoch_seconds * 1000000 \<le> issued_at" "expires_at < datetime_limit" "nonce \<noteq> []"
    and "issued_at + 1000000 \<le> expires_at" "session_payload issued_at expires_at csrf_token nonce = JDict payload"
  shows "validate_claims payload = Inr (floor_second issued_at, floor_second expires_at, csrf_digest csrf_token)"
proof -
  have times: "from_timestamp (int_timestamp issued_at) = Some (floor_second issued_at)"
    "from_timestamp (int_timestamp expires_at) = Some (floor_second expires_at)"
    using assms by (auto intro: from_int_timestamp)
  have "issued_at mod 1000000 < 1000000" "expires_at mod 1000000 < 1000000" by simp_all
  then have later: "floor_second issued_at < floor_second expires_at"
    using assms(4) by (simp add: floor_second_def minus_mod_eq_div_mult)
  have "payload = [(''csrf'', JStr (bytes_hex (csrf_digest csrf_token))), (''exp'', JInt (int_timestamp expires_at)),
      (''iat'', JInt (int_timestamp issued_at)), (''nonce'', JStr nonce), (''v'', JInt SESSION_VERSION)]"
    using assms(5) by (simp add: session_payload_sorted)
  then show ?thesis
    using later assms(3) by (auto simp: validate_claims_def times SESSION_VERSION_def csrf_digest_def)
qed

section \<open>Issuing and verifying\<close>

lemma verify_issued_cookie:
  fixes payload :: json
  assumes "payload = session_payload issued_at expires_at csrf_token nonce"
    and "encoded = encode_segment (utf8_encode (json_text True '','' '':'' payload))"
    and "cookie = encoded @ ''.'' @ encode_segment (hmac_sha256 (oc_signing_key codec) encoded)"
    and "epoch_seconds * 1000000 \<le> issued_at" "issued_at + 1000000 \<le> expires_at" "expires_at < datetime_limit"
    and "nonce \<noteq> []" "length nonce \<le> 2 * SESSION_NONCE_BYTES" "issued_at \<le> now" "now < floor_second expires_at"
  shows "verify codec clock (Some (Aware now)) (Some cookie) =
    Inr \<lparr>vo_identity = local_user_identity OWNER_SESSION, vo_issued_at = floor_second issued_at,
         vo_expires_at = floor_second expires_at, vo_csrf_digest = csrf_digest csrf_token\<rparr>"
proof -
  let ?sign = "hmac_sha256 (oc_signing_key codec) encoded"
  obtain claims where claims: "payload = JDict claims" using assms(1) by (simp add: session_payload_sorted)
  have "is_ascii cookie" unfolding assms(3) assms(2)
    using encode_segment_ascii by (auto simp: is_ascii_def list_all_append)
  then have "length (utf8_encode cookie) \<le> MAXIMUM_SESSION_TOKEN_BYTES"
    using length_session_cookie [of issued_at expires_at nonce ?sign csrf_token] assms by (simp add: utf8_ascii)
  moreover have "cookie \<noteq> []" by (simp add: assms(3))
  moreover have "split_char (CHR ''.'') cookie = [encoded, encode_segment ?sign]"
    using encode_segment_dot by (simp add: assms(2,3) split_char_append split_char_none)
  moreover have "encoded \<noteq> []" "is_ascii encoded" using encode_segment_ascii by (simp_all add: assms(2) claims utf8_encode_def utf8_char_def)
  moreover have "encode_segment ?sign \<noteq> []" by (metis encode_segment_Nil length_hmac_sha256 list.size(3) zero_neq_numeral)
  moreover have "decode_payload encoded = Inr claims"
    using session_json_roundtrip [of issued_at expires_at csrf_token nonce] claims
    by (simp add: decode_payload_def assms(1,2))
  moreover have "validate_claims claims = Inr (floor_second issued_at, floor_second expires_at, csrf_digest csrf_token)"
    using assms claims by (intro validate_session_payload) auto
  moreover have "floor_second issued_at \<le> now" using assms(9) by (simp add: floor_second_def)
  ultimately show ?thesis using assms(10) by (simp add: verify_def verify_segments_def utc_datetime_def)
qed

text \<open>
  C16. Round trip of owner sessions. A session issued at a time \<open>t\<close> after 1970 (and before the times at
  which a double loses the second), with a lifetime of a second or more, verifies under the same
  codec at every later time before the whole second of its expiry, yields the local user, the
  issue and expiry times to the second and the digest of its CSRF token, and the CSRF token issued with it
  passes the CSRF check.
\<close>

theorem session_roundtrip:
  assumes "issue codec clock (Some (Aware t)) csrf_random nonce_random = Inr issued"
    and "length nonce_random = SESSION_NONCE_BYTES"
    and "epoch_seconds * 1000000 \<le> t" "io_expires_at issued < (epoch_seconds + 2 ^ 34) * 1000000"
    and "1000000 \<le> oc_lifetime codec" "t \<le> now" "now < floor_second (io_expires_at issued)"
  shows "\<exists>session. verify codec clock' (Some (Aware now)) (Some (io_cookie_value issued)) = Inr session \<and>
    session = \<lparr>vo_identity = local_user_identity OWNER_SESSION, vo_issued_at = floor_second t,
      vo_expires_at = floor_second (io_expires_at issued), vo_csrf_digest = csrf_digest (io_csrf_token issued)\<rparr> \<and>
    verify_csrf session (Some (io_csrf_token issued)) = Inr ()"
proof -
  have expires: "io_expires_at issued = nat (int t + oc_lifetime codec)" "nat (int t + oc_lifetime codec) < datetime_limit"
    using assms(1) by (auto simp: issue_def utc_datetime_def Let_def datetime_limit_numeral split: if_splits)
  have "t + 1000000 \<le> io_expires_at issued" using assms(5) by (simp add: expires)
  moreover have "token_urlsafe nonce_random \<noteq> []" "length (token_urlsafe nonce_random) \<le> 2 * SESSION_NONCE_BYTES"
    using assms(2) length_encode_segment [of nonce_random]
    by (auto simp: token_urlsafe_def encode_segment_def SESSION_NONCE_BYTES_def)
  moreover have "io_csrf_token issued = token_urlsafe csrf_random"
    "io_cookie_value issued = (let encoded = encode_segment (utf8_encode (json_text True '','' '':''
        (session_payload t (io_expires_at issued) (token_urlsafe csrf_random) (token_urlsafe nonce_random))))
      in encoded @ ''.'' @ encode_segment (hmac_sha256 (oc_signing_key codec) encoded))"
    using assms(1) by (auto simp: issue_def utc_datetime_def Let_def split: if_splits)
  ultimately show ?thesis
    using verify_issued_cookie [OF refl refl refl, of t "io_expires_at issued" "token_urlsafe nonce_random" now codec clock' "token_urlsafe csrf_random"] assms expires
    by (simp add: verify_csrf_def Let_def)
qed

theorem session_roundtrip_witness:
  "\<exists>issued session. issue \<lparr>oc_signing_key = ''key'', oc_lifetime = int DEFAULT_SESSION_LIFETIME\<rparr> 0
       (Some (Aware 63892800000000001)) (replicate 32 CHR 0x07) (replicate 16 CHR 0xFF) = Inr issued \<and>
     io_expires_at issued = 63892843200000001 \<and>
     verify \<lparr>oc_signing_key = ''key'', oc_lifetime = int DEFAULT_SESSION_LIFETIME\<rparr> 0
       (Some (Aware 63892843199999999)) (Some (io_cookie_value issued)) = Inr session \<and>
     vo_issued_at session = 63892800000000000 \<and> verify_csrf session (Some (io_csrf_token issued)) = Inr ()"
proof -
  let ?codec = "\<lparr>oc_signing_key = ''key'', oc_lifetime = int DEFAULT_SESSION_LIFETIME\<rparr>"
  let ?csrf = "replicate 32 CHR 0x07" and ?nonce = "replicate 16 CHR 0xFF"
  obtain issued where iss: "issue ?codec 0 (Some (Aware 63892800000000001)) ?csrf ?nonce = Inr issued"
      "io_expires_at issued = 63892843200000001"
    by (simp add: issue_def utc_datetime_def datetime_limit_numeral DEFAULT_SESSION_LIFETIME_def Let_def)
  have len: "length ?nonce = SESSION_NONCE_BYTES" by (simp add: SESSION_NONCE_BYTES_def)
  obtain session where "verify ?codec 0 (Some (Aware 63892843199999999)) (Some (io_cookie_value issued)) = Inr session"
      "vo_issued_at session = floor_second 63892800000000001" "verify_csrf session (Some (io_csrf_token issued)) = Inr ()"
    using session_roundtrip [OF iss(1) len, of 63892843199999999 0] iss(2)
    by (auto simp: epoch_numeral DEFAULT_SESSION_LIFETIME_def floor_second_def)
  then show ?thesis using iss by (auto simp: floor_second_def)
qed

section \<open>What a verified session proves\<close>

lemma split_two: "split_char c s = [a, b] \<Longrightarrow> s = a @ c # b"
  using split_char_join [of c s] by simp

text \<open>The cookie consists of claims and of their HMAC under the key.\<close>

definition signed_session :: "string \<Rightarrow> string \<Rightarrow> datetime \<Rightarrow> datetime \<Rightarrow> string \<Rightarrow> bool" where
  "signed_session key cookie issued_at expires_at digest \<longleftrightarrow>
     (\<exists>encoded_payload encoded_signature claims. cookie = encoded_payload @ ''.'' @ encoded_signature \<and>
        decode_segment encoded_signature = Inr (hmac_sha256 key encoded_payload) \<and>
        decode_payload encoded_payload = Inr claims \<and> validate_claims claims = Inr (issued_at, expires_at, digest))"

lemma verify_sound:
  assumes "verify codec clock now (Some cookie) = Inr session"
  shows "signed_session (oc_signing_key codec) cookie (vo_issued_at session) (vo_expires_at session) (vo_csrf_digest session)"
    and "\<exists>current. utc_datetime clock now = Inr current \<and> vo_issued_at session \<le> current \<and> current < vo_expires_at session"
    and "vo_identity session = local_user_identity OWNER_SESSION"
proof -
  from assms obtain p sg where split: "split_char (CHR ''.'') cookie = [p, sg]"
    and seg: "verify_segments codec clock now p sg = Inr session"
    by (auto simp: verify_def split: if_splits list.splits)
  from seg obtain signature claims iat ex digest current where
    eqs: "decode_segment sg = Inr signature" "signature = hmac_sha256 (oc_signing_key codec) p"
      "decode_payload p = Inr claims" "validate_claims claims = Inr (iat, ex, digest)" "utc_datetime clock now = Inr current"
      "iat \<le> current" "current < ex"
      "session = \<lparr>vo_identity = local_user_identity OWNER_SESSION, vo_issued_at = iat, vo_expires_at = ex, vo_csrf_digest = digest\<rparr>"
    by (auto simp: verify_segments_def split: if_splits)
  show "signed_session (oc_signing_key codec) cookie (vo_issued_at session) (vo_expires_at session) (vo_csrf_digest session)"
    using split_two [OF split] eqs by (auto simp: signed_session_def)
  show "\<exists>current. utc_datetime clock now = Inr current \<and> vo_issued_at session \<le> current \<and> current < vo_expires_at session"
    "vo_identity session = local_user_identity OWNER_SESSION" using eqs by simp_all
qed

text \<open>With the clock read inside, the only exception is the one the callers catch.\<close>

lemma segment_errors:
  "decode_segment s = Inl e \<Longrightarrow> e = SessionVerificationError ''Owner session is invalid.''"
  "decode_payload s = Inl e \<Longrightarrow> e = SessionVerificationError ''Owner session is invalid.''"
  by (auto simp: decode_segment_def decode_payload_def rbind_eq_Inl split: if_splits option.splits json.splits)

lemma claims_errors:
  "validate_claims c = Inl e \<Longrightarrow> e = SessionVerificationError ''Owner session is invalid.''"
  by (auto simp: validate_claims_def split: if_splits option.splits json.splits)

lemma verify_errors:
  assumes "verify codec clock None v = Inl e"
  shows "e = SessionVerificationError ''Owner session is invalid.''"
  using assms by (auto simp: verify_def verify_segments_def utc_datetime_def rbind_eq_Inl
      split: option.splits if_splits list.splits dest: segment_errors claims_errors)

end
