(* ===== verification/Simulation.thy ===== *)
theory Simulation
  imports Main
begin

text \<open>
  Functional refinement of a component with operations: a detailed step function simulates an abstract
  one when related states stay related and the answers agree, as long as every event is allowed in
  the abstract state it meets. The locale turns the one-step simulation into agreement of all answers
  over every sequence of events.
\<close>

fun answers :: "('e \<Rightarrow> 's \<Rightarrow> 'o \<times> 's) \<Rightarrow> 'e list \<Rightarrow> 's \<Rightarrow> 'o list" where
  "answers step [] s = []"
| "answers step (e # es) s = (case step e s of (out, s') \<Rightarrow> out # answers step es s')"

fun final_state :: "('e \<Rightarrow> 's \<Rightarrow> 'o \<times> 's) \<Rightarrow> 'e list \<Rightarrow> 's \<Rightarrow> 's" where
  "final_state step [] s = s"
| "final_state step (e # es) s = final_state step es (snd (step e s))"

fun admissible :: "('s \<Rightarrow> 'e \<Rightarrow> bool) \<Rightarrow> ('e \<Rightarrow> 's \<Rightarrow> 'o \<times> 's) \<Rightarrow> 'e list \<Rightarrow> 's \<Rightarrow> bool" where
  "admissible ok step [] s = True"
| "admissible ok step (e # es) s = (ok s e \<and> admissible ok step es (snd (step e s)))"

lemma length_answers [simp]: "length (answers step es s) = length es"
  by (induction es arbitrary: s) (simp_all split: prod.split)

lemma final_state_append: "final_state step (es @ es') s = final_state step es' (final_state step es s)"
  by (induction es arbitrary: s) simp_all

locale simulation =
  fixes astep :: "'e \<Rightarrow> 'a \<Rightarrow> 'o \<times> 'a"
    and cstep :: "'e \<Rightarrow> 'c \<Rightarrow> 'o \<times> 'c"
    and ok :: "'a \<Rightarrow> 'e \<Rightarrow> bool"
    and rel :: "'a \<Rightarrow> 'c \<Rightarrow> bool"
    and agree :: "'o \<Rightarrow> 'o \<Rightarrow> bool"
  assumes step_rel: "rel a c \<Longrightarrow> ok a e \<Longrightarrow> rel (snd (astep e a)) (snd (cstep e c))"
    and step_agree: "rel a c \<Longrightarrow> ok a e \<Longrightarrow> agree (fst (astep e a)) (fst (cstep e c))"
begin

lemma run_agree:
  "rel a c \<Longrightarrow> admissible ok astep es a \<Longrightarrow> list_all2 agree (answers astep es a) (answers cstep es c)"
proof (induction es arbitrary: a c)
  case (Cons e es)
  from Cons.prems have "ok a e" "admissible ok astep es (snd (astep e a))" by simp_all
  with Cons.prems(1) have "list_all2 agree (answers astep es (snd (astep e a))) (answers cstep es (snd (cstep e c)))"
    by (intro Cons.IH step_rel)
  then show ?case
    using step_agree [OF Cons.prems(1) \<open>ok a e\<close>] by (simp split: prod.split_asm add: case_prod_beta)
qed simp

lemma run_rel:
  "rel a c \<Longrightarrow> admissible ok astep es a \<Longrightarrow> rel (final_state astep es a) (final_state cstep es c)"
  by (induction es arbitrary: a c) (auto intro: step_rel)

end

end
