(* ===== verification/Auth_Limiter.thy ===== *)
theory Auth_Limiter
  imports Complex_Main Py_Prelude Simulation
begin

text \<open>
  The throttle of failed ingress authentication, \<open>AuthenticationFailureLimiter\<close> of
  \<open>core/authentication/rate_limit.py\<close>. The \<open>OrderedDict\<close> of deques is an association list in its order;
  the readings of \<open>time.monotonic\<close> are rational numbers, an argument of every operation that reads
  the clock. The specification keeps every failure of a peer since its last success and counts those
  inside the window; the limiter, which forgets expired failures and, over capacity, whole peers,
  refines it.
\<close>

section \<open>The limiter\<close>

definition DEFAULT_FAILURE_LIMIT :: int where
  "DEFAULT_FAILURE_LIMIT = 10"

definition DEFAULT_FAILURE_WINDOW_SECONDS :: rat where
  "DEFAULT_FAILURE_WINDOW_SECONDS = 60"

definition DEFAULT_MAXIMUM_TRACKED_PEERS :: int where
  "DEFAULT_MAXIMUM_TRACKED_PEERS = 4096"

record limiter =
  lm_failure_limit :: int
  lm_window_seconds :: rat
  lm_maximum_tracked_peers :: int
  lm_failures :: "(string, rat list) dict"

definition new_limiter :: "int \<Rightarrow> rat \<Rightarrow> int \<Rightarrow> limiter result" where
  "new_limiter failure_limit window_seconds maximum_tracked_peers =
     (if failure_limit < 1 \<or> window_seconds \<le> 0 \<or> maximum_tracked_peers < 1
      then Inl (ValueError ''Authentication failure limiter bounds must be positive.'')
      else Inr \<lparr>lm_failure_limit = failure_limit, lm_window_seconds = window_seconds,
                lm_maximum_tracked_peers = maximum_tracked_peers, lm_failures = []\<rparr>)"

text \<open>\<open>OrderedDict.move_to_end\<close> for a key that is present.\<close>

definition move_to_end :: "'k \<Rightarrow> ('k, 'v) dict \<Rightarrow> ('k, 'v) dict" where
  "move_to_end k d = (case map_of d k of None \<Rightarrow> d | Some v \<Rightarrow> AList.delete k d @ [(k, v)])"

definition active_failures :: "limiter \<Rightarrow> string \<Rightarrow> rat \<Rightarrow> rat list \<times> limiter" where
  "active_failures l peer_key now =
     (let d = dict_setdefault peer_key [] (lm_failures l);
          failures = dropWhile (\<lambda>t. t \<le> now - lm_window_seconds l) (the (map_of d peer_key));
          d' = AList.update peer_key failures d
      in (failures, l\<lparr>lm_failures := (if failures = [] then move_to_end peer_key d' else d')\<rparr>))"

definition is_limited :: "limiter \<Rightarrow> string \<Rightarrow> rat \<Rightarrow> bool \<times> limiter" where
  "is_limited l peer_key now =
     (case active_failures l peer_key now of
        (failures, l') \<Rightarrow> (lm_failure_limit l \<le> int (length failures), l'))"

text \<open>The loop that evicts the oldest entry while there are too many.\<close>

fun evict :: "int \<Rightarrow> ('k, 'v) dict \<Rightarrow> ('k, 'v) dict" where
  "evict maximum d = (if maximum < int (length d) \<and> d \<noteq> [] then evict maximum (tl d) else d)"

declare evict.simps [simp del]

definition record_failure :: "limiter \<Rightarrow> string \<Rightarrow> rat \<Rightarrow> limiter" where
  "record_failure l peer_key now =
     (case active_failures l peer_key now of
        (failures, l') \<Rightarrow>
          l'\<lparr>lm_failures := evict (lm_maximum_tracked_peers l)
               (move_to_end peer_key (AList.update peer_key (failures @ [now]) (lm_failures l')))\<rparr>)"

definition record_success :: "limiter \<Rightarrow> string \<Rightarrow> limiter" where
  "record_success l peer_key = l\<lparr>lm_failures := AList.delete peer_key (lm_failures l)\<rparr>"

section \<open>The specification: the failures since the last success\<close>

datatype limiter_event = IsLimited string rat | RecordFailure string rat | RecordSuccess string

fun event_peer :: "limiter_event \<Rightarrow> string" where
  "event_peer (IsLimited p t) = p"
| "event_peer (RecordFailure p t) = p"
| "event_peer (RecordSuccess p) = p"

fun event_times :: "limiter_event \<Rightarrow> rat list" where
  "event_times (IsLimited p t) = [t]"
| "event_times (RecordFailure p t) = [t]"
| "event_times (RecordSuccess p) = []"

fun limiter_step :: "limiter_event \<Rightarrow> limiter \<Rightarrow> bool \<times> limiter" where
  "limiter_step (IsLimited p t) l = is_limited l p t"
| "limiter_step (RecordFailure p t) l = (False, record_failure l p t)"
| "limiter_step (RecordSuccess p) l = (False, record_success l p)"

record failure_history =
  fh_last :: rat
  fh_failures :: "string \<Rightarrow> rat list"

definition failures_in_window :: "rat \<Rightarrow> rat \<Rightarrow> rat list \<Rightarrow> nat" where
  "failures_in_window window now ts = length (filter (\<lambda>t. now - window < t) ts)"

fun history_step :: "int \<Rightarrow> rat \<Rightarrow> limiter_event \<Rightarrow> failure_history \<Rightarrow> bool \<times> failure_history" where
  "history_step limit window (IsLimited p t) h =
     (limit \<le> int (failures_in_window window t (fh_failures h p)), h\<lparr>fh_last := t\<rparr>)"
| "history_step limit window (RecordFailure p t) h =
     (False, \<lparr>fh_last = t, fh_failures = (fh_failures h)(p := fh_failures h p @ [t])\<rparr>)"
| "history_step limit window (RecordSuccess p) h =
     (False, h\<lparr>fh_failures := (fh_failures h)(p := [])\<rparr>)"

text \<open>Events are allowed when the clock does not run backwards and the peer is one of those expected.\<close>

definition event_ok :: "string set \<Rightarrow> failure_history \<Rightarrow> limiter_event \<Rightarrow> bool" where
  "event_ok P h e \<longleftrightarrow> event_peer e \<in> P \<and> list_all (\<lambda>t. fh_last h \<le> t) (event_times e)"

definition no_history :: "rat \<Rightarrow> failure_history" where
  "no_history start = \<lparr>fh_last = start, fh_failures = (\<lambda>p. [])\<rparr>"

section \<open>Effect of the operations\<close>

definition stored :: "limiter \<Rightarrow> string \<Rightarrow> rat list" where
  "stored l p = (case map_of (lm_failures l) p of None \<Rightarrow> [] | Some ts \<Rightarrow> ts)"

definition limiter_frame :: "limiter \<Rightarrow> limiter \<Rightarrow> bool" where
  "limiter_frame l l' \<longleftrightarrow> lm_failure_limit l' = lm_failure_limit l \<and> lm_window_seconds l' = lm_window_seconds l
     \<and> lm_maximum_tracked_peers l' = lm_maximum_tracked_peers l"

lemma map_of_append_fresh: "k \<notin> fst ` set d \<Longrightarrow> map_of (d @ [(k, v)]) = (map_of d)(k \<mapsto> v)"
  by (auto simp: map_add_def fun_eq_iff map_of_eq_None_iff [symmetric] split: option.split)

lemma map_of_setdefault: "map_of (dict_setdefault k v d) = (map_of d)(k \<mapsto> case map_of d k of None \<Rightarrow> v | Some x \<Rightarrow> x)"
proof (cases "map_of d k")
  case None
  then have "map_of (d @ [(k, v)]) = (map_of d)(k \<mapsto> v)"
    by (intro map_of_append_fresh) (simp add: map_of_eq_None_iff)
  then show ?thesis using None by (simp add: dict_setdefault_def del: map_of_append)
qed (simp add: dict_setdefault_def fun_upd_idem)

lemma wf_setdefault: "wf_dict d \<Longrightarrow> wf_dict (dict_setdefault k v d)"
  by (auto simp: dict_setdefault_def wf_dict_def map_of_eq_None_iff split: option.split)

lemma map_of_move_to_end [simp]: "map_of (move_to_end k d) = map_of d"
proof (cases "map_of d k")
  case (Some v)
  have "map_of (AList.delete k d @ [(k, v)]) = (map_of (AList.delete k d))(k \<mapsto> v)"
    by (rule map_of_append_fresh) (rule delete_notin_dom)
  also have "\<dots> = map_of d" using Some by (simp add: delete_conv' fun_upd_idem)
  finally show ?thesis using Some by (simp add: move_to_end_def)
qed (simp add: move_to_end_def)

lemma wf_move_to_end [simp]: "wf_dict d \<Longrightarrow> wf_dict (move_to_end k d)"
  by (auto simp: move_to_end_def wf_dict_def distinct_delete delete_notin_dom split: option.split)

lemma keys_of_map: "fst ` set d = dom (map_of d)"
  by (rule dom_map_of_conv_image_fst [symmetric])

lemma active_failures_effect:
  assumes "wf_dict (lm_failures l)" "active_failures l p t = (ts, l')"
  shows "ts = dropWhile (\<lambda>x. x \<le> t - lm_window_seconds l) (stored l p)" (is ?kept)
    and "wf_dict (lm_failures l')"
    and "map_of (lm_failures l') = (map_of (lm_failures l))(p \<mapsto> ts)"
    and "limiter_frame l l'"
proof -
  let ?d = "dict_setdefault p [] (lm_failures l)"
  let ?ts = "dropWhile (\<lambda>x. x \<le> t - lm_window_seconds l) (the (map_of ?d p))"
  have ts: "ts = ?ts" and l': "l' = l\<lparr>lm_failures :=
      (if ?ts = [] then move_to_end p (AList.update p ?ts ?d) else AList.update p ?ts ?d)\<rparr>"
    using assms(2) unfolding active_failures_def Let_def prod.inject by blast+
  show ?kept using ts by (simp add: map_of_setdefault stored_def)
  have wf: "wf_dict (AList.update p ?ts ?d)" using assms(1) by (simp add: wf_setdefault)
  then show "wf_dict (lm_failures l')" by (simp add: l')
  have "map_of (AList.update p ts ?d) = (map_of (lm_failures l))(p \<mapsto> ts)"
    by (simp add: update_conv' map_of_setdefault)
  then show "map_of (lm_failures l') = (map_of (lm_failures l))(p \<mapsto> ts)" by (simp add: l' ts)
  show "limiter_frame l l'" by (simp add: l' limiter_frame_def)
qed

lemma evict_suffix: "\<exists>n. evict m d = drop n d"
proof (induction m d rule: evict.induct)
  case (1 m d)
  show ?case
  proof (cases "m < int (length d) \<and> d \<noteq> []")
    case True
    then obtain n where "evict m (tl d) = drop n (tl d)" using 1 by blast
    then have "evict m d = drop (Suc n) d" using True by (simp add: evict.simps [of m d] drop_Suc)
    then show ?thesis ..
  next
    case False
    then have "evict m d = drop 0 d" by (subst evict.simps) auto
    then show ?thesis ..
  qed
qed

lemma evict_small: "int (length d) \<le> m \<Longrightarrow> evict m d = d"
  by (subst evict.simps) auto

lemma length_evict: "0 \<le> m \<Longrightarrow> int (length (evict m d)) \<le> m"
proof (induction m d rule: evict.induct)
  case (1 m d)
  show ?case using 1 by (subst evict.simps) auto
qed

lemma wf_dict_drop: "wf_dict d \<Longrightarrow> wf_dict (drop n d)"
  by (simp add: wf_dict_def drop_map [symmetric])

lemma map_of_drop: "wf_dict d \<Longrightarrow> map_of (drop n d) k = Some v \<Longrightarrow> map_of d k = Some v"
  by (metis map_of_in_set wf_dict_drop in_set_dropD)

lemma record_failure_effect:
  fixes l p t
  assumes "wf_dict (lm_failures l)"
  defines "ts \<equiv> dropWhile (\<lambda>x. x \<le> t - lm_window_seconds l) (stored l p) @ [t]"
  defines "m \<equiv> (map_of (lm_failures l))(p \<mapsto> ts)"
  shows "wf_dict (lm_failures (record_failure l p t))"
    and "map_of (lm_failures (record_failure l p t)) \<subseteq>\<^sub>m m"
    and "limiter_frame l (record_failure l p t)"
    and "int (card (dom m)) \<le> lm_maximum_tracked_peers l \<Longrightarrow> map_of (lm_failures (record_failure l p t)) = m"
proof -
  obtain fs l' where act: "active_failures l p t = (fs, l')" by (cases "active_failures l p t")
  note eff = active_failures_effect [OF assms(1) act]
  let ?d = "move_to_end p (AList.update p (fs @ [t]) (lm_failures l'))"
  have rf: "record_failure l p t = l'\<lparr>lm_failures := evict (lm_maximum_tracked_peers l) ?d\<rparr>"
    by (simp add: record_failure_def act)
  obtain n where n: "evict (lm_maximum_tracked_peers l) ?d = drop n ?d" using evict_suffix by blast
  have wf: "wf_dict ?d" using eff(2) by simp
  have m: "map_of ?d = m" using eff(1,3) by (simp add: update_conv' m_def ts_def)
  show "wf_dict (lm_failures (record_failure l p t))" using wf by (simp add: rf n wf_dict_drop)
  show "map_of (lm_failures (record_failure l p t)) \<subseteq>\<^sub>m m"
    using map_of_drop [OF wf] by (simp add: rf n map_le_def m [symmetric] dom_def) (metis m)
  show "limiter_frame l (record_failure l p t)" using eff(4) by (simp add: rf limiter_frame_def)
  assume "int (card (dom m)) \<le> lm_maximum_tracked_peers l"
  moreover have "length ?d = card (dom m)"
    using wf by (metis m keys_of_map wf_dict_def distinct_card length_map set_map)
  ultimately show "map_of (lm_failures (record_failure l p t)) = m"
    using m by (simp add: rf evict_small)
qed

section \<open>Refinement\<close>

lemma dropWhile_sorted:
  "sorted ts \<Longrightarrow> dropWhile (\<lambda>t. t \<le> c) ts = filter (\<lambda>t. c < t) (ts :: 'a::linorder list)"
proof (induction ts)
  case (Cons t ts)
  show ?case
  proof (cases "t \<le> c")
    case False
    with Cons.prems have "\<forall>x\<in>set ts. c < x" by (auto simp: not_le)
    then show ?thesis using False by simp
  qed (use Cons in simp)
qed simp

lemma stored_upd:
  "map_of (lm_failures l') = (map_of (lm_failures l))(p \<mapsto> ts) \<Longrightarrow> stored l' = (stored l)(p := ts)"
  by (simp add: stored_def fun_eq_iff)

text \<open>What one peer contributes to the relation, and that it survives the forgetting of expired failures.\<close>

definition peer_rel :: "rat \<Rightarrow> bool \<Rightarrow> rat \<Rightarrow> rat list \<Rightarrow> rat list \<Rightarrow> bool" where
  "peer_rel window exact latest ts kept \<longleftrightarrow> sorted ts \<and> (\<forall>t\<in>set ts. t \<le> latest) \<and>
     (\<exists>old. ts = old @ kept \<and> (exact \<longrightarrow> (\<forall>t\<in>set old. t \<le> latest - window)))"

lemma peer_rel_later: "peer_rel w exact latest ts kept \<Longrightarrow> latest \<le> now \<Longrightarrow> peer_rel w exact now ts kept"
  by (fastforce simp: peer_rel_def)

lemma peer_rel_forget:
  assumes "peer_rel w exact now ts kept"
  shows "peer_rel w exact now ts (dropWhile (\<lambda>t. t \<le> now - w) kept)"
proof -
  from assms obtain old where old: "ts = old @ kept" "exact \<longrightarrow> (\<forall>t\<in>set old. t \<le> now - w)"
    by (auto simp: peer_rel_def)
  let ?old = "old @ takeWhile (\<lambda>t. t \<le> now - w) kept"
  have "ts = ?old @ dropWhile (\<lambda>t. t \<le> now - w) kept" using old(1) by simp
  moreover have "exact \<longrightarrow> (\<forall>t\<in>set ?old. t \<le> now - w)" using old(2) by (auto dest: set_takeWhileD)
  ultimately show ?thesis using assms unfolding peer_rel_def by blast
qed

lemma peer_rel_snoc:
  "peer_rel w exact now ts kept \<Longrightarrow> peer_rel w exact now (ts @ [now]) (kept @ [now])"
  by (auto simp: peer_rel_def sorted_append)

lemma peer_rel_lost: "peer_rel w False now ts kept \<Longrightarrow> peer_rel w False now ts []"
  by (auto simp: peer_rel_def)

lemma peer_rel_fresh [simp]: "peer_rel w exact latest [] []"
  by (simp add: peer_rel_def)

lemma peer_rel_count:
  assumes "peer_rel w exact now ts kept"
  shows "length (dropWhile (\<lambda>t. t \<le> now - w) kept) \<le> failures_in_window w now ts"
    and "exact \<Longrightarrow> length (dropWhile (\<lambda>t. t \<le> now - w) kept) = failures_in_window w now ts"
proof -
  from assms obtain old where old: "ts = old @ kept" "exact \<longrightarrow> (\<forall>t\<in>set old. t \<le> now - w)" "sorted ts"
    by (auto simp: peer_rel_def)
  have kept: "dropWhile (\<lambda>t. t \<le> now - w) kept = filter (\<lambda>t. now - w < t) kept"
    using old(1,3) by (simp add: dropWhile_sorted sorted_append)
  show "length (dropWhile (\<lambda>t. t \<le> now - w) kept) \<le> failures_in_window w now ts"
    by (simp add: kept old(1) failures_in_window_def)
  assume exact
  then have "filter (\<lambda>t. now - w < t) old = []" using old(2) by (auto simp: filter_empty_conv)
  then show "length (dropWhile (\<lambda>t. t \<le> now - w) kept) = failures_in_window w now ts"
    by (simp add: kept old(1) failures_in_window_def)
qed

definition limiter_rel :: "int \<Rightarrow> rat \<Rightarrow> string set \<Rightarrow> bool \<Rightarrow> failure_history \<Rightarrow> limiter \<Rightarrow> bool" where
  "limiter_rel limit window P exact h l \<longleftrightarrow>
     lm_failure_limit l = limit \<and> lm_window_seconds l = window \<and>
     (exact \<longrightarrow> finite P \<and> int (card P) \<le> lm_maximum_tracked_peers l) \<and>
     wf_dict (lm_failures l) \<and> dom (map_of (lm_failures l)) \<subseteq> P \<and>
     (\<forall>p. peer_rel window exact (fh_last h) (fh_failures h p) (stored l p))"

lemma limiter_rel_fields:
  assumes "limiter_rel limit window P exact h l"
  shows "lm_failure_limit l = limit" "lm_window_seconds l = window" "wf_dict (lm_failures l)"
    "peer_rel window exact (fh_last h) (fh_failures h p) (stored l p)"
  using assms by (simp_all add: limiter_rel_def)

lemma limiter_rel_upd:
  assumes rel: "limiter_rel limit window P exact h l" and frame: "limiter_frame l l'"
    and dict: "wf_dict (lm_failures l')" "dom (map_of (lm_failures l')) \<subseteq> P"
    and peers: "\<And>q. peer_rel window exact (fh_last h') (fh_failures h' q) (stored l' q)"
  shows "limiter_rel limit window P exact h' l'"
  using rel frame dict peers by (simp add: limiter_rel_def limiter_frame_def)

lemma limiter_is_limited_rel:
  assumes rel: "limiter_rel limit window P exact h l" and "p \<in> P" "fh_last h \<le> t"
  shows "limiter_rel limit window P exact (h\<lparr>fh_last := t\<rparr>) (snd (is_limited l p t))"
    and "fst (is_limited l p t) \<longrightarrow> limit \<le> int (failures_in_window window t (fh_failures h p))"
    and "exact \<Longrightarrow> fst (is_limited l p t) \<longleftrightarrow> limit \<le> int (failures_in_window window t (fh_failures h p))"
proof -
  note fields = limiter_rel_fields [OF rel]
  obtain fs l' where act: "active_failures l p t = (fs, l')" by (cases "active_failures l p t")
  note eff = active_failures_effect [OF fields(3) act]
  have later: "peer_rel window exact t (fh_failures h q) (stored l q)" for q
    using fields(4) assms(3) by (rule peer_rel_later)
  have "dom (map_of (lm_failures l')) \<subseteq> P" using rel eff(3) \<open>p \<in> P\<close> by (auto simp: limiter_rel_def)
  moreover have "peer_rel window exact t (fh_failures h q) (stored l' q)" for q
    using later peer_rel_forget [OF later] by (simp add: stored_upd [OF eff(3)] eff(1) fields(2))
  ultimately show "limiter_rel limit window P exact (h\<lparr>fh_last := t\<rparr>) (snd (is_limited l p t))"
    using limiter_rel_upd [OF rel eff(4,2)] by (simp add: is_limited_def act)
  note count = peer_rel_count [OF later [of p], folded fields(2), folded eff(1)]
  show "fst (is_limited l p t) \<longrightarrow> limit \<le> int (failures_in_window window t (fh_failures h p))"
    using count(1) by (simp add: is_limited_def act fields(1,2))
  assume exact
  from count(2) [OF this]
  show "fst (is_limited l p t) \<longleftrightarrow> limit \<le> int (failures_in_window window t (fh_failures h p))"
    by (simp add: is_limited_def act fields(1,2))
qed

lemma limiter_record_failure_rel:
  assumes rel: "limiter_rel limit window P exact h l" and "p \<in> P" "fh_last h \<le> t"
  shows "limiter_rel limit window P exact
    \<lparr>fh_last = t, fh_failures = (fh_failures h)(p := fh_failures h p @ [t])\<rparr> (record_failure l p t)"
proof -
  note fields = limiter_rel_fields [OF rel]
  note eff = record_failure_effect [OF fields(3), of p t]
  let ?l' = "record_failure l p t"
  let ?h' = "\<lparr>fh_last = t, fh_failures = (fh_failures h)(p := fh_failures h p @ [t])\<rparr>"
  define kept where "kept q = (if q = p then dropWhile (\<lambda>x. x \<le> t - window) (stored l p) @ [t] else stored l q)" for q
  define m where "m = (map_of (lm_failures l))(p \<mapsto> kept p)"
  have later: "peer_rel window exact t (fh_failures h q) (stored l q)" for q
    using fields(4) assms(3) by (rule peer_rel_later)
  have kept: "peer_rel window exact t (fh_failures ?h' q) (kept q)" for q
    using later [of q] peer_rel_snoc [OF peer_rel_forget [OF later [of p]]] by (simp add: kept_def)
  have dom: "dom m \<subseteq> P" using rel \<open>p \<in> P\<close> by (auto simp: m_def limiter_rel_def)
  have le: "map_of (lm_failures ?l') \<subseteq>\<^sub>m m" using eff(2) by (simp add: m_def kept_def fields(2))
  have stored: "stored ?l' q = kept q \<or> stored ?l' q = []" for q
    using le by (auto simp: stored_def map_le_def m_def kept_def dom_def split: option.split)
  have full: "stored ?l' q = kept q" if exact for q
  proof -
    have "int (card (dom m)) \<le> int (card P)" using rel that dom by (simp add: limiter_rel_def card_mono)
    also have "\<dots> \<le> lm_maximum_tracked_peers l" using rel that by (simp add: limiter_rel_def)
    finally have "map_of (lm_failures ?l') = m" using eff(4) by (simp add: m_def kept_def fields(2))
    then show ?thesis by (simp add: stored_def m_def kept_def)
  qed
  have "peer_rel window exact t (fh_failures ?h' q) (stored ?l' q)" for q
  proof (cases exact)
    case True
    then show ?thesis using kept full by simp
  next
    case False
    then show ?thesis using kept [of q] stored [of q] peer_rel_lost [of window t _ "kept q"] by (cases exact) auto
  qed
  moreover have "dom (map_of (lm_failures ?l')) \<subseteq> P" using map_le_implies_dom_le [OF le] dom by blast
  ultimately show ?thesis using limiter_rel_upd [OF rel eff(3,1)] by simp
qed

lemma limiter_record_success_rel:
  assumes rel: "limiter_rel limit window P exact h l"
  shows "limiter_rel limit window P exact (h\<lparr>fh_failures := (fh_failures h)(p := [])\<rparr>) (record_success l p)"
proof (rule limiter_rel_upd [OF rel])
  show "limiter_frame l (record_success l p)" by (simp add: limiter_frame_def record_success_def)
  show "wf_dict (lm_failures (record_success l p))"
    using rel by (simp add: record_success_def limiter_rel_def)
  show "dom (map_of (lm_failures (record_success l p))) \<subseteq> P"
    using rel by (auto simp: record_success_def limiter_rel_def delete_conv')
  have "stored (record_success l p) = (stored l)(p := [])"
    by (simp add: stored_def record_success_def delete_conv' fun_eq_iff)
  then show "peer_rel window exact (fh_last (h\<lparr>fh_failures := (fh_failures h)(p := [])\<rparr>))
      (fh_failures (h\<lparr>fh_failures := (fh_failures h)(p := [])\<rparr>) q) (stored (record_success l p) q)" for q
    using limiter_rel_fields(4) [OF rel, of q] by simp
qed

lemma limiter_step_rel:
  assumes "limiter_rel limit window P exact h l" "event_ok P h e"
  shows "limiter_rel limit window P exact (snd (history_step limit window e h)) (snd (limiter_step e l))"
  using assms limiter_is_limited_rel(1) limiter_record_failure_rel limiter_record_success_rel
  by (cases e) (simp_all add: event_ok_def)

interpretation limiter_exact: simulation "history_step limit window" limiter_step "event_ok P"
    "limiter_rel limit window P True" "(=)" for limit window P
proof
  fix h l e
  assume rel: "limiter_rel limit window P True h l" and ok: "event_ok P h e"
  then show "fst (history_step limit window e h) = fst (limiter_step e l)"
    using limiter_is_limited_rel(3) [OF rel] by (cases e) (simp_all add: event_ok_def)
qed (rule limiter_step_rel)

interpretation limiter_sound: simulation "history_step limit window" limiter_step "event_ok UNIV"
    "limiter_rel limit window UNIV False" "\<lambda>abs conc. conc \<longrightarrow> abs" for limit window
proof
  fix h l e
  assume rel: "limiter_rel limit window UNIV False h l" and ok: "event_ok UNIV h e"
  then show "fst (limiter_step e l) \<longrightarrow> fst (history_step limit window e h)"
    using limiter_is_limited_rel(2) [OF rel] by (cases e) (simp_all add: event_ok_def)
qed (rule limiter_step_rel)

lemma limiter_admissible:
  "sorted (fh_last h # concat (map event_times es)) \<Longrightarrow> event_peer ` set es \<subseteq> P \<Longrightarrow>
   admissible (event_ok P) (history_step limit window) es h"
proof (induction es arbitrary: h)
  case (Cons e es)
  have "event_ok P h e" using Cons.prems by (cases e) (auto simp: event_ok_def)
  moreover have "sorted (fh_last (snd (history_step limit window e h)) # concat (map event_times es))"
    using Cons.prems(1) by (cases e) auto
  ultimately show ?case using Cons.IH Cons.prems(2) by simp
qed simp

lemma new_limiter_rel:
  assumes "new_limiter limit window maximum = Inr l" "exact \<Longrightarrow> finite P \<and> int (card P) \<le> maximum"
  shows "limiter_rel limit window P exact (no_history start) l"
  using assms by (auto simp: new_limiter_def limiter_rel_def stored_def no_history_def wf_dict_def split: if_splits)

text \<open>
  C14. Refinement of the throttle. As long as the clock does not run backwards and no more distinct
  peers are seen than the limiter may track, every answer of \<open>is_limited\<close> over any sequence of checks,
  failures and successes is the one of the specification that remembers every failure since the peer's
  last success and counts those younger than the window.
\<close>

theorem limiter_refines_history:
  assumes "new_limiter limit window maximum = Inr l"
    and "sorted (start # concat (map event_times es))"
    and "int (card (event_peer ` set es)) \<le> maximum"
  shows "answers limiter_step es l = answers (history_step limit window) es (no_history start)"
proof -
  let ?P = "event_peer ` set es"
  have "limiter_rel limit window ?P True (no_history start) l"
    using assms(1,3) by (intro new_limiter_rel) auto
  moreover have "admissible (event_ok ?P) (history_step limit window) es (no_history start)"
    using assms(2) by (intro limiter_admissible) (auto simp: no_history_def)
  ultimately show ?thesis using limiter_exact.run_agree by (metis list_all2_eq)
qed

theorem limiter_refines_history_witness:
  "answers limiter_step
     [RecordFailure ''a'' 1, RecordFailure ''a'' 5, IsLimited ''a'' 6, IsLimited ''b'' 6, IsLimited ''a'' 12]
     \<lparr>lm_failure_limit = 2, lm_window_seconds = 10, lm_maximum_tracked_peers = 2, lm_failures = []\<rparr>
   = [False, False, True, False, False]"
  using limiter_refines_history [of 2 10 2 _ 0 "[RecordFailure ''a'' 1, RecordFailure ''a'' 5, IsLimited ''a'' 6,
      IsLimited ''b'' 6, IsLimited ''a'' 12]"]
  by (simp add: new_limiter_def no_history_def failures_in_window_def card_insert_if)

text \<open>Over capacity the limiter only forgets: a refusal is always backed by failures inside the window.\<close>

lemma limiter_refusals_justified:
  assumes "new_limiter limit window maximum = Inr l" "sorted (start # concat (map event_times es))"
  shows "list_all2 (\<lambda>abs conc. conc \<longrightarrow> abs)
    (answers (history_step limit window) es (no_history start)) (answers limiter_step es l)"
  using assms
  by (intro limiter_sound.run_agree new_limiter_rel limiter_admissible) (auto simp: no_history_def)

section \<open>Storage\<close>

lemma keys_card: "wf_dict d \<Longrightarrow> length d = card (dom (map_of d))"
  by (metis keys_of_map wf_dict_def distinct_card length_map set_map)

definition limiter_wf :: "limiter \<Rightarrow> bool" where
  "limiter_wf l \<longleftrightarrow> 1 \<le> lm_failure_limit l \<and> 0 < lm_window_seconds l \<and> 1 \<le> lm_maximum_tracked_peers l \<and>
     wf_dict (lm_failures l)"

lemma is_limited_wf: "limiter_wf l \<Longrightarrow> limiter_wf (snd (is_limited l p t))"
  by (auto simp: limiter_wf_def is_limited_def limiter_frame_def split: prod.split
      dest: active_failures_effect(2,4))

lemma record_failure_wf: "limiter_wf l \<Longrightarrow> limiter_wf (record_failure l p t)"
  using record_failure_effect(1,3) [of l] by (simp add: limiter_wf_def limiter_frame_def)

lemma record_success_wf: "limiter_wf l \<Longrightarrow> limiter_wf (record_success l p)"
  by (simp add: limiter_wf_def record_success_def)

lemma record_failure_bounded:
  "limiter_wf l \<Longrightarrow> int (length (lm_failures (record_failure l p t))) \<le> lm_maximum_tracked_peers l"
  by (simp add: record_failure_def limiter_wf_def length_evict split: prod.split)

text \<open>A peer that is already limited has an entry, so checking it stores nothing new.\<close>

lemma is_limited_length:
  assumes "limiter_wf l" "fst (is_limited l p t)"
  shows "length (lm_failures (snd (is_limited l p t))) = length (lm_failures l)"
proof -
  obtain fs l' where act: "active_failures l p t = (fs, l')" by (cases "active_failures l p t")
  have wf: "wf_dict (lm_failures l)" using assms(1) by (simp add: limiter_wf_def)
  note eff = active_failures_effect [OF wf act]
  have "fs \<noteq> []" using assms by (auto simp: is_limited_def act limiter_wf_def)
  then have "p \<in> dom (map_of (lm_failures l))" by (cases "map_of (lm_failures l) p") (auto simp: eff(1) stored_def)
  then have "dom (map_of (lm_failures l')) = dom (map_of (lm_failures l))" by (auto simp: eff(3))
  then show ?thesis using wf eff(2) by (simp add: is_limited_def act keys_card)
qed

end
