(* ===== verification/Auth_Middleware.thy ===== *)
theory Auth_Middleware
  imports Auth_Session Auth_Limiter
begin

text \<open>
  \<open>core/authentication/middleware.py\<close>: the ASGI middleware in front of every route. A scope carries what the
  code reads of the ASGI dictionary; the answer of a call is the scope handed to the application, the
  messages sent instead, or an exception. The clocks are arguments: \<open>t1\<close> and \<open>t2\<close> the two readings the
  limiter takes, \<open>wall\<close> the UTC time. \<open>load_cookies\<close> stands for \<open>SimpleCookie.load\<close>, None for
  \<open>CookieError\<close>; the theorems hold for every such parser.
\<close>

section \<open>Scopes and messages\<close>

definition OWNER_SESSION_COOKIE :: string where
  "OWNER_SESSION_COOKIE = ''assistantmd_owner_session''"

definition CSRF_HEADER :: string where
  "CSRF_HEADER = ''x-assistantmd-csrf''"

definition MAXIMUM_REQUEST_HEADER_BYTES :: nat where
  "MAXIMUM_REQUEST_HEADER_BYTES = 64 * 1024"

definition SAFE_METHODS :: "string list" where
  "SAFE_METHODS = [''GET'', ''HEAD'', ''OPTIONS'']"

text \<open>
  \<open>sc_headers\<close> is None when the entry is not a list, and an element is None when it is not a pair of byte
  strings; \<open>sc_client\<close> has None for an element that is no string. \<open>sc_state\<close> is the entry
  \<open>authenticated_identity\<close> of the state dictionary, if there is one.
\<close>

record scope =
  sc_type :: "string option"
  sc_method :: "string option"
  sc_path :: "string option"
  sc_headers :: "(string \<times> string) option list option"
  sc_client :: "string option list option"
  sc_state :: "AuthenticatedIdentity option option"

datatype asgi_message =
    WebsocketClose nat string
  | ResponseStart nat "(string \<times> string) list"
  | ResponseBody string

datatype outcome = Forward scope | Reply "asgi_message list" | Raise pyexn

record PublicRoute =
  pr_method :: string
  pr_path :: string

definition new_PublicRoute :: "string \<Rightarrow> string \<Rightarrow> PublicRoute result" where
  "new_PublicRoute method path =
     (if \<not> startswith path ''/'' then Inl (ValueError ''Public route paths must be absolute.'')
      else Inr \<lparr>pr_method = py_upper method, pr_path = path\<rparr>)"

definition DEFAULT_PUBLIC_ROUTES :: "PublicRoute list" where
  "DEFAULT_PUBLIC_ROUTES =
     [\<lparr>pr_method = ''GET'', pr_path = ''/api/health''\<rparr>, \<lparr>pr_method = ''HEAD'', pr_path = ''/api/health''\<rparr>,
      \<lparr>pr_method = ''GET'', pr_path = ''/auth/login''\<rparr>, \<lparr>pr_method = ''POST'', pr_path = ''/auth/session''\<rparr>]"

section \<open>Reading a scope\<close>

text \<open>\<open>bytes.lower\<close> changes ASCII letters only.\<close>

definition bytes_lower :: "string \<Rightarrow> string" where
  "bytes_lower s = map (\<lambda>c. if 65 \<le> (of_char c :: nat) \<and> (of_char c :: nat) \<le> 90 then char_of (of_char c + 32 :: nat) else c) s"

fun matching_headers :: "string \<Rightarrow> (string \<times> string) option list \<Rightarrow> string list option" where
  "matching_headers lower_name [] = Some []"
| "matching_headers lower_name (None # hs) = None"
| "matching_headers lower_name (Some (name, v) # hs) =
     (if bytes_lower name = lower_name then map_option (Cons v) (matching_headers lower_name hs)
      else matching_headers lower_name hs)"

definition header_values :: "scope \<Rightarrow> string \<Rightarrow> string list option" where
  "header_values scope lower_name = Option.bind (sc_headers scope) (matching_headers lower_name)"

definition single_header :: "scope \<Rightarrow> string \<Rightarrow> string option" where
  "single_header scope lower_name = (case header_values scope lower_name of Some [v] \<Rightarrow> Some v | _ \<Rightarrow> None)"

definition cookie_name_count :: "string option \<Rightarrow> string \<Rightarrow> nat" where
  "cookie_name_count cookie_header cookie_name = (case cookie_header of
     None \<Rightarrow> 0
   | Some header \<Rightarrow> length (filter (\<lambda>raw_pair. case str_partition (CHR ''='') (strip raw_pair) of
         (name, separator, _) \<Rightarrow> separator \<noteq> [] \<and> name = cookie_name) (split_char (CHR '';'') header)))"

definition bearer_token :: "scope \<Rightarrow> string option" where
  "bearer_token scope = (case single_header scope ''authorization'' of
     None \<Rightarrow> None
   | Some authorization \<Rightarrow>
       (case str_partition (CHR '' '') authorization of
          (scheme, separator, token) \<Rightarrow>
            if separator \<noteq> '' '' \<or> py_lower scheme \<noteq> ''bearer'' \<or> token = [] \<or> CHR '' '' \<in> set token
            then None else Some token))"

definition peer_host :: "scope \<Rightarrow> string option" where
  "peer_host scope = (case sc_client scope of Some (host # _) \<Rightarrow> host | _ \<Rightarrow> None)"

fun header_bytes_within :: "nat \<Rightarrow> (string \<times> string) option list \<Rightarrow> bool" where
  "header_bytes_within seen [] = True"
| "header_bytes_within seen (None # hs) = False"
| "header_bytes_within seen (Some (name, v) # hs) =
     (let seen' = seen + length name + length v
      in if MAXIMUM_REQUEST_HEADER_BYTES < seen' then False else header_bytes_within seen' hs)"

definition headers_within_limit :: "scope \<Rightarrow> bool" where
  "headers_within_limit scope = (case sc_headers scope of None \<Rightarrow> False | Some hs \<Rightarrow> header_bytes_within 0 hs)"

definition get_authenticated_identity :: "scope \<Rightarrow> AuthenticatedIdentity option" where
  "get_authenticated_identity scope = (case sc_state scope of None \<Rightarrow> None | Some entry \<Rightarrow> entry)"

section \<open>Replies\<close>

definition reject :: "string \<Rightarrow> nat \<Rightarrow> string \<Rightarrow> asgi_message list" where
  "reject scope_type status_code detail =
     (if scope_type = ''websocket'' then [WebsocketClose 4401 detail]
      else
        let body = utf8_encode (json_text True '','' '':'' (JDict [(''detail'', JStr detail)]))
        in [ResponseStart status_code
              ([(''content-type'', ''application/json''), (''content-length'', show_nat (length body)),
                (''cache-control'', ''no-store'')] @
               (if status_code = 429 then [(''retry-after'', ''60'')] else [])),
            ResponseBody body])"

definition redirect_to_login :: "asgi_message list" where
  "redirect_to_login =
     [ResponseStart 303 [(''location'', ''/auth/login''), (''content-length'', ''0''), (''cache-control'', ''no-store'')],
      ResponseBody []]"

section \<open>The middleware\<close>

record middleware =
  mw_policy :: AuthenticationPolicy
  mw_failure_limiter :: limiter
  mw_public_routes :: "PublicRoute list"
  mw_session_codec :: "OwnerSessionCodec option"

definition new_middleware :: "AuthenticationPolicy \<Rightarrow> limiter \<Rightarrow> PublicRoute list \<Rightarrow> middleware result" where
  "new_middleware policy failure_limiter public_routes =
     rbind (if ap_mode policy = OWNER_TOKEN
            then rbind (new_OwnerSessionCodec policy (int DEFAULT_SESSION_LIFETIME)) (\<lambda>codec. Inr (Some codec))
            else Inr None) (\<lambda>codec.
       Inr \<lparr>mw_policy = policy, mw_failure_limiter = failure_limiter, mw_public_routes = public_routes,
            mw_session_codec = codec\<rparr>)"

text \<open>\<open>verify\<close> reads the clock itself here, and then raises no other exception than the one that is caught.\<close>

definition owner_session :: "(string \<Rightarrow> (string, string) dict option) \<Rightarrow> middleware \<Rightarrow> datetime \<Rightarrow> scope \<Rightarrow> VerifiedOwnerSession option" where
  "owner_session load_cookies mw wall scope =
     (case mw_session_codec mw of
        None \<Rightarrow> None
      | Some codec \<Rightarrow>
          (case single_header scope ''cookie'' of
             None \<Rightarrow> None
           | Some cookie_header \<Rightarrow>
               if cookie_name_count (Some cookie_header) OWNER_SESSION_COOKIE \<noteq> 1 then None
               else (case load_cookies cookie_header of
                       None \<Rightarrow> None
                     | Some cookies \<Rightarrow>
                         (case map_of cookies OWNER_SESSION_COOKIE of
                            None \<Rightarrow> None
                          | Some v \<Rightarrow> (case verify codec wall None (Some v) of Inl e \<Rightarrow> None | Inr session \<Rightarrow> Some session)))))"

definition verify_csrf_header :: "middleware \<Rightarrow> scope \<Rightarrow> VerifiedOwnerSession \<Rightarrow> bool" where
  "verify_csrf_header mw scope session =
     (case mw_session_codec mw of
        None \<Rightarrow> False
      | Some codec \<Rightarrow> (case verify_csrf session (single_header scope CSRF_HEADER) of Inl e \<Rightarrow> False | Inr _ \<Rightarrow> True))"

definition authenticate ::
  "(string \<Rightarrow> (string, string) dict option) \<Rightarrow> middleware \<Rightarrow> datetime \<Rightarrow> scope \<Rightarrow> (AuthenticatedIdentity \<times> VerifiedOwnerSession option) option" where
  "authenticate load_cookies mw wall scope =
     (let policy = mw_policy mw
      in case ap_mode policy of
           DISABLED \<Rightarrow> map_option (\<lambda>i. (i, None)) (authenticate_disabled policy)
         | LOOPBACK \<Rightarrow> map_option (\<lambda>i. (i, None)) (authenticate_loopback policy (peer_host scope))
         | TRUSTED_PROXY \<Rightarrow>
             map_option (\<lambda>i. (i, None)) (authenticate_proxy policy
               (single_header scope (py_lower (ap_proxy_assertion_header policy))) (peer_host scope))
         | OWNER_TOKEN \<Rightarrow>
             (case header_values scope ''authorization'' of
                Some (h # hs) \<Rightarrow>
                  if hs \<noteq> [] \<or> 0 < cookie_name_count (single_header scope ''cookie'') OWNER_SESSION_COOKIE then None
                  else map_option (\<lambda>i. (i, None)) (authenticate_owner_bearer policy (bearer_token scope))
              | _ \<Rightarrow> map_option (\<lambda>session. (vo_identity session, Some session)) (owner_session load_cookies mw wall scope)))"

abbreviation with_limiter :: "middleware \<Rightarrow> limiter \<Rightarrow> middleware" where
  "with_limiter mw l \<equiv> mw\<lparr>mw_failure_limiter := l\<rparr>"

text \<open>What follows the exemptions: the throttle, the admission and the CSRF proof.\<close>

definition admit ::
  "(string \<Rightarrow> (string, string) dict option) \<Rightarrow> middleware \<Rightarrow> rat \<Rightarrow> rat \<Rightarrow> datetime \<Rightarrow> scope \<Rightarrow>
     string \<Rightarrow> string \<Rightarrow> string \<Rightarrow> outcome \<times> middleware" where
  "admit load_cookies mw t1 t2 wall scope scope_type method path =
     (let peer_key = (case peer_host scope of None \<Rightarrow> ''unknown'' | Some h \<Rightarrow> if h = [] then ''unknown'' else h);
          (limited, l1) = is_limited (mw_failure_limiter mw) peer_key t1
      in if limited
         then (Reply (reject scope_type 429 ''Too many authentication failures.''), with_limiter mw l1)
         else case authenticate load_cookies mw wall scope of
                None \<Rightarrow>
                  (Reply (if scope_type = ''http'' \<and> method = ''GET'' \<and> path = ''/'' \<and> ap_mode (mw_policy mw) = OWNER_TOKEN
                          then redirect_to_login
                          else reject scope_type 401 ''Authentication required.''),
                   with_limiter mw (record_failure l1 peer_key t2))
              | Some (identity, session) \<Rightarrow>
                  let mw' = with_limiter mw (record_success l1 peer_key)
                  in if scope_type = ''http'' \<and> method \<notin> set SAFE_METHODS \<and> ai_mechanism identity = OWNER_SESSION \<and>
                        (case session of None \<Rightarrow> True | Some s \<Rightarrow> \<not> verify_csrf_header mw scope s)
                     then (Reply (reject scope_type 403 ''CSRF verification failed.''), mw')
                     else (Forward (scope\<lparr>sc_state := Some (Some identity)\<rparr>), mw'))"

definition request_method :: "scope \<Rightarrow> string" where
  "request_method scope = py_upper (case sc_method scope of None \<Rightarrow> ''GET'' | Some m \<Rightarrow> if m = [] then ''GET'' else m)"

definition request_path :: "scope \<Rightarrow> string" where
  "request_path scope = (case sc_path scope of None \<Rightarrow> [] | Some p \<Rightarrow> p)"

definition mw_call ::
  "(string \<Rightarrow> (string, string) dict option) \<Rightarrow> middleware \<Rightarrow> rat \<Rightarrow> rat \<Rightarrow> datetime \<Rightarrow> scope \<Rightarrow> outcome \<times> middleware" where
  "mw_call load_cookies mw t1 t2 wall scope =
     (case sc_type scope of
        None \<Rightarrow> (Forward scope, mw)
      | Some scope_type \<Rightarrow>
          if scope_type \<notin> {''http'', ''websocket''} then (Forward scope, mw)
          else
            let method = request_method scope; path = request_path scope
            in if \<not> headers_within_limit scope
               then (Reply (reject scope_type 431 ''Request headers are too large.''), mw)
               else if scope_type = ''http''
               then (case new_PublicRoute method path of
                       Inl e \<Rightarrow> (Raise e, mw)
                     | Inr route \<Rightarrow>
                         if route \<in> set (mw_public_routes mw) then (Forward scope, mw)
                         else admit load_cookies mw t1 t2 wall scope scope_type method path)
               else admit load_cookies mw t1 t2 wall scope scope_type method path)"

section \<open>Admission needs evidence\<close>

text \<open>
  What a forwarded request of each mechanism must have shown, in terms of the secret, the headers
  and the immediate peer alone.
\<close>

definition session_purpose :: string where
  "session_purpose = ''assistantmd-owner-session-v1''"

definition session_evidence ::
  "(string \<Rightarrow> (string, string) dict option) \<Rightarrow> string \<Rightarrow> datetime \<Rightarrow> scope \<Rightarrow> bool" where
  "session_evidence load_cookies secret wall scope \<longleftrightarrow>
     (\<exists>cookie_header cookies cookie issued_at expires_at digest.
        header_values scope ''cookie'' = Some [cookie_header] \<and> load_cookies cookie_header = Some cookies \<and>
        map_of cookies OWNER_SESSION_COOKIE = Some cookie \<and>
        signed_session (hmac_sha256 secret session_purpose) cookie issued_at expires_at digest \<and>
        issued_at \<le> wall \<and> wall < expires_at \<and>
        (sc_type scope = Some ''http'' \<and> request_method scope \<notin> {''GET'', ''HEAD'', ''OPTIONS''} \<longrightarrow>
          (\<exists>token. header_values scope CSRF_HEADER = Some [token] \<and> sha256 (utf8_encode token) = digest)))"

definition peer_address :: "scope \<Rightarrow> ip_address \<Rightarrow> bool" where
  "peer_address scope a \<longleftrightarrow> (\<exists>host. peer_host scope = Some host \<and> parse_ip_string host = Some a)"

fun admission_evidence ::
  "(string \<Rightarrow> (string, string) dict option) \<Rightarrow> AuthenticationPolicy \<Rightarrow> datetime \<Rightarrow> scope \<Rightarrow> AuthenticationMechanism \<Rightarrow> bool" where
  "admission_evidence load_cookies policy wall scope BY_DISABLED = (ap_mode policy = DISABLED)"
| "admission_evidence load_cookies policy wall scope BY_LOOPBACK =
     (ap_mode policy = LOOPBACK \<and> (peer_address scope (IPv4Address 2130706433) \<or> peer_address scope (IPv6Address 1 None)))"
| "admission_evidence load_cookies policy wall scope BY_TRUSTED_PROXY =
     (ap_mode policy = TRUSTED_PROXY \<and>
      (\<exists>secret. ap_secret policy = Some secret \<and>
         header_values scope (py_lower (ap_proxy_assertion_header policy)) = Some [secret]) \<and>
      (ap_trusted_proxy_networks policy = [] \<or>
         (\<exists>a net. peer_address scope a \<and> net \<in> set (ap_trusted_proxy_networks policy) \<and> in_network a net)))"
| "admission_evidence load_cookies policy wall scope OWNER_BEARER =
     (ap_mode policy = OWNER_TOKEN \<and>
      (\<exists>secret scheme. ap_secret policy = Some secret \<and>
         header_values scope ''authorization'' = Some [scheme @ '' '' @ secret] \<and> py_lower scheme = ''bearer''))"
| "admission_evidence load_cookies policy wall scope OWNER_SESSION =
     (ap_mode policy = OWNER_TOKEN \<and>
      (\<exists>secret. ap_secret policy = Some secret \<and> session_evidence load_cookies secret wall scope))"

lemma single_header_values: "single_header scope name = Some v \<longleftrightarrow> header_values scope name = Some [v]"
  by (auto simp: single_header_def split: option.splits list.splits)

lemma policy_secret_matchesD:
  "policy_secret_matches policy (Some c) \<Longrightarrow> ap_secret policy = Some c"
  "policy_secret_matches policy None \<Longrightarrow> False"
  by (auto simp: policy_secret_matches_def secret_matches_def candidate_bytes_def split: option.splits if_splits)

lemma str_partition_sep: "str_partition c s = (a, [c], b) \<Longrightarrow> s = a @ c # b"
  by (auto simp: str_partition_def split: if_splits)
    (metis (mono_tags, lifting) dropWhile_eq_Nil_conv hd_Cons_tl hd_dropWhile takeWhile_dropWhile_id)

lemma bearer_token_header:
  "bearer_token scope = Some token \<Longrightarrow>
     \<exists>scheme. header_values scope ''authorization'' = Some [scheme @ '' '' @ token] \<and> py_lower scheme = ''bearer''"
  by (auto simp: bearer_token_def single_header_values split: option.splits prod.splits if_splits dest!: str_partition_sep)

lemma loopback_evidence:
  "authenticate_loopback policy (peer_host scope) = Some identity \<Longrightarrow>
     identity = local_user_identity BY_LOOPBACK \<and> admission_evidence load policy wall scope BY_LOOPBACK"
  by (auto simp: authenticate_loopback_def parse_ip_address_def peer_address_def EXACT_LOOPBACK_ADDRESSES_def
      split: if_splits option.splits)

lemma proxy_evidence:
  assumes "authenticate_proxy policy (single_header scope (py_lower (ap_proxy_assertion_header policy))) (peer_host scope) = Some identity"
  shows "identity = local_user_identity BY_TRUSTED_PROXY \<and> admission_evidence load policy wall scope BY_TRUSTED_PROXY"
proof -
  from assms have parts: "ap_mode policy = TRUSTED_PROXY" "peer_is_trusted_proxy policy (peer_host scope)"
      "policy_secret_matches policy (single_header scope (py_lower (ap_proxy_assertion_header policy)))"
      "identity = local_user_identity BY_TRUSTED_PROXY"
    by (auto simp: authenticate_proxy_def split: if_splits)
  from parts(3) obtain secret where "ap_secret policy = Some secret"
      "header_values scope (py_lower (ap_proxy_assertion_header policy)) = Some [secret]"
    by (cases "single_header scope (py_lower (ap_proxy_assertion_header policy))")
      (auto simp: single_header_values dest: policy_secret_matchesD)
  moreover from parts(2) have "ap_trusted_proxy_networks policy = [] \<or>
      (\<exists>a net. peer_address scope a \<and> net \<in> set (ap_trusted_proxy_networks policy) \<and> in_network a net)"
    by (auto simp: peer_is_trusted_proxy_def parse_ip_address_def peer_address_def list_ex_iff split: if_splits option.splits)
  ultimately show ?thesis using parts(1,4) by auto
qed

lemma bearer_evidence:
  assumes "authenticate_owner_bearer policy (bearer_token scope) = Some identity"
  shows "identity = local_user_identity OWNER_BEARER \<and> admission_evidence load policy wall scope OWNER_BEARER"
proof -
  from assms have parts: "ap_mode policy = OWNER_TOKEN" "policy_secret_matches policy (bearer_token scope)"
      "identity = local_user_identity OWNER_BEARER"
    by (auto simp: authenticate_owner_bearer_def split: if_splits)
  then obtain token where token: "bearer_token scope = Some token" "ap_secret policy = Some token"
    by (cases "bearer_token scope") (auto dest: policy_secret_matchesD)
  then show ?thesis using parts bearer_token_header [OF token(1)] by auto
qed

definition middleware_ok :: "middleware \<Rightarrow> bool" where
  "middleware_ok mw \<longleftrightarrow> (\<forall>codec. mw_session_codec mw = Some codec \<longrightarrow> ap_mode (mw_policy mw) = OWNER_TOKEN \<and>
     (\<exists>secret. ap_secret (mw_policy mw) = Some secret \<and> oc_signing_key codec = hmac_sha256 secret session_purpose))"

lemma new_middleware_ok: "new_middleware policy l routes = Inr mw \<Longrightarrow> middleware_ok mw \<and> mw_policy mw = policy \<and> mw_public_routes mw = routes"
  by (auto simp: new_middleware_def new_OwnerSessionCodec_def derive_session_key_def derive_key_def
      middleware_ok_def session_purpose_def split: if_splits option.splits)

lemma owner_session_sound:
  assumes "middleware_ok mw" "owner_session load mw wall scope = Some session"
  obtains secret cookie_header cookies cookie where
    "ap_mode (mw_policy mw) = OWNER_TOKEN" "ap_secret (mw_policy mw) = Some secret"
    "header_values scope ''cookie'' = Some [cookie_header]" "load cookie_header = Some cookies"
    "map_of cookies OWNER_SESSION_COOKIE = Some cookie"
    "signed_session (hmac_sha256 secret session_purpose) cookie (vo_issued_at session) (vo_expires_at session) (vo_csrf_digest session)"
    "vo_issued_at session \<le> wall" "wall < vo_expires_at session"
    "vo_identity session = local_user_identity OWNER_SESSION"
proof -
  from assms(2) obtain codec header cookies cookie where
    c: "mw_session_codec mw = Some codec" "header_values scope ''cookie'' = Some [header]" "load header = Some cookies"
      "map_of cookies OWNER_SESSION_COOKIE = Some cookie" "verify codec wall None (Some cookie) = Inr session"
    by (auto simp: owner_session_def single_header_values split: option.splits if_splits sum.splits)
  from assms(1) c(1) obtain secret where "ap_mode (mw_policy mw) = OWNER_TOKEN" "ap_secret (mw_policy mw) = Some secret"
      "oc_signing_key codec = hmac_sha256 secret session_purpose"
    by (auto simp: middleware_ok_def)
  with that c(2-4) verify_sound [OF c(5)] show thesis by (auto simp: utc_datetime_def)
qed

lemma csrf_header_sound:
  "verify_csrf_header mw scope session \<Longrightarrow>
     \<exists>token. header_values scope CSRF_HEADER = Some [token] \<and> sha256 (utf8_encode token) = vo_csrf_digest session"
  by (auto simp: verify_csrf_header_def verify_csrf_def csrf_digest_def single_header_values
      split: option.splits sum.splits if_splits)

lemma authenticate_sound:
  assumes "middleware_ok mw" "authenticate load mw wall scope = Some (identity, session)"
  shows "(\<exists>mechanism. identity = local_user_identity mechanism \<and> admission_evidence load (mw_policy mw) wall scope mechanism) \<or>
    (\<exists>s. session = Some s \<and> owner_session load mw wall scope = Some s \<and> identity = vo_identity s)"
proof (cases "ap_mode (mw_policy mw)")
  case DISABLED
  then show ?thesis using assms(2) by (auto simp: authenticate_def authenticate_disabled_def intro: exI [of _ BY_DISABLED])
next
  case LOOPBACK
  then have "authenticate_loopback (mw_policy mw) (peer_host scope) = Some identity"
    using assms(2) by (auto simp: authenticate_def)
  from loopback_evidence [OF this] show ?thesis by blast
next
  case TRUSTED_PROXY
  then have "authenticate_proxy (mw_policy mw)
      (single_header scope (py_lower (ap_proxy_assertion_header (mw_policy mw)))) (peer_host scope) = Some identity"
    using assms(2) by (auto simp: authenticate_def Let_def)
  from proxy_evidence [OF this] show ?thesis by blast
next
  case OWNER_TOKEN
  then consider "authenticate_owner_bearer (mw_policy mw) (bearer_token scope) = Some identity"
    | s where "session = Some s" "owner_session load mw wall scope = Some s" "identity = vo_identity s"
    using assms(2) by (auto simp: authenticate_def split: option.splits list.splits if_splits)
  then show ?thesis using bearer_evidence by cases blast+
qed

lemma owner_session_evidence:
  assumes "middleware_ok mw" "owner_session load mw wall scope = Some session"
    and "sc_type scope = Some ''http'' \<and> request_method scope \<notin> set SAFE_METHODS \<longrightarrow> verify_csrf_header mw scope session"
  shows "vo_identity session = local_user_identity OWNER_SESSION \<and> admission_evidence load (mw_policy mw) wall scope OWNER_SESSION"
proof -
  have "sc_type scope = Some ''http'' \<and> request_method scope \<notin> {''GET'', ''HEAD'', ''OPTIONS''} \<longrightarrow>
      (\<exists>token. header_values scope CSRF_HEADER = Some [token] \<and> sha256 (utf8_encode token) = vo_csrf_digest session)"
    using assms(3) csrf_header_sound by (simp add: SAFE_METHODS_def) blast
  then show ?thesis
    by (rule_tac owner_session_sound [OF assms(1,2)]) (simp add: session_evidence_def, blast)
qed

lemma admit_sound:
  assumes "middleware_ok mw" "sc_type scope = Some scope_type"
    and "admit load mw t1 t2 wall scope scope_type (request_method scope) path = (Forward scope', mw')"
  shows "\<exists>mechanism. get_authenticated_identity scope' = Some (local_user_identity mechanism) \<and>
    admission_evidence load (mw_policy mw) wall scope mechanism"
proof -
  from assms(3) obtain identity session where auth: "authenticate load mw wall scope = Some (identity, session)"
    and fwd: "scope' = scope\<lparr>sc_state := Some (Some identity)\<rparr>"
    and csrf: "scope_type = ''http'' \<and> request_method scope \<notin> set SAFE_METHODS \<and> ai_mechanism identity = OWNER_SESSION \<longrightarrow>
      (\<exists>s. session = Some s \<and> verify_csrf_header mw scope s)"
    unfolding admit_def by (auto simp: Let_def split: prod.splits if_splits option.splits)
  have got: "get_authenticated_identity scope' = Some identity" by (simp add: fwd get_authenticated_identity_def)
  from authenticate_sound [OF assms(1) auth] show ?thesis
  proof
    assume "\<exists>s. session = Some s \<and> owner_session load mw wall scope = Some s \<and> identity = vo_identity s"
    then obtain s where s: "session = Some s" "owner_session load mw wall scope = Some s" "identity = vo_identity s" by blast
    have "ai_mechanism identity = OWNER_SESSION"
      by (rule owner_session_sound [OF assms(1) s(2)]) (simp add: s(3) local_user_identity_def)
    with csrf s(1) assms(2) have "sc_type scope = Some ''http'' \<and> request_method scope \<notin> set SAFE_METHODS \<longrightarrow> verify_csrf_header mw scope s"
      by simp
    from owner_session_evidence [OF assms(1) s(2) this] got s(3) show ?thesis by metis
  qed (use got in auto)
qed

text \<open>
  C6. Ingress fails closed. Whatever the state of the throttle, a request or websocket that the middleware hands to
  the application, other than a public route, carries the local user's identity and has shown the evidence its
  mechanism demands: nothing only in disabled mode; an immediate peer that is 127.0.0.1 or ::1; the secret in a
  single assertion header from a peer in the trusted networks; the secret as a single bearer token; or
  an unexpired session cookie whose claims carry a valid HMAC under the key derived from the secret, with, for
  an unsafe method, the CSRF token whose digest the claims hold.
\<close>

theorem ingress_fails_closed:
  assumes "new_middleware policy failure_limiter routes = Inr mw"
    and "mw_call load_cookies (mw\<lparr>mw_failure_limiter := l\<rparr>) t1 t2 wall scope = (Forward scope', mw')"
    and "sc_type scope = Some scope_type" "scope_type \<in> {''http'', ''websocket''}"
    and "scope_type = ''http'' \<Longrightarrow> new_PublicRoute (request_method scope) (request_path scope) \<notin> Inr ` set routes"
  shows "\<exists>mechanism. get_authenticated_identity scope' = Some (local_user_identity mechanism) \<and>
    admission_evidence load_cookies policy wall scope mechanism"
proof -
  let ?mw = "mw\<lparr>mw_failure_limiter := l\<rparr>"
  have ok: "middleware_ok ?mw" and policy: "mw_policy ?mw = policy" and routes: "mw_public_routes mw = routes"
    using new_middleware_ok [OF assms(1)] by (auto simp: middleware_ok_def)
  have "admit load_cookies ?mw t1 t2 wall scope scope_type (request_method scope) (request_path scope) = (Forward scope', mw')"
    using assms(2-5) routes unfolding mw_call_def by (auto simp: Let_def split: if_splits sum.splits)
  from admit_sound [OF ok assms(3) this] show ?thesis by (simp only: policy)
qed

theorem ingress_fails_closed_witness:
  "\<exists>mw scope' mw' mechanism.
     new_middleware \<lparr>ap_mode = LOOPBACK, ap_secret = None, ap_proxy_assertion_header = DEFAULT_PROXY_ASSERTION_HEADER,
         ap_trusted_proxy_networks = []\<rparr>
       \<lparr>lm_failure_limit = 10, lm_window_seconds = 60, lm_maximum_tracked_peers = 4096, lm_failures = []\<rparr>
       DEFAULT_PUBLIC_ROUTES = Inr mw \<and>
     mw_call Map.empty mw 0 0 0 \<lparr>sc_type = Some ''http'', sc_method = Some ''post'', sc_path = Some ''/api/x'',
       sc_headers = Some [Some (''Host'', ''localhost'')], sc_client = Some [Some ''127.0.0.1'', None], sc_state = None\<rparr> =
       (Forward scope', mw') \<and>
     get_authenticated_identity scope' = Some (local_user_identity mechanism) \<and>
     admission_evidence Map.empty (mw_policy mw) 0 \<lparr>sc_type = Some ''http'', sc_method = Some ''post'', sc_path = Some ''/api/x'',
       sc_headers = Some [Some (''Host'', ''localhost'')], sc_client = Some [Some ''127.0.0.1'', None], sc_state = None\<rparr> mechanism"
proof -
  let ?policy = "\<lparr>ap_mode = LOOPBACK, ap_secret = None, ap_proxy_assertion_header = DEFAULT_PROXY_ASSERTION_HEADER,
      ap_trusted_proxy_networks = []\<rparr>"
  let ?l = "\<lparr>lm_failure_limit = 10, lm_window_seconds = 60, lm_maximum_tracked_peers = 4096, lm_failures = []\<rparr> :: limiter"
  let ?mw = "\<lparr>mw_policy = ?policy, mw_failure_limiter = ?l, mw_public_routes = DEFAULT_PUBLIC_ROUTES, mw_session_codec = None\<rparr>"
  let ?scope = "\<lparr>sc_type = Some ''http'', sc_method = Some ''post'', sc_path = Some ''/api/x'',
      sc_headers = Some [Some (''Host'', ''localhost'')], sc_client = Some [Some ''127.0.0.1'', None], sc_state = None\<rparr>"
  have new: "new_middleware ?policy ?l DEFAULT_PUBLIC_ROUTES = Inr ?mw" by (simp add: new_middleware_def)
  have public: "new_PublicRoute (request_method ?scope) (request_path ?scope) \<notin> Inr ` set DEFAULT_PUBLIC_ROUTES"
    by code_simp
  have "fst (admit Map.empty ?mw 0 0 0 ?scope ''http'' (request_method ?scope) (request_path ?scope)) =
      Forward (?scope\<lparr>sc_state := Some (Some (local_user_identity BY_LOOPBACK))\<rparr>)"
    by code_simp
  then obtain scope' mw' where "admit Map.empty ?mw 0 0 0 ?scope ''http'' (request_method ?scope) (request_path ?scope) = (Forward scope', mw')"
    by (metis prod.collapse)
  moreover have "headers_within_limit ?scope" by (simp add: headers_within_limit_def MAXIMUM_REQUEST_HEADER_BYTES_def)
  moreover have "\<exists>route. new_PublicRoute (request_method ?scope) (request_path ?scope) = Inr route"
    by (simp add: new_PublicRoute_def request_path_def startswith_def)
  ultimately have call: "mw_call Map.empty ?mw 0 0 0 ?scope = (Forward scope', mw')"
    using public by (auto simp: mw_call_def Let_def)
  have "mw_call Map.empty (?mw\<lparr>mw_failure_limiter := ?l\<rparr>) 0 0 0 ?scope = (Forward scope', mw')" using call by simp
  from ingress_fails_closed [OF new this _ _ public] new call show ?thesis by auto
qed

section \<open>The throttle of the middleware stays bounded\<close>

definition limiter_bounded :: "limiter \<Rightarrow> bool" where
  "limiter_bounded l \<longleftrightarrow> limiter_wf l \<and> int (length (lm_failures l)) \<le> lm_maximum_tracked_peers l"

lemma is_limited_frame: "limiter_wf l \<Longrightarrow> limiter_frame l (snd (is_limited l p t))"
  by (auto simp: is_limited_def limiter_wf_def split: prod.split dest: active_failures_effect(4))

text \<open>
  A check leaves an entry behind; the failure recorded next evicts, the success recorded next removes it, and a
  refused peer had its entry before.
\<close>

lemma is_limited_record_success:
  assumes "limiter_wf l"
  shows "length (lm_failures (record_success (snd (is_limited l p t)) p)) \<le> length (lm_failures l)"
proof -
  obtain fs l' where act: "active_failures l p t = (fs, l')" by (cases "active_failures l p t")
  have wf: "wf_dict (lm_failures l)" using assms by (simp add: limiter_wf_def)
  note eff = active_failures_effect [OF wf act]
  have "dom (map_of (AList.delete p (lm_failures l'))) \<subseteq> dom (map_of (lm_failures l))"
    by (auto simp: delete_conv' eff(3))
  then have "card (dom (map_of (AList.delete p (lm_failures l')))) \<le> card (dom (map_of (lm_failures l)))"
    by (intro card_mono) (simp_all add: finite_dom_map_of)
  then show ?thesis using wf eff(2) by (simp add: is_limited_def act record_success_def keys_card)
qed

lemma admit_bounded:
  assumes "limiter_bounded (mw_failure_limiter mw)"
  shows "limiter_bounded (mw_failure_limiter (snd (admit load mw t1 t2 wall scope ty method path)))"
proof -
  let ?l = "mw_failure_limiter mw"
  have l: "limiter_wf ?l" "int (length (lm_failures ?l)) \<le> lm_maximum_tracked_peers ?l"
    using assms by (simp_all add: limiter_bounded_def)
  obtain p where p: "p = (case peer_host scope of None \<Rightarrow> ''unknown'' | Some h \<Rightarrow> if h = [] then ''unknown'' else h)" by simp
  let ?l1 = "snd (is_limited ?l p t1)"
  have l1: "limiter_wf ?l1" "lm_maximum_tracked_peers ?l1 = lm_maximum_tracked_peers ?l"
    using is_limited_wf is_limited_frame l(1) by (auto simp: limiter_frame_def)
  have refused: "limiter_bounded ?l1" if "fst (is_limited ?l p t1)"
    using is_limited_length [OF l(1) that] l1 l(2) by (simp add: limiter_bounded_def)
  have failed: "limiter_bounded (record_failure ?l1 p t2)"
    using record_failure_wf [OF l1(1)] record_failure_bounded [OF l1(1)] record_failure_effect(3) [of ?l1 p t2] l1
    by (auto simp: limiter_bounded_def limiter_wf_def limiter_frame_def)
  have passed: "limiter_bounded (record_success ?l1 p)"
    using record_success_wf [OF l1(1)] is_limited_record_success [OF l(1), of p t1] l1(2) l(2)
    by (simp add: limiter_bounded_def record_success_def)
  obtain limited l1 where eq: "is_limited ?l p t1 = (limited, l1)" by (cases "is_limited ?l p t1")
  from refused failed passed have
    "limited \<Longrightarrow> limiter_bounded l1" "limiter_bounded (record_failure l1 p t2)" "limiter_bounded (record_success l1 p)"
    by (simp_all add: eq)
  then show ?thesis unfolding admit_def p [symmetric] Let_def eq prod.case
    by (cases limited; cases "authenticate load mw wall scope") (simp_all add: case_prod_beta)
qed

lemma mw_call_bounded:
  "limiter_bounded (mw_failure_limiter mw) \<Longrightarrow>
   limiter_bounded (mw_failure_limiter (snd (mw_call load mw t1 t2 wall scope)))"
  by (simp add: mw_call_def Let_def admit_bounded split: option.split sum.split)

end
