(* ===== verification/Ingestion_Jobs.thy ===== *)
theory Ingestion_Jobs
  imports Base64 Py_Float Py_Datetime Simulation
begin

text \<open>
  \<open>core/ingestion/jobs.py\<close>, the durable queue of import jobs, with the worker of \<open>core/ingestion/worker.py\<close> that
  claims from it and the pages of \<open>api/services/ingestion.py\<close> that list it. The table is the list of its rows in
  insertion order with SQLite's AUTOINCREMENT counter. Every operation takes the database error
  \<open>fault\<close> that the session may raise, which rolls the transaction back.
\<close>

section \<open>The table\<close>

datatype JobStatus = QUEUED | PROCESSING | COMPLETED | FAILED | CANCELLED

fun job_status_value :: "JobStatus \<Rightarrow> string" where
  "job_status_value QUEUED = ''queued''"
| "job_status_value PROCESSING = ''processing''"
| "job_status_value COMPLETED = ''completed''"
| "job_status_value FAILED = ''failed''"
| "job_status_value CANCELLED = ''cancelled''"

record IngestionJob =
  ij_id :: int
  ij_source_uri :: string
  ij_vault :: "string option"
  ij_source_type :: string
  ij_mime_hint :: "string option"
  ij_options :: "(string, json) dict"
  ij_status :: JobStatus
  ij_error :: "string option"
  ij_outputs :: "string list option"
  ij_selected_strategy :: "string option"
  ij_selected_provider :: "string option"
  ij_selected_model :: "string option"
  ij_strategy_attempts :: "string list option"
  ij_fallback_reason :: "string option"
  ij_created_at :: datetime
  ij_updated_at :: datetime

record IngestionJobCreate =
  ic_source_uri :: string
  ic_vault :: string
  ic_source_type :: string
  ic_mime_hint :: "string option"
  ic_options :: "(string, json) dict option"

record jobs_db =
  jd_rows :: "IngestionJob list"
  jd_sequence :: nat

definition empty_jobs_db :: jobs_db where
  "empty_jobs_db = \<lparr>jd_rows = [], jd_sequence = 0\<rparr>"

definition find_job :: "int \<Rightarrow> jobs_db \<Rightarrow> IngestionJob option" where
  "find_job job_id db = find (\<lambda>r. ij_id r = job_id) (jd_rows db)"

definition update_rows :: "(IngestionJob \<Rightarrow> bool) \<Rightarrow> (IngestionJob \<Rightarrow> IngestionJob) \<Rightarrow> jobs_db \<Rightarrow> jobs_db" where
  "update_rows P f db = db\<lparr>jd_rows := map (\<lambda>r. if P r then f r else r) (jd_rows db)\<rparr>"

text \<open>A flushed object writes its row, with \<open>onupdate\<close> of \<open>updated_at\<close>, only when a column changed.\<close>

definition flush_changes :: "datetime \<Rightarrow> (IngestionJob \<Rightarrow> IngestionJob) \<Rightarrow> IngestionJob \<Rightarrow> IngestionJob" where
  "flush_changes now f r = (if f r = r then r else (f r)\<lparr>ij_updated_at := now\<rparr>)"

definition job_not_found :: "int \<Rightarrow> pyexn" where
  "job_not_found job_id = ValueError (''Job '' @ show_int job_id @ '' not found'')"

text \<open>The shape of the operations that load one job, change it and commit.\<close>

definition change_job ::
  "string \<Rightarrow> string option \<Rightarrow> datetime \<Rightarrow> int \<Rightarrow> (IngestionJob \<Rightarrow> IngestionJob) \<Rightarrow> jobs_db \<Rightarrow> unit result \<times> jobs_db" where
  "change_job failure fault now job_id f db =
     (case fault of
        Some exc \<Rightarrow> (Inl (RuntimeError (failure @ show_int job_id @ '': '' @ exc)), db)
      | None \<Rightarrow>
          (case find_job job_id db of
             None \<Rightarrow> (Inl (job_not_found job_id), db)
           | Some job \<Rightarrow> (Inr (), update_rows (\<lambda>r. ij_id r = job_id) (flush_changes now f) db)))"

section \<open>Operations\<close>

definition new_job :: "IngestionJobCreate \<Rightarrow> int \<Rightarrow> datetime \<times> datetime \<Rightarrow> IngestionJob" where
  "new_job request job_id clock =
     \<lparr>ij_id = job_id, ij_source_uri = ic_source_uri request, ij_vault = Some (ic_vault request),
      ij_source_type = ic_source_type request, ij_mime_hint = ic_mime_hint request,
      ij_options = (case ic_options request of None \<Rightarrow> [] | Some d \<Rightarrow> d), ij_status = QUEUED,
      ij_error = None, ij_outputs = None, ij_selected_strategy = None, ij_selected_provider = None,
      ij_selected_model = None, ij_strategy_attempts = None, ij_fallback_reason = None,
      ij_created_at = fst clock, ij_updated_at = snd clock\<rparr>"

text \<open>\<open>clock i\<close> gives the two readings of the column defaults for the row at position \<open>i\<close>.\<close>

definition create_jobs ::
  "string option \<Rightarrow> (nat \<Rightarrow> datetime \<times> datetime) \<Rightarrow> IngestionJobCreate list \<Rightarrow> jobs_db \<Rightarrow> IngestionJob list result \<times> jobs_db" where
  "create_jobs fault clock requests db =
     (if requests = [] then (Inr [], db)
      else case fault of
             Some exc \<Rightarrow> (Inl (RuntimeError (''Failed to create ingestion job batch: '' @ exc)), db)
           | None \<Rightarrow>
               let jobs = map (\<lambda>(i, request). new_job request (int (jd_sequence db + Suc i)) (clock i)) (enumerate 0 requests)
               in (Inr jobs, \<lparr>jd_rows = jd_rows db @ jobs, jd_sequence = jd_sequence db + length requests\<rparr>))"

definition create_job ::
  "string option \<Rightarrow> (nat \<Rightarrow> datetime \<times> datetime) \<Rightarrow> string \<Rightarrow> string \<Rightarrow> string \<Rightarrow> string option \<Rightarrow>
     (string, json) dict option \<Rightarrow> jobs_db \<Rightarrow> IngestionJob result \<times> jobs_db" where
  "create_job fault clock source_uri vault source_type mime_hint options db =
     (case create_jobs fault clock [\<lparr>ic_source_uri = source_uri, ic_vault = vault, ic_source_type = source_type,
         ic_mime_hint = mime_hint, ic_options = options\<rparr>] db of
        (r, db') \<Rightarrow> (rbind r (\<lambda>jobs. Inr (hd jobs)), db'))"

definition update_job_status ::
  "string option \<Rightarrow> datetime \<Rightarrow> int \<Rightarrow> JobStatus \<Rightarrow> string option \<Rightarrow> jobs_db \<Rightarrow> unit result \<times> jobs_db" where
  "update_job_status fault now job_id status error db =
     change_job ''Failed to update job '' fault now job_id
       (\<lambda>job. let job' = job\<lparr>ij_status := status\<rparr>
              in case error of None \<Rightarrow> job' | Some e \<Rightarrow> if e = [] then job' else job'\<lparr>ij_error := Some e\<rparr>) db"

definition update_job_outputs ::
  "string option \<Rightarrow> datetime \<Rightarrow> int \<Rightarrow> string list \<Rightarrow> jobs_db \<Rightarrow> unit result \<times> jobs_db" where
  "update_job_outputs fault now job_id outputs db =
     change_job ''Failed to update outputs for job '' fault now job_id (\<lambda>job. job\<lparr>ij_outputs := Some outputs\<rparr>) db"

definition complete_job ::
  "string option \<Rightarrow> datetime \<Rightarrow> int \<Rightarrow> string list \<Rightarrow> jobs_db \<Rightarrow> unit result \<times> jobs_db" where
  "complete_job fault now job_id outputs db =
     change_job ''Failed to complete job '' fault now job_id
       (\<lambda>job. job\<lparr>ij_outputs := Some outputs, ij_status := COMPLETED, ij_error := None\<rparr>) db"

definition update_job_provenance ::
  "string option \<Rightarrow> datetime \<Rightarrow> int \<Rightarrow> string option \<Rightarrow> string option \<Rightarrow> string option \<Rightarrow> string list \<Rightarrow> string option \<Rightarrow>
     jobs_db \<Rightarrow> unit result \<times> jobs_db" where
  "update_job_provenance fault now job_id selected_strategy selected_provider selected_model strategy_attempts fallback_reason db =
     change_job ''Failed to update provenance for job '' fault now job_id
       (\<lambda>job. job\<lparr>ij_selected_strategy := selected_strategy, ij_selected_provider := selected_provider,
                 ij_selected_model := selected_model, ij_strategy_attempts := Some strategy_attempts,
                 ij_fallback_reason := fallback_reason\<rparr>) db"

definition get_job :: "int \<Rightarrow> jobs_db \<Rightarrow> IngestionJob option" where
  "get_job job_id db = find_job job_id db"

text \<open>Of jobs created at the same instant the query returns the one stored first.\<close>

definition find_job_for_source :: "string \<Rightarrow> string \<Rightarrow> JobStatus list \<Rightarrow> jobs_db \<Rightarrow> IngestionJob option" where
  "find_job_for_source source_uri vault statuses db =
     (case sort_key (\<lambda>r. - int (ij_created_at r))
         (filter (\<lambda>r. ij_source_uri r = source_uri \<and> ij_vault r = Some vault \<and>
             (statuses \<noteq> [] \<longrightarrow> ij_status r \<in> set statuses)) (jd_rows db)) of
        [] \<Rightarrow> None
      | r # _ \<Rightarrow> Some r)"

definition claim_queued_job :: "string option \<Rightarrow> datetime \<Rightarrow> int \<Rightarrow> jobs_db \<Rightarrow> bool result \<times> jobs_db" where
  "claim_queued_job fault now job_id db =
     (case fault of
        Some exc \<Rightarrow> (Inl (RuntimeError (''Failed to claim job '' @ show_int job_id @ '': '' @ exc)), db)
      | None \<Rightarrow>
          let P = (\<lambda>r. ij_id r = job_id \<and> ij_status r = QUEUED)
          in (Inr (list_ex P (jd_rows db)), update_rows P (\<lambda>r. r\<lparr>ij_status := PROCESSING, ij_updated_at := now\<rparr>) db))"

definition cancel_queued_job :: "string option \<Rightarrow> datetime \<Rightarrow> int \<Rightarrow> jobs_db \<Rightarrow> IngestionJob result \<times> jobs_db" where
  "cancel_queued_job fault now job_id db =
     (case fault of
        Some exc \<Rightarrow> (Inl (RuntimeError (''Failed to cancel job '' @ show_int job_id @ '': '' @ exc)), db)
      | None \<Rightarrow>
          let P = (\<lambda>r. ij_id r = job_id \<and> ij_status r = QUEUED);
              db' = update_rows P (\<lambda>r. r\<lparr>ij_status := CANCELLED, ij_updated_at := now\<rparr>) db
          in if \<not> list_ex P (jd_rows db)
             then (case find_job job_id db of
                     None \<Rightarrow> (Inl (job_not_found job_id), db)
                   | Some job \<Rightarrow>
                       (Inl (ValueError (''Job '' @ show_int job_id @ '' cannot be cancelled from status '' @
                          job_status_value (ij_status job))), db))
             else (case find_job job_id db' of
                     None \<Rightarrow> (Inl (RuntimeError (''Cancelled ingestion job disappeared: '' @ show_int job_id)), db')
                   | Some job \<Rightarrow> (Inr job, db')))"

text \<open>\<open>clock\<close> gives the reading taken for each job.\<close>

definition fail_processing_jobs ::
  "string option \<Rightarrow> (int \<Rightarrow> datetime) \<Rightarrow> string \<Rightarrow> jobs_db \<Rightarrow> int list result \<times> jobs_db" where
  "fail_processing_jobs fault clock reason db =
     (case fault of
        Some exc \<Rightarrow> (Inl (RuntimeError (''Failed to reconcile processing jobs: '' @ exc)), db)
      | None \<Rightarrow>
          let P = (\<lambda>r. ij_status r = PROCESSING)
          in (Inr (map ij_id (filter P (jd_rows db))),
              update_rows P (\<lambda>r. r\<lparr>ij_status := FAILED, ij_error := Some reason, ij_updated_at := clock (ij_id r)\<rparr>) db))"

definition count_jobs :: "JobStatus option \<Rightarrow> jobs_db \<Rightarrow> nat" where
  "count_jobs status db = length (filter (\<lambda>r. case status of None \<Rightarrow> True | Some s \<Rightarrow> ij_status r = s) (jd_rows db))"

definition in_vault :: "string option \<Rightarrow> IngestionJob \<Rightarrow> bool" where
  "in_vault vault r = (case vault of None \<Rightarrow> True | Some v \<Rightarrow> if v = [] then True else ij_vault r = Some v)"

definition count_jobs_by_status :: "string option \<Rightarrow> jobs_db \<Rightarrow> (JobStatus, nat) dict" where
  "count_jobs_by_status vault db =
     (let rows = filter (in_vault vault) (jd_rows db)
      in map (\<lambda>s. (s, length (filter (\<lambda>r. ij_status r = s) rows)))
           (filter (\<lambda>s. list_ex (\<lambda>r. ij_status r = s) rows) [CANCELLED, COMPLETED, FAILED, PROCESSING, QUEUED]))"

section \<open>Cursors and pages\<close>

definition encode_job_cursor :: "int \<Rightarrow> string" where
  "encode_job_cursor job_id =
     rstrip_char (CHR ''='') (urlsafe_b64encode (utf8_encode (json_text True '','' '':'' (JDict [(''before_id'', JInt job_id)]))))"

text \<open>
  \<open>json.loads\<close> of bytes detects the encoding by a byte order mark or the position of zero bytes; of the wide
  encodings the code points below 256 are read.
\<close>

definition narrow_unit :: "nat \<Rightarrow> bool \<Rightarrow> string \<Rightarrow> char option" where
  "narrow_unit width big u =
     (let zeros = replicate (width - 1) (CHR 0x00)
      in if length u \<noteq> width then None
         else if big then (if butlast u = zeros then Some (last u) else None)
         else if tl u = zeros then Some (hd u) else None)"

definition wide_decode :: "nat \<Rightarrow> bool \<Rightarrow> string \<Rightarrow> string option" where
  "wide_decode width big bs = omap (narrow_unit width big) (pieces width bs)"

definition decode_json_bytes :: "string \<Rightarrow> string option" where
  "decode_json_bytes bs =
     (let zero = (\<lambda>i. bs ! i = CHR 0x00)
      in if startswith bs [CHR 0x00, CHR 0x00, CHR 0xFE, CHR 0xFF] then wide_decode 4 True (drop 4 bs)
         else if startswith bs [CHR 0xFF, CHR 0xFE, CHR 0x00, CHR 0x00] then wide_decode 4 False (drop 4 bs)
         else if startswith bs [CHR 0xFE, CHR 0xFF] then wide_decode 2 True (drop 2 bs)
         else if startswith bs [CHR 0xFF, CHR 0xFE] then wide_decode 2 False (drop 2 bs)
         else if startswith bs [CHR 0xEF, CHR 0xBB, CHR 0xBF] then utf8_decode (drop 3 bs)
         else if 4 \<le> length bs \<and> zero 0 then wide_decode (if zero 1 then 4 else 2) True bs
         else if 4 \<le> length bs \<and> zero 1 then wide_decode (if zero 2 \<and> zero 3 then 4 else 2) False bs
         else if length bs = 2 \<and> zero 0 then wide_decode 2 True bs
         else if length bs = 2 \<and> zero 1 then wide_decode 2 False bs
         else utf8_decode bs)"

definition invalid_cursor :: pyexn where
  "invalid_cursor = ValueError ''Invalid import job cursor''"

text \<open>\<open>int(value)\<close>: conversion of what the JSON holds; what raises \<open>TypeError\<close> or \<open>ValueError\<close> is caught.\<close>

fun json_to_int :: "json \<Rightarrow> int result" where
  "json_to_int (JInt i) = Inr i"
| "json_to_int (JBool b) = Inr (if b then 1 else 0)"
| "json_to_int (JFloat s) = int_of_float (float_of_text s)"
| "json_to_int (JStr s) = (case int_of_string s of None \<Rightarrow> Inl (ValueError ''invalid literal for int()'') | Some i \<Rightarrow> Inr i)"
| "json_to_int _ = Inl (TypeError ''int() argument must be a string, a bytes-like object or a real number'')"

definition decode_job_cursor :: "string \<Rightarrow> int result" where
  "decode_job_cursor v =
     (if \<not> is_ascii v then Inl invalid_cursor
      else case Option.bind (b64decode_url False (v @ b64_padding (length v))) (\<lambda>bs. Option.bind (decode_json_bytes bs) json_loads) of
             Some (JDict d) \<Rightarrow>
               (case map_of d ''before_id'' of
                  None \<Rightarrow> Inl invalid_cursor
                | Some x \<Rightarrow>
                    (case json_to_int x of
                       Inr job_id \<Rightarrow> if job_id < 1 then Inl invalid_cursor else Inr job_id
                     | Inl (OverflowError m) \<Rightarrow> Inl (OverflowError m)
                     | Inl _ \<Rightarrow> Inl invalid_cursor))
           | _ \<Rightarrow> Inl invalid_cursor)"

text \<open>
  SQLite reads a negative limit as no limit, and \<open>sqlite3\<close> refuses to bind an integer of more than 64 bits.
\<close>

definition sql_limit :: "int \<Rightarrow> 'a list \<Rightarrow> 'a list" where
  "sql_limit limit rows = (if limit < 0 then rows else take (nat limit) rows)"

definition bind_integer :: "int \<Rightarrow> int result" where
  "bind_integer i = (if - (2 ^ 63) \<le> i \<and> i < 2 ^ 63 then Inr i
     else Inl (OverflowError ''Python int too large to convert to SQLite INTEGER''))"

definition matching_jobs :: "string option \<Rightarrow> JobStatus list \<Rightarrow> jobs_db \<Rightarrow> IngestionJob list" where
  "matching_jobs vault statuses db =
     sort_key (\<lambda>r. - ij_id r)
       (filter (\<lambda>r. in_vault vault r \<and> (statuses \<noteq> [] \<longrightarrow> ij_status r \<in> set statuses)) (jd_rows db))"

definition list_jobs :: "int \<Rightarrow> string option \<Rightarrow> JobStatus list \<Rightarrow> string option \<Rightarrow> jobs_db \<Rightarrow> IngestionJob list result" where
  "list_jobs limit vault statuses cursor db =
     (case cursor of
        None \<Rightarrow> Inr (sql_limit limit (matching_jobs vault statuses db))
      | Some c \<Rightarrow>
          if c = [] then Inr (sql_limit limit (matching_jobs vault statuses db))
          else rbind (decode_job_cursor c) (\<lambda>boundary. rbind (bind_integer boundary) (\<lambda>boundary.
                 Inr (sql_limit limit (filter (\<lambda>r. ij_id r < boundary) (matching_jobs vault statuses db))))))"

definition list_recent_import_jobs ::
  "int \<Rightarrow> string option \<Rightarrow> JobStatus list \<Rightarrow> string option \<Rightarrow> jobs_db \<Rightarrow>
     (IngestionJob list \<times> string option \<times> nat \<times> (JobStatus, nat) dict) result" where
  "list_recent_import_jobs limit vault statuses cursor db =
     (let normalized = strip (case vault of None \<Rightarrow> [] | Some v \<Rightarrow> v);
          normalized_vault = (if normalized = [] then None else Some normalized)
      in rbind (list_jobs (limit + 1) normalized_vault statuses cursor db) (\<lambda>jobs.
           let has_older = limit < int (length jobs);
               page = (if 0 \<le> limit then take (nat limit) jobs else take (length jobs - nat (- limit)) jobs);
               status_counts = count_jobs_by_status normalized_vault db;
               total_matching = (if statuses \<noteq> []
                 then sum_list (map (\<lambda>s. case map_of status_counts s of None \<Rightarrow> 0 | Some n \<Rightarrow> n) statuses)
                 else sum_list (map snd status_counts));
               next_cursor = (if has_older \<and> page \<noteq> [] then Some (encode_job_cursor (ij_id (last page))) else None)
           in Inr (page, next_cursor, total_matching, status_counts)))"

section \<open>The worker\<close>

text \<open>
  One pass of the worker: the newest hundred jobs are read, those still queued are claimed in that order up to the
  concurrency bound, and a task is started for each. \<open>start_job\<close> gives the exception text when starting fails;
  the result lists the started jobs.
\<close>

definition worker_selection :: "int \<Rightarrow> jobs_db \<Rightarrow> IngestionJob list" where
  "worker_selection max_concurrent db =
     (case list_jobs 100 None [] None db of
        Inl e \<Rightarrow> []
      | Inr jobs \<Rightarrow> let queued = filter (\<lambda>j. ij_status j = QUEUED) jobs
                    in if 0 \<le> max_concurrent then take (nat max_concurrent) queued
                       else take (length queued - nat (- max_concurrent)) queued)"

fun worker_start :: "(int \<Rightarrow> string option) \<Rightarrow> datetime \<Rightarrow> IngestionJob list \<Rightarrow> jobs_db \<Rightarrow> int list \<times> jobs_db" where
  "worker_start start_job now [] db = ([], db)"
| "worker_start start_job now (job # jobs) db =
     (case claim_queued_job None now (ij_id job) db of
        (Inr True, db1) \<Rightarrow>
          (case start_job (ij_id job) of
             None \<Rightarrow> (case worker_start start_job now jobs db1 of (started, db2) \<Rightarrow> (ij_id job # started, db2))
           | Some exc \<Rightarrow>
               (case update_job_status None now (ij_id job) FAILED (Some (''Failed to start ingestion task: '' @ exc)) db1 of
                  (_, db2) \<Rightarrow> worker_start start_job now jobs db2))
      | (_, db1) \<Rightarrow> worker_start start_job now jobs db1)"

definition worker_run_once :: "(int \<Rightarrow> string option) \<Rightarrow> int \<Rightarrow> datetime \<Rightarrow> jobs_db \<Rightarrow> int list \<times> jobs_db" where
  "worker_run_once start_job max_concurrent now db = worker_start start_job now (worker_selection max_concurrent db) db"

end
