(* ===== verification/Ingestion_Props.thy ===== *)
theory Ingestion_Props
  imports Ingestion_Jobs
begin

text \<open>
  What the import queue promises: the cursor codec is a round trip, following the cursors page by page lists every
  matching job once, a job is taken from the queue at most once, and what the worker's window
  of the newest hundred jobs leaves behind.
\<close>

section \<open>Well-formed tables\<close>

definition jobs_wf :: "jobs_db \<Rightarrow> bool" where
  "jobs_wf db \<longleftrightarrow> distinct (map ij_id (jd_rows db)) \<and>
     (\<forall>r \<in> set (jd_rows db). 1 \<le> ij_id r \<and> ij_id r \<le> int (jd_sequence db))"

lemma jobs_wf_empty: "jobs_wf empty_jobs_db"
  by (simp add: jobs_wf_def empty_jobs_db_def)

lemma ids_update_rows: "(\<And>r. ij_id (f r) = ij_id r) \<Longrightarrow> map ij_id (jd_rows (update_rows P f db)) = map ij_id (jd_rows db)"
  by (simp add: update_rows_def)

lemma jobs_wf_ids: "jobs_wf db \<longleftrightarrow> distinct (map ij_id (jd_rows db)) \<and>
    (\<forall>i \<in> set (map ij_id (jd_rows db)). 1 \<le> i \<and> i \<le> int (jd_sequence db))"
  by (auto simp: jobs_wf_def)

lemma jobs_wf_update_rows: "(\<And>r. ij_id (f r) = ij_id r) \<Longrightarrow> jobs_wf (update_rows P f db) = jobs_wf db"
  by (simp only: jobs_wf_ids ids_update_rows) (simp add: update_rows_def)

lemma find_job_iff:
  assumes "jobs_wf db"
  shows "find_job i db = Some r \<longleftrightarrow> r \<in> set (jd_rows db) \<and> ij_id r = i"
proof
  assume "find_job i db = Some r"
  then show "r \<in> set (jd_rows db) \<and> ij_id r = i" by (auto simp: find_job_def find_Some_iff)
next
  assume r: "r \<in> set (jd_rows db) \<and> ij_id r = i"
  then obtain r' where r': "find_job i db = Some r'"
    by (cases "find_job i db") (auto simp: find_job_def find_None_iff)
  then have "r' \<in> set (jd_rows db)" "ij_id r' = ij_id r" using r by (auto simp: find_job_def find_Some_iff)
  with r assms have "r' = r" by (metis jobs_wf_def distinct_map inj_onD)
  with r' show "find_job i db = Some r" by simp
qed

lemma find_job_id: "find_job i db = Some r \<Longrightarrow> ij_id r = i"
  by (auto simp: find_job_def find_Some_iff)

lemma find_update_rows:
  "(\<And>r. ij_id (f r) = ij_id r) \<Longrightarrow>
   find_job i (update_rows P f db) = map_option (\<lambda>r. if P r then f r else r) (find_job i db)"
proof -
  assume id: "\<And>r. ij_id (f r) = ij_id r"
  have "find (\<lambda>r. ij_id r = i) (map (\<lambda>r. if P r then f r else r) rs) = map_option (\<lambda>r. if P r then f r else r) (find (\<lambda>r. ij_id r = i) rs)" for rs
    by (induction rs) (auto simp: id)
  then show ?thesis by (simp add: find_job_def update_rows_def)
qed

section \<open>Cursors\<close>

lemma url_segment_ascii: "is_ascii (rstrip_char (CHR ''='') (urlsafe_b64encode bs))"
  using url_segment_chars [of bs] by (auto simp: is_ascii_def list_all_iff)

lemma decode_json_bytes_object: "decode_json_bytes (utf8_encode (CHR ''{'' # CHR 0x22 # t)) = Some (CHR ''{'' # CHR 0x22 # t)"
proof -
  have eq: "utf8_encode (CHR ''{'' # CHR 0x22 # t) = CHR ''{'' # CHR 0x22 # utf8_encode t"
    by (simp add: utf8_encode_def utf8_char_def)
  have "decode_json_bytes (utf8_encode (CHR ''{'' # CHR 0x22 # t)) = utf8_decode (utf8_encode (CHR ''{'' # CHR 0x22 # t))"
    unfolding eq by (simp add: decode_json_bytes_def startswith_def)
  then show ?thesis by simp
qed

lemma decode_encode_cursor:
  assumes "1 \<le> job_id"
  shows "decode_job_cursor (encode_job_cursor job_id) = Inr job_id"
proof -
  let ?v = "JDict [(''before_id'', JInt job_id)]"
  let ?text = "json_text True '','' '':'' ?v"
  have "json_loads ?text = Some ?v" by (rule json_compact.loads_json_text) simp
  moreover have "decode_json_bytes (utf8_encode ?text) = Some ?text"
    using decode_json_bytes_object by (simp add: json_quote_def)
  moreover have "b64decode_url False (encode_job_cursor job_id @ b64_padding (length (encode_job_cursor job_id))) = Some (utf8_encode ?text)"
    unfolding encode_job_cursor_def by (rule b64_url_roundtrip)
  moreover have "is_ascii (encode_job_cursor job_id)" unfolding encode_job_cursor_def by (rule url_segment_ascii)
  ultimately show ?thesis using assms by (simp add: decode_job_cursor_def)
qed

lemma encode_job_cursor_not_Nil: "encode_job_cursor job_id \<noteq> []"
  by (simp add: encode_job_cursor_def utf8_encode_def utf8_char_def)

section \<open>Pages\<close>

text \<open>All the jobs a client sees that follows \<open>next_cursor\<close> until there is none.\<close>

fun follow_pages :: "nat \<Rightarrow> int \<Rightarrow> string option \<Rightarrow> JobStatus list \<Rightarrow> string option \<Rightarrow> jobs_db \<Rightarrow> IngestionJob list result" where
  "follow_pages 0 limit vault statuses cursor db = Inl (RuntimeError ''more pages'')"
| "follow_pages (Suc n) limit vault statuses cursor db =
     rbind (list_recent_import_jobs limit vault statuses cursor db) (\<lambda>(page, next_cursor, counts).
       case next_cursor of
         None \<Rightarrow> Inr page
       | Some c \<Rightarrow> rbind (follow_pages n limit vault statuses (Some c) db) (\<lambda>rest. Inr (page @ rest)))"

definition normalized_vault :: "string option \<Rightarrow> string option" where
  "normalized_vault vault = (let v = strip (case vault of None \<Rightarrow> [] | Some v \<Rightarrow> v) in if v = [] then None else Some v)"

lemma strictly_sorted_key:
  "sorted (map k xs) \<Longrightarrow> distinct (map k xs) \<Longrightarrow> sorted_wrt (\<lambda>a b. k a < (k b :: 'b::linorder)) xs"
proof (induction xs)
  case (Cons x xs)
  have "k x < k y" if "y \<in> set xs" for y using Cons.prems that by (auto simp: less_le)
  then show ?case using Cons by simp
qed simp

lemma matching_sorted:
  assumes "jobs_wf db"
  shows "sorted_wrt (\<lambda>a b. ij_id b < ij_id a) (matching_jobs vault statuses db)"
proof -
  let ?rows = "filter (\<lambda>r. in_vault vault r \<and> (statuses \<noteq> [] \<longrightarrow> ij_status r \<in> set statuses)) (jd_rows db)"
  let ?sorted = "sort_key (\<lambda>r. - ij_id r) ?rows"
  have "distinct ?rows" "inj_on ij_id (set ?rows)"
    using assms by (auto simp: jobs_wf_def distinct_map inj_on_def)
  then have "distinct (map (\<lambda>r. - ij_id r) ?sorted)" by (auto simp: distinct_map inj_on_def)
  moreover have "sorted (map (\<lambda>r. - ij_id r) ?sorted)" by (rule sorted_sort_key)
  ultimately have "sorted_wrt (\<lambda>a b. - ij_id a < - ij_id b) ?sorted" by (intro strictly_sorted_key)
  then show ?thesis by (simp add: matching_jobs_def)
qed

lemma matching_ids: "jobs_wf db \<Longrightarrow> r \<in> set (matching_jobs vault statuses db) \<Longrightarrow> 1 \<le> ij_id r \<and> ij_id r \<le> int (jd_sequence db)"
  by (auto simp: matching_jobs_def jobs_wf_def)

lemma filter_below_last:
  assumes "sorted_wrt (\<lambda>a b. k b < (k a :: 'b::linorder)) xs" "0 < n" "n < length xs"
  shows "filter (\<lambda>r. k r < k (last (take n xs))) xs = drop n xs"
proof -
  let ?b = "k (last (take n xs))"
  have ne: "take n xs \<noteq> []" using assms(2,3) by auto
  have split: "sorted_wrt (\<lambda>a b. k b < k a) (take n xs @ drop n xs)" using assms(1) by simp
  have "\<not> k r < ?b" if "r \<in> set (take n xs)" for r
  proof -
    have "sorted_wrt (\<lambda>a b. k b < k a) (butlast (take n xs) @ [last (take n xs)])" using split ne by (simp add: sorted_wrt_append)
    moreover have "r \<in> set (butlast (take n xs) @ [last (take n xs)])" using that ne by simp
    ultimately show ?thesis by (auto simp: sorted_wrt_append)
  qed
  then have "filter (\<lambda>r. k r < ?b) (take n xs) = []" by (simp add: filter_empty_conv)
  moreover have "filter (\<lambda>r. k r < ?b) (drop n xs) = drop n xs"
    using split last_in_set [OF ne] by (simp only: sorted_wrt_append filter_id_conv) blast
  ultimately show ?thesis by (metis append_take_drop_id filter_append append_Nil)
qed

text \<open>What the page query sees from a cursor on: the rest of the listing after some number of jobs.\<close>

definition cursor_at :: "string option \<Rightarrow> nat \<Rightarrow> IngestionJob list \<Rightarrow> bool" where
  "cursor_at cursor n xs \<longleftrightarrow> (cursor = None \<and> n = 0) \<or>
     (0 < n \<and> n < length xs \<and> cursor = Some (encode_job_cursor (ij_id (last (take n xs)))))"

lemma list_jobs_at:
  assumes wf: "jobs_wf db" and seq: "int (jd_sequence db) < 2 ^ 63"
    and at: "cursor_at cursor n (matching_jobs vault statuses db)"
  shows "list_jobs limit vault statuses cursor db = Inr (sql_limit limit (drop n (matching_jobs vault statuses db)))"
proof -
  let ?xs = "matching_jobs vault statuses db"
  show ?thesis
  proof (cases "cursor = None")
    case True
    then show ?thesis using at by (simp add: list_jobs_def cursor_at_def)
  next
    case False
    let ?b = "ij_id (last (take n ?xs))"
    from False at have c: "cursor = Some (encode_job_cursor ?b)" "0 < n" "n < length ?xs" by (auto simp: cursor_at_def)
    have "take n ?xs \<noteq> []" using c by auto
    then have "last (take n ?xs) \<in> set ?xs" by (meson in_set_takeD last_in_set)
    from matching_ids [OF wf this] seq have "decode_job_cursor (encode_job_cursor ?b) = Inr ?b" "bind_integer ?b = Inr ?b"
      by (auto simp: decode_encode_cursor bind_integer_def)
    moreover have "filter (\<lambda>r. ij_id r < ?b) ?xs = drop n ?xs"
      using matching_sorted [OF wf] c(2,3) by (rule filter_below_last)
    ultimately show ?thesis by (simp add: list_jobs_def c(1) encode_job_cursor_not_Nil)
  qed
qed

lemma page_at:
  assumes wf: "jobs_wf db" and seq: "int (jd_sequence db) < 2 ^ 63" and limit: "1 \<le> limit"
    and xs: "xs = matching_jobs (normalized_vault vault) statuses db" and at: "cursor_at cursor n xs" "n \<le> length xs"
  obtains rest where "list_recent_import_jobs limit vault statuses cursor db = Inr (take (nat limit) (drop n xs),
    if n + nat limit < length xs then Some (encode_job_cursor (ij_id (last (take (n + nat limit) xs)))) else None, rest)"
proof -
  let ?m = "nat limit"
  have "list_jobs (limit + 1) (normalized_vault vault) statuses cursor db = Inr (sql_limit (limit + 1) (drop n xs))"
    unfolding xs by (rule list_jobs_at [OF wf seq at(1) [unfolded xs]])
  moreover have "sql_limit (limit + 1) (drop n xs) = take (Suc ?m) (drop n xs)"
    using limit by (simp add: sql_limit_def nat_add_distrib)
  moreover have "take ?m (take (Suc ?m) (drop n xs)) = take ?m (drop n xs)" by simp
  moreover have "limit < int (length (take (Suc ?m) (drop n xs))) \<longleftrightarrow> n + ?m < length xs" using limit at(2) by auto
  moreover have "n + ?m < length xs \<Longrightarrow> take ?m (drop n xs) \<noteq> [] \<and> last (take ?m (drop n xs)) = last (take (n + ?m) xs)"
    using limit by (simp add: take_add)
  ultimately show thesis
    using that limit by (simp add: list_recent_import_jobs_def normalized_vault_def Let_def)
qed

lemma follow_pages_at:
  assumes wf: "jobs_wf db" and seq: "int (jd_sequence db) < 2 ^ 63" and limit: "1 \<le> limit"
    and xs: "xs = matching_jobs (normalized_vault vault) statuses db"
  shows "cursor_at cursor n xs \<Longrightarrow> n \<le> length xs \<Longrightarrow> length xs < n + fuel \<Longrightarrow>
    follow_pages fuel limit vault statuses cursor db = Inr (drop n xs)"
proof (induction fuel arbitrary: cursor n)
  case (Suc fuel)
  let ?m = "n + nat limit"
  obtain rest where page: "list_recent_import_jobs limit vault statuses cursor db = Inr (take (nat limit) (drop n xs),
    if ?m < length xs then Some (encode_job_cursor (ij_id (last (take ?m xs)))) else None, rest)"
    using page_at [OF wf seq limit xs Suc.prems(1,2)] by blast
  show ?case
  proof (cases "?m < length xs")
    case True
    then have "cursor_at (Some (encode_job_cursor (ij_id (last (take ?m xs))))) ?m xs"
      using limit by (simp add: cursor_at_def)
    then have "follow_pages fuel limit vault statuses (Some (encode_job_cursor (ij_id (last (take ?m xs))))) db = Inr (drop ?m xs)"
      using Suc.IH True Suc.prems(3) limit by simp
    moreover have "take (nat limit) (drop n xs) @ drop ?m xs = drop n xs"
      by (metis append_take_drop_id drop_drop add.commute)
    ultimately show ?thesis using True by (simp add: page)
  next
    case False
    then show ?thesis by (simp add: page)
  qed
qed simp

text \<open>
  C22. Paging is equivalent to the whole listing. With any page size of at least one, a client that follows
  \<open>next_cursor\<close> from the first page until there is none collects exactly the matching jobs of the vault
  and statuses asked for, newest first, each once, in at most one request per job and one more.
\<close>

theorem import_pages_complete:
  assumes "jobs_wf db" "int (jd_sequence db) < 2 ^ 63" "1 \<le> limit"
    and "length (matching_jobs (normalized_vault vault) statuses db) < fuel"
  shows "follow_pages fuel limit vault statuses None db = Inr (matching_jobs (normalized_vault vault) statuses db)"
  using follow_pages_at [OF assms(1-3) refl, where cursor = None and n = 0 and fuel = fuel] assms(4) by (simp add: cursor_at_def)

definition sample_request :: "string \<Rightarrow> string \<Rightarrow> IngestionJobCreate" where
  "sample_request uri vault = \<lparr>ic_source_uri = uri, ic_vault = vault, ic_source_type = ''file'', ic_mime_hint = None, ic_options = None\<rparr>"

definition sample_jobs :: jobs_db where
  "sample_jobs = snd (create_jobs None (\<lambda>i. (i, i))
     [sample_request ''a.pdf'' ''v'', sample_request ''b.pdf'' ''w'', sample_request ''c.pdf'' ''v'', sample_request ''d.pdf'' ''v''] empty_jobs_db)"

theorem import_pages_complete_witness:
  "follow_pages 4 1 (Some '' v '') [QUEUED] None sample_jobs = Inr (matching_jobs (Some ''v'') [QUEUED] sample_jobs) \<and>
   map ij_id (matching_jobs (Some ''v'') [QUEUED] sample_jobs) = [4, 3, 1]"
proof -
  have "jobs_wf sample_jobs" "int (jd_sequence sample_jobs) < 2 ^ 63"
    by (simp_all add: sample_jobs_def create_jobs_def sample_request_def new_job_def empty_jobs_db_def jobs_wf_def Let_def)
  moreover have v: "normalized_vault (Some '' v '') = Some ''v''" by code_simp
  moreover have ids: "map ij_id (matching_jobs (Some ''v'') [QUEUED] sample_jobs) = [4, 3, 1]"
    by (simp add: matching_jobs_def in_vault_def sample_jobs_def create_jobs_def sample_request_def new_job_def empty_jobs_db_def Let_def)
  moreover have "length (matching_jobs (Some ''v'') [QUEUED] sample_jobs) < 4" using arg_cong [OF ids, of length] by simp
  ultimately show ?thesis using import_pages_complete [of sample_jobs 1 "Some '' v ''" "[QUEUED]" 4] by simp
qed

section \<open>Taking a job from the queue\<close>

datatype job_op =
    CreateJobs "string option" "nat \<Rightarrow> datetime \<times> datetime" "IngestionJobCreate list"
  | UpdateStatus "string option" datetime int JobStatus "string option"
  | UpdateOutputs "string option" datetime int "string list"
  | CompleteJob "string option" datetime int "string list"
  | UpdateProvenance "string option" datetime int "string option" "string option" "string option" "string list" "string option"
  | ClaimJob "string option" datetime int
  | CancelJob "string option" datetime int
  | FailProcessing "string option" "int \<Rightarrow> datetime" string

text \<open>An operation answers with the job it took from the queue, by a claim or a cancellation.\<close>

fun job_exec :: "job_op \<Rightarrow> jobs_db \<Rightarrow> int option \<times> jobs_db" where
  "job_exec (CreateJobs fault clock requests) db = (None, snd (create_jobs fault clock requests db))"
| "job_exec (UpdateStatus fault now i status error) db = (None, snd (update_job_status fault now i status error db))"
| "job_exec (UpdateOutputs fault now i outputs) db = (None, snd (update_job_outputs fault now i outputs db))"
| "job_exec (CompleteJob fault now i outputs) db = (None, snd (complete_job fault now i outputs db))"
| "job_exec (UpdateProvenance fault now i a b c d e) db = (None, snd (update_job_provenance fault now i a b c d e db))"
| "job_exec (ClaimJob fault now i) db =
     (case claim_queued_job fault now i db of (r, db') \<Rightarrow> (if r = Inr True then Some i else None, db'))"
| "job_exec (CancelJob fault now i) db =
     (case cancel_queued_job fault now i db of (r, db') \<Rightarrow> (case r of Inr _ \<Rightarrow> Some i | Inl _ \<Rightarrow> None, db'))"
| "job_exec (FailProcessing fault clock reason) db = (None, snd (fail_processing_jobs fault clock reason db))"

text \<open>No caller sets a status back to queued.\<close>

fun no_requeue :: "job_op \<Rightarrow> bool" where
  "no_requeue (UpdateStatus fault now i status error) = (status \<noteq> QUEUED)"
| "no_requeue _ = True"

definition taken :: "int \<Rightarrow> jobs_db \<Rightarrow> bool" where
  "taken i db \<longleftrightarrow> (\<exists>r. find_job i db = Some r \<and> ij_status r \<noteq> QUEUED)"

lemma taken_update_rows:
  assumes "\<And>r. ij_id (f r) = ij_id r" "\<And>r. P r \<Longrightarrow> ij_status (f r) = QUEUED \<Longrightarrow> ij_status r = QUEUED" "taken i db"
  shows "taken i (update_rows P f db)"
proof -
  obtain r where r: "find_job i db = Some r" "ij_status r \<noteq> QUEUED" using assms(3) by (auto simp: taken_def)
  then have "find_job i (update_rows P f db) = Some (if P r then f r else r)" by (simp add: find_update_rows assms(1))
  moreover have "ij_status (if P r then f r else r) \<noteq> QUEUED" using r(2) assms(2) by auto
  ultimately show ?thesis unfolding taken_def by blast
qed

lemma flush_changes_id: "(\<And>r. ij_id (f r) = ij_id r) \<Longrightarrow> ij_id (flush_changes now f r) = ij_id r"
  and flush_changes_status: "ij_status (flush_changes now f r) = ij_status (f r)"
  by (simp_all add: flush_changes_def)

lemma change_job_safe:
  assumes "\<And>r. ij_id (f r) = ij_id r" "\<And>r. ij_status (f r) = QUEUED \<Longrightarrow> ij_status r = QUEUED"
  shows "jobs_wf db \<Longrightarrow> jobs_wf (snd (change_job failure fault now j f db))"
    and "taken i db \<Longrightarrow> taken i (snd (change_job failure fault now j f db))"
  using assms by (auto simp: change_job_def jobs_wf_update_rows flush_changes_id flush_changes_status
      intro!: taken_update_rows split: option.split)

lemma find_append: "find P xs = Some x \<Longrightarrow> find P (xs @ ys) = Some x"
  by (induction xs) auto

lemma create_jobs_ids:
  "map ij_id (map (\<lambda>(k, request). new_job request (int (n + Suc k)) (clock k)) (enumerate 0 requests)) =
     map (\<lambda>k. int (n + Suc k)) [0..<length requests]"
  by (rule nth_equalityI) (auto simp: new_job_def nth_enumerate_eq)

lemma create_jobs_safe:
  assumes "jobs_wf db"
  shows "jobs_wf (snd (create_jobs fault clock requests db))" "taken i db \<Longrightarrow> taken i (snd (create_jobs fault clock requests db))"
proof -
  let ?new = "map (\<lambda>(k, request). new_job request (int (jd_sequence db + Suc k)) (clock k)) (enumerate 0 requests)"
  note ids = create_jobs_ids [of "jd_sequence db" clock requests]
  have new: "distinct (map ij_id ?new)" "\<And>k. k \<in> set (map ij_id ?new) \<Longrightarrow> int (jd_sequence db) < k \<and> k \<le> int (jd_sequence db + length requests)"
    unfolding ids by (auto simp: distinct_map inj_on_def)
  have old: "\<And>k. k \<in> set (map ij_id (jd_rows db)) \<Longrightarrow> 1 \<le> k \<and> k \<le> int (jd_sequence db)" "distinct (map ij_id (jd_rows db))"
    using assms by (auto simp: jobs_wf_def)
  have "jobs_wf \<lparr>jd_rows = jd_rows db @ ?new, jd_sequence = jd_sequence db + length requests\<rparr>"
    unfolding jobs_wf_ids jobs_db.simps map_append set_append distinct_append
    using new old by fastforce
  then show "jobs_wf (snd (create_jobs fault clock requests db))"
    using assms by (auto simp: create_jobs_def Let_def split: option.split)
  have "find_job i \<lparr>jd_rows = jd_rows db @ ?new, jd_sequence = n\<rparr> = Some r" if "find_job i db = Some r" for r n
    using that unfolding find_job_def jobs_db.simps by (rule find_append)
  then show "taken i db \<Longrightarrow> taken i (snd (create_jobs fault clock requests db))"
    by (auto simp: create_jobs_def Let_def taken_def split: option.split)
qed

lemma list_ex_job:
  assumes "jobs_wf db"
  shows "list_ex (\<lambda>r. ij_id r = i \<and> Q r) (jd_rows db) \<longleftrightarrow> (\<exists>r. find_job i db = Some r \<and> Q r)"
  using find_job_iff [OF assms] by (auto simp: list_ex_iff)

lemma claim_safe:
  assumes "jobs_wf db" "claim_queued_job fault now j db = (r, db')"
  shows "jobs_wf db'" "taken i db \<Longrightarrow> taken i db'" "r = Inr True \<Longrightarrow> \<not> taken j db \<and> taken j db'"
proof -
  show "jobs_wf db'" "taken i db \<Longrightarrow> taken i db'"
    using assms by (auto simp: claim_queued_job_def Let_def jobs_wf_update_rows intro!: taken_update_rows split: option.splits)
  assume "r = Inr True"
  then have "list_ex (\<lambda>r. ij_id r = j \<and> ij_status r = QUEUED) (jd_rows db)"
    and db': "db' = update_rows (\<lambda>r. ij_id r = j \<and> ij_status r = QUEUED) (\<lambda>r. r\<lparr>ij_status := PROCESSING, ij_updated_at := now\<rparr>) db"
    using assms(2) by (auto simp: claim_queued_job_def Let_def split: option.splits)
  then obtain q where q: "find_job j db = Some q" "ij_status q = QUEUED" by (auto simp: list_ex_job [OF assms(1)])
  then have "ij_id q = j" using find_job_iff [OF assms(1)] by blast
  with q show "\<not> taken j db \<and> taken j db'" by (simp add: taken_def db' find_update_rows)
qed

lemma cancel_safe:
  assumes "jobs_wf db" "cancel_queued_job fault now j db = (r, db')"
  shows "jobs_wf db'" "taken i db \<Longrightarrow> taken i db'" "r = Inr job \<Longrightarrow> \<not> taken j db \<and> taken j db'"
proof -
  show "jobs_wf db'" "taken i db \<Longrightarrow> taken i db'"
    using assms by (auto simp: cancel_queued_job_def Let_def jobs_wf_update_rows intro!: taken_update_rows split: option.splits if_splits)
  assume "r = Inr job"
  then have "list_ex (\<lambda>r. ij_id r = j \<and> ij_status r = QUEUED) (jd_rows db)"
    and db': "db' = update_rows (\<lambda>r. ij_id r = j \<and> ij_status r = QUEUED) (\<lambda>r. r\<lparr>ij_status := CANCELLED, ij_updated_at := now\<rparr>) db"
    using assms(2) by (auto simp: cancel_queued_job_def Let_def split: option.splits if_splits)
  then obtain q where q: "find_job j db = Some q" "ij_status q = QUEUED" by (auto simp: list_ex_job [OF assms(1)])
  then have "ij_id q = j" using find_job_iff [OF assms(1)] by blast
  with q show "\<not> taken j db \<and> taken j db'" by (simp add: taken_def db' find_update_rows)
qed

lemma job_exec_safe:
  assumes "jobs_wf db" "no_requeue op"
  shows "jobs_wf (snd (job_exec op db))" "taken i db \<Longrightarrow> taken i (snd (job_exec op db))"
    "fst (job_exec op db) = Some i \<Longrightarrow> \<not> taken i db \<and> taken i (snd (job_exec op db))"
proof -
  have "jobs_wf (snd (job_exec op db)) \<and> (taken i db \<longrightarrow> taken i (snd (job_exec op db))) \<and>
    (fst (job_exec op db) = Some i \<longrightarrow> \<not> taken i db \<and> taken i (snd (job_exec op db)))"
  proof (cases op)
    case (ClaimJob fault now j)
    obtain r db' where eq: "claim_queued_job fault now j db = (r, db')" by fastforce
    show ?thesis using claim_safe [OF assms(1) eq] by (auto simp: ClaimJob eq)
  next
    case (CancelJob fault now j)
    obtain r db' where eq: "cancel_queued_job fault now j db = (r, db')" by fastforce
    show ?thesis using cancel_safe [OF assms(1) eq] by (auto simp: CancelJob eq split: sum.split)
  next
    case (FailProcessing fault clock reason)
    then show ?thesis using assms(1)
      by (auto simp: fail_processing_jobs_def Let_def jobs_wf_update_rows intro!: taken_update_rows split: option.split)
  next
    case (UpdateStatus fault now j status error)
    with assms(2) have "status \<noteq> QUEUED" by simp
    then show ?thesis using assms(1) UpdateStatus
      by (auto simp: update_job_status_def Let_def intro!: change_job_safe split: option.splits if_splits)
  qed (use assms(1) in \<open>auto simp: update_job_outputs_def complete_job_def update_job_provenance_def
      intro!: change_job_safe create_jobs_safe\<close>)
  then show "jobs_wf (snd (job_exec op db))" "taken i db \<Longrightarrow> taken i (snd (job_exec op db))"
    "fst (job_exec op db) = Some i \<Longrightarrow> \<not> taken i db \<and> taken i (snd (job_exec op db))" by blast+
qed

lemma answers_after_taken:
  "jobs_wf db \<Longrightarrow> taken i db \<Longrightarrow> list_all no_requeue ops \<Longrightarrow> Some i \<notin> set (answers job_exec ops db)"
proof (induction ops arbitrary: db)
  case (Cons op ops)
  then have "no_requeue op" by simp
  note safe = job_exec_safe [OF Cons.prems(1) this]
  have "fst (job_exec op db) \<noteq> Some i" using safe(3) Cons.prems(2) by blast
  moreover have "Some i \<notin> set (answers job_exec ops (snd (job_exec op db)))"
    using Cons safe by simp
  ultimately show ?case by (cases "job_exec op db") simp
qed simp

text \<open>
  C21. A job leaves the queue once. Over every sequence of store operations from a well-formed table, as long as no
  caller sets a status back to queued (and none does), at most one of all the claims and cancellations of
  a job succeeds: a job is processed by one claimant only, and a job that was cancelled is never claimed.
\<close>

theorem job_taken_once:
  assumes "jobs_wf db" "list_all no_requeue ops"
  shows "count_list (answers job_exec ops db) (Some i) \<le> 1"
  using assms
proof (induction ops arbitrary: db)
  case (Cons op ops)
  let ?db' = "snd (job_exec op db)"
  from Cons.prems have "no_requeue op" by simp
  note safe = job_exec_safe [OF Cons.prems(1) this]
  have "count_list (answers job_exec ops ?db') (Some i) \<le> 1" using Cons safe by simp
  moreover have "count_list (answers job_exec ops ?db') (Some i) = 0" if "fst (job_exec op db) = Some i"
    using answers_after_taken [of ?db' i ops] safe that Cons.prems(2) by (simp add: count_list_0_iff)
  ultimately show ?case by (cases "job_exec op db") auto
qed simp

theorem job_taken_once_witness:
  "answers job_exec [ClaimJob None 5 3, CancelJob None 6 3, ClaimJob None 7 3, CancelJob None 8 1] sample_jobs
     = [Some 3, None, None, Some 1] \<and>
   count_list (answers job_exec [ClaimJob None 5 3, CancelJob None 6 3, ClaimJob None 7 3, CancelJob None 8 1] sample_jobs) (Some 3) \<le> 1"
proof
  have "jobs_wf sample_jobs"
    by (simp add: sample_jobs_def create_jobs_def sample_request_def new_job_def empty_jobs_db_def jobs_wf_def Let_def)
  from job_taken_once [OF this, of "[ClaimJob None 5 3, CancelJob None 6 3, ClaimJob None 7 3, CancelJob None 8 1]" 3]
  show "count_list (answers job_exec [ClaimJob None 5 3, CancelJob None 6 3, ClaimJob None 7 3, CancelJob None 8 1] sample_jobs) (Some 3) \<le> 1"
    by simp
qed (simp add: sample_jobs_def create_jobs_def sample_request_def new_job_def empty_jobs_db_def Let_def
    claim_queued_job_def cancel_queued_job_def update_rows_def find_job_def)

section \<open>The window of the worker\<close>

lemma worker_window:
  assumes wf: "jobs_wf db" and newer: "100 \<le> length (filter (\<lambda>r. j < ij_id r) (jd_rows db))"
  shows "j \<notin> ij_id ` set (worker_selection max_concurrent db)"
proof
  assume "j \<in> ij_id ` set (worker_selection max_concurrent db)"
  let ?xs = "matching_jobs None [] db"
  have rows: "?xs = sort_key (\<lambda>r. - ij_id r) (jd_rows db)" by (simp add: matching_jobs_def in_vault_def)
  have "set (worker_selection max_concurrent db) \<subseteq> set (filter (\<lambda>r. ij_status r = QUEUED) (take 100 ?xs))"
    by (simp only: worker_selection_def list_jobs_def sql_limit_def Let_def) (simp add: set_take_subset del: set_filter)
  with \<open>j \<in> _\<close> obtain r where r: "r \<in> set (take 100 ?xs)" "ij_id r = j" by auto
  then obtain k where k: "k < 100" "k < length ?xs" "?xs ! k = r" by (auto simp: in_set_conv_nth)
  have "filter (\<lambda>r. j < ij_id r) ?xs = filter (\<lambda>r. j < ij_id r) (take k ?xs)"
  proof -
    have "sorted_wrt (\<lambda>a b. ij_id b < ij_id a) (take k ?xs @ drop k ?xs)" using matching_sorted [OF wf] by simp
    then have drop: "sorted_wrt (\<lambda>a b. ij_id b < ij_id a) (drop k ?xs)" by (simp only: sorted_wrt_append)
    have "drop k ?xs = r # drop (Suc k) ?xs" using k by (metis Cons_nth_drop_Suc)
    with drop r(2) have "\<not> j < ij_id x" if "x \<in> set (drop k ?xs)" for x using that by auto
    then have "filter (\<lambda>r. j < ij_id r) (drop k ?xs) = []" by (simp add: filter_empty_conv)
    then show ?thesis by (metis append_Nil2 append_take_drop_id filter_append)
  qed
  then have "length (filter (\<lambda>r. j < ij_id r) ?xs) \<le> k"
    by (metis (no_types, lifting) length_filter_le length_take min.cobounded2 order_trans)
  moreover have "length (filter (\<lambda>r. j < ij_id r) ?xs) = length (filter (\<lambda>r. j < ij_id r) (jd_rows db))"
    unfolding rows by (metis filter_sort length_sort)
  ultimately show False using newer k(1) by simp
qed

definition job_untouched :: "int \<Rightarrow> jobs_db \<Rightarrow> jobs_db \<Rightarrow> bool" where
  "job_untouched j db db' \<longleftrightarrow> find_job j db' = find_job j db \<and> map ij_id (jd_rows db') = map ij_id (jd_rows db) \<and>
     jd_sequence db' = jd_sequence db"

lemma job_untouched_trans: "job_untouched j a b \<Longrightarrow> job_untouched j b c \<Longrightarrow> job_untouched j a c"
  and job_untouched_refl [simp]: "job_untouched j a a"
  by (simp_all add: job_untouched_def)

lemma update_rows_untouched:
  assumes "\<And>r. ij_id (f r) = ij_id r" "\<And>r. P r \<Longrightarrow> ij_id r \<noteq> j"
  shows "job_untouched j db (update_rows P f db)"
proof -
  have "map_option (\<lambda>r. if P r then f r else r) (find_job j db) = find_job j db"
    using assms(2) find_job_id [of j db] by (cases "find_job j db") auto
  then show ?thesis by (simp add: job_untouched_def find_update_rows ids_update_rows assms(1)) (simp add: update_rows_def)
qed

lemma claim_untouched: "i \<noteq> j \<Longrightarrow> job_untouched j db (snd (claim_queued_job fault now i db))"
  by (auto simp: claim_queued_job_def Let_def intro!: update_rows_untouched split: option.split)

lemma update_status_untouched: "i \<noteq> j \<Longrightarrow> job_untouched j db (snd (update_job_status fault now i status error db))"
  by (auto simp: update_job_status_def change_job_def Let_def flush_changes_def intro!: update_rows_untouched split: option.split)

lemma worker_start_untouched:
  "j \<notin> ij_id ` set jobs \<Longrightarrow> job_untouched j db (snd (worker_start start_job now jobs db))"
proof (induction jobs arbitrary: db)
  case (Cons job jobs)
  have ne: "ij_id job \<noteq> j" and rest: "j \<notin> ij_id ` set jobs" using Cons.prems by auto
  obtain r db1 where claim: "claim_queued_job None now (ij_id job) db = (r, db1)" by fastforce
  obtain u db2 where failed: "update_job_status None now (ij_id job) FAILED
      (Some (''Failed to start ingestion task: '' @ the (start_job (ij_id job)))) db1 = (u, db2)" by fastforce
  have "job_untouched j db db1" using claim_untouched [OF ne, of db None now] by (simp add: claim)
  moreover have "job_untouched j db1 db2"
    using update_status_untouched [OF ne, of db1 None now FAILED] failed by (metis snd_conv)
  moreover note Cons.IH [OF rest, of db1] Cons.IH [OF rest, of db2]
  ultimately show ?case
    using claim failed by (auto split: prod.split sum.split bool.split option.split intro: job_untouched_trans)
qed simp

text \<open>
  C34. Old jobs can starve. The worker looks only at the hundred newest jobs of the table, whatever their status: a
  queued job with a hundred newer jobs, finished ones included, is passed over by every later pass of the worker
  and stays queued as it is.
\<close>

theorem worker_starves_old_job:
  assumes "jobs_wf db" "100 \<le> length (filter (\<lambda>r. j < ij_id r) (jd_rows db))"
  shows "find_job j (fold (\<lambda>(start_job, now) db. snd (worker_run_once start_job max_concurrent now db)) passes db) = find_job j db"
proof -
  let ?pass = "\<lambda>(start_job, now) db. snd (worker_run_once start_job max_concurrent now db)"
  have "job_untouched j db (fold ?pass passes db)"
    using assms
  proof (induction passes arbitrary: db)
    case (Cons p passes)
    obtain start_job now where p: "p = (start_job, now)" by (cases p)
    let ?db1 = "?pass p db"
    have step: "job_untouched j db ?db1"
      unfolding p prod.case worker_run_once_def by (rule worker_start_untouched) (rule worker_window [OF Cons.prems])
    then have ids: "map ij_id (jd_rows ?db1) = map ij_id (jd_rows db)" "jd_sequence ?db1 = jd_sequence db"
      by (simp_all add: job_untouched_def)
    have count: "length (filter (\<lambda>r. j < ij_id r) rs) = length (filter (\<lambda>i. j < i) (map ij_id rs))" for rs
      by (simp add: filter_map comp_def)
    have "jobs_wf ?db1" using Cons.prems(1) by (simp add: jobs_wf_ids ids)
    moreover have "100 \<le> length (filter (\<lambda>r. j < ij_id r) (jd_rows ?db1))"
      using Cons.prems(2) by (simp only: count ids)
    ultimately have "job_untouched j ?db1 (fold ?pass passes ?db1)" by (rule Cons.IH)
    with step show ?case by (simp add: job_untouched_trans)
  qed simp
  then show ?thesis by (simp add: job_untouched_def)
qed

definition crowded_jobs :: jobs_db where
  "crowded_jobs = snd (create_jobs None (\<lambda>i. (i, i)) (replicate 101 (sample_request ''a.pdf'' ''v'')) empty_jobs_db)"

lemma crowded_rows:
  "jd_rows crowded_jobs = map (\<lambda>(k, request). new_job request (int (0 + Suc k)) (k, k)) (enumerate 0 (replicate 101 (sample_request ''a.pdf'' ''v'')))"
  unfolding crowded_jobs_def create_jobs_def by (simp add: empty_jobs_db_def Let_def)

theorem worker_starves_old_job_witness:
  "\<exists>r. find_job 1 crowded_jobs = Some r \<and> ij_status r = QUEUED \<and>
     find_job 1 (fold (\<lambda>(start_job, now) db. snd (worker_run_once start_job 1 now db))
       [(\<lambda>i. None, 500), (\<lambda>i. None, 600)] crowded_jobs) = Some r"
proof -
  have wf: "jobs_wf crowded_jobs" unfolding crowded_jobs_def by (rule create_jobs_safe) (rule jobs_wf_empty)
  have ids: "map ij_id (jd_rows crowded_jobs) = map (\<lambda>k. int (0 + Suc k)) [0..<101]"
    unfolding crowded_rows by (subst create_jobs_ids) simp
  have "length (filter (\<lambda>r. 1 < ij_id r) (jd_rows crowded_jobs)) = length (filter (\<lambda>i. 1 < i) (map ij_id (jd_rows crowded_jobs)))"
    by (simp add: filter_map comp_def)
  also have "\<dots> = 100" unfolding ids by (simp add: upt_rec)
  finally have newer: "100 \<le> length (filter (\<lambda>r. 1 < ij_id r) (jd_rows crowded_jobs))" by simp
  have "find_job 1 crowded_jobs = Some (new_job (sample_request ''a.pdf'' ''v'') 1 (0, 0))"
    unfolding find_job_def crowded_rows by (simp add: replicate_Suc [of 100, simplified] new_job_def)
  then show ?thesis
    using worker_starves_old_job [OF wf newer, of 1 "[(\<lambda>i. None, 500), (\<lambda>i. None, 600)]"]
    by (simp add: new_job_def)
qed

end
