(* ===== verification/Value_Parser.thy ===== *)
theory Value_Parser
  imports Py_Prelude
begin

text \<open>
  \<open>core/utils/value_parser.py\<close>: the parser of directive and configuration values. Lists separated by commas and
  blanks, booleans, membership in a set of names, and values with parameters in trailing parentheses, with quoted
  and \<open>[[link]]\<close> bases. The inner functions of \<open>parse_value_with_parameters\<close> are definitions of their own.
\<close>

section \<open>Lists, booleans and names\<close>

definition is_empty :: "string \<Rightarrow> bool" where
  "is_empty s \<longleftrightarrow> s = [] \<or> strip s = []"

definition normalize_string :: "string \<Rightarrow> bool \<Rightarrow> string" where
  "normalize_string s to_lower = (if to_lower then py_lower (strip s) else strip s)"

definition list_separator :: "char \<Rightarrow> bool" where
  "list_separator c \<longleftrightarrow> c = CHR '','' \<or> py_isspace c"

text \<open>\<open>re.split(r"[,\s]+", s)\<close>: the fields between maximal runs of separators.\<close>

fun split_separators :: "bool \<Rightarrow> string \<Rightarrow> string \<Rightarrow> string list" where
  "split_separators in_run buf [] = [buf]"
| "split_separators in_run buf (c # cs) =
     (if list_separator c
      then if in_run then split_separators True buf cs else buf # split_separators True [] cs
      else split_separators False (buf @ [c]) cs)"

definition parse_list :: "string \<Rightarrow> bool \<Rightarrow> string list" where
  "parse_list s to_lower =
     (if is_empty s then []
      else let items = map strip (filter (\<lambda>item. strip item \<noteq> []) (split_separators False [] (strip s)))
           in if to_lower then map py_lower items else items)"

definition parse_boolean :: "string \<Rightarrow> bool" where
  "parse_boolean s = (is_empty s \<or> py_lower (strip s) \<in> {''true'', ''yes'', ''1'', ''on''})"

definition comparison_set :: "string list \<Rightarrow> bool \<Rightarrow> string list" where
  "comparison_set valid_values to_lower = (if to_lower then map py_lower valid_values else valid_values)"

definition validate_from_set :: "string \<Rightarrow> string list \<Rightarrow> bool \<Rightarrow> bool" where
  "validate_from_set s valid_values to_lower =
     (\<not> is_empty s \<and> normalize_string s to_lower \<in> set (comparison_set valid_values to_lower))"

definition validate_list_from_set :: "string \<Rightarrow> string list \<Rightarrow> bool \<Rightarrow> bool" where
  "validate_list_from_set s valid_values to_lower =
     (let items = parse_list s to_lower
      in items \<noteq> [] \<and> list_all (\<lambda>item. item \<in> set (comparison_set valid_values to_lower)) items)"

section \<open>Parameters\<close>

definition is_quote :: "char \<Rightarrow> bool" where
  "is_quote c \<longleftrightarrow> c = CHR 0x27 \<or> c = CHR 0x22"

text \<open>The loop over the text between the parentheses; None when a quotation is left open.\<close>

definition push_token :: "string list \<Rightarrow> string \<Rightarrow> string list" where
  "push_token items buf = (let token = strip buf in if token = [] then items else items @ [token])"

fun param_tokens :: "char option \<Rightarrow> string \<Rightarrow> string list \<Rightarrow> string \<Rightarrow> string list option" where
  "param_tokens quote_char buf items [] = (if quote_char \<noteq> None then None else Some (push_token items buf))"
| "param_tokens quote_char buf items (ch # cs) =
     (if is_quote ch
      then param_tokens (case quote_char of None \<Rightarrow> Some ch | Some q \<Rightarrow> if q = ch then None else Some q) (buf @ [ch]) items cs
      else if ch = CHR '','' \<and> quote_char = None then param_tokens quote_char [] (push_token items buf) cs
      else param_tokens quote_char (buf @ [ch]) items cs)"

definition unquote :: "string \<Rightarrow> string" where
  "unquote v =
     (if 2 \<le> length v \<and> ((hd v = CHR 0x22 \<and> last v = CHR 0x22) \<or> (hd v = CHR 0x27 \<and> last v = CHR 0x27))
      then butlast (tl v) else v)"

definition param_entry :: "string \<Rightarrow> string \<times> string" where
  "param_entry item = (case str_partition (CHR ''='') item of
     (k, separator, v) \<Rightarrow> if separator \<noteq> [] then (strip k, unquote (strip v)) else (strip item, ''true''))"

fun param_dict :: "string list option \<Rightarrow> (string, string) dict \<Rightarrow> string list \<Rightarrow> (string, string) dict option" where
  "param_dict allowed d [] = Some d"
| "param_dict allowed d (item # items) =
     (case param_entry item of (k, v) \<Rightarrow>
        if k = [] then None
        else if (case allowed of None \<Rightarrow> False | Some names \<Rightarrow> names \<noteq> [] \<and> py_lower k \<notin> set names) then None
        else param_dict allowed (AList.update k v d) items)"

definition parse_parameters :: "string list option \<Rightarrow> string \<Rightarrow> (string, string) dict option" where
  "parse_parameters allowed params_str =
     (if params_str = [] then None
      else case param_tokens None [] [] params_str of
             None \<Rightarrow> None
           | Some items \<Rightarrow> if items = [] then None else param_dict allowed [] items)"

text \<open>The distance from the end of the parenthesis that matches the last one, found from the right.\<close>

fun open_distance :: "nat \<Rightarrow> nat \<Rightarrow> string \<Rightarrow> nat option" where
  "open_distance depth k [] = None"
| "open_distance depth k (c # cs) =
     (if c = CHR '')'' then open_distance (Suc depth) (Suc k) cs
      else if c = CHR ''('' then (if depth = 1 then Some k else open_distance (depth - 1) (Suc k) cs)
      else open_distance depth (Suc k) cs)"

definition split_base_and_params :: "string \<Rightarrow> string \<times> string option" where
  "split_base_and_params value_str =
     (let stripped = rstrip value_str
      in if \<not> endswith stripped '')'' then (strip value_str, None)
         else case open_distance 0 0 (rev stripped) of
                None \<Rightarrow> (strip value_str, None)
              | Some k \<Rightarrow>
                  let open_idx = length stripped - 1 - k;
                      candidate_base = rstrip (take open_idx stripped);
                      params_section = strip (butlast (drop (Suc open_idx) stripped))
                  in if candidate_base = [] then (strip value_str, None) else (candidate_base, Some params_section))"

text \<open>\<open>s.find(sub)\<close> from the start, None for \<open>-1\<close>.\<close>

fun find_str :: "string \<Rightarrow> string \<Rightarrow> nat option" where
  "find_str sub [] = (if sub = [] then Some 0 else None)"
| "find_str sub (c # cs) = (if startswith (c # cs) sub then Some 0 else map_option Suc (find_str sub cs))"

definition nonempty_params :: "string list option \<Rightarrow> string option \<Rightarrow> (string, string) dict option" where
  "nonempty_params allowed section = (case section of
     None \<Rightarrow> None | Some p \<Rightarrow> if p = [] then None else parse_parameters allowed p)"

text \<open>A quoted or \<open>[[link]]\<close> base at the front of the value, and what is left after it.\<close>

definition leading_base :: "string \<Rightarrow> (string \<times> string) option" where
  "leading_base s =
     (if startswith s ''[[''
      then map_option (\<lambda>i. (drop 2 (take i s), strip (drop (i + 2) s))) (find_str '']]'' s)
      else case s of
             c # cs \<Rightarrow> if is_quote c then map_option (\<lambda>i. (take i cs, strip (drop (Suc i) cs))) (find_str [c] cs) else None
           | [] \<Rightarrow> None)"

definition remainder_parameters :: "string list option \<Rightarrow> string \<Rightarrow> (string, string) dict" where
  "remainder_parameters allowed remainder =
     (if remainder = [] then []
      else
        let stripped = strip remainder;
            section = (if startswith stripped ''('' \<and> endswith stripped '')''
                       then Some (strip (butlast (tl stripped))) else snd (split_base_and_params remainder))
        in case nonempty_params allowed section of None \<Rightarrow> [] | Some d \<Rightarrow> d)"

definition parse_value_with_parameters :: "string \<Rightarrow> string list option \<Rightarrow> string \<times> (string, string) dict" where
  "parse_value_with_parameters raw allowed_parameters =
     (if is_empty raw then ([], [])
      else
        let v = strip raw;
            allowed = (case allowed_parameters of None \<Rightarrow> None | Some names \<Rightarrow> if names = [] then None else Some (map py_lower names));
            parameter_only = (if startswith v ''('' \<and> endswith v '')'' \<and> allowed \<noteq> None
                              then nonempty_params allowed (Some (strip (butlast (tl v)))) else None)
        in case parameter_only of
             Some d \<Rightarrow> ([], d)
           | None \<Rightarrow>
               (case leading_base v of
                  Some (base_value, remainder) \<Rightarrow> (base_value, remainder_parameters allowed remainder)
                | None \<Rightarrow>
                    (case split_base_and_params v of
                       (candidate_base, section) \<Rightarrow>
                         (case nonempty_params allowed section of None \<Rightarrow> (v, []) | Some d \<Rightarrow> (candidate_base, d)))))"

section \<open>Reading back a printed value\<close>

definition format_param :: "string \<times> string \<Rightarrow> string" where
  "format_param kv = fst kv @ ''='' @ [CHR 0x22] @ snd kv @ [CHR 0x22]"

definition format_value :: "string \<Rightarrow> (string \<times> string) list \<Rightarrow> string" where
  "format_value base params = base @ '' ('' @ str_join '', '' (map format_param params) @ '')''"

text \<open>No blank at either end.\<close>

definition trimmed :: "string \<Rightarrow> bool" where
  "trimmed s \<longleftrightarrow> s \<noteq> [] \<and> \<not> py_isspace (hd s) \<and> \<not> py_isspace (last s)"

definition no_paren :: "string \<Rightarrow> bool" where
  "no_paren s \<longleftrightarrow> CHR ''('' \<notin> set s \<and> CHR '')'' \<notin> set s"

text \<open>Parentheses that match, with some of them open at the start.\<close>

fun balanced :: "nat \<Rightarrow> string \<Rightarrow> bool" where
  "balanced depth [] = (depth = 0)"
| "balanced depth (c # cs) =
     (if c = CHR ''('' then balanced (Suc depth) cs
      else if c = CHR '')'' then depth \<noteq> 0 \<and> balanced (depth - 1) cs
      else balanced depth cs)"

lemma balanced_append: "balanced d s \<Longrightarrow> balanced 0 t \<Longrightarrow> balanced d (s @ t)"
  by (induction d s rule: balanced.induct) auto

lemma balanced_no_paren: "no_paren s \<Longrightarrow> balanced 0 s"
  by (induction s) (auto simp: no_paren_def)

definition plain_base :: "string \<Rightarrow> bool" where
  "plain_base s \<longleftrightarrow> trimmed s \<and> \<not> startswith s ''[['' \<and> \<not> is_quote (hd s) \<and> hd s \<noteq> CHR ''(''"

definition plain_key :: "string \<Rightarrow> bool" where
  "plain_key k \<longleftrightarrow> trimmed k \<and> no_paren k \<and> CHR ''='' \<notin> set k \<and> CHR '','' \<notin> set k \<and> list_all (\<lambda>c. \<not> is_quote c) k"

definition plain_text :: "string \<Rightarrow> bool" where
  "plain_text v \<longleftrightarrow> balanced 0 v \<and> CHR 0x22 \<notin> set v"

lemma rstrip_trimmed: "trimmed s \<Longrightarrow> rstrip s = s" and rstrip_blank: "trimmed s \<Longrightarrow> rstrip (s @ '' '') = s"
  by (cases s rule: rev_cases; simp add: trimmed_def rstrip_def; simp add: py_isspace_def)+

lemma strip_trimmed: "trimmed s \<Longrightarrow> strip s = s"
proof -
  assume s: "trimmed s"
  then have "lstrip s = s" by (cases s) (auto simp: trimmed_def lstrip_def)
  then show "strip s = s" using rstrip_trimmed [OF s] by (simp add: strip_def)
qed

lemma strip_blank: "trimmed s \<Longrightarrow> strip (CHR '' '' # s) = s"
proof -
  have "lstrip (CHR '' '' # s) = lstrip s" by (simp add: lstrip_def py_isspace_def)
  then show "trimmed s \<Longrightarrow> strip (CHR '' '' # s) = s" using strip_trimmed by (simp add: strip_def)
qed

lemma not_space_punct: "\<not> py_isspace (CHR '')'')" "\<not> py_isspace (CHR 0x22)"
  by (simp_all add: py_isspace_def)

lemma trimmed_format_param: "plain_key (fst kv) \<Longrightarrow> trimmed (format_param kv)"
  by (auto simp: plain_key_def trimmed_def format_param_def not_space_punct hd_append)

text \<open>Inside a quotation every character but the closing quote is kept, commas included.\<close>

lemma tokens_quoted:
  "CHR 0x22 \<notin> set v \<Longrightarrow>
   param_tokens (Some (CHR 0x22)) buf items (v @ CHR 0x22 # rest) = param_tokens None (buf @ v @ [CHR 0x22]) items rest"
  by (induction v arbitrary: buf) (auto simp: is_quote_def)

lemma tokens_key:
  "CHR '','' \<notin> set k \<Longrightarrow> list_all (\<lambda>c. \<not> is_quote c) k \<Longrightarrow>
   param_tokens None buf items (k @ rest) = param_tokens None (buf @ k) items rest"
  by (induction k arbitrary: buf) auto

lemma tokens_param:
  assumes "plain_key (fst kv)" "plain_text (snd kv)"
  shows "param_tokens None buf items (format_param kv @ rest) = param_tokens None (buf @ format_param kv) items rest"
proof -
  have "param_tokens None buf items (fst kv @ ''='' @ CHR 0x22 # snd kv @ CHR 0x22 # rest) =
      param_tokens None ((buf @ fst kv) @ ''='') items (CHR 0x22 # snd kv @ CHR 0x22 # rest)"
    using assms(1) by (simp add: plain_key_def tokens_key is_quote_def)
  also have "\<dots> = param_tokens None ((((buf @ fst kv) @ ''='') @ [CHR 0x22]) @ snd kv @ [CHR 0x22]) items rest"
    using assms(2) by (simp add: plain_text_def is_quote_def tokens_quoted [unfolded append.simps])
  finally show ?thesis by (simp add: format_param_def)
qed

lemma tokens_params:
  "\<forall>kv \<in> set (p # ps). plain_key (fst kv) \<and> plain_text (snd kv) \<Longrightarrow>
   buf = [] \<or> buf = '' '' \<Longrightarrow>
   param_tokens None buf items (str_join '', '' (map format_param (p # ps))) = Some (items @ map format_param (p # ps))"
proof (induction ps arbitrary: p buf items)
  case Nil
  have "strip (buf @ format_param p) = format_param p"
    using Nil trimmed_format_param [of p] by (auto simp: strip_trimmed strip_blank)
  moreover have "format_param p \<noteq> []" by (simp add: format_param_def)
  ultimately show ?case using tokens_param [of p buf items "[]"] Nil.prems(1) by (simp add: push_token_def)
next
  case (Cons q ps)
  let ?rest = "str_join '', '' (map format_param (q # ps))"
  have "strip (buf @ format_param p) = format_param p"
    using Cons.prems trimmed_format_param [of p] by (auto simp: strip_trimmed strip_blank)
  then have push: "push_token items (buf @ format_param p) = items @ [format_param p]"
    by (simp add: push_token_def format_param_def)
  have "param_tokens None buf items (str_join '', '' (map format_param (p # q # ps))) =
      param_tokens None (buf @ format_param p) items ('', '' @ ?rest)"
    using tokens_param [of p buf items "'', '' @ ?rest"] Cons.prems(1) by simp
  also have "\<dots> = param_tokens None '' '' (items @ [format_param p]) ?rest"
    by (simp add: is_quote_def push del: str_join.simps)
  also have "\<dots> = Some ((items @ [format_param p]) @ map format_param (q # ps))"
    using Cons.prems by (intro Cons.IH) auto
  finally show ?case by simp
qed

lemma str_partition_first:
  assumes "c \<notin> set a"
  shows "str_partition c (a @ c # b) = (a, [c], b)"
proof -
  have "takeWhile (\<lambda>x. x \<noteq> c) (a @ c # b) = a" "dropWhile (\<lambda>x. x \<noteq> c) (a @ c # b) = c # b"
    using assms by (induction a) auto
  then show ?thesis by (simp add: str_partition_def)
qed

lemma param_entry_format:
  assumes "plain_key (fst kv)" "plain_text (snd kv)"
  shows "param_entry (format_param kv) = kv"
proof -
  let ?v = "[CHR 0x22] @ snd kv @ [CHR 0x22]"
  have "CHR ''='' \<notin> set (fst kv)" using assms(1) by (simp add: plain_key_def)
  then have "str_partition (CHR ''='') (fst kv @ CHR ''='' # ?v) = (fst kv, ''='', ?v)"
    by (rule str_partition_first)
  moreover have "strip (fst kv) = fst kv" using assms(1) by (simp add: plain_key_def strip_trimmed)
  moreover have "strip ?v = ?v" by (rule strip_trimmed) (simp add: trimmed_def not_space_punct)
  moreover have "unquote ?v = snd kv" by (simp add: unquote_def)
  ultimately show ?thesis by (simp add: param_entry_def format_param_def)
qed

lemma update_fresh: "k \<notin> fst ` set d \<Longrightarrow> AList.update k v d = d @ [(k, v)]"
  by (induction d) auto

lemma param_dict_format:
  assumes "\<forall>kv \<in> set ps. plain_key (fst kv) \<and> plain_text (snd kv)" "distinct (map fst (d @ ps))"
    and "\<forall>names. allowed = Some names \<longrightarrow> (\<forall>kv \<in> set ps. py_lower (fst kv) \<in> set names)"
  shows "param_dict allowed d (map format_param ps) = Some (d @ ps)"
  using assms
proof (induction ps arbitrary: d)
  case (Cons kv ps)
  obtain k v where kv: "kv = (k, v)" by (cases kv)
  have "param_entry (format_param kv) = kv" using Cons.prems(1) by (simp add: param_entry_format)
  moreover have "k \<noteq> []" using Cons.prems(1) by (auto simp: kv plain_key_def trimmed_def)
  moreover have "AList.update k v d = d @ [kv]" using Cons.prems(2) by (simp add: kv update_fresh)
  moreover have "\<not> (case allowed of None \<Rightarrow> False | Some names \<Rightarrow> names \<noteq> [] \<and> py_lower k \<notin> set names)"
    using Cons.prems(3) by (auto simp: kv split: option.split)
  moreover have "param_dict allowed (d @ [kv]) (map format_param ps) = Some ((d @ [kv]) @ ps)"
    using Cons.prems by (intro Cons.IH) auto
  ultimately show ?case by (simp add: kv)
qed simp

lemma open_distance_scan:
  "balanced d s \<Longrightarrow> 0 < n \<Longrightarrow> open_distance n k (rev s @ rest) = open_distance (n + d) (k + length s) rest"
proof (induction d s arbitrary: k rest rule: balanced.induct)
  case (2 d c cs)
  then show ?case by (cases "c = CHR ''(''"; cases "c = CHR '')''") auto
qed simp

lemma split_base_format:
  assumes "trimmed base" "balanced 0 body" "body = [] \<or> trimmed body"
  shows "split_base_and_params (base @ '' ('' @ body @ '')'') = (base, Some body)"
proof -
  let ?s = "base @ '' ('' @ body @ '')''"
  have trim: "trimmed ?s" using assms(1) by (auto simp: trimmed_def not_space_punct hd_append)
  have rev: "rev ?s = CHR '')'' # rev body @ CHR ''('' # CHR '' '' # rev base" by simp
  have "open_distance 0 0 (rev ?s) = Some (Suc (length body))"
    unfolding rev using open_distance_scan [OF assms(2), of "Suc 0" "Suc 0"] by simp
  moreover have "endswith ?s '')''" by (simp add: endswith_def)
  moreover have "length ?s - 1 - Suc (length body) = Suc (length base)" by simp
  moreover have "take (Suc (length base)) ?s = base @ '' ''" "butlast (drop (Suc (Suc (length base))) ?s) = body"
    by (simp_all add: butlast_append)
  moreover have "strip body = body" using assms(3) strip_trimmed by auto
  moreover have "base \<noteq> []" using assms(1) by (simp add: trimmed_def)
  ultimately show ?thesis
    using rstrip_trimmed [OF trim] rstrip_blank [OF assms(1)] by (simp add: split_base_and_params_def Let_def)
qed

lemma trimmed_join:
  "\<forall>kv \<in> set (p # ps). plain_key (fst kv) \<Longrightarrow> trimmed (str_join '', '' (map format_param (p # ps)))"
proof (induction ps arbitrary: p)
  case Nil
  then show ?case using trimmed_format_param [of p] by simp
next
  case (Cons q ps)
  have "trimmed (format_param p)" using Cons.prems by (simp add: trimmed_format_param)
  moreover have "trimmed (str_join '', '' (map format_param (q # ps)))" using Cons by simp
  ultimately show ?case by (simp add: trimmed_def hd_append)
qed

lemma balanced_format_param:
  assumes "plain_key (fst kv)" "plain_text (snd kv)"
  shows "balanced 0 (format_param kv)"
proof -
  have "balanced 0 (fst kv @ ''='' @ [CHR 0x22] @ snd kv @ [CHR 0x22])"
    using assms by (intro balanced_append) (simp_all add: plain_key_def plain_text_def balanced_no_paren)
  then show ?thesis by (simp add: format_param_def)
qed

lemma balanced_join:
  "\<forall>kv \<in> set ps. plain_key (fst kv) \<and> plain_text (snd kv) \<Longrightarrow> balanced 0 (str_join '', '' (map format_param ps))"
proof (induction ps rule: induct_list012)
  case (3 p q ps)
  have "balanced 0 ('', '' @ str_join '', '' (map format_param (q # ps)))" using 3 by simp
  then show ?case using 3(3) balanced_append [OF balanced_format_param [of p]] by simp
qed (simp_all add: balanced_format_param)

text \<open>
  C29. Round trip of values with parameters. A base without blanks at its ends that does not start like a quotation, a link or
  a parenthesis, followed by at least one parameter in parentheses, parses back to the base and exactly those parameters in their
  order, when the names are distinct, hold no parentheses, commas, equals signs or quotes and are among the allowed names, if there are any, in
  any case, and the values are written in double quotes, hold none themselves and have matching parentheses; they may hold
  commas, equals signs, apostrophes and blanks.
\<close>

theorem parse_format_value:
  assumes "plain_base base" "params \<noteq> []" "distinct (map fst params)"
    and "\<forall>kv \<in> set params. plain_key (fst kv) \<and> plain_text (snd kv)"
    and "\<forall>names. allowed = Some names \<longrightarrow> (\<forall>kv \<in> set params. py_lower (fst kv) \<in> py_lower ` set names)"
  shows "parse_value_with_parameters (format_value base params) allowed = (base, params)"
proof -
  let ?body = "str_join '', '' (map format_param params)"
  let ?v = "base @ '' ('' @ ?body @ '')''"
  let ?allowed = "case allowed of None \<Rightarrow> None | Some names \<Rightarrow> if names = [] then None else Some (map py_lower names)"
  obtain p ps where params: "params = p # ps" using assms(2) by (cases params) auto
  have base: "trimmed base" "base \<noteq> []" "hd base \<noteq> CHR ''(''" using assms(1) by (auto simp: plain_base_def trimmed_def)
  have body: "trimmed ?body" "balanced 0 ?body"
    using trimmed_join [of p ps] balanced_join [of params] assms(4) by (auto simp: params)
  then have "?body \<noteq> []" by (simp add: trimmed_def)
  have "trimmed ?v" using base by (auto simp: trimmed_def not_space_punct hd_append)
  then have v: "strip ?v = ?v" "\<not> is_empty ?v" using base(2) by (simp_all add: strip_trimmed is_empty_def)
  have "param_tokens None [] [] ?body = Some (map format_param params)"
    using tokens_params [of p ps "[]" "[]"] assms(4) by (simp add: params)
  moreover have "param_dict ?allowed [] (map format_param params) = Some params"
    using param_dict_format [of params "[]" ?allowed] assms(3-5) by (auto split: option.splits)
  ultimately have parsed: "nonempty_params ?allowed (Some ?body) = Some params"
    using \<open>?body \<noteq> []\<close> assms(2) by (simp add: nonempty_params_def parse_parameters_def)
  have "\<not> startswith ?v ''[[''"
    using assms(1) base(2) by (cases base; cases "tl base") (auto simp: plain_base_def startswith_def)
  then have "leading_base ?v = None"
    using assms(1) base(2) by (cases base) (auto simp: leading_base_def plain_base_def)
  moreover have "\<not> startswith ?v ''(''" using base(2,3) by (cases base) (auto simp: startswith_def)
  moreover have "split_base_and_params ?v = (base, Some ?body)" using base(1) body by (intro split_base_format) auto
  ultimately show ?thesis using v parsed
    by (simp add: parse_value_with_parameters_def format_value_def Let_def del: append.simps)
qed

theorem parse_format_value_witness:
  "parse_value_with_parameters (format_value ''notes/a (1)'' [(''Mode'', ''x, f(y)=z''), (''note'', ''it is'')]) (Some [''mode'', ''NOTE''])
     = (''notes/a (1)'', [(''Mode'', ''x, f(y)=z''), (''note'', ''it is'')])"
proof (rule parse_format_value)
  have "py_lower ''Mode'' = ''mode''" "py_lower ''mode'' = ''mode''" "py_lower ''note'' = ''note''" "py_lower ''NOTE'' = ''note''"
    by code_simp+
  then show "\<forall>names. Some [''mode'', ''NOTE''] = Some names \<longrightarrow>
      (\<forall>kv \<in> set [(''Mode'', ''x, f(y)=z''), (''note'', ''it is'')]. py_lower (fst kv) \<in> py_lower ` set names)"
    by simp
qed (simp_all add: plain_base_def plain_key_def plain_text_def trimmed_def no_paren_def is_quote_def startswith_def py_isspace_def)

text \<open>
  The condition on parentheses is needed: the search for the opening parenthesis does not look at quotes, so a quoted value with a
  parenthesis of its own hides the parameters, and the whole text is taken for the base.
\<close>

lemma quoted_parenthesis_hides_parameters:
  "parse_value_with_parameters (format_value ''m'' [(''k'', '')'')]) None = (format_value ''m'' [(''k'', '')'')], [])"
  by code_simp

end
