(* ===== verification/Failures.thy ===== *)
theory Failures
  imports Execution_Tasks
begin

text \<open>
  The failure envelopes shared by tools and workflows (core/tools/failures.py): the classification
  of an exception and the metadata built from it. An exception is the \<open>exn_info\<close> of
  \<open>Execution_Tasks\<close>: its class name, its text, the provider error that
  \<open>provider_exception_details(exc, include_transport_errors=False)\<close> finds, and the library class the
  code tests for with the attributes it reads.
\<close>

record FailureClassification =
  fc_error_type :: string
  fc_failure_kind :: string
  fc_retryable :: bool
  fc_suggested_action :: string
  fc_phase :: string
  fc_message :: string
  fc_http_status :: "int option"
  fc_retry_after :: "string option"
  fc_metadata :: metadata

definition to_metadata :: "FailureClassification \<Rightarrow> metadata" where
  "to_metadata c =
     (let payload = [(''status'', JStr ''failed''), (''error_type'', JStr (fc_error_type c)),
                     (''failure_kind'', JStr (fc_failure_kind c)), (''retryable'', JBool (fc_retryable c)),
                     (''phase'', JStr (fc_phase c)), (''suggested_action'', JStr (fc_suggested_action c))];
          payload = (case fc_http_status c of
                       None \<Rightarrow> payload | Some n \<Rightarrow> AList.update ''http_status'' (JInt n) payload);
          payload = (case fc_retry_after c of
                       None \<Rightarrow> payload
                     | Some t \<Rightarrow> if t = [] then payload else AList.update ''retry_after'' (JStr t) payload)
      in if fc_metadata c = [] then payload else dict_update payload (fc_metadata c))"

text \<open>The line boundaries of \<open>str.splitlines\<close>, a carriage return and line feed being one.\<close>

definition is_line_break :: "char \<Rightarrow> bool" where
  "is_line_break c = (of_char c \<in> {10, 11, 12, 13, 28, 29, 30, 133 :: nat})"

fun lines_from :: "string \<Rightarrow> string \<Rightarrow> string list" where
  "lines_from line [] = (if line = [] then [] else [line])"
| "lines_from line [c] = (if is_line_break c then [line] else [line @ [c]])"
| "lines_from line (c # d # cs) =
     (if c = CHR 0x0D \<and> d = CHR 0x0A then line # lines_from [] cs
      else if is_line_break c then line # lines_from [] (d # cs)
      else lines_from (line @ [c]) (d # cs))"

definition splitlines :: "string \<Rightarrow> string list" where
  "splitlines s = lines_from [] s"

definition bounded_failure_message :: "string \<Rightarrow> nat \<Rightarrow> string" where
  "bounded_failure_message value limit =
     (let message = str_join '' '' (splitlines value)
      in if length message \<le> limit then message else take limit message @ ''...'')"

section \<open>Exception chains\<close>

text \<open>
  The loop of \<open>_exception_chain_contains\<close>: \<open>__cause__\<close> before \<open>__context__\<close>, no node twice. A
  reference outside the list does not occur.
\<close>

function exception_chain_contains :: "exn_chain \<Rightarrow> nat list \<Rightarrow> nat option \<Rightarrow> bool" where
  "exception_chain_contains chain seen current =
     (case current of
        None \<Rightarrow> False
      | Some i \<Rightarrow>
          if i \<in> set seen \<or> length chain \<le> i then False
          else (case chain ! i of (matches, cause, context) \<Rightarrow>
                  matches \<or> exception_chain_contains chain (i # seen) (case cause of None \<Rightarrow> context | Some j \<Rightarrow> Some j)))"
  by pat_completeness auto
termination
  by (relation "measure (\<lambda>(chain, seen, _). card ({..<length chain} - set seen))")
    (use unseen_card_less in \<open>auto simp del: set_simps\<close>)

declare exception_chain_contains.simps [simp del]

section \<open>Classification\<close>

definition contains_any :: "string list \<Rightarrow> string \<Rightarrow> bool" where
  "contains_any tokens text = list_ex (\<lambda>token. str_contains token text) tokens"

text \<open>An \<open>openai.APIStatusError\<close>.\<close>

definition classify_openai_status :: "exn_info \<Rightarrow> string \<Rightarrow> string \<Rightarrow> int \<Rightarrow> string option \<Rightarrow> FailureClassification" where
  "classify_openai_status exc phase message status_code retry_after =
     (if status_code = 429
      then \<lparr>fc_error_type = exn_type exc, fc_failure_kind = ''rate_limited'', fc_retryable = True,
         fc_suggested_action = ''Retry after the provider rate-limit window.'',
         fc_phase = phase, fc_message = message, fc_http_status = Some status_code, fc_retry_after = retry_after, fc_metadata = []\<rparr>
      else if status_code \<in> {408, 409} \<or> (500 \<le> status_code \<and> status_code \<le> 599)
      then \<lparr>fc_error_type = exn_type exc, fc_failure_kind = ''provider_unavailable'', fc_retryable = True,
         fc_suggested_action = ''Retry the request; use another model/provider if the failure continues.'',
         fc_phase = phase, fc_message = message, fc_http_status = Some status_code, fc_retry_after = retry_after, fc_metadata = []\<rparr>
      else if status_code \<in> {401, 403}
      then \<lparr>fc_error_type = exn_type exc, fc_failure_kind = ''configuration'', fc_retryable = False,
         fc_suggested_action = ''Check the model provider secret and account access before retrying.'',
         fc_phase = phase, fc_message = message, fc_http_status = Some status_code, fc_retry_after = None, fc_metadata = []\<rparr>
      else \<lparr>fc_error_type = exn_type exc, fc_failure_kind = ''bad_request'', fc_retryable = False,
         fc_suggested_action = ''Change the model request or selected model before retrying.'',
         fc_phase = phase, fc_message = message, fc_http_status = Some status_code, fc_retry_after = None, fc_metadata = []\<rparr>)"

text \<open>A \<open>ModelHTTPError\<close>.\<close>

definition classify_model_http :: "exn_info \<Rightarrow> string \<Rightarrow> string \<Rightarrow> int \<Rightarrow> string \<Rightarrow> string \<Rightarrow> FailureClassification" where
  "classify_model_http exc phase message status_code body_text model_name =
     (let lowered = py_lower body_text
      in if status_code = 429
      then \<lparr>fc_error_type = exn_type exc, fc_failure_kind = ''rate_limited'', fc_retryable = True,
         fc_suggested_action = ''Retry after the provider rate-limit window.'',
         fc_phase = phase, fc_message = message, fc_http_status = Some status_code, fc_retry_after = None, fc_metadata = [(''model_name'', JStr model_name)]\<rparr>
      else if 500 \<le> status_code \<and> status_code \<le> 599
      then \<lparr>fc_error_type = exn_type exc, fc_failure_kind = ''provider_unavailable'', fc_retryable = True,
         fc_suggested_action = ''Retry with backoff; use another model/provider if the outage continues.'',
         fc_phase = phase, fc_message = message, fc_http_status = Some status_code, fc_retry_after = None, fc_metadata = [(''model_name'', JStr model_name)]\<rparr>
      else if status_code \<in> {401, 403} \<or> contains_any [''api key'', ''unauthorized'', ''forbidden'', ''authentication''] lowered
      then \<lparr>fc_error_type = exn_type exc, fc_failure_kind = ''configuration'', fc_retryable = False,
         fc_suggested_action = ''Check the model provider secret and account access before retrying.'',
         fc_phase = phase, fc_message = message, fc_http_status = Some status_code, fc_retry_after = None, fc_metadata = [(''model_name'', JStr model_name)]\<rparr>
      else if contains_any [''credit'', ''billing'', ''balance'', ''quota''] lowered
      then \<lparr>fc_error_type = exn_type exc, fc_failure_kind = ''billing'', fc_retryable = False,
         fc_suggested_action = ''Check provider billing, credits, or quota before retrying; switch models/providers if another configured option is available.'',
         fc_phase = phase, fc_message = message, fc_http_status = Some status_code, fc_retry_after = None, fc_metadata = [(''model_name'', JStr model_name)]\<rparr>
      else \<lparr>fc_error_type = exn_type exc, fc_failure_kind = ''bad_request'', fc_retryable = False,
         fc_suggested_action = ''Change the model request or selected model before retrying.'',
         fc_phase = phase, fc_message = message, fc_http_status = Some status_code, fc_retry_after = None, fc_metadata = [(''model_name'', JStr model_name)]\<rparr>)"

text \<open>An \<open>httpx.HTTPStatusError\<close>.\<close>

definition classify_httpx_status :: "exn_info \<Rightarrow> string \<Rightarrow> string \<Rightarrow> int \<Rightarrow> string option \<Rightarrow> FailureClassification" where
  "classify_httpx_status exc phase message status_code retry_after =
     (if status_code = 429
      then \<lparr>fc_error_type = exn_type exc, fc_failure_kind = ''rate_limited'', fc_retryable = True,
         fc_suggested_action = ''Retry after the provider rate-limit window, respecting Retry-After when present.'',
         fc_phase = phase, fc_message = message, fc_http_status = Some status_code, fc_retry_after = retry_after, fc_metadata = []\<rparr>
      else if 500 \<le> status_code \<and> status_code \<le> 599
      then \<lparr>fc_error_type = exn_type exc, fc_failure_kind = ''provider_unavailable'', fc_retryable = True,
         fc_suggested_action = ''Retry with backoff; use another source if the provider remains unavailable.'',
         fc_phase = phase, fc_message = message, fc_http_status = Some status_code, fc_retry_after = retry_after, fc_metadata = []\<rparr>
      else if status_code \<in> {401, 403}
      then \<lparr>fc_error_type = exn_type exc, fc_failure_kind = ''configuration'', fc_retryable = False,
         fc_suggested_action = ''Check the provider secret, account access, or tool configuration before retrying.'',
         fc_phase = phase, fc_message = message, fc_http_status = Some status_code, fc_retry_after = None, fc_metadata = []\<rparr>
      else \<lparr>fc_error_type = exn_type exc, fc_failure_kind = ''bad_request'', fc_retryable = False,
         fc_suggested_action = ''Change the request parameters before retrying.'',
         fc_phase = phase, fc_message = message, fc_http_status = Some status_code, fc_retry_after = None, fc_metadata = []\<rparr>)"

text \<open>What is left is told apart by its text.\<close>

definition classify_by_text :: "exn_info \<Rightarrow> string \<Rightarrow> string \<Rightarrow> FailureClassification" where
  "classify_by_text exc phase message =
     (let lowered = py_lower (exn_str exc)
      in if str_contains ''overloaded'' lowered
      then \<lparr>fc_error_type = exn_type exc, fc_failure_kind = ''provider_overloaded'', fc_retryable = True,
         fc_suggested_action = ''Retry with backoff; use another model/provider if capacity pressure continues.'',
         fc_phase = phase, fc_message = message, fc_http_status = None, fc_retry_after = None, fc_metadata = []\<rparr>
      else if contains_any [''timeout'', ''temporarily'', ''rate limit'', ''too many requests''] lowered
      then \<lparr>fc_error_type = exn_type exc, fc_failure_kind = ''transient_provider'', fc_retryable = True,
         fc_suggested_action = ''Retry with backoff; reduce request scope if the failure repeats.'',
         fc_phase = phase, fc_message = message, fc_http_status = None, fc_retry_after = None, fc_metadata = []\<rparr>
      else if contains_any [''api key'', ''unauthorized'', ''forbidden'', ''authentication'', ''oauth'', ''connected account''] lowered
      then \<lparr>fc_error_type = exn_type exc, fc_failure_kind = ''configuration'', fc_retryable = False,
         fc_suggested_action = ''Check the provider secret, account access, or tool configuration before retrying.'',
         fc_phase = phase, fc_message = message, fc_http_status = None, fc_retry_after = None, fc_metadata = []\<rparr>
      else if contains_any [''credit'', ''billing'', ''balance'', ''quota''] lowered
      then \<lparr>fc_error_type = exn_type exc, fc_failure_kind = ''billing'', fc_retryable = False,
         fc_suggested_action = ''Check provider billing, credits, or quota before retrying; switch providers if another configured option is available.'',
         fc_phase = phase, fc_message = message, fc_http_status = None, fc_retry_after = None, fc_metadata = []\<rparr>
      else \<lparr>fc_error_type = exn_type exc, fc_failure_kind = ''unknown'', fc_retryable = False,
         fc_suggested_action = ''Inspect the error details and adjust the request or configuration before retrying.'',
         fc_phase = phase, fc_message = message, fc_http_status = None, fc_retry_after = None, fc_metadata = []\<rparr>)"

text \<open>A \<open>ModelAPIError\<close> that is not a \<open>ModelHTTPError\<close>; one that neither test recognizes falls through.\<close>

definition classify_model_api :: "exn_info \<Rightarrow> string \<Rightarrow> string \<Rightarrow> string \<Rightarrow> exn_chain \<Rightarrow> FailureClassification" where
  "classify_model_api exc phase message model_name chain =
     (if exception_chain_contains chain [] (Some 0)
      then \<lparr>fc_error_type = exn_type exc, fc_failure_kind = ''configuration'', fc_retryable = False,
         fc_suggested_action = ''Configure the provider base URL as a complete http:// or https:// URL before retrying.'',
         fc_phase = phase, fc_message = message, fc_http_status = None, fc_retry_after = None, fc_metadata = [(''model_name'', JStr model_name)]\<rparr>
      else if contains_any [''connection error'', ''connection closed'', ''connection reset'', ''disconnected'', ''network error'']
                (py_lower (exn_str exc))
      then \<lparr>fc_error_type = exn_type exc, fc_failure_kind = ''transient_network'', fc_retryable = True,
         fc_suggested_action = ''Retry with backoff; check network connectivity if failures continue.'',
         fc_phase = phase, fc_message = message, fc_http_status = None, fc_retry_after = None, fc_metadata = [(''model_name'', JStr model_name)]\<rparr>
      else classify_by_text exc phase message)"

definition classify_exception :: "exn_info \<Rightarrow> string \<Rightarrow> FailureClassification" where
  "classify_exception exc phase =
     (let message = (case exn_provider_error exc of None \<Rightarrow> exn_str exc | Some m \<Rightarrow> m)
      in case exn_class exc of
           ModelStreamIdleTimeout timeout_seconds \<Rightarrow>
             \<lparr>fc_error_type = exn_type exc, fc_failure_kind = ''model_stream_idle_timeout'', fc_retryable = True,
         fc_suggested_action = ''Retry the request or switch models/providers if the stream repeatedly stops producing usable events.'',
         fc_phase = phase, fc_message = message, fc_http_status = None, fc_retry_after = None, fc_metadata = [(''idle_timeout_seconds'', JFloat timeout_seconds)]\<rparr>
         | UsageLimitExceeded \<Rightarrow>
             \<lparr>fc_error_type = exn_type exc, fc_failure_kind = ''execution_limit'', fc_retryable = False,
         fc_suggested_action = ''Do not retry the same broad request. Split the work into smaller scoped steps or raise the configured execution limit if the scope is intentional.'',
         fc_phase = phase, fc_message = message, fc_http_status = None, fc_retry_after = None, fc_metadata = []\<rparr>
         | OpenAI_APIStatusError status_code retry_after \<Rightarrow> classify_openai_status exc phase message status_code retry_after
         | OpenAI_APIError \<Rightarrow>
             \<lparr>fc_error_type = exn_type exc, fc_failure_kind = ''transient_provider'', fc_retryable = True,
         fc_suggested_action = ''Retry the request; use another model/provider if the failure continues.'',
         fc_phase = phase, fc_message = message, fc_http_status = None, fc_retry_after = None, fc_metadata = []\<rparr>
         | ModelHTTPError status_code body_text model_name \<Rightarrow>
             classify_model_http exc phase message status_code body_text model_name
         | ModelAPIError model_name chain \<Rightarrow> classify_model_api exc phase message model_name chain
         | UnexpectedModelBehavior \<Rightarrow>
             if str_contains ''streamed response ended without content or tool calls'' (py_lower (exn_str exc))
             then \<lparr>fc_error_type = exn_type exc, fc_failure_kind = ''transient_provider'', fc_retryable = True,
         fc_suggested_action = ''Retry with backoff; use another model/provider if the stream remains incomplete.'',
         fc_phase = phase, fc_message = message, fc_http_status = None, fc_retry_after = None, fc_metadata = []\<rparr>
             else classify_by_text exc phase message
         | HTTPX_TimeoutException \<Rightarrow>
             \<lparr>fc_error_type = exn_type exc, fc_failure_kind = ''transient_network'', fc_retryable = True,
         fc_suggested_action = ''Retry with backoff, or narrow the request if repeated timeouts occur.'',
         fc_phase = phase, fc_message = message, fc_http_status = None, fc_retry_after = None, fc_metadata = []\<rparr>
         | HTTPX_HTTPStatusError status_code retry_after \<Rightarrow> classify_httpx_status exc phase message status_code retry_after
         | HTTPX_RequestError \<Rightarrow>
             \<lparr>fc_error_type = exn_type exc, fc_failure_kind = ''transient_network'', fc_retryable = True,
         fc_suggested_action = ''Retry with backoff; check network connectivity if failures continue.'',
         fc_phase = phase, fc_message = message, fc_http_status = None, fc_retry_after = None, fc_metadata = []\<rparr>
         | Plain_Exception \<Rightarrow> classify_by_text exc phase message)"

section \<open>Tool results\<close>

text \<open>The values of an outcome or of a status entry, as JSON; \<open>str(x or d)\<close>.\<close>

definition text_or :: "json \<Rightarrow> string \<Rightarrow> string" where
  "text_or v d = (if truthy v then py_str v else d)"

definition json_get :: "string \<Rightarrow> metadata \<Rightarrow> json" where
  "json_get k m = (case map_of m k of None \<Rightarrow> JNull | Some v \<Rightarrow> v)"

definition classify_tool_result_state :: "json \<Rightarrow> metadata option \<Rightarrow> string" where
  "classify_tool_result_state outcome metadata =
     (let normalized_outcome = py_lower (strip (text_or outcome ''success''))
      in if normalized_outcome = ''interrupted'' then ''interrupted''
         else let result_metadata = (case metadata of None \<Rightarrow> [] | Some m \<Rightarrow> m);
                  raw = (if truthy (json_get ''status'' result_metadata) then json_get ''status'' result_metadata
                         else json_get ''state'' result_metadata);
                  status = py_lower (strip (text_or raw []))
              in if status \<in> {''cancelled'', ''interrupted''} then ''interrupted''
                 else if normalized_outcome \<in> {''failed'', ''denied''} \<or>
                         status \<in> {''error'', ''failed'', ''failure'', ''denied''} then ''failed''
                 else ''completed'')"

record ToolReturn =
  tl_return_value :: string
  tl_metadata :: metadata

definition tool_failure_return ::
  "string \<Rightarrow> string \<Rightarrow> FailureClassification \<Rightarrow> metadata option \<Rightarrow> bool \<Rightarrow> ToolReturn" where
  "tool_failure_return tool_name message classification metadata include_suggested_action =
     (let payload = AList.update ''tool_name'' (JStr tool_name) (to_metadata classification);
          payload = (case metadata of None \<Rightarrow> payload | Some m \<Rightarrow> dict_update payload m);
          detail = strip (fc_message classification);
          return_value = (if detail = [] then message else message @ '': '' @ detail);
          action = strip (fc_suggested_action classification);
          return_value = (if include_suggested_action \<and> action \<noteq> [] then return_value @ '' '' @ action else return_value)
      in \<lparr>tl_return_value = return_value, tl_metadata = payload\<rparr>)"

section \<open>Envelopes are recognized\<close>

lemma classification_metadata_keys:
  "map_of (fc_metadata (classify_exception exc phase)) ''status'' = None"
proof -
  have plain: "fc_metadata (classify_by_text exc phase m) = []" for m
    by (simp add: classify_by_text_def Let_def)
  have model: "map_of (fc_metadata (classify_model_http exc phase m st body n)) ''status'' = None"
    "map_of (fc_metadata (classify_model_api exc phase m n chain)) ''status'' = None" for m st body n chain
    by (simp_all add: classify_model_http_def classify_model_api_def plain Let_def)
  show ?thesis
    by (cases "exn_class exc")
      (simp_all add: classify_exception_def classify_openai_status_def classify_httpx_status_def plain model Let_def)
qed

lemma to_metadata_status:
  assumes "map_of (fc_metadata c) ''status'' = None"
  shows "map_of (to_metadata c) ''status'' = Some (JStr ''failed'')"
proof -
  have "map_of (rev (fc_metadata c)) ''status'' = None" using assms by (simp add: map_of_eq_None_iff)
  then show ?thesis
    by (simp add: to_metadata_def Let_def map_of_dict_update map_add_def update_conv' split: option.splits)
qed

text \<open>
  A failure is not mistaken for a success: the envelope that \<open>tool_failure_return\<close> builds from any
  exception is classified as failed by \<open>classify_tool_result_state\<close>, although the tool call itself went
  through, as long as the extra metadata does not carry a status of its own.
\<close>

theorem failure_envelope_recognized:
  assumes "case extra of None \<Rightarrow> True | Some m \<Rightarrow> map_of m ''status'' = None"
  shows "classify_tool_result_state (JStr ''success'')
           (Some (tl_metadata (tool_failure_return tool message (classify_exception exc phase) extra include_action))) = ''failed''"
proof -
  let ?m = "tl_metadata (tool_failure_return tool message (classify_exception exc phase) extra include_action)"
  have "map_of (rev e) ''status'' = None" if "map_of e ''status'' = None" for e :: metadata
    using that by (simp add: map_of_eq_None_iff)
  then have "map_of ?m ''status'' = Some (JStr ''failed'')"
    using assms to_metadata_status [OF classification_metadata_keys]
    by (cases extra) (simp_all add: tool_failure_return_def Let_def map_of_dict_update map_add_def update_conv')
  then have "json_get ''status'' ?m = JStr ''failed''" by (simp add: json_get_def)
  moreover have "py_lower (strip ''failed'') = ''failed''" "py_lower (strip ''success'') = ''success''" by code_simp+
  ultimately show ?thesis by (simp add: classify_tool_result_state_def text_or_def Let_def)
qed

theorem failure_envelope_recognized_witness:
  "classify_tool_result_state (JStr ''success'')
     (Some (tl_metadata (tool_failure_return ''web'' ''Search failed''
        (classify_exception \<lparr>exn_type = ''ConnectTimeout'', exn_str = ''slow'', exn_provider_error = None,
           exn_class = HTTPX_TimeoutException\<rparr> ''tool_execution'') (Some [(''query'', JStr ''q'')]) True))) = ''failed''"
  by (rule failure_envelope_recognized) simp

end
