(* ===== verification/Workflow_Execution.thy ===== *)
theory Workflow_Execution
  imports Runner_Shell Failures
begin

text \<open>
  Running one workflow (core/authoring/workflow_execution.py): the normalized result, the resolution
  of a workflow file inside a vault, and the two ways to execute a workflow. The loader, the template
  interpreter and the file system are not under the model: they are arguments. Paths are strings.
\<close>

section \<open>Data\<close>

record WorkflowExecutionResult =
  we_success :: bool
  we_global_id :: string
  we_status :: string
  we_execution_time_seconds :: py_seconds
  we_output_files :: "string list"
  we_reason :: "string option"
  we_details :: "string list"
  we_message :: string

definition result_to_dict :: "WorkflowExecutionResult \<Rightarrow> metadata" where
  "result_to_dict r =
     [(''success'', JBool (we_success r)), (''global_id'', JStr (we_global_id r)), (''status'', JStr (we_status r)),
      (''execution_time_seconds'', JFloat (to_repr (we_execution_time_seconds r))),
      (''output_files'', JList (map JStr (we_output_files r))), (''reason'', json_of_opt (we_reason r)),
      (''details'', JList (map JStr (we_details r))), (''message'', JStr (we_message r))]"

record WorkflowExecutionTarget =
  wt_global_id :: string
  wt_vault_name :: string
  wt_workflow_name :: string
  wt_vault_relative_path :: string
  wt_vault_root :: string
  wt_file_path :: string

definition quoted :: "string \<Rightarrow> string" where
  "quoted s = [CHR 0x27] @ s @ [CHR 0x27]"

section \<open>Resolving a workflow file\<close>

text \<open>
  What the file system and the template loader answer: \<open>Path(...).resolve()\<close>,
  \<open>resolve_vault_relative_path(..., markdown_only=True)\<close>, \<open>is_file()\<close>, the frontmatter's \<open>run_type\<close>
  and \<open>relative_to(root).as_posix()\<close>.
\<close>

record workflow_files =
  vf_root :: "string \<Rightarrow> string"
  vf_resolve :: "string \<Rightarrow> string \<Rightarrow> string result"
  vf_is_file :: "string \<Rightarrow> bool"
  vf_run_type :: "string \<Rightarrow> json result"
  vf_relative :: "string \<Rightarrow> string \<Rightarrow> string"

definition slashes :: "string \<Rightarrow> string" where
  "slashes = map (\<lambda>c. if c = CHR 0x5C then CHR ''/'' else c)"

definition resolve_vault_workflow_target ::
  "workflow_files \<Rightarrow> string \<Rightarrow> string \<Rightarrow> string \<Rightarrow> WorkflowExecutionTarget result" where
  "resolve_vault_workflow_target files vault_path vault_name workflow_path =
     (let normalized = slashes (strip workflow_path)
      in if normalized = [] then Inl (ValueError ''workflow_path is required'')
         else if \<not> endswith (py_lower normalized) ''.md''
         then Inl (ValueError ''workflow_path must reference a Markdown (.md) file'')
         else let vault_root = vf_root files vault_path
              in rbind (vf_resolve files vault_root normalized) (\<lambda>file_path.
                   if \<not> vf_is_file files file_path then Inl (ValueError (''Workflow file not found: '' @ normalized))
                   else rbind (vf_run_type files file_path) (\<lambda>run_type.
                     if py_lower (strip (text_or run_type [])) \<noteq> ''workflow''
                     then Inl (ValueError ''Vault-relative workflow files must declare run_type: workflow'')
                     else let relative_path = vf_relative files vault_root file_path;
                              workflow_name = ''@path:'' @ relative_path
                          in Inr \<lparr>wt_global_id = vault_name @ ''/'' @ workflow_name, wt_vault_name = vault_name,
                                  wt_workflow_name = workflow_name, wt_vault_relative_path = relative_path,
                                  wt_vault_root = vault_root, wt_file_path = file_path\<rparr>)))"

section \<open>Loader errors\<close>

record configuration_error =
  ce_vault :: string
  ce_workflow_name :: "string option"
  ce_error_type :: string
  ce_error_message :: string
  ce_file_path :: string

definition error_key :: "configuration_error \<Rightarrow> string \<times> string \<times> string" where
  "error_key e = (ce_error_type e, ce_error_message e, ce_file_path e)"

fun dedup_errors :: "(string \<times> string \<times> string) list \<Rightarrow> configuration_error list \<Rightarrow> configuration_error list" where
  "dedup_errors seen [] = []"
| "dedup_errors seen (e # es) =
     (if error_key e \<in> set seen then dedup_errors seen es else e # dedup_errors (error_key e # seen) es)"

definition error_line :: "configuration_error \<Rightarrow> string" where
  "error_line e = ''- ['' @ ce_error_type e @ ''] '' @ ce_error_message e @ '' (file: '' @ ce_file_path e @ '')''"

definition format_workflow_load_errors :: "configuration_error list \<Rightarrow> string \<Rightarrow> string" where
  "format_workflow_load_errors errors global_id =
     (if CHR ''/'' \<notin> set global_id then []
      else case str_partition (CHR ''/'') global_id of (vault, _, name) \<Rightarrow>
        (let matches = filter (\<lambda>e. ce_vault e = vault \<and> (ce_workflow_name e = Some name \<or> ce_workflow_name e = None)) errors
         in if matches = [] then []
            else let deduped = dedup_errors [] matches;
                     lines = [''workflow_configuration_errors:''] @ map error_line (take 5 deduped) @
                             (if length deduped > 5
                              then [''- ... and '' @ show_nat (length deduped - 5) @ '' more''] else [])
                 in str_join [CHR 0x0A] lines))"

section \<open>Execution\<close>

text \<open>
  What \<open>run_authoring_template\<close> gives: status and reason (\<open>None\<close> and the empty text are alike to
  the code), and the time it took, also as \<open>f"{elapsed:.2f}"\<close>.
\<close>

record template_run =
  tpl_status :: string
  tpl_reason :: string
  tpl_elapsed :: py_seconds
  tpl_elapsed_2f :: string

record loaded_workflow =
  lw_global_id :: string
  lw_file_path :: string

text \<open>The loader and the interpreter, each an effect on the state the caller runs in.\<close>

record 'x workflow_host =
  wh_load_workflows :: "string \<Rightarrow> (loaded_workflow list, 'x) effect"
  wh_configuration_errors :: "'x ExecutionTaskRunner_scheme \<Rightarrow> configuration_error list"
  wh_ensure_directories :: "loaded_workflow \<Rightarrow> (unit, 'x) effect"
  wh_run_template :: "string \<Rightarrow> string \<Rightarrow> string option \<Rightarrow> bool \<Rightarrow> (template_run, 'x) effect"
  wh_files :: workflow_files

definition terminal_status_of :: "template_run \<Rightarrow> string" where
  "terminal_status_of t = py_lower (strip (if tpl_status t = [] then ''completed'' else tpl_status t))"

definition template_result :: "string \<Rightarrow> string \<Rightarrow> string list \<Rightarrow> template_run \<Rightarrow> WorkflowExecutionResult" where
  "template_result global_id shown details t =
     (let terminal_status = terminal_status_of t
      in \<lparr>we_success = (terminal_status \<in> {''completed'', ''skipped''}), we_global_id = global_id,
          we_status = terminal_status, we_execution_time_seconds = tpl_elapsed t, we_output_files = [],
          we_reason = (if tpl_reason t = [] then None else Some (tpl_reason t)), we_details = details,
          we_message = ''Workflow '' @ quoted shown @ '' '' @ terminal_status @ '' in '' @ tpl_elapsed_2f t @ '' seconds'' @
            (if tpl_reason t = [] then [] else '': '' @ tpl_reason t)\<rparr>)"

text \<open>\<open>raise ValueError(message) from exc\<close>: the provider error of the cause is found through the new exception.\<close>

definition value_error_from :: "string \<Rightarrow> exn_info \<Rightarrow> exn_info" where
  "value_error_from message exc = (exn_info_of (ValueError message))\<lparr>exn_provider_error := exn_provider_error exc\<rparr>"

definition load_failure :: "bool \<Rightarrow> configuration_error list \<Rightarrow> string \<Rightarrow> exn_info \<Rightarrow> exn_info" where
  "load_failure include_load_errors errors global_id exc =
     (let load_errors = format_workflow_load_errors errors global_id
      in if include_load_errors \<and> load_errors \<noteq> []
         then value_error_from (''Workflow load failed for '' @ quoted global_id @ '': '' @ exn_str exc @ [CHR 0x0A] @ load_errors) exc
         else exc)"

definition execute_workflow_by_id ::
  "'x workflow_host \<Rightarrow> string \<Rightarrow> string option \<Rightarrow> bool \<Rightarrow> bool \<Rightarrow> (WorkflowExecutionResult, 'x) effect" where
  "execute_workflow_by_id host global_id step_name expect_failure include_load_errors s =
     (if CHR ''/'' \<notin> set global_id
      then (Body_Raises (exn_info_of (ValueError
              (''Invalid global_id format. Expected '' @ quoted ''vault/name'' @ '', got: '' @ global_id))), s)
      else case wh_load_workflows host global_id s of
        (Body_Cancelled, s1) \<Rightarrow> (Body_Cancelled, s1)
      | (Body_Raises exc, s1) \<Rightarrow>
          (Body_Raises (load_failure include_load_errors (wh_configuration_errors host s1) global_id exc), s1)
      | (Body_Returns [], s1) \<Rightarrow> (Body_Raises (exn_info_of (ValueError (''Workflow not found: '' @ global_id))), s1)
      | (Body_Returns (target # _), s1) \<Rightarrow>
          (case wh_ensure_directories host target s1 of
             (Body_Cancelled, s2) \<Rightarrow> (Body_Cancelled, s2)
           | (Body_Raises exc, s2) \<Rightarrow> (Body_Raises exc, s2)
           | (Body_Returns _, s2) \<Rightarrow>
               (case wh_run_template host (lw_global_id target) (lw_file_path target) step_name expect_failure s2 of
                  (Body_Cancelled, s3) \<Rightarrow> (Body_Cancelled, s3)
                | (Body_Raises exc, s3) \<Rightarrow> (Body_Raises exc, s3)
                | (Body_Returns t, s3) \<Rightarrow>
                    (Body_Returns (template_result (lw_global_id target) (lw_global_id target) [] t), s3))))"

definition execute_workflow_target ::
  "'x workflow_host \<Rightarrow> WorkflowExecutionTarget \<Rightarrow> string option \<Rightarrow> bool \<Rightarrow> (WorkflowExecutionResult, 'x) effect" where
  "execute_workflow_target host target step_name expect_failure s =
     (case resolve_vault_workflow_target (wh_files host) (wt_vault_root target) (wt_vault_name target)
             (wt_vault_relative_path target) of
        Inl e \<Rightarrow> (Body_Raises (exn_info_of e), s)
      | Inr target \<Rightarrow>
          (case wh_run_template host (wt_global_id target) (wt_file_path target) step_name expect_failure s of
             (Body_Cancelled, s1) \<Rightarrow> (Body_Cancelled, s1)
           | (Body_Raises exc, s1) \<Rightarrow> (Body_Raises exc, s1)
           | (Body_Returns t, s1) \<Rightarrow>
               (Body_Returns (template_result (wt_global_id target) (wt_vault_relative_path target)
                  [''workflow_path: '' @ wt_vault_relative_path target] t), s1)))"

end
