(* ===== verification/Workflow_Governor.thy ===== *)
theory Workflow_Governor
  imports Runner_Gates Workflow_Execution Workflow_Runs
begin

text \<open>
  The workflow governor (core/runtime/workflow_governor.py): one workflow run from the request to the
  closed books, across the task coordinator, the vault gate of the task runner, the global semaphore
  and the run history. The governor's state extends the runner's with the run table, the readings of
  the store's clock, the semaphore and the governor's log.

  Suspension points are arguments, as in \<open>Runner_Shell\<close>: the wait for the gate, the wait for a permit and
  the workflow itself. Coordinator operations do not suspend, and \<open>update_metadata\<close> does not raise, so
  the handler around the first one (phase \<open>workflow_setup\<close>) is never entered.
\<close>

section \<open>The semaphore of asyncio\<close>

text \<open>
  \<open>asyncio.Semaphore\<close> of Python 3.13: its value, the tasks whose future is pending, and those whose
  future is resolved but that have not run since.
\<close>

record semaphore =
  sem_value :: nat
  sem_pending :: "string list"
  sem_woken :: "string list"

definition sem_locked :: "semaphore \<Rightarrow> bool" where
  "sem_locked m \<longleftrightarrow> sem_value m = 0 \<or> sem_pending m \<noteq> [] \<or> sem_woken m \<noteq> []"

text \<open>\<open>_wake_up_next\<close> for a positive value, and the loop that wakes as many as the value allows.\<close>

fun sem_wake :: "nat \<Rightarrow> string list \<Rightarrow> string list \<Rightarrow> semaphore" where
  "sem_wake (Suc n) (t # ts) woken = sem_wake n ts (woken @ [t])"
| "sem_wake n ts woken = \<lparr>sem_value = n, sem_pending = ts, sem_woken = woken\<rparr>"

definition sem_release :: "semaphore \<Rightarrow> semaphore" where
  "sem_release m =
     (case sem_pending m of
        [] \<Rightarrow> m\<lparr>sem_value := Suc (sem_value m)\<rparr>
      | t # ts \<Rightarrow> m\<lparr>sem_pending := ts, sem_woken := sem_woken m @ [t]\<rparr>)"

text \<open>\<open>acquire\<close> up to its suspension: whether the permit was taken at once.\<close>

definition sem_enter :: "string \<Rightarrow> semaphore \<Rightarrow> bool \<times> semaphore" where
  "sem_enter tid m =
     (if sem_locked m then (False, m\<lparr>sem_pending := sem_pending m @ [tid]\<rparr>)
      else (True, m\<lparr>sem_value := sem_value m - 1\<rparr>))"

text \<open>\<open>acquire\<close> after its suspension, resumed by its future or cancelled.\<close>

definition sem_resume :: "string \<Rightarrow> semaphore \<Rightarrow> semaphore" where
  "sem_resume tid m = sem_wake (sem_value m) (sem_pending m) (remove1 tid (sem_woken m))"

definition sem_cancel :: "string \<Rightarrow> semaphore \<Rightarrow> semaphore" where
  "sem_cancel tid m =
     (if tid \<in> set (sem_woken m) then sem_wake (Suc (sem_value m)) (sem_pending m) (remove1 tid (sem_woken m))
      else sem_wake (sem_value m) (remove1 tid (sem_pending m)) (sem_woken m))"

text \<open>Any other exception at the suspension, which does not occur: the future is removed.\<close>

definition sem_drop :: "string \<Rightarrow> semaphore \<Rightarrow> semaphore" where
  "sem_drop tid m = sem_wake (sem_value m) (remove1 tid (sem_pending m)) (remove1 tid (sem_woken m))"

section \<open>State\<close>

record WorkflowGovernor = ExecutionTaskRunner +
  gv_runs :: run_table
  gv_clock :: "nat \<Rightarrow> datetime"
  gv_clock_reads :: nat
  gv_global_limit :: int
  gv_global_semaphore :: "nat option"   \<comment> \<open>the current semaphore, by its position in the next field\<close>
  gv_semaphores :: "semaphore list"     \<comment> \<open>every semaphore created so far\<close>
  gv_attached :: "string list"          \<comment> \<open>run ids attached to exceptions\<close>
  gv_log :: "log_entry list"

type_synonym governor_ext = "unit WorkflowGovernor_ext"
type_synonym 'a gov_effect = "('a, governor_ext) effect"
type_synonym 'a gov_run = "WorkflowGovernor \<Rightarrow> ('a body_outcome \<times> WorkflowGovernor) option"

definition new_WorkflowGovernor :: "TaskCoordinator \<Rightarrow> run_table \<Rightarrow> (nat \<Rightarrow> datetime) \<Rightarrow> WorkflowGovernor" where
  "new_WorkflowGovernor c table clock =
     ExecutionTaskRunner.extend (new_ExecutionTaskRunner c)
       (WorkflowGovernor.fields table clock 0 0 None [] [] [])"

record workflow_request =
  rq_global_id :: string
  rq_source :: string
  rq_step_name :: "string option"
  rq_expect_failure :: bool
  rq_include_load_errors :: bool
  rq_task_id :: "string option"
  rq_authority :: "ExecutionAuthority option"
  rq_target :: "WorkflowExecutionTarget option"

text \<open>
  What surrounds a call: the recursion bound of the coordinator's cascade, the running asyncio task,
  the ambient authority, the ids drawn, the settings as they read in a state, and the suspension points.
\<close>

record workflow_env =
  ev_fuel :: nat
  ev_handle :: "nat option"
  ev_current_authority :: "ExecutionAuthority option"
  ev_task_uuid :: string
  ev_run_uuid :: string
  ev_max_concurrent :: "WorkflowGovernor \<Rightarrow> int"
  ev_timeout :: "WorkflowGovernor \<Rightarrow> py_seconds"
  ev_expired :: "WorkflowGovernor \<Rightarrow> bool"
  ev_acquire_gate :: "unit gov_effect"
  ev_await_permit :: "nat \<Rightarrow> unit gov_effect"
  ev_host :: "governor_ext workflow_host"

text \<open>The values the closures of \<open>execute_workflow\<close> share.\<close>

record workflow_context =
  cx_request :: workflow_request
  cx_vault_name :: string
  cx_workflow_name :: string
  cx_task_id :: string
  cx_run_id :: string

definition cx_workflow_path :: "workflow_context \<Rightarrow> string option" where
  "cx_workflow_path cx = map_option wt_vault_relative_path (rq_target (cx_request cx))"

section \<open>Identity and authority\<close>

definition split_workflow_identity :: "string \<Rightarrow> (string \<times> string) result" where
  "split_workflow_identity global_id =
     (if CHR ''/'' \<notin> set global_id
      then Inl (ValueError (''Invalid global_id format. Expected '' @ quoted ''vault/name'' @ '', got: '' @ global_id))
      else case str_partition (CHR ''/'') global_id of (vault_name, _, workflow_name) \<Rightarrow> Inr (vault_name, workflow_name))"

definition authority_for_workflow_source ::
  "string \<Rightarrow> ExecutionAuthority option \<Rightarrow> ExecutionAuthority option \<Rightarrow> ExecutionAuthority result" where
  "authority_for_workflow_source source authority current =
     (case authority of
        Some a \<Rightarrow> Inr a
      | None \<Rightarrow>
          (case current of
             Some a \<Rightarrow> Inr a
           | None \<Rightarrow> Inl (RuntimeError (''Workflow source '' @ quoted source @ '' requires an active execution authority.''))))"

section \<open>Failure metadata and result mapping\<close>

definition build_workflow_failure_metadata ::
  "workflow_context \<Rightarrow> string \<Rightarrow> string option \<Rightarrow> FailureClassification \<Rightarrow> string list \<Rightarrow> string option \<Rightarrow> metadata" where
  "build_workflow_failure_metadata cx status reason classification output_files message =
     dict_update (to_metadata classification)
       [(''workflow_id'', JStr (rq_global_id (cx_request cx))), (''workflow_name'', JStr (cx_workflow_name cx)),
        (''workflow_path'', json_of_opt (cx_workflow_path cx)), (''vault'', JStr (cx_vault_name cx)),
        (''source'', JStr (rq_source (cx_request cx))), (''status'', JStr status), (''phase'', JStr (fc_phase classification)),
        (''reason'', json_of_opt reason),
        (''message'', JStr (case message of
                              None \<Rightarrow> fc_message classification
                            | Some m \<Rightarrow> if m = [] then fc_message classification else m)),
        (''step_name'', json_of_opt (rq_step_name (cx_request cx))), (''output_files'', JList (map JStr output_files)),
        (''recovery_summary'', JDict [(''completed_signal'', JStr ''unknown''), (''remaining_signal'', JStr ''unknown''),
                                      (''next_action'', JStr (fc_suggested_action classification))])]"

text \<open>\<open>str(result.status or "").strip().lower()\<close>\<close>

definition normal_status :: "WorkflowExecutionResult \<Rightarrow> string" where
  "normal_status r = py_lower (strip (we_status r))"

definition workflow_result_event :: "WorkflowExecutionResult \<Rightarrow> string" where
  "workflow_result_event r =
     (case map_of [(status_value FAILED, ''workflow_task_failed''), (status_value SKIPPED, ''workflow_task_skipped''),
                   (status_value CANCELLED, ''workflow_task_cancelled''), (status_value TIMED_OUT, ''workflow_task_timed_out'')]
             (normal_status r) of
        None \<Rightarrow> ''workflow_task_completed'' | Some event \<Rightarrow> event)"

definition workflow_run_terminal_status :: "WorkflowExecutionResult \<Rightarrow> string" where
  "workflow_run_terminal_status r =
     (if normal_status r \<in> set (map status_value [COMPLETED, FAILED, CANCELLED, TIMED_OUT, SKIPPED]) then normal_status r
      else if we_success r then status_value COMPLETED else status_value FAILED)"

section \<open>Logging\<close>

definition gov_log :: "string \<Rightarrow> metadata \<Rightarrow> WorkflowGovernor \<Rightarrow> WorkflowGovernor" where
  "gov_log event data s =
     s\<lparr>gv_log := gv_log s @ [\<lparr>le_level = Log_Info, le_validation_only = False, le_event = event, le_data = data\<rparr>]\<rparr>"

definition log_queue_event :: "workflow_context \<Rightarrow> string \<Rightarrow> string \<Rightarrow> WorkflowGovernor \<Rightarrow> WorkflowGovernor" where
  "log_queue_event cx event reason =
     gov_log event
       [(''event'', JStr event), (''workflow_id'', JStr (rq_global_id (cx_request cx))),
        (''workflow_name'', JStr (cx_workflow_name cx)), (''vault'', JStr (cx_vault_name cx)),
        (''source'', JStr (rq_source (cx_request cx))), (''task_id'', JStr (cx_task_id cx)),
        (''workflow_path'', json_of_opt (cx_workflow_path cx)), (''reason'', JStr reason)]"

text \<open>The arguments of \<open>_log_workflow_event\<close> that are left out are null.\<close>

record event_details =
  ed_status :: "string option"
  ed_reason :: "string option"
  ed_seconds :: "py_seconds option"
  ed_output_files :: "string list option"
  ed_message :: "string option"
  ed_failure_kind :: json
  ed_retryable :: json

definition no_details :: event_details where
  "no_details = \<lparr>ed_status = None, ed_reason = None, ed_seconds = None, ed_output_files = None, ed_message = None,
     ed_failure_kind = JNull, ed_retryable = JNull\<rparr>"

definition log_workflow_event :: "workflow_context \<Rightarrow> string \<Rightarrow> event_details \<Rightarrow> WorkflowGovernor \<Rightarrow> WorkflowGovernor" where
  "log_workflow_event cx event d =
     gov_log event
       [(''event'', JStr event), (''workflow_id'', JStr (rq_global_id (cx_request cx))),
        (''workflow_name'', JStr (cx_workflow_name cx)), (''vault'', JStr (cx_vault_name cx)),
        (''source'', JStr (rq_source (cx_request cx))), (''task_id'', JStr (cx_task_id cx)),
        (''workflow_path'', json_of_opt (cx_workflow_path cx)), (''status'', json_of_opt (ed_status d)),
        (''reason'', json_of_opt (ed_reason d)), (''step_name'', json_of_opt (rq_step_name (cx_request cx))),
        (''expect_failure'', JBool (rq_expect_failure (cx_request cx))),
        (''include_load_errors'', JBool (rq_include_load_errors (cx_request cx))),
        (''execution_time_seconds'', case ed_seconds d of None \<Rightarrow> JNull | Some t \<Rightarrow> JFloat (to_repr t)),
        (''output_files'', case ed_output_files d of None \<Rightarrow> JNull | Some fs \<Rightarrow> JList (map JStr fs)),
        (''message'', json_of_opt (ed_message d)), (''failure_kind'', ed_failure_kind d), (''retryable'', ed_retryable d)]"

section \<open>Permits\<close>

text \<open>The lock around the choice of the semaphore is free whenever it is tried: nothing suspends under it.\<close>

definition get_global_semaphore :: "int \<Rightarrow> WorkflowGovernor \<Rightarrow> nat option \<times> WorkflowGovernor" where
  "get_global_semaphore limit s =
     (if limit \<le> 0 then (None, s)
      else (let s1 = (if gv_global_semaphore s = None \<or> gv_global_limit s \<noteq> limit
                      then s\<lparr>gv_global_limit := limit, gv_global_semaphore := Some (length (gv_semaphores s)),
                             gv_semaphores := gv_semaphores s @ [\<lparr>sem_value = nat limit, sem_pending = [], sem_woken = []\<rparr>]\<rparr>
                      else s)
            in (gv_global_semaphore s1, s1)))"

definition on_semaphore :: "nat \<Rightarrow> (semaphore \<Rightarrow> semaphore) \<Rightarrow> WorkflowGovernor \<Rightarrow> WorkflowGovernor" where
  "on_semaphore i f s = s\<lparr>gv_semaphores := (gv_semaphores s)[i := f (gv_semaphores s ! i)]\<rparr>"

definition acquire_permit :: "workflow_env \<Rightarrow> string \<Rightarrow> nat \<Rightarrow> unit gov_effect" where
  "acquire_permit env tid i s =
     (case sem_enter tid (gv_semaphores s ! i) of
        (True, m) \<Rightarrow> (Body_Returns (), on_semaphore i (\<lambda>_. m) s)
      | (False, m) \<Rightarrow>
          (case ev_await_permit env i (on_semaphore i (\<lambda>_. m) s) of
             (Body_Returns u, s1) \<Rightarrow> (Body_Returns u, on_semaphore i (sem_resume tid) s1)
           | (Body_Cancelled, s1) \<Rightarrow> (Body_Cancelled, on_semaphore i (sem_cancel tid) s1)
           | (Body_Raises e, s1) \<Rightarrow> (Body_Raises e, on_semaphore i (sem_drop tid) s1)))"

section \<open>The run store\<close>

definition on_store ::
  "(datetime \<Rightarrow> run_table \<Rightarrow> WorkflowRunRecord result \<times> run_table) \<Rightarrow> WorkflowGovernor \<Rightarrow> WorkflowRunRecord result \<times> WorkflowGovernor" where
  "on_store f s =
     (case f (gv_clock s (gv_clock_reads s)) (gv_runs s) of
        (res, table) \<Rightarrow> (res, s\<lparr>gv_runs := table, gv_clock_reads := Suc (gv_clock_reads s)\<rparr>))"

definition close_run ::
  "workflow_context \<Rightarrow> string \<Rightarrow> string option \<Rightarrow> string \<Rightarrow> metadata option \<Rightarrow> string list option \<Rightarrow> py_seconds option \<Rightarrow>
   WorkflowGovernor \<Rightarrow> WorkflowRunRecord result \<times> WorkflowGovernor" where
  "close_run cx status reason message failure output_files seconds =
     on_store (\<lambda>now. finalize_run now (Some (cx_run_id cx)) (Some status) reason (Some message) failure output_files
                (map_option to_value seconds) None)"

section \<open>Inside the vault gate\<close>

definition mark_task_terminal_from_result ::
  "nat \<Rightarrow> string \<Rightarrow> WorkflowExecutionResult \<Rightarrow> WorkflowGovernor \<Rightarrow> WorkflowGovernor option" where
  "mark_task_terminal_from_result fuel tid r s =
     (let status = normal_status r; reason = we_reason r
      in on_coord_opt
           (if status = status_value SKIPPED then mark_skipped fuel tid reason
            else if status = status_value FAILED then mark_failed fuel tid reason None
            else if status = status_value CANCELLED then mark_cancelled fuel tid reason
            else if status = status_value TIMED_OUT then mark_timed_out fuel tid reason
            else mark_completed fuel tid reason) s)"

definition timeout_classification :: "string \<Rightarrow> FailureClassification" where
  "timeout_classification reason =
     \<lparr>fc_error_type = ''TimeoutError'', fc_failure_kind = ''workflow_timeout'', fc_retryable = False,
      fc_suggested_action = ''Do not retry the same broad workflow unchanged. Narrow the workflow scope, '' @
        ''split the batch, or increase the workflow timeout if the scope is intentional.'',
      fc_phase = ''workflow_execution'', fc_message = reason, fc_http_status = None, fc_retry_after = None, fc_metadata = []\<rparr>"

definition timeout_result :: "workflow_context \<Rightarrow> py_seconds \<Rightarrow> string \<Rightarrow> WorkflowExecutionResult" where
  "timeout_result cx seconds reason =
     \<lparr>we_success = False, we_global_id = rq_global_id (cx_request cx), we_status = ''timed_out'',
      we_execution_time_seconds = seconds, we_output_files = [], we_reason = Some reason, we_details = [],
      we_message = ''Workflow '' @ quoted (rq_global_id (cx_request cx)) @ '' timed out after '' @ to_text seconds @ '' seconds''\<rparr>"

text \<open>The hook \<open>_record_workflow_timeout\<close>. A result is optional here because \<open>None\<close> is one for the runner.\<close>

definition record_workflow_timeout ::
  "workflow_context \<Rightarrow> py_seconds \<Rightarrow> string \<Rightarrow> WorkflowExecutionResult option gov_effect" where
  "record_workflow_timeout cx seconds reason s =
     (let classification = timeout_classification reason;
          r = timeout_result cx seconds reason;
          failure = build_workflow_failure_metadata cx ''timed_out'' (Some reason) classification [] (Some (we_message r));
          s1 = on_coord (update_metadata (cx_task_id cx)
                 [(''workflow_result'', JDict (result_to_dict r)), (''workflow_failure'', JDict failure)]) s
      in case close_run cx ''timed_out'' (Some reason) (we_message r) (Some failure) (Some []) (Some seconds) s1 of
           (Inl e, s2) \<Rightarrow> (Body_Raises (exn_info_of e), s2)
         | (Inr _, s2) \<Rightarrow>
             (Body_Returns (Some r), log_workflow_event cx ''workflow_task_timed_out''
                (no_details\<lparr>ed_status := Some ''timed_out'', ed_reason := Some reason, ed_seconds := Some seconds,
                            ed_output_files := Some [], ed_message := Some (we_message r),
                            ed_failure_kind := JStr (fc_failure_kind classification),
                            ed_retryable := JBool (fc_retryable classification)\<rparr>) s2))"

definition map_body :: "('a \<Rightarrow> 'b) \<Rightarrow> 'a body_outcome \<times> 's \<Rightarrow> 'b body_outcome \<times> 's" where
  "map_body f res =
     (case res of
        (Body_Returns x, s) \<Rightarrow> (Body_Returns (f x), s)
      | (Body_Cancelled, s) \<Rightarrow> (Body_Cancelled, s)
      | (Body_Raises e, s) \<Rightarrow> (Body_Raises e, s))"

definition execute_selected_workflow :: "workflow_env \<Rightarrow> workflow_request \<Rightarrow> WorkflowExecutionResult option gov_effect" where
  "execute_selected_workflow env rq s =
     map_body Some
       (case rq_target rq of
          Some target \<Rightarrow> execute_workflow_target (ev_host env) target (rq_step_name rq) (rq_expect_failure rq) s
        | None \<Rightarrow> execute_workflow_by_id (ev_host env) (rq_global_id rq) (rq_step_name rq) (rq_expect_failure rq)
                    (rq_include_load_errors rq) s)"

definition workflow_view :: "WorkflowExecutionResult option result_view" where
  "workflow_view = \<lparr>rv_none = None, rv_dict = (\<lambda>_. None)\<rparr>"

definition reported_failure :: "WorkflowExecutionResult \<Rightarrow> FailureClassification" where
  "reported_failure r =
     \<lparr>fc_error_type = ''WorkflowFailed'', fc_failure_kind = ''workflow_reported_failure'', fc_retryable = False,
      fc_suggested_action = ''Inspect the workflow result reason and any output artifacts, then resume '' @
        ''only the unfinished items or adjust the workflow before rerunning.'',
      fc_phase = ''workflow_execution'',
      fc_message = (case we_reason r of
                      None \<Rightarrow> we_message r | Some t \<Rightarrow> if t = [] then we_message r else t),
      fc_http_status = None, fc_retry_after = None, fc_metadata = []\<rparr>"

text \<open>What follows the run: the result is published, the run is closed, the task is marked.\<close>

definition publish_workflow_result :: "workflow_env \<Rightarrow> workflow_context \<Rightarrow> WorkflowExecutionResult \<Rightarrow> WorkflowExecutionResult gov_run" where
  "publish_workflow_result env cx result s =
     (if normal_status result = status_value TIMED_OUT then Some (Body_Returns result, s)
      else
        let r = result\<lparr>we_details := we_details result @ [''task_id: '' @ cx_task_id cx]\<rparr>;
            s1 = on_coord (update_metadata (cx_task_id cx) [(''workflow_result'', JDict (result_to_dict r))]) s;
            failure = (if normal_status r = status_value FAILED
                       then Some (build_workflow_failure_metadata cx (we_status r) (we_reason r) (reported_failure r)
                                    (we_output_files r) (Some (we_message r)))
                       else None);
            s2 = (case failure of
                    None \<Rightarrow> s1
                  | Some m \<Rightarrow> on_coord (update_metadata (cx_task_id cx) [(''workflow_failure'', JDict m)]) s1);
            s3 = log_workflow_event cx (workflow_result_event r)
                   \<lparr>ed_status = Some (we_status r), ed_reason = we_reason r, ed_seconds = Some (we_execution_time_seconds r),
                    ed_output_files = Some (we_output_files r), ed_message = Some (we_message r),
                    ed_failure_kind = (case failure of None \<Rightarrow> JNull | Some m \<Rightarrow> json_get ''failure_kind'' m),
                    ed_retryable = (case failure of None \<Rightarrow> JNull | Some m \<Rightarrow> json_get ''retryable'' m)\<rparr> s2
        in case close_run cx (workflow_run_terminal_status r) (we_reason r) (we_message r) failure (Some (we_output_files r))
                  (Some (we_execution_time_seconds r)) s3 of
             (Inl e, s4) \<Rightarrow> Some (Body_Raises (exn_info_of e), s4)
           | (Inr _, s4) \<Rightarrow>
               map_option (Pair (Body_Returns r)) (mark_task_terminal_from_result (ev_fuel env) (cx_task_id cx) r s4))"

definition workflow_spec :: "workflow_context \<Rightarrow> ExecutionAuthority \<Rightarrow> py_seconds \<Rightarrow> ExecutionTaskSpec" where
  "workflow_spec cx authority timeout =
     \<lparr>sp_kind = kind_value WORKFLOW, sp_scope = workflow_vault_scope (cx_vault_name cx), sp_source = rq_source (cx_request cx),
      sp_label = rq_global_id (cx_request cx), sp_authority = authority, sp_metadata = [], sp_parent_task_id = None,
      sp_detached_from_parent_lifecycle = False, sp_timeout_seconds = Some timeout,
      sp_timeout_reason = Some (''workflow_task_timeout:'' @ to_text timeout @ ''s'')\<rparr>"

text \<open>With the permits it needs: both records are started, the workflow runs under its timeout.\<close>

definition run_started_workflow :: "workflow_env \<Rightarrow> workflow_context \<Rightarrow> ExecutionAuthority \<Rightarrow> WorkflowExecutionResult gov_run" where
  "run_started_workflow env cx authority s =
     (case mark_started (cx_task_id cx) (rn_coord s) of
        (Inl e, c) \<Rightarrow> Some (Body_Raises (exn_info_of e), s\<lparr>rn_coord := c\<rparr>)
      | (Inr _, c) \<Rightarrow>
          (case on_store (\<lambda>now. run_mark_started now (Some (cx_run_id cx)) None) (s\<lparr>rn_coord := c\<rparr>) of
             (Inl e, s1) \<Rightarrow> Some (Body_Raises (exn_info_of e), s1)
           | (Inr _, s1) \<Rightarrow>
               (let s2 = on_coord (heartbeat (cx_task_id cx) ''workflow_running''
                           (Some [(''workflow_queue_reason'', JNull), (''workflow_id'', JStr (rq_global_id (cx_request cx))),
                                  (''workflow_name'', JStr (cx_workflow_name cx)), (''vault'', JStr (cx_vault_name cx)),
                                  (''step_name'', json_of_opt (rq_step_name (cx_request cx))),
                                  (''workflow_path'', json_of_opt (cx_workflow_path cx))])) s1;
                    s3 = log_workflow_event cx ''workflow_task_started'' no_details s2
                in Option.bind
                     (run_with_timeout workflow_view (ev_fuel env) (ev_expired env) (cx_task_id cx)
                        (workflow_spec cx authority (ev_timeout env s3))
                        (Some \<lparr>hk_on_cancelled = None, hk_on_failed = None,
                               hk_on_timed_out = Some (\<lambda>_. record_workflow_timeout cx)\<rparr>)
                        (execute_selected_workflow env (cx_request cx)) s3)
                     (\<lambda>(out, s4).
                        case out of
                          Body_Cancelled \<Rightarrow> Some (Body_Cancelled, s4)
                        | Body_Raises e \<Rightarrow> Some (Body_Raises e, s4)
                        | Body_Returns None \<Rightarrow>
                            Some (Body_Raises ((exn_info_of (TypeError (quoted ''NoneType'' @ '' object has no attribute '' @ quoted ''status'')))
                                    \<lparr>exn_type := ''AttributeError''\<rparr>), s4)
                        | Body_Returns (Some result) \<Rightarrow> publish_workflow_result env cx result s4))))"

text \<open>The \<open>except\<close> clauses of \<open>_run_in_vault_gate\<close>: both raise again.\<close>

definition report_gate_exit ::
  "workflow_context \<Rightarrow> 'a body_outcome \<times> WorkflowGovernor \<Rightarrow> 'a body_outcome \<times> WorkflowGovernor" where
  "report_gate_exit cx res =
     (case res of
        (Body_Returns x, s) \<Rightarrow> (Body_Returns x, s)
      | (Body_Cancelled, s) \<Rightarrow>
          (Body_Cancelled, log_workflow_event cx ''workflow_task_cancelled''
             (no_details\<lparr>ed_status := Some ''cancelled'', ed_reason := Some ''cancelled''\<rparr>) s)
      | (Body_Raises exc, s) \<Rightarrow>
          (let reason = exn_type exc @ '': '' @ exn_str exc;
               classification = classify_exception exc ''workflow_execution'';
               failure = build_workflow_failure_metadata cx ''failed'' (Some reason) classification [] (Some (exn_str exc))
           in (Body_Raises exc, log_workflow_event cx ''workflow_task_failed''
                 (no_details\<lparr>ed_status := Some ''failed'', ed_reason := Some reason,
                             ed_failure_kind := JStr (fc_failure_kind classification),
                             ed_retryable := JBool (fc_retryable classification)\<rparr>)
                 (on_coord (update_metadata (cx_task_id cx) [(''workflow_failure'', JDict failure)]) s))))"

definition run_in_vault_gate :: "workflow_env \<Rightarrow> workflow_context \<Rightarrow> ExecutionAuthority \<Rightarrow> WorkflowExecutionResult gov_run" where
  "run_in_vault_gate env cx authority s =
     (case get_global_semaphore (ev_max_concurrent env s) s of
        (None, s1) \<Rightarrow> map_option (report_gate_exit cx) (run_started_workflow env cx authority s1)
      | (Some i, s1) \<Rightarrow>
          (let s2 = (if sem_locked (gv_semaphores s1 ! i)
                     then log_queue_event cx ''workflow_task_queued_for_global_capacity'' ''workflow_global_capacity_active''
                            (on_coord (heartbeat (cx_task_id cx) ''queued_for_global_capacity''
                               (Some [(''workflow_queue_reason'', JStr ''workflow_global_capacity_active'')])) s1)
                     else s1)
           in case acquire_permit env (cx_task_id cx) i s2 of
                (Body_Returns _, s3) \<Rightarrow>
                  map_option (\<lambda>res. case report_gate_exit cx res of (out, s4) \<Rightarrow> (out, on_semaphore i sem_release s4))
                    (run_started_workflow env cx authority s3)
              | (Body_Cancelled, s3) \<Rightarrow> Some (report_gate_exit cx (Body_Cancelled, s3))
              | (Body_Raises e, s3) \<Rightarrow> Some (report_gate_exit cx (Body_Raises e, s3))))"

section \<open>The whole run\<close>

definition workflow_gate :: "workflow_context \<Rightarrow> ExecutionGatePolicy" where
  "workflow_gate cx =
     (let reason = ''workflow_vault_active:'' @ cx_vault_name cx
      in \<lparr>gp_key = workflow_vault_scope (cx_vault_name cx), gp_queued_status = ''queued_for_vault'',
          gp_queued_metadata = [(''workflow_queue_reason'', JStr reason)],
          gp_queue_position_key = None, gp_holder_task_id_key = None,
          gp_clear_metadata = [(''workflow_queue_reason'', JNull)]\<rparr>)"

definition log_vault_gate_queue :: "workflow_context \<Rightarrow> ExecutionGateWait \<Rightarrow> unit gov_effect" where
  "log_vault_gate_queue cx wait s =
     (Body_Returns (), log_queue_event cx ''workflow_task_queued_for_vault'' (''workflow_vault_active:'' @ cx_vault_name cx) s)"

definition attach_workflow_run_id :: "string \<Rightarrow> WorkflowGovernor \<Rightarrow> WorkflowGovernor" where
  "attach_workflow_run_id run_id s = s\<lparr>gv_attached := gv_attached s @ [run_id]\<rparr>"

text \<open>The outer \<open>except\<close> clauses close the run, then raise again; an exception of the store takes over.\<close>

definition close_after_gate ::
  "workflow_context \<Rightarrow> 'a body_outcome \<times> WorkflowGovernor \<Rightarrow> 'a body_outcome \<times> WorkflowGovernor" where
  "close_after_gate cx res =
     (case res of
        (Body_Returns x, s) \<Rightarrow> (Body_Returns x, s)
      | (Body_Cancelled, s) \<Rightarrow>
          (case close_run cx ''cancelled'' (Some ''cancelled'')
                  (''Workflow '' @ quoted (rq_global_id (cx_request cx)) @ '' was cancelled'') None None None s of
             (Inl e, s1) \<Rightarrow> (Body_Raises (exn_info_of e), s1)
           | (Inr _, s1) \<Rightarrow> (Body_Cancelled, attach_workflow_run_id (cx_run_id cx) s1))
      | (Body_Raises exc, s) \<Rightarrow>
          (let reason = exn_type exc @ '': '' @ exn_str exc;
               failure = build_workflow_failure_metadata cx ''failed'' (Some reason)
                           (classify_exception exc ''workflow_execution'') [] (Some (exn_str exc))
           in case close_run cx ''failed'' (Some reason) (exn_str exc) (Some failure) None None s of
                (Inl e, s1) \<Rightarrow> (Body_Raises (exn_info_of e), s1)
              | (Inr _, s1) \<Rightarrow> (Body_Raises exc, attach_workflow_run_id (cx_run_id cx) s1)))"

text \<open>The body of \<open>async with task_context as task\<close>.\<close>

definition run_tracked_workflow ::
  "workflow_env \<Rightarrow> workflow_request \<Rightarrow> string \<Rightarrow> string \<Rightarrow> ExecutionAuthority \<Rightarrow> string \<Rightarrow> WorkflowExecutionResult gov_run" where
  "run_tracked_workflow env rq vault_name workflow_name authority tid s =
     (case on_store (\<lambda>now. create_run now (ev_run_uuid env) (Some (rq_global_id rq)) (Some workflow_name) (Some vault_name)
                (Some (rq_source rq)) (Some (ea_principal_id authority)) (Some tid) (rq_step_name rq) None None None) s of
        (Inl e, s1) \<Rightarrow> Some (Body_Raises (exn_info_of e), s1)
      | (Inr run, s1) \<Rightarrow>
          (let cx = \<lparr>cx_request = rq, cx_vault_name = vault_name, cx_workflow_name = workflow_name, cx_task_id = tid,
                     cx_run_id = wr_run_id run\<rparr>;
               s2 = on_coord (update_metadata tid [(''workflow_run_id'', JStr (wr_run_id run))]) s1
           in map_option (close_after_gate cx)
                (run_with_gate tid (workflow_gate cx) (Some (log_vault_gate_queue cx)) (ev_acquire_gate env)
                   (run_in_vault_gate env cx authority) s2)))"

definition workflow_task_metadata :: "workflow_request \<Rightarrow> string \<Rightarrow> metadata" where
  "workflow_task_metadata rq vault_name =
     [(''workflow_id'', JStr (rq_global_id rq)), (''vault'', JStr vault_name), (''step_name'', json_of_opt (rq_step_name rq)),
      (''workflow_path'', json_of_opt (map_option wt_vault_relative_path (rq_target rq)))]"

text \<open>\<open>track_existing_task\<close> and \<open>track_current_task\<close> around a body that runs on the governor.\<close>

definition track_existing_workflow :: "workflow_env \<Rightarrow> string \<Rightarrow> (string \<Rightarrow> 'a gov_run) \<Rightarrow> 'a gov_run" where
  "track_existing_workflow env tid body s =
     (case ev_handle env of
        None \<Rightarrow> Some (Body_Raises (exn_info_of (RuntimeError ''TaskCoordinator requires an active asyncio task'')), s)
      | Some handle \<Rightarrow>
          (case attach_handle tid handle (rn_coord s) of
             (Inl e, c) \<Rightarrow> Some (Body_Raises (exn_info_of e), s\<lparr>rn_coord := c\<rparr>)
           | (Inr (r, should_cancel), c) \<Rightarrow>
               if should_cancel then Some (Body_Cancelled, s\<lparr>rn_coord := c\<rparr>)
               else Option.bind (body tid (s\<lparr>rn_coord := c\<rparr>)) (close_runner_tracking (ev_fuel env) tid (tr_kind r))))"

definition track_current_workflow ::
  "workflow_env \<Rightarrow> workflow_request \<Rightarrow> string \<Rightarrow> ExecutionAuthority \<Rightarrow> (string \<Rightarrow> 'a gov_run) \<Rightarrow> 'a gov_run" where
  "track_current_workflow env rq vault_name authority body s =
     (if ev_handle env = None
      then Some (Body_Raises (exn_info_of (RuntimeError ''TaskCoordinator requires an active asyncio task'')), s)
      else let tid = new_task_id (ev_task_uuid env); kind = kind_value WORKFLOW
      in case create_record tid kind (workflow_vault_scope vault_name) (rq_source rq) (rq_global_id rq) authority
                (ev_handle env) (Some (workflow_task_metadata rq vault_name)) None False False (rn_coord s) of
           (Inl e, c) \<Rightarrow> Some (Body_Raises (exn_info_of e), s\<lparr>rn_coord := c\<rparr>)
         | (Inr _, c) \<Rightarrow>
             (case get_task tid c of
                None \<Rightarrow> close_runner_tracking (ev_fuel env) tid kind
                  (Body_Raises (exn_info_of (RuntimeError (''Execution task disappeared: '' @ tid))), s\<lparr>rn_coord := c\<rparr>)
              | Some task \<Rightarrow>
                  Option.bind (body (ts_task_id task) (s\<lparr>rn_coord := c\<rparr>)) (close_runner_tracking (ev_fuel env) tid kind)))"

definition execute_workflow :: "workflow_env \<Rightarrow> workflow_request \<Rightarrow> WorkflowExecutionResult gov_run" where
  "execute_workflow env rq s =
     (case split_workflow_identity (rq_global_id rq) of
        Inl e \<Rightarrow> Some (Body_Raises (exn_info_of e), s)
      | Inr (vault_name, workflow_name) \<Rightarrow>
          if (case rq_target rq of None \<Rightarrow> False | Some target \<Rightarrow> wt_global_id target \<noteq> rq_global_id rq)
          then Some (Body_Raises (exn_info_of (ValueError ''Workflow execution target does not match global_id'')), s)
          else (case authority_for_workflow_source (rq_source rq) (rq_authority rq) (ev_current_authority env) of
             Inl e \<Rightarrow> Some (Body_Raises (exn_info_of e), s)
           | Inr authority \<Rightarrow>
               (let body = run_tracked_workflow env rq vault_name workflow_name authority
                in case rq_task_id rq of
                     None \<Rightarrow> track_current_workflow env rq vault_name authority body s
                   | Some tid \<Rightarrow> if tid = [] then track_current_workflow env rq vault_name authority body s
                                 else track_existing_workflow env tid body s)))"

section \<open>Starting in the background\<close>

text \<open>The coroutine \<open>_run\<close> of \<open>start_workflow\<close>: exceptions are swallowed, a cancellation goes through.\<close>

definition start_workflow_run :: "workflow_env \<Rightarrow> workflow_request \<Rightarrow> string \<Rightarrow> unit gov_run" where
  "start_workflow_run env rq tid s =
     map_option (\<lambda>(out, s1). case out of Body_Cancelled \<Rightarrow> (Body_Cancelled, s1) | _ \<Rightarrow> (Body_Returns (), s1))
       (execute_workflow env (rq\<lparr>rq_task_id := Some tid\<rparr>) s)"

definition start_workflow :: "workflow_env \<Rightarrow> workflow_request \<Rightarrow> bool \<Rightarrow> ExecutionTaskSnapshot gov_run" where
  "start_workflow env rq cancelled_meanwhile s =
     (case split_workflow_identity (rq_global_id rq) of
        Inl e \<Rightarrow> Some (Body_Raises (exn_info_of e), s)
      | Inr (vault_name, _) \<Rightarrow>
          (case authority_for_workflow_source (rq_source rq) (rq_authority rq) (ev_current_authority env) of
             Inl e \<Rightarrow> Some (Body_Raises (exn_info_of e), s)
           | Inr authority \<Rightarrow>
               start_background (ev_fuel env) (ev_task_uuid env)
                 \<lparr>sp_kind = kind_value WORKFLOW, sp_scope = workflow_vault_scope vault_name, sp_source = rq_source rq,
                  sp_label = rq_global_id rq, sp_authority = authority, sp_metadata = workflow_task_metadata rq vault_name,
                  sp_parent_task_id = None, sp_detached_from_parent_lifecycle = False, sp_timeout_seconds = None,
                  sp_timeout_reason = None\<rparr>
                 (None :: (run_result, governor_ext) ExecutionTaskHooks option) cancelled_meanwhile s))"

end
