(* ===== verification/Governor_Props.thy ===== *)
theory Governor_Props
  imports Workflow_Governor Workflow_Run_Props
begin

text \<open>
  The governor across its components: a run it opens is closed on every path, its task ends with it,
  and the global limit holds as long as the setting does not change.
\<close>

section \<open>Orderly changes\<close>

text \<open>
  \<open>run_settled rid table\<close>: no row of the run is active. \<open>sound\<close>: what every component needs of the state.
  \<open>orderly\<close>: a change that keeps the components sound, the task ended if it was, and the run run_settled
  if it was.
\<close>

definition run_settled :: "string \<Rightarrow> run_table \<Rightarrow> bool" where
  "run_settled rid table \<longleftrightarrow> list_all (\<lambda>r. wr_run_id r = rid \<longrightarrow> wr_status r \<in> set TERMINAL_WORKFLOW_RUN_STATUSES) table"

definition sound :: "nat \<Rightarrow> WorkflowGovernor \<Rightarrow> bool" where
  "sound fuel s \<longleftrightarrow> ready fuel (rn_coord s) \<and> run_table_ok (gv_runs s)"

definition orderly :: "nat \<Rightarrow> string \<Rightarrow> string \<Rightarrow> WorkflowGovernor \<Rightarrow> WorkflowGovernor \<Rightarrow> bool" where
  "orderly fuel tid rid s s' \<longleftrightarrow> tame_change fuel tid (rn_coord s) (rn_coord s') \<and>
     (run_table_ok (gv_runs s) \<longrightarrow>
        run_table_ok (gv_runs s') \<and> (run_settled rid (gv_runs s) \<longrightarrow> run_settled rid (gv_runs s')))"

definition orderly_effect :: "nat \<Rightarrow> string \<Rightarrow> string \<Rightarrow> 'a gov_effect \<Rightarrow> bool" where
  "orderly_effect fuel tid rid f \<longleftrightarrow> (\<forall>s. orderly fuel tid rid s (snd (f s)))"

lemma orderly_trans: "orderly fuel tid rid s1 s2 \<Longrightarrow> orderly fuel tid rid s2 s3 \<Longrightarrow> orderly fuel tid rid s1 s3"
  unfolding orderly_def using tame_trans by blast

lemma orderly_sound: "orderly fuel tid rid s s' \<Longrightarrow> sound fuel s \<Longrightarrow> sound fuel s'"
  by (auto simp: orderly_def sound_def tame_change_def)

lemma orderly_same: "rn_coord s' = rn_coord s \<Longrightarrow> gv_runs s' = gv_runs s \<Longrightarrow> orderly fuel tid rid s s'"
  by (simp add: orderly_def)

lemma orderly_refl [simp]: "orderly fuel tid rid s s"
  by (simp add: orderly_same)

lemma orderly_coord: "tame_change fuel tid (rn_coord s) c \<Longrightarrow> orderly fuel tid rid s (s\<lparr>rn_coord := c\<rparr>)"
  by (simp add: orderly_def)

lemma orderly_on_coord:
  "orderly fuel tid rid s (on_coord (update_metadata t m) s)" "orderly fuel tid rid s (on_coord (heartbeat t st hm) s)"
  by (simp_all add: on_coord_def orderly_coord tame_step_ok update_metadata_ok heartbeat_ok)

lemma orderly_effectD: "orderly_effect fuel tid rid f \<Longrightarrow> f s = (out, s') \<Longrightarrow> orderly fuel tid rid s s'"
  unfolding orderly_effect_def by (metis snd_conv)

lemma orderly_effect_tame: "orderly_effect fuel tid rid f \<Longrightarrow> tame fuel tid f"
  by (simp add: orderly_effect_def orderly_def tame_def)

text \<open>Logging, semaphores, gates and attached ids leave the coordinator and the run table alone.\<close>

lemma governor_frames [simp]:
  "rn_coord (gov_log e d s) = rn_coord s" "gv_runs (gov_log e d s) = gv_runs s"
  "rn_coord (log_queue_event cx e r s) = rn_coord s" "gv_runs (log_queue_event cx e r s) = gv_runs s"
  "rn_coord (log_workflow_event cx e ed s) = rn_coord s" "gv_runs (log_workflow_event cx e ed s) = gv_runs s"
  "rn_coord (on_semaphore i f s) = rn_coord s" "gv_runs (on_semaphore i f s) = gv_runs s"
  "rn_coord (attach_workflow_run_id k s) = rn_coord s" "gv_runs (attach_workflow_run_id k s) = gv_runs s"
  by (simp_all add: gov_log_def log_queue_event_def log_workflow_event_def on_semaphore_def attach_workflow_run_id_def)

lemma gate_frames [simp]:
  "rn_coord (get_gate_lock k s) = rn_coord s" "gv_runs (get_gate_lock k s) = gv_runs s"
  "rn_coord (unregister_gate_waiter t k s) = rn_coord s" "gv_runs (unregister_gate_waiter t k s) = gv_runs s"
  "rn_coord (mark_gate_acquired t k s) = rn_coord s" "gv_runs (mark_gate_acquired t k s) = gv_runs s"
  "rn_coord (release_gate t k s) = rn_coord s" "gv_runs (release_gate t k s) = gv_runs s"
  by (simp_all add: get_gate_lock_def unregister_gate_waiter_def mark_gate_acquired_def release_gate_def
      set_gate_lock_def Let_def split: option.splits)

lemma register_frame:
  "register_gate_waiter t k s = (wait, s') \<Longrightarrow> rn_coord s' = rn_coord s \<and> gv_runs s' = gv_runs s"
  by (auto simp: register_gate_waiter_def Let_def split: if_splits)

lemma semaphore_frame: "get_global_semaphore limit s = (i, s') \<Longrightarrow> rn_coord s' = rn_coord s \<and> gv_runs s' = gv_runs s"
  by (auto simp: get_global_semaphore_def Let_def split: if_splits)

section \<open>The run store\<close>

lemma rows_evolve_settled: "rows_evolve None table table' \<Longrightarrow> run_settled rid table \<Longrightarrow> run_settled rid table'"
  unfolding rows_evolve_def run_settled_def list_all_iff by fastforce

text \<open>A step of the store that gives out no new id.\<close>

lemma store_step_orderly:
  assumes "run_store_step (ids, gv_runs s) (ids, gv_runs s')" and "ids = map wr_run_id (gv_runs s)" and "rn_coord s' = rn_coord s"
  shows "orderly fuel tid rid s s'"
proof -
  have "run_table_ok (gv_runs s') \<and> rows_evolve None (gv_runs s) (gv_runs s')" if "run_table_ok (gv_runs s)"
    using run_store_inv_step [OF assms(1)] that assms(2) by (auto simp: run_store_inv_def)
  then show ?thesis using assms(3) rows_evolve_settled by (auto simp: orderly_def)
qed

lemma run_mark_started_orderly:
  assumes "on_store (\<lambda>now. run_mark_started now rid' t) s = (res, s')"
  shows "orderly fuel tid rid s s'"
proof -
  have "run_store_step (map wr_run_id (gv_runs s), gv_runs s) (map wr_run_id (gv_runs s), gv_runs s')"
    using assms by (auto simp: on_store_def intro: rs_start split: prod.splits)
  then show ?thesis using assms by (intro store_step_orderly) (auto simp: on_store_def split: prod.splits)
qed

lemma close_run_orderly:
  assumes "close_run cx status reason message failure files seconds s = (res, s')"
  shows "orderly fuel tid rid s s'"
proof -
  have "run_store_step (map wr_run_id (gv_runs s), gv_runs s) (map wr_run_id (gv_runs s), gv_runs s')"
    using assms by (auto simp: close_run_def on_store_def intro: rs_finalize split: prod.splits)
  then show ?thesis using assms by (intro store_step_orderly) (auto simp: close_run_def on_store_def split: prod.splits)
qed

definition terminal_text :: "string \<Rightarrow> bool" where
  "terminal_text st \<longleftrightarrow> wf_terminal_status (Some st) = Inr st"

lemma terminal_texts:
  "terminal_text ''completed''" "terminal_text ''failed''" "terminal_text ''cancelled''" "terminal_text ''timed_out''"
  "terminal_text ''skipped''"
  by code_simp+

lemma settled_subset: "run_settled rid table \<Longrightarrow> set table' \<subseteq> set table \<Longrightarrow> run_settled rid table'"
  by (auto simp: run_settled_def list_all_iff)

lemma finalize_settles:
  assumes "run_table_ok table" and "wf_required_text (Some rid) ''run_id'' = Inr rid" and "terminal_text status"
    and "finalize_run now (Some rid) (Some status) reason message failure files seconds stamp table = (res, table')"
  shows "run_settled rid table'"
proof -
  let ?active = "\<lambda>r. wr_run_id r = rid \<and> wr_status r \<in> set ACTIVE_WORKFLOW_RUN_STATUSES"
  have st: "status \<in> set TERMINAL_WORKFLOW_RUN_STATUSES" using assms(3) terminal_status_in by (simp add: terminal_text_def)
  have row: "wr_status r \<in> set TERMINAL_WORKFLOW_RUN_STATUSES" if "r \<in> set table" "wr_run_id r = rid" "\<not> ?active r" for r
    using assms(1) that by (auto simp: run_table_ok_def list_all_iff run_row_ok_def)
  define upd where "upd = run_finalized status (wf_bounded_text reason) (wf_bounded_text message)
    (wf_bounded_json failure MAX_FAILURE_JSON_LENGTH) (wf_output_files files) (wf_optional_duration seconds)
    (wf_iso_timestamp now stamp)"
  have clean: "rbind (wf_required_text (Some rid) ''run_id'') (\<lambda>rid. rbind (wf_terminal_status (Some status)) (\<lambda>st. Inr (rid, st))) =
      Inr (rid, status)" using assms(2,3) by (simp add: terminal_text_def)
  have T: "table' = (if list_ex ?active table
      then prune_in_conn now stamp (map (\<lambda>r. if ?active r then upd r else r) table) else table)"
    using arg_cong [OF assms(4), of snd]
    unfolding finalize_run_def clean sum.case prod.case Let_def upd_def [symmetric] if_distrib [of snd] snd_conv by auto
  have M: "run_settled rid (map (\<lambda>r. if ?active r then upd r else r) table)"
  proof -
    have upd: "wr_run_id (upd r) = wr_run_id r" "wr_status (upd r) = status" for r
      by (simp_all add: upd_def run_finalized_def)
    have "wr_status (if ?active r then upd r else r) \<in> set TERMINAL_WORKFLOW_RUN_STATUSES"
      if "r \<in> set table" "wr_run_id r = rid" for r
      using row [OF that] st upd(2) by (cases "?active r") simp_all
    moreover have "wr_run_id (if ?active r then upd r else r) = wr_run_id r" for r by (simp add: upd(1))
    ultimately show ?thesis unfolding run_settled_def list_all_iff set_map ball_simps(9) by simp
  qed
  show ?thesis
  proof (cases "list_ex ?active table")
    case True
    then have "table' = prune_in_conn now stamp (map (\<lambda>r. if ?active r then upd r else r) table)" using T by simp
    then show ?thesis using settled_subset [OF M prune_subset] by simp
  next
    case False
    then have "run_settled rid table" using row by (auto simp: run_settled_def list_all_iff list_ex_iff)
    with False T show ?thesis by simp
  qed
qed

lemma close_run_settles:
  assumes "close_run cx status reason message failure files seconds s = (res, s')" and "run_table_ok (gv_runs s)"
    and "wf_required_text (Some (cx_run_id cx)) ''run_id'' = Inr (cx_run_id cx)" and "terminal_text status"
  shows "run_settled (cx_run_id cx) (gv_runs s')"
proof -
  obtain now where "finalize_run now (Some (cx_run_id cx)) (Some status) reason (Some message) failure files
      (map_option to_value seconds) None (gv_runs s) = (res, gv_runs s')"
    using assms(1) by (auto simp: close_run_def on_store_def split: prod.splits)
  from finalize_settles [OF assms(2-4) this] show ?thesis .
qed

text \<open>
  Orderly is what other tasks do meanwhile: any sequence of coordinator operations and any sequence of
  store operations, once the task and the run have been given their ids.
\<close>

lemma orderly_interleaving:
  assumes "coord_step\<^sup>*\<^sup>* (ids, rn_coord s) (ids', rn_coord s')" and "run_inv (ids, rn_coord s)" and "tid \<in> set ids"
    and "length (c_records (rn_coord s')) \<le> fuel"
    and "run_store_step\<^sup>*\<^sup>* (rids, gv_runs s) (rids', gv_runs s')" and "run_store_inv (rids, gv_runs s)" and "rid \<in> set rids"
  shows "orderly fuel tid rid s s'"
proof -
  have inv': "run_store_inv (rids', gv_runs s')" using runs.inv_run [OF assms(5,6)] .
  have dist: "distinct (map wr_run_id (gv_runs s))" "distinct (map wr_run_id (gv_runs s'))"
    using assms(6) inv' by (simp_all add: run_store_inv_def run_table_ok_def)
  have "wr_status r' \<in> set TERMINAL_WORKFLOW_RUN_STATUSES"
    if set: "run_settled rid (gv_runs s)" and r': "r' \<in> set (gv_runs s')" "wr_run_id r' = rid" for r'
  proof -
    have found: "find_run (gv_runs s') rid = Some r'" using r' dist(2) by (simp add: find_run_Some)
    then obtain r where r: "find_run (gv_runs s) rid = Some r"
      using runs.gone_run [OF assms(5,6), of rid] assms(7) by (cases "find_run (gv_runs s) rid") auto
    then have "wr_status r \<in> set TERMINAL_WORKFLOW_RUN_STATUSES"
      using set dist(1) by (simp add: find_run_Some run_settled_def list_all_iff)
    from runs.final_run [OF assms(5,6), of rid r] r this found show ?thesis by auto
  qed
  then show ?thesis
    using tame_run [OF assms(1-4)] inv' unfolding orderly_def run_settled_def list_all_iff run_store_inv_def by auto
qed

section \<open>Through the gate\<close>

text \<open>An operation of the governor that returns, keeps order, and settles the run when it returns a value.\<close>

definition settling :: "nat \<Rightarrow> string \<Rightarrow> string \<Rightarrow> 'a gov_run \<Rightarrow> bool" where
  "settling fuel tid rid f \<longleftrightarrow>
     (\<forall>s. sound fuel s \<longrightarrow> (\<exists>out s'. f s = Some (out, s') \<and> orderly fuel tid rid s s' \<and>
        ((\<exists>x. out = Body_Returns x) \<longrightarrow> run_settled rid (gv_runs s'))))"

lemma settlingI:
  assumes "\<And>s. sound fuel s \<Longrightarrow> \<exists>out s'. f s = Some (out, s') \<and> orderly fuel tid rid s s' \<and>
      ((\<exists>x. out = Body_Returns x) \<longrightarrow> run_settled rid (gv_runs s'))"
  shows "settling fuel tid rid f"
  using assms unfolding settling_def by blast

lemma gate_settling:
  assumes run: "settling fuel tid rid run" and acq: "orderly_effect fuel tid rid acquire"
    and hook: "\<And>w. orderly_effect fuel tid rid (hook w)"
  shows "settling fuel tid rid (run_with_gate tid policy (Some hook) acquire run)"
proof (rule settlingI)
  fix s
  assume sound: "sound fuel s"
  let ?key = "gp_key policy"
  let ?queue = "\<lambda>w s2. hook w (on_coord (heartbeat tid (gp_queued_status policy) (Some (gate_wait_metadata policy w))) s2)"
  obtain wait s2 where reg: "register_gate_waiter tid ?key (get_gate_lock ?key s) = (wait, s2)" by force
  have o2: "orderly fuel tid rid s s2" using register_frame [OF reg] by (intro orderly_same) simp_all
  obtain out3 s3 where h: "(case wait of None \<Rightarrow> (Body_Returns (), s2) | Some w \<Rightarrow> ?queue w s2) = (out3, s3)" by force
  have "orderly fuel tid rid s2 s3"
  proof (cases wait)
    case (Some w)
    then show ?thesis
      using h orderly_effectD [OF hook] orderly_on_coord(2) orderly_trans by fastforce
  qed (use h in simp)
  then have o3: "orderly fuel tid rid s s3" using o2 orderly_trans by blast
  obtain out4 s4 where a: "acquire s3 = (out4, s4)" by force
  have o4: "orderly fuel tid rid s s4" using o3 orderly_effectD [OF acq a] orderly_trans by blast
  define s6 where "s6 = (if gp_clear_metadata policy = [] then mark_gate_acquired tid ?key s4
    else on_coord (update_metadata tid (gp_clear_metadata policy)) (mark_gate_acquired tid ?key s4))"
  have "orderly fuel tid rid s4 (mark_gate_acquired tid ?key s4)" by (intro orderly_same) simp_all
  then have "orderly fuel tid rid s4 s6" using orderly_on_coord(1) orderly_trans unfolding s6_def by presburger
  then have o6: "orderly fuel tid rid s s6" using o4 orderly_trans by blast
  then obtain out s7 where r: "run s6 = Some (out, s7)" "orderly fuel tid rid s6 s7"
    "(\<exists>x. out = Body_Returns x) \<longrightarrow> run_settled rid (gv_runs s7)"
    using run orderly_sound [OF o6 sound] unfolding settling_def by blast
  have def: "run_with_gate tid policy (Some hook) acquire run s =
      (case out3 of
         Body_Cancelled \<Rightarrow> Some (Body_Cancelled, s3) | Body_Raises e \<Rightarrow> Some (Body_Raises e, s3)
       | Body_Returns _ \<Rightarrow>
           (case out4 of
              Body_Cancelled \<Rightarrow> Some (Body_Cancelled, unregister_gate_waiter tid ?key s4)
            | Body_Raises e \<Rightarrow> Some (Body_Raises e, unregister_gate_waiter tid ?key s4)
            | Body_Returns _ \<Rightarrow> Some (out, release_gate tid ?key (unregister_gate_waiter tid ?key s7))))"
    unfolding run_with_gate_def Let_def reg prod.case option.case h
    using a r(1) by (cases out3; cases out4) (simp_all add: s6_def [symmetric])
  have "orderly fuel tid rid s4 (unregister_gate_waiter tid ?key s4)"
    "orderly fuel tid rid s7 (release_gate tid ?key (unregister_gate_waiter tid ?key s7))"
    by (intro orderly_same; simp)+
  then have free: "orderly fuel tid rid s (unregister_gate_waiter tid ?key s4)"
      "orderly fuel tid rid s (release_gate tid ?key (unregister_gate_waiter tid ?key s7))"
    using orderly_trans [OF o4] orderly_trans [OF orderly_trans [OF o6 r(2)]] by blast+
  show "\<exists>out s'. run_with_gate tid policy (Some hook) acquire run s = Some (out, s') \<and> orderly fuel tid rid s s' \<and>
      ((\<exists>x. out = Body_Returns x) \<longrightarrow> run_settled rid (gv_runs s'))"
    unfolding def using o3 free r(3) by (cases out3; cases out4) auto
qed

section \<open>Behind the gate\<close>

text \<open>
  A context whose run id is stored as it is, as \<open>run_\<close> and hexadecimal digits are. The host is civil when
  its effects are orderly and no template reports the status \<open>timed_out\<close> of its own, which \<open>finish\<close> does not accept but an
  exception with the text of a finish signal can carry; every other status may be reported.
\<close>

definition clean_context :: "string \<Rightarrow> string \<Rightarrow> workflow_context \<Rightarrow> bool" where
  "clean_context tid rid cx \<longleftrightarrow> cx_task_id cx = tid \<and> cx_run_id cx = rid \<and> wf_required_text (Some rid) ''run_id'' = Inr rid"

definition civil_host :: "nat \<Rightarrow> string \<Rightarrow> string \<Rightarrow> governor_ext workflow_host \<Rightarrow> bool" where
  "civil_host fuel tid rid host \<longleftrightarrow>
     (\<forall>g. orderly_effect fuel tid rid (wh_load_workflows host g)) \<and>
     (\<forall>w. orderly_effect fuel tid rid (wh_ensure_directories host w)) \<and>
     (\<forall>g p step e. orderly_effect fuel tid rid (wh_run_template host g p step e) \<and>
        (\<forall>s t s'. wh_run_template host g p step e s = (Body_Returns t, s') \<longrightarrow>
           terminal_status_of t \<noteq> ''timed_out''))"

definition civil_env :: "nat \<Rightarrow> string \<Rightarrow> string \<Rightarrow> workflow_env \<Rightarrow> bool" where
  "civil_env fuel tid rid env \<longleftrightarrow> ev_fuel env = fuel \<and> orderly_effect fuel tid rid (ev_acquire_gate env) \<and>
     (\<forall>i. orderly_effect fuel tid rid (ev_await_permit env i)) \<and> civil_host fuel tid rid (ev_host env)"

lemma template_result_status:
  "normal_status (template_result g shown details t) = terminal_status_of t"
  by (simp add: normal_status_def template_result_def terminal_status_of_def Let_def strip_lower)

lemma execute_by_id_orderly:
  assumes "civil_host fuel tid rid host" and "execute_workflow_by_id host g step e inc s = (out, s')"
  shows "orderly fuel tid rid s s' \<and> (\<forall>r. out = Body_Returns r \<longrightarrow> normal_status r \<noteq> ''timed_out'')"
proof (cases "CHR ''/'' \<in> set g")
  case True
  obtain o1 s1 where l: "wh_load_workflows host g s = (o1, s1)" by force
  then have r1: "orderly fuel tid rid s s1" using assms(1) orderly_effectD unfolding civil_host_def by blast
  show ?thesis
  proof (cases "\<exists>w ws. o1 = Body_Returns (w # ws)")
    case False
    with True l assms(2) r1 show ?thesis
      by (cases o1) (auto simp: execute_workflow_by_id_def split: list.splits)
  next
    case True': True
    then obtain w ws where o1: "o1 = Body_Returns (w # ws)" by blast
    obtain o2 s2 where d: "wh_ensure_directories host w s1 = (o2, s2)" by force
    obtain o3 s3 where t: "wh_run_template host (lw_global_id w) (lw_file_path w) step e s2 = (o3, s3)" by force
    have "orderly fuel tid rid s1 s2" "orderly fuel tid rid s2 s3"
      using assms(1) orderly_effectD d t unfolding civil_host_def by blast+
    then have r2: "orderly fuel tid rid s s2" and r3: "orderly fuel tid rid s s3"
      using r1 orderly_trans by blast+
    have "normal_status (template_result a b c x) \<noteq> ''timed_out''" if "o3 = Body_Returns x" for a b c x
      using assms(1) t that unfolding template_result_status civil_host_def by blast
    then show ?thesis
      using True l o1 d t assms(2) r2 r3 by (cases o2; cases o3) (auto simp: execute_workflow_by_id_def)
  qed
qed (use assms(2) in \<open>auto simp: execute_workflow_by_id_def\<close>)

lemma execute_target_orderly:
  assumes "civil_host fuel tid rid host" and "execute_workflow_target host target step e s = (out, s')"
  shows "orderly fuel tid rid s s' \<and> (\<forall>r. out = Body_Returns r \<longrightarrow> normal_status r \<noteq> ''timed_out'')"
proof (cases "resolve_vault_workflow_target (wh_files host) (wt_vault_root target) (wt_vault_name target)
    (wt_vault_relative_path target)")
  case (Inr w)
  obtain o1 s1 where t: "wh_run_template host (wt_global_id w) (wt_file_path w) step e s = (o1, s1)" by force
  have "orderly fuel tid rid s s1" using assms(1) orderly_effectD t unfolding civil_host_def by blast
  moreover have "normal_status (template_result a b c x) \<noteq> ''timed_out''" if "o1 = Body_Returns x" for a b c x
    using assms(1) t that unfolding template_result_status civil_host_def by blast
  ultimately show ?thesis using Inr t assms(2) by (cases o1) (auto simp: execute_workflow_target_def)
qed (use assms(2) in \<open>auto simp: execute_workflow_target_def\<close>)

lemma execute_selected_orderly:
  assumes "civil_host fuel tid rid (ev_host env)" and "execute_selected_workflow env rq s = (out, s')"
  shows "orderly fuel tid rid s s' \<and> (\<forall>r. out = Body_Returns r \<longrightarrow> (\<exists>x. r = Some x \<and> normal_status x \<noteq> ''timed_out''))"
proof -
  obtain o1 s1 where x: "(case rq_target rq of
      Some target \<Rightarrow> execute_workflow_target (ev_host env) target (rq_step_name rq) (rq_expect_failure rq) s
    | None \<Rightarrow> execute_workflow_by_id (ev_host env) (rq_global_id rq) (rq_step_name rq) (rq_expect_failure rq)
                (rq_include_load_errors rq) s) = (o1, s1)" by force
  then have "orderly fuel tid rid s s1 \<and> (\<forall>r. o1 = Body_Returns r \<longrightarrow> normal_status r \<noteq> ''timed_out'')"
    using execute_by_id_orderly [OF assms(1)] execute_target_orderly [OF assms(1)] by (cases "rq_target rq") auto
  then show ?thesis
    using assms(2) unfolding execute_selected_workflow_def x by (cases o1) (auto simp: map_body_def)
qed

lemma record_timeout_settles:
  assumes "clean_context tid rid cx" and "sound fuel s" and "record_workflow_timeout cx seconds reason s = (out, s')"
  shows "orderly fuel tid rid s s' \<and> ((\<exists>r. out = Body_Returns r) \<longrightarrow> run_settled rid (gv_runs s'))"
proof -
  let ?r = "timeout_result cx seconds reason"
  let ?failure = "build_workflow_failure_metadata cx ''timed_out'' (Some reason) (timeout_classification reason) [] (Some (we_message ?r))"
  let ?s1 = "on_coord (update_metadata (cx_task_id cx)
      [(''workflow_result'', JDict (result_to_dict ?r)), (''workflow_failure'', JDict ?failure)]) s"
  have o1: "orderly fuel tid rid s ?s1" by (rule orderly_on_coord)
  obtain res s2 where c: "close_run cx ''timed_out'' (Some reason) (we_message ?r) (Some ?failure) (Some []) (Some seconds) ?s1 = (res, s2)"
    by force
  have o2: "orderly fuel tid rid s s2" using o1 close_run_orderly [OF c] orderly_trans by blast
  have "run_table_ok (gv_runs ?s1)" using assms(2) o1 orderly_sound sound_def by blast
  then have st: "run_settled rid (gv_runs s2)"
    using close_run_settles [OF c] assms(1) terminal_texts(4) by (simp add: clean_context_def)
  show ?thesis
    using assms(3) o2 st unfolding record_workflow_timeout_def Let_def c
    by (cases res) (auto intro: orderly_trans [OF o2 orderly_same])
qed

definition timeout_hooks :: "workflow_context \<Rightarrow> (WorkflowExecutionResult option, governor_ext) ExecutionTaskHooks" where
  "timeout_hooks cx = \<lparr>hk_on_cancelled = None, hk_on_failed = None, hk_on_timed_out = Some (\<lambda>_. record_workflow_timeout cx)\<rparr>"

text \<open>The workflow under its timeout: a timed-out result comes from the hook, which has closed the run.\<close>

lemma timed_workflow_orderly:
  assumes cx: "clean_context tid rid cx" and host: "civil_host fuel tid rid (ev_host env)" and sound: "sound fuel s"
  shows "\<exists>out s'. run_with_timeout workflow_view fuel expired tid spec (Some (timeout_hooks cx))
           (execute_selected_workflow env rq) s = Some (out, s') \<and> orderly fuel tid rid s s' \<and>
         (\<forall>r. out = Body_Returns (Some r) \<longrightarrow> normal_status r = ''timed_out'' \<longrightarrow> run_settled rid (gv_runs s'))"
proof -
  let ?run = "run_with_timeout workflow_view fuel expired tid spec (Some (timeout_hooks cx)) (execute_selected_workflow env rq) s"
  obtain out1 s1 where x: "execute_selected_workflow env rq s = (out1, s1)" by force
  note X = execute_selected_orderly [OF host x]
  show ?thesis
  proof (cases "\<exists>timeout exc. sp_timeout_seconds spec = Some timeout \<and> 0 < to_value timeout \<and> out1 = Body_Raises exc \<and>
      exn_type exc = ''TimeoutError'' \<and> expired s1")
    case False
    then have "?run = Some (out1, s1)"
      using x by (cases out1) (auto simp: run_with_timeout_def not_le split: option.splits)
    then show ?thesis using X by auto
  next
    case True
    then obtain timeout exc where T: "sp_timeout_seconds spec = Some timeout" "0 < to_value timeout"
      "out1 = Body_Raises exc" "exn_type exc = ''TimeoutError''" "expired s1" by blast
    let ?reason = "or_else (sp_timeout_reason spec) (''execution_task_timeout:'' @ to_text timeout @ ''s'')"
    obtain out2 s2 where h: "record_workflow_timeout cx timeout ?reason s1 = (out2, s2)" by force
    note H = record_timeout_settles [OF cx orderly_sound [OF conjunct1 [OF X] sound] h]
    have o2: "orderly fuel tid rid s s2" using X H orderly_trans by blast
    then have "ready fuel (rn_coord s2)" using orderly_sound sound sound_def by blast
    then obtain c3 where c3: "mark_timed_out fuel tid (Some ?reason) (rn_coord s2) = Some c3"
      "tame_change fuel tid (rn_coord s2) c3" using marks_return(3) by blast
    have "orderly fuel tid rid s (s2\<lparr>rn_coord := c3\<rparr>)" using o2 orderly_coord [OF c3(2)] orderly_trans by blast
    moreover have "?run = (case out2 of
        Body_Returns v \<Rightarrow> Some (Body_Returns v, s2\<lparr>rn_coord := c3\<rparr>)
      | Body_Cancelled \<Rightarrow> Some (Body_Cancelled, s2) | Body_Raises e \<Rightarrow> Some (Body_Raises e, s2))"
      using x T h c3(1)
      by (cases out2) (simp_all add: run_with_timeout_def call_timed_out_hook_def timeout_hooks_def workflow_view_def
          record_dict_result_def on_coord_opt_def Let_def)
    ultimately show ?thesis using H o2 by (cases out2) auto
  qed
qed

lemma terminal_status_text: "terminal_text (workflow_run_terminal_status r)"
  using terminal_texts by (auto simp: workflow_run_terminal_status_def)

lemma mark_from_result_orderly:
  assumes "sound fuel s"
  shows "\<exists>s'. mark_task_terminal_from_result fuel tid r s = Some s' \<and> orderly fuel tid rid s s' \<and> gv_runs s' = gv_runs s"
proof -
  have "ready fuel (rn_coord s)" using assms by (simp add: sound_def)
  note M = marks_return [OF this, of tid "we_reason r"]
  let ?mark = "if normal_status r = status_value SKIPPED then mark_skipped fuel tid (we_reason r)
            else if normal_status r = status_value FAILED then mark_failed fuel tid (we_reason r) None
            else if normal_status r = status_value CANCELLED then mark_cancelled fuel tid (we_reason r)
            else if normal_status r = status_value TIMED_OUT then mark_timed_out fuel tid (we_reason r)
            else mark_completed fuel tid (we_reason r)"
  have "\<exists>c'. ?mark (rn_coord s) = Some c' \<and> tame_change fuel tid (rn_coord s) c'"
    using M(1) [of None] M(2-5) by (simp split: if_splits) blast
  then show ?thesis
    unfolding mark_task_terminal_from_result_def Let_def on_coord_opt_def using orderly_coord by auto
qed

text \<open>
  What \<open>publish_workflow_result\<close> does before it closes the run: task metadata and a log entry.
\<close>

lemma publish_prefix:
  assumes "normal_status result \<noteq> ''timed_out''"
  obtains r failure s3 where
    "publish_workflow_result env cx result s =
       (case close_run cx (workflow_run_terminal_status r) (we_reason r) (we_message r) failure (Some (we_output_files r))
               (Some (we_execution_time_seconds r)) s3 of
          (Inl e, s4) \<Rightarrow> Some (Body_Raises (exn_info_of e), s4)
        | (Inr _, s4) \<Rightarrow>
            map_option (Pair (Body_Returns r)) (mark_task_terminal_from_result (ev_fuel env) (cx_task_id cx) r s4))"
    "orderly fuel tid rid s s3"
proof -
  define r where "r = result\<lparr>we_details := we_details result @ [''task_id: '' @ cx_task_id cx]\<rparr>"
  define failure where "failure = (if normal_status r = status_value FAILED
    then Some (build_workflow_failure_metadata cx (we_status r) (we_reason r) (reported_failure r)
                 (we_output_files r) (Some (we_message r))) else None)"
  define s1 where "s1 = on_coord (update_metadata (cx_task_id cx) [(''workflow_result'', JDict (result_to_dict r))]) s"
  define s2 where "s2 = (case failure of None \<Rightarrow> s1
    | Some m \<Rightarrow> on_coord (update_metadata (cx_task_id cx) [(''workflow_failure'', JDict m)]) s1)"
  define s3 where "s3 = log_workflow_event cx (workflow_result_event r)
    \<lparr>ed_status = Some (we_status r), ed_reason = we_reason r, ed_seconds = Some (we_execution_time_seconds r),
     ed_output_files = Some (we_output_files r), ed_message = Some (we_message r),
     ed_failure_kind = (case failure of None \<Rightarrow> JNull | Some m \<Rightarrow> json_get ''failure_kind'' m),
     ed_retryable = (case failure of None \<Rightarrow> JNull | Some m \<Rightarrow> json_get ''retryable'' m)\<rparr> s2"
  have "orderly fuel tid rid s s3"
  proof -
    have "orderly fuel tid rid s s1" unfolding s1_def by (rule orderly_on_coord)
    moreover have "orderly fuel tid rid s1 s2"
      unfolding s2_def by (cases failure) (simp_all add: orderly_on_coord)
    moreover have "orderly fuel tid rid s2 s3" unfolding s3_def by (intro orderly_same) simp_all
    ultimately show ?thesis using orderly_trans by blast
  qed
  moreover have "publish_workflow_result env cx result s =
       (case close_run cx (workflow_run_terminal_status r) (we_reason r) (we_message r) failure (Some (we_output_files r))
               (Some (we_execution_time_seconds r)) s3 of
          (Inl e, s4) \<Rightarrow> Some (Body_Raises (exn_info_of e), s4)
        | (Inr _, s4) \<Rightarrow>
            map_option (Pair (Body_Returns r)) (mark_task_terminal_from_result (ev_fuel env) (cx_task_id cx) r s4))"
    unfolding publish_workflow_result_def Let_def r_def [symmetric] s1_def [symmetric] failure_def [symmetric]
      s2_def [symmetric] s3_def [symmetric] using assms by simp
  ultimately show thesis using that by blast
qed

lemma publish_settles:
  assumes cx: "clean_context tid rid cx" and fuel: "ev_fuel env = fuel" and sound: "sound fuel s"
    and "normal_status result = ''timed_out'' \<Longrightarrow> run_settled rid (gv_runs s)"
  shows "\<exists>out s'. publish_workflow_result env cx result s = Some (out, s') \<and> orderly fuel tid rid s s' \<and>
           ((\<exists>x. out = Body_Returns x) \<longrightarrow> run_settled rid (gv_runs s'))"
proof (cases "normal_status result = ''timed_out''")
  case True
  then show ?thesis using assms(4) by (simp add: publish_workflow_result_def)
next
  case False
  obtain r failure s3 where
    P: "publish_workflow_result env cx result s =
       (case close_run cx (workflow_run_terminal_status r) (we_reason r) (we_message r) failure (Some (we_output_files r))
               (Some (we_execution_time_seconds r)) s3 of
          (Inl e, s4) \<Rightarrow> Some (Body_Raises (exn_info_of e), s4)
        | (Inr _, s4) \<Rightarrow>
            map_option (Pair (Body_Returns r)) (mark_task_terminal_from_result (ev_fuel env) (cx_task_id cx) r s4))"
    and o3: "orderly fuel tid rid s s3" by (rule publish_prefix [OF False])
  obtain res s4 where c: "close_run cx (workflow_run_terminal_status r) (we_reason r) (we_message r) failure
      (Some (we_output_files r)) (Some (we_execution_time_seconds r)) s3 = (res, s4)" by force
  have o4: "orderly fuel tid rid s s4" using o3 close_run_orderly [OF c] orderly_trans by blast
  have "run_table_ok (gv_runs s3)" using o3 sound orderly_sound sound_def by blast
  then have st: "run_settled rid (gv_runs s4)"
    using close_run_settles [OF c _ _ terminal_status_text] cx by (simp add: clean_context_def)
  obtain s5 where s5: "mark_task_terminal_from_result fuel tid r s4 = Some s5" "orderly fuel tid rid s4 s5" "gv_runs s5 = gv_runs s4"
    using mark_from_result_orderly [OF orderly_sound [OF o4 sound]] by blast
  have "orderly fuel tid rid s s5" using o4 s5(2) orderly_trans by blast
  with o4 st s5(1,3) cx fuel show ?thesis
    unfolding P c prod.case by (cases res) (auto simp: clean_context_def)
qed

lemma started_workflow_settling:
  assumes cx: "clean_context tid rid cx" and env: "civil_env fuel tid rid env"
  shows "settling fuel tid rid (run_started_workflow env cx authority)"
proof (rule settlingI)
  fix s
  assume sound: "sound fuel s"
  have tid: "cx_task_id cx = tid" and fuel: "ev_fuel env = fuel" and host: "civil_host fuel tid rid (ev_host env)"
    using cx env by (simp_all add: clean_context_def civil_env_def)
  obtain res1 c1 where m: "mark_started tid (rn_coord s) = (res1, c1)" by force
  let ?s1 = "s\<lparr>rn_coord := c1\<rparr>"
  have o1: "orderly fuel tid rid s ?s1" by (rule orderly_coord [OF tame_step_ok [OF mark_started_ok [OF m]]])
  obtain res2 s2 where st: "on_store (\<lambda>now. run_mark_started now (Some (cx_run_id cx)) None) ?s1 = (res2, s2)" by force
  have o2: "orderly fuel tid rid s s2" using o1 run_mark_started_orderly [OF st] orderly_trans by blast
  define sh where "sh = on_coord (heartbeat tid ''workflow_running''
       (Some [(''workflow_queue_reason'', JNull), (''workflow_id'', JStr (rq_global_id (cx_request cx))),
              (''workflow_name'', JStr (cx_workflow_name cx)), (''vault'', JStr (cx_vault_name cx)),
              (''step_name'', json_of_opt (rq_step_name (cx_request cx))),
              (''workflow_path'', json_of_opt (cx_workflow_path cx))])) s2"
  define s3 where "s3 = log_workflow_event cx ''workflow_task_started'' no_details sh"
  have "orderly fuel tid rid s2 sh" unfolding sh_def by (rule orderly_on_coord)
  moreover have "orderly fuel tid rid sh s3" by (rule orderly_same) (simp_all add: s3_def)
  ultimately have "orderly fuel tid rid s2 s3" using orderly_trans by blast
  then have o3: "orderly fuel tid rid s s3" using o2 orderly_trans by blast
  obtain out4 s4 where t: "run_with_timeout workflow_view fuel (ev_expired env) tid (workflow_spec cx authority (ev_timeout env s3))
      (Some (timeout_hooks cx)) (execute_selected_workflow env (cx_request cx)) s3 = Some (out4, s4)"
    and t4: "orderly fuel tid rid s3 s4"
    and tr: "\<forall>r. out4 = Body_Returns (Some r) \<longrightarrow> normal_status r = ''timed_out'' \<longrightarrow> run_settled rid (gv_runs s4)"
    using timed_workflow_orderly [OF cx host orderly_sound [OF o3 sound]] by blast
  have o4: "orderly fuel tid rid s s4" using o3 t4 orderly_trans by blast
  have P: "\<exists>out s'. publish_workflow_result env cx r s4 = Some (out, s') \<and> orderly fuel tid rid s s' \<and>
      ((\<exists>x. out = Body_Returns x) \<longrightarrow> run_settled rid (gv_runs s'))" if "out4 = Body_Returns (Some r)" for r
    using publish_settles [OF cx fuel orderly_sound [OF o4 sound], of r] tr that o4 orderly_trans by blast
  show "\<exists>out s'. run_started_workflow env cx authority s = Some (out, s') \<and> orderly fuel tid rid s s' \<and>
      ((\<exists>x. out = Body_Returns x) \<longrightarrow> run_settled rid (gv_runs s'))"
  proof (cases "(\<exists>e. res1 = Inl e) \<or> (\<exists>e. res2 = Inl e)")
    case True
    then show ?thesis
      using o1 o2 m st unfolding run_started_workflow_def tid by (cases res1) auto
  next
    case False
    then obtain u v where "res1 = Inr u" "res2 = Inr v" by (meson sum.exhaust)
    then have "run_started_workflow env cx authority s =
        (case out4 of
           Body_Cancelled \<Rightarrow> Some (Body_Cancelled, s4)
         | Body_Raises e \<Rightarrow> Some (Body_Raises e, s4)
         | Body_Returns None \<Rightarrow>
             Some (Body_Raises ((exn_info_of (TypeError (quoted ''NoneType'' @ '' object has no attribute '' @ quoted ''status'')))
                     \<lparr>exn_type := ''AttributeError''\<rparr>), s4)
         | Body_Returns (Some result) \<Rightarrow> publish_workflow_result env cx result s4)"
      unfolding run_started_workflow_def tid m fuel Let_def
      by (simp add: st sh_def [symmetric] s3_def [symmetric] timeout_hooks_def [symmetric] t)
    then show ?thesis using P o4 by (cases out4) (auto split: option.splits)
  qed
qed

lemma acquire_permit_orderly:
  assumes "orderly_effect fuel tid rid (ev_await_permit env i)" and "acquire_permit env t i s = (out, s')"
  shows "orderly fuel tid rid s s'"
proof -
  obtain taken m where e: "sem_enter t (gv_semaphores s ! i) = (taken, m)" by force
  let ?s1 = "on_semaphore i (\<lambda>_. m) s"
  obtain out2 s2 where w: "ev_await_permit env i ?s1 = (out2, s2)" by force
  have o1: "orderly fuel tid rid s ?s1" by (rule orderly_same) simp_all
  then have "orderly fuel tid rid s s2" using orderly_effectD [OF assms(1) w] orderly_trans by blast
  then have "orderly fuel tid rid s (on_semaphore i f s2)" for f
    by (rule orderly_trans) (rule orderly_same; simp)
  with o1 show ?thesis
    using assms(2) e w by (cases taken; cases out2) (auto simp: acquire_permit_def)
qed

lemma report_gate_exit_orderly:
  "orderly fuel tid rid s (snd (report_gate_exit cx (out, s)))" "fst (report_gate_exit cx (out, s)) = out"
  "gv_runs (snd (report_gate_exit cx (out, s))) = gv_runs s"
proof -
  show "orderly fuel tid rid s (snd (report_gate_exit cx (out, s)))"
  proof (cases out)
    case (Body_Raises exc)
    have "orderly fuel tid rid s (log_workflow_event cx ev d (on_coord (update_metadata t m) s))" for ev d t m
      by (rule orderly_trans [OF orderly_on_coord(1) orderly_same]) simp_all
    then show ?thesis by (simp add: Body_Raises report_gate_exit_def Let_def)
  qed (simp_all add: report_gate_exit_def orderly_same)
  show "fst (report_gate_exit cx (out, s)) = out" "gv_runs (snd (report_gate_exit cx (out, s))) = gv_runs s"
    by (cases out; simp add: report_gate_exit_def Let_def on_coord_def)+
qed

lemma vault_gate_settling:
  assumes cx: "clean_context tid rid cx" and env: "civil_env fuel tid rid env"
  shows "settling fuel tid rid (run_in_vault_gate env cx authority)"
proof (rule settlingI)
  fix s
  assume sound: "sound fuel s"
  obtain sem s1 where g: "get_global_semaphore (ev_max_concurrent env s) s = (sem, s1)" by force
  have o1: "orderly fuel tid rid s s1" using semaphore_frame [OF g] by (intro orderly_same) simp_all
  have body: "\<exists>out s'. run_started_workflow env cx authority s2 = Some (out, s') \<and> orderly fuel tid rid s s' \<and>
      ((\<exists>x. out = Body_Returns x) \<longrightarrow> run_settled rid (gv_runs s'))" if "orderly fuel tid rid s s2" for s2
    using started_workflow_settling [OF cx env, of authority] orderly_sound [OF that sound] orderly_trans [OF that]
    unfolding settling_def by blast
  have leave: "orderly fuel tid rid s (snd (report_gate_exit cx (out, s2)))" if "orderly fuel tid rid s s2" for out :: "WorkflowExecutionResult body_outcome" and s2
    using that report_gate_exit_orderly(1) orderly_trans by blast
  show "\<exists>out s'. run_in_vault_gate env cx authority s = Some (out, s') \<and> orderly fuel tid rid s s' \<and>
      ((\<exists>x. out = Body_Returns x) \<longrightarrow> run_settled rid (gv_runs s'))"
  proof (cases sem)
    case None
    obtain out s2 where b: "run_started_workflow env cx authority s1 = Some (out, s2)" "orderly fuel tid rid s s2"
      "(\<exists>x. out = Body_Returns x) \<longrightarrow> run_settled rid (gv_runs s2)" using body [OF o1] by blast
    have "run_in_vault_gate env cx authority s = Some (fst (report_gate_exit cx (out, s2)), snd (report_gate_exit cx (out, s2)))"
      by (simp add: run_in_vault_gate_def g None b(1))
    then show ?thesis using leave [OF b(2)] b(3) report_gate_exit_orderly(2,3) by metis
  next
    case (Some i)
    define s2 where "s2 = (if sem_locked (gv_semaphores s1 ! i)
        then log_queue_event cx ''workflow_task_queued_for_global_capacity'' ''workflow_global_capacity_active''
               (on_coord (heartbeat (cx_task_id cx) ''queued_for_global_capacity''
                  (Some [(''workflow_queue_reason'', JStr ''workflow_global_capacity_active'')])) s1)
        else s1)"
    have "orderly fuel tid rid s1 (log_queue_event cx ev rs (on_coord (heartbeat t st hm) s1))" for ev rs t st hm
      by (rule orderly_trans [OF orderly_on_coord(2) orderly_same]) simp_all
    then have "orderly fuel tid rid s1 s2" by (simp add: s2_def)
    then have o2: "orderly fuel tid rid s s2" using o1 orderly_trans by blast
    obtain out3 s3 where a: "acquire_permit env (cx_task_id cx) i s2 = (out3, s3)" by force
    have o3: "orderly fuel tid rid s s3"
      using o2 acquire_permit_orderly [OF _ a] env orderly_trans unfolding civil_env_def by blast
    obtain out s4 where b: "run_started_workflow env cx authority s3 = Some (out, s4)" "orderly fuel tid rid s s4"
      "(\<exists>x. out = Body_Returns x) \<longrightarrow> run_settled rid (gv_runs s4)" using body [OF o3] by blast
    have "orderly fuel tid rid s (on_semaphore i sem_release (snd (report_gate_exit cx (out, s4))))"
      by (rule orderly_trans [OF leave [OF b(2)] orderly_same]) simp_all
    moreover have "run_in_vault_gate env cx authority s =
        (case out3 of
           Body_Returns _ \<Rightarrow> Some (out, on_semaphore i sem_release (snd (report_gate_exit cx (out, s4))))
         | Body_Cancelled \<Rightarrow> Some (Body_Cancelled, snd (report_gate_exit cx (Body_Cancelled :: WorkflowExecutionResult body_outcome, s3)))
         | Body_Raises e \<Rightarrow> Some (Body_Raises e, snd (report_gate_exit cx (Body_Raises e :: WorkflowExecutionResult body_outcome, s3))))"
      using report_gate_exit_orderly(2) [of cx]
      by (cases out3) (simp_all add: run_in_vault_gate_def g Some s2_def [symmetric] a b(1) prod_eq_iff split: prod.splits)
    ultimately show ?thesis
      using leave [OF o3] b(3) by (cases out3) (auto simp: report_gate_exit_orderly(3))
  qed
qed

section \<open>The whole run\<close>

lemma close_after_gate_settles:
  assumes cx: "clean_context tid rid cx" and sound: "sound fuel s"
    and "(\<exists>x. out = Body_Returns x) \<longrightarrow> run_settled rid (gv_runs s)"
  shows "orderly fuel tid rid s (snd (close_after_gate cx (out, s))) \<and> run_settled rid (gv_runs (snd (close_after_gate cx (out, s))))"
proof -
  have closed: "orderly fuel tid rid s s1 \<and> run_settled rid (gv_runs s1) \<and>
      orderly fuel tid rid s (attach_workflow_run_id (cx_run_id cx) s1)"
    if "close_run cx status reason message failure files seconds s = (res, s1)" "terminal_text status"
    for status reason message failure files seconds res s1
    using close_run_orderly [OF that(1)] close_run_settles [OF that(1) _ _ that(2)] sound cx
      orderly_trans [OF close_run_orderly [OF that(1)] orderly_same]
    by (simp add: sound_def clean_context_def)
  show ?thesis
  proof (cases out)
    case Body_Cancelled
    obtain res s1 where c: "close_run cx ''cancelled'' (Some ''cancelled'')
        (''Workflow '' @ quoted (rq_global_id (cx_request cx)) @ '' was cancelled'') None None None s = (res, s1)" by force
    show ?thesis
      unfolding Body_Cancelled close_after_gate_def prod.case body_outcome.case c
      using closed [OF c terminal_texts(3)] by (cases res) simp_all
  next
    case (Body_Raises exc)
    let ?reason = "exn_type exc @ '': '' @ exn_str exc"
    let ?failure = "build_workflow_failure_metadata cx ''failed'' (Some ?reason)
                      (classify_exception exc ''workflow_execution'') [] (Some (exn_str exc))"
    obtain res s1 where c: "close_run cx ''failed'' (Some ?reason) (exn_str exc) (Some ?failure) None None s = (res, s1)" by force
    show ?thesis
      unfolding Body_Raises close_after_gate_def prod.case body_outcome.case Let_def c
      using closed [OF c terminal_texts(2)] by (cases res) simp_all
  qed (use assms(3) in \<open>simp add: close_after_gate_def\<close>)
qed

text \<open>Creating the run under a new id: the row is there, or nothing changed.\<close>

lemma create_run_fresh:
  assumes "create_run now uuid wid wname vault src owner task step job sched queued table = (res, table')"
    and "run_table_ok table" and "''run_'' @ uuid \<notin> wr_run_id ` set table"
  shows "run_table_ok table' \<and> (case res of Inl _ \<Rightarrow> table' = table | Inr run \<Rightarrow> wr_run_id run = ''run_'' @ uuid)"
proof -
  have "run_table_ok table'"
    using create_run_spec [OF assms(1)] assms(2) run_table_ok_insert by blast
  moreover have "(\<exists>e. res = Inl e) \<and> table' = table \<or>
      (\<exists>r. insert_run r table = Inr table' \<and> wr_run_id r = ''run_'' @ uuid \<and> res = wf_require_run table' (''run_'' @ uuid))"
    using assms(1) by (auto simp: create_run_def Let_def new_run_def split: sum.splits)
  then have "case res of Inl _ \<Rightarrow> table' = table | Inr run \<Rightarrow> wr_run_id run = ''run_'' @ uuid"
  proof (elim disjE exE conjE)
    fix r
    assume r: "insert_run r table = Inr table'" "wr_run_id r = ''run_'' @ uuid" and res: "res = wf_require_run table' (''run_'' @ uuid)"
    have "''run_'' @ uuid \<in> wr_run_id ` set table'" using r by (force simp: insert_run_def split: if_splits)
    then obtain row where row: "find_run table' (''run_'' @ uuid) = Some row" using find_run_None by blast
    then have "wr_run_id row = ''run_'' @ uuid" by (auto simp: find_run_def find_Some_iff)
    with row show ?thesis unfolding res wf_require_run_def by simp
  qed simp
  ultimately show ?thesis by blast
qed

lemma tracked_workflow_settles:
  assumes env: "civil_env fuel tid rid env" and sound: "sound fuel s" and rid: "rid = ''run_'' @ ev_run_uuid env"
    and fresh: "rid \<notin> wr_run_id ` set (gv_runs s)" and clean: "wf_required_text (Some rid) ''run_id'' = Inr rid"
  shows "\<exists>out s'. run_tracked_workflow env rq vault wname authority tid s = Some (out, s') \<and> sound fuel s' \<and>
           run_settled rid (gv_runs s')"
proof -
  obtain res s1 where c: "on_store (\<lambda>now. create_run now (ev_run_uuid env) (Some (rq_global_id rq)) (Some wname) (Some vault)
      (Some (rq_source rq)) (Some (ea_principal_id authority)) (Some tid) (rq_step_name rq) None None None) s = (res, s1)" by force
  then have "run_table_ok (gv_runs s1) \<and> (case res of Inl _ \<Rightarrow> gv_runs s1 = gv_runs s | Inr run \<Rightarrow> wr_run_id run = rid)"
    and coord: "rn_coord s1 = rn_coord s"
    using create_run_fresh [where table = "gv_runs s" and table' = "gv_runs s1" and res = res] sound fresh
    unfolding on_store_def rid sound_def by (auto split: prod.splits)
  then have ok: "run_table_ok (gv_runs s1)" and res: "case res of Inl _ \<Rightarrow> gv_runs s1 = gv_runs s | Inr run \<Rightarrow> wr_run_id run = rid"
    by blast+
  have sound1: "sound fuel s1" using sound ok coord by (simp add: sound_def)
  show ?thesis
  proof (cases res)
    case (Inl e)
    have "run_settled rid (gv_runs s)" using fresh by (auto simp: run_settled_def list_all_iff)
    with Inl c res sound1 show ?thesis by (simp add: run_tracked_workflow_def)
  next
    case (Inr run)
    define cx where "cx = \<lparr>cx_request = rq, cx_vault_name = vault, cx_workflow_name = wname, cx_task_id = tid, cx_run_id = rid\<rparr>"
    have cx: "clean_context tid rid cx" using clean by (simp add: clean_context_def cx_def)
    let ?s2 = "on_coord (update_metadata tid [(''workflow_run_id'', JStr rid)]) s1"
    have sound2: "sound fuel ?s2" by (rule orderly_sound [OF orderly_on_coord(1) sound1])
    have "settling fuel tid rid (run_with_gate tid (workflow_gate cx) (Some (log_vault_gate_queue cx)) (ev_acquire_gate env)
        (run_in_vault_gate env cx authority))"
      using env vault_gate_settling [OF cx env]
      by (intro gate_settling)
        (auto simp: civil_env_def orderly_effect_def log_vault_gate_queue_def intro!: orderly_same)
    then obtain out s3 where g: "run_with_gate tid (workflow_gate cx) (Some (log_vault_gate_queue cx)) (ev_acquire_gate env)
        (run_in_vault_gate env cx authority) ?s2 = Some (out, s3)" "orderly fuel tid rid ?s2 s3"
      "(\<exists>x. out = Body_Returns x) \<longrightarrow> run_settled rid (gv_runs s3)"
      using sound2 unfolding settling_def by blast
    have sound3: "sound fuel s3" by (rule orderly_sound [OF g(2) sound2])
    have "run_tracked_workflow env rq vault wname authority tid s = Some (close_after_gate cx (out, s3))"
      using c Inr res g(1) by (simp add: run_tracked_workflow_def cx_def Let_def)
    then show ?thesis
      using close_after_gate_settles [OF cx sound3 g(3)] orderly_sound [OF _ sound3] by (metis surjective_pairing)
  qed
qed

definition governed_task_id :: "workflow_env \<Rightarrow> workflow_request \<Rightarrow> string" where
  "governed_task_id env rq =
     (case rq_task_id rq of None \<Rightarrow> new_task_id (ev_task_uuid env)
      | Some tid \<Rightarrow> if tid = [] then new_task_id (ev_task_uuid env) else tid)"

text \<open>A request is refused, or tracked under a task of its own or the caller's.\<close>

lemma execute_workflow_cases:
  obtains (refused) e where "execute_workflow env rq s = Some (Body_Raises e, s)"
  | (own) vault wname authority where "governed_task_id env rq = new_task_id (ev_task_uuid env)"
      "execute_workflow env rq s =
         track_current_workflow env rq vault authority (run_tracked_workflow env rq vault wname authority) s"
  | (given) vault wname authority where "rq_task_id rq \<noteq> None"
      "execute_workflow env rq s =
         track_existing_workflow env (governed_task_id env rq) (run_tracked_workflow env rq vault wname authority) s"
proof (cases "split_workflow_identity (rq_global_id rq)")
  case (Inr names)
  obtain vault wname where n: "names = (vault, wname)" by (cases names)
  show thesis
  proof (cases "case rq_target rq of None \<Rightarrow> False | Some target \<Rightarrow> wt_global_id target \<noteq> rq_global_id rq")
    case True
    then show thesis using Inr n refused by (simp add: execute_workflow_def)
  next
    case False
    then have rest: "execute_workflow env rq s =
        (case authority_for_workflow_source (rq_source rq) (rq_authority rq) (ev_current_authority env) of
           Inl e \<Rightarrow> Some (Body_Raises (exn_info_of e), s)
         | Inr authority \<Rightarrow>
             (if rq_task_id rq = None \<or> rq_task_id rq = Some []
              then track_current_workflow env rq vault authority (run_tracked_workflow env rq vault wname authority) s
              else track_existing_workflow env (governed_task_id env rq) (run_tracked_workflow env rq vault wname authority) s))"
      unfolding execute_workflow_def Inr n
      by (auto simp: governed_task_id_def Let_def split: sum.splits option.splits)
    show thesis
    proof (cases "authority_for_workflow_source (rq_source rq) (rq_authority rq) (ev_current_authority env)")
      case (Inl e)
      show thesis by (rule refused) (simp add: rest Inl)
    next
      case auth: (Inr authority)
      show thesis
      proof (cases "rq_task_id rq = None \<or> rq_task_id rq = Some []")
        case True
        then show thesis by (intro own [of vault authority wname]) (auto simp: rest auth governed_task_id_def)
      next
        case False
        then show thesis by (intro given [of vault wname authority]) (auto simp: rest auth)
      qed
    qed
  qed
qed (use refused in \<open>simp add: execute_workflow_def\<close>)

lemma run_id_text:
  assumes "\<forall>c \<in> set uuid. \<not> py_isspace c"
  shows "wf_required_text (Some (''run_'' @ uuid)) ''run_id'' = Inr (''run_'' @ uuid)"
proof -
  have "dropWhile py_isspace xs = xs" if "\<forall>c \<in> set xs. \<not> py_isspace c" for xs
    using that by (cases xs) simp_all
  moreover have "\<forall>c \<in> set (''run_'' @ uuid). \<not> py_isspace c" using assms by (auto simp: py_isspace_def)
  ultimately have "strip (''run_'' @ uuid) = ''run_'' @ uuid"
    unfolding strip_def rstrip_def lstrip_def by (metis rev_rev_ident set_rev)
  then show ?thesis by (simp add: wf_required_text_def wf_optional_text_def Let_def)
qed

lemma close_tracking_settles:
  assumes "f = Some (out, s1)" and "sound fuel s1" and "run_settled rid (gv_runs s1)"
  shows "\<exists>out s'. Option.bind f (close_runner_tracking fuel tid kind) = Some (out, s') \<and> run_settled rid (gv_runs s') \<and>
           ended tid (rn_coord s')"
  using close_runner_tracking_ends [of fuel s1 tid kind out] assms
  by (auto simp: sound_def close_runner_tracking_def)

lemma track_existing_settles:
  assumes "civil_env fuel tid rid env" and sound: "sound fuel s" and "run_settled rid (gv_runs s)"
    and body: "\<And>s. sound fuel s \<Longrightarrow> gv_runs s = table \<Longrightarrow> \<exists>out s'. body tid s = Some (out, s') \<and> sound fuel s' \<and> run_settled rid (gv_runs s')"
    and "table = gv_runs s"
  shows "\<exists>out s'. track_existing_workflow env tid body s = Some (out, s') \<and> run_settled rid (gv_runs s')"
proof (cases "ev_handle env")
  case (Some h)
  obtain res c where a: "attach_handle tid h (rn_coord s) = (res, c)" by force
  have sound1: "sound fuel (s\<lparr>rn_coord := c\<rparr>)"
    by (rule orderly_sound [OF orderly_coord [OF tame_step_ok [OF attach_handle_ok [OF a]]] sound])
  obtain out s1 where b: "body tid (s\<lparr>rn_coord := c\<rparr>) = Some (out, s1)" "sound fuel s1" "run_settled rid (gv_runs s1)"
    using body [OF sound1] assms(5) by auto
  have "\<exists>out s'. Option.bind (body tid (s\<lparr>rn_coord := c\<rparr>)) (close_runner_tracking fuel tid kind) = Some (out, s') \<and>
      run_settled rid (gv_runs s')" for kind
    using close_tracking_settles [OF b] by blast
  then show ?thesis
    using Some a assms(1,3) by (cases res) (auto simp: track_existing_workflow_def civil_env_def)
qed (use assms(3) in \<open>simp add: track_existing_workflow_def\<close>)

lemma track_current_settles:
  assumes env: "civil_env fuel tid rid env" and inv: "run_inv (ids, rn_coord s)" and new: "tid \<notin> set ids"
    and tid: "tid = new_task_id (ev_task_uuid env)" and len: "Suc (length (c_records (rn_coord s))) \<le> fuel"
    and tab: "run_table_ok (gv_runs s)" and set0: "run_settled rid (gv_runs s)"
    and body: "\<And>s. sound fuel s \<Longrightarrow> gv_runs s = table \<Longrightarrow> \<exists>out s'. body tid s = Some (out, s') \<and> sound fuel s' \<and> run_settled rid (gv_runs s')"
    and "table = gv_runs s"
  shows "\<exists>out s'. track_current_workflow env rq vault authority body s = Some (out, s') \<and> run_settled rid (gv_runs s') \<and>
           ended tid (rn_coord s')"
proof -
  have fresh: "fresh_id (rn_coord s) tid" and cinv: "coord_inv (rn_coord s)" using inv new by (auto simp: run_inv_def)
  then have none: "find_record (rn_coord s) tid = None" by (simp add: fresh_id_def)
  obtain res c1 where c1: "create_record tid (kind_value WORKFLOW) (workflow_vault_scope vault) (rq_source rq) (rq_global_id rq)
      authority (ev_handle env) (Some (workflow_task_metadata rq vault)) None False False (rn_coord s) = (res, c1)" by force
  have "length (c_records c1) \<le> Suc (length (c_records (rn_coord s)))"
    using c1 none by (cases rule: create_record_cases) (simp_all add: alist_update_notin map_of_eq_None_iff [symmetric])
  then have sound1: "sound fuel (s\<lparr>rn_coord := c1\<rparr>)"
    using create_record_ok [OF cinv fresh c1] len tab by (simp add: sound_def ready_def creates_def)
  obtain out s1 where b: "body tid (s\<lparr>rn_coord := c1\<rparr>) = Some (out, s1)" "sound fuel s1" "run_settled rid (gv_runs s1)"
    using body [OF sound1] assms(9) by auto
  have fuel: "ev_fuel env = fuel" using env by (simp add: civil_env_def)
  have snap: "ts_task_id t = tid" if t: "get_task tid c1 = Some t" for t
  proof -
    obtain r where r: "find_record c1 tid = Some r" "t = snapshot r" using t by (auto simp: get_task_def split: option.splits)
    from c1 show ?thesis
      using r none by (cases rule: create_record_cases) (auto simp: snapshot_def new_record_def)
  qed
  have lost: "\<exists>out s'. close_runner_tracking fuel tid (kind_value WORKFLOW)
      (Body_Raises e :: 'a body_outcome, s\<lparr>rn_coord := c1\<rparr>) = Some (out, s') \<and> run_settled rid (gv_runs s') \<and> ended tid (rn_coord s')" for e
    using close_tracking_settles [of "Some (Body_Raises e, s\<lparr>rn_coord := c1\<rparr>)"] sound1 set0 by fastforce
  show ?thesis
  proof (cases "ev_handle env = None \<or> (\<exists>e. res = Inl e)")
    case True
    have "c1 = after_now (rn_coord s)" if "\<exists>e. res = Inl e"
      using c1 that by (cases rule: create_record_cases) auto
    then show ?thesis
      using True c1 none set0 unfolding track_current_workflow_def tid [symmetric] Let_def by (auto simp: ended_def)
  next
    case False
    then obtain u where "res = Inr u" by (cases res) auto
    then show ?thesis
      using False c1 lost close_tracking_settles [OF b, of tid "kind_value WORKFLOW"] snap fuel
      unfolding track_current_workflow_def tid [symmetric] Let_def
      by (cases "get_task tid c1") auto
  qed
qed

text \<open>
  C2. A workflow run is closed on every path: however the workflow, the loader and the waits for the gate and for a permit
  end, \<open>execute_workflow\<close> comes to its end and leaves the run it created with a terminal status (or pruned), on the return,
  timeout, failure and cancellation paths alike; a task it created itself has ended as well. The workflow may report any
  status but \<open>timed_out\<close>, which the governor takes for its own timeout, and what runs meanwhile respects the coordinator
  and the run store.
\<close>

theorem workflow_run_always_closed:
  assumes "run_inv (ids, rn_coord s)" and "new_task_id (ev_task_uuid env) \<notin> set ids"
    and "Suc (length (c_records (rn_coord s))) \<le> fuel" and "run_table_ok (gv_runs s)"
    and "''run_'' @ ev_run_uuid env \<notin> wr_run_id ` set (gv_runs s)" and "\<forall>c \<in> set (ev_run_uuid env). \<not> py_isspace c"
    and "civil_env fuel (governed_task_id env rq) (''run_'' @ ev_run_uuid env) env"
  shows "\<exists>out s'. execute_workflow env rq s = Some (out, s') \<and>
           (\<forall>r \<in> set (gv_runs s'). wr_run_id r = ''run_'' @ ev_run_uuid env \<longrightarrow>
              wr_status r \<in> set TERMINAL_WORKFLOW_RUN_STATUSES) \<and>
           (rq_task_id rq = None \<longrightarrow>
              (\<forall>t. find_record (rn_coord s') (new_task_id (ev_task_uuid env)) = Some t \<longrightarrow> rec_terminal t))"
proof -
  let ?rid = "''run_'' @ ev_run_uuid env" and ?tid = "governed_task_id env rq"
  have none: "find_record (rn_coord s) (new_task_id (ev_task_uuid env)) = None"
    using assms(1,2) by (auto simp: run_inv_def fresh_id_def)
  have set0: "run_settled ?rid (gv_runs s)" using assms(5) unfolding run_settled_def list_all_iff by (metis imageI)
  have sound: "sound fuel s" using assms(1,3,4) by (auto simp: sound_def ready_def run_inv_def)
  have goal: ?thesis if "\<exists>out s'. execute_workflow env rq s = Some (out, s') \<and> run_settled ?rid (gv_runs s') \<and>
      (rq_task_id rq = None \<longrightarrow> ended (new_task_id (ev_task_uuid env)) (rn_coord s'))"
    using that unfolding run_settled_def list_all_iff ended_def by blast
  have body: "\<exists>out s'. run_tracked_workflow env rq vault wname authority ?tid s1 = Some (out, s') \<and> sound fuel s' \<and>
      run_settled ?rid (gv_runs s')" if "sound fuel s1" "gv_runs s1 = gv_runs s" for vault wname authority s1
    using tracked_workflow_settles [OF assms(7) that(1) refl _ run_id_text [OF assms(6)]] assms(5) that(2) by simp
  show ?thesis
  proof (cases rule: execute_workflow_cases [of env rq s])
    case (refused e)
    then show ?thesis using set0 none by (intro goal) (simp add: ended_def)
  next
    case (own vault wname authority)
    have "\<exists>out s'. execute_workflow env rq s = Some (out, s') \<and> run_settled ?rid (gv_runs s') \<and> ended ?tid (rn_coord s')"
      unfolding own(2)
      by (rule track_current_settles [OF assms(7) assms(1) _ own(1) assms(3) assms(4) set0 _ refl])
        (simp add: own(1) assms(2), rule body)
    with own(1) show ?thesis by (intro goal) metis
  next
    case (given vault wname authority)
    have "\<exists>out s'. execute_workflow env rq s = Some (out, s') \<and> run_settled ?rid (gv_runs s')"
      unfolding given(2) by (rule track_existing_settles [OF assms(7) sound set0 _ refl]) (rule body)
    with given(1) show ?thesis by (intro goal) metis
  qed
qed

definition demo_host :: "governor_ext workflow_host" where
  "demo_host = \<lparr>wh_load_workflows = (\<lambda>g s. (Body_Returns [\<lparr>lw_global_id = g, lw_file_path = ''w.md''\<rparr>], s)),
     wh_configuration_errors = (\<lambda>_. []), wh_ensure_directories = (\<lambda>_ s. (Body_Returns (), s)),
     wh_run_template = (\<lambda>_ _ _ _ s. (Body_Returns \<lparr>tpl_status = ''completed'', tpl_reason = [],
        tpl_elapsed = \<lparr>to_value = 1, to_repr = ''1.0'', to_text = ''1''\<rparr>, tpl_elapsed_2f = ''1.00''\<rparr>, s)),
     wh_files = \<lparr>vf_root = id, vf_resolve = (\<lambda>_ p. Inr p), vf_is_file = (\<lambda>_. True), vf_run_type = (\<lambda>_. Inr (JStr ''workflow'')),
                 vf_relative = (\<lambda>_ p. p)\<rparr>\<rparr>"

definition demo_env :: workflow_env where
  "demo_env = \<lparr>ev_fuel = 9, ev_handle = Some 1, ev_current_authority = Some alice, ev_task_uuid = ''x'', ev_run_uuid = ''ab'',
     ev_max_concurrent = (\<lambda>_. 1), ev_timeout = (\<lambda>_. \<lparr>to_value = 0, to_repr = ''0.0'', to_text = ''0''\<rparr>),
     ev_expired = (\<lambda>_. False), ev_acquire_gate = (\<lambda>s. (Body_Returns (), s)),
     ev_await_permit = (\<lambda>_ s. (Body_Cancelled, s)), ev_host = demo_host\<rparr>"

definition demo_request :: workflow_request where
  "demo_request = \<lparr>rq_global_id = ''v/w'', rq_source = ''api'', rq_step_name = None, rq_expect_failure = False,
     rq_include_load_errors = False, rq_task_id = None, rq_authority = None, rq_target = None\<rparr>"

definition demo_governor :: WorkflowGovernor where
  "demo_governor = new_WorkflowGovernor demo [] (\<lambda>_. 0)"

lemma demo_governor_fields [simp]: "rn_coord demo_governor = demo" "gv_runs demo_governor = []"
  by (simp_all add: demo_governor_def new_WorkflowGovernor_def new_ExecutionTaskRunner_def
      ExecutionTaskRunner.defs WorkflowGovernor.defs)

lemma demo_env_civil: "civil_env 9 tid rid demo_env"
proof -
  have "terminal_status_of \<lparr>tpl_status = ''completed'', tpl_reason = [], tpl_elapsed = t, tpl_elapsed_2f = u\<rparr> = ''completed''" for t u
  proof -
    have "py_lower (strip ''completed'') = ''completed''" by code_simp
    then show ?thesis by (simp add: terminal_status_of_def)
  qed
  then show ?thesis by (simp add: civil_env_def civil_host_def orderly_effect_def demo_env_def demo_host_def)
qed

theorem workflow_run_always_closed_witness:
  "\<exists>out s'. execute_workflow demo_env demo_request demo_governor = Some (out, s') \<and>
     (\<forall>r \<in> set (gv_runs s'). wr_run_id r = ''run_ab'' \<longrightarrow> wr_status r \<in> set TERMINAL_WORKFLOW_RUN_STATUSES)"
proof -
  have "run_inv (demo_ids, rn_coord demo_governor)" using reachable_run_inv [OF demo_reachable] by simp
  moreover have "new_task_id (ev_task_uuid demo_env) \<notin> set demo_ids" by (simp add: new_task_id_def demo_env_def)
  moreover have "Suc (length (c_records (rn_coord demo_governor))) \<le> 9" by (simp add: demo_records)
  moreover have "run_table_ok (gv_runs demo_governor)" by (simp add: run_table_ok_def)
  moreover have "''run_'' @ ev_run_uuid demo_env \<notin> wr_run_id ` set (gv_runs demo_governor)" by simp
  moreover have "\<forall>c \<in> set (ev_run_uuid demo_env). \<not> py_isspace c" by (simp add: demo_env_def py_isspace_def)
  ultimately have "\<exists>out s'. execute_workflow demo_env demo_request demo_governor = Some (out, s') \<and>
      (\<forall>r \<in> set (gv_runs s'). wr_run_id r = ''run_'' @ ev_run_uuid demo_env \<longrightarrow>
         wr_status r \<in> set TERMINAL_WORKFLOW_RUN_STATUSES)"
    using workflow_run_always_closed [OF _ _ _ _ _ _ demo_env_civil] by blast
  then show ?thesis by (simp add: demo_env_def)
qed

end
