(* ===== verification/Governor_Permits.thy ===== *)
theory Governor_Permits
  imports Workflow_Governor
begin

text \<open>
  The global limit of the workflow governor: the permits of the semaphore of asyncio as
  \<open>workflow_governor.py\<close> uses it, over every interleaving of the tasks that ask for one.
\<close>

section \<open>Conservation in one semaphore\<close>

text \<open>
  A permit is free, promised to a task that was woken, or held. While a permit is free, a task is left
  pending only behind one that was woken and wakes the next when it runs.
\<close>

definition sem_ok :: "nat \<Rightarrow> nat \<Rightarrow> semaphore \<Rightarrow> bool" where
  "sem_ok limit held m \<longleftrightarrow> sem_value m + length (sem_woken m) + held = limit \<and>
     (0 < sem_value m \<longrightarrow> sem_pending m = [] \<or> sem_woken m \<noteq> [])"

lemma sem_wake_ok:
  "sem_value (sem_wake n ts woken) + length (sem_woken (sem_wake n ts woken)) = n + length woken"
  "0 < sem_value (sem_wake n ts woken) \<longrightarrow> sem_pending (sem_wake n ts woken) = []"
  by (induction n ts woken rule: sem_wake.induct) auto

lemma length_remove1_mem: "x \<in> set xs \<Longrightarrow> Suc (length (remove1 x xs)) = length xs"
  using length_pos_if_in_set [of x xs] by (simp add: length_remove1)

lemma sem_enter_ok:
  assumes "sem_ok limit held m" and "sem_enter tid m = (taken, m')"
  shows "sem_ok limit (if taken then Suc held else held) m'"
  using assms by (auto simp: sem_ok_def sem_enter_def sem_locked_def split: if_splits)

lemma sem_resume_ok:
  assumes "sem_ok limit held m" and "tid \<in> set (sem_woken m)"
  shows "sem_ok limit (Suc held) (sem_resume tid m)"
  using assms sem_wake_ok [of "sem_value m" "sem_pending m" "remove1 tid (sem_woken m)"] length_remove1_mem [OF assms(2)]
  by (simp add: sem_ok_def sem_resume_def)

lemma sem_cancel_ok:
  assumes "sem_ok limit held m" and "tid \<in> set (sem_pending m) \<union> set (sem_woken m)"
  shows "sem_ok limit held (sem_cancel tid m)"
proof (cases "tid \<in> set (sem_woken m)")
  case True
  show ?thesis
    using assms(1) sem_wake_ok [of "Suc (sem_value m)" "sem_pending m" "remove1 tid (sem_woken m)"] length_remove1_mem [OF True]
    by (simp add: sem_ok_def sem_cancel_def True)
next
  case False
  show ?thesis
    using assms(1) sem_wake_ok [of "sem_value m" "remove1 tid (sem_pending m)" "sem_woken m"]
    by (simp add: sem_ok_def sem_cancel_def False)
qed

lemma sem_release_ok: "sem_ok limit (Suc held) m \<Longrightarrow> sem_ok limit held (sem_release m)"
  by (auto simp: sem_ok_def sem_release_def split: list.splits)

section \<open>Runs\<close>

text \<open>
  The steps that touch the permits while the setting reads \<open>limit\<close>, on the governor and the list of
  holders: a task asks and gets a permit at once or waits; a woken task resumes and holds; a waiting task is
  cancelled; a holder releases in its \<open>finally\<close> block; anything else leaves the semaphores alone.
\<close>

inductive permit_step ::
  "int \<Rightarrow> WorkflowGovernor \<times> (string \<times> nat) list \<Rightarrow> WorkflowGovernor \<times> (string \<times> nat) list \<Rightarrow> bool"
  for limit :: int where
  permit_ask: "get_global_semaphore limit s = (Some i, s1) \<Longrightarrow> sem_enter tid (gv_semaphores s1 ! i) = (taken, m) \<Longrightarrow>
    permit_step limit (s, held) (on_semaphore i (\<lambda>_. m) s1, if taken then (tid, i) # held else held)"
| permit_resume: "i < length (gv_semaphores s) \<Longrightarrow> tid \<in> set (sem_woken (gv_semaphores s ! i)) \<Longrightarrow>
    permit_step limit (s, held) (on_semaphore i (sem_resume tid) s, (tid, i) # held)"
| permit_cancel: "i < length (gv_semaphores s) \<Longrightarrow>
    tid \<in> set (sem_pending (gv_semaphores s ! i)) \<union> set (sem_woken (gv_semaphores s ! i)) \<Longrightarrow>
    permit_step limit (s, held) (on_semaphore i (sem_cancel tid) s, held)"
| permit_leave: "(tid, i) \<in> set held \<Longrightarrow> permit_step limit (s, held) (on_semaphore i sem_release s, remove1 (tid, i) held)"
| permit_other: "gv_semaphores s' = gv_semaphores s \<Longrightarrow> gv_global_semaphore s' = gv_global_semaphore s \<Longrightarrow>
    gv_global_limit s' = gv_global_limit s \<Longrightarrow> permit_step limit (s, held) (s', held)"

text \<open>While the setting does not change there is at most one semaphore.\<close>

definition permits_ok :: "int \<Rightarrow> WorkflowGovernor \<times> (string \<times> nat) list \<Rightarrow> bool" where
  "permits_ok limit st \<longleftrightarrow> (case st of (s, held) \<Rightarrow>
     (gv_semaphores s = [] \<and> gv_global_semaphore s = None \<and> held = []) \<or>
     (\<exists>m. gv_semaphores s = [m] \<and> gv_global_semaphore s = Some 0 \<and> gv_global_limit s = limit \<and>
          snd ` set held \<subseteq> {0} \<and> sem_ok (nat limit) (length held) m))"

lemma permits_ok_step:
  assumes "permit_step limit st st'" and "permits_ok limit st" and "0 < limit"
  shows "permits_ok limit st'"
  using assms(1)
proof cases
  case (permit_ask s i s1 tid taken m held)
  show ?thesis
  proof (cases "gv_global_semaphore s")
    case None
    with assms(2,3) permit_ask have "gv_semaphores s1 = [\<lparr>sem_value = nat limit, sem_pending = [], sem_woken = []\<rparr>]"
      "i = 0" "held = []" "gv_global_semaphore s1 = Some 0" "gv_global_limit s1 = limit"
      by (auto simp: permits_ok_def get_global_semaphore_def Let_def)
    moreover from this have "sem_ok (nat limit) 0 (gv_semaphores s1 ! i)" by (simp add: sem_ok_def)
    ultimately show ?thesis
      using sem_enter_ok [OF _ permit_ask(4)] permit_ask(2) by (auto simp: permits_ok_def on_semaphore_def split: if_splits)
  next
    case (Some j)
    with assms(2,3) permit_ask obtain m0 where "gv_semaphores s1 = [m0]" "i = 0" "gv_global_semaphore s1 = Some 0"
      "gv_global_limit s1 = limit" "snd ` set held \<subseteq> {0}" "sem_ok (nat limit) (length held) m0"
      by (auto simp: permits_ok_def get_global_semaphore_def Let_def)
    then show ?thesis
      using sem_enter_ok [OF _ permit_ask(4)] permit_ask(2) by (auto simp: permits_ok_def on_semaphore_def split: if_splits)
  qed
next
  case (permit_resume i s tid held)
  then show ?thesis
    using assms(2) sem_resume_ok by (auto simp: permits_ok_def on_semaphore_def)
next
  case (permit_cancel i s tid held)
  then show ?thesis
    using assms(2) sem_cancel_ok by (auto simp: permits_ok_def on_semaphore_def)
next
  case (permit_leave tid i held s)
  then obtain m where m: "gv_semaphores s = [m]" "gv_global_semaphore s = Some 0" "gv_global_limit s = limit"
    "snd ` set held \<subseteq> {0}" "sem_ok (nat limit) (length held) m" using assms(2) by (auto simp: permits_ok_def)
  have "i = 0" using permit_leave(3) m(4) by force
  moreover have "sem_ok (nat limit) (length (remove1 (tid, i) held)) (sem_release m)"
    using m(5) length_remove1_mem [OF permit_leave(3)] by (intro sem_release_ok) simp
  moreover have "snd ` set (remove1 (tid, i) held) \<subseteq> {0}" using m(4) set_remove1_subset by fastforce
  ultimately show ?thesis using m permit_leave(2) by (simp add: permits_ok_def on_semaphore_def)
next
  case (permit_other s' s held)
  then show ?thesis using assms(2) by (simp add: permits_ok_def)
qed

text \<open>
  C26. The global limit holds: while max_concurrent_workflows keeps a positive value, no interleaving of requests, wake-ups,
  cancellations and releases lets the permits that are held and those that are promised to woken workflows together
  exceed the limit. A workflow waits only while every permit is held or a woken workflow has yet to run; when that one runs it takes
  its permit and leaves nobody waiting for a permit that is free.
\<close>

theorem global_limit_respected:
  assumes "(permit_step limit)\<^sup>*\<^sup>* (s0, []) (s, held)" and "0 < limit"
    and "gv_semaphores s0 = []" and "gv_global_semaphore s0 = None"
  shows "int (length held) \<le> limit \<and>
    (\<forall>m \<in> set (gv_semaphores s).
       int (length held + length (sem_woken m)) \<le> limit \<and>
       (sem_pending m \<noteq> [] \<longrightarrow> int (length held) = limit \<or> sem_woken m \<noteq> []) \<and>
       (\<forall>tid \<in> set (sem_woken m). 0 < sem_value (sem_resume tid m) \<longrightarrow> sem_pending (sem_resume tid m) = []))"
proof -
  have "permits_ok limit (s0, [])" using assms(3,4) by (simp add: permits_ok_def)
  with assms(1) have "permits_ok limit (s, held)"
    by (induction rule: rtranclp_induct) (auto intro: permits_ok_step [OF _ _ assms(2)])
  moreover have "0 < sem_value (sem_resume tid m) \<longrightarrow> sem_pending (sem_resume tid m) = []" for tid m
    using sem_wake_ok(2) by (simp add: sem_resume_def)
  ultimately show ?thesis using assms(2) by (auto simp: permits_ok_def sem_ok_def)
qed

definition idle_governor :: WorkflowGovernor where
  "idle_governor = new_WorkflowGovernor (new_TaskCoordinator 10 [] (\<lambda>_. 0)) [] (\<lambda>_. 0)"

definition ask_permit :: "int \<Rightarrow> string \<Rightarrow> WorkflowGovernor \<times> (string \<times> nat) list \<Rightarrow> WorkflowGovernor \<times> (string \<times> nat) list" where
  "ask_permit limit tid st =
     (case st of (s, held) \<Rightarrow>
        (case get_global_semaphore limit s of
           (None, s1) \<Rightarrow> (s1, held)
         | (Some i, s1) \<Rightarrow>
             (case sem_enter tid (gv_semaphores s1 ! i) of
                (taken, m) \<Rightarrow> (on_semaphore i (\<lambda>_. m) s1, if taken then (tid, i) # held else held))))"

lemma ask_permit_step:
  assumes "0 < limit"
  shows "permit_step limit st (ask_permit limit tid st)"
proof -
  obtain s held where st: "st = (s, held)" by force
  obtain i s1 where g: "get_global_semaphore limit s = (Some i, s1)"
    using assms by (cases "gv_global_semaphore s"; cases "gv_global_limit s = limit") (auto simp: get_global_semaphore_def Let_def)
  obtain taken m where e: "sem_enter tid (gv_semaphores s1 ! i) = (taken, m)" by force
  have "ask_permit limit tid st = (on_semaphore i (\<lambda>_. m) s1, if taken then (tid, i) # held else held)"
    unfolding ask_permit_def st prod.case g option.case e by simp
  then show ?thesis unfolding st using permit_ask [OF g e] by simp
qed

theorem global_limit_respected_witness:
  "int (length (snd (ask_permit 1 ''b'' (ask_permit 1 ''a'' (idle_governor, []))))) \<le> 1"
proof -
  let ?st = "ask_permit 1 ''b'' (ask_permit 1 ''a'' (idle_governor, []))"
  have "(permit_step 1)\<^sup>*\<^sup>* (idle_governor, []) ?st"
    using ask_permit_step [of 1] by (meson rtranclp.rtrancl_into_rtrancl rtranclp.rtrancl_refl zero_less_one)
  then show ?thesis
    using global_limit_respected [of 1 idle_governor "fst ?st" "snd ?st"]
    by (simp add: idle_governor_def new_WorkflowGovernor_def ExecutionTaskRunner.defs WorkflowGovernor.defs)
qed

text \<open>
  C35. The limit is not kept across a change of the setting: a new value makes a new semaphore, the permits
  still held on the old one are not counted, and three workflows run although the setting was never
  above two.
\<close>

theorem global_limit_exceeded_after_change:
  "\<exists>st1 s held. (permit_step 1)\<^sup>*\<^sup>* (idle_governor, []) st1 \<and> (permit_step 2)\<^sup>*\<^sup>* st1 (s, held) \<and> length held = 3"
proof -
  let ?st1 = "ask_permit 1 ''a'' (idle_governor, [])"
  let ?st2 = "ask_permit 2 ''c'' (ask_permit 2 ''b'' ?st1)"
  have "(permit_step 1)\<^sup>*\<^sup>* (idle_governor, []) ?st1" "(permit_step 2)\<^sup>*\<^sup>* ?st1 ?st2"
    using ask_permit_step [of 1] ask_permit_step [of 2]
    by (meson rtranclp.rtrancl_into_rtrancl rtranclp.rtrancl_refl zero_less_one zero_less_numeral)+
  moreover have "length (snd ?st2) = 3"
    by (simp add: ask_permit_def get_global_semaphore_def sem_enter_def sem_locked_def on_semaphore_def idle_governor_def
        new_WorkflowGovernor_def new_ExecutionTaskRunner_def ExecutionTaskRunner.defs WorkflowGovernor.defs)
  ultimately show ?thesis by (metis surjective_pairing)
qed

end
