(* ===== verification/Vault_Lock.thy ===== *)
theory Vault_Lock
  imports Py_Prelude
begin

text \<open>
  The lock that lets file mutations of a vault run side by side and excludes them while the directory hierarchy
  changes (\<open>_ReentrantReadWriteLock\<close> of core/vault_state/file_mutations.py). Every method runs under the condition's
  own lock, so it is one step up to a call of \<open>wait\<close>; a thread that waits is \<open>parked\<close> until \<open>notify_all\<close> makes
  it \<open>woken\<close>, and a woken thread tests its loop condition again when it gets the condition's lock.
\<close>

type_synonym thread = nat

datatype wait_kind = Reading | Writing

record rwlock =
  readers :: "(thread, nat) dict"
  writer :: "thread option"
  writer_depth :: nat
  waiting_writers :: nat
  parked :: "(thread \<times> wait_kind) list"
  woken :: "(thread \<times> wait_kind) list"

definition new_rwlock :: rwlock where
  "new_rwlock = \<lparr>readers = [], writer = None, writer_depth = 0, waiting_writers = 0, parked = [], woken = []\<rparr>"

definition notify_all_lock :: "rwlock \<Rightarrow> rwlock" where
  "notify_all_lock l = l\<lparr>parked := [], woken := woken l @ parked l\<rparr>"

definition wait_in :: "thread \<Rightarrow> wait_kind \<Rightarrow> rwlock \<Rightarrow> rwlock" where
  "wait_in t k l = l\<lparr>parked := parked l @ [(t, k)]\<rparr>"

definition depth_of :: "thread \<Rightarrow> rwlock \<Rightarrow> nat" where
  "depth_of t l = (case map_of (readers l) t of None \<Rightarrow> 0 | Some n \<Rightarrow> n)"

text \<open>The loops of the two acquire methods; the answer tells whether the thread has entered or waits.\<close>

definition read_loop :: "thread \<Rightarrow> rwlock \<Rightarrow> bool \<times> rwlock" where
  "read_loop t l =
     (if writer l \<noteq> None \<or> waiting_writers l \<noteq> 0 then (False, wait_in t Reading l)
      else (True, l\<lparr>readers := AList.update t 1 (readers l)\<rparr>))"

definition acquire_read :: "thread \<Rightarrow> rwlock \<Rightarrow> bool \<times> rwlock" where
  "acquire_read t l =
     (if writer l = Some t \<or> t \<in> fst ` set (readers l)
      then (True, l\<lparr>readers := AList.update t (depth_of t l + 1) (readers l)\<rparr>)
      else read_loop t l)"

definition release_read :: "thread \<Rightarrow> rwlock \<Rightarrow> rwlock" where
  "release_read t l =
     (if depth_of t l \<le> 1 then notify_all_lock (l\<lparr>readers := AList.delete t (readers l)\<rparr>)
      else l\<lparr>readers := AList.update t (depth_of t l - 1) (readers l)\<rparr>)"

definition write_loop :: "thread \<Rightarrow> rwlock \<Rightarrow> bool \<times> rwlock" where
  "write_loop t l =
     (if writer l \<noteq> None \<or> readers l \<noteq> [] then (False, wait_in t Writing l)
      else (True, l\<lparr>writer := Some t, writer_depth := 1, waiting_writers := waiting_writers l - 1\<rparr>))"

definition acquire_write :: "thread \<Rightarrow> rwlock \<Rightarrow> bool result \<times> rwlock" where
  "acquire_write t l =
     (if writer l = Some t then (Inr True, l\<lparr>writer_depth := writer_depth l + 1\<rparr>)
      else if t \<in> fst ` set (readers l)
      then (Inl (RuntimeError ''Cannot upgrade a vault mutation read lock''), l)
      else case write_loop t (l\<lparr>waiting_writers := waiting_writers l + 1\<rparr>) of (entered, l') \<Rightarrow> (Inr entered, l'))"

definition release_write :: "thread \<Rightarrow> rwlock \<Rightarrow> unit result \<times> rwlock" where
  "release_write t l =
     (if writer l \<noteq> Some t
      then (Inl (RuntimeError ''Current thread does not own the vault mutation lock''), l)
      else if writer_depth l - 1 = 0
      then (Inr (), notify_all_lock (l\<lparr>writer_depth := 0, writer := None\<rparr>))
      else (Inr (), l\<lparr>writer_depth := writer_depth l - 1\<rparr>))"

text \<open>A woken thread comes back from \<open>wait\<close> into its loop.\<close>

definition resume_wait :: "thread \<Rightarrow> wait_kind \<Rightarrow> rwlock \<Rightarrow> bool \<times> rwlock" where
  "resume_wait t k l =
     (let l = l\<lparr>woken := remove1 (t, k) (woken l)\<rparr>
      in case k of Reading \<Rightarrow> read_loop t l | Writing \<Rightarrow> write_loop t l)"

text \<open>An exception raised in the wait of a writer runs only the \<open>finally\<close> clause of \<open>acquire_write\<close>.\<close>

definition interrupt_write :: "thread \<Rightarrow> rwlock \<Rightarrow> rwlock" where
  "interrupt_write t l =
     l\<lparr>parked := remove1 (t, Writing) (parked l), woken := remove1 (t, Writing) (woken l),
       waiting_writers := waiting_writers l - 1\<rparr>"

text \<open>An exception raised in the wait of a reader leaves the queue and nothing else; \<open>acquire_read\<close> has no clause for it.\<close>

definition interrupt_read :: "thread \<Rightarrow> rwlock \<Rightarrow> rwlock" where
  "interrupt_read t l = l\<lparr>parked := remove1 (t, Reading) (parked l), woken := remove1 (t, Reading) (woken l)\<rparr>"

section \<open>Threads\<close>

text \<open>
  What the threads have: for each, the number of read and of write acquisitions that returned and were not
  released. A thread that waits does nothing else; it releases only what it has, as the context
  managers around the lock do. The wait of a thread may also end with an exception; the writers whose wait did are counted.
\<close>

record lock_world =
  the_lock :: rwlock
  reads :: "thread \<Rightarrow> nat"
  writes :: "thread \<Rightarrow> nat"
  interrupted :: nat

definition new_lock_world :: lock_world where
  "new_lock_world = \<lparr>the_lock = new_rwlock, reads = (\<lambda>_. 0), writes = (\<lambda>_. 0), interrupted = 0\<rparr>"

definition waiting_threads :: "rwlock \<Rightarrow> thread list" where
  "waiting_threads l = map fst (parked l @ woken l)"

definition pending_writers :: "rwlock \<Rightarrow> nat" where
  "pending_writers l = length (filter (\<lambda>p. snd p = Writing) (parked l @ woken l))"

definition count_read :: "thread \<Rightarrow> bool \<times> rwlock \<Rightarrow> lock_world \<Rightarrow> lock_world" where
  "count_read t r w =
     (case r of (entered, l) \<Rightarrow> w\<lparr>the_lock := l, reads := (if entered then (reads w)(t := reads w t + 1) else reads w)\<rparr>)"

definition count_write :: "thread \<Rightarrow> bool \<times> rwlock \<Rightarrow> lock_world \<Rightarrow> lock_world" where
  "count_write t r w =
     (case r of (entered, l) \<Rightarrow> w\<lparr>the_lock := l, writes := (if entered then (writes w)(t := writes w t + 1) else writes w)\<rparr>)"

inductive lock_step :: "lock_world \<Rightarrow> lock_world \<Rightarrow> bool" where
  ask_read: "t \<notin> set (waiting_threads (the_lock w)) \<Longrightarrow>
    lock_step w (count_read t (acquire_read t (the_lock w)) w)"
| ask_write: "t \<notin> set (waiting_threads (the_lock w)) \<Longrightarrow> acquire_write t (the_lock w) = (Inr entered, l) \<Longrightarrow>
    lock_step w (count_write t (entered, l) w)"
| wake_reader: "(t, Reading) \<in> set (woken (the_lock w)) \<Longrightarrow>
    lock_step w (count_read t (resume_wait t Reading (the_lock w)) w)"
| wake_writer: "(t, Writing) \<in> set (woken (the_lock w)) \<Longrightarrow>
    lock_step w (count_write t (resume_wait t Writing (the_lock w)) w)"
| give_read: "t \<notin> set (waiting_threads (the_lock w)) \<Longrightarrow> 0 < reads w t \<Longrightarrow>
    lock_step w (w\<lparr>the_lock := release_read t (the_lock w), reads := (reads w)(t := reads w t - 1)\<rparr>)"
| give_write: "t \<notin> set (waiting_threads (the_lock w)) \<Longrightarrow> 0 < writes w t \<Longrightarrow> release_write t (the_lock w) = (Inr (), l) \<Longrightarrow>
    lock_step w (w\<lparr>the_lock := l, writes := (writes w)(t := writes w t - 1)\<rparr>)"
| stop_reader: "(t, Reading) \<in> set (parked (the_lock w) @ woken (the_lock w)) \<Longrightarrow>
    lock_step w (w\<lparr>the_lock := interrupt_read t (the_lock w)\<rparr>)"
| stop_writer: "(t, Writing) \<in> set (parked (the_lock w) @ woken (the_lock w)) \<Longrightarrow>
    lock_step w (w\<lparr>the_lock := interrupt_write t (the_lock w), interrupted := Suc (interrupted w)\<rparr>)"

section \<open>The invariant\<close>

definition counts_agree :: "lock_world \<Rightarrow> bool" where
  "counts_agree w \<longleftrightarrow> wf_dict (readers (the_lock w)) \<and>
     (\<forall>t. map_of (readers (the_lock w)) t = (if reads w t = 0 then None else Some (reads w t))) \<and>
     (\<forall>t. writer (the_lock w) = Some t \<longleftrightarrow> 0 < writes w t) \<and>
     (\<forall>t. 0 < writes w t \<longrightarrow> writer_depth (the_lock w) = writes w t)"

definition waiters_agree :: "lock_world \<Rightarrow> bool" where
  "waiters_agree w \<longleftrightarrow> distinct (waiting_threads (the_lock w)) \<and>
     (\<forall>t\<in>set (waiting_threads (the_lock w)). reads w t = 0 \<and> writes w t = 0) \<and>
     waiting_writers (the_lock w) = pending_writers (the_lock w)"

definition writer_alone :: "lock_world \<Rightarrow> bool" where
  "writer_alone w \<longleftrightarrow> (\<forall>t u. 0 < writes w t \<longrightarrow> u \<noteq> t \<longrightarrow> reads w u = 0)"

text \<open>A parked thread has a reason to wait; a reader may have lost it when a writer before it was interrupted.\<close>

definition parked_for_reason :: "bool \<Rightarrow> rwlock \<Rightarrow> bool" where
  "parked_for_reason stopped l \<longleftrightarrow>
     (\<forall>t. (t, Reading) \<in> set (parked l) \<longrightarrow> writer l \<noteq> None \<or> 0 < waiting_writers l \<or> stopped) \<and>
     (\<forall>t. (t, Writing) \<in> set (parked l) \<longrightarrow> writer l \<noteq> None \<or> readers l \<noteq> [])"

definition lock_inv :: "lock_world \<Rightarrow> bool" where
  "lock_inv w \<longleftrightarrow> counts_agree w \<and> waiters_agree w \<and> writer_alone w \<and> parked_for_reason (0 < interrupted w) (the_lock w)"

lemmas lock_inv_defs = lock_inv_def counts_agree_def waiters_agree_def writer_alone_def parked_for_reason_def

lemma new_lock_inv: "lock_inv new_lock_world"
  by (simp add: lock_inv_defs new_lock_world_def new_rwlock_def wf_dict_def waiting_threads_def pending_writers_def)

lemma update_not_Nil [simp]: "AList.update k v d \<noteq> []"
  by (cases d) auto

lemma counted_depth: "counts_agree w \<Longrightarrow> depth_of t (the_lock w) = reads w t"
  by (simp add: depth_of_def counts_agree_def)

lemma counted_reader: "counts_agree w \<Longrightarrow> t \<in> fst ` set (readers (the_lock w)) \<longleftrightarrow> 0 < reads w t"
  by (metis counts_agree_def map_of_eq_None_iff neq0_conv option.distinct(1))

lemma counted_readers_Nil:
  assumes "counts_agree w"
  shows "readers (the_lock w) = [] \<longleftrightarrow> (\<forall>t. reads w t = 0)"
proof (cases "readers (the_lock w)")
  case Nil
  then show ?thesis using counted_reader [OF assms] by simp
next
  case (Cons p ps)
  then have "fst p \<in> fst ` set (readers (the_lock w))" by simp
  then have "0 < reads w (fst p)" using counted_reader [OF assms] by blast
  then show ?thesis using Cons by auto
qed

lemmas waiting_defs = waiting_threads_def pending_writers_def wait_in_def notify_all_lock_def

text \<open>A thread that has nothing and does not wait enters or waits in its loop.\<close>

lemma parked_inv:
  assumes "counts_agree w" and "writer_alone w" and "distinct (waiting_threads (the_lock w))"
    and "\<forall>u\<in>set (waiting_threads (the_lock w)). reads w u = 0 \<and> writes w u = 0"
    and "t \<notin> set (waiting_threads (the_lock w))" and "reads w t = 0" and "writes w t = 0"
    and "waiting_writers (the_lock w) = (if k = Writing then Suc else id) (pending_writers (the_lock w))"
    and "parked_for_reason (0 < interrupted w) (wait_in t k (the_lock w))"
  shows "lock_inv (w\<lparr>the_lock := wait_in t k (the_lock w)\<rparr>)" (is "lock_inv ?w")
proof -
  have "counts_agree ?w" "writer_alone ?w" using assms(1,2) by (simp_all add: counts_agree_def writer_alone_def wait_in_def)
  moreover have "distinct (waiting_threads (wait_in t k (the_lock w)))"
      "set (waiting_threads (wait_in t k (the_lock w))) = insert t (set (waiting_threads (the_lock w)))"
      "pending_writers (wait_in t k (the_lock w)) = (if k = Writing then Suc else id) (pending_writers (the_lock w))"
    using assms(3,5) by (simp_all add: waiting_threads_def pending_writers_def wait_in_def)
  ultimately show ?thesis
    using assms by (simp add: lock_inv_def waiters_agree_def) (simp add: wait_in_def)
qed

definition writer_counted :: "lock_world \<Rightarrow> bool" where
  "writer_counted w \<longleftrightarrow> counts_agree w \<and> writer_alone w \<and> parked_for_reason (0 < interrupted w) (the_lock w) \<and>
     distinct (waiting_threads (the_lock w)) \<and>
     (\<forall>t\<in>set (waiting_threads (the_lock w)). reads w t = 0 \<and> writes w t = 0) \<and>
     waiting_writers (the_lock w) = Suc (pending_writers (the_lock w))"

lemma write_loop_inv:
  assumes "writer_counted w" and "t \<notin> set (waiting_threads (the_lock w))" and "reads w t = 0" and "writes w t = 0"
  shows "lock_inv (count_write t (write_loop t (the_lock w)) w)"
proof (cases "writer (the_lock w) \<noteq> None \<or> readers (the_lock w) \<noteq> []")
  case True
  then show ?thesis
    using assms parked_inv [of w t Writing]
    by (simp add: writer_counted_def parked_for_reason_def wait_in_def write_loop_def count_write_def)
next
  case False
  then have none: "\<forall>u. reads w u = 0" "\<forall>u. writes w u = 0" "writer (the_lock w) = None" "readers (the_lock w) = []"
    using assms(1) counted_readers_Nil [of w] by (auto simp: writer_counted_def counts_agree_def)
  then show ?thesis
    using assms by (auto simp: writer_counted_def lock_inv_defs write_loop_def count_write_def waiting_threads_def pending_writers_def)
qed

lemma sole_writer: "counts_agree w \<Longrightarrow> 0 < writes w t \<Longrightarrow> 0 < writes w u \<Longrightarrow> u = t"
  unfolding counts_agree_def by (metis option.inject)

text \<open>A notification loses no waiter.\<close>

lemma waiters_kept:
  assumes "ps = parked l \<and> qs = woken l \<or> ps = [] \<and> qs = woken l @ parked l" and "parked l' = ps" and "woken l' = qs"
  shows "set (waiting_threads l') = set (waiting_threads l)"
    and "distinct (waiting_threads l') = distinct (waiting_threads l)"
    and "pending_writers l' = pending_writers l"
  using assms by (elim disjE; simp add: waiting_threads_def pending_writers_def Int_commute Un_commute; blast)+

text \<open>Changes of the write count of the only writer.\<close>

lemma set_writes_inv:
  assumes inv: "lock_inv w" and idle: "t \<notin> set (waiting_threads (the_lock w))"
    and sole: "\<forall>u. 0 < writes w u \<longrightarrow> u = t" and own: "0 < writes w t"
    and fields: "readers l = readers (the_lock w)" "waiting_writers l = waiting_writers (the_lock w)"
      "writer l = (if n = 0 then None else Some t)" "0 < n \<longrightarrow> writer_depth l = n"
    and kept: "0 < n \<and> parked l = parked (the_lock w) \<and> woken l = woken (the_lock w) \<or>
      parked l = [] \<and> woken l = woken (the_lock w) @ parked (the_lock w)"
  shows "lock_inv (w\<lparr>the_lock := l, writes := (writes w)(t := n)\<rparr>)" (is "lock_inv ?w")
proof -
  have "counts_agree ?w" using inv sole fields by (auto simp: lock_inv_def counts_agree_def)
  moreover have "waiters_agree ?w"
    using inv idle kept fields waiters_kept [of "parked l" "the_lock w" "woken l" l]
    by (simp add: lock_inv_def waiters_agree_def) metis
  moreover have "writer_alone ?w" using inv own by (auto simp: lock_inv_def writer_alone_def)
  moreover have "parked_for_reason (0 < interrupted w) (the_lock ?w)"
    using kept fields by (auto simp: parked_for_reason_def)
  ultimately show ?thesis by (simp add: lock_inv_def)
qed

text \<open>Changes of the read count of one thread.\<close>

lemma set_reads_inv:
  assumes inv: "lock_inv w" and idle: "t \<notin> set (waiting_threads (the_lock w))"
    and dict: "wf_dict d" "map_of d = (map_of (readers (the_lock w)))(t := (if n = 0 then None else Some n))"
    and alone: "n = 0 \<or> (\<forall>u. 0 < writes w u \<longrightarrow> u = t)"
    and kept: "(d \<noteq> [] \<and> ps = parked (the_lock w) \<and> qs = woken (the_lock w)) \<or> (ps = [] \<and> qs = woken (the_lock w) @ parked (the_lock w))"
  shows "lock_inv (w\<lparr>the_lock := (the_lock w)\<lparr>readers := d, parked := ps, woken := qs\<rparr>, reads := (reads w)(t := n)\<rparr>)"
    (is "lock_inv ?w")
proof -
  have "counts_agree ?w" using inv dict by (simp add: lock_inv_def counts_agree_def)
  moreover have "waiters_agree ?w"
    using inv idle kept waiters_kept [of ps "the_lock w" qs "the_lock ?w"]
    by (simp add: lock_inv_def waiters_agree_def) metis
  moreover have "writer_alone ?w" using inv alone by (auto simp: lock_inv_def writer_alone_def)
  moreover have "parked_for_reason (0 < interrupted w) (the_lock ?w)" using inv kept by (auto simp: lock_inv_def parked_for_reason_def)
  ultimately show ?thesis by (simp add: lock_inv_def)
qed

lemma read_loop_inv:
  assumes "lock_inv w" and "t \<notin> set (waiting_threads (the_lock w))" and "reads w t = 0" and "writes w t = 0"
  shows "lock_inv (count_read t (read_loop t (the_lock w)) w)"
proof (cases "writer (the_lock w) \<noteq> None \<or> waiting_writers (the_lock w) \<noteq> 0")
  case True
  then have "parked_for_reason (0 < interrupted w) (wait_in t Reading (the_lock w))"
    using assms(1) by (auto simp: lock_inv_def parked_for_reason_def wait_in_def)
  then have "lock_inv (w\<lparr>the_lock := wait_in t Reading (the_lock w)\<rparr>)"
    using assms by (intro parked_inv) (simp_all add: lock_inv_def waiters_agree_def)
  then show ?thesis using True by (auto simp: read_loop_def count_read_def)
next
  case False
  have "\<forall>u. writes w u = 0" "wf_dict (readers (the_lock w))" using assms(1) False by (auto simp: lock_inv_def counts_agree_def)
  then have "lock_inv (w\<lparr>the_lock := (the_lock w)\<lparr>readers := AList.update t 1 (readers (the_lock w)),
      parked := parked (the_lock w), woken := woken (the_lock w)\<rparr>, reads := (reads w)(t := 1)\<rparr>)"
    by (intro set_reads_inv assms) (simp_all add: update_conv')
  then show ?thesis using False assms(3) by (simp add: read_loop_def count_read_def)
qed

lemma acquire_read_inv:
  assumes "lock_inv w" and "t \<notin> set (waiting_threads (the_lock w))"
  shows "lock_inv (count_read t (acquire_read t (the_lock w)) w)"
proof (cases "writer (the_lock w) = Some t \<or> t \<in> fst ` set (readers (the_lock w))")
  case False
  have "reads w t = 0" "writes w t = 0"
    using assms(1) False counted_reader [of w t] by (auto simp: lock_inv_def counts_agree_def)
  then show ?thesis using read_loop_inv [OF assms] False by (simp add: acquire_read_def)
next
  case True
  have counts: "counts_agree w" and wf: "wf_dict (readers (the_lock w))"
    using assms(1) by (auto simp: lock_inv_def counts_agree_def)
  have "0 < writes w t \<or> 0 < reads w t"
    using True counts counted_reader [OF counts, of t] by (auto simp: counts_agree_def)
  then have alone: "\<forall>u. 0 < writes w u \<longrightarrow> u = t"
    using assms(1) sole_writer [OF counts] by (metis lock_inv_def writer_alone_def neq0_conv)
  have "lock_inv (w\<lparr>the_lock := (the_lock w)\<lparr>readers := AList.update t (reads w t + 1) (readers (the_lock w)),
      parked := parked (the_lock w), woken := woken (the_lock w)\<rparr>, reads := (reads w)(t := reads w t + 1)\<rparr>)"
    using alone wf by (intro set_reads_inv assms) (simp_all add: update_conv')
  then show ?thesis
    using True counted_depth [OF counts, of t] by (simp add: acquire_read_def count_read_def)
qed

lemma acquire_write_inv:
  assumes "lock_inv w" and "t \<notin> set (waiting_threads (the_lock w))" and "acquire_write t (the_lock w) = (Inr entered, l)"
  shows "lock_inv (count_write t (entered, l) w)"
proof (cases "writer (the_lock w) = Some t")
  case True
  have counts: "counts_agree w" using assms(1) by (simp add: lock_inv_def)
  with True have own: "0 < writes w t" by (auto simp: counts_agree_def)
  then have sole: "\<forall>u. 0 < writes w u \<longrightarrow> u = t" and depth: "writer_depth (the_lock w) = writes w t"
    using sole_writer [OF counts] counts by (auto simp: counts_agree_def)
  have "entered" "l = (the_lock w)\<lparr>writer_depth := writes w t + 1\<rparr>"
    using True assms(3) depth by (simp_all add: acquire_write_def)
  then show ?thesis
    using set_writes_inv [OF assms(1,2) sole own, of l "writes w t + 1"] True by (simp add: count_write_def)
next
  case False
  let ?w = "w\<lparr>the_lock := (the_lock w)\<lparr>waiting_writers := waiting_writers (the_lock w) + 1\<rparr>\<rparr>"
  have idle: "reads w t = 0" "writes w t = 0"
    using assms False counted_reader [of w t] by (auto simp: lock_inv_def counts_agree_def acquire_write_def split: if_splits)
  have "writer_counted ?w" and "t \<notin> set (waiting_threads (the_lock ?w))"
    using assms by (auto simp: writer_counted_def lock_inv_defs waiting_threads_def pending_writers_def)
  then have "lock_inv (count_write t (write_loop t (the_lock ?w)) ?w)"
    using idle by (intro write_loop_inv) auto
  then show ?thesis
    using assms(3) False by (auto simp: acquire_write_def count_write_def split: if_splits prod.splits)
qed

lemma woken_once:
  assumes "distinct (waiting_threads l)" and "(t, k) \<in> set (woken l)"
  shows "t \<notin> set (waiting_threads (l\<lparr>woken := remove1 (t, k) (woken l)\<rparr>))"
    and "distinct (waiting_threads (l\<lparr>woken := remove1 (t, k) (woken l)\<rparr>))"
    and "set (waiting_threads l) = insert t (set (waiting_threads (l\<lparr>woken := remove1 (t, k) (woken l)\<rparr>)))"
    and "pending_writers l = (if k = Writing then Suc else id) (pending_writers (l\<lparr>woken := remove1 (t, k) (woken l)\<rparr>))"
proof -
  obtain ps qs where split: "woken l = ps @ (t, k) # qs" and "(t, k) \<notin> set ps"
    using assms(2) by (meson split_list_first)
  then have rest: "remove1 (t, k) (woken l) = ps @ qs" by (simp add: remove1_append)
  show "t \<notin> set (waiting_threads (l\<lparr>woken := remove1 (t, k) (woken l)\<rparr>))"
    using assms(1) unfolding rest by (simp add: waiting_threads_def split)
  show "distinct (waiting_threads (l\<lparr>woken := remove1 (t, k) (woken l)\<rparr>))"
    using assms(1) unfolding rest by (simp add: waiting_threads_def split)
  show "set (waiting_threads l) = insert t (set (waiting_threads (l\<lparr>woken := remove1 (t, k) (woken l)\<rparr>)))"
    unfolding rest by (simp add: waiting_threads_def split)
  show "pending_writers l = (if k = Writing then Suc else id) (pending_writers (l\<lparr>woken := remove1 (t, k) (woken l)\<rparr>))"
    unfolding rest by (simp add: pending_writers_def split)
qed

lemma woken_frame [simp]:
  "counts_agree (w\<lparr>the_lock := (the_lock w)\<lparr>woken := ps\<rparr>\<rparr>) = counts_agree w"
  "writer_alone (w\<lparr>the_lock := l\<rparr>) = writer_alone w"
  "parked_for_reason b (l\<lparr>woken := ps\<rparr>) = parked_for_reason b l"
  by (simp_all add: counts_agree_def writer_alone_def parked_for_reason_def)

lemma resume_reader_inv:
  assumes "lock_inv w" and "(t, Reading) \<in> set (woken (the_lock w))"
  shows "lock_inv (count_read t (resume_wait t Reading (the_lock w)) w)"
proof -
  let ?w = "w\<lparr>the_lock := (the_lock w)\<lparr>woken := remove1 (t, Reading) (woken (the_lock w))\<rparr>\<rparr>"
  have "distinct (waiting_threads (the_lock w))" using assms(1) by (simp add: lock_inv_def waiters_agree_def)
  note once = woken_once [OF this assms(2)]
  have idle: "reads w t = 0" "writes w t = 0"
    using assms(1) once(3) by (simp_all add: lock_inv_def waiters_agree_def)
  have "lock_inv ?w" using assms(1) once by (simp add: lock_inv_def waiters_agree_def)
  then have "lock_inv (count_read t (read_loop t (the_lock ?w)) ?w)"
    using once idle by (intro read_loop_inv) auto
  then show ?thesis by (auto simp: resume_wait_def count_read_def split: prod.splits)
qed

lemma resume_writer_inv:
  assumes "lock_inv w" and "(t, Writing) \<in> set (woken (the_lock w))"
  shows "lock_inv (count_write t (resume_wait t Writing (the_lock w)) w)"
proof -
  let ?w = "w\<lparr>the_lock := (the_lock w)\<lparr>woken := remove1 (t, Writing) (woken (the_lock w))\<rparr>\<rparr>"
  have "distinct (waiting_threads (the_lock w))" using assms(1) by (simp add: lock_inv_def waiters_agree_def)
  note once = woken_once [OF this assms(2)]
  have idle: "reads w t = 0" "writes w t = 0"
    using assms(1) once(3) by (simp_all add: lock_inv_def waiters_agree_def)
  have "writer_counted ?w" using assms(1) once by (simp add: lock_inv_def waiters_agree_def writer_counted_def)
  then have "lock_inv (count_write t (write_loop t (the_lock ?w)) ?w)"
    using once idle by (intro write_loop_inv) auto
  then show ?thesis by (auto simp: resume_wait_def count_write_def split: prod.splits)
qed

lemma release_read_inv:
  assumes "lock_inv w" and "t \<notin> set (waiting_threads (the_lock w))" and "0 < reads w t"
  shows "lock_inv (w\<lparr>the_lock := release_read t (the_lock w), reads := (reads w)(t := reads w t - 1)\<rparr>)"
proof -
  have counts: "counts_agree w" and wf: "wf_dict (readers (the_lock w))"
    using assms(1) by (auto simp: lock_inv_def counts_agree_def)
  note depth = counted_depth [OF counts, of t]
  have alone: "\<forall>u. 0 < writes w u \<longrightarrow> u = t"
    using assms(1,3) by (metis lock_inv_def writer_alone_def neq0_conv)
  show ?thesis
  proof (cases "reads w t = 1")
    case True
    have "lock_inv (w\<lparr>the_lock := (the_lock w)\<lparr>readers := AList.delete t (readers (the_lock w)), parked := [],
        woken := woken (the_lock w) @ parked (the_lock w)\<rparr>, reads := (reads w)(t := 0)\<rparr>)"
      using wf by (intro set_reads_inv assms) (simp_all add: delete_conv')
    then show ?thesis using depth True by (simp add: release_read_def notify_all_lock_def)
  next
    case False
    have "lock_inv (w\<lparr>the_lock := (the_lock w)\<lparr>readers := AList.update t (reads w t - 1) (readers (the_lock w)),
        parked := parked (the_lock w), woken := woken (the_lock w)\<rparr>, reads := (reads w)(t := reads w t - 1)\<rparr>)"
      using wf alone False assms(3) by (intro set_reads_inv assms(1,2)) (simp_all add: update_conv')
    then show ?thesis using depth False assms(3) by (simp add: release_read_def)
  qed
qed

lemma release_write_inv:
  assumes "lock_inv w" and "t \<notin> set (waiting_threads (the_lock w))" and "0 < writes w t"
    and "release_write t (the_lock w) = (Inr (), l)"
  shows "lock_inv (w\<lparr>the_lock := l, writes := (writes w)(t := writes w t - 1)\<rparr>)"
proof -
  have "counts_agree w" using assms(1) by (simp add: lock_inv_def)
  then have sole: "\<forall>u. 0 < writes w u \<longrightarrow> u = t" using sole_writer assms(3) by blast
  have own: "writer (the_lock w) = Some t" "writer_depth (the_lock w) = writes w t"
    using assms(1,3) by (auto simp: lock_inv_def counts_agree_def)
  show ?thesis
  proof (cases "writes w t = 1")
    case True
    with own assms(4) have "l = notify_all_lock ((the_lock w)\<lparr>writer_depth := 0, writer := None\<rparr>)"
      by (simp add: release_write_def)
    then show ?thesis
      using set_writes_inv [OF assms(1,2) sole assms(3), of l 0] True by (simp add: notify_all_lock_def)
  next
    case False
    with own assms(3,4) have "l = (the_lock w)\<lparr>writer_depth := writes w t - 1\<rparr>"
      by (auto simp: release_write_def split: if_splits)
    then show ?thesis
      using set_writes_inv [OF assms(1,2) sole assms(3), of l "writes w t - 1"] False own assms(3) by simp
  qed
qed

text \<open>A thread that leaves the queue.\<close>

lemma removed_once:
  assumes "distinct (map fst xs)" and "(t, k) \<in> set xs"
  shows "set (map fst (remove1 (t, k) xs)) \<subseteq> set (map fst xs)" and "distinct (map fst (remove1 (t, k) xs))"
    and "length (filter (\<lambda>p. snd p = Writing) xs) =
      (if k = Writing then Suc else id) (length (filter (\<lambda>p. snd p = Writing) (remove1 (t, k) xs)))"
proof -
  obtain ps qs where split: "xs = ps @ (t, k) # qs" and "(t, k) \<notin> set ps" using assms(2) by (meson split_list_first)
  then have rest: "remove1 (t, k) xs = ps @ qs" by (simp add: remove1_append)
  show "set (map fst (remove1 (t, k) xs)) \<subseteq> set (map fst xs)" "distinct (map fst (remove1 (t, k) xs))"
    "length (filter (\<lambda>p. snd p = Writing) xs) =
      (if k = Writing then Suc else id) (length (filter (\<lambda>p. snd p = Writing) (remove1 (t, k) xs)))"
    using assms(1) unfolding rest by (auto simp: split)
qed

lemma removed_both:
  assumes "distinct (waiting_threads l)" and "p \<in> set (parked l @ woken l)"
  shows "remove1 p (parked l) @ remove1 p (woken l) = remove1 p (parked l @ woken l)"
proof (cases "p \<in> set (parked l)")
  case True
  then have "fst p \<in> fst ` set (parked l)" by blast
  then have "p \<notin> set (woken l)" using assms(1) by (auto simp: waiting_threads_def)
  then show ?thesis using True by (simp add: remove1_append remove1_idem)
qed (simp add: remove1_append remove1_idem)

lemma stop_inv:
  assumes inv: "lock_inv w" and p: "(t, k) \<in> set (parked (the_lock w) @ woken (the_lock w))"
    and l: "l = (the_lock w)\<lparr>parked := remove1 (t, k) (parked (the_lock w)), woken := remove1 (t, k) (woken (the_lock w)),
      waiting_writers := (if k = Writing then waiting_writers (the_lock w) - 1 else waiting_writers (the_lock w))\<rparr>"
    and n: "interrupted w \<le> n" "k = Writing \<longrightarrow> 0 < n"
  shows "lock_inv (w\<lparr>the_lock := l, interrupted := n\<rparr>)"
proof -
  have dist: "distinct (waiting_threads (the_lock w))" using inv by (simp add: lock_inv_def waiters_agree_def)
  have queue: "parked l @ woken l = remove1 (t, k) (parked (the_lock w) @ woken (the_lock w))"
    using removed_both [OF dist p] by (simp add: l)
  note once = removed_once [OF _ p, folded queue waiting_threads_def pending_writers_def, OF dist]
  have "counts_agree (w\<lparr>the_lock := l, interrupted := n\<rparr>)" "writer_alone (w\<lparr>the_lock := l, interrupted := n\<rparr>)"
    using inv by (simp_all add: lock_inv_def counts_agree_def writer_alone_def l)
  moreover have "waiters_agree (w\<lparr>the_lock := l, interrupted := n\<rparr>)"
  proof -
    have "waiting_writers l = pending_writers l"
    proof -
      have "waiting_writers l = (if k = Writing then waiting_writers (the_lock w) - 1 else waiting_writers (the_lock w))"
        by (simp add: l)
      then show ?thesis using inv once(3) by (cases "k = Writing") (simp_all add: lock_inv_def waiters_agree_def pending_writers_def)
    qed
    then show ?thesis using inv once(1,2) unfolding lock_inv_def waiters_agree_def by (simp del: set_map) blast
  qed
  moreover have "parked_for_reason (0 < n) l"
    using inv n set_remove1_subset [of "(t, k)" "parked (the_lock w)"]
    by (auto simp: lock_inv_def parked_for_reason_def l)
  ultimately show ?thesis by (simp add: lock_inv_def)
qed

lemma interrupt_read_inv:
  assumes "lock_inv w" and "(t, Reading) \<in> set (parked (the_lock w) @ woken (the_lock w))"
  shows "lock_inv (w\<lparr>the_lock := interrupt_read t (the_lock w)\<rparr>)"
  using stop_inv [OF assms refl, of "interrupted w"] by (simp add: interrupt_read_def)

lemma interrupt_write_inv:
  assumes "lock_inv w" and "(t, Writing) \<in> set (parked (the_lock w) @ woken (the_lock w))"
  shows "lock_inv (w\<lparr>the_lock := interrupt_write t (the_lock w), interrupted := Suc (interrupted w)\<rparr>)"
  using stop_inv [OF assms refl, of "Suc (interrupted w)"] by (simp add: interrupt_write_def)

lemma lock_step_inv: "lock_step w w' \<Longrightarrow> lock_inv w \<Longrightarrow> lock_inv w'"
  by (induction rule: lock_step.induct)
    (blast intro: acquire_read_inv acquire_write_inv resume_reader_inv resume_writer_inv release_read_inv release_write_inv
      interrupt_read_inv interrupt_write_inv)+

lemma lock_run_inv: "lock_step\<^sup>*\<^sup>* new_lock_world w \<Longrightarrow> lock_inv w"
  by (induction rule: rtranclp_induct) (auto intro: new_lock_inv lock_step_inv)


section \<open>Exclusion and progress\<close>

text \<open>
  C15. In every reachable state of any number of threads, while a thread is inside the write lock no other
  thread is inside the read lock or the write lock.
\<close>

theorem vault_lock_exclusive:
  assumes "lock_step\<^sup>*\<^sup>* new_lock_world w" and "0 < writes w t" and "u \<noteq> t"
  shows "reads w u = 0 \<and> writes w u = 0"
proof -
  have inv: "lock_inv w" using lock_run_inv assms(1) .
  then have "writes w u = 0" using sole_writer [of w t u] assms(2,3) by (auto simp: lock_inv_def)
  then show ?thesis using inv assms(2,3) by (auto simp: lock_inv_def writer_alone_def)
qed

text \<open>
  C24. The lock loses no wakeup: in every reachable state in which some thread waits and no thread is inside, a waiting
  thread has been woken and enters when it runs, with one exception: once an exception has ended the wait of a writer, readers that
  parked behind it may be left behind, with no writer among them. Waiting writers are never left behind.
\<close>

theorem vault_lock_progress:
  assumes "lock_step\<^sup>*\<^sup>* new_lock_world w" and "waiting_threads (the_lock w) \<noteq> []"
    and "\<forall>t. reads w t = 0 \<and> writes w t = 0"
  shows "(\<exists>t k. (t, k) \<in> set (woken (the_lock w)) \<and> fst (resume_wait t k (the_lock w))) \<or>
    0 < interrupted w \<and> woken (the_lock w) = [] \<and> (\<forall>p \<in> set (parked (the_lock w)). snd p = Reading)"
proof -
  let ?l = "the_lock w"
  have inv: "lock_inv w" using lock_run_inv assms(1) .
  have free: "writer ?l = None" "readers ?l = []"
    using inv assms(3) counted_readers_Nil [of w] by (auto simp: lock_inv_def counts_agree_def)
  show ?thesis
  proof (cases "\<exists>t. (t, Writing) \<in> set (parked ?l @ woken ?l)")
    case True
    then obtain t where "(t, Writing) \<in> set (woken ?l)"
      using inv free by (auto simp: lock_inv_def parked_for_reason_def)
    moreover have "fst (resume_wait t Writing ?l)" by (simp add: resume_wait_def write_loop_def free)
    ultimately show ?thesis by blast
  next
    case False
    then have "filter (\<lambda>p. snd p = Writing) (parked ?l @ woken ?l) = []" by (force simp: filter_empty_conv)
    then have none: "waiting_writers ?l = 0" using inv by (simp add: lock_inv_def waiters_agree_def pending_writers_def)
    have reading: "snd p = Reading \<and> (fst p, Reading) = p" if "p \<in> set (parked ?l @ woken ?l)" for p
      using False that by (cases p; cases "snd p") auto
    show ?thesis
    proof (cases "woken ?l")
      case (Cons p ps)
      then have "(fst p, Reading) \<in> set (woken ?l)" using reading [of p] by simp
      moreover have "fst (resume_wait (fst p) Reading ?l)" by (simp add: resume_wait_def read_loop_def free none)
      ultimately show ?thesis by blast
    next
      case Nil
      then obtain p where "p \<in> set (parked ?l)" using assms(2) by (cases "parked ?l") (auto simp: waiting_threads_def)
      then have "(fst p, Reading) \<in> set (parked ?l)" using reading [of p] by simp
      then have "0 < interrupted w" using inv free none by (auto simp: lock_inv_def parked_for_reason_def)
      then show ?thesis using Nil reading by auto
    qed
  qed
qed

text \<open>The run the witnesses use: thread 1 enters as a writer, threads 2 and 3 wait, thread 1 leaves.\<close>

definition lock_world_1 :: lock_world where
  "lock_world_1 = count_write 1 (True, snd (acquire_write 1 new_rwlock)) new_lock_world"

definition lock_world_2 :: lock_world where
  "lock_world_2 = count_read 2 (acquire_read 2 (the_lock lock_world_1)) lock_world_1"

definition lock_world_3 :: lock_world where
  "lock_world_3 = lock_world_2\<lparr>the_lock := snd (release_write 1 (the_lock lock_world_2)), writes := (writes lock_world_2)(1 := 0)\<rparr>"

lemmas lock_world_defs = lock_world_1_def lock_world_2_def lock_world_3_def new_lock_world_def new_rwlock_def count_write_def
  count_read_def acquire_write_def acquire_read_def write_loop_def read_loop_def release_write_def wait_in_def
  notify_all_lock_def waiting_threads_def resume_wait_def

lemma lock_world_1_reached: "lock_step\<^sup>*\<^sup>* new_lock_world lock_world_1"
proof -
  have "lock_step new_lock_world (count_write 1 (True, snd (acquire_write 1 new_rwlock)) new_lock_world)"
    by (rule ask_write) (simp_all add: lock_world_defs)
  then show ?thesis by (simp add: lock_world_1_def)
qed

lemma lock_world_2_reached: "lock_step\<^sup>*\<^sup>* new_lock_world lock_world_2"
  unfolding lock_world_2_def
  by (rule rtranclp.rtrancl_into_rtrancl [OF lock_world_1_reached], rule ask_read) (simp add: lock_world_defs)

lemma lock_world_3_reached: "lock_step\<^sup>*\<^sup>* new_lock_world lock_world_3"
proof -
  have "lock_step lock_world_2 (lock_world_2\<lparr>the_lock := snd (release_write 1 (the_lock lock_world_2)),
      writes := (writes lock_world_2)(1 := writes lock_world_2 1 - 1)\<rparr>)"
    by (rule give_write) (simp_all add: lock_world_defs)
  then have "lock_step lock_world_2 lock_world_3" by (simp add: lock_world_defs)
  then show ?thesis by (rule rtranclp.rtrancl_into_rtrancl [OF lock_world_2_reached])
qed

theorem vault_lock_exclusive_witness:
  "0 < writes lock_world_2 1 \<and> reads lock_world_2 2 = 0 \<and> writes lock_world_2 2 = 0"
proof -
  have "0 < writes lock_world_2 1" by (simp add: lock_world_defs)
  then show ?thesis using vault_lock_exclusive [OF lock_world_2_reached, of 1 2] by simp
qed

theorem vault_lock_progress_witness:
  "\<exists>t k. (t, k) \<in> set (woken (the_lock lock_world_3)) \<and> fst (resume_wait t k (the_lock lock_world_3))"
proof -
  have "interrupted lock_world_3 = 0" by (simp add: lock_world_defs)
  with vault_lock_progress [OF lock_world_3_reached] show ?thesis by (simp add: lock_world_defs)
qed

text \<open>
  The \<open>finally\<close> clause of \<open>acquire_write\<close> takes the writer out of the count without a notification. When an
  exception ends the wait of a woken writer, a reader that parked behind it stays parked although nobody is inside.
\<close>

lemma interrupted_writer_strands_reader:
  "let l1 = snd (acquire_write 1 new_rwlock);
       l2 = snd (acquire_write 2 l1);
       l3 = snd (acquire_read 3 l2);
       l4 = snd (release_write 1 l3);
       l5 = snd (resume_wait 3 Reading l4);
       l6 = interrupt_write 2 l5
   in parked l6 = [(3, Reading)] \<and> woken l6 = [] \<and> writer l6 = None \<and> readers l6 = [] \<and> waiting_writers l6 = 0"
  by (simp add: lock_world_defs interrupt_write_def depth_of_def)

end
