(* ===== verification/Vault_Files.thy ===== *)
theory Vault_Files
  imports Execution_Tasks Json_Parse Sha256 Base64
begin

text \<open>
  The files a vault lives in: a file system of directories and regular files under resolved absolute paths, the calls
  of \<open>os\<close>, \<open>shutil\<close> and \<open>pathlib\<close> that core/vault_state makes, and on top of them pathing.py, patterns.py and
  core/utils/hash.py. Every call that touches the disk or the database may fail: the world carries a script of failures, one
  entry per call, and a failing write may leave part of its content behind. What the symbolic links of the machine make
  of a path (\<open>Path.resolve\<close>) is an argument.
\<close>

section \<open>Paths\<close>

type_synonym path = "string list"

text \<open>The parts \<open>pathlib\<close> keeps of a relative path: no empty ones and no single dots.\<close>

definition path_parts :: "string \<Rightarrow> path" where
  "path_parts s = filter (\<lambda>part. part \<noteq> [] \<and> part \<noteq> ''.'') (split_char (CHR ''/'') s)"

text \<open>\<open>base / s\<close>: an absolute \<open>s\<close> replaces the base.\<close>

definition join_path :: "path \<Rightarrow> string \<Rightarrow> path" where
  "join_path base s = (if startswith s ''/'' then path_parts s else base @ path_parts s)"

definition is_below :: "path \<Rightarrow> path \<Rightarrow> bool" where
  "is_below base p = (take (length base) p = base)"

text \<open>\<open>str(p.relative_to(base))\<close>; the base itself is the dot.\<close>

definition relative_text :: "path \<Rightarrow> path \<Rightarrow> string" where
  "relative_text base p = (case drop (length base) p of [] \<Rightarrow> ''.'' | parts \<Rightarrow> str_join ''/'' parts)"

definition path_text :: "path \<Rightarrow> string" where
  "path_text p = CHR ''/'' # str_join ''/'' p"

definition strip_slashes :: "string \<Rightarrow> string" where
  "strip_slashes s = rev (dropWhile (\<lambda>c. c = CHR ''/'') (rev (dropWhile (\<lambda>c. c = CHR ''/'') s)))"

definition forward_slashes :: "string \<Rightarrow> string" where
  "forward_slashes s = map (\<lambda>c. if c = CHR 0x5C then CHR ''/'' else c) s"

definition normalize_vault_relative_path :: "string \<Rightarrow> string" where
  "normalize_vault_relative_path s = strip_slashes (strip (forward_slashes s))"

text \<open>\<open>os.path.basename\<close>.\<close>

definition basename :: "string \<Rightarrow> string" where
  "basename s = last (split_char (CHR ''/'') s)"

definition resolve_vault_relative_path :: "(path \<Rightarrow> path) \<Rightarrow> path \<Rightarrow> string \<Rightarrow> bool \<Rightarrow> path result" where
  "resolve_vault_relative_path realpath vault_path path markdown_only =
     (if str_contains ''..'' path
      then Inl (ValueError (''Path traversal not allowed - '' @ [CHR 0x27] @ ''..'' @ [CHR 0x27] @ '' found in path''))
      else if startswith path ''/'' then Inl (ValueError ''Absolute paths not allowed'')
      else if markdown_only \<and> CHR ''.'' \<in> set (basename path) \<and> \<not> endswith path ''.md''
      then Inl (ValueError (''Only .md files are allowed. Please use '' @ [CHR 0x27] @ ''.md'' @ [CHR 0x27] @ '' extension for all files.''))
      else let vault_root = realpath vault_path;
               candidate = realpath (join_path vault_root path)
           in if is_below vault_root candidate then Inr candidate
              else Inl (ValueError ''Path escapes vault boundaries''))"

text \<open>\<open>VaultRootResolutionError\<close>: its code; the message and the name are made from the arguments.\<close>

datatype root_error = VaultRootResolutionError string string string

definition resolve_configured_vault_root ::
  "(path \<Rightarrow> path) \<Rightarrow> (path \<Rightarrow> bool) \<Rightarrow> path \<Rightarrow> string option \<Rightarrow> root_error + path" where
  "resolve_configured_vault_root realpath is_directory data_root vault_name =
     (let shown = (case vault_name of None \<Rightarrow> ''None'' | Some name \<Rightarrow> name);
          normalized_name = strip (case vault_name of None \<Rightarrow> [] | Some name \<Rightarrow> name);
          name_path = path_parts normalized_name
      in if normalized_name = [] \<or> normalized_name \<in> {''.'', ''..''} \<or>
            (case name_path of [] \<Rightarrow> [] | _ \<Rightarrow> last name_path) \<noteq> normalized_name \<or>
            CHR ''/'' \<in> set normalized_name \<or> CHR 0x5C \<in> set normalized_name
      then Inl (VaultRootResolutionError ''invalid_vault_name'' (''Invalid vault name: '' @ shown) normalized_name)
      else let resolved_data_root = realpath data_root;
               candidate = realpath (join_path resolved_data_root normalized_name)
           in if \<not> is_below resolved_data_root candidate
              then Inl (VaultRootResolutionError ''vault_root_escapes_data_root''
                (''Vault root escapes the configured data root: '' @ normalized_name) normalized_name)
              else if \<not> is_directory candidate
              then Inl (VaultRootResolutionError ''vault_not_found'' (''Vault not found: '' @ normalized_name) normalized_name)
              else Inr candidate)"

section \<open>Excluded paths\<close>

text \<open>
  \<open>fnmatch.fnmatchcase\<close>: a star, a question mark, a set of character ranges or a literal character. A bracket
  without its closing bracket is a literal.
\<close>

datatype glob_item = Star | Any_Char | One_Of bool "(char \<times> char) list" | Literal char

fun char_ranges :: "string \<Rightarrow> (char \<times> char) list" where
  "char_ranges [] = []"
| "char_ranges [c] = [(c, c)]"
| "char_ranges [c, d] = [(c, c), (d, d)]"
| "char_ranges (c # d # e # cs) =
     (if d = CHR ''-'' then (c, e) # char_ranges cs else (c, c) # char_ranges (d # e # cs))"

text \<open>The characters between the brackets and the pattern after them; the first of them is never the end.\<close>

definition bracket :: "string \<Rightarrow> (bool \<times> string \<times> string) option" where
  "bracket s =
     (let (negated, s) = (case s of [] \<Rightarrow> (False, s) | c # cs \<Rightarrow> if c = CHR ''!'' then (True, cs) else (False, s))
      in case s of
           [] \<Rightarrow> None
         | c # cs \<Rightarrow>
             let inner = takeWhile (\<lambda>x. x \<noteq> CHR '']'') cs; rest = dropWhile (\<lambda>x. x \<noteq> CHR '']'') cs
             in (case rest of [] \<Rightarrow> None | _ # after \<Rightarrow> Some (negated, c # inner, after)))"

lemma after_dropWhile_shorter: "dropWhile P cs = x # after \<Longrightarrow> length after < length cs"
  using length_dropWhile_le [of P cs] by simp

lemma bracket_shorter: "bracket s = Some (n, inner, after) \<Longrightarrow> length after < length s"
  by (auto simp: bracket_def Let_def split: list.splits if_splits prod.splits dest!: after_dropWhile_shorter)

function glob_items :: "string \<Rightarrow> glob_item list" where
  "glob_items [] = []"
| "glob_items (c # cs) =
     (if c = CHR ''*'' then Star # glob_items cs
      else if c = CHR ''?'' then Any_Char # glob_items cs
      else if c = CHR ''['' then
        (case bracket cs of
           None \<Rightarrow> Literal c # glob_items cs
         | Some (negated, inner, after) \<Rightarrow> One_Of negated (char_ranges inner) # glob_items after)
      else Literal c # glob_items cs)"
  by pat_completeness auto
termination
  by (relation "measure length") (auto dest: bracket_shorter simp: less_Suc_eq)

fun item_matches :: "glob_item \<Rightarrow> char \<Rightarrow> bool" where
  "item_matches Star c = False"
| "item_matches Any_Char c = True"
| "item_matches (One_Of negated ranges) c = (negated \<noteq> list_ex (\<lambda>(a, b). a \<le> c \<and> c \<le> b) ranges)"
| "item_matches (Literal d) c = (c = d)"

fun glob_match :: "glob_item list \<Rightarrow> string \<Rightarrow> bool" where
  "glob_match [] s = (s = [])"
| "glob_match (Star # items) [] = glob_match items []"
| "glob_match (Star # items) (c # cs) = (glob_match items (c # cs) \<or> glob_match (Star # items) cs)"
| "glob_match (item # items) [] = False"
| "glob_match (item # items) (c # cs) = (item_matches item c \<and> glob_match items cs)"

definition fnmatchcase :: "string \<Rightarrow> string \<Rightarrow> bool" where
  "fnmatchcase name pattern = glob_match (glob_items pattern) name"

definition normalize_pattern :: "string \<Rightarrow> string" where
  "normalize_pattern pattern = dropWhile (\<lambda>c. c = CHR ''/'') (strip (forward_slashes pattern))"

definition matcher_from_patterns :: "string list \<Rightarrow> string list" where
  "matcher_from_patterns patterns = map normalize_pattern (filter (\<lambda>p. p \<noteq> []) patterns)"

text \<open>\<open>Path(normalized).name\<close>.\<close>

definition path_name :: "string \<Rightarrow> string" where
  "path_name s = (case path_parts s of [] \<Rightarrow> [] | parts \<Rightarrow> last parts)"

definition pattern_matches :: "string \<Rightarrow> string \<Rightarrow> bool" where
  "pattern_matches normalized pattern =
     (if pattern = [] then False
      else if endswith pattern ''/''
      then let prefix = rev (dropWhile (\<lambda>c. c = CHR ''/'') (rev pattern))
           in normalized = prefix \<or> startswith normalized (prefix @ ''/'')
      else fnmatchcase normalized pattern \<or>
           (CHR ''/'' \<notin> set pattern \<and> fnmatchcase (path_name normalized) pattern))"

definition matcher_matches :: "string list \<Rightarrow> string \<Rightarrow> bool" where
  "matcher_matches patterns relative_path =
     list_ex (pattern_matches (strip_slashes (strip (forward_slashes relative_path)))) patterns"

section \<open>Hashes\<close>

definition hexdigest :: "string \<Rightarrow> string" where
  "hexdigest digest = concat (map (\<lambda>b. [hex_char (of_char b div 16), hex_char (of_char b)]) digest)"

definition hash_bytes :: "string \<Rightarrow> nat option \<Rightarrow> string" where
  "hash_bytes content length_limit =
     (case length_limit of None \<Rightarrow> hexdigest (sha256 content) | Some n \<Rightarrow> take n (hexdigest (sha256 content)))"

definition hash_file_content :: "string \<Rightarrow> nat option \<Rightarrow> string" where
  "hash_file_content content length_limit = hash_bytes (utf8_encode content) length_limit"

abbreviation sha256_hex :: "string \<Rightarrow> string" where
  "sha256_hex content \<equiv> hash_bytes content None"

section \<open>Confinement\<close>

text \<open>Whatever the symbolic links of the machine lead to, an accepted path is at or below the resolved vault root.\<close>

lemma resolved_path_confined:
  assumes "resolve_vault_relative_path realpath vault_path path markdown_only = Inr p"
  shows "is_below (realpath vault_path) p \<and> \<not> str_contains ''..'' path \<and> \<not> startswith path ''/''"
  using assms by (auto simp: resolve_vault_relative_path_def Let_def split: if_splits)

lemma configured_root_confined:
  assumes "resolve_configured_vault_root realpath is_directory data_root vault_name = Inr p"
  shows "is_below (realpath data_root) p \<and> is_directory p"
  using assms by (auto simp: resolve_configured_vault_root_def Let_def split: if_splits)

end
