(* ===== verification/Vault_World.thy ===== *)
theory Vault_World
  imports Vault_Files
begin

text \<open>
  The world of the vault-state services: the file system, the tables of the vault-state database
  (core/vault_state/models.py), the clock, and the script of failures. An operation takes the world and gives a result
  or an exception with the world it leaves.
\<close>

section \<open>Tables\<close>

record VaultRecord =
  vr_vault_id :: string
  vr_current_name :: string
  vr_first_seen_at :: datetime
  vr_last_seen_at :: datetime
  vr_missing_since :: "datetime option"

record VaultFavorite =
  fav_principal_id :: string
  fav_vault_id :: string
  fav_path :: string

record VaultFile =
  vf_vault_id :: string
  vf_path :: string
  vf_vault_name :: string
  vf_artifact_class :: string
  vf_size :: nat
  vf_mtime_ns :: nat
  vf_content_hash :: string
  vf_kind :: string
  vf_change_sequence :: nat
  vf_first_seen_at :: datetime
  vf_last_seen_at :: datetime
  vf_changed_at :: datetime
  vf_deleted_at :: "datetime option"

record VaultFileEvent =
  ev_sequence :: nat
  ev_vault_id :: string
  ev_vault_name :: string
  ev_path :: string
  ev_event_type :: string
  ev_content_hash :: "string option"
  ev_artifact_class :: "string option"
  ev_observed_at :: datetime
  ev_metadata_json :: "string option"

record VaultActivity =
  va_activity_id :: string
  va_vault_id :: string
  va_vault_name :: string
  va_kind :: string
  va_source :: string
  va_scope :: "string option"
  va_label :: string
  va_task_id :: "string option"
  va_goal_id :: "string option"
  va_step_id :: "string option"
  va_status :: string
  va_rollback_status :: "string option"
  va_created_at :: datetime
  va_updated_at :: datetime
  va_completed_at :: "datetime option"
  va_expires_at :: "datetime option"
  va_metadata_json :: "string option"

record VaultMutation =
  vm_id :: nat
  vm_activity_id :: string
  vm_operation_id :: string
  vm_path :: string
  vm_related_path :: "string option"
  vm_target_kind :: string
  vm_operation :: string
  vm_status :: string
  vm_event_sequence :: "nat option"
  vm_before_exists :: bool
  vm_before_hash :: "string option"
  vm_before_snapshot_id :: "nat option"
  vm_after_exists :: bool
  vm_after_hash :: "string option"
  vm_after_snapshot_id :: "nat option"
  vm_snapshot_ref :: "string option"
  vm_created_at :: datetime
  vm_expires_at :: "datetime option"
  vm_metadata_json :: "string option"

record SnapshotSet =
  ss_id :: nat
  ss_activity_id :: "string option"
  ss_task_id :: "string option"
  ss_task_kind :: "string option"
  ss_task_source :: "string option"
  ss_task_scope :: "string option"
  ss_task_label :: "string option"
  ss_vault_id :: string
  ss_vault_name :: string
  ss_purpose :: string
  ss_scope_kind :: "string option"
  ss_scope_id :: "string option"
  ss_snapshot_root :: path
  ss_status :: string
  ss_created_at :: datetime
  ss_expires_at :: "datetime option"
  ss_rolled_back_at :: "datetime option"

record FileSnapshot =
  sn_id :: nat
  sn_snapshot_set_id :: nat
  sn_activity_id :: "string option"
  sn_task_id :: "string option"
  sn_vault_id :: string
  sn_vault_name :: string
  sn_path :: string
  sn_source :: string
  sn_exists :: bool
  sn_content_hash :: "string option"
  sn_snapshot_ref :: "string option"
  sn_created_at :: datetime
  sn_expires_at :: "datetime option"

record vault_db =
  db_vaults :: "VaultRecord list"
  db_favorites :: "VaultFavorite list"
  db_files :: "VaultFile list"
  db_events :: "VaultFileEvent list"
  db_activities :: "VaultActivity list"
  db_mutations :: "VaultMutation list"
  db_snapshot_sets :: "SnapshotSet list"
  db_file_snapshots :: "FileSnapshot list"

definition empty_vault_db :: vault_db where
  "empty_vault_db = \<lparr>db_vaults = [], db_favorites = [], db_files = [], db_events = [], db_activities = [], db_mutations = [],
     db_snapshot_sets = [], db_file_snapshots = []\<rparr>"

text \<open>
  The id SQLite gives a row whose key is \<open>INTEGER PRIMARY KEY\<close>, as the declared models make it: one more than the
  largest id in the table.
\<close>

definition next_rowid :: "nat list \<Rightarrow> nat" where
  "next_rowid ids = Suc (fold max ids 0)"

section \<open>Operations that may fail\<close>

datatype vault_exn =
    VaultMutationRejected string string
  | OSError string
  | DatabaseError string
  | PyError pyexn

text \<open>A failing call: its message and what a write has left in its destination.\<close>

record io_failure =
  fail_message :: string
  fail_left :: "string option"

datatype node = NFile string nat | NDir

record vault_world =
  w_fs :: "(path, node) dict"
  w_db :: vault_db
  w_failures :: "io_failure option list"
  w_clock :: "nat \<Rightarrow> datetime"
  w_clock_reads :: nat
  w_uuids :: "nat \<Rightarrow> string"
  w_uuid_reads :: nat

type_synonym 'a io = "vault_world \<Rightarrow> (vault_exn + 'a) \<times> vault_world"

definition vreturn :: "'a \<Rightarrow> 'a io" where
  "vreturn x w = (Inr x, w)"

definition vraise :: "vault_exn \<Rightarrow> 'a io" where
  "vraise e w = (Inl e, w)"

definition vbind :: "'a io \<Rightarrow> ('a \<Rightarrow> 'b io) \<Rightarrow> 'b io" where
  "vbind m f w = (case m w of (Inl e, w') \<Rightarrow> (Inl e, w') | (Inr x, w') \<Rightarrow> f x w')"

definition vtry :: "'a io \<Rightarrow> (vault_exn \<Rightarrow> 'a io) \<Rightarrow> 'a io" where
  "vtry m handler w = (case m w of (Inl e, w') \<Rightarrow> handler e w' | (Inr x, w') \<Rightarrow> (Inr x, w'))"

definition of_result :: "'a result \<Rightarrow> 'a io" where
  "of_result r w = (case r of Inl e \<Rightarrow> (Inl (PyError e), w) | Inr x \<Rightarrow> (Inr x, w))"

fun vfold :: "('a \<Rightarrow> 's \<Rightarrow> 's io) \<Rightarrow> 'a list \<Rightarrow> 's \<Rightarrow> 's io" where
  "vfold f [] s = vreturn s"
| "vfold f (x # xs) s = vbind (f x s) (vfold f xs)"

definition asks :: "(vault_world \<Rightarrow> 'a) \<Rightarrow> 'a io" where
  "asks f w = (Inr (f w), w)"

definition next_failure :: "io_failure option io" where
  "next_failure w =
     (case w_failures w of [] \<Rightarrow> (Inr None, w) | f # fs \<Rightarrow> (Inr f, w\<lparr>w_failures := fs\<rparr>))"

definition utc_now :: "datetime io" where
  "utc_now w = (Inr (w_clock w (w_clock_reads w)), w\<lparr>w_clock_reads := Suc (w_clock_reads w)\<rparr>)"

definition fresh_uuid :: "string io" where
  "fresh_uuid w = (Inr (w_uuids w (w_uuid_reads w)), w\<lparr>w_uuid_reads := Suc (w_uuid_reads w)\<rparr>)"

definition exn_text :: "vault_exn \<Rightarrow> string" where
  "exn_text e = (case e of VaultMutationRejected _ m \<Rightarrow> m | OSError m \<Rightarrow> m | DatabaseError m \<Rightarrow> m
     | PyError e \<Rightarrow> exn_str (exn_info_of e))"

definition quoted :: "string \<Rightarrow> string" where
  "quoted s = [CHR 0x27] @ s @ [CHR 0x27]"

section \<open>Files\<close>

definition node_at :: "vault_world \<Rightarrow> path \<Rightarrow> node option" where
  "node_at w p = (if p = [] then Some NDir else map_of (w_fs w) p)"

definition path_exists :: "vault_world \<Rightarrow> path \<Rightarrow> bool" where
  "path_exists w p \<longleftrightarrow> node_at w p \<noteq> None"

definition is_dir :: "vault_world \<Rightarrow> path \<Rightarrow> bool" where
  "is_dir w p \<longleftrightarrow> node_at w p = Some NDir"

definition file_bytes :: "vault_world \<Rightarrow> path \<Rightarrow> string option" where
  "file_bytes w p = (case node_at w p of Some (NFile c _) \<Rightarrow> Some c | _ \<Rightarrow> None)"

definition is_file :: "vault_world \<Rightarrow> path \<Rightarrow> bool" where
  "is_file w p \<longleftrightarrow> file_bytes w p \<noteq> None"

definition put_node :: "path \<Rightarrow> node \<Rightarrow> vault_world \<Rightarrow> vault_world" where
  "put_node p n w = w\<lparr>w_fs := AList.update p n (w_fs w)\<rparr>"

definition drop_node :: "path \<Rightarrow> vault_world \<Rightarrow> vault_world" where
  "drop_node p w = w\<lparr>w_fs := AList.delete p (w_fs w)\<rparr>"

text \<open>A file can be opened for writing when its place is not a directory and its parent is one.\<close>

definition writable :: "vault_world \<Rightarrow> path \<Rightarrow> bool" where
  "writable w p \<longleftrightarrow> p \<noteq> [] \<and> \<not> is_dir w p \<and> is_dir w (butlast p)"

definition read_file :: "path \<Rightarrow> string io" where
  "read_file p = vbind next_failure (\<lambda>failure w.
     case failure of
       Some f \<Rightarrow> (Inl (OSError (fail_message f)), w)
     | None \<Rightarrow> (case file_bytes w p of
          None \<Rightarrow> (Inl (OSError (''Cannot read '' @ path_text p)), w)
        | Some c \<Rightarrow> (Inr c, w)))"

definition hash_file_bytes :: "path \<Rightarrow> string io" where
  "hash_file_bytes p = vbind (read_file p) (\<lambda>content. vreturn (sha256_hex content))"

text \<open>A write of the content with a modification time; the failure may leave other content in the file.\<close>

definition write_node :: "path \<Rightarrow> string \<Rightarrow> nat \<Rightarrow> unit io" where
  "write_node p content mtime = vbind next_failure (\<lambda>failure w.
     if \<not> writable w p then (Inl (OSError (''Cannot write '' @ path_text p)), w)
     else case failure of
       Some f \<Rightarrow> (Inl (OSError (fail_message f)),
          (case fail_left f of None \<Rightarrow> w | Some partial \<Rightarrow> put_node p (NFile partial mtime) w))
     | None \<Rightarrow> (Inr (), put_node p (NFile content mtime) w))"

definition write_bytes :: "path \<Rightarrow> string \<Rightarrow> unit io" where
  "write_bytes p content = vbind utc_now (\<lambda>now. write_node p content (now * 1000))"

definition write_text :: "path \<Rightarrow> string \<Rightarrow> unit io" where
  "write_text p content = write_bytes p (utf8_encode content)"

text \<open>\<open>shutil.copy2\<close>: into a directory when the destination is one; the copy has the time of its source.\<close>

definition copy2 :: "path \<Rightarrow> path \<Rightarrow> unit io" where
  "copy2 src dst w =
     (case node_at w src of
        Some (NFile content mtime) \<Rightarrow> write_node (if is_dir w dst then dst @ [last src] else dst) content mtime w
      | _ \<Rightarrow> (Inl (OSError (''Cannot copy '' @ path_text src)), w))"

definition unlink :: "path \<Rightarrow> unit io" where
  "unlink p = vbind next_failure (\<lambda>failure w.
     case failure of
       Some f \<Rightarrow> (Inl (OSError (fail_message f)), w)
     | None \<Rightarrow> if is_file w p then (Inr (), drop_node p w) else (Inl (OSError (''Cannot unlink '' @ path_text p)), w))"

text \<open>\<open>mkdir(parents=True, exist_ok=True)\<close>: a file among the parents is an error before anything is made.\<close>

definition path_prefixes :: "path \<Rightarrow> path list" where
  "path_prefixes p = map (\<lambda>n. take n p) [1..<Suc (length p)]"

definition make_dirs :: "path list \<Rightarrow> vault_world \<Rightarrow> vault_world" where
  "make_dirs ps w = fold (\<lambda>p w. if path_exists w p then w else put_node p NDir w) ps w"

definition mkdir_parents :: "path \<Rightarrow> unit io" where
  "mkdir_parents p = vbind next_failure (\<lambda>failure w.
     case failure of
       Some f \<Rightarrow> (Inl (OSError (fail_message f)), w)
     | None \<Rightarrow>
         if list_ex (is_file w) (path_prefixes p) then (Inl (OSError (''Not a directory: '' @ path_text p)), w)
         else (Inr (), make_dirs (path_prefixes p) w))"

text \<open>\<open>rmdir\<close> of an empty directory, and \<open>os.replace\<close> of a file or a directory tree.\<close>

definition rmdir :: "path \<Rightarrow> unit io" where
  "rmdir p = vbind next_failure (\<lambda>failure w.
     case failure of
       Some f \<Rightarrow> (Inl (OSError (fail_message f)), w)
     | None \<Rightarrow>
         if is_dir w p \<and> \<not> list_ex (\<lambda>(q, _). is_below p q \<and> q \<noteq> p) (w_fs w) then (Inr (), drop_node p w)
         else (Inl (OSError (''Cannot remove '' @ path_text p)), w))"

definition rename_tree :: "path \<Rightarrow> path \<Rightarrow> (path, node) dict \<Rightarrow> (path, node) dict" where
  "rename_tree src dst files =
     map (\<lambda>(p, n). (if is_below src p then dst @ drop (length src) p else p, n))
       (filter (\<lambda>(p, _). \<not> is_below dst p \<or> is_below src p) files)"

definition replace_path :: "path \<Rightarrow> path \<Rightarrow> unit io" where
  "replace_path src dst = vbind next_failure (\<lambda>failure w.
     case failure of
       Some f \<Rightarrow> (Inl (OSError (fail_message f)), w)
     | None \<Rightarrow>
         if src = dst \<and> path_exists w src then (Inr (), w)
         else if is_file w src \<and> writable w dst \<or>
            is_dir w src \<and> \<not> is_below src dst \<and> is_dir w (butlast dst) \<and>
            (node_at w dst = None \<or> is_dir w dst \<and> \<not> list_ex (\<lambda>(q, _). is_below dst q \<and> q \<noteq> dst) (w_fs w))
         then (Inr (), w\<lparr>w_fs := rename_tree src dst (w_fs w)\<rparr>)
         else (Inl (OSError (''Cannot move '' @ path_text src)), w))"

text \<open>The regular files below a directory, in the order \<open>sorted\<close> gives their paths.\<close>

definition files_below :: "vault_world \<Rightarrow> path \<Rightarrow> path list" where
  "files_below w p = sort (filter (\<lambda>q. is_below p q \<and> q \<noteq> p \<and> is_file w q) (map fst (w_fs w)))"

section \<open>Sessions\<close>

text \<open>
  One database session: its writes are kept when the commit succeeds and are undone otherwise; what it did to files stays.
\<close>

definition change_db :: "(vault_db \<Rightarrow> 'a \<times> vault_db) \<Rightarrow> 'a io" where
  "change_db f w = (case f (w_db w) of (x, d) \<Rightarrow> (Inr x, w\<lparr>w_db := d\<rparr>))"

definition in_session :: "'a io \<Rightarrow> 'a io" where
  "in_session m w =
     (case m w of
        (Inl e, w1) \<Rightarrow> (Inl e, w1\<lparr>w_db := w_db w\<rparr>)
      | (Inr x, w1) \<Rightarrow>
          (case next_failure w1 of
             (Inr (Some f), w2) \<Rightarrow> (Inl (DatabaseError (fail_message f)), w2\<lparr>w_db := w_db w\<rparr>)
           | (_, w2) \<Rightarrow> (Inr x, w2)))"

end
