(* ===== verification/Vault_State.thy ===== *)
theory Vault_State
  imports Vault_World
begin

text \<open>
  The vault-state services: identity.py, activity.py, favorites.py, snapshots.py, service.py and cleanup.py of
  core/vault_state. Settings, the YAML library and the place of the database are the fields of \<open>vault_env\<close>; log records are
  not part of the state.
\<close>

record vault_env =
  env_realpath :: "path \<Rightarrow> path"
  env_yaml_load :: "string \<Rightarrow> pyexn + json"
  env_yaml_dump :: "(string \<times> string) list \<Rightarrow> string"
  env_vault_state_enabled :: bool
  env_excluded_patterns :: "string list"
  env_task_snapshot_retention_days :: int
  env_task_mutation_retention_days :: int
  env_system_root :: path

section \<open>Identity\<close>

record VaultIdentity =
  vi_vault_id :: string
  vi_metadata_path :: path
  vi_created :: bool

definition vault_metadata_path :: "path \<Rightarrow> path" where
  "vault_metadata_path vault_root = vault_root @ [''AssistantMD'', ''vault.yaml'']"

definition load_metadata :: "vault_env \<Rightarrow> path \<Rightarrow> metadata io" where
  "load_metadata e p = vbind (read_file p) (\<lambda>bytes.
     case utf8_decode bytes of
       None \<Rightarrow> vraise (PyError (ValueError ''invalid utf-8''))
     | Some text \<Rightarrow> vbind (of_result (env_yaml_load e text)) (\<lambda>raw.
         if \<not> truthy raw then vreturn []
         else case raw of
           JDict payload \<Rightarrow> vreturn payload
         | _ \<Rightarrow> vraise (PyError (ValueError (''Vault metadata must be a mapping: '' @ path_text p)))))"

definition resolve_or_create_locked :: "vault_env \<Rightarrow> path \<Rightarrow> VaultIdentity io" where
  "resolve_or_create_locked e metadata_path = vbind (asks (\<lambda>w. path_exists w metadata_path)) (\<lambda>present.
     if present
     then vbind (load_metadata e metadata_path) (\<lambda>payload.
       let vault_id = strip (case map_of payload ''vault_id'' of None \<Rightarrow> [] | Some v \<Rightarrow> py_str v)
       in if vault_id = []
          then vraise (PyError (ValueError (''Vault metadata is missing vault_id: '' @ path_text metadata_path)))
          else vreturn \<lparr>vi_vault_id = vault_id, vi_metadata_path = metadata_path, vi_created = False\<rparr>)
     else vbind fresh_uuid (\<lambda>uuid_hex.
       let vault_id = ''vault_'' @ uuid_hex
       in vbind (mkdir_parents (butlast metadata_path)) (\<lambda>_. vbind utc_now (\<lambda>now.
          vbind (write_text metadata_path (env_yaml_dump e [(''vault_id'', vault_id), (''created_at'', isoformat now)])) (\<lambda>_.
            vreturn \<lparr>vi_vault_id = vault_id, vi_metadata_path = metadata_path, vi_created = True\<rparr>)))))"

definition resolve_or_create_vault_identity :: "vault_env \<Rightarrow> path \<Rightarrow> VaultIdentity io" where
  "resolve_or_create_vault_identity e vault_path =
     resolve_or_create_locked e (vault_metadata_path (env_realpath e vault_path))"

section \<open>Activities\<close>

record VaultActivityContext =
  ac_activity_id :: string
  ac_kind :: string
  ac_source :: string
  ac_scope :: "string option"
  ac_label :: string
  ac_task_id :: "string option"
  ac_goal_id :: "string option"
  ac_step_id :: "string option"

definition task_activity_id :: "string \<Rightarrow> string \<Rightarrow> string" where
  "task_activity_id task_id vault_id = ''task:'' @ task_id @ '':'' @ vault_id"

definition compute_expiration :: "datetime \<Rightarrow> int \<Rightarrow> datetime option" where
  "compute_expiration created_at retention_days =
     (if retention_days \<le> 0 then Some created_at else Some (created_at + timedelta_days (nat retention_days)))"

definition compute_snapshot_expiration :: "vault_env \<Rightarrow> datetime \<Rightarrow> datetime option" where
  "compute_snapshot_expiration e created_at = compute_expiration created_at (env_task_snapshot_retention_days e)"

definition compute_task_mutation_expiration :: "vault_env \<Rightarrow> datetime \<Rightarrow> datetime option" where
  "compute_task_mutation_expiration e created_at = compute_expiration created_at (env_task_mutation_retention_days e)"

definition find_activity :: "string \<Rightarrow> vault_db \<Rightarrow> VaultActivity option" where
  "find_activity activity_id d = find (\<lambda>a. va_activity_id a = activity_id) (db_activities d)"

definition set_activity :: "VaultActivity \<Rightarrow> vault_db \<Rightarrow> vault_db" where
  "set_activity a d = d\<lparr>db_activities := map (\<lambda>b. if va_activity_id b = va_activity_id a then a else b) (db_activities d)\<rparr>"

definition ensure_activity ::
  "vault_env \<Rightarrow> VaultActivityContext \<Rightarrow> path \<Rightarrow> string option \<Rightarrow> datetime option \<Rightarrow> VaultActivity io" where
  "ensure_activity e context vault_path vault_name created_at =
     (let vault_root = env_realpath e vault_path
      in vbind (resolve_or_create_vault_identity e vault_root) (\<lambda>identity.
         vbind (case created_at of None \<Rightarrow> utc_now | Some t \<Rightarrow> vreturn t) (\<lambda>now.
         in_session (change_db (\<lambda>d.
           case find_activity (ac_activity_id context) d of
             Some activity \<Rightarrow> (activity, d)
           | None \<Rightarrow>
               let activity = \<lparr>va_activity_id = ac_activity_id context, va_vault_id = vi_vault_id identity,
                     va_vault_name = (case vault_name of None \<Rightarrow> last vault_root | Some n \<Rightarrow> if n = [] then last vault_root else n),
                     va_kind = ac_kind context, va_source = ac_source context, va_scope = ac_scope context,
                     va_label = ac_label context, va_task_id = ac_task_id context, va_goal_id = ac_goal_id context,
                     va_step_id = ac_step_id context, va_status = ''running'', va_rollback_status = None,
                     va_created_at = now, va_updated_at = now, va_completed_at = None,
                     va_expires_at = compute_task_mutation_expiration e now, va_metadata_json = None\<rparr>
               in (activity, d\<lparr>db_activities := db_activities d @ [activity]\<rparr>))))))"

definition finish_activity_in :: "datetime \<Rightarrow> string \<Rightarrow> string \<Rightarrow> string option \<Rightarrow> vault_db \<Rightarrow> unit \<times> vault_db" where
  "finish_activity_in now activity_id status rollback_status d =
     (case find_activity activity_id d of
        None \<Rightarrow> ((), d)
      | Some activity \<Rightarrow>
          if va_status activity = ''rolled_back'' \<and> status \<noteq> ''rolled_back'' then ((), d)
          else let effective = (case rollback_status of None \<Rightarrow> va_rollback_status activity | Some r \<Rightarrow> Some r)
          in if va_status activity = status \<and> va_rollback_status activity = effective \<and> va_completed_at activity \<noteq> None
             then ((), d)
             else ((), set_activity (activity\<lparr>va_status := status, va_rollback_status := effective,
               va_updated_at := now, va_completed_at := Some now\<rparr>) d))"

definition finish_activity :: "string \<Rightarrow> string \<Rightarrow> string option \<Rightarrow> unit io" where
  "finish_activity activity_id status rollback_status = vbind utc_now (\<lambda>now.
     in_session (change_db (finish_activity_in now activity_id status rollback_status)))"

definition finish_task_activities :: "string \<Rightarrow> string \<Rightarrow> string option \<Rightarrow> nat io" where
  "finish_task_activities task_id status rollback_status =
     vbind (asks (\<lambda>w. map va_activity_id (filter (\<lambda>a. va_task_id a = Some task_id) (db_activities (w_db w))))) (\<lambda>activity_ids.
     vbind (vfold (\<lambda>activity_id _. finish_activity activity_id status rollback_status) activity_ids ()) (\<lambda>_.
     vreturn (length activity_ids)))"

definition update_activity_metadata :: "string \<Rightarrow> metadata \<Rightarrow> unit io" where
  "update_activity_metadata activity_id metadata = in_session (
     vbind (asks (\<lambda>w. find_activity activity_id (w_db w))) (\<lambda>found.
     case found of
       None \<Rightarrow> vraise (PyError (RuntimeError (''Vault activity not found: '' @ activity_id)))
     | Some activity \<Rightarrow>
         vbind (case va_metadata_json activity of
                  None \<Rightarrow> vreturn []
                | Some text \<Rightarrow>
                    if text = [] then vreturn []
                    else (case json_loads text of
                      None \<Rightarrow> vraise (PyError (ValueError ''invalid JSON''))
                    | Some (JDict parsed) \<Rightarrow> vreturn parsed
                    | Some _ \<Rightarrow> vreturn [])) (\<lambda>current.
         vbind utc_now (\<lambda>now.
         change_db (\<lambda>d. ((), set_activity (activity\<lparr>
           va_metadata_json := Some (json_dumps True (JDict (dict_update current metadata))), va_updated_at := now\<rparr>) d))))))"

definition set_activity_rollback_status :: "string \<Rightarrow> string \<Rightarrow> unit io" where
  "set_activity_rollback_status activity_id rollback_status = in_session (
     vbind (asks (\<lambda>w. find_activity activity_id (w_db w))) (\<lambda>found.
     case found of
       None \<Rightarrow> vraise (PyError (RuntimeError (''Vault activity not found: '' @ activity_id)))
     | Some activity \<Rightarrow> vbind utc_now (\<lambda>now.
         change_db (\<lambda>d. ((), set_activity (activity\<lparr>va_rollback_status := Some rollback_status, va_updated_at := now\<rparr>) d)))))"

section \<open>Favorites\<close>

definition delete_favorites :: "string \<Rightarrow> string list \<Rightarrow> vault_db \<Rightarrow> vault_db" where
  "delete_favorites vault_id paths d =
     d\<lparr>db_favorites := filter (\<lambda>f. \<not> (fav_vault_id f = vault_id \<and> fav_path f \<in> set paths)) (db_favorites d)\<rparr>"

text \<open>\<open>INSERT OR IGNORE\<close> into the table whose key is the whole row.\<close>

definition insert_favorite :: "VaultFavorite \<Rightarrow> vault_db \<Rightarrow> vault_db" where
  "insert_favorite f d = (if f \<in> set (db_favorites d) then d else d\<lparr>db_favorites := db_favorites d @ [f]\<rparr>)"

definition delete_favorite :: "VaultFavorite \<Rightarrow> vault_db \<Rightarrow> vault_db" where
  "delete_favorite f d = d\<lparr>db_favorites := filter (\<lambda>g. g \<noteq> f) (db_favorites d)\<rparr>"

definition favorite_paths :: "vault_env \<Rightarrow> string \<Rightarrow> path \<Rightarrow> string set io" where
  "favorite_paths e user_id vault_root = vbind (resolve_or_create_vault_identity e vault_root) (\<lambda>identity.
     asks (\<lambda>w. set (filter
       (\<lambda>p. case resolve_vault_relative_path (env_realpath e) vault_root p False of
              Inl _ \<Rightarrow> False
            | Inr resolved \<Rightarrow> \<not> list_ex (\<lambda>part. startswith part ''.'') (path_parts p) \<and> (is_file w resolved \<or> is_dir w resolved))
       (map fav_path (filter (\<lambda>f. fav_principal_id f = user_id \<and> fav_vault_id f = vi_vault_id identity)
         (db_favorites (w_db w)))))))"

definition set_favorite_paths :: "vault_env \<Rightarrow> string \<Rightarrow> path \<Rightarrow> string list \<Rightarrow> bool \<Rightarrow> nat io" where
  "set_favorite_paths e user_id vault_root paths favorite = vbind (resolve_or_create_vault_identity e vault_root) (\<lambda>identity.
     in_session (change_db (\<lambda>d. fold (\<lambda>p (n, d).
       let f = \<lparr>fav_principal_id = user_id, fav_vault_id = vi_vault_id identity, fav_path = p\<rparr>
       in if favorite then (if f \<in> set (db_favorites d) then n else n + 1, insert_favorite f d)
          else (if f \<in> set (db_favorites d) then n + 1 else n, delete_favorite f d)) paths (0, d))))"

definition move_favorite :: "string \<Rightarrow> string \<Rightarrow> VaultFavorite \<Rightarrow> vault_db \<Rightarrow> vault_db" where
  "move_favorite source destination f d =
     (if fav_path f \<noteq> source \<and> \<not> startswith (fav_path f) (source @ ''/'') then d
      else insert_favorite (f\<lparr>fav_path := destination @ drop (length source) (fav_path f)\<rparr>) (delete_favorite f d))"

definition move_favorite_paths :: "vault_env \<Rightarrow> path \<Rightarrow> string \<Rightarrow> string \<Rightarrow> unit io" where
  "move_favorite_paths e vault_root source destination = vbind (resolve_or_create_vault_identity e vault_root) (\<lambda>identity.
     in_session (change_db (\<lambda>d. ((), fold (move_favorite source destination)
       (filter (\<lambda>f. fav_vault_id f = vi_vault_id identity) (db_favorites d)) d))))"

definition remove_favorite_paths :: "vault_env \<Rightarrow> path \<Rightarrow> string list \<Rightarrow> unit io" where
  "remove_favorite_paths e vault_root paths =
     (if paths = [] then vreturn ()
      else vbind (resolve_or_create_vault_identity e vault_root) (\<lambda>identity.
        in_session (change_db (\<lambda>d. ((), delete_favorites (vi_vault_id identity) paths d)))))"

text \<open>The same inside the caller's session.\<close>

definition remove_favorite_paths_in :: "vault_env \<Rightarrow> path \<Rightarrow> string list \<Rightarrow> unit io" where
  "remove_favorite_paths_in e vault_root paths =
     (if paths = [] then vreturn ()
      else vbind (resolve_or_create_vault_identity e vault_root) (\<lambda>identity.
        change_db (\<lambda>d. ((), delete_favorites (vi_vault_id identity) paths d))))"

section \<open>Snapshots\<close>

record SnapshotCaptureResult =
  cap_snapshot_set_id :: "nat option"
  cap_file_snapshot_id :: "nat option"
  cap_snapshot_ref :: "string option"
  cap_created_snapshot :: bool
  cap_recorded_path :: bool

text \<open>Who owns a capture and why (the keyword arguments of \<open>ensure_file_snapshot\<close>).\<close>

record snapshot_owner =
  so_activity_id :: "string option"
  so_task_id :: "string option"
  so_kind :: "string option"
  so_source :: "string option"
  so_scope :: "string option"
  so_label :: "string option"
  so_purpose :: string
  so_snapshot_source :: string
  so_scope_kind :: string
  so_scope_id :: string

definition snapshot_base_root :: "vault_env \<Rightarrow> path" where
  "snapshot_base_root e = env_system_root e @ [''vault_snapshots'']"

definition snapshot_root_of :: "vault_env \<Rightarrow> nat \<Rightarrow> path" where
  "snapshot_root_of e snapshot_set_id = snapshot_base_root e @ [show_nat snapshot_set_id]"

definition snapshot_ref_of :: "string \<Rightarrow> string \<Rightarrow> string" where
  "snapshot_ref_of source relative_path = str_join ''/'' (path_parts source @ [''files''] @ path_parts relative_path)"

definition given :: "string option \<Rightarrow> bool" where
  "given s = (case s of None \<Rightarrow> False | Some t \<Rightarrow> t \<noteq> [])"

definition existing_snapshot :: "snapshot_owner \<Rightarrow> string \<Rightarrow> string \<Rightarrow> vault_db \<Rightarrow> FileSnapshot option" where
  "existing_snapshot owner vault_id relative_path d =
     find (\<lambda>s. (if given (so_activity_id owner) then sn_activity_id s = so_activity_id owner else sn_task_id s = so_task_id owner) \<and>
       sn_vault_id s = vault_id \<and> sn_path s = relative_path \<and> sn_source s = so_snapshot_source owner)
       (sort_key sn_id (db_file_snapshots d))"

definition existing_snapshot_set :: "snapshot_owner \<Rightarrow> string \<Rightarrow> vault_db \<Rightarrow> SnapshotSet option" where
  "existing_snapshot_set owner vault_id d =
     find (\<lambda>s. (if given (so_activity_id owner) then ss_activity_id s = so_activity_id owner else ss_task_id s = so_task_id owner) \<and>
       ss_vault_id s = vault_id \<and> ss_purpose s = so_purpose owner) (sort_key ss_id (db_snapshot_sets d))"

definition new_snapshot_set :: "vault_env \<Rightarrow> snapshot_owner \<Rightarrow> string \<Rightarrow> string \<Rightarrow> datetime \<Rightarrow> datetime option \<Rightarrow> SnapshotSet io" where
  "new_snapshot_set e owner vault_id vault_name created_at expires_at =
     vbind (asks (\<lambda>w. next_rowid (map ss_id (db_snapshot_sets (w_db w))))) (\<lambda>set_id.
     let snapshot_root = snapshot_root_of e set_id;
         snapshot = \<lparr>ss_id = set_id, ss_activity_id = so_activity_id owner, ss_task_id = so_task_id owner,
           ss_task_kind = so_kind owner, ss_task_source = so_source owner, ss_task_scope = so_scope owner,
           ss_task_label = so_label owner, ss_vault_id = vault_id, ss_vault_name = vault_name, ss_purpose = so_purpose owner,
           ss_scope_kind = Some (so_scope_kind owner), ss_scope_id = Some (so_scope_id owner), ss_snapshot_root = snapshot_root,
           ss_status = ''active'', ss_created_at = created_at, ss_expires_at = expires_at, ss_rolled_back_at = None\<rparr>
     in vbind (mkdir_parents snapshot_root) (\<lambda>_.
        change_db (\<lambda>d. (snapshot, d\<lparr>db_snapshot_sets := db_snapshot_sets d @ [snapshot]\<rparr>))))"

definition ensure_file_snapshot ::
  "vault_env \<Rightarrow> snapshot_owner \<Rightarrow> string \<Rightarrow> string \<Rightarrow> string \<Rightarrow> bool \<Rightarrow> path \<Rightarrow> datetime \<Rightarrow> datetime option \<Rightarrow> SnapshotCaptureResult io" where
  "ensure_file_snapshot e owner vault_id vault_name relative_path before_exists source_path created_at expires_at =
     (if \<not> given (so_activity_id owner) \<and> \<not> given (so_task_id owner)
      then vraise (PyError (ValueError ''Snapshot capture requires an activity_id or task_id''))
      else vbind (asks (\<lambda>w. existing_snapshot owner vault_id relative_path (w_db w))) (\<lambda>existing.
        case existing of
          Some s \<Rightarrow> vreturn \<lparr>cap_snapshot_set_id = Some (sn_snapshot_set_id s), cap_file_snapshot_id = Some (sn_id s),
            cap_snapshot_ref = sn_snapshot_ref s, cap_created_snapshot = False, cap_recorded_path = False\<rparr>
        | None \<Rightarrow>
            vbind (asks (\<lambda>w. existing_snapshot_set owner vault_id (w_db w))) (\<lambda>found.
            vbind (case found of Some s \<Rightarrow> vreturn s
                   | None \<Rightarrow> new_snapshot_set e owner vault_id vault_name created_at expires_at) (\<lambda>snapshot.
            vbind (if \<not> before_exists then vreturn (None, None)
                   else let snapshot_ref = snapshot_ref_of (so_snapshot_source owner) relative_path;
                            target_path = ss_snapshot_root snapshot @ path_parts snapshot_ref
                        in vbind (hash_file_bytes source_path) (\<lambda>content_hash.
                           vbind (mkdir_parents (butlast target_path)) (\<lambda>_.
                           vbind (copy2 source_path target_path) (\<lambda>_.
                           vreturn (Some snapshot_ref, Some content_hash))))) (\<lambda>(snapshot_ref, content_hash).
            vbind (change_db (\<lambda>d.
              let sid = next_rowid (map sn_id (db_file_snapshots d))
              in (sid, d\<lparr>db_file_snapshots := db_file_snapshots d @
                   [\<lparr>sn_id = sid, sn_snapshot_set_id = ss_id snapshot, sn_activity_id = so_activity_id owner,
                     sn_task_id = so_task_id owner, sn_vault_id = vault_id, sn_vault_name = vault_name, sn_path = relative_path,
                     sn_source = so_snapshot_source owner, sn_exists = before_exists, sn_content_hash = content_hash,
                     sn_snapshot_ref = snapshot_ref, sn_created_at = created_at, sn_expires_at = expires_at\<rparr>]\<rparr>))) (\<lambda>sid.
            vreturn \<lparr>cap_snapshot_set_id = Some (ss_id snapshot), cap_file_snapshot_id = Some sid,
              cap_snapshot_ref = snapshot_ref, cap_created_snapshot = (found = None), cap_recorded_path = True\<rparr>))))))"

record VaultSnapshotFile =
  sf_snapshot_id :: nat
  sf_path :: path
  sf_vault_path :: string
  sf_content_hash :: "string option"

definition resolve_snapshot_file :: "vault_env \<Rightarrow> nat \<Rightarrow> vault_world \<Rightarrow> VaultSnapshotFile option" where
  "resolve_snapshot_file e snapshot_id w =
     (case find (\<lambda>s. sn_id s = snapshot_id) (db_file_snapshots (w_db w)) of
        None \<Rightarrow> None
      | Some file_snapshot \<Rightarrow>
          (case (find (\<lambda>s. ss_id s = sn_snapshot_set_id file_snapshot) (db_snapshot_sets (w_db w)), sn_snapshot_ref file_snapshot) of
             (Some snapshot_set, Some snapshot_ref) \<Rightarrow>
               if snapshot_ref = [] then None
               else let snapshot_path = env_realpath e (join_path (ss_snapshot_root snapshot_set) snapshot_ref)
               in if \<not> is_below (env_realpath e (snapshot_base_root e)) snapshot_path then None
                  else if \<not> is_file w snapshot_path then None
                  else Some \<lparr>sf_snapshot_id = snapshot_id, sf_path = snapshot_path, sf_vault_path = sn_path file_snapshot,
                         sf_content_hash = sn_content_hash file_snapshot\<rparr>
           | _ \<Rightarrow> None))"

end
