(* ===== verification/Vault_Manifest.thy ===== *)
theory Vault_Manifest
  imports Vault_State
begin

text \<open>
  The manifest of a vault and its change feed (\<open>refresh_vault\<close>, \<open>changes_since\<close> and the revision listing of
  core/vault_state/service.py) and the cleanup of expired rows (cleanup.py). The main result is that a reader who follows
  the feed from the beginning knows the manifest.
\<close>

section \<open>Refresh\<close>

record VaultStateRefreshResult =
  rr_vault_id :: string
  rr_vault_name :: string
  rr_files_seen :: nat
  rr_files_created :: nat
  rr_files_changed :: nat
  rr_files_deleted :: nat
  rr_files_unchanged :: nat
  rr_files_excluded :: nat
  rr_latest_sequence :: "nat option"
  rr_changed_paths :: "string list"
  rr_deleted_paths :: "string list"

definition classify :: "string \<Rightarrow> string" where
  "classify relative_path =
     (if startswith relative_path ''AssistantMD/Authoring/'' then ''assistant_authoring''
      else if startswith relative_path ''AssistantMD/'' then ''assistant_generated''
      else ''user_content'')"

definition event_type_of :: "VaultFile option \<Rightarrow> string \<Rightarrow> string \<Rightarrow> string" where
  "event_type_of existing content_hash artifact_class =
     (case existing of
        None \<Rightarrow> ''created''
      | Some row \<Rightarrow>
          if vf_deleted_at row \<noteq> None then ''created''
          else if vf_artifact_class row \<noteq> artifact_class then ''classified''
          else if vf_content_hash row \<noteq> content_hash then ''changed''
          else ''observed'')"

definition register_vault :: "string \<Rightarrow> string \<Rightarrow> datetime \<Rightarrow> vault_db \<Rightarrow> vault_db" where
  "register_vault vault_id vault_name now d =
     (if vault_id \<in> vr_vault_id ` set (db_vaults d)
      then d\<lparr>db_vaults := map (\<lambda>r. if vr_vault_id r = vault_id
             then r\<lparr>vr_current_name := vault_name, vr_last_seen_at := now, vr_missing_since := None\<rparr> else r) (db_vaults d)\<rparr>
      else d\<lparr>db_vaults := db_vaults d @ [\<lparr>vr_vault_id = vault_id, vr_current_name = vault_name, vr_first_seen_at = now,
             vr_last_seen_at = now, vr_missing_since = None\<rparr>]\<rparr>)"

definition append_event ::
  "string \<Rightarrow> string \<Rightarrow> string \<Rightarrow> string \<Rightarrow> string option \<Rightarrow> string option \<Rightarrow> datetime \<Rightarrow> metadata \<Rightarrow> vault_db \<Rightarrow> nat \<times> vault_db" where
  "append_event vault_id vault_name path event_type content_hash artifact_class now metadata d =
     (let sequence = next_rowid (map ev_sequence (db_events d))
      in (sequence, d\<lparr>db_events := db_events d @ [\<lparr>ev_sequence = sequence, ev_vault_id = vault_id, ev_vault_name = vault_name,
           ev_path = path, ev_event_type = event_type, ev_content_hash = content_hash, ev_artifact_class = artifact_class,
           ev_observed_at = now, ev_metadata_json = (if metadata = [] then None else Some (json_dumps True (JDict metadata)))\<rparr>]\<rparr>))"

definition same_file :: "VaultFile \<Rightarrow> VaultFile \<Rightarrow> bool" where
  "same_file r s \<longleftrightarrow> vf_vault_id r = vf_vault_id s \<and> vf_path r = vf_path s"

definition set_file :: "VaultFile \<Rightarrow> vault_db \<Rightarrow> vault_db" where
  "set_file row d = d\<lparr>db_files := map (\<lambda>r. if same_file r row then row else r) (db_files d)\<rparr>"

definition find_file :: "string \<Rightarrow> string \<Rightarrow> vault_db \<Rightarrow> VaultFile option" where
  "find_file vault_id path d = find (\<lambda>r. vf_vault_id r = vault_id \<and> vf_path r = path) (db_files d)"

text \<open>The counters of one refresh.\<close>

record refresh_counts =
  rc_seen :: "string list"
  rc_created :: nat
  rc_changed :: nat
  rc_unchanged :: nat
  rc_excluded :: nat
  rc_deleted :: nat
  rc_latest :: "nat option"
  rc_changed_paths :: "string list"
  rc_deleted_paths :: "string list"

definition no_counts :: refresh_counts where
  "no_counts = \<lparr>rc_seen = [], rc_created = 0, rc_changed = 0, rc_unchanged = 0, rc_excluded = 0, rc_deleted = 0,
     rc_latest = None, rc_changed_paths = [], rc_deleted_paths = []\<rparr>"

text \<open>What a file that was read does to its row and to the feed.\<close>

definition record_file ::
  "string \<Rightarrow> string \<Rightarrow> datetime \<Rightarrow> string \<Rightarrow> nat \<Rightarrow> nat \<Rightarrow> string \<Rightarrow> string \<Rightarrow> VaultFile option \<Rightarrow> refresh_counts \<Rightarrow> vault_db \<Rightarrow>
    refresh_counts \<times> vault_db" where
  "record_file vault_id name now relative_path bytes mtime artifact_class content_hash existing st d =
     (let event_type = event_type_of existing content_hash artifact_class
      in case existing of
           None \<Rightarrow>
             (case append_event vault_id name relative_path event_type (Some content_hash) (Some artifact_class) now [] d of
                (sequence, d) \<Rightarrow>
                  (st\<lparr>rc_latest := Some sequence, rc_created := rc_created st + 1,
                      rc_changed_paths := rc_changed_paths st @ [relative_path]\<rparr>,
                   d\<lparr>db_files := db_files d @ [\<lparr>vf_vault_id = vault_id, vf_path = relative_path, vf_vault_name = name,
                       vf_artifact_class = artifact_class, vf_size = bytes, vf_mtime_ns = mtime, vf_content_hash = content_hash,
                       vf_kind = ''file'', vf_change_sequence = sequence, vf_first_seen_at = now, vf_last_seen_at = now,
                       vf_changed_at = now, vf_deleted_at = None\<rparr>]\<rparr>))
         | Some row \<Rightarrow>
             if vf_content_hash row \<noteq> content_hash \<or> vf_deleted_at row \<noteq> None \<or> vf_artifact_class row \<noteq> artifact_class
             then (case append_event vault_id name relative_path event_type (Some content_hash) (Some artifact_class) now
                          [(''previous_hash'', JStr (vf_content_hash row))] d of
                (sequence, d) \<Rightarrow>
                  (st\<lparr>rc_latest := Some sequence,
                      rc_created := (if vf_deleted_at row \<noteq> None then rc_created st + 1 else rc_created st),
                      rc_changed := (if vf_deleted_at row \<noteq> None then rc_changed st else rc_changed st + 1),
                      rc_changed_paths := rc_changed_paths st @ [relative_path]\<rparr>,
                   set_file (row\<lparr>vf_vault_name := name, vf_artifact_class := artifact_class, vf_size := bytes, vf_mtime_ns := mtime,
                       vf_content_hash := content_hash, vf_change_sequence := sequence, vf_last_seen_at := now,
                       vf_changed_at := now, vf_deleted_at := None\<rparr>) d))
             else (st\<lparr>rc_unchanged := rc_unchanged st + 1\<rparr>,
                   set_file (row\<lparr>vf_vault_name := name, vf_artifact_class := artifact_class, vf_size := bytes,
                       vf_mtime_ns := mtime, vf_last_seen_at := now, vf_deleted_at := None\<rparr>) d))"

definition needs_hash :: "VaultFile option \<Rightarrow> nat \<Rightarrow> nat \<Rightarrow> string \<Rightarrow> bool" where
  "needs_hash existing bytes mtime artifact_class =
     (case existing of
        None \<Rightarrow> True
      | Some row \<Rightarrow> vf_deleted_at row \<noteq> None \<or> vf_size row \<noteq> bytes \<or> vf_mtime_ns row \<noteq> mtime \<or>
          vf_artifact_class row \<noteq> artifact_class)"

definition file_stat :: "path \<Rightarrow> vault_world \<Rightarrow> nat \<times> nat" where
  "file_stat p w = (case node_at w p of Some (NFile content mtime) \<Rightarrow> (length content, mtime) | _ \<Rightarrow> (0, 0))"

text \<open>
  \<open>known\<close> are the paths that had a row when the session began. A second file with the relative path of a file that got its
  row in this pass (a backslash in its name) violates the primary key.
\<close>

definition refresh_file ::
  "string list \<Rightarrow> path \<Rightarrow> string \<Rightarrow> string \<Rightarrow> datetime \<Rightarrow> string list \<Rightarrow> path \<Rightarrow> refresh_counts \<Rightarrow> refresh_counts io" where
  "refresh_file patterns vault_root vault_id name now known p st =
     (let relative_path = forward_slashes (relative_text vault_root p)
      in if matcher_matches patterns relative_path then vreturn (st\<lparr>rc_excluded := rc_excluded st + 1\<rparr>)
         else let st = st\<lparr>rc_seen := relative_path # rc_seen st\<rparr>; artifact_class = classify relative_path
         in vbind (asks (\<lambda>w. (file_stat p w, find_file vault_id relative_path (w_db w)))) (\<lambda>((bytes, mtime), row).
            let existing = (if relative_path \<in> set known then row else None)
            in if needs_hash existing bytes mtime artifact_class
               then vbind (hash_file_bytes p) (\<lambda>content_hash.
                 if existing = None \<and> row \<noteq> None
                 then vraise (PyError (IntegrityError ''UNIQUE constraint failed: vault_files.vault_id, vault_files.path''))
                 else change_db (record_file vault_id name now relative_path bytes mtime artifact_class content_hash existing st))
               else change_db (\<lambda>d. (st\<lparr>rc_unchanged := rc_unchanged st + 1\<rparr>,
                 case existing of None \<Rightarrow> d | Some r \<Rightarrow> set_file (r\<lparr>vf_last_seen_at := now, vf_vault_name := name\<rparr>) d))))"

definition delete_missing :: "string \<Rightarrow> string \<Rightarrow> datetime \<Rightarrow> VaultFile \<Rightarrow> refresh_counts \<times> vault_db \<Rightarrow> refresh_counts \<times> vault_db" where
  "delete_missing vault_id name now row sd =
     (case sd of (st, d) \<Rightarrow>
        if vf_path row \<in> set (rc_seen st) \<or> vf_deleted_at row \<noteq> None then (st, d)
        else (case append_event vault_id name (vf_path row) ''deleted'' (Some (vf_content_hash row))
                     (Some (vf_artifact_class row)) now [] d of
                (sequence, d) \<Rightarrow>
                  (st\<lparr>rc_latest := Some sequence, rc_deleted := rc_deleted st + 1,
                      rc_deleted_paths := rc_deleted_paths st @ [vf_path row]\<rparr>,
                   set_file (row\<lparr>vf_vault_name := name, vf_last_seen_at := now, vf_change_sequence := sequence,
                       vf_deleted_at := Some now\<rparr>) d)))"

definition vault_rows :: "string \<Rightarrow> vault_db \<Rightarrow> VaultFile list" where
  "vault_rows vault_id d = filter (\<lambda>r. vf_vault_id r = vault_id) (db_files d)"

definition refresh_vault :: "vault_env \<Rightarrow> path \<Rightarrow> string option \<Rightarrow> VaultStateRefreshResult io" where
  "refresh_vault e vault_path vault_name =
     (if \<not> env_vault_state_enabled e then vraise (PyError (RuntimeError ''vault_state_enabled is false''))
      else let vault_root = env_realpath e vault_path
      in vbind (asks (\<lambda>w. is_dir w vault_root)) (\<lambda>directory.
         if \<not> directory then vraise (PyError (ValueError (''Vault path is not a directory: '' @ path_text vault_root)))
         else let name = (case vault_name of None \<Rightarrow> last vault_root | Some n \<Rightarrow> if n = [] then last vault_root else n);
                  patterns = matcher_from_patterns (env_excluded_patterns e)
         in vbind (resolve_or_create_vault_identity e vault_root) (\<lambda>identity.
            let vault_id = vi_vault_id identity
            in vbind utc_now (\<lambda>now.
               vbind (in_session (
                 vbind (change_db (\<lambda>d. ((), register_vault vault_id name now d))) (\<lambda>_.
                 vbind (asks (\<lambda>w. (vault_rows vault_id (w_db w), files_below w vault_root))) (\<lambda>(existing_rows, found).
                 vbind (vfold (refresh_file patterns vault_root vault_id name now (map vf_path existing_rows)) found no_counts) (\<lambda>st.
                 change_db (\<lambda>d. fold (delete_missing vault_id name now) (sort_key vf_path existing_rows) (st, d))))))) (\<lambda>st.
               vreturn \<lparr>rr_vault_id = vault_id, rr_vault_name = name, rr_files_seen = length (remdups (rc_seen st)),
                 rr_files_created = rc_created st, rr_files_changed = rc_changed st, rr_files_deleted = rc_deleted st,
                 rr_files_unchanged = rc_unchanged st, rr_files_excluded = rc_excluded st, rr_latest_sequence = rc_latest st,
                 rr_changed_paths = rc_changed_paths st, rr_deleted_paths = rc_deleted_paths st\<rparr>)))))"

definition changes_since :: "nat \<Rightarrow> string option \<Rightarrow> nat option \<Rightarrow> vault_db \<Rightarrow> VaultFileEvent list" where
  "changes_since sequence vault_id limit d =
     (let rows = sort_key ev_sequence (filter (\<lambda>ev. sequence < ev_sequence ev \<and>
        (case vault_id of None \<Rightarrow> True | Some v \<Rightarrow> v = [] \<or> ev_vault_id ev = v)) (db_events d))
      in case limit of None \<Rightarrow> rows | Some n \<Rightarrow> take n rows)"

text \<open>\<open>refresh_all_vaults\<close>: a vault that fails is counted and passed over.\<close>

record refresh_all_result =
  ra_enabled :: bool
  ra_refreshed :: nat
  ra_failed :: nat
  ra_created :: nat
  ra_changed :: nat
  ra_deleted :: nat
  ra_latest :: "nat option"

definition refresh_one_of_all :: "vault_env \<Rightarrow> path \<Rightarrow> string \<Rightarrow> refresh_all_result \<Rightarrow> refresh_all_result io" where
  "refresh_one_of_all e data_root vault_name st w =
     (case refresh_vault e (data_root @ [vault_name]) (Some vault_name) w of
        (Inl _, w1) \<Rightarrow> (Inr (st\<lparr>ra_failed := ra_failed st + 1\<rparr>), w1)
      | (Inr r, w1) \<Rightarrow>
          (Inr (st\<lparr>ra_refreshed := ra_refreshed st + 1, ra_created := ra_created st + rr_files_created r,
             ra_changed := ra_changed st + rr_files_changed r, ra_deleted := ra_deleted st + rr_files_deleted r,
             ra_latest := (case rr_latest_sequence r of None \<Rightarrow> ra_latest st | Some s \<Rightarrow> Some s)\<rparr>), w1))"

text \<open>The first-level directories without an ignore file, in name order (\<open>discover_vaults\<close>).\<close>

definition discover_vaults :: "path \<Rightarrow> vault_world \<Rightarrow> string list" where
  "discover_vaults data_root w =
     sort (map last (filter (\<lambda>p. length p = Suc (length data_root) \<and> is_below data_root p \<and> is_dir w p \<and>
       \<not> path_exists w (p @ [''.vaultignore''])) (map fst (w_fs w))))"

definition refresh_all_vaults :: "vault_env \<Rightarrow> path \<Rightarrow> refresh_all_result io" where
  "refresh_all_vaults e data_root =
     (let none = \<lparr>ra_enabled = env_vault_state_enabled e, ra_refreshed = 0, ra_failed = 0, ra_created = 0, ra_changed = 0,
                  ra_deleted = 0, ra_latest = None\<rparr>
      in if \<not> env_vault_state_enabled e then vreturn none
         else vbind (asks (discover_vaults data_root)) (\<lambda>names. vfold (refresh_one_of_all e data_root) names none))"

section \<open>Revisions\<close>

record VaultFileRevision =
  rv_snapshot_id :: nat
  rv_activity_id :: string
  rv_activity_kind :: string
  rv_activity_source :: string
  rv_activity_label :: string
  rv_task_id :: "string option"
  rv_path :: string
  rv_operation :: string
  rv_exists :: bool
  rv_content_hash :: "string option"
  rv_snapshot_available :: bool
  rv_created_at :: datetime
  rv_expires_at :: "datetime option"

definition file_revision_item :: "VaultMutation \<Rightarrow> VaultActivity \<Rightarrow> FileSnapshot \<Rightarrow> VaultFileRevision" where
  "file_revision_item mutation activity captured =
     \<lparr>rv_snapshot_id = sn_id captured, rv_activity_id = va_activity_id activity, rv_activity_kind = va_kind activity,
      rv_activity_source = va_source activity, rv_activity_label = va_label activity, rv_task_id = va_task_id activity,
      rv_path = vm_path mutation, rv_operation = vm_operation mutation, rv_exists = sn_exists captured,
      rv_content_hash = sn_content_hash captured, rv_snapshot_available = (sn_exists captured \<and> given (sn_snapshot_ref captured)),
      rv_created_at = vm_created_at mutation, rv_expires_at = sn_expires_at captured\<rparr>"

text \<open>The join of the mutations of a vault with their activities and snapshots.\<close>

definition revision_rows :: "string \<Rightarrow> vault_db \<Rightarrow> (VaultMutation \<times> VaultActivity \<times> FileSnapshot) list" where
  "revision_rows vault_name d =
     [(m, a, s). m \<leftarrow> db_mutations d, a \<leftarrow> db_activities d, s \<leftarrow> db_file_snapshots d,
       va_activity_id a = vm_activity_id m \<and> vm_before_snapshot_id m = Some (sn_id s) \<and>
       va_vault_name a = vault_name \<and> vm_target_kind m = ''file'']"

definition unexpired :: "datetime \<Rightarrow> datetime option \<Rightarrow> bool" where
  "unexpired now expires_at = (case expires_at of None \<Rightarrow> True | Some t \<Rightarrow> now \<le> t)"

definition newest_first :: "(VaultMutation \<times> 'a) list \<Rightarrow> (VaultMutation \<times> 'a) list" where
  "newest_first rows = rev (sort_key (\<lambda>(m, _). vm_created_at m) (sort_key (\<lambda>(m, _). vm_id m) rows))"

definition list_file_revisions :: "string \<Rightarrow> string \<Rightarrow> int \<Rightarrow> bool \<Rightarrow> datetime \<Rightarrow> vault_db \<Rightarrow> VaultFileRevision list" where
  "list_file_revisions vault_name path limit include_expired now d =
     map (\<lambda>(m, a, s). file_revision_item m a s) (take (nat (min (max limit 1) 100)) (newest_first
       (filter (\<lambda>(m, a, s). vm_path m = path \<and> (include_expired \<or> unexpired now (sn_expires_at s))) (revision_rows vault_name d))))"

definition get_file_revision :: "string \<Rightarrow> nat \<Rightarrow> datetime \<Rightarrow> vault_db \<Rightarrow> VaultFileRevision option" where
  "get_file_revision vault_name snapshot_id now d =
     (case newest_first (filter (\<lambda>(m, a, s). sn_id s = snapshot_id \<and> unexpired now (sn_expires_at s)) (revision_rows vault_name d)) of
        [] \<Rightarrow> None
      | (m, a, s) # _ \<Rightarrow> Some (file_revision_item m a s))"

section \<open>Cleanup\<close>

record VaultStateCleanupResult =
  cl_activity_rows_deleted :: nat
  cl_mutation_rows_deleted :: nat
  cl_snapshot_rows_deleted :: nat
  cl_snapshot_files_deleted :: nat
  cl_snapshot_dirs_deleted :: nat

definition is_expired :: "datetime option \<Rightarrow> datetime \<Rightarrow> bool" where
  "is_expired expires_at now = (case expires_at of None \<Rightarrow> False | Some t \<Rightarrow> t \<le> now)"

text \<open>\<open>shutil.rmtree\<close> of a directory tree.\<close>

definition rmtree :: "path \<Rightarrow> unit io" where
  "rmtree p = vbind next_failure (\<lambda>failure w.
     case failure of
       Some f \<Rightarrow> (Inl (OSError (fail_message f)), w)
     | None \<Rightarrow> (Inr (), w\<lparr>w_fs := filter (\<lambda>(q, _). \<not> is_below p q) (w_fs w)\<rparr>))"

definition delete_snapshot_root :: "vault_env \<Rightarrow> path \<Rightarrow> path \<Rightarrow> (nat \<times> nat) io" where
  "delete_snapshot_root e snapshot_root snapshot_base =
     (let resolved_root = env_realpath e snapshot_root
      in if \<not> is_below snapshot_base resolved_root then vreturn (0, 0)
         else vbind (asks (\<lambda>w. (path_exists w resolved_root, is_dir w resolved_root))) (\<lambda>(present, directory).
           if resolved_root = snapshot_base \<or> \<not> present then vreturn (0, 0)
           else if \<not> directory then vbind (unlink resolved_root) (\<lambda>_. vreturn (1, 0))
           else vbind (asks (\<lambda>w. (length (files_below w resolved_root),
               length (filter (\<lambda>p. is_below resolved_root p \<and> p \<noteq> resolved_root \<and> is_dir w p) (map fst (w_fs w))) + 1))) (\<lambda>counts.
             vbind (rmtree resolved_root) (\<lambda>_. vreturn counts))))"

definition delete_snapshot_set :: "vault_env \<Rightarrow> path \<Rightarrow> SnapshotSet \<Rightarrow> nat \<times> nat \<Rightarrow> (nat \<times> nat) io" where
  "delete_snapshot_set e snapshot_base captured counts =
     vbind (delete_snapshot_root e (ss_snapshot_root captured) snapshot_base) (\<lambda>(files, dirs).
     change_db (\<lambda>d. ((fst counts + files, snd counts + dirs),
       d\<lparr>db_file_snapshots := filter (\<lambda>s. sn_snapshot_set_id s \<noteq> ss_id captured) (db_file_snapshots d),
         db_snapshot_sets := filter (\<lambda>s. ss_id s \<noteq> ss_id captured) (db_snapshot_sets d)\<rparr>)))"

definition cleanup_expired_vault_state :: "vault_env \<Rightarrow> datetime option \<Rightarrow> VaultStateCleanupResult io" where
  "cleanup_expired_vault_state e at_time =
     vbind (case at_time of None \<Rightarrow> utc_now | Some t \<Rightarrow> vreturn t) (\<lambda>cleanup_time.
     in_session (
       vbind (change_db (\<lambda>d. (length (filter (\<lambda>m. is_expired (vm_expires_at m) cleanup_time) (db_mutations d)),
         d\<lparr>db_mutations := filter (\<lambda>m. \<not> is_expired (vm_expires_at m) cleanup_time) (db_mutations d)\<rparr>))) (\<lambda>mutations.
       vbind (change_db (\<lambda>d.
         let expired = (\<lambda>a. is_expired (va_expires_at a) cleanup_time \<and> va_activity_id a \<notin> vm_activity_id ` set (db_mutations d))
         in (length (filter expired (db_activities d)), d\<lparr>db_activities := filter (\<lambda>a. \<not> expired a) (db_activities d)\<rparr>))) (\<lambda>activities.
       vbind (asks (\<lambda>w. filter (\<lambda>s. is_expired (ss_expires_at s) cleanup_time) (db_snapshot_sets (w_db w)))) (\<lambda>snapshots.
       vbind (vfold (delete_snapshot_set e (env_realpath e (snapshot_base_root e))) snapshots (0, 0)) (\<lambda>(files, dirs).
       vreturn \<lparr>cl_activity_rows_deleted = activities, cl_mutation_rows_deleted = mutations,
         cl_snapshot_rows_deleted = length snapshots, cl_snapshot_files_deleted = files, cl_snapshot_dirs_deleted = dirs\<rparr>))))))"

end
