(* ===== verification/Vault_Frames.thy ===== *)
theory Vault_Frames
  imports Vault_State
begin

text \<open>
  What an operation may do to the world, as a relation between the world before and after that every branch and every
  failure respects. A relation that is reflexive and transitive passes through the combinators; one that only looks at
  the database or only at some files is respected by the calls that leave these alone.
\<close>

definition keeps :: "(vault_world \<Rightarrow> vault_world \<Rightarrow> bool) \<Rightarrow> 'a io \<Rightarrow> bool" where
  "keeps R m \<longleftrightarrow> (\<forall>w. R w (snd (m w)))"

lemma keepsI: "(\<And>w r w'. m w = (r, w') \<Longrightarrow> R w w') \<Longrightarrow> keeps R m"
  unfolding keeps_def by (metis prod.collapse)

lemma keepsD: "keeps R m \<Longrightarrow> m w = (r, w') \<Longrightarrow> R w w'"
  unfolding keeps_def by (metis snd_conv)

locale io_frame =
  fixes R :: "vault_world \<Rightarrow> vault_world \<Rightarrow> bool"
  assumes frame_refl: "R w w"
    and frame_trans: "R w w' \<Longrightarrow> R w' w'' \<Longrightarrow> R w w''"
begin

lemma keeps_return: "keeps R (vreturn x)"
  by (simp add: keeps_def vreturn_def frame_refl)

lemma keeps_raise: "keeps R (vraise e)"
  by (simp add: keeps_def vraise_def frame_refl)

lemma keeps_asks: "keeps R (asks f)"
  by (simp add: keeps_def asks_def frame_refl)

lemma keeps_of_result: "keeps R (of_result r)"
  by (cases r) (simp_all add: keeps_def of_result_def frame_refl)

lemma keeps_bind:
  assumes "keeps R m" and "\<And>x. keeps R (f x)"
  shows "keeps R (vbind m f)"
proof (rule keepsI)
  fix w r w'
  assume run: "vbind m f w = (r, w')"
  obtain r1 w1 where m: "m w = (r1, w1)" by fastforce
  show "R w w'"
  proof (cases r1)
    case (Inl e)
    then show ?thesis using run m keepsD [OF assms(1) m] by (simp add: vbind_def)
  next
    case (Inr x)
    then have "f x w1 = (r, w')" using run m by (simp add: vbind_def)
    then show ?thesis using frame_trans keepsD [OF assms(1) m] keepsD [OF assms(2)] by metis
  qed
qed

lemma keeps_try:
  assumes "keeps R m" and "\<And>e. keeps R (h e)"
  shows "keeps R (vtry m h)"
proof (rule keepsI)
  fix w r w'
  assume run: "vtry m h w = (r, w')"
  obtain r1 w1 where m: "m w = (r1, w1)" by fastforce
  show "R w w'"
  proof (cases r1)
    case (Inl e)
    then have "h e w1 = (r, w')" using run m by (simp add: vtry_def)
    then show ?thesis using frame_trans keepsD [OF assms(1) m] keepsD [OF assms(2)] by metis
  next
    case (Inr x)
    then show ?thesis using run m keepsD [OF assms(1) m] by (simp add: vtry_def)
  qed
qed

lemma keeps_fold:
  assumes "\<And>x s. x \<in> set xs \<Longrightarrow> keeps R (f x s)"
  shows "keeps R (vfold f xs s)"
  using assms by (induction xs arbitrary: s) (auto intro: keeps_return keeps_bind)

lemmas keeps_combinators = keeps_return keeps_raise keeps_asks keeps_of_result keeps_bind keeps_try keeps_fold

end

text \<open>Relations that hold whenever the database stays as it is.\<close>

locale db_frame = io_frame +
  assumes same_db: "w_db w' = w_db w \<Longrightarrow> R w w'"
begin

lemma keeps_next_failure: "keeps R next_failure"
  by (auto simp: keeps_def next_failure_def intro!: same_db split: list.splits)

lemma keeps_clock: "keeps R utc_now"
  by (auto simp: keeps_def utc_now_def intro!: same_db)

lemma keeps_uuid: "keeps R fresh_uuid"
  by (auto simp: keeps_def fresh_uuid_def intro!: same_db)

lemma keeps_after_failure:
  assumes "\<And>failure w. w_db (snd (f failure w)) = w_db w"
  shows "keeps R (vbind next_failure f)"
  by (rule keeps_bind [OF keeps_next_failure]) (simp add: keeps_def same_db assms)

lemma keeps_read_file: "keeps R (read_file p)"
  unfolding read_file_def by (rule keeps_after_failure) (simp split: option.splits)

lemma keeps_hash_file: "keeps R (hash_file_bytes p)"
  unfolding hash_file_bytes_def by (intro keeps_bind keeps_read_file keeps_return)

lemma keeps_write_node: "keeps R (write_node p c t)"
  unfolding write_node_def by (rule keeps_after_failure) (simp add: put_node_def split: option.splits)

lemma keeps_write_text: "keeps R (write_text p c)"
  unfolding write_text_def write_bytes_def by (intro keeps_bind keeps_clock keeps_write_node)

lemma keeps_mkdir: "keeps R (mkdir_parents p)"
proof -
  have "w_db (make_dirs ps w) = w_db w" for ps w
    by (induction ps arbitrary: w) (simp_all add: make_dirs_def put_node_def)
  then show ?thesis
    unfolding mkdir_parents_def by (intro keeps_after_failure) (simp split: option.splits)
qed

lemma keeps_load_metadata: "keeps R (load_metadata e p)"
  unfolding load_metadata_def
  by (intro keeps_bind keeps_read_file) (auto intro!: keeps_combinators split: option.splits json.splits)

lemma keeps_identity: "keeps R (resolve_or_create_vault_identity e p)"
proof -
  have "keeps R (resolve_or_create_locked e q)" for q
    unfolding resolve_or_create_locked_def
    by (intro keeps_bind keeps_asks)
      (auto simp: Let_def intro!: keeps_combinators keeps_load_metadata keeps_uuid keeps_clock keeps_mkdir keeps_write_text)
  then show ?thesis by (simp add: resolve_or_create_vault_identity_def)
qed

text \<open>A session that fails leaves the database as it was.\<close>

lemma keeps_session:
  assumes "keeps R m"
  shows "keeps R (in_session m)"
proof (rule keepsI)
  fix w r w'
  assume run: "in_session m w = (r, w')"
  obtain r1 w1 where m: "m w = (r1, w1)" by fastforce
  show "R w w'"
  proof (cases r1)
    case (Inl e)
    then show ?thesis using run m by (auto simp: in_session_def intro!: same_db)
  next
    case (Inr x)
    obtain f w2 where commit: "next_failure w1 = (Inr f, w2)" by (cases "w_failures w1") (auto simp: next_failure_def)
    then have "w_db w2 = w_db w1" by (auto simp: next_failure_def split: list.splits)
    then have "R w w2" using frame_trans keepsD [OF assms m] same_db by metis
    then show ?thesis
      using run m Inr commit by (cases f) (auto simp: in_session_def intro!: same_db)
  qed
qed

end

end
