(* ===== verification/Vault_Feed.thy ===== *)
theory Vault_Feed
  imports Vault_Manifest Vault_Frames
begin

text \<open>
  The change feed as a specification of the manifest: every refresh, also one that fails, keeps the table of files equal to
  the replay of the events, and sequence numbers only grow. A reader that keeps a cursor therefore knows the manifest.
\<close>

section \<open>Specification\<close>

type_synonym file_key = "string \<times> string"

definition replay_event :: "VaultFileEvent \<Rightarrow> (file_key \<rightharpoonup> string option \<times> string option) \<Rightarrow> (file_key \<rightharpoonup> string option \<times> string option)" where
  "replay_event ev m = m((ev_vault_id ev, ev_path ev) :=
     (if ev_event_type ev = ''deleted'' then None else Some (ev_content_hash ev, ev_artifact_class ev)))"

definition replay :: "VaultFileEvent list \<Rightarrow> (file_key \<rightharpoonup> string option \<times> string option) \<Rightarrow> (file_key \<rightharpoonup> string option \<times> string option)" where
  "replay evs m = fold replay_event evs m"

definition live_entry :: "VaultFile \<Rightarrow> (string option \<times> string option) option" where
  "live_entry row = (if vf_deleted_at row = None then Some (Some (vf_content_hash row), Some (vf_artifact_class row)) else None)"

text \<open>The files the manifest has as present, with their hash and class.\<close>

definition manifest :: "vault_db \<Rightarrow> (file_key \<rightharpoonup> string option \<times> string option)" where
  "manifest d k = Option.bind (find_file (fst k) (snd k) d) live_entry"

definition latest_sequence :: "vault_db \<Rightarrow> nat" where
  "latest_sequence d = fold max (map ev_sequence (db_events d)) 0"

text \<open>The primary key of the table of files.\<close>

definition file_keys :: "vault_db \<Rightarrow> file_key list" where
  "file_keys d = map (\<lambda>r. (vf_vault_id r, vf_path r)) (db_files d)"

definition feed_ok :: "vault_db \<Rightarrow> bool" where
  "feed_ok d \<longleftrightarrow> distinct (file_keys d) \<and> map ev_sequence (db_events d) = [1..<Suc (length (db_events d))] \<and>
     manifest d = replay (db_events d) Map.empty"

text \<open>One database grows out of another by appended events.\<close>

definition feed_extends :: "vault_db \<Rightarrow> vault_db \<Rightarrow> bool" where
  "feed_extends d d' \<longleftrightarrow> (feed_ok d \<longrightarrow> feed_ok d' \<and> (\<exists>evs. db_events d' = db_events d @ evs))"

lemma feed_extends_refl [simp]: "feed_extends d d"
  by (simp add: feed_extends_def)

lemma feed_extends_trans [trans]: "feed_extends d d' \<Longrightarrow> feed_extends d' d'' \<Longrightarrow> feed_extends d d''"
  unfolding feed_extends_def by auto

lemma fold_max_upt: "fold max [1..<Suc n] 0 = n"
  by (induction n) auto

lemma feed_latest: "feed_ok d \<Longrightarrow> latest_sequence d = length (db_events d)"
  by (simp only: feed_ok_def latest_sequence_def fold_max_upt)

lemma feed_next: "feed_ok d \<Longrightarrow> next_rowid (map ev_sequence (db_events d)) = Suc (length (db_events d))"
  by (simp only: feed_ok_def next_rowid_def fold_max_upt)

section \<open>Rows\<close>

lemma find_map_key:
  assumes "\<forall>r\<in>set rows. P (f r) = P r"
  shows "find P (map f rows) = map_option f (find P rows)"
  using assms by (induction rows) auto

lemma find_set_file:
  assumes "find_file (vf_vault_id row) (vf_path row) d \<noteq> None"
  shows "find_file v p (set_file row d) = (if vf_vault_id row = v \<and> vf_path row = p then Some row else find_file v p d)"
proof -
  have map: "find_file v p (set_file row d) =
      map_option (\<lambda>r. if same_file r row then row else r) (find_file v p d)"
    unfolding find_file_def set_file_def by (simp add: find_map_key same_file_def)
  have "find_file v p d = Some r \<Longrightarrow> vf_vault_id r = v \<and> vf_path r = p" for r
    by (auto simp: find_file_def find_Some_iff)
  then show ?thesis
    using assms unfolding map by (cases "find_file v p d") (auto simp: same_file_def)
qed

lemma find_file_key: "find_file v p d = Some row \<Longrightarrow> vf_vault_id row = v \<and> vf_path row = p"
  by (auto simp: find_file_def find_Some_iff)

lemma find_append_option: "find P (xs @ ys) = (case find P xs of None \<Rightarrow> find P ys | Some x \<Rightarrow> Some x)"
  by (induction xs) auto

lemma manifest_set_file:
  assumes "find_file v p d = Some old" and "vf_vault_id row = v" and "vf_path row = p"
  shows "manifest (set_file row d) = (manifest d)((v, p) := live_entry row)"
  using assms by (auto simp: manifest_def find_set_file)

lemma manifest_new_file:
  assumes "find_file v p d = None" and "vf_vault_id row = v" and "vf_path row = p"
  shows "manifest (d\<lparr>db_files := db_files d @ [row]\<rparr>) = (manifest d)((v, p) := live_entry row)"
  using assms by (auto simp: manifest_def find_file_def find_append_option split: option.splits)

lemma file_keys_set_file [simp]: "file_keys (set_file row d) = file_keys d"
  by (auto simp: file_keys_def set_file_def same_file_def)

lemma find_file_None: "find_file v p d = None \<longleftrightarrow> (v, p) \<notin> set (file_keys d)"
  by (auto simp: find_file_def find_None_iff file_keys_def)

lemma file_keys_new [simp]:
  "file_keys (d\<lparr>db_files := db_files d @ [row]\<rparr>) = file_keys d @ [(vf_vault_id row, vf_path row)]"
  by (simp add: file_keys_def)

lemma find_file_unique:
  assumes "distinct (file_keys d)" and "row \<in> set (db_files d)"
  shows "find_file (vf_vault_id row) (vf_path row) d = Some row"
proof -
  have "r \<in> set (db_files d) \<Longrightarrow> vf_vault_id r = vf_vault_id row \<Longrightarrow> vf_path r = vf_path row \<Longrightarrow> r = row" for r
    using assms inj_onD [of "\<lambda>r. (vf_vault_id r, vf_path r)" "set (db_files d)" r row]
    by (simp add: file_keys_def distinct_map)
  moreover obtain r where "find_file (vf_vault_id row) (vf_path row) d = Some r"
    using assms(2) by (cases "find_file (vf_vault_id row) (vf_path row) d") (auto simp: find_file_None file_keys_def)
  moreover have "r \<in> set (db_files d)" using calculation(2) by (auto simp: find_file_def find_Some_iff)
  ultimately show ?thesis using find_file_key by metis
qed

section \<open>One file\<close>

text \<open>An event and the row it describes, written together.\<close>

lemma feed_extends_event:
  assumes "append_event v name p t h c now md d = (sequence, d1)"
    and "db_events d2 = db_events d1"
    and "manifest d2 = (manifest d)((v, p) := (if t = ''deleted'' then None else Some (h, c)))"
    and "distinct (file_keys d) \<longrightarrow> distinct (file_keys d2)"
  shows "feed_extends d d2"
proof (unfold feed_extends_def, intro impI conjI)
  assume ok: "feed_ok d"
  obtain ev where ev: "db_events d1 = db_events d @ [ev]" "ev_sequence ev = Suc (length (db_events d))"
      "ev_vault_id ev = v" "ev_path ev = p" "ev_event_type ev = t" "ev_content_hash ev = h" "ev_artifact_class ev = c"
    using assms(1) feed_next [OF ok] by (auto simp: append_event_def Let_def)
  then show "\<exists>evs. db_events d2 = db_events d @ evs" using assms(2) by auto
  show "feed_ok d2"
    using ok ev assms(2,3,4) by (auto simp: feed_ok_def replay_def replay_event_def)
qed

lemma feed_extends_same:
  assumes "db_events d2 = db_events d" and "manifest d2 = manifest d" and "distinct (file_keys d) \<longrightarrow> distinct (file_keys d2)"
  shows "feed_extends d d2"
  using assms by (auto simp: feed_extends_def feed_ok_def)

lemma append_event_files: "append_event v name p t h c now md d = (sequence, d1) \<Longrightarrow> find_file a b d1 = find_file a b d"
  by (auto simp: append_event_def Let_def find_file_def)

lemma append_event_keys: "append_event v name p t h c now md d = (sequence, d1) \<Longrightarrow> file_keys d1 = file_keys d"
  by (auto simp: append_event_def Let_def file_keys_def)

lemma append_event_manifest: "append_event v name p t h c now md d = (sequence, d1) \<Longrightarrow> manifest d1 = manifest d"
  by (simp add: manifest_def append_event_files fun_eq_iff)

lemma event_type_not_deleted: "event_type_of existing h c \<noteq> ''deleted''"
  by (auto simp: event_type_of_def split: option.splits)

lemma set_file_events [simp]: "db_events (set_file row d) = db_events d"
  by (simp add: set_file_def)

lemma record_file_extends:
  assumes "existing = find_file v p d"
    and "record_file v name now p bytes mtime c h existing st d = (st', d')"
  shows "feed_extends d d'"
proof (cases existing)
  case None
  then obtain sequence d1 where app: "append_event v name p (event_type_of existing h c) (Some h) (Some c) now [] d = (sequence, d1)"
    by (cases "append_event v name p (event_type_of existing h c) (Some h) (Some c) now [] d")
  then have "db_events d' = db_events d1"
      "manifest d' = (manifest d1)((v, p) := Some (Some h, Some c))" "file_keys d' = file_keys d @ [(v, p)]"
    using assms None append_event_files [OF app, of v p] append_event_keys [OF app]
    by (auto simp: record_file_def Let_def live_entry_def manifest_new_file [of v p d1])
  moreover have "(v, p) \<notin> set (file_keys d)" using None assms(1) by (simp add: find_file_None)
  ultimately show ?thesis
    using feed_extends_event [OF app] event_type_not_deleted append_event_manifest [OF app] by simp
next
  case (Some row)
  have found: "find_file v p d = Some row" using Some assms(1) by simp
  note key = find_file_key [OF found]
  show ?thesis
  proof (cases "vf_content_hash row \<noteq> h \<or> vf_deleted_at row \<noteq> None \<or> vf_artifact_class row \<noteq> c")
    case True
    let ?md = "[(''previous_hash'', JStr (vf_content_hash row))]"
    obtain sequence d1 where app: "append_event v name p (event_type_of existing h c) (Some h) (Some c) now ?md d = (sequence, d1)"
      by (cases "append_event v name p (event_type_of existing h c) (Some h) (Some c) now ?md d")
    have "find_file v p d1 = Some row" using append_event_files [OF app] found by simp
    then have "db_events d' = db_events d1" "manifest d' = (manifest d1)((v, p) := Some (Some h, Some c))" "file_keys d' = file_keys d"
      using assms(2) Some True app key append_event_keys [OF app]
      by (auto simp: record_file_def Let_def live_entry_def manifest_set_file [of v p d1 row])
    then show ?thesis
      using feed_extends_event [OF app] event_type_not_deleted append_event_manifest [OF app] by simp
  next
    case False
    then have "d' = set_file (row\<lparr>vf_vault_name := name, vf_artifact_class := c, vf_size := bytes,
        vf_mtime_ns := mtime, vf_last_seen_at := now, vf_deleted_at := None\<rparr>) d"
      using assms(2) Some by (simp add: record_file_def Let_def)
    then show ?thesis
      using found key False
      by (intro feed_extends_same) (auto simp: manifest_set_file [of v p d row] live_entry_def manifest_def)
  qed
qed

lemma delete_missing_extends:
  assumes "find_file v (vf_path row) d = Some row \<or> vf_path row \<in> set (rc_seen st)"
    and "vf_vault_id row = v" and "delete_missing v name now row (st, d) = (st', d')"
  shows "feed_extends d d' \<and> rc_seen st' = rc_seen st"
proof (cases "vf_path row \<in> set (rc_seen st) \<or> vf_deleted_at row \<noteq> None")
  case True
  then show ?thesis using assms(3) by (auto simp: delete_missing_def)
next
  case False
  with assms(1) have found: "find_file v (vf_path row) d = Some row" by simp
  obtain sequence d1 where app: "append_event v name (vf_path row) ''deleted'' (Some (vf_content_hash row))
      (Some (vf_artifact_class row)) now [] d = (sequence, d1)"
    by (cases "append_event v name (vf_path row) ''deleted'' (Some (vf_content_hash row)) (Some (vf_artifact_class row)) now [] d")
  have "find_file v (vf_path row) d1 = Some row" using append_event_files [OF app] found by simp
  then have "db_events d' = db_events d1" "manifest d' = (manifest d1)((v, vf_path row) := None)" "rc_seen st' = rc_seen st"
      "file_keys d' = file_keys d"
    using assms(2,3) False app append_event_keys [OF app]
    by (auto simp: delete_missing_def live_entry_def manifest_set_file [of v "vf_path row" d1 row])
  then show ?thesis
    using feed_extends_event [OF app] append_event_manifest [OF app] by simp
qed


section \<open>A refresh\<close>

interpretation feed: db_frame "\<lambda>w w'. feed_extends (w_db w) (w_db w')"
  by unfold_locales (simp_all add: feed_extends_trans)

interpretation rows: db_frame "\<lambda>w w'. w_db w' = w_db w"
  by unfold_locales simp_all

text \<open>The effect of one file: unseen rows stay.\<close>

definition rows_kept :: "string \<Rightarrow> string list \<Rightarrow> vault_db \<Rightarrow> vault_db \<Rightarrow> bool" where
  "rows_kept v seen d d' \<longleftrightarrow> (\<forall>p. p \<notin> set seen \<longrightarrow> find_file v p d' = find_file v p d)"

lemma record_file_rows:
  assumes "existing = find_file v p d" and "record_file v name now p bytes mtime c h existing st d = (st', d')"
  shows "rows_kept v [p] d d' \<and> rc_seen st' = rc_seen st"
proof (cases existing)
  case None
  then obtain sequence d1 where app: "append_event v name p (event_type_of existing h c) (Some h) (Some c) now [] d = (sequence, d1)"
    by (cases "append_event v name p (event_type_of existing h c) (Some h) (Some c) now [] d")
  show ?thesis
    using assms None app append_event_files [OF app]
    by (auto simp: record_file_def Let_def rows_kept_def find_file_def find_append_option split: option.splits)
next
  case (Some row)
  have found: "find_file v p d = Some row" using Some assms(1) by simp
  let ?md = "[(''previous_hash'', JStr (vf_content_hash row))]"
  obtain sequence d1 where app: "append_event v name p (event_type_of existing h c) (Some h) (Some c) now ?md d = (sequence, d1)"
    by (cases "append_event v name p (event_type_of existing h c) (Some h) (Some c) now ?md d")
  have "find_file a b d1 = find_file a b d" for a b using append_event_files [OF app] .
  then show ?thesis
    using assms(2) Some app found find_file_key [OF found]
    by (auto simp: record_file_def Let_def rows_kept_def find_set_file split: if_splits)
qed

lemma hash_same_db: "hash_file_bytes p w = (r, w') \<Longrightarrow> w_db w' = w_db w"
  using keepsD [OF rows.keeps_hash_file] .

lemma refresh_file_effect:
  assumes "refresh_file patterns vault_root v name now known p st w = (r, w')"
  shows "feed_extends (w_db w) (w_db w') \<and>
    (\<forall>st'. r = Inr st' \<longrightarrow> set (rc_seen st) \<subseteq> set (rc_seen st') \<and> rows_kept v (rc_seen st') (w_db w) (w_db w'))"
proof -
  let ?p = "forward_slashes (relative_text vault_root p)"
  let ?row = "find_file v ?p (w_db w)"
  let ?existing = "if ?p \<in> set known then ?row else None"
  obtain bytes mtime where stat: "file_stat p w = (bytes, mtime)" by fastforce
  consider (excluded) "matcher_matches patterns ?p"
    | (hash) "\<not> matcher_matches patterns ?p" "needs_hash ?existing bytes mtime (classify ?p)"
    | (same) "\<not> matcher_matches patterns ?p" "\<not> needs_hash ?existing bytes mtime (classify ?p)"
    by blast
  then show ?thesis
  proof cases
    case excluded
    then have "r = Inr (st\<lparr>rc_excluded := rc_excluded st + 1\<rparr>)" "w' = w"
      using assms unfolding refresh_file_def Let_def by (simp_all only: if_True vreturn_def prod.inject)
    then show ?thesis by (simp add: rows_kept_def)
  next
    case same
    then obtain row where row: "?existing = Some row" by (cases ?existing) (auto simp: needs_hash_def)
    then have found: "find_file v ?p (w_db w) = Some row" by (simp split: if_splits)
    have w': "w_db w' = set_file (row\<lparr>vf_last_seen_at := now, vf_vault_name := name\<rparr>) (w_db w)"
        "r = Inr (st\<lparr>rc_seen := ?p # rc_seen st, rc_unchanged := rc_unchanged st + 1\<rparr>)"
      using assms same row stat by (auto simp: refresh_file_def vbind_def asks_def change_db_def Let_def)
    have "feed_extends (w_db w) (w_db w')"
      unfolding w'(1) using found find_file_key [OF found]
      by (intro feed_extends_same) (auto simp: manifest_set_file [OF found] live_entry_def manifest_def)
    then show ?thesis
      using found find_file_key [OF found] by (auto simp: w' rows_kept_def find_set_file)
  next
    case hash
    obtain rh w1 where read: "hash_file_bytes p w = (rh, w1)" by fastforce
    then have db1: "w_db w1 = w_db w" by (rule hash_same_db)
    show ?thesis
    proof (cases rh)
      case (Inl e)
      then show ?thesis
        using assms hash stat read db1 by (auto simp: refresh_file_def vbind_def asks_def Let_def)
    next
      case (Inr h)
      show ?thesis
      proof (cases "?existing = None \<and> ?row \<noteq> None")
        case True
        then show ?thesis
          using assms hash stat read db1 Inr by (auto simp: refresh_file_def vbind_def asks_def vraise_def Let_def)
      next
        case False
        then have row: "?existing = find_file v ?p (w_db w1)" by (auto simp: db1)
        let ?st = "st\<lparr>rc_seen := ?p # rc_seen st\<rparr>"
        obtain st' d' where rec: "record_file v name now ?p bytes mtime (classify ?p) h ?existing ?st (w_db w1) = (st', d')"
          by fastforce
        have "r = Inr st' \<and> w_db w' = d'"
          using assms hash stat read Inr False rec by (auto simp: refresh_file_def vbind_def asks_def change_db_def Let_def)
        then show ?thesis
          using record_file_extends [OF row rec] record_file_rows [OF row rec] by (auto simp: db1 rows_kept_def)
      qed
    qed
  qed
qed

lemma refresh_files_effect:
  assumes "vfold (refresh_file patterns vault_root v name now known) ps st w = (r, w')"
  shows "feed_extends (w_db w) (w_db w') \<and>
    (\<forall>st'. r = Inr st' \<longrightarrow> set (rc_seen st) \<subseteq> set (rc_seen st') \<and> rows_kept v (rc_seen st') (w_db w) (w_db w'))"
  using assms
proof (induction ps arbitrary: st w)
  case Nil
  then show ?case by (auto simp: vreturn_def rows_kept_def)
next
  case (Cons p ps)
  obtain r1 w1 where one: "refresh_file patterns vault_root v name now known p st w = (r1, w1)" by fastforce
  note effect = refresh_file_effect [OF one]
  show ?case
  proof (cases r1)
    case (Inl e)
    then show ?thesis using Cons.prems one effect by (auto simp: vbind_def)
  next
    case (Inr st1)
    then have rest: "vfold (refresh_file patterns vault_root v name now known) ps st1 w1 = (r, w')"
      using Cons.prems one by (simp add: vbind_def)
    note ih = Cons.IH [OF rest]
    have "feed_extends (w_db w) (w_db w')" using effect ih feed_extends_trans by blast
    moreover have "set (rc_seen st) \<subseteq> set (rc_seen st')" "rows_kept v (rc_seen st') (w_db w) (w_db w')" if "r = Inr st'" for st'
      using effect ih that Inr by (auto simp: rows_kept_def)
    ultimately show ?thesis by blast
  qed
qed

lemma delete_missing_rows:
  assumes "find_file v (vf_path row) d = Some row \<or> vf_path row \<in> set (rc_seen st)"
    and "vf_vault_id row = v" and "delete_missing v name now row (st, d) = (st', d')"
  shows "rows_kept v [vf_path row] d d'"
proof (cases "vf_path row \<in> set (rc_seen st) \<or> vf_deleted_at row \<noteq> None")
  case True
  then show ?thesis using assms(3) by (auto simp: delete_missing_def rows_kept_def)
next
  case False
  obtain sequence d1 where app: "append_event v name (vf_path row) ''deleted'' (Some (vf_content_hash row))
      (Some (vf_artifact_class row)) now [] d = (sequence, d1)"
    by (cases "append_event v name (vf_path row) ''deleted'' (Some (vf_content_hash row)) (Some (vf_artifact_class row)) now [] d")
  have "find_file a b d1 = find_file a b d" for a b using append_event_files [OF app] .
  then show ?thesis
    using assms False app by (auto simp: delete_missing_def rows_kept_def find_set_file)
qed

lemma deletes_extend:
  assumes "\<forall>row\<in>set rs. vf_vault_id row = v \<and> (find_file v (vf_path row) d = Some row \<or> vf_path row \<in> set (rc_seen st))"
    and "distinct (map vf_path rs)"
  shows "feed_extends d (snd (fold (delete_missing v name now) rs (st, d)))"
  using assms
proof (induction rs arbitrary: st d)
  case (Cons row rs)
  obtain st1 d1 where one: "delete_missing v name now row (st, d) = (st1, d1)" by fastforce
  have row: "find_file v (vf_path row) d = Some row \<or> vf_path row \<in> set (rc_seen st)" "vf_vault_id row = v"
    using Cons.prems(1) by auto
  note effect = delete_missing_extends [OF row one] delete_missing_rows [OF row one]
  have "\<forall>x\<in>set rs. vf_path x \<noteq> vf_path row" using Cons.prems(2) by (auto simp: image_iff)
  then have "feed_extends d1 (snd (fold (delete_missing v name now) rs (st1, d1)))"
    using Cons.prems effect by (intro Cons.IH) (auto simp: rows_kept_def)
  then show ?case using effect one feed_extends_trans by auto
qed simp

lemma register_vault_feed: "db_files (register_vault v name now d) = db_files d" "db_events (register_vault v name now d) = db_events d"
  by (simp_all add: register_vault_def)

lemma refresh_session_feeds:
  "keeps (\<lambda>w w'. feed_extends (w_db w) (w_db w')) (
     vbind (change_db (\<lambda>d. ((), register_vault v name now d))) (\<lambda>_.
     vbind (asks (\<lambda>w. (vault_rows v (w_db w), files_below w vault_root))) (\<lambda>(existing_rows, found).
     vbind (vfold (refresh_file patterns vault_root v name now (map vf_path existing_rows)) found no_counts) (\<lambda>st.
     change_db (\<lambda>d. fold (delete_missing v name now) (sort_key vf_path existing_rows) (st, d))))))"
  (is "keeps ?R ?body")
proof (rule keepsI, unfold feed_extends_def, intro impI)
  fix w r w'
  assume run: "?body w = (r, w')" and ok: "feed_ok (w_db w)"
  define w0 where "w0 = w\<lparr>w_db := register_vault v name now (w_db w)\<rparr>"
  have same: "find_file a b (w_db w0) = find_file a b (w_db w)" "file_keys (w_db w0) = file_keys (w_db w)" for a b
    by (simp_all add: w0_def find_file_def file_keys_def register_vault_feed)
  then have start: "feed_extends (w_db w) (w_db w0)"
    by (intro feed_extends_same) (simp_all add: w0_def register_vault_feed manifest_def fun_eq_iff find_file_def)
  let ?rows = "vault_rows v (w_db w0)"
  obtain r1 w1 where files: "vfold (refresh_file patterns vault_root v name now (map vf_path ?rows)) (files_below w0 vault_root)
      no_counts w0 = (r1, w1)" by fastforce
  note effect = refresh_files_effect [OF files]
  have "feed_extends (w_db w) (w_db w')"
  proof (cases r1)
    case (Inl e)
    then have "w' = w1" using run files by (simp add: vbind_def change_db_def asks_def w0_def)
    then show ?thesis using start effect feed_extends_trans by blast
  next
    case (Inr st)
    have keys: "distinct (file_keys (w_db w0))" using ok same by (simp add: feed_ok_def)
    then have "find_file v (vf_path row) (w_db w0) = Some row" if "row \<in> set ?rows" for row
      using find_file_unique [OF keys, of row] that by (auto simp: vault_rows_def)
    then have kept: "\<forall>row\<in>set (sort_key vf_path ?rows). vf_vault_id row = v \<and>
        (find_file v (vf_path row) (w_db w1) = Some row \<or> vf_path row \<in> set (rc_seen st))"
      using effect Inr by (auto simp: rows_kept_def vault_rows_def)
    have "inj_on vf_path (set ?rows)"
      using keys by (auto simp: file_keys_def distinct_map vault_rows_def inj_on_def)
    moreover have "distinct ?rows" using keys by (auto simp: file_keys_def distinct_map vault_rows_def)
    ultimately have "distinct (map vf_path (sort_key vf_path ?rows))" by (simp add: distinct_map)
    then have "feed_extends (w_db w1) (snd (fold (delete_missing v name now) (sort_key vf_path ?rows) (st, w_db w1)))"
      using kept by (intro deletes_extend)
    moreover have "w_db w' = snd (fold (delete_missing v name now) (sort_key vf_path ?rows) (st, w_db w1))"
      using run files Inr by (auto simp: vbind_def change_db_def asks_def w0_def split: prod.splits)
    ultimately show ?thesis using start effect feed_extends_trans by metis
  qed
  then show "feed_ok (w_db w') \<and> (\<exists>evs. db_events (w_db w') = db_events (w_db w) @ evs)"
    using ok by (simp add: feed_extends_def)
qed

lemma refresh_feeds: "keeps (\<lambda>w w'. feed_extends (w_db w) (w_db w')) (refresh_vault e vault_path vault_name)"
  unfolding refresh_vault_def Let_def
  by (auto intro!: feed.keeps_combinators feed.keeps_identity feed.keeps_clock feed.keeps_session refresh_session_feeds)

section \<open>Readers of the feed\<close>

text \<open>
  The database over time: refreshes of any vault, under any settings and failures, and changes of the other tables.
\<close>

inductive feed_step :: "vault_db \<Rightarrow> vault_db \<Rightarrow> bool" where
  refresh: "feed_step (w_db w) (w_db (snd (refresh_vault e vault_path vault_name w)))"
| elsewhere: "db_files d' = db_files d \<Longrightarrow> db_events d' = db_events d \<Longrightarrow> feed_step d d'"

lemma feed_step_extends: "feed_step d d' \<Longrightarrow> feed_extends d d'"
proof (induction rule: feed_step.induct)
  case (refresh w e vault_path vault_name)
  then show ?case using refresh_feeds by (simp add: keeps_def)
next
  case (elsewhere d' d)
  then show ?case by (intro feed_extends_same) (simp_all add: manifest_def find_file_def file_keys_def fun_eq_iff)
qed

lemma feed_run_extends: "feed_step\<^sup>*\<^sup>* d d' \<Longrightarrow> feed_extends d d'"
  by (induction rule: rtranclp_induct) (auto intro: feed_step_extends feed_extends_trans)

lemma empty_feed_ok: "feed_ok empty_vault_db"
  by (simp add: feed_ok_def empty_vault_db_def manifest_def find_file_def file_keys_def replay_def fun_eq_iff)

lemma changes_since_latest:
  assumes "feed_ok d'" and "db_events d' = db_events d @ evs" and "feed_ok d"
  shows "changes_since (latest_sequence d) None None d' = evs"
proof -
  let ?n = "length (db_events d)" and ?m = "length evs"
  have old: "map ev_sequence (db_events d) = [1..<Suc ?n]" using assms(3) by (simp add: feed_ok_def)
  have "map ev_sequence (db_events d) @ map ev_sequence evs = [1..<Suc ?n] @ [Suc ?n..<Suc (?n + ?m)]"
    using assms(1,2) upt_add_eq_append [of 1 "Suc ?n" ?m] by (simp add: feed_ok_def)
  then have new: "map ev_sequence evs = [Suc ?n..<Suc (?n + ?m)]" using old by simp
  have "\<forall>ev\<in>set (db_events d). ev_sequence ev \<le> ?n"
    using old by (metis atLeastLessThan_iff image_eqI less_Suc_eq_le list.set_map set_upt)
  moreover have "\<forall>ev\<in>set evs. ?n < ev_sequence ev"
    using new by (metis atLeastLessThan_iff image_eqI Suc_le_eq list.set_map set_upt)
  ultimately have "filter (\<lambda>ev. ?n < ev_sequence ev) (db_events d') = evs"
    using assms(2) by (auto simp: filter_empty_conv filter_id_conv)
  moreover have "sort_key ev_sequence evs = evs"
    using new by (intro sort_key_id_if_sorted) (simp only: sorted_upt)
  ultimately show ?thesis using feed_latest [OF assms(3)] by (simp add: changes_since_def Let_def)
qed

text \<open>
  C10. A reader of the change feed knows the manifest. Starting from the manifest it knew and the last sequence it saw, the
  events of changes_since rebuild the manifest of any later state, over every sequence of refreshes, failed ones included.
\<close>

theorem change_feed_rebuilds_manifest:
  assumes "feed_step\<^sup>*\<^sup>* empty_vault_db d" and "feed_step\<^sup>*\<^sup>* d d'"
  shows "replay (changes_since (latest_sequence d) None None d') (manifest d) = manifest d'"
proof -
  have ok: "feed_ok d" using feed_run_extends [OF assms(1)] empty_feed_ok by (simp add: feed_extends_def)
  then obtain evs where "feed_ok d'" "db_events d' = db_events d @ evs"
    using feed_run_extends [OF assms(2)] by (auto simp: feed_extends_def)
  then show ?thesis
    using changes_since_latest [of d' d evs] ok by (simp add: feed_ok_def replay_def)
qed

text \<open>A vault with its metadata and one note, and a machine without symbolic links.\<close>

definition example_env :: vault_env where
  "example_env = \<lparr>env_realpath = (\<lambda>p. p), env_yaml_load = (\<lambda>_. Inr (JDict [(''vault_id'', JStr ''v1'')])),
     env_yaml_dump = (\<lambda>_. ''vault_id: v1''), env_vault_state_enabled = True, env_excluded_patterns = [],
     env_task_snapshot_retention_days = 30, env_task_mutation_retention_days = 365, env_system_root = [''sys'']\<rparr>"

definition example_fs :: "(path, node) dict" where
  "example_fs = [([''vault''], NDir), ([''vault'', ''AssistantMD''], NDir),
     ([''vault'', ''AssistantMD'', ''vault.yaml''], NFile ''vault_id: v1'' 1), ([''vault'', ''a.md''], NFile ''note'' 2)]"

definition example_world :: vault_world where
  "example_world = \<lparr>w_fs = example_fs, w_db = empty_vault_db, w_failures = [], w_clock = (\<lambda>n. n), w_clock_reads = 0,
     w_uuids = show_nat, w_uuid_reads = 0\<rparr>"

lemmas example_defs = example_env_def example_world_def example_fs_def empty_vault_db_def

lemmas io_simps = vbind_def vreturn_def vraise_def vtry_def asks_def change_db_def in_session_def next_failure_def utc_now_def
  fresh_uuid_def of_result_def

lemmas file_simps = node_at_def path_exists_def is_dir_def is_file_def file_bytes_def read_file_def hash_file_bytes_def
  put_node_def drop_node_def writable_def

lemmas identity_simps = resolve_or_create_vault_identity_def resolve_or_create_locked_def vault_metadata_path_def load_metadata_def

lemma example_identity:
  assumes "path_exists w [''vault'', ''AssistantMD'', ''vault.yaml'']" and "w_failures w = []"
    and "file_bytes w [''vault'', ''AssistantMD'', ''vault.yaml''] = Some ''vault_id: v1''"
  shows "resolve_or_create_vault_identity example_env [''vault''] w =
    (Inr \<lparr>vi_vault_id = ''v1'', vi_metadata_path = [''vault'', ''AssistantMD'', ''vault.yaml''], vi_created = False\<rparr>, w)"
proof -
  have "utf8_decode ''vault_id: v1'' = Some ''vault_id: v1''" by code_simp
  moreover have "strip ''v1'' = ''v1''" by code_simp
  ultimately show ?thesis
    using assms by (simp add: identity_simps io_simps read_file_def example_env_def)
qed

lemma example_fields [simp]:
  "env_realpath example_env = (\<lambda>p. p)" "env_vault_state_enabled example_env" "env_excluded_patterns example_env = []"
  "env_system_root example_env = [''sys'']" "env_task_snapshot_retention_days example_env = 30"
  "env_task_mutation_retention_days example_env = 365"
  "w_fs example_world = example_fs" "w_db example_world = empty_vault_db" "w_failures example_world = []"
  "w_clock example_world = (\<lambda>n. n)" "w_clock_reads example_world = 0"
  by (simp_all add: example_env_def example_world_def)

lemma example_relative:
  "forward_slashes (relative_text [''vault''] [''vault'', ''a.md'']) = ''a.md''"
  "forward_slashes (relative_text [''vault''] [''vault'', ''AssistantMD'', ''vault.yaml'']) = ''AssistantMD/vault.yaml''"
  "classify ''a.md'' = ''user_content''" "classify ''AssistantMD/vault.yaml'' = ''assistant_generated''"
  by code_simp+

lemma example_files:
  assumes "w_fs w = example_fs"
  shows "files_below w [''vault''] = [[''vault'', ''AssistantMD'', ''vault.yaml''], [''vault'', ''a.md'']]"
proof -
  have "files_below example_world [''vault''] = [[''vault'', ''AssistantMD'', ''vault.yaml''], [''vault'', ''a.md'']]"
    by code_simp
  moreover have "files_below w p = files_below example_world p" for p
    using assms by (simp add: files_below_def is_file_def file_bytes_def node_at_def)
  ultimately show ?thesis by simp
qed

lemma example_refresh:
  "manifest (w_db (snd (refresh_vault example_env [''vault''] None example_world))) (''v1'', ''a.md'') =
     Some (Some (sha256_hex ''note''), Some ''user_content'')"
proof -
  have "path_exists example_world [''vault'', ''AssistantMD'', ''vault.yaml'']"
      "file_bytes example_world [''vault'', ''AssistantMD'', ''vault.yaml''] = Some ''vault_id: v1''"
      "is_dir example_world [''vault'']"
    by (simp_all add: example_defs file_simps)
  then show ?thesis
    by (simp add: refresh_vault_def io_simps example_identity Let_def matcher_from_patterns_def example_files no_counts_def
      refresh_file_def example_relative matcher_matches_def file_stat_def needs_hash_def find_file_def vault_rows_def
      register_vault_def record_file_def append_event_def event_type_of_def hash_file_bytes_def read_file_def file_bytes_def node_at_def
      empty_vault_db_def example_fs_def manifest_def live_entry_def next_rowid_def)
qed

theorem change_feed_rebuilds_manifest_witness:
  "let d = w_db (snd (refresh_vault example_env [''vault''] None example_world))
   in replay (changes_since (latest_sequence empty_vault_db) None None d) (manifest empty_vault_db) = manifest d \<and>
      manifest d (''v1'', ''a.md'') = Some (Some (sha256_hex ''note''), Some ''user_content'')"
proof -
  have "feed_step empty_vault_db (w_db (snd (refresh_vault example_env [''vault''] None example_world)))"
    using feed_step.refresh [of example_world] by simp
  then show ?thesis
    using change_feed_rebuilds_manifest [OF rtranclp.rtrancl_refl] example_refresh by (simp add: Let_def r_into_rtranclp)
qed

section \<open>Snapshot ids come back\<close>

text \<open>
  Expired snapshots are deleted while the mutation that refers to them is kept (30 and 365 days by default), and SQLite gives
  the highest free id again. In the example the snapshot of \<open>old.md\<close> of the vault \<open>one\<close> has expired.
\<close>

definition retained_db :: vault_db where
  "retained_db = empty_vault_db\<lparr>
     db_activities := [\<lparr>va_activity_id = ''task:t1:v1'', va_vault_id = ''v1'', va_vault_name = ''one'', va_kind = ''chat'',
       va_source = ''user'', va_scope = None, va_label = ''edit'', va_task_id = Some ''t1'', va_goal_id = None, va_step_id = None,
       va_status = ''completed'', va_rollback_status = None, va_created_at = 0, va_updated_at = 0, va_completed_at = Some 0,
       va_expires_at = Some 365, va_metadata_json = None\<rparr>],
     db_mutations := [\<lparr>vm_id = 1, vm_activity_id = ''task:t1:v1'', vm_operation_id = ''operation_1'', vm_path = ''old.md'',
       vm_related_path = None, vm_target_kind = ''file'', vm_operation = ''write'', vm_status = ''completed'',
       vm_event_sequence = None, vm_before_exists = True, vm_before_hash = Some (sha256_hex ''old''),
       vm_before_snapshot_id = Some 1, vm_after_exists = True, vm_after_hash = Some (sha256_hex ''new''),
       vm_after_snapshot_id = None, vm_snapshot_ref = None, vm_created_at = 0, vm_expires_at = Some 365, vm_metadata_json = None\<rparr>],
     db_snapshot_sets := [\<lparr>ss_id = 1, ss_activity_id = None, ss_task_id = Some ''t1'', ss_task_kind = None, ss_task_source = None,
       ss_task_scope = None, ss_task_label = None, ss_vault_id = ''v1'', ss_vault_name = ''one'', ss_purpose = ''rollback'',
       ss_scope_kind = None, ss_scope_id = None, ss_snapshot_root = [''sys'', ''vault_snapshots'', ''1''], ss_status = ''active'',
       ss_created_at = 0, ss_expires_at = Some 30, ss_rolled_back_at = None\<rparr>],
     db_file_snapshots := [\<lparr>sn_id = 1, sn_snapshot_set_id = 1, sn_activity_id = None, sn_task_id = Some ''t1'', sn_vault_id = ''v1'',
       sn_vault_name = ''one'', sn_path = ''old.md'', sn_source = ''task_mutation_before'', sn_exists = True,
       sn_content_hash = Some (sha256_hex ''old''), sn_snapshot_ref = Some ''task_mutation_before/files/old.md'',
       sn_created_at = 0, sn_expires_at = Some 30\<rparr>]\<rparr>"

definition retained_world :: vault_world where
  "retained_world = example_world\<lparr>w_db := retained_db,
     w_fs := [([''two''], NDir), ([''two'', ''secret.md''], NFile ''secret'' 1), ([''sys''], NDir), ([''sys'', ''vault_snapshots''], NDir),
       ([''sys'', ''vault_snapshots'', ''1''], NDir), ([''sys'', ''vault_snapshots'', ''1'', ''task_mutation_before''], NDir),
       ([''sys'', ''vault_snapshots'', ''1'', ''task_mutation_before'', ''files''], NDir),
       ([''sys'', ''vault_snapshots'', ''1'', ''task_mutation_before'', ''files'', ''old.md''], NFile ''old'' 0)]\<rparr>"

definition task_owner :: snapshot_owner where
  "task_owner = \<lparr>so_activity_id = None, so_task_id = Some ''t2'', so_kind = None, so_source = None, so_scope = None, so_label = None,
     so_purpose = ''rollback'', so_snapshot_source = ''task_mutation_before'', so_scope_kind = ''task'', so_scope_id = ''t2''\<rparr>"

lemma cleaned_world:
  "snd (cleanup_expired_vault_state example_env (Some 31) retained_world) =
     retained_world\<lparr>w_db := retained_db\<lparr>db_snapshot_sets := [], db_file_snapshots := []\<rparr>,
       w_fs := [([''two''], NDir), ([''two'', ''secret.md''], NFile ''secret'' 1), ([''sys''], NDir), ([''sys'', ''vault_snapshots''], NDir)]\<rparr>"
  by (simp add: cleanup_expired_vault_state_def io_simps retained_world_def retained_db_def empty_vault_db_def is_expired_def Let_def
    delete_snapshot_set_def delete_snapshot_root_def snapshot_base_root_def is_below_def path_exists_def is_dir_def node_at_def rmtree_def)

lemma captured_names:
  "snapshot_ref_of ''task_mutation_before'' ''secret.md'' = ''task_mutation_before/files/secret.md''"
  "path_parts ''task_mutation_before/files/secret.md'' = [''task_mutation_before'', ''files'', ''secret.md'']"
  "snapshot_root_of example_env 1 = [''sys'', ''vault_snapshots'', ''1'']"
  "path_prefixes [''sys'', ''vault_snapshots'', ''1''] = [[''sys''], [''sys'', ''vault_snapshots''], [''sys'', ''vault_snapshots'', ''1'']]"
  "path_prefixes [''sys'', ''vault_snapshots'', ''1'', ''task_mutation_before'', ''files''] =
     [[''sys''], [''sys'', ''vault_snapshots''], [''sys'', ''vault_snapshots'', ''1''],
      [''sys'', ''vault_snapshots'', ''1'', ''task_mutation_before''], [''sys'', ''vault_snapshots'', ''1'', ''task_mutation_before'', ''files'']]"
  "\<not> startswith ''task_mutation_before/files/secret.md'' ''/''"
  by code_simp+

definition recaptured_world :: vault_world where
  "recaptured_world = snd (ensure_file_snapshot example_env task_owner ''v2'' ''two'' ''secret.md'' True [''two'', ''secret.md''] 31 (Some 61)
     (retained_world\<lparr>w_db := retained_db\<lparr>db_snapshot_sets := [], db_file_snapshots := []\<rparr>,
       w_fs := [([''two''], NDir), ([''two'', ''secret.md''], NFile ''secret'' 1), ([''sys''], NDir), ([''sys'', ''vault_snapshots''], NDir)]\<rparr>))"

lemma recaptured:
  "w_fs recaptured_world = [([''two''], NDir), ([''two'', ''secret.md''], NFile ''secret'' 1), ([''sys''], NDir), ([''sys'', ''vault_snapshots''], NDir),
       ([''sys'', ''vault_snapshots'', ''1''], NDir), ([''sys'', ''vault_snapshots'', ''1'', ''task_mutation_before''], NDir),
       ([''sys'', ''vault_snapshots'', ''1'', ''task_mutation_before'', ''files''], NDir),
       ([''sys'', ''vault_snapshots'', ''1'', ''task_mutation_before'', ''files'', ''secret.md''], NFile ''secret'' 1)]"
  "db_activities (w_db recaptured_world) = db_activities retained_db"
  "db_mutations (w_db recaptured_world) = db_mutations retained_db"
  "map (\<lambda>s. (ss_id s, ss_snapshot_root s)) (db_snapshot_sets (w_db recaptured_world)) = [(1, [''sys'', ''vault_snapshots'', ''1''])]"
  "db_file_snapshots (w_db recaptured_world) =
     [\<lparr>sn_id = 1, sn_snapshot_set_id = 1, sn_activity_id = None, sn_task_id = Some ''t2'', sn_vault_id = ''v2'',
       sn_vault_name = ''two'', sn_path = ''secret.md'', sn_source = ''task_mutation_before'', sn_exists = True,
       sn_content_hash = Some (sha256_hex ''secret''), sn_snapshot_ref = Some ''task_mutation_before/files/secret.md'',
       sn_created_at = 31, sn_expires_at = Some 61\<rparr>]"
  by (simp_all add: recaptured_world_def ensure_file_snapshot_def task_owner_def given_def io_simps retained_world_def
    existing_snapshot_def existing_snapshot_set_def new_snapshot_set_def next_rowid_def captured_names mkdir_parents_def
    make_dirs_def file_simps copy2_def write_node_def Let_def retained_db_def empty_vault_db_def captured_names [simplified])

text \<open>
  C36. Snapshot ids are given out again: after a cleanup the revision list of old.md in the vault one offers the content of a
  file of another vault, and the restore of that revision reads that content for old.md.
\<close>

theorem revision_shows_foreign_snapshot:
  "let w1 = snd (cleanup_expired_vault_state example_env (Some 31) retained_world);
       w2 = snd (ensure_file_snapshot example_env task_owner ''v2'' ''two'' ''secret.md'' True [''two'', ''secret.md''] 31 (Some 61) w1)
   in map (\<lambda>r. (rv_snapshot_id r, rv_path r, rv_content_hash r)) (list_file_revisions ''one'' ''old.md'' 50 False 32 (w_db w2)) =
        [(1, ''old.md'', Some (sha256_hex ''secret''))] \<and>
      map_option rv_path (get_file_revision ''one'' 1 32 (w_db w2)) = Some ''old.md'' \<and>
      Option.bind (resolve_snapshot_file example_env 1 w2) (\<lambda>s. file_bytes w2 (sf_path s)) = Some ''secret''"
proof -
  obtain captured where sets: "db_snapshot_sets (w_db recaptured_world) = [captured]"
      and captured: "ss_id captured = 1" "ss_snapshot_root captured = [''sys'', ''vault_snapshots'', ''1'']"
    using recaptured(4) by (auto simp: map_eq_Cons_conv)
  have "resolve_snapshot_file example_env 1 recaptured_world =
      Some \<lparr>sf_snapshot_id = 1, sf_path = [''sys'', ''vault_snapshots'', ''1'', ''task_mutation_before'', ''files'', ''secret.md''],
        sf_vault_path = ''secret.md'', sf_content_hash = Some (sha256_hex ''secret'')\<rparr>"
    by (simp add: resolve_snapshot_file_def sets captured recaptured Let_def join_path_def captured_names snapshot_base_root_def
      is_below_def is_file_def file_bytes_def node_at_def)
  then show ?thesis
    unfolding cleaned_world Let_def recaptured_world_def [symmetric]
    by (simp add: list_file_revisions_def get_file_revision_def revision_rows_def recaptured retained_db_def empty_vault_db_def
      newest_first_def unexpired_def file_revision_item_def file_bytes_def node_at_def)
qed

end
