(* ===== verification/Vault_Restore.thy ===== *)
theory Vault_Restore
  imports Vault_Feed
begin

text \<open>
  The atomic restoration of exact file states (core/vault_state/file_mutations.py): resolve, capture with compensation
  copies, apply, refresh, verify, compensate. The operations run under the mutation locks of \<open>Vault_Lock\<close>, so no other
  mutation of the same paths interleaves; the system's temporary directory is an argument and its removal does not fail.
\<close>

section \<open>Data\<close>

record RecordedMutationResult =
  rm_vault_id :: string
  rm_vault_name :: string
  rm_path :: string
  rm_related_path :: "string option"
  rm_operation :: string
  rm_before_exists :: bool
  rm_before_hash :: "string option"
  rm_after_exists :: bool
  rm_after_hash :: "string option"
  rm_task_id :: "string option"
  rm_event_sequence :: "nat option"
  rm_before_snapshot_id :: "nat option"
  rm_snapshot_ref :: "string option"

record FileStateRestore =
  fr_path :: string
  fr_expected_exists :: bool
  fr_expected_sha256 :: "string option"
  fr_content :: "string option"
  fr_content_path :: "path option"
  fr_content_sha256 :: "string option"

definition restore_exists :: "FileStateRestore \<Rightarrow> bool" where
  "restore_exists s \<longleftrightarrow> fr_content s \<noteq> None \<or> fr_content_path s \<noteq> None"

record ResolvedFileStateRestore =
  rs_request :: FileStateRestore
  rs_relative_path :: string
  rs_full_path :: path

record CapturedFileState =
  cs_exists :: bool
  cs_sha256 :: "string option"
  cs_compensation_path :: "path option"
  cs_snapshot_id :: "nat option"
  cs_snapshot_ref :: "string option"

record FileStateTransition =
  tr_path :: string
  tr_before_exists :: bool
  tr_before_sha256 :: "string option"
  tr_after_exists :: bool
  tr_after_sha256 :: "string option"
  tr_event_sequence :: "nat option"

abbreviation rejected :: "string \<Rightarrow> string \<Rightarrow> 'a io" where
  "rejected code message \<equiv> vraise (VaultMutationRejected code message)"

section \<open>Resolution and capture\<close>

fun resolve_file_state_restores_from ::
  "vault_env \<Rightarrow> path \<Rightarrow> string list \<Rightarrow> FileStateRestore list \<Rightarrow> vault_exn + ResolvedFileStateRestore list" where
  "resolve_file_state_restores_from e vault_root seen [] = Inr []"
| "resolve_file_state_restores_from e vault_root seen (s # states) =
     (if fr_content s \<noteq> None \<and> fr_content_path s \<noteq> None
      then Inl (VaultMutationRejected ''invalid_restore_state''
        (''File state restoration has multiple content sources: '' @ fr_path s))
      else let relative_path = normalize_vault_relative_path (fr_path s)
      in if relative_path \<in> set seen
         then Inl (VaultMutationRejected ''duplicate_restore_path''
           (''File state restoration contains a duplicate path: '' @ relative_path))
         else (case resolve_vault_relative_path (env_realpath e) vault_root relative_path False of
             Inl err \<Rightarrow> Inl (PyError err)
           | Inr full_path \<Rightarrow>
               (case resolve_file_state_restores_from e vault_root (relative_path # seen) states of
                  Inl err \<Rightarrow> Inl err
                | Inr rest \<Rightarrow> Inr (\<lparr>rs_request = s, rs_relative_path = relative_path, rs_full_path = full_path\<rparr> # rest))))"

definition resolve_file_state_restores ::
  "vault_env \<Rightarrow> path \<Rightarrow> FileStateRestore list \<Rightarrow> vault_exn + ResolvedFileStateRestore list" where
  "resolve_file_state_restores e vault_root states = resolve_file_state_restores_from e vault_root [] states"

definition capture_one ::
  "path \<Rightarrow> nat \<times> ResolvedFileStateRestore \<Rightarrow> (string, CapturedFileState) dict \<Rightarrow> (string, CapturedFileState) dict io" where
  "capture_one temp_root indexed captured =
     (case indexed of (index, item) \<Rightarrow>
        vbind (asks (\<lambda>w. (path_exists w (rs_full_path item), is_file w (rs_full_path item)))) (\<lambda>(current_exists, regular).
        if current_exists \<and> \<not> regular
        then rejected ''file_conflict''
          (''Cannot restore '' @ quoted (rs_relative_path item) @ '' because it is no longer a file.'')
        else vbind (if current_exists then vbind (hash_file_bytes (rs_full_path item)) (\<lambda>h. vreturn (Some h)) else vreturn None) (\<lambda>current_hash.
        if current_exists \<noteq> fr_expected_exists (rs_request item) \<or> current_hash \<noteq> fr_expected_sha256 (rs_request item)
        then rejected ''file_conflict''
          (''Cannot restore '' @ quoted (rs_relative_path item) @ '' because the current file state changed.'')
        else let compensation_path = temp_root @ [show_nat index @ ''.bin'']
        in vbind (if \<not> current_exists then vreturn ()
             else vbind (copy2 (rs_full_path item) compensation_path) (\<lambda>_.
               vbind (hash_file_bytes compensation_path) (\<lambda>h.
               if Some h \<noteq> current_hash
               then rejected ''file_conflict''
                 (''Cannot restore '' @ quoted (rs_relative_path item) @ '' because it changed during preflight.'')
               else vreturn ()))) (\<lambda>_.
           vreturn (AList.update (rs_relative_path item)
             \<lparr>cs_exists = current_exists, cs_sha256 = current_hash,
              cs_compensation_path = (if current_exists then Some compensation_path else None),
              cs_snapshot_id = None, cs_snapshot_ref = None\<rparr> captured)))))"

definition capture_restore_before_states ::
  "ResolvedFileStateRestore list \<Rightarrow> path \<Rightarrow> (string, CapturedFileState) dict io" where
  "capture_restore_before_states states temp_root = vfold (capture_one temp_root) (List.enumerate 0 states) []"

section \<open>Application\<close>

definition restore_content_hash :: "FileStateRestore \<Rightarrow> string option io" where
  "restore_content_hash s =
     vbind (case fr_content_path s of
              Some p \<Rightarrow> vbind (hash_file_bytes p) (\<lambda>h. vreturn (Some h))
            | None \<Rightarrow> (case fr_content s of Some c \<Rightarrow> vreturn (Some (sha256_hex c)) | None \<Rightarrow> vreturn None)) (\<lambda>content_hash.
     if fr_content_sha256 s \<noteq> None \<and> content_hash \<noteq> fr_content_sha256 s
     then rejected ''snapshot_invalid'' (''Restore content failed integrity checking: '' @ fr_path s)
     else vreturn content_hash)"

definition remove_restored :: "ResolvedFileStateRestore \<Rightarrow> unit io" where
  "remove_restored item = vbind (asks (\<lambda>w. path_exists w (rs_full_path item))) (\<lambda>present.
     if \<not> restore_exists (rs_request item) \<and> present then unlink (rs_full_path item) else vreturn ())"

definition write_restored :: "ResolvedFileStateRestore \<Rightarrow> unit io" where
  "write_restored item =
     (if \<not> restore_exists (rs_request item) then vreturn ()
      else vbind (mkdir_parents (butlast (rs_full_path item))) (\<lambda>_.
        case fr_content_path (rs_request item) of
          Some p \<Rightarrow> copy2 p (rs_full_path item)
        | None \<Rightarrow> write_bytes (rs_full_path item) (case fr_content (rs_request item) of None \<Rightarrow> [] | Some c \<Rightarrow> c)))"

definition apply_file_state_restores :: "ResolvedFileStateRestore list \<Rightarrow> unit io" where
  "apply_file_state_restores states =
     vbind (vfold (\<lambda>item _. vbind (restore_content_hash (rs_request item)) (\<lambda>_. vreturn ())) states ()) (\<lambda>_.
     vbind (vfold (\<lambda>item _. remove_restored item) states ()) (\<lambda>_.
     vfold (\<lambda>item _. write_restored item) states ()))"

definition build_transition ::
  "(string, CapturedFileState) dict \<Rightarrow> nat option \<Rightarrow> ResolvedFileStateRestore \<Rightarrow> FileStateTransition list \<Rightarrow> FileStateTransition list io" where
  "build_transition before_states event_sequence item transitions =
     vbind (asks (\<lambda>w. is_file w (rs_full_path item))) (\<lambda>after_exists.
     vbind (if after_exists then vbind (hash_file_bytes (rs_full_path item)) (\<lambda>h. vreturn (Some h)) else vreturn None) (\<lambda>after_hash.
     vbind (restore_content_hash (rs_request item)) (\<lambda>expected_after_hash.
     if after_exists \<noteq> restore_exists (rs_request item) \<or> after_hash \<noteq> expected_after_hash
     then rejected ''file_conflict''
       (''Cannot complete restoration because '' @ quoted (rs_relative_path item) @ '' changed during the operation.'')
     else case map_of before_states (rs_relative_path item) of
       None \<Rightarrow> vraise (PyError (RuntimeError (''KeyError: '' @ rs_relative_path item)))
     | Some before \<Rightarrow> vreturn (transitions @ [\<lparr>tr_path = rs_relative_path item, tr_before_exists = cs_exists before,
         tr_before_sha256 = cs_sha256 before, tr_after_exists = after_exists, tr_after_sha256 = after_hash,
         tr_event_sequence = event_sequence\<rparr>]))))"

definition build_file_state_transitions ::
  "ResolvedFileStateRestore list \<Rightarrow> (string, CapturedFileState) dict \<Rightarrow> nat option \<Rightarrow> FileStateTransition list io" where
  "build_file_state_transitions states before_states event_sequence =
     vfold (build_transition before_states event_sequence) states []"

section \<open>Compensation\<close>

definition compensate_one :: "(string, CapturedFileState) dict \<Rightarrow> ResolvedFileStateRestore \<Rightarrow> unit io" where
  "compensate_one before_states item =
     (case map_of before_states (rs_relative_path item) of
        None \<Rightarrow> vraise (PyError (RuntimeError (''KeyError: '' @ rs_relative_path item)))
      | Some before \<Rightarrow>
          if cs_exists before
          then (case cs_compensation_path before of
              None \<Rightarrow> vraise (PyError (RuntimeError (''Missing compensation content for '' @ quoted (rs_relative_path item))))
            | Some compensation_path \<Rightarrow>
                vbind (mkdir_parents (butlast (rs_full_path item))) (\<lambda>_. copy2 compensation_path (rs_full_path item)))
          else vbind (asks (\<lambda>w. path_exists w (rs_full_path item))) (\<lambda>present.
            if present then unlink (rs_full_path item) else vreturn ()))"

definition compensate_file_state_restores ::
  "vault_env \<Rightarrow> path \<Rightarrow> string \<Rightarrow> ResolvedFileStateRestore list \<Rightarrow> (string, CapturedFileState) dict \<Rightarrow> unit io" where
  "compensate_file_state_restores e vault_root vault_name states before_states =
     vtry (vbind (vfold (\<lambda>item _. compensate_one before_states item) states ()) (\<lambda>_.
           vbind (refresh_vault e vault_root (Some vault_name)) (\<lambda>_. vreturn ())))
       (\<lambda>rollback_exc. rejected ''mutation_state_uncertain''
          (''File-state restoration failed and compensation was incomplete: '' @ exn_text rollback_exc))"

text \<open>\<open>finalize\<close> is \<open>vreturn\<close> when the caller gives none.\<close>

definition run_file_state_restore_transaction ::
  "vault_env \<Rightarrow> path \<Rightarrow> string \<Rightarrow> ResolvedFileStateRestore list \<Rightarrow> (string, CapturedFileState) dict \<Rightarrow>
    (FileStateTransition list \<Rightarrow> 'a io) \<Rightarrow> 'a io" where
  "run_file_state_restore_transaction e vault_root vault_name states before_states finalize =
     vtry (vbind (apply_file_state_restores states) (\<lambda>_.
           vbind (refresh_vault e vault_root (Some vault_name)) (\<lambda>refresh.
           vbind (build_file_state_transitions states before_states (rr_latest_sequence refresh)) finalize)))
       (\<lambda>exc. vbind (compensate_file_state_restores e vault_root vault_name states before_states) (\<lambda>_.
          case exc of
            VaultMutationRejected code message \<Rightarrow> vraise exc
          | _ \<Rightarrow> rejected ''restore_failed'' (''File-state restoration failed and was compensated: '' @ exn_text exc)))"

text \<open>\<open>tempfile.TemporaryDirectory\<close>.\<close>

definition with_temporary_directory :: "path \<Rightarrow> 'a io \<Rightarrow> 'a io" where
  "with_temporary_directory temp_root m =
     vbind next_failure (\<lambda>failure w.
       case failure of
         Some f \<Rightarrow> (Inl (OSError (fail_message f)), w)
       | None \<Rightarrow>
           (case m (put_node temp_root NDir w) of
              (r, w') \<Rightarrow> (r, w'\<lparr>w_fs := filter (\<lambda>(p, _). \<not> is_below temp_root p) (w_fs w')\<rparr>)))"

definition restore_file_states_atomically ::
  "vault_env \<Rightarrow> path \<Rightarrow> path \<Rightarrow> FileStateRestore list \<Rightarrow> FileStateTransition list io" where
  "restore_file_states_atomically e temp_root vault_path states =
     (if states = [] then rejected ''empty_restore'' ''No file states were provided.''
      else let vault_root = env_realpath e vault_path
      in case resolve_file_state_restores e vault_root states of
           Inl err \<Rightarrow> vraise err
         | Inr resolved \<Rightarrow>
             with_temporary_directory temp_root (
               vbind (capture_restore_before_states resolved temp_root) (\<lambda>before_states.
               run_file_state_restore_transaction e vault_root (last vault_root) resolved before_states vreturn)))"

end
