(* ===== verification/Vault_Mutations.thy ===== *)
theory Vault_Mutations
  imports Vault_Restore
begin

text \<open>
  The recorded mutations of core/vault_state/file_mutations.py: writes, appends, deletions, moves, directory
  operations and attributed restorations, with their snapshots and the journal of mutations. The two context variables,
  the current execution task and the current activity, are the record \<open>mutation_context\<close>. Log records are not modelled,
  so the stages matter only for the errors they give.
\<close>

section \<open>Attribution\<close>

record mutation_context =
  mc_task :: "ExecutionTaskSnapshot option"
  mc_activity :: "VaultActivityContext option"

definition mc_task_id :: "mutation_context \<Rightarrow> string option" where
  "mc_task_id c = map_option ts_task_id (mc_task c)"

definition mutation_activity_context :: "mutation_context \<Rightarrow> string \<Rightarrow> VaultActivityContext option" where
  "mutation_activity_context c vault_id =
     (case mc_activity c of
        Some explicit \<Rightarrow> Some explicit
      | None \<Rightarrow> map_option (\<lambda>task.
          let (goal_id, step_id) = goal_context_from_metadata (Some (ts_metadata task))
          in \<lparr>ac_activity_id = task_activity_id (ts_task_id task) vault_id, ac_kind = ts_kind task, ac_source = ts_source task,
             ac_scope = Some (ts_scope task), ac_label = ts_label task, ac_task_id = Some (ts_task_id task),
             ac_goal_id = goal_id, ac_step_id = step_id\<rparr>) (mc_task c))"

definition snapshot_attribution :: "mutation_context \<Rightarrow> snapshot_owner option" where
  "snapshot_attribution c =
     (case mc_activity c of
        Some explicit \<Rightarrow> Some \<lparr>so_activity_id = Some (ac_activity_id explicit), so_task_id = ac_task_id explicit,
          so_kind = Some (ac_kind explicit), so_source = Some (ac_source explicit), so_scope = ac_scope explicit,
          so_label = Some (ac_label explicit), so_purpose = ''revision'', so_snapshot_source = ''activity_mutation_before'',
          so_scope_kind = ''activity'', so_scope_id = ac_activity_id explicit\<rparr>
      | None \<Rightarrow> map_option (\<lambda>task. \<lparr>so_activity_id = None, so_task_id = Some (ts_task_id task), so_kind = Some (ts_kind task),
          so_source = Some (ts_source task), so_scope = Some (ts_scope task), so_label = Some (ts_label task),
          so_purpose = ''rollback'', so_snapshot_source = ''task_mutation_before'', so_scope_kind = ''task'',
          so_scope_id = ts_task_id task\<rparr>) (mc_task c))"

definition ensure_explicit_activity ::
  "vault_env \<Rightarrow> mutation_context \<Rightarrow> snapshot_owner \<Rightarrow> path \<Rightarrow> string \<Rightarrow> datetime \<Rightarrow> unit io" where
  "ensure_explicit_activity e c attribution vault_root vault_name created_at =
     (case so_activity_id attribution of
        None \<Rightarrow> vreturn ()
      | Some activity_id \<Rightarrow>
          (case mc_activity c of
             Some context \<Rightarrow>
               if ac_activity_id context = activity_id
               then vbind (ensure_activity e context vault_root (Some vault_name) (Some created_at)) (\<lambda>_. vreturn ())
               else vraise (PyError (RuntimeError ''Snapshot activity attribution no longer matches the active context''))
           | None \<Rightarrow> vraise (PyError (RuntimeError ''Snapshot activity attribution no longer matches the active context''))))"

section \<open>The journal\<close>

definition mutation_row ::
  "nat \<Rightarrow> string \<Rightarrow> string \<Rightarrow> RecordedMutationResult \<Rightarrow> string option \<Rightarrow> string \<Rightarrow> datetime \<Rightarrow> datetime option \<Rightarrow> metadata \<Rightarrow> VaultMutation" where
  "mutation_row row_id activity_id operation_id r related_path target_kind created_at expires_at metadata =
     \<lparr>vm_id = row_id, vm_activity_id = activity_id, vm_operation_id = operation_id, vm_path = rm_path r,
      vm_related_path = related_path, vm_target_kind = target_kind, vm_operation = rm_operation r,
      vm_status = ''completed'', vm_event_sequence = rm_event_sequence r, vm_before_exists = rm_before_exists r,
      vm_before_hash = rm_before_hash r, vm_before_snapshot_id = rm_before_snapshot_id r,
      vm_after_exists = rm_after_exists r, vm_after_hash = rm_after_hash r, vm_after_snapshot_id = None,
      vm_snapshot_ref = rm_snapshot_ref r, vm_created_at = created_at, vm_expires_at = expires_at,
      vm_metadata_json = (if metadata = [] then None else Some (json_dumps True (JDict metadata)))\<rparr>"

definition add_mutation :: "(nat \<Rightarrow> VaultMutation) \<Rightarrow> vault_db \<Rightarrow> vault_db" where
  "add_mutation row d = d\<lparr>db_mutations := db_mutations d @ [row (next_rowid (map vm_id (db_mutations d)))]\<rparr>"

definition touch_activity :: "datetime \<Rightarrow> datetime option \<Rightarrow> VaultActivity \<Rightarrow> VaultActivity" where
  "touch_activity created_at expires_at activity =
     activity\<lparr>va_updated_at := created_at,
       va_expires_at := (case (expires_at, va_expires_at activity) of
           (None, old) \<Rightarrow> old
         | (Some t, None) \<Rightarrow> Some t
         | (Some t, Some old) \<Rightarrow> if old < t then Some t else Some old)\<rparr>"

text \<open>The activity of the context, touched, or the error that it is gone.\<close>

definition with_activity :: "string \<Rightarrow> datetime \<Rightarrow> datetime option \<Rightarrow> unit io" where
  "with_activity activity_id created_at expires_at =
     vbind (asks (\<lambda>w. find_activity activity_id (w_db w))) (\<lambda>found.
     case found of
       None \<Rightarrow> vraise (PyError (RuntimeError (''Vault activity disappeared before mutation persistence: '' @ activity_id)))
     | Some activity \<Rightarrow> change_db (\<lambda>d. ((), set_activity (touch_activity created_at expires_at activity) d)))"

definition persist_or_log_mutation ::
  "vault_env \<Rightarrow> mutation_context \<Rightarrow> RecordedMutationResult \<Rightarrow> path \<Rightarrow> string \<Rightarrow> datetime \<Rightarrow> datetime option \<Rightarrow> string \<Rightarrow> metadata \<Rightarrow> unit io" where
  "persist_or_log_mutation e c r vault_root operation_id created_at expires_at target_kind metadata =
     (case mutation_activity_context c (rm_vault_id r) of
        None \<Rightarrow> vreturn ()
      | Some context \<Rightarrow>
          vbind (ensure_activity e context vault_root (Some (rm_vault_name r)) (Some created_at)) (\<lambda>_.
          in_session (
            vbind (with_activity (ac_activity_id context) created_at expires_at) (\<lambda>_.
            change_db (\<lambda>d. ((), add_mutation (\<lambda>row_id. mutation_row row_id (ac_activity_id context) operation_id r
              (rm_related_path r) target_kind created_at expires_at metadata) d))))))"

definition persist_mutation_batch ::
  "vault_env \<Rightarrow> VaultActivityContext \<Rightarrow> RecordedMutationResult list \<Rightarrow> path \<Rightarrow> string \<Rightarrow> datetime \<Rightarrow> datetime option \<Rightarrow> metadata \<Rightarrow> unit io" where
  "persist_mutation_batch e context results vault_root operation_id created_at expires_at metadata =
     in_session (
       vbind (with_activity (ac_activity_id context) created_at expires_at) (\<lambda>_.
       vbind (change_db (\<lambda>d. ((), fold (\<lambda>r. add_mutation (\<lambda>row_id. mutation_row row_id (ac_activity_id context) operation_id r
           None ''file'' created_at expires_at metadata)) results d))) (\<lambda>_.
       remove_favorite_paths_in e vault_root (map rm_path (filter (\<lambda>r. \<not> rm_after_exists r) results)))))"

section \<open>One file\<close>

text \<open>The capture before a mutation; without attribution there is none.\<close>

definition capture_before ::
  "vault_env \<Rightarrow> mutation_context \<Rightarrow> VaultIdentity \<Rightarrow> path \<Rightarrow> (string \<times> bool \<times> path) list \<Rightarrow> datetime \<Rightarrow>
    (nat option \<times> string option) list io" where
  "capture_before e c identity vault_root files created_at =
     (case snapshot_attribution c of
        None \<Rightarrow> vreturn (map (\<lambda>_. (None, None)) files)
      | Some attribution \<Rightarrow>
          vbind (ensure_explicit_activity e c attribution vault_root (last vault_root) created_at) (\<lambda>_.
          in_session (vfold (\<lambda>(relative_path, before_exists, full_path) captured.
            vbind (ensure_file_snapshot e attribution (vi_vault_id identity) (last vault_root) relative_path before_exists full_path
              created_at (compute_snapshot_expiration e created_at)) (\<lambda>captured_file.
            vreturn (captured @ [(cap_file_snapshot_id captured_file, cap_snapshot_ref captured_file)]))) files [])))"

definition hash_if :: "bool \<Rightarrow> path \<Rightarrow> string option io" where
  "hash_if present p = (if present then vbind (hash_file_bytes p) (\<lambda>h. vreturn (Some h)) else vreturn None)"

text \<open>An error after the file was changed: the state is uncertain.\<close>

definition uncertain :: "string \<Rightarrow> 'a io \<Rightarrow> 'a io" where
  "uncertain message m = vtry m (\<lambda>exc. rejected ''mutation_state_uncertain'' (message @ exn_text exc))"

text \<open>The stages after the change: the new state, the refresh of the manifest and the journal.\<close>

definition record_applied ::
  "vault_env \<Rightarrow> mutation_context \<Rightarrow> path \<Rightarrow> string \<Rightarrow> path \<Rightarrow> string \<Rightarrow> VaultIdentity \<Rightarrow> datetime \<Rightarrow> string \<Rightarrow> bool \<Rightarrow> string option \<Rightarrow>
    nat option \<times> string option \<Rightarrow> RecordedMutationResult io" where
  "record_applied e c vault_root relative_path full_path operation identity created_at operation_id before_exists before_hash captured =
     vbind (asks (\<lambda>w. path_exists w full_path)) (\<lambda>after_exists.
     vbind (hash_if after_exists full_path) (\<lambda>after_hash.
     let failed = operation @ '' for '' @ quoted relative_path @ '' may have been applied, but vault-state recording failed during ''
     in vbind (uncertain (failed @ ''refresh: '')
         (vbind (if after_exists then vreturn () else remove_favorite_paths e vault_root [relative_path]) (\<lambda>_.
          refresh_vault e vault_root (Some (last vault_root))))) (\<lambda>refresh.
     let r = \<lparr>rm_vault_id = vi_vault_id identity, rm_vault_name = last vault_root, rm_path = relative_path, rm_related_path = None,
           rm_operation = operation, rm_before_exists = before_exists, rm_before_hash = before_hash,
           rm_after_exists = after_exists, rm_after_hash = after_hash, rm_task_id = mc_task_id c,
           rm_event_sequence = rr_latest_sequence refresh, rm_before_snapshot_id = fst captured, rm_snapshot_ref = snd captured\<rparr>
     in vbind (uncertain (failed @ ''persist: '')
         (persist_or_log_mutation e c r vault_root operation_id created_at (compute_task_mutation_expiration e created_at) ''file'' [])) (\<lambda>_.
     vreturn r))))"

definition mutate_vault_file_locked ::
  "vault_env \<Rightarrow> mutation_context \<Rightarrow> path \<Rightarrow> string \<Rightarrow> path \<Rightarrow> string \<Rightarrow> (path \<Rightarrow> unit io) \<Rightarrow> bool \<Rightarrow> bool \<Rightarrow> bool \<Rightarrow>
    string option option \<Rightarrow> RecordedMutationResult io" where
  "mutate_vault_file_locked e c vault_root relative_path full_path operation mutator require_exists fail_if_exists create_parent
      expected_before_hash =
     vbind (asks (\<lambda>w. path_exists w full_path)) (\<lambda>before_exists.
     if require_exists \<and> \<not> before_exists
     then rejected ''file_not_found'' (''Cannot mutate '' @ quoted relative_path @ '' - file does not exist.'')
     else if before_exists \<and> fail_if_exists
     then rejected ''file_exists'' (''Cannot mutate '' @ quoted relative_path @ '' - file already exists.'')
     else vbind (hash_if before_exists full_path) (\<lambda>before_hash.
     if expected_before_hash \<noteq> None \<and> expected_before_hash \<noteq> Some before_hash
     then rejected ''file_conflict''
       (''Cannot restore '' @ quoted relative_path @ '' because the current file state changed.'')
     else vbind (resolve_or_create_vault_identity e vault_root) (\<lambda>identity.
     vbind utc_now (\<lambda>created_at.
     vbind fresh_uuid (\<lambda>uuid_hex.
     vbind (capture_before e c identity vault_root [(relative_path, before_exists, full_path)] created_at) (\<lambda>captured.
     vbind (if create_parent then mkdir_parents (butlast full_path) else vreturn ()) (\<lambda>_.
     vbind (mutator full_path) (\<lambda>_.
     record_applied e c vault_root relative_path full_path operation identity created_at (''operation_'' @ uuid_hex)
       before_exists before_hash (hd captured)))))))))"

definition mutate_vault_file ::
  "vault_env \<Rightarrow> mutation_context \<Rightarrow> path \<Rightarrow> string \<Rightarrow> string \<Rightarrow> (path \<Rightarrow> unit io) \<Rightarrow> bool \<Rightarrow> bool \<Rightarrow> bool \<Rightarrow> bool \<Rightarrow>
    string option option \<Rightarrow> RecordedMutationResult io" where
  "mutate_vault_file e c vault_path path operation mutator require_exists fail_if_exists markdown_only create_parent expected_before_hash =
     (let vault_root = env_realpath e vault_path;
          relative_path = normalize_vault_relative_path path
      in vbind (of_result (resolve_vault_relative_path (env_realpath e) vault_root relative_path markdown_only)) (\<lambda>full_path.
         mutate_vault_file_locked e c vault_root relative_path full_path operation mutator require_exists fail_if_exists
           create_parent expected_before_hash))"

definition write_vault_file :: "vault_env \<Rightarrow> mutation_context \<Rightarrow> path \<Rightarrow> string \<Rightarrow> string \<Rightarrow> bool \<Rightarrow> bool \<Rightarrow> RecordedMutationResult io" where
  "write_vault_file e c vault_path path content fail_if_exists markdown_only =
     mutate_vault_file e c vault_path path ''write'' (\<lambda>full_path. write_text full_path content) False fail_if_exists markdown_only
       True None"

text \<open>\<open>open("xb")\<close>: an empty new file, or \<open>False\<close> for \<open>FileExistsError\<close>.\<close>

definition open_exclusive :: "path \<Rightarrow> bool io" where
  "open_exclusive p = vbind utc_now (\<lambda>now. vbind next_failure (\<lambda>failure w.
     if path_exists w p then (Inr False, w)
     else case failure of
       Some f \<Rightarrow> (Inl (OSError (fail_message f)), w)
     | None \<Rightarrow>
         if writable w p then (Inr True, put_node p (NFile [] (now * 1000)) w)
         else (Inl (OSError (''Cannot create '' @ path_text p)), w)))"

definition unlink_if_present :: "path \<Rightarrow> unit io" where
  "unlink_if_present p = vbind (asks (\<lambda>w. path_exists w p)) (\<lambda>present. if present then unlink p else vreturn ())"

definition write_file_bytes :: "path \<Rightarrow> string \<Rightarrow> bool \<Rightarrow> unit io" where
  "write_file_bytes full_path content fail_if_exists =
     (if \<not> fail_if_exists then write_bytes full_path content
      else vbind (open_exclusive full_path) (\<lambda>opened.
        if \<not> opened
        then rejected ''file_exists'' (''Cannot mutate '' @ quoted (last full_path) @ '' - file already exists.'')
        else vtry (write_bytes full_path content) (\<lambda>exc.
          vbind (vtry (unlink_if_present full_path) (\<lambda>cleanup_error. rejected ''mutation_state_uncertain''
            (''Binary write for '' @ quoted (last full_path) @ '' failed and its partial destination could not be removed: '' @
             exn_text cleanup_error))) (\<lambda>_. vraise exc))))"

definition write_vault_file_bytes :: "vault_env \<Rightarrow> mutation_context \<Rightarrow> path \<Rightarrow> string \<Rightarrow> string \<Rightarrow> bool \<Rightarrow> RecordedMutationResult io" where
  "write_vault_file_bytes e c vault_path path content fail_if_exists =
     mutate_vault_file e c vault_path path ''write'' (\<lambda>full_path. write_file_bytes full_path content fail_if_exists) False
       fail_if_exists False True None"

definition append_text :: "path \<Rightarrow> string \<Rightarrow> unit io" where
  "append_text p content = vbind (asks (\<lambda>w. file_bytes w p)) (\<lambda>old.
     write_bytes p ((case old of None \<Rightarrow> [] | Some c \<Rightarrow> c) @ utf8_encode content))"

definition append_vault_file :: "vault_env \<Rightarrow> mutation_context \<Rightarrow> path \<Rightarrow> string \<Rightarrow> string \<Rightarrow> bool \<Rightarrow> RecordedMutationResult io" where
  "append_vault_file e c vault_path path content markdown_only =
     mutate_vault_file e c vault_path path ''append'' (\<lambda>full_path. append_text full_path content) True False markdown_only False None"

definition replace_vault_file_content ::
  "vault_env \<Rightarrow> mutation_context \<Rightarrow> path \<Rightarrow> string \<Rightarrow> string \<Rightarrow> string \<Rightarrow> bool \<Rightarrow> RecordedMutationResult io" where
  "replace_vault_file_content e c vault_path path content operation markdown_only =
     mutate_vault_file e c vault_path path operation (\<lambda>full_path. write_text full_path content) True False markdown_only False None"

definition delete_vault_file :: "vault_env \<Rightarrow> mutation_context \<Rightarrow> path \<Rightarrow> string \<Rightarrow> bool \<Rightarrow> RecordedMutationResult io" where
  "delete_vault_file e c vault_path path markdown_only =
     mutate_vault_file e c vault_path path ''delete'' unlink True False markdown_only False None"

section \<open>Attributed restoration\<close>

definition record_restore_snapshots ::
  "vault_env \<Rightarrow> ResolvedFileStateRestore list \<Rightarrow> (string, CapturedFileState) dict \<Rightarrow> VaultActivityContext \<Rightarrow> VaultIdentity \<Rightarrow>
    string \<Rightarrow> datetime \<Rightarrow> datetime option \<Rightarrow> (string, CapturedFileState) dict io" where
  "record_restore_snapshots e states before_states context identity vault_name created_at expires_at =
     in_session (vfold (\<lambda>item recorded.
       case map_of before_states (rs_relative_path item) of
         None \<Rightarrow> vraise (PyError (RuntimeError (''KeyError: '' @ rs_relative_path item)))
       | Some before \<Rightarrow>
           vbind (ensure_file_snapshot e
             \<lparr>so_activity_id = Some (ac_activity_id context), so_task_id = ac_task_id context, so_kind = Some (ac_kind context),
              so_source = Some (ac_source context), so_scope = ac_scope context, so_label = Some (ac_label context),
              so_purpose = ''revision'', so_snapshot_source = ''activity_mutation_before'', so_scope_kind = ''activity'',
              so_scope_id = ac_activity_id context\<rparr>
             (vi_vault_id identity) vault_name (rs_relative_path item) (cs_exists before) (rs_full_path item) created_at expires_at)
             (\<lambda>captured_file. vreturn (AList.update (rs_relative_path item)
               (before\<lparr>cs_snapshot_id := cap_file_snapshot_id captured_file, cs_snapshot_ref := cap_snapshot_ref captured_file\<rparr>) recorded)))
       states before_states)"

definition build_recorded_restore_results ::
  "FileStateTransition list \<Rightarrow> (string, CapturedFileState) dict \<Rightarrow> VaultIdentity \<Rightarrow> string \<Rightarrow> string \<Rightarrow> string option \<Rightarrow>
    RecordedMutationResult list" where
  "build_recorded_restore_results transitions before_states identity vault_name operation task_id =
     map (\<lambda>t. let before = the (map_of before_states (tr_path t))
              in \<lparr>rm_vault_id = vi_vault_id identity, rm_vault_name = vault_name, rm_path = tr_path t, rm_related_path = None,
                  rm_operation = operation, rm_before_exists = tr_before_exists t, rm_before_hash = tr_before_sha256 t,
                  rm_after_exists = tr_after_exists t, rm_after_hash = tr_after_sha256 t, rm_task_id = task_id,
                  rm_event_sequence = tr_event_sequence t, rm_before_snapshot_id = cs_snapshot_id before,
                  rm_snapshot_ref = cs_snapshot_ref before\<rparr>) transitions"

definition restore_vault_file_states_locked ::
  "vault_env \<Rightarrow> path \<Rightarrow> path \<Rightarrow> ResolvedFileStateRestore list \<Rightarrow> string \<Rightarrow> metadata \<Rightarrow> VaultActivityContext \<Rightarrow> RecordedMutationResult list io" where
  "restore_vault_file_states_locked e temp_root vault_root states operation metadata context =
     vbind (resolve_or_create_vault_identity e vault_root) (\<lambda>identity.
     vbind utc_now (\<lambda>created_at.
     vbind fresh_uuid (\<lambda>uuid_hex.
     let vault_name = last vault_root
     in with_temporary_directory temp_root (
       vbind (capture_restore_before_states states temp_root) (\<lambda>before_states.
       vbind (ensure_activity e context vault_root (Some vault_name) (Some created_at)) (\<lambda>_.
       vbind (record_restore_snapshots e states before_states context identity vault_name created_at
         (compute_snapshot_expiration e created_at)) (\<lambda>before_states.
       run_file_state_restore_transaction e vault_root vault_name states before_states (\<lambda>transitions.
         let results = build_recorded_restore_results transitions before_states identity vault_name operation (ac_task_id context)
         in vbind (persist_mutation_batch e context results vault_root (''operation_'' @ uuid_hex) created_at
              (compute_task_mutation_expiration e created_at) metadata) (\<lambda>_. vreturn results)))))))))"

definition restore_vault_file_states ::
  "vault_env \<Rightarrow> mutation_context \<Rightarrow> path \<Rightarrow> path \<Rightarrow> FileStateRestore list \<Rightarrow> string \<Rightarrow> metadata \<Rightarrow> RecordedMutationResult list io" where
  "restore_vault_file_states e c temp_root vault_path states operation metadata =
     (if states = [] then rejected ''empty_restore'' ''No file states were provided.''
      else case mc_activity c of
        None \<Rightarrow> rejected ''missing_activity_context'' ''Exact file-state restoration requires an explicit vault activity.''
      | Some context \<Rightarrow>
          let vault_root = env_realpath e vault_path
          in (case resolve_file_state_restores e vault_root states of
                Inl err \<Rightarrow> vraise err
              | Inr resolved \<Rightarrow> restore_vault_file_states_locked e temp_root vault_root resolved operation metadata context))"

definition restore_vault_file ::
  "vault_env \<Rightarrow> mutation_context \<Rightarrow> path \<Rightarrow> path \<Rightarrow> string \<Rightarrow> string option \<Rightarrow> string option \<Rightarrow> RecordedMutationResult io" where
  "restore_vault_file e c temp_root vault_path path content expected_sha256 =
     vbind (restore_vault_file_states e c temp_root vault_path
       [\<lparr>fr_path = path, fr_expected_exists = (expected_sha256 \<noteq> None), fr_expected_sha256 = expected_sha256, fr_content = content,
         fr_content_path = None, fr_content_sha256 = None\<rparr>] ''restore_revision'' []) (\<lambda>results. vreturn (hd results))"

section \<open>Moves\<close>

definition move_result ::
  "VaultIdentity \<Rightarrow> mutation_context \<Rightarrow> string \<Rightarrow> string \<Rightarrow> string \<Rightarrow> bool \<Rightarrow> string option \<Rightarrow> bool \<Rightarrow> string option \<Rightarrow> nat option \<Rightarrow>
    nat option \<times> string option \<Rightarrow> RecordedMutationResult" where
  "move_result identity c vault_name path related_path before_exists before_hash after_exists after_hash event_sequence captured =
     \<lparr>rm_vault_id = vi_vault_id identity, rm_vault_name = vault_name, rm_path = path, rm_related_path = Some related_path,
      rm_operation = ''move'', rm_before_exists = before_exists, rm_before_hash = before_hash, rm_after_exists = after_exists,
      rm_after_hash = after_hash, rm_task_id = mc_task_id c, rm_event_sequence = event_sequence,
      rm_before_snapshot_id = fst captured, rm_snapshot_ref = snd captured\<rparr>"

definition move_vault_file_locked ::
  "vault_env \<Rightarrow> mutation_context \<Rightarrow> path \<Rightarrow> string \<Rightarrow> string \<Rightarrow> path \<Rightarrow> path \<Rightarrow> bool \<Rightarrow> (RecordedMutationResult \<times> RecordedMutationResult) io" where
  "move_vault_file_locked e c vault_root source_relative destination_relative source_path destination_path overwrite =
     vbind (asks (\<lambda>w. (path_exists w source_path, path_exists w destination_path))) (\<lambda>(source_exists, destination_before_exists).
     if \<not> source_exists
     then rejected ''source_not_found'' (''Cannot move '' @ quoted source_relative @ '' - source file does not exist.'')
     else if destination_before_exists \<and> \<not> overwrite
     then rejected ''destination_exists'' (''Cannot move '' @ quoted source_relative @ '' - destination file already exists.'')
     else vbind (hash_file_bytes source_path) (\<lambda>source_before_hash.
     vbind (hash_if destination_before_exists destination_path) (\<lambda>destination_before_hash.
     vbind (resolve_or_create_vault_identity e vault_root) (\<lambda>identity.
     vbind utc_now (\<lambda>created_at.
     vbind fresh_uuid (\<lambda>uuid_hex.
     vbind (capture_before e c identity vault_root [(source_relative, True, source_path),
       (destination_relative, destination_before_exists, destination_path)] created_at) (\<lambda>captured.
     vbind (mkdir_parents (butlast destination_path)) (\<lambda>_.
     vbind (replace_path source_path destination_path) (\<lambda>_.
     let vault_name = last vault_root;
         failed = ''Move from '' @ quoted source_relative @ '' to '' @ quoted destination_relative @
           '' may have been applied, but vault-state recording failed during '';
         record = (\<lambda>r. persist_or_log_mutation e c r vault_root (''operation_'' @ uuid_hex) created_at
           (compute_task_mutation_expiration e created_at) ''file'' [])
     in vbind (uncertain (failed @ ''refresh: '')
         (vbind (move_favorite_paths e vault_root source_relative destination_relative) (\<lambda>_.
          vbind (hash_file_bytes destination_path) (\<lambda>destination_after_hash.
          vbind (refresh_vault e vault_root (Some vault_name)) (\<lambda>refresh.
          vbind (asks (\<lambda>w. path_exists w source_path)) (\<lambda>source_after_exists.
          vbind (hash_if source_after_exists source_path) (\<lambda>source_after_hash.
          vreturn (move_result identity c vault_name source_relative destination_relative True (Some source_before_hash)
                     source_after_exists source_after_hash (rr_latest_sequence refresh) (captured ! 0),
                   move_result identity c vault_name destination_relative source_relative destination_before_exists
                     destination_before_hash True (Some destination_after_hash) (rr_latest_sequence refresh) (captured ! 1))))))))) (\<lambda>(source_result, destination_result).
     vbind (uncertain (failed @ ''persist: '') (vbind (record source_result) (\<lambda>_. record destination_result))) (\<lambda>_.
     vreturn (source_result, destination_result))))))))))))"

definition move_vault_file ::
  "vault_env \<Rightarrow> mutation_context \<Rightarrow> path \<Rightarrow> string \<Rightarrow> string \<Rightarrow> bool \<Rightarrow> bool \<Rightarrow> (RecordedMutationResult \<times> RecordedMutationResult) io" where
  "move_vault_file e c vault_path path destination overwrite markdown_only =
     (let vault_root = env_realpath e vault_path;
          source_relative = normalize_vault_relative_path path;
          destination_relative = normalize_vault_relative_path destination
      in vbind (of_result (resolve_vault_relative_path (env_realpath e) vault_root source_relative markdown_only)) (\<lambda>source_path.
         vbind (of_result (resolve_vault_relative_path (env_realpath e) vault_root destination_relative markdown_only)) (\<lambda>destination_path.
         move_vault_file_locked e c vault_root source_relative destination_relative source_path destination_path overwrite)))"

section \<open>Directories\<close>

definition record_vault_directory_mutation ::
  "vault_env \<Rightarrow> mutation_context \<Rightarrow> path \<Rightarrow> string \<Rightarrow> string \<Rightarrow> bool \<Rightarrow> bool \<Rightarrow> string option \<Rightarrow> nat option \<Rightarrow> metadata \<Rightarrow> unit io" where
  "record_vault_directory_mutation e c vault_path path operation before_exists after_exists related_path event_sequence metadata =
     (let vault_root = env_realpath e vault_path
      in vbind (resolve_or_create_vault_identity e vault_root) (\<lambda>identity.
         vbind utc_now (\<lambda>created_at.
         vbind fresh_uuid (\<lambda>uuid_hex.
         persist_or_log_mutation e c
           \<lparr>rm_vault_id = vi_vault_id identity, rm_vault_name = last vault_root, rm_path = normalize_vault_relative_path path,
            rm_related_path = (if given related_path then map_option normalize_vault_relative_path related_path else None),
            rm_operation = operation, rm_before_exists = before_exists, rm_before_hash = None, rm_after_exists = after_exists,
            rm_after_hash = None, rm_task_id = mc_task_id c, rm_event_sequence = event_sequence, rm_before_snapshot_id = None,
            rm_snapshot_ref = None\<rparr>
           vault_root (''operation_'' @ uuid_hex) created_at (compute_task_mutation_expiration e created_at) ''directory'' metadata))))"

record DirectoryCleanupResult =
  dc_vault_id :: string
  dc_vault_name :: string
  dc_path :: string
  dc_removed_paths :: "string list"
  dc_skipped_paths :: "string list"
  dc_blocker_paths :: "string list"
  dc_after_exists :: bool
  dc_task_id :: "string option"
  dc_event_sequence :: "nat option"

definition relative_to_vault :: "path \<Rightarrow> path \<Rightarrow> string" where
  "relative_to_vault vault_root p = normalize_vault_relative_path (relative_text vault_root p)"

definition directories_below :: "vault_world \<Rightarrow> path \<Rightarrow> path list" where
  "directories_below w p = sort (filter (\<lambda>q. is_below p q \<and> q \<noteq> p \<and> is_dir w q) (map fst (w_fs w)))"

definition has_children :: "vault_world \<Rightarrow> path \<Rightarrow> bool" where
  "has_children w p = list_ex (\<lambda>(q, _). is_below p q \<and> q \<noteq> p) (w_fs w)"

definition remaining_directory_paths :: "path \<Rightarrow> path \<Rightarrow> vault_world \<Rightarrow> string list" where
  "remaining_directory_paths vault_root target w =
     (if is_dir w target then sort (map (relative_to_vault vault_root) (target # directories_below w target)) else [])"

definition remaining_directory_blockers :: "path \<Rightarrow> path \<Rightarrow> vault_world \<Rightarrow> string list" where
  "remaining_directory_blockers vault_root target w =
     (if is_dir w target
      then sort (map (relative_to_vault vault_root)
        (files_below w target @ filter (\<lambda>q. \<not> has_children w q) (directories_below w target)))
      else [])"

definition directory_descendant_counts :: "path \<Rightarrow> vault_world \<Rightarrow> nat \<times> nat" where
  "directory_descendant_counts p w = (length (files_below w p), length (directories_below w p))"

text \<open>
  \<open>os.walk\<close> from the bottom: a directory after its children. The order of siblings is the file system's; here it is the
  descending order of their names.
\<close>

definition remove_empty :: "path \<Rightarrow> path \<Rightarrow> string list \<Rightarrow> string list io" where
  "remove_empty vault_root directory removed w =
     (case rmdir directory w of
        (Inl _, w1) \<Rightarrow> (Inr removed, w1)
      | (Inr _, w1) \<Rightarrow> (Inr (removed @ [relative_to_vault vault_root directory]), w1))"

definition delete_empty_vault_directory_tree_locked ::
  "vault_env \<Rightarrow> mutation_context \<Rightarrow> path \<Rightarrow> string \<Rightarrow> DirectoryCleanupResult io" where
  "delete_empty_vault_directory_tree_locked e c vault_path path =
     (let vault_root = env_realpath e vault_path;
          relative_path = normalize_vault_relative_path path
      in if relative_path = [] then rejected ''invalid_target'' ''Cannot delete the vault root directory.''
      else vbind (of_result (resolve_vault_relative_path (env_realpath e) vault_root relative_path False)) (\<lambda>full_path.
      vbind (asks (\<lambda>w. (path_exists w full_path, is_dir w full_path))) (\<lambda>(present, directory).
      if \<not> present
      then rejected ''directory_not_found'' (''Cannot delete '' @ quoted relative_path @ '' - directory does not exist.'')
      else if \<not> directory
      then rejected ''not_directory''
        (''Cannot delete '' @ quoted relative_path @ '' as a directory - target is not a directory.'')
      else vbind (resolve_or_create_vault_identity e vault_root) (\<lambda>identity.
      vbind (asks (\<lambda>w. rev (directories_below w full_path) @ [full_path])) (\<lambda>walk.
      vbind (vfold (remove_empty vault_root) walk []) (\<lambda>removed_paths.
      vbind (asks (\<lambda>w. (remaining_directory_paths vault_root full_path w, remaining_directory_blockers vault_root full_path w)))
        (\<lambda>(skipped_paths, blocker_paths).
      vbind (if removed_paths = [] then vreturn None
             else vbind (remove_favorite_paths e vault_root removed_paths) (\<lambda>_.
               vbind (refresh_vault e vault_root (Some (last vault_root))) (\<lambda>refresh.
               vreturn (rr_latest_sequence refresh)))) (\<lambda>event_sequence.
      vbind (asks (\<lambda>w. path_exists w full_path)) (\<lambda>after_exists.
      vreturn \<lparr>dc_vault_id = vi_vault_id identity, dc_vault_name = last vault_root, dc_path = relative_path,
        dc_removed_paths = sort removed_paths, dc_skipped_paths = skipped_paths, dc_blocker_paths = blocker_paths,
        dc_after_exists = after_exists, dc_task_id = mc_task_id c, dc_event_sequence = event_sequence\<rparr>)))))))))"

definition delete_empty_vault_directory_tree ::
  "vault_env \<Rightarrow> mutation_context \<Rightarrow> path \<Rightarrow> string \<Rightarrow> DirectoryCleanupResult io" where
  "delete_empty_vault_directory_tree e c vault_path path =
     (let vault_root = env_realpath e vault_path
      in vbind (of_result (resolve_vault_relative_path (env_realpath e) vault_root path False)) (\<lambda>_.
         delete_empty_vault_directory_tree_locked e c vault_root path))"

record DirectoryMoveResult =
  dm_vault_id :: string
  dm_vault_name :: string
  dm_source_path :: string
  dm_destination_path :: string
  dm_descendant_file_count :: nat
  dm_descendant_directory_count :: nat
  dm_event_sequence :: "nat option"

definition move_vault_directory_locked :: "vault_env \<Rightarrow> mutation_context \<Rightarrow> path \<Rightarrow> string \<Rightarrow> string \<Rightarrow> DirectoryMoveResult io" where
  "move_vault_directory_locked e c vault_path path destination =
     (let vault_root = env_realpath e vault_path;
          source_relative = normalize_vault_relative_path path;
          destination_relative = normalize_vault_relative_path destination
      in if source_relative = [] \<or> destination_relative = []
      then rejected ''invalid_target'' ''Cannot move the vault root directory.''
      else vbind (of_result (resolve_vault_relative_path (env_realpath e) vault_root source_relative False)) (\<lambda>source_path.
      vbind (of_result (resolve_vault_relative_path (env_realpath e) vault_root destination_relative False)) (\<lambda>destination_path.
      vbind (asks (\<lambda>w. (path_exists w source_path, is_dir w source_path, path_exists w destination_path)))
        (\<lambda>(source_exists, directory, destination_exists).
      if \<not> source_exists
      then rejected ''source_not_found'' (''Cannot move '' @ quoted source_relative @ '' - source directory does not exist.'')
      else if \<not> directory
      then rejected ''source_not_directory''
        (''Cannot move '' @ quoted source_relative @ '' as a directory - source is not a directory.'')
      else if destination_path = source_path
      then rejected ''source_equals_destination'' ''Directory source and destination must be different.''
      else if is_below source_path destination_path
      then rejected ''destination_inside_source'' (''Cannot move '' @ quoted source_relative @ '' inside itself.'')
      else if destination_exists
      then rejected ''destination_exists'' (''Cannot move '' @ quoted source_relative @ '' - destination already exists.'')
      else vbind (asks (directory_descendant_counts source_path)) (\<lambda>(files, directories).
      vbind (resolve_or_create_vault_identity e vault_root) (\<lambda>identity.
      vbind (mkdir_parents (butlast destination_path)) (\<lambda>_.
      vbind (replace_path source_path destination_path) (\<lambda>_.
      vbind (uncertain (''Directory move from '' @ quoted source_relative @ '' to '' @ quoted destination_relative @
          '' was applied, but vault-state refresh failed: '')
        (vbind (move_favorite_paths e vault_root source_relative destination_relative) (\<lambda>_.
         refresh_vault e vault_root (Some (last vault_root))))) (\<lambda>refresh.
      vbind (record_vault_directory_mutation e c vault_root source_relative ''move'' True False (Some destination_relative)
        (rr_latest_sequence refresh) [(''descendant_file_count'', JInt (int files)),
          (''descendant_directory_count'', JInt (int directories))]) (\<lambda>_.
      vreturn \<lparr>dm_vault_id = vi_vault_id identity, dm_vault_name = last vault_root, dm_source_path = source_relative,
        dm_destination_path = destination_relative, dm_descendant_file_count = files,
        dm_descendant_directory_count = directories, dm_event_sequence = rr_latest_sequence refresh\<rparr>))))))))))"

definition move_vault_directory :: "vault_env \<Rightarrow> mutation_context \<Rightarrow> path \<Rightarrow> string \<Rightarrow> string \<Rightarrow> DirectoryMoveResult io" where
  "move_vault_directory e c vault_path path destination =
     (let vault_root = env_realpath e vault_path
      in vbind (of_result (resolve_vault_relative_path (env_realpath e) vault_root path False)) (\<lambda>_.
         vbind (of_result (resolve_vault_relative_path (env_realpath e) vault_root destination False)) (\<lambda>_.
         move_vault_directory_locked e c vault_root path destination)))"

end
