(* ===== verification/Vault_Rollback.thy ===== *)
theory Vault_Rollback
  imports Vault_Mutations
begin

text \<open>
  The rollback of the recorded mutations of a task (core/vault_state/rollback.py), the observers of terminal tasks, and the
  confirmed deletion of vault paths (core/vault_state/path_deletion.py).
\<close>

section \<open>Rollback of a task\<close>

text \<open>The setting and the vaults the workflow loader knows.\<close>

record rollback_env =
  rb_task_rollback_enabled :: bool
  rb_vault_info :: "(string, path) dict"

definition ROLLBACK_TRIGGER_STATUSES :: "string list" where
  "ROLLBACK_TRIGGER_STATUSES = [''failed'', ''cancelled'', ''timed_out'']"

definition ROLLBACK_MUTATION_OPERATIONS :: "string list" where
  "ROLLBACK_MUTATION_OPERATIONS =
     [''write'', ''append'', ''edit_line'', ''replace_text'', ''truncate'', ''delete'', ''move'', ''mkdir'']"

record TaskRollbackResult =
  tb_task_id :: string
  tb_status :: string
  tb_skipped :: bool
  tb_reason :: "string option"
  tb_mutation_rows_seen :: nat
  tb_paths_restored :: nat
  tb_paths_deleted :: nat
  tb_vaults_refreshed :: nat
  tb_rollback_status :: "string option"

record TaskRollbackPathPlan =
  pl_activity :: VaultActivity
  pl_state :: FileStateRestore
  pl_snapshot_id :: "nat option"
  pl_snapshot_ref :: "string option"

definition task_rollback_policy_skip_reason :: "rollback_env \<Rightarrow> string \<Rightarrow> string option" where
  "task_rollback_policy_skip_reason b status =
     (if status \<notin> set ROLLBACK_TRIGGER_STATUSES then Some ''status_not_rollbackable''
      else if \<not> rb_task_rollback_enabled b then Some ''task_rollback_disabled''
      else None)"

definition skipped_result :: "string \<Rightarrow> string \<Rightarrow> string \<Rightarrow> nat \<Rightarrow> TaskRollbackResult" where
  "skipped_result task_id status reason mutation_rows_seen =
     \<lparr>tb_task_id = task_id, tb_status = status, tb_skipped = True, tb_reason = Some reason,
      tb_mutation_rows_seen = mutation_rows_seen, tb_paths_restored = 0, tb_paths_deleted = 0, tb_vaults_refreshed = 0,
      tb_rollback_status = None\<rparr>"

text \<open>\<open>d.setdefault(key, []).append(x)\<close> over a list.\<close>

definition group_append :: "'k \<Rightarrow> 'v \<Rightarrow> ('k, 'v list) dict \<Rightarrow> ('k, 'v list) dict" where
  "group_append k v d = AList.update k ((case map_of d k of None \<Rightarrow> [] | Some vs \<Rightarrow> vs) @ [v]) d"

definition grouped_by :: "('a \<Rightarrow> 'k) \<Rightarrow> 'a list \<Rightarrow> ('k, 'a list) dict" where
  "grouped_by key xs = fold (\<lambda>x. group_append (key x) x) xs []"

definition activity_of :: "VaultActivity list \<Rightarrow> VaultMutation \<Rightarrow> VaultActivity option" where
  "activity_of activities row = find (\<lambda>a. va_activity_id a = vm_activity_id row) activities"

definition path_plan ::
  "vault_env \<Rightarrow> string \<Rightarrow> VaultActivity list \<Rightarrow> vault_world \<Rightarrow> VaultMutation list \<Rightarrow> vault_exn + TaskRollbackPathPlan" where
  "path_plan e task_id activities w rows =
     (let first = hd rows; final = List.last rows;
          failed = (\<lambda>what. PyError (RuntimeError (''Cannot rollback '' @ quoted (vm_path first) @ '' for task '' @ quoted task_id @ what)));
          content_path = (if \<not> vm_before_exists first then Inr None
            else case vm_before_snapshot_id first of
              None \<Rightarrow> Inl (failed '': missing file snapshot'')
            | Some snapshot_id \<Rightarrow>
                (case resolve_snapshot_file e snapshot_id w of
                   None \<Rightarrow> Inl (failed '': snapshot file missing'')
                 | Some found \<Rightarrow> Inr (Some (sf_path found))))
      in case content_path of
           Inl err \<Rightarrow> Inl err
         | Inr source \<Rightarrow> Inr \<lparr>pl_activity = the (activity_of activities first),
             pl_state = \<lparr>fr_path = vm_path first, fr_expected_exists = vm_after_exists final, fr_expected_sha256 = vm_after_hash final,
               fr_content = None, fr_content_path = source, fr_content_sha256 = vm_before_hash first\<rparr>,
             pl_snapshot_id = vm_before_snapshot_id first, pl_snapshot_ref = vm_snapshot_ref first\<rparr>)"

fun collect :: "('a \<Rightarrow> 'e + 'b) \<Rightarrow> 'a list \<Rightarrow> 'e + 'b list" where
  "collect f [] = Inr []"
| "collect f (x # xs) = (case f x of Inl err \<Rightarrow> Inl err | Inr y \<Rightarrow>
     (case collect f xs of Inl err \<Rightarrow> Inl err | Inr ys \<Rightarrow> Inr (y # ys)))"

definition task_rollback_plans ::
  "vault_env \<Rightarrow> VaultMutation list \<Rightarrow> VaultActivity list \<Rightarrow> string \<Rightarrow> vault_world \<Rightarrow>
    vault_exn + (string, TaskRollbackPathPlan list) dict" where
  "task_rollback_plans e rows activities task_id w =
     (let groups = grouped_by (\<lambda>row. (va_vault_name (the (activity_of activities row)), vm_path row)) rows
      in case collect (\<lambda>(key, group). case path_plan e task_id activities w group of
                 Inl err \<Rightarrow> Inl err | Inr plan \<Rightarrow> Inr (fst key, plan)) groups of
           Inl err \<Rightarrow> Inl err
         | Inr plans \<Rightarrow> Inr (map (\<lambda>(name, vault_plans). (name, sort_key (\<lambda>plan. fr_path (pl_state plan)) (map snd vault_plans)))
             (grouped_by fst plans)))"

definition known_vault_root :: "rollback_env \<Rightarrow> string \<Rightarrow> vault_exn + path" where
  "known_vault_root b vault_name =
     (case map_of (rb_vault_info b) vault_name of
        None \<Rightarrow> Inl (PyError (RuntimeError (''Cannot rollback task mutation: vault not found: '' @ vault_name)))
      | Some p \<Rightarrow> Inr p)"

definition rollback_vault ::
  "vault_env \<Rightarrow> rollback_env \<Rightarrow> path \<Rightarrow> string \<times> TaskRollbackPathPlan list \<Rightarrow> nat \<times> nat \<times> nat \<Rightarrow> (nat \<times> nat \<times> nat) io" where
  "rollback_vault e b temp_root vault counts =
     (case (vault, counts) of ((vault_name, path_plans), (restored_count, deleted_count, refreshed_count)) \<Rightarrow>
        (case known_vault_root b vault_name of
           Inl err \<Rightarrow> vraise err
         | Inr vault_root \<Rightarrow>
             vbind (resolve_or_create_vault_identity e vault_root) (\<lambda>current_identity.
             if vi_vault_id current_identity \<noteq> va_vault_id (pl_activity (hd path_plans))
             then vraise (PyError (RuntimeError (''Cannot rollback task mutations for an earlier vault named '' @ quoted vault_name)))
             else vbind (restore_file_states_atomically e temp_root vault_root (map pl_state path_plans)) (\<lambda>transitions.
               let pairs = zip path_plans transitions
               in vreturn (restored_count + length (filter (\<lambda>(plan, _). restore_exists (pl_state plan)) pairs),
                    deleted_count + length (filter (\<lambda>(plan, t). \<not> restore_exists (pl_state plan) \<and> tr_before_exists t) pairs),
                    refreshed_count + 1)))))"

definition task_mutation_rows :: "string \<Rightarrow> vault_db \<Rightarrow> VaultMutation list" where
  "task_mutation_rows task_id d =
     sort_key vm_id (filter (\<lambda>m. vm_operation m \<in> set ROLLBACK_MUTATION_OPERATIONS \<and>
       list_ex (\<lambda>a. va_activity_id a = vm_activity_id m \<and> va_task_id a = Some task_id) (db_activities d)) (db_mutations d))"

definition rollback_snapshot_sets :: "string \<Rightarrow> vault_db \<Rightarrow> SnapshotSet list" where
  "rollback_snapshot_sets task_id d =
     filter (\<lambda>s. ss_task_id s = Some task_id \<and> ss_purpose s = ''rollback'') (db_snapshot_sets d)"

definition mark_rolled_back :: "datetime \<Rightarrow> SnapshotSet list \<Rightarrow> vault_db \<Rightarrow> vault_db" where
  "mark_rolled_back now sets d =
     d\<lparr>db_snapshot_sets := map (\<lambda>s. if ss_id s \<in> ss_id ` set sets
        then s\<lparr>ss_status := ''rolled_back'', ss_rolled_back_at := Some now\<rparr> else s) (db_snapshot_sets d)\<rparr>"

text \<open>
  The session around the restoration only reads until its last statements, and the restorations commit in sessions of
  their own.
\<close>

definition rollback_task_file_mutations ::
  "vault_env \<Rightarrow> rollback_env \<Rightarrow> path \<Rightarrow> string \<Rightarrow> string \<Rightarrow> string option \<Rightarrow> TaskRollbackResult io" where
  "rollback_task_file_mutations e b temp_root task_id terminal_status reason =
     (let status = py_lower (strip terminal_status)
      in case task_rollback_policy_skip_reason b status of
        Some skip \<Rightarrow> vreturn (skipped_result task_id status skip 0)
      | None \<Rightarrow>
          vbind utc_now (\<lambda>now.
          vbind (asks (\<lambda>w. (task_mutation_rows task_id (w_db w), rollback_snapshot_sets task_id (w_db w)))) (\<lambda>(all_rows, snapshot_sets).
          let rows = filter (\<lambda>m. vm_target_kind m = ''file'') all_rows;
              nonrollbackable_rows = filter (\<lambda>m. vm_target_kind m \<noteq> ''file'') all_rows
          in if rows = []
             then vbind (if nonrollbackable_rows = [] then vreturn 0
                         else finish_task_activities task_id status (Some ''not_available'')) (\<lambda>_.
               vreturn (skipped_result task_id status
                 (if nonrollbackable_rows = [] then ''no_mutations'' else ''no_rollbackable_mutations'') (length all_rows)))
             else if snapshot_sets \<noteq> [] \<and> list_all (\<lambda>s. ss_status s = ''rolled_back'') snapshot_sets
             then vreturn (skipped_result task_id status ''already_rolled_back'' (length all_rows))
             else vbind (asks (\<lambda>w. task_rollback_plans e rows
                 (filter (\<lambda>a. va_task_id a = Some task_id) (db_activities (w_db w))) task_id w)) (\<lambda>planned.
               case planned of
                 Inl err \<Rightarrow> vraise err
               | Inr plans \<Rightarrow>
                   vbind (vfold (rollback_vault e b temp_root) (sort_key fst plans) (0, 0, 0)) (\<lambda>(restored_count, deleted_count, refreshed_count).
                   vbind (in_session (change_db (\<lambda>d. ((), mark_rolled_back now snapshot_sets d)))) (\<lambda>_.
                   let rollback_status = (if nonrollbackable_rows = [] then ''completed'' else ''partial'')
                   in vbind (finish_task_activities task_id (if nonrollbackable_rows = [] then ''rolled_back'' else status)
                        (Some rollback_status)) (\<lambda>_.
                      vreturn \<lparr>tb_task_id = task_id, tb_status = status, tb_skipped = False, tb_reason = reason,
                        tb_mutation_rows_seen = length all_rows, tb_paths_restored = restored_count,
                        tb_paths_deleted = deleted_count, tb_vaults_refreshed = refreshed_count,
                        tb_rollback_status = Some rollback_status\<rparr>)))))))"

text \<open>The observers of terminal tasks; the rollback observer logs every exception.\<close>

definition handle_task_terminal_for_rollback :: "vault_env \<Rightarrow> rollback_env \<Rightarrow> path \<Rightarrow> ExecutionTaskSnapshot \<Rightarrow> unit io" where
  "handle_task_terminal_for_rollback e b temp_root task =
     (let status = py_lower (strip (ts_status task))
      in if status \<notin> set ROLLBACK_TRIGGER_STATUSES then vreturn ()
         else vtry (vbind (rollback_task_file_mutations e b temp_root (ts_task_id task) status (ts_terminal_reason task))
           (\<lambda>_. vreturn ())) (\<lambda>_. vreturn ()))"

definition handle_task_terminal_for_activity :: "ExecutionTaskSnapshot \<Rightarrow> unit io" where
  "handle_task_terminal_for_activity task =
     vbind (finish_task_activities (ts_task_id task) (ts_status task) None) (\<lambda>_. vreturn ())"

section \<open>Confirmed deletion\<close>

datatype DeletedVaultPath = Deleted_File string | Deleted_Directory string

definition is_symlink :: "vault_env \<Rightarrow> path \<Rightarrow> bool" where
  "is_symlink e p \<longleftrightarrow> p \<noteq> [] \<and> env_realpath e p \<noteq> env_realpath e (butlast p) @ [List.last p]"

definition validate_target :: "vault_env \<Rightarrow> path \<Rightarrow> unit io" where
  "validate_target e p = vbind (asks (\<lambda>w. path_exists w (env_realpath e p))) (\<lambda>present.
     if is_symlink e p then rejected ''symlink_target'' (''Cannot recursively delete symbolic link: '' @ List.last p)
     else if \<not> present then rejected ''file_not_found'' (''Delete target does not exist: '' @ List.last p)
     else vreturn ())"

definition deletion_candidate :: "vault_env \<Rightarrow> path \<Rightarrow> string \<Rightarrow> (string, path) dict \<Rightarrow> (string, path) dict io" where
  "deletion_candidate e vault_root source candidates =
     vbind (of_result (resolve_vault_relative_path (env_realpath e) vault_root source False)) (\<lambda>target.
     let metadata = env_realpath e (vault_metadata_path vault_root)
     in if target = vault_root then rejected ''invalid_target'' ''Cannot delete the vault root.''
        else if is_below target metadata
        then rejected ''protected_vault_identity'' ''Vault identity metadata and its containing folders cannot be deleted.''
        else vbind (validate_target e (join_path vault_root source)) (\<lambda>_.
          vreturn (AList.update (relative_text vault_root target) target candidates)))"

text \<open>A candidate below another candidate is deleted with it.\<close>

definition selected_targets :: "path \<Rightarrow> (string, path) dict \<Rightarrow> (string, path) dict" where
  "selected_targets vault_root candidates =
     filter (\<lambda>(name, _). \<not> list_ex (\<lambda>n. str_join ''/'' (take n (path_parts name)) \<in> fst ` set candidates)
       [1..<length (path_parts name)]) candidates"

definition mkdir_again :: "path \<Rightarrow> unit io" where
  "mkdir_again p = vbind next_failure (\<lambda>failure w.
     case failure of
       Some f \<Rightarrow> (Inl (OSError (fail_message f)), w)
     | None \<Rightarrow>
         if is_dir w p then (Inr (), w)
         else if path_exists w p \<or> \<not> is_dir w (butlast p) then (Inl (OSError (''Cannot make '' @ path_text p)), w)
         else (Inr (), put_node p NDir w))"

definition delete_directory :: "vault_env \<Rightarrow> mutation_context \<Rightarrow> path \<Rightarrow> path \<Rightarrow> unit io" where
  "delete_directory e c vault_root p =
     vbind (rmdir p) (\<lambda>_.
     vtry (record_vault_directory_mutation e c vault_root (relative_text vault_root p) ''delete'' True False None None
             [(''directory_state'', JBool True)])
       (\<lambda>cause. vbind (vtry (mkdir_again p) (\<lambda>compensation_error. rejected ''mutation_state_uncertain''
            (''Directory recording failed and '' @ quoted (relative_text vault_root p) @ '' could not be restored: '' @
             exn_text compensation_error))) (\<lambda>_. vraise cause)))"

definition delete_vault_paths ::
  "vault_env \<Rightarrow> mutation_context \<Rightarrow> path \<Rightarrow> path \<Rightarrow> string list \<Rightarrow> string list \<Rightarrow> DeletedVaultPath list io" where
  "delete_vault_paths e c temp_root vault_path source_paths confirmed_sources =
     (if source_paths = [] \<or> source_paths \<noteq> confirmed_sources
      then rejected ''confirmation_required'' ''Confirm the complete selection before deleting.''
      else let vault_root = env_realpath e vault_path
      in vbind (vfold (deletion_candidate e vault_root) source_paths []) (\<lambda>candidates.
         let selected = map snd (selected_targets vault_root candidates);
             names = selected_targets vault_root candidates
         in vbind (asks (\<lambda>w. (map (\<lambda>(name, target). if is_dir w target then Deleted_Directory name else Deleted_File name) names,
                filter (is_file w) selected, filter (\<lambda>t. \<not> is_file w t) selected))) (\<lambda>(results, single_files, trees).
         vbind (asks (\<lambda>w. concat (map (\<lambda>t. filter (\<lambda>q. is_below t q \<and> q \<noteq> t) (map fst (w_fs w))) trees))) (\<lambda>children.
         vbind (vfold (\<lambda>child _. validate_target e child) (sort children) ()) (\<lambda>_.
         vbind (asks (\<lambda>w. (remdups (sort (single_files @ filter (\<lambda>q. \<not> is_dir w q) children)),
                           remdups (trees @ filter (is_dir w) children)))) (\<lambda>(files, directories).
         vbind (vfold (\<lambda>p states. vbind (hash_file_bytes p) (\<lambda>h. vreturn (states @
           [\<lparr>fr_path = relative_text vault_root p, fr_expected_exists = True, fr_expected_sha256 = Some h, fr_content = None,
             fr_content_path = None, fr_content_sha256 = None\<rparr>]))) files []) (\<lambda>states.
         vbind (if states = [] then vreturn []
                else restore_vault_file_states e c temp_root vault_root states ''delete'' []) (\<lambda>_.
         vbind (vfold (\<lambda>p _. delete_directory e c vault_root p) (rev (sort_key length directories)) ()) (\<lambda>_.
         vbind (remove_favorite_paths e vault_root (map (relative_text vault_root) directories)) (\<lambda>_.
         vbind (refresh_vault e vault_root (Some (List.last vault_root))) (\<lambda>_.
         vreturn results)))))))))))"

end
