(* ===== verification/Vault_Atomic.thy ===== *)
theory Vault_Atomic
  imports Vault_Restore
begin

text \<open>
  A restoration of file states takes effect as a whole or not at all: every failing call, partial write and conflict
  leaves either the requested states or the states before, unless the compensation itself fails, which the code reports as
  uncertain.
\<close>

section \<open>Files that an operation leaves alone\<close>

definition same_on :: "path set \<Rightarrow> vault_world \<Rightarrow> vault_world \<Rightarrow> bool" where
  "same_on S w w' \<longleftrightarrow> (\<forall>p\<in>S. node_at w' p = node_at w p)"

interpretation on: io_frame "same_on S" for S
  by unfold_locales (simp_all add: same_on_def)

lemma same_onD: "same_on S w w' \<Longrightarrow> p \<in> S \<Longrightarrow> node_at w' p = node_at w p"
  by (simp add: same_on_def)

lemma same_on_mono: "same_on S w w' \<Longrightarrow> U \<subseteq> S \<Longrightarrow> same_on U w w'"
  by (auto simp: same_on_def)

lemma node_put [simp]: "p \<noteq> [] \<Longrightarrow> node_at (put_node p n w) q = (if q = p then Some n else node_at w q)"
  by (simp add: node_at_def put_node_def update_conv')

lemma node_drop [simp]: "p \<noteq> [] \<Longrightarrow> node_at (drop_node p w) q = (if q = p then None else node_at w q)"
  by (simp add: node_at_def drop_node_def delete_conv')

lemma node_other_fields [simp]:
  "node_at (w\<lparr>w_failures := fs\<rparr>) p = node_at w p" "node_at (w\<lparr>w_db := d\<rparr>) p = node_at w p"
  "node_at (w\<lparr>w_clock_reads := n\<rparr>) p = node_at w p" "node_at (w\<lparr>w_uuid_reads := n\<rparr>) p = node_at w p"
  by (simp_all add: node_at_def)

lemma is_below_refl [simp]: "is_below p p"
  by (simp add: is_below_def)

lemma is_below_append [simp]: "is_below p (p @ q)"
  by (simp add: is_below_def)

lemma is_below_iff: "is_below p q \<longleftrightarrow> (\<exists>r. q = p @ r)"
  unfolding is_below_def by (metis append_eq_conv_conj append_take_drop_id)

lemma is_below_trans: "is_below p q \<Longrightarrow> is_below q r \<Longrightarrow> is_below p r"
  by (auto simp: is_below_iff)

lemma is_below_butlast: "is_below p (butlast q) \<Longrightarrow> is_below p q"
  by (cases q rule: rev_cases) (auto simp: is_below_iff)

lemma keeps_next_failure_on: "keeps (same_on S) next_failure"
  by (auto simp: keeps_def next_failure_def same_on_def split: list.splits)

lemma keeps_clock_on: "keeps (same_on S) utc_now"
  by (auto simp: keeps_def utc_now_def same_on_def)

lemma keeps_uuid_on: "keeps (same_on S) fresh_uuid"
  by (auto simp: keeps_def fresh_uuid_def same_on_def)

lemma keeps_change_db_on: "keeps (same_on S) (change_db f)"
  by (auto simp: keeps_def change_db_def same_on_def split: prod.splits)

lemma keeps_after_failure_on:
  assumes "\<And>failure w. same_on S w (snd (f failure w))"
  shows "keeps (same_on S) (vbind next_failure f)"
  by (rule on.keeps_bind [OF keeps_next_failure_on]) (simp add: keeps_def assms)

lemma keeps_read_on: "keeps (same_on S) (read_file p)"
  unfolding read_file_def by (rule keeps_after_failure_on) (auto simp: same_on_def split: option.splits)

lemma keeps_hash_on: "keeps (same_on S) (hash_file_bytes p)"
  unfolding hash_file_bytes_def by (intro on.keeps_bind keeps_read_on on.keeps_return)

lemma keeps_write_on: "p \<notin> S \<Longrightarrow> keeps (same_on S) (write_node p c t)"
  unfolding write_node_def by (rule keeps_after_failure_on) (auto simp: same_on_def writable_def split: option.splits)

lemma keeps_unlink_on: "p \<notin> S \<Longrightarrow> keeps (same_on S) (unlink p)"
  unfolding unlink_def
  by (rule keeps_after_failure_on) (auto simp: same_on_def is_file_def file_bytes_def node_at_def drop_node_def delete_conv' split: option.splits)

lemma node_make_dirs:
  assumes "[] \<notin> set ps"
  shows "node_at (make_dirs ps w) q = (if q \<in> set ps \<and> node_at w q = None then Some NDir else node_at w q)"
  using assms
proof (induction ps arbitrary: w)
  case (Cons a ps)
  let ?w = "if path_exists w a then w else put_node a NDir w"
  have "make_dirs (a # ps) w = make_dirs ps ?w" by (simp add: make_dirs_def)
  moreover have "node_at ?w q = (if q = a \<and> node_at w q = None then Some NDir else node_at w q)"
    using Cons.prems by (auto simp: path_exists_def)
  ultimately show ?case using Cons by (auto simp: path_exists_def)
qed (simp add: make_dirs_def)

lemma path_prefixes_below: "q \<in> set (path_prefixes p) \<Longrightarrow> is_below q p \<and> q \<noteq> []"
  by (auto simp: path_prefixes_def is_below_def min_def)

lemma keeps_mkdir_on:
  assumes "\<forall>q\<in>S. \<not> is_below q p"
  shows "keeps (same_on S) (mkdir_parents p)"
proof -
  have none: "[] \<notin> set (path_prefixes p)" using path_prefixes_below by blast
  show ?thesis
    unfolding mkdir_parents_def
    by (rule keeps_after_failure_on)
      (use assms path_prefixes_below in \<open>auto simp: same_on_def node_make_dirs [OF none] split: option.splits\<close>)
qed

lemma keeps_session_on:
  assumes "keeps (same_on S) m"
  shows "keeps (same_on S) (in_session m)"
proof (rule keepsI)
  fix w r w'
  assume run: "in_session m w = (r, w')"
  obtain r1 w1 where m: "m w = (r1, w1)" by fastforce
  have w1: "same_on S w w1" using keepsD [OF assms m] .
  obtain f w2 where commit: "next_failure w1 = (Inr f, w2)" by (cases "w_failures w1") (auto simp: next_failure_def)
  have "same_on S w1 w2" using keepsD [OF keeps_next_failure_on commit] .
  with w1 have "same_on S w w2" by (rule on.frame_trans)
  then show "same_on S w w'"
    using run m w1 commit by (cases r1; cases f) (auto simp: in_session_def same_on_def)
qed

text \<open>The identity file and the refresh.\<close>

lemma keeps_identity_on:
  assumes "\<forall>q\<in>S. \<not> is_below q (vault_metadata_path (env_realpath e p))"
  shows "keeps (same_on S) (resolve_or_create_vault_identity e p)"
proof -
  have "keeps (same_on S) (load_metadata e q)" for q
    unfolding load_metadata_def
    by (intro on.keeps_bind keeps_read_on) (auto intro!: on.keeps_combinators split: option.splits json.splits)
  moreover have "vault_metadata_path (env_realpath e p) \<notin> S" using assms is_below_refl by blast
  moreover have "\<forall>q\<in>S. \<not> is_below q (butlast (vault_metadata_path (env_realpath e p)))"
    using assms is_below_butlast by blast
  ultimately show ?thesis
    unfolding resolve_or_create_vault_identity_def resolve_or_create_locked_def write_text_def write_bytes_def
    by (intro on.keeps_bind on.keeps_asks)
      (auto simp: Let_def intro!: on.keeps_combinators keeps_uuid_on keeps_clock_on keeps_mkdir_on keeps_write_on)
qed

lemma keeps_refresh_on:
  assumes "\<forall>q\<in>S. \<not> is_below q (vault_metadata_path (env_realpath e (env_realpath e p)))"
  shows "keeps (same_on S) (refresh_vault e p n)"
proof -
  have "keeps (same_on S) (refresh_file patterns vault_root v name now known q st)" for patterns vault_root v name now known q st
    unfolding refresh_file_def Let_def
    by (auto intro!: on.keeps_combinators keeps_hash_on keeps_change_db_on)
  then show ?thesis
    unfolding refresh_vault_def Let_def
    by (auto intro!: on.keeps_combinators keeps_identity_on [OF assms] keeps_clock_on keeps_session_on keeps_change_db_on)
qed

section \<open>Writing one target\<close>

text \<open>The content a request asks for, read from its source in a given world.\<close>

definition wanted :: "vault_world \<Rightarrow> FileStateRestore \<Rightarrow> string option" where
  "wanted w s = (case fr_content_path s of Some p \<Rightarrow> file_bytes w p | None \<Rightarrow> fr_content s)"

lemma write_node_effect:
  assumes "write_node p c t w = (r, w')" and "\<not> is_dir w p"
  shows "\<not> is_dir w' p" and "r = Inr () \<Longrightarrow> node_at w' p = Some (NFile c t)"
proof -
  obtain f w1 where run: "next_failure w = (Inr f, w1)" by (cases "w_failures w") (auto simp: next_failure_def)
  have same: "node_at w1 q = node_at w q" for q
    using run by (cases "w_failures w") (auto simp: next_failure_def)
  have "\<not> is_dir w' p \<and> (r = Inr () \<longrightarrow> node_at w' p = Some (NFile c t))"
  proof (cases "writable w1 p")
    case False
    then show ?thesis using assms run same by (auto simp: write_node_def vbind_def is_dir_def)
  next
    case True
    then have "p \<noteq> []" by (simp add: writable_def)
    then show ?thesis
      using assms run same True by (auto simp: write_node_def vbind_def is_dir_def split: option.splits)
  qed
  then show "\<not> is_dir w' p" and "r = Inr () \<Longrightarrow> node_at w' p = Some (NFile c t)" by auto
qed

lemma copy2_effect:
  assumes "copy2 src p w = (r, w')" and "\<not> is_dir w p" and "p \<notin> S"
  shows "same_on S w w'" and "\<not> is_dir w' p" and "r = Inr () \<Longrightarrow> node_at w' p = node_at w src \<and> is_file w src"
proof -
  consider (regular) c t where "node_at w src = Some (NFile c t)" | (other) "\<forall>c t. node_at w src \<noteq> Some (NFile c t)"
    by blast
  then have "same_on S w w' \<and> \<not> is_dir w' p \<and> (r = Inr () \<longrightarrow> node_at w' p = node_at w src \<and> is_file w src)"
  proof cases
    case regular
    then have run: "write_node p c t w = (r, w')" using assms(1,2) by (simp add: copy2_def)
    show ?thesis
      using keepsD [OF keeps_write_on [OF assms(3)] run] write_node_effect [OF run assms(2)] regular
      by (simp add: is_file_def file_bytes_def)
  next
    case other
    then have "w' = w \<and> r \<noteq> Inr ()" using assms(1) by (auto simp: copy2_def split: option.splits node.splits)
    then show ?thesis using assms(2) by (simp add: same_on_def)
  qed
  then show "same_on S w w'" and "\<not> is_dir w' p" and "r = Inr () \<Longrightarrow> node_at w' p = node_at w src \<and> is_file w src" by auto
qed

lemma unlink_effect:
  assumes "unlink p w = (r, w')"
  shows "r = Inr () \<Longrightarrow> node_at w' p = None"
    and "\<not> is_dir w p \<Longrightarrow> \<not> is_dir w' p"
proof -
  obtain f w1 where run: "next_failure w = (Inr f, w1)" by (cases "w_failures w") (auto simp: next_failure_def)
  have same: "node_at w1 q = node_at w q" for q
    using run by (cases "w_failures w") (auto simp: next_failure_def)
  have "p \<noteq> []" if "is_file w1 p" using that by (auto simp: is_file_def file_bytes_def node_at_def)
  then have "(r = Inr () \<longrightarrow> node_at w' p = None) \<and> (\<not> is_dir w p \<longrightarrow> \<not> is_dir w' p)"
    using assms run same by (auto simp: unlink_def vbind_def is_dir_def split: option.splits if_splits)
  then show "r = Inr () \<Longrightarrow> node_at w' p = None" and "\<not> is_dir w p \<Longrightarrow> \<not> is_dir w' p" by auto
qed

text \<open>A step that works on one target: bystanders stay and the target does not become a directory.\<close>

definition target_step :: "path set \<Rightarrow> path \<Rightarrow> unit io \<Rightarrow> (vault_world \<Rightarrow> vault_world \<Rightarrow> bool) \<Rightarrow> bool" where
  "target_step S t m post \<longleftrightarrow> (\<forall>w r w'. m w = (r, w') \<longrightarrow> \<not> is_dir w t \<longrightarrow>
     same_on S w w' \<and> \<not> is_dir w' t \<and> (r = Inr () \<longrightarrow> post w w'))"

lemma target_stepD:
  assumes "target_step S t m post" and "m w = (r, w')" and "\<not> is_dir w t"
  shows "same_on S w w'" and "\<not> is_dir w' t" and "r = Inr () \<Longrightarrow> post w w'"
  using assms unfolding target_step_def by blast+

lemma mkdir_then_copy:
  assumes "\<forall>q\<in>S. \<not> is_below q t" and "src \<in> S"
  shows "target_step S t (vbind (mkdir_parents (butlast t)) (\<lambda>_. copy2 src t))
    (\<lambda>w w'. node_at w' t = node_at w src \<and> is_file w src)"
  unfolding target_step_def
proof (intro allI impI)
  fix w r w'
  assume run: "vbind (mkdir_parents (butlast t)) (\<lambda>_. copy2 src t) w = (r, w')" and no_dir: "\<not> is_dir w t"
  obtain r1 w1 where mk: "mkdir_parents (butlast t) w = (r1, w1)" by fastforce
  have "\<forall>q\<in>S. \<not> is_below q (butlast t)" using assms(1) is_below_butlast by blast
  note S = keepsD [OF keeps_mkdir_on [OF this] mk]
  have "t \<noteq> []" using no_dir by (auto simp: is_dir_def node_at_def)
  then have "\<not> is_below t (butlast t)" by (cases t rule: rev_cases) (auto simp: is_below_iff)
  then have "same_on {t} w w1" using keepsD [OF keeps_mkdir_on mk, of "{t}"] by simp
  then have no_dir1: "\<not> is_dir w1 t" using no_dir by (simp add: same_on_def is_dir_def)
  have "t \<notin> S" using assms(1) is_below_refl by blast
  show "same_on S w w' \<and> \<not> is_dir w' t \<and> (r = Inr () \<longrightarrow> node_at w' t = node_at w src \<and> is_file w src)"
  proof (cases r1)
    case (Inl e)
    then show ?thesis using run mk S no_dir1 by (auto simp: vbind_def)
  next
    case (Inr u)
    then have copy: "copy2 src t w1 = (r, w')" using run mk by (simp add: vbind_def)
    note effect = copy2_effect [OF copy no_dir1 \<open>t \<notin> S\<close>]
    have "node_at w1 src = node_at w src" using same_onD [OF S assms(2)] .
    then show ?thesis using effect on.frame_trans [OF S effect(1)] by (auto simp: is_file_def file_bytes_def)
  qed
qed

lemma mkdir_then_write:
  assumes "\<forall>q\<in>S. \<not> is_below q t"
  shows "target_step S t (vbind (mkdir_parents (butlast t)) (\<lambda>_. write_bytes t c)) (\<lambda>w w'. file_bytes w' t = Some c)"
  unfolding target_step_def
proof (intro allI impI)
  fix w r w'
  assume run: "vbind (mkdir_parents (butlast t)) (\<lambda>_. write_bytes t c) w = (r, w')" and no_dir: "\<not> is_dir w t"
  obtain r1 w1 where mk: "mkdir_parents (butlast t) w = (r1, w1)" by fastforce
  have "\<forall>q\<in>S. \<not> is_below q (butlast t)" using assms is_below_butlast by blast
  note S = keepsD [OF keeps_mkdir_on [OF this] mk]
  have "t \<noteq> []" using no_dir by (auto simp: is_dir_def node_at_def)
  then have "\<not> is_below t (butlast t)" by (cases t rule: rev_cases) (auto simp: is_below_iff)
  then have "same_on {t} w w1" using keepsD [OF keeps_mkdir_on mk, of "{t}"] by simp
  then have no_dir1: "\<not> is_dir w1 t" using no_dir by (simp add: same_on_def is_dir_def)
  have "t \<notin> S" using assms is_below_refl by blast
  show "same_on S w w' \<and> \<not> is_dir w' t \<and> (r = Inr () \<longrightarrow> file_bytes w' t = Some c)"
  proof (cases r1)
    case (Inl e)
    then show ?thesis using run mk S no_dir1 by (auto simp: vbind_def)
  next
    case (Inr u)
    define w2 where "w2 = w1\<lparr>w_clock_reads := Suc (w_clock_reads w1)\<rparr>"
    have same2: "same_on S w1 w2" and no_dir2: "\<not> is_dir w2 t" using no_dir1 by (auto simp: w2_def same_on_def is_dir_def)
    have written: "write_node t c (w_clock w1 (w_clock_reads w1) * 1000) w2 = (r, w')"
      using run mk Inr by (simp add: vbind_def write_bytes_def utc_now_def w2_def)
    have "same_on S w2 w'" using keepsD [OF keeps_write_on [OF \<open>t \<notin> S\<close>] written] .
    then have "same_on S w w'" using on.frame_trans S same2 by metis
    then show ?thesis using write_node_effect [OF written no_dir2] by (auto simp: file_bytes_def)
  qed
qed

section \<open>Loops over targets\<close>

definition stable_post :: "path set \<Rightarrow> path \<Rightarrow> (vault_world \<Rightarrow> vault_world \<Rightarrow> bool) \<Rightarrow> bool" where
  "stable_post K t post \<longleftrightarrow> (\<forall>w0 w w1 w2. same_on (insert t K) w0 w \<longrightarrow> post w w1 \<longrightarrow> same_on {t} w1 w2 \<longrightarrow> post w0 w2)"

lemma target_loop:
  assumes "\<forall>item\<in>set items. rs_full_path item \<in> T \<and> stable_post K (rs_full_path item) (post item) \<and>
      target_step (K \<union> (T - {rs_full_path item})) (rs_full_path item) (f item) (post item)"
    and "distinct (map rs_full_path items)" and "\<forall>t\<in>T. \<not> is_dir w t"
    and "vfold (\<lambda>item _. f item) items () w = (r, w')"
  shows "same_on (K \<union> (T - set (map rs_full_path items))) w w' \<and> (\<forall>t\<in>T. \<not> is_dir w' t) \<and>
    (r = Inr () \<longrightarrow> (\<forall>item\<in>set items. post item w w'))"
  using assms
proof (induction items arbitrary: w)
  case Nil
  then show ?case by (auto simp: vreturn_def same_on_def)
next
  case (Cons item items)
  let ?t = "rs_full_path item" and ?rest = "set (map rs_full_path items)"
  obtain r1 w1 where one: "f item w = (r1, w1)" by fastforce
  have t: "?t \<in> T" "stable_post K ?t (post item)" "target_step (K \<union> (T - {?t})) ?t (f item) (post item)"
    using Cons.prems(1) by auto
  note step = target_stepD [OF t(3) one]
  have no_dir: "\<not> is_dir w ?t" using Cons.prems(3) t(1) by blast
  have kept1: "same_on (K \<union> (T - {?t})) w w1" using step(1) no_dir .
  have free1: "\<forall>u\<in>T. \<not> is_dir w1 u"
  proof
    fix u assume "u \<in> T"
    show "\<not> is_dir w1 u"
    proof (cases "u = ?t")
      case True
      then show ?thesis using step(2) no_dir by simp
    next
      case False
      then have "node_at w1 u = node_at w u" using same_onD [OF kept1] \<open>u \<in> T\<close> by blast
      then show ?thesis using Cons.prems(3) \<open>u \<in> T\<close> by (simp add: is_dir_def)
    qed
  qed
  show ?case
  proof (cases r1)
    case (Inl e)
    then have "w' = w1 \<and> r = Inl e" using Cons.prems(4) one by (simp add: vbind_def)
    moreover have "same_on (K \<union> (T - set (map rs_full_path (item # items)))) w w1"
      by (rule same_on_mono [OF kept1]) auto
    ultimately show ?thesis using free1 by auto
  next
    case (Inr u)
    then have rest: "vfold (\<lambda>item _. f item) items () w1 = (r, w')" using Cons.prems(4) one by (simp add: vbind_def)
    have "same_on (K \<union> (T - ?rest)) w1 w' \<and> (\<forall>t\<in>T. \<not> is_dir w' t) \<and>
        (r = Inr () \<longrightarrow> (\<forall>item\<in>set items. post item w1 w'))"
      using Cons.prems(1,2) by (intro Cons.IH [OF _ _ free1 rest]) auto
    then have kept2: "same_on (K \<union> (T - ?rest)) w1 w'" and free2: "\<forall>t\<in>T. \<not> is_dir w' t"
        and posts: "r = Inr () \<longrightarrow> (\<forall>item\<in>set items. post item w1 w')" by blast+
    have "same_on (K \<union> (T - set (map rs_full_path (item # items)))) w w'"
      by (rule on.frame_trans [OF same_on_mono [OF kept1] same_on_mono [OF kept2]]) auto
    moreover have "post item w w'" if "r = Inr ()"
    proof -
      have "?t \<notin> ?rest" using Cons.prems(2) by simp
      then have "same_on {?t} w1 w'" using t(1) by (intro same_on_mono [OF kept2]) auto
      moreover have "post item w w1" using step(3) no_dir Inr by simp
      moreover have "same_on (insert ?t K) w w" by (rule on.frame_refl)
      ultimately show ?thesis using t(2) unfolding stable_post_def by blast
    qed
    moreover have "post x w w'" if "r = Inr ()" and x: "x \<in> set items" for x
    proof -
      have "rs_full_path x \<noteq> ?t" using Cons.prems(2) x by (auto simp: image_iff)
      then have "same_on (insert (rs_full_path x) K) w w1"
        using Cons.prems(1) x by (intro same_on_mono [OF kept1]) auto
      moreover have "post x w1 w'" using posts that by blast
      moreover have "same_on {rs_full_path x} w' w'" by (rule on.frame_refl)
      moreover have "stable_post K (rs_full_path x) (post x)" using Cons.prems(1) x by simp
      ultimately show ?thesis unfolding stable_post_def by blast
    qed
    ultimately show ?thesis using free2 by auto
  qed
qed

section \<open>The capture\<close>

lemma vbindE:
  assumes "vbind m f w = (r, w')"
  obtains (raised) err where "m w = (Inl err, w')" "r = Inl err"
    | (bound) x w1 where "m w = (Inr x, w1)" "f x w1 = (r, w')"
  using assms by (cases "m w"; cases "fst (m w)") (auto simp: vbind_def)

definition compensation_file :: "path \<Rightarrow> nat \<Rightarrow> path" where
  "compensation_file temp_root i = temp_root @ [show_nat i @ ''.bin'']"

lemma show_nat_inj: "show_nat m = show_nat n \<Longrightarrow> m = n"
proof (induction m arbitrary: n rule: show_nat.induct)
  case (1 m)
  have digits: "m mod 10 = n mod 10" and front: "butlast (show_nat m) = butlast (show_nat n)"
    using 1(2) digit_char_eq_iff [of m n] by (auto simp: show_nat.simps [of m] show_nat.simps [of n] split: if_splits)
  show ?case
  proof (cases "m < 10 \<or> n < 10")
    case True
    then have "m < 10 \<and> n < 10"
      using front show_nat_not_Nil [of "m div 10"] show_nat_not_Nil [of "n div 10"]
      by (auto simp: show_nat.simps [of m] show_nat.simps [of n] simp del: show_nat_not_Nil split: if_splits)
    then show ?thesis using digits by simp
  next
    case False
    then have "show_nat (m div 10) = show_nat (n div 10)"
      using front by (simp add: show_nat.simps [of m] show_nat.simps [of n])
    then have "m div 10 = n div 10" using 1(1) False by simp
    then show ?thesis using digits by (metis div_mult_mod_eq)
  qed
qed

lemma compensation_file_inj [simp]: "compensation_file temp_root i = compensation_file temp_root j \<longleftrightarrow> i = j"
  by (auto simp: compensation_file_def dest: show_nat_inj)

text \<open>What the capture promises for one target.\<close>

definition captured_state :: "path \<Rightarrow> vault_world \<Rightarrow> vault_world \<Rightarrow> nat \<Rightarrow> path \<Rightarrow> CapturedFileState \<Rightarrow> bool" where
  "captured_state temp_root w w' i t before \<longleftrightarrow> \<not> is_dir w t \<and> cs_exists before = (node_at w t \<noteq> None) \<and>
     (cs_exists before \<longrightarrow> cs_compensation_path before = Some (compensation_file temp_root i) \<and>
        node_at w' (compensation_file temp_root i) = node_at w t)"

lemma hash_same_nodes: "hash_file_bytes p w = (r, w') \<Longrightarrow> node_at w' q = node_at w q"
  using keepsD [OF keeps_hash_on [of UNIV]] by (simp add: same_on_def)

lemma capture_one_effect:
  assumes run: "capture_one temp_root (i, item) cap w = (r, w')"
    and fresh: "node_at w (compensation_file temp_root i) = None"
  shows "same_on (- {compensation_file temp_root i}) w w' \<and>
    (\<forall>cap'. r = Inr cap' \<longrightarrow> (\<exists>before. cap' = AList.update (rs_relative_path item) before cap \<and>
       captured_state temp_root w w' i (rs_full_path item) before))"
proof (cases "path_exists w (rs_full_path item)")
  case False
  then have "w' = w" and "\<And>cap'. r = Inr cap' \<Longrightarrow> cap' = AList.update (rs_relative_path item)
      \<lparr>cs_exists = False, cs_sha256 = None, cs_compensation_path = None, cs_snapshot_id = None, cs_snapshot_ref = None\<rparr> cap"
    using run by (auto simp: capture_one_def vbind_def asks_def vreturn_def vraise_def Let_def split: if_splits)
  then show ?thesis
    using False by (auto simp: same_on_def captured_state_def path_exists_def is_dir_def)
next
  case True
  let ?t = "rs_full_path item" and ?c = "compensation_file temp_root i"
  show ?thesis
  proof (cases "is_file w ?t")
    case False
    then show ?thesis using run True by (auto simp: capture_one_def vbind_def asks_def vraise_def same_on_def)
  next
    case reg: True
    obtain rh w1 where hash: "hash_file_bytes ?t w = (rh, w1)" by fastforce
    note nodes1 = hash_same_nodes [OF hash]
    show ?thesis
    proof (cases "\<exists>h. rh = Inr h \<and> fr_expected_exists (rs_request item) \<and> fr_expected_sha256 (rs_request item) = Some h")
      case False
      then have "w' = w1 \<and> (\<exists>err. r = Inl err)"
        using run True reg hash by (cases rh) (auto simp: capture_one_def vbind_def asks_def vraise_def vreturn_def Let_def split: if_splits)
      then show ?thesis using nodes1 by (auto simp: same_on_def)
    next
      case matches: True
      then obtain h where h: "rh = Inr h" "fr_expected_exists (rs_request item)" "fr_expected_sha256 (rs_request item) = Some h" by blast
      obtain rc w2 where copy: "copy2 ?t ?c w1 = (rc, w2)" by fastforce
      have "\<not> is_dir w1 ?c" using fresh nodes1 by (simp add: is_dir_def)
      note effect = copy2_effect [OF copy this, of "- {?c}", simplified]
      have kept2: "same_on (- {?c}) w w2" using effect(1) nodes1 by (simp add: same_on_def)
      show ?thesis
      proof (cases rc)
        case (Inl err)
        then have "w' = w2 \<and> r = Inl err"
          using run True reg hash h copy by (auto simp: capture_one_def vbind_def asks_def vreturn_def Let_def compensation_file_def)
        then show ?thesis using kept2 by auto
      next
        case (Inr u)
        obtain rh2 w3 where hash2: "hash_file_bytes ?c w2 = (rh2, w3)" by fastforce
        note nodes3 = hash_same_nodes [OF hash2]
        have "w' = w3" and result: "\<And>cap'. r = Inr cap' \<Longrightarrow> cap' = AList.update (rs_relative_path item)
            \<lparr>cs_exists = True, cs_sha256 = Some h, cs_compensation_path = Some ?c, cs_snapshot_id = None, cs_snapshot_ref = None\<rparr> cap"
          using run True reg hash h copy Inr hash2
          by (cases rh2; auto simp: capture_one_def vbind_def asks_def vreturn_def vraise_def Let_def compensation_file_def split: if_splits)+
        moreover have "node_at w3 ?c = node_at w ?t" using effect(3) Inr nodes1 nodes3 by simp
        moreover have "\<not> is_dir w ?t" using reg by (auto simp: is_file_def file_bytes_def is_dir_def split: option.splits)
        ultimately show ?thesis
          using kept2 nodes3 True by (auto simp: captured_state_def path_exists_def same_on_def)
      qed
    qed
  qed
qed

lemma capture_loop:
  assumes "vfold (capture_one temp_root) (List.enumerate n items) cap w = (r, w')"
    and "\<forall>i\<ge>n. node_at w (compensation_file temp_root i) = None"
    and "distinct (map rs_relative_path items)"
    and "\<forall>item\<in>set items. \<not> is_below temp_root (rs_full_path item)"
  shows "same_on {p. \<forall>i\<ge>n. p \<noteq> compensation_file temp_root i} w w' \<and>
    (\<forall>cap'. r = Inr cap' \<longrightarrow>
      (\<forall>k. k \<notin> set (map rs_relative_path items) \<longrightarrow> map_of cap' k = map_of cap k) \<and>
      (\<forall>(i, item)\<in>set (List.enumerate n items). \<exists>before. map_of cap' (rs_relative_path item) = Some before \<and>
         captured_state temp_root w w' i (rs_full_path item) before))"
  using assms
proof (induction items arbitrary: n cap w)
  case Nil
  then show ?case by (auto simp: vreturn_def same_on_def)
next
  case (Cons item items)
  let ?c = "compensation_file temp_root n"
  obtain r1 w1 where one: "capture_one temp_root (n, item) cap w = (r1, w1)" by fastforce
  have fresh: "node_at w ?c = None" using Cons.prems(2) by simp
  note effect = capture_one_effect [OF one fresh]
  have kept1: "same_on {p. \<forall>i\<ge>n. p \<noteq> compensation_file temp_root i} w w1"
    by (rule same_on_mono [OF conjunct1 [OF effect]]) auto
  show ?case
  proof (cases r1)
    case (Inl err)
    then have "w' = w1 \<and> r = Inl err" using Cons.prems(1) one by (simp add: vbind_def)
    then show ?thesis using kept1 by simp
  next
    case (Inr cap1)
    then obtain before where cap1: "cap1 = AList.update (rs_relative_path item) before cap"
        and before: "captured_state temp_root w w1 n (rs_full_path item) before"
      using effect by blast
    have rest: "vfold (capture_one temp_root) (List.enumerate (Suc n) items) cap1 w1 = (r, w')"
      using Cons.prems(1) one Inr by (simp add: vbind_def)
    have "\<forall>i\<ge>Suc n. node_at w1 (compensation_file temp_root i) = None"
      using effect Cons.prems(2) by (auto simp: same_on_def)
    note ih = Cons.IH [OF rest this]
    have kept2: "same_on {p. \<forall>i\<ge>Suc n. p \<noteq> compensation_file temp_root i} w1 w'"
        and keys: "\<And>cap' k. r = Inr cap' \<Longrightarrow> k \<notin> set (map rs_relative_path items) \<Longrightarrow> map_of cap' k = map_of cap1 k"
        and states: "\<And>cap' i x. r = Inr cap' \<Longrightarrow> (i, x) \<in> set (List.enumerate (Suc n) items) \<Longrightarrow>
          \<exists>before. map_of cap' (rs_relative_path x) = Some before \<and> captured_state temp_root w1 w' i (rs_full_path x) before"
      using ih Cons.prems(3,4) by auto
    have outside: "rs_full_path x \<noteq> compensation_file temp_root i" if "x \<in> set (item # items)" for x i
      using Cons.prems(4) that by (auto simp: compensation_file_def)
    have "same_on {p. \<forall>i\<ge>n. p \<noteq> compensation_file temp_root i} w w'"
      by (rule on.frame_trans [OF kept1 same_on_mono [OF kept2]]) (auto dest: Suc_leD)
    moreover have "map_of cap' k = map_of cap k" if "r = Inr cap'" "k \<notin> set (map rs_relative_path (item # items))" for cap' k
      using keys [OF that(1), of k] that(2) by (simp add: cap1 update_conv')
    moreover have "\<exists>before. map_of cap' (rs_relative_path x) = Some before \<and> captured_state temp_root w w' i (rs_full_path x) before"
      if "r = Inr cap'" "(i, x) \<in> set (List.enumerate n (item # items))" for cap' i x
    proof (cases "(i, x) = (n, item)")
      case True
      have "node_at w' ?c = node_at w1 ?c" using same_onD [OF kept2, of ?c] by simp
      then have "captured_state temp_root w w' n (rs_full_path item) before" using before by (simp add: captured_state_def)
      moreover have "map_of cap' (rs_relative_path item) = Some before"
        using keys [OF that(1), of "rs_relative_path item"] Cons.prems(3) by (simp add: cap1 update_conv')
      ultimately show ?thesis using True by auto
    next
      case False
      then have later: "(i, x) \<in> set (List.enumerate (Suc n) items)" using that(2) by auto
      then have "x \<in> set items" by (metis in_set_enumerate_eq nth_mem fst_conv snd_conv less_add_same_cancel1 add.commute le_add_diff_inverse nat_add_left_cancel_less)
      then have "node_at w1 (rs_full_path x) = node_at w (rs_full_path x)"
        using same_onD [OF kept1, of "rs_full_path x"] outside by simp
      then show ?thesis using states [OF that(1) later] by (auto simp: captured_state_def is_dir_def)
    qed
    ultimately show ?thesis by blast
  qed
qed

lemma capture_one_paths:
  assumes "capture_one temp_root (i, item) cap w = (Inr cap', w')"
    and "\<forall>k before c. map_of cap k = Some before \<longrightarrow> cs_compensation_path before = Some c \<longrightarrow> is_below temp_root c"
  shows "\<forall>k before c. map_of cap' k = Some before \<longrightarrow> cs_compensation_path before = Some c \<longrightarrow> is_below temp_root c"
proof -
  obtain before where "cap' = AList.update (rs_relative_path item) before cap"
      "cs_compensation_path before = None \<or> cs_compensation_path before = Some (temp_root @ [show_nat i @ ''.bin''])"
    using assms(1)
    by (auto simp: capture_one_def asks_def vreturn_def vraise_def Let_def elim!: vbindE split: if_splits)
  then show ?thesis using assms(2) by (auto simp: update_conv')
qed

lemma capture_paths:
  assumes "vfold (capture_one temp_root) xs cap w = (r, w')" and "r = Inr cap'"
    and "\<forall>k before c. map_of cap k = Some before \<longrightarrow> cs_compensation_path before = Some c \<longrightarrow> is_below temp_root c"
  shows "\<forall>k before c. map_of cap' k = Some before \<longrightarrow> cs_compensation_path before = Some c \<longrightarrow> is_below temp_root c"
  using assms
proof (induction xs arbitrary: cap w)
  case Nil
  then show ?case by (simp add: vreturn_def)
next
  case (Cons x xs)
  from Cons.prems(1) have "vbind (capture_one temp_root x cap) (vfold (capture_one temp_root) xs) w = (r, w')" by simp
  then obtain cap1 w1 where one: "capture_one temp_root x cap w = (Inr cap1, w1)"
      and rest: "vfold (capture_one temp_root) xs cap1 w1 = (r, w')"
    using Cons.prems(2) by (cases rule: vbindE) auto
  obtain i item where "x = (i, item)" by fastforce
  then show ?case using Cons.IH [OF rest Cons.prems(2)] capture_one_paths one Cons.prems(3) by blast
qed

section \<open>The transaction\<close>

definition targets :: "ResolvedFileStateRestore list \<Rightarrow> path set" where
  "targets states = set (map rs_full_path states)"

definition sources :: "ResolvedFileStateRestore list \<Rightarrow> path set" where
  "sources states = {p. \<exists>item\<in>set states. fr_content_path (rs_request item) = Some p}"

text \<open>
  No target lies on or below another or leads to the identity file of the vault, and temporary files and content sources
  are elsewhere.
\<close>

definition separate :: "path \<Rightarrow> path \<Rightarrow> ResolvedFileStateRestore list \<Rightarrow> bool" where
  "separate temp_root vault_root states \<longleftrightarrow> distinct (map rs_full_path states) \<and> distinct (map rs_relative_path states) \<and>
     (\<forall>t\<in>targets states. (\<forall>u\<in>targets states. is_below t u \<longrightarrow> t = u) \<and> \<not> is_below temp_root t \<and>
        \<not> is_below t (vault_metadata_path vault_root)) \<and>
     \<not> is_below temp_root (vault_metadata_path vault_root) \<and>
     (\<forall>p\<in>sources states. \<not> is_below temp_root p \<and> (\<forall>t\<in>targets states. \<not> is_below p t))"

definition aside :: "path \<Rightarrow> ResolvedFileStateRestore list \<Rightarrow> path set" where
  "aside temp_root states = {p. is_below temp_root p} \<union> sources states"

lemma aside_not_above:
  assumes "separate temp_root vault_root states" and "t \<in> targets states"
  shows "\<forall>q\<in>aside temp_root states \<union> (targets states - {t}). \<not> is_below q t"
  using assms is_below_trans [of temp_root] by (auto simp: separate_def aside_def)

lemma wanted_same_sources:
  assumes "same_on (sources states) w w'" and "item \<in> set states"
  shows "wanted w' (rs_request item) = wanted w (rs_request item)"
proof (cases "fr_content_path (rs_request item)")
  case (Some p)
  then have "p \<in> sources states" using assms(2) by (auto simp: sources_def)
  then have "node_at w' p = node_at w p" by (rule same_onD [OF assms(1)])
  then show ?thesis by (simp add: wanted_def Some file_bytes_def)
qed (simp add: wanted_def)

lemma wanted_same:
  assumes "same_on (aside temp_root states) w w'" and "item \<in> set states"
  shows "wanted w' (rs_request item) = wanted w (rs_request item)"
  by (rule wanted_same_sources [OF same_on_mono [OF assms(1)] assms(2)]) (simp add: aside_def)

text \<open>The two loops of the application.\<close>

definition removed :: "ResolvedFileStateRestore \<Rightarrow> vault_world \<Rightarrow> vault_world \<Rightarrow> bool" where
  "removed item w w' \<longleftrightarrow> (\<not> restore_exists (rs_request item) \<longrightarrow> node_at w' (rs_full_path item) = None)"

lemma remove_restored_step:
  assumes "rs_full_path item \<notin> S"
  shows "target_step S (rs_full_path item) (remove_restored item) (removed item)"
  unfolding target_step_def
proof (intro allI impI)
  fix w r w'
  assume run: "remove_restored item w = (r, w')" and no_dir: "\<not> is_dir w (rs_full_path item)"
  show "same_on S w w' \<and> \<not> is_dir w' (rs_full_path item) \<and> (r = Inr () \<longrightarrow> removed item w w')"
  proof (cases "\<not> restore_exists (rs_request item) \<and> path_exists w (rs_full_path item)")
    case True
    then have un: "unlink (rs_full_path item) w = (r, w')" using run by (simp add: remove_restored_def vbind_def asks_def)
    show ?thesis
      using unlink_effect [OF un] keepsD [OF keeps_unlink_on [OF assms] un] no_dir by (simp add: removed_def)
  next
    case False
    then have "w' = w \<and> r = Inr ()" using run by (auto simp: remove_restored_def vbind_def asks_def vreturn_def)
    then show ?thesis using no_dir False by (auto simp: removed_def path_exists_def same_on_def)
  qed
qed

definition written :: "ResolvedFileStateRestore \<Rightarrow> vault_world \<Rightarrow> vault_world \<Rightarrow> bool" where
  "written item w w' \<longleftrightarrow>
     (if restore_exists (rs_request item)
      then wanted w (rs_request item) \<noteq> None \<and> file_bytes w' (rs_full_path item) = wanted w (rs_request item)
      else node_at w (rs_full_path item) = None \<longrightarrow> node_at w' (rs_full_path item) = None)"

lemma write_restored_step:
  assumes "separate temp_root vault_root states" and "item \<in> set states"
  shows "target_step (aside temp_root states \<union> (targets states - {rs_full_path item})) (rs_full_path item)
    (write_restored item) (written item)"
proof -
  let ?t = "rs_full_path item" and ?S = "aside temp_root states \<union> (targets states - {rs_full_path item})"
  have above: "\<forall>q\<in>?S. \<not> is_below q ?t" using aside_not_above assms by (auto simp: targets_def)
  show ?thesis
  proof (cases "restore_exists (rs_request item)")
    case False
    then show ?thesis by (auto simp: target_step_def write_restored_def vreturn_def written_def same_on_def)
  next
    case exists: True
    show ?thesis
    proof (cases "fr_content_path (rs_request item)")
      case None
      then obtain c where c: "fr_content (rs_request item) = Some c" using exists by (auto simp: restore_exists_def)
      show ?thesis
        using mkdir_then_write [OF above, of c] exists None c
        by (simp add: target_step_def write_restored_def written_def wanted_def)
    next
      case (Some p)
      then have "p \<in> ?S" using assms(2) by (auto simp: aside_def sources_def)
      then show ?thesis
        using mkdir_then_copy [OF above] exists Some
        by (auto simp: target_step_def write_restored_def written_def wanted_def is_file_def file_bytes_def)
    qed
  qed
qed

lemma stable_removed: "stable_post K (rs_full_path item) (removed item)"
  by (auto simp: stable_post_def removed_def same_on_def)

lemma stable_written:
  assumes "item \<in> set states"
  shows "stable_post (aside temp_root states) (rs_full_path item) (written item)"
  unfolding stable_post_def
proof (intro allI impI)
  fix w0 w w1 w2
  assume before: "same_on (insert (rs_full_path item) (aside temp_root states)) w0 w" and post: "written item w w1"
    and after: "same_on {rs_full_path item} w1 w2"
  have "wanted w (rs_request item) = wanted w0 (rs_request item)"
    by (rule wanted_same [OF same_on_mono [OF before] assms]) blast
  moreover have "node_at w (rs_full_path item) = node_at w0 (rs_full_path item)" "node_at w2 (rs_full_path item) = node_at w1 (rs_full_path item)"
    using same_onD [OF before] same_onD [OF after] by simp_all
  moreover from this have "file_bytes w2 (rs_full_path item) = file_bytes w1 (rs_full_path item)" by (simp add: file_bytes_def)
  ultimately show "written item w0 w2" using post by (auto simp: written_def split: if_splits)
qed

text \<open>Reading does not change files.\<close>

lemma restore_hash_same: "keeps (same_on S) (restore_content_hash s)"
  unfolding restore_content_hash_def
  by (intro on.keeps_bind) (auto intro!: on.keeps_combinators keeps_hash_on split: option.splits)

lemma build_same: "keeps (same_on S) (build_file_state_transitions states before_states n)"
proof -
  have "keeps (same_on S) (build_transition before_states n item ts)" for item ts
    unfolding build_transition_def
    by (intro on.keeps_bind on.keeps_asks restore_hash_same)
      (auto intro!: on.keeps_combinators keeps_hash_on split: option.splits)
  then show ?thesis unfolding build_file_state_transitions_def by (intro on.keeps_fold)
qed

definition restored :: "vault_world \<Rightarrow> vault_world \<Rightarrow> ResolvedFileStateRestore list \<Rightarrow> bool" where
  "restored w w' states \<longleftrightarrow> (\<forall>item\<in>set states.
     if restore_exists (rs_request item)
     then wanted w (rs_request item) \<noteq> None \<and> file_bytes w' (rs_full_path item) = wanted w (rs_request item)
     else node_at w' (rs_full_path item) = None)"

lemma apply_effect:
  assumes sep: "separate temp_root vault_root states" and no_dir: "\<forall>t\<in>targets states. \<not> is_dir w t"
    and run: "apply_file_state_restores states w = (r, w')"
  shows "same_on (aside temp_root states) w w' \<and> (\<forall>t\<in>targets states. \<not> is_dir w' t) \<and> (r = Inr () \<longrightarrow> restored w w' states)"
proof -
  let ?K = "aside temp_root states" and ?T = "targets states"
  define check where "check = vfold (\<lambda>item _. vbind (restore_content_hash (rs_request item)) (\<lambda>_. vreturn ())) states ()"
  have reads: "keeps (same_on UNIV) check"
    unfolding check_def by (intro on.keeps_fold on.keeps_bind restore_hash_same on.keeps_return)
  have distinct: "distinct (map rs_full_path states)" using sep by (simp add: separate_def)
  have outside: "rs_full_path item \<notin> ?K \<union> (?T - {rs_full_path item})" if "item \<in> set states" for item
  proof -
    have "rs_full_path item \<in> targets states" using that by (simp add: targets_def)
    then show ?thesis using aside_not_above [OF sep] is_below_refl by blast
  qed
  have all: "\<forall>item\<in>set states. rs_full_path item \<in> ?T" by (simp add: targets_def)
  have run': "vbind check (\<lambda>_. vbind (vfold (\<lambda>item _. remove_restored item) states ()) (\<lambda>_.
      vfold (\<lambda>item _. write_restored item) states ())) w = (r, w')"
    using run by (simp add: apply_file_state_restores_def check_def)
  from run' show ?thesis
  proof (cases rule: vbindE)
    case (raised err)
    then show ?thesis using keepsD [OF reads raised(1)] no_dir by (auto simp: same_on_def is_dir_def)
  next
    case (bound u w1)
    have same1: "node_at w1 p = node_at w p" for p using keepsD [OF reads bound(1)] by (simp add: same_on_def)
    then have no_dir1: "\<forall>t\<in>?T. \<not> is_dir w1 t" using no_dir by (simp add: is_dir_def)
    from bound(2) show ?thesis
    proof (cases rule: vbindE)
      case (raised err)
      have "same_on (?K \<union> (?T - set (map rs_full_path states))) w1 w' \<and> (\<forall>t\<in>?T. \<not> is_dir w' t) \<and>
          (Inl err = Inr () \<longrightarrow> (\<forall>item\<in>set states. removed item w1 w'))"
        by (rule target_loop [OF _ distinct no_dir1 raised(1)]) (use all outside stable_removed remove_restored_step in auto)
      then show ?thesis using same1 raised(2) by (auto simp: same_on_def)
    next
      case bound2: (bound v w2)
      have removes: "same_on (?K \<union> (?T - set (map rs_full_path states))) w1 w2 \<and> (\<forall>t\<in>?T. \<not> is_dir w2 t) \<and>
          (Inr v = (Inr () :: vault_exn + unit) \<longrightarrow> (\<forall>item\<in>set states. removed item w1 w2))"
        by (rule target_loop [OF _ distinct no_dir1 bound2(1)]) (use all outside stable_removed remove_restored_step in auto)
      have writes: "same_on (?K \<union> (?T - set (map rs_full_path states))) w2 w' \<and> (\<forall>t\<in>?T. \<not> is_dir w' t) \<and>
          (r = Inr () \<longrightarrow> (\<forall>item\<in>set states. written item w2 w'))"
        by (rule target_loop [OF _ distinct _ bound2(2)])
          (use all removes stable_written write_restored_step [OF sep] in auto)
      have K2: "same_on ?K w w2" using removes same1 by (auto simp: same_on_def)
      have "restored w w' states" if "r = Inr ()"
        unfolding restored_def
      proof
        fix item assume item: "item \<in> set states"
        have "removed item w1 w2" "written item w2 w'" using removes writes that item by auto
        moreover have "wanted w2 (rs_request item) = wanted w (rs_request item)" using wanted_same [OF K2 item] .
        ultimately show "if restore_exists (rs_request item)
            then wanted w (rs_request item) \<noteq> None \<and> file_bytes w' (rs_full_path item) = wanted w (rs_request item)
            else node_at w' (rs_full_path item) = None"
          by (auto simp: removed_def written_def)
      qed
      moreover have "same_on ?K w w'" using K2 writes by (auto simp: same_on_def)
      ultimately show ?thesis using writes by blast
    qed
  qed
qed

text \<open>The loop of the compensation.\<close>

definition put_back :: "(string, CapturedFileState) dict \<Rightarrow> ResolvedFileStateRestore \<Rightarrow> vault_world \<Rightarrow> vault_world \<Rightarrow> bool" where
  "put_back cap item w w' \<longleftrightarrow> (\<exists>before. map_of cap (rs_relative_path item) = Some before \<and>
     (if cs_exists before
      then \<exists>c. cs_compensation_path before = Some c \<and> node_at w' (rs_full_path item) = node_at w c
      else node_at w' (rs_full_path item) = None))"

definition copies_aside :: "path \<Rightarrow> (string, CapturedFileState) dict \<Rightarrow> bool" where
  "copies_aside temp_root cap \<longleftrightarrow> (\<forall>k before c. map_of cap k = Some before \<longrightarrow> cs_compensation_path before = Some c \<longrightarrow> is_below temp_root c)"

lemma compensate_step:
  assumes "separate temp_root vault_root states" and "item \<in> set states" and "copies_aside temp_root cap"
  shows "target_step (aside temp_root states \<union> (targets states - {rs_full_path item})) (rs_full_path item)
    (compensate_one cap item) (put_back cap item)"
proof (cases "map_of cap (rs_relative_path item)")
  case None
  then show ?thesis by (auto simp: target_step_def compensate_one_def vraise_def same_on_def)
next
  case (Some before)
  let ?t = "rs_full_path item" and ?S = "aside temp_root states \<union> (targets states - {rs_full_path item})"
  have above: "\<forall>q\<in>?S. \<not> is_below q ?t" using aside_not_above assms by (auto simp: targets_def)
  then have notin: "?t \<notin> ?S" using is_below_refl by blast
  show ?thesis
  proof (cases "cs_exists before")
    case True
    show ?thesis
    proof (cases "cs_compensation_path before")
      case None
      then show ?thesis using Some True by (auto simp: target_step_def compensate_one_def vraise_def same_on_def)
    next
      case c: (Some c)
      then have "c \<in> ?S" using assms(3) Some by (auto simp: copies_aside_def aside_def)
      then show ?thesis
        using mkdir_then_copy [OF above] Some True c by (auto simp: target_step_def compensate_one_def put_back_def)
    qed
  next
    case False
    show ?thesis
      unfolding target_step_def
    proof (intro allI impI)
      fix w r w'
      assume run: "compensate_one cap item w = (r, w')" and no_dir: "\<not> is_dir w ?t"
      show "same_on ?S w w' \<and> \<not> is_dir w' ?t \<and> (r = Inr () \<longrightarrow> put_back cap item w w')"
      proof (cases "path_exists w ?t")
        case True
        then have un: "unlink ?t w = (r, w')" using run Some False by (simp add: compensate_one_def vbind_def asks_def)
        show ?thesis
          using unlink_effect [OF un] keepsD [OF keeps_unlink_on [OF notin] un] no_dir Some False by (simp add: put_back_def)
      next
        case absent: False
        then have "w' = w \<and> r = Inr ()" using run Some False by (auto simp: compensate_one_def vbind_def asks_def vreturn_def)
        then show ?thesis using no_dir absent Some False by (auto simp: put_back_def path_exists_def same_on_def)
      qed
    qed
  qed
qed

lemma stable_put_back:
  assumes "copies_aside temp_root cap"
  shows "stable_post (aside temp_root states) (rs_full_path item) (put_back cap item)"
  unfolding stable_post_def
proof (intro allI impI)
  fix w0 w w1 w2
  assume before: "same_on (insert (rs_full_path item) (aside temp_root states)) w0 w" and post: "put_back cap item w w1"
    and after: "same_on {rs_full_path item} w1 w2"
  have "node_at w c = node_at w0 c" if "is_below temp_root c" for c
    using same_onD [OF before, of c] that by (simp add: aside_def)
  moreover have "node_at w2 (rs_full_path item) = node_at w1 (rs_full_path item)" using same_onD [OF after] by simp
  ultimately show "put_back cap item w0 w2"
    using post assms by (auto simp: put_back_def copies_aside_def split: if_splits)
qed

lemma refresh_same:
  assumes "separate temp_root vault_root states" and "\<forall>p. env_realpath e (env_realpath e p) = env_realpath e p"
    and "vault_root = env_realpath e vault_path"
  shows "keeps (same_on (targets states \<union> {p. is_below temp_root p})) (refresh_vault e vault_root n)"
  using assms is_below_trans [of temp_root] by (intro keeps_refresh_on) (auto simp: separate_def)

lemma compensate_effect:
  assumes sep: "separate temp_root vault_root states" and real: "\<forall>p. env_realpath e (env_realpath e p) = env_realpath e p"
    and root: "vault_root = env_realpath e vault_path" and copies: "copies_aside temp_root cap"
    and no_dir: "\<forall>t\<in>targets states. \<not> is_dir w t"
    and run: "compensate_file_state_restores e vault_root vault_name states cap w = (r, w')"
  shows "(\<exists>m. r = Inl (VaultMutationRejected ''mutation_state_uncertain'' m)) \<or>
    r = Inr () \<and> (\<forall>item\<in>set states. put_back cap item w w')"
proof (cases r)
  case (Inl err)
  then show ?thesis
    using run by (auto simp: compensate_file_state_restores_def vtry_def vraise_def split: prod.splits sum.splits)
next
  case (Inr u)
  then have "vbind (vfold (\<lambda>item _. compensate_one cap item) states ()) (\<lambda>_.
      vbind (refresh_vault e vault_root (Some vault_name)) (\<lambda>_. vreturn ())) w = (Inr u, w')"
    using run by (auto simp: compensate_file_state_restores_def vtry_def vraise_def split: prod.splits sum.splits)
  then obtain v w1 where loop: "vfold (\<lambda>item _. compensate_one cap item) states () w = (Inr v, w1)"
      and rest: "vbind (refresh_vault e vault_root (Some vault_name)) (\<lambda>_. vreturn ()) w1 = (Inr u, w')"
    by (cases rule: vbindE) auto
  have "keeps (same_on (targets states \<union> {p. is_below temp_root p})) (vbind (refresh_vault e vault_root (Some vault_name)) (\<lambda>_. vreturn ()))"
    by (intro on.keeps_bind refresh_same [OF sep real root] on.keeps_return)
  from keepsD [OF this rest] have same: "same_on (targets states) w1 w'" by (rule same_on_mono) blast
  have distinct: "distinct (map rs_full_path states)" using sep by (simp add: separate_def)
  have "same_on (aside temp_root states \<union> (targets states - set (map rs_full_path states))) w w1 \<and>
      (\<forall>t\<in>targets states. \<not> is_dir w1 t) \<and> (Inr v = (Inr () :: vault_exn + unit) \<longrightarrow> (\<forall>item\<in>set states. put_back cap item w w1))"
    by (rule target_loop [OF _ distinct no_dir loop])
      (use stable_put_back [OF copies] compensate_step [OF sep _ copies] in \<open>auto simp: targets_def\<close>)
  moreover have "put_back cap item w w'" if "put_back cap item w w1" "item \<in> set states" for item
    using that same_onD [OF same, of "rs_full_path item"] by (auto simp: put_back_def targets_def)
  ultimately show ?thesis using Inr by auto
qed

lemma transaction_effect:
  assumes sep: "separate temp_root vault_root states" and real: "\<forall>p. env_realpath e (env_realpath e p) = env_realpath e p"
    and root: "vault_root = env_realpath e vault_path" and copies: "copies_aside temp_root cap"
    and no_dir: "\<forall>t\<in>targets states. \<not> is_dir w t"
    and final: "\<And>ts. keeps (same_on (targets states \<union> {p. is_below temp_root p})) (finalize ts)"
    and run: "run_file_state_restore_transaction e vault_root vault_name states cap finalize w = (r, w')"
  shows "(\<forall>x. r = Inr x \<longrightarrow> restored w w' states) \<and>
    (\<forall>err. r = Inl err \<longrightarrow> (\<exists>m. err = VaultMutationRejected ''mutation_state_uncertain'' m) \<or>
       (\<forall>item\<in>set states. put_back cap item w w'))"
proof -
  let ?S = "targets states \<union> {p. is_below temp_root p}"
  define tail where "tail = vbind (refresh_vault e vault_root (Some vault_name)) (\<lambda>refresh.
      vbind (build_file_state_transitions states cap (rr_latest_sequence refresh)) finalize)"
  have tail: "keeps (same_on ?S) tail"
    unfolding tail_def by (intro on.keeps_bind refresh_same [OF sep real root] build_same final)
  obtain r1 w1 where first: "vbind (apply_file_state_restores states) (\<lambda>_. tail) w = (r1, w1)" by fastforce
  have effect: "same_on {p. is_below temp_root p} w w1 \<and> (\<forall>t\<in>targets states. \<not> is_dir w1 t) \<and> (\<forall>x. r1 = Inr x \<longrightarrow> restored w w1 states)"
    using first
  proof (cases rule: vbindE)
    case (raised err)
    then show ?thesis using apply_effect [OF sep no_dir raised(1)] by (auto simp: same_on_def aside_def)
  next
    case (bound u w2)
    note applied = apply_effect [OF sep no_dir bound(1)]
    have "same_on ?S w2 w1" using keepsD [OF tail bound(2)] .
    then show ?thesis
      using applied by (auto simp: same_on_def aside_def restored_def targets_def is_dir_def file_bytes_def)
  qed
  show ?thesis
  proof (cases r1)
    case (Inr x)
    then have "r = Inr x \<and> w' = w1"
      using run first by (simp add: run_file_state_restore_transaction_def vtry_def tail_def)
    then show ?thesis using effect Inr by auto
  next
    case (Inl exc)
    obtain r2 w2 where comp: "compensate_file_state_restores e vault_root vault_name states cap w1 = (r2, w2)" by fastforce
    note compensated = compensate_effect [OF sep real root copies _ comp]
    have out: "w' = w2" "\<exists>err. r = Inl err" "\<And>err. r2 = Inl err \<Longrightarrow> r = Inl err"
      using run first Inl comp
      by (auto simp: run_file_state_restore_transaction_def vtry_def tail_def vbind_def vraise_def split: sum.splits vault_exn.splits)
    have again: "put_back cap item w w2" if pb: "put_back cap item w1 w2" for item
    proof -
      obtain before where before: "map_of cap (rs_relative_path item) = Some before" using pb by (auto simp: put_back_def)
      show ?thesis
      proof (cases "cs_exists before")
        case True
        then obtain c where c: "cs_compensation_path before = Some c" "node_at w2 (rs_full_path item) = node_at w1 c"
          using pb before by (auto simp: put_back_def)
        then have "node_at w1 c = node_at w c" using effect copies before by (auto simp: same_on_def copies_aside_def)
        then show ?thesis using before True c by (auto simp: put_back_def)
      next
        case False
        then show ?thesis using pb before by (auto simp: put_back_def)
      qed
    qed
    show ?thesis using compensated effect out again by auto
  qed
qed

section \<open>All or nothing\<close>

lemma node_without_temp:
  "\<not> is_below temp_root p \<Longrightarrow> node_at (w\<lparr>w_fs := filter (\<lambda>(q, _). \<not> is_below temp_root q) (w_fs w)\<rparr>) p = node_at w p"
proof -
  assume "\<not> is_below temp_root p"
  then have "map_of (filter (\<lambda>(q, _). \<not> is_below temp_root q) xs) p = map_of xs p" for xs :: "(path \<times> node) list"
    by (induction xs) auto
  then show ?thesis by (simp add: node_at_def)
qed

lemma captured_states:
  assumes sep: "separate temp_root vault_root items"
    and fresh: "\<forall>i. node_at w (compensation_file temp_root i) = None"
    and capture: "capture_restore_before_states items temp_root w = (r, w')"
  shows "same_on (targets items \<union> sources items) w w'"
    and "r = Inr cap \<Longrightarrow> copies_aside temp_root cap"
    and "r = Inr cap \<Longrightarrow> item \<in> set items \<Longrightarrow> \<exists>i before. map_of cap (rs_relative_path item) = Some before \<and>
      captured_state temp_root w w' i (rs_full_path item) before"
proof -
  have rel: "distinct (map rs_relative_path items)" and not_temp: "\<forall>item\<in>set items. \<not> is_below temp_root (rs_full_path item)"
    using sep by (auto simp: separate_def targets_def)
  have "\<forall>i\<ge>0. node_at w (compensation_file temp_root i) = None" using fresh by simp
  note captured = capture_loop [OF capture [unfolded capture_restore_before_states_def] this rel not_temp]
  have "\<not> is_below temp_root t" if "t \<in> targets items \<union> sources items" for t using sep that by (auto simp: separate_def)
  then have "\<forall>i. t \<noteq> compensation_file temp_root i" if "t \<in> targets items \<union> sources items" for t
    using that is_below_append unfolding compensation_file_def by blast
  then show "same_on (targets items \<union> sources items) w w'" using captured by (auto simp: same_on_def)
  show "copies_aside temp_root cap" if "r = Inr cap"
    using capture_paths [OF capture [unfolded capture_restore_before_states_def] that] by (simp add: copies_aside_def)
  show "\<exists>i before. map_of cap (rs_relative_path item) = Some before \<and> captured_state temp_root w w' i (rs_full_path item) before"
    if cap: "r = Inr cap" and item: "item \<in> set items"
  proof -
    obtain i where "i < length items" "item = items ! i" using item by (auto simp: in_set_conv_nth)
    then have "(i, item) \<in> set (List.enumerate 0 items)" by (simp add: in_set_enumerate_eq)
    then show ?thesis using captured cap by blast
  qed
qed

lemma restore_body_effect:
  assumes sep: "separate temp_root (env_realpath e vault_path) items"
    and real: "\<forall>p. env_realpath e (env_realpath e p) = env_realpath e p"
    and fresh: "\<forall>i. node_at w (compensation_file temp_root i) = None"
    and final: "\<And>cap ts. keeps (same_on (targets items \<union> {p. is_below temp_root p})) (finalize cap ts)"
    and run: "vbind (capture_restore_before_states items temp_root) (\<lambda>cap.
      run_file_state_restore_transaction e (env_realpath e vault_path) name items cap (finalize cap)) w = (r, w')"
  shows "(\<forall>ts. r = Inr ts \<longrightarrow> restored w w' items) \<and>
    (\<forall>err. r = Inl err \<longrightarrow> (\<exists>m. err = VaultMutationRejected ''mutation_state_uncertain'' m) \<or> same_on (targets items) w w')"
  using run
proof (cases rule: vbindE)
  case (raised err)
  then show ?thesis using captured_states(1) [OF sep fresh raised(1)] by (auto simp: same_on_def)
next
  case (bound cap w1)
  note states = captured_states [OF sep fresh bound(1)]
  have nodes: "node_at w1 t = node_at w t" if "t \<in> targets items \<union> sources items" for t
    using states(1) that by (auto simp: same_on_def)
  have "\<forall>t\<in>targets items. \<not> is_dir w1 t"
    using states(3) nodes by (fastforce simp: targets_def captured_state_def is_dir_def)
  note effect = transaction_effect [OF sep real refl states(2) [OF refl] this final bound(2)]
  have "wanted w1 (rs_request item) = wanted w (rs_request item)" if "item \<in> set items" for item
    using nodes by (intro wanted_same_sources [OF _ that]) (simp add: same_on_def)
  then have "restored w w' items" if "r = Inr ts" for ts using effect that by (auto simp: restored_def)
  moreover have "node_at w' (rs_full_path item) = node_at w (rs_full_path item)"
    if "put_back cap item w1 w'" and "item \<in> set items" for item
    using that states(3) [OF refl, of item] by (auto simp: put_back_def captured_state_def split: if_splits)
  ultimately show ?thesis using effect by (auto simp: same_on_def targets_def)
qed

text \<open>The body inside a temporary directory.\<close>

lemma with_temporary_directory_effect:
  assumes "with_temporary_directory temp_root m w = (r, w')" and "temp_root \<noteq> []"
  obtains (made) w1 w2 where "m w1 = (r, w2)" "\<And>p. node_at w1 p = (if p = temp_root then Some NDir else node_at w p)"
      "\<And>p. \<not> is_below temp_root p \<Longrightarrow> node_at w' p = node_at w2 p"
    | (failed) m where "r = Inl (OSError m)" "\<And>p. node_at w' p = node_at w p"
proof -
  obtain f w0 where failure: "next_failure w = (Inr f, w0)" by (cases "w_failures w") (auto simp: next_failure_def)
  have same0: "node_at w0 p = node_at w p" for p
    using failure by (cases "w_failures w") (auto simp: next_failure_def)
  show thesis
  proof (cases f)
    case (Some g)
    then show thesis using assms(1) failure same0 failed by (auto simp: with_temporary_directory_def vbind_def)
  next
    case None
    obtain w2 where "m (put_node temp_root NDir w0) = (r, w2)"
        and w': "w' = w2\<lparr>w_fs := filter (\<lambda>(p, _). \<not> is_below temp_root p) (w_fs w2)\<rparr>"
      using assms(1) failure None by (auto simp: with_temporary_directory_def vbind_def split: prod.splits)
    then show thesis
      using made [of "put_node temp_root NDir w0" w2] same0 assms(2) node_without_temp unfolding w' by simp
  qed
qed

lemma restore_effect:
  assumes "\<forall>p. env_realpath e (env_realpath e p) = env_realpath e p"
    and "resolve_file_state_restores e (env_realpath e vault_path) states = Inr items"
    and "separate temp_root (env_realpath e vault_path) items"
    and "temp_root \<noteq> []" and "\<forall>p. is_below temp_root p \<longrightarrow> node_at w p = None"
    and "restore_file_states_atomically e temp_root vault_path states w = (r, w')"
  shows "(\<forall>ts. r = Inr ts \<longrightarrow> restored w w' items) \<and>
    (\<forall>err. r = Inl err \<longrightarrow> (\<exists>m. err = VaultMutationRejected ''mutation_state_uncertain'' m) \<or> same_on (targets items) w w')"
proof (cases "states = []")
  case True
  then show ?thesis using assms(6) by (auto simp: restore_file_states_atomically_def vraise_def same_on_def)
next
  case False
  let ?root = "env_realpath e vault_path"
  have run: "with_temporary_directory temp_root (vbind (capture_restore_before_states items temp_root) (\<lambda>before_states.
      run_file_state_restore_transaction e ?root (last ?root) items before_states vreturn)) w = (r, w')"
    using assms(2,6) False by (simp add: restore_file_states_atomically_def Let_def)
  show ?thesis
  proof (rule with_temporary_directory_effect [OF run assms(4)])
    fix m
    assume "r = Inl (OSError m)" and "\<And>p. node_at w' p = node_at w p"
    then show ?thesis by (auto simp: same_on_def)
  next
    fix w1 w2
    assume made: "vbind (capture_restore_before_states items temp_root) (\<lambda>before_states.
        run_file_state_restore_transaction e ?root (last ?root) items before_states vreturn) w1 = (r, w2)"
      "\<And>p. node_at w1 p = (if p = temp_root then Some NDir else node_at w p)"
      "\<And>p. \<not> is_below temp_root p \<Longrightarrow> node_at w' p = node_at w2 p"
    have outside: "node_at w' t = node_at w2 t \<and> node_at w1 t = node_at w t" if "t \<in> targets items \<union> sources items" for t
      using made(2,3) assms(3) that by (auto simp: separate_def)
    have "\<forall>i. node_at w1 (compensation_file temp_root i) = None"
      using made(2) assms(5) by (auto simp: compensation_file_def)
    note effect = restore_body_effect [OF assms(3,1) this on.keeps_return made(1)]
    have "wanted w1 (rs_request item) = wanted w (rs_request item)" if "item \<in> set items" for item
      using outside by (intro wanted_same_sources [OF _ that]) (simp add: same_on_def)
    then show ?thesis
      using effect outside by (fastforce simp: restored_def same_on_def targets_def file_bytes_def)
  qed
qed

text \<open>
  C5. A restoration of several file states takes effect as a whole or not at all, when its targets are distinct, none lies below
  another and none is the identity file of the vault or lies above it, and the files it restores from and the temporary directory,
  empty at the start, lie apart from the targets, from each other and, the directory, from the identity file. Whatever calls fail then and whatever partial content they leave, a
  restoration that returns has given every path its requested content or removed it, and one that raises has left every path exactly
  as it was, unless it reports mutation_state_uncertain. (Targets below one another: see \<open>compensation_loses_file\<close>.)
\<close>

theorem restore_all_or_nothing:
  assumes "\<forall>p. env_realpath e (env_realpath e p) = env_realpath e p"
    and "resolve_file_state_restores e (env_realpath e vault_path) states = Inr items"
    and "separate temp_root (env_realpath e vault_path) items"
    and "temp_root \<noteq> []" and "\<forall>p. is_below temp_root p \<longrightarrow> node_at w p = None"
    and "restore_file_states_atomically e temp_root vault_path states w = (r, w')"
  shows "(\<forall>ts. r = Inr ts \<longrightarrow> restored w w' items) \<and>
    (\<forall>err. r = Inl err \<longrightarrow> (\<exists>m. err = VaultMutationRejected ''mutation_state_uncertain'' m) \<or> same_on (targets items) w w')"
  using restore_effect [OF assms] .

definition example_restore :: FileStateRestore where
  "example_restore = \<lparr>fr_path = ''a.md'', fr_expected_exists = True, fr_expected_sha256 = Some (sha256_hex ''note''),
     fr_content = Some ''old'', fr_content_path = None, fr_content_sha256 = None\<rparr>"

lemma example_resolves:
  "resolve_vault_relative_path (\<lambda>p. p) [''vault''] ''a.md'' False = Inr [''vault'', ''a.md'']"
  "normalize_vault_relative_path ''a.md'' = ''a.md''"
  by code_simp+

theorem restore_all_or_nothing_witness:
  "case restore_file_states_atomically example_env [''tmp''] [''vault''] [example_restore] example_world of (r, w') \<Rightarrow>
     (\<forall>ts. r = Inr ts \<longrightarrow> file_bytes w' [''vault'', ''a.md''] = Some ''old'') \<and>
     (\<forall>err. r = Inl err \<longrightarrow> (\<exists>m. err = VaultMutationRejected ''mutation_state_uncertain'' m) \<or>
        file_bytes w' [''vault'', ''a.md''] = Some ''note'')"
proof -
  let ?item = "\<lparr>rs_request = example_restore, rs_relative_path = ''a.md'', rs_full_path = [''vault'', ''a.md'']\<rparr>"
  have "resolve_file_state_restores example_env (env_realpath example_env [''vault'']) [example_restore] = Inr [?item]"
    by (simp add: resolve_file_state_restores_def example_resolves example_restore_def Let_def)
  moreover have "separate [''tmp''] (env_realpath example_env [''vault'']) [?item]"
    by (simp add: separate_def targets_def sources_def is_below_def vault_metadata_path_def example_restore_def)
  moreover have "\<forall>p. is_below [''tmp''] p \<longrightarrow> node_at example_world p = None"
    by (auto simp: is_below_iff node_at_def example_fs_def)
  moreover obtain r w' where run: "restore_file_states_atomically example_env [''tmp''] [''vault''] [example_restore] example_world = (r, w')"
    by fastforce
  ultimately show ?thesis
    using restore_all_or_nothing [of example_env "[''vault'']" "[example_restore]" "[?item]" "[''tmp'']" example_world r w']
    by (auto simp: restored_def targets_def same_on_def wanted_def restore_exists_def example_restore_def file_bytes_def
      node_at_def [of example_world] example_fs_def)
qed

section \<open>A file that became a directory\<close>

text \<open>
  The note \<open>a\<close> is to be removed and \<open>a/b\<close> to be written; the first refresh fails. The compensation copies the note to
  \<open>a\<close>, which is a directory by now, so that \<open>shutil.copy2\<close> puts it below.
\<close>

definition literal_world :: "(path, node) dict \<Rightarrow> vault_db \<Rightarrow> io_failure option list \<Rightarrow> nat \<Rightarrow> vault_world" where
  "literal_world files d failures n = \<lparr>w_fs = files, w_db = d, w_failures = failures, w_clock = (\<lambda>n. n), w_clock_reads = n,
     w_uuids = show_nat, w_uuid_reads = 0\<rparr>"

definition vault_files :: "(path, node) dict" where
  "vault_files = [([''vault''], NDir), ([''vault'', ''AssistantMD''], NDir),
     ([''vault'', ''AssistantMD'', ''vault.yaml''], NFile ''vault_id: v1'' 1)]"

definition disk_error :: "io_failure option" where
  "disk_error = Some \<lparr>fail_message = ''disk error'', fail_left = None\<rparr>"

definition replaced_world :: vault_world where
  "replaced_world = literal_world (vault_files @ [([''vault'', ''a''], NFile ''note'' 2)]) empty_vault_db
     [None, None, None, None, None, None, None, disk_error] 0"

definition remove_a :: FileStateRestore where
  "remove_a = \<lparr>fr_path = ''a'', fr_expected_exists = True, fr_expected_sha256 = Some (sha256_hex ''note''),
     fr_content = None, fr_content_path = None, fr_content_sha256 = None\<rparr>"

definition write_b :: FileStateRestore where
  "write_b = \<lparr>fr_path = ''a/b'', fr_expected_exists = False, fr_expected_sha256 = None,
     fr_content = Some ''old'', fr_content_path = None, fr_content_sha256 = None\<rparr>"

definition replacing_items :: "ResolvedFileStateRestore list" where
  "replacing_items = [\<lparr>rs_request = remove_a, rs_relative_path = ''a'', rs_full_path = [''vault'', ''a'']\<rparr>,
     \<lparr>rs_request = write_b, rs_relative_path = ''a/b'', rs_full_path = [''vault'', ''a'', ''b'']\<rparr>]"

definition captured_a :: CapturedFileState where
  "captured_a = \<lparr>cs_exists = True, cs_sha256 = Some (sha256_hex ''note''), cs_compensation_path = Some [''tmp'', ''0.bin''],
     cs_snapshot_id = None, cs_snapshot_ref = None\<rparr>"

definition captured_b :: CapturedFileState where
  "captured_b = \<lparr>cs_exists = False, cs_sha256 = None, cs_compensation_path = None, cs_snapshot_id = None, cs_snapshot_ref = None\<rparr>"

lemma replacing_resolves:
  "resolve_vault_relative_path (\<lambda>p. p) [''vault''] ''a'' False = Inr [''vault'', ''a'']"
  "resolve_vault_relative_path (\<lambda>p. p) [''vault''] ''a/b'' False = Inr [''vault'', ''a'', ''b'']"
  "normalize_vault_relative_path ''a'' = ''a''" "normalize_vault_relative_path ''a/b'' = ''a/b''"
  "show_nat 0 = ''0''" "path_prefixes [''vault'', ''a''] = [[''vault''], [''vault'', ''a'']]" "path_prefixes [''vault''] = [[''vault'']]"
  by code_simp+

lemmas replaced_simps = literal_world_def vault_files_def disk_error_def replacing_items_def captured_a_def captured_b_def
  remove_a_def write_b_def replacing_resolves io_simps file_simps Let_def

lemma replaced_resolve: "resolve_file_state_restores example_env [''vault''] [remove_a, write_b] = Inr replacing_items"
  by (simp add: resolve_file_state_restores_def replaced_simps)

lemma replaced_capture:
  "capture_restore_before_states replacing_items [''tmp'']
     (literal_world (vault_files @ [([''vault'', ''a''], NFile ''note'' 2), ([''tmp''], NDir)]) empty_vault_db
       [None, None, None, None, None, None, disk_error] 0) =
   (Inr [(''a'', captured_a), (''a/b'', captured_b)],
    literal_world (vault_files @ [([''vault'', ''a''], NFile ''note'' 2), ([''tmp''], NDir), ([''tmp'', ''0.bin''], NFile ''note'' 2)])
      empty_vault_db [None, None, None, disk_error] 0)"
  by (simp add: capture_restore_before_states_def capture_one_def replaced_simps copy2_def write_node_def)

lemma replaced_apply:
  "apply_file_state_restores replacing_items
     (literal_world (vault_files @ [([''vault'', ''a''], NFile ''note'' 2), ([''tmp''], NDir), ([''tmp'', ''0.bin''], NFile ''note'' 2)])
      empty_vault_db [None, None, None, disk_error] 0) =
   (Inr (), literal_world (vault_files @ [([''tmp''], NDir), ([''tmp'', ''0.bin''], NFile ''note'' 2), ([''vault'', ''a''], NDir),
       ([''vault'', ''a'', ''b''], NFile ''old'' 0)]) empty_vault_db [disk_error] 1)"
  by (simp add: apply_file_state_restores_def restore_content_hash_def remove_restored_def write_restored_def restore_exists_def
    replaced_simps unlink_def mkdir_parents_def make_dirs_def write_bytes_def write_node_def)

lemma replaced_refresh:
  "refresh_vault example_env [''vault''] (Some ''vault'')
     (literal_world (vault_files @ [([''tmp''], NDir), ([''tmp'', ''0.bin''], NFile ''note'' 2), ([''vault'', ''a''], NDir),
       ([''vault'', ''a'', ''b''], NFile ''old'' 0)]) empty_vault_db [disk_error] 1) =
   (Inl (OSError ''disk error''), literal_world (vault_files @ [([''tmp''], NDir), ([''tmp'', ''0.bin''], NFile ''note'' 2),
      ([''vault'', ''a''], NDir), ([''vault'', ''a'', ''b''], NFile ''old'' 0)]) empty_vault_db [] 1)"
  by (simp add: refresh_vault_def identity_simps replaced_simps)

lemma replaced_compensation:
  "vfold (\<lambda>item _. compensate_one [(''a'', captured_a), (''a/b'', captured_b)] item) replacing_items ()
     (literal_world (vault_files @ [([''tmp''], NDir), ([''tmp'', ''0.bin''], NFile ''note'' 2), ([''vault'', ''a''], NDir),
       ([''vault'', ''a'', ''b''], NFile ''old'' 0)]) empty_vault_db [] 1) =
   (Inr (), literal_world (vault_files @ [([''tmp''], NDir), ([''tmp'', ''0.bin''], NFile ''note'' 2), ([''vault'', ''a''], NDir),
       ([''vault'', ''a'', ''0.bin''], NFile ''note'' 2)]) empty_vault_db [] 1)"
  by (simp add: compensate_one_def replaced_simps unlink_def mkdir_parents_def make_dirs_def copy2_def write_node_def)

definition displaced_world :: vault_world where
  "displaced_world = literal_world (vault_files @ [([''tmp''], NDir), ([''tmp'', ''0.bin''], NFile ''note'' 2), ([''vault'', ''a''], NDir),
       ([''vault'', ''a'', ''0.bin''], NFile ''note'' 2)]) empty_vault_db [] 1"

lemma displaced_files:
  assumes "w_fs w = w_fs displaced_world"
  shows "files_below w [''vault''] = [[''vault'', ''AssistantMD'', ''vault.yaml''], [''vault'', ''a'', ''0.bin'']]"
proof -
  have "files_below displaced_world [''vault''] = [[''vault'', ''AssistantMD'', ''vault.yaml''], [''vault'', ''a'', ''0.bin'']]"
    by code_simp
  moreover have "files_below w p = files_below displaced_world p" for p
    using assms by (simp add: files_below_def is_file_def file_bytes_def node_at_def)
  ultimately show ?thesis by simp
qed

lemma displaced_relative:
  "forward_slashes (relative_text [''vault''] [''vault'', ''a'', ''0.bin'']) = ''a/0.bin''" "classify ''a/0.bin'' = ''user_content''"
  by code_simp+

lemma displaced_fields [simp]: "w_failures displaced_world = []" "w_db displaced_world = empty_vault_db"
  by (simp_all add: displaced_world_def literal_world_def)

lemma displaced_fs: "w_fs displaced_world = [([''vault''], NDir), ([''vault'', ''AssistantMD''], NDir),
    ([''vault'', ''AssistantMD'', ''vault.yaml''], NFile ''vault_id: v1'' 1), ([''tmp''], NDir), ([''tmp'', ''0.bin''], NFile ''note'' 2),
    ([''vault'', ''a''], NDir), ([''vault'', ''a'', ''0.bin''], NFile ''note'' 2)]"
  by (simp add: displaced_world_def literal_world_def vault_files_def)

lemma displaced_refresh: "\<exists>res. fst (refresh_vault example_env [''vault''] (Some ''vault'') displaced_world) = Inr res"
proof -
  have "path_exists displaced_world [''vault'', ''AssistantMD'', ''vault.yaml'']"
      "file_bytes displaced_world [''vault'', ''AssistantMD'', ''vault.yaml''] = Some ''vault_id: v1''"
      "is_dir displaced_world [''vault'']"
    by (simp_all add: displaced_world_def replaced_simps)
  then show ?thesis
    by (simp add: refresh_vault_def io_simps example_identity Let_def matcher_from_patterns_def displaced_files no_counts_def
      refresh_file_def example_relative displaced_relative matcher_matches_def file_stat_def needs_hash_def find_file_def vault_rows_def
      register_vault_def record_file_def append_event_def event_type_of_def hash_file_bytes_def read_file_def file_bytes_def node_at_def
      empty_vault_db_def next_rowid_def displaced_fs)
qed

text \<open>
  C38. The compensation of a failed restoration can lose a file and report success: when a note became a directory during the
  restoration, its content ends up inside the directory, the path itself is not restored, and the error says compensated.
\<close>

theorem compensation_loses_file:
  "case restore_file_states_atomically example_env [''tmp''] [''vault''] [remove_a, write_b] replaced_world of (r, w') \<Rightarrow>
     r = Inl (VaultMutationRejected ''restore_failed'' ''File-state restoration failed and was compensated: disk error'') \<and>
     file_bytes replaced_world [''vault'', ''a''] = Some ''note'' \<and>
     file_bytes w' [''vault'', ''a''] = None \<and> file_bytes w' [''vault'', ''a'', ''0.bin''] = Some ''note''"
proof -
  obtain res w1 where refresh: "refresh_vault example_env [''vault''] (Some ''vault'') displaced_world = (Inr res, w1)"
    using displaced_refresh by (metis prod.collapse)
  have "keeps (same_on {[''vault'', ''a''], [''vault'', ''a'', ''0.bin'']}) (refresh_vault example_env [''vault''] (Some ''vault''))"
    by (rule keeps_refresh_on) (simp add: is_below_def vault_metadata_path_def)
  from keepsD [OF this refresh]
  have nodes: "node_at w1 [''vault'', ''a''] = Some NDir" "node_at w1 [''vault'', ''a'', ''0.bin''] = Some (NFile ''note'' 2)"
    by (simp_all add: same_on_def displaced_world_def replaced_simps)
  have "run_file_state_restore_transaction example_env [''vault''] ''vault'' replacing_items [(''a'', captured_a), (''a/b'', captured_b)] vreturn
      (literal_world (vault_files @ [([''vault'', ''a''], NFile ''note'' 2), ([''tmp''], NDir), ([''tmp'', ''0.bin''], NFile ''note'' 2)])
      empty_vault_db [None, None, None, disk_error] 0) =
    (Inl (VaultMutationRejected ''restore_failed'' ''File-state restoration failed and was compensated: disk error''), w1)"
    using replaced_compensation refresh
    by (simp add: run_file_state_restore_transaction_def vtry_def vbind_def replaced_apply replaced_refresh
      compensate_file_state_restores_def displaced_world_def vreturn_def vraise_def exn_text_def del: One_nat_def)
  then have run: "restore_file_states_atomically example_env [''tmp''] [''vault''] [remove_a, write_b] replaced_world =
    (Inl (VaultMutationRejected ''restore_failed'' ''File-state restoration failed and was compensated: disk error''),
     w1\<lparr>w_fs := filter (\<lambda>(p, _). \<not> is_below [''tmp''] p) (w_fs w1)\<rparr>)"
    using replaced_capture
    by (simp add: restore_file_states_atomically_def Let_def replaced_resolve with_temporary_directory_def replaced_world_def vbind_def
      next_failure_def put_node_def literal_world_def vault_files_def)
  have kept: "node_at (w1\<lparr>w_fs := filter (\<lambda>(p, _). \<not> is_below [''tmp''] p) (w_fs w1)\<rparr>) (''vault'' # p) = node_at w1 (''vault'' # p)" for p
    by (rule node_without_temp) (simp add: is_below_def)
  have before: "file_bytes replaced_world [''vault'', ''a''] = Some ''note''"
    by (simp add: replaced_world_def literal_world_def vault_files_def file_bytes_def node_at_def)
  show ?thesis
    unfolding run using before by (simp add: kept nodes file_bytes_def)
qed

end
