(* ===== verification/Vault_Journal.thy ===== *)
theory Vault_Journal
  imports Vault_Rollback Vault_Atomic
begin

text \<open>
  What the journal and the snapshots of a task say about the files it changed: an invariant over every sequence of
  recorded mutations of one task in one vault, failing ones and edits by others in between included.
\<close>

section \<open>Paths\<close>

lemma split_char_free: "c \<notin> set s \<Longrightarrow> split_char c s = [s]"
  by (induction s) auto

lemma split_char_at: "c \<notin> set s \<Longrightarrow> split_char c (s @ c # t) = s # split_char c t"
  by (induction s) auto

lemma split_char_joined:
  assumes "\<forall>part\<in>set parts. c \<notin> set part" and "parts \<noteq> []"
  shows "split_char c (str_join [c] parts) = parts"
  using assms
proof (induction parts rule: induct_list012)
  case (3 x y zs)
  then show ?case by (simp add: split_char_at)
qed (simp_all add: split_char_free)

lemma split_char_parts: "part \<in> set (split_char c s) \<Longrightarrow> c \<notin> set part"
  by (induction s arbitrary: part) (auto split: list.splits if_splits)

definition clean_part :: "string \<Rightarrow> bool" where
  "clean_part part \<longleftrightarrow> part \<noteq> [] \<and> part \<noteq> ''.'' \<and> CHR ''/'' \<notin> set part"

lemma path_parts_clean: "part \<in> set (path_parts s) \<Longrightarrow> clean_part part"
  using split_char_parts by (auto simp: path_parts_def clean_part_def)

lemma path_parts_join:
  assumes "\<forall>part\<in>set parts. clean_part part"
  shows "path_parts (str_join ''/'' parts) = parts"
proof (cases "parts = []")
  case False
  then have "split_char (CHR ''/'') (str_join ''/'' parts) = parts"
    using assms split_char_joined [of parts "CHR ''/''"] by (simp add: clean_part_def)
  then show ?thesis
    using assms by (auto simp: path_parts_def clean_part_def intro: filter_True)
qed (simp add: path_parts_def)

lemma is_below_comparable: "is_below p r \<Longrightarrow> is_below q r \<Longrightarrow> is_below p q \<or> is_below q p"
  unfolding is_below_iff by (metis append_eq_append_conv2)

lemma is_below_same_base [simp]: "is_below (base @ p) (base @ q) \<longleftrightarrow> is_below p q"
  by (auto simp: is_below_iff)

abbreviation task_source :: string where
  "task_source \<equiv> ''task_mutation_before''"

definition snapshot_file :: "vault_env \<Rightarrow> nat \<Rightarrow> string \<Rightarrow> path" where
  "snapshot_file e set_id p = snapshot_root_of e set_id @ path_parts (snapshot_ref_of task_source p)"

lemma snapshot_ref_parts: "path_parts (snapshot_ref_of task_source p) = task_source # ''files'' # path_parts p"
proof -
  have "path_parts task_source = [task_source]" by code_simp
  moreover have "clean_part task_source" "clean_part ''files''" by code_simp+
  ultimately show ?thesis
    using path_parts_join [of "task_source # ''files'' # path_parts p"] path_parts_clean
    by (simp add: snapshot_ref_of_def)
qed

lemma snapshot_ref_relative: "snapshot_ref_of task_source p \<noteq> []" "\<not> startswith (snapshot_ref_of task_source p) ''/''"
proof -
  have "path_parts task_source = [task_source]" by code_simp
  then obtain rest where "snapshot_ref_of task_source p = task_source @ rest"
    by (cases "path_parts p") (auto simp: snapshot_ref_of_def)
  then show "snapshot_ref_of task_source p \<noteq> []" "\<not> startswith (snapshot_ref_of task_source p) ''/''"
    by (auto simp: startswith_def)
qed

lemma snapshot_file_below: "is_below (snapshot_base_root e) (snapshot_file e set_id p)"
  by (simp add: snapshot_file_def snapshot_root_of_def is_below_iff)

text \<open>Different captures never meet, not even when a copy lands inside a directory.\<close>

lemma snapshot_files_apart:
  assumes "is_below (snapshot_file e i p) (snapshot_file e j q)"
  shows "i = j \<and> is_below (path_parts p) (path_parts q)"
proof -
  have "is_below (show_nat i # task_source # ''files'' # path_parts p) (show_nat j # task_source # ''files'' # path_parts q)"
    using assms by (simp add: snapshot_file_def snapshot_root_of_def snapshot_ref_parts)
  then show ?thesis by (auto simp: is_below_def dest: show_nat_inj)
qed

section \<open>Operations that leave files and journal alone\<close>

definition journal :: "vault_db \<Rightarrow> VaultActivity list \<times> VaultMutation list \<times> SnapshotSet list \<times> FileSnapshot list" where
  "journal d = (db_activities d, db_mutations d, db_snapshot_sets d, db_file_snapshots d)"

lemma journal_simps [simp]:
  "journal (d\<lparr>db_vaults := x1\<rparr>) = journal d" "journal (d\<lparr>db_favorites := x2\<rparr>) = journal d"
  "journal (d\<lparr>db_files := x3\<rparr>) = journal d" "journal (d\<lparr>db_events := x4\<rparr>) = journal d"
  by (simp_all add: journal_def)

text \<open>The vault has its identity file and the file names the vault \<open>v\<close>.\<close>

definition identified :: "vault_env \<Rightarrow> path \<Rightarrow> string \<Rightarrow> vault_world \<Rightarrow> bool" where
  "identified e vault_root v w \<longleftrightarrow> env_realpath e vault_root = vault_root \<and>
     (\<exists>content text payload. file_bytes w (vault_metadata_path vault_root) = Some content \<and> utf8_decode content = Some text \<and>
        env_yaml_load e text = Inr (JDict payload) \<and> payload \<noteq> [] \<and>
        strip (case map_of payload ''vault_id'' of None \<Rightarrow> [] | Some x \<Rightarrow> py_str x) = v)"

definition calm :: "vault_env \<Rightarrow> path \<Rightarrow> string \<Rightarrow> vault_world \<Rightarrow> vault_world \<Rightarrow> bool" where
  "calm e vault_root v w w' \<longleftrightarrow> (identified e vault_root v w \<longrightarrow>
     same_on UNIV w w' \<and> journal (w_db w') = journal (w_db w))"

lemma same_on_identified: "same_on UNIV w w' \<Longrightarrow> identified e vault_root v w' = identified e vault_root v w"
  by (simp add: identified_def same_on_def file_bytes_def)

interpretation quiet: io_frame "calm e vault_root v" for e vault_root v
  by unfold_locales (auto simp: calm_def same_on_def file_bytes_def identified_def)

lemma calmD: "calm e vault_root v w w' \<Longrightarrow> identified e vault_root v w \<Longrightarrow> same_on UNIV w w' \<and> journal (w_db w') = journal (w_db w)"
  by (simp add: calm_def)

lemma calmI: "same_on UNIV w w' \<Longrightarrow> journal (w_db w') = journal (w_db w) \<Longrightarrow> calm e vault_root v w w'"
  by (simp add: calm_def)

lemma keeps_calmI:
  assumes "keeps (same_on UNIV) m" and "keeps (\<lambda>w w'. w_db w' = w_db w) m"
  shows "keeps (calm e vault_root v) m"
  using assms by (auto simp: keeps_def calm_def)

lemma keeps_hash_calm: "keeps (calm e vault_root v) (hash_file_bytes p)"
  by (rule keeps_calmI [OF keeps_hash_on rows.keeps_hash_file])

lemma keeps_hash_if_calm: "keeps (calm e vault_root v) (hash_if present p)"
  by (auto simp: hash_if_def intro!: quiet.keeps_combinators keeps_hash_calm)

lemma keeps_clock_calm: "keeps (calm e vault_root v) utc_now"
  by (rule keeps_calmI [OF keeps_clock_on rows.keeps_clock])

lemma keeps_uuid_calm: "keeps (calm e vault_root v) fresh_uuid"
  by (rule keeps_calmI [OF keeps_uuid_on rows.keeps_uuid])

lemma keeps_change_calm: "(\<And>d. journal (snd (f d)) = journal d) \<Longrightarrow> keeps (calm e vault_root v) (change_db f)"
  by (auto simp: keeps_def change_db_def calm_def same_on_def split: prod.splits) (metis snd_conv)

lemma keeps_session_calm:
  assumes "keeps (calm e vault_root v) m"
  shows "keeps (calm e vault_root v) (in_session m)"
proof (rule keepsI)
  fix w r w'
  assume run: "in_session m w = (r, w')"
  obtain r1 w1 where m: "m w = (r1, w1)" by fastforce
  obtain f w2 where commit: "next_failure w1 = (Inr f, w2)" by (cases "w_failures w1") (auto simp: next_failure_def)
  have "same_on UNIV w1 w2 \<and> w_db w2 = w_db w1"
    using keepsD [OF keeps_next_failure_on commit] keepsD [OF rows.keeps_next_failure commit] by simp
  then show "calm e vault_root v w w'"
    using run m commit keepsD [OF assms m] by (cases r1; cases f) (auto simp: in_session_def calm_def same_on_def)
qed

lemma load_metadata_same:
  assumes "load_metadata e p w = (r, w')"
  shows "same_on UNIV w w' \<and> w_db w' = w_db w"
proof -
  have "keeps (same_on UNIV) (load_metadata e p)"
    unfolding load_metadata_def
    by (intro on.keeps_bind keeps_read_on) (auto intro!: on.keeps_combinators split: option.splits json.splits)
  then show ?thesis using keepsD assms keepsD [OF rows.keeps_load_metadata assms] by blast
qed

lemma read_file_content: "read_file p w = (Inr c, w') \<Longrightarrow> file_bytes w p = Some c"
  by (auto simp: read_file_def vbind_def next_failure_def file_bytes_def split: list.splits option.splits)

lemma identity_effect:
  assumes "identified e vault_root v w" and "resolve_or_create_vault_identity e vault_root w = (r, w')"
  shows "same_on UNIV w w' \<and> w_db w' = w_db w \<and> (\<forall>i. r = Inr i \<longrightarrow> vi_vault_id i = v)"
proof -
  let ?meta = "vault_metadata_path vault_root"
  obtain content decoded payload where known: "file_bytes w ?meta = Some content" "utf8_decode content = Some decoded"
      "env_yaml_load e decoded = Inr (JDict payload)" "payload \<noteq> []"
      "strip (case map_of payload ''vault_id'' of None \<Rightarrow> [] | Some x \<Rightarrow> py_str x) = v" "env_realpath e vault_root = vault_root"
    using assms(1) by (auto simp: identified_def)
  have "path_exists w ?meta" using known(1) by (auto simp: path_exists_def file_bytes_def split: option.splits)
  then have run: "vbind (load_metadata e ?meta) (\<lambda>payload.
       let vault_id = strip (case map_of payload ''vault_id'' of None \<Rightarrow> [] | Some v \<Rightarrow> py_str v)
       in if vault_id = []
          then vraise (PyError (ValueError (''Vault metadata is missing vault_id: '' @ path_text ?meta)))
          else vreturn \<lparr>vi_vault_id = vault_id, vi_metadata_path = ?meta, vi_created = False\<rparr>) w = (r, w')"
    using assms(2) known(6)
    by (simp add: resolve_or_create_vault_identity_def resolve_or_create_locked_def vbind_def asks_def)
  from run show ?thesis
  proof (cases rule: vbindE)
    case (raised err)
    then show ?thesis using load_metadata_same by blast
  next
    case (bound x w1)
    have "x = payload"
      using bound(1) known(1-4) read_file_content
      by (auto simp: load_metadata_def vbind_def of_result_def vreturn_def vraise_def split: prod.splits sum.splits option.splits if_splits)
    then show ?thesis
      using bound(2) load_metadata_same [OF bound(1)] known(5) by (auto simp: Let_def vraise_def vreturn_def split: if_splits)
  qed
qed

lemma keeps_identity_calm: "keeps (calm e vault_root v) (resolve_or_create_vault_identity e vault_root)"
  by (rule keepsI) (use identity_effect in \<open>fastforce simp: calm_def\<close>)

lemma append_event_journal: "append_event v n p t h c now md d = (sq, d') \<Longrightarrow> journal d' = journal d"
  by (auto simp: append_event_def Let_def)

lemma set_file_journal [simp]: "journal (set_file r d) = journal d"
  by (simp add: set_file_def)

lemma record_file_journal: "journal (snd (record_file v name now p bytes mtime c h existing st d)) = journal d"
  by (auto simp: record_file_def Let_def split: option.splits prod.splits dest!: append_event_journal)

lemma delete_missing_journal: "journal (snd (delete_missing v name now row sd)) = journal (snd sd)"
  by (auto simp: delete_missing_def split: prod.splits dest!: append_event_journal)

lemma deletes_journal: "journal (snd (fold (delete_missing v name now) rs sd)) = journal (snd sd)"
  by (induction rs arbitrary: sd) (simp_all add: delete_missing_journal)

lemma register_vault_journal: "journal (register_vault v n now d) = journal d"
  by (simp add: register_vault_def)

lemma keeps_refresh_calm:
  assumes "env_realpath e vault_root = vault_root"
  shows "keeps (calm e vault_root v) (refresh_vault e vault_root n)"
proof -
  have "keeps (calm e vault_root v) (refresh_file patterns root' v' name now known p st)" for patterns root' v' name now known p st
    unfolding refresh_file_def Let_def
    by (auto intro!: quiet.keeps_combinators keeps_hash_calm keeps_change_calm record_file_journal split: option.splits)
  then show ?thesis
    unfolding refresh_vault_def Let_def assms
    by (auto intro!: quiet.keeps_combinators keeps_identity_calm keeps_clock_calm keeps_session_calm keeps_change_calm
      simp: register_vault_journal deletes_journal)
qed

lemma keeps_remove_favorites_calm: "keeps (calm e vault_root v) (remove_favorite_paths e vault_root paths)"
  unfolding remove_favorite_paths_def
  by (auto intro!: quiet.keeps_combinators keeps_identity_calm keeps_session_calm keeps_change_calm simp: delete_favorites_def)

lemma keeps_uncertain: "keeps (calm e vault_root v) m \<Longrightarrow> keeps (calm e vault_root v) (uncertain message m)"
  unfolding uncertain_def by (intro quiet.keeps_try quiet.keeps_raise)

text \<open>A session over database rows: nothing, or the change of the rows.\<close>

lemma session_change:
  assumes "in_session (change_db f) w = (r, w')"
  shows "same_on UNIV w w' \<and> (case r of Inl err \<Rightarrow> w_db w' = w_db w | Inr x \<Rightarrow> f (w_db w) = (x, w_db w'))"
proof -
  obtain x d where f: "f (w_db w) = (x, d)" by fastforce
  let ?w = "w\<lparr>w_db := d\<rparr>"
  obtain failure w2 where commit: "next_failure ?w = (Inr failure, w2)" by (cases "w_failures ?w") (auto simp: next_failure_def)
  have "same_on UNIV ?w w2 \<and> w_db w2 = d"
    using keepsD [OF keeps_next_failure_on commit] keepsD [OF rows.keeps_next_failure commit] by simp
  then show ?thesis
    using assms f commit by (cases failure) (auto simp: in_session_def change_db_def same_on_def)
qed

section \<open>What a capture does\<close>

lemma next_rowid_larger: "x \<in> set ids \<Longrightarrow> x < next_rowid ids"
proof -
  have "(\<forall>x\<in>set ids. x \<le> fold max ids m) \<and> m \<le> fold max ids m" for m :: nat
  proof (induction ids arbitrary: m)
    case (Cons a ids)
    then have "(\<forall>x\<in>set ids. x \<le> fold max ids (max a m)) \<and> max a m \<le> fold max ids (max a m)" by blast
    then show ?case by (auto intro: order_trans [of _ "max a m"])
  qed simp
  then show "x \<in> set ids \<Longrightarrow> x < next_rowid ids" by (auto simp: next_rowid_def le_imp_less_Suc)
qed

lemma mkdir_file_bytes:
  assumes "mkdir_parents p w = (r, w')"
  shows "file_bytes w' q = file_bytes w q"
proof -
  have none: "[] \<notin> set (path_prefixes p)" using path_prefixes_below by blast
  show ?thesis
    using assms
    by (auto simp: mkdir_parents_def vbind_def next_failure_def file_bytes_def node_make_dirs [OF none]
      split: list.splits option.splits if_splits)
qed

lemma copy2_apart:
  assumes "copy2 src dst w = (r, w')"
  shows "same_on {q. \<not> is_below dst q} w w'"
    and "r = Inr () \<Longrightarrow> file_bytes w' dst = Some c \<Longrightarrow> file_bytes w src = Some c"
proof -
  consider (regular) b t where "node_at w src = Some (NFile b t)" | (other) "\<forall>b t. node_at w src \<noteq> Some (NFile b t)"
    by blast
  then have "same_on {q. \<not> is_below dst q} w w' \<and> (r = Inr () \<longrightarrow> file_bytes w' dst = Some c \<longrightarrow> file_bytes w src = Some c)"
  proof cases
    case regular
    show ?thesis
    proof (cases "is_dir w dst")
      case True
      then have run: "write_node (dst @ [List.last src]) b t w = (r, w')" using assms regular by (simp add: copy2_def)
      have "same_on (insert dst {q. \<not> is_below dst q}) w w'"
        by (rule keepsD [OF keeps_write_on run]) simp
      then show ?thesis using True by (auto simp: same_on_def is_dir_def file_bytes_def)
    next
      case False
      then have run: "write_node dst b t w = (r, w')" using assms regular by (simp add: copy2_def)
      have "same_on {q. \<not> is_below dst q} w w'" by (rule keepsD [OF keeps_write_on run]) simp
      then show ?thesis using write_node_effect [OF run False] regular by (auto simp: file_bytes_def)
    qed
  next
    case other
    then have "w' = w \<and> r \<noteq> Inr ()" using assms by (auto simp: copy2_def split: option.splits node.splits)
    then show ?thesis by (simp add: same_on_def)
  qed
  then show "same_on {q. \<not> is_below dst q} w w'"
    and "r = Inr () \<Longrightarrow> file_bytes w' dst = Some c \<Longrightarrow> file_bytes w src = Some c" by auto
qed

lemma copy2_db: "copy2 src dst w = (r, w') \<Longrightarrow> w_db w' = w_db w"
  using keepsD [OF rows.keeps_write_node] by (auto simp: copy2_def split: option.splits node.splits if_splits)

text \<open>The part of a capture that copies the file.\<close>

definition copy_aside :: "path \<Rightarrow> path \<Rightarrow> string \<Rightarrow> (string option \<times> string option) io" where
  "copy_aside source_path target_path snapshot_ref =
     vbind (hash_file_bytes source_path) (\<lambda>content_hash.
     vbind (mkdir_parents (butlast target_path)) (\<lambda>_.
     vbind (copy2 source_path target_path) (\<lambda>_.
     vreturn (Some snapshot_ref, Some content_hash))))"

lemma copy_aside_effect:
  assumes run: "copy_aside src dst ref w = (r, w')"
  shows "w_db w' = w_db w"
    and "\<not> is_below q dst \<Longrightarrow> \<not> is_below dst q \<Longrightarrow> node_at w' q = node_at w q"
    and "\<not> is_below dst q \<Longrightarrow> file_bytes w' q = file_bytes w q"
    and "r = Inr x \<Longrightarrow> fst x = Some ref \<and> (\<forall>c. file_bytes w' dst = Some c \<longrightarrow> file_bytes w src = Some c)"
proof -
  have "w_db w' = w_db w \<and> (\<not> is_below q dst \<longrightarrow> \<not> is_below dst q \<longrightarrow> node_at w' q = node_at w q) \<and>
      (\<not> is_below dst q \<longrightarrow> file_bytes w' q = file_bytes w q) \<and>
      (r = Inr x \<longrightarrow> fst x = Some ref \<and> (\<forall>c. file_bytes w' dst = Some c \<longrightarrow> file_bytes w src = Some c))"
    using run unfolding copy_aside_def
  proof (cases rule: vbindE)
    case (raised err)
    then show ?thesis using hash_same_nodes hash_same_db by (auto simp: file_bytes_def)
  next
    case (bound h w1)
    have w1: "w_db w1 = w_db w" "\<And>q. node_at w1 q = node_at w q"
      using hash_same_nodes [OF bound(1)] hash_same_db [OF bound(1)] by auto
    from bound(2) show ?thesis
    proof (cases rule: vbindE)
      case (raised err)
      have "\<not> is_below q dst \<Longrightarrow> node_at w' q = node_at w1 q"
        using keepsD [OF keeps_mkdir_on raised(1), of "{q}"] is_below_butlast by (auto simp: same_on_def)
      then show ?thesis
        using raised w1 mkdir_file_bytes [OF raised(1)] keepsD [OF rows.keeps_mkdir raised(1)] by (auto simp: file_bytes_def)
    next
      case (bound u w2)
      have w2: "w_db w2 = w_db w" "\<And>q. file_bytes w2 q = file_bytes w q" "\<not> is_below q dst \<Longrightarrow> node_at w2 q = node_at w q"
        using w1 mkdir_file_bytes [OF bound(1)] keepsD [OF rows.keeps_mkdir bound(1)]
          keepsD [OF keeps_mkdir_on bound(1), of "{q}"] is_below_butlast by (auto simp: file_bytes_def same_on_def)
      from bound(2) have "\<exists>r3. copy2 src dst w2 = (r3, w') \<and> (r = Inr x \<longrightarrow> r3 = Inr () \<and> fst x = Some ref)"
        by (cases rule: vbindE) (auto simp: vreturn_def)
      then obtain r3 where copy: "copy2 src dst w2 = (r3, w')" and r: "r = Inr x \<longrightarrow> r3 = Inr () \<and> fst x = Some ref"
        by blast
      have "\<not> is_below dst q \<Longrightarrow> node_at w' q = node_at w2 q" using copy2_apart(1) [OF copy] by (simp add: same_on_def)
      then show ?thesis
        using w2 copy2_db [OF copy] copy2_apart(2) [OF copy] r by (auto simp: file_bytes_def)
    qed
  qed
  then show "w_db w' = w_db w"
    and "\<not> is_below q dst \<Longrightarrow> \<not> is_below dst q \<Longrightarrow> node_at w' q = node_at w q"
    and "\<not> is_below dst q \<Longrightarrow> file_bytes w' q = file_bytes w q"
    and "r = Inr x \<Longrightarrow> fst x = Some ref \<and> (\<forall>c. file_bytes w' dst = Some c \<longrightarrow> file_bytes w src = Some c)" by auto
qed

section \<open>The invariant\<close>

text \<open>
  The setting: no symbolic links in the vault and among the snapshots, which lie apart, and paths that are not nested.
\<close>

definition linkless :: "vault_env \<Rightarrow> path \<Rightarrow> bool" where
  "linkless e vault_root \<longleftrightarrow> vault_root \<noteq> [] \<and> (\<forall>p. env_realpath e (env_realpath e p) = env_realpath e p) \<and>
     (\<forall>p. is_below vault_root p \<or> is_below (snapshot_base_root e) p \<longrightarrow> env_realpath e p = p) \<and>
     \<not> is_below vault_root (snapshot_base_root e) \<and> \<not> is_below (snapshot_base_root e) vault_root"

definition vault_paths :: "path \<Rightarrow> string set \<Rightarrow> bool" where
  "vault_paths vault_root P \<longleftrightarrow>
     (\<forall>p\<in>P. normalize_vault_relative_path p = p \<and> \<not> str_contains ''..'' p \<and> \<not> startswith p ''/'' \<and>
        \<not> is_below (vault_root @ path_parts p) (vault_metadata_path vault_root) \<and>
        \<not> is_below (vault_metadata_path vault_root) (vault_root @ path_parts p)) \<and>
     (\<forall>p\<in>P. \<forall>q\<in>P. is_below (path_parts p) (path_parts q) \<longrightarrow> p = q)"

text \<open>The snapshot rows of a task and the copies they name, against the files at the beginning.\<close>

definition task_snapshot :: "string \<Rightarrow> string \<Rightarrow> string \<Rightarrow> FileSnapshot \<Rightarrow> bool" where
  "task_snapshot t v p s \<longleftrightarrow> sn_task_id s = Some t \<and> sn_vault_id s = v \<and> sn_path s = p \<and> sn_source s = task_source"

definition task_set :: "string \<Rightarrow> string \<Rightarrow> SnapshotSet \<Rightarrow> bool" where
  "task_set t v s \<longleftrightarrow> ss_task_id s = Some t \<and> ss_vault_id s = v \<and> ss_purpose s = ''rollback''"

definition copy_of :: "vault_env \<Rightarrow> path \<Rightarrow> vault_world \<Rightarrow> vault_world \<Rightarrow> FileSnapshot \<Rightarrow> bool" where
  "copy_of e vault_root w0 w s \<longleftrightarrow> sn_snapshot_ref s = Some (snapshot_ref_of task_source (sn_path s)) \<and>
     (\<exists>S\<in>set (db_snapshot_sets (w_db w)). ss_id S = sn_snapshot_set_id s \<and> ss_snapshot_root S = snapshot_root_of e (ss_id S)) \<and>
     (\<forall>c. file_bytes w (snapshot_file e (sn_snapshot_set_id s) (sn_path s)) = Some c \<longrightarrow>
        file_bytes w0 (vault_root @ path_parts (sn_path s)) = Some c)"

definition snapshots_ok :: "vault_env \<Rightarrow> path \<Rightarrow> string \<Rightarrow> string \<Rightarrow> string set \<Rightarrow> vault_world \<Rightarrow> vault_world \<Rightarrow> bool" where
  "snapshots_ok e vault_root t v P w0 w \<longleftrightarrow>
     distinct (map sn_id (db_file_snapshots (w_db w))) \<and> distinct (map ss_id (db_snapshot_sets (w_db w))) \<and>
     (\<forall>S\<in>set (db_snapshot_sets (w_db w)). task_set t v S \<longrightarrow> ss_snapshot_root S = snapshot_root_of e (ss_id S)) \<and>
     (\<forall>s\<in>set (db_file_snapshots (w_db w)). \<forall>p\<in>P. task_snapshot t v p s \<longrightarrow>
        is_file w0 (vault_root @ path_parts p) \<longrightarrow> copy_of e vault_root w0 w s)"

lemma snapshots_okD:
  assumes "snapshots_ok e vault_root t v P w0 w"
  shows "distinct (map sn_id (db_file_snapshots (w_db w)))" "distinct (map ss_id (db_snapshot_sets (w_db w)))"
    and "S \<in> set (db_snapshot_sets (w_db w)) \<Longrightarrow> task_set t v S \<Longrightarrow> ss_snapshot_root S = snapshot_root_of e (ss_id S)"
    and "s \<in> set (db_file_snapshots (w_db w)) \<Longrightarrow> p \<in> P \<Longrightarrow> task_snapshot t v p s \<Longrightarrow>
      is_file w0 (vault_root @ path_parts p) \<Longrightarrow> copy_of e vault_root w0 w s"
  using assms by (auto simp: snapshots_ok_def)

text \<open>The copies of the snapshots in \<open>d\<close> are still what they were.\<close>

definition copies_kept :: "vault_env \<Rightarrow> string \<Rightarrow> string \<Rightarrow> string set \<Rightarrow> vault_db \<Rightarrow> vault_world \<Rightarrow> vault_world \<Rightarrow> bool" where
  "copies_kept e t v P d w w' \<longleftrightarrow> (\<forall>s\<in>set (db_file_snapshots d). \<forall>p\<in>P. task_snapshot t v p s \<longrightarrow>
     file_bytes w' (snapshot_file e (sn_snapshot_set_id s) p) = file_bytes w (snapshot_file e (sn_snapshot_set_id s) p))"

lemma copy_of_kept:
  assumes "copy_of e vault_root w0 w s" and "copies_kept e t v P d w w'" and "s \<in> set (db_file_snapshots d)"
    and "p \<in> P" and "task_snapshot t v p s" and "set (db_snapshot_sets (w_db w)) \<subseteq> set (db_snapshot_sets (w_db w'))"
  shows "copy_of e vault_root w0 w' s"
  using assms unfolding copy_of_def copies_kept_def task_snapshot_def by (metis subsetD)

lemma snapshots_ok_kept:
  assumes "snapshots_ok e vault_root t v P w0 w" and "copies_kept e t v P (w_db w) w w'"
    and "db_file_snapshots (w_db w') = db_file_snapshots (w_db w)" and "db_snapshot_sets (w_db w') = db_snapshot_sets (w_db w)"
  shows "snapshots_ok e vault_root t v P w0 w'"
  using assms copy_of_kept [OF _ assms(2)] by (auto simp: snapshots_ok_def)

text \<open>The owner of the captures of a task.\<close>

definition task_context :: "ExecutionTaskSnapshot \<Rightarrow> mutation_context" where
  "task_context task = \<lparr>mc_task = Some task, mc_activity = None\<rparr>"

definition task_owner_of :: "ExecutionTaskSnapshot \<Rightarrow> snapshot_owner" where
  "task_owner_of task = \<lparr>so_activity_id = None, so_task_id = Some (ts_task_id task), so_kind = Some (ts_kind task),
     so_source = Some (ts_source task), so_scope = Some (ts_scope task), so_label = Some (ts_label task),
     so_purpose = ''rollback'', so_snapshot_source = task_source, so_scope_kind = ''task'', so_scope_id = ts_task_id task\<rparr>"

lemma existing_snapshot_task:
  "existing_snapshot (task_owner_of task) v p d = find (task_snapshot (ts_task_id task) v p) (sort_key sn_id (db_file_snapshots d))"
  by (simp add: existing_snapshot_def task_owner_of_def given_def task_snapshot_def [abs_def] conj_assoc)

lemma existing_set_task:
  "existing_snapshot_set (task_owner_of task) v d = find (task_set (ts_task_id task) v) (sort_key ss_id (db_snapshot_sets d))"
  by (simp add: existing_snapshot_set_def task_owner_of_def given_def task_set_def [abs_def])

text \<open>Outside the snapshots: neither among them nor on the way to them.\<close>

definition outside :: "vault_env \<Rightarrow> path set" where
  "outside e = {q. \<not> is_below (snapshot_base_root e) q \<and> \<not> is_below q (snapshot_base_root e)}"

lemma outside_snapshots:
  assumes "q \<in> outside e" and "is_below (snapshot_base_root e) p"
  shows "\<not> is_below q p" "\<not> is_below p q"
proof -
  show "\<not> is_below q p" using is_below_comparable [OF assms(2), of q] assms(1) by (auto simp: outside_def)
  show "\<not> is_below p q" using is_below_trans [OF assms(2)] assms(1) by (auto simp: outside_def)
qed

definition task_set_step :: "vault_env \<Rightarrow> ExecutionTaskSnapshot \<Rightarrow> string \<Rightarrow> string \<Rightarrow> datetime \<Rightarrow> datetime option \<Rightarrow> SnapshotSet option \<Rightarrow> SnapshotSet io" where
  "task_set_step e task v name created_at expires_at found =
     (case found of Some s \<Rightarrow> vreturn s
      | None \<Rightarrow> new_snapshot_set e (task_owner_of task) v name created_at expires_at)"

lemma task_set_step_effect:
  assumes run: "task_set_step e task v name created_at expires_at (existing_snapshot_set (task_owner_of task) v (w_db w)) w = (r, w')"
    and ok: "snapshots_ok e vault_root (ts_task_id task) v P w0 w"
  shows "same_on (outside e) w w' \<and> (\<forall>q. file_bytes w' q = file_bytes w q) \<and>
    db_activities (w_db w') = db_activities (w_db w) \<and> db_mutations (w_db w') = db_mutations (w_db w) \<and>
    db_file_snapshots (w_db w') = db_file_snapshots (w_db w) \<and>
    (\<forall>S. r = Inr S \<longrightarrow> S \<in> set (db_snapshot_sets (w_db w')) \<and> ss_snapshot_root S = snapshot_root_of e (ss_id S) \<and>
       set (db_snapshot_sets (w_db w)) \<subseteq> set (db_snapshot_sets (w_db w')) \<and> snapshots_ok e vault_root (ts_task_id task) v P w0 w')"
proof (cases "existing_snapshot_set (task_owner_of task) v (w_db w)")
  case (Some S)
  then have "S \<in> set (db_snapshot_sets (w_db w)) \<and> task_set (ts_task_id task) v S"
    using find_Some_iff [of "task_set (ts_task_id task) v"] by (metis existing_set_task nth_mem set_sort)
  then show ?thesis
    using run Some ok snapshots_okD(3) [OF ok] by (auto simp: task_set_step_def vreturn_def same_on_def)
next
  case None
  let ?id = "next_rowid (map ss_id (db_snapshot_sets (w_db w)))"
  define S where "S = \<lparr>ss_id = ?id, ss_activity_id = None, ss_task_id = Some (ts_task_id task), ss_task_kind = Some (ts_kind task),
    ss_task_source = Some (ts_source task), ss_task_scope = Some (ts_scope task), ss_task_label = Some (ts_label task),
    ss_vault_id = v, ss_vault_name = name, ss_purpose = ''rollback'', ss_scope_kind = Some ''task'',
    ss_scope_id = Some (ts_task_id task), ss_snapshot_root = snapshot_root_of e ?id, ss_status = ''active'',
    ss_created_at = created_at, ss_expires_at = expires_at, ss_rolled_back_at = None\<rparr>"
  then have S: "ss_id S = ?id" "ss_snapshot_root S = snapshot_root_of e ?id" by simp_all
  have run': "vbind (mkdir_parents (snapshot_root_of e ?id)) (\<lambda>_.
        change_db (\<lambda>d. (S, d\<lparr>db_snapshot_sets := db_snapshot_sets d @ [S]\<rparr>))) w = (r, w')"
    using run None
    by (simp add: task_set_step_def new_snapshot_set_def vbind_def [of "asks _"] asks_def Let_def task_owner_of_def S_def)
  obtain r1 w1 where made: "mkdir_parents (snapshot_root_of e ?id) w = (r1, w1)" by fastforce
  have "is_below (snapshot_base_root e) (snapshot_root_of e ?id)" by (simp add: snapshot_root_of_def)
  then have "\<forall>q\<in>outside e. \<not> is_below q (snapshot_root_of e ?id)" using outside_snapshots by blast
  note nodes = keepsD [OF keeps_mkdir_on [OF this] made]
  have bytes: "\<And>q. file_bytes w1 q = file_bytes w q" using mkdir_file_bytes [OF made] .
  have db: "w_db w1 = w_db w" using keepsD [OF rows.keeps_mkdir made] .
  show ?thesis
  proof (cases r1)
    case (Inl err)
    then show ?thesis using run' made nodes bytes db by (auto simp: vbind_def)
  next
    case (Inr u)
    have w': "r = Inr S" "w' = w1\<lparr>w_db := (w_db w)\<lparr>db_snapshot_sets := db_snapshot_sets (w_db w) @ [S]\<rparr>\<rparr>"
      using run' made Inr db by (auto simp: vbind_def change_db_def)
    have new: "ss_id S \<notin> ss_id ` set (db_snapshot_sets (w_db w))"
      using next_rowid_larger [of _ "map ss_id (db_snapshot_sets (w_db w))"] S(1) by fastforce
    have "copies_kept e (ts_task_id task) v P (w_db w) w w'" using bytes by (simp add: copies_kept_def w' file_bytes_def)
    note copies = copy_of_kept [OF _ this]
    have fields: "db_snapshot_sets (w_db w') = db_snapshot_sets (w_db w) @ [S]"
        "db_file_snapshots (w_db w') = db_file_snapshots (w_db w)" by (simp_all add: w')
    have "copy_of e vault_root w0 w' s" if "s \<in> set (db_file_snapshots (w_db w))" "p \<in> P" "task_snapshot (ts_task_id task) v p s"
        "is_file w0 (vault_root @ path_parts p)" for s p
      using copies [OF snapshots_okD(4) [OF ok that] that(1-3)] by (auto simp: fields)
    then have "snapshots_ok e vault_root (ts_task_id task) v P w0 w'"
      using ok new S unfolding snapshots_ok_def by (auto simp: fields)
    then show ?thesis using nodes bytes S by (auto simp: w' same_on_def file_bytes_def)
  qed
qed

text \<open>The second half of a fresh capture: the copy and its row.\<close>

definition fresh_capture ::
  "ExecutionTaskSnapshot \<Rightarrow> string \<Rightarrow> string \<Rightarrow> string \<Rightarrow> bool \<Rightarrow> path \<Rightarrow> datetime \<Rightarrow> datetime option \<Rightarrow> bool \<Rightarrow> SnapshotSet \<Rightarrow>
    SnapshotCaptureResult io" where
  "fresh_capture task v name p before_exists full created_at expires_at created S =
     vbind (if \<not> before_exists then vreturn (None, None)
            else copy_aside full (ss_snapshot_root S @ path_parts (snapshot_ref_of task_source p)) (snapshot_ref_of task_source p))
       (\<lambda>(snapshot_ref, content_hash).
     vbind (change_db (\<lambda>d. let sid = next_rowid (map sn_id (db_file_snapshots d))
        in (sid, d\<lparr>db_file_snapshots := db_file_snapshots d @ [\<lparr>sn_id = sid, sn_snapshot_set_id = ss_id S, sn_activity_id = None,
             sn_task_id = Some (ts_task_id task), sn_vault_id = v, sn_vault_name = name, sn_path = p, sn_source = task_source,
             sn_exists = before_exists, sn_content_hash = content_hash, sn_snapshot_ref = snapshot_ref,
             sn_created_at = created_at, sn_expires_at = expires_at\<rparr>]\<rparr>))) (\<lambda>sid.
     vreturn \<lparr>cap_snapshot_set_id = Some (ss_id S), cap_file_snapshot_id = Some sid, cap_snapshot_ref = snapshot_ref,
       cap_created_snapshot = created, cap_recorded_path = True\<rparr>))"

lemma fresh_capture_run:
  assumes "fresh_capture task v name p before_exists full created_at expires_at created S w = (r, w')"
    and "ss_snapshot_root S = snapshot_root_of e (ss_id S)"
  obtains (raised) err where "r = Inl err" "before_exists"
      "copy_aside full (snapshot_file e (ss_id S) p) (snapshot_ref_of task_source p) w = (Inl err, w')"
  | (stored) w1 s res where "w' = w1\<lparr>w_db := (w_db w1)\<lparr>db_file_snapshots := db_file_snapshots (w_db w1) @ [s]\<rparr>\<rparr>"
      "task_snapshot (ts_task_id task) v p s" "sn_snapshot_set_id s = ss_id S"
      "sn_id s = next_rowid (map sn_id (db_file_snapshots (w_db w1)))" "r = Inr res" "cap_file_snapshot_id res = Some (sn_id s)"
      "\<not> before_exists \<and> w1 = w \<or> before_exists \<and> sn_snapshot_ref s = Some (snapshot_ref_of task_source p) \<and>
        (\<exists>x. copy_aside full (snapshot_file e (ss_id S) p) (snapshot_ref_of task_source p) w = (Inr x, w1))"
proof (cases before_exists)
  case False
  then show thesis
    using assms(1) stored [of w] by (auto simp: fresh_capture_def vbind_def vreturn_def change_db_def Let_def task_snapshot_def)
next
  case True
  let ?ref = "snapshot_ref_of task_source p"
  obtain r1 w1 where aside: "copy_aside full (snapshot_file e (ss_id S) p) ?ref w = (r1, w1)" by fastforce
  show thesis
  proof (cases r1)
    case (Inl err)
    then show thesis
      using raised [of err] True aside assms by (auto simp: fresh_capture_def vbind_def snapshot_file_def)
  next
    case (Inr x)
    then obtain h where "x = (Some ?ref, h)" using copy_aside_effect(4) [OF aside] by (cases x) auto
    then show thesis
      using stored [of w1] True aside Inr assms
      by (auto simp: fresh_capture_def vbind_def vreturn_def change_db_def Let_def task_snapshot_def snapshot_file_def)
  qed
qed

lemma capture_run:
  assumes "ensure_file_snapshot e (task_owner_of task) v name p before_exists full created_at expires_at w = (r, w')"
  obtains (raised) err where "r = Inl err" "w' = w"
  | (known) s where "s \<in> set (db_file_snapshots (w_db w))" "task_snapshot (ts_task_id task) v p s" "w' = w"
      "\<And>res. r = Inr res \<Longrightarrow> cap_file_snapshot_id res = Some (sn_id s)"
  | (fresh) created where "\<forall>s\<in>set (db_file_snapshots (w_db w)). \<not> task_snapshot (ts_task_id task) v p s"
      "vbind (task_set_step e task v name created_at expires_at (existing_snapshot_set (task_owner_of task) v (w_db w)))
         (fresh_capture task v name p before_exists full created_at expires_at created) w = (r, w')"
proof (cases "ts_task_id task = []")
  case True
  then have "\<exists>err. r = Inl err \<and> w' = w"
    using assms by (auto simp: ensure_file_snapshot_def task_owner_of_def given_def vraise_def)
  then show thesis using raised by blast
next
  case named: False
  show thesis
  proof (cases "existing_snapshot (task_owner_of task) v p (w_db w)")
    case (Some s)
    then have "s \<in> set (db_file_snapshots (w_db w)) \<and> task_snapshot (ts_task_id task) v p s"
      unfolding existing_snapshot_task by (metis find_Some_iff nth_mem set_sort)
    then show thesis
      using known [of s] assms named Some
      by (auto simp: ensure_file_snapshot_def task_owner_of_def given_def vbind_def asks_def vreturn_def)
  next
    case None
    then have absent: "\<forall>s\<in>set (db_file_snapshots (w_db w)). \<not> task_snapshot (ts_task_id task) v p s"
      by (simp add: existing_snapshot_task find_None_iff)
    let ?found = "existing_snapshot_set (task_owner_of task) v (w_db w)"
    have owner: "so_activity_id (task_owner_of task) = None" "so_task_id (task_owner_of task) = Some (ts_task_id task)"
        "so_snapshot_source (task_owner_of task) = task_source"
      by (simp_all add: task_owner_of_def)
    have "ensure_file_snapshot e (task_owner_of task) v name p before_exists full created_at expires_at w =
        vbind (task_set_step e task v name created_at expires_at ?found)
          (fresh_capture task v name p before_exists full created_at expires_at (?found = None)) w"
      by (simp add: ensure_file_snapshot_def given_def vbind_def [of "asks _"] asks_def None named owner task_set_step_def
        copy_aside_def fresh_capture_def [abs_def] Let_def cong: if_cong)
    then show thesis using fresh [OF absent] assms by simp
  qed
qed

text \<open>
  A capture of the path \<open>p\<close>: files outside stay, older copies stay, and a capture that returns leaves a row for \<open>p\<close> whose copy,
  if there is one, has the content at the beginning.
\<close>

definition captures :: "vault_env \<Rightarrow> path \<Rightarrow> string \<Rightarrow> string \<Rightarrow> string set \<Rightarrow> vault_world \<Rightarrow> string \<Rightarrow> vault_world \<Rightarrow> nat option option \<Rightarrow> vault_world \<Rightarrow> bool" where
  "captures e vault_root t v P w0 p w captured w' \<longleftrightarrow>
     same_on (outside e) w w' \<and> copies_kept e t v P (w_db w) w w' \<and>
     db_activities (w_db w') = db_activities (w_db w) \<and> db_mutations (w_db w') = db_mutations (w_db w) \<and>
     (\<forall>i. captured = Some i \<longrightarrow> snapshots_ok e vault_root t v P w0 w' \<and>
        set (db_file_snapshots (w_db w)) \<subseteq> set (db_file_snapshots (w_db w')) \<and>
        (\<exists>s\<in>set (db_file_snapshots (w_db w')). task_snapshot t v p s \<and> i = Some (sn_id s)))"

lemma copy_aside_snapshot:
  assumes "copy_aside full (snapshot_file e i p) ref w = (r, w')" and "vault_paths vault_root P" and "p \<in> P"
    and "\<forall>s\<in>set (db_file_snapshots d). \<not> task_snapshot t v p s"
  shows "same_on (outside e) w w'" and "copies_kept e t v P d w w'"
proof -
  note effect = copy_aside_effect [OF assms(1)]
  show "same_on (outside e) w w'"
    using effect(2) outside_snapshots snapshot_file_below by (fastforce simp: same_on_def)
  have "file_bytes w' (snapshot_file e j q) = file_bytes w (snapshot_file e j q)" if "q \<in> P" "q \<noteq> p" for j q
  proof (rule effect(3))
    show "\<not> is_below (snapshot_file e i p) (snapshot_file e j q)"
      using snapshot_files_apart assms(2,3) that unfolding vault_paths_def by metis
  qed
  then show "copies_kept e t v P d w w'" using assms(4) unfolding copies_kept_def by metis
qed

lemma fresh_capture_effect:
  assumes run: "fresh_capture task v name p before_exists full created_at expires_at created S w = (r, w')"
    and S: "S \<in> set (db_snapshot_sets (w_db w))" "ss_snapshot_root S = snapshot_root_of e (ss_id S)"
    and paths: "vault_paths vault_root P" "p \<in> P" "full = vault_root @ path_parts p"
    and ok: "snapshots_ok e vault_root (ts_task_id task) v P w0 w"
    and absent: "\<forall>s\<in>set (db_file_snapshots (w_db w)). \<not> task_snapshot (ts_task_id task) v p s"
    and before: "before_exists = path_exists w full" "file_bytes w full = file_bytes w0 full" 
  shows "captures e vault_root (ts_task_id task) v P w0 p w (case r of Inl _ \<Rightarrow> None | Inr res \<Rightarrow> Some (cap_file_snapshot_id res)) w'"
  using run S(2)
proof (cases rule: fresh_capture_run)
  case (raised err)
  show ?thesis
    using raised copy_aside_snapshot [OF raised(3) paths(1,2) absent] copy_aside_effect(1) [OF raised(3)]
    by (simp add: captures_def)
next
  case (stored w1 s res)
  let ?t = "ts_task_id task"
  have w1: "same_on (outside e) w w1" "copies_kept e ?t v P (w_db w) w w1" "w_db w1 = w_db w"
    using stored(7) copy_aside_snapshot [OF _ paths(1,2) absent] copy_aside_effect(1)
    by (auto simp: same_on_def copies_kept_def)
  have fields: "db_file_snapshots (w_db w') = db_file_snapshots (w_db w) @ [s]" "db_snapshot_sets (w_db w') = db_snapshot_sets (w_db w)"
      "db_activities (w_db w') = db_activities (w_db w)" "db_mutations (w_db w') = db_mutations (w_db w)"
    by (simp_all add: stored(1) w1)
  have nodes: "node_at w' q = node_at w1 q" "file_bytes w' q = file_bytes w1 q" for q by (simp_all add: stored(1) file_bytes_def)
  have kept: "copies_kept e ?t v P (w_db w) w w'" using w1(2) by (simp add: copies_kept_def nodes)
  have old: "copy_of e vault_root w0 w' s'" if "s' \<in> set (db_file_snapshots (w_db w))" "q \<in> P" "task_snapshot ?t v q s'"
      "is_file w0 (vault_root @ path_parts q)" for s' q
    using copy_of_kept [OF snapshots_okD(4) [OF ok that] kept that(1-3)] by (simp add: fields)
  have new: "copy_of e vault_root w0 w' s" if "is_file w0 full"
  proof -
    have "before_exists" using that before by (auto simp: is_file_def path_exists_def file_bytes_def split: option.splits)
    then obtain x where aside: "copy_aside full (snapshot_file e (ss_id S) p) (snapshot_ref_of task_source p) w = (Inr x, w1)"
        and "sn_snapshot_ref s = Some (snapshot_ref_of task_source p)"
      using stored(7) by blast
    then show ?thesis
      using copy_aside_effect(4) [OF aside] stored(2,3) S before(2) paths(3)
      by (auto simp: copy_of_def task_snapshot_def fields nodes)
  qed
  have "sn_id s \<notin> sn_id ` set (db_file_snapshots (w_db w))"
    using next_rowid_larger [of _ "map sn_id (db_file_snapshots (w_db w))"] stored(4) w1(3) by fastforce
  then have "snapshots_ok e vault_root ?t v P w0 w'"
    using ok old new paths(3) stored(2) unfolding snapshots_ok_def by (auto simp: fields task_snapshot_def)
  moreover have "same_on (outside e) w w'" using w1(1) by (simp add: same_on_def nodes)
  ultimately show ?thesis using kept stored(2,5,6) by (auto simp: captures_def fields)
qed

lemma capture_effect:
  assumes run: "ensure_file_snapshot e (task_owner_of task) v name p before_exists full created_at expires_at w = (r, w')"
    and paths: "vault_paths vault_root P" "p \<in> P" "full = vault_root @ path_parts p"
    and ok: "snapshots_ok e vault_root (ts_task_id task) v P w0 w"
    and before: "before_exists = path_exists w full" "full \<in> outside e"
      "\<forall>s\<in>set (db_file_snapshots (w_db w)). \<not> task_snapshot (ts_task_id task) v p s \<Longrightarrow> node_at w full = node_at w0 full"
  shows "captures e vault_root (ts_task_id task) v P w0 p w (case r of Inl _ \<Rightarrow> None | Inr res \<Rightarrow> Some (cap_file_snapshot_id res)) w'"
  using run
proof (cases rule: capture_run)
  case (raised err)
  then show ?thesis by (simp add: captures_def same_on_def copies_kept_def)
next
  case (known s)
  then show ?thesis using ok by (auto simp: captures_def same_on_def copies_kept_def split: sum.splits)
next
  case (fresh created)
  let ?t = "ts_task_id task"
  from fresh(2) show ?thesis
  proof (cases rule: vbindE)
    case (raised err)
    then show ?thesis
      using task_set_step_effect [OF raised(1) ok] by (auto simp: captures_def copies_kept_def)
  next
    case (bound S w1)
    note set_effect = task_set_step_effect [OF bound(1) ok]
    have w1: "same_on (outside e) w w1" "\<And>q. file_bytes w1 q = file_bytes w q"
        "db_activities (w_db w1) = db_activities (w_db w)" "db_mutations (w_db w1) = db_mutations (w_db w)"
        "db_file_snapshots (w_db w1) = db_file_snapshots (w_db w)" "S \<in> set (db_snapshot_sets (w_db w1))"
        "ss_snapshot_root S = snapshot_root_of e (ss_id S)" "snapshots_ok e vault_root ?t v P w0 w1"
      using set_effect by auto
    have "node_at w1 full = node_at w full" using same_onD [OF w1(1) before(2)] .
    then have "before_exists = path_exists w1 full" "file_bytes w1 full = file_bytes w0 full"
      using before(1,3) fresh(1) by (simp_all add: path_exists_def file_bytes_def)
    then have "captures e vault_root ?t v P w0 p w1 (case r of Inl _ \<Rightarrow> None | Inr res \<Rightarrow> Some (cap_file_snapshot_id res)) w'"
      using fresh(1) w1(5) by (intro fresh_capture_effect [OF bound(2) w1(6,7) paths w1(8)]) auto
    then show ?thesis
      using w1(1-5) unfolding captures_def copies_kept_def by (auto simp: same_on_def)
  qed
qed

lemma bind_laws:
  "vbind (vreturn x) f = f x" "vbind m vreturn = m" "vfold g [] = vreturn"
  by (auto simp: vbind_def vreturn_def fun_eq_iff split: prod.splits sum.splits)

lemma bind_assoc: "vbind (vbind m f) g = vbind m (\<lambda>x. vbind (f x) g)"
  by (auto simp: vbind_def fun_eq_iff split: prod.splits sum.splits)

lemma bind_if_rejected: "vbind (if b then rejected k n else m) f = (if b then rejected k n else vbind m f)"
  by (simp add: vbind_def vraise_def fun_eq_iff)

lemma bind_asks: "vbind (asks f) g w = g (f w) w"
  by (simp add: vbind_def asks_def)

lemma session_cases:
  assumes "in_session m w = (r, w')"
  obtains (undone) err w1 where "r = Inl err" "same_on UNIV w1 w'" "w_db w' = w_db w" "snd (m w) = w1"
  | (committed) x w1 where "m w = (Inr x, w1)" "r = Inr x" "same_on UNIV w1 w'" "w_db w' = w_db w1"
proof -
  obtain r1 w1 where m: "m w = (r1, w1)" by fastforce
  obtain f w2 where commit: "next_failure w1 = (Inr f, w2)" by (cases "w_failures w1") (auto simp: next_failure_def)
  have w2: "same_on UNIV w1 w2 \<and> w_db w2 = w_db w1"
    using keepsD [OF keeps_next_failure_on commit] keepsD [OF rows.keeps_next_failure commit] by simp
  show thesis
  proof (cases "\<exists>x. r1 = Inr x \<and> f = None")
    case True
    then show thesis using committed assms m commit w2 by (auto simp: in_session_def)
  next
    case False
    then have "\<exists>err. r = Inl err \<and> same_on UNIV w1 w' \<and> w_db w' = w_db w"
      using assms m commit w2 by (cases r1; cases f) (auto simp: in_session_def same_on_def)
    then show thesis using undone m by auto
  qed
qed

lemma captures_undone:
  assumes "captures e vault_root t v P w0 p w captured w1" and "same_on UNIV w1 w'" and "w_db w' = w_db w"
  shows "captures e vault_root t v P w0 p w None w'"
  using assms by (simp add: captures_def same_on_def copies_kept_def file_bytes_def)

lemma captures_committed:
  assumes "captures e vault_root t v P w0 p w captured w1" and "same_on UNIV w1 w'" and "w_db w' = w_db w1"
  shows "captures e vault_root t v P w0 p w captured w'"
proof -
  have "copies_kept e t v P (w_db w1) w1 w'" using assms(2) by (simp add: copies_kept_def same_on_def file_bytes_def)
  then have "snapshots_ok e vault_root t v P w0 w1 \<Longrightarrow> snapshots_ok e vault_root t v P w0 w'"
    using snapshots_ok_kept assms(3) by metis
  then show ?thesis using assms by (auto simp: captures_def same_on_def copies_kept_def file_bytes_def)
qed

lemma capture_before_effect:
  assumes run: "capture_before e (task_context task) identity vault_root [(p, before_exists, full)] created_at w = (r, w')"
    and identity: "vi_vault_id identity = v"
    and paths: "vault_paths vault_root P" "p \<in> P" "full = vault_root @ path_parts p"
    and ok: "snapshots_ok e vault_root (ts_task_id task) v P w0 w"
    and before: "before_exists = path_exists w full" "full \<in> outside e"
      "\<forall>s\<in>set (db_file_snapshots (w_db w)). \<not> task_snapshot (ts_task_id task) v p s \<Longrightarrow> node_at w full = node_at w0 full"
  shows "captures e vault_root (ts_task_id task) v P w0 p w (case r of Inl _ \<Rightarrow> None | Inr xs \<Rightarrow> Some (fst (hd xs))) w'"
    and "r = Inl err \<Longrightarrow> w_db w' = w_db w"
proof -
  let ?m = "ensure_file_snapshot e (task_owner_of task) v (List.last vault_root) p before_exists full created_at
    (compute_snapshot_expiration e created_at)"
  let ?session = "vbind ?m (\<lambda>c. vreturn [(cap_file_snapshot_id c, cap_snapshot_ref c)])"
  have "snapshot_attribution (task_context task) = Some (task_owner_of task)"
    by (simp add: snapshot_attribution_def task_context_def task_owner_of_def)
  moreover have "so_activity_id (task_owner_of task) = None" by (simp add: task_owner_of_def)
  ultimately have run': "in_session ?session w = (r, w')"
    using run identity by (simp add: capture_before_def ensure_explicit_activity_def bind_laws)
  obtain r1 w1 where m: "?m w = (r1, w1)" by fastforce
  note effect = capture_effect [OF m paths ok before]
  from run' have "captures e vault_root (ts_task_id task) v P w0 p w (case r of Inl _ \<Rightarrow> None | Inr xs \<Rightarrow> Some (fst (hd xs))) w' \<and>
      (\<forall>err. r = Inl err \<longrightarrow> w_db w' = w_db w)"
  proof (cases rule: session_cases)
    case (undone err w2)
    have "w2 = w1" using undone(4) m by (cases r1) (auto simp: vbind_def vreturn_def)
    then show ?thesis using captures_undone [OF effect] undone by simp
  next
    case (committed xs w2)
    then obtain c where "r1 = Inr c" "xs = [(cap_file_snapshot_id c, cap_snapshot_ref c)]" "w2 = w1"
      using m by (cases r1) (auto simp: vbind_def vreturn_def)
    then show ?thesis using captures_committed [OF effect] committed by simp
  qed
  then show "captures e vault_root (ts_task_id task) v P w0 p w (case r of Inl _ \<Rightarrow> None | Inr xs \<Rightarrow> Some (fst (hd xs))) w'"
    and "r = Inl err \<Longrightarrow> w_db w' = w_db w" by auto
qed

section \<open>The journal\<close>

text \<open>The activity of the task, and the rows of its journal.\<close>

definition journal_ok :: "path \<Rightarrow> string \<Rightarrow> string \<Rightarrow> string set \<Rightarrow> vault_db \<Rightarrow> bool" where
  "journal_ok vault_root t v P d \<longleftrightarrow> sorted_wrt (<) (map vm_id (db_mutations d)) \<and>
     (\<forall>a\<in>set (db_activities d). (va_task_id a = Some t \<longleftrightarrow> va_activity_id a = task_activity_id t v) \<and>
        (va_activity_id a = task_activity_id t v \<longrightarrow> va_vault_id a = v \<and> va_vault_name a = List.last vault_root)) \<and>
     (\<forall>m\<in>set (db_mutations d). vm_activity_id m = task_activity_id t v \<longrightarrow> vm_path m \<in> P \<and> vm_target_kind m = ''file'' \<and>
        vm_operation m \<in> set ROLLBACK_MUTATION_OPERATIONS \<and> task_activity_id t v \<in> va_activity_id ` set (db_activities d))"

lemma journal_okD:
  assumes "journal_ok vault_root t v P d"
  shows "sorted_wrt (<) (map vm_id (db_mutations d))"
    and "a \<in> set (db_activities d) \<Longrightarrow> va_task_id a = Some t \<longleftrightarrow> va_activity_id a = task_activity_id t v"
    and "a \<in> set (db_activities d) \<Longrightarrow> va_activity_id a = task_activity_id t v \<Longrightarrow> va_vault_id a = v \<and> va_vault_name a = List.last vault_root"
    and "m \<in> set (db_mutations d) \<Longrightarrow> vm_activity_id m = task_activity_id t v \<Longrightarrow> vm_path m \<in> P \<and> vm_target_kind m = ''file'' \<and>
        vm_operation m \<in> set ROLLBACK_MUTATION_OPERATIONS \<and> task_activity_id t v \<in> va_activity_id ` set (db_activities d)"
  using assms unfolding journal_ok_def by blast+

lemma journal_ok_activities:
  assumes "journal_ok vault_root t v P d" and "db_mutations d' = db_mutations d"
    and "\<forall>b\<in>set (db_activities d'). (\<exists>a\<in>set (db_activities d). va_activity_id b = va_activity_id a \<and> va_task_id b = va_task_id a \<and>
        va_vault_id b = va_vault_id a \<and> va_vault_name b = va_vault_name a) \<or>
      (va_activity_id b = task_activity_id t v \<and> va_task_id b = Some t \<and> va_vault_id b = v \<and> va_vault_name b = List.last vault_root)"
    and "va_activity_id ` set (db_activities d) \<subseteq> va_activity_id ` set (db_activities d')"
  shows "journal_ok vault_root t v P d'"
  using assms unfolding journal_ok_def by (auto; metis)

lemma find_activity_mem: "find_activity i d = Some a \<Longrightarrow> a \<in> set (db_activities d) \<and> va_activity_id a = i"
  unfolding find_activity_def by (metis (mono_tags, lifting) find_Some_iff nth_mem)

lemma ensure_activity_effect:
  assumes run: "ensure_activity e context vault_root (Some (List.last vault_root)) (Some created_at) w = (r, w')"
    and id: "identified e vault_root v w" and ok: "journal_ok vault_root t v P (w_db w)"
    and ctx: "ac_activity_id context = task_activity_id t v" "ac_task_id context = Some t"
  shows "same_on UNIV w w' \<and> db_mutations (w_db w') = db_mutations (w_db w) \<and> db_snapshot_sets (w_db w') = db_snapshot_sets (w_db w) \<and>
    db_file_snapshots (w_db w') = db_file_snapshots (w_db w) \<and> journal_ok vault_root t v P (w_db w')"
proof -
  have real: "env_realpath e vault_root = vault_root" using id by (simp add: identified_def)
  from run obtain r1 w1 where identity: "resolve_or_create_vault_identity e vault_root w = (r1, w1)" by fastforce
  note w1 = identity_effect [OF id identity]
  show ?thesis
  proof (cases r1)
    case (Inl err)
    then show ?thesis using run real identity w1 ok by (auto simp: ensure_activity_def vbind_def Let_def)
  next
    case (Inr i)
    then obtain f where session: "in_session (change_db f) w1 = (r, w')"
        and f: "\<And>d x d'. f d = (x, d') \<Longrightarrow> d' = d \<or> (d' = d\<lparr>db_activities := db_activities d @ [x]\<rparr> \<and>
          va_activity_id x = task_activity_id t v \<and> va_task_id x = Some t \<and> va_vault_id x = v \<and> va_vault_name x = List.last vault_root)"
      using run real identity w1 ctx
      by (fastforce simp: ensure_activity_def vbind_def Let_def vreturn_def split: option.splits)
    from session_change [OF session] have "same_on UNIV w1 w'" and "w_db w' = w_db w1 \<or> (\<exists>x. f (w_db w1) = (x, w_db w'))"
      by (auto split: sum.splits)
    then show ?thesis
    proof (elim disjE exE)
      assume "w_db w' = w_db w1"
      then show ?thesis using w1 ok \<open>same_on UNIV w1 w'\<close> by (simp add: same_on_def)
    next
      fix x
      assume "f (w_db w1) = (x, w_db w')"
      from f [OF this] have "journal_ok vault_root t v P (w_db w')"
        using w1 ok by (elim disjE) (auto simp: journal_ok_def)
      then show ?thesis using f [OF \<open>f (w_db w1) = (x, w_db w')\<close>] w1 \<open>same_on UNIV w1 w'\<close> by (auto simp: same_on_def)
    qed
  qed
qed

lemma with_activity_effect:
  assumes "with_activity i created_at expires_at w = (r, w')"
  shows "same_on UNIV w w'" and "r = Inl err \<Longrightarrow> w_db w' = w_db w"
    and "\<exists>acts. w_db w' = (w_db w)\<lparr>db_activities := acts\<rparr> \<and> map va_activity_id acts = map va_activity_id (db_activities (w_db w)) \<and>
      (\<forall>b\<in>set acts. \<exists>a\<in>set (db_activities (w_db w)). va_activity_id b = va_activity_id a \<and> va_task_id b = va_task_id a \<and>
         va_vault_id b = va_vault_id a \<and> va_vault_name b = va_vault_name a)"
proof -
  have "same_on UNIV w w' \<and> (r = Inl err \<longrightarrow> w_db w' = w_db w) \<and>
    (\<exists>acts. w_db w' = (w_db w)\<lparr>db_activities := acts\<rparr> \<and> map va_activity_id acts = map va_activity_id (db_activities (w_db w)) \<and>
      (\<forall>b\<in>set acts. \<exists>a\<in>set (db_activities (w_db w)). va_activity_id b = va_activity_id a \<and> va_task_id b = va_task_id a \<and>
         va_vault_id b = va_vault_id a \<and> va_vault_name b = va_vault_name a))"
  proof (cases "find_activity i (w_db w)")
    case None
    then have "w' = w" using assms by (auto simp: with_activity_def vbind_def asks_def vraise_def)
    then show ?thesis by (auto simp: same_on_def intro!: exI [of _ "db_activities (w_db w)"])
  next
    case (Some a)
    let ?f = "\<lambda>b. if va_activity_id b = va_activity_id a then touch_activity created_at expires_at a else b"
    have a: "a \<in> set (db_activities (w_db w))" using find_activity_mem [OF Some] by simp
    have touched: "va_activity_id (touch_activity created_at expires_at a) = va_activity_id a"
        "va_task_id (touch_activity created_at expires_at a) = va_task_id a"
        "va_vault_id (touch_activity created_at expires_at a) = va_vault_id a"
        "va_vault_name (touch_activity created_at expires_at a) = va_vault_name a"
      by (simp_all add: touch_activity_def)
    have "r = Inr () \<and> w' = w\<lparr>w_db := (w_db w)\<lparr>db_activities := map ?f (db_activities (w_db w))\<rparr>\<rparr>"
      using assms Some touched(1) by (auto simp: with_activity_def vbind_def asks_def change_db_def set_activity_def)
    then show ?thesis
      using a touched by (auto simp: same_on_def intro!: exI [of _ "map ?f (db_activities (w_db w))"])
  qed
  then show "same_on UNIV w w'" and "r = Inl err \<Longrightarrow> w_db w' = w_db w"
    and "\<exists>acts. w_db w' = (w_db w)\<lparr>db_activities := acts\<rparr> \<and> map va_activity_id acts = map va_activity_id (db_activities (w_db w)) \<and>
      (\<forall>b\<in>set acts. \<exists>a\<in>set (db_activities (w_db w)). va_activity_id b = va_activity_id a \<and> va_task_id b = va_task_id a \<and>
         va_vault_id b = va_vault_id a \<and> va_vault_name b = va_vault_name a)" by auto
qed

lemma journal_ok_row:
  assumes ok: "journal_ok vault_root t v P d" and "task_activity_id t v \<in> va_activity_id ` set (db_activities d)"
    and m: "vm_activity_id m = task_activity_id t v" "vm_path m \<in> P" "vm_target_kind m = ''file''"
      "vm_operation m \<in> set ROLLBACK_MUTATION_OPERATIONS" "vm_id m = next_rowid (map vm_id (db_mutations d))"
  shows "journal_ok vault_root t v P (d\<lparr>db_mutations := db_mutations d @ [m]\<rparr>)"
proof -
  have "\<forall>x\<in>set (map vm_id (db_mutations d)). x < vm_id m" using next_rowid_larger m(5) by metis
  then show ?thesis using assms by (auto simp: journal_ok_def sorted_wrt_append)
qed

text \<open>Writing the journal: nothing, or one row more.\<close>

lemma persist_effect:
  assumes run: "persist_or_log_mutation e (task_context task) x vault_root operation_id created_at expires_at ''file'' md w = (r, w')"
    and id: "identified e vault_root v w" and ok: "journal_ok vault_root (ts_task_id task) v P (w_db w)"
    and x: "rm_vault_id x = v" "rm_vault_name x = List.last vault_root" "rm_path x \<in> P" "rm_operation x \<in> set ROLLBACK_MUTATION_OPERATIONS"
  shows "same_on UNIV w w' \<and> db_snapshot_sets (w_db w') = db_snapshot_sets (w_db w) \<and>
    db_file_snapshots (w_db w') = db_file_snapshots (w_db w) \<and> journal_ok vault_root (ts_task_id task) v P (w_db w') \<and>
    (case r of Inl _ \<Rightarrow> db_mutations (w_db w') = db_mutations (w_db w)
     | Inr _ \<Rightarrow> \<exists>m. db_mutations (w_db w') = db_mutations (w_db w) @ [m] \<and> vm_activity_id m = task_activity_id (ts_task_id task) v \<and>
         vm_path m = rm_path x \<and> vm_before_exists m = rm_before_exists x \<and> vm_before_snapshot_id m = rm_before_snapshot_id x)"
proof -
  let ?t = "ts_task_id task" and ?i = "task_activity_id (ts_task_id task) v"
  obtain act where ctx: "mutation_activity_context (task_context task) v = Some act"
      "ac_activity_id act = ?i" "ac_task_id act = Some ?t"
    by (auto simp: mutation_activity_context_def task_context_def split: prod.splits)
  let ?row = "\<lambda>row_id. mutation_row row_id ?i operation_id x (rm_related_path x) ''file'' created_at expires_at md"
  obtain r1 w1 where ensured: "ensure_activity e act vault_root (Some (List.last vault_root)) (Some created_at) w = (r1, w1)"
    by fastforce
  note w1 = ensure_activity_effect [OF ensured id ok ctx(2,3)]
  show ?thesis
  proof (cases r1)
    case (Inl err)
    then show ?thesis using run ctx ensured x w1 by (auto simp: persist_or_log_mutation_def vbind_def)
  next
    case (Inr a)
    let ?session = "vbind (with_activity ?i created_at expires_at) (\<lambda>_. change_db (\<lambda>d. ((), add_mutation ?row d)))"
    have "in_session ?session w1 = (r, w')"
      using run ctx ensured x Inr by (simp add: persist_or_log_mutation_def vbind_def [of "ensure_activity _ _ _ _ _"])
    then show ?thesis
    proof (cases rule: session_cases)
      case (undone err w2)
      obtain r3 w3 where touched: "with_activity ?i created_at expires_at w1 = (r3, w3)" by fastforce
      have "same_on UNIV w1 w2"
        using undone(4) with_activity_effect(1) [OF touched] touched
        by (cases r3) (auto simp: vbind_def change_db_def same_on_def)
      then show ?thesis using undone w1 by (simp add: same_on_def)
    next
      case (committed y w2)
      then obtain u w3 where touched: "with_activity ?i created_at expires_at w1 = (Inr u, w3)"
          and w2: "w2 = w3\<lparr>w_db := add_mutation ?row (w_db w3)\<rparr>"
        by (auto simp: vbind_def change_db_def split: prod.splits sum.splits)
      obtain acts where acts: "w_db w3 = (w_db w1)\<lparr>db_activities := acts\<rparr>" "map va_activity_id acts = map va_activity_id (db_activities (w_db w1))"
          "\<forall>b\<in>set acts. \<exists>a\<in>set (db_activities (w_db w1)). va_activity_id b = va_activity_id a \<and> va_task_id b = va_task_id a \<and>
             va_vault_id b = va_vault_id a \<and> va_vault_name b = va_vault_name a"
        using with_activity_effect(3) [OF touched] by blast
      have ids: "va_activity_id ` set acts = va_activity_id ` set (db_activities (w_db w1))"
        using arg_cong [OF acts(2), of set] by simp
      have ok3: "journal_ok vault_root ?t v P (w_db w3)"
      proof (rule journal_ok_activities)
        show "journal_ok vault_root ?t v P (w_db w1)" using w1 by blast
      qed (use acts(3) ids in \<open>simp_all add: acts(1)\<close>)
      have "find_activity ?i (w_db w1) \<noteq> None"
        using touched by (auto simp: with_activity_def vbind_def asks_def vraise_def split: option.splits)
      then obtain b where "find_activity ?i (w_db w1) = Some b" by blast
      then have "?i \<in> va_activity_id ` set (db_activities (w_db w1))" by (metis find_activity_mem imageI)
      then have "?i \<in> va_activity_id ` set (db_activities (w_db w3))" by (simp add: acts(1) ids)
      then have "journal_ok vault_root ?t v P (w_db w2)"
        using x(3,4) unfolding w2 add_mutation_def by (auto intro!: journal_ok_row [OF ok3] simp: mutation_row_def)
      then show ?thesis
        using committed w1 with_activity_effect(1) [OF touched]
        by (auto simp: w2 add_mutation_def acts(1) same_on_def mutation_row_def)
    qed
  qed
qed

section \<open>A task at work\<close>

definition task_rows :: "string \<Rightarrow> string \<Rightarrow> string \<Rightarrow> vault_db \<Rightarrow> VaultMutation list" where
  "task_rows t v p d = filter (\<lambda>m. vm_activity_id m = task_activity_id t v \<and> vm_path m = p) (db_mutations d)"

text \<open>
  The first row of a path describes the file at the beginning; a path without a row is as it was, except those in \<open>X\<close>, which
  are being changed.
\<close>

definition first_row_ok :: "path \<Rightarrow> string \<Rightarrow> string \<Rightarrow> string \<Rightarrow> vault_world \<Rightarrow> vault_world \<Rightarrow> VaultMutation \<Rightarrow> bool" where
  "first_row_ok vault_root t v p w0 w m \<longleftrightarrow> vm_before_exists m = path_exists w0 (vault_root @ path_parts p) \<and>
     (path_exists w0 (vault_root @ path_parts p) \<longrightarrow> is_file w0 (vault_root @ path_parts p)) \<and>
     (\<exists>s\<in>set (db_file_snapshots (w_db w)). task_snapshot t v p s \<and> vm_before_snapshot_id m = Some (sn_id s))"

definition rows_ok :: "path \<Rightarrow> string \<Rightarrow> string \<Rightarrow> string set \<Rightarrow> vault_world \<Rightarrow> string set \<Rightarrow> vault_world \<Rightarrow> bool" where
  "rows_ok vault_root t v P w0 X w \<longleftrightarrow> (\<forall>p\<in>P.
     (task_rows t v p (w_db w) = [] \<longrightarrow> p \<notin> X \<longrightarrow> node_at w (vault_root @ path_parts p) = node_at w0 (vault_root @ path_parts p)) \<and>
     (task_rows t v p (w_db w) \<noteq> [] \<longrightarrow> first_row_ok vault_root t v p w0 w (hd (task_rows t v p (w_db w)))))"

definition task_inv :: "vault_env \<Rightarrow> path \<Rightarrow> string \<Rightarrow> string \<Rightarrow> string set \<Rightarrow> vault_world \<Rightarrow> string set \<Rightarrow> vault_world \<Rightarrow> bool" where
  "task_inv e vault_root t v P w0 X w \<longleftrightarrow> identified e vault_root v w \<and> snapshots_ok e vault_root t v P w0 w \<and>
     journal_ok vault_root t v P (w_db w) \<and> rows_ok vault_root t v P w0 X w"

lemma task_invD:
  assumes "task_inv e vault_root t v P w0 X w"
  shows "identified e vault_root v w" "snapshots_ok e vault_root t v P w0 w" "journal_ok vault_root t v P (w_db w)"
    "rows_ok vault_root t v P w0 X w"
  using assms by (simp_all add: task_inv_def)

lemma same_copies: "same_on UNIV w w' \<Longrightarrow> copies_kept e t v P d w w'"
  by (simp add: copies_kept_def same_on_def file_bytes_def)

lemma task_inv_calm:
  assumes inv: "task_inv e vault_root t v P w0 X w" and same: "same_on UNIV w w'" "journal (w_db w') = journal (w_db w)"
  shows "task_inv e vault_root t v P w0 X w'"
proof -
  have tables: "db_activities (w_db w') = db_activities (w_db w)" "db_mutations (w_db w') = db_mutations (w_db w)"
      "db_snapshot_sets (w_db w') = db_snapshot_sets (w_db w)" "db_file_snapshots (w_db w') = db_file_snapshots (w_db w)"
    using same(2) by (simp_all add: journal_def)
  have "identified e vault_root v w'" using same_on_identified [OF same(1)] task_invD(1) [OF inv] by simp
  moreover have "snapshots_ok e vault_root t v P w0 w'"
    by (rule snapshots_ok_kept [OF task_invD(2) [OF inv] same_copies [OF same(1)]]) (simp_all add: tables)
  moreover have "journal_ok vault_root t v P (w_db w')" using task_invD(3) [OF inv] by (simp add: journal_ok_def tables)
  moreover have "rows_ok vault_root t v P w0 X w'"
    using task_invD(4) [OF inv] same(1) by (simp add: rows_ok_def first_row_ok_def task_rows_def tables same_on_def)
  ultimately show ?thesis by (simp add: task_inv_def)
qed

lemma task_inv_keeps:
  assumes "task_inv e vault_root t v P w0 X w" and "keeps (calm e vault_root v) m" and "m w = (r, w')"
  shows "task_inv e vault_root t v P w0 X w' \<and> same_on UNIV w w' \<and> journal (w_db w') = journal (w_db w)"
  using calmD [OF keepsD [OF assms(2,3)] task_invD(1) [OF assms(1)]] task_inv_calm [OF assms(1)] by blast

text \<open>The setting as facts about one path.\<close>

lemma vault_path_facts:
  assumes "linkless e vault_root" and "vault_paths vault_root P" and "p \<in> P"
  shows "vault_root @ path_parts p \<in> outside e"
    and "q \<in> P \<Longrightarrow> is_below (vault_root @ path_parts p) (vault_root @ path_parts q) \<Longrightarrow> p = q"
    and "\<not> is_below (vault_root @ path_parts p) (vault_metadata_path vault_root)"
    and "\<not> is_below (vault_metadata_path vault_root) (vault_root @ path_parts p)"
proof -
  let ?full = "vault_root @ path_parts p" and ?base = "snapshot_base_root e"
  have "\<not> is_below ?base ?full" using is_below_comparable [of ?base ?full vault_root] assms(1) by (auto simp: linkless_def)
  moreover have "\<not> is_below ?full ?base" using is_below_trans [of vault_root ?full ?base] assms(1) by (auto simp: linkless_def)
  ultimately show "?full \<in> outside e" by (simp add: outside_def)
  show "q \<in> P \<Longrightarrow> is_below ?full (vault_root @ path_parts q) \<Longrightarrow> p = q"
    using assms(2,3) by (auto simp: vault_paths_def)
  show "\<not> is_below ?full (vault_metadata_path vault_root)" "\<not> is_below (vault_metadata_path vault_root) ?full"
    using assms(2,3) by (simp_all add: vault_paths_def)
qed

lemma rows_ok_weaken: "rows_ok vault_root t v P w0 X w \<Longrightarrow> X \<subseteq> Y \<Longrightarrow> rows_ok vault_root t v P w0 Y w"
  unfolding rows_ok_def by blast

lemma task_inv_weaken: "task_inv e vault_root t v P w0 X w \<Longrightarrow> X \<subseteq> Y \<Longrightarrow> task_inv e vault_root t v P w0 Y w"
  using rows_ok_weaken unfolding task_inv_def by blast

text \<open>A change of one path and of the directories on the way to it.\<close>

lemma task_inv_touched:
  assumes inv: "task_inv e vault_root t v P w0 X w" and setting: "linkless e vault_root" "vault_paths vault_root P" "p \<in> P"
    and touched: "same_on {q. \<not> is_below q (vault_root @ path_parts p)} w w'" "w_db w' = w_db w"
  shows "task_inv e vault_root t v P w0 (insert p X) w'"
proof -
  note facts = vault_path_facts [OF setting]
  have "file_bytes w' (vault_metadata_path vault_root) = file_bytes w (vault_metadata_path vault_root)"
    using same_onD [OF touched(1), of "vault_metadata_path vault_root"] facts(4) by (simp add: file_bytes_def)
  then have "identified e vault_root v w'" using task_invD(1) [OF inv] by (simp add: identified_def)
  moreover have "snapshots_ok e vault_root t v P w0 w'"
  proof (rule snapshots_ok_kept [OF task_invD(2) [OF inv]])
    have "node_at w' (snapshot_file e i q) = node_at w (snapshot_file e i q)" for i q
      using outside_snapshots(2) [OF facts(1) snapshot_file_below] by (intro same_onD [OF touched(1)]) simp
    then show "copies_kept e t v P (w_db w) w w'" by (simp add: copies_kept_def file_bytes_def)
  qed (simp_all add: touched(2))
  moreover have "rows_ok vault_root t v P w0 (insert p X) w'"
  proof -
    have "node_at w' (vault_root @ path_parts q) = node_at w (vault_root @ path_parts q)" if "q \<in> P" "q \<noteq> p" for q
      using vault_path_facts(2) [OF setting(1,2) that(1) setting(3)] that by (intro same_onD [OF touched(1)]) auto
    then show ?thesis
      using task_invD(4) [OF inv] by (auto simp: rows_ok_def first_row_ok_def touched(2))
  qed
  ultimately show ?thesis using task_invD(3) [OF inv] by (simp add: task_inv_def touched(2))
qed

lemma vault_outside: "linkless e vault_root \<Longrightarrow> is_below vault_root q \<Longrightarrow> q \<in> outside e"
  using is_below_comparable [of "snapshot_base_root e" q vault_root] is_below_trans [of vault_root q "snapshot_base_root e"]
  by (auto simp: outside_def linkless_def)

lemma capture_inv:
  assumes inv: "task_inv e vault_root (ts_task_id task) v P w0 {} w"
    and setting: "linkless e vault_root" "vault_paths vault_root P" "p \<in> P"
    and run: "capture_before e (task_context task) identity vault_root [(p, before_exists, vault_root @ path_parts p)] created_at w = (r, w')"
    and before: "vi_vault_id identity = v" "before_exists = path_exists w (vault_root @ path_parts p)"
  shows "task_inv e vault_root (ts_task_id task) v P w0 {} w' \<and> db_mutations (w_db w') = db_mutations (w_db w) \<and>
    same_on (outside e) w w' \<and>
    (\<forall>xs. r = Inr xs \<longrightarrow> (\<exists>s\<in>set (db_file_snapshots (w_db w')). task_snapshot (ts_task_id task) v p s \<and> fst (hd xs) = Some (sn_id s)))"
proof -
  let ?t = "ts_task_id task" and ?full = "vault_root @ path_parts p"
  have first: "node_at w ?full = node_at w0 ?full" if "\<forall>s\<in>set (db_file_snapshots (w_db w)). \<not> task_snapshot ?t v p s"
  proof -
    have "task_rows ?t v p (w_db w) = []"
      using task_invD(4) [OF inv] setting(3) that by (auto simp: rows_ok_def first_row_ok_def)
    then show ?thesis using task_invD(4) [OF inv] setting(3) by (simp add: rows_ok_def)
  qed
  note effect = capture_before_effect [OF run before(1) setting(2,3) refl task_invD(2) [OF inv] before(2) vault_path_facts(1) [OF setting] first]
  have captured: "same_on (outside e) w w'" "copies_kept e ?t v P (w_db w) w w'" "db_activities (w_db w') = db_activities (w_db w)"
      "db_mutations (w_db w') = db_mutations (w_db w)"
    using effect(1) by (simp_all add: captures_def)
  have ok: "snapshots_ok e vault_root ?t v P w0 w' \<and> set (db_file_snapshots (w_db w)) \<subseteq> set (db_file_snapshots (w_db w'))"
  proof (cases r)
    case (Inl err)
    then show ?thesis using effect(2) snapshots_ok_kept [OF task_invD(2) [OF inv] captured(2)] by simp
  next
    case (Inr xs)
    then show ?thesis using effect(1) by (simp add: captures_def)
  qed
  have nodes: "node_at w' q = node_at w q" if "is_below vault_root q" for q
    using same_onD [OF captured(1) vault_outside [OF setting(1) that]] .
  have "identified e vault_root v w'"
    using task_invD(1) [OF inv] nodes [of "vault_metadata_path vault_root"]
    by (simp add: identified_def file_bytes_def vault_metadata_path_def)
  moreover have "rows_ok vault_root ?t v P w0 {} w'"
    using task_invD(4) [OF inv] ok nodes by (fastforce simp: rows_ok_def first_row_ok_def task_rows_def captured(4))
  moreover have "journal_ok vault_root ?t v P (w_db w')"
    using task_invD(3) [OF inv] by (simp add: journal_ok_def captured(3,4))
  ultimately show ?thesis
    using ok captured effect(1) by (auto simp: task_inv_def captures_def)
qed

lemma record_applied_inv:
  assumes inv: "task_inv e vault_root (ts_task_id task) v P w0 {p} w" and p: "p \<in> P"
    and run: "record_applied e (task_context task) vault_root p full operation identity created_at operation_id before_exists
      before_hash captured w = (r, w')"
    and operation: "vi_vault_id identity = v" "operation \<in> set ROLLBACK_MUTATION_OPERATIONS"
    and first: "task_rows (ts_task_id task) v p (w_db w) = [] \<Longrightarrow> before_exists = path_exists w0 (vault_root @ path_parts p) \<and>
      (path_exists w0 (vault_root @ path_parts p) \<longrightarrow> is_file w0 (vault_root @ path_parts p))"
    and captured: "\<exists>s\<in>set (db_file_snapshots (w_db w)). task_snapshot (ts_task_id task) v p s \<and> fst captured = Some (sn_id s)"
  shows "same_on UNIV w w' \<and> task_inv e vault_root (ts_task_id task) v P w0 {p} w' \<and>
    (case r of Inl _ \<Rightarrow> db_mutations (w_db w') = db_mutations (w_db w) | Inr _ \<Rightarrow> task_inv e vault_root (ts_task_id task) v P w0 {} w')"
proof -
  let ?t = "ts_task_id task" and ?after = "path_exists w full"
  have real: "env_realpath e vault_root = vault_root" using task_invD(1) [OF inv] by (simp add: identified_def)
  define message where "message = operation @ '' for '' @ quoted p @ '' may have been applied, but vault-state recording failed during ''"
  define result where "result = (\<lambda>after_hash (refresh :: VaultStateRefreshResult). \<lparr>rm_vault_id = v, rm_vault_name = List.last vault_root, rm_path = p, rm_related_path = None,
     rm_operation = operation, rm_before_exists = before_exists, rm_before_hash = before_hash, rm_after_exists = ?after,
     rm_after_hash = after_hash, rm_task_id = mc_task_id (task_context task), rm_event_sequence = rr_latest_sequence refresh,
     rm_before_snapshot_id = fst captured, rm_snapshot_ref = snd captured\<rparr>)"
  define reading where "reading = vbind (hash_if ?after full) (\<lambda>after_hash.
     vbind (uncertain (message @ ''refresh: '') (vbind (if ?after then vreturn () else remove_favorite_paths e vault_root [p]) (\<lambda>_.
       refresh_vault e vault_root (Some (List.last vault_root))))) (\<lambda>refresh. vreturn (result after_hash refresh)))"
  have quiet: "keeps (calm e vault_root v) reading"
    unfolding reading_def
    by (auto intro!: quiet.keeps_combinators keeps_hash_if_calm keeps_uncertain keeps_remove_favorites_calm keeps_refresh_calm [OF real])
  define writing where "writing = (\<lambda>x. vbind (uncertain (message @ ''persist: '') (persist_or_log_mutation e (task_context task) x vault_root
     operation_id created_at (compute_task_mutation_expiration e created_at) ''file'' [])) (\<lambda>_. vreturn x))"
  have "vbind reading writing w = (r, w')"
    using run operation(1)
    by (simp add: record_applied_def bind_asks reading_def writing_def result_def message_def Let_def bind_assoc bind_laws)
  then show ?thesis
  proof (cases rule: vbindE)
    case (raised err)
    then show ?thesis using task_inv_keeps [OF inv quiet raised(1)] by (simp add: journal_def)
  next
    case (bound x w1)
    note w1 = task_inv_keeps [OF inv quiet bound(1)]
    have x: "rm_vault_id x = v" "rm_vault_name x = List.last vault_root" "rm_path x \<in> P" "rm_operation x \<in> set ROLLBACK_MUTATION_OPERATIONS"
        "rm_before_exists x = before_exists" "rm_before_snapshot_id x = fst captured" "rm_path x = p"
      using bound(1) p operation(2)
      by (auto simp: reading_def vbind_def vreturn_def result_def split: prod.splits sum.splits)
    obtain r2 where written: "persist_or_log_mutation e (task_context task) x vault_root operation_id created_at
        (compute_task_mutation_expiration e created_at) ''file'' [] w1 = (r2, w')" and r: "(\<exists>y. r = Inr y) = (\<exists>y. r2 = Inr y)"
      using bound(2) by (auto simp: writing_def vbind_def uncertain_def vtry_def vraise_def vreturn_def split: prod.splits sum.splits)
    note effect = persist_effect [OF written task_invD(1) [OF w1 [THEN conjunct1]] task_invD(3) [OF w1 [THEN conjunct1]] x(1-4)]
    have tables: "db_snapshot_sets (w_db w') = db_snapshot_sets (w_db w1)" "db_file_snapshots (w_db w') = db_file_snapshots (w_db w1)"
        "same_on UNIV w1 w'" "journal_ok vault_root ?t v P (w_db w')" using effect by auto
    have inv1: "task_inv e vault_root ?t v P w0 {p} w1" using w1 by blast
    have base: "identified e vault_root v w'" "snapshots_ok e vault_root ?t v P w0 w'"
      using same_on_identified [OF tables(3)] task_invD(1) [OF inv1]
        snapshots_ok_kept [OF task_invD(2) [OF inv1] same_copies [OF tables(3)] tables(2,1)] by auto
    have nodes: "node_at w' q = node_at w1 q" for q using tables(3) by (simp add: same_on_def)
    show ?thesis
    proof (cases r2)
      case (Inl err)
      then have "db_mutations (w_db w') = db_mutations (w_db w1)" using effect by simp
      moreover from this have "rows_ok vault_root ?t v P w0 {p} w'"
        using task_invD(4) [OF inv1] by (simp add: rows_ok_def first_row_ok_def task_rows_def nodes tables(2))
      ultimately show ?thesis
        using Inl r w1 base tables by (cases r) (auto simp: task_inv_def same_on_def journal_def)
    next
      case (Inr y)
      then obtain m where m: "db_mutations (w_db w') = db_mutations (w_db w1) @ [m]" "vm_activity_id m = task_activity_id ?t v"
          "vm_path m = p" "vm_before_exists m = before_exists" "vm_before_snapshot_id m = fst captured"
        using effect x by auto
      have old: "task_rows ?t v q (w_db w1) = task_rows ?t v q (w_db w)" "db_file_snapshots (w_db w1) = db_file_snapshots (w_db w)" for q
        using w1 by (simp_all add: task_rows_def journal_def)
      have rows: "task_rows ?t v q (w_db w') = task_rows ?t v q (w_db w1) @ (if q = p then [m] else [])" for q
        using m by (simp add: task_rows_def)
      have "first_row_ok vault_root ?t v p w0 w' (hd (task_rows ?t v p (w_db w')))"
      proof (cases "task_rows ?t v p (w_db w1) = []")
        case True
        then show ?thesis
          using first captured m(4,5) old by (simp add: rows first_row_ok_def tables(2))
      next
        case False
        then show ?thesis
          using task_invD(4) [OF inv1] p by (simp add: rows rows_ok_def first_row_ok_def tables(2))
      qed
      then have "rows_ok vault_root ?t v P w0 {} w'"
        using task_invD(4) [OF inv1] by (auto simp: rows_ok_def first_row_ok_def rows nodes tables(2))
      then have "task_inv e vault_root ?t v P w0 {} w'" using base tables(4) by (simp add: task_inv_def)
      moreover from this have "task_inv e vault_root ?t v P w0 {p} w'" by (rule task_inv_weaken) simp
      ultimately show ?thesis using Inr r w1 nodes by (cases r) (auto simp: same_on_def)
    qed
  qed
qed

text \<open>A mutator changes the file it is given and nothing else.\<close>

definition file_mutator :: "(path \<Rightarrow> unit io) \<Rightarrow> bool" where
  "file_mutator m \<longleftrightarrow> (\<forall>p w r w'. m p w = (r, w') \<longrightarrow> same_on (- {p}) w w' \<and> w_db w' = w_db w)"

text \<open>What comes before the capture: the old state, the identity, the clock and an id.\<close>

definition preparing :: "vault_env \<Rightarrow> path \<Rightarrow> string \<Rightarrow> path \<Rightarrow> string option option \<Rightarrow> bool \<Rightarrow> (string option \<times> VaultIdentity \<times> datetime \<times> string) io" where
  "preparing e vault_root p full expected before_exists =
     vbind (hash_if before_exists full) (\<lambda>before_hash.
     if expected \<noteq> None \<and> expected \<noteq> Some before_hash
     then rejected ''file_conflict'' (''Cannot restore '' @ quoted p @ '' because the current file state changed.'')
     else vbind (resolve_or_create_vault_identity e vault_root) (\<lambda>identity.
     vbind utc_now (\<lambda>created_at. vbind fresh_uuid (\<lambda>uuid_hex. vreturn (before_hash, identity, created_at, uuid_hex)))))"

lemma keeps_preparing_calm: "keeps (calm e vault_root v) (preparing e vault_root p full expected before_exists)"
  unfolding preparing_def
  by (auto intro!: quiet.keeps_combinators keeps_hash_if_calm keeps_identity_calm keeps_clock_calm keeps_uuid_calm)

lemma preparing_result:
  assumes run: "preparing e vault_root p full expected before_exists w = (Inr (h, identity, now, u), w')"
    and id: "identified e vault_root v w"
  shows "vi_vault_id identity = v" and "before_exists \<Longrightarrow> is_file w full"
proof -
  obtain w1 where hashed: "hash_if before_exists full w = (Inr h, w1)"
      and rest: "resolve_or_create_vault_identity e vault_root w1 = (Inr identity, snd (resolve_or_create_vault_identity e vault_root w1))"
    using run
    by (auto simp: preparing_def vbind_def vreturn_def vraise_def split: prod.splits sum.splits if_splits)
  have "identified e vault_root v w1"
    using calmD [OF keepsD [OF keeps_hash_if_calm hashed] id] same_on_identified id by blast
  then show "vi_vault_id identity = v" using identity_effect [OF _ rest] by blast
  show "before_exists \<Longrightarrow> is_file w full"
    using hashed by (auto simp: hash_if_def hash_file_bytes_def is_file_def vbind_def vreturn_def split: prod.splits sum.splits dest: read_file_content)
qed

lemma mutate_stages:
  "mutate_vault_file_locked e c vault_root p full operation mutator require_exists fail_if_exists create_parent expected w =
     (let before_exists = path_exists w full
      in if require_exists \<and> \<not> before_exists
         then rejected ''file_not_found'' (''Cannot mutate '' @ quoted p @ '' - file does not exist.'') w
         else if before_exists \<and> fail_if_exists
         then rejected ''file_exists'' (''Cannot mutate '' @ quoted p @ '' - file already exists.'') w
         else vbind (preparing e vault_root p full expected before_exists) (\<lambda>(before_hash, identity, created_at, uuid_hex).
           vbind (capture_before e c identity vault_root [(p, before_exists, full)] created_at) (\<lambda>captured.
           vbind (vbind (if create_parent then mkdir_parents (butlast full) else vreturn ()) (\<lambda>_. mutator full)) (\<lambda>_.
           record_applied e c vault_root p full operation identity created_at (''operation_'' @ uuid_hex) before_exists before_hash
             (hd captured)))) w)"
  by (simp add: mutate_vault_file_locked_def preparing_def bind_asks bind_assoc bind_laws bind_if_rejected Let_def cong: if_cong)

lemma touching_effect:
  assumes "file_mutator mutator" and "full \<noteq> []"
    and "vbind (if create_parent then mkdir_parents (butlast full) else vreturn ()) (\<lambda>_. mutator full) w = (r, w')"
  shows "same_on {q. \<not> is_below q full} w w' \<and> w_db w' = w_db w"
proof -
  have parents: "same_on {q. \<not> is_below q full} w w1 \<and> w_db w1 = w_db w"
    if "(if create_parent then mkdir_parents (butlast full) else vreturn ()) w = (r1, w1)" for r1 w1
  proof (cases create_parent)
    case True
    then have made: "mkdir_parents (butlast full) w = (r1, w1)" using that by simp
    have "\<forall>q\<in>{q. \<not> is_below q full}. \<not> is_below q (butlast full)" using is_below_butlast by blast
    then show ?thesis using keepsD [OF keeps_mkdir_on made] keepsD [OF rows.keeps_mkdir made] by blast
  next
    case False
    then show ?thesis using that by (simp add: vreturn_def same_on_def)
  qed
  from assms(3) show ?thesis
  proof (cases rule: vbindE)
    case (raised err)
    then show ?thesis using parents by blast
  next
    case (bound u w1)
    have "same_on (- {full}) w1 w' \<and> w_db w' = w_db w1" using assms(1) bound(2) by (simp add: file_mutator_def)
    moreover have "q \<noteq> full" if "\<not> is_below q full" for q using that by auto
    ultimately show ?thesis using parents [OF bound(1)] by (auto simp: same_on_def)
  qed
qed

text \<open>A raised mutation that left its file alone keeps the invariant, and so does one that returned.\<close>

lemma task_inv_left:
  assumes old: "task_inv e vault_root t v P w0 {} w" and new: "task_inv e vault_root t v P w0 {p} w'"
    and "db_mutations (w_db w') = db_mutations (w_db w)" and "node_at w' (vault_root @ path_parts p) = node_at w (vault_root @ path_parts p)"
  shows "task_inv e vault_root t v P w0 {} w'"
proof -
  have "task_rows t v q (w_db w') = task_rows t v q (w_db w)" for q using assms(3) by (simp add: task_rows_def)
  then have "rows_ok vault_root t v P w0 {} w'"
    using task_invD(4) [OF old] task_invD(4) [OF new] assms(4) unfolding rows_ok_def by (metis empty_iff singletonD)
  then show ?thesis using new by (simp add: task_inv_def)
qed

lemma mutate_locked_inv:
  assumes inv: "task_inv e vault_root (ts_task_id task) v P w0 {} w"
    and setting: "linkless e vault_root" "vault_paths vault_root P" "p \<in> P"
    and mutation: "file_mutator mutator" "operation \<in> set ROLLBACK_MUTATION_OPERATIONS"
    and run: "mutate_vault_file_locked e (task_context task) vault_root p (vault_root @ path_parts p) operation mutator require_exists
      fail_if_exists create_parent expected w = (r, w')"
    and outcome: "(\<exists>x. r = Inr x) \<or> node_at w' (vault_root @ path_parts p) = node_at w (vault_root @ path_parts p)"
  shows "task_inv e vault_root (ts_task_id task) v P w0 {} w'"
proof (cases "w' = w")
  case False
  let ?t = "ts_task_id task" and ?full = "vault_root @ path_parts p"
  let ?before = "path_exists w ?full"
  have nonempty: "?full \<noteq> []" using setting(1) by (simp add: linkless_def)
  have left: "task_inv e vault_root ?t v P w0 {} w'" if "r = Inl err" "task_inv e vault_root ?t v P w0 {p} w'"
      "db_mutations (w_db w') = db_mutations (w_db w)" for err
    using task_inv_left [OF inv that(2,3)] outcome that(1) by simp
  have "vbind (preparing e vault_root p ?full expected ?before) (\<lambda>(before_hash, identity, created_at, uuid_hex).
      vbind (capture_before e (task_context task) identity vault_root [(p, ?before, ?full)] created_at) (\<lambda>captured.
      vbind (vbind (if create_parent then mkdir_parents (butlast ?full) else vreturn ()) (\<lambda>_. mutator ?full)) (\<lambda>_.
      record_applied e (task_context task) vault_root p ?full operation identity created_at (''operation_'' @ uuid_hex) ?before before_hash
        (hd captured)))) w = (r, w')"
    using run False by (simp add: mutate_stages Let_def vraise_def split: if_splits)
  then show ?thesis
  proof (cases rule: vbindE)
    case (raised err)
    then show ?thesis using task_inv_keeps [OF inv keeps_preparing_calm raised(1)] by blast
  next
    case (bound prepared w1)
    obtain h identity now u where prepared: "prepared = (h, identity, now, u)" by (cases prepared)
    note w1 = task_inv_keeps [OF inv keeps_preparing_calm bound(1)]
    note facts = preparing_result [OF bound(1) [unfolded prepared] task_invD(1) [OF inv]]
    have same1: "node_at w1 q = node_at w q" for q using w1 by (simp add: same_on_def)
    then have before1: "?before = path_exists w1 ?full" by (simp add: path_exists_def)
    have muts1: "db_mutations (w_db w1) = db_mutations (w_db w)" using w1 by (simp add: journal_def)
    from bound(2) [unfolded prepared prod.case] show ?thesis
    proof (cases rule: vbindE)
      case (raised err)
      then show ?thesis using capture_inv [OF w1 [THEN conjunct1] setting raised(1) facts(1) before1] by blast
    next
      case (bound xs w2)
      note w2 = capture_inv [OF w1 [THEN conjunct1] setting bound(1) facts(1) before1]
      have same2: "node_at w2 ?full = node_at w ?full"
        using w2 vault_path_facts(1) [OF setting] same1 by (simp add: same_on_def)
      from bound(2) show ?thesis
      proof (cases rule: vbindE)
        case (raised err)
        have "task_inv e vault_root ?t v P w0 {p} w'"
          using task_inv_touched [OF w2 [THEN conjunct1] setting] touching_effect [OF mutation(1) nonempty raised(1)] by simp
        then show ?thesis
          using left raised(2) touching_effect [OF mutation(1) nonempty raised(1)] w2 muts1 by simp
      next
        case (bound y w3)
        note touched = touching_effect [OF mutation(1) nonempty bound(1)]
        have inv3: "task_inv e vault_root ?t v P w0 {p} w3"
          using task_inv_touched [OF w2 [THEN conjunct1] setting] touched by simp
        have first: "?before = path_exists w0 ?full \<and> (path_exists w0 ?full \<longrightarrow> is_file w0 ?full)"
          if "task_rows ?t v p (w_db w3) = []"
        proof -
          have "task_rows ?t v p (w_db w2) = []" using that touched by simp
          then have "node_at w2 ?full = node_at w0 ?full"
            using task_invD(4) [OF w2 [THEN conjunct1]] setting(3) by (simp add: rows_ok_def)
          then show ?thesis using facts(2) same2 by (auto simp: path_exists_def is_file_def file_bytes_def)
        qed
        have captured: "\<exists>s\<in>set (db_file_snapshots (w_db w3)). task_snapshot ?t v p s \<and> fst (hd xs) = Some (sn_id s)"
          using w2 touched by simp
        have recorded: "same_on UNIV w3 w' \<and> task_inv e vault_root ?t v P w0 {p} w' \<and>
            (case r of Inl _ \<Rightarrow> db_mutations (w_db w') = db_mutations (w_db w3) | Inr _ \<Rightarrow> task_inv e vault_root ?t v P w0 {} w')"
          by (rule record_applied_inv [OF inv3 setting(3) bound(2) facts(1) mutation(2) first captured])
        show ?thesis
        proof (cases r)
          case (Inl err)
          then show ?thesis using left recorded touched w2 muts1 by simp
        next
          case (Inr x)
          then show ?thesis using recorded by simp
        qed
      qed
    qed
  qed
qed (use inv in simp)

lemma resolved_full:
  assumes "resolve_vault_relative_path (env_realpath e) vault_root p markdown_only = Inr full" and "linkless e vault_root"
  shows "full = vault_root @ path_parts p"
  using assms by (auto simp: resolve_vault_relative_path_def Let_def join_path_def linkless_def split: if_splits)

lemma mutate_inv:
  assumes inv: "task_inv e vault_root (ts_task_id task) v P w0 {} w"
    and setting: "linkless e vault_root" "vault_paths vault_root P" "normalize_vault_relative_path path = p" "p \<in> P"
    and mutation: "file_mutator mutator" "operation \<in> set ROLLBACK_MUTATION_OPERATIONS"
    and run: "mutate_vault_file e (task_context task) vault_root path operation mutator require_exists fail_if_exists markdown_only
      create_parent expected w = (r, w')"
    and outcome: "(\<exists>x. r = Inr x) \<or> node_at w' (vault_root @ path_parts p) = node_at w (vault_root @ path_parts p)"
  shows "task_inv e vault_root (ts_task_id task) v P w0 {} w'"
proof (cases "resolve_vault_relative_path (env_realpath e) vault_root p markdown_only")
  case (Inl err)
  then have "w' = w"
    using run setting by (auto simp: mutate_vault_file_def Let_def vbind_def of_result_def linkless_def)
  then show ?thesis using inv by simp
next
  case (Inr full)
  have "env_realpath e vault_root = vault_root" using setting(1) by (simp add: linkless_def)
  then have "mutate_vault_file_locked e (task_context task) vault_root p (vault_root @ path_parts p) operation mutator require_exists
      fail_if_exists create_parent expected w = (r, w')"
    using run Inr resolved_full [OF Inr setting(1)] setting(3)
    by (simp add: mutate_vault_file_def Let_def vbind_def of_result_def)
  then show ?thesis using mutate_locked_inv [OF inv setting(1,2,4) mutation _ outcome] by blast
qed

end
