(* ===== verification/Vault_Undo.thy ===== *)
theory Vault_Undo
  imports Vault_Journal
begin

text \<open>
  The rollback of a task gives every file named in its journal the content it had before the task, or leaves all of them as
  they are, or says that it does not know; and what the rollback cannot see.
\<close>

section \<open>Lists\<close>

lemma sort_key_sorted: "sorted (map f xs) \<Longrightarrow> sort_key f xs = xs"
  by (induction xs) (simp_all add: insort_is_Cons)

lemma find_distinct: "distinct (map f xs) \<Longrightarrow> x \<in> set xs \<Longrightarrow> find (\<lambda>y. f y = f x) xs = Some x"
  by (induction xs) (auto simp: image_iff)

lemma distinct_map_sort: "distinct (map f (sort_key g xs)) = distinct (map f xs)"
  by (simp add: distinct_map)

lemma group_append_map:
  "map_of (group_append k v d) k' = (if k' = k then Some ((case map_of d k of None \<Rightarrow> [] | Some vs \<Rightarrow> vs) @ [v]) else map_of d k')"
  by (auto simp: group_append_def update_conv')

lemma group_append_distinct: "distinct (map fst d) \<Longrightarrow> distinct (map fst (group_append k v d))"
  by (simp add: group_append_def distinct_update)

lemma grouped_by_map:
  "map_of (grouped_by key xs) k = (case filter (\<lambda>x. key x = k) xs of [] \<Rightarrow> None | ys \<Rightarrow> Some ys) \<and> distinct (map fst (grouped_by key xs))"
proof (induction xs rule: rev_induct)
  case Nil
  then show ?case by (simp add: grouped_by_def)
next
  case (snoc x xs)
  have "grouped_by key (xs @ [x]) = group_append (key x) x (grouped_by key xs)" by (simp add: grouped_by_def)
  then show ?case
    using snoc by (auto simp: group_append_map group_append_distinct split: list.splits)
qed

lemma grouped_by_group:
  assumes "(k, g) \<in> set (grouped_by key xs)"
  shows "g = filter (\<lambda>x. key x = k) xs \<and> g \<noteq> []"
proof -
  have "map_of (grouped_by key xs) k = Some g" by (rule map_of_is_SomeI [OF conjunct2 [OF grouped_by_map] assms])
  then show ?thesis using grouped_by_map [of key xs k] by (auto split: list.splits)
qed

lemma grouped_by_keys: "fst ` set (grouped_by key xs) = key ` set xs"
proof -
  have "k \<in> fst ` set (grouped_by key xs) \<longleftrightarrow> k \<in> key ` set xs" for k
  proof -
    have "k \<in> fst ` set (grouped_by key xs) \<longleftrightarrow> map_of (grouped_by key xs) k \<noteq> None"
      by (metis domIff dom_map_of_conv_image_fst)
    also have "\<dots> \<longleftrightarrow> filter (\<lambda>x. key x = k) xs \<noteq> []" using grouped_by_map [of key xs k] by (simp split: list.splits)
    also have "\<dots> \<longleftrightarrow> k \<in> key ` set xs" by (auto simp: filter_empty_conv)
    finally show ?thesis .
  qed
  then show ?thesis by blast
qed

lemma grouped_by_one:
  assumes "xs \<noteq> []" and "\<forall>x\<in>set xs. key x = k"
  shows "grouped_by key xs = [(k, xs)]"
proof -
  have keys: "fst ` set (grouped_by key xs) = {k}" using grouped_by_keys [of key xs] assms by (simp add: image_constant_conv)
  have "distinct (map fst (grouped_by key xs))" using grouped_by_map [of key xs k] by simp
  then have "length (grouped_by key xs) = 1"
    using keys distinct_card [of "map fst (grouped_by key xs)"] by simp
  then obtain pair where one: "grouped_by key xs = [pair]" by (auto simp: length_Suc_conv)
  then have "fst pair = k" using keys by simp
  moreover have "snd pair = filter (\<lambda>x. key x = fst pair) xs" using grouped_by_group [of "fst pair" "snd pair" key xs] one by simp
  ultimately show ?thesis using one assms(2) by (cases pair) simp
qed

lemma collect_all:
  assumes "collect f xs = Inr ys"
  shows "list_all2 (\<lambda>x y. f x = Inr y) xs ys"
  using assms by (induction xs arbitrary: ys) (auto split: sum.splits)

section \<open>The plan\<close>

lemma task_mutation_rows_journal:
  assumes "journal_ok vault_root t v P d"
  shows "task_mutation_rows t d = filter (\<lambda>m. vm_activity_id m = task_activity_id t v) (db_mutations d)"
proof -
  have "(vm_operation m \<in> set ROLLBACK_MUTATION_OPERATIONS \<and>
      list_ex (\<lambda>a. va_activity_id a = vm_activity_id m \<and> va_task_id a = Some t) (db_activities d)) =
      (vm_activity_id m = task_activity_id t v)" if "m \<in> set (db_mutations d)" for m
    using journal_okD(2) [OF assms] journal_okD(4) [OF assms that] by (auto simp: list_ex_iff image_iff) metis
  then have "filter (\<lambda>m. vm_operation m \<in> set ROLLBACK_MUTATION_OPERATIONS \<and>
      list_ex (\<lambda>a. va_activity_id a = vm_activity_id m \<and> va_task_id a = Some t) (db_activities d)) (db_mutations d) =
      filter (\<lambda>m. vm_activity_id m = task_activity_id t v) (db_mutations d)"
    by (rule filter_cong [OF refl])
  moreover have "sorted (map vm_id (filter (\<lambda>m. vm_activity_id m = task_activity_id t v) (db_mutations d)))"
    using journal_okD(1) [OF assms] by (intro sorted_filter) (simp add: strict_sorted_imp_sorted)
  ultimately show ?thesis unfolding task_mutation_rows_def by (simp add: sort_key_sorted)
qed

lemma resolve_task_snapshot:
  assumes ok: "snapshots_ok e vault_root t v P w0 w" and link: "linkless e vault_root"
    and s: "s \<in> set (db_file_snapshots (w_db w))" "p \<in> P" "task_snapshot t v p s" "is_file w0 (vault_root @ path_parts p)"
    and found: "resolve_snapshot_file e (sn_id s) w = Some f"
  shows "is_below (snapshot_base_root e) (sf_path f)"
    and "file_bytes w (sf_path f) = Some c \<Longrightarrow> file_bytes w0 (vault_root @ path_parts p) = Some c"
proof -
  have copy: "copy_of e vault_root w0 w s" using snapshots_okD(4) [OF ok s] .
  then obtain S where S: "S \<in> set (db_snapshot_sets (w_db w))" "ss_id S = sn_snapshot_set_id s"
      "ss_snapshot_root S = snapshot_root_of e (ss_id S)" and ref: "sn_snapshot_ref s = Some (snapshot_ref_of task_source p)"
    using s(3) by (auto simp: copy_of_def task_snapshot_def)
  have "find (\<lambda>x. sn_id x = sn_id s) (db_file_snapshots (w_db w)) = Some s" by (rule find_distinct [OF snapshots_okD(1) [OF ok] s(1)])
  moreover have "find (\<lambda>x. ss_id x = sn_snapshot_set_id s) (db_snapshot_sets (w_db w)) = Some S"
    using find_distinct [OF snapshots_okD(2) [OF ok] S(1)] S(2) by simp
  moreover have "env_realpath e (join_path (ss_snapshot_root S) (snapshot_ref_of task_source p)) = snapshot_file e (ss_id S) p"
    using link snapshot_file_below [of e "ss_id S" p] snapshot_ref_relative(2)
    by (simp add: linkless_def join_path_def S(3) snapshot_file_def)
  ultimately have path: "sf_path f = snapshot_file e (sn_snapshot_set_id s) p"
    using found ref S(2) snapshot_ref_relative(1) by (auto simp: resolve_snapshot_file_def Let_def split: if_splits)
  show "is_below (snapshot_base_root e) (sf_path f)" unfolding path by (rule snapshot_file_below)
  show "file_bytes w (sf_path f) = Some c \<Longrightarrow> file_bytes w0 (vault_root @ path_parts p) = Some c"
    using copy s(3) by (auto simp: copy_of_def task_snapshot_def path)
qed

text \<open>A plan that gives a path back what it had at the beginning.\<close>

definition plan_ok :: "vault_env \<Rightarrow> path \<Rightarrow> vault_world \<Rightarrow> vault_world \<Rightarrow> TaskRollbackPathPlan \<Rightarrow> bool" where
  "plan_ok e vault_root w0 w plan \<longleftrightarrow> fr_content (pl_state plan) = None \<and>
     (case fr_content_path (pl_state plan) of
        None \<Rightarrow> node_at w0 (vault_root @ path_parts (fr_path (pl_state plan))) = None
      | Some source \<Rightarrow> is_below (snapshot_base_root e) source \<and>
          (\<forall>c. file_bytes w source = Some c \<longrightarrow> file_bytes w0 (vault_root @ path_parts (fr_path (pl_state plan))) = Some c))"

lemma path_plan_ok:
  assumes inv: "task_inv e vault_root t v P w0 {} w" and link: "linkless e vault_root" and p: "p \<in> P"
    and rows: "task_rows t v p (w_db w) \<noteq> []" and plan: "path_plan e t acts w (task_rows t v p (w_db w)) = Inr plan"
  shows "fr_path (pl_state plan) = p \<and> plan_ok e vault_root w0 w plan"
proof -
  let ?full = "vault_root @ path_parts p" and ?m = "hd (task_rows t v p (w_db w))"
  have "?m \<in> set (task_rows t v p (w_db w))" using rows by simp
  then have path: "vm_path ?m = p" by (simp add: task_rows_def)
  obtain s where first: "vm_before_exists ?m = path_exists w0 ?full" "path_exists w0 ?full \<longrightarrow> is_file w0 ?full"
      and s: "s \<in> set (db_file_snapshots (w_db w))" "task_snapshot t v p s" "vm_before_snapshot_id ?m = Some (sn_id s)"
    using task_invD(4) [OF inv] p rows by (auto simp: rows_ok_def first_row_ok_def)
  show ?thesis
  proof (cases "path_exists w0 ?full")
    case True
    then obtain f where found: "resolve_snapshot_file e (sn_id s) w = Some f" and state: "fr_content_path (pl_state plan) = Some (sf_path f)"
        "fr_content (pl_state plan) = None" "fr_path (pl_state plan) = p"
      using plan first s(3) path by (auto simp: path_plan_def Let_def split: option.splits)
    have "is_file w0 ?full" using first True by simp
    note copy = resolve_task_snapshot [OF task_invD(2) [OF inv] link s(1) p s(2) this found]
    show ?thesis using copy state by (simp add: plan_ok_def)
  next
    case False
    then show ?thesis using plan first path by (auto simp: path_plan_def Let_def plan_ok_def path_exists_def)
  qed
qed

lemma rollback_plans:
  assumes inv: "task_inv e vault_root t v P w0 {} w" and link: "linkless e vault_root"
    and rows: "rows = filter (\<lambda>m. vm_activity_id m = task_activity_id t v) (db_mutations (w_db w))" "rows \<noteq> []"
    and acts: "acts = filter (\<lambda>a. va_task_id a = Some t) (db_activities (w_db w))"
    and planned: "task_rollback_plans e rows acts t w = Inr plans"
  obtains ps where "plans = [(List.last vault_root, ps)]" "\<forall>plan\<in>set ps. plan_ok e vault_root w0 w plan"
    "distinct (map (\<lambda>plan. fr_path (pl_state plan)) ps)" "(\<lambda>plan. fr_path (pl_state plan)) ` set ps = vm_path ` set rows"
proof -
  let ?name = "List.last vault_root" and ?path = "\<lambda>plan. fr_path (pl_state plan)"
  let ?key = "\<lambda>row. (va_vault_name (the (activity_of acts row)), vm_path row)"
  have key: "?key m = (?name, vm_path m)" if "m \<in> set rows" for m
  proof -
    have m: "m \<in> set (db_mutations (w_db w))" "vm_activity_id m = task_activity_id t v" using that rows by auto
    obtain b where b: "b \<in> set (db_activities (w_db w))" "va_activity_id b = task_activity_id t v"
      using journal_okD(4) [OF task_invD(3) [OF inv] m] by auto
    then have "b \<in> set acts" using journal_okD(2) [OF task_invD(3) [OF inv] b(1)] acts by simp
    then obtain a where a: "activity_of acts m = Some a"
      using m(2) b(2) by (cases "activity_of acts m") (auto simp: activity_of_def find_None_iff)
    then have "a \<in> set acts \<and> va_activity_id a = task_activity_id t v"
      using m(2) unfolding activity_of_def by (metis (mono_tags, lifting) find_Some_iff nth_mem)
    then show ?thesis using journal_okD(3) [OF task_invD(3) [OF inv], of a] acts a by simp
  qed
  let ?groups = "grouped_by ?key rows"
  let ?one = "\<lambda>(k :: string \<times> string, g). case path_plan e t acts w g of Inl err \<Rightarrow> Inl err | Inr plan \<Rightarrow> Inr (fst k, plan)"
  obtain found where found: "collect ?one ?groups = Inr found"
      and plans: "plans = map (\<lambda>(name, vault_plans). (name, sort_key ?path (map snd vault_plans))) (grouped_by fst found)"
    using planned by (auto simp: task_rollback_plans_def Let_def split: sum.splits)
  have groups: "k = (?name, snd k) \<and> snd k \<in> P \<and> g = task_rows t v (snd k) (w_db w) \<and> g \<noteq> []" if "(k, g) \<in> set ?groups" for k g
  proof -
    have g: "g = filter (\<lambda>x. ?key x = k) rows" "g \<noteq> []" using grouped_by_group [OF that] by auto
    have "hd g \<in> set (filter (\<lambda>x. ?key x = k) rows)" using hd_in_set [OF g(2)] unfolding g(1) .
    then have "hd g \<in> set rows \<and> ?key (hd g) = k" by simp
    then have k: "k = (?name, vm_path (hd g))" "hd g \<in> set rows" using key by auto
    have "filter (\<lambda>x. ?key x = k) rows = filter (\<lambda>x. vm_path x = snd k) rows"
      using key k by (intro filter_cong) auto
    then have "g = task_rows t v (snd k) (w_db w)" using g(1) rows(1) by (simp add: task_rows_def conj_commute)
    then show ?thesis using g(2) k journal_okD(4) [OF task_invD(3) [OF inv], of "hd g"] rows(1) by auto
  qed
  have pairs: "fst (found ! i) = ?name \<and> ?path (snd (found ! i)) = snd (fst (?groups ! i)) \<and> plan_ok e vault_root w0 w (snd (found ! i))"
    if "i < length ?groups" for i
  proof -
    obtain k g where kg: "?groups ! i = (k, g)" by fastforce
    then have mem: "(k, g) \<in> set ?groups" using that nth_mem by metis
    have "?one (k, g) = Inr (found ! i)" using list_all2_nthD [OF collect_all [OF found] that] unfolding kg .
    then obtain plan where plan: "path_plan e t acts w g = Inr plan" "found ! i = (fst k, plan)" by (auto split: sum.splits)
    have k: "fst k = ?name" "snd k \<in> P" "g = task_rows t v (snd k) (w_db w)" "g \<noteq> []" using groups [OF mem] by (auto simp: prod_eq_iff)
    then show ?thesis using path_plan_ok [OF inv link k(2), of acts plan] plan kg by simp
  qed
  have lengths: "length found = length ?groups" using list_all2_lengthD [OF collect_all [OF found]] by simp
  have keys: "fst ` set ?groups = (\<lambda>m. (?name, vm_path m)) ` set rows" using grouped_by_keys [of ?key rows] key by simp
  then have "?groups \<noteq> []" using rows(2) by auto
  then have "found \<noteq> []" using lengths by auto
  moreover have all: "\<forall>y\<in>set found. fst y = ?name \<and> plan_ok e vault_root w0 w (snd y)"
    using pairs lengths by (metis in_set_conv_nth)
  ultimately have "grouped_by fst found = [(?name, found)]" by (intro grouped_by_one) auto
  then have plans': "plans = [(?name, sort_key ?path (map snd found))]" using plans by simp
  have paths: "map ?path (map snd found) = map (snd \<circ> fst) ?groups"
    using pairs lengths by (auto intro!: nth_equalityI)
  have "inj_on snd (fst ` set ?groups)" unfolding keys by (auto simp: inj_on_def)
  then have "distinct (map snd (map fst ?groups))"
    using grouped_by_map [of ?key rows] by (simp add: distinct_map del: map_map)
  then have "distinct (map ?path (map snd found))" unfolding paths by simp
  then have "distinct (map ?path (sort_key ?path (map snd found)))"
    unfolding distinct_map_sort .
  moreover have "?path ` set (sort_key ?path (map snd found)) = vm_path ` set rows"
  proof -
    have "?path ` set (sort_key ?path (map snd found)) = set (map ?path (map snd found))" by (simp add: image_image)
    also have "\<dots> = snd ` fst ` set ?groups" unfolding paths by (simp add: image_comp)
    also have "\<dots> = vm_path ` set rows" unfolding keys by (simp add: image_comp comp_def)
    finally show ?thesis .
  qed
  moreover have "\<forall>plan\<in>set (sort_key ?path (map snd found)). plan_ok e vault_root w0 w plan"
    using all by auto
  ultimately show thesis using that [OF plans'] by blast
qed

section \<open>The rollback\<close>

lemma resolve_vault_path:
  assumes "linkless e vault_root" and "vault_paths vault_root P" and "p \<in> P"
  shows "resolve_vault_relative_path (env_realpath e) vault_root p False = Inr (vault_root @ path_parts p)"
  using assms by (simp add: resolve_vault_relative_path_def Let_def join_path_def linkless_def vault_paths_def)

definition resolved_state :: "path \<Rightarrow> FileStateRestore \<Rightarrow> ResolvedFileStateRestore" where
  "resolved_state vault_root s = \<lparr>rs_request = s, rs_relative_path = fr_path s, rs_full_path = vault_root @ path_parts (fr_path s)\<rparr>"

lemma resolve_restores:
  assumes "linkless e vault_root" and "vault_paths vault_root P" and "\<forall>s\<in>set states. fr_path s \<in> P \<and> fr_content s = None"
    and "distinct (map fr_path states)" and "fr_path ` set states \<inter> set seen = {}"
  shows "resolve_file_state_restores_from e vault_root seen states = Inr (map (resolved_state vault_root) states)"
  using assms(3-5)
proof (induction states arbitrary: seen)
  case (Cons s states)
  have "normalize_vault_relative_path (fr_path s) = fr_path s" using Cons.prems(1) assms(2) by (simp add: vault_paths_def)
  moreover have "resolve_vault_relative_path (env_realpath e) vault_root (fr_path s) False = Inr (vault_root @ path_parts (fr_path s))"
    using resolve_vault_path [OF assms(1,2)] Cons.prems(1) by simp
  moreover have "resolve_file_state_restores_from e vault_root (fr_path s # seen) states = Inr (map (resolved_state vault_root) states)"
    using Cons.prems by (intro Cons.IH) auto
  ultimately show ?case using Cons.prems by (simp add: Let_def resolved_state_def)
qed simp

text \<open>The temporary directory lies apart from the vault and the snapshots.\<close>

definition temp_apart :: "vault_env \<Rightarrow> path \<Rightarrow> path \<Rightarrow> vault_world \<Rightarrow> bool" where
  "temp_apart e vault_root temp_root w \<longleftrightarrow> temp_root \<noteq> [] \<and> (\<forall>p. is_below temp_root p \<longrightarrow> node_at w p = None) \<and>
     \<not> is_below temp_root vault_root \<and> \<not> is_below vault_root temp_root \<and>
     \<not> is_below temp_root (snapshot_base_root e) \<and> \<not> is_below (snapshot_base_root e) temp_root"

lemma temp_apart_not_below:
  assumes "temp_apart e vault_root temp_root w" and "is_below vault_root p \<or> is_below (snapshot_base_root e) p"
  shows "\<not> is_below temp_root p"
  using assms is_below_comparable [of temp_root p] unfolding temp_apart_def by blast

lemma plans_separate:
  assumes "linkless e vault_root" and "vault_paths vault_root P" and "temp_apart e vault_root temp_root w"
    and "\<forall>s\<in>set states. fr_path s \<in> P \<and> (\<forall>source. fr_content_path s = Some source \<longrightarrow> is_below (snapshot_base_root e) source)"
    and "distinct (map fr_path states)"
  shows "separate temp_root vault_root (map (resolved_state vault_root) states)"
proof -
  let ?full = "\<lambda>p. vault_root @ path_parts p"
  have apart: "is_below (?full p) (?full q) \<Longrightarrow> p = q" if "p \<in> P" "q \<in> P" for p q
    using assms(2) that by (auto simp: vault_paths_def)
  then have "inj_on ?full (fr_path ` set states)"
    using assms(4) by (intro inj_onI) (metis imageE is_below_refl)
  then have "distinct (map ?full (map fr_path states))" using assms(5) by (simp only: distinct_map set_map)
  then have full: "distinct (map (rs_full_path \<circ> resolved_state vault_root) states)"
    by (simp add: resolved_state_def comp_def)
  have relative: "distinct (map (rs_relative_path \<circ> resolved_state vault_root) states)"
    using assms(5) by (simp add: resolved_state_def comp_def)
  have "\<not> is_below temp_root (vault_metadata_path vault_root)"
    by (rule temp_apart_not_below [OF assms(3)]) (simp add: vault_metadata_path_def)
  moreover have "\<not> is_below temp_root (?full p)" for p by (rule temp_apart_not_below [OF assms(3)]) simp
  moreover have "\<not> is_below temp_root p \<and> \<not> is_below p (?full q)" if "is_below (snapshot_base_root e) p" "q \<in> P" for p q
    using temp_apart_not_below [OF assms(3)] outside_snapshots(2) [OF vault_path_facts(1) [OF assms(1,2) that(2)] that(1)] that(1) by blast
  moreover have "path_parts (fr_path s) = path_parts (fr_path u)"
    if "s \<in> set states" "u \<in> set states" "is_below (path_parts (fr_path s)) (path_parts (fr_path u))" for s u
    using apart [of "fr_path s" "fr_path u"] that assms(4) by simp
  ultimately show ?thesis
    using full relative assms(4,2)
    by (auto simp: separate_def targets_def sources_def resolved_state_def vault_paths_def)
qed

text \<open>The files at some paths are, in content, what they were.\<close>

definition same_content :: "path \<Rightarrow> string set \<Rightarrow> vault_world \<Rightarrow> vault_world \<Rightarrow> bool" where
  "same_content vault_root paths w w' \<longleftrightarrow>
     (\<forall>p\<in>paths. file_bytes w' (vault_root @ path_parts p) = file_bytes w (vault_root @ path_parts p))"

definition says_uncertain :: "vault_exn + 'a \<Rightarrow> bool" where
  "says_uncertain r \<longleftrightarrow> (\<exists>m. r = Inl (VaultMutationRejected ''mutation_state_uncertain'' m))"

lemma same_content_on: "same_on UNIV w w' \<Longrightarrow> same_content vault_root paths w w'"
  by (simp add: same_content_def same_on_def file_bytes_def)

lemma same_content_trans: "same_content vault_root paths w w' \<Longrightarrow> same_content vault_root paths w' w'' \<Longrightarrow> same_content vault_root paths w w''"
  by (simp add: same_content_def)

lemma rollback_vault_effect:
  assumes inv: "task_inv e vault_root t v P w0 {} w" and setting: "linkless e vault_root" "vault_paths vault_root P"
    and temp: "temp_apart e vault_root temp_root w" and info: "map_of (rb_vault_info b) name = Some vault_root"
    and plans: "\<forall>plan\<in>set ps. plan_ok e vault_root w0 w plan \<and> fr_path (pl_state plan) \<in> P"
      "distinct (map (\<lambda>plan. fr_path (pl_state plan)) ps)" "paths = (\<lambda>plan. fr_path (pl_state plan)) ` set ps"
    and run: "rollback_vault e b temp_root (name, ps) counts w = (r, w')"
  shows "case r of Inr _ \<Rightarrow> same_content vault_root paths w0 w'
    | Inl _ \<Rightarrow> says_uncertain r \<or> same_content vault_root paths w w'"
proof -
  obtain r1 w1 where identity: "resolve_or_create_vault_identity e vault_root w = (r1, w1)" by fastforce
  have w1: "same_on UNIV w w1" using identity_effect [OF task_invD(1) [OF inv] identity] by simp
  have nodes: "node_at w1 q = node_at w q" for q using w1 by (simp add: same_on_def)
  let ?states = "map pl_state ps"
  let ?items = "map (resolved_state vault_root) ?states"
  have "(\<exists>err. r = Inl err \<and> w' = w1) \<or>
      (\<exists>r2. restore_file_states_atomically e temp_root vault_root ?states w1 = (r2, w') \<and>
        (case r of Inl err \<Rightarrow> r2 = Inl err | Inr _ \<Rightarrow> (\<exists>ts. r2 = Inr ts)))"
    using run identity info
    by (cases counts) (auto simp: rollback_vault_def known_vault_root_def vbind_def vraise_def vreturn_def Let_def split: prod.splits sum.splits if_splits)
  then show ?thesis
  proof (elim disjE exE conjE)
    fix err
    assume "r = Inl err" "w' = w1"
    then show ?thesis using same_content_on [OF w1] by simp
  next
    fix r2
    assume restore: "restore_file_states_atomically e temp_root vault_root ?states w1 = (r2, w')"
      and r: "case r of Inl err \<Rightarrow> r2 = Inl err | Inr _ \<Rightarrow> (\<exists>ts. r2 = Inr ts)"
    have real: "env_realpath e vault_root = vault_root" "\<forall>p. env_realpath e (env_realpath e p) = env_realpath e p"
      using setting(1) by (simp_all add: linkless_def)
    have distinct: "distinct (map fr_path ?states)" using plans(2) by (simp add: comp_def)
    have items: "resolve_file_state_restores e vault_root ?states = Inr ?items"
      unfolding resolve_file_state_restores_def
      using plans(1) distinct by (intro resolve_restores [OF setting]) (auto simp: plan_ok_def)
    have "is_below (snapshot_base_root e) source" if "plan \<in> set ps" "fr_content_path (pl_state plan) = Some source" for plan source
      using plans(1) that by (force simp: plan_ok_def)
    then have separate: "separate temp_root vault_root ?items"
      using plans(1) distinct by (intro plans_separate [OF setting temp]) auto
    have free: "temp_root \<noteq> []" "\<forall>p. is_below temp_root p \<longrightarrow> node_at w1 p = None"
      using temp nodes by (auto simp: temp_apart_def)
    note effect = restore_effect [of e vault_root ?states ?items temp_root w1 r2 w', unfolded real(1), OF real(2) items separate free restore]
    have full: "rs_full_path (resolved_state vault_root s) = vault_root @ path_parts (fr_path s)"
        "rs_request (resolved_state vault_root s) = s" for s by (simp_all add: resolved_state_def)
    show ?thesis
    proof (cases r)
      case (Inl err)
      then have "says_uncertain r \<or> same_on (targets ?items) w1 w'" using effect r by (auto simp: says_uncertain_def)
      then show ?thesis
        using Inl plans(3) nodes by (auto simp: same_content_def same_on_def targets_def full file_bytes_def image_image)
    next
      case (Inr x)
      then have all: "restored w1 w' ?items" using effect r by auto
      have "file_bytes w' (vault_root @ path_parts (fr_path s)) = file_bytes w0 (vault_root @ path_parts (fr_path s))"
        if "plan \<in> set ps" "s = pl_state plan" for plan s
      proof -
        have plan: "plan_ok e vault_root w0 w plan" using plans(1) that(1) by simp
        have one: "if restore_exists s then wanted w1 s \<noteq> None \<and> file_bytes w' (vault_root @ path_parts (fr_path s)) = wanted w1 s
            else node_at w' (vault_root @ path_parts (fr_path s)) = None"
          using all that unfolding restored_def by (force simp: full)
        show ?thesis
        proof (cases "fr_content_path s")
          case None
          then show ?thesis using plan one that(2) by (simp add: plan_ok_def restore_exists_def file_bytes_def)
        next
          case (Some source)
          then obtain c where "file_bytes w1 source = Some c" "file_bytes w' (vault_root @ path_parts (fr_path s)) = Some c"
            using one by (auto simp: restore_exists_def wanted_def)
          moreover from this(1) have "file_bytes w source = Some c" by (simp add: file_bytes_def nodes)
          ultimately show ?thesis using plan Some that(2) by (simp add: plan_ok_def)
        qed
      qed
      then show ?thesis using Inr plans(3) by (simp add: same_content_def)
    qed
  qed
qed

lemma rollback_after_plan:
  assumes run: "vbind (vfold (rollback_vault e b temp_root) [(name, ps)] (0, 0, 0)) (\<lambda>(restored_count, deleted_count, refreshed_count).
      vbind (in_session (change_db (\<lambda>d. ((), mark_rolled_back now sets d)))) (\<lambda>_.
      vbind (finish_task_activities t status' rollback_status) (\<lambda>_. vreturn (result restored_count deleted_count refreshed_count)))) w = (r, w')"
    and effect: "\<And>r1 w1. rollback_vault e b temp_root (name, ps) (0, 0, 0) w = (r1, w1) \<Longrightarrow>
      case r1 of Inr _ \<Rightarrow> same_content vault_root paths w0 w1 | Inl _ \<Rightarrow> says_uncertain r1 \<or> same_content vault_root paths w w1"
  shows "same_content vault_root paths w0 w' \<or> (\<exists>err. r = Inl err \<and> (says_uncertain r \<or> same_content vault_root paths w w'))"
proof -
  have calm: "keeps (same_on UNIV) (in_session (change_db f))" for f :: "vault_db \<Rightarrow> 'z \<times> vault_db"
    by (intro keeps_session_on keeps_change_db_on)
  have "keeps (same_on UNIV) (finish_activity a s x)" for a s x
    unfolding finish_activity_def by (intro on.keeps_bind keeps_clock_on keeps_session_on keeps_change_db_on)
  then have finish: "keeps (same_on UNIV) (finish_task_activities t status' rollback_status)"
    unfolding finish_task_activities_def by (intro on.keeps_combinators)
  have rest: "keeps (same_on UNIV) (vbind (in_session (change_db (\<lambda>d. ((), mark_rolled_back now sets d)))) (\<lambda>_.
      vbind (finish_task_activities t status' rollback_status) (\<lambda>_. vreturn (result x y z))))" for x y z
    by (intro on.keeps_combinators finish keeps_session_on keeps_change_db_on)
  obtain r1 w1 where one: "rollback_vault e b temp_root (name, ps) (0, 0, 0) w = (r1, w1)" by fastforce
  show ?thesis
  proof (cases r1)
    case (Inl err)
    then have "r = Inl err \<and> w' = w1" using run one by (simp add: vbind_def)
    then show ?thesis using effect [OF one] Inl by (auto simp: says_uncertain_def)
  next
    case (Inr x)
    obtain x1 x2 x3 where x: "x = (x1, x2, x3)" by (cases x)
    have "vbind (in_session (change_db (\<lambda>d. ((), mark_rolled_back now sets d)))) (\<lambda>_.
        vbind (finish_task_activities t status' rollback_status) (\<lambda>_. vreturn (result x1 x2 x3))) w1 = (r, w')"
      using run one Inr x by (simp add: vbind_def [of "vbind _ _"] vbind_def [of "rollback_vault _ _ _ _ _"] vreturn_def)
    then have "same_content vault_root paths w1 w'" using keepsD [OF rest] same_content_on by blast
    then show ?thesis using effect [OF one] Inr same_content_trans by simp
  qed
qed

lemma rollback_effect:
  assumes inv: "task_inv e vault_root t v P w0 {} w" and setting: "linkless e vault_root" "vault_paths vault_root P"
    and temp: "temp_apart e vault_root temp_root w" and info: "map_of (rb_vault_info b) (List.last vault_root) = Some vault_root"
    and paths: "paths = vm_path ` set (task_mutation_rows t (w_db w))"
    and run: "rollback_task_file_mutations e b temp_root t terminal_status reason w = (r, w')"
  shows "(\<exists>res. r = Inr res \<and> tb_skipped res \<and> same_content vault_root paths w w') \<or> same_content vault_root paths w0 w' \<or>
    (\<exists>err. r = Inl err \<and> (says_uncertain r \<or> same_content vault_root paths w w'))"
proof (cases "task_rollback_policy_skip_reason b (py_lower (strip terminal_status))")
  case (Some skip)
  then show ?thesis
    using run by (auto simp: rollback_task_file_mutations_def Let_def vreturn_def skipped_result_def same_content_def)
next
  case None
  define w1 where "w1 = w\<lparr>w_clock_reads := Suc (w_clock_reads w)\<rparr>"
  have same1: "same_on UNIV w w1" "w_db w1 = w_db w" by (simp_all add: w1_def same_on_def)
  have inv1: "task_inv e vault_root t v P w0 {} w1" by (rule task_inv_calm [OF inv same1(1)]) (simp add: same1)
  have temp1: "temp_apart e vault_root temp_root w1" using temp same1(1) by (simp add: temp_apart_def same_on_def)
  have content1: "same_content vault_root paths w w1" using same_content_on [OF same1(1)] .
  define R where "R = filter (\<lambda>m. vm_activity_id m = task_activity_id t v) (db_mutations (w_db w1))"
  let ?acts = "filter (\<lambda>a. va_task_id a = Some t) (db_activities (w_db w1))"
  have rows: "task_mutation_rows t (w_db w1) = R"
    unfolding R_def by (rule task_mutation_rows_journal [OF task_invD(3) [OF inv1]])
  have members: "vm_target_kind m = ''file'' \<and> vm_path m \<in> P" if "m \<in> set R" for m
    using journal_okD(4) [OF task_invD(3) [OF inv1]] that by (auto simp: R_def)
  then have files: "filter (\<lambda>m. vm_target_kind m = ''file'') R = R" "filter (\<lambda>m. vm_target_kind m \<noteq> ''file'') R = []"
    by (auto simp: filter_empty_conv)
  let ?sets = "rollback_snapshot_sets t (w_db w1)"
  note unfolded = rollback_task_file_mutations_def Let_def None vbind_def [of utc_now] utc_now_def w1_def [symmetric] bind_asks rows files
  show ?thesis
  proof (cases "R = [] \<or> ?sets \<noteq> [] \<and> list_all (\<lambda>s. ss_status s = ''rolled_back'') ?sets")
    case True
    then have "\<exists>res. r = Inr res \<and> tb_skipped res \<and> w' = w1"
      using run by (auto simp: unfolded bind_laws vreturn_def skipped_result_def split: if_splits)
    then show ?thesis using content1 by blast
  next
    case False
    show ?thesis
    proof (cases "task_rollback_plans e R ?acts t w1")
      case (Inl err)
      then have "r = Inl err \<and> w' = w1" using run False by (auto simp: unfolded vraise_def split: if_splits)
      then show ?thesis using content1 by blast
    next
      case (Inr plans)
      obtain ps where ps: "plans = [(List.last vault_root, ps)]" "\<forall>plan\<in>set ps. plan_ok e vault_root w0 w1 plan"
          "distinct (map (\<lambda>plan. fr_path (pl_state plan)) ps)" "(\<lambda>plan. fr_path (pl_state plan)) ` set ps = vm_path ` set R"
        using False by (auto intro: rollback_plans [OF inv1 setting(1) R_def _ refl Inr])
      have paths': "paths = (\<lambda>plan. fr_path (pl_state plan)) ` set ps" using paths ps(4) rows same1(2) by simp
      have in_P: "\<forall>plan\<in>set ps. fr_path (pl_state plan) \<in> P" using ps(4) members by (metis (mono_tags, lifting) image_iff)
      let ?result = "\<lambda>x y z. \<lparr>tb_task_id = t, tb_status = py_lower (strip terminal_status), tb_skipped = False, tb_reason = reason,
        tb_mutation_rows_seen = length R, tb_paths_restored = x, tb_paths_deleted = y, tb_vaults_refreshed = z,
        tb_rollback_status = Some ''completed''\<rparr>"
      have "vbind (vfold (rollback_vault e b temp_root) [(List.last vault_root, ps)] (0, 0, 0)) (\<lambda>(restored_count, deleted_count, refreshed_count).
        vbind (in_session (change_db (\<lambda>d. ((), mark_rolled_back (w_clock w (w_clock_reads w)) ?sets d)))) (\<lambda>_.
        vbind (finish_task_activities t ''rolled_back'' (Some ''completed'')) (\<lambda>_. vreturn (?result restored_count deleted_count refreshed_count)))) w1 = (r, w')"
        using run False Inr ps(1) by (auto simp: unfolded split: if_splits)
      then have "same_content vault_root paths w0 w' \<or> (\<exists>err. r = Inl err \<and> (says_uncertain r \<or> same_content vault_root paths w1 w'))"
      proof (rule rollback_after_plan)
        fix r1 w2
        assume "rollback_vault e b temp_root (List.last vault_root, ps) (0, 0, 0) w1 = (r1, w2)"
        then show "case r1 of Inr _ \<Rightarrow> same_content vault_root paths w0 w2 | Inl _ \<Rightarrow> says_uncertain r1 \<or> same_content vault_root paths w1 w2"
          using ps(2) in_P by (intro rollback_vault_effect [OF inv1 setting temp1 info _ ps(3) paths']) auto
      qed
      then show ?thesis using content1 same_content_trans by blast
    qed
  qed
qed

section \<open>A task and its rollback\<close>

text \<open>
  A step of the task is a recorded mutation of one of its paths that returns, or that raises and has left the file alone.
  In between, others refresh the manifest and change other files, as long as they keep away from these paths, from the
  snapshots and from the identity file.
\<close>

inductive task_step :: "vault_env \<Rightarrow> path \<Rightarrow> ExecutionTaskSnapshot \<Rightarrow> string set \<Rightarrow> vault_world \<Rightarrow> vault_world \<Rightarrow> bool"
  for e vault_root task P where
  mutation: "task_step e vault_root task P w w'"
  if "normalize_vault_relative_path path = p" "p \<in> P" "file_mutator mutator" "operation \<in> set ROLLBACK_MUTATION_OPERATIONS"
    "mutate_vault_file e (task_context task) vault_root path operation mutator require_exists fail_if_exists markdown_only
      create_parent expected w = (r, w')"
    "(\<exists>x. r = Inr x) \<or> node_at w' (vault_root @ path_parts p) = node_at w (vault_root @ path_parts p)"
| others: "task_step e vault_root task P w w'"
  if "same_on ((\<lambda>p. vault_root @ path_parts p) ` P \<union> {q. is_below (snapshot_base_root e) q} \<union> {vault_metadata_path vault_root}) w w'"
    "journal (w_db w') = journal (w_db w)"

inductive_cases task_stepE: "task_step e vault_root task P w w'"

text \<open>The database knows nothing of the task yet.\<close>

definition fresh_task :: "string \<Rightarrow> string \<Rightarrow> vault_db \<Rightarrow> bool" where
  "fresh_task t v d \<longleftrightarrow> sorted_wrt (<) (map vm_id (db_mutations d)) \<and> distinct (map sn_id (db_file_snapshots d)) \<and>
     distinct (map ss_id (db_snapshot_sets d)) \<and>
     (\<forall>a\<in>set (db_activities d). va_task_id a \<noteq> Some t \<and> va_activity_id a \<noteq> task_activity_id t v) \<and>
     (\<forall>m\<in>set (db_mutations d). vm_activity_id m \<noteq> task_activity_id t v) \<and>
     (\<forall>s\<in>set (db_file_snapshots d). sn_task_id s \<noteq> Some t) \<and> (\<forall>s\<in>set (db_snapshot_sets d). ss_task_id s \<noteq> Some t)"

lemma fresh_task_inv:
  assumes "fresh_task t v (w_db w)" and "identified e vault_root v w"
  shows "task_inv e vault_root t v P w {} w"
  using assms
  by (auto simp: task_inv_def fresh_task_def snapshots_ok_def journal_ok_def rows_ok_def task_rows_def task_set_def task_snapshot_def
    filter_empty_conv)

lemma others_inv:
  assumes inv: "task_inv e vault_root t v P w0 {} w"
    and same: "same_on ((\<lambda>p. vault_root @ path_parts p) ` P \<union> {q. is_below (snapshot_base_root e) q} \<union> {vault_metadata_path vault_root}) w w'"
      "journal (w_db w') = journal (w_db w)"
  shows "task_inv e vault_root t v P w0 {} w'"
proof -
  have tables: "db_activities (w_db w') = db_activities (w_db w)" "db_mutations (w_db w') = db_mutations (w_db w)"
      "db_snapshot_sets (w_db w') = db_snapshot_sets (w_db w)" "db_file_snapshots (w_db w') = db_file_snapshots (w_db w)"
    using same(2) by (simp_all add: journal_def)
  have nodes: "node_at w' (vault_metadata_path vault_root) = node_at w (vault_metadata_path vault_root)"
      "node_at w' (snapshot_file e i q) = node_at w (snapshot_file e i q)"
      "p \<in> P \<Longrightarrow> node_at w' (vault_root @ path_parts p) = node_at w (vault_root @ path_parts p)" for i q p
    using same(1) snapshot_file_below [of e i q] by (simp_all add: same_on_def)
  have "identified e vault_root v w'" using task_invD(1) [OF inv] nodes(1) by (simp add: identified_def file_bytes_def)
  moreover have "snapshots_ok e vault_root t v P w0 w'"
    using nodes(2) by (intro snapshots_ok_kept [OF task_invD(2) [OF inv]]) (simp_all add: tables copies_kept_def file_bytes_def)
  moreover have "journal_ok vault_root t v P (w_db w')" using task_invD(3) [OF inv] by (simp add: journal_ok_def tables)
  moreover have "rows_ok vault_root t v P w0 {} w'"
    using task_invD(4) [OF inv] nodes(3) by (simp add: rows_ok_def first_row_ok_def task_rows_def tables)
  ultimately show ?thesis by (simp add: task_inv_def)
qed

lemma task_run_inv:
  assumes "(task_step e vault_root task P)\<^sup>*\<^sup>* w0 w" and "linkless e vault_root" and "vault_paths vault_root P"
    and "identified e vault_root v w0" and "fresh_task (ts_task_id task) v (w_db w0)"
  shows "task_inv e vault_root (ts_task_id task) v P w0 {} w"
  using assms(1)
proof (induction rule: rtranclp_induct)
  case base
  then show ?case using fresh_task_inv [OF assms(5,4)] .
next
  case (step w w')
  from step.hyps(2) show ?case
  proof (rule task_stepE, goal_cases)
    case 1
    then show ?case by (intro mutate_inv [OF step.IH assms(2,3) refl])
  next
    case 2
    then show ?case by (intro others_inv [OF step.IH]) simp_all
  qed
qed

text \<open>
  C3. The rollback of a task undoes what its journal names. Take a task that is new to the database, and any sequence of its
  single-file mutations through \<open>mutate_vault_file\<close> (write, append, delete and the like) of paths of a vault of which none lies
  below another, each of which returns, or raises and has left its file alone, with refreshes and edits in between that keep away
  from these files, the snapshots and the journal; no symbolic links in the vault and among the snapshots, and an empty temporary
  directory apart from both. A rollback that reports success has given every file that the task's journal names the content it had
  before the task, or removed it if it did not exist. Whatever calls of the rollback fail, these files together are as before the
  task or as before the rollback, unless the error says that the state is uncertain. (A mutation that raises after it
  touched its file has no row in the journal: see \<open>unrecorded_mutation_not_rolled_back\<close>.)
\<close>

theorem task_rollback_restores:
  assumes "linkless e vault_root" and "vault_paths vault_root P" and "identified e vault_root v w0"
    and "fresh_task (ts_task_id task) v (w_db w0)" and "(task_step e vault_root task P)\<^sup>*\<^sup>* w0 w"
    and "temp_apart e vault_root temp_root w" and "map_of (rb_vault_info b) (List.last vault_root) = Some vault_root"
    and "rollback_task_file_mutations e b temp_root (ts_task_id task) terminal_status reason w = (r, w')"
  shows "let changed = vm_path ` set (task_mutation_rows (ts_task_id task) (w_db w))
    in (\<forall>res. r = Inr res \<longrightarrow> \<not> tb_skipped res \<longrightarrow> same_content vault_root changed w0 w') \<and>
       (same_content vault_root changed w0 w' \<or> same_content vault_root changed w w' \<or> says_uncertain r)"
  using rollback_effect [OF task_run_inv [OF assms(5,1,2,3,4)] assms(1,2,6,7) refl assms(8)] by (auto simp: Let_def)

text \<open>The operations of the application are such mutations.\<close>

lemma mutators:
  "file_mutator (\<lambda>p. write_text p content)" "file_mutator (\<lambda>p. append_text p content)" "file_mutator unlink"
proof -
  have written: "same_on (- {p}) w w' \<and> w_db w' = w_db w" if "write_bytes p c w = (r, w')" for p c w r w'
  proof -
    have "keeps (same_on (- {p})) (write_bytes p c)"
      unfolding write_bytes_def by (intro on.keeps_bind keeps_clock_on keeps_write_on) simp
    moreover have "keeps (\<lambda>w w'. w_db w' = w_db w) (write_bytes p c)"
      unfolding write_bytes_def by (intro rows.keeps_bind rows.keeps_clock rows.keeps_write_node)
    ultimately show ?thesis
      using that keepsD [where R = "same_on (- {p})"] keepsD [where R = "\<lambda>w w'. w_db w' = w_db w"] by blast
  qed
  then show "file_mutator (\<lambda>p. write_text p content)" "file_mutator (\<lambda>p. append_text p content)"
    by (simp_all add: file_mutator_def write_text_def append_text_def bind_asks)
  have "w_db w' = w_db w" if "unlink p w = (r, w')" for p w r w'
    using that by (auto simp: unlink_def vbind_def next_failure_def drop_node_def split: list.splits option.splits if_splits)
  then show "file_mutator unlink" by (simp add: file_mutator_def keepsD [OF keeps_unlink_on])
qed

section \<open>A run on a small vault\<close>

text \<open>A task, and the vault after the capture of its note.\<close>

definition example_task :: ExecutionTaskSnapshot where
  "example_task = \<lparr>ts_task_id = ''t1'', ts_kind = ''chat'', ts_scope = ''chat:1'', ts_source = ''api'', ts_label = ''Chat'', ts_principal_id = ''owner'',
     ts_status = ''running'', ts_created_at = 0, ts_started_at = Some 0, ts_finished_at = None, ts_cancel_requested = False,
     ts_terminal_reason = None, ts_terminal_error_type = None, ts_latest_event = None, ts_parent_task_id = None,
     ts_detached_from_parent_lifecycle = False, ts_revision = 0, ts_last_heartbeat_at = None, ts_heartbeat_status = None,
     ts_last_progress_at = None, ts_health_status = ''healthy'', ts_result = None, ts_result_truncated = False, ts_metadata = []\<rparr>"

lemma example_names:
  "snapshot_ref_of ''task_mutation_before'' ''a.md'' = ''task_mutation_before/files/a.md''"
  "path_parts ''task_mutation_before/files/a.md'' = [''task_mutation_before'', ''files'', ''a.md'']"
  "path_parts ''a.md'' = [''a.md'']"
  "\<not> startswith ''task_mutation_before/files/a.md'' ''/''"
  "task_activity_id ''t1'' ''v1'' = ''task:t1:v1''"
  "normalize_vault_relative_path ''a.md'' = ''a.md''"
  "resolve_vault_relative_path (\<lambda>p. p) [''vault''] ''a.md'' False = Inr [''vault'', ''a.md'']"
  "utf8_encode ''new'' = ''new''"
  "path_prefixes [''vault''] = [[''vault'']]"
  by code_simp+

definition captured_fs :: "string \<Rightarrow> nat \<Rightarrow> (path, node) dict" where
  "captured_fs content mtime = [([''vault''], NDir), ([''vault'', ''AssistantMD''], NDir),
     ([''vault'', ''AssistantMD'', ''vault.yaml''], NFile ''vault_id: v1'' 1), ([''vault'', ''a.md''], NFile content mtime),
     ([''sys''], NDir), ([''sys'', ''vault_snapshots''], NDir),
       ([''sys'', ''vault_snapshots'', ''1''], NDir), ([''sys'', ''vault_snapshots'', ''1'', ''task_mutation_before''], NDir),
       ([''sys'', ''vault_snapshots'', ''1'', ''task_mutation_before'', ''files''], NDir),
       ([''sys'', ''vault_snapshots'', ''1'', ''task_mutation_before'', ''files'', ''a.md''], NFile ''note'' 2)]"


definition captured_db :: "nat \<Rightarrow> vault_db" where
  "captured_db now = empty_vault_db
    \<lparr>db_snapshot_sets := [\<lparr>ss_id = 1, ss_activity_id = None, ss_task_id = Some ''t1'', ss_task_kind = Some ''chat'', ss_task_source = Some ''api'',
       ss_task_scope = Some ''chat:1'', ss_task_label = Some ''Chat'', ss_vault_id = ''v1'', ss_vault_name = ''vault'', ss_purpose = ''rollback'',
       ss_scope_kind = Some ''task'', ss_scope_id = Some ''t1'', ss_snapshot_root = [''sys'', ''vault_snapshots'', ''1''], ss_status = ''active'',
       ss_created_at = now, ss_expires_at = compute_expiration now 30, ss_rolled_back_at = None\<rparr>],
     db_file_snapshots := [\<lparr>sn_id = 1, sn_snapshot_set_id = 1, sn_activity_id = None, sn_task_id = Some ''t1'', sn_vault_id = ''v1'',
       sn_vault_name = ''vault'', sn_path = ''a.md'', sn_source = ''task_mutation_before'', sn_exists = True,
       sn_content_hash = Some (sha256_hex ''note''), sn_snapshot_ref = Some ''task_mutation_before/files/a.md'',
       sn_created_at = now, sn_expires_at = compute_expiration now 30\<rparr>]\<rparr>"

abbreviation example_vi :: VaultIdentity where
  "example_vi \<equiv> \<lparr>vi_vault_id = ''v1'', vi_metadata_path = [''vault'', ''AssistantMD'', ''vault.yaml''], vi_created = False\<rparr>"

text \<open>The capture makes five calls that can fail.\<close>

lemma example_captured:
  assumes "w_fs w = example_fs" "w_db w = empty_vault_db" "w_failures w = [] \<or> w_failures w = None # None # None # None # None # fs"
  shows "capture_before example_env (task_context example_task) example_vi [''vault''] [(''a.md'', True, [''vault'', ''a.md''])] now w =
    (Inr [(Some 1, Some ''task_mutation_before/files/a.md'')], w\<lparr>w_fs := captured_fs ''note'' 2, w_db := captured_db now,
       w_failures := drop 5 (w_failures w)\<rparr>)"
  using assms
  by (elim disjE; simp add: capture_before_def task_context_def example_task_def ensure_explicit_activity_def snapshot_attribution_def io_simps
    ensure_file_snapshot_def given_def
    existing_snapshot_def existing_snapshot_set_def new_snapshot_set_def next_rowid_def captured_names example_names mkdir_parents_def
    make_dirs_def file_simps copy2_def write_node_def Let_def empty_vault_db_def captured_names [simplified] example_fs_def captured_fs_def
    compute_snapshot_expiration_def captured_db_def)


lemma example_sorted:
  "sort [[''vault'', ''AssistantMD'', ''vault.yaml''], [''vault'', ''a.md'']] = [[''vault'', ''AssistantMD'', ''vault.yaml''], [''vault'', ''a.md'']]"
  by code_simp

lemma example_captured_files:
  assumes "w_fs w = captured_fs c m"
  shows "files_below w [''vault''] = [[''vault'', ''AssistantMD'', ''vault.yaml''], [''vault'', ''a.md'']]"
  using assms by (simp add: files_below_def captured_fs_def is_below_def is_file_def file_bytes_def node_at_def example_sorted)

text \<open>The disk is full at the write of the note, after eight calls that succeed.\<close>

definition full_disk_world :: vault_world where
  "full_disk_world = example_world\<lparr>w_failures := [None, None, None, None, None, None, None, None,
     Some \<lparr>fail_message = ''No space left on device'', fail_left = Some []\<rparr>]\<rparr>"


lemma example_lookups:
  "map_of example_fs [''vault'', ''a.md''] = Some (NFile ''note'' 2)"
  "map_of example_fs [''vault'', ''AssistantMD'', ''vault.yaml''] = Some (NFile ''vault_id: v1'' 1)"
  "map_of (captured_fs c m) [''vault'', ''AssistantMD'', ''vault.yaml''] = Some (NFile ''vault_id: v1'' 1)"
  "map_of (captured_fs c m) [''vault''] = Some NDir"
  "map_of (captured_fs c m) [''vault'', ''a.md''] = Some (NFile c m)"
  "AList.update [''vault'', ''a.md''] (NFile c' m') (captured_fs c m) = captured_fs c' m'"
  by (simp_all add: example_fs_def captured_fs_def)

lemma example_identity_attempt:
  assumes "path_exists w [''vault'', ''AssistantMD'', ''vault.yaml'']" and "w_failures w = None # fs"
    and "file_bytes w [''vault'', ''AssistantMD'', ''vault.yaml''] = Some ''vault_id: v1''"
  shows "resolve_or_create_vault_identity example_env [''vault''] w = (Inr example_vi, w\<lparr>w_failures := fs\<rparr>)"
proof -
  have "utf8_decode ''vault_id: v1'' = Some ''vault_id: v1''" by code_simp
  moreover have "strip ''v1'' = ''v1''" by code_simp
  ultimately show ?thesis
    using assms by (simp add: identity_simps io_simps read_file_def example_env_def file_bytes_def node_at_def)
qed

lemmas example_mutation = write_vault_file_def mutate_vault_file_def mutate_vault_file_locked_def hash_if_def example_names
  io_simps Let_def example_identity example_identity_attempt file_simps example_captured write_text_def write_bytes_def write_node_def
  example_lookups mkdir_parents_def make_dirs_def

lemma full_disk_write:
  "write_vault_file example_env (task_context example_task) [''vault''] ''a.md'' ''new'' False False full_disk_world =
    (Inl (OSError ''No space left on device''), full_disk_world\<lparr>w_fs := captured_fs [] 1000, w_db := captured_db 0, w_failures := [],
      w_clock_reads := 2, w_uuid_reads := 1\<rparr>)"
  by (simp add: example_mutation full_disk_world_def example_world_def)

lemma example_applied:
  "write_vault_file example_env (task_context example_task) [''vault''] ''a.md'' ''new'' False False example_world =
   record_applied example_env (task_context example_task) [''vault''] ''a.md'' [''vault'', ''a.md''] ''write'' example_vi 0 (''operation_'' @ show_nat 0) True
     (Some (sha256_hex ''note'')) (Some 1, Some ''task_mutation_before/files/a.md'') 
   (example_world\<lparr>w_fs := captured_fs ''new'' 1000, w_db := captured_db 0, w_failures := [],
      w_clock_reads := Suc 1, w_uuid_reads := 1\<rparr>)"
  by (simp add: example_mutation example_world_def)


lemma example_recorded_refresh:
  assumes "w_fs w = captured_fs c m" and "w_db w = captured_db t" and "w_failures w = []"
  shows "\<exists>res w'. refresh_vault example_env [''vault''] (Some ''vault'') w = (Inr res, w') \<and> w_failures w' = []"
proof -
  have "path_exists w [''vault'', ''AssistantMD'', ''vault.yaml'']"
      "file_bytes w [''vault'', ''AssistantMD'', ''vault.yaml''] = Some ''vault_id: v1''"
      "is_dir w [''vault'']"
    by (simp_all add: assms example_lookups file_simps)
  then show ?thesis
    by (simp add: assms refresh_vault_def io_simps example_identity Let_def matcher_from_patterns_def example_captured_files no_counts_def
      refresh_file_def example_relative matcher_matches_def file_stat_def needs_hash_def find_file_def vault_rows_def
      register_vault_def record_file_def append_event_def event_type_of_def hash_file_bytes_def read_file_def file_bytes_def node_at_def
      example_lookups captured_db_def empty_vault_db_def next_rowid_def)
qed


lemma example_identified: "file_bytes w [''vault'', ''AssistantMD'', ''vault.yaml''] = Some ''vault_id: v1'' \<Longrightarrow> identified example_env [''vault''] ''v1'' w"
proof -
  have "utf8_decode ''vault_id: v1'' = Some ''vault_id: v1''" "strip ''v1'' = ''v1''" by code_simp+
  then show "file_bytes w [''vault'', ''AssistantMD'', ''vault.yaml''] = Some ''vault_id: v1'' \<Longrightarrow> identified example_env [''vault''] ''v1'' w"
    by (simp add: identified_def vault_metadata_path_def example_env_def)
qed

lemma example_persisted:
  assumes "same_on UNIV w0 w" "w_fs w0 = captured_fs c m" "journal (w_db w) = journal (captured_db t)" "w_failures w = []"
    "rm_vault_id r = ''v1''" "rm_path r = ''a.md''" "rm_operation r = ''write''" 
  shows "\<exists>w'. persist_or_log_mutation example_env (task_context example_task) r [''vault''] oid now ex ''file'' [] w = (Inr (), w') \<and>
    map vm_path (task_mutation_rows ''t1'' (w_db w')) = [''a.md''] \<and> (\<forall>p. node_at w' p = node_at w0 p)"
proof -
  have nodes: "node_at w p = node_at w0 p" for p using assms(1) by (simp add: same_on_def)
  have "path_exists w [''vault'', ''AssistantMD'', ''vault.yaml'']"
      "file_bytes w [''vault'', ''AssistantMD'', ''vault.yaml''] = Some ''vault_id: v1''"
    by (simp_all add: path_exists_def file_bytes_def nodes) (simp_all add: node_at_def assms example_lookups)
  moreover have "db_activities (w_db w) = []" "db_mutations (w_db w) = []"
    using assms(3) by (simp_all add: journal_def captured_db_def empty_vault_db_def)
  ultimately show ?thesis
    using assms(4-)
    by (simp add: persist_or_log_mutation_def mutation_activity_context_def task_context_def example_task_def goal_context_from_metadata_def io_simps
      ensure_activity_def example_identity Let_def find_activity_def with_activity_def set_activity_def touch_activity_def add_mutation_def
      task_mutation_rows_def mutation_row_def next_rowid_def ROLLBACK_MUTATION_OPERATIONS_def nodes node_at_def [of "w\<lparr>w_db := x\<rparr>" for x]
      node_at_def [of w, symmetric]
      split: prod.splits option.splits)
qed


lemma example_written:
  "\<exists>x w. write_vault_file example_env (task_context example_task) [''vault''] ''a.md'' ''new'' False False example_world = (Inr x, w) \<and>
     map vm_path (task_mutation_rows ''t1'' (w_db w)) = [''a.md''] \<and> (\<forall>p. is_below [''tmp''] p \<longrightarrow> node_at w p = None)"
proof -
  let ?w = "example_world\<lparr>w_fs := captured_fs ''new'' 1000, w_db := captured_db 0, w_failures := [], w_clock_reads := Suc 1, w_uuid_reads := 1\<rparr>"
  obtain res w1 where refresh: "refresh_vault example_env [''vault''] (Some ''vault'') ?w = (Inr res, w1)" "w_failures w1 = []"
    using example_recorded_refresh [of ?w "''new''" 1000 0] by auto
  have "identified example_env [''vault''] ''v1'' ?w" by (rule example_identified) (simp add: file_bytes_def node_at_def example_lookups)
  then have quiet: "same_on UNIV ?w w1" "journal (w_db w1) = journal (captured_db 0)"
    using calmD [OF keepsD [OF keeps_refresh_calm refresh(1)]] by auto
  have "path_exists ?w [''vault'', ''a.md'']" "file_bytes ?w [''vault'', ''a.md''] = Some ''new''"
    by (simp_all add: path_exists_def file_bytes_def node_at_def example_lookups)
  moreover let ?x = "\<lparr>rm_vault_id = ''v1'', rm_vault_name = ''vault'', rm_path = ''a.md'', rm_related_path = None, rm_operation = ''write'',
       rm_before_exists = True, rm_before_hash = Some (sha256_hex ''note''), rm_after_exists = True, rm_after_hash = Some (sha256_hex ''new''),
       rm_task_id = mc_task_id (task_context example_task), rm_event_sequence = rr_latest_sequence res, rm_before_snapshot_id = Some 1,
       rm_snapshot_ref = Some ''task_mutation_before/files/a.md''\<rparr>"
  obtain w2 where "persist_or_log_mutation example_env (task_context example_task) ?x
      [''vault''] (''operation_'' @ show_nat 0) 0 (compute_task_mutation_expiration example_env 0) ''file'' [] w1 = (Inr (), w2)"
      "map vm_path (task_mutation_rows ''t1'' (w_db w2)) = [''a.md'']" "\<forall>p. node_at w2 p = node_at ?w p"
    using example_persisted [OF quiet(1) _ quiet(2) refresh(2), of "''new''" 1000 ?x "''operation_'' @ show_nat 0" 0
      "compute_task_mutation_expiration example_env 0"] by auto
  moreover have "\<not> is_below [''tmp''] []" "\<forall>q\<in>fst ` set (captured_fs ''new'' 1000). \<not> is_below [''tmp''] q"
    by (simp_all add: captured_fs_def is_below_def)
  then have "\<forall>p. is_below [''tmp''] p \<longrightarrow> node_at ?w p = None" by (auto simp: node_at_def map_of_eq_None_iff)
  ultimately show ?thesis
    using refresh unfolding example_applied
    by (simp add: record_applied_def hash_if_def uncertain_def io_simps hash_file_bytes_def read_file_def Let_def)
qed

definition example_vaults :: rollback_env where
  "example_vaults = \<lparr>rb_task_rollback_enabled = True, rb_vault_info = [(''vault'', [''vault''])]\<rparr>"

theorem task_rollback_restores_witness:
  "case write_vault_file example_env (task_context example_task) [''vault''] ''a.md'' ''new'' False False example_world of (outcome, w) \<Rightarrow>
   case rollback_task_file_mutations example_env example_vaults [''tmp''] ''t1'' ''failed'' None w of (r, w') \<Rightarrow>
     (\<forall>res. r = Inr res \<longrightarrow> \<not> tb_skipped res \<longrightarrow> same_content [''vault''] {''a.md''} example_world w') \<and>
     (same_content [''vault''] {''a.md''} example_world w' \<or> same_content [''vault''] {''a.md''} w w' \<or> says_uncertain r)"
proof -
  obtain x w where run: "write_vault_file example_env (task_context example_task) [''vault''] ''a.md'' ''new'' False False example_world = (Inr x, w)"
      and rows: "map vm_path (task_mutation_rows ''t1'' (w_db w)) = [''a.md'']"
      and nodes: "\<forall>p. is_below [''tmp''] p \<longrightarrow> node_at w p = None"
    using example_written by (elim exE conjE)
  obtain r w' where rollback: "rollback_task_file_mutations example_env example_vaults [''tmp''] ''t1'' ''failed'' None w = (r, w')" by fastforce
  have "linkless example_env [''vault'']" by (simp add: linkless_def snapshot_base_root_def is_below_def)
  moreover have "vault_paths [''vault''] {''a.md''}"
  proof -
    have "\<not> str_contains ''..'' ''a.md'' \<and> \<not> startswith ''a.md'' ''/''" by code_simp
    then show ?thesis by (simp add: vault_paths_def example_names vault_metadata_path_def is_below_def)
  qed
  moreover have "identified example_env [''vault''] ''v1'' example_world"
    by (rule example_identified) (simp add: file_bytes_def node_at_def example_lookups)
  moreover have "fresh_task (ts_task_id example_task) ''v1'' (w_db example_world)"
    by (simp add: fresh_task_def empty_vault_db_def)
  moreover have "task_step example_env [''vault''] example_task {''a.md''} example_world w"
    using run unfolding write_vault_file_def
    by (rule task_step.mutation [rotated 4]) (simp_all add: example_names mutators ROLLBACK_MUTATION_OPERATIONS_def)
  moreover have "temp_apart example_env [''vault''] [''tmp''] w"
    using nodes by (simp add: temp_apart_def snapshot_base_root_def is_below_def)
  moreover have "vm_path ` set (task_mutation_rows ''t1'' (w_db w)) = {''a.md''}"
    using arg_cong [OF rows, of set] by simp
  moreover have "ts_task_id example_task = ''t1''" by (simp add: example_task_def)
  ultimately show ?thesis
    using task_rollback_restores [of example_env "[''vault'']" "{''a.md''}" "''v1''" example_world example_task w "[''tmp'']" example_vaults
      "''failed''" None r w'] run rollback
    by (simp add: example_vaults_def Let_def r_into_rtranclp)
qed

text \<open>
  C39. A write that fails half-way is not rolled back. The disk is full while the task writes its note: the old content is in the
  task's snapshot, the note is truncated, the error is not one of the uncertain ones and the journal has no row. The
  rollback of the failed task finds no mutations, reports that it skipped, and the note stays truncated.
\<close>

theorem unrecorded_mutation_not_rolled_back:
  "case write_vault_file example_env (task_context example_task) [''vault''] ''a.md'' ''new'' False False full_disk_world of (outcome, w) \<Rightarrow>
   case rollback_task_file_mutations example_env example_vaults [''tmp''] ''t1'' ''failed'' None w of (r, w') \<Rightarrow>
     file_bytes full_disk_world [''vault'', ''a.md''] = Some ''note'' \<and> outcome = Inl (OSError ''No space left on device'') \<and>
     file_bytes w' [''sys'', ''vault_snapshots'', ''1'', ''task_mutation_before'', ''files'', ''a.md''] = Some ''note'' \<and>
     (\<exists>res. r = Inr res \<and> tb_skipped res \<and> tb_reason res = Some ''no_mutations'') \<and> file_bytes w' [''vault'', ''a.md''] = Some []"
proof -
  have "py_lower (strip ''failed'') = ''failed''" by code_simp
  then show ?thesis
    unfolding full_disk_write prod.case
    by (simp add: rollback_task_file_mutations_def Let_def task_rollback_policy_skip_reason_def ROLLBACK_TRIGGER_STATUSES_def example_vaults_def
      io_simps task_mutation_rows_def captured_db_def empty_vault_db_def file_bytes_def node_at_def full_disk_world_def example_lookups skipped_result_def
      captured_fs_def)
qed

end
