(* ===== verification/Vault_Activity_Rollback.thy ===== *)
theory Vault_Activity_Rollback
  imports Vault_Rollback Vault_Atomic
begin

text \<open>
  The explicit rollback of an activity, core/vault_state/activity_rollback.py: the plan with its issues, the execution as
  a new activity, the directories it makes and removes around the exact file restoration, and the compensation when a part
  fails. The locks are those of \<open>Vault_Lock\<close>; log records are not modelled.
\<close>

section \<open>The plan\<close>

record ActivityRollbackIssue =
  is_code :: string
  is_message :: string
  is_path :: "string option"

record ActivityRollbackPath =
  ap_path :: string
  ap_expected_exists :: bool
  ap_expected_sha256 :: "string option"
  ap_restore_exists :: bool
  ap_restore_sha256 :: "string option"
  ap_snapshot_id :: "nat option"
  ap_snapshot_path :: "path option"
  ap_target_kind :: string

record ActivityRollbackPlan =
  an_activity_id :: string
  an_activity_label :: string
  an_activity_status :: string
  an_vault_id :: string
  an_vault_name :: string
  an_can_rollback :: bool
  an_paths :: "ActivityRollbackPath list"
  an_issues :: "ActivityRollbackIssue list"

definition restore_count :: "ActivityRollbackPlan \<Rightarrow> nat" where
  "restore_count plan = length (filter ap_restore_exists (an_paths plan))"

definition delete_count :: "ActivityRollbackPlan \<Rightarrow> nat" where
  "delete_count plan = length (filter (\<lambda>p. \<not> ap_restore_exists p) (an_paths plan))"

record ActivityRollbackResult =
  ar_source_activity_id :: string
  ar_rollback_activity_id :: string
  ar_vault_name :: string
  ar_restored_count :: nat
  ar_deleted_count :: nat

definition rollback_expired :: "datetime option \<Rightarrow> datetime \<Rightarrow> bool" where
  "rollback_expired value now = (case value of None \<Rightarrow> False | Some t \<Rightarrow> t < now)"

text \<open>
  \<open>_recorded_directory_state\<close> parses the metadata of directory rows. Metadata that is not a JSON object makes it raise; the
  first such row decides the exception wherever it is met.
\<close>

definition row_metadata :: "VaultMutation \<Rightarrow> metadata result" where
  "row_metadata row =
     (let source = (case vm_metadata_json row of None \<Rightarrow> ''{}'' | Some s \<Rightarrow> if s = [] then ''{}'' else s)
      in case json_loads source of
           Some (JDict d) \<Rightarrow> Inr d
         | Some _ \<Rightarrow> Inl (TypeError ''metadata'')
         | None \<Rightarrow> Inl (ValueError ''metadata''))"

definition recorded_directory_state :: "VaultMutation \<Rightarrow> bool" where
  "recorded_directory_state row \<longleftrightarrow> vm_target_kind row = ''directory'' \<and>
     (case row_metadata row of Inr d \<Rightarrow> meta_get d ''directory_state'' = JBool True | Inl _ \<Rightarrow> False)"

fun metadata_error :: "VaultMutation list \<Rightarrow> pyexn option" where
  "metadata_error [] = None"
| "metadata_error (row # rows) =
     (if vm_target_kind row = ''directory'' then (case row_metadata row of Inl x \<Rightarrow> Some x | Inr _ \<Rightarrow> metadata_error rows)
      else metadata_error rows)"

definition activity_rows :: "string \<Rightarrow> vault_db \<Rightarrow> VaultMutation list" where
  "activity_rows activity_id d =
     sort_key vm_created_at (sort_key vm_id (filter (\<lambda>m. vm_activity_id m = activity_id) (db_mutations d)))"

definition load_rollback_records :: "path \<Rightarrow> string \<Rightarrow> (VaultActivity \<times> VaultMutation list \<times> FileSnapshot list) io" where
  "load_rollback_records vault_root activity_id =
     vbind (asks (\<lambda>w. find_activity activity_id (w_db w))) (\<lambda>found.
     case found of
       None \<Rightarrow> vraise (PyError (RuntimeError (''LookupError: Vault activity not found: '' @ activity_id)))
     | Some activity \<Rightarrow>
         if va_vault_name activity \<noteq> List.last vault_root
         then vraise (PyError (RuntimeError (''LookupError: Vault activity not found: '' @ activity_id)))
         else vbind (asks (\<lambda>w. activity_rows activity_id (w_db w))) (\<lambda>rows.
              vbind (asks (\<lambda>w. filter (\<lambda>s. list_ex (\<lambda>r. vm_before_snapshot_id r = Some (sn_id s)) rows) (db_file_snapshots (w_db w)))) (\<lambda>snapshots.
              vreturn (activity, rows, snapshots))))"

definition activity_rollback_issues ::
  "vault_env \<Rightarrow> VaultActivity \<Rightarrow> VaultMutation list \<Rightarrow> path \<Rightarrow> datetime \<Rightarrow> ActivityRollbackIssue list io" where
  "activity_rollback_issues e activity rows vault_root now =
     vbind (resolve_or_create_vault_identity e vault_root) (\<lambda>current_identity.
     case metadata_error rows of
       Some x \<Rightarrow> vraise (PyError x)
     | None \<Rightarrow>
         let checks = [
             (vi_vault_id current_identity \<noteq> va_vault_id activity, ''vault_identity_mismatch'',
              ''This activity belongs to an earlier vault with the same name.''),
             (va_status activity = ''running'', ''activity_in_progress'', ''This activity is still in progress.''),
             (rollback_expired (va_expires_at activity) now \<or> list_ex (\<lambda>r. rollback_expired (vm_expires_at r) now) rows,
              ''activity_expired'', ''This activity is outside its retained rollback window.''),
             (va_rollback_status activity = Some ''completed'', ''already_rolled_back'', ''This activity has already been rolled back.''),
             (rows = [], ''no_mutations'', ''This activity has no retained mutations to roll back.''),
             (list_ex (\<lambda>r. vm_target_kind r \<noteq> ''file'' \<and> \<not> recorded_directory_state r) rows, ''unsupported_directory_operation'',
              ''Directory operations do not retain enough state for full rollback.''),
             (list_ex (\<lambda>r. vm_status r \<noteq> ''completed'') rows, ''incomplete_mutation'',
              ''This activity contains a mutation without a completed outcome.'')]
         in vreturn (map (\<lambda>(_, code, message). \<lparr>is_code = code, is_message = message, is_path = None\<rparr>) (filter fst checks)))"

definition path_issue :: "string \<Rightarrow> string \<Rightarrow> string \<Rightarrow> ActivityRollbackIssue" where
  "path_issue code message path = \<lparr>is_code = code, is_message = message, is_path = Some path\<rparr>"

definition resolve_rollback_snapshot ::
  "vault_env \<Rightarrow> string \<Rightarrow> VaultMutation \<Rightarrow> FileSnapshot list \<Rightarrow> datetime \<Rightarrow> (path option \<times> ActivityRollbackIssue option) io" where
  "resolve_rollback_snapshot e path mutation snapshots now =
     (let unavailable = path_issue ''snapshot_unavailable'' (''The retained state for '' @ quoted path @ '' is no longer available.'') path
      in if recorded_directory_state mutation \<or> \<not> vm_before_exists mutation then vreturn (None, None)
         else case find (\<lambda>s. Some (sn_id s) = vm_before_snapshot_id mutation) snapshots of
           None \<Rightarrow> vreturn (None, Some unavailable)
         | Some row \<Rightarrow>
             if rollback_expired (sn_expires_at row) now then vreturn (None, Some unavailable)
             else vbind (asks (resolve_snapshot_file e (sn_id row))) (\<lambda>resolved.
               case resolved of
                 None \<Rightarrow> vreturn (None, Some unavailable)
               | Some found \<Rightarrow>
                   vbind (hash_file_bytes (sf_path found)) (\<lambda>h.
                   if Some h \<noteq> vm_before_hash mutation
                   then vreturn (None, Some (path_issue ''snapshot_invalid''
                     (''The retained state for '' @ quoted path @ '' failed integrity checking.'') path))
                   else vreturn (Some (sf_path found), None))))"

definition plan_rollback_path ::
  "vault_env \<Rightarrow> path \<Rightarrow> string \<Rightarrow> VaultMutation list \<Rightarrow> FileSnapshot list \<Rightarrow> datetime \<Rightarrow>
    (ActivityRollbackPath \<times> ActivityRollbackIssue list) io" where
  "plan_rollback_path e vault_root path rows snapshots now =
     (let first = hd rows; final = List.last rows
      in vbind (resolve_rollback_snapshot e path first snapshots now) (\<lambda>(snapshot_path, snapshot_issue).
         vbind (of_result (resolve_vault_relative_path (env_realpath e) vault_root path False)) (\<lambda>full_path.
         vbind (asks (\<lambda>w. (path_exists w full_path, is_file w full_path, is_dir w full_path))) (\<lambda>(actual_exists, regular, directory).
         vbind (hash_if (actual_exists \<and> regular) full_path) (\<lambda>actual_hash.
         let wrong_kind = is_symlink e (join_path vault_root path) \<or>
               actual_exists \<and> (if vm_target_kind first = ''file'' then directory else \<not> directory);
             conflict = (wrong_kind \<or> actual_exists \<noteq> vm_after_exists final \<or> actual_hash \<noteq> vm_after_hash final)
         in vreturn
              (\<lparr>ap_path = path, ap_expected_exists = vm_after_exists final, ap_expected_sha256 = vm_after_hash final,
                ap_restore_exists = vm_before_exists first, ap_restore_sha256 = vm_before_hash first,
                ap_snapshot_id = vm_before_snapshot_id first, ap_snapshot_path = snapshot_path, ap_target_kind = vm_target_kind first\<rparr>,
               (case snapshot_issue of None \<Rightarrow> [] | Some x \<Rightarrow> [x]) @
               (if conflict then [path_issue ''state_conflict'' (quoted path @ '' has changed since this activity completed.'') path]
                else [])))))))"

text \<open>Rows by path, in the order of the paths.\<close>

definition group_rows_by_path :: "VaultMutation list \<Rightarrow> (string \<times> VaultMutation list) list" where
  "group_rows_by_path rows =
     sort_key fst (grouped_by vm_path (filter (\<lambda>r. vm_target_kind r = ''file'' \<or> recorded_directory_state r) rows))"

text \<open>The first parent of a directory to restore that is neither there nor restored too.\<close>

definition parent_names :: "string \<Rightarrow> string list" where
  "parent_names path = map (\<lambda>n. str_join ''/'' (take n (path_parts path))) (rev [1..<length (path_parts path)])"

definition directory_restore_parent_issues ::
  "vault_env \<Rightarrow> path \<Rightarrow> ActivityRollbackPath list \<Rightarrow> vault_world \<Rightarrow> ActivityRollbackIssue list" where
  "directory_restore_parent_issues e vault_root paths w =
     (let restoring = map ap_path (filter (\<lambda>p. ap_target_kind p = ''directory'' \<and> ap_restore_exists p) paths);
          fits = (\<lambda>parent. let full_parent = join_path vault_root parent in
            is_dir w (env_realpath e full_parent) \<and> \<not> is_symlink e full_parent \<or>
            \<not> path_exists w (env_realpath e full_parent) \<and> \<not> is_symlink e full_parent \<and> parent \<in> set restoring)
      in concat (map (\<lambda>p. case filter (\<lambda>parent. \<not> fits parent) (parent_names (ap_path p)) of
             [] \<Rightarrow> []
           | parent # _ \<Rightarrow> [path_issue ''parent_state_conflict''
               (''Restore parent directory '' @ quoted parent @ '' before rolling back '' @ quoted (ap_path p) @ ''.'') (ap_path p)])
           (filter (\<lambda>p. ap_path p \<in> set restoring) paths)))"

definition newer_item_issues :: "vault_env \<Rightarrow> path \<Rightarrow> ActivityRollbackPath list \<Rightarrow> vault_world \<Rightarrow> ActivityRollbackIssue list" where
  "newer_item_issues e vault_root paths w =
     concat (map (\<lambda>p.
       let directory = join_path vault_root (ap_path p)
       in if is_dir w (env_realpath e directory) \<and>
             list_ex (\<lambda>(q, _). is_below directory q \<and> q \<noteq> directory \<and> relative_text vault_root q \<notin> set (map ap_path paths)) (w_fs w)
          then [path_issue ''state_conflict'' (quoted (ap_path p) @ '' contains newer items outside this activity.'') (ap_path p)]
          else [])
       (filter (\<lambda>p. ap_target_kind p = ''directory'' \<and> \<not> ap_restore_exists p) paths))"

fun deduplicate_issues :: "(string \<times> string option) list \<Rightarrow> ActivityRollbackIssue list \<Rightarrow> ActivityRollbackIssue list" where
  "deduplicate_issues seen [] = []"
| "deduplicate_issues seen (x # xs) =
     (if (is_code x, is_path x) \<in> set seen then deduplicate_issues seen xs
      else x # deduplicate_issues ((is_code x, is_path x) # seen) xs)"

definition preview_activity_rollback :: "vault_env \<Rightarrow> path \<Rightarrow> string \<Rightarrow> ActivityRollbackPlan io" where
  "preview_activity_rollback e vault_path activity_id =
     (let vault_root = env_realpath e vault_path
      in vbind utc_now (\<lambda>now.
         vbind (load_rollback_records vault_root activity_id) (\<lambda>(activity, rows, snapshots).
         vbind (activity_rollback_issues e activity rows vault_root now) (\<lambda>activity_issues.
         vbind (vfold (\<lambda>(path, path_rows) (paths, issues).
             vbind (plan_rollback_path e vault_root path path_rows snapshots now) (\<lambda>(planned_path, path_issues).
             vreturn (paths @ [planned_path], issues @ path_issues))) (group_rows_by_path rows) ([], activity_issues)) (\<lambda>(paths, issues).
         vbind (asks (\<lambda>w. issues @ directory_restore_parent_issues e vault_root paths w @ newer_item_issues e vault_root paths w)) (\<lambda>issues.
         vreturn \<lparr>an_activity_id = va_activity_id activity, an_activity_label = va_label activity, an_activity_status = va_status activity,
           an_vault_id = va_vault_id activity, an_vault_name = va_vault_name activity, an_can_rollback = (issues = []),
           an_paths = paths, an_issues = deduplicate_issues [] issues\<rparr>))))))"

section \<open>Execution\<close>

text \<open>The value of an operation or its exception, for the handlers that go on with what was done so far.\<close>

definition attempt :: "'a io \<Rightarrow> (vault_exn + 'a) io" where
  "attempt m = vtry (vbind m (\<lambda>x. vreturn (Inr x))) (\<lambda>exc. vreturn (Inl exc))"

text \<open>\<open>mkdir()\<close> of one directory.\<close>

definition mkdir_new :: "path \<Rightarrow> unit io" where
  "mkdir_new p = vbind next_failure (\<lambda>failure w.
     case failure of
       Some f \<Rightarrow> (Inl (OSError (fail_message f)), w)
     | None \<Rightarrow>
         if path_exists w p \<or> \<not> is_dir w (butlast p) then (Inl (OSError (''Cannot make '' @ path_text p)), w)
         else (Inr (), put_node p NDir w))"

definition record_directory_transition :: "vault_env \<Rightarrow> mutation_context \<Rightarrow> path \<Rightarrow> ActivityRollbackPath \<Rightarrow> bool \<Rightarrow> unit io" where
  "record_directory_transition e c vault_root p backwards =
     record_vault_directory_mutation e c vault_root (ap_path p) ''rollback_activity''
       (if backwards then ap_restore_exists p else ap_expected_exists p)
       (if backwards then ap_expected_exists p else ap_restore_exists p) None None [(''directory_state'', JBool True)]"

text \<open>Each directory in turn; those that were changed, and the exception that stopped the loop.\<close>

fun change_directories ::
  "(path \<Rightarrow> unit io) \<Rightarrow> (ActivityRollbackPath \<Rightarrow> unit io) \<Rightarrow> path \<Rightarrow> ActivityRollbackPath list \<Rightarrow> ActivityRollbackPath list \<Rightarrow>
    (ActivityRollbackPath list \<times> vault_exn option) io" where
  "change_directories change record_change vault_root [] changed = vreturn (changed, None)"
| "change_directories change record_change vault_root (p # paths) changed =
     vbind (attempt (change (join_path vault_root (ap_path p)))) (\<lambda>made.
     case made of
       Inl exc \<Rightarrow> vreturn (changed, Some exc)
     | Inr _ \<Rightarrow>
         vbind (attempt (record_change p)) (\<lambda>recorded.
         case recorded of
           Inl exc \<Rightarrow> vreturn (changed @ [p], Some exc)
         | Inr _ \<Rightarrow> change_directories change record_change vault_root paths (changed @ [p])))"

definition compensate_activity_files ::
  "vault_env \<Rightarrow> mutation_context \<Rightarrow> path \<Rightarrow> path \<Rightarrow> RecordedMutationResult list \<Rightarrow> unit io" where
  "compensate_activity_files e c temp_root vault_root results =
     vbind (vfold (\<lambda>r states.
         vbind (case rm_before_snapshot_id r of None \<Rightarrow> vreturn None
                | Some i \<Rightarrow> if i = 0 then vreturn None else asks (resolve_snapshot_file e i)) (\<lambda>retained.
         if rm_before_exists r \<and> retained = None
         then rejected ''snapshot_unavailable'' (''Missing compensation snapshot: '' @ rm_path r)
         else vreturn (states @ [\<lparr>fr_path = rm_path r, fr_expected_exists = rm_after_exists r, fr_expected_sha256 = rm_after_hash r,
           fr_content = None, fr_content_path = map_option sf_path retained, fr_content_sha256 = rm_before_hash r\<rparr>]))) results []) (\<lambda>states.
     if states = [] then vreturn ()
     else vbind (restore_vault_file_states e c temp_root vault_root states ''rollback_compensation'' []) (\<lambda>_. vreturn ()))"

text \<open>The handler of \<open>_restore_activity_states\<close>, with the directories and files changed so far.\<close>

definition undo_activity_states ::
  "vault_env \<Rightarrow> mutation_context \<Rightarrow> path \<Rightarrow> path \<Rightarrow> ActivityRollbackPath list \<Rightarrow> ActivityRollbackPath list \<Rightarrow> RecordedMutationResult list \<Rightarrow>
    vault_exn \<Rightarrow> unit io" where
  "undo_activity_states e c temp_root vault_root created removed_dirs file_results cause =
     vbind (vtry
       (vbind (vfold (\<lambda>p _. vbind (mkdir_new (join_path vault_root (ap_path p))) (\<lambda>_. record_directory_transition e c vault_root p True))
          (rev removed_dirs) ()) (\<lambda>_.
        vbind (compensate_activity_files e c temp_root vault_root file_results) (\<lambda>_.
        vfold (\<lambda>p _. vbind (rmdir (join_path vault_root (ap_path p))) (\<lambda>_. record_directory_transition e c vault_root p True))
          (rev created) ())))
       (\<lambda>compensation_error. rejected ''mutation_state_uncertain''
         (''Rollback failed and compensation was incomplete: '' @ exn_text compensation_error))) (\<lambda>_.
     vraise cause)"

definition restore_activity_states ::
  "vault_env \<Rightarrow> mutation_context \<Rightarrow> path \<Rightarrow> path \<Rightarrow> ActivityRollbackPlan \<Rightarrow> FileStateRestore list \<Rightarrow> unit io" where
  "restore_activity_states e c temp_root vault_root plan states =
     (let directories = sort_key (\<lambda>p. length (path_parts (ap_path p)))
            (filter (\<lambda>p. ap_target_kind p = ''directory'' \<and> ap_restore_exists p \<noteq> ap_expected_exists p) (an_paths plan));
          record_change = (\<lambda>p. record_directory_transition e c vault_root p False)
      in vbind (change_directories mkdir_new record_change vault_root (filter ap_restore_exists directories) []) (\<lambda>(created, stopped).
         case stopped of
           Some cause \<Rightarrow> undo_activity_states e c temp_root vault_root created [] [] cause
         | None \<Rightarrow>
             vbind (attempt (if states = [] then vreturn []
               else restore_vault_file_states e c temp_root vault_root states ''rollback_activity''
                 [(''source_activity_id'', JStr (an_activity_id plan))])) (\<lambda>restoration.
             case restoration of
               Inl cause \<Rightarrow> undo_activity_states e c temp_root vault_root created [] [] cause
             | Inr file_results \<Rightarrow>
                 vbind (change_directories rmdir record_change vault_root (filter (\<lambda>p. \<not> ap_restore_exists p) (rev directories)) [])
                   (\<lambda>(removed_dirs, stopped).
                 case stopped of
                   Some cause \<Rightarrow> undo_activity_states e c temp_root vault_root created removed_dirs file_results cause
                 | None \<Rightarrow>
                     vbind (attempt (vbind (if removed_dirs = [] then vreturn ()
                         else remove_favorite_paths e vault_root (map ap_path removed_dirs)) (\<lambda>_.
                       refresh_vault e vault_root (Some (an_vault_name plan))))) (\<lambda>refreshed.
                     case refreshed of
                       Inl cause \<Rightarrow> undo_activity_states e c temp_root vault_root created removed_dirs file_results cause
                     | Inr _ \<Rightarrow> vreturn ())))))"

text \<open>The states a client has confirmed, against those of the plan.\<close>

definition states_confirmed :: "(string \<times> bool \<times> string option) list \<Rightarrow> ActivityRollbackPlan \<Rightarrow> bool" where
  "states_confirmed expected_states plan \<longleftrightarrow>
     distinct (map fst expected_states) \<and> length expected_states = length (an_paths plan) \<and>
     list_all (\<lambda>p. map_of expected_states (ap_path p) = Some (ap_expected_exists p, ap_expected_sha256 p)) (an_paths plan)"

definition file_restores :: "ActivityRollbackPlan \<Rightarrow> FileStateRestore list" where
  "file_restores plan =
     map (\<lambda>p. \<lparr>fr_path = ap_path p, fr_expected_exists = ap_expected_exists p, fr_expected_sha256 = ap_expected_sha256 p, fr_content = None,
       fr_content_path = ap_snapshot_path p, fr_content_sha256 = ap_restore_sha256 p\<rparr>)
     (filter (\<lambda>p. ap_target_kind p = ''file'') (an_paths plan))"

text \<open>The part after the confirmation.\<close>

definition run_activity_rollback ::
  "vault_env \<Rightarrow> ExecutionTaskSnapshot option \<Rightarrow> path \<Rightarrow> path \<Rightarrow> string \<Rightarrow> ActivityRollbackPlan \<Rightarrow> ActivityRollbackResult io" where
  "run_activity_rollback e task temp_root vault_root activity_id plan =
     vbind fresh_uuid (\<lambda>uuid_hex.
     let rollback_activity_id = ''activity_'' @ uuid_hex;
         context = \<lparr>ac_activity_id = rollback_activity_id, ac_kind = ''explorer'', ac_source = ''api'', ac_scope = None,
           ac_label = ''Rollback: '' @ an_activity_label plan, ac_task_id = None, ac_goal_id = None, ac_step_id = None\<rparr>
     in vbind (ensure_activity e context vault_root (Some (an_vault_name plan)) None) (\<lambda>_.
        vbind (update_activity_metadata rollback_activity_id [(''source_activity_id'', JStr activity_id)]) (\<lambda>_.
        vbind (vtry (restore_activity_states e \<lparr>mc_task = task, mc_activity = Some context\<rparr> temp_root vault_root plan (file_restores plan))
          (\<lambda>exc. vbind (finish_activity rollback_activity_id ''failed'' None) (\<lambda>_. vraise exc))) (\<lambda>_.
        vbind (finish_activity rollback_activity_id ''completed'' None) (\<lambda>_.
        vbind (set_activity_rollback_status activity_id ''completed'') (\<lambda>_.
        vreturn \<lparr>ar_source_activity_id = activity_id, ar_rollback_activity_id = rollback_activity_id,
          ar_vault_name = an_vault_name plan, ar_restored_count = restore_count plan, ar_deleted_count = delete_count plan\<rparr>))))))"

text \<open>\<open>ActivityRollbackUnavailable\<close> carries the plan: it is the left alternative of the result.\<close>

definition execute_activity_rollback ::
  "vault_env \<Rightarrow> ExecutionTaskSnapshot option \<Rightarrow> path \<Rightarrow> path \<Rightarrow> string \<Rightarrow> (string \<times> bool \<times> string option) list \<Rightarrow>
    (ActivityRollbackPlan + ActivityRollbackResult) io" where
  "execute_activity_rollback e task temp_root vault_path activity_id expected_states =
     (let vault_root = env_realpath e vault_path
      in vbind (preview_activity_rollback e vault_root activity_id) (\<lambda>plan.
         if \<not> an_can_rollback plan \<or> \<not> states_confirmed expected_states plan then vreturn (Inl plan)
         else vbind (run_activity_rollback e task temp_root vault_root activity_id plan) (\<lambda>outcome. vreturn (Inr outcome))))"

end
