(* ===== verification/Vault_Activity_Run.thy ===== *)
theory Vault_Activity_Run
  imports Vault_Activity_Rollback Vault_Undo
begin

text \<open>
  A rollback of an activity, evaluated step by step: the activity \<open>a1\<close> has made a note, and its rollback, without failures,
  previews, restores, refreshes and finishes.
\<close>

definition created_row :: VaultMutation where
  "created_row = \<lparr>vm_id = 1, vm_activity_id = ''a1'', vm_operation_id = ''operation_1'', vm_path = ''a.md'', vm_related_path = None,
     vm_target_kind = ''file'', vm_operation = ''write'', vm_status = ''completed'', vm_event_sequence = None, vm_before_exists = False,
     vm_before_hash = None, vm_before_snapshot_id = None, vm_after_exists = True, vm_after_hash = Some (sha256_hex ''new''),
     vm_after_snapshot_id = None, vm_snapshot_ref = None, vm_created_at = 1, vm_expires_at = None, vm_metadata_json = None\<rparr>"

text \<open>The activity \<open>a1\<close> has made the note \<open>a.md\<close>.\<close>

definition created_world :: vault_world where
  "created_world = literal_world (vault_files @ [([''vault'', ''a.md''], NFile ''new'' 2)])
     (empty_vault_db\<lparr>db_mutations := [created_row],
        db_activities := [\<lparr>va_activity_id = ''a1'', va_vault_id = ''v1'', va_vault_name = ''vault'', va_kind = ''explorer'', va_source = ''api'',
          va_scope = None, va_label = ''Write'', va_task_id = None, va_goal_id = None, va_step_id = None, va_status = ''completed'',
          va_rollback_status = None, va_created_at = 1, va_updated_at = 1, va_completed_at = Some 1, va_expires_at = None,
          va_metadata_json = None\<rparr>]\<rparr>) [] 5"


lemma created_files:
  assumes "w_fs w = vault_files @ [([''vault'', ''a.md''], NFile ''new'' 2)]"
  shows "node_at w [''vault'', ''a.md''] = Some (NFile ''new'' 2)" "node_at w [''vault''] = Some NDir"
    "node_at w [''vault'', ''AssistantMD'', ''vault.yaml''] = Some (NFile ''vault_id: v1'' 1)"
  using assms by (simp_all add: node_at_def vault_files_def)

lemma created_world_fields [simp]:
  "w_fs created_world = vault_files @ [([''vault'', ''a.md''], NFile ''new'' 2)]" "w_failures created_world = []"
  "db_mutations (w_db created_world) = [created_row]"
  by (simp_all add: created_world_def literal_world_def)

lemma example_env_fields: "env_realpath example_env p = p" "env_excluded_patterns example_env = []" "env_system_root example_env = [''sys'']"
  by (simp_all add: example_env_def)

lemma created_group: "group_rows_by_path [created_row] = [(''a.md'', [created_row])]"
  by (simp add: group_rows_by_path_def grouped_by_def group_append_def created_row_def)

lemma created_row_fields: "vm_activity_id created_row = ''a1''" "vm_path created_row = ''a.md''" "vm_target_kind created_row = ''file''"
  "vm_status created_row = ''completed''" "\<not> vm_before_exists created_row" "vm_before_hash created_row = None"
  "vm_before_snapshot_id created_row = None" "vm_after_exists created_row" "vm_after_hash created_row = Some (sha256_hex ''new'')"
  "vm_expires_at created_row = None"
  by (simp_all add: created_row_def)

lemma no_directory_issues:
  assumes "list_all (\<lambda>p. ap_target_kind p = ''file'') paths"
  shows "directory_restore_parent_issues e vault_root paths w = []" "newer_item_issues e vault_root paths w = []"
proof -
  have none: "filter (\<lambda>p. ap_target_kind p = ''directory'' \<and> Q p) paths = []" for Q
    using assms by (induction paths) auto
  show "directory_restore_parent_issues e vault_root paths w = []" unfolding directory_restore_parent_issues_def none by simp
  show "newer_item_issues e vault_root paths w = []" unfolding newer_item_issues_def none by simp
qed

lemma created_preview:
  "\<exists>plan. preview_activity_rollback example_env [''vault''] ''a1'' created_world = (Inr plan, created_world\<lparr>w_clock_reads := 6\<rparr>) \<and>
    an_can_rollback plan \<and> an_vault_name plan = ''vault'' \<and>
    an_paths plan = [\<lparr>ap_path = ''a.md'', ap_expected_exists = True, ap_expected_sha256 = Some (sha256_hex ''new''), ap_restore_exists = False,
      ap_restore_sha256 = None, ap_snapshot_id = None, ap_snapshot_path = None, ap_target_kind = ''file''\<rparr>]"
  by (simp add: preview_activity_rollback_def load_rollback_records_def Let_def io_simps find_activity_def activity_rows_def
    activity_rollback_issues_def example_identity created_group plan_rollback_path_def resolve_rollback_snapshot_def
    created_row_fields example_names file_simps hash_if_def is_symlink_def rollback_expired_def recorded_directory_state_def
    no_directory_issues join_path_def created_world_def literal_world_def vault_files_def example_env_fields)

lemma created_names:
  "snapshot_ref_of ''activity_mutation_before'' ''a.md'' = ''activity_mutation_before/files/a.md''"
  "path_parts ''activity_mutation_before/files/a.md'' = [''activity_mutation_before'', ''files'', ''a.md'']"
  "snapshot_root_of example_env 1 = [''sys'', ''vault_snapshots'', ''1'']"
  "show_nat 0 = ''0''"
  "path_prefixes [''sys'', ''vault_snapshots'', ''1''] = [[''sys''], [''sys'', ''vault_snapshots''], [''sys'', ''vault_snapshots'', ''1'']]"
  "path_prefixes [''sys'', ''vault_snapshots'', ''1'', ''activity_mutation_before'', ''files''] =
     [[''sys''], [''sys'', ''vault_snapshots''], [''sys'', ''vault_snapshots'', ''1''],
      [''sys'', ''vault_snapshots'', ''1'', ''activity_mutation_before''], [''sys'', ''vault_snapshots'', ''1'', ''activity_mutation_before'', ''files'']]"
  by code_simp+

definition created_path :: ActivityRollbackPath where
  "created_path = \<lparr>ap_path = ''a.md'', ap_expected_exists = True, ap_expected_sha256 = Some (sha256_hex ''new''), ap_restore_exists = False,
      ap_restore_sha256 = None, ap_snapshot_id = None, ap_snapshot_path = None, ap_target_kind = ''file''\<rparr>"

lemma created_restores: "an_paths plan = [created_path] \<Longrightarrow> file_restores plan = [\<lparr>fr_path = ''a.md'', fr_expected_exists = True, fr_expected_sha256 = Some (sha256_hex ''new''), fr_content = None,
       fr_content_path = None, fr_content_sha256 = None\<rparr>]" by (simp add: file_restores_def created_path_def)


definition settled_fs :: "(path, node) dict" where
  "settled_fs = [([''vault''], NDir), ([''vault'', ''AssistantMD''], NDir), ([''vault'', ''AssistantMD'', ''vault.yaml''], NFile ''vault_id: v1'' 1),
     ([''sys''], NDir), ([''sys'', ''vault_snapshots''], NDir), ([''sys'', ''vault_snapshots'', ''1''], NDir),
     ([''sys'', ''vault_snapshots'', ''1'', ''activity_mutation_before''], NDir),
     ([''sys'', ''vault_snapshots'', ''1'', ''activity_mutation_before'', ''files''], NDir),
     ([''sys'', ''vault_snapshots'', ''1'', ''activity_mutation_before'', ''files'', ''a.md''], NFile ''new'' 2)]"

lemma restored_stage:
  assumes "w_fs w = vault_files @ [([''vault'', ''a.md''], NFile ''new'' 2)]" "w_failures w = []" 
   "db_vaults (w_db w) = []" "db_files (w_db w) = []" "db_events (w_db w) = []" "db_favorites (w_db w) = []"
   "db_snapshot_sets (w_db w) = []" "db_file_snapshots (w_db w) = []" 
   "find (\<lambda>a. va_activity_id a = ac_activity_id context) (db_activities (w_db w)) = Some a" "ac_activity_id context \<noteq> []"
  shows "\<exists>res w'. restore_vault_file_states example_env \<lparr>mc_task = None, mc_activity = Some context\<rparr> [''tmp''] [''vault''] 
   [\<lparr>fr_path = ''a.md'', fr_expected_exists = True, fr_expected_sha256 = Some (sha256_hex ''new''), fr_content = None,
       fr_content_path = None, fr_content_sha256 = None\<rparr>] ''rollback_activity'' metadata w = (Inr res, w') \<and> w_failures w' = [] \<and>
    w_fs w' = settled_fs \<and> (\<exists>r. db_files (w_db w') = [r] \<and> vf_vault_id r = ''v1'' \<and> vf_path r = ''AssistantMD/vault.yaml'') \<and>
    map va_activity_id (db_activities (w_db w')) = map va_activity_id (db_activities (w_db w))"
  using assms
  by (simp add: settled_fs_def restore_vault_file_states_def restore_vault_file_states_locked_def io_simps example_env_fields resolve_file_state_restores_def
    example_names example_identity Let_def with_temporary_directory_def capture_restore_before_states_def capture_one_def file_simps vault_files_def
    copy2_def write_node_def created_names restore_exists_def
    ensure_activity_def find_activity_def empty_vault_db_def
    record_restore_snapshots_def ensure_file_snapshot_def given_def existing_snapshot_def existing_snapshot_set_def new_snapshot_set_def next_rowid_def mkdir_parents_def make_dirs_def created_names [simplified]
 run_file_state_restore_transaction_def apply_file_state_restores_def restore_content_hash_def remove_restored_def unlink_def write_restored_def
     refresh_vault_def matcher_from_patterns_def files_below_def is_below_def no_counts_def refresh_file_def example_relative matcher_matches_def file_stat_def
      needs_hash_def find_file_def vault_rows_def register_vault_def record_file_def append_event_def event_type_of_def
     build_file_state_transitions_def build_transition_def persist_mutation_batch_def with_activity_def build_recorded_restore_results_def
     remove_favorite_paths_in_def compensate_file_state_restores_def compensate_one_def set_activity_def touch_activity_def
     delete_favorites_def add_mutation_def)

lemma settled_refresh:
  assumes "w_fs w = settled_fs" "w_failures w = []" "db_files (w_db w) = [r]" "vf_vault_id r = ''v1''" "vf_path r = ''AssistantMD/vault.yaml''"
  shows "\<exists>res w'. refresh_vault example_env [''vault''] (Some ''vault'') w = (Inr res, w') \<and> w_failures w' = [] \<and>
    db_activities (w_db w') = db_activities (w_db w)"
  using assms by (auto simp: settled_fs_def refresh_vault_def matcher_from_patterns_def files_below_def is_below_def no_counts_def refresh_file_def
    example_relative matcher_matches_def file_stat_def needs_hash_def find_file_def vault_rows_def register_vault_def record_file_def append_event_def
    event_type_of_def io_simps example_env_fields example_identity Let_def file_simps delete_missing_def set_file_def)


lemma set_activity_ids: "map va_activity_id (db_activities (set_activity a d)) = map va_activity_id (db_activities d)"
  by (simp add: set_activity_def)

lemma find_activity_known: "i \<in> set (map va_activity_id (db_activities d)) \<longleftrightarrow> (\<exists>a. find_activity i d = Some a)"
proof
  assume "i \<in> set (map va_activity_id (db_activities d))"
  then show "\<exists>a. find_activity i d = Some a" unfolding find_activity_def by (cases "find (\<lambda>a. va_activity_id a = i) (db_activities d)") (auto simp: find_None_iff)
qed (auto dest: find_activity_mem)

lemma finish_run:
  assumes "w_failures w = []"
  shows "\<exists>w'. finish_activity i s None w = (Inr (), w') \<and> w_failures w' = [] \<and> map va_activity_id (db_activities (w_db w')) = map va_activity_id (db_activities (w_db w))"
  using assms by (auto simp: finish_activity_def finish_activity_in_def io_simps set_activity_ids Let_def split: option.splits)

lemma set_status_run:
  assumes "w_failures w = []" "i \<in> set (map va_activity_id (db_activities (w_db w)))"
  shows "\<exists>w'. set_activity_rollback_status i s w = (Inr (), w')"
  using assms by (auto simp del: set_map simp: find_activity_known set_activity_rollback_status_def io_simps split: option.splits)


abbreviation rollback_context :: "ActivityRollbackPlan \<Rightarrow> VaultActivityContext" where
  "rollback_context plan \<equiv> \<lparr>ac_activity_id = ''activity_0'', ac_kind = ''explorer'', ac_source = ''api'', ac_scope = None,
     ac_label = ''Rollback: '' @ an_activity_label plan, ac_task_id = None, ac_goal_id = None, ac_step_id = None\<rparr>"

lemma created_started:
  "\<exists>w1 a w2 w3. fresh_uuid (created_world\<lparr>w_clock_reads := 6\<rparr>) = (Inr ''0'', w1) \<and>
     ensure_activity example_env (rollback_context plan) [''vault''] (Some ''vault'') None w1 = (Inr a, w2) \<and>
     update_activity_metadata ''activity_0'' [(''source_activity_id'', JStr ''a1'')] w2 = (Inr (), w3) \<and>
     w_fs w3 = vault_files @ [([''vault'', ''a.md''], NFile ''new'' 2)] \<and> w_failures w3 = [] \<and>
     map va_activity_id (db_activities (w_db w3)) = [''a1'', ''activity_0''] \<and>
     db_vaults (w_db w3) = [] \<and> db_files (w_db w3) = [] \<and> db_events (w_db w3) = [] \<and> db_favorites (w_db w3) = [] \<and>
     db_snapshot_sets (w_db w3) = [] \<and> db_file_snapshots (w_db w3) = []"
  by (simp add: created_world_def literal_world_def io_simps created_names ensure_activity_def example_identity file_simps vault_files_def Let_def
    example_env_fields find_activity_def empty_vault_db_def update_activity_metadata_def set_activity_def)

lemma created_restored:
  assumes paths: "an_paths plan = [created_path]" and name: "an_vault_name plan = ''vault''" 
    and start: "w_fs w = vault_files @ [([''vault'', ''a.md''], NFile ''new'' 2)]" "w_failures w = []"
      "map va_activity_id (db_activities (w_db w)) = [''a1'', ''activity_0'']"
      "db_vaults (w_db w) = []" "db_files (w_db w) = []" "db_events (w_db w) = []" "db_favorites (w_db w) = []"
      "db_snapshot_sets (w_db w) = []" "db_file_snapshots (w_db w) = []"
  shows "\<exists>w'. restore_activity_states example_env \<lparr>mc_task = None, mc_activity = Some (rollback_context plan)\<rparr> [''tmp''] [''vault''] plan
      (file_restores plan) w = (Inr (), w') \<and> w_failures w' = [] \<and> map va_activity_id (db_activities (w_db w')) = [''a1'', ''activity_0'']"
proof -
  let ?c = "\<lparr>mc_task = None, mc_activity = Some (rollback_context plan)\<rparr>"
  have "''activity_0'' \<in> set (map va_activity_id (db_activities (w_db w)))" by (simp only: start) simp
  then obtain a where "find_activity ''activity_0'' (w_db w) = Some a" unfolding find_activity_known ..
  then obtain res w1 r where restore: "restore_vault_file_states example_env ?c [''tmp''] [''vault''] (file_restores plan) ''rollback_activity''
        [(''source_activity_id'', JStr (an_activity_id plan))] w = (Inr res, w1)"
      and w1: "w_failures w1 = []" "w_fs w1 = settled_fs" "db_files (w_db w1) = [r]" "vf_vault_id r = ''v1''" "vf_path r = ''AssistantMD/vault.yaml''"
        "map va_activity_id (db_activities (w_db w1)) = [''a1'', ''activity_0'']"
    using restored_stage [OF start(1,2,4-9), of "rollback_context plan" a "[(''source_activity_id'', JStr (an_activity_id plan))]"] start(3)
    by (auto simp: find_activity_def created_restores [OF paths])
  obtain found w2 where "refresh_vault example_env [''vault''] (Some ''vault'') w1 = (Inr found, w2)" "w_failures w2 = []"
      "db_activities (w_db w2) = db_activities (w_db w1)"
    using settled_refresh [OF w1(2,1,3-5)] by blast
  moreover have "file_restores plan \<noteq> []" by (simp add: created_restores [OF paths])
  moreover have "filter (\<lambda>p. ap_target_kind p = ''directory'' \<and> ap_restore_exists p \<noteq> ap_expected_exists p) (an_paths plan) = []"
    by (simp add: paths created_path_def)
  ultimately show ?thesis
    using w1(6) restore unfolding restore_activity_states_def Let_def by (simp add: attempt_def io_simps name)
qed

end
