(* ===== verification/Vault_Activity_Props.thy ===== *)
theory Vault_Activity_Props
  imports Vault_Activity_Run
begin

text \<open>
  What an activity rollback guarantees: a refused one changes nothing, and one that reports success has verified that every
  file of the plan has the state from before the activity.
\<close>

section \<open>Refusal\<close>

lemma keeps_resolve_calm: "keeps (calm e vault_root v) (resolve_rollback_snapshot e' path mutation snapshots now)"
  unfolding resolve_rollback_snapshot_def Let_def
  by (auto intro!: quiet.keeps_combinators keeps_hash_calm split: option.splits)

lemma keeps_plan_calm: "keeps (calm e vault_root v) (plan_rollback_path e' root' path rows snapshots now)"
  unfolding plan_rollback_path_def Let_def
  by (auto intro!: quiet.keeps_combinators keeps_resolve_calm keeps_hash_if_calm split: prod.splits)

lemma keeps_preview_calm:
  assumes "env_realpath e vault_root = vault_root"
  shows "keeps (calm e vault_root v) (preview_activity_rollback e vault_root activity_id)"
  unfolding preview_activity_rollback_def load_rollback_records_def activity_rollback_issues_def Let_def assms
  by (auto intro!: quiet.keeps_combinators keeps_clock_calm keeps_identity_calm keeps_plan_calm split: prod.splits option.splits)

text \<open>The plan of an execution that returns, and the rest of the run.\<close>

lemma execution_cases:
  assumes "execute_activity_rollback e task temp_root vault_path activity_id expected_states w = (Inr outcome, w')"
  obtains (refused) plan where "outcome = Inl plan" "preview_activity_rollback e (env_realpath e vault_path) activity_id w = (Inr plan, w')"
      "\<not> (an_can_rollback plan \<and> states_confirmed expected_states plan)"
    | (ran) plan result w1 where "outcome = Inr result" "preview_activity_rollback e (env_realpath e vault_path) activity_id w = (Inr plan, w1)"
      "an_can_rollback plan" "states_confirmed expected_states plan"
      "run_activity_rollback e task temp_root (env_realpath e vault_path) activity_id plan w1 = (Inr result, w')"
  using assms unfolding execute_activity_rollback_def Let_def
  by (auto simp: vbind_def vreturn_def split: prod.splits sum.splits if_splits)

text \<open>
  A refused rollback changes nothing. When the plan has an issue, or the client has confirmed other states than the plan
  finds, no file, no activity, no mutation and no snapshot changes.
\<close>

theorem refused_rollback_changes_nothing:
  assumes "identified e vault_root v w"
    and "execute_activity_rollback e task temp_root vault_root activity_id expected_states w = (Inr (Inl plan), w')"
  shows "same_on UNIV w w' \<and> journal (w_db w') = journal (w_db w) \<and> \<not> (an_can_rollback plan \<and> states_confirmed expected_states plan)"
proof -
  have root: "env_realpath e vault_root = vault_root" using assms(1) by (simp add: identified_def)
  show ?thesis
    using assms(2)
  proof (cases rule: execution_cases)
    case (refused found)
    then show ?thesis
      using calmD [OF keepsD [OF keeps_preview_calm [OF root] refused(2) [unfolded root]] assms(1)] by simp
  qed simp
qed

text \<open>The client confirms no states for a plan with one path.\<close>

theorem refused_rollback_changes_nothing_witness:
  "\<exists>plan w'. execute_activity_rollback example_env None [''tmp''] [''vault''] ''a1'' [] created_world = (Inr (Inl plan), w') \<and>
     an_can_rollback plan \<and> file_bytes w' [''vault'', ''a.md''] = Some ''new'' \<and> journal (w_db w') = journal (w_db created_world)"
proof -
  obtain plan where preview: "preview_activity_rollback example_env [''vault''] ''a1'' created_world = (Inr plan, created_world\<lparr>w_clock_reads := 6\<rparr>)"
      and plan: "an_can_rollback plan" "an_paths plan = [created_path]"
    using created_preview by (auto simp: created_path_def)
  have run: "execute_activity_rollback example_env None [''tmp''] [''vault''] ''a1'' [] created_world =
      (Inr (Inl plan), created_world\<lparr>w_clock_reads := 6\<rparr>)"
    using preview plan by (simp add: execute_activity_rollback_def Let_def example_env_fields vbind_def vreturn_def states_confirmed_def)
  have "identified example_env [''vault''] ''v1'' created_world"
    by (rule example_identified) (simp add: file_bytes_def node_at_def vault_files_def)
  from refused_rollback_changes_nothing [OF this run] run plan show ?thesis
    by (auto simp: same_on_def file_bytes_def node_at_def vault_files_def)
qed

section \<open>One file through the operations after its verification\<close>

definition leaves :: "path \<Rightarrow> vault_world \<Rightarrow> vault_world \<Rightarrow> bool" where
  "leaves p w w' \<longleftrightarrow> file_bytes w' p = file_bytes w p"

interpretation left: io_frame "leaves p" for p
  by unfold_locales (simp_all add: leaves_def)

lemma keeps_leaves: "keeps (same_on {p}) m \<Longrightarrow> keeps (leaves p) m"
  by (simp add: keeps_def leaves_def same_on_def file_bytes_def)

definition verified :: "vault_world \<Rightarrow> FileStateRestore \<Rightarrow> path \<Rightarrow> bool" where
  "verified w s full \<longleftrightarrow>
     (if restore_exists s then \<exists>c. file_bytes w full = Some c \<and> (fr_content_sha256 s \<noteq> None \<longrightarrow> fr_content_sha256 s = Some (sha256_hex c))
      else file_bytes w full = None)"

lemma verified_left: "leaves full w w' \<Longrightarrow> verified w s full \<Longrightarrow> verified w' s full"
  by (cases "restore_exists s") (simp_all add: leaves_def verified_def)

lemma hash_content: "hash_file_bytes p w = (Inr h, w') \<Longrightarrow> \<exists>c. file_bytes w p = Some c \<and> h = sha256_hex c"
  unfolding hash_file_bytes_def by (elim vbindE) (auto simp: vreturn_def dest: read_file_content)

lemma same_world_bytes: "same_on UNIV w w' \<Longrightarrow> file_bytes w' p = file_bytes w p"
  by (simp add: same_on_def file_bytes_def)

lemma content_hash_checked:
  assumes "restore_content_hash s w = (Inr h, w')" and "fr_content_sha256 s \<noteq> None"
  shows "h = fr_content_sha256 s"
  using assms unfolding restore_content_hash_def
  by (elim vbindE) (auto simp: vreturn_def vraise_def split: if_splits)

lemma not_file_no_bytes: "\<not> is_file w p \<Longrightarrow> file_bytes w p = None"
  by (auto simp: is_file_def file_bytes_def split: option.splits node.splits)

lemma transition_verified:
  assumes "build_transition before_states sq item transitions w = (Inr x, w')"
  shows "same_on UNIV w w' \<and> verified w (rs_request item) (rs_full_path item)"
proof -
  let ?full = "rs_full_path item" and ?s = "rs_request item"
  have same: "keeps (same_on UNIV) (build_transition before_states sq item transitions)"
    unfolding build_transition_def
    by (intro on.keeps_bind on.keeps_asks restore_hash_same)
      (auto intro!: on.keeps_combinators keeps_hash_on split: option.splits)
  from assms obtain h w1 expected w2 where
      hash: "(if is_file w ?full then vbind (hash_file_bytes ?full) (\<lambda>h. vreturn (Some h)) else vreturn None) w = (Inr h, w1)"
      and expected: "restore_content_hash ?s w1 = (Inr expected, w2)"
      and agree: "is_file w ?full = restore_exists ?s" "h = expected"
    unfolding build_transition_def by (elim vbindE) (auto simp: asks_def vraise_def split: if_splits)
  have "verified w ?s ?full"
  proof (cases "restore_exists ?s")
    case True
    then have "vbind (hash_file_bytes ?full) (\<lambda>h. vreturn (Some h)) w = (Inr h, w1)" using hash agree by simp
    then obtain h' where "hash_file_bytes ?full w = (Inr h', w1)" "h = Some h'" by (elim vbindE) (auto simp: vreturn_def)
    with hash_content obtain c where "file_bytes w ?full = Some c" "h = Some (sha256_hex c)" by blast
    then show ?thesis using True agree content_hash_checked [OF expected] by (auto simp: verified_def)
  next
    case False
    then show ?thesis using agree not_file_no_bytes by (simp add: verified_def)
  qed
  then show ?thesis using keepsD [OF same assms] by simp
qed

lemma transitions_verified:
  assumes "vfold (build_transition before_states sq) states transitions w = (Inr x, w')"
  shows "same_on UNIV w w' \<and> (\<forall>item\<in>set states. verified w (rs_request item) (rs_full_path item))"
  using assms
proof (induction states arbitrary: transitions w)
  case Nil
  then show ?case by (simp add: vreturn_def same_on_def)
next
  case (Cons item states)
  from Cons.prems obtain more w1 where one: "build_transition before_states sq item transitions w = (Inr more, w1)"
      and rest: "vfold (build_transition before_states sq) states more w1 = (Inr x, w')"
    by (auto elim: vbindE)
  note first = transition_verified [OF one] and later = Cons.IH [OF rest]
  have "verified w s full" if "verified w1 s full" for s full
    by (rule verified_left [OF _ that]) (use first same_world_bytes in \<open>auto simp: leaves_def\<close>)
  then show ?case using first later by (auto simp: same_on_def)
qed

section \<open>The operations around the restoration\<close>

lemma keeps_rmdir_left: "keeps (leaves full) (rmdir p)"
proof (rule keepsI)
  fix w r w'
  assume run: "rmdir p w = (r, w')"
  obtain f w1 where failure: "next_failure w = (Inr f, w1)" by (cases "w_failures w") (auto simp: next_failure_def)
  have same: "node_at w1 q = node_at w q" for q using keepsD [OF keeps_next_failure_on failure, of UNIV] by (simp add: same_on_def)
  have "file_bytes (drop_node p w1) full = file_bytes w1 full" if "is_dir w1 p"
    using that by (auto simp: file_bytes_def is_dir_def node_at_def drop_node_def delete_conv' split: option.splits node.splits if_splits)
  then show "leaves full w w'"
    using run failure same by (auto simp: rmdir_def vbind_def leaves_def file_bytes_def split: option.splits if_splits)
qed

lemma keeps_with_activity_on: "keeps (same_on S) (with_activity i created_at expires_at)"
  by (rule keepsI) (use with_activity_effect(1) same_on_mono in blast)

lemma keeps_finish_on: "keeps (same_on S) (finish_activity activity_id status rollback_status)"
  unfolding finish_activity_def by (intro on.keeps_bind keeps_clock_on keeps_session_on keeps_change_db_on)

lemma keeps_set_status_on: "keeps (same_on S) (set_activity_rollback_status activity_id status)"
  unfolding set_activity_rollback_status_def
  by (intro keeps_session_on on.keeps_bind on.keeps_asks)
    (auto intro!: on.keeps_combinators keeps_clock_on keeps_change_db_on split: option.splits)

text \<open>A path that does not lead to the identity file of the vault.\<close>

definition clear :: "vault_env \<Rightarrow> path \<Rightarrow> path \<Rightarrow> bool" where
  "clear e vault_root full \<longleftrightarrow> env_realpath e vault_root = vault_root \<and> \<not> is_below full (vault_metadata_path vault_root)"

lemma clear_root: "clear e vault_root full \<Longrightarrow> env_realpath e vault_root = vault_root"
  by (simp add: clear_def)

lemma keeps_identity_clear: "clear e vault_root full \<Longrightarrow> keeps (same_on {full}) (resolve_or_create_vault_identity e vault_root)"
  by (rule keeps_identity_on) (simp add: clear_def)

lemma keeps_refresh_clear: "clear e vault_root full \<Longrightarrow> keeps (same_on {full}) (refresh_vault e vault_root n)"
  by (rule keeps_refresh_on) (simp add: clear_def)

lemma keeps_favorites_clear: "clear e vault_root full \<Longrightarrow> keeps (same_on {full}) (remove_favorite_paths_in e vault_root paths)"
  unfolding remove_favorite_paths_in_def by (auto intro!: on.keeps_combinators keeps_identity_clear keeps_change_db_on)

lemma keeps_remove_favorites_clear: "clear e vault_root full \<Longrightarrow> keeps (same_on {full}) (remove_favorite_paths e vault_root paths)"
  unfolding remove_favorite_paths_def
  by (auto intro!: on.keeps_combinators keeps_identity_clear keeps_session_on keeps_change_db_on)

lemma keeps_batch_clear:
  "clear e vault_root full \<Longrightarrow>
    keeps (same_on {full}) (persist_mutation_batch e activity results vault_root operation_id created_at expires_at metadata)"
  unfolding persist_mutation_batch_def
  by (intro keeps_session_on on.keeps_bind keeps_with_activity_on keeps_change_db_on keeps_favorites_clear)

lemma keeps_ensure_clear: "clear e vault_root full \<Longrightarrow> keeps (same_on {full}) (ensure_activity e activity vault_root name created_at)"
  unfolding ensure_activity_def Let_def
  by (auto intro!: on.keeps_combinators keeps_identity_clear keeps_session_on keeps_change_db_on keeps_clock_on
    simp: clear_root split: option.splits)

lemma keeps_transition_clear: "clear e vault_root full \<Longrightarrow> keeps (same_on {full}) (record_directory_transition e c vault_root p backwards)"
  unfolding record_directory_transition_def record_vault_directory_mutation_def persist_or_log_mutation_def Let_def
  by (auto intro!: on.keeps_combinators keeps_identity_clear keeps_session_on keeps_change_db_on keeps_clock_on keeps_uuid_on
    keeps_ensure_clear keeps_with_activity_on simp: clear_root split: option.splits)

section \<open>The restoration\<close>

lemma transaction_run:
  assumes "run_file_state_restore_transaction e vault_root name items cap finalize w = (Inr x, w')"
  obtains ts sq w1 w2 where "build_file_state_transitions items cap sq w1 = (Inr ts, w2)" "finalize ts w2 = (Inr x, w')"
proof -
  let ?main = "vbind (apply_file_state_restores items) (\<lambda>_. vbind (refresh_vault e vault_root (Some name)) (\<lambda>refresh.
    vbind (build_file_state_transitions items cap (rr_latest_sequence refresh)) finalize))"
  obtain r1 w1 where main: "?main w = (r1, w1)" by fastforce
  have "r1 = Inr x \<and> w1 = w'"
  proof (cases r1)
    case (Inl exc)
    then show ?thesis
      using assms main
      by (auto simp: run_file_state_restore_transaction_def vtry_def vbind_def vraise_def split: sum.splits prod.splits vault_exn.splits)
  next
    case (Inr y)
    then show ?thesis using assms main by (simp add: run_file_state_restore_transaction_def vtry_def)
  qed
  then have "?main w = (Inr x, w')" using main by simp
  then show thesis using that by (elim vbindE) auto
qed

lemma temporary_run:
  assumes "with_temporary_directory temp_root m w = (Inr x, w')"
  obtains w1 w2 where "m w1 = (Inr x, w2)" "\<And>p. \<not> is_below temp_root p \<Longrightarrow> node_at w' p = node_at w2 p"
proof -
  obtain f w0 where failure: "next_failure w = (Inr f, w0)" by (cases "w_failures w") (auto simp: next_failure_def)
  then obtain w2 where "m (put_node temp_root NDir w0) = (Inr x, w2)"
      and w': "w' = w2\<lparr>w_fs := filter (\<lambda>(p, _). \<not> is_below temp_root p) (w_fs w2)\<rparr>"
    using assms by (cases f) (auto simp: with_temporary_directory_def vbind_def split: prod.splits)
  then show thesis using that node_without_temp unfolding w' by blast
qed

lemma restoration_verified:
  assumes root: "env_realpath e vault_root = vault_root"
    and run: "restore_vault_file_states e c temp_root vault_root states operation metadata w = (Inr results, w')"
  obtains items where "resolve_file_state_restores e vault_root states = Inr items"
    and "\<And>item. item \<in> set items \<Longrightarrow> clear e vault_root (rs_full_path item) \<Longrightarrow> \<not> is_below temp_root (rs_full_path item) \<Longrightarrow>
      verified w' (rs_request item) (rs_full_path item)"
proof -
  from run obtain activity items where items: "resolve_file_state_restores e vault_root states = Inr items"
      and locked: "restore_vault_file_states_locked e temp_root vault_root items operation metadata activity w = (Inr results, w')"
    by (auto simp: restore_vault_file_states_def root Let_def vraise_def split: if_splits option.splits sum.splits)
  from locked obtain ident created uuid cap w1 w2 where
      final: "run_file_state_restore_transaction e vault_root (last vault_root) items cap (\<lambda>transitions.
         let results = build_recorded_restore_results transitions cap ident (last vault_root) operation (ac_task_id activity)
         in vbind (persist_mutation_batch e activity results vault_root (''operation_'' @ uuid) created
              (compute_task_mutation_expiration e created) metadata) (\<lambda>_. vreturn results)) w1 = (Inr results, w2)"
      and after: "\<And>p. \<not> is_below temp_root p \<Longrightarrow> node_at w' p = node_at w2 p"
    unfolding restore_vault_file_states_locked_def Let_def
    by (elim vbindE) (auto elim!: temporary_run vbindE)
  from final obtain ts sq w3 w4 where built: "build_file_state_transitions items cap sq w3 = (Inr ts, w4)"
      and rest: "(let results = build_recorded_restore_results ts cap ident (last vault_root) operation (ac_task_id activity)
         in vbind (persist_mutation_batch e activity results vault_root (''operation_'' @ uuid) created
              (compute_task_mutation_expiration e created) metadata) (\<lambda>_. vreturn results)) w4 = (Inr results, w2)"
    by (rule transaction_run)
  note checked = transitions_verified [OF built [unfolded build_file_state_transitions_def]]
  show thesis
  proof (rule that [OF items])
    fix item
    assume item: "item \<in> set items" "clear e vault_root (rs_full_path item)" "\<not> is_below temp_root (rs_full_path item)"
    let ?full = "rs_full_path item"
    have "keeps (same_on {?full}) (let results = build_recorded_restore_results ts cap ident (last vault_root) operation (ac_task_id activity)
         in vbind (persist_mutation_batch e activity results vault_root (''operation_'' @ uuid) created
              (compute_task_mutation_expiration e created) metadata) (\<lambda>_. vreturn results))"
      unfolding Let_def by (intro on.keeps_bind on.keeps_return keeps_batch_clear [OF item(2)])
    from keepsD [OF this rest] have "node_at w2 ?full = node_at w4 ?full" by (simp add: same_on_def)
    moreover have "node_at w4 ?full = node_at w3 ?full" using checked by (simp add: same_on_def)
    ultimately have "leaves ?full w3 w'" using after item(3) by (simp add: leaves_def file_bytes_def)
    then show "verified w' (rs_request item) ?full" using checked item(1) verified_left by blast
  qed
qed

section \<open>The execution\<close>

lemma attempt_Inr: "attempt m w = (Inr (Inr x), w') \<longleftrightarrow> m w = (Inr x, w')"
  by (auto simp: attempt_def vtry_def vbind_def vreturn_def split: prod.splits sum.splits)

lemma keeps_attempt_left: "keeps (leaves full) m \<Longrightarrow> keeps (leaves full) (attempt m)"
  unfolding attempt_def by (intro left.keeps_combinators)

lemma keeps_change_left:
  assumes "\<And>p. keeps (leaves full) (change p)" and "\<And>p. keeps (leaves full) (record_change p)"
  shows "keeps (leaves full) (change_directories change record_change vault_root ps changed)"
proof (induction ps arbitrary: changed)
  case Nil
  then show ?case by (simp add: left.keeps_return)
next
  case (Cons p ps)
  show ?case
    unfolding change_directories.simps
    by (intro left.keeps_bind keeps_attempt_left assms)
      (auto intro!: left.keeps_combinators keeps_attempt_left assms Cons.IH split: sum.splits)
qed

lemma undo_raises: "undo_activity_states e c temp_root vault_root created gone results cause w \<noteq> (Inr x, w')"
  unfolding undo_activity_states_def by (auto simp: vraise_def elim: vbindE)

lemma states_restored:
  assumes root: "env_realpath e vault_root = vault_root" and some: "states \<noteq> []"
    and run: "restore_activity_states e c temp_root vault_root plan states w = (Inr x, w')"
  obtains items where "resolve_file_state_restores e vault_root states = Inr items"
    and "\<And>item. item \<in> set items \<Longrightarrow> clear e vault_root (rs_full_path item) \<Longrightarrow> \<not> is_below temp_root (rs_full_path item) \<Longrightarrow>
      verified w' (rs_request item) (rs_full_path item)"
proof -
  define directories where "directories = sort_key (\<lambda>p. length (path_parts (ap_path p)))
    (filter (\<lambda>p. ap_target_kind p = ''directory'' \<and> ap_restore_exists p \<noteq> ap_expected_exists p) (an_paths plan))"
  define record_change where "record_change = (\<lambda>p. record_directory_transition e c vault_root p False)"
  from run obtain w1 w2 results gone w3 w4 y where
      restoration: "restore_vault_file_states e c temp_root vault_root states ''rollback_activity''
        [(''source_activity_id'', JStr (an_activity_id plan))] w1 = (Inr results, w2)"
      and removal: "change_directories rmdir record_change vault_root (filter (\<lambda>p. \<not> ap_restore_exists p) (rev directories)) [] w2
        = (Inr (gone, None), w3)"
      and favorites: "(if gone = [] then vreturn () else remove_favorite_paths e vault_root (map ap_path gone)) w3 = (Inr (), w4)"
      and refresh: "refresh_vault e vault_root (Some (an_vault_name plan)) w4 = (Inr y, w')"
    unfolding restore_activity_states_def Let_def directories_def [symmetric] record_change_def [symmetric]
    by (elim vbindE) (auto simp: some undo_raises attempt_Inr vreturn_def elim!: vbindE split: option.splits sum.splits prod.splits)
  from restoration_verified [OF root restoration] obtain items where items: "resolve_file_state_restores e vault_root states = Inr items"
      and checked: "\<And>item. item \<in> set items \<Longrightarrow> clear e vault_root (rs_full_path item) \<Longrightarrow> \<not> is_below temp_root (rs_full_path item) \<Longrightarrow>
        verified w2 (rs_request item) (rs_full_path item)" by blast
  show thesis
  proof (rule that [OF items])
    fix item
    assume item: "item \<in> set items" "clear e vault_root (rs_full_path item)" "\<not> is_below temp_root (rs_full_path item)"
    let ?full = "rs_full_path item"
    have "leaves ?full w2 w3"
      by (rule keepsD [OF keeps_change_left removal])
        (simp_all add: record_change_def keeps_rmdir_left keeps_leaves keeps_transition_clear [OF item(2)])
    moreover have "leaves ?full w3 w4"
      using keepsD [OF keeps_leaves [OF keeps_remove_favorites_clear [OF item(2)]]] favorites
      by (auto simp: vreturn_def leaves_def split: if_splits)
    moreover have "leaves ?full w4 w'" by (rule keepsD [OF keeps_leaves [OF keeps_refresh_clear [OF item(2)]] refresh])
    ultimately show "verified w' (rs_request item) ?full" using checked [OF item] verified_left by blast
  qed
qed

lemma rollback_run:
  assumes root: "env_realpath e vault_root = vault_root" and some: "file_restores plan \<noteq> []"
    and run: "run_activity_rollback e task temp_root vault_root activity_id plan w = (Inr result, w')"
  obtains items where "resolve_file_state_restores e vault_root (file_restores plan) = Inr items"
    and "\<And>item. item \<in> set items \<Longrightarrow> clear e vault_root (rs_full_path item) \<Longrightarrow> \<not> is_below temp_root (rs_full_path item) \<Longrightarrow>
      verified w' (rs_request item) (rs_full_path item)"
proof -
  from run obtain c w1 x w2 rid y w3 z where
      restore: "restore_activity_states e c temp_root vault_root plan (file_restores plan) w1 = (Inr x, w2)"
      and finish: "finish_activity rid ''completed'' None w2 = (Inr y, w3)"
      and mark: "set_activity_rollback_status activity_id ''completed'' w3 = (Inr z, w')"
    unfolding run_activity_rollback_def Let_def
    by (elim vbindE) (auto simp: vtry_def vreturn_def vraise_def vbind_def split: prod.splits sum.splits)
  from states_restored [OF root some restore] obtain items where
      items: "resolve_file_state_restores e vault_root (file_restores plan) = Inr items"
      and checked: "\<And>item. item \<in> set items \<Longrightarrow> clear e vault_root (rs_full_path item) \<Longrightarrow> \<not> is_below temp_root (rs_full_path item) \<Longrightarrow>
        verified w2 (rs_request item) (rs_full_path item)" by blast
  have "leaves full w2 w'" for full
    using keepsD [OF keeps_leaves [OF keeps_finish_on] finish] keepsD [OF keeps_leaves [OF keeps_set_status_on] mark]
    by (simp add: leaves_def)
  with items checked that verified_left show thesis by blast
qed

section \<open>The plan\<close>

lemma snapshot_planned:
  assumes "resolve_rollback_snapshot e path row snapshots now w = (Inr (found, None), w')" and "vm_target_kind row = ''file''"
  shows "(found \<noteq> None \<longleftrightarrow> vm_before_exists row) \<and> (vm_before_exists row \<longrightarrow> vm_before_hash row \<noteq> None)"
  using assms unfolding resolve_rollback_snapshot_def Let_def recorded_directory_state_def
  by (auto simp: vreturn_def asks_def elim!: vbindE simp: eq_commute [of "Some _" "vm_before_hash row"] split: if_splits option.splits)

lemma path_planned:
  assumes "plan_rollback_path e vault_root path rows snapshots now w = (Inr (p, []), w')"
  shows "ap_path p = path \<and> ap_target_kind p = vm_target_kind (hd rows) \<and> ap_restore_exists p = vm_before_exists (hd rows) \<and>
    ap_restore_sha256 p = vm_before_hash (hd rows) \<and>
    (vm_target_kind (hd rows) = ''file'' \<longrightarrow>
      (ap_snapshot_path p \<noteq> None \<longleftrightarrow> vm_before_exists (hd rows)) \<and> (vm_before_exists (hd rows) \<longrightarrow> vm_before_hash (hd rows) \<noteq> None))"
proof -
  from assms obtain found issue w1 where snap: "resolve_rollback_snapshot e path (hd rows) snapshots now w = (Inr (found, issue), w1)"
      and p: "ap_path p = path \<and> ap_target_kind p = vm_target_kind (hd rows) \<and> ap_restore_exists p = vm_before_exists (hd rows) \<and>
        ap_restore_sha256 p = vm_before_hash (hd rows) \<and> ap_snapshot_path p = found" and none: "issue = None"
    unfolding plan_rollback_path_def Let_def by (elim vbindE) (auto simp: vreturn_def elim!: vbindE split: prod.splits option.splits)
  then show ?thesis using snapshot_planned [OF snap [unfolded none]] by simp
qed

definition plan_one ::
  "vault_env \<Rightarrow> path \<Rightarrow> FileSnapshot list \<Rightarrow> datetime \<Rightarrow> string \<times> VaultMutation list \<Rightarrow>
    ActivityRollbackPath list \<times> ActivityRollbackIssue list \<Rightarrow> (ActivityRollbackPath list \<times> ActivityRollbackIssue list) io" where
  "plan_one e vault_root snapshots now = (\<lambda>(path, path_rows) (paths, issues).
     vbind (plan_rollback_path e vault_root path path_rows snapshots now) (\<lambda>(planned_path, path_issues).
     vreturn (paths @ [planned_path], issues @ path_issues)))"

lemma all_planned:
  assumes "vfold (plan_one e vault_root snapshots now) xs (ps, found) w = (Inr (ps', []), w')"
  shows "set ps \<subseteq> set ps' \<and> found = [] \<and>
    (\<forall>(path, rows)\<in>set xs. \<exists>p\<in>set ps'. \<exists>w1 w2. plan_rollback_path e vault_root path rows snapshots now w1 = (Inr (p, []), w2))"
  using assms
proof (induction xs arbitrary: ps found w)
  case Nil
  then show ?case by (simp add: vreturn_def)
next
  case (Cons x xs)
  obtain path rows where x: "x = (path, rows)" by fastforce
  from Cons.prems obtain p issues w1 where
      one: "plan_rollback_path e vault_root path rows snapshots now w = (Inr (p, issues), w1)"
      and rest: "vfold (plan_one e vault_root snapshots now) xs (ps @ [p], found @ issues) w1 = (Inr (ps', []), w')"
    unfolding x vfold.simps
    by (elim vbindE) (auto simp: plan_one_def vreturn_def elim!: vbindE split: prod.splits)
  from Cons.IH [OF rest] one show ?case unfolding x by auto
qed

lemma preview_plan:
  assumes root: "env_realpath e vault_root = vault_root"
    and run: "preview_activity_rollback e vault_root activity_id w = (Inr plan, w')" and can: "an_can_rollback plan"
    and mem: "(path, rows) \<in> set (group_rows_by_path (activity_rows activity_id (w_db w)))"
  obtains p where "p \<in> set (an_paths plan)" "ap_path p = path" "ap_target_kind p = vm_target_kind (hd rows)"
    "ap_restore_exists p = vm_before_exists (hd rows)" "ap_restore_sha256 p = vm_before_hash (hd rows)"
    "vm_target_kind (hd rows) = ''file'' \<Longrightarrow>
      (ap_snapshot_path p \<noteq> None \<longleftrightarrow> vm_before_exists (hd rows)) \<and> (vm_before_exists (hd rows) \<longrightarrow> vm_before_hash (hd rows) \<noteq> None)"
proof -
  from run can obtain now w1 snapshots found w3 w4 where
      clock: "utc_now w = (Inr now, w1)"
      and plan: "vfold (plan_one e vault_root snapshots now) (group_rows_by_path (activity_rows activity_id (w_db w1))) ([], found) w3
        = (Inr (an_paths plan, []), w4)"
    unfolding preview_activity_rollback_def Let_def root plan_one_def [symmetric] load_rollback_records_def
    by (elim vbindE) (auto simp: vreturn_def asks_def vraise_def elim!: vbindE split: prod.splits option.splits if_splits)
  have "w_db w1 = w_db w" using keepsD [OF rows.keeps_clock clock] by simp
  then obtain p u v where p: "p \<in> set (an_paths plan)" and one: "plan_rollback_path e vault_root path rows snapshots now u = (Inr (p, []), v)"
    using all_planned [OF plan] mem by auto
  show thesis by (rule that [OF p]) (use path_planned [OF one] in auto)
qed

lemma resolved_items:
  assumes "resolve_file_state_restores_from e vault_root seen states = Inr items" and "s \<in> set states"
  shows "\<exists>item\<in>set items. rs_request item = s \<and>
    resolve_vault_relative_path (env_realpath e) vault_root (normalize_vault_relative_path (fr_path s)) False = Inr (rs_full_path item)"
  using assms
  by (induction states arbitrary: seen items) (auto simp: Let_def split: if_splits sum.splits)

text \<open>
  C4. A rollback of an activity that reports success has given every file back the state from before the activity. For every
  path of the journal of the activity that was a file, however often the activity has changed it: when its first row says
  that the file was there, it is there with content of the recorded hash; when the first row says that it was not, it is gone. This
  holds for all failures of calls, with directories made and removed around the files.
\<close>

theorem activity_rollback_restores:
  assumes "env_realpath e (env_realpath e vault_path) = env_realpath e vault_path"
    and "execute_activity_rollback e task temp_root vault_path activity_id expected_states w = (Inr (Inr result), w')"
    and "(path, rows) \<in> set (group_rows_by_path (activity_rows activity_id (w_db w)))" and "vm_target_kind (hd rows) = ''file''"
    and "resolve_vault_relative_path (env_realpath e) (env_realpath e vault_path) (normalize_vault_relative_path path) False = Inr full"
    and "\<not> is_below full (vault_metadata_path (env_realpath e vault_path))" and "\<not> is_below temp_root full"
  shows "if vm_before_exists (hd rows) then \<exists>c. file_bytes w' full = Some c \<and> vm_before_hash (hd rows) = Some (sha256_hex c)
    else file_bytes w' full = None"
  using assms(2)
proof (cases rule: execution_cases)
  case (ran plan result w1)
  let ?root = "env_realpath e vault_path"
  from ran(2) obtain p where p: "p \<in> set (an_paths plan)" "ap_path p = path" "ap_target_kind p = ''file''"
      "ap_restore_exists p = vm_before_exists (hd rows)" "ap_restore_sha256 p = vm_before_hash (hd rows)"
      "(ap_snapshot_path p \<noteq> None \<longleftrightarrow> vm_before_exists (hd rows)) \<and> (vm_before_exists (hd rows) \<longrightarrow> vm_before_hash (hd rows) \<noteq> None)"
    using preview_plan [OF assms(1) ran(2,3) assms(3)] assms(4) by metis
  define s where "s = \<lparr>fr_path = ap_path p, fr_expected_exists = ap_expected_exists p, fr_expected_sha256 = ap_expected_sha256 p,
    fr_content = None, fr_content_path = ap_snapshot_path p, fr_content_sha256 = ap_restore_sha256 p\<rparr>"
  have s: "s \<in> set (file_restores plan)" using p(1,3) by (auto simp: file_restores_def s_def)
  then have "file_restores plan \<noteq> []" by auto
  from rollback_run [OF assms(1) this ran(5)] obtain items where
      items: "resolve_file_state_restores e ?root (file_restores plan) = Inr items"
      and checked: "\<And>item. item \<in> set items \<Longrightarrow> clear e ?root (rs_full_path item) \<Longrightarrow> \<not> is_below temp_root (rs_full_path item) \<Longrightarrow>
        verified w' (rs_request item) (rs_full_path item)" by blast
  from resolved_items [OF items [unfolded resolve_file_state_restores_def] s] assms(5) p(2)
  have "\<exists>item\<in>set items. rs_request item = s \<and> rs_full_path item = full" by (auto simp: s_def)
  then have "verified w' s full" using checked assms(1,6,7) by (auto simp: clear_def)
  then show ?thesis using p(5,6) by (auto simp: verified_def s_def restore_exists_def)
qed simp

text \<open>The rollback runs, and the note that the activity made is gone.\<close>

theorem activity_rollback_restores_witness:
  "\<exists>result w'. execute_activity_rollback example_env None [''tmp''] [''vault''] ''a1'' [(''a.md'', True, Some (sha256_hex ''new''))] created_world =
     (Inr (Inr result), w') \<and> file_bytes created_world [''vault'', ''a.md''] = Some ''new'' \<and> file_bytes w' [''vault'', ''a.md''] = None"
proof -
  let ?w0 = "created_world\<lparr>w_clock_reads := 6\<rparr>"
  obtain plan where preview: "preview_activity_rollback example_env [''vault''] ''a1'' created_world = (Inr plan, ?w0)"
      and plan: "an_can_rollback plan" "an_vault_name plan = ''vault''" "an_paths plan = [created_path]"
    using created_preview by (auto simp: created_path_def)
  obtain w1 a w2 w3 where start: "fresh_uuid ?w0 = (Inr ''0'', w1)"
     "ensure_activity example_env (rollback_context plan) [''vault''] (Some ''vault'') None w1 = (Inr a, w2)"
     "update_activity_metadata ''activity_0'' [(''source_activity_id'', JStr ''a1'')] w2 = (Inr (), w3)"
      and w3: "w_fs w3 = vault_files @ [([''vault'', ''a.md''], NFile ''new'' 2)]" "w_failures w3 = []"
      "map va_activity_id (db_activities (w_db w3)) = [''a1'', ''activity_0'']"
      "db_vaults (w_db w3) = []" "db_files (w_db w3) = []" "db_events (w_db w3) = []" "db_favorites (w_db w3) = []"
      "db_snapshot_sets (w_db w3) = []" "db_file_snapshots (w_db w3) = []"
    using created_started [of plan] by (elim exE conjE) (rule that)
  obtain w4 where restore: "restore_activity_states example_env \<lparr>mc_task = None, mc_activity = Some (rollback_context plan)\<rparr> [''tmp''] [''vault''] plan
      (file_restores plan) w3 = (Inr (), w4)" "w_failures w4 = []" "map va_activity_id (db_activities (w_db w4)) = [''a1'', ''activity_0'']"
    using created_restored [OF plan(3,2) w3] by (elim exE conjE) (rule that)
  obtain w5 where finish: "finish_activity ''activity_0'' ''completed'' None w4 = (Inr (), w5)" "w_failures w5 = []"
      "map va_activity_id (db_activities (w_db w5)) = [''a1'', ''activity_0'']"
    using finish_run [OF restore(2), of "''activity_0''" "''completed''"] unfolding restore(3) by (elim exE conjE) (rule that)
  have "''a1'' \<in> set (map va_activity_id (db_activities (w_db w5)))" by (simp only: finish) simp
  from set_status_run [OF finish(2) this] obtain w' where mark: "set_activity_rollback_status ''a1'' ''completed'' w5 = (Inr (), w')" ..
  have "states_confirmed [(''a.md'', True, Some (sha256_hex ''new''))] plan" by (simp add: states_confirmed_def plan created_path_def)
  then obtain result where run: "execute_activity_rollback example_env None [''tmp''] [''vault''] ''a1'' [(''a.md'', True, Some (sha256_hex ''new''))] created_world =
     (Inr (Inr result), w')"
    using plan start restore(1) finish(1) mark preview
    by (simp add: execute_activity_rollback_def run_activity_rollback_def Let_def vbind_def vtry_def vreturn_def example_env_fields)
  have "file_bytes w' [''vault'', ''a.md''] = None"
    using activity_rollback_restores [of example_env "[''vault'']" None "[''tmp'']" "''a1''" _ created_world result w' "''a.md''" "[created_row]"
      "[''vault'', ''a.md'']", OF _ run]
    by (simp add: example_env_fields created_row_fields example_names activity_rows_def created_group vault_metadata_path_def is_below_def)
  then show ?thesis using run by (simp add: file_bytes_def node_at_def vault_files_def)
qed

end
