(* ===== verification/Chat_Events.thy ===== *)
theory Chat_Events
  imports Execution_Tasks
begin

text \<open>
  The event buffers of chat tasks, core/chat/task_events.py: streams of events with replay from a cursor, the compact
  projection of a stream for clients that attach again, and the subscriptions. An \<open>asyncio.Event\<close> is a number; the buffer
  has the numbers that were set. The sections under the buffer's lock do not await, so each method is one step; a
  subscription is a state machine whose steps lie between its awaits and yields. Event data are values: the copies
  the code makes are not visible.
\<close>

section \<open>Events and projections\<close>

definition CHAT_TASK_TERMINAL_EVENTS :: "string list" where
  "CHAT_TASK_TERMINAL_EVENTS = [''done'', ''cancelled'', ''error'', ''chat_retry_redirect'']"

definition CHAT_TASK_PROJECTED_EVENTS :: "string list" where
  "CHAT_TASK_PROJECTED_EVENTS =
     [''delta'', ''thinking_delta'', ''chat_recovery_rejected'', ''chat_recovery_checkpoint_selected'', ''chat_retry_scheduled'',
      ''mcp_connection_unavailable'', ''tool_call_started'', ''tool_call_finished'', ''review_required''] @ CHAT_TASK_TERMINAL_EVENTS"

text \<open>\<open>ChatTaskEventCursorExpired\<close> with its attributes, and the exceptions of \<open>append\<close>.\<close>

datatype chat_event_exn =
    ChatTaskEventCursorExpired string int int int
  | ChatEventError pyexn

record ChatTaskEvent =
  ce_task_id :: string
  ce_sequence :: int
  ce_event :: string
  ce_data :: metadata
  ce_created_at :: datetime

definition ce_is_terminal :: "ChatTaskEvent \<Rightarrow> bool" where
  "ce_is_terminal e \<longleftrightarrow> ce_event e \<in> set CHAT_TASK_TERMINAL_EVENTS"

record ChatTaskReplaySnapshot =
  rs_task_id :: string
  rs_latest_sequence :: int
  rs_terminal :: bool
  rs_available :: bool
  rs_events :: "ChatTaskEvent list"

record ProjectedToolState =
  pt_started_event :: "ChatTaskEvent option"
  pt_latest_event :: ChatTaskEvent

record ChatTaskReplayProjection =
  pj_response_text :: string
  pj_response_event :: "ChatTaskEvent option"
  pj_reasoning_text :: string
  pj_reasoning_event :: "ChatTaskEvent option"
  pj_tool_events :: "(string, ProjectedToolState) dict"
  pj_review_event :: "ChatTaskEvent option"
  pj_terminal_event :: "ChatTaskEvent option"
  pj_latest_sequence :: int
  pj_available :: bool

definition new_projection :: ChatTaskReplayProjection where
  "new_projection = \<lparr>pj_response_text = [], pj_response_event = None, pj_reasoning_text = [], pj_reasoning_event = None,
     pj_tool_events = [], pj_review_event = None, pj_terminal_event = None, pj_latest_sequence = 0, pj_available = True\<rparr>"

record ChatTaskEventStream =
  es_task_id :: string
  es_events :: "ChatTaskEvent list"
  es_changed :: nat
  es_next_sequence :: int
  es_terminal_sequence :: "int option"
  es_projection :: ChatTaskReplayProjection

definition new_stream :: "string \<Rightarrow> nat \<Rightarrow> ChatTaskEventStream" where
  "new_stream task_id changed = \<lparr>es_task_id = task_id, es_events = [], es_changed = changed, es_next_sequence = 1,
     es_terminal_sequence = None, es_projection = new_projection\<rparr>"

record ChatTaskEventBuffer =
  eb_max_events :: nat
  eb_max_terminal :: nat
  eb_max_tools :: nat
  eb_streams :: "(string, ChatTaskEventStream) dict"
  eb_terminal_order :: "string list"
  eb_next_changed :: nat
  eb_set :: "nat list"

definition new_event_buffer :: "int \<Rightarrow> int \<Rightarrow> int \<Rightarrow> ChatTaskEventBuffer result" where
  "new_event_buffer max_events_per_task max_terminal_tasks max_projected_tools_per_task =
     (if max_events_per_task < 1 then Inl (ValueError ''max_events_per_task must be at least 1'')
      else if max_terminal_tasks < 1 then Inl (ValueError ''max_terminal_tasks must be at least 1'')
      else if max_projected_tools_per_task < 1 then Inl (ValueError ''max_projected_tools_per_task must be at least 1'')
      else Inr \<lparr>eb_max_events = nat max_events_per_task, eb_max_terminal = nat max_terminal_tasks,
        eb_max_tools = nat max_projected_tools_per_task, eb_streams = [], eb_terminal_order = [], eb_next_changed = 0, eb_set = []\<rparr>)"

section \<open>The projection\<close>

definition response_delta_content :: "metadata \<Rightarrow> string" where
  "response_delta_content data =
     (case meta_get data ''choices'' of
        JList (JDict first # _) \<Rightarrow>
          (case meta_get first ''delta'' of
             JDict delta \<Rightarrow> (case meta_get delta ''content'' of JStr content \<Rightarrow> content | _ \<Rightarrow> [])
           | _ \<Rightarrow> [])
      | _ \<Rightarrow> [])"

definition reasoning_delta_content :: "metadata \<Rightarrow> string" where
  "reasoning_delta_content data =
     (case meta_get data ''delta'' of
        JDict delta \<Rightarrow> (case meta_get delta ''content'' of JStr content \<Rightarrow> content | _ \<Rightarrow> [])
      | _ \<Rightarrow> [])"

text \<open>\<open>dict.setdefault\<close>: the value and the dictionary.\<close>

definition setdefault :: "string \<Rightarrow> json \<Rightarrow> metadata \<Rightarrow> json \<times> metadata" where
  "setdefault k v d = (case map_of d k of Some old \<Rightarrow> (old, d) | None \<Rightarrow> (v, AList.update k v d))"

definition set_content :: "string \<Rightarrow> json \<Rightarrow> json result" where
  "set_content content delta =
     (case delta of
        JDict d \<Rightarrow> Inr (JDict (AList.update ''content'' (JStr content) d))
      | _ \<Rightarrow> Inl (TypeError ''delta''))"

definition coalesced_response_event :: "ChatTaskEvent \<Rightarrow> string \<Rightarrow> ChatTaskEvent result" where
  "coalesced_response_event source content =
     (let (choices, data) = setdefault ''choices'' (JList [JDict []]) (ce_data source)
      in case choices of
           JList (JDict first # others) \<Rightarrow>
             (let (delta, first) = setdefault ''delta'' (JDict []) first
              in rbind (set_content content delta) (\<lambda>delta.
                 Inr (source\<lparr>ce_data := AList.update ''choices'' (JList (JDict (AList.update ''delta'' delta first) # others)) data\<rparr>)))
         | _ \<Rightarrow> Inl (TypeError ''choices''))"

definition coalesced_reasoning_event :: "ChatTaskEvent \<Rightarrow> string \<Rightarrow> ChatTaskEvent result" where
  "coalesced_reasoning_event source content =
     (let (delta, data) = setdefault ''delta'' (JDict []) (ce_data source)
      in rbind (set_content content delta) (\<lambda>delta. Inr (source\<lparr>ce_data := AList.update ''delta'' delta data\<rparr>)))"

definition reset_projected_response :: "ChatTaskReplayProjection \<Rightarrow> ChatTaskReplayProjection" where
  "reset_projected_response p =
     p\<lparr>pj_response_text := [], pj_response_event := None, pj_reasoning_text := [], pj_reasoning_event := None\<rparr>"

definition SAFE_TOOL_EVENT_KEYS :: "string list" where
  "SAFE_TOOL_EVENT_KEYS = [''event'', ''tool_call_id'', ''tool_name'', ''outcome'', ''terminal_state'', ''token_count'']"

definition safe_tool_event :: "ChatTaskEvent \<Rightarrow> ChatTaskEvent" where
  "safe_tool_event source = source\<lparr>ce_data := filter (\<lambda>(k, _). k \<in> set SAFE_TOOL_EVENT_KEYS) (ce_data source)\<rparr>"

definition event_tool_call_id :: "metadata \<Rightarrow> string" where
  "event_tool_call_id data = (let v = meta_get data ''tool_call_id'' in strip (if truthy v then py_str v else []))"

definition project_tool :: "nat \<Rightarrow> ChatTaskEvent \<Rightarrow> (string, ProjectedToolState) dict \<Rightarrow> (string, ProjectedToolState) dict" where
  "project_tool max_tools e tools =
     (let tool_call_id = event_tool_call_id (ce_data e)
      in if tool_call_id = [] then tools
         else let kept = (if map_of tools tool_call_id = None \<and> max_tools \<le> length tools then tl tools else tools);
                  safe_event = safe_tool_event e
              in AList.update tool_call_id
                   \<lparr>pt_started_event = (if ce_event e = ''tool_call_started'' then Some safe_event
                      else Option.bind (map_of kept tool_call_id) pt_started_event),
                    pt_latest_event = safe_event\<rparr> kept)"

definition resets_response :: "ChatTaskEvent \<Rightarrow> bool" where
  "resets_response e \<longleftrightarrow> meta_get (ce_data e) ''reset_response'' = JBool True"

definition reduce_projection :: "nat \<Rightarrow> ChatTaskEvent \<Rightarrow> ChatTaskReplayProjection \<Rightarrow> ChatTaskReplayProjection" where
  "reduce_projection max_tools e projection =
     (let p = projection\<lparr>pj_latest_sequence := ce_sequence e\<rparr>
      in if ce_event e \<notin> set CHAT_TASK_PROJECTED_EVENTS then p\<lparr>pj_available := False\<rparr>
         else if ce_event e = ''delta''
         then let content = response_delta_content (ce_data e)
              in if content = [] then p else p\<lparr>pj_response_text := pj_response_text p @ content, pj_response_event := Some e\<rparr>
         else if ce_event e = ''thinking_delta''
         then let content = reasoning_delta_content (ce_data e)
              in if content = [] then p else p\<lparr>pj_reasoning_text := pj_reasoning_text p @ content, pj_reasoning_event := Some e\<rparr>
         else if ce_event e = ''chat_retry_scheduled''
         then if resets_response e then reset_projected_response p else p
         else if ce_event e \<in> {''tool_call_started'', ''tool_call_finished''}
         then p\<lparr>pj_tool_events := project_tool max_tools e (pj_tool_events p)\<rparr>
         else if ce_event e = ''review_required'' then p\<lparr>pj_review_event := Some e\<rparr>
         else if ce_event e \<in> set CHAT_TASK_TERMINAL_EVENTS
         then (if resets_response e then reset_projected_response p else p)\<lparr>pj_terminal_event := Some e\<rparr>
         else p)"

text \<open>The events of a snapshot, in the order of their sequence numbers.\<close>

definition tool_events_of :: "ProjectedToolState \<Rightarrow> ChatTaskEvent list" where
  "tool_events_of t =
     (case pt_started_event t of None \<Rightarrow> [] | Some e \<Rightarrow> [e]) @
     (if pt_started_event t \<noteq> Some (pt_latest_event t) then [pt_latest_event t] else [])"

definition coalesced :: "(ChatTaskEvent \<Rightarrow> string \<Rightarrow> ChatTaskEvent result) \<Rightarrow> ChatTaskEvent option \<Rightarrow> string \<Rightarrow> ChatTaskEvent list result" where
  "coalesced coalesce source content =
     (case source of
        Some e \<Rightarrow> if content = [] then Inr [] else rbind (coalesce e content) (\<lambda>e. Inr [e])
      | None \<Rightarrow> Inr [])"

definition projected_events :: "ChatTaskReplayProjection \<Rightarrow> ChatTaskEvent list result" where
  "projected_events p =
     rbind (coalesced coalesced_reasoning_event (pj_reasoning_event p) (pj_reasoning_text p)) (\<lambda>reasoning.
     rbind (coalesced coalesced_response_event (pj_response_event p) (pj_response_text p)) (\<lambda>response.
     Inr (sort_key ce_sequence (reasoning @ response @ concat (map (tool_events_of \<circ> snd) (pj_tool_events p)) @
       (case pj_review_event p of None \<Rightarrow> [] | Some e \<Rightarrow> [e]) @
       (case pj_terminal_event p of None \<Rightarrow> [] | Some e \<Rightarrow> [e])))))"

section \<open>The buffer\<close>

definition raise_if_cursor_expired :: "ChatTaskEventStream \<Rightarrow> int \<Rightarrow> chat_event_exn option" where
  "raise_if_cursor_expired stream after_sequence =
     (case es_events stream of
        [] \<Rightarrow> None
      | oldest # _ \<Rightarrow>
          if after_sequence \<ge> ce_sequence oldest - 1 then None
          else Some (ChatTaskEventCursorExpired (es_task_id stream) after_sequence (ce_sequence oldest)
            (ce_sequence (List.last (es_events stream)))))"

definition trim_stream_events :: "nat \<Rightarrow> ChatTaskEvent list \<Rightarrow> ChatTaskEvent list" where
  "trim_stream_events max_events events = drop (length events - max_events) events"

fun evict_streams :: "nat \<Rightarrow> string list \<Rightarrow> (string, ChatTaskEventStream) dict \<Rightarrow> string list \<times> (string, ChatTaskEventStream) dict" where
  "evict_streams max_terminal [] streams = ([], streams)"
| "evict_streams max_terminal (stale # order) streams =
     (if length (stale # order) \<le> max_terminal then (stale # order, streams)
      else evict_streams max_terminal order
        (case map_of streams stale of
           None \<Rightarrow> streams
         | Some stream \<Rightarrow> if es_terminal_sequence stream = None then streams else AList.delete stale streams))"

definition remember_ended :: "string \<Rightarrow> ChatTaskEventBuffer \<Rightarrow> ChatTaskEventBuffer" where
  "remember_ended task_id b =
     (let (order, streams) = evict_streams (eb_max_terminal b) (remove1 task_id (eb_terminal_order b) @ [task_id]) (eb_streams b)
      in b\<lparr>eb_terminal_order := order, eb_streams := streams\<rparr>)"

text \<open>The stream of a task, made when there is none.\<close>

definition stream_of :: "string \<Rightarrow> ChatTaskEventBuffer \<Rightarrow> ChatTaskEventStream \<times> ChatTaskEventBuffer" where
  "stream_of task_id b =
     (case map_of (eb_streams b) task_id of
        Some stream \<Rightarrow> (stream, b)
      | None \<Rightarrow>
          let stream = new_stream task_id (eb_next_changed b)
          in (stream, b\<lparr>eb_streams := AList.update task_id stream (eb_streams b), eb_next_changed := Suc (eb_next_changed b)\<rparr>))"

definition buffered_append ::
  "string \<Rightarrow> string \<Rightarrow> metadata option \<Rightarrow> datetime \<Rightarrow> ChatTaskEventBuffer \<Rightarrow> (chat_event_exn + ChatTaskEvent) \<times> ChatTaskEventBuffer" where
  "buffered_append task_id event data now b =
     (if task_id = [] then (Inl (ChatEventError (ValueError ''task_id is required'')), b)
      else if strip event = [] then (Inl (ChatEventError (ValueError ''event is required'')), b)
      else case stream_of task_id b of (stream, b) \<Rightarrow>
        if es_terminal_sequence stream \<noteq> None
        then (Inl (ChatEventError (RuntimeError (''Chat task event stream is terminal: '' @ task_id))), b)
        else let buffered_event = \<lparr>ce_task_id = task_id, ce_sequence = es_next_sequence stream, ce_event = strip event,
                   ce_data = (case data of None \<Rightarrow> [] | Some d \<Rightarrow> d), ce_created_at = now\<rparr>;
                 updated = stream\<lparr>es_next_sequence := es_next_sequence stream + 1,
                   es_events := trim_stream_events (eb_max_events b) (es_events stream @ [buffered_event]),
                   es_projection := reduce_projection (eb_max_tools b) buffered_event (es_projection stream),
                   es_terminal_sequence := (if ce_is_terminal buffered_event then Some (ce_sequence buffered_event) else None),
                   es_changed := eb_next_changed b\<rparr>;
                 b1 = b\<lparr>eb_streams := AList.update task_id updated (eb_streams b), eb_next_changed := Suc (eb_next_changed b)\<rparr>;
                 b2 = (if ce_is_terminal buffered_event then remember_ended task_id b1 else b1)
             in (Inr buffered_event, b2\<lparr>eb_set := es_changed stream # eb_set b2\<rparr>))"

definition later_events :: "int \<Rightarrow> ChatTaskEventStream \<Rightarrow> ChatTaskEvent list" where
  "later_events after_sequence stream = filter (\<lambda>e. ce_sequence e > after_sequence) (es_events stream)"

definition events_after :: "string \<Rightarrow> int \<Rightarrow> ChatTaskEventBuffer \<Rightarrow> chat_event_exn + ChatTaskEvent list" where
  "events_after task_id after_sequence b =
     (case map_of (eb_streams b) task_id of
        None \<Rightarrow> Inr []
      | Some stream \<Rightarrow>
          (case raise_if_cursor_expired stream after_sequence of
             Some exn \<Rightarrow> Inl exn
           | None \<Rightarrow> Inr (later_events after_sequence stream)))"

definition replay_snapshot :: "string \<Rightarrow> ChatTaskEventBuffer \<Rightarrow> ChatTaskReplaySnapshot option result" where
  "replay_snapshot task_id b =
     (case map_of (eb_streams b) task_id of
        None \<Rightarrow> Inr None
      | Some stream \<Rightarrow>
          rbind (projected_events (es_projection stream)) (\<lambda>events.
          Inr (Some \<lparr>rs_task_id = task_id, rs_latest_sequence = pj_latest_sequence (es_projection stream),
            rs_terminal = (es_terminal_sequence stream \<noteq> None), rs_available = pj_available (es_projection stream),
            rs_events = events\<rparr>)))"

definition ensure_cursor_available :: "string \<Rightarrow> int \<Rightarrow> ChatTaskEventBuffer \<Rightarrow> chat_event_exn option" where
  "ensure_cursor_available task_id after_sequence b =
     (case map_of (eb_streams b) task_id of None \<Rightarrow> None | Some stream \<Rightarrow> raise_if_cursor_expired stream after_sequence)"

definition buffer_is_terminal :: "string \<Rightarrow> ChatTaskEventBuffer \<Rightarrow> bool" where
  "buffer_is_terminal task_id b =
     (case map_of (eb_streams b) task_id of None \<Rightarrow> False | Some stream \<Rightarrow> es_terminal_sequence stream \<noteq> None)"

definition has_stream :: "string \<Rightarrow> ChatTaskEventBuffer \<Rightarrow> bool" where
  "has_stream task_id b \<longleftrightarrow> map_of (eb_streams b) task_id \<noteq> None"

definition subscription_state ::
  "string \<Rightarrow> int \<Rightarrow> ChatTaskEventBuffer \<Rightarrow> (chat_event_exn + ChatTaskEvent list \<times> bool \<times> nat) \<times> ChatTaskEventBuffer" where
  "subscription_state task_id after_sequence b =
     (case stream_of task_id b of (stream, b) \<Rightarrow>
        (case raise_if_cursor_expired stream after_sequence of
           Some exn \<Rightarrow> (Inl exn, b)
         | None \<Rightarrow> (Inr (later_events after_sequence stream,
             (case es_terminal_sequence stream of None \<Rightarrow> False | Some s \<Rightarrow> s \<le> after_sequence), es_changed stream), b)))"

section \<open>Subscriptions\<close>

text \<open>
  Where the generator of \<open>subscribe\<close> stands: before \<open>_subscription_state\<close>, in the loop over its events, at
  \<open>changed.wait()\<close>, or ended. \<open>subscribe_step\<close> runs it to the next of these points and gives the event it yields.
\<close>

datatype subscription =
    Polling int
  | Delivering int "ChatTaskEvent list" bool nat
  | Waiting_Change int nat
  | Sub_Returned
  | Sub_Raised chat_event_exn

definition subscribe_step ::
  "string \<Rightarrow> subscription \<Rightarrow> ChatTaskEventBuffer \<Rightarrow> (subscription \<times> ChatTaskEvent option \<times> ChatTaskEventBuffer) option" where
  "subscribe_step task_id s b =
     (case s of
        Polling cursor \<Rightarrow>
          (case subscription_state task_id cursor b of
             (Inl exn, b) \<Rightarrow> Some (Sub_Raised exn, None, b)
           | (Inr (events, terminal_seen, changed), b) \<Rightarrow> Some (Delivering cursor events terminal_seen changed, None, b))
      | Delivering cursor (e # events) terminal_seen changed \<Rightarrow>
          Some (if ce_is_terminal e then Sub_Returned else Delivering (ce_sequence e) events terminal_seen changed, Some e, b)
      | Delivering cursor [] terminal_seen changed \<Rightarrow>
          Some (if terminal_seen then Sub_Returned else Waiting_Change cursor changed, None, b)
      | Waiting_Change cursor changed \<Rightarrow> if changed \<in> set (eb_set b) then Some (Polling cursor, None, b) else None
      | Sub_Returned \<Rightarrow> None
      | Sub_Raised _ \<Rightarrow> None)"


section \<open>The routes\<close>

text \<open>
  The routes for the events and the replay snapshot of a task (src/api/endpoints.py) once the task was found: an
  \<open>APIException\<close> with its status and type, or the answer. The lines of the event stream carry \<open>event_payload\<close>.
\<close>

datatype chat_api_error = APIException int string

record ChatTaskReplaySnapshotResponse =
  rr_task_id :: string
  rr_latest_sequence :: int
  rr_is_terminal :: bool
  rr_available :: bool
  rr_events :: "metadata list"

definition event_payload :: "ChatTaskEvent \<Rightarrow> metadata" where
  "event_payload e = snd (setdefault ''sequence'' (JInt (ce_sequence e)) (snd (setdefault ''event'' (JStr (ce_event e)) (ce_data e))))"

definition chat_task_events :: "ExecutionTaskSnapshot \<Rightarrow> int \<Rightarrow> ChatTaskEventBuffer \<Rightarrow> chat_api_error option" where
  "chat_task_events task after_sequence b =
     (if ts_kind task \<noteq> ''chat'' then Some (APIException 404 ''ExecutionTaskNotFound'')
      else if ts_status task \<in> TERMINAL_STATUS_VALUES \<and> \<not> has_stream (ts_task_id task) b
      then Some (APIException 410 ''ChatTaskEventsExpired'')
      else case ensure_cursor_available (ts_task_id task) after_sequence b of
        Some _ \<Rightarrow> Some (APIException 410 ''ChatTaskEventCursorExpired'')
      | None \<Rightarrow> None)"

definition chat_task_replay_snapshot ::
  "ExecutionTaskSnapshot \<Rightarrow> ChatTaskEventBuffer \<Rightarrow> (chat_api_error + ChatTaskReplaySnapshotResponse) result" where
  "chat_task_replay_snapshot task b =
     (if ts_kind task \<noteq> ''chat'' then Inr (Inl (APIException 404 ''ExecutionTaskNotFound''))
      else rbind (replay_snapshot (ts_task_id task) b) (\<lambda>snapshot.
        Inr (case snapshot of
          None \<Rightarrow>
            if ts_status task \<in> TERMINAL_STATUS_VALUES then Inl (APIException 410 ''ChatTaskEventsExpired'')
            else Inr \<lparr>rr_task_id = ts_task_id task, rr_latest_sequence = 0, rr_is_terminal = False, rr_available = True, rr_events = []\<rparr>
        | Some x \<Rightarrow> Inr \<lparr>rr_task_id = ts_task_id task, rr_latest_sequence = rs_latest_sequence x, rr_is_terminal = rs_terminal x,
            rr_available = rs_available x, rr_events = map event_payload (rs_events x)\<rparr>)))"

end
