(* ===== verification/Chat_Event_Props.thy ===== *)
theory Chat_Event_Props
  imports Chat_Events
begin

text \<open>
  Subscriptions over every interleaving of appends and subscribers: the invariant of the buffer and of each subscriber. The
  buffers stay within their bounds.
\<close>

section \<open>Consecutive events\<close>

fun follows :: "int \<Rightarrow> ChatTaskEvent list \<Rightarrow> bool" where
  "follows c [] = True"
| "follows c (e # es) = (ce_sequence e = c + 1 \<and> follows (c + 1) es)"

lemma follows_append [simp]: "follows c (xs @ ys) \<longleftrightarrow> follows c xs \<and> follows (c + int (length xs)) ys"
  by (induction xs arbitrary: c) (auto simp: algebra_simps)

lemma follows_sequences: "follows c es \<longleftrightarrow> map ce_sequence es = [c + 1..c + int (length es)]"
proof (induction es arbitrary: c)
  case (Cons e es)
  have "[c + 1..c + int (length (e # es))] = (c + 1) # [c + 1 + 1..c + 1 + int (length es)]"
    by (subst upto_rec1) (simp_all add: algebra_simps)
  then show ?case using Cons by auto
qed simp

lemma follows_greater: "follows c es \<Longrightarrow> e \<in> set es \<Longrightarrow> c < ce_sequence e \<and> ce_sequence e \<le> c + int (length es)"
  by (induction es arbitrary: c) fastforce+

lemma follows_drop: "follows c es \<Longrightarrow> n \<le> length es \<Longrightarrow> follows (c + int n) (drop n es)"
  using follows_append [of c "take n es" "drop n es"] by simp

lemma follows_later:
  assumes "follows a es" and "a \<le> c"
  shows "follows c (filter (\<lambda>e. ce_sequence e > c) es)"
  using assms
proof (induction es arbitrary: a)
  case (Cons e es)
  show ?case
  proof (cases "a = c")
    case True
    then have "filter (\<lambda>e. ce_sequence e > c) (e # es) = e # es"
      using follows_greater [OF Cons.prems(1)] by (simp add: filter_id_conv)
    then show ?thesis using Cons.prems(1) True by simp
  next
    case False
    then show ?thesis using Cons.IH [of "a + 1"] Cons.prems by simp
  qed
qed simp

lemma set_butlast_filter: "set (butlast (filter P xs)) \<subseteq> set (butlast xs)"
  by (induction xs) (auto split: if_splits)

section \<open>Streams\<close>

text \<open>A stream keeps the last events it got, numbered in a row; a terminal event is its last one.\<close>

definition stream_ok :: "nat \<Rightarrow> ChatTaskEvent set \<Rightarrow> string \<Rightarrow> ChatTaskEventStream \<Rightarrow> bool" where
  "stream_ok max_events log task_id s \<longleftrightarrow>
     es_task_id s = task_id \<and> length (es_events s) \<le> max_events \<and> 1 \<le> es_next_sequence s \<and>
     (es_events s = [] \<longrightarrow> es_next_sequence s = 1) \<and>
     follows (es_next_sequence s - 1 - int (length (es_events s))) (es_events s) \<and>
     (\<forall>e\<in>set (es_events s). e \<in> log \<and> ce_task_id e = task_id) \<and> (\<forall>e\<in>set (butlast (es_events s)). \<not> ce_is_terminal e) \<and>
     es_terminal_sequence s =
       (if es_events s \<noteq> [] \<and> ce_is_terminal (List.last (es_events s)) then Some (es_next_sequence s - 1) else None)"

lemma new_stream_ok: "stream_ok m log t (new_stream t n)"
  by (simp add: stream_ok_def new_stream_def)

lemma stream_ok_mono: "stream_ok m log t s \<Longrightarrow> log \<subseteq> log' \<Longrightarrow> stream_ok m log' t s"
  by (auto simp: stream_ok_def)

lemma trim_snoc:
  assumes "1 \<le> m"
  shows "\<exists>n. trim_stream_events m (es @ [e]) = drop n es @ [e] \<and> n \<le> length es \<and> Suc (length es - n) \<le> max m 0"
  using assms by (intro exI [of _ "Suc (length es) - m"]) (auto simp: trim_stream_events_def)

lemma stream_ok_append:
  assumes ok: "stream_ok m log t s" and m: "1 \<le> m" and unended: "es_terminal_sequence s = None"
    and e: "ce_sequence e = es_next_sequence s" "ce_task_id e = t" "e \<in> log'" "log \<subseteq> log'"
  shows "stream_ok m log' t (s\<lparr>es_next_sequence := es_next_sequence s + 1, es_events := trim_stream_events m (es_events s @ [e]),
     es_projection := p, es_terminal_sequence := (if ce_is_terminal e then Some (ce_sequence e) else None), es_changed := c\<rparr>)"
proof -
  obtain n where trim: "trim_stream_events m (es_events s @ [e]) = drop n (es_events s) @ [e]" and n: "n \<le> length (es_events s)"
      and len: "Suc (length (es_events s) - n) \<le> m"
    using trim_snoc [OF m, of "es_events s" e] by auto
  have "follows (es_next_sequence s - 1 - int (length (es_events s)) + int n) (drop n (es_events s))"
    using ok n by (intro follows_drop) (simp_all add: stream_ok_def)
  moreover have "\<not> ce_is_terminal x" if "x \<in> set (es_events s)" for x
  proof (cases "x \<in> set (butlast (es_events s))")
    case False
    then have "x = List.last (es_events s)" using that append_butlast_last_id [of "es_events s"]
      by (metis Un_iff empty_iff empty_set set_ConsD set_append)
    then show ?thesis using ok unended that by (auto simp: stream_ok_def split: if_splits)
  qed (use ok in \<open>auto simp: stream_ok_def\<close>)
  ultimately show ?thesis
    using ok e n len by (auto simp: stream_ok_def trim algebra_simps of_nat_diff dest: in_set_dropD)
qed

lemma stream_ok_later:
  assumes "stream_ok m log t s" and "raise_if_cursor_expired s c = None"
  shows "follows c (later_events c s)" and "\<forall>e\<in>set (later_events c s). e \<in> log \<and> ce_task_id e = t"
    and "\<forall>e\<in>set (butlast (later_events c s)). \<not> ce_is_terminal e"
proof -
  let ?a = "es_next_sequence s - 1 - int (length (es_events s))"
  have rows: "follows ?a (es_events s)" using assms(1) by (simp add: stream_ok_def)
  have "es_events s = [] \<or> ?a \<le> c" using rows assms(2) by (auto simp: raise_if_cursor_expired_def split: list.splits if_splits)
  then show "follows c (later_events c s)" using follows_later [OF rows] by (auto simp: later_events_def)
  show "\<forall>e\<in>set (later_events c s). e \<in> log \<and> ce_task_id e = t" using assms(1) by (auto simp: later_events_def stream_ok_def)
  have "set (butlast (later_events c s)) \<subseteq> set (butlast (es_events s))"
    unfolding later_events_def by (rule set_butlast_filter)
  then show "\<forall>e\<in>set (butlast (later_events c s)). \<not> ce_is_terminal e" using assms(1) by (auto simp: stream_ok_def)
qed


lemma stream_ok_poll:
  assumes ok: "stream_ok m log t s" and fresh: "raise_if_cursor_expired s c = None"
  shows "es_terminal_sequence s = Some n \<Longrightarrow> n \<le> c \<Longrightarrow> later_events c s = [] \<and> (\<exists>e\<in>log. ce_task_id e = t \<and> ce_is_terminal e \<and> ce_sequence e \<le> c)"
    and "es_terminal_sequence s = Some n \<Longrightarrow> \<not> n \<le> c \<Longrightarrow> later_events c s \<noteq> [] \<and> ce_is_terminal (List.last (later_events c s))"
proof -
  let ?a = "es_next_sequence s - 1 - int (length (es_events s))"
  have rows: "follows ?a (es_events s)" using ok by (simp add: stream_ok_def)
  assume "es_terminal_sequence s = Some n"
  then have n: "n = es_next_sequence s - 1" and final: "es_events s \<noteq> []" "ce_is_terminal (List.last (es_events s))"
    using ok by (auto simp: stream_ok_def split: if_splits)
  have seq: "ce_sequence (List.last (es_events s)) = n"
    using rows final(1) n by (cases "es_events s" rule: rev_cases) auto
  have mem: "List.last (es_events s) \<in> log" "ce_task_id (List.last (es_events s)) = t"
    using ok final(1) by (auto simp: stream_ok_def)
  show "n \<le> c \<Longrightarrow> later_events c s = [] \<and> (\<exists>e\<in>log. ce_task_id e = t \<and> ce_is_terminal e \<and> ce_sequence e \<le> c)"
    using follows_greater [OF rows] n mem final seq by (fastforce simp: later_events_def filter_empty_conv)
  show "\<not> n \<le> c \<Longrightarrow> later_events c s \<noteq> [] \<and> ce_is_terminal (List.last (later_events c s))"
    using final seq by (cases "es_events s" rule: rev_cases) (auto simp: later_events_def)
qed

lemma later_events_tail:
  assumes "later_events c s = e # es" and "follows c (e # es)"
  shows "later_events (c + 1) s = es"
proof -
  have "later_events (c + 1) s = filter (\<lambda>x. ce_sequence x > c + 1) (later_events c s)"
    unfolding later_events_def filter_filter by (rule filter_cong) auto
  also have "\<dots> = es" using assms follows_greater [of "c + 1" es] by (auto simp: filter_id_conv)
  finally show ?thesis .
qed

section \<open>The buffer\<close>

definition tools_ok :: "nat \<Rightarrow> ChatTaskEventStream \<Rightarrow> bool" where
  "tools_ok max_tools s \<longleftrightarrow> wf_dict (pj_tool_events (es_projection s)) \<and> length (pj_tool_events (es_projection s)) \<le> max_tools"

definition buffer_ok :: "ChatTaskEvent set \<Rightarrow> ChatTaskEventBuffer \<Rightarrow> bool" where
  "buffer_ok log b \<longleftrightarrow> 1 \<le> eb_max_events b \<and> 1 \<le> eb_max_terminal b \<and> 1 \<le> eb_max_tools b \<and> wf_dict (eb_streams b) \<and>
     (\<forall>t s. map_of (eb_streams b) t = Some s \<longrightarrow> stream_ok (eb_max_events b) log t s \<and> tools_ok (eb_max_tools b) s) \<and>
     distinct (eb_terminal_order b) \<and> length (eb_terminal_order b) \<le> eb_max_terminal b \<and>
     (\<forall>t s. map_of (eb_streams b) t = Some s \<longrightarrow> es_terminal_sequence s \<noteq> None \<longrightarrow> t \<in> set (eb_terminal_order b))"

text \<open>A stream that has not ended stays as it is, or its event of changes is set.\<close>

definition notifies :: "ChatTaskEventBuffer \<Rightarrow> ChatTaskEventBuffer \<Rightarrow> bool" where
  "notifies b b' \<longleftrightarrow> set (eb_set b) \<subseteq> set (eb_set b') \<and>
     (\<forall>t s. map_of (eb_streams b) t = Some s \<longrightarrow> es_terminal_sequence s = None \<longrightarrow>
        map_of (eb_streams b') t = Some s \<or> es_changed s \<in> set (eb_set b'))"

lemma project_tool_ok:
  assumes "wf_dict tools" "length tools \<le> m" "1 \<le> m"
  shows "wf_dict (project_tool m e tools) \<and> length (project_tool m e tools) \<le> m"
proof -
  have "length (AList.update k v d) = (if k \<in> fst ` set d then length d else Suc (length d))" for k :: string and v :: ProjectedToolState and d
    by (induction d) auto
  moreover have "wf_dict (tl tools)" using assms(1) by (cases tools) (auto simp: wf_dict_def)
  ultimately show ?thesis using assms by (auto simp: project_tool_def Let_def map_of_eq_None_iff)
qed

lemma reduce_tools_ok:
  assumes "wf_dict (pj_tool_events p)" "length (pj_tool_events p) \<le> m" "1 \<le> m"
  shows "wf_dict (pj_tool_events (reduce_projection m e p)) \<and> length (pj_tool_events (reduce_projection m e p)) \<le> m"
  using assms project_tool_ok [of "pj_tool_events p" m e]
  by (auto simp: reduce_projection_def Let_def reset_projected_response_def)

lemma evict_streams_spec:
  assumes "evict_streams m order streams = (order', streams')" and "wf_dict streams" and "distinct order"
    and "\<forall>t s. map_of streams t = Some s \<longrightarrow> es_terminal_sequence s \<noteq> None \<longrightarrow> t \<in> set order"
  shows "wf_dict streams' \<and> (\<forall>t s. map_of streams' t = Some s \<longrightarrow> map_of streams t = Some s) \<and>
    (\<forall>t s. map_of streams t = Some s \<longrightarrow> es_terminal_sequence s = None \<longrightarrow> map_of streams' t = Some s) \<and>
    distinct order' \<and> length order' \<le> m \<and>
    (\<forall>t s. map_of streams' t = Some s \<longrightarrow> es_terminal_sequence s \<noteq> None \<longrightarrow> t \<in> set order')"
  using assms
proof (induction m order streams rule: evict_streams.induct)
  case (2 m stale order streams)
  show ?case
  proof (cases "length (stale # order) \<le> m")
    case False
    let ?kept = "case map_of streams stale of None \<Rightarrow> streams
      | Some stream \<Rightarrow> if es_terminal_sequence stream = None then streams else AList.delete stale streams"
    have wf: "wf_dict ?kept" using "2.prems"(2) by (auto split: option.splits)
    have sub: "map_of ?kept t = Some s \<Longrightarrow> map_of streams t = Some s" for t s
      by (auto simp: delete_conv' split: option.splits if_splits)
    have unended: "map_of streams t = Some s \<Longrightarrow> es_terminal_sequence s = None \<Longrightarrow> map_of ?kept t = Some s" for t s
      by (auto simp: delete_conv' split: option.splits)
    have rest: "\<forall>t s. map_of ?kept t = Some s \<longrightarrow> es_terminal_sequence s \<noteq> None \<longrightarrow> t \<in> set order"
    proof (intro allI impI)
      fix t s
      assume kept: "map_of ?kept t = Some s" "es_terminal_sequence s \<noteq> None"
      then have "t \<noteq> stale" by (auto simp: delete_conv' split: option.splits if_splits)
      then show "t \<in> set order" using "2.prems"(4) sub [OF kept(1)] kept(2) by auto
    qed
    have run: "evict_streams m order ?kept = (order', streams')" using "2.prems"(1) False by simp
    have "distinct order" using "2.prems"(3) by simp
    from "2.IH" [OF False run wf this rest] show ?thesis using sub unended by blast
  qed (use "2.prems" in auto)
qed auto

lemma stream_of_spec:
  assumes "stream_of t b = (s, b')" and "buffer_ok log b"
  shows "buffer_ok log b'" "notifies b b'" "map_of (eb_streams b') t = Some s" "eb_set b' = eb_set b"
    "stream_ok (eb_max_events b') log t s" "tools_ok (eb_max_tools b') s"
proof -
  have new: "stream_ok m log t (new_stream t n)" "tools_ok m (new_stream t n)" "es_terminal_sequence (new_stream t n) = None" for m n
    by (rule new_stream_ok) (simp_all add: tools_ok_def new_stream_def new_projection_def wf_dict_def)
  show "buffer_ok log b'" "map_of (eb_streams b') t = Some s"
    using assms new by (auto simp: stream_of_def Let_def buffer_ok_def update_conv' split: option.splits if_splits)
  then show "stream_ok (eb_max_events b') log t s" "tools_ok (eb_max_tools b') s" by (auto simp: buffer_ok_def)
  show "notifies b b'" "eb_set b' = eb_set b"
    using assms(1) by (auto simp: stream_of_def Let_def notifies_def update_conv' split: option.splits)
qed


lemma remember_ended_fields [simp]:
  "eb_max_events (remember_ended t b) = eb_max_events b" "eb_max_terminal (remember_ended t b) = eb_max_terminal b"
  "eb_max_tools (remember_ended t b) = eb_max_tools b" "eb_set (remember_ended t b) = eb_set b"
  by (simp_all add: remember_ended_def split: prod.splits)

lemma remember_ended_spec:
  assumes wf: "wf_dict (eb_streams b)" and order: "distinct (eb_terminal_order b)"
    and ends: "\<And>u s. map_of (eb_streams b) u = Some s \<Longrightarrow> es_terminal_sequence s \<noteq> None \<Longrightarrow> u = t \<or> u \<in> set (eb_terminal_order b)"
  shows "wf_dict (eb_streams (remember_ended t b))"
    and "map_of (eb_streams (remember_ended t b)) u = Some s \<Longrightarrow> map_of (eb_streams b) u = Some s"
    and "map_of (eb_streams b) u = Some s \<Longrightarrow> es_terminal_sequence s = None \<Longrightarrow> map_of (eb_streams (remember_ended t b)) u = Some s"
    and "distinct (eb_terminal_order (remember_ended t b))"
    and "length (eb_terminal_order (remember_ended t b)) \<le> eb_max_terminal b"
    and "map_of (eb_streams (remember_ended t b)) u = Some s \<Longrightarrow> es_terminal_sequence s \<noteq> None \<Longrightarrow>
      u \<in> set (eb_terminal_order (remember_ended t b))"
proof -
  let ?order = "remove1 t (eb_terminal_order b) @ [t]"
  obtain order' streams' where run: "evict_streams (eb_max_terminal b) ?order (eb_streams b) = (order', streams')" by fastforce
  have fields: "eb_terminal_order (remember_ended t b) = order'" "eb_streams (remember_ended t b) = streams'"
    by (simp_all add: remember_ended_def run)
  have "t \<notin> set (remove1 t (eb_terminal_order b))" using order by simp
  then have "distinct ?order" using order by (simp add: distinct_remove1)
  moreover have "u \<in> set ?order" if "map_of (eb_streams b) u = Some s" "es_terminal_sequence s \<noteq> None" for u s
    using ends [OF that] by (cases "u = t") simp_all
  ultimately have spec: "wf_dict streams' \<and> (\<forall>t s. map_of streams' t = Some s \<longrightarrow> map_of (eb_streams b) t = Some s) \<and>
    (\<forall>t s. map_of (eb_streams b) t = Some s \<longrightarrow> es_terminal_sequence s = None \<longrightarrow> map_of streams' t = Some s) \<and>
    distinct order' \<and> length order' \<le> eb_max_terminal b \<and>
    (\<forall>t s. map_of streams' t = Some s \<longrightarrow> es_terminal_sequence s \<noteq> None \<longrightarrow> t \<in> set order')"
    by (intro evict_streams_spec [OF run wf]) blast+
  show "wf_dict (eb_streams (remember_ended t b))" "distinct (eb_terminal_order (remember_ended t b))"
      "length (eb_terminal_order (remember_ended t b)) \<le> eb_max_terminal b"
    using spec by (simp_all add: fields)
  show "map_of (eb_streams (remember_ended t b)) u = Some s \<Longrightarrow> map_of (eb_streams b) u = Some s"
      "map_of (eb_streams b) u = Some s \<Longrightarrow> es_terminal_sequence s = None \<Longrightarrow> map_of (eb_streams (remember_ended t b)) u = Some s"
      "map_of (eb_streams (remember_ended t b)) u = Some s \<Longrightarrow> es_terminal_sequence s \<noteq> None \<Longrightarrow>
        u \<in> set (eb_terminal_order (remember_ended t b))"
    unfolding fields using spec by blast+
qed

text \<open>The end of an append: the terminal streams are recorded and the oldest of them dropped.\<close>

lemma close_ended:
  assumes b: "1 \<le> eb_max_events b" "1 \<le> eb_max_tools b" "1 \<le> eb_max_terminal b" "wf_dict (eb_streams b)" "distinct (eb_terminal_order b)"
      "length (eb_terminal_order b) \<le> eb_max_terminal b"
    and streams: "\<And>u x. map_of (eb_streams b) u = Some x \<Longrightarrow> stream_ok (eb_max_events b) log u x \<and> tools_ok (eb_max_tools b) x"
    and ends: "\<And>u x. map_of (eb_streams b) u = Some x \<Longrightarrow> es_terminal_sequence x \<noteq> None \<Longrightarrow> u = t \<and> ended \<or> u \<in> set (eb_terminal_order b)"
    and b': "b' = (if ended then remember_ended t b else b)"
  shows "buffer_ok log b'" and "eb_set b' = eb_set b"
    and "map_of (eb_streams b) u = Some x \<Longrightarrow> es_terminal_sequence x = None \<Longrightarrow> map_of (eb_streams b') u = Some x"
proof -
  note closed = remember_ended_spec [OF b(4,5), of t]
  have weaker: "u = t \<or> u \<in> set (eb_terminal_order b)" if "map_of (eb_streams b) u = Some x" "es_terminal_sequence x \<noteq> None" for u x
    using ends [OF that] by blast
  show "eb_set b' = eb_set b" by (simp add: b')
  show "map_of (eb_streams b) u = Some x \<Longrightarrow> es_terminal_sequence x = None \<Longrightarrow> map_of (eb_streams b') u = Some x"
    using closed(3) [OF weaker] by (simp add: b')
  show "buffer_ok log b'"
  proof (cases ended)
    case True
    then have fields: "b' = remember_ended t b" by (simp add: b')
    show ?thesis
      unfolding buffer_ok_def fields using b(1-3) closed(1,4,5) [OF weaker] streams [OF closed(2) [OF weaker]] closed(6) [OF weaker]
      by simp
  next
    case False
    then show ?thesis using b streams ends by (auto simp: buffer_ok_def b')
  qed
qed

lemma append_spec:
  assumes run: "buffered_append t event data now b = (r, b')" and ok: "buffer_ok log b"
  shows "buffer_ok (case r of Inr e \<Rightarrow> insert e log | Inl _ \<Rightarrow> log) b'" and "notifies b b'"
proof -
  show "buffer_ok (case r of Inr e \<Rightarrow> insert e log | Inl _ \<Rightarrow> log) b'" "notifies b b'"
  proof (atomize (full), cases "t = [] \<or> strip event = []")
    case True
    then have "b' = b \<and> (\<exists>x. r = Inl x)" using run by (auto simp: buffered_append_def split: if_splits)
    then show "buffer_ok (case r of Inr e \<Rightarrow> insert e log | Inl _ \<Rightarrow> log) b' \<and> notifies b b'"
      using ok by (auto simp: notifies_def)
  next
    case named: False
    obtain s b1 where s: "stream_of t b = (s, b1)" by fastforce
    note found = stream_of_spec [OF s ok]
    show "buffer_ok (case r of Inr e \<Rightarrow> insert e log | Inl _ \<Rightarrow> log) b' \<and> notifies b b'"
    proof (cases "es_terminal_sequence s")
      case (Some n)
      then have "b' = b1 \<and> (\<exists>x. r = Inl x)" using run named s by (auto simp: buffered_append_def)
      then show ?thesis using found(1,2) by auto
    next
      case None
      define e where "e = \<lparr>ce_task_id = t, ce_sequence = es_next_sequence s, ce_event = strip event,
        ce_data = (case data of None \<Rightarrow> [] | Some d \<Rightarrow> d), ce_created_at = now\<rparr>"
      define s' where "s' = s\<lparr>es_next_sequence := es_next_sequence s + 1, es_events := trim_stream_events (eb_max_events b1) (es_events s @ [e]),
        es_projection := reduce_projection (eb_max_tools b1) e (es_projection s),
        es_terminal_sequence := (if ce_is_terminal e then Some (ce_sequence e) else None), es_changed := eb_next_changed b1\<rparr>"
      define b2 where "b2 = b1\<lparr>eb_streams := AList.update t s' (eb_streams b1), eb_next_changed := Suc (eb_next_changed b1)\<rparr>"
      define b3 where "b3 = (if ce_is_terminal e then remember_ended t b2 else b2)"
      have r: "r = Inr e" and b': "b' = b3\<lparr>eb_set := es_changed s # eb_set b3\<rparr>"
        using run named None s by (auto simp: buffered_append_def Let_def e_def s'_def b2_def b3_def)
      have b1: "1 \<le> eb_max_events b1" "1 \<le> eb_max_tools b1" "1 \<le> eb_max_terminal b1" "wf_dict (eb_streams b1)"
          "distinct (eb_terminal_order b1)" "length (eb_terminal_order b1) \<le> eb_max_terminal b1"
        using found(1) by (simp_all add: buffer_ok_def)
      have s'_ok: "stream_ok (eb_max_events b1) (insert e log) t s'"
        unfolding s'_def by (rule stream_ok_append [OF found(5) b1(1) None]) (auto simp: e_def)
      have tools: "tools_ok (eb_max_tools b1) s'"
        using reduce_tools_ok [OF _ _ b1(2)] found(6) by (simp add: tools_ok_def s'_def)
      have ok2: "stream_ok (eb_max_events b2) (insert e log) u x \<and> tools_ok (eb_max_tools b2) x" if "map_of (eb_streams b2) u = Some x" for u x
        using found(1) s'_ok tools that stream_ok_mono [of "eb_max_events b1" log u x "insert e log"]
        by (cases "u = t") (auto simp: update_conv' buffer_ok_def b2_def)
      have ends: "u = t \<and> ce_is_terminal e \<or> u \<in> set (eb_terminal_order b2)"
        if "map_of (eb_streams b2) u = Some x" "es_terminal_sequence x \<noteq> None" for u x
        using found(1) that by (cases "u = t") (auto simp: update_conv' buffer_ok_def b2_def s'_def split: if_splits)
      have b2: "1 \<le> eb_max_events b2" "1 \<le> eb_max_tools b2" "1 \<le> eb_max_terminal b2" "wf_dict (eb_streams b2)"
          "distinct (eb_terminal_order b2)" "length (eb_terminal_order b2) \<le> eb_max_terminal b2"
        using b1 by (simp_all add: b2_def)
      note closed = close_ended [OF b2 ok2 ends b3_def]
      have "notifies b b'"
      proof -
        have "map_of (eb_streams b') u = Some x \<or> es_changed x \<in> set (eb_set b')"
          if "map_of (eb_streams b) u = Some x" "es_terminal_sequence x = None" for u x
        proof (cases "u = t")
          case True
          then have "x = s" using s that(1) by (simp add: stream_of_def)
          then show ?thesis by (simp add: b')
        next
          case False
          have "map_of (eb_streams b1) u = Some x \<or> es_changed x \<in> set (eb_set b1)" using found(2) that by (auto simp: notifies_def)
          then show ?thesis using closed(2,3) False that(2) by (auto simp: b' update_conv' b2_def)
        qed
        then show ?thesis using found(4) closed(2) by (auto simp: notifies_def b' b2_def)
      qed
      then show ?thesis using closed(1) by (simp add: r b' buffer_ok_def)
    qed
  qed
qed


section \<open>Subscribers\<close>

definition watching :: "ChatTaskEventBuffer \<Rightarrow> string \<Rightarrow> int \<Rightarrow> ChatTaskEvent list \<Rightarrow> nat \<Rightarrow> bool" where
  "watching b t c es changed \<longleftrightarrow> changed \<in> set (eb_set b) \<or>
     (\<exists>s. map_of (eb_streams b) t = Some s \<and> es_terminal_sequence s = None \<and> es_changed s = changed \<and> later_events c s = es)"

lemma watching_notifies: "watching b t c es changed \<Longrightarrow> notifies b b' \<Longrightarrow> watching b' t c es changed"
  unfolding watching_def notifies_def by blast

definition ended_by :: "ChatTaskEvent set \<Rightarrow> string \<Rightarrow> int \<Rightarrow> bool" where
  "ended_by log t c \<longleftrightarrow> (\<exists>e\<in>log. ce_task_id e = t \<and> ce_is_terminal e \<and> ce_sequence e \<le> c)"

text \<open>What a subscriber that started after \<open>c0\<close> has got, and where it stands.\<close>

definition delivered_ok :: "ChatTaskEvent set \<Rightarrow> string \<Rightarrow> int \<Rightarrow> ChatTaskEvent list \<Rightarrow> bool" where
  "delivered_ok log t c es \<longleftrightarrow> follows c es \<and> (\<forall>e\<in>set es. e \<in> log \<and> ce_task_id e = t) \<and> (\<forall>e\<in>set (butlast es). \<not> ce_is_terminal e)"

definition position_ok :: "ChatTaskEvent set \<Rightarrow> ChatTaskEventBuffer \<Rightarrow> string \<Rightarrow> int \<Rightarrow> bool \<Rightarrow> subscription \<Rightarrow> bool" where
  "position_ok log b t c running sub =
     (case sub of
        Polling cursor \<Rightarrow> running \<and> cursor = c
      | Delivering cursor es terminal_seen changed \<Rightarrow> running \<and> cursor = c \<and> delivered_ok log t c es \<and>
          (if terminal_seen then es = [] \<and> ended_by log t c
           else es \<noteq> [] \<and> ce_is_terminal (List.last es) \<or> watching b t c es changed)
      | Waiting_Change cursor changed \<Rightarrow> running \<and> cursor = c \<and> watching b t c [] changed
      | Sub_Returned \<Rightarrow> ended_by log t c
      | Sub_Raised _ \<Rightarrow> True)"

definition subscriber_ok :: "ChatTaskEvent set \<Rightarrow> ChatTaskEventBuffer \<Rightarrow> string \<times> int \<times> ChatTaskEvent list \<times> subscription \<Rightarrow> bool" where
  "subscriber_ok log b = (\<lambda>(t, c0, ds, sub). delivered_ok log t c0 ds \<and>
     position_ok log b t (c0 + int (length ds)) (\<forall>e\<in>set ds. \<not> ce_is_terminal e) sub)"

lemma subscriber_ok_mono:
  assumes "subscriber_ok log b x" and "notifies b b'" and "log \<subseteq> log'"
  shows "subscriber_ok log' b' x"
proof -
  have "delivered_ok log t c es \<Longrightarrow> delivered_ok log' t c es" for t c es using assms(3) by (auto simp: delivered_ok_def)
  moreover have "ended_by log t c \<Longrightarrow> ended_by log' t c" for t c using assms(3) by (auto simp: ended_by_def)
  ultimately show ?thesis
    using assms(1) watching_notifies [OF _ assms(2)]
    by (cases x) (auto simp: subscriber_ok_def position_ok_def split: subscription.splits if_splits)
qed

lemma poll_ok:
  assumes "subscription_state t c b = (r, b')" and "buffer_ok log b" and r: "r = Inr (es, terminal_seen, changed)"
  shows "position_ok log b' t c True (Delivering c es terminal_seen changed)"
proof -
  obtain s b1 where s: "stream_of t b = (s, b1)" by fastforce
  note found = stream_of_spec [OF s assms(2)]
  have fresh: "raise_if_cursor_expired s c = None" and es: "es = later_events c s" "changed = es_changed s" "b' = b1"
      and seen: "terminal_seen = (case es_terminal_sequence s of None \<Rightarrow> False | Some n \<Rightarrow> n \<le> c)"
    using assms(1) s r by (auto simp: subscription_state_def split: option.splits)
  have "delivered_ok log t c es" using stream_ok_later [OF found(5) fresh] by (simp add: delivered_ok_def es)
  then show ?thesis
    using stream_ok_poll [OF found(5) fresh] found(3) seen
    by (cases "es_terminal_sequence s") (auto simp: position_ok_def es watching_def ended_by_def)
qed

lemma subscribe_step_ok:
  assumes step: "subscribe_step t sub b = Some (sub', out, b')" and ok: "buffer_ok log b" and sub: "subscriber_ok log b (t, c0, ds, sub)"
  shows "buffer_ok log b' \<and> notifies b b' \<and> subscriber_ok log b' (t, c0, ds @ (case out of None \<Rightarrow> [] | Some e \<Rightarrow> [e]), sub')"
proof (cases sub)
  case (Polling cursor)
  obtain s b1 where s: "stream_of t b = (s, b1)" by fastforce
  note found = stream_of_spec [OF s ok]
  have "snd (subscription_state t cursor b) = b1" by (simp add: subscription_state_def s split: option.split)
  then obtain r where r: "subscription_state t cursor b = (r, b1)" by (metis prod.collapse)
  show ?thesis
  proof (cases r)
    case (Inl exn)
    then have "sub' = Sub_Raised exn" "out = None" "b' = b1" using step Polling r by (auto simp: subscribe_step_def)
    then show ?thesis using found(1,2) sub by (simp add: subscriber_ok_def position_ok_def)
  next
    case (Inr x)
    obtain es seen changed where x: "x = (es, seen, changed)" by (cases x)
    then have "sub' = Delivering cursor es seen changed" "out = None" "b' = b1" using step Polling r Inr by (auto simp: subscribe_step_def)
    then show ?thesis
      using found(1,2) sub poll_ok [OF r ok] Inr x Polling by (auto simp: subscriber_ok_def position_ok_def)
  qed
next
  case (Delivering cursor es seen changed)
  show ?thesis
  proof (cases es)
    case Nil
    then show ?thesis
      using step ok sub Delivering by (auto simp: subscribe_step_def subscriber_ok_def position_ok_def notifies_def split: if_splits)
  next
    case (Cons e rest)
    then have sub': "sub' = (if ce_is_terminal e then Sub_Returned else Delivering (ce_sequence e) rest seen changed)" "out = Some e" "b' = b"
      using step Delivering by (auto simp: subscribe_step_def)
    let ?c = "c0 + int (length ds)"
    have pos: "delivered_ok log t ?c (e # rest)" "\<not> seen" "\<forall>e\<in>set ds. \<not> ce_is_terminal e"
        "ce_is_terminal (List.last (e # rest)) \<or> watching b t ?c (e # rest) changed"
      using sub Delivering Cons by (auto simp: subscriber_ok_def position_ok_def split: if_splits)
    have e: "ce_sequence e = ?c + 1" "e \<in> log" "ce_task_id e = t" using pos(1) by (auto simp: delivered_ok_def)
    have rest: "delivered_ok log t (?c + 1) rest" using pos(1) by (auto simp: delivered_ok_def split: if_splits)
    have "watching b t (?c + 1) rest changed" if "watching b t ?c (e # rest) changed"
      using that pos(1) later_events_tail [of ?c _ e rest] by (auto simp: watching_def delivered_ok_def)
    then show ?thesis
      using sub e rest pos ok
      by (auto simp: subscriber_ok_def position_ok_def sub' delivered_ok_def ended_by_def notifies_def butlast_append algebra_simps
        split: if_splits)
  qed
next
  case (Waiting_Change cursor changed)
  then show ?thesis
    using step ok sub by (auto simp: subscribe_step_def subscriber_ok_def position_ok_def notifies_def split: if_splits)
qed (use step in \<open>simp_all add: subscribe_step_def\<close>)


section \<open>Every interleaving\<close>

text \<open>The buffer with its subscribers, each with its task, its first cursor and what it got; and all events appended so far.\<close>

record chat_system =
  sy_buffer :: ChatTaskEventBuffer
  sy_subscribers :: "(string \<times> int \<times> ChatTaskEvent list \<times> subscription) list"
  sy_log :: "ChatTaskEvent list"

definition start_system :: "ChatTaskEventBuffer \<Rightarrow> chat_system" where
  "start_system b = \<lparr>sy_buffer = b, sy_subscribers = [], sy_log = []\<rparr>"

definition emit :: "string \<Rightarrow> string \<Rightarrow> metadata option \<Rightarrow> datetime \<Rightarrow> chat_system \<Rightarrow> chat_system" where
  "emit t event data now s =
     (case buffered_append t event data now (sy_buffer s) of (r, b) \<Rightarrow>
        s\<lparr>sy_buffer := b, sy_log := sy_log s @ (case r of Inr e \<Rightarrow> [e] | Inl _ \<Rightarrow> [])\<rparr>)"

definition attach :: "string \<Rightarrow> int \<Rightarrow> chat_system \<Rightarrow> chat_system" where
  "attach t after_sequence s = s\<lparr>sy_subscribers := sy_subscribers s @ [(t, after_sequence, [], Polling after_sequence)]\<rparr>"

definition advance :: "nat \<Rightarrow> chat_system \<Rightarrow> chat_system" where
  "advance i s =
     (if i < length (sy_subscribers s)
      then case sy_subscribers s ! i of (t, c0, ds, sub) \<Rightarrow>
        (case subscribe_step t sub (sy_buffer s) of
           None \<Rightarrow> s
         | Some (sub', out, b) \<Rightarrow> s\<lparr>sy_buffer := b,
             sy_subscribers := (sy_subscribers s)[i := (t, c0, ds @ (case out of None \<Rightarrow> [] | Some e \<Rightarrow> [e]), sub')]\<rparr>)
      else s)"

inductive chat_step :: "chat_system \<Rightarrow> chat_system \<Rightarrow> bool" where
  emit: "chat_step s (emit t event data now s)"
| attach: "chat_step s (attach t after_sequence s)"
| advance: "chat_step s (advance i s)"

inductive_cases chat_stepE: "chat_step s s'"

definition system_ok :: "chat_system \<Rightarrow> bool" where
  "system_ok s \<longleftrightarrow> buffer_ok (set (sy_log s)) (sy_buffer s) \<and> (\<forall>x\<in>set (sy_subscribers s). subscriber_ok (set (sy_log s)) (sy_buffer s) x)"

lemma emit_ok:
  assumes "system_ok s"
  shows "system_ok (emit t event data now s)"
proof -
  obtain r b where run: "buffered_append t event data now (sy_buffer s) = (r, b)" by fastforce
  have ok: "buffer_ok (set (sy_log s)) (sy_buffer s)" using assms by (simp add: system_ok_def)
  have log: "set (sy_log (emit t event data now s)) = (case r of Inr e \<Rightarrow> insert e (set (sy_log s)) | Inl _ \<Rightarrow> set (sy_log s))"
    by (simp add: emit_def run split: sum.split)
  have "subscriber_ok (case r of Inr e \<Rightarrow> insert e (set (sy_log s)) | Inl _ \<Rightarrow> set (sy_log s)) b x" if "x \<in> set (sy_subscribers s)" for x
    by (rule subscriber_ok_mono [OF _ append_spec(2) [OF run ok]]) (use assms that in \<open>auto simp: system_ok_def split: sum.split\<close>)
  then show ?thesis using append_spec(1) [OF run ok] log by (auto simp: system_ok_def emit_def run)
qed

lemma advance_ok:
  assumes "system_ok s"
  shows "system_ok (advance i s)"
proof (cases "i < length (sy_subscribers s)")
  case True
  obtain t c0 ds sub where x: "sy_subscribers s ! i = (t, c0, ds, sub)" by (metis prod_cases4)
  show ?thesis
  proof (cases "subscribe_step t sub (sy_buffer s)")
    case (Some out)
    obtain sub' o' b where out: "out = (sub', o', b)" by (cases out)
    have "subscriber_ok (set (sy_log s)) (sy_buffer s) (t, c0, ds, sub)" "buffer_ok (set (sy_log s)) (sy_buffer s)"
      using assms nth_mem [OF True] unfolding system_ok_def x by blast+
    note moved = subscribe_step_ok [OF Some [unfolded out] this(2,1)]
    have "subscriber_ok (set (sy_log s)) b y" if "y \<in> set (sy_subscribers s)" for y
      by (rule subscriber_ok_mono [OF _ _ subset_refl, of "set (sy_log s)" "sy_buffer s"]) (use assms moved that in \<open>simp_all add: system_ok_def\<close>)
    then have "\<forall>y\<in>set ((sy_subscribers s)[i := (t, c0, ds @ (case o' of None \<Rightarrow> [] | Some e \<Rightarrow> [e]), sub')]). subscriber_ok (set (sy_log s)) b y"
      using moved set_update_subset_insert [of "sy_subscribers s" i] by blast
    then show ?thesis using moved True by (simp add: system_ok_def advance_def x Some out)
  qed (use assms in \<open>simp add: advance_def x\<close>)
qed (use assms in \<open>simp add: advance_def\<close>)

lemma attach_ok: "system_ok s \<Longrightarrow> system_ok (attach t after_sequence s)"
  by (auto simp: system_ok_def attach_def subscriber_ok_def position_ok_def delivered_ok_def)

lemma chat_step_ok: "chat_step s s' \<Longrightarrow> system_ok s \<Longrightarrow> system_ok s'"
  by (elim chat_stepE) (simp_all add: emit_ok attach_ok advance_ok)

lemma reachable_system_ok:
  assumes "new_event_buffer m1 m2 m3 = Inr b" and "chat_step\<^sup>*\<^sup>* (start_system b) s"
  shows "system_ok s"
  using assms(2)
proof (induction rule: rtranclp_induct)
  case base
  show ?case using assms(1) by (auto simp: new_event_buffer_def system_ok_def start_system_def buffer_ok_def wf_dict_def split: if_splits)
next
  case (step s s')
  then show ?case by (simp add: chat_step_ok)
qed

text \<open>What a subscriber has got, and what it waits for.\<close>

lemma delivered_in_order:
  assumes "new_event_buffer m1 m2 m3 = Inr b" and "chat_step\<^sup>*\<^sup>* (start_system b) s" and "(t, c0, ds, sub) \<in> set (sy_subscribers s)"
  shows "follows c0 ds" "\<forall>e\<in>set ds. e \<in> set (sy_log s) \<and> ce_task_id e = t"
    "sub = Sub_Returned \<Longrightarrow> ended_by (set (sy_log s)) t (c0 + int (length ds))"
  using reachable_system_ok [OF assms(1,2)] assms(3) by (auto simp: system_ok_def subscriber_ok_def position_ok_def delivered_ok_def)

lemma waiting_watches:
  assumes "new_event_buffer m1 m2 m3 = Inr b" and "chat_step\<^sup>*\<^sup>* (start_system b) s"
    and "(t, c0, ds, Waiting_Change c changed) \<in> set (sy_subscribers s)" and "changed \<notin> set (eb_set (sy_buffer s))"
  obtains st where "map_of (eb_streams (sy_buffer s)) t = Some st" "es_terminal_sequence st = None" "es_changed st = changed"
    "later_events c st = []" "c = c0 + int (length ds)"
proof -
  have "watching (sy_buffer s) t c [] changed" "c = c0 + int (length ds)"
    using reachable_system_ok [OF assms(1,2)] assms(3) by (auto simp: system_ok_def subscriber_ok_def position_ok_def)
  then show thesis using assms(4) that by (auto simp: watching_def)
qed

section \<open>Bounds\<close>

definition limits :: "ChatTaskEventBuffer \<Rightarrow> nat \<times> nat \<times> nat" where
  "limits b = (eb_max_events b, eb_max_terminal b, eb_max_tools b)"

lemma stream_of_limits: "stream_of t b = (s, b') \<Longrightarrow> limits b' = limits b"
  by (auto simp: stream_of_def limits_def Let_def split: option.splits)

lemma append_limits: "buffered_append t event data now b = (r, b') \<Longrightarrow> limits b' = limits b"
  by (auto simp: buffered_append_def Let_def limits_def dest!: stream_of_limits split: prod.splits if_splits)

lemma subscribe_step_limits: "subscribe_step t sub b = Some (sub', out, b') \<Longrightarrow> limits b' = limits b"
  by (auto simp: subscribe_step_def subscription_state_def dest!: stream_of_limits
    split: subscription.splits prod.splits sum.splits option.splits list.splits if_splits)

lemma chat_step_limits: "chat_step s s' \<Longrightarrow> limits (sy_buffer s') = limits (sy_buffer s)"
  by (elim chat_stepE)
    (auto simp: emit_def attach_def advance_def dest: append_limits subscribe_step_limits split: prod.splits option.splits)

text \<open>
  The buffers are bounded. In every run a stream retains at most the configured number of events and its projection at most the
  configured number of tools, and at most the configured number of streams that have ended are retained.
\<close>

theorem event_buffers_bounded:
  assumes "new_event_buffer m1 m2 m3 = Inr b" and "chat_step\<^sup>*\<^sup>* (start_system b) s"
  shows "(\<forall>(t, st)\<in>set (eb_streams (sy_buffer s)). length (es_events st) \<le> nat m1 \<and> length (pj_tool_events (es_projection st)) \<le> nat m3) \<and>
    length (filter (\<lambda>(t, st). es_terminal_sequence st \<noteq> None) (eb_streams (sy_buffer s))) \<le> nat m2"
proof -
  let ?b = "sy_buffer s"
  let ?ended = "filter (\<lambda>(t, st). es_terminal_sequence st \<noteq> None) (eb_streams ?b)"
  have "limits ?b = limits b" using assms(2) by (induction rule: rtranclp_induct) (simp_all add: start_system_def chat_step_limits)
  then have limits: "eb_max_events ?b = nat m1" "eb_max_terminal ?b = nat m2" "eb_max_tools ?b = nat m3"
    using assms(1) by (auto simp: limits_def new_event_buffer_def split: if_splits)
  have ok: "buffer_ok (set (sy_log s)) ?b" using reachable_system_ok [OF assms] by (simp add: system_ok_def)
  then have wf: "wf_dict (eb_streams ?b)" by (simp add: buffer_ok_def)
  have "distinct (map fst ?ended)" using wf by (simp add: wf_dict_def distinct_map_filter)
  moreover have "set (map fst ?ended) \<subseteq> set (eb_terminal_order ?b)"
    using ok by (auto simp: buffer_ok_def map_of_in_set [OF wf] image_iff)
  ultimately have "length ?ended \<le> length (eb_terminal_order ?b)"
    by (metis card_length card_mono distinct_card length_map List.finite_set order_trans)
  moreover have "length (eb_terminal_order ?b) \<le> nat m2" using ok limits by (simp add: buffer_ok_def)
  moreover have "length (es_events st) \<le> nat m1 \<and> length (pj_tool_events (es_projection st)) \<le> nat m3" if "(t, st) \<in> set (eb_streams ?b)" for t st
    using ok that limits by (auto simp: buffer_ok_def map_of_in_set [OF wf] stream_ok_def tools_ok_def)
  ultimately show ?thesis by (auto simp: case_prod_unfold)
qed

section \<open>Runs\<close>

definition example_buffer :: ChatTaskEventBuffer where
  "example_buffer = \<lparr>eb_max_events = 2, eb_max_terminal = 1, eb_max_tools = 1, eb_streams = [], eb_terminal_order = [],
     eb_next_changed = 0, eb_set = []\<rparr>"

text \<open>A task emits an event, and a subscriber that was there from the start gets it.\<close>

definition example_chat :: chat_system where
  "example_chat = advance 0 (advance 0 (advance 0 (emit ''a'' ''delta'' None 0 (advance 0 (advance 0 (attach ''a'' 0 (start_system example_buffer)))))))"

lemma reached:
  assumes "chat_step\<^sup>*\<^sup>* s0 s"
  shows "chat_step\<^sup>*\<^sup>* s0 (emit t event data now s)" "chat_step\<^sup>*\<^sup>* s0 (attach t after_sequence s)" "chat_step\<^sup>*\<^sup>* s0 (advance i s)"
  by (rule rtranclp.rtrancl_into_rtrancl [OF assms], rule chat_step.intros)+

lemma example_chat_reached: "chat_step\<^sup>*\<^sup>* (start_system example_buffer) example_chat"
  unfolding example_chat_def by (intro reached rtranclp.rtrancl_refl)

lemma example_new_buffer: "new_event_buffer 2 1 1 = Inr example_buffer"
  by (simp add: new_event_buffer_def example_buffer_def)

definition example_delta :: ChatTaskEvent where
  "example_delta = \<lparr>ce_task_id = ''a'', ce_sequence = 1, ce_event = ''delta'', ce_data = [], ce_created_at = 0\<rparr>"

lemma example_chat_state:
  "sy_subscribers example_chat = [(''a'', 0, [example_delta], Delivering 1 [] False 1)]" "sy_log example_chat = [example_delta]"
  by code_simp+

lemma example_chat_waits:
  "sy_subscribers (advance 0 example_chat) = [(''a'', 0, [example_delta], Waiting_Change 1 1)]"
  "eb_set (sy_buffer (advance 0 example_chat)) = [0]"
  by code_simp+

theorem event_buffers_bounded_witness:
  "list_all (\<lambda>(t, st). length (es_events st) \<le> nat 2 \<and> length (pj_tool_events (es_projection st)) \<le> nat 1) (eb_streams (sy_buffer example_chat))"
  using event_buffers_bounded [OF example_new_buffer example_chat_reached] unfolding list_all_iff by blast


end
