(* ===== verification/Chat_Event_Log.thy ===== *)
theory Chat_Event_Log
  imports Chat_Event_Props
begin

text \<open>
  Subscribers against the log of all events ever appended: as long as nothing is appended to a task after its terminal event, a
  subscriber gets exactly the events of its task after its cursor, and the ways in which it can get fewer are named.
\<close>

section \<open>The log of a task\<close>

definition task_log :: "string \<Rightarrow> ChatTaskEvent list \<Rightarrow> ChatTaskEvent list" where
  "task_log t log = filter (\<lambda>e. ce_task_id e = t) log"

definition ends_once :: "ChatTaskEvent list \<Rightarrow> bool" where
  "ends_once es \<longleftrightarrow> list_all (\<lambda>e. \<not> ce_is_terminal e) (butlast es)"

definition has_ended :: "ChatTaskEvent list \<Rightarrow> bool" where
  "has_ended es \<longleftrightarrow> es \<noteq> [] \<and> ce_is_terminal (List.last es)"

lemma task_log_append [simp]: "task_log t (xs @ ys) = task_log t xs @ task_log t ys"
  by (simp add: task_log_def)

lemma ends_once_append: "ends_once (xs @ ys) \<Longrightarrow> ends_once xs"
  by (cases ys rule: rev_cases) (auto simp: ends_once_def butlast_append list_all_iff dest: in_set_butlastD)

lemma ends_once_snoc: "ends_once (xs @ [e]) \<Longrightarrow> \<not> has_ended xs"
  by (auto simp: ends_once_def has_ended_def list_all_iff)

text \<open>A stream holds the last events of the log, or none: before the first event, or because it was made anew after the end.\<close>

definition retained :: "ChatTaskEvent list \<Rightarrow> ChatTaskEventStream option \<Rightarrow> bool" where
  "retained log st =
     (case st of
        None \<Rightarrow> log = [] \<or> has_ended log
      | Some st \<Rightarrow>
          if es_events st = [] then log = [] \<or> has_ended log
          else es_next_sequence st = 1 + int (length log) \<and> (\<exists>k. es_events st = drop k log))"

lemma retained_None: "retained log None \<longleftrightarrow> log = [] \<or> has_ended log"
  by (simp add: retained_def)

definition log_ok :: "ChatTaskEvent list \<Rightarrow> ChatTaskEventBuffer \<Rightarrow> bool" where
  "log_ok log b \<longleftrightarrow> (\<forall>t. ends_once (task_log t log) \<longrightarrow>
     follows 0 (task_log t log) \<and> retained (task_log t log) (map_of (eb_streams b) t))"

lemma retained_dropped:
  assumes "retained log (Some st)" and "stream_ok m all t st" and "es_terminal_sequence st \<noteq> None"
  shows "has_ended log"
proof -
  have "es_events st \<noteq> [] \<and> ce_is_terminal (List.last (es_events st))" using assms(2,3) by (auto simp: stream_ok_def split: if_splits)
  then show ?thesis using assms(1) by (auto simp: retained_def has_ended_def)
qed

lemma evict_streams_drops:
  "evict_streams m order streams = (order', streams') \<Longrightarrow>
   map_of streams' u = map_of streams u \<or> map_of streams' u = None \<and> (\<exists>x. map_of streams u = Some x \<and> es_terminal_sequence x \<noteq> None)"
proof (induction m order streams rule: evict_streams.induct)
  case (2 m stale order streams)
  show ?case
  proof (cases "length (stale # order) \<le> m")
    case False
    let ?kept = "case map_of streams stale of None \<Rightarrow> streams
      | Some stream \<Rightarrow> if es_terminal_sequence stream = None then streams else AList.delete stale streams"
    have "map_of ?kept u = map_of streams u \<or> map_of ?kept u = None \<and> (\<exists>x. map_of streams u = Some x \<and> es_terminal_sequence x \<noteq> None)"
      by (auto simp: delete_conv' split: option.splits)
    moreover have "evict_streams m order ?kept = (order', streams')" using "2.prems" False by simp
    ultimately show ?thesis using "2.IH" [OF False] by metis
  qed (use "2.prems" in simp)
qed simp

lemma remember_ended_drops:
  "map_of (eb_streams (remember_ended t b)) u = map_of (eb_streams b) u \<or>
   map_of (eb_streams (remember_ended t b)) u = None \<and> (\<exists>x. map_of (eb_streams b) u = Some x \<and> es_terminal_sequence x \<noteq> None)"
  using evict_streams_drops by (auto simp: remember_ended_def split: prod.splits)

section \<open>Appends and polls\<close>

text \<open>The streams after an append: that of the task has the event, others may be dropped once they have ended.\<close>

lemma append_streams:
  assumes "buffered_append t event data now b = (Inr e, b')" and "buffer_ok lg b"
  obtains s s' n where "map_of (eb_streams b) t = Some s \<or> map_of (eb_streams b) t = None \<and> es_events s = []"
    and "stream_ok (eb_max_events b) lg t s" "es_terminal_sequence s = None" "ce_task_id e = t" "ce_sequence e = es_next_sequence s"
    and "es_events s' = drop n (es_events s) @ [e]" "es_next_sequence s' = es_next_sequence s + 1" "n \<le> length (es_events s)"
    and "es_terminal_sequence s' \<noteq> None \<longrightarrow> ce_is_terminal e"
    and "\<And>u. map_of (eb_streams b') u = ((map_of (eb_streams b))(t \<mapsto> s')) u \<or>
      map_of (eb_streams b') u = None \<and> (\<exists>x. ((map_of (eb_streams b))(t \<mapsto> s')) u = Some x \<and> es_terminal_sequence x \<noteq> None)"
proof -
  obtain s b1 where s: "stream_of t b = (s, b1)" by fastforce
  note found = stream_of_spec [OF s assms(2)]
  have named: "\<not> (t = [] \<or> strip event = [])" "es_terminal_sequence s = None"
    using assms(1) s by (auto simp: buffered_append_def split: if_splits)
  define s' where "s' = s\<lparr>es_next_sequence := es_next_sequence s + 1, es_events := trim_stream_events (eb_max_events b1) (es_events s @ [e]),
    es_projection := reduce_projection (eb_max_tools b1) e (es_projection s),
    es_terminal_sequence := (if ce_is_terminal e then Some (ce_sequence e) else None), es_changed := eb_next_changed b1\<rparr>"
  define b2 where "b2 = b1\<lparr>eb_streams := AList.update t s' (eb_streams b1), eb_next_changed := Suc (eb_next_changed b1)\<rparr>"
  define b3 where "b3 = (if ce_is_terminal e then remember_ended t b2 else b2)"
  have e: "e = \<lparr>ce_task_id = t, ce_sequence = es_next_sequence s, ce_event = strip event,
      ce_data = (case data of None \<Rightarrow> [] | Some d \<Rightarrow> d), ce_created_at = now\<rparr>" and b': "b' = b3\<lparr>eb_set := es_changed s # eb_set b3\<rparr>"
    using assms(1) named s by (auto simp: buffered_append_def Let_def s'_def b2_def b3_def)
  have b1: "map_of (eb_streams b1) u = (if u = t then Some s else map_of (eb_streams b) u)" for u
    using s by (auto simp: stream_of_def Let_def update_conv' split: option.splits)
  have limits: "eb_max_events b1 = eb_max_events b" using s by (auto simp: stream_of_def Let_def split: option.splits)
  have "1 \<le> eb_max_events b1" using found(1) by (simp add: buffer_ok_def)
  from trim_snoc [OF this, of "es_events s" e] obtain n where
    n: "trim_stream_events (eb_max_events b1) (es_events s @ [e]) = drop n (es_events s) @ [e]" "n \<le> length (es_events s)" by blast
  have "map_of (eb_streams b2) u = ((map_of (eb_streams b))(t \<mapsto> s')) u" for u by (simp add: b2_def update_conv' b1)
  then have kept: "map_of (eb_streams b') u = ((map_of (eb_streams b))(t \<mapsto> s')) u \<or>
      map_of (eb_streams b') u = None \<and> (\<exists>x. ((map_of (eb_streams b))(t \<mapsto> s')) u = Some x \<and> es_terminal_sequence x \<noteq> None)" for u
    using remember_ended_drops [of t b2 u] by (auto simp: b' b3_def)
  have old: "map_of (eb_streams b) t = Some s \<or> map_of (eb_streams b) t = None \<and> es_events s = []"
    using s by (auto simp: stream_of_def Let_def new_stream_def split: option.splits)
  show thesis
    by (rule that [OF old _ named(2) _ _ _ _ n(2) _ kept]) (use found(5) limits n(1) in \<open>simp_all add: e s'_def\<close>)
qed

lemma append_log_ok:
  assumes run: "buffered_append t event data now b = (Inr e, b')" and ok: "buffer_ok lg b" and log: "log_ok log b"
  shows "log_ok (log @ [e]) b'"
    and "ends_once (task_log t (log @ [e])) \<Longrightarrow> ce_sequence e = 1 + int (length (task_log t log))"
proof -
  obtain s s' n where s: "map_of (eb_streams b) t = Some s \<or> map_of (eb_streams b) t = None \<and> es_events s = []"
    and ok_s: "stream_ok (eb_max_events b) lg t s" "es_terminal_sequence s = None" and e: "ce_task_id e = t" "ce_sequence e = es_next_sequence s"
    and s': "es_events s' = drop n (es_events s) @ [e]" "es_next_sequence s' = es_next_sequence s + 1" "n \<le> length (es_events s)"
      "es_terminal_sequence s' \<noteq> None \<longrightarrow> ce_is_terminal e"
    and kept: "\<And>u. map_of (eb_streams b') u = ((map_of (eb_streams b))(t \<mapsto> s')) u \<or>
      map_of (eb_streams b') u = None \<and> (\<exists>x. ((map_of (eb_streams b))(t \<mapsto> s')) u = Some x \<and> es_terminal_sequence x \<noteq> None)"
    by (rule append_streams [OF run ok]) blast
  have own: "follows 0 (task_log t log) \<and> es_next_sequence s = 1 + int (length (task_log t log)) \<and>
      (\<exists>k. es_events s = drop k (task_log t log))" if "ends_once (task_log t (log @ [e]))"
  proof -
    have L: "ends_once (task_log t log)" "\<not> has_ended (task_log t log)"
      using that ends_once_append ends_once_snoc by (simp_all add: task_log_def e(1))
    then have "follows 0 (task_log t log)" "retained (task_log t log) (map_of (eb_streams b) t)"
      using log by (simp_all add: log_ok_def)
    moreover have "es_events s = [] \<longrightarrow> es_next_sequence s = 1" using ok_s(1) by (simp add: stream_ok_def)
    ultimately show ?thesis using s L(2) by (cases "es_events s") (auto simp: retained_def)
  qed
  then show "ends_once (task_log t (log @ [e])) \<Longrightarrow> ce_sequence e = 1 + int (length (task_log t log))" using e(2) by simp
  show "log_ok (log @ [e]) b'"
    unfolding log_ok_def
  proof (intro allI impI)
    fix u
    assume quiet: "ends_once (task_log u (log @ [e]))"
    show "follows 0 (task_log u (log @ [e])) \<and> retained (task_log u (log @ [e])) (map_of (eb_streams b') u)"
    proof (cases "u = t")
      case True
      obtain k where own: "follows 0 (task_log t log)" "es_next_sequence s = 1 + int (length (task_log t log))"
        "es_events s = drop k (task_log t log)" using own quiet True by blast
      have "es_events s' = drop (min (n + k) (length (task_log t log))) (task_log t log @ [e])" using s'(1) own(3) by (simp add: min_def)
      then have "\<exists>k. es_events s' = drop k (task_log t log @ [e])" ..
      then have "retained (task_log t log @ [e]) (Some s')" using s'(1,2) own(2) by (simp add: retained_def del: drop_append)
      moreover have "has_ended (task_log t log @ [e])" if "es_terminal_sequence s' \<noteq> None" using s'(4) that by (simp add: has_ended_def)
      ultimately have "retained (task_log t log @ [e]) (map_of (eb_streams b') t)"
        using kept [of t] by (auto simp: retained_def)
      then show ?thesis using own(1,2) e True by (simp add: task_log_def)
    next
      case False
      then have "task_log u (log @ [e]) = task_log u log" by (simp add: task_log_def e(1))
      then have L: "follows 0 (task_log u log)" "retained (task_log u log) (map_of (eb_streams b) u)" "task_log u (log @ [e]) = task_log u log"
        using log quiet by (simp_all add: log_ok_def)
      have "has_ended (task_log u log)" if "map_of (eb_streams b) u = Some x" "es_terminal_sequence x \<noteq> None" for x
      proof (rule retained_dropped [OF _ _ that(2)])
        show "retained (task_log u log) (Some x)" using L(2) that(1) by simp
        show "stream_ok (eb_max_events b) lg u x" using ok that(1) by (simp add: buffer_ok_def)
      qed
      then have "retained (task_log u log) (map_of (eb_streams b') u)"
        using kept [of u] L(2) False by (elim disjE conjE exE; simp add: retained_None)
      then show ?thesis using L(1,3) by simp
    qed
  qed
qed

lemma stream_of_streams:
  "stream_of t b = (s, b') \<Longrightarrow>
   map_of (eb_streams b') u = map_of (eb_streams b) u \<or> map_of (eb_streams b) u = None \<and> (\<exists>x. map_of (eb_streams b') u = Some x \<and> es_events x = [])"
  by (cases "u = t") (auto simp: stream_of_def Let_def update_conv' new_stream_def split: option.splits)

lemma retained_stream_of:
  "stream_of t b = (s, b') \<Longrightarrow> retained log (map_of (eb_streams b) u) \<Longrightarrow> retained log (map_of (eb_streams b') u)"
  by (drule stream_of_streams [of t b s b' u]) (elim disjE conjE exE; simp add: retained_def)

lemma stream_of_log_ok: "stream_of t b = (s, b') \<Longrightarrow> log_ok log b \<Longrightarrow> log_ok log b'"
  using retained_stream_of by (simp add: log_ok_def)

section \<open>Missed events\<close>

text \<open>The event after the cursor was there once and is retained no longer; a cursor below 0 is before all events.\<close>

definition missed :: "ChatTaskEvent list \<Rightarrow> ChatTaskEventBuffer \<Rightarrow> string \<Rightarrow> int \<Rightarrow> bool" where
  "missed log b t c \<longleftrightarrow> c < 0 \<or> c < int (length (task_log t log)) \<and>
     (case map_of (eb_streams b) t of None \<Rightarrow> True | Some st \<Rightarrow> list_all (\<lambda>e. c + 1 < ce_sequence e) (es_events st))"

definition raised_ok :: "ChatTaskEvent list \<Rightarrow> ChatTaskEventBuffer \<Rightarrow> string \<times> int \<times> ChatTaskEvent list \<times> subscription \<Rightarrow> bool" where
  "raised_ok log b = (\<lambda>(t, c0, ds, sub). \<forall>exn. sub = Sub_Raised exn \<longrightarrow> ends_once (task_log t log) \<longrightarrow> missed log b t (c0 + int (length ds)))"

lemma missed_stream_of: "stream_of t b = (s, b') \<Longrightarrow> missed log b u c \<Longrightarrow> missed log b' u c"
  using stream_of_streams [of t b s b' u] by (auto simp: missed_def split: option.splits)

lemma missed_append:
  assumes run: "buffered_append t event data now b = (Inr e, b')" and ok: "buffer_ok lg b" and log: "log_ok log b"
    and quiet: "ends_once (task_log u (log @ [e]))" and old: "missed log b u c"
  shows "missed (log @ [e]) b' u c"
proof -
  obtain s s' n where s: "map_of (eb_streams b) t = Some s \<or> map_of (eb_streams b) t = None \<and> es_events s = []"
    and s': "es_events s' = drop n (es_events s) @ [e]" and e: "ce_task_id e = t"
    and kept: "\<And>u. map_of (eb_streams b') u = ((map_of (eb_streams b))(t \<mapsto> s')) u \<or>
      map_of (eb_streams b') u = None \<and> (\<exists>x. ((map_of (eb_streams b))(t \<mapsto> s')) u = Some x \<and> es_terminal_sequence x \<noteq> None)"
    by (rule append_streams [OF run ok]) blast
  show ?thesis
  proof (cases "u = t \<and> \<not> c < 0")
    case False
    then show ?thesis using old kept [of u] e by (auto simp: missed_def task_log_def split: option.splits)
  next
    case True
    then have "ce_sequence e = 1 + int (length (task_log t log))" "c < int (length (task_log t log))"
      using append_log_ok(2) [OF run ok log] quiet old by (auto simp: missed_def)
    moreover have "list_all (\<lambda>e. c + 1 < ce_sequence e) (es_events s)"
      using old s True by (auto simp: missed_def split: option.splits)
    then have "list_all (\<lambda>e. c + 1 < ce_sequence e) (drop n (es_events s))" by (auto simp: list_all_iff dest: in_set_dropD)
    ultimately have "list_all (\<lambda>e. c + 1 < ce_sequence e) (es_events s')" by (simp add: s')
    then show ?thesis using kept [of t] True old by (auto simp: missed_def split: option.splits)
  qed
qed

lemma expired_missed:
  assumes s: "stream_of t b = (s, b')" and ok: "buffer_ok lg b" and log: "log_ok log b" and quiet: "ends_once (task_log t log)"
    and exn: "raise_if_cursor_expired s c = Some exn"
  shows "missed log b' t c"
proof -
  note found = stream_of_spec [OF s ok]
  obtain x xs where events: "es_events s = x # xs" and c: "c < ce_sequence x - 1"
    using exn by (auto simp: raise_if_cursor_expired_def split: list.splits if_splits)
  have "follows 0 (task_log t log)" "retained (task_log t log) (Some s)"
    using stream_of_log_ok [OF s log] quiet found(3) by (auto simp: log_ok_def)
  then obtain k where k: "es_events s = drop k (task_log t log)" using events by (auto simp: retained_def)
  then have "follows (int k) (es_events s)"
    using follows_drop [OF \<open>follows 0 (task_log t log)\<close>, of k] events by (cases "k \<le> length (task_log t log)") auto
  moreover from this have "\<forall>e\<in>set (es_events s). int k < ce_sequence e" using follows_greater by blast
  ultimately have "ce_sequence x = int k + 1" "\<forall>e\<in>set (es_events s). int k < ce_sequence e" using events by simp_all
  moreover have "k < length (task_log t log)" using k events by (metis drop_eq_Nil2 list.distinct(1) not_less)
  ultimately show ?thesis using c found(3) by (auto simp: missed_def list_all_iff)
qed

section \<open>Every interleaving\<close>

definition logged :: "chat_system \<Rightarrow> bool" where
  "logged s \<longleftrightarrow> system_ok s \<and> log_ok (sy_log s) (sy_buffer s) \<and> (\<forall>x\<in>set (sy_subscribers s). raised_ok (sy_log s) (sy_buffer s) x)"

lemma emit_logged:
  assumes "logged s"
  shows "logged (emit t event data now s)"
proof -
  obtain r b where run: "buffered_append t event data now (sy_buffer s) = (r, b)" by fastforce
  have ok: "buffer_ok (set (sy_log s)) (sy_buffer s)" and log: "log_ok (sy_log s) (sy_buffer s)"
    using assms by (simp_all add: logged_def system_ok_def)
  show ?thesis
  proof (cases r)
    case (Inr e)
    have "raised_ok (sy_log s @ [e]) b x" if "x \<in> set (sy_subscribers s)" for x
    proof (cases x)
      case (fields u c0 ds sub)
      then show ?thesis
        using that assms missed_append [OF run [unfolded Inr] ok log] ends_once_append
        by (force simp: raised_ok_def logged_def)
    qed
    moreover have "emit t event data now s = s\<lparr>sy_buffer := b, sy_log := sy_log s @ [e]\<rparr>" by (simp add: emit_def run Inr)
    ultimately show ?thesis
      using append_log_ok(1) [OF run [unfolded Inr] ok log] emit_ok [of s t event data now] assms by (simp add: logged_def)
  next
    case (Inl exn)
    then have "b = sy_buffer s \<or> (\<exists>st. stream_of t (sy_buffer s) = (st, b))"
      using run by (auto simp: buffered_append_def Let_def split: prod.splits if_splits)
    then have "log_ok (sy_log s) b" "\<And>u c. missed (sy_log s) (sy_buffer s) u c \<Longrightarrow> missed (sy_log s) b u c"
      using log stream_of_log_ok missed_stream_of by blast+
    moreover have "emit t event data now s = s\<lparr>sy_buffer := b\<rparr>" by (simp add: emit_def run Inl)
    ultimately show ?thesis
      using emit_ok [of s t event data now] assms by (auto simp: logged_def raised_ok_def)
  qed
qed

lemma subscribe_step_stream:
  assumes "subscribe_step t sub b = Some (sub', out, b')"
  shows "b' = b \<or> (\<exists>st. stream_of t b = (st, b'))"
    and "sub' = Sub_Raised exn \<Longrightarrow> \<exists>c st. sub = Polling c \<and> out = None \<and> stream_of t b = (st, b') \<and> raise_if_cursor_expired st c = Some exn"
  using assms by (auto simp: subscribe_step_def subscription_state_def
    split: subscription.splits prod.splits sum.splits option.splits list.splits if_splits)

lemma advance_logged:
  assumes "logged s"
  shows "logged (advance i s)"
proof (cases "i < length (sy_subscribers s)")
  case True
  obtain t c0 ds sub where x: "sy_subscribers s ! i = (t, c0, ds, sub)" by (metis prod_cases4)
  have ok: "buffer_ok (set (sy_log s)) (sy_buffer s)" and log: "log_ok (sy_log s) (sy_buffer s)"
    and sub: "subscriber_ok (set (sy_log s)) (sy_buffer s) (t, c0, ds, sub)"
    using assms nth_mem [OF True] by (auto simp: logged_def system_ok_def x)
  show ?thesis
  proof (cases "subscribe_step t sub (sy_buffer s)")
    case (Some out)
    obtain sub' o' b where out: "out = (sub', o', b)" by (cases out)
    note moved = subscribe_step_stream [OF Some [unfolded out]]
    have log': "log_ok (sy_log s) b" and kept: "\<And>u c. missed (sy_log s) (sy_buffer s) u c \<Longrightarrow> missed (sy_log s) b u c"
      using moved(1) log stream_of_log_ok missed_stream_of by blast+
    have others: "raised_ok (sy_log s) b y" if "y \<in> set (sy_subscribers s)" for y
      using assms that kept by (fastforce simp: logged_def raised_ok_def)
    have own: "raised_ok (sy_log s) b (t, c0, ds @ (case o' of None \<Rightarrow> [] | Some e \<Rightarrow> [e]), sub')"
      unfolding raised_ok_def
    proof (clarify)
      fix exn
      assume raised: "sub' = Sub_Raised exn" and quiet: "ends_once (task_log t (sy_log s))"
      then obtain c st where "sub = Polling c" and none: "o' = None" and st: "stream_of t (sy_buffer s) = (st, b)" "raise_if_cursor_expired st c = Some exn"
        using moved(2) by blast
      then have "c = c0 + int (length ds)" using sub by (simp add: subscriber_ok_def position_ok_def)
      then show "missed (sy_log s) b t (c0 + int (length (ds @ (case o' of None \<Rightarrow> [] | Some e \<Rightarrow> [e]))))"
        using expired_missed [OF st(1) ok log quiet st(2)] none by simp
    qed
    have "\<forall>y\<in>set ((sy_subscribers s)[i := (t, c0, ds @ (case o' of None \<Rightarrow> [] | Some e \<Rightarrow> [e]), sub')]). raised_ok (sy_log s) b y"
      using others own set_update_subset_insert [of "sy_subscribers s" i] by blast
    then show ?thesis using advance_ok [of s i] assms log' True by (simp add: logged_def) (simp add: advance_def x Some out)
  qed (use assms in \<open>simp add: advance_def x\<close>)
qed (use assms in \<open>simp add: advance_def\<close>)

lemma reachable_logged:
  assumes "new_event_buffer m1 m2 m3 = Inr b" and "chat_step\<^sup>*\<^sup>* (start_system b) s"
  shows "logged s"
  using assms(2)
proof (induction rule: rtranclp_induct)
  case base
  have "eb_streams b = []" using assms(1) by (auto simp: new_event_buffer_def split: if_splits)
  then show ?case
    using reachable_system_ok [OF assms(1) rtranclp.rtrancl_refl] by (simp add: logged_def start_system_def log_ok_def task_log_def retained_def)
next
  case (step s s')
  from step.hyps(2) step.IH show ?case
  proof cases
    case (attach t c)
    have "raised_ok (sy_log s) (sy_buffer s) (t, c, [], Polling c)" by (simp add: raised_ok_def)
    then show ?thesis using step.IH attach attach_ok [of s t c] by (simp add: logged_def) (simp add: attach_def)
  qed (simp_all add: emit_logged advance_logged step.IH)
qed

section \<open>What a subscriber gets\<close>

lemma follows_member: "follows c es \<Longrightarrow> e \<in> set es \<Longrightarrow> c < ce_sequence e \<and> es ! nat (ce_sequence e - c - 1) = e"
proof (induction es arbitrary: c)
  case (Cons x es)
  show ?case
  proof (cases "e = x")
    case False
    then have "follows (c + 1) es" "e \<in> set es" using Cons.prems by auto
    from Cons.IH [OF this] have IH: "c + 1 < ce_sequence e" "es ! nat (ce_sequence e - (c + 1) - 1) = e" by blast+
    then have "nat (ce_sequence e - c - 1) = Suc (nat (ce_sequence e - (c + 1) - 1))" by linarith
    then show ?thesis using IH by simp
  qed (use Cons.prems in simp)
qed simp

lemma follows_nth: "follows c es \<Longrightarrow> i < length es \<Longrightarrow> ce_sequence (es ! i) = c + 1 + int i"
proof (induction es arbitrary: c i)
  case (Cons x es)
  then show ?case by (cases i) auto
qed simp

lemma follows_after: "follows 0 es \<Longrightarrow> 0 \<le> c \<Longrightarrow> filter (\<lambda>e. c < ce_sequence e) es = drop (nat c) es"
proof -
  assume es: "follows 0 es" and c: "0 \<le> c"
  have "\<not> c < ce_sequence e" if "e \<in> set (take (nat c) es)" for e
    using that es follows_nth [OF es] c by (auto simp: in_set_conv_nth)
  moreover have "c < ce_sequence e" if "e \<in> set (drop (nat c) es)" for e
    using that follows_nth [OF es] c by (auto simp: in_set_conv_nth)
  ultimately have "filter (\<lambda>e. c < ce_sequence e) (take (nat c) es @ drop (nat c) es) = drop (nat c) es"
    unfolding filter_append by (simp add: filter_id_conv filter_empty_conv)
  then show "filter (\<lambda>e. c < ce_sequence e) es = drop (nat c) es" by simp
qed

lemma delivered_segment:
  assumes es: "follows 0 es" and ds: "follows c ds" "set ds \<subseteq> set es"
  shows "ds = take (length ds) (filter (\<lambda>e. c < ce_sequence e) es)"
proof (cases "0 \<le> c")
  case True
  have at: "es ! (nat c + i) = ds ! i \<and> nat c + i < length es" if "i < length ds" for i
  proof -
    have seq: "ce_sequence (ds ! i) = c + 1 + int i" using follows_nth [OF ds(1) that] .
    then have "nat (ce_sequence (ds ! i) - 0 - 1) = nat c + i" using True by linarith
    moreover have "ds ! i \<in> set es" using ds(2) that by auto
    ultimately have "es ! (nat c + i) = ds ! i" "ce_sequence (ds ! i) \<le> 0 + int (length es)"
      using follows_member [OF es] follows_greater [OF es] by force+
    then show ?thesis using seq True by linarith
  qed
  have "length (take (length ds) (drop (nat c) es)) = length ds"
  proof (cases "length ds")
    case (Suc n)
    then have "nat c + n < length es" using at [of n] by simp
    then show ?thesis using Suc by simp
  qed simp
  then have "ds = take (length ds) (drop (nat c) es)" using at by (intro nth_equalityI) simp_all
  then show ?thesis by (simp add: follows_after [OF es True])
next
  case False
  have "ds = []"
  proof (rule ccontr)
    assume "ds \<noteq> []"
    then have "ce_sequence (hd ds) = c + 1" "hd ds \<in> set es" using ds by (cases ds; auto)+
    then show False using follows_greater [OF es] False by fastforce
  qed
  then show ?thesis by simp
qed

text \<open>
  C9. A subscription is gapless. Take a task to which nothing is appended after its terminal event. In every run of appends and
  subscribers its events are numbered from 1 on, and what a subscriber has got is a first part of the events after its cursor:
  each once, in order, none left out between. A subscription that has returned has got all of them, the terminal event
  included if it is after the cursor; one that has raised was told that its cursor has expired: the next event for it was there and is
  no longer retained, or its cursor was negative.
\<close>

theorem subscription_gapless:
  assumes "new_event_buffer m1 m2 m3 = Inr b" and "chat_step\<^sup>*\<^sup>* (start_system b) s" and "(t, c0, ds, sub) \<in> set (sy_subscribers s)"
    and "ends_once (task_log t (sy_log s))"
  shows "map ce_sequence (task_log t (sy_log s)) = [1..int (length (task_log t (sy_log s)))] \<and>
    ds = take (length ds) (filter (\<lambda>e. c0 < ce_sequence e) (task_log t (sy_log s))) \<and>
    (sub = Sub_Returned \<longrightarrow> has_ended (task_log t (sy_log s)) \<and> ds = filter (\<lambda>e. c0 < ce_sequence e) (task_log t (sy_log s))) \<and>
    (\<forall>exn. sub = Sub_Raised exn \<longrightarrow> missed (sy_log s) (sy_buffer s) t (c0 + int (length ds)))"
proof (intro conjI impI allI)
  let ?L = "task_log t (sy_log s)"
  have ok: "logged s" by (rule reachable_logged [OF assms(1,2)])
  then have L: "follows 0 ?L" using assms(4) by (simp add: logged_def log_ok_def)
  note got = delivered_in_order [OF assms(1-3)]
  have sub_L: "set ds \<subseteq> set ?L" using got(2) by (auto simp: task_log_def)
  show "map ce_sequence ?L = [1..int (length ?L)]" using L by (simp add: follows_sequences)
  show segment: "ds = take (length ds) (filter (\<lambda>e. c0 < ce_sequence e) ?L)" by (rule delivered_segment [OF L got(1) sub_L])
  show "missed (sy_log s) (sy_buffer s) t (c0 + int (length ds))" if "sub = Sub_Raised exn" for exn
    using ok assms(3,4) that by (fastforce simp: logged_def raised_ok_def)
  assume "sub = Sub_Returned"
  then obtain e where e: "e \<in> set ?L" "ce_is_terminal e" "ce_sequence e \<le> c0 + int (length ds)"
    using got(3) by (auto simp: ended_by_def task_log_def)
  have "e \<notin> set (butlast ?L)" using assms(4) e(2) by (auto simp: ends_once_def list_all_iff)
  then have last: "e = List.last ?L" and "?L \<noteq> []"
    using e(1) append_butlast_last_id [of ?L] by (metis Un_iff empty_iff empty_set set_ConsD set_append, force)
  then have "ce_sequence e = int (length ?L)" using follows_nth [OF L, of "length ?L - 1"] by (simp add: last_conv_nth of_nat_diff Suc_le_eq)
  then have n: "int (length ?L) \<le> c0 + int (length ds)" using e(3) by simp
  show "has_ended ?L" using last \<open>?L \<noteq> []\<close> e(2) by (simp add: has_ended_def)
  show "ds = filter (\<lambda>e. c0 < ce_sequence e) ?L"
  proof (cases "0 \<le> c0")
    case True
    then have "length (filter (\<lambda>e. c0 < ce_sequence e) ?L) \<le> length ds" using n by (simp add: follows_after [OF L])
    then show ?thesis using segment by simp
  next
    case False
    have "length (filter (\<lambda>e. c0 < ce_sequence e) ?L) \<le> length ?L" by simp
    then have "length (filter (\<lambda>e. c0 < ce_sequence e) ?L) \<le> length ds" using n False by linarith
    then show ?thesis using segment by simp
  qed
qed

text \<open>
  C19. No event is missed. Take a task to which nothing is appended after its terminal event. A subscriber that waits for an
  event of changes that is not set has got every event of the task after its cursor, and the next event of the task sets what
  it waits for. The one exception: the task has ended, its stream was dropped, and the stream that is watched is a new one without events.
\<close>

theorem subscriber_not_left_waiting:
  assumes "new_event_buffer m1 m2 m3 = Inr b" and "chat_step\<^sup>*\<^sup>* (start_system b) s"
    and "(t, c0, ds, Waiting_Change c changed) \<in> set (sy_subscribers s)" and "changed \<notin> set (eb_set (sy_buffer s))"
    and "ends_once (task_log t (sy_log s))"
  shows "(ds = filter (\<lambda>e. c0 < ce_sequence e) (task_log t (sy_log s)) \<or>
      has_ended (task_log t (sy_log s)) \<and> (\<exists>st. map_of (eb_streams (sy_buffer s)) t = Some st \<and> es_events st = [])) \<and>
    (\<forall>event data now e b'. buffered_append t event data now (sy_buffer s) = (Inr e, b') \<longrightarrow> changed \<in> set (eb_set b'))"
proof (intro conjI allI impI)
  let ?L = "task_log t (sy_log s)"
  obtain st where st: "map_of (eb_streams (sy_buffer s)) t = Some st" "es_terminal_sequence st = None" "es_changed st = changed"
      "later_events c st = []" and c: "c = c0 + int (length ds)"
    by (rule waiting_watches [OF assms(1-4)])
  show "changed \<in> set (eb_set b')" if "buffered_append t event data now (sy_buffer s) = (Inr e, b')" for event data now e b'
    using that st by (auto simp: buffered_append_def stream_of_def Let_def split: if_splits)
  have L: "follows 0 ?L" "retained ?L (Some st)"
    using reachable_logged [OF assms(1,2)] assms(5) st(1) by (auto simp: logged_def log_ok_def)
  note got = delivered_in_order [OF assms(1-3)]
  have segment: "ds = take (length ds) (filter (\<lambda>e. c0 < ce_sequence e) ?L)"
    using got(2) by (intro delivered_segment [OF L(1) got(1)]) (auto simp: task_log_def)
  show "ds = filter (\<lambda>e. c0 < ce_sequence e) ?L \<or> has_ended ?L \<and> (\<exists>st. map_of (eb_streams (sy_buffer s)) t = Some st \<and> es_events st = [])"
  proof (cases "es_events st = []")
    case True
    then have "?L = [] \<or> has_ended ?L" using L(2) by (simp add: retained_def)
    then show ?thesis using True st(1) segment by auto
  next
    case False
    then obtain k where k: "es_events st = drop k ?L" using L(2) by (auto simp: retained_def)
    then have "List.last ?L \<in> set (es_events st)" "?L \<noteq> []" using False by (metis last_drop last_in_set drop_eq_Nil2 not_less, auto)
    moreover have "ce_sequence (List.last ?L) = int (length ?L)"
      using follows_nth [OF L(1), of "length ?L - 1"] calculation(2) by (simp add: last_conv_nth of_nat_diff Suc_le_eq)
    ultimately have n: "int (length ?L) \<le> c0 + int (length ds)"
      using st(4) c by (auto simp: later_events_def filter_empty_conv)
    have "length (filter (\<lambda>e. c0 < ce_sequence e) ?L) \<le> length ds"
    proof (cases "0 \<le> c0")
      case True
      then show ?thesis using n by (simp add: follows_after [OF L(1)])
    next
      case negative: False
      have "length (filter (\<lambda>e. c0 < ce_sequence e) ?L) \<le> length ?L" by simp
      then show ?thesis using n negative by linarith
    qed
    then show ?thesis using segment by simp
  qed
qed

section \<open>Runs\<close>

lemma example_log: "ends_once (task_log ''a'' (sy_log example_chat))" "task_log ''a'' (sy_log example_chat) = [example_delta]"
  by (simp_all add: example_chat_state task_log_def ends_once_def example_delta_def)

theorem subscription_gapless_witness:
  "[example_delta] = take 1 (filter (\<lambda>e. 0 < ce_sequence e) (task_log ''a'' (sy_log example_chat)))"
  using subscription_gapless [OF example_new_buffer example_chat_reached, of "''a''" 0 "[example_delta]" "Delivering 1 [] False 1"]
  by (simp add: example_chat_state(1) example_log(1))

lemma example_waiting_log: "sy_log (advance 0 example_chat) = [example_delta]"
  by code_simp

theorem subscriber_not_left_waiting_witness:
  "[example_delta] = filter (\<lambda>e. 0 < ce_sequence e) (task_log ''a'' (sy_log (advance 0 example_chat)))"
proof -
  have waits: "(''a'', 0, [example_delta], Waiting_Change 1 1) \<in> set (sy_subscribers (advance 0 example_chat))"
    and unset: "1 \<notin> set (eb_set (sy_buffer (advance 0 example_chat)))" by (simp_all add: example_chat_waits)
  have log: "task_log ''a'' (sy_log (advance 0 example_chat)) = [example_delta]"
    using example_log(2) by (simp only: example_waiting_log example_chat_state(2))
  have "ends_once (task_log ''a'' (sy_log (advance 0 example_chat)))" by (simp add: log ends_once_def)
  moreover have "\<not> has_ended [example_delta]" by code_simp
  ultimately show ?thesis
    using subscriber_not_left_waiting [OF example_new_buffer reached(3) [OF example_chat_reached] waits unset] unfolding log by blast
qed

end
