(* ===== verification/Chat_Replay.thy ===== *)
theory Chat_Replay
  imports Chat_Events "HOL-Library.Multiset"
begin

text \<open>
  The handoff from a replay snapshot to the live stream: a client that reduces the events of a snapshot and then the
  later events sees what a client sees that reduces the whole history.
\<close>

section \<open>Kinds of events\<close>

definition is_delta :: "ChatTaskEvent \<Rightarrow> bool" where
  "is_delta e \<longleftrightarrow> ce_event e = ''delta'' \<and> response_delta_content (ce_data e) \<noteq> []"

definition is_thinking :: "ChatTaskEvent \<Rightarrow> bool" where
  "is_thinking e \<longleftrightarrow> ce_event e = ''thinking_delta'' \<and> reasoning_delta_content (ce_data e) \<noteq> []"

definition is_tool :: "string \<Rightarrow> ChatTaskEvent \<Rightarrow> bool" where
  "is_tool k e \<longleftrightarrow> ce_event e \<in> {''tool_call_started'', ''tool_call_finished''} \<and> event_tool_call_id (ce_data e) = k \<and> k \<noteq> []"

definition is_review :: "ChatTaskEvent \<Rightarrow> bool" where
  "is_review e \<longleftrightarrow> ce_event e = ''review_required''"

lemmas event_kinds = CHAT_TASK_PROJECTED_EVENTS_def CHAT_TASK_TERMINAL_EVENTS_def ce_is_terminal_def

text \<open>The data keep the shape the content was found in.\<close>

lemma response_shape:
  assumes "response_delta_content data \<noteq> []"
  obtains first others delta content where "map_of data ''choices'' = Some (JList (JDict first # others))"
    "map_of first ''delta'' = Some (JDict delta)" "map_of delta ''content'' = Some (JStr content)"
  using assms that
  by (auto simp: response_delta_content_def meta_get_def split: option.splits json.splits list.splits)

lemma reasoning_shape:
  assumes "reasoning_delta_content data \<noteq> []"
  obtains delta content where "map_of data ''delta'' = Some (JDict delta)" "map_of delta ''content'' = Some (JStr content)"
  using assms that
  by (auto simp: reasoning_delta_content_def meta_get_def split: option.splits json.splits list.splits)

lemma coalesced_response:
  assumes "response_delta_content (ce_data e) \<noteq> []"
  shows "\<exists>e'. coalesced_response_event e c = Inr e' \<and> response_delta_content (ce_data e') = c \<and> ce_sequence e' = ce_sequence e \<and>
    ce_event e' = ce_event e \<and> (\<forall>c'. coalesced_response_event e' c' = coalesced_response_event e c')"
  using assms
  by (elim response_shape)
    (simp add: coalesced_response_event_def setdefault_def set_content_def Let_def response_delta_content_def meta_get_def update_conv')

lemma coalesced_reasoning:
  assumes "reasoning_delta_content (ce_data e) \<noteq> []"
  shows "\<exists>e'. coalesced_reasoning_event e c = Inr e' \<and> reasoning_delta_content (ce_data e') = c \<and> ce_sequence e' = ce_sequence e \<and>
    ce_event e' = ce_event e \<and> (\<forall>c'. coalesced_reasoning_event e' c' = coalesced_reasoning_event e c')"
  using assms
  by (elim reasoning_shape)
    (simp add: coalesced_reasoning_event_def setdefault_def set_content_def Let_def reasoning_delta_content_def meta_get_def update_conv')

lemma safe_tool_event [simp]:
  "ce_sequence (safe_tool_event e) = ce_sequence e" "ce_event (safe_tool_event e) = ce_event e"
  "event_tool_call_id (ce_data (safe_tool_event e)) = event_tool_call_id (ce_data e)"
  "safe_tool_event (safe_tool_event e) = safe_tool_event e"
proof -
  have "map_of (filter (\<lambda>(k, _). k \<in> set SAFE_TOOL_EVENT_KEYS) d) ''tool_call_id'' = map_of d ''tool_call_id''" for d :: metadata
    by (induction d) (auto simp: SAFE_TOOL_EVENT_KEYS_def)
  then show "event_tool_call_id (ce_data (safe_tool_event e)) = event_tool_call_id (ce_data e)"
    by (simp add: event_tool_call_id_def safe_tool_event_def meta_get_def)
qed (simp_all add: safe_tool_event_def)

section \<open>Projections of a history\<close>

definition tool_entry_ok :: "ChatTaskEvent set \<Rightarrow> string \<Rightarrow> ProjectedToolState \<Rightarrow> bool" where
  "tool_entry_ok H k t \<longleftrightarrow> (\<exists>l\<in>H. is_tool k l \<and> pt_latest_event t = safe_tool_event l) \<and>
     (case pt_started_event t of
        None \<Rightarrow> ce_event (pt_latest_event t) = ''tool_call_finished''
      | Some s \<Rightarrow> (\<exists>x\<in>H. is_tool k x \<and> ce_event x = ''tool_call_started'' \<and> s = safe_tool_event x) \<and>
          (s = pt_latest_event t \<or> ce_sequence s < ce_sequence (pt_latest_event t) \<and> ce_event (pt_latest_event t) = ''tool_call_finished''))"

definition projection_ok :: "ChatTaskEvent set \<Rightarrow> ChatTaskReplayProjection \<Rightarrow> bool" where
  "projection_ok H p \<longleftrightarrow>
     (case pj_response_event p of None \<Rightarrow> pj_response_text p = [] | Some e \<Rightarrow> e \<in> H \<and> is_delta e \<and> pj_response_text p \<noteq> []) \<and>
     (case pj_reasoning_event p of None \<Rightarrow> pj_reasoning_text p = [] | Some e \<Rightarrow> e \<in> H \<and> is_thinking e \<and> pj_reasoning_text p \<noteq> []) \<and>
     wf_dict (pj_tool_events p) \<and> (\<forall>k t. map_of (pj_tool_events p) k = Some t \<longrightarrow> tool_entry_ok H k t) \<and>
     (\<forall>e. pj_review_event p = Some e \<longrightarrow> e \<in> H \<and> is_review e) \<and>
     (\<forall>e. pj_terminal_event p = Some e \<longrightarrow> e \<in> H \<and> ce_is_terminal e \<and>
        (resets_response e \<longrightarrow> pj_response_event p = None \<and> pj_reasoning_event p = None))"

text \<open>A history of known events numbered upwards, in which nothing follows a terminal event.\<close>

definition history_ok :: "ChatTaskEvent list \<Rightarrow> bool" where
  "history_ok h \<longleftrightarrow> sorted_wrt (\<lambda>a b. ce_sequence a < ce_sequence b) h \<and> (\<forall>e\<in>set (butlast h). \<not> ce_is_terminal e) \<and>
     (\<forall>e\<in>set h. ce_event e \<in> set CHAT_TASK_PROJECTED_EVENTS)"

definition projection_of :: "nat \<Rightarrow> ChatTaskEvent list \<Rightarrow> ChatTaskReplayProjection" where
  "projection_of m h = fold (reduce_projection m) h new_projection"

lemma projection_of_simps [simp]:
  "projection_of m [] = new_projection" "projection_of m (h @ [e]) = reduce_projection m e (projection_of m h)"
  by (simp_all add: projection_of_def)

lemma history_ok_snoc: "history_ok (h @ [e]) \<Longrightarrow> history_ok h \<and> (\<forall>x\<in>set h. ce_sequence x < ce_sequence e \<and> \<not> ce_is_terminal x) \<and>
    ce_event e \<in> set CHAT_TASK_PROJECTED_EVENTS"
  by (auto simp: history_ok_def sorted_wrt_append dest: in_set_butlastD)

lemma projected_cases:
  assumes "ce_event e \<in> set CHAT_TASK_PROJECTED_EVENTS"
  obtains (delta) "is_delta e" | (thinking) "is_thinking e" | (tool) k where "is_tool k e" | (review) "is_review e"
    | (ended) "ce_is_terminal e" | (reset) "ce_event e = ''chat_retry_scheduled''" "resets_response e"
    | (quiet) "\<And>m p. reduce_projection m e p = p\<lparr>pj_latest_sequence := ce_sequence e\<rparr>"
proof -
  consider "is_delta e \<or> is_thinking e \<or> (\<exists>k. is_tool k e) \<or> is_review e \<or> ce_is_terminal e \<or>
      ce_event e = ''chat_retry_scheduled'' \<and> resets_response e"
    | "\<not> (is_delta e \<or> is_thinking e \<or> (\<exists>k. is_tool k e) \<or> is_review e \<or> ce_is_terminal e \<or>
      ce_event e = ''chat_retry_scheduled'' \<and> resets_response e)" by blast
  then show ?thesis
  proof cases
    case 1
    then show ?thesis using that by blast
  next
    case 2
    have names: "ce_event e \<in> set CHAT_TASK_PROJECTED_EVENTS" by (rule assms)
    have "reduce_projection m e p = p\<lparr>pj_latest_sequence := ce_sequence e\<rparr>" for m p
      using names 2 unfolding CHAT_TASK_PROJECTED_EVENTS_def CHAT_TASK_TERMINAL_EVENTS_def append.simps list.set insert_iff empty_iff
      by (elim disjE)
        (simp_all add: reduce_projection_def event_kinds is_delta_def is_thinking_def is_tool_def is_review_def project_tool_def Let_def)
    then show ?thesis using that by blast
  qed
qed

text \<open>What the reduction does for each kind.\<close>

lemma reduce_kinds:
  "is_delta e \<Longrightarrow> reduce_projection m e p = p\<lparr>pj_latest_sequence := ce_sequence e,
     pj_response_text := pj_response_text p @ response_delta_content (ce_data e), pj_response_event := Some e\<rparr>"
  "is_thinking e \<Longrightarrow> reduce_projection m e p = p\<lparr>pj_latest_sequence := ce_sequence e,
     pj_reasoning_text := pj_reasoning_text p @ reasoning_delta_content (ce_data e), pj_reasoning_event := Some e\<rparr>"
  "is_tool k e \<Longrightarrow> reduce_projection m e p = p\<lparr>pj_latest_sequence := ce_sequence e, pj_tool_events := project_tool m e (pj_tool_events p)\<rparr>"
  "is_review e \<Longrightarrow> reduce_projection m e p = p\<lparr>pj_latest_sequence := ce_sequence e, pj_review_event := Some e\<rparr>"
  "ce_is_terminal e \<Longrightarrow> reduce_projection m e p =
     (if resets_response e then reset_projected_response (p\<lparr>pj_latest_sequence := ce_sequence e\<rparr>) else p\<lparr>pj_latest_sequence := ce_sequence e\<rparr>)
       \<lparr>pj_terminal_event := Some e\<rparr>"
  "ce_event e = ''chat_retry_scheduled'' \<Longrightarrow> resets_response e \<Longrightarrow> reduce_projection m e p =
     reset_projected_response (p\<lparr>pj_latest_sequence := ce_sequence e\<rparr>)"
proof -
  show "is_delta e \<Longrightarrow> reduce_projection m e p = p\<lparr>pj_latest_sequence := ce_sequence e,
     pj_response_text := pj_response_text p @ response_delta_content (ce_data e), pj_response_event := Some e\<rparr>"
    by (simp add: reduce_projection_def event_kinds is_delta_def Let_def)
  show "is_thinking e \<Longrightarrow> reduce_projection m e p = p\<lparr>pj_latest_sequence := ce_sequence e,
     pj_reasoning_text := pj_reasoning_text p @ reasoning_delta_content (ce_data e), pj_reasoning_event := Some e\<rparr>"
    by (simp add: reduce_projection_def event_kinds is_thinking_def Let_def)
  show "reduce_projection m e p = p\<lparr>pj_latest_sequence := ce_sequence e, pj_tool_events := project_tool m e (pj_tool_events p)\<rparr>" if "is_tool k e"
  proof -
    consider "ce_event e = ''tool_call_started''" | "ce_event e = ''tool_call_finished''" using \<open>is_tool k e\<close> by (auto simp: is_tool_def)
    then show ?thesis by cases (simp_all add: reduce_projection_def event_kinds Let_def)
  qed
  show "is_review e \<Longrightarrow> reduce_projection m e p = p\<lparr>pj_latest_sequence := ce_sequence e, pj_review_event := Some e\<rparr>"
    by (simp add: reduce_projection_def event_kinds is_review_def Let_def)
  show "reduce_projection m e p =
     (if resets_response e then reset_projected_response (p\<lparr>pj_latest_sequence := ce_sequence e\<rparr>) else p\<lparr>pj_latest_sequence := ce_sequence e\<rparr>)
       \<lparr>pj_terminal_event := Some e\<rparr>" if "ce_is_terminal e"
  proof -
    consider "ce_event e = ''done''" | "ce_event e = ''cancelled''" | "ce_event e = ''error''" | "ce_event e = ''chat_retry_redirect''"
      using \<open>ce_is_terminal e\<close> by (auto simp: event_kinds)
    then show ?thesis by cases (simp_all add: reduce_projection_def event_kinds Let_def)
  qed
  show "ce_event e = ''chat_retry_scheduled'' \<Longrightarrow> resets_response e \<Longrightarrow> reduce_projection m e p =
     reset_projected_response (p\<lparr>pj_latest_sequence := ce_sequence e\<rparr>)"
    by (simp add: reduce_projection_def event_kinds Let_def)
qed


text \<open>The entry of a tool after an event.\<close>

definition entry_of :: "ChatTaskEvent \<Rightarrow> ProjectedToolState option \<Rightarrow> ProjectedToolState" where
  "entry_of e old = \<lparr>pt_started_event = (if ce_event e = ''tool_call_started'' then Some (safe_tool_event e) else Option.bind old pt_started_event),
     pt_latest_event = safe_tool_event e\<rparr>"

lemma map_of_tl: "wf_dict d \<Longrightarrow> map_of (tl d) k = Some v \<Longrightarrow> map_of d k = Some v"
  by (cases d) (auto simp: wf_dict_def map_of_eq_None_iff [symmetric])

lemma project_tool_entries:
  assumes "is_tool k e" and "wf_dict tools"
  shows "wf_dict (project_tool m e tools) \<and> (\<forall>j t. map_of (project_tool m e tools) j = Some t \<longrightarrow>
    (if j = k then t = (entry_of e (map_of tools k))
     else map_of tools j = Some t))"
proof -
  define kept where "kept = (if map_of tools k = None \<and> m \<le> length tools then tl tools else tools)"
  have "wf_dict (tl tools)" using assms(2) by (cases tools) (auto simp: wf_dict_def)
  then have kept: "wf_dict kept" "\<And>j t. map_of kept j = Some t \<Longrightarrow> map_of tools j = Some t"
    using assms(2) map_of_tl [OF assms(2)] by (auto simp: kept_def split: if_splits)
  have same: "map_of kept k = map_of tools k"
  proof (cases "map_of tools k")
    case None
    then show ?thesis using kept(2) [of k] by (cases "map_of kept k") auto
  qed (simp add: kept_def)
  have "project_tool m e tools = AList.update k (entry_of e (map_of kept k)) kept"
    using assms(1) by (auto simp: project_tool_def Let_def is_tool_def kept_def entry_of_def)
  then show ?thesis using kept(1) by (auto simp: update_conv' same dest: kept(2) split: if_splits)
qed

lemma tool_entry_mono: "tool_entry_ok H k t \<Longrightarrow> H \<subseteq> H' \<Longrightarrow> tool_entry_ok H' k t"
  by (fastforce simp: tool_entry_ok_def split: option.splits)

lemma new_tool_entry:
  assumes e: "is_tool k e" "\<forall>x\<in>H. ce_sequence x < ce_sequence e" and old: "\<And>t. map_of tools k = Some t \<Longrightarrow> tool_entry_ok H k t"
  shows "tool_entry_ok (insert e H) k (entry_of e (map_of tools k))"
proof (cases "ce_event e = ''tool_call_started''")
  case True
  then show ?thesis using e(1) by (auto simp: tool_entry_ok_def entry_of_def)
next
  case False
  then have fin: "ce_event e = ''tool_call_finished''" using e(1) by (simp add: is_tool_def)
  show ?thesis
  proof (cases "Option.bind (map_of tools k) pt_started_event")
    case None
    then show ?thesis using e(1) fin by (auto simp: tool_entry_ok_def entry_of_def)
  next
    case (Some s)
    then obtain t where t: "map_of tools k = Some t" "pt_started_event t = Some s" by (auto simp: bind_eq_Some_conv)
    then have "\<exists>x\<in>H. is_tool k x \<and> ce_event x = ''tool_call_started'' \<and> s = safe_tool_event x"
      using old [OF t(1)] by (auto simp: tool_entry_ok_def)
    then show ?thesis using e fin t by (auto simp: tool_entry_ok_def entry_of_def)
  qed
qed

lemma projection_ok_step:
  assumes ok: "projection_ok H p" and new: "\<forall>x\<in>H. ce_sequence x < ce_sequence e \<and> \<not> ce_is_terminal x"
    and known: "ce_event e \<in> set CHAT_TASK_PROJECTED_EVENTS"
  shows "projection_ok (insert e H) (reduce_projection m e p)"
proof -
  have running: "pj_terminal_event p = None"
    using ok new by (cases "pj_terminal_event p") (auto simp: projection_ok_def)
  have tools: "tool_entry_ok (insert e H) k t" if "map_of (pj_tool_events p) k = Some t" for k t
    using ok that by (auto simp: projection_ok_def intro: tool_entry_mono)
  have kept: "projection_ok (insert e H) p"
    using ok running tools by (auto simp: projection_ok_def split: option.splits)
  from known show ?thesis
  proof (cases rule: projected_cases)
    case (tool k)
    note entries = project_tool_entries [OF tool, of "pj_tool_events p" m]
    have "wf_dict (pj_tool_events p)" using ok by (simp add: projection_ok_def)
    moreover have "tool_entry_ok (insert e H) k (entry_of e (map_of (pj_tool_events p) k))"
      using ok new by (intro new_tool_entry [OF tool]) (auto simp: projection_ok_def)
    moreover have "tool_entry_ok (insert e H) j t" if "map_of (project_tool m e (pj_tool_events p)) j = Some t" for j t
      using entries [OF calculation(1)] calculation(2) tools [of j t] that by (cases "j = k") (simp_all del: One_nat_def)
    ultimately have "wf_dict (project_tool m e (pj_tool_events p)) \<and>
        (\<forall>j t. map_of (project_tool m e (pj_tool_events p)) j = Some t \<longrightarrow> tool_entry_ok (insert e H) j t)"
      using entries by blast
    then show ?thesis using kept by (simp add: reduce_kinds(3) [OF tool] projection_ok_def cong: option.case_cong)
  next
    case ended
    then show ?thesis
      using kept running by (auto simp: reduce_kinds(5) projection_ok_def reset_projected_response_def split: option.splits)
  qed (use kept running in \<open>auto simp: reduce_kinds projection_ok_def reset_projected_response_def is_delta_def is_thinking_def split: option.splits\<close>)
qed

lemma projection_of_ok: "history_ok h \<Longrightarrow> projection_ok (set h) (projection_of m h)"
proof (induction h rule: rev_induct)
  case Nil
  then show ?case by (simp add: projection_ok_def new_projection_def wf_dict_def)
next
  case (snoc e h)
  then show ?case using projection_ok_step [of "set h" "projection_of m h" e m] history_ok_snoc [OF snoc.prems] by simp
qed


section \<open>The events of a snapshot\<close>

definition part :: "(ChatTaskEvent \<Rightarrow> string \<Rightarrow> ChatTaskEvent result) \<Rightarrow> ChatTaskEvent option \<Rightarrow> string \<Rightarrow> ChatTaskEvent list" where
  "part coalesce source content = (case source of None \<Rightarrow> [] | Some e \<Rightarrow> [projr (coalesce e content)])"

definition tool_part :: "ChatTaskReplayProjection \<Rightarrow> ChatTaskEvent list" where
  "tool_part p = concat (map (tool_events_of \<circ> snd) (pj_tool_events p))"

definition parts :: "ChatTaskReplayProjection \<Rightarrow> ChatTaskEvent list" where
  "parts p = part coalesced_reasoning_event (pj_reasoning_event p) (pj_reasoning_text p) @
     part coalesced_response_event (pj_response_event p) (pj_response_text p) @ tool_part p @
     (case pj_review_event p of None \<Rightarrow> [] | Some e \<Rightarrow> [e]) @ (case pj_terminal_event p of None \<Rightarrow> [] | Some e \<Rightarrow> [e])"

lemma coalesced_part:
  assumes "case source of None \<Rightarrow> content = [] | Some e \<Rightarrow> content \<noteq> [] \<and> (\<exists>e'. coalesce e content = Inr e')"
  shows "coalesced coalesce source content = Inr (part coalesce source content)"
  using assms by (auto simp: coalesced_def part_def split: option.splits)

lemma projected_events_parts:
  assumes "projection_ok H p"
  shows "projected_events p = Inr (sort_key ce_sequence (parts p))"
proof -
  have "coalesced coalesced_reasoning_event (pj_reasoning_event p) (pj_reasoning_text p) =
      Inr (part coalesced_reasoning_event (pj_reasoning_event p) (pj_reasoning_text p))"
  proof (rule coalesced_part, cases "pj_reasoning_event p")
    case (Some e)
    then have "is_thinking e" "pj_reasoning_text p \<noteq> []" using assms by (auto simp: projection_ok_def)
    then show "case pj_reasoning_event p of None \<Rightarrow> pj_reasoning_text p = []
        | Some e \<Rightarrow> pj_reasoning_text p \<noteq> [] \<and> (\<exists>e'. coalesced_reasoning_event e (pj_reasoning_text p) = Inr e')"
      using coalesced_reasoning [of e "pj_reasoning_text p"] Some by (auto simp: is_thinking_def)
  qed (use assms in \<open>simp add: projection_ok_def\<close>)
  moreover have "coalesced coalesced_response_event (pj_response_event p) (pj_response_text p) =
      Inr (part coalesced_response_event (pj_response_event p) (pj_response_text p))"
  proof (rule coalesced_part, cases "pj_response_event p")
    case (Some e)
    then have "is_delta e" "pj_response_text p \<noteq> []" using assms by (auto simp: projection_ok_def)
    then show "case pj_response_event p of None \<Rightarrow> pj_response_text p = []
        | Some e \<Rightarrow> pj_response_text p \<noteq> [] \<and> (\<exists>e'. coalesced_response_event e (pj_response_text p) = Inr e')"
      using coalesced_response [of e "pj_response_text p"] Some by (auto simp: is_delta_def)
  qed (use assms in \<open>simp add: projection_ok_def\<close>)
  ultimately show ?thesis by (simp add: projected_events_def parts_def tool_part_def)
qed

text \<open>Each event of a snapshot is made from one event of the history, of the same number.\<close>

definition shown :: "ChatTaskReplayProjection \<Rightarrow> ChatTaskEvent \<Rightarrow> ChatTaskEvent" where
  "shown p e = (if is_delta e then projr (coalesced_response_event e (pj_response_text p))
     else if is_thinking e then projr (coalesced_reasoning_event e (pj_reasoning_text p))
     else if \<exists>k. is_tool k e then safe_tool_event e else e)"

lemma kinds_differ:
  "is_delta e \<Longrightarrow> \<not> is_thinking e \<and> \<not> is_tool k e \<and> \<not> is_review e \<and> \<not> ce_is_terminal e"
  "is_thinking e \<Longrightarrow> \<not> is_delta e \<and> \<not> is_tool k e \<and> \<not> is_review e \<and> \<not> ce_is_terminal e"
  "is_tool k e \<Longrightarrow> \<not> is_delta e \<and> \<not> is_thinking e \<and> \<not> is_review e \<and> \<not> ce_is_terminal e"
  "is_review e \<Longrightarrow> \<not> is_delta e \<and> \<not> is_thinking e \<and> \<not> is_tool k e \<and> \<not> ce_is_terminal e"
  "ce_is_terminal e \<Longrightarrow> \<not> is_delta e \<and> \<not> is_thinking e \<and> \<not> is_tool k e \<and> \<not> is_review e"
  by (auto simp: is_delta_def is_thinking_def is_tool_def is_review_def event_kinds)

lemma tool_events_of_source:
  assumes "tool_entry_ok H k t" and "x \<in> set (tool_events_of t)"
  shows "\<exists>e\<in>H. is_tool k e \<and> x = safe_tool_event e"
  using assms by (auto simp: tool_entry_ok_def tool_events_of_def split: option.splits if_splits)

lemma parts_source:
  assumes ok: "projection_ok H p" and "x \<in> set (parts p)"
  shows "\<exists>e\<in>H. ce_sequence e = ce_sequence x \<and> x = shown p e"
proof -
  consider e where "pj_reasoning_event p = Some e" "x = projr (coalesced_reasoning_event e (pj_reasoning_text p))"
    | e where "pj_response_event p = Some e" "x = projr (coalesced_response_event e (pj_response_text p))"
    | k t where "map_of (pj_tool_events p) k = Some t" "x \<in> set (tool_events_of t)"
    | "pj_review_event p = Some x" | "pj_terminal_event p = Some x"
    using assms by (auto simp: parts_def part_def tool_part_def projection_ok_def map_of_in_set split: option.splits)
  then show ?thesis
  proof cases
    case (1 e)
    then have "e \<in> H" "is_thinking e" using ok by (auto simp: projection_ok_def)
    then show ?thesis using 1(2) kinds_differ(2) [of e] coalesced_reasoning [of e "pj_reasoning_text p"]
      by (auto simp: shown_def is_thinking_def intro!: bexI [of _ e])
  next
    case (2 e)
    then have "e \<in> H" "is_delta e" using ok by (auto simp: projection_ok_def)
    then show ?thesis using 2(2) coalesced_response [of e "pj_response_text p"]
      by (auto simp: shown_def is_delta_def intro!: bexI [of _ e])
  next
    case (3 k t)
    then have "tool_entry_ok H k t" using ok by (simp add: projection_ok_def)
    from tool_events_of_source [OF this 3(2)] show ?thesis using kinds_differ(3) by (fastforce simp: shown_def)
  next
    case 4
    then show ?thesis using ok kinds_differ(4) by (auto simp: projection_ok_def shown_def intro!: bexI [of _ x])
  next
    case 5
    then show ?thesis using ok kinds_differ(5) by (auto simp: projection_ok_def shown_def intro!: bexI [of _ x])
  qed
qed

lemma parts_inj:
  assumes "projection_ok H p" and "inj_on ce_sequence H"
  shows "inj_on ce_sequence (set (parts p))"
  by (rule inj_onI) (metis assms inj_onD parts_source)


section \<open>Two projections that look the same\<close>

definition drops_response :: "ChatTaskEvent \<Rightarrow> bool" where
  "drops_response e \<longleftrightarrow> (ce_is_terminal e \<or> ce_event e = ''chat_retry_scheduled'') \<and> resets_response e"

lemma reduce_fields:
  assumes "ce_event e \<in> set CHAT_TASK_PROJECTED_EVENTS"
  shows "pj_response_text (reduce_projection m e p) = (if is_delta e then pj_response_text p @ response_delta_content (ce_data e)
      else if drops_response e then [] else pj_response_text p)"
    "pj_response_event (reduce_projection m e p) = (if is_delta e then Some e else if drops_response e then None else pj_response_event p)"
    "pj_reasoning_text (reduce_projection m e p) = (if is_thinking e then pj_reasoning_text p @ reasoning_delta_content (ce_data e)
      else if drops_response e then [] else pj_reasoning_text p)"
    "pj_reasoning_event (reduce_projection m e p) = (if is_thinking e then Some e else if drops_response e then None else pj_reasoning_event p)"
    "pj_tool_events (reduce_projection m e p) = (if \<exists>k. is_tool k e then project_tool m e (pj_tool_events p) else pj_tool_events p)"
    "pj_review_event (reduce_projection m e p) = (if is_review e then Some e else pj_review_event p)"
    "pj_terminal_event (reduce_projection m e p) = (if ce_is_terminal e then Some e else pj_terminal_event p)"
proof -
  have names: "ce_event e \<in> set CHAT_TASK_PROJECTED_EVENTS" by (rule assms)
  show "pj_response_text (reduce_projection m e p) = (if is_delta e then pj_response_text p @ response_delta_content (ce_data e)
      else if drops_response e then [] else pj_response_text p)"
    "pj_response_event (reduce_projection m e p) = (if is_delta e then Some e else if drops_response e then None else pj_response_event p)"
    "pj_reasoning_text (reduce_projection m e p) = (if is_thinking e then pj_reasoning_text p @ reasoning_delta_content (ce_data e)
      else if drops_response e then [] else pj_reasoning_text p)"
    "pj_reasoning_event (reduce_projection m e p) = (if is_thinking e then Some e else if drops_response e then None else pj_reasoning_event p)"
    "pj_tool_events (reduce_projection m e p) = (if \<exists>k. is_tool k e then project_tool m e (pj_tool_events p) else pj_tool_events p)"
    "pj_review_event (reduce_projection m e p) = (if is_review e then Some e else pj_review_event p)"
    "pj_terminal_event (reduce_projection m e p) = (if ce_is_terminal e then Some e else pj_terminal_event p)"
    using names unfolding CHAT_TASK_PROJECTED_EVENTS_def CHAT_TASK_TERMINAL_EVENTS_def append.simps list.set insert_iff empty_iff
    by (elim disjE; simp add: reduce_projection_def event_kinds is_delta_def is_thinking_def is_tool_def is_review_def project_tool_def
      drops_response_def reset_projected_response_def Let_def)+
qed

definition same_source :: "(ChatTaskEvent \<Rightarrow> string \<Rightarrow> ChatTaskEvent result) \<Rightarrow> ChatTaskEvent option \<Rightarrow> ChatTaskEvent option \<Rightarrow> bool" where
  "same_source coalesce x y = (case (x, y) of (None, None) \<Rightarrow> True | (Some e, Some e') \<Rightarrow> coalesce e = coalesce e' | _ \<Rightarrow> False)"

definition same_view :: "ChatTaskReplayProjection \<Rightarrow> ChatTaskReplayProjection \<Rightarrow> bool" where
  "same_view p q \<longleftrightarrow> pj_response_text p = pj_response_text q \<and> pj_reasoning_text p = pj_reasoning_text q \<and>
     same_source coalesced_response_event (pj_response_event p) (pj_response_event q) \<and>
     same_source coalesced_reasoning_event (pj_reasoning_event p) (pj_reasoning_event q) \<and>
     map_of (pj_tool_events p) = map_of (pj_tool_events q) \<and> wf_dict (pj_tool_events p) \<and> wf_dict (pj_tool_events q) \<and>
     pj_review_event p = pj_review_event q \<and> pj_terminal_event p = pj_terminal_event q"

lemma length_dom: "wf_dict d \<Longrightarrow> length d = card (dom (map_of d))"
  unfolding wf_dict_def dom_map_of_conv_image_fst by (metis distinct_card length_map list.set_map)

lemma project_tool_roomy:
  assumes "is_tool k e" and "wf_dict tools" and "k \<in> dom (map_of tools) \<or> card (dom (map_of tools)) < m"
  shows "map_of (project_tool m e tools) = (map_of tools)(k \<mapsto> entry_of e (map_of tools k)) \<and> wf_dict (project_tool m e tools)"
proof -
  have "project_tool m e tools = AList.update k (entry_of e (map_of tools k)) tools"
    using assms length_dom [OF assms(2)] by (auto simp: project_tool_def Let_def is_tool_def entry_of_def)
  then show ?thesis using assms(2) by (simp add: update_conv')
qed

text \<open>Room for the tools of a history.\<close>

definition tool_ids :: "ChatTaskEvent list \<Rightarrow> string set" where
  "tool_ids h = {k. \<exists>e\<in>set h. is_tool k e}"

lemma finite_tool_ids: "finite (tool_ids h)"
proof -
  have "tool_ids h \<subseteq> (\<lambda>e. event_tool_call_id (ce_data e)) ` set h" by (auto simp: tool_ids_def is_tool_def)
  then show ?thesis using finite_subset by blast
qed

lemma roomy:
  assumes "dom f \<subseteq> K" and "k \<in> K" and "finite K" and "card K \<le> m"
  shows "k \<in> dom f \<or> card (dom f) < m"
proof (cases "k \<in> dom f")
  case False
  then have "dom f \<subset> K" using assms(1,2) by blast
  from psubset_card_mono [OF assms(3) this] show ?thesis using assms(4) by simp
qed simp

lemma same_view_step:
  assumes view: "same_view p q" and known: "ce_event e \<in> set CHAT_TASK_PROJECTED_EVENTS"
    and room: "\<And>k. is_tool k e \<Longrightarrow> k \<in> dom (map_of (pj_tool_events p)) \<or> card (dom (map_of (pj_tool_events p))) < m"
  shows "same_view (reduce_projection m e p) (reduce_projection m e q)"
proof -
  note fields = reduce_fields [OF known, of m]
  have tools: "map_of (pj_tool_events (reduce_projection m e p)) = map_of (pj_tool_events (reduce_projection m e q)) \<and>
      wf_dict (pj_tool_events (reduce_projection m e p)) \<and> wf_dict (pj_tool_events (reduce_projection m e q))"
  proof (cases "\<exists>k. is_tool k e")
    case True
    then obtain k where k: "is_tool k e" by blast
    have "k \<in> dom (map_of (pj_tool_events q)) \<or> card (dom (map_of (pj_tool_events q))) < m"
      using room [OF k] view by (simp add: same_view_def)
    then show ?thesis
      using project_tool_roomy [OF k _ room [OF k]] project_tool_roomy [OF k, of "pj_tool_events q"] True view
      by (simp add: fields same_view_def)
  qed (use view in \<open>simp add: fields same_view_def\<close>)
  show ?thesis
    using view tools by (simp add: same_view_def fields(1-4,6,7)) (auto simp: same_source_def)
qed


lemma mset_concat_cong: "mset xs = mset ys \<Longrightarrow> mset (concat (map f xs)) = mset (concat (map f ys))"
proof -
  assume same: "mset xs = mset ys"
  have "mset (concat (map f zs)) = (\<Sum>x\<in>#mset zs. mset (f x))" for zs by (induction zs) simp_all
  then show ?thesis by (simp add: same)
qed

lemma mset_dict: "wf_dict d \<Longrightarrow> wf_dict d' \<Longrightarrow> map_of d = map_of d' \<Longrightarrow> mset d = mset d'"
  using map_of_in_set [of d] map_of_in_set [of d']
  by (subst set_eq_iff_mset_eq_distinct [symmetric]) (auto simp: wf_dict_def distinct_map)

lemma sort_key_mset_cong:
  assumes "mset xs = mset ys" and "inj_on f (set xs)"
  shows "sort_key f xs = sort_key f ys"
  using assms by (intro sort_key_inj_key_eq) simp_all

lemma same_view_events:
  assumes view: "same_view p q" and ok: "projection_ok H p" and inj: "inj_on ce_sequence H"
  shows "projected_events q = projected_events p"
proof -
  have parts: "coalesced c (pj_response_event q) x = coalesced c (pj_response_event p) x" if "c = coalesced_response_event" for c x
    using view that by (auto simp: same_view_def same_source_def coalesced_def split: option.splits)
  have parts': "coalesced c (pj_reasoning_event q) x = coalesced c (pj_reasoning_event p) x" if "c = coalesced_reasoning_event" for c x
    using view that by (auto simp: same_view_def same_source_def coalesced_def split: option.splits)
  have "mset (tool_part q) = mset (tool_part p)"
    unfolding tool_part_def using view by (intro mset_concat_cong mset_dict) (simp_all add: same_view_def)
  then have "mset (xs @ ys @ tool_part p @ zs) = mset (xs @ ys @ tool_part q @ zs)" for xs ys zs by simp
  note sorted = sort_key_mset_cong [OF this]
  obtain xs ys where events: "coalesced coalesced_reasoning_event (pj_reasoning_event p) (pj_reasoning_text p) = Inr xs"
      "coalesced coalesced_response_event (pj_response_event p) (pj_response_text p) = Inr ys"
    using projected_events_parts [OF ok] by (auto simp: projected_events_def)
  let ?rest = "(case pj_review_event p of None \<Rightarrow> [] | Some e \<Rightarrow> [e]) @ (case pj_terminal_event p of None \<Rightarrow> [] | Some e \<Rightarrow> [e])"
  have p: "projected_events p = Inr (sort_key ce_sequence (xs @ ys @ tool_part p @ ?rest))"
    by (simp add: projected_events_def events tool_part_def)
  have q: "projected_events q = Inr (sort_key ce_sequence (xs @ ys @ tool_part q @ ?rest))"
    using view events parts [OF refl] parts' [OF refl] by (simp add: projected_events_def tool_part_def same_view_def)
  have "set (sort_key ce_sequence (xs @ ys @ tool_part p @ ?rest)) = set (parts p)"
    using p projected_events_parts [OF ok] by (metis set_sort sum.inject(2))
  then have "inj_on ce_sequence (set (xs @ ys @ tool_part p @ ?rest))" using parts_inj [OF ok inj] by (simp only: set_sort)
  from sorted [OF this] show ?thesis by (simp only: p q)
qed

section \<open>Reducing the events of a snapshot\<close>

definition known_events :: "ChatTaskEvent list \<Rightarrow> bool" where
  "known_events xs \<longleftrightarrow> (\<forall>e\<in>set xs. ce_event e \<in> set CHAT_TASK_PROJECTED_EVENTS)"

lemma fold_response:
  assumes "known_events xs" and "(\<forall>e\<in>set xs. \<not> drops_response e) \<or> filter is_delta xs = [] \<and> pj_response_text p = [] \<and> pj_response_event p = None"
  shows "pj_response_text (fold (reduce_projection m) xs p) =
      pj_response_text p @ concat (map (\<lambda>e. response_delta_content (ce_data e)) (filter is_delta xs)) \<and>
    pj_response_event (fold (reduce_projection m) xs p) =
      (if filter is_delta xs = [] then pj_response_event p else Some (List.last (filter is_delta xs)))"
  using assms by (induction xs arbitrary: p) (auto simp: known_events_def reduce_fields split: if_splits)

lemma fold_reasoning:
  assumes "known_events xs" and "(\<forall>e\<in>set xs. \<not> drops_response e) \<or> filter is_thinking xs = [] \<and> pj_reasoning_text p = [] \<and> pj_reasoning_event p = None"
  shows "pj_reasoning_text (fold (reduce_projection m) xs p) =
      pj_reasoning_text p @ concat (map (\<lambda>e. reasoning_delta_content (ce_data e)) (filter is_thinking xs)) \<and>
    pj_reasoning_event (fold (reduce_projection m) xs p) =
      (if filter is_thinking xs = [] then pj_reasoning_event p else Some (List.last (filter is_thinking xs)))"
  using assms by (induction xs arbitrary: p) (auto simp: known_events_def reduce_fields split: if_splits)

lemma fold_marks:
  assumes "known_events xs"
  shows "pj_review_event (fold (reduce_projection m) xs p) = (if filter is_review xs = [] then pj_review_event p else Some (List.last (filter is_review xs)))"
    and "pj_terminal_event (fold (reduce_projection m) xs p) =
      (if filter ce_is_terminal xs = [] then pj_terminal_event p else Some (List.last (filter ce_is_terminal xs)))"
  using assms by (induction xs arbitrary: p) (auto simp: known_events_def reduce_fields split: if_splits)

lemma fold_tools:
  assumes "known_events xs" and "wf_dict (pj_tool_events p)" and "dom (map_of (pj_tool_events p)) \<subseteq> K" and "tool_ids xs \<subseteq> K"
    and K: "finite K" "card K \<le> m"
  shows "wf_dict (pj_tool_events (fold (reduce_projection m) xs p)) \<and>
    map_of (pj_tool_events (fold (reduce_projection m) xs p)) k =
      fold (\<lambda>e old. Some (entry_of e old)) (filter (is_tool k) xs) (map_of (pj_tool_events p) k)"
  using assms(1-4)
proof (induction xs arbitrary: p)
  case (Cons e xs)
  have known: "ce_event e \<in> set CHAT_TASK_PROJECTED_EVENTS" "known_events xs" using Cons.prems(1) by (simp_all add: known_events_def)
  have ids: "tool_ids xs \<subseteq> K" using Cons.prems(4) by (auto simp: tool_ids_def)
  show ?case
  proof (cases "\<exists>j. is_tool j e")
    case True
    then obtain j where j: "is_tool j e" by blast
    then have "j \<in> K" using Cons.prems(4) by (auto simp: tool_ids_def)
    from project_tool_roomy [OF j Cons.prems(2) roomy [OF Cons.prems(3) this K]]
    have tools: "map_of (pj_tool_events (reduce_projection m e p)) = (map_of (pj_tool_events p))(j \<mapsto> entry_of e (map_of (pj_tool_events p) j))"
        "wf_dict (pj_tool_events (reduce_projection m e p))"
      using True by (simp_all add: reduce_fields(5) [OF known(1)])
    have "dom (map_of (pj_tool_events (reduce_projection m e p))) \<subseteq> K" using Cons.prems(3) \<open>j \<in> K\<close> by (simp add: tools)
    note IH = Cons.IH [OF known(2) tools(2) this ids]
    have "is_tool k e \<longleftrightarrow> k = j" using j by (auto simp: is_tool_def)
    then show ?thesis using IH by (cases "k = j") (simp_all add: tools(1))
  next
    case False
    then have "pj_tool_events (reduce_projection m e p) = pj_tool_events p" by (simp add: reduce_fields(5) [OF known(1)])
    then show ?thesis using Cons.IH [OF known(2) _ _ ids, of "reduce_projection m e p"] Cons.prems(2,3) False by simp
  qed
qed simp


text \<open>The events of a snapshot by their kind.\<close>

lemma part_kinds:
  assumes "projection_ok H p"
  shows "\<forall>x\<in>set (part coalesced_response_event (pj_response_event p) (pj_response_text p)). is_delta x"
    and "\<forall>x\<in>set (part coalesced_reasoning_event (pj_reasoning_event p) (pj_reasoning_text p)). is_thinking x"
    and "\<forall>x\<in>set (tool_part p). \<exists>k. is_tool k x"
    and "\<forall>x\<in>set (case pj_review_event p of None \<Rightarrow> [] | Some e \<Rightarrow> [e]). is_review x"
    and "\<forall>x\<in>set (case pj_terminal_event p of None \<Rightarrow> [] | Some e \<Rightarrow> [e]). ce_is_terminal x"
proof -
  have "is_delta (projr (coalesced_response_event e (pj_response_text p)))" if "pj_response_event p = Some e" for e
    using assms that coalesced_response [of e "pj_response_text p"] by (auto simp: projection_ok_def is_delta_def)
  then show "\<forall>x\<in>set (part coalesced_response_event (pj_response_event p) (pj_response_text p)). is_delta x"
    by (auto simp: part_def split: option.splits)
  have "is_thinking (projr (coalesced_reasoning_event e (pj_reasoning_text p)))" if "pj_reasoning_event p = Some e" for e
    using assms that coalesced_reasoning [of e "pj_reasoning_text p"] by (auto simp: projection_ok_def is_thinking_def)
  then show "\<forall>x\<in>set (part coalesced_reasoning_event (pj_reasoning_event p) (pj_reasoning_text p)). is_thinking x"
    by (auto simp: part_def split: option.splits)
  have "is_tool k (safe_tool_event e)" if "is_tool k e" for k e using that by (simp add: is_tool_def)
  then have "\<exists>k. is_tool k x" if "(k, t) \<in> set (pj_tool_events p)" "x \<in> set (tool_events_of t)" for k t x
    using assms that tool_events_of_source [of H k t x] map_of_in_set [of "pj_tool_events p" k t] by (auto simp: projection_ok_def)
  then show "\<forall>x\<in>set (tool_part p). \<exists>k. is_tool k x" by (fastforce simp: tool_part_def)
qed (use assms in \<open>auto simp: projection_ok_def split: option.splits\<close>)

lemma filter_all: "\<forall>x\<in>set xs. P x \<Longrightarrow> filter P xs = xs" and filter_none: "\<forall>x\<in>set xs. \<not> P x \<Longrightarrow> filter P xs = []"
  by (simp_all add: filter_id_conv filter_empty_conv)

lemma filter_tool_part:
  assumes "projection_ok H p"
  shows "filter (is_tool k) (tool_part p) = (case map_of (pj_tool_events p) k of None \<Rightarrow> [] | Some t \<Rightarrow> tool_events_of t)"
proof -
  have own: "\<forall>x\<in>set (tool_events_of t). is_tool j x" if "tool_entry_ok H j t" for j t
    using tool_events_of_source [OF that] by (fastforce simp: is_tool_def)
  have "filter (is_tool k) (concat (map (tool_events_of \<circ> snd) d)) = (case map_of d k of None \<Rightarrow> [] | Some t \<Rightarrow> tool_events_of t)"
    if "wf_dict d" "\<forall>(j, t)\<in>set d. tool_entry_ok H j t" for d
    using that
  proof (induction d)
    case (Cons x d)
    obtain j t where x: "x = (j, t)" by (cases x)
    have IH: "filter (is_tool k) (concat (map (tool_events_of \<circ> snd) d)) = (case map_of d k of None \<Rightarrow> [] | Some t \<Rightarrow> tool_events_of t)"
      using Cons by (simp add: wf_dict_def o_def)
    have mine: "\<forall>y\<in>set (tool_events_of t). is_tool j y" using own [of j t] Cons.prems(2) x by simp
    show ?case
    proof (cases "j = k")
      case True
      then have "map_of d k = None" using Cons.prems(1) x by (simp add: wf_dict_def map_of_eq_None_iff)
      then show ?thesis using IH mine True x by (simp add: filter_all o_def)
    next
      case False
      then have "\<forall>y\<in>set (tool_events_of t). \<not> is_tool k y" using mine by (auto simp: is_tool_def)
      then show ?thesis using IH False x by (simp add: filter_none o_def)
    qed
  qed simp
  moreover have "\<forall>(j, t)\<in>set (pj_tool_events p). tool_entry_ok H j t" "wf_dict (pj_tool_events p)"
    using assms map_of_in_set [of "pj_tool_events p"] by (auto simp: projection_ok_def)
  ultimately show ?thesis by (simp add: tool_part_def)
qed

lemma filter_parts:
  assumes "projection_ok H p"
  shows "filter is_delta (parts p) = part coalesced_response_event (pj_response_event p) (pj_response_text p)"
    and "filter is_thinking (parts p) = part coalesced_reasoning_event (pj_reasoning_event p) (pj_reasoning_text p)"
    and "filter (is_tool k) (parts p) = (case map_of (pj_tool_events p) k of None \<Rightarrow> [] | Some t \<Rightarrow> tool_events_of t)"
    and "filter is_review (parts p) = (case pj_review_event p of None \<Rightarrow> [] | Some e \<Rightarrow> [e])"
    and "filter ce_is_terminal (parts p) = (case pj_terminal_event p of None \<Rightarrow> [] | Some e \<Rightarrow> [e])"
proof -
  define A where "A = part coalesced_reasoning_event (pj_reasoning_event p) (pj_reasoning_text p)"
  define B where "B = part coalesced_response_event (pj_response_event p) (pj_response_text p)"
  define D where "D = (case pj_review_event p of None \<Rightarrow> [] | Some e \<Rightarrow> [e])"
  define E where "E = (case pj_terminal_event p of None \<Rightarrow> [] | Some e \<Rightarrow> [e])"
  note kinds = part_kinds [OF assms, folded A_def B_def D_def E_def]
  have parts: "parts p = A @ B @ tool_part p @ D @ E" by (simp add: parts_def A_def B_def D_def E_def)
  have only: "filter P (xs @ ys @ zs) = ys" if "\<forall>x\<in>set xs. \<not> P x" "\<forall>x\<in>set ys. P x" "\<forall>x\<in>set zs. \<not> P x" for P xs ys zs
    using that by (simp add: filter_all filter_none)
  have A: "\<forall>x\<in>set A. \<not> is_delta x \<and> (\<forall>k. \<not> is_tool k x) \<and> \<not> is_review x \<and> \<not> ce_is_terminal x" using kinds(2) kinds_differ(2) by blast
  have B: "\<forall>x\<in>set B. \<not> is_thinking x \<and> (\<forall>k. \<not> is_tool k x) \<and> \<not> is_review x \<and> \<not> ce_is_terminal x" using kinds(1) kinds_differ(1) by blast
  have C: "\<forall>x\<in>set (tool_part p). \<not> is_delta x \<and> \<not> is_thinking x \<and> \<not> is_review x \<and> \<not> ce_is_terminal x"
    using kinds(3) kinds_differ(3) by blast
  have D: "\<forall>x\<in>set D. \<not> is_delta x \<and> \<not> is_thinking x \<and> (\<forall>k. \<not> is_tool k x) \<and> \<not> ce_is_terminal x" using kinds(4) kinds_differ(4) by blast
  have E: "\<forall>x\<in>set E. \<not> is_delta x \<and> \<not> is_thinking x \<and> (\<forall>k. \<not> is_tool k x) \<and> \<not> is_review x" using kinds(5) kinds_differ(5) by blast
  show "filter is_delta (parts p) = B" unfolding parts using A kinds(1) C D E by (intro only) auto
  show "filter is_thinking (parts p) = A" unfolding parts using B kinds(2) C D E only [of "[]"] by simp
  have "filter (is_tool k) (parts p) = filter (is_tool k) (tool_part p)"
    unfolding parts using A B D E by (simp add: filter_none)
  then show "filter (is_tool k) (parts p) = (case map_of (pj_tool_events p) k of None \<Rightarrow> [] | Some t \<Rightarrow> tool_events_of t)"
    by (simp only: filter_tool_part [OF assms])
  show "filter is_review (parts p) = D" unfolding parts using A B C E kinds(4) by (simp add: filter_none filter_all)
  show "filter ce_is_terminal (parts p) = E" unfolding parts using A B C D kinds(5) by (simp add: filter_none filter_all)
qed


lemma entry_replay:
  assumes "tool_entry_ok H k t"
  shows "fold (\<lambda>e old. Some (entry_of e old)) (sort_key ce_sequence (tool_events_of t)) None = Some t"
proof (cases "pt_started_event t")
  case None
  then show ?thesis using assms by (cases t) (auto simp: tool_entry_ok_def tool_events_of_def entry_of_def)
next
  case (Some s)
  show ?thesis
  proof (cases "s = pt_latest_event t")
    case True
    then show ?thesis using assms Some by (cases t) (auto simp: tool_entry_ok_def tool_events_of_def entry_of_def)
  next
    case False
    then show ?thesis using assms Some by (cases t) (auto simp: tool_entry_ok_def tool_events_of_def entry_of_def)
  qed
qed

lemma known_parts:
  assumes "projection_ok H p" and "x \<in> set (parts p)"
  shows "ce_event x \<in> set CHAT_TASK_PROJECTED_EVENTS" "ce_event x \<noteq> ''chat_retry_scheduled''"
proof -
  have "is_delta x \<or> is_thinking x \<or> (\<exists>k. is_tool k x) \<or> is_review x \<or> ce_is_terminal x"
    using assms(2) part_kinds [OF assms(1)] unfolding parts_def by (auto split: option.splits)
  then show "ce_event x \<in> set CHAT_TASK_PROJECTED_EVENTS" "ce_event x \<noteq> ''chat_retry_scheduled''"
    by (auto simp: is_delta_def is_thinking_def is_tool_def is_review_def event_kinds)
qed

lemma snapshot_view:
  assumes ok: "projection_ok H p" and K: "dom (map_of (pj_tool_events p)) \<subseteq> K" "finite K" "card K \<le> m"
  shows "same_view p (projection_of m (sort_key ce_sequence (parts p)))"
proof -
  let ?evs = "sort_key ce_sequence (parts p)"
  have known: "known_events ?evs" using known_parts(1) [OF ok] by (simp add: known_events_def)
  have kinds: "filter P ?evs = sort_key ce_sequence (filter P (parts p))" for P by (simp add: filter_sort)
  have drops: "pj_response_event p = None \<and> pj_reasoning_event p = None" if "x \<in> set ?evs" "drops_response x" for x
  proof -
    have "x \<in> set (filter ce_is_terminal (parts p))" "resets_response x"
      using that known_parts(2) [OF ok, of x] by (auto simp: drops_response_def)
    then show ?thesis using ok by (auto simp: filter_parts(5) [OF ok] projection_ok_def split: option.splits)
  qed
  have response: "pj_response_text (projection_of m ?evs) = pj_response_text p \<and>
      same_source coalesced_response_event (pj_response_event p) (pj_response_event (projection_of m ?evs))"
  proof (cases "pj_response_event p")
    case None
    then have "filter is_delta ?evs = []" "pj_response_text p = []" using ok by (simp_all add: kinds filter_parts(1) [OF ok] part_def projection_ok_def)
    then show ?thesis using fold_response [OF known, of new_projection m] None by (simp add: projection_of_def new_projection_def same_source_def)
  next
    case (Some e)
    have "\<forall>x\<in>set ?evs. \<not> drops_response x" using drops Some by auto
    moreover obtain e' where e': "coalesced_response_event e (pj_response_text p) = Inr e'" "response_delta_content (ce_data e') = pj_response_text p"
        "coalesced_response_event e' = coalesced_response_event e"
      using coalesced_response [of e "pj_response_text p"] ok Some by (fastforce simp: projection_ok_def is_delta_def)
    moreover have "filter is_delta ?evs = [e']" using e' Some by (simp add: kinds filter_parts(1) [OF ok] part_def)
    ultimately show ?thesis
      using fold_response [OF known, of new_projection m] Some by (simp add: projection_of_def new_projection_def same_source_def)
  qed
  have reasoning: "pj_reasoning_text (projection_of m ?evs) = pj_reasoning_text p \<and>
      same_source coalesced_reasoning_event (pj_reasoning_event p) (pj_reasoning_event (projection_of m ?evs))"
  proof (cases "pj_reasoning_event p")
    case None
    then have "filter is_thinking ?evs = []" "pj_reasoning_text p = []" using ok by (simp_all add: kinds filter_parts(2) [OF ok] part_def projection_ok_def)
    then show ?thesis using fold_reasoning [OF known, of new_projection m] None by (simp add: projection_of_def new_projection_def same_source_def)
  next
    case (Some e)
    have "\<forall>x\<in>set ?evs. \<not> drops_response x" using drops Some by auto
    moreover obtain e' where e': "coalesced_reasoning_event e (pj_reasoning_text p) = Inr e'" "reasoning_delta_content (ce_data e') = pj_reasoning_text p"
        "coalesced_reasoning_event e' = coalesced_reasoning_event e"
      using coalesced_reasoning [of e "pj_reasoning_text p"] ok Some by (fastforce simp: projection_ok_def is_thinking_def)
    moreover have "filter is_thinking ?evs = [e']" using e' Some by (simp add: kinds filter_parts(2) [OF ok] part_def)
    ultimately show ?thesis
      using fold_reasoning [OF known, of new_projection m] Some by (simp add: projection_of_def new_projection_def same_source_def)
  qed
  have ids: "tool_ids ?evs \<subseteq> K"
  proof
    fix k assume "k \<in> tool_ids ?evs"
    then have "filter (is_tool k) (parts p) \<noteq> []" by (auto simp: tool_ids_def filter_empty_conv)
    then show "k \<in> K" using K(1) by (auto simp: filter_parts(3) [OF ok] split: option.splits)
  qed
  have tools: "wf_dict (pj_tool_events (projection_of m ?evs)) \<and> map_of (pj_tool_events (projection_of m ?evs)) k = map_of (pj_tool_events p) k" for k
  proof -
    have fold: "wf_dict (pj_tool_events (projection_of m ?evs)) \<and> map_of (pj_tool_events (projection_of m ?evs)) k =
        fold (\<lambda>e old. Some (entry_of e old)) (sort_key ce_sequence (filter (is_tool k) (parts p))) None"
      using fold_tools [OF known _ _ ids K(2,3), of new_projection k] by (simp add: projection_of_def new_projection_def wf_dict_def kinds)
    show ?thesis
    proof (cases "map_of (pj_tool_events p) k")
      case (Some t)
      then have "tool_entry_ok H k t" using ok by (simp add: projection_ok_def)
      then show ?thesis using fold Some by (simp add: filter_parts(3) [OF ok] entry_replay)
    qed (use fold in \<open>simp add: filter_parts(3) [OF ok]\<close>)
  qed
  have marks: "pj_review_event (projection_of m ?evs) = pj_review_event p \<and> pj_terminal_event (projection_of m ?evs) = pj_terminal_event p"
    using fold_marks [OF known, of m new_projection]
    by (auto simp: projection_of_def kinds filter_parts(4,5) [OF ok] new_projection_def split: option.splits)
  have "wf_dict (pj_tool_events p)" using ok by (simp add: projection_ok_def)
  then show ?thesis using response reasoning tools marks by (auto simp: same_view_def)
qed

lemma same_view_fold:
  assumes "same_view p q" and "known_events xs" and "dom (map_of (pj_tool_events p)) \<subseteq> K" and "tool_ids xs \<subseteq> K" and K: "finite K" "card K \<le> m"
  shows "same_view (fold (reduce_projection m) xs p) (fold (reduce_projection m) xs q)"
  using assms(1-4)
proof (induction xs arbitrary: p q)
  case (Cons e xs)
  have known: "ce_event e \<in> set CHAT_TASK_PROJECTED_EVENTS" "known_events xs" using Cons.prems(2) by (simp_all add: known_events_def)
  have ids: "tool_ids xs \<subseteq> K" "\<And>k. is_tool k e \<Longrightarrow> k \<in> K" using Cons.prems(4) by (auto simp: tool_ids_def)
  have step: "same_view (reduce_projection m e p) (reduce_projection m e q)"
    using roomy [OF Cons.prems(3) ids(2) K] by (intro same_view_step [OF Cons.prems(1) known(1)])
  have wf: "wf_dict (pj_tool_events p)" using Cons.prems(1) by (simp add: same_view_def)
  have "dom (map_of (pj_tool_events (reduce_projection m e p))) \<subseteq> K"
  proof (cases "\<exists>k. is_tool k e")
    case True
    then obtain k where k: "is_tool k e" by blast
    then show ?thesis
      using project_tool_roomy [OF k wf roomy [OF Cons.prems(3) ids(2) [OF k] K]] Cons.prems(3) ids(2) [OF k] True
      by (simp add: reduce_fields(5) [OF known(1)])
  qed (use Cons.prems(3) in \<open>simp add: reduce_fields(5) [OF known(1)]\<close>)
  then show ?case using Cons.IH [OF step known(2) _ ids(1)] by simp
qed simp

text \<open>
  C11. The handoff from a snapshot is faithful. For every history of known events in which nothing follows a terminal event and whose
  tools fit the limit, the events of the snapshot at any point exist, and a client that reduces them and then the events after
  that point has at the end the same effective state, with the same snapshot, as the buffer that reduced the whole history.
\<close>

theorem snapshot_handoff:
  assumes "history_ok (h1 @ h2)" and "card (tool_ids (h1 @ h2)) \<le> m"
  shows "\<exists>evs. projected_events (projection_of m h1) = Inr evs \<and>
    projected_events (projection_of m (evs @ h2)) = projected_events (projection_of m (h1 @ h2))"
proof -
  let ?p = "projection_of m h1" and ?K = "tool_ids (h1 @ h2)"
  have "history_ok h1"
    using assms(1) by (auto simp: history_ok_def sorted_wrt_append butlast_append dest: in_set_butlastD split: if_splits)
  then have ok: "projection_ok (set h1) ?p" by (rule projection_of_ok)
  have "dom (map_of (pj_tool_events ?p)) \<subseteq> ?K"
    using ok by (fastforce simp: projection_ok_def tool_entry_ok_def tool_ids_def)
  note room = this finite_tool_ids assms(2)
  have known: "known_events h2" using assms(1) by (simp add: known_events_def history_ok_def)
  have "tool_ids h2 \<subseteq> ?K" by (auto simp: tool_ids_def)
  from same_view_fold [OF snapshot_view [OF ok room] known room(1) this room(2,3)]
  have "same_view (projection_of m (h1 @ h2)) (projection_of m (sort_key ce_sequence (parts ?p) @ h2))" by (simp add: projection_of_def)
  moreover have "inj_on ce_sequence (set (h1 @ h2))"
  proof -
    have "sorted_wrt (\<lambda>a b. ce_sequence a < ce_sequence b) (h1 @ h2)" using assms(1) by (simp add: history_ok_def)
    then have "sorted_wrt (<) (map ce_sequence (h1 @ h2))" unfolding sorted_wrt_map .
    then have "distinct (map ce_sequence (h1 @ h2))" unfolding strict_sorted_iff by (rule conjunct2)
    then show ?thesis by (simp only: distinct_map)
  qed
  ultimately have "projected_events (projection_of m (sort_key ce_sequence (parts ?p) @ h2)) = projected_events (projection_of m (h1 @ h2))"
    using projection_of_ok [OF assms(1)] by (intro same_view_events)
  then show ?thesis using projected_events_parts [OF ok] by blast
qed


text \<open>A reply in two pieces around a tool call, taken over between the pieces.\<close>

definition delta_event :: "int \<Rightarrow> string \<Rightarrow> ChatTaskEvent" where
  "delta_event n content = \<lparr>ce_task_id = ''a'', ce_sequence = n, ce_event = ''delta'',
     ce_data = [(''choices'', JList [JDict [(''delta'', JDict [(''content'', JStr content)])]])], ce_created_at = 0\<rparr>"

definition tool_event :: "int \<Rightarrow> string \<Rightarrow> ChatTaskEvent" where
  "tool_event n event = \<lparr>ce_task_id = ''a'', ce_sequence = n, ce_event = event, ce_data = [(''tool_call_id'', JStr ''t1''), (''args'', JNull)],
     ce_created_at = 0\<rparr>"

theorem snapshot_handoff_witness:
  "let h1 = [delta_event 1 ''Hel'', tool_event 2 ''tool_call_started'']; h2 = [tool_event 3 ''tool_call_finished'', delta_event 4 ''lo'']
   in \<exists>evs. projected_events (projection_of 1 h1) = Inr evs \<and>
     projected_events (projection_of 1 (evs @ h2)) = projected_events (projection_of 1 (h1 @ h2))"
proof -
  let ?h1 = "[delta_event 1 ''Hel'', tool_event 2 ''tool_call_started'']" and ?h2 = "[tool_event 3 ''tool_call_finished'', delta_event 4 ''lo'']"
  have "history_ok (?h1 @ ?h2)" by (simp add: history_ok_def delta_event_def tool_event_def event_kinds)
  moreover have "event_tool_call_id [(''tool_call_id'', JStr ''t1''), (''args'', JNull)] = ''t1''" by code_simp
  then have "tool_ids (?h1 @ ?h2) \<subseteq> {''t1''}" by (auto simp: tool_ids_def is_tool_def delta_event_def tool_event_def)
  then have "card (tool_ids (?h1 @ ?h2)) \<le> 1" using card_mono [of "{''t1''}"] by fastforce
  ultimately show ?thesis unfolding Let_def by (rule snapshot_handoff)
qed

text \<open>
  Beyond the limit the handoff is not exact. The buffer drops the tool that it has known for longest, a client the one whose first
  event in the snapshot is oldest: with room for two tools, of which the first has started again, a third one displaces
  the first in the buffer and the second in the client.
\<close>

definition started_tool :: "int \<Rightarrow> string \<Rightarrow> ChatTaskEvent" where
  "started_tool n i = \<lparr>ce_task_id = ''a'', ce_sequence = n, ce_event = ''tool_call_started'', ce_data = [(''tool_call_id'', JStr i)],
     ce_created_at = 0\<rparr>"

lemma full_projection_drops_another_tool:
  "let h1 = [started_tool 1 ''t1'', started_tool 2 ''t2'', started_tool 3 ''t1'']; h2 = [started_tool 4 ''t3'']
   in map_sum id (map ce_sequence) (projected_events (projection_of 2 (h1 @ h2))) = Inr [2, 4] \<and>
      map_sum id (map ce_sequence) (projected_events (projection_of 2 (projr (projected_events (projection_of 2 h1)) @ h2))) = Inr [3, 4]"
  by code_simp

end
