(* ===== verification/Tool_History.thy ===== *)
theory Tool_History
  imports Py_Prelude
begin

text \<open>
  The integrity of tool calls in a chat history, core/chat/tool_history.py. The messages are those of the provider library:
  requests and responses with parts. A part has the discriminator \<open>part_kind\<close>, its content, and the fields
  \<open>tool_name\<close>, \<open>tool_call_id\<close> and \<open>id\<close>, \<open>None\<close> where the part has no such field or it is unset; everything else that a message
  carries is one opaque value. Subclasses of the part classes are not distinguished.
\<close>

section \<open>Messages\<close>

datatype part_kind =
    UserPrompt | SystemPrompt | TextPart | ThinkingPart | ToolCall | ToolReturn | RetryPrompt | NativeToolReturn | OtherPart string

text \<open>The content: absent, text, or other data with the JSON text that a projection renders it to.\<close>

datatype part_content = NoContent | TextContent string | DataContent string

record message_part =
  mp_kind :: part_kind
  mp_content :: part_content
  mp_tool_name :: "string option"
  mp_tool_call_id :: "string option"
  mp_item_id :: "string option"

datatype message_type = ModelRequest | ModelResponse

record model_message =
  mm_type :: message_type
  mm_parts :: "message_part list"
  mm_other :: string

section \<open>The protocol\<close>

record ToolHistoryIssue =
  hi_code :: string
  hi_severity :: string
  hi_tool_call_id :: string
  hi_message_index :: nat
  hi_detail :: string

record ToolHistoryIntegrity =
  ti_status :: string
  ti_tool_call_count :: nat
  ti_tool_return_count :: nat
  ti_multi_call_batch_count :: nat
  ti_multi_return_batch_count :: nat
  ti_issues :: "ToolHistoryIssue list"

definition integrity_ok :: "ToolHistoryIntegrity \<Rightarrow> bool" where
  "integrity_ok integrity \<longleftrightarrow> ti_issues integrity = []"

record ToolHistoryInvocation =
  hv_tool_call_id :: string
  hv_tool_name :: "string option"
  hv_is_retry :: bool

record ToolHistoryProtocolState =
  ph_pending :: "(string, nat \<times> string option) dict"
  ph_issues :: "ToolHistoryIssue list"
  ph_last_message_index :: "nat option"
  ph_last_reply_origins :: "nat set"

definition new_protocol :: ToolHistoryProtocolState where
  "new_protocol = \<lparr>ph_pending = [], ph_issues = [], ph_last_message_index = None, ph_last_reply_origins = {}\<rparr>"

text \<open>The text of a tool id counts as missing when it is blank.\<close>

definition blank :: "string \<Rightarrow> bool" where
  "blank s \<longleftrightarrow> strip s = []"

definition duplicates :: "string list \<Rightarrow> string list" where
  "duplicates values = sort (filter (\<lambda>v. 1 < count_list values v) (fromkeys values))"

definition add_issue :: "string \<Rightarrow> string \<Rightarrow> string \<Rightarrow> nat \<Rightarrow> string \<Rightarrow> ToolHistoryProtocolState \<Rightarrow> ToolHistoryProtocolState" where
  "add_issue code severity tool_call_id index detail st =
     st\<lparr>ph_issues := ph_issues st @ [\<lparr>hi_code = code, hi_severity = severity, hi_tool_call_id = tool_call_id, hi_message_index = index,
       hi_detail = detail\<rparr>]\<rparr>"

definition record_call :: "nat \<Rightarrow> ToolHistoryInvocation \<Rightarrow> ToolHistoryProtocolState \<Rightarrow> ToolHistoryProtocolState" where
  "record_call index call st =
     (let tool_call_id = hv_tool_call_id call
      in if blank tool_call_id
         then add_issue ''missing_tool_call_id'' ''error'' [] index ''A tool call requires a non-empty invocation id.'' st
         else let st = (if map_of (ph_pending st) tool_call_id \<noteq> None
                        then add_issue ''duplicate_unreturned_tool_call'' ''error'' tool_call_id index
                          ''A tool-call id was reused before its prior call returned.'' st
                        else st)
              in st\<lparr>ph_pending := AList.update tool_call_id (index, hv_tool_name call) (ph_pending st)\<rparr>)"

text \<open>One reply, with the origins of the replies of this message so far.\<close>

definition record_reply ::
  "nat \<Rightarrow> bool \<Rightarrow> nat option \<Rightarrow> nat set \<Rightarrow> ToolHistoryInvocation \<Rightarrow> ToolHistoryProtocolState \<times> nat set \<Rightarrow>
    ToolHistoryProtocolState \<times> nat set" where
  "record_reply index reply_only prior_message_index prior_reply_origins reply so =
     (case so of (st, origins) \<Rightarrow>
        let tool_call_id = hv_tool_call_id reply
        in if blank tool_call_id
           then (add_issue ''missing_tool_return_id'' ''error'' [] index ''A tool return requires a non-empty invocation id.'' st, origins)
           else case map_of (ph_pending st) tool_call_id of
             None \<Rightarrow> (add_issue ''orphan_tool_return'' ''error'' tool_call_id index
               ''A tool return has no preceding unmatched tool call.'' st, origins)
           | Some (call_index, tool_name) \<Rightarrow>
               let mismatch = hv_tool_name reply \<noteq> tool_name;
                   st = (if mismatch then add_issue ''tool_return_name_mismatch'' ''error'' tool_call_id index
                           ''A tool return names a different tool from its call.'' st else st)
               in if mismatch \<and> hv_is_retry reply then (st, origins)
                  else let st = st\<lparr>ph_pending := AList.delete tool_call_id (ph_pending st)\<rparr>;
                           continues_split_reply_batch = (reply_only \<and> prior_message_index \<noteq> None \<and>
                             Suc (the prior_message_index) = index \<and> call_index \<in> prior_reply_origins)
                       in (if index \<noteq> call_index + 1 \<and> \<not> continues_split_reply_batch
                           then add_issue ''non_adjacent_tool_return'' ''warning'' tool_call_id index
                             ''A tool return is not in the message immediately after its call.'' st
                           else st, insert call_index origins))"

definition record_message ::
  "nat \<Rightarrow> ToolHistoryInvocation list \<Rightarrow> ToolHistoryInvocation list \<Rightarrow> bool \<Rightarrow> ToolHistoryProtocolState \<Rightarrow> ToolHistoryProtocolState" where
  "record_message index calls replies reply_only st =
     (let given_ids = (\<lambda>xs. filter (\<lambda>i. \<not> blank i) (map hv_tool_call_id xs));
          st1 = fold (\<lambda>i. add_issue ''duplicate_tool_call_in_message'' ''error'' i index
            ''A single message contains duplicate tool-call ids.'') (duplicates (given_ids calls)) st;
          st2 = fold (\<lambda>i. add_issue ''duplicate_tool_return_in_message'' ''error'' i index
            ''A single message contains duplicate tool-return ids.'') (duplicates (given_ids replies)) st1;
          st3 = fold (record_call index) calls st2;
          (st4, origins) = fold (record_reply index reply_only (ph_last_message_index st) (ph_last_reply_origins st)) replies (st3, {})
      in st4\<lparr>ph_last_message_index := Some index, ph_last_reply_origins := (if reply_only then origins else {})\<rparr>)"

definition unmatched_call_issues :: "ToolHistoryProtocolState \<Rightarrow> ToolHistoryIssue list" where
  "unmatched_call_issues st =
     map (\<lambda>(tool_call_id, call_index, _). \<lparr>hi_code = ''orphan_tool_call'', hi_severity = ''error'', hi_tool_call_id = tool_call_id,
       hi_message_index = call_index, hi_detail = ''A tool call has no matching tool return.''\<rparr>) (ph_pending st)"

section \<open>Messages of a provider\<close>

definition tool_call_parts :: "model_message \<Rightarrow> message_part list" where
  "tool_call_parts message = (if mm_type message = ModelResponse then filter (\<lambda>p. mp_kind p = ToolCall) (mm_parts message) else [])"

definition is_reply_part :: "message_part \<Rightarrow> bool" where
  "is_reply_part p \<longleftrightarrow> mp_kind p = ToolReturn \<or> mp_kind p = RetryPrompt \<and> mp_tool_name p \<noteq> None"

definition tool_reply_parts :: "model_message \<Rightarrow> message_part list" where
  "tool_reply_parts message = (if mm_type message = ModelRequest then filter is_reply_part (mm_parts message) else [])"

definition part_call_id :: "message_part \<Rightarrow> string" where
  "part_call_id p = (case mp_tool_call_id p of None \<Rightarrow> [] | Some i \<Rightarrow> i)"

definition model_message_tool_invocations :: "model_message \<Rightarrow> ToolHistoryInvocation list \<times> ToolHistoryInvocation list" where
  "model_message_tool_invocations message =
     (map (\<lambda>p. \<lparr>hv_tool_call_id = part_call_id p, hv_tool_name = mp_tool_name p, hv_is_retry = False\<rparr>) (tool_call_parts message),
      map (\<lambda>p. \<lparr>hv_tool_call_id = part_call_id p, hv_tool_name = mp_tool_name p, hv_is_retry = (mp_kind p = RetryPrompt)\<rparr>)
        (tool_reply_parts message))"

definition model_message_is_tool_reply_only :: "model_message \<Rightarrow> bool" where
  "model_message_is_tool_reply_only message \<longleftrightarrow>
     mm_type message = ModelRequest \<and> mm_parts message \<noteq> [] \<and> list_all is_reply_part (mm_parts message)"

definition step_message :: "nat \<times> model_message \<Rightarrow> ToolHistoryProtocolState \<Rightarrow> ToolHistoryProtocolState" where
  "step_message im st = (case im of (index, message) \<Rightarrow>
     case model_message_tool_invocations message of (calls, replies) \<Rightarrow>
       record_message index calls replies (model_message_is_tool_reply_only message) st)"

definition analyze_tool_history :: "model_message list \<Rightarrow> ToolHistoryIntegrity" where
  "analyze_tool_history messages =
     (let protocol = fold step_message (List.enumerate 0 messages) new_protocol;
          calls = map (\<lambda>m. length (fst (model_message_tool_invocations m))) messages;
          returns = map (\<lambda>m. length (filter (\<lambda>r. \<not> hv_is_retry r) (snd (model_message_tool_invocations m)))) messages;
          issues = ph_issues protocol @ unmatched_call_issues protocol
      in \<lparr>ti_status = (if issues = [] then ''ok'' else ''issues''), ti_tool_call_count = sum_list calls, ti_tool_return_count = sum_list returns,
          ti_multi_call_batch_count = length (filter (\<lambda>n. 1 < n) calls), ti_multi_return_batch_count = length (filter (\<lambda>n. 1 < n) returns),
          ti_issues = issues\<rparr>)"

text \<open>
  The analysis of payloads: each is validated by the library into a message or into the text of its error. The messages
  that are left are numbered without the invalid ones.
\<close>

definition analyze_tool_history_payloads :: "('p \<Rightarrow> string + model_message) \<Rightarrow> 'p list \<Rightarrow> ToolHistoryIntegrity" where
  "analyze_tool_history_payloads validate payloads =
     (let checked = List.enumerate 0 (map validate payloads);
          issues = concat (map (\<lambda>(index, r). case r of Inr _ \<Rightarrow> []
            | Inl exc \<Rightarrow> [\<lparr>hi_code = ''invalid_message_payload'', hi_severity = ''error'', hi_tool_call_id = [], hi_message_index = index,
                hi_detail = ''Message payload could not be decoded: '' @ exc\<rparr>]) checked);
          integrity = analyze_tool_history (concat (map (\<lambda>(_, r). case r of Inl _ \<Rightarrow> [] | Inr m \<Rightarrow> [m]) checked))
      in if issues = [] then integrity
         else integrity\<lparr>ti_status := ''issues'', ti_issues := issues @ ti_issues integrity\<rparr>)"

end
