(* ===== verification/Chat_Store.thy ===== *)
theory Chat_Store
  imports Tool_History Py_Float Identity
begin

text \<open>
  The store of chat sessions, core/chat/chat_store.py: messages, tool events and context checkpoints of sessions in SQLite.
  An operation is one transaction: it returns the new tables or raises and leaves them as they were. \<open>CURRENT_TIMESTAMP\<close> is the
  argument \<open>now\<close>, in seconds. The serialization of messages by the provider library, the parts that SQLite's JSON functions
  read from a stored text (\<open>ce_parts\<close>, nothing where the text is malformed) and the setting that keeps reasoning parts are
  fields of \<open>chat_env\<close>. Log records, the retrieval index and \<open>search_discovery_text\<close> are not modelled.
\<close>

section \<open>Tables\<close>

record chat_env =
  ce_dump :: "model_message \<Rightarrow> string"
  ce_load :: "string \<Rightarrow> model_message option"
  ce_parts :: "string \<Rightarrow> message_part list option"
  ce_dump_list :: "model_message list \<Rightarrow> string"
  ce_load_list :: "string \<Rightarrow> model_message list option"
  ce_persist_reasoning :: bool

datatype chat_exn =
    ChatError pyexn
  | ChatHistoryCorruptionError string string "int option" "string option"
  | OperationalError string
  | LookupError string

type_synonym 'a chat_result = "chat_exn + 'a"

definition cbind :: "'a chat_result \<Rightarrow> ('a \<Rightarrow> 'b chat_result) \<Rightarrow> 'b chat_result" where
  "cbind m f = (case m of Inl x \<Rightarrow> Inl x | Inr x \<Rightarrow> f x)"

fun cmap :: "('a \<Rightarrow> 'b chat_result) \<Rightarrow> 'a list \<Rightarrow> 'b list chat_result" where
  "cmap f [] = Inr []"
| "cmap f (x # xs) = cbind (f x) (\<lambda>y. cbind (cmap f xs) (\<lambda>ys. Inr (y # ys)))"

abbreviation value_error :: "string \<Rightarrow> 'a chat_result" where
  "value_error m \<equiv> Inl (ChatError (ValueError m))"

abbreviation integrity_error :: "string \<Rightarrow> 'a chat_result" where
  "integrity_error m \<equiv> Inl (ChatError (IntegrityError m))"

definition of_py :: "'a result \<Rightarrow> 'a chat_result" where
  "of_py r = (case r of Inl x \<Rightarrow> Inl (ChatError x) | Inr x \<Rightarrow> Inr x)"

type_synonym timestamp = nat

record StoredChatSession =
  st_session_id :: string
  st_vault_name :: string
  st_owner_principal_id :: string
  st_created_at :: timestamp
  st_last_activity_at :: timestamp
  st_title :: "string option"
  st_metadata_json :: "string option"

record message_row =
  mr_id :: nat
  mr_session_id :: string
  mr_vault_name :: string
  mr_sequence_index :: int
  mr_direction :: string
  mr_message_type :: string
  mr_role :: string
  mr_content_text :: string
  mr_message_json :: string
  mr_created_at :: timestamp

record StoredChatMessage =
  sm_sequence_index :: int
  sm_fork_sequence_index :: "int option"
  sm_direction :: string
  sm_message_type :: string
  sm_role :: string
  sm_content_text :: string
  sm_created_at :: timestamp
  sm_message_json :: string
  sm_message :: model_message

record StoredContextCheckpoint =
  ck_id :: nat
  ck_checkpoint_id :: string
  ck_session_id :: string
  ck_vault_name :: string
  ck_created_at :: timestamp
  ck_source :: string
  ck_checkpoint_kind :: string
  ck_message_count_before :: int
  ck_last_message_sequence_index :: int
  ck_summary_message_json :: string
  ck_replacement_history_json :: string
  ck_replacement_source_sequence_indexes_json :: "string option"
  ck_metadata_json :: "string option"

record StoredChatToolEvent =
  te_tool_call_id :: string
  te_tool_name :: string
  te_event_type :: string
  te_created_at :: timestamp
  te_args_json :: "string option"
  te_result_text :: "string option"
  te_result_metadata_json :: "string option"
  te_artifact_ref :: "string option"

record tool_event_row =
  tr_id :: nat
  tr_session_id :: string
  tr_vault_name :: string
  tr_event :: StoredChatToolEvent

text \<open>The tables with the counters of their \<open>AUTOINCREMENT\<close> keys.\<close>

record chat_db =
  cd_sessions :: "StoredChatSession list"
  cd_messages :: "message_row list"
  cd_tool_events :: "tool_event_row list"
  cd_checkpoints :: "StoredContextCheckpoint list"
  cd_last_message_id :: nat
  cd_last_event_id :: nat
  cd_last_checkpoint_id :: nat

definition empty_chat_db :: chat_db where
  "empty_chat_db = \<lparr>cd_sessions = [], cd_messages = [], cd_tool_events = [], cd_checkpoints = [], cd_last_message_id = 0,
     cd_last_event_id = 0, cd_last_checkpoint_id = 0\<rparr>"

section \<open>Text and persistence of a message\<close>

text \<open>\<open>project_message\<close> of core/utils/messages.py, as far as the role and the text go.\<close>

definition tool_label :: "message_part \<Rightarrow> string" where
  "tool_label p =
     (case mp_tool_name p of Some n \<Rightarrow> if n \<noteq> [] then n
        else (case mp_tool_call_id p of Some i \<Rightarrow> if i \<noteq> [] then i else ''tool'' | None \<Rightarrow> ''tool'')
      | None \<Rightarrow> (case mp_tool_call_id p of Some i \<Rightarrow> if i \<noteq> [] then i else ''tool'' | None \<Rightarrow> ''tool''))"

definition rendered_part :: "message_part \<Rightarrow> string list" where
  "rendered_part p =
     (case mp_kind p of
        UserPrompt \<Rightarrow> (case mp_content p of TextContent t \<Rightarrow> [t] | _ \<Rightarrow> [])
      | TextPart \<Rightarrow> (case mp_content p of TextContent t \<Rightarrow> [t] | _ \<Rightarrow> [])
      | SystemPrompt \<Rightarrow> (case mp_content p of TextContent t \<Rightarrow> [t] | _ \<Rightarrow> [])
      | ToolReturn \<Rightarrow> (case mp_content p of NoContent \<Rightarrow> [] | TextContent t \<Rightarrow> if t = [] then [] else [''['' @ tool_label p @ ''] '' @ t]
          | DataContent t \<Rightarrow> if t = [] then [] else [''['' @ tool_label p @ ''] '' @ t])
      | NativeToolReturn \<Rightarrow> (case mp_content p of NoContent \<Rightarrow> [] | TextContent t \<Rightarrow> if t = [] then [] else [''['' @ tool_label p @ ''] '' @ t]
          | DataContent t \<Rightarrow> if t = [] then [] else [''['' @ tool_label p @ ''] '' @ t])
      | ToolCall \<Rightarrow> [''['' @ tool_label p @ ''] (tool call)'']
      | _ \<Rightarrow> [])"

definition extract_role_and_text :: "model_message \<Rightarrow> string \<times> string" where
  "extract_role_and_text m =
     (let role = (case mm_type m of ModelRequest \<Rightarrow> ''user'' | ModelResponse \<Rightarrow> ''assistant'');
          rendered = concat (map rendered_part (mm_parts m))
      in if rendered = [] then (role, [])
         else (if list_ex (\<lambda>p. mp_kind p = SystemPrompt) (mm_parts m) \<and> role = ''user'' then ''system'' else role, str_join [CHR 0x0A] rendered))"

definition strip_response_part_provider_item_id :: "message_part \<Rightarrow> message_part" where
  "strip_response_part_provider_item_id p =
     p\<lparr>mp_item_id := None, mp_tool_call_id := map_option (\<lambda>i. fst (str_partition (CHR ''|'') i)) (mp_tool_call_id p)\<rparr>"

definition message_for_persistence :: "bool \<Rightarrow> model_message \<Rightarrow> model_message" where
  "message_for_persistence persist_reasoning_parts m =
     (if persist_reasoning_parts \<or> mm_type m \<noteq> ModelResponse then m
      else m\<lparr>mm_parts := map strip_response_part_provider_item_id (filter (\<lambda>p. mp_kind p \<noteq> ThinkingPart) (mm_parts m))\<rparr>)"

definition message_for_model_history :: "bool \<Rightarrow> model_message \<Rightarrow> model_message" where
  "message_for_model_history persist_reasoning_parts m =
     (if mm_type m \<noteq> ModelResponse then m
      else if \<not> persist_reasoning_parts then message_for_persistence False m
      else if list_ex (\<lambda>p. mp_kind p = ThinkingPart) (mm_parts m) then m
      else m\<lparr>mm_parts := map strip_response_part_provider_item_id (mm_parts m)\<rparr>)"

definition message_type_name :: "model_message \<Rightarrow> string" where
  "message_type_name m = (case mm_type m of ModelRequest \<Rightarrow> ''ModelRequest'' | ModelResponse \<Rightarrow> ''ModelResponse'')"

definition direction_of :: "model_message \<Rightarrow> string" where
  "direction_of m = (if mm_type m = ModelResponse then ''response'' else ''request'')"

section \<open>Sessions and their metadata\<close>

definition quoted_id :: "string \<Rightarrow> string" where
  "quoted_id i = [CHR 0x27] @ i @ [CHR 0x27]"

definition find_session :: "string \<Rightarrow> string \<Rightarrow> chat_db \<Rightarrow> StoredChatSession option" where
  "find_session session_id vault_name d =
     find (\<lambda>s. st_session_id s = session_id \<and> st_vault_name s = vault_name) (cd_sessions d)"

definition find_session_by_id :: "string \<Rightarrow> chat_db \<Rightarrow> StoredChatSession option" where
  "find_session_by_id session_id d = find (\<lambda>s. st_session_id s = session_id) (cd_sessions d)"

definition update_session ::
  "string \<Rightarrow> string \<Rightarrow> (StoredChatSession \<Rightarrow> StoredChatSession) \<Rightarrow> chat_db \<Rightarrow> chat_db" where
  "update_session session_id vault_name f d =
     d\<lparr>cd_sessions := map (\<lambda>s. if st_session_id s = session_id \<and> st_vault_name s = vault_name then f s else s) (cd_sessions d)\<rparr>"

definition parsed_dict :: "string option \<Rightarrow> (string, json) dict" where
  "parsed_dict text =
     (case text of None \<Rightarrow> [] | Some t \<Rightarrow>
        if t = [] then [] else (case json_loads t of Some (JDict parsed) \<Rightarrow> parsed | _ \<Rightarrow> []))"

definition session_metadata :: "string \<Rightarrow> string \<Rightarrow> chat_db \<Rightarrow> (string, json) dict" where
  "session_metadata session_id vault_name d =
     (case find_session session_id vault_name d of None \<Rightarrow> [] | Some s \<Rightarrow> parsed_dict (st_metadata_json s))"

text \<open>
  \<open>int(raw)\<close> for JSON values, nothing where it raises. An infinite float, which no writer of the program stores as a revision and for
  which the store would raise OverflowError, is taken for unreadable like the values that raise TypeError or ValueError.
\<close>

definition int_of_json :: "json \<Rightarrow> int option" where
  "int_of_json j =
     (case j of JInt i \<Rightarrow> Some i | JBool b \<Rightarrow> Some (if b then 1 else 0) | JStr s \<Rightarrow> int_of_string s
      | JFloat f \<Rightarrow> (case int_of_float (float_of_text f) of Inr i \<Rightarrow> Some i | Inl _ \<Rightarrow> None)
      | _ \<Rightarrow> None)"

definition metadata_history_revision :: "(string, json) dict \<Rightarrow> int" where
  "metadata_history_revision metadata =
     (case map_of metadata ''history_revision'' of None \<Rightarrow> 0
      | Some raw \<Rightarrow> (case int_of_json raw of None \<Rightarrow> 0 | Some revision \<Rightarrow> max revision 0))"

definition dumped :: "(string, json) dict \<Rightarrow> string" where
  "dumped metadata = json_dumps False (JDict metadata)"

definition advanced :: "(string, json) dict \<Rightarrow> (string, json) dict" where
  "advanced metadata = dict_update metadata [(''history_revision'', JInt (metadata_history_revision metadata + 1))]"

text \<open>\<open>_upsert_session\<close>: the id of a session is unique over all vaults.\<close>

definition upsert_session ::
  "timestamp \<Rightarrow> string \<Rightarrow> string \<Rightarrow> string option \<Rightarrow> chat_db \<Rightarrow> chat_db chat_result" where
  "upsert_session now session_id vault_name owner_principal_id d =
     (let existing = find_session_by_id session_id d
      in case (existing, owner_principal_id) of
           (None, None) \<Rightarrow> value_error (''Owner principal is required to create chat session '' @ quoted_id session_id @ ''.'')
         | _ \<Rightarrow>
             cbind (of_py (normalize_principal_id (case owner_principal_id of Some p \<Rightarrow> p
               | None \<Rightarrow> st_owner_principal_id (the existing)))) (\<lambda>normalized_owner.
             case existing of
               Some s \<Rightarrow>
                 if st_owner_principal_id s \<noteq> normalized_owner
                 then value_error (''Chat session '' @ quoted_id session_id @ '' belongs to a different principal.'')
                 else if st_vault_name s = vault_name
                 then Inr (update_session session_id vault_name (\<lambda>s. s\<lparr>st_last_activity_at := now\<rparr>) d)
                 else integrity_error ''UNIQUE constraint failed: chat_sessions.session_id''
             | None \<Rightarrow>
                 Inr (d\<lparr>cd_sessions := cd_sessions d @ [\<lparr>st_session_id = session_id, st_vault_name = vault_name,
                   st_owner_principal_id = normalized_owner, st_created_at = now, st_last_activity_at = now, st_title = None,
                   st_metadata_json = None\<rparr>]\<rparr>)))"

definition touch_session ::
  "timestamp \<Rightarrow> string \<Rightarrow> string \<Rightarrow> (string, json) dict \<Rightarrow> bool \<Rightarrow> chat_db \<Rightarrow> chat_db" where
  "touch_session now session_id vault_name metadata_update advance_history_revision d =
     (if metadata_update \<noteq> [] \<or> advance_history_revision
      then let metadata = dict_update (session_metadata session_id vault_name d) metadata_update;
               metadata = (if advance_history_revision then advanced metadata else metadata)
           in update_session session_id vault_name (\<lambda>s. s\<lparr>st_last_activity_at := now, st_metadata_json := Some (dumped metadata)\<rparr>) d
      else update_session session_id vault_name (\<lambda>s. s\<lparr>st_last_activity_at := now\<rparr>) d)"

section \<open>Messages\<close>

definition messages_of :: "string \<Rightarrow> string \<Rightarrow> chat_db \<Rightarrow> message_row list" where
  "messages_of session_id vault_name d =
     sort_key mr_sequence_index (filter (\<lambda>m. mr_session_id m = session_id \<and> mr_vault_name m = vault_name) (cd_messages d))"

definition highest_message_sequence_index :: "string \<Rightarrow> string \<Rightarrow> chat_db \<Rightarrow> int" where
  "highest_message_sequence_index session_id vault_name d =
     fold max (map mr_sequence_index (messages_of session_id vault_name d)) (- 1)"

definition next_sequence_index :: "string \<Rightarrow> string \<Rightarrow> chat_db \<Rightarrow> int" where
  "next_sequence_index session_id vault_name d =
     (case map mr_sequence_index (messages_of session_id vault_name d) of [] \<Rightarrow> 0 | i # is \<Rightarrow> fold max is i + 1)"

definition insert_message ::
  "chat_env \<Rightarrow> timestamp \<Rightarrow> string \<Rightarrow> string \<Rightarrow> int \<times> model_message \<Rightarrow> chat_db \<Rightarrow> chat_db" where
  "insert_message e now session_id vault_name im d =
     (case im of (sequence_index, message) \<Rightarrow>
        let message = message_for_persistence (ce_persist_reasoning e) message; (role, content_text) = extract_role_and_text message
        in d\<lparr>cd_last_message_id := Suc (cd_last_message_id d),
             cd_messages := cd_messages d @ [\<lparr>mr_id = Suc (cd_last_message_id d), mr_session_id = session_id, mr_vault_name = vault_name,
               mr_sequence_index = sequence_index, mr_direction = direction_of message, mr_message_type = message_type_name message,
               mr_role = role, mr_content_text = content_text, mr_message_json = ce_dump e message, mr_created_at = now\<rparr>]\<rparr>)"

definition numbered :: "int \<Rightarrow> 'a list \<Rightarrow> (int \<times> 'a) list" where
  "numbered start xs = zip (map (\<lambda>n. start + int n) [0..<length xs]) xs"

definition add_messages ::
  "chat_env \<Rightarrow> timestamp \<Rightarrow> string \<Rightarrow> string \<Rightarrow> model_message list \<Rightarrow> chat_db \<Rightarrow> (int list \<times> chat_db) chat_result" where
  "add_messages e now session_id vault_name messages d =
     (if messages = [] then Inr ([], d)
      else cbind (upsert_session now session_id vault_name None d) (\<lambda>d.
        let next_index = next_sequence_index session_id vault_name d;
            d = fold (insert_message e now session_id vault_name) (numbered next_index messages) d
        in Inr (map fst (numbered next_index messages), touch_session now session_id vault_name [] True d)))"

definition replace_session_messages ::
  "chat_env \<Rightarrow> timestamp \<Rightarrow> string \<Rightarrow> string \<Rightarrow> model_message list \<Rightarrow> (string, json) dict \<Rightarrow> chat_db \<Rightarrow> (unit \<times> chat_db) chat_result" where
  "replace_session_messages e now session_id vault_name messages metadata_update d =
     cbind (upsert_session now session_id vault_name None d) (\<lambda>d.
     let d = d\<lparr>cd_checkpoints := filter (\<lambda>c. \<not> (ck_session_id c = session_id \<and> ck_vault_name c = vault_name)) (cd_checkpoints d),
               cd_messages := filter (\<lambda>m. \<not> (mr_session_id m = session_id \<and> mr_vault_name m = vault_name)) (cd_messages d)\<rparr>;
         d = fold (insert_message e now session_id vault_name) (numbered 0 messages) d
     in Inr ((), touch_session now session_id vault_name metadata_update True d))"

text \<open>A \<open>LIMIT\<close> of SQLite is none when it is negative; \<open>xs[-limit:]\<close> is all of the list when \<open>limit\<close> is 0.\<close>

definition newest :: "int \<Rightarrow> 'a list \<Rightarrow> 'a list" where
  "newest limit xs = (if limit < 0 then xs else drop (length xs - nat limit) xs)"

definition slice_from_end :: "int \<Rightarrow> 'a list \<Rightarrow> 'a list" where
  "slice_from_end limit xs = (if limit > 0 then drop (length xs - nat limit) xs else drop (nat (- limit)) xs)"

definition stored_message_from_row :: "chat_env \<Rightarrow> string \<Rightarrow> string \<Rightarrow> message_row \<Rightarrow> StoredChatMessage chat_result" where
  "stored_message_from_row e session_id vault_name r =
     (case ce_load e (mr_message_json r) of
        None \<Rightarrow> Inl (ChatHistoryCorruptionError session_id vault_name (Some (mr_sequence_index r)) None)
      | Some message \<Rightarrow> Inr \<lparr>sm_sequence_index = mr_sequence_index r, sm_fork_sequence_index = Some (mr_sequence_index r),
          sm_direction = mr_direction r, sm_message_type = mr_message_type r, sm_role = mr_role r, sm_content_text = mr_content_text r,
          sm_created_at = mr_created_at r, sm_message_json = mr_message_json r, sm_message = message\<rparr>)"

definition fetch_raw_messages ::
  "chat_env \<Rightarrow> string \<Rightarrow> string \<Rightarrow> int option \<Rightarrow> int option \<Rightarrow> int option \<Rightarrow> chat_db \<Rightarrow> StoredChatMessage list chat_result" where
  "fetch_raw_messages e session_id vault_name limit after_sequence_index through_sequence_index d =
     (let rows = filter (\<lambda>m. (case after_sequence_index of None \<Rightarrow> True | Some a \<Rightarrow> a < mr_sequence_index m) \<and>
            (case through_sequence_index of None \<Rightarrow> True | Some t \<Rightarrow> mr_sequence_index m \<le> t)) (messages_of session_id vault_name d);
          rows = (case limit of None \<Rightarrow> rows | Some n \<Rightarrow> newest n rows)
      in cmap (stored_message_from_row e session_id vault_name) rows)"

definition get_stored_messages_range ::
  "chat_env \<Rightarrow> string \<Rightarrow> string \<Rightarrow> int \<Rightarrow> int \<Rightarrow> chat_db \<Rightarrow> StoredChatMessage list chat_result" where
  "get_stored_messages_range e session_id vault_name after_sequence_index through_sequence_index d =
     (if through_sequence_index \<le> after_sequence_index then Inr []
      else fetch_raw_messages e session_id vault_name None (Some after_sequence_index) (Some through_sequence_index) d)"

section \<open>Context checkpoints\<close>

definition latest_context_checkpoint :: "string \<Rightarrow> string \<Rightarrow> chat_db \<Rightarrow> StoredContextCheckpoint option" where
  "latest_context_checkpoint session_id vault_name d =
     (case sort_key ck_id (filter (\<lambda>c. ck_session_id c = session_id \<and> ck_vault_name c = vault_name) (cd_checkpoints d)) of
        [] \<Rightarrow> None | c # cs \<Rightarrow> Some (last (c # cs)))"

text \<open>\<open>_context_checkpoint_from_row\<close> refuses other kinds.\<close>

definition checkpoint_from_row :: "StoredContextCheckpoint \<Rightarrow> StoredContextCheckpoint chat_result" where
  "checkpoint_from_row c =
     (if ck_checkpoint_kind c = ''recovery_card'' \<or> ck_checkpoint_kind c = ''session_map'' then Inr c
      else value_error (''Unsupported stored context checkpoint kind: '' @ ck_checkpoint_kind c))"

definition aligned_checkpoint_replacement_origins :: "nat \<Rightarrow> json \<Rightarrow> int option list result" where
  "aligned_checkpoint_replacement_origins count origins =
     (case origins of
        JList xs \<Rightarrow>
          if length xs \<noteq> count then Inl (ValueError ''Checkpoint replacement origins must align with replacement history'')
          else if list_ex (\<lambda>x. case x of JNull \<Rightarrow> False | JInt _ \<Rightarrow> False | _ \<Rightarrow> True) xs
          then Inl (ValueError ''Checkpoint replacement origins must be integers or null'')
          else Inr (map (\<lambda>x. case x of JInt i \<Rightarrow> Some i | _ \<Rightarrow> None) xs)
      | _ \<Rightarrow> Inl (ValueError ''Checkpoint replacement origins must align with replacement history''))"

fun increasing_origins :: "int \<Rightarrow> int \<Rightarrow> int option list \<Rightarrow> int list result" where
  "increasing_origins last_message_sequence_index previous_origin [] = Inr []"
| "increasing_origins last_message_sequence_index previous_origin (None # origins) =
     increasing_origins last_message_sequence_index previous_origin origins"
| "increasing_origins last_message_sequence_index previous_origin (Some origin # origins) =
     (if origin < 0 \<or> last_message_sequence_index < origin
      then Inl (ValueError ''Checkpoint replacement origins must fall within its canonical boundary'')
      else if origin \<le> previous_origin then Inl (ValueError ''Checkpoint replacement origins must be strictly increasing'')
      else rbind (increasing_origins last_message_sequence_index origin origins) (\<lambda>rest. Inr (origin # rest)))"

fun origins_match :: "chat_env \<Rightarrow> StoredChatMessage list \<Rightarrow> (model_message \<times> int option) list \<Rightarrow> unit result" where
  "origins_match e canonical [] = Inr ()"
| "origins_match e canonical ((message, origin) # pairs) =
     (case origin of
        None \<Rightarrow> origins_match e canonical pairs
      | Some i \<Rightarrow>
          (case find (\<lambda>c. sm_sequence_index c = i) canonical of
             None \<Rightarrow> Inl (ValueError ''Checkpoint replacement origin must identify an existing canonical message'')
           | Some c \<Rightarrow>
               if ce_dump e message \<noteq> ce_dump e (sm_message c)
               then Inl (ValueError ''Checkpoint replacement must match its canonical message origin'')
               else origins_match e canonical pairs))"

definition validate_checkpoint_replacement_origins ::
  "chat_env \<Rightarrow> string \<Rightarrow> string \<Rightarrow> model_message list \<Rightarrow> json \<Rightarrow> int \<Rightarrow> chat_db \<Rightarrow> int option list chat_result" where
  "validate_checkpoint_replacement_origins e session_id vault_name messages origins last_message_sequence_index d =
     cbind (of_py (aligned_checkpoint_replacement_origins (length messages) origins)) (\<lambda>validated_origins.
     cbind (of_py (increasing_origins last_message_sequence_index (- 1) validated_origins)) (\<lambda>canonical_origins.
     if canonical_origins = [] then Inr validated_origins
     else cbind (fetch_raw_messages e session_id vault_name None (Some (hd canonical_origins - 1)) (Some (last canonical_origins)) d)
       (\<lambda>canonical_messages.
       cbind (of_py (origins_match e canonical_messages (zip messages validated_origins))) (\<lambda>_. Inr validated_origins))))"

text \<open>Checkpoints from before the origins were recorded: a message that occurs once after the previous origin has it.\<close>

fun legacy_origins :: "(string \<times> int) list \<Rightarrow> int \<Rightarrow> string list \<Rightarrow> int option list" where
  "legacy_origins candidates previous_origin [] = []"
| "legacy_origins candidates previous_origin (message_json # messages) =
     (case filter (\<lambda>(j, i). j = message_json \<and> previous_origin < i) candidates of
        [(_, origin)] \<Rightarrow> Some origin # legacy_origins candidates origin messages
      | _ \<Rightarrow> None # legacy_origins candidates previous_origin messages)"

definition checkpoint_replacement_origins ::
  "chat_env \<Rightarrow> StoredContextCheckpoint \<Rightarrow> model_message list \<Rightarrow> string \<Rightarrow> string \<Rightarrow> chat_db \<Rightarrow> int option list chat_result" where
  "checkpoint_replacement_origins e checkpoint messages session_id vault_name d =
     (case ck_replacement_source_sequence_indexes_json checkpoint of
        Some encoded \<Rightarrow>
          let corrupted = Inl (ChatHistoryCorruptionError session_id vault_name None (Some (ck_checkpoint_id checkpoint)))
          in (case json_loads encoded of
                None \<Rightarrow> corrupted
              | Some parsed_origins \<Rightarrow>
                  (case validate_checkpoint_replacement_origins e session_id vault_name messages parsed_origins
                      (ck_last_message_sequence_index checkpoint) d of
                     Inl (ChatError (ValueError m)) \<Rightarrow> corrupted
                   | r \<Rightarrow> r))
      | None \<Rightarrow>
          let candidates = map (\<lambda>r. (mr_message_json r, mr_sequence_index r))
            (filter (\<lambda>r. mr_sequence_index r \<le> ck_last_message_sequence_index checkpoint) (messages_of session_id vault_name d))
          in Inr (legacy_origins candidates (- 1) (map (ce_dump e) messages)))"

definition checkpoint_replacement_messages ::
  "chat_env \<Rightarrow> StoredContextCheckpoint \<Rightarrow> string \<Rightarrow> string \<Rightarrow> chat_db \<Rightarrow> StoredChatMessage list chat_result" where
  "checkpoint_replacement_messages e checkpoint session_id vault_name d =
     (case ce_load_list e (ck_replacement_history_json checkpoint) of
        None \<Rightarrow> Inl (ChatHistoryCorruptionError session_id vault_name None (Some (ck_checkpoint_id checkpoint)))
      | Some messages \<Rightarrow>
          cbind (checkpoint_replacement_origins e checkpoint messages session_id vault_name d) (\<lambda>origins.
          Inr (map (\<lambda>((sequence_index, message), origin).
            case extract_role_and_text message of (role, content_text) \<Rightarrow>
              \<lparr>sm_sequence_index = sequence_index, sm_fork_sequence_index = origin, sm_direction = direction_of message,
               sm_message_type = message_type_name message, sm_role = role, sm_content_text = content_text,
               sm_created_at = ck_created_at checkpoint, sm_message_json = ce_dump e message, sm_message = message\<rparr>)
            (zip (numbered 0 messages) origins))))"

definition fetch_effective_messages :: "chat_env \<Rightarrow> string \<Rightarrow> string \<Rightarrow> int option \<Rightarrow> chat_db \<Rightarrow> StoredChatMessage list chat_result" where
  "fetch_effective_messages e session_id vault_name limit d =
     (case latest_context_checkpoint session_id vault_name d of
        None \<Rightarrow> fetch_raw_messages e session_id vault_name limit None None d
      | Some row \<Rightarrow>
          cbind (checkpoint_from_row row) (\<lambda>checkpoint.
          cbind (checkpoint_replacement_messages e checkpoint session_id vault_name d) (\<lambda>replacement.
          cbind (fetch_raw_messages e session_id vault_name None (Some (ck_last_message_sequence_index checkpoint)) None d) (\<lambda>raw_after.
          let messages = replacement @ raw_after
          in Inr (case limit of None \<Rightarrow> messages | Some n \<Rightarrow> slice_from_end n messages)))))"

datatype history_mode = Effective | Raw

definition history_mode_of :: "string \<Rightarrow> history_mode chat_result" where
  "history_mode_of mode =
     (if mode = ''effective'' then Inr Effective else if mode = ''raw'' then Inr Raw
      else value_error ''history mode must be one of: effective, raw'')"

definition fetch_messages :: "chat_env \<Rightarrow> string \<Rightarrow> string \<Rightarrow> int option \<Rightarrow> string \<Rightarrow> chat_db \<Rightarrow> StoredChatMessage list chat_result" where
  "fetch_messages e session_id vault_name limit mode d =
     cbind (history_mode_of mode) (\<lambda>m. case m of
       Raw \<Rightarrow> fetch_raw_messages e session_id vault_name limit None None d
     | Effective \<Rightarrow> fetch_effective_messages e session_id vault_name limit d)"

definition get_history :: "chat_env \<Rightarrow> string \<Rightarrow> string \<Rightarrow> string \<Rightarrow> chat_db \<Rightarrow> model_message list option chat_result" where
  "get_history e session_id vault_name mode d =
     cbind (fetch_messages e session_id vault_name None mode d) (\<lambda>rows.
     if rows = [] then Inr None
     else Inr (Some (map (\<lambda>r. message_for_model_history (ce_persist_reasoning e) (sm_message r)) rows)))"

definition get_message_count :: "chat_env \<Rightarrow> string \<Rightarrow> string \<Rightarrow> string \<Rightarrow> chat_db \<Rightarrow> nat chat_result" where
  "get_message_count e session_id vault_name mode d =
     cbind (history_mode_of mode) (\<lambda>m. case m of
       Effective \<Rightarrow> cbind (fetch_messages e session_id vault_name None ''effective'' d) (\<lambda>rows. Inr (length rows))
     | Raw \<Rightarrow> Inr (length (messages_of session_id vault_name d)))"

definition get_recent :: "chat_env \<Rightarrow> string \<Rightarrow> string \<Rightarrow> int \<Rightarrow> string \<Rightarrow> chat_db \<Rightarrow> model_message list chat_result" where
  "get_recent e session_id vault_name limit mode d =
     (if limit \<le> 0 then Inr []
      else cbind (fetch_messages e session_id vault_name (Some limit) mode d) (\<lambda>rows. Inr (map sm_message rows)))"

text \<open>The predicate is \<open>None\<close> where it raises.\<close>

definition get_recent_matching ::
  "chat_env \<Rightarrow> string \<Rightarrow> string \<Rightarrow> int \<Rightarrow> (model_message \<Rightarrow> bool option) \<Rightarrow> chat_db \<Rightarrow> model_message list chat_result" where
  "get_recent_matching e session_id vault_name limit predicate d =
     (if limit \<le> 0 then Inr []
      else cbind (get_history e session_id vault_name ''effective'' d) (\<lambda>history.
        Inr (rev (take (nat limit) (filter (\<lambda>m. predicate m = Some True) (rev (case history of None \<Rightarrow> [] | Some h \<Rightarrow> h)))))))"

definition origins_json :: "int option list \<Rightarrow> json" where
  "origins_json origins = JList (map (\<lambda>x. case x of None \<Rightarrow> JNull | Some i \<Rightarrow> JInt i) origins)"

definition add_context_checkpoint ::
  "chat_env \<Rightarrow> timestamp \<Rightarrow> string \<Rightarrow> string \<Rightarrow> string \<Rightarrow> string \<Rightarrow> string \<Rightarrow> int \<Rightarrow> int \<Rightarrow> model_message \<Rightarrow> model_message list \<Rightarrow>
    int option list option \<Rightarrow> (string, json) dict option \<Rightarrow> (string, json) dict \<Rightarrow> int option \<Rightarrow> chat_db \<Rightarrow>
    (StoredContextCheckpoint \<times> chat_db) chat_result" where
  "add_context_checkpoint e now session_id vault_name checkpoint_id checkpoint_kind source message_count_before
     last_message_sequence_index summary_message replacement_history replacement_source_sequence_indexes metadata metadata_update
     expected_history_revision d =
     (if checkpoint_kind \<noteq> ''recovery_card'' \<and> checkpoint_kind \<noteq> ''session_map''
      then value_error (''Unsupported context checkpoint kind: '' @ checkpoint_kind)
      else cbind (upsert_session now session_id vault_name None d) (\<lambda>d.
        let current_revision = metadata_history_revision (session_metadata session_id vault_name d)
        in if expected_history_revision \<noteq> None \<and> expected_history_revision \<noteq> Some current_revision
           then value_error (''Context checkpoint history revision changed: expected '' @ show_int (the expected_history_revision) @
             '', found '' @ show_int current_revision)
           else let summary_message = message_for_persistence (ce_persist_reasoning e) summary_message
           in cbind (case replacement_source_sequence_indexes of
                       None \<Rightarrow> Inr (map (\<lambda>_. None) replacement_history)
                     | Some origins \<Rightarrow> of_py (aligned_checkpoint_replacement_origins (length replacement_history) (origins_json origins)))
             (\<lambda>replacement_origins.
             let replacement_history = map (\<lambda>(message, origin). if origin \<noteq> None then message
                   else message_for_persistence (ce_persist_reasoning e) message) (zip replacement_history replacement_origins)
             in cbind (case replacement_source_sequence_indexes of
                         None \<Rightarrow> Inr []
                       | Some origins \<Rightarrow> validate_checkpoint_replacement_origins e session_id vault_name replacement_history
                           (origins_json origins) last_message_sequence_index d) (\<lambda>_.
                if checkpoint_id \<in> set (map ck_checkpoint_id (cd_checkpoints d))
                then integrity_error ''UNIQUE constraint failed: chat_compaction_checkpoints.checkpoint_id''
                else let row = \<lparr>ck_id = Suc (cd_last_checkpoint_id d), ck_checkpoint_id = checkpoint_id, ck_session_id = session_id,
                       ck_vault_name = vault_name, ck_created_at = now, ck_source = source, ck_checkpoint_kind = checkpoint_kind,
                       ck_message_count_before = message_count_before,
                       ck_last_message_sequence_index = last_message_sequence_index,
                       ck_summary_message_json = ce_dump e summary_message,
                       ck_replacement_history_json = ce_dump_list e replacement_history,
                       ck_replacement_source_sequence_indexes_json =
                         map_option (\<lambda>origins. json_dumps True (origins_json origins)) replacement_source_sequence_indexes,
                       ck_metadata_json = map_option dumped metadata\<rparr>;
                     d = d\<lparr>cd_last_checkpoint_id := Suc (cd_last_checkpoint_id d), cd_checkpoints := cd_checkpoints d @ [row]\<rparr>
                in Inr (row, touch_session now session_id vault_name metadata_update True d)))))"

end
