(* ===== verification/Chat_Sessions.thy ===== *)
theory Chat_Sessions
  imports Chat_Store
begin

text \<open>
  Forks, deletion, listings and settings of chat sessions, their tool events and the compact scans of the protocol
  in core/chat/chat_store.py, and the access to sessions under an authority, core/chat/session_access.py.
  \<open>json_extract\<close> over the stored text of a message reads the parts that the serialization wrote; the text is loaded here.
\<close>

section \<open>Fork points\<close>

definition protocol_of :: "model_message list \<Rightarrow> ToolHistoryProtocolState" where
  "protocol_of messages = fold step_message (List.enumerate 0 messages) new_protocol"

fun fork_points_from :: "nat \<Rightarrow> ToolHistoryProtocolState \<Rightarrow> StoredChatMessage list \<Rightarrow> int list" where
  "fork_points_from index protocol [] = []"
| "fork_points_from index protocol (message # messages) =
     (let protocol = step_message (index, sm_message message) protocol
      in if ph_issues protocol \<noteq> [] then []
         else (case sm_fork_sequence_index message of
             Some i \<Rightarrow> if mm_type (sm_message message) = ModelResponse \<and> ph_pending protocol = [] then [i] else []
           | None \<Rightarrow> []) @ fork_points_from (Suc index) protocol messages)"

definition canonical_assistant_fork_points :: "StoredChatMessage list \<Rightarrow> int set" where
  "canonical_assistant_fork_points messages = set (fork_points_from 0 new_protocol messages)"

text \<open>The rows of \<open>_raw_tool_protocol_rows_from_conn\<close>: one for each call of a response and each reply of a request.\<close>

record protocol_row =
  pr_sequence_index :: int
  pr_message_index :: nat
  pr_part_kind :: part_kind
  pr_tool_call_id :: string
  pr_tool_name :: "string option"
  pr_reply_only :: bool

definition is_protocol_part :: "string \<Rightarrow> message_part \<Rightarrow> bool" where
  "is_protocol_part message_type p \<longleftrightarrow>
     message_type = ''ModelResponse'' \<and> mp_kind p = ToolCall \<or> message_type = ''ModelRequest'' \<and> is_reply_part p"

definition protocol_rows_of :: "nat \<times> message_row \<times> message_part list \<Rightarrow> protocol_row list" where
  "protocol_rows_of im = (case im of (message_index, r, parts) \<Rightarrow>
     map (\<lambda>p. \<lparr>pr_sequence_index = mr_sequence_index r, pr_message_index = message_index, pr_part_kind = mp_kind p,
         pr_tool_call_id = part_call_id p, pr_tool_name = mp_tool_name p,
         pr_reply_only = (mr_message_type r = ''ModelRequest'' \<and> list_all is_reply_part parts)\<rparr>)
       (filter (is_protocol_part (mr_message_type r)) parts))"

definition json_parts :: "chat_env \<Rightarrow> message_row \<Rightarrow> (message_row \<times> message_part list) chat_result" where
  "json_parts e r = (case ce_parts e (mr_message_json r) of None \<Rightarrow> Inl (OperationalError ''malformed JSON'') | Some parts \<Rightarrow> Inr (r, parts))"

definition rows_through :: "int option \<Rightarrow> message_row list \<Rightarrow> message_row list" where
  "rows_through through_sequence_index rows =
     (case through_sequence_index of None \<Rightarrow> rows | Some t \<Rightarrow> filter (\<lambda>r. mr_sequence_index r \<le> t) rows)"

definition raw_tool_protocol_rows :: "chat_env \<Rightarrow> string \<Rightarrow> string \<Rightarrow> int option \<Rightarrow> chat_db \<Rightarrow> protocol_row list chat_result" where
  "raw_tool_protocol_rows e session_id vault_name through_sequence_index d =
     cbind (cmap (json_parts e) (rows_through through_sequence_index (messages_of session_id vault_name d)))
       (\<lambda>messages. Inr (concat (map protocol_rows_of (List.enumerate 0 messages))))"

definition row_invocation :: "protocol_row \<Rightarrow> ToolHistoryInvocation" where
  "row_invocation r = \<lparr>hv_tool_call_id = pr_tool_call_id r, hv_tool_name = pr_tool_name r, hv_is_retry = (pr_part_kind r = RetryPrompt)\<rparr>"

text \<open>The rows of one message, which have its sequence index, are one step of the protocol.\<close>

definition step_rows :: "protocol_row list \<Rightarrow> ToolHistoryProtocolState \<Rightarrow> ToolHistoryProtocolState" where
  "step_rows rows protocol =
     record_message (pr_message_index (hd rows)) (map row_invocation (filter (\<lambda>r. pr_part_kind r = ToolCall) rows))
       (map row_invocation (filter (\<lambda>r. pr_part_kind r \<noteq> ToolCall) rows)) (pr_reply_only (hd rows)) protocol"

definition same_message :: "protocol_row list \<Rightarrow> protocol_row \<Rightarrow> bool" where
  "same_message rows r \<longleftrightarrow> pr_sequence_index r = pr_sequence_index (hd rows)"

lemma same_message_shorter: "rows \<noteq> [] \<Longrightarrow> length (dropWhile (same_message rows) rows) < length rows"
  by (cases rows) (auto simp: same_message_def le_imp_less_Suc length_dropWhile_le)

function scan_through :: "int \<Rightarrow> protocol_row list \<Rightarrow> ToolHistoryProtocolState \<Rightarrow> protocol_row list \<times> ToolHistoryProtocolState" where
  "scan_through candidate rows protocol =
     (if rows = [] \<or> candidate < pr_sequence_index (hd rows) then (rows, protocol)
      else if ph_issues (step_rows (takeWhile (same_message rows) rows) protocol) \<noteq> []
      then (dropWhile (same_message rows) rows, step_rows (takeWhile (same_message rows) rows) protocol)
      else scan_through candidate (dropWhile (same_message rows) rows) (step_rows (takeWhile (same_message rows) rows) protocol))"
  by pat_completeness auto
termination by (relation "measure (\<lambda>(_, rows, _). length rows)") (auto intro: same_message_shorter)

declare scan_through.simps [simp del]

fun fork_points_of_candidates :: "int list \<Rightarrow> protocol_row list \<Rightarrow> ToolHistoryProtocolState \<Rightarrow> int list" where
  "fork_points_of_candidates [] rows protocol = []"
| "fork_points_of_candidates (candidate # candidates) rows protocol =
     (case scan_through candidate rows protocol of (rows, protocol) \<Rightarrow>
        (if ph_issues protocol = [] \<and> ph_pending protocol = [] then [candidate] else []) @
        fork_points_of_candidates candidates rows protocol)"

definition get_canonical_fork_points_for_sequences ::
  "chat_env \<Rightarrow> string \<Rightarrow> string \<Rightarrow> int list \<Rightarrow> chat_db \<Rightarrow> int set chat_result" where
  "get_canonical_fork_points_for_sequences e session_id vault_name candidate_sequence_indexes d =
     (let candidates = sort (remdups candidate_sequence_indexes)
      in if candidates = [] then Inr {}
         else cbind (raw_tool_protocol_rows e session_id vault_name (Some (last candidates)) d)
           (\<lambda>rows. Inr (set (fork_points_of_candidates candidates rows new_protocol))))"

record StoredChatHistoryStructure =
  hs_message_count :: nat
  hs_group_count :: nat
  hs_tool_history_ok :: bool
  hs_latest_group_complete :: bool

function scan_all :: "protocol_row list \<Rightarrow> ToolHistoryProtocolState \<Rightarrow> ToolHistoryProtocolState" where
  "scan_all rows protocol =
     (if rows = [] then protocol
      else scan_all (dropWhile (same_message rows) rows) (step_rows (takeWhile (same_message rows) rows) protocol))"
  by pat_completeness auto
termination by (relation "measure (\<lambda>(rows, _). length rows)") (auto intro: same_message_shorter)

declare scan_all.simps [simp del]

text \<open>A message but the first opens a group when it is a request with a prompt.\<close>

definition opens_group :: "message_row \<times> message_part list \<Rightarrow> bool" where
  "opens_group rp = (case rp of (r, parts) \<Rightarrow>
     mr_message_type r = ''ModelRequest'' \<and> list_ex (\<lambda>p. mp_kind p = UserPrompt \<or> mp_kind p = SystemPrompt) parts)"

definition get_raw_history_structure :: "chat_env \<Rightarrow> string \<Rightarrow> string \<Rightarrow> chat_db \<Rightarrow> StoredChatHistoryStructure chat_result" where
  "get_raw_history_structure e session_id vault_name d =
     cbind (cmap (json_parts e) (messages_of session_id vault_name d)) (\<lambda>ordered.
     cbind (raw_tool_protocol_rows e session_id vault_name None d) (\<lambda>rows.
     let protocol = scan_all rows new_protocol
     in Inr \<lparr>hs_message_count = length ordered,
          hs_group_count = (if ordered = [] then 0 else 1 + length (filter opens_group (tl ordered))),
          hs_tool_history_ok = (ph_issues protocol = [] \<and> unmatched_call_issues protocol = []),
          hs_latest_group_complete = (ordered \<noteq> [] \<and> mr_message_type (fst (last ordered)) = ''ModelResponse'')\<rparr>))"

end
