(* ===== verification/Chat_Forks.thy ===== *)
theory Chat_Forks
  imports Chat_Sessions
begin

text \<open>
  Tool events of chat sessions and the fork of a session at a complete assistant message, core/chat/chat_store.py.
  \<open>uuid n\<close> is the n-th identifier that \<open>uuid4\<close> gives to a copied checkpoint.
\<close>

section \<open>Tool events\<close>

definition tool_events_of :: "string \<Rightarrow> string \<Rightarrow> chat_db \<Rightarrow> StoredChatToolEvent list" where
  "tool_events_of session_id vault_name d =
     map tr_event (sort_key tr_id (filter (\<lambda>r. tr_session_id r = session_id \<and> tr_vault_name r = vault_name) (cd_tool_events d)))"

definition insert_tool_event :: "string \<Rightarrow> string \<Rightarrow> StoredChatToolEvent \<Rightarrow> chat_db \<Rightarrow> chat_db" where
  "insert_tool_event session_id vault_name event d =
     d\<lparr>cd_last_event_id := Suc (cd_last_event_id d),
       cd_tool_events := cd_tool_events d @ [\<lparr>tr_id = Suc (cd_last_event_id d), tr_session_id = session_id, tr_vault_name = vault_name,
         tr_event = event\<rparr>]\<rparr>"

definition add_tool_event ::
  "timestamp \<Rightarrow> string \<Rightarrow> string \<Rightarrow> string \<Rightarrow> string \<Rightarrow> string \<Rightarrow> json option \<Rightarrow> string option \<Rightarrow> json option \<Rightarrow> string option \<Rightarrow> chat_db \<Rightarrow>
    (unit \<times> chat_db) chat_result" where
  "add_tool_event now session_id vault_name tool_call_id tool_name event_type args result_text result_metadata artifact_ref d =
     cbind (upsert_session now session_id vault_name None d) (\<lambda>d.
     let event = \<lparr>te_tool_call_id = tool_call_id, te_tool_name = tool_name, te_event_type = event_type, te_created_at = now,
           te_args_json = map_option (json_dumps False) args, te_result_text = result_text,
           te_result_metadata_json = map_option (json_dumps False) result_metadata, te_artifact_ref = artifact_ref\<rparr>
     in Inr ((), touch_session now session_id vault_name [] False (insert_tool_event session_id vault_name event d)))"

definition ordered_tool_call_ids :: "model_message \<Rightarrow> string list" where
  "ordered_tool_call_ids m = fromkeys (filter (\<lambda>i. i \<noteq> []) (map part_call_id (filter (\<lambda>p. mp_kind p = ToolCall) (mm_parts m))))"

definition ordered_tool_return_ids :: "model_message \<Rightarrow> string list" where
  "ordered_tool_return_ids m =
     fromkeys (filter (\<lambda>i. i \<noteq> []) (map part_call_id (filter (\<lambda>p. is_reply_part p \<or> mp_kind p = NativeToolReturn) (mm_parts m))))"

definition committed_tool_call_ids :: "chat_env \<Rightarrow> string \<Rightarrow> string \<Rightarrow> chat_db \<Rightarrow> string list" where
  "committed_tool_call_ids e session_id vault_name d =
     concat (map (\<lambda>r. case ce_load e (mr_message_json r) of None \<Rightarrow> [] | Some m \<Rightarrow> ordered_tool_call_ids m) (messages_of session_id vault_name d))"

definition get_tool_events ::
  "chat_env \<Rightarrow> string \<Rightarrow> string \<Rightarrow> int option \<Rightarrow> bool \<Rightarrow> chat_db \<Rightarrow> StoredChatToolEvent list" where
  "get_tool_events e session_id vault_name limit committed_only d =
     (let events = tool_events_of session_id vault_name d; committed = committed_tool_call_ids e session_id vault_name d
      in if committed_only
         then (if committed = [] then []
               else let rows = filter (\<lambda>v. te_tool_call_id v \<in> set committed) events
                    in case limit of None \<Rightarrow> rows | Some n \<Rightarrow> slice_from_end n rows)
         else case limit of None \<Rightarrow> events | Some n \<Rightarrow> newest n events)"

definition get_tool_events_for_call :: "string \<Rightarrow> string \<Rightarrow> string \<Rightarrow> chat_db \<Rightarrow> StoredChatToolEvent list" where
  "get_tool_events_for_call session_id vault_name tool_call_id d =
     filter (\<lambda>v. te_tool_call_id v = tool_call_id) (tool_events_of session_id vault_name d)"

definition tool_call_events_are_unambiguous :: "StoredChatToolEvent list \<Rightarrow> bool" where
  "tool_call_events_are_unambiguous events =
     (case events of
        [] \<Rightarrow> False
      | [a] \<Rightarrow> te_event_type a = ''call''
      | [a, b] \<Rightarrow> te_event_type a = ''call'' \<and> te_tool_call_id b = te_tool_call_id a \<and> te_tool_name b = te_tool_name a \<and>
          te_event_type b \<in> {''result'', ''overflow_cached''}
      | _ \<Rightarrow> False)"

text \<open>The calls that the messages of a session declare, with how often; \<open>None\<close> asks for all of them.\<close>

definition declared_ids :: "message_row \<times> message_part list \<Rightarrow> string list" where
  "declared_ids rp = concat (map (\<lambda>p. if mp_kind p = ToolCall then (case mp_tool_call_id p of None \<Rightarrow> [] | Some i \<Rightarrow> [i]) else []) (snd rp))"

definition tool_call_declaration_counts ::
  "chat_env \<Rightarrow> string \<Rightarrow> string \<Rightarrow> string list option \<Rightarrow> chat_db \<Rightarrow> (string, nat) dict chat_result" where
  "tool_call_declaration_counts e session_id vault_name tool_call_ids d =
     (if tool_call_ids = Some [] then Inr []
      else cbind (cmap (json_parts e) (messages_of session_id vault_name d)) (\<lambda>messages.
        let declared = filter (\<lambda>i. case tool_call_ids of None \<Rightarrow> True | Some ids \<Rightarrow> i \<in> set ids) (concat (map declared_ids messages))
        in Inr (map (\<lambda>i. (i, count_list declared i)) (fromkeys declared))))"

section \<open>Forks\<close>

definition fork_session_metadata :: "(string, json) dict \<Rightarrow> (string, json) dict" where
  "fork_session_metadata source_metadata =
     fold AList.delete [''favorite'', ''history_revision'', ''last_compaction'', ''last_session_map_checkpoint'', ''latest_turn_failure'']
       source_metadata"

definition checkpoint_metadata :: "StoredContextCheckpoint \<Rightarrow> (string, json) dict" where
  "checkpoint_metadata checkpoint = parsed_dict (ck_metadata_json checkpoint)"

definition checkpoint_observation_boundary :: "StoredContextCheckpoint \<Rightarrow> int result" where
  "checkpoint_observation_boundary checkpoint =
     (let invalid_boundary = Inl (ValueError (''Invalid checkpoint observation boundary: '' @ ck_checkpoint_id checkpoint));
          consumed = ck_last_message_sequence_index checkpoint
      in if consumed < 0 then invalid_boundary
         else if ck_checkpoint_kind checkpoint \<noteq> ''session_map'' then Inr consumed
         else (case ck_metadata_json checkpoint of
             None \<Rightarrow> Inr consumed
           | Some encoded \<Rightarrow>
               (case json_loads encoded of
                  Some (JDict metadata) \<Rightarrow>
                    (case map_of metadata ''map_observed_through_sequence_index'' of
                       None \<Rightarrow> Inr consumed
                     | Some (JInt observed) \<Rightarrow> if observed < consumed then invalid_boundary else Inr observed
                     | Some _ \<Rightarrow> invalid_boundary)
                | _ \<Rightarrow> invalid_boundary)))"

definition root_session_id :: "string \<Rightarrow> (string, json) dict \<Rightarrow> string" where
  "root_session_id source_session_id metadata =
     (case map_of metadata ''fork'' of
        Some (JDict inherited) \<Rightarrow>
          (case map_of inherited ''root_session_id'' of
             Some v \<Rightarrow> if truthy v then py_str v else source_session_id
           | None \<Rightarrow> source_session_id)
      | _ \<Rightarrow> source_session_id)"

definition checkpoint_rows :: "string \<Rightarrow> string \<Rightarrow> chat_db \<Rightarrow> StoredContextCheckpoint list" where
  "checkpoint_rows session_id vault_name d =
     sort_key ck_id (filter (\<lambda>c. ck_session_id c = session_id \<and> ck_vault_name c = vault_name) (cd_checkpoints d))"

definition eligible_checkpoints :: "string \<Rightarrow> string \<Rightarrow> int \<Rightarrow> chat_db \<Rightarrow> StoredContextCheckpoint list chat_result" where
  "eligible_checkpoints session_id vault_name through_sequence_index d =
     cbind (cmap (\<lambda>row. cbind (checkpoint_from_row row) (\<lambda>c. cbind (of_py (checkpoint_observation_boundary c)) (\<lambda>b. Inr (c, b))))
         (checkpoint_rows session_id vault_name d))
       (\<lambda>checkpoints. Inr (map fst (filter (\<lambda>(_, b). b \<le> through_sequence_index) checkpoints)))"

definition copy_message :: "string \<Rightarrow> string \<Rightarrow> StoredChatMessage \<Rightarrow> chat_db \<Rightarrow> chat_db" where
  "copy_message new_session_id vault_name m d =
     d\<lparr>cd_last_message_id := Suc (cd_last_message_id d),
       cd_messages := cd_messages d @ [\<lparr>mr_id = Suc (cd_last_message_id d), mr_session_id = new_session_id, mr_vault_name = vault_name,
         mr_sequence_index = sm_sequence_index m, mr_direction = sm_direction m, mr_message_type = sm_message_type m,
         mr_role = sm_role m, mr_content_text = sm_content_text m, mr_message_json = sm_message_json m,
         mr_created_at = sm_created_at m\<rparr>]\<rparr>"

definition copied_tool_call_ids :: "StoredChatMessage list \<Rightarrow> string list" where
  "copied_tool_call_ids messages =
     concat (map (\<lambda>m. ordered_tool_call_ids (sm_message m) @ ordered_tool_return_ids (sm_message m)) messages)"

text \<open>The events of the calls that are declared once in the source and have one call and at most one end.\<close>

definition safe_tool_events ::
  "chat_env \<Rightarrow> string \<Rightarrow> string \<Rightarrow> StoredChatMessage list \<Rightarrow> chat_db \<Rightarrow> StoredChatToolEvent list chat_result" where
  "safe_tool_events e source_session_id vault_name messages d =
     (let copied = copied_tool_call_ids messages
      in if copied = [] then Inr []
         else cbind (tool_call_declaration_counts e source_session_id vault_name (Some (sort (remdups copied))) d)
           (\<lambda>declaration_counts.
           let events = tool_events_of source_session_id vault_name d
           in Inr (filter (\<lambda>v. te_tool_call_id v \<in> set copied \<and> map_of declaration_counts (te_tool_call_id v) = Some 1 \<and>
                tool_call_events_are_unambiguous (filter (\<lambda>w. te_tool_call_id w = te_tool_call_id v) events)) events)))"

definition copy_checkpoint ::
  "string \<Rightarrow> string \<Rightarrow> string \<Rightarrow> (nat \<Rightarrow> string) \<Rightarrow> nat \<times> StoredContextCheckpoint \<Rightarrow> chat_db \<Rightarrow> chat_db chat_result" where
  "copy_checkpoint source_session_id new_session_id vault_name uuid ic d =
     (case ic of (i, c) \<Rightarrow>
        if uuid i \<in> set (map ck_checkpoint_id (cd_checkpoints d))
        then integrity_error ''UNIQUE constraint failed: chat_compaction_checkpoints.checkpoint_id''
        else let metadata = dict_update (checkpoint_metadata c) [(''fork_origin'', JDict
               [(''source_session_id'', JStr source_session_id), (''source_checkpoint_id'', JStr (ck_checkpoint_id c))])]
             in Inr (d\<lparr>cd_last_checkpoint_id := Suc (cd_last_checkpoint_id d),
               cd_checkpoints := cd_checkpoints d @ [c\<lparr>ck_id := Suc (cd_last_checkpoint_id d), ck_checkpoint_id := uuid i,
                 ck_session_id := new_session_id, ck_vault_name := vault_name, ck_metadata_json := Some (dumped metadata)\<rparr>]\<rparr>))"

fun copy_checkpoints ::
  "string \<Rightarrow> string \<Rightarrow> string \<Rightarrow> (nat \<Rightarrow> string) \<Rightarrow> (nat \<times> StoredContextCheckpoint) list \<Rightarrow> chat_db \<Rightarrow> chat_db chat_result" where
  "copy_checkpoints source_session_id new_session_id vault_name uuid [] d = Inr d"
| "copy_checkpoints source_session_id new_session_id vault_name uuid (ic # ics) d =
     cbind (copy_checkpoint source_session_id new_session_id vault_name uuid ic d)
       (copy_checkpoints source_session_id new_session_id vault_name uuid ics)"

definition json_get :: "(string, json) dict \<Rightarrow> string \<Rightarrow> json" where
  "json_get metadata key = (case map_of metadata key of None \<Rightarrow> JNull | Some v \<Rightarrow> v)"

text \<open>What the metadata of the child says of its newest checkpoint.\<close>

definition latest_checkpoint_metadata :: "(nat \<Rightarrow> string) \<Rightarrow> StoredContextCheckpoint list \<Rightarrow> (string, json) dict chat_result" where
  "latest_checkpoint_metadata uuid checkpoints =
     (if checkpoints = [] then Inr []
      else let latest = last checkpoints; latest_child_id = uuid (length checkpoints - 1); metadata = checkpoint_metadata latest
           in if ck_checkpoint_kind latest = ''recovery_card''
              then Inr [(''last_compaction'', JDict (dict_update metadata [(''compaction_id'', JStr latest_child_id)]))]
              else cbind (of_py (checkpoint_observation_boundary latest)) (\<lambda>observed.
                Inr [(''last_session_map_checkpoint'', JDict
                  [(''checkpoint_id'', JStr latest_child_id), (''prompt_contract_version'', json_get metadata ''prompt_contract_version''),
                   (''consumed_through_sequence_index'', JInt (ck_last_message_sequence_index latest)),
                   (''map_observed_through_sequence_index'', JInt observed),
                   (''source_history_revision'', json_get metadata ''source_history_revision'')])]))"

definition fork_record ::
  "string \<Rightarrow> int \<Rightarrow> string \<Rightarrow> nat \<Rightarrow> json \<Rightarrow> (string, json) dict" where
  "fork_record source_session_id through_sequence_index root_id inherited_checkpoint_count created_at =
     [(''source_session_id'', JStr source_session_id), (''through_sequence_index'', JInt through_sequence_index),
      (''root_session_id'', JStr root_id), (''child_owned_from_sequence_index'', JInt (through_sequence_index + 1)),
      (''inherited_checkpoint_count'', JInt (int inherited_checkpoint_count)), (''created_at'', created_at)]"

text \<open>The rows that are copied once the source has been checked.\<close>

definition copy_session ::
  "chat_env \<Rightarrow> timestamp \<Rightarrow> (nat \<Rightarrow> string) \<Rightarrow> StoredChatSession \<Rightarrow> string \<Rightarrow> string \<Rightarrow> string option \<Rightarrow> (string, json) dict \<Rightarrow>
    (string, json) dict \<Rightarrow> StoredChatMessage list \<Rightarrow> StoredContextCheckpoint list \<Rightarrow> chat_db \<Rightarrow> (nat \<times> chat_db) chat_result" where
  "copy_session e now uuid source new_session_id vault_name title metadata record_of_fork messages checkpoints d =
     (let source_session_id = st_session_id source;
          metadata = dict_update metadata [(''fork'', JDict record_of_fork)]
      in if find_session_by_id new_session_id d \<noteq> None
         then integrity_error ''UNIQUE constraint failed: chat_sessions.session_id''
         else let d = d\<lparr>cd_sessions := cd_sessions d @ [\<lparr>st_session_id = new_session_id, st_vault_name = vault_name,
                  st_owner_principal_id = st_owner_principal_id source, st_created_at = now, st_last_activity_at = now,
                  st_title = (case title of Some t \<Rightarrow> if t = [] then None else Some t | None \<Rightarrow> None),
                  st_metadata_json = Some (dumped metadata)\<rparr>]\<rparr>;
                  d = fold (copy_message new_session_id vault_name) messages d
         in cbind (safe_tool_events e source_session_id vault_name messages d) (\<lambda>events.
            let d = fold (insert_tool_event new_session_id vault_name) events d
            in cbind (copy_checkpoints source_session_id new_session_id vault_name uuid (List.enumerate 0 checkpoints) d) (\<lambda>d.
            cbind (latest_checkpoint_metadata uuid checkpoints) (\<lambda>latest.
            let metadata = dict_update metadata latest;
                metadata = dict_update metadata [(''fork'', JDict (dict_update record_of_fork
                  [(''copied_tool_event_count'', JInt (int (length events)))]))];
                d = update_session new_session_id vault_name (\<lambda>s. s\<lparr>st_metadata_json := Some (dumped metadata)\<rparr>) d
            in Inr (length messages, touch_session now new_session_id vault_name [] True d)))))"

definition fork_session ::
  "chat_env \<Rightarrow> timestamp \<Rightarrow> (nat \<Rightarrow> string) \<Rightarrow> string \<Rightarrow> string \<Rightarrow> string \<Rightarrow> int \<Rightarrow> string option \<Rightarrow> (string, json) dict \<Rightarrow> chat_db \<Rightarrow>
    (nat \<times> chat_db) chat_result" where
  "fork_session e now uuid source_session_id new_session_id vault_name through_sequence_index title metadata_update d =
     (case find_session source_session_id vault_name d of
        None \<Rightarrow> value_error (''Chat session not found: '' @ source_session_id)
      | Some source \<Rightarrow>
          let stored_metadata = parsed_dict (st_metadata_json source);
              metadata = dict_update (fork_session_metadata stored_metadata) metadata_update
          in cbind (fetch_raw_messages e source_session_id vault_name None None (Some through_sequence_index) d) (\<lambda>messages.
             if messages = []
             then value_error (''No chat messages found through sequence '' @ show_int through_sequence_index)
             else if sm_sequence_index (last messages) \<noteq> through_sequence_index
             then value_error (''Canonical fork point does not exist: '' @ show_int through_sequence_index)
             else if through_sequence_index \<notin> canonical_assistant_fork_points messages
             then value_error (''Canonical fork point is not a protocol-complete assistant message: '' @ show_int through_sequence_index)
             else cbind (eligible_checkpoints source_session_id vault_name through_sequence_index d) (\<lambda>checkpoints.
               cbind (cmap (\<lambda>c. checkpoint_replacement_messages e c source_session_id vault_name d) checkpoints) (\<lambda>_.
               let created_at = (case map_of metadata ''fork'' of Some (JDict f) \<Rightarrow> json_get f ''created_at'' | _ \<Rightarrow> JNull)
               in copy_session e now uuid source new_session_id vault_name title metadata
                  (fork_record source_session_id through_sequence_index (root_session_id source_session_id stored_metadata)
                    (length checkpoints) created_at) messages checkpoints d))))"

end
