(* ===== verification/Chat_Session_Ops.thy ===== *)
theory Chat_Session_Ops
  imports Chat_Forks
begin

text \<open>
  Settings, listings, deletion and display rows of chat sessions, core/chat/chat_store.py, and the access to
  sessions under the active authority, core/chat/session_access.py.
\<close>

section \<open>Settings\<close>

definition set_session_favorite :: "string \<Rightarrow> string \<Rightarrow> bool \<Rightarrow> chat_db \<Rightarrow> chat_db" where
  "set_session_favorite session_id vault_name favorite d =
     (let metadata = dict_update (session_metadata session_id vault_name d) [(''favorite'', JBool favorite)]
      in update_session session_id vault_name (\<lambda>s. s\<lparr>st_metadata_json := Some (dumped metadata)\<rparr>) d)"

definition set_session_title :: "string \<Rightarrow> string \<Rightarrow> string option \<Rightarrow> chat_db \<Rightarrow> chat_db" where
  "set_session_title session_id vault_name title d =
     update_session session_id vault_name (\<lambda>s. s\<lparr>st_title := (if title = Some [] then None else title)\<rparr>) d"

definition write_metadata :: "timestamp \<Rightarrow> string \<Rightarrow> string \<Rightarrow> (string, json) dict \<Rightarrow> chat_db \<Rightarrow> chat_db" where
  "write_metadata now session_id vault_name metadata d =
     update_session session_id vault_name (\<lambda>s. s\<lparr>st_last_activity_at := now, st_metadata_json := Some (dumped metadata)\<rparr>) d"

definition update_session_metadata ::
  "timestamp \<Rightarrow> string \<Rightarrow> string \<Rightarrow> (string, json) dict \<Rightarrow> string list \<Rightarrow> bool \<Rightarrow> chat_db \<Rightarrow> (unit \<times> chat_db) chat_result" where
  "update_session_metadata now session_id vault_name metadata_update remove_keys advance_history_revision d =
     cbind (upsert_session now session_id vault_name None d) (\<lambda>d.
     let metadata = dict_update (fold AList.delete remove_keys (session_metadata session_id vault_name d)) metadata_update;
         metadata = (if advance_history_revision then advanced metadata else metadata)
     in Inr ((), write_metadata now session_id vault_name metadata d))"

definition set_session_workspace ::
  "timestamp \<Rightarrow> string \<Rightarrow> string \<Rightarrow> string option \<Rightarrow> chat_db \<Rightarrow> (unit \<times> chat_db) chat_result" where
  "set_session_workspace now session_id vault_name workspace_path d =
     cbind (upsert_session now session_id vault_name None d) (\<lambda>d.
     let metadata = session_metadata session_id vault_name d;
         normalized_path = (case workspace_path of None \<Rightarrow> [] | Some p \<Rightarrow> strip p);
         metadata = (if normalized_path \<noteq> [] then dict_update metadata [(''workspace'', JDict [(''path'', JStr normalized_path)])]
                     else AList.delete ''workspace'' metadata)
     in Inr ((), write_metadata now session_id vault_name metadata d))"

definition get_session_metadata :: "string \<Rightarrow> string \<Rightarrow> chat_db \<Rightarrow> (string, json) dict" where
  "get_session_metadata session_id vault_name d =
     (case find_session session_id vault_name d of None \<Rightarrow> [] | Some s \<Rightarrow> parsed_dict (st_metadata_json s))"

definition get_session_workspace_path :: "string \<Rightarrow> string \<Rightarrow> chat_db \<Rightarrow> string" where
  "get_session_workspace_path session_id vault_name d =
     (case map_of (get_session_metadata session_id vault_name d) ''workspace'' of
        Some (JDict workspace) \<Rightarrow>
          (case map_of workspace ''path'' of None \<Rightarrow> [] | Some JNull \<Rightarrow> [] | Some path \<Rightarrow> strip (py_str path))
      | _ \<Rightarrow> [])"

definition normal_chat_mode :: "string \<Rightarrow> string" where
  "normal_chat_mode value = (if py_lower (strip value) = ''inline_edit'' then ''inline_edit'' else ''normal'')"

definition set_session_chat_mode :: "timestamp \<Rightarrow> string \<Rightarrow> string \<Rightarrow> string \<Rightarrow> chat_db \<Rightarrow> (unit \<times> chat_db) chat_result" where
  "set_session_chat_mode now session_id vault_name chat_mode d =
     update_session_metadata now session_id vault_name [(''chat_mode'', JStr (normal_chat_mode chat_mode))] [] False d"

definition get_session_chat_mode :: "string \<Rightarrow> string \<Rightarrow> chat_db \<Rightarrow> string" where
  "get_session_chat_mode session_id vault_name d =
     (let value = json_get (get_session_metadata session_id vault_name d) ''chat_mode''
      in normal_chat_mode (if truthy value then py_str value else ''normal''))"

definition get_session_history_revision :: "string \<Rightarrow> string \<Rightarrow> chat_db \<Rightarrow> int" where
  "get_session_history_revision session_id vault_name d = metadata_history_revision (get_session_metadata session_id vault_name d)"

section \<open>Checkpoints of a session\<close>

definition get_latest_context_checkpoint :: "string \<Rightarrow> string \<Rightarrow> chat_db \<Rightarrow> StoredContextCheckpoint option chat_result" where
  "get_latest_context_checkpoint session_id vault_name d =
     (case latest_context_checkpoint session_id vault_name d of
        None \<Rightarrow> Inr None | Some row \<Rightarrow> cbind (checkpoint_from_row row) (\<lambda>c. Inr (Some c)))"

definition get_context_checkpoint :: "string \<Rightarrow> string \<Rightarrow> string \<Rightarrow> chat_db \<Rightarrow> StoredContextCheckpoint option chat_result" where
  "get_context_checkpoint session_id vault_name checkpoint_id d =
     (case find (\<lambda>c. ck_session_id c = session_id \<and> ck_vault_name c = vault_name \<and> ck_checkpoint_id c = checkpoint_id) (cd_checkpoints d) of
        None \<Rightarrow> Inr None | Some row \<Rightarrow> cbind (checkpoint_from_row row) (\<lambda>c. Inr (Some c)))"

definition list_context_checkpoints :: "string \<Rightarrow> string \<Rightarrow> string option \<Rightarrow> chat_db \<Rightarrow> StoredContextCheckpoint list chat_result" where
  "list_context_checkpoints session_id vault_name checkpoint_kind d =
     cmap checkpoint_from_row (filter (\<lambda>c. case checkpoint_kind of None \<Rightarrow> True | Some k \<Rightarrow> ck_checkpoint_kind c = k)
       (checkpoint_rows session_id vault_name d))"

section \<open>Listing and deletion\<close>

text \<open>\<open>ORDER BY last_activity_at DESC, created_at DESC, session_id DESC\<close>, and a \<open>LIMIT\<close> that is none when negative.\<close>

definition list_sessions :: "string \<Rightarrow> int option \<Rightarrow> chat_db \<Rightarrow> StoredChatSession list" where
  "list_sessions vault_name limit d =
     (let rows = rev (sort_key st_last_activity_at (sort_key st_created_at (sort_key st_session_id
            (filter (\<lambda>s. st_vault_name s = vault_name) (cd_sessions d)))))
      in case limit of None \<Rightarrow> rows | Some n \<Rightarrow> if n < 0 then rows else take (nat n) rows)"

text \<open>A negative number of days is not a date modifier of SQLite; its comparison holds for no row.\<close>

definition deletes :: "timestamp \<Rightarrow> string \<Rightarrow> string option \<Rightarrow> int option \<Rightarrow> StoredChatSession \<Rightarrow> bool" where
  "deletes now vault_name session_id older_than_days s \<longleftrightarrow>
     st_vault_name s = vault_name \<and>
     (case session_id of
        Some i \<Rightarrow> st_session_id s = i
      | None \<Rightarrow> (case older_than_days of None \<Rightarrow> True
          | Some n \<Rightarrow> 0 \<le> n \<and> int (st_last_activity_at s) < int now - 86400 * n))"

definition delete_sessions :: "timestamp \<Rightarrow> string \<Rightarrow> string option \<Rightarrow> int option \<Rightarrow> chat_db \<Rightarrow> string list \<times> chat_db" where
  "delete_sessions now vault_name session_id older_than_days d =
     (let gone = filter (deletes now vault_name session_id older_than_days) (cd_sessions d);
          owned = (\<lambda>i v. list_ex (\<lambda>s. st_session_id s = i \<and> st_vault_name s = v) gone)
      in (map st_session_id gone,
          d\<lparr>cd_sessions := filter (\<lambda>s. \<not> deletes now vault_name session_id older_than_days s) (cd_sessions d),
            cd_messages := filter (\<lambda>r. \<not> owned (mr_session_id r) (mr_vault_name r)) (cd_messages d),
            cd_tool_events := filter (\<lambda>r. \<not> owned (tr_session_id r) (tr_vault_name r)) (cd_tool_events d),
            cd_checkpoints := filter (\<lambda>c. \<not> owned (ck_session_id c) (ck_vault_name c)) (cd_checkpoints d)\<rparr>))"

section \<open>Access\<close>

definition ensure_session ::
  "timestamp \<Rightarrow> string \<Rightarrow> string \<Rightarrow> string \<Rightarrow> chat_db \<Rightarrow> (StoredChatSession \<times> chat_db) chat_result" where
  "ensure_session now session_id vault_name owner_principal_id d =
     cbind (upsert_session now session_id vault_name (Some owner_principal_id) d) (\<lambda>d.
     case find_session session_id vault_name d of
       None \<Rightarrow> Inl (ChatError (RuntimeError (''Failed to create chat session '' @ quoted_id session_id @ ''.'')))
     | Some session \<Rightarrow> Inr (session, d))"

definition accessible :: "ExecutionAuthority \<Rightarrow> StoredChatSession \<Rightarrow> bool" where
  "accessible authority session = can_access_session (ea_principal_id authority) (st_owner_principal_id session)"

definition access_get_session_by_id :: "ExecutionAuthority option \<Rightarrow> string \<Rightarrow> chat_db \<Rightarrow> StoredChatSession option chat_result" where
  "access_get_session_by_id ctx session_id d =
     cbind (of_py (require_current_execution_authority ctx)) (\<lambda>authority.
     Inr (case find_session_by_id session_id d of None \<Rightarrow> None | Some s \<Rightarrow> if accessible authority s then Some s else None))"

definition access_require_session :: "ExecutionAuthority option \<Rightarrow> string \<Rightarrow> chat_db \<Rightarrow> StoredChatSession chat_result" where
  "access_require_session ctx session_id d =
     cbind (access_get_session_by_id ctx session_id d) (\<lambda>session.
     case session of None \<Rightarrow> Inl (LookupError (''Chat session not found: '' @ session_id)) | Some s \<Rightarrow> Inr s)"

definition access_list_sessions :: "ExecutionAuthority option \<Rightarrow> string \<Rightarrow> chat_db \<Rightarrow> StoredChatSession list chat_result" where
  "access_list_sessions ctx vault_name d =
     cbind (of_py (require_current_execution_authority ctx)) (\<lambda>authority.
     Inr (filter (accessible authority) (list_sessions vault_name None d)))"

definition access_ensure_session ::
  "ExecutionAuthority option \<Rightarrow> timestamp \<Rightarrow> string \<Rightarrow> string \<Rightarrow> chat_db \<Rightarrow> (StoredChatSession \<times> chat_db) chat_result" where
  "access_ensure_session ctx now session_id vault_name d =
     cbind (of_py (require_current_execution_authority ctx)) (\<lambda>authority.
     case find_session_by_id session_id d of
       Some existing \<Rightarrow>
         if \<not> accessible authority existing then Inl (LookupError (''Chat session not found: '' @ session_id))
         else ensure_session now session_id vault_name (ea_principal_id authority) d
     | None \<Rightarrow> ensure_session now session_id vault_name (ea_principal_id authority) d)"

definition access_session_id_exists :: "ExecutionAuthority option \<Rightarrow> string \<Rightarrow> chat_db \<Rightarrow> bool chat_result" where
  "access_session_id_exists ctx session_id d =
     cbind (of_py (require_current_execution_authority ctx)) (\<lambda>authority. Inr (find_session_by_id session_id d \<noteq> None))"

section \<open>Display rows\<close>

definition is_tool_part :: "message_part \<Rightarrow> bool" where
  "is_tool_part p \<longleftrightarrow> mp_kind p = ToolCall \<or> mp_kind p = NativeToolReturn \<or> is_reply_part p"

text \<open>\<open>trim\<close> of SQLite, with spaces only and with a list of characters.\<close>

definition sql_trim :: "char list \<Rightarrow> string \<Rightarrow> string" where
  "sql_trim cs s = rev (dropWhile (\<lambda>c. c \<in> set cs) (rev (dropWhile (\<lambda>c. c \<in> set cs) s)))"

definition shown_text :: "message_part \<Rightarrow> bool" where
  "shown_text p \<longleftrightarrow> mp_kind p = TextPart \<and>
     (case mp_content p of
        TextContent t \<Rightarrow> sql_trim '' '' t \<noteq> [] \<and>
          py_lower (sql_trim [CHR 0x09, CHR 0x0A, CHR 0x0D, CHR '' ''] t) \<notin> {''<think>'', ''</think>''}
      | _ \<Rightarrow> False)"

datatype display_kind = UserRow | AssistantRow | Separator

definition classify_row :: "message_row \<times> message_part list \<Rightarrow> int \<times> display_kind" where
  "classify_row rp =
     (case rp of (r, parts) \<Rightarrow>
        let is_tool = list_ex is_tool_part parts;
            has_text = (list_ex shown_text parts \<or>
              \<not> list_ex (\<lambda>p. mp_kind p = ToolCall \<and> part_call_id p \<noteq> []) parts \<and> sql_trim '' '' (mr_content_text r) \<noteq> [])
        in (mr_sequence_index r,
            if \<not> is_tool \<and> mr_role r = ''user'' then UserRow
            else if is_tool \<or> mr_role r = ''assistant'' \<and> has_text then AssistantRow else Separator))"

text \<open>Adjacent assistant messages are one row: its first and its last sequence index.\<close>

fun display_groups :: "(int \<times> display_kind) list \<Rightarrow> (int \<times> int \<times> display_kind) list" where
  "display_groups [] = []"
| "display_groups ((i, kind) # rows) =
     (case display_groups rows of
        (f, l, k) # groups \<Rightarrow>
          if kind = AssistantRow \<and> k = AssistantRow then (i, l, AssistantRow) # groups else (i, i, kind) # (f, l, k) # groups
      | [] \<Rightarrow> [(i, i, kind)])"

definition get_canonical_display_rows_before ::
  "chat_env \<Rightarrow> string \<Rightarrow> string \<Rightarrow> int \<Rightarrow> int option \<Rightarrow> int \<Rightarrow> chat_db \<Rightarrow> ((int \<times> int) list \<times> bool) chat_result" where
  "get_canonical_display_rows_before e session_id vault_name through_sequence_index before_sequence_index limit d =
     (if limit < 1 then value_error ''Canonical display-row limit must be positive''
      else let cursor = (case before_sequence_index of None \<Rightarrow> through_sequence_index + 1 | Some b \<Rightarrow> b)
      in cbind (cmap (json_parts e) (rows_through (Some through_sequence_index) (messages_of session_id vault_name d))) (\<lambda>messages.
         let groups = filter (\<lambda>(_, _, kind). kind \<noteq> Separator) (display_groups (map classify_row messages));
             rows = take (nat (limit + 1)) (rev (map (\<lambda>(f, l, _). (f, l)) (filter (\<lambda>(f, _, _). f < cursor) groups)))
         in Inr (rev (take (nat limit) rows), limit < int (length rows))))"

end
