(* ===== verification/Chat_Codec.thy ===== *)
theory Chat_Codec
  imports Chat_Session_Ops
begin

text \<open>
  What the store relies on of the serialization of messages, and a serialization for which it holds: the JSON text of a
  message with its parts, read back by the parser of \<open>json.loads\<close>.
\<close>

section \<open>The contract\<close>

text \<open>A dumped message loads as itself, its text has its parts for the JSON functions, and a dumped list loads as itself.\<close>

definition codec_ok :: "chat_env \<Rightarrow> bool" where
  "codec_ok e \<longleftrightarrow>
     (\<forall>m. ce_load e (ce_dump e m) = Some m \<and> ce_parts e (ce_dump e m) = Some (mm_parts m)) \<and>
     (\<forall>ms. ce_load_list e (ce_dump_list e ms) = Some ms)"

lemma codec_okD:
  assumes "codec_ok e"
  shows "ce_load e (ce_dump e m) = Some m" "ce_parts e (ce_dump e m) = Some (mm_parts m)"
    "ce_load_list e (ce_dump_list e ms) = Some ms"
  using assms by (auto simp: codec_ok_def)

section \<open>A serialization in JSON\<close>

definition kind_text :: "part_kind \<Rightarrow> string" where
  "kind_text k =
     (case k of UserPrompt \<Rightarrow> ''user-prompt'' | SystemPrompt \<Rightarrow> ''system-prompt'' | TextPart \<Rightarrow> ''text'' | ThinkingPart \<Rightarrow> ''thinking''
      | ToolCall \<Rightarrow> ''tool-call'' | ToolReturn \<Rightarrow> ''tool-return'' | RetryPrompt \<Rightarrow> ''retry-prompt''
      | NativeToolReturn \<Rightarrow> ''builtin-tool-return'' | OtherPart s \<Rightarrow> ''other-'' @ s)"

definition kind_of_text :: "string \<Rightarrow> part_kind" where
  "kind_of_text s =
     (if s = ''user-prompt'' then UserPrompt else if s = ''system-prompt'' then SystemPrompt else if s = ''text'' then TextPart
      else if s = ''thinking'' then ThinkingPart else if s = ''tool-call'' then ToolCall else if s = ''tool-return'' then ToolReturn
      else if s = ''retry-prompt'' then RetryPrompt else if s = ''builtin-tool-return'' then NativeToolReturn
      else OtherPart (drop 6 s))"

lemma kind_of_kind_text [simp]: "kind_of_text (kind_text k) = k"
  by (cases k) (simp_all add: kind_text_def kind_of_text_def)

definition content_json :: "part_content \<Rightarrow> json" where
  "content_json c = (case c of NoContent \<Rightarrow> JNull | TextContent t \<Rightarrow> JStr t | DataContent t \<Rightarrow> JList [JStr t])"

definition json_content :: "json \<Rightarrow> part_content" where
  "json_content j = (case j of JStr t \<Rightarrow> TextContent t | JList [JStr t] \<Rightarrow> DataContent t | _ \<Rightarrow> NoContent)"

definition json_str :: "json \<Rightarrow> string" where
  "json_str j = (case j of JStr s \<Rightarrow> s | _ \<Rightarrow> [])"

definition json_str_opt :: "json \<Rightarrow> string option" where
  "json_str_opt j = (case j of JStr s \<Rightarrow> Some s | _ \<Rightarrow> None)"

definition part_json :: "message_part \<Rightarrow> json" where
  "part_json p = JDict [(''content'', content_json (mp_content p)), (''id'', json_of_opt (mp_item_id p)),
     (''part_kind'', JStr (kind_text (mp_kind p))), (''tool_call_id'', json_of_opt (mp_tool_call_id p)),
     (''tool_name'', json_of_opt (mp_tool_name p))]"

definition json_part :: "json \<Rightarrow> message_part" where
  "json_part j = (case j of JDict d \<Rightarrow>
       \<lparr>mp_kind = kind_of_text (json_str (json_get d ''part_kind'')), mp_content = json_content (json_get d ''content''),
        mp_tool_name = json_str_opt (json_get d ''tool_name''), mp_tool_call_id = json_str_opt (json_get d ''tool_call_id''),
        mp_item_id = json_str_opt (json_get d ''id'')\<rparr>
     | _ \<Rightarrow> \<lparr>mp_kind = OtherPart [], mp_content = NoContent, mp_tool_name = None, mp_tool_call_id = None, mp_item_id = None\<rparr>)"

lemma json_str_opt_of_opt [simp]: "json_str_opt (json_of_opt x) = x"
  by (cases x) (simp_all add: json_str_opt_def json_of_opt_def)

lemma json_content_json [simp]: "json_content (content_json c) = c"
  by (cases c) (simp_all add: json_content_def content_json_def)

lemma json_part_json [simp]: "json_part (part_json p) = p"
  by (cases p) (simp add: json_part_def part_json_def json_get_def json_str_def)

definition message_json :: "model_message \<Rightarrow> json" where
  "message_json m = JDict [(''kind'', JStr (case mm_type m of ModelRequest \<Rightarrow> ''request'' | ModelResponse \<Rightarrow> ''response'')),
     (''other'', JStr (mm_other m)), (''parts'', JList (map part_json (mm_parts m)))]"

definition json_parts_of :: "json \<Rightarrow> message_part list" where
  "json_parts_of j = (case j of JDict d \<Rightarrow> (case json_get d ''parts'' of JList xs \<Rightarrow> map json_part xs | _ \<Rightarrow> []) | _ \<Rightarrow> [])"

definition json_message :: "json \<Rightarrow> model_message option" where
  "json_message j = (case j of JDict d \<Rightarrow>
       Some \<lparr>mm_type = (if json_get d ''kind'' = JStr ''response'' then ModelResponse else ModelRequest), mm_parts = json_parts_of j,
         mm_other = json_str (json_get d ''other'')\<rparr>
     | _ \<Rightarrow> None)"

lemma json_parts_of_message [simp]: "json_parts_of (message_json m) = mm_parts m"
  by (simp add: json_parts_of_def message_json_def json_get_def map_idI)

lemma json_message_json [simp]: "json_message (message_json m) = Some m"
proof (cases m)
  case (fields t ps other)
  have "json_parts_of (message_json m) = ps" by (simp add: fields)
  with fields show ?thesis
    by (cases t) (simp_all add: json_message_def message_json_def json_get_def json_str_def)
qed

lemma content_canonical: "json_canonical (content_json c)"
  by (cases c) (simp_all add: content_json_def)

lemma opt_canonical: "json_canonical (json_of_opt x)"
  by (cases x) (simp_all add: json_of_opt_def)

lemma part_canonical: "json_canonical (part_json p)"
  by (simp add: part_json_def content_canonical opt_canonical)

lemma message_canonical: "json_canonical (message_json m)"
proof -
  have "list_all id (map json_canonical (map part_json ps))" for ps
    by (induction ps) (simp_all add: part_canonical)
  then show ?thesis by (simp add: message_json_def)
qed

definition json_env :: "bool \<Rightarrow> chat_env" where
  "json_env persist_reasoning =
     \<lparr>ce_dump = (\<lambda>m. json_dumps False (message_json m)),
      ce_load = (\<lambda>t. case json_loads t of None \<Rightarrow> None | Some j \<Rightarrow> json_message j),
      ce_parts = (\<lambda>t. map_option json_parts_of (json_loads t)),
      ce_dump_list = (\<lambda>ms. json_dumps False (JList (map message_json ms))),
      ce_load_list = (\<lambda>t. case json_loads t of Some (JList xs) \<Rightarrow> omap json_message xs | _ \<Rightarrow> None),
      ce_persist_reasoning = persist_reasoning\<rparr>"

lemma loads_dumps_message: "json_loads (json_dumps False (message_json m)) = Some (message_json m)"
  unfolding json_dumps_text by (rule json_default.loads_json_text) (rule message_canonical)

lemma loads_dumps_messages: "json_loads (json_dumps False (JList (map message_json ms))) = Some (JList (map message_json ms))"
proof -
  have "list_all id (map json_canonical (map message_json ms))" by (induction ms) (simp_all add: message_canonical)
  then show ?thesis unfolding json_dumps_text by (intro json_default.loads_json_text) simp
qed

lemma omap_json_message: "omap json_message (map message_json ms) = Some ms"
  by (induction ms) simp_all

lemma codec_json_env: "codec_ok (json_env persist_reasoning)"
  by (simp add: codec_ok_def json_env_def loads_dumps_message loads_dumps_messages omap_json_message del: json_dumps.simps)

end
