(* ===== verification/Chat_Fork_Points.thy ===== *)
theory Chat_Fork_Points
  imports Chat_Codec
begin

text \<open>
  The scan of the compact protocol rows in \<open>get_canonical_fork_points_for_sequences\<close> and \<open>get_raw_history_structure\<close>
  finds what the analysis of the loaded messages finds: messages without tool parts have no rows and can be skipped.
\<close>

section \<open>Steps of the protocol\<close>

definition continues :: "ToolHistoryProtocolState \<Rightarrow> nat \<Rightarrow> nat \<Rightarrow> bool" where
  "continues p j origin \<longleftrightarrow> ph_last_message_index p \<noteq> None \<and> Suc (the (ph_last_message_index p)) = j \<and> origin \<in> ph_last_reply_origins p"

definition at_place :: "nat option \<Rightarrow> nat set \<Rightarrow> ToolHistoryProtocolState \<Rightarrow> ToolHistoryProtocolState" where
  "at_place i origins p = p\<lparr>ph_last_message_index := i, ph_last_reply_origins := origins\<rparr>"

lemma at_place_simps [simp]:
  "ph_pending (at_place i o' p) = ph_pending p" "ph_issues (at_place i o' p) = ph_issues p"
  "at_place i o' (at_place j o'' p) = at_place i o' p"
  by (simp_all add: at_place_def)

lemma add_issue_place: "add_issue c s t k d (at_place i o' p) = at_place i o' (add_issue c s t k d p)"
  by (simp add: add_issue_def at_place_def)

lemma record_call_place: "record_call k call (at_place i o' p) = at_place i o' (record_call k call p)"
  by (simp add: record_call_def add_issue_def at_place_def Let_def)

lemma record_reply_place:
  "record_reply k ro pm po r (at_place i o' p, os) = map_prod (at_place i o') id (record_reply k ro pm po r (p, os))"
  by (simp add: record_reply_def add_issue_def at_place_def Let_def split: option.split)

lemma fold_issue_place: "fold (\<lambda>i. add_issue c s i k d) xs (at_place j o' p) = at_place j o' (fold (\<lambda>i. add_issue c s i k d) xs p)"
  by (induction xs arbitrary: p) (simp_all add: add_issue_place)

lemma fold_call_place: "fold (record_call k) xs (at_place j o' p) = at_place j o' (fold (record_call k) xs p)"
  by (induction xs arbitrary: p) (simp_all add: record_call_place)

lemma fold_reply_place:
  "fold (record_reply k ro pm po) xs (at_place j o' p, os) = map_prod (at_place j o') id (fold (record_reply k ro pm po) xs (p, os))"
proof (induction xs arbitrary: p os)
  case (Cons r xs)
  show ?case by (cases "record_reply k ro pm po r (p, os)") (simp add: record_reply_place Cons.IH)
qed simp

text \<open>A reply looks at the place of the last message only through \<open>continues\<close>.\<close>

lemma record_reply_continues:
  assumes "\<And>c. continues p k c = continues q k c"
  shows "record_reply k ro (ph_last_message_index p) (ph_last_reply_origins p) =
    record_reply k ro (ph_last_message_index q) (ph_last_reply_origins q)"
proof (intro ext)
  fix r so
  have eq: "ph_last_message_index p \<noteq> None \<and> Suc (the (ph_last_message_index p)) = k \<and> c \<in> ph_last_reply_origins p \<longleftrightarrow>
    ph_last_message_index q \<noteq> None \<and> Suc (the (ph_last_message_index q)) = k \<and> c \<in> ph_last_reply_origins q" for c
    using assms [of c] by (simp add: continues_def)
  show "record_reply k ro (ph_last_message_index p) (ph_last_reply_origins p) r so =
    record_reply k ro (ph_last_message_index q) (ph_last_reply_origins q) r so"
    unfolding record_reply_def eq ..
qed

lemma same_facts: "ph_pending p = ph_pending q \<Longrightarrow> ph_issues p = ph_issues q \<Longrightarrow>
  p = at_place (ph_last_message_index p) (ph_last_reply_origins p) q"
  by (cases p; cases q) (simp add: at_place_def)

text \<open>The message with the replies recorded by a given function.\<close>

definition advance ::
  "(ToolHistoryInvocation \<Rightarrow> ToolHistoryProtocolState \<times> nat set \<Rightarrow> ToolHistoryProtocolState \<times> nat set) \<Rightarrow>
    nat \<Rightarrow> ToolHistoryInvocation list \<Rightarrow> ToolHistoryInvocation list \<Rightarrow> ToolHistoryProtocolState \<Rightarrow> ToolHistoryProtocolState \<times> nat set" where
  "advance reply k calls replies p =
     (let given_ids = (\<lambda>xs. filter (\<lambda>i. \<not> blank i) (map hv_tool_call_id xs))
      in fold reply replies (fold (record_call k) calls
           (fold (\<lambda>i. add_issue ''duplicate_tool_return_in_message'' ''error'' i k
               ''A single message contains duplicate tool-return ids.'') (duplicates (given_ids replies))
             (fold (\<lambda>i. add_issue ''duplicate_tool_call_in_message'' ''error'' i k
               ''A single message contains duplicate tool-call ids.'') (duplicates (given_ids calls)) p)), {}))"

definition settled :: "nat \<Rightarrow> bool \<Rightarrow> ToolHistoryProtocolState \<times> nat set \<Rightarrow> ToolHistoryProtocolState" where
  "settled k ro so = at_place (Some k) (if ro then snd so else {}) (fst so)"

lemma record_message_advance:
  "record_message k calls replies ro p =
    settled k ro (advance (record_reply k ro (ph_last_message_index p) (ph_last_reply_origins p)) k calls replies p)"
  by (simp add: record_message_def advance_def settled_def at_place_def Let_def split_beta)

lemma settled_place: "settled k ro (map_prod (at_place i o') id so) = settled k ro so"
  by (simp add: settled_def split_beta)

lemma record_message_cong:
  assumes "ph_pending p = ph_pending q" "ph_issues p = ph_issues q" "\<And>c. continues p k c = continues q k c"
  shows "record_message k calls replies ro p = record_message k calls replies ro q"
proof -
  have "settled k ro (advance (record_reply k ro pm po) k calls replies (at_place i os q)) =
      settled k ro (advance (record_reply k ro pm po) k calls replies q)" for pm po i os
    unfolding advance_def Let_def fold_issue_place fold_call_place fold_reply_place settled_place ..
  from this [where ?i = "ph_last_message_index p" and ?os = "ph_last_reply_origins p"] show ?thesis
    unfolding record_message_advance record_reply_continues [OF assms(3)] same_facts [OF assms(1,2), symmetric] .
qed

section \<open>Issues stay\<close>

lemma issues_add: "set (ph_issues p) \<subseteq> set (ph_issues (add_issue c s t k d p))" by (auto simp: add_issue_def)

lemma issues_call: "set (ph_issues p) \<subseteq> set (ph_issues (record_call k call p))"
  by (auto simp: record_call_def add_issue_def Let_def)

lemma issues_reply: "set (ph_issues (fst so)) \<subseteq> set (ph_issues (fst (record_reply k ro pm po r so)))"
  by (cases so) (auto simp: record_reply_def add_issue_def Let_def split: option.split)

lemma issues_folds:
  "set (ph_issues p) \<subseteq> set (ph_issues (fold (\<lambda>i. add_issue c s i k d) xs p))"
  "set (ph_issues p) \<subseteq> set (ph_issues (fold (record_call k) calls p))"
  "set (ph_issues (fst so)) \<subseteq> set (ph_issues (fst (fold (record_reply k ro pm po) replies so)))"
proof -
  show "set (ph_issues p) \<subseteq> set (ph_issues (fold (\<lambda>i. add_issue c s i k d) xs p))"
    by (induction xs arbitrary: p) (use issues_add in fastforce)+
  show "set (ph_issues p) \<subseteq> set (ph_issues (fold (record_call k) calls p))"
    by (induction calls arbitrary: p) (use issues_call in fastforce)+
  show "set (ph_issues (fst so)) \<subseteq> set (ph_issues (fst (fold (record_reply k ro pm po) replies so)))"
    by (induction replies arbitrary: so) (use issues_reply in fastforce)+
qed

lemma issues_record_message: "set (ph_issues p) \<subseteq> set (ph_issues (record_message k calls replies ro p))"
proof -
  have "ph_issues (record_message k calls replies ro p) =
      ph_issues (fst (advance (record_reply k ro (ph_last_message_index p) (ph_last_reply_origins p)) k calls replies p))"
    by (simp add: record_message_advance settled_def)
  also have "set (ph_issues p) \<subseteq> set \<dots>"
    unfolding advance_def Let_def
    by (rule order_trans [OF issues_folds(1) order_trans [OF issues_folds(1) order_trans [OF issues_folds(2)
      issues_folds(3) [where ?so = "(s, {})" for s, unfolded fst_conv]]]])
  finally show ?thesis .
qed

lemma issues_step_message: "set (ph_issues p) \<subseteq> set (ph_issues (step_message im p))"
  by (simp add: step_message_def split_beta issues_record_message)

lemma issues_fold_messages: "set (ph_issues p) \<subseteq> set (ph_issues (fold step_message ims p))"
  by (induction ims arbitrary: p) (use issues_step_message in fastforce)+

lemma issues_persist: "ph_issues p \<noteq> [] \<Longrightarrow> ph_issues (fold step_message ims p) \<noteq> []"
  using issues_fold_messages [of p ims] by auto


section \<open>Rows and messages\<close>

definition compact_rows :: "nat \<Rightarrow> (message_row \<times> model_message) list \<Rightarrow> protocol_row list" where
  "compact_rows n xs = concat (map protocol_rows_of (List.enumerate n (map (\<lambda>(r, m). (r, mm_parts m)) xs)))"

definition typed_rows :: "(message_row \<times> model_message) list \<Rightarrow> bool" where
  "typed_rows xs \<longleftrightarrow> list_all (\<lambda>(r, m). mr_message_type r = message_type_name m) xs \<and> sorted_wrt (<) (map (\<lambda>(r, m). mr_sequence_index r) xs)"

definition row_seq :: "message_row \<times> model_message \<Rightarrow> int" where
  "row_seq x = mr_sequence_index (fst x)"

lemma typed_rows_Cons [simp]:
  "typed_rows ((r, m) # xs) \<longleftrightarrow>
    mr_message_type r = message_type_name m \<and> list_all (\<lambda>x. mr_sequence_index r < row_seq x) xs \<and> typed_rows xs"
  by (auto simp: typed_rows_def row_seq_def list_all_iff split_beta)

lemma compact_rows_simps [simp]:
  "compact_rows n [] = []"
  "compact_rows n ((r, m) # xs) = protocol_rows_of (n, r, mm_parts m) @ compact_rows (Suc n) xs"
  by (simp_all add: compact_rows_def)

lemma protocol_rows_seq: "x \<in> set (protocol_rows_of (n, r, parts)) \<Longrightarrow> pr_sequence_index x = mr_sequence_index r"
  by (auto simp: protocol_rows_of_def)

lemma compact_rows_seq: "x \<in> set (compact_rows n xs) \<Longrightarrow> \<exists>y\<in>set xs. pr_sequence_index x = row_seq y"
  by (induction xs arbitrary: n) (fastforce simp: row_seq_def dest: protocol_rows_seq)+

lemma reply_not_call: "is_reply_part p \<Longrightarrow> mp_kind p \<noteq> ToolCall"
  by (auto simp: is_reply_part_def)

lemma step_rows_message:
  assumes "protocol_rows_of (n, r, mm_parts m) \<noteq> []" "mr_message_type r = message_type_name m"
  shows "step_rows (protocol_rows_of (n, r, mm_parts m)) p = step_message (n, m) p"
proof -
  let ?g = "protocol_rows_of (n, r, mm_parts m)"
  have index: "pr_message_index (hd ?g) = n"
    and only: "pr_reply_only (hd ?g) = (mr_message_type r = ''ModelRequest'' \<and> list_all is_reply_part (mm_parts m))"
    using assms(1) by (auto simp: protocol_rows_of_def hd_map)
  show ?thesis
  proof (cases "mm_type m")
    case ModelRequest
    have part: "is_protocol_part ''ModelRequest'' = is_reply_part" by (auto simp: is_protocol_part_def)
    have "filter (\<lambda>p. mp_kind p = ToolCall) (filter is_reply_part ps) = []"
      "filter (\<lambda>p. mp_kind p \<noteq> ToolCall) (filter is_reply_part ps) = filter is_reply_part ps" for ps
      by (induction ps) (auto dest: reply_not_call)
    moreover have "mm_parts m \<noteq> []" using assms(1) by (auto simp: protocol_rows_of_def)
    ultimately show ?thesis using ModelRequest assms(2) index only
      by (simp add: step_rows_def step_message_def model_message_tool_invocations_def tool_call_parts_def tool_reply_parts_def
          model_message_is_tool_reply_only_def protocol_rows_of_def message_type_name_def part filter_map comp_def row_invocation_def)
  next
    case ModelResponse
    have part: "is_protocol_part ''ModelResponse'' = (\<lambda>p. mp_kind p = ToolCall)" by (auto simp: is_protocol_part_def)
    have rows: "?g = map (\<lambda>p. \<lparr>pr_sequence_index = mr_sequence_index r, pr_message_index = n, pr_part_kind = mp_kind p,
        pr_tool_call_id = part_call_id p, pr_tool_name = mp_tool_name p, pr_reply_only = False\<rparr>) (tool_call_parts m)"
      using ModelResponse assms(2) by (simp add: protocol_rows_of_def message_type_name_def part tool_call_parts_def)
    have "map row_invocation (filter (\<lambda>r. pr_part_kind r = ToolCall) ?g) = fst (model_message_tool_invocations m)"
      "filter (\<lambda>r. pr_part_kind r \<noteq> ToolCall) ?g = []"
      unfolding rows
      by (auto simp: ModelResponse tool_call_parts_def model_message_tool_invocations_def filter_map comp_def row_invocation_def filter_empty_conv)
    then show ?thesis using ModelResponse assms(2) index only
      by (simp add: step_rows_def step_message_def model_message_tool_invocations_def tool_reply_parts_def
          model_message_is_tool_reply_only_def message_type_name_def)
  qed
qed

lemma skipped_message:
  assumes "protocol_rows_of (n, r, mm_parts m) = []" "mr_message_type r = message_type_name m"
  shows "step_message (n, m) p = at_place (Some n) {} p"
proof -
  have "tool_call_parts m = []" "tool_reply_parts m = []"
    using assms by (auto simp: protocol_rows_of_def tool_call_parts_def tool_reply_parts_def message_type_name_def is_protocol_part_def
        filter_empty_conv split: message_type.splits)
  then show ?thesis
    by (simp add: step_message_def model_message_tool_invocations_def record_message_def at_place_def duplicates_def fromkeys_def)
qed

text \<open>The scan before message \<open>n\<close> against the analysis: they differ only in a place that no later reply looks at.\<close>

definition same_place :: "nat \<Rightarrow> ToolHistoryProtocolState \<Rightarrow> ToolHistoryProtocolState \<Rightarrow> bool" where
  "same_place n p q \<longleftrightarrow> ph_pending p = ph_pending q \<and> ph_issues p = ph_issues q \<and>
     (\<forall>j c. n \<le> j \<longrightarrow> continues p j c = continues q j c) \<and> (\<forall>l. ph_last_message_index p = Some l \<longrightarrow> l < n)"

lemma same_place_step:
  assumes "same_place n p q" shows "same_place (Suc n) (step_message (n, m) p) (step_message (n, m) q)"
proof -
  have "step_message (n, m) p = step_message (n, m) q"
    using assms by (auto simp: step_message_def same_place_def split_beta intro!: record_message_cong)
  moreover have "ph_last_message_index (step_message (n, m) q) = Some n"
    by (simp add: step_message_def split_beta record_message_def Let_def)
  ultimately show ?thesis by (simp add: same_place_def)
qed

lemma same_place_skip:
  assumes "same_place n p q" shows "same_place (Suc n) p (at_place (Some n) {} q)"
proof -
  have "\<forall>l. ph_last_message_index p = Some l \<longrightarrow> l < n" using assms by (simp add: same_place_def)
  then have "\<not> continues p j c" if "Suc n \<le> j" for j c using that by (auto simp: continues_def)
  moreover have "\<not> continues (at_place (Some n) {} q) j c" for j c by (simp add: continues_def at_place_def)
  ultimately show ?thesis using assms by (auto simp: same_place_def less_Suc_eq)
qed

section \<open>The scans\<close>

definition analysed :: "nat \<Rightarrow> (message_row \<times> model_message) list \<Rightarrow> ToolHistoryProtocolState \<Rightarrow> ToolHistoryProtocolState" where
  "analysed n xs q = fold step_message (List.enumerate n (map snd xs)) q"

lemma analysed_simps [simp]:
  "analysed n [] q = q" "analysed n ((r, m) # xs) q = analysed (Suc n) xs (step_message (n, m) q)"
  by (simp_all add: analysed_def)

lemma analysed_append: "analysed n (xs @ ys) q = analysed (n + length xs) ys (analysed n xs q)"
  by (simp add: analysed_def enumerate_append_eq)

lemma analysed_issues: "ph_issues q \<noteq> [] \<Longrightarrow> ph_issues (analysed n xs q) \<noteq> []"
  by (simp add: analysed_def issues_persist)

lemma first_message_rows:
  assumes "typed_rows ((r, m) # xs)" "protocol_rows_of (n, r, mm_parts m) \<noteq> []"
  defines "rows \<equiv> compact_rows n ((r, m) # xs)"
  shows "rows \<noteq> []" "pr_sequence_index (hd rows) = mr_sequence_index r"
    "takeWhile (same_message rows) rows = protocol_rows_of (n, r, mm_parts m)"
    "dropWhile (same_message rows) rows = compact_rows (Suc n) xs"
proof -
  let ?g = "protocol_rows_of (n, r, mm_parts m)"
  show ne: "rows \<noteq> []" and hd: "pr_sequence_index (hd rows) = mr_sequence_index r"
    using assms(2) protocol_rows_seq [of "hd ?g" n r "mm_parts m"] by (auto simp: rows_def)
  have same: "same_message rows x" if "x \<in> set ?g" for x
    using that hd by (simp add: same_message_def protocol_rows_seq)
  have other: "\<not> same_message rows x" if x: "x \<in> set (compact_rows (Suc n) xs)" for x
  proof -
    obtain y where "y \<in> set xs" "pr_sequence_index x = row_seq y" using compact_rows_seq [OF x] by blast
    with assms(1) hd show ?thesis by (auto simp: same_message_def list_all_iff)
  qed
  have none: "takeWhile (same_message rows) (compact_rows (Suc n) xs) = []"
    "dropWhile (same_message rows) (compact_rows (Suc n) xs) = compact_rows (Suc n) xs"
    by (cases "compact_rows (Suc n) xs"; simp add: other)+
  show "takeWhile (same_message rows) rows = ?g" "dropWhile (same_message rows) rows = compact_rows (Suc n) xs"
    using none same by (simp_all add: rows_def takeWhile_append2 dropWhile_append2)
qed

lemma scan_stops:
  assumes "list_all (\<lambda>x. c < row_seq x) xs"
  shows "scan_through c (compact_rows n xs) p = (compact_rows n xs, p)"
proof (cases "compact_rows n xs = []")
  case False
  obtain y where "y \<in> set xs" "pr_sequence_index (hd (compact_rows n xs)) = row_seq y"
    using compact_rows_seq [OF hd_in_set [OF False]] by blast
  with assms show ?thesis by (subst scan_through.simps) (simp add: list_all_iff)
qed (subst scan_through.simps, simp)

definition up_to :: "int \<Rightarrow> (message_row \<times> model_message) list \<Rightarrow> (message_row \<times> model_message) list" where
  "up_to c xs = takeWhile (\<lambda>x. row_seq x \<le> c) xs"

definition beyond :: "int \<Rightarrow> (message_row \<times> model_message) list \<Rightarrow> (message_row \<times> model_message) list" where
  "beyond c xs = dropWhile (\<lambda>x. row_seq x \<le> c) xs"

lemma up_to_simps [simp]:
  "up_to c [] = []" "beyond c [] = []"
  "up_to c (x # xs) = (if row_seq x \<le> c then x # up_to c xs else [])"
  "beyond c (x # xs) = (if row_seq x \<le> c then beyond c xs else x # xs)"
  by (simp_all add: up_to_def beyond_def)

lemma scan_through_analysed:
  assumes "same_place n p q" "typed_rows xs" "ph_issues p = []"
  shows "if ph_issues (analysed n (up_to c xs) q) = []
    then \<exists>p'. scan_through c (compact_rows n xs) p = (compact_rows (n + length (up_to c xs)) (beyond c xs), p') \<and>
      same_place (n + length (up_to c xs)) p' (analysed n (up_to c xs) q)
    else ph_issues (snd (scan_through c (compact_rows n xs) p)) \<noteq> []"
  using assms
proof (induction xs arbitrary: n p q)
  case Nil
  then show ?case by (subst (1 2) scan_through.simps) (auto simp: same_place_def)
next
  case (Cons x xs)
  obtain r m where x: "x = (r, m)" by (cases x)
  show ?case
  proof (cases "mr_sequence_index r \<le> c")
    case False
    then have "list_all (\<lambda>x. c < row_seq x) (x # xs)" using Cons.prems(2) x by (auto simp: row_seq_def list_all_iff)
    then have "scan_through c (compact_rows n (x # xs)) p = (compact_rows n (x # xs), p)" by (rule scan_stops)
    with False Cons.prems(1,3) x show ?thesis by (auto simp: row_seq_def same_place_def)
  next
    case True
    let ?g = "protocol_rows_of (n, r, mm_parts m)" and ?q = "step_message (n, m) q"
    have typed: "typed_rows xs" "mr_message_type r = message_type_name m" using Cons.prems(2) x by simp_all
    show ?thesis
    proof (cases "?g = []")
      case True
      then have q: "?q = at_place (Some n) {} q" using typed(2) by (rule skipped_message)
      have "same_place (Suc n) p ?q" unfolding q using Cons.prems(1) by (rule same_place_skip)
      from Cons.IH [OF this typed(1) Cons.prems(3)] show ?thesis
        using \<open>mr_sequence_index r \<le> c\<close> True x by (simp add: row_seq_def split: if_splits)
    next
      case False
      let ?rows = "compact_rows n (x # xs)"
      note first = first_message_rows [OF _ False, of xs] 
      have p: "step_rows ?g p = step_message (n, m) p" using False typed(2) by (rule step_rows_message)
      have same: "same_place (Suc n) (step_message (n, m) p) ?q" using Cons.prems(1) by (rule same_place_step)
      have scan: "scan_through c ?rows p =
          (if ph_issues (step_message (n, m) p) \<noteq> [] then (compact_rows (Suc n) xs, step_message (n, m) p)
           else scan_through c (compact_rows (Suc n) xs) (step_message (n, m) p))"
        using first Cons.prems(2) x True False by (subst scan_through.simps) (simp add: p)
      have x_in: "row_seq x \<le> c" using True x by (simp add: row_seq_def)
      show ?thesis
      proof (cases "ph_issues (step_message (n, m) p) = []")
        case True
        from Cons.IH [OF same typed(1) True] show ?thesis unfolding scan using True x_in x by (simp split: if_splits)
      next
        case False
        then have "ph_issues ?q \<noteq> []" using same by (simp add: same_place_def)
        then have "ph_issues (analysed (Suc n) (up_to c xs) ?q) \<noteq> []" by (rule analysed_issues)
        with False show ?thesis unfolding scan using x_in x by simp
      qed
    qed
  qed
qed


lemma scan_through_issues:
  "ph_issues p \<noteq> [] \<Longrightarrow> ph_issues (snd (scan_through c rows p)) \<noteq> []"
proof (induction c rows p rule: scan_through.induct)
  case (1 c rows p)
  have "set (ph_issues p) \<subseteq> set (ph_issues (step_rows (takeWhile (same_message rows) rows) p))"
    by (simp add: step_rows_def issues_record_message)
  with 1 show ?case by (subst scan_through.simps) auto
qed

lemma no_candidates_after_issues:
  "ph_issues p \<noteq> [] \<Longrightarrow> fork_points_of_candidates cs rows p = []"
proof (induction cs arbitrary: rows p)
  case (Cons c cs)
  then show ?case using scan_through_issues [of p c rows] by (auto split: prod.split)
qed simp

text \<open>A prefix is complete when its analysis has no issue and no call waits for its reply.\<close>

definition protocol_complete :: "ToolHistoryProtocolState \<Rightarrow> bool" where
  "protocol_complete q \<longleftrightarrow> ph_issues q = [] \<and> ph_pending q = []"

lemma up_to_later: "c < c' \<Longrightarrow> up_to c' xs = up_to c xs @ up_to c' (beyond c xs)"
  by (induction xs) auto

lemma typed_beyond: "typed_rows xs \<Longrightarrow> typed_rows (beyond c xs)"
  by (induction xs) (auto simp: split_paired_all)

lemma candidates_analysed:
  assumes "same_place n p q" "typed_rows xs" "ph_issues p = []" "sorted_wrt (<) cs"
  shows "set (fork_points_of_candidates cs (compact_rows n xs) p) = {c \<in> set cs. protocol_complete (analysed n (up_to c xs) q)}"
  using assms
proof (induction cs arbitrary: n p q xs)
  case (Cons c cs)
  let ?q = "analysed n (up_to c xs) q" and ?n = "n + length (up_to c xs)"
  have later: "analysed n (up_to c' xs) q = analysed ?n (up_to c' (beyond c xs)) ?q" if "c' \<in> set cs" for c'
  proof -
    have "c < c'" using Cons.prems(4) that by simp
    show ?thesis unfolding up_to_later [OF \<open>c < c'\<close>, of xs] analysed_append ..
  qed
  note scan = scan_through_analysed [OF Cons.prems(1-3), of c]
  show ?case
  proof (cases "ph_issues ?q = []")
    case True
    with scan obtain p' where p': "scan_through c (compact_rows n xs) p = (compact_rows ?n (beyond c xs), p')" "same_place ?n p' ?q"
      by auto
    have "ph_issues p' = []" using p'(2) True by (simp add: same_place_def)
    from Cons.IH [OF p'(2) typed_beyond [OF Cons.prems(2)] this] Cons.prems(4)
    have "set (fork_points_of_candidates cs (compact_rows ?n (beyond c xs)) p') = {c' \<in> set cs. protocol_complete (analysed n (up_to c' xs) q)}"
      using later by auto
    with p' True show ?thesis by (auto simp: protocol_complete_def same_place_def)
  next
    case False
    with scan have "ph_issues (snd (scan_through c (compact_rows n xs) p)) \<noteq> []" by simp
    then have "fork_points_of_candidates (c # cs) (compact_rows n xs) p = []"
      by (auto split: prod.split simp: no_candidates_after_issues)
    moreover have "\<not> protocol_complete (analysed n (up_to c' xs) q)" if "c' \<in> set (c # cs)" for c'
      using that False later analysed_issues [OF False] by (auto simp: protocol_complete_def)
    ultimately show ?thesis by auto
  qed
qed simp

lemma scan_all_analysed:
  assumes "same_place n p q" "typed_rows xs"
  shows "same_place (n + length xs) (scan_all (compact_rows n xs) p) (analysed n xs q)"
  using assms
proof (induction xs arbitrary: n p q)
  case Nil
  then show ?case by (subst scan_all.simps) simp
next
  case (Cons x xs)
  obtain r m where x: "x = (r, m)" by (cases x)
  have typed: "typed_rows xs" "mr_message_type r = message_type_name m" using Cons.prems(2) x by simp_all
  show ?case
  proof (cases "protocol_rows_of (n, r, mm_parts m) = []")
    case True
    from Cons.IH [OF same_place_skip [OF Cons.prems(1)] typed(1)] show ?thesis
      using skipped_message [OF True typed(2)] True x by simp
  next
    case False
    note first = first_message_rows [OF _ False, of xs]
    from Cons.IH [OF same_place_step [OF Cons.prems(1)] typed(1)] show ?thesis
      using first Cons.prems(2) x False by (subst scan_all.simps) (simp add: step_rows_message [OF False typed(2)])
  qed
qed

lemma same_place_new: "same_place 0 new_protocol new_protocol"
  by (simp add: same_place_def new_protocol_def)

section \<open>The fork points of loaded messages\<close>

lemma fork_points_from_analysed:
  assumes "ph_issues q = []"
  shows "set (fork_points_from n q ms) =
    {i. \<exists>j<length ms. sm_fork_sequence_index (ms ! j) = Some i \<and> mm_type (sm_message (ms ! j)) = ModelResponse \<and>
      protocol_complete (fold step_message (List.enumerate n (map sm_message (take (Suc j) ms))) q)}"
  using assms
proof (induction ms arbitrary: n q)
  case (Cons m ms)
  let ?q = "step_message (n, sm_message m) q"
  have unfold: "(\<exists>j<length (m # ms). P j) \<longleftrightarrow> P 0 \<or> (\<exists>j<length ms. P (Suc j))" for P :: "nat \<Rightarrow> bool"
    by (auto simp: less_Suc_eq_0_disj)
  show ?case
  proof (cases "ph_issues ?q = []")
    case True
    then show ?thesis unfolding unfold
      by (auto simp: Let_def Cons.IH [OF True] protocol_complete_def split: option.splits)
  next
    case False
    have "\<not> protocol_complete (fold step_message (List.enumerate (Suc n) ys) ?q)" for ys
      using issues_persist [OF False] by (simp add: protocol_complete_def)
    moreover have "\<not> protocol_complete ?q" using False by (simp add: protocol_complete_def)
    ultimately show ?thesis unfolding unfold using False by (simp add: Let_def)
  qed
qed simp


section \<open>Stored messages\<close>

text \<open>A row as the store writes it: it can be loaded, and its columns and its parts are those of the message.\<close>

definition row_ok :: "chat_env \<Rightarrow> message_row \<Rightarrow> bool" where
  "row_ok e r \<longleftrightarrow> (case ce_load e (mr_message_json r) of None \<Rightarrow> False
     | Some m \<Rightarrow> ce_parts e (mr_message_json r) = Some (mm_parts m) \<and> mr_message_type r = message_type_name m)"

definition session_rows_ok :: "chat_env \<Rightarrow> string \<Rightarrow> string \<Rightarrow> chat_db \<Rightarrow> bool" where
  "session_rows_ok e session_id vault_name d \<longleftrightarrow>
     list_all (row_ok e) (messages_of session_id vault_name d) \<and> distinct (map mr_sequence_index (messages_of session_id vault_name d))"

definition row_message :: "chat_env \<Rightarrow> message_row \<Rightarrow> model_message" where
  "row_message e r = the (ce_load e (mr_message_json r))"

definition stored_of_row :: "chat_env \<Rightarrow> message_row \<Rightarrow> StoredChatMessage" where
  "stored_of_row e r = \<lparr>sm_sequence_index = mr_sequence_index r, sm_fork_sequence_index = Some (mr_sequence_index r),
     sm_direction = mr_direction r, sm_message_type = mr_message_type r, sm_role = mr_role r, sm_content_text = mr_content_text r,
     sm_created_at = mr_created_at r, sm_message_json = mr_message_json r, sm_message = row_message e r\<rparr>"

lemma cmap_all: "(\<And>x. x \<in> set xs \<Longrightarrow> f x = Inr (g x)) \<Longrightarrow> cmap f xs = Inr (map g xs)"
  by (induction xs) (simp_all add: cbind_def)

lemma row_okD:
  assumes "row_ok e r"
  shows "stored_message_from_row e s v r = Inr (stored_of_row e r)" "json_parts e r = Inr (r, mm_parts (row_message e r))"
    "mr_message_type r = message_type_name (row_message e r)"
  using assms by (auto simp: row_ok_def stored_message_from_row_def stored_of_row_def json_parts_def row_message_def split: option.splits)

lemma cmap_rows:
  assumes "list_all (row_ok e) rows"
  shows "cmap (stored_message_from_row e s v) rows = Inr (map (stored_of_row e) rows)"
    "cmap (json_parts e) rows = Inr (map (\<lambda>r. (r, mm_parts (row_message e r))) rows)"
  using assms by (auto simp: list_all_iff row_okD intro!: cmap_all)

lemma fetch_all_rows:
  assumes "session_rows_ok e s v d"
  shows "fetch_raw_messages e s v None None None d = Inr (map (stored_of_row e) (messages_of s v d))"
  using assms by (simp add: fetch_raw_messages_def session_rows_ok_def cmap_rows)

definition loaded_rows :: "chat_env \<Rightarrow> message_row list \<Rightarrow> (message_row \<times> model_message) list" where
  "loaded_rows e rows = map (\<lambda>r. (r, row_message e r)) rows"

lemma sorted_messages_of: "sorted (map mr_sequence_index (messages_of s v d))"
  by (simp add: messages_of_def)

lemma typed_loaded_rows:
  assumes "list_all (row_ok e) rows" "sorted (map mr_sequence_index rows)" "distinct (map mr_sequence_index rows)"
  shows "typed_rows (loaded_rows e rows)"
proof -
  have "sorted_wrt (<) (map mr_sequence_index rows)" using assms(2,3) by (simp add: strict_sorted_iff)
  with assms(1) show ?thesis by (auto simp: typed_rows_def loaded_rows_def list_all_iff comp_def row_okD)
qed

lemma raw_rows_compact:
  assumes "list_all (row_ok e) (messages_of s v d)"
  shows "raw_tool_protocol_rows e s v t d = Inr (compact_rows 0 (loaded_rows e (rows_through t (messages_of s v d))))"
proof -
  have "list_all (row_ok e) (rows_through t (messages_of s v d))"
    using assms by (auto simp: rows_through_def list_all_iff split: option.split)
  then show ?thesis by (simp add: raw_tool_protocol_rows_def cmap_rows cbind_def compact_rows_def loaded_rows_def comp_def)
qed

lemma up_to_filter:
  assumes "typed_rows xs" shows "up_to c xs = filter (\<lambda>x. row_seq x \<le> c) xs"
  using assms
proof (induction xs)
  case (Cons x xs)
  obtain r m where x: "x = (r, m)" by (cases x)
  have "filter (\<lambda>x. row_seq x \<le> c) xs = []" if "\<not> row_seq x \<le> c"
    using Cons.prems that unfolding x by (fastforce simp: filter_empty_conv list_all_iff row_seq_def)
  with Cons x show ?case by auto
qed simp

lemma typed_filter: "typed_rows xs \<Longrightarrow> typed_rows (filter P xs)"
  by (induction xs) (auto simp: list_all_iff split_paired_all)

lemma up_to_nth: "typed_rows xs \<Longrightarrow> j < length xs \<Longrightarrow> up_to (row_seq (xs ! j)) xs = take (Suc j) xs"
proof (induction xs arbitrary: j)
  case (Cons x xs)
  obtain r m where x: "x = (r, m)" by (cases x)
  show ?case
  proof (cases j)
    case 0
    from Cons.prems x have "list_all (\<lambda>y. row_seq x < row_seq y) xs" by (simp add: row_seq_def)
    then have "up_to (row_seq x) xs = []" by (cases xs) auto
    with 0 show ?thesis by simp
  next
    case (Suc i)
    with Cons.prems x have "row_seq x \<le> row_seq (xs ! i)" by (auto simp: row_seq_def list_all_length)
    with Suc Cons show ?thesis by (simp add: x)
  qed
qed simp

lemma rows_through_loaded:
  "loaded_rows e (rows_through (Some t) rows) = filter (\<lambda>x. row_seq x \<le> t) (loaded_rows e rows)"
  by (simp add: rows_through_def loaded_rows_def row_seq_def filter_map comp_def)

lemma canonical_fork_points_rows:
  assumes "typed_rows (loaded_rows e rows)"
  shows "canonical_assistant_fork_points (map (stored_of_row e) rows) =
    {i. list_ex (\<lambda>r. mr_sequence_index r = i \<and> mr_message_type r = ''ModelResponse'') rows \<and>
      protocol_complete (analysed 0 (up_to i (loaded_rows e rows)) new_protocol)}"
proof -
  let ?xs = "loaded_rows e rows"
  have typed: "mr_message_type r = message_type_name (row_message e r)" if "r \<in> set rows" for r
    using assms that by (auto simp: typed_rows_def loaded_rows_def list_all_iff)
  have prefix: "fold step_message (List.enumerate 0 (map sm_message (take (Suc j) (map (stored_of_row e) rows)))) new_protocol =
      analysed 0 (up_to (mr_sequence_index (rows ! j)) ?xs) new_protocol" if "j < length rows" for j
    using up_to_nth [OF assms, of j] that
    by (simp add: analysed_def loaded_rows_def row_seq_def stored_of_row_def take_map comp_def)
  have response: "mm_type (row_message e (rows ! j)) = ModelResponse \<longleftrightarrow> mr_message_type (rows ! j) = ''ModelResponse''"
    if "j < length rows" for j
    using typed [OF nth_mem [OF that]] by (cases "mm_type (row_message e (rows ! j))") (simp_all add: message_type_name_def)
  show ?thesis
    unfolding canonical_assistant_fork_points_def
    by (subst fork_points_from_analysed)
      (auto simp: new_protocol_def list_ex_length prefix [unfolded new_protocol_def] response stored_of_row_def simp del: take_map)
qed

lemma sorted_le_last: "sorted xs \<Longrightarrow> x \<in> set xs \<Longrightarrow> x \<le> last xs"
  by (induction xs) auto

lemma raw_fork_points:
  assumes "session_rows_ok e s v d"
  shows "get_canonical_fork_points_for_sequences e s v cs d =
    Inr {c \<in> set cs. protocol_complete (analysed 0 (up_to c (loaded_rows e (messages_of s v d))) new_protocol)}"
proof (cases "cs = []")
  case False
  let ?cs = "sort (remdups cs)" and ?xs = "loaded_rows e (messages_of s v d)"
  have ne: "?cs \<noteq> []" using False by (metis remdups_eq_nil_iff set_empty set_sort)
  have rows: "list_all (row_ok e) (messages_of s v d)" "typed_rows ?xs"
    using assms typed_loaded_rows sorted_messages_of by (auto simp: session_rows_ok_def)
  have top: "c \<le> last ?cs" if "c \<in> set cs" for c using that by (intro sorted_le_last) simp_all
  have same: "up_to c (filter (\<lambda>x. row_seq x \<le> last ?cs) ?xs) = up_to c ?xs" if "c \<in> set cs" for c
    using top [OF that] unfolding up_to_filter [OF typed_filter [OF rows(2)]] up_to_filter [OF rows(2)]
    by (auto intro: filter_cong)
  have "sorted_wrt (<) ?cs" by (simp add: strict_sorted_iff)
  from candidates_analysed [OF same_place_new typed_filter [OF rows(2)] _ this] same show ?thesis
    using ne unfolding get_canonical_fork_points_for_sequences_def Let_def raw_rows_compact [OF rows(1)] rows_through_loaded
    by (auto simp: cbind_def new_protocol_def)
qed (simp add: get_canonical_fork_points_for_sequences_def)

text \<open>
  C13. The fork points that the compact scan of the protocol rows gives for assistant messages of a session are those that
  the analysis of all of its loaded messages gives.
\<close>

theorem compact_fork_points_agree:
  assumes "session_rows_ok e s v d"
    and "list_all (\<lambda>c. list_ex (\<lambda>r. mr_sequence_index r = c \<and> mr_message_type r = ''ModelResponse'') (messages_of s v d)) candidates"
  shows "get_canonical_fork_points_for_sequences e s v candidates d =
    cbind (fetch_raw_messages e s v None None None d) (\<lambda>messages. Inr (set candidates \<inter> canonical_assistant_fork_points messages))"
proof -
  have "typed_rows (loaded_rows e (messages_of s v d))"
    using assms(1) typed_loaded_rows sorted_messages_of by (auto simp: session_rows_ok_def)
  from canonical_fork_points_rows [OF this] show ?thesis
    using assms(2) by (auto simp: raw_fork_points [OF assms(1)] fetch_all_rows [OF assms(1)] cbind_def list_all_iff)
qed

lemma history_structure_agrees:
  assumes "session_rows_ok e s v d"
  defines "messages \<equiv> map (stored_of_row e) (messages_of s v d)"
  shows "\<exists>st. get_raw_history_structure e s v d = Inr st \<and> hs_message_count st = length messages \<and>
    hs_tool_history_ok st = integrity_ok (analyze_tool_history (map sm_message messages)) \<and>
    hs_latest_group_complete st = (messages \<noteq> [] \<and> mm_type (sm_message (last messages)) = ModelResponse)"
proof -
  let ?rows = "messages_of s v d" and ?xs = "loaded_rows e (messages_of s v d)"
  have rows: "list_all (row_ok e) ?rows" "typed_rows ?xs"
    using assms typed_loaded_rows sorted_messages_of by (auto simp: session_rows_ok_def)
  have same: "same_place (length ?xs) (scan_all (compact_rows 0 ?xs) new_protocol) (analysed 0 ?xs new_protocol)"
    using scan_all_analysed [OF same_place_new rows(2)] by simp
  have analysis: "integrity_ok (analyze_tool_history (map sm_message messages)) \<longleftrightarrow> protocol_complete (analysed 0 ?xs new_protocol)"
    by (simp add: integrity_ok_def analyze_tool_history_def Let_def protocol_complete_def unmatched_call_issues_def analysed_def
        messages_def loaded_rows_def stored_of_row_def comp_def)
  have "mr_message_type (last ?rows) = ''ModelResponse'' \<longleftrightarrow> mm_type (row_message e (last ?rows)) = ModelResponse" if "?rows \<noteq> []"
    using row_okD(3) [of e "last ?rows"] rows(1) last_in_set [OF that]
    by (cases "mm_type (row_message e (last ?rows))") (auto simp: list_all_iff message_type_name_def)
  then show ?thesis using same
    by (auto simp: get_raw_history_structure_def cmap_rows [OF rows(1)] raw_rows_compact [OF rows(1)] cbind_def Let_def rows_through_def
        analysis [unfolded messages_def map_map] protocol_complete_def same_place_def unmatched_call_issues_def messages_def last_map stored_of_row_def)
qed

end
