(* ===== verification/Chat_Store_Inv.thy ===== *)
theory Chat_Store_Inv
  imports Chat_Fork_Points "HOL-Library.Multiset"
begin

text \<open>
  What holds of the chat tables after any operations: rows can be loaded, numbers of messages and ids of checkpoints are
  unique, every row belongs to a session, and the replacement history of every checkpoint can be read back.
\<close>

section \<open>Results\<close>

lemma cbind_eq_Inr: "cbind m f = Inr y \<longleftrightarrow> (\<exists>x. m = Inr x \<and> f x = Inr y)"
  by (cases m) (simp_all add: cbind_def)

lemma cbind_Inr [simp]: "cbind (Inr x) f = f x"
  by (simp add: cbind_def)

lemma of_py_eq_Inr: "of_py r = Inr x \<longleftrightarrow> r = Inr x"
  by (cases r) (simp_all add: of_py_def)

lemma cmap_eq_Inr: "cmap f xs = Inr ys \<longleftrightarrow> list_all2 (\<lambda>x y. f x = Inr y) xs ys"
  by (induction xs arbitrary: ys) (auto simp: cbind_eq_Inr list_all2_Cons1)

section \<open>The invariant\<close>

definition session_keys :: "chat_db \<Rightarrow> (string \<times> string) list" where
  "session_keys d = map (\<lambda>s. (st_session_id s, st_vault_name s)) (cd_sessions d)"

definition message_key :: "message_row \<Rightarrow> string \<times> string \<times> int" where
  "message_key r = (mr_session_id r, mr_vault_name r, mr_sequence_index r)"

definition replacement_readable :: "chat_env \<Rightarrow> chat_db \<Rightarrow> StoredContextCheckpoint \<Rightarrow> bool" where
  "replacement_readable e d c \<longleftrightarrow>
     (case checkpoint_replacement_messages e c (ck_session_id c) (ck_vault_name c) d of Inl _ \<Rightarrow> False | Inr _ \<Rightarrow> True)"

definition checkpoint_ok :: "chat_env \<Rightarrow> chat_db \<Rightarrow> StoredContextCheckpoint \<Rightarrow> bool" where
  "checkpoint_ok e d c \<longleftrightarrow>
     (ck_checkpoint_kind c = ''recovery_card'' \<or> ck_checkpoint_kind c = ''session_map'') \<and>
     ck_last_message_sequence_index c \<le> highest_message_sequence_index (ck_session_id c) (ck_vault_name c) d \<and>
     replacement_readable e d c"

definition messages_ok :: "chat_env \<Rightarrow> chat_db \<Rightarrow> bool" where
  "messages_ok e d \<longleftrightarrow> list_all (\<lambda>r. row_ok e r \<and> 0 \<le> mr_sequence_index r) (cd_messages d) \<and> distinct (map message_key (cd_messages d))"

definition store_ok :: "chat_env \<Rightarrow> chat_db \<Rightarrow> bool" where
  "store_ok e d \<longleftrightarrow>
     messages_ok e d \<and> distinct (map fst (session_keys d)) \<and>
     list_all (\<lambda>r. (mr_session_id r, mr_vault_name r) \<in> set (session_keys d)) (cd_messages d) \<and>
     list_all (\<lambda>r. (tr_session_id r, tr_vault_name r) \<in> set (session_keys d)) (cd_tool_events d) \<and>
     list_all (\<lambda>c. (ck_session_id c, ck_vault_name c) \<in> set (session_keys d) \<and> ck_id c \<le> cd_last_checkpoint_id d \<and>
       checkpoint_ok e d c) (cd_checkpoints d) \<and>
     sorted_wrt (<) (map ck_id (cd_checkpoints d)) \<and> distinct (map ck_checkpoint_id (cd_checkpoints d))"

lemma store_ok_empty: "store_ok e empty_chat_db"
  by (simp add: store_ok_def messages_ok_def empty_chat_db_def session_keys_def)

section \<open>What the views of a session depend on\<close>

lemma set_messages_of:
  "set (messages_of s v d) = {r \<in> set (cd_messages d). mr_session_id r = s \<and> mr_vault_name r = v}"
  by (auto simp: messages_of_def)

lemma messages_of_cong: "cd_messages d = cd_messages d' \<Longrightarrow> messages_of s v d = messages_of s v d'"
  by (simp add: messages_of_def)

lemma messages_session_rows:
  assumes "messages_ok e d" shows "session_rows_ok e s v d"
proof -
  let ?f = "filter (\<lambda>m. mr_session_id m = s \<and> mr_vault_name m = v) (cd_messages d)"
  have "distinct (map message_key ?f)" using assms by (auto simp: messages_ok_def intro: distinct_map_filter)
  then have "distinct (map mr_sequence_index ?f)"
    by (auto simp: distinct_map inj_on_def message_key_def)
  moreover have "mset (map mr_sequence_index (messages_of s v d)) = mset (map mr_sequence_index ?f)"
    by (simp add: messages_of_def mset_map)
  ultimately have "distinct (map mr_sequence_index (messages_of s v d))"
    using mset_eq_imp_distinct_iff by blast
  moreover have "list_all (row_ok e) (messages_of s v d)"
    using assms by (auto simp: messages_ok_def list_all_iff set_messages_of)
  ultimately show ?thesis by (simp add: session_rows_ok_def)
qed

lemma store_session_rows: "store_ok e d \<Longrightarrow> session_rows_ok e s v d"
  by (simp add: store_ok_def messages_session_rows)

lemma highest_index:
  "highest_message_sequence_index s v d = Max (insert (- 1) (mr_sequence_index ` set (messages_of s v d)))"
proof -
  have "fold max xs a = Max (insert a (set xs))" for xs and a :: int
    using Max.set_eq_fold [of a xs] by simp
  from this [of "map mr_sequence_index (messages_of s v d)" "- 1"] show ?thesis
    by (simp add: highest_message_sequence_index_def)
qed

lemma next_index:
  assumes "r \<in> set (messages_of s v d)" shows "mr_sequence_index r < next_sequence_index s v d"
proof (cases "map mr_sequence_index (messages_of s v d)")
  case (Cons i js)
  have "fold max js i = Max (insert i (set js))" using Max.set_eq_fold [of i js] by simp
  moreover have "mr_sequence_index r \<in> insert i (set js)"
    using assms Cons by (metis (no_types, lifting) image_eqI list.set(2) set_map)
  ultimately have "mr_sequence_index r \<le> fold max js i" by simp
  with Cons show ?thesis by (simp add: next_sequence_index_def)
qed (use assms in simp)

text \<open>Rows that are appended with larger numbers come last.\<close>

lemma sort_key_snoc:
  assumes "\<And>x. x \<in> set xs \<Longrightarrow> f x \<le> f y" shows "sort_key f (xs @ [y]) = sort_key f xs @ [y]"
proof (rule properties_for_sort_key)
  show "sorted (map f (sort_key f xs @ [y]))" using assms by (auto simp: sorted_append)
  have "filter (\<lambda>x. f k = f x) zs = filter (\<lambda>x. f x = f k) zs" for k zs by (rule filter_cong) auto
  then show "filter (\<lambda>x. f k = f x) (sort_key f xs @ [y]) = filter (\<lambda>x. f k = f x) (xs @ [y])" for k
    by (simp add: sort_key_stable)
qed simp

lemma sort_key_appended:
  assumes "sorted (map f ys)" "\<And>x y. x \<in> set xs \<Longrightarrow> y \<in> set ys \<Longrightarrow> f x \<le> f y"
  shows "sort_key f (xs @ ys) = sort_key f xs @ ys"
  using assms
proof (induction ys rule: rev_induct)
  case (snoc y ys)
  have "sort_key f ((xs @ ys) @ [y]) = sort_key f (xs @ ys) @ [y]"
    using snoc.prems by (intro sort_key_snoc) (auto simp: sorted_append)
  with snoc show ?case by (simp add: sorted_append)
qed simp


section \<open>Content of rows\<close>

text \<open>A row without its place in the table: what a load of the row depends on.\<close>

definition row_content :: "message_row \<Rightarrow> message_row" where
  "row_content r = r\<lparr>mr_id := 0, mr_session_id := [], mr_vault_name := []\<rparr>"

lemma row_content_simps [simp]:
  "mr_sequence_index (row_content r) = mr_sequence_index r" "mr_message_json (row_content r) = mr_message_json r"
  "stored_of_row e (row_content r) = stored_of_row e r" "row_ok e (row_content r) = row_ok e r"
  by (simp_all add: row_content_def stored_of_row_def row_message_def row_ok_def split: option.split)

definition same_content :: "message_row list \<Rightarrow> message_row list \<Rightarrow> bool" where
  "same_content rs rs' \<longleftrightarrow> map row_content rs = map row_content rs'"

lemma same_content_refl [simp]: "same_content rs rs"
  by (simp add: same_content_def)

lemma same_content_stored: "same_content rs rs' \<Longrightarrow> map (stored_of_row e) rs = map (stored_of_row e) rs'"
  unfolding same_content_def by (metis (no_types, lifting) comp_apply list.map_comp map_cong row_content_simps(3))

lemma same_content_filter:
  assumes "same_content rs rs'" shows "same_content (filter (\<lambda>r. P (mr_sequence_index r)) rs) (filter (\<lambda>r. P (mr_sequence_index r)) rs')"
proof -
  have "map row_content (filter (\<lambda>r. P (mr_sequence_index r)) xs) = filter (\<lambda>r. P (mr_sequence_index r)) (map row_content xs)" for xs
    by (simp add: filter_map comp_def)
  with assms show ?thesis by (simp add: same_content_def)
qed

lemma same_content_pairs:
  assumes "same_content rs rs'"
  shows "map (\<lambda>r. (mr_message_json r, mr_sequence_index r)) rs = map (\<lambda>r. (mr_message_json r, mr_sequence_index r)) rs'"
proof -
  have pairs: "map (\<lambda>r. (mr_message_json r, mr_sequence_index r)) xs =
      map (\<lambda>r. (mr_message_json r, mr_sequence_index r)) (map row_content xs)" for xs by simp
  show ?thesis using assms unfolding same_content_def by (metis pairs)
qed

lemma fetch_rows:
  assumes "session_rows_ok e s v d"
  shows "fetch_raw_messages e s v None a t d = Inr (map (stored_of_row e)
    (filter (\<lambda>r. (case a of None \<Rightarrow> True | Some a \<Rightarrow> a < mr_sequence_index r) \<and> (case t of None \<Rightarrow> True | Some t \<Rightarrow> mr_sequence_index r \<le> t))
      (messages_of s v d)))"
proof -
  have "list_all (row_ok e) (filter P (messages_of s v d))" for P
    using assms by (auto simp: session_rows_ok_def list_all_iff)
  then show ?thesis by (simp add: fetch_raw_messages_def cmap_rows)
qed

text \<open>Two sessions with the same rows up to a number.\<close>

definition agree_through :: "int \<Rightarrow> message_row list \<Rightarrow> message_row list \<Rightarrow> bool" where
  "agree_through t rs rs' \<longleftrightarrow> same_content (filter (\<lambda>r. mr_sequence_index r \<le> t) rs) (filter (\<lambda>r. mr_sequence_index r \<le> t) rs')"

lemma fetch_agree:
  assumes "session_rows_ok e s v d" "session_rows_ok e s' v' d'" "agree_through t (messages_of s v d) (messages_of s' v' d')" "t' \<le> t"
  shows "fetch_raw_messages e s' v' None a (Some t') d' = fetch_raw_messages e s v None a (Some t') d"
proof -
  let ?P = "\<lambda>i. (case a of None \<Rightarrow> True | Some a \<Rightarrow> a < i) \<and> i \<le> t'"
  have "filter (\<lambda>r. ?P (mr_sequence_index r)) rs =
      filter (\<lambda>r. ?P (mr_sequence_index r)) (filter (\<lambda>r. mr_sequence_index r \<le> t) rs)" for rs
    using assms(4) by (auto intro: filter_cong)
  moreover have "same_content (filter (\<lambda>r. ?P (mr_sequence_index r)) (filter (\<lambda>r. mr_sequence_index r \<le> t) (messages_of s v d)))
      (filter (\<lambda>r. ?P (mr_sequence_index r)) (filter (\<lambda>r. mr_sequence_index r \<le> t) (messages_of s' v' d')))"
    by (rule same_content_filter [OF assms(3) [unfolded agree_through_def], where P = ?P])
  ultimately have "same_content (filter (\<lambda>r. ?P (mr_sequence_index r)) (messages_of s v d))
      (filter (\<lambda>r. ?P (mr_sequence_index r)) (messages_of s' v' d'))" by metis
  from same_content_stored [OF this] show ?thesis by (simp add: fetch_rows [OF assms(1)] fetch_rows [OF assms(2)])
qed

lemma increasing_origins_bounds:
  "increasing_origins t p os = Inr is \<Longrightarrow> list_all (\<lambda>i. 0 \<le> i \<and> i \<le> t) is"
  by (induction t p os arbitrary: "is" rule: increasing_origins.induct) (auto split: if_splits)

lemma validate_agree:
  assumes "session_rows_ok e s v d" "session_rows_ok e s' v' d'" "agree_through t (messages_of s v d) (messages_of s' v' d')"
  shows "validate_checkpoint_replacement_origins e s' v' messages j t d' = validate_checkpoint_replacement_origins e s v messages j t d"
proof -
  have "fetch_raw_messages e s' v' None a (Some (last js)) d' = fetch_raw_messages e s v None a (Some (last js)) d"
    if "increasing_origins t (- 1) os = Inr js" "js \<noteq> []" for os js a
    using increasing_origins_bounds [OF that(1)] last_in_set [OF that(2)]
    by (intro fetch_agree [OF assms]) (auto simp: list_all_iff)
  then show ?thesis
    unfolding validate_checkpoint_replacement_origins_def cbind_def of_py_def by (auto split: sum.split)
qed

lemma origins_agree:
  assumes "session_rows_ok e s v d" "session_rows_ok e s' v' d'"
    and "agree_through (ck_last_message_sequence_index c) (messages_of s v d) (messages_of s' v' d')"
    and "ck_last_message_sequence_index c' = ck_last_message_sequence_index c"
    and "ck_replacement_source_sequence_indexes_json c' = ck_replacement_source_sequence_indexes_json c"
    and "checkpoint_replacement_origins e c messages s v d = Inr os"
  shows "checkpoint_replacement_origins e c' messages s' v' d' = Inr os"
  using assms(6) same_content_pairs [OF assms(3) [unfolded agree_through_def]]
  by (auto simp: checkpoint_replacement_origins_def assms(4,5) Let_def validate_agree [OF assms(1-3)]
      split: option.splits sum.splits chat_exn.splits pyexn.splits)

lemma replacement_agree:
  assumes "session_rows_ok e s v d" "session_rows_ok e s' v' d'"
    and "agree_through (ck_last_message_sequence_index c) (messages_of s v d) (messages_of s' v' d')"
    and "ck_last_message_sequence_index c' = ck_last_message_sequence_index c"
    and "ck_replacement_source_sequence_indexes_json c' = ck_replacement_source_sequence_indexes_json c"
    and "ck_replacement_history_json c' = ck_replacement_history_json c" "ck_created_at c' = ck_created_at c"
    and "checkpoint_replacement_messages e c s v d = Inr ms"
  shows "checkpoint_replacement_messages e c' s' v' d' = Inr ms"
proof -
  obtain messages where m: "ce_load_list e (ck_replacement_history_json c) = Some messages"
    using assms(8) by (auto simp: checkpoint_replacement_messages_def split: option.splits)
  obtain os where os: "checkpoint_replacement_origins e c messages s v d = Inr os"
    using assms(8) m by (auto simp: checkpoint_replacement_messages_def cbind_eq_Inr)
  with origins_agree [OF assms(1-5) os] assms(8) m show ?thesis
    by (simp add: checkpoint_replacement_messages_def assms(6,7))
qed

section \<open>The table of sessions\<close>

text \<open>Changes of sessions that leave everything else, and the ids of the sessions, as it was.\<close>

definition same_tables :: "chat_db \<Rightarrow> chat_db \<Rightarrow> bool" where
  "same_tables d d' \<longleftrightarrow> session_keys d' = session_keys d \<and> cd_messages d' = cd_messages d \<and> cd_tool_events d' = cd_tool_events d \<and>
     cd_checkpoints d' = cd_checkpoints d \<and> cd_last_message_id d' = cd_last_message_id d \<and>
     cd_last_event_id d' = cd_last_event_id d \<and> cd_last_checkpoint_id d' = cd_last_checkpoint_id d"

lemma same_tables_refl [simp]: "same_tables d d"
  by (simp add: same_tables_def)

lemma same_tables_trans: "same_tables d d' \<Longrightarrow> same_tables d' d'' \<Longrightarrow> same_tables d d''"
  by (simp add: same_tables_def)

lemma same_tables_messages: "same_tables d d' \<Longrightarrow> messages_of s v d' = messages_of s v d"
  by (simp add: same_tables_def messages_of_def)

lemma fetch_cong: "messages_of s v d = messages_of s v d' \<Longrightarrow> fetch_raw_messages e s v l a t d = fetch_raw_messages e s v l a t d'"
  by (simp add: fetch_raw_messages_def)

lemma replacement_cong:
  assumes "messages_of s v d = messages_of s v d'"
  shows "checkpoint_replacement_messages e c s v d = checkpoint_replacement_messages e c s v d'"
    "validate_checkpoint_replacement_origins e s v messages j t d = validate_checkpoint_replacement_origins e s v messages j t d'"
proof -
  have valid: "validate_checkpoint_replacement_origins e s v messages j t d = validate_checkpoint_replacement_origins e s v messages j t d'"
    for messages j t unfolding validate_checkpoint_replacement_origins_def fetch_cong [OF assms] ..
  have origins: "checkpoint_replacement_origins e c messages s v d = checkpoint_replacement_origins e c messages s v d'" for messages
    unfolding checkpoint_replacement_origins_def assms valid ..
  show "checkpoint_replacement_messages e c s v d = checkpoint_replacement_messages e c s v d'"
    unfolding checkpoint_replacement_messages_def origins ..
  show "validate_checkpoint_replacement_origins e s v messages j t d = validate_checkpoint_replacement_origins e s v messages j t d'"
    by (rule valid)
qed

lemma checkpoint_ok_messages:
  assumes "messages_of (ck_session_id c) (ck_vault_name c) d = messages_of (ck_session_id c) (ck_vault_name c) d'"
  shows "checkpoint_ok e d c = checkpoint_ok e d' c"
  by (simp add: checkpoint_ok_def replacement_readable_def replacement_cong [OF assms] highest_message_sequence_index_def assms)

lemma checkpoint_ok_cong: "cd_messages d = cd_messages d' \<Longrightarrow> checkpoint_ok e d c = checkpoint_ok e d' c"
  by (rule checkpoint_ok_messages) (rule messages_of_cong)

lemma store_ok_same_tables: "same_tables d d' \<Longrightarrow> store_ok e d \<Longrightarrow> store_ok e d'"
  using checkpoint_ok_cong [of d d'] by (simp add: store_ok_def messages_ok_def same_tables_def)

lemma update_session_tables:
  assumes "\<And>s. st_session_id (f s) = st_session_id s \<and> st_vault_name (f s) = st_vault_name s"
  shows "same_tables d (update_session i v f d)"
  using assms by (auto simp: same_tables_def update_session_def session_keys_def)

lemma touch_session_tables: "same_tables d (touch_session now i v u a d)"
  by (auto simp: touch_session_def Let_def intro!: update_session_tables)

lemma find_by_id: "find_session_by_id i d = None \<longleftrightarrow> i \<notin> fst ` set (session_keys d)"
  by (auto simp: find_session_by_id_def session_keys_def find_None_iff image_iff)

lemma upsert_existing:
  assumes "upsert_session now i v None d = Inr d'" shows "same_tables d d' \<and> (i, v) \<in> set (session_keys d)"
proof -
  obtain x where x: "find_session_by_id i d = Some x" "st_vault_name x = v" and d': "d' = update_session i v (\<lambda>s. s\<lparr>st_last_activity_at := now\<rparr>) d"
    using assms by (auto simp: upsert_session_def Let_def cbind_eq_Inr split: option.splits if_splits)
  have "x \<in> set (cd_sessions d)" "st_session_id x = i" using x(1) by (auto simp: find_session_by_id_def find_Some_iff)
  with x(2) have "(i, v) \<in> set (session_keys d)" by (force simp: session_keys_def)
  then show ?thesis unfolding d' by (simp add: update_session_tables)
qed

lemma upsert_owner:
  assumes "upsert_session now i v (Some p) d = Inr d'"
  shows "same_tables d d' \<or> (i \<notin> fst ` set (session_keys d) \<and> session_keys d' = session_keys d @ [(i, v)] \<and>
    cd_messages d' = cd_messages d \<and> cd_tool_events d' = cd_tool_events d \<and> cd_checkpoints d' = cd_checkpoints d \<and>
    cd_last_checkpoint_id d' = cd_last_checkpoint_id d)"
proof (cases "find_session_by_id i d")
  case None
  with assms find_by_id [of i d] show ?thesis
    by (auto simp: upsert_session_def Let_def cbind_eq_Inr session_keys_def)
next
  case (Some x)
  with assms show ?thesis
    by (auto simp: upsert_session_def Let_def cbind_eq_Inr split: if_splits intro!: update_session_tables)
qed

lemma store_ok_ensure:
  assumes "store_ok e d" "upsert_session now i v (Some p) d = Inr d'" shows "store_ok e d'"
proof (cases "same_tables d d'")
  case False
  with upsert_owner [OF assms(2)] have "i \<notin> fst ` set (session_keys d)" "session_keys d' = session_keys d @ [(i, v)]"
    "cd_messages d' = cd_messages d" "cd_tool_events d' = cd_tool_events d" "cd_checkpoints d' = cd_checkpoints d"
    "cd_last_checkpoint_id d' = cd_last_checkpoint_id d" by auto
  with assms(1) checkpoint_ok_cong [of d d'] show ?thesis by (auto simp: store_ok_def messages_ok_def list_all_iff)
qed (use assms store_ok_same_tables in auto)


section \<open>Appended rows\<close>

definition new_row :: "chat_env \<Rightarrow> timestamp \<Rightarrow> string \<Rightarrow> string \<Rightarrow> nat \<times> int \<times> model_message \<Rightarrow> message_row" where
  "new_row e now s v kim = (case kim of (k, i, m) \<Rightarrow>
     let m = message_for_persistence (ce_persist_reasoning e) m; (role, content_text) = extract_role_and_text m
     in \<lparr>mr_id = k, mr_session_id = s, mr_vault_name = v, mr_sequence_index = i, mr_direction = direction_of m,
       mr_message_type = message_type_name m, mr_role = role, mr_content_text = content_text, mr_message_json = ce_dump e m,
       mr_created_at = now\<rparr>)"

definition copied_row :: "string \<Rightarrow> string \<Rightarrow> nat \<times> StoredChatMessage \<Rightarrow> message_row" where
  "copied_row s v km = (case km of (k, m) \<Rightarrow>
     \<lparr>mr_id = k, mr_session_id = s, mr_vault_name = v, mr_sequence_index = sm_sequence_index m, mr_direction = sm_direction m,
      mr_message_type = sm_message_type m, mr_role = sm_role m, mr_content_text = sm_content_text m, mr_message_json = sm_message_json m,
      mr_created_at = sm_created_at m\<rparr>)"

lemma new_row_fields [simp]:
  "mr_session_id (new_row e now s v (k, i, m)) = s" "mr_vault_name (new_row e now s v (k, i, m)) = v"
  "mr_sequence_index (new_row e now s v (k, i, m)) = i"
  by (simp_all add: new_row_def Let_def split: prod.split)

lemma copied_row_fields [simp]:
  "mr_session_id (copied_row s v (k, m)) = s" "mr_vault_name (copied_row s v (k, m)) = v"
  "mr_sequence_index (copied_row s v (k, m)) = sm_sequence_index m"
  by (simp_all add: copied_row_def)

lemma new_row_ok: "codec_ok e \<Longrightarrow> row_ok e (new_row e now s v (k, i, m))"
  by (simp add: row_ok_def new_row_def Let_def codec_okD split: prod.split)

lemma fold_insert_message:
  "fold (insert_message e now s v) xs d = d\<lparr>cd_last_message_id := cd_last_message_id d + length xs,
    cd_messages := cd_messages d @ map (new_row e now s v) (List.enumerate (Suc (cd_last_message_id d)) xs)\<rparr>"
proof (induction xs arbitrary: d)
  case (Cons x xs)
  obtain i m where x: "x = (i, m)" by (cases x)
  have "insert_message e now s v x d = d\<lparr>cd_last_message_id := Suc (cd_last_message_id d),
      cd_messages := cd_messages d @ [new_row e now s v (Suc (cd_last_message_id d), i, m)]\<rparr>"
    by (simp add: insert_message_def new_row_def Let_def x split: prod.split)
  with Cons.IH x show ?case by simp
qed simp

lemma fold_copy_message:
  "fold (copy_message s v) xs d = d\<lparr>cd_last_message_id := cd_last_message_id d + length xs,
    cd_messages := cd_messages d @ map (copied_row s v) (List.enumerate (Suc (cd_last_message_id d)) xs)\<rparr>"
  by (induction xs arbitrary: d) (simp_all add: copy_message_def copied_row_def)

text \<open>The session \<open>(s, v)\<close> gets rows with numbers above those it has; the tables change in nothing else that matters.\<close>

definition appended :: "string \<Rightarrow> string \<Rightarrow> message_row list \<Rightarrow> chat_db \<Rightarrow> chat_db \<Rightarrow> bool" where
  "appended s v news d d' \<longleftrightarrow> session_keys d' = session_keys d \<and> cd_messages d' = cd_messages d @ news \<and>
     cd_tool_events d' = cd_tool_events d \<and> cd_checkpoints d' = cd_checkpoints d \<and> cd_last_checkpoint_id d' = cd_last_checkpoint_id d \<and>
     list_all (\<lambda>r. mr_session_id r = s \<and> mr_vault_name r = v) news \<and> sorted_wrt (<) (map mr_sequence_index news) \<and>
     list_all (\<lambda>r. highest_message_sequence_index s v d < mr_sequence_index r) news"

lemma le_highest: "x \<in> set (messages_of s v d) \<Longrightarrow> mr_sequence_index x \<le> highest_message_sequence_index s v d"
  unfolding highest_index by (intro Max_ge) auto

lemma appended_messages:
  assumes "appended s v news d d'"
  shows "messages_of s' v' d' = messages_of s' v' d @ (if s' = s \<and> v' = v then news else [])"
proof (cases "s' = s \<and> v' = v")
  case True
  have new: "filter (\<lambda>m. mr_session_id m = s \<and> mr_vault_name m = v) news = news"
    using assms by (auto simp: appended_def list_all_iff intro!: filter_True)
  have "sort_key mr_sequence_index (filter (\<lambda>m. mr_session_id m = s \<and> mr_vault_name m = v) (cd_messages d) @ news) =
      messages_of s v d @ news"
    unfolding messages_of_def
  proof (rule sort_key_appended)
    show "sorted (map mr_sequence_index news)" using assms by (auto simp: appended_def strict_sorted_iff)
  next
    fix x y assume "x \<in> set (filter (\<lambda>m. mr_session_id m = s \<and> mr_vault_name m = v) (cd_messages d))" "y \<in> set news"
    then have "mr_sequence_index x \<le> highest_message_sequence_index s v d" "highest_message_sequence_index s v d < mr_sequence_index y"
      using assms le_highest [of x s v d] by (auto simp: appended_def list_all_iff set_messages_of)
    then show "mr_sequence_index x \<le> mr_sequence_index y" by simp
  qed
  with True new assms show ?thesis by (simp add: messages_of_def appended_def)
next
  case False
  then have "filter (\<lambda>m. mr_session_id m = s' \<and> mr_vault_name m = v') news = []"
    using assms by (auto simp: appended_def list_all_iff filter_empty_conv)
  with False assms show ?thesis by (auto simp: messages_of_def appended_def)
qed

lemma appended_agree:
  assumes "appended s v news d d'" "t \<le> highest_message_sequence_index s' v' d"
  shows "agree_through t (messages_of s' v' d) (messages_of s' v' d')"
proof -
  have "filter (\<lambda>r. mr_sequence_index r \<le> t) news = []" if "s' = s" "v' = v"
    using assms that by (fastforce simp: appended_def list_all_iff filter_empty_conv)
  then show ?thesis by (simp add: agree_through_def appended_messages [OF assms(1)])
qed

lemma appended_highest:
  assumes "appended s v news d d'" shows "highest_message_sequence_index s' v' d \<le> highest_message_sequence_index s' v' d'"
  unfolding highest_index by (rule Max_mono) (auto simp: appended_messages [OF assms])

lemma highest_nonneg: "- 1 \<le> highest_message_sequence_index s v d"
  unfolding highest_index by (rule Max_ge) auto

lemma next_sequence_highest:
  assumes "messages_ok e d" shows "next_sequence_index s v d = highest_message_sequence_index s v d + 1"
proof (cases "map mr_sequence_index (messages_of s v d)")
  case (Cons i js)
  then have "i \<in> mr_sequence_index ` set (messages_of s v d)" by (metis list.set_intros(1) set_map)
  then have "0 \<le> i" using assms by (auto simp: set_messages_of messages_ok_def list_all_iff)
  with Cons show ?thesis by (simp add: next_sequence_index_def highest_message_sequence_index_def)
qed (simp add: next_sequence_index_def highest_message_sequence_index_def)

lemma appended_messages_ok:
  assumes "messages_ok e d" "appended s v news d d'" "list_all (row_ok e) news"
  shows "messages_ok e d'"
proof -
  have above: "highest_message_sequence_index s v d < mr_sequence_index r" if "r \<in> set news" for r
    using assms(2) that by (auto simp: appended_def list_all_iff)
  have "message_key x \<noteq> message_key r" if "x \<in> set (cd_messages d)" "r \<in> set news" for x r
    using above [OF that(2)] le_highest [of x s v d] that assms(2)
    by (auto simp: message_key_def set_messages_of appended_def list_all_iff)
  moreover have "distinct (map mr_sequence_index news)" using assms(2) by (auto simp: appended_def strict_sorted_iff)
  then have "distinct (map message_key news)" by (auto simp: distinct_map inj_on_def message_key_def)
  moreover have "0 \<le> mr_sequence_index r" if "r \<in> set news" for r
    using above [OF that] highest_nonneg [of s v d] by simp
  ultimately show ?thesis using assms by (fastforce simp: messages_ok_def appended_def list_all_iff)
qed

lemma appended_checkpoint_ok:
  assumes "messages_ok e d" "messages_ok e d'" "appended s v news d d'" "checkpoint_ok e d c"
  shows "checkpoint_ok e d' c"
proof -
  let ?s = "ck_session_id c" and ?v = "ck_vault_name c"
  obtain ms where "checkpoint_replacement_messages e c ?s ?v d = Inr ms"
    using assms(4) by (auto simp: checkpoint_ok_def replacement_readable_def split: sum.splits)
  moreover have "agree_through (ck_last_message_sequence_index c) (messages_of ?s ?v d) (messages_of ?s ?v d')"
    using assms(3,4) by (intro appended_agree) (auto simp: checkpoint_ok_def)
  ultimately have "checkpoint_replacement_messages e c ?s ?v d' = Inr ms"
    using assms(1,2) by (intro replacement_agree [of e ?s ?v d ?s ?v d' c]) (auto intro: messages_session_rows)
  with assms(4) appended_highest [OF assms(3), of ?s ?v] show ?thesis
    by (auto simp: checkpoint_ok_def replacement_readable_def)
qed

lemma store_ok_appended:
  assumes "store_ok e d" "appended s v news d d'" "list_all (row_ok e) news" "(s, v) \<in> set (session_keys d)"
  shows "store_ok e d'"
proof -
  have "messages_ok e d" "messages_ok e d'"
    using assms appended_messages_ok by (auto simp: store_ok_def)
  with assms appended_checkpoint_ok [OF _ _ assms(2)] show ?thesis
    by (auto simp: store_ok_def appended_def list_all_iff)
qed

lemma numbered_simps:
  "length (numbered i xs) = length xs" "map fst (numbered i xs) = map (\<lambda>n. i + int n) [0..<length xs]"
  "map snd (numbered i xs) = xs"
  by (simp_all add: numbered_def)

lemma map_enumerate: "map (\<lambda>kx. f (snd kx)) (List.enumerate k xs) = map f xs"
  by (induction xs arbitrary: k) simp_all

lemma new_rows_appended:
  fixes s v :: string and ms :: "model_message list" and now :: timestamp
  assumes "messages_ok e d" "codec_ok e"
  defines "xs \<equiv> numbered (next_sequence_index s v d) ms"
  defines "news \<equiv> map (new_row e now s v) (List.enumerate (Suc (cd_last_message_id d)) xs)"
  shows "appended s v news d (fold (insert_message e now s v) xs d)" "list_all (row_ok e) news"
proof -
  have seqs: "map mr_sequence_index news = map (\<lambda>n. next_sequence_index s v d + int n) [0..<length ms]"
    using numbered_simps(2) [of "next_sequence_index s v d" ms] map_enumerate [of fst _ xs]
    by (simp add: news_def xs_def [symmetric] comp_def split_beta new_row_def Let_def)
  have "sorted_wrt (<) (map mr_sequence_index news)"
    unfolding seqs by (simp add: sorted_wrt_map)
  moreover have "highest_message_sequence_index s v d < mr_sequence_index r" if "r \<in> set news" for r
  proof -
    have "mr_sequence_index r \<in> set (map mr_sequence_index news)" using that by simp
    then show ?thesis unfolding seqs next_sequence_highest [OF assms(1)] by auto
  qed
  moreover have "mr_session_id r = s \<and> mr_vault_name r = v \<and> row_ok e r" if "r \<in> set news" for r
    using that new_row_ok [OF assms(2)] by (auto simp: news_def)
  ultimately show "appended s v news d (fold (insert_message e now s v) xs d)" "list_all (row_ok e) news"
    by (auto simp: appended_def fold_insert_message news_def list_all_iff session_keys_def)
qed

lemma add_messages_appended:
  assumes "store_ok e d" "codec_ok e" "add_messages e now s v ms d = Inr (idx, d')"
  shows "\<exists>d1 d2 news. same_tables d d1 \<and> appended s v news d1 d2 \<and> same_tables d2 d' \<and> list_all (row_ok e) news \<and>
    (ms = [] \<or> (s, v) \<in> set (session_keys d)) \<and>
    news = map (new_row e now s v) (List.enumerate (Suc (cd_last_message_id d)) (numbered (next_sequence_index s v d) ms))"
proof (cases "ms = []")
  case True
  with assms(3) have "d' = d" by (simp add: add_messages_def)
  with True show ?thesis by (intro exI [of _ d] exI [of _ "[]"]) (simp add: appended_def numbered_def)
next
  case False
  obtain d1 where d1: "upsert_session now s v None d = Inr d1"
    and d': "d' = touch_session now s v [] True (fold (insert_message e now s v) (numbered (next_sequence_index s v d1) ms) d1)"
    using assms(3) False by (auto simp: add_messages_def cbind_eq_Inr Let_def)
  note up = upsert_existing [OF d1]
  then have "messages_ok e d1" using store_ok_same_tables assms(1) by (auto simp: store_ok_def)
  note new = new_rows_appended [OF this assms(2)]
  have same: "next_sequence_index s v d1 = next_sequence_index s v d" "cd_last_message_id d1 = cd_last_message_id d"
    using up by (simp_all add: next_sequence_index_def same_tables_messages [of d d1] same_tables_def)
  show ?thesis
    using up new [where s = s and v = v and now = now and ms = ms] touch_session_tables d' unfolding same by metis
qed

lemma store_ok_add_messages:
  assumes "store_ok e d" "codec_ok e" "add_messages e now s v ms d = Inr (idx, d')"
  shows "store_ok e d'"
proof (cases "ms = []")
  case False
  obtain d1 d2 news where "same_tables d d1" "appended s v news d1 d2" "same_tables d2 d'" "list_all (row_ok e) news"
    "(s, v) \<in> set (session_keys d)" using add_messages_appended [OF assms] False by metis
  then show ?thesis using assms(1) store_ok_same_tables store_ok_appended [of e d1 s v news d2] by (metis same_tables_def)
qed (use assms in \<open>simp add: add_messages_def\<close>)


section \<open>Removed rows\<close>

lemma store_ok_removed:
  assumes "store_ok e d" "distinct (map fst (session_keys d'))"
    and "cd_messages d' = filter P (cd_messages d)" "cd_tool_events d' = filter R (cd_tool_events d)"
    and "cd_checkpoints d' = filter Q (cd_checkpoints d)" "cd_last_checkpoint_id d' = cd_last_checkpoint_id d"
    and "\<And>r. r \<in> set (cd_messages d) \<Longrightarrow> P r \<Longrightarrow> (mr_session_id r, mr_vault_name r) \<in> set (session_keys d')"
    and "\<And>r. r \<in> set (cd_tool_events d) \<Longrightarrow> R r \<Longrightarrow> (tr_session_id r, tr_vault_name r) \<in> set (session_keys d')"
    and "\<And>c. c \<in> set (cd_checkpoints d) \<Longrightarrow> Q c \<Longrightarrow> (ck_session_id c, ck_vault_name c) \<in> set (session_keys d') \<and>
      messages_of (ck_session_id c) (ck_vault_name c) d' = messages_of (ck_session_id c) (ck_vault_name c) d"
  shows "store_ok e d'"
proof -
  have "distinct (map f (filter P xs))" if "distinct (map f xs)" for f :: "message_row \<Rightarrow> string \<times> string \<times> int" and xs
    using that by (rule distinct_map_filter)
  then have "messages_ok e d'" using assms(1,3) by (auto simp: store_ok_def messages_ok_def list_all_iff)
  moreover have "sorted_wrt (<) (map ck_id (filter Q xs))" if "sorted_wrt (<) (map ck_id xs)" for xs
    using that by (simp add: sorted_wrt_map sorted_wrt_filter)
  moreover have "distinct (map ck_checkpoint_id (filter Q xs))" if "distinct (map ck_checkpoint_id xs)" for xs
    using that by (rule distinct_map_filter)
  moreover have "checkpoint_ok e d' c" if "c \<in> set (cd_checkpoints d)" "Q c" for c
    using checkpoint_ok_messages [of c d' d e] assms(1,9) that by (auto simp: store_ok_def list_all_iff)
  ultimately show ?thesis using assms by (auto simp: store_ok_def list_all_iff)
qed

lemma store_ok_replace:
  assumes "store_ok e d" "codec_ok e" "replace_session_messages e now s v ms u d = Inr (x, d')"
  shows "store_ok e d'"
proof -
  obtain d1 where d1: "upsert_session now s v None d = Inr d1"
    and d': "d' = touch_session now s v u True (fold (insert_message e now s v) (numbered 0 ms)
      (d1\<lparr>cd_checkpoints := filter (\<lambda>c. \<not> (ck_session_id c = s \<and> ck_vault_name c = v)) (cd_checkpoints d1),
         cd_messages := filter (\<lambda>m. \<not> (mr_session_id m = s \<and> mr_vault_name m = v)) (cd_messages d1)\<rparr>))"
    using assms(3) by (auto simp: replace_session_messages_def cbind_eq_Inr Let_def)
  let ?d = "d1\<lparr>cd_checkpoints := filter (\<lambda>c. \<not> (ck_session_id c = s \<and> ck_vault_name c = v)) (cd_checkpoints d1),
         cd_messages := filter (\<lambda>m. \<not> (mr_session_id m = s \<and> mr_vault_name m = v)) (cd_messages d1)\<rparr>"
  note up = upsert_existing [OF d1]
  then have ok1: "store_ok e d1" using assms(1) store_ok_same_tables by blast
  have keys: "session_keys ?d = session_keys d1" by (simp add: session_keys_def)
  have "store_ok e ?d"
  proof (rule store_ok_removed [OF ok1, where P = "\<lambda>m. \<not> (mr_session_id m = s \<and> mr_vault_name m = v)" and R = "\<lambda>_. True"
        and Q = "\<lambda>c. \<not> (ck_session_id c = s \<and> ck_vault_name c = v)"])
    fix c assume "c \<in> set (cd_checkpoints d1)" "\<not> (ck_session_id c = s \<and> ck_vault_name c = v)"
    then show "(ck_session_id c, ck_vault_name c) \<in> set (session_keys ?d) \<and>
        messages_of (ck_session_id c) (ck_vault_name c) ?d = messages_of (ck_session_id c) (ck_vault_name c) d1"
      using ok1 unfolding keys by (auto simp: store_ok_def list_all_iff messages_of_def intro!: arg_cong [where f = "sort_key _"] filter_cong)
  qed (use ok1 keys in \<open>auto simp: store_ok_def list_all_iff\<close>)
  moreover have none: "messages_of s v ?d = []" by (simp add: messages_of_def)
  then have next0: "next_sequence_index s v ?d = 0" by (simp add: next_sequence_index_def)
  have "messages_ok e ?d" using calculation by (simp add: store_ok_def)
  note new = new_rows_appended [OF this assms(2), where s = s and v = v and now = now and ms = ms, unfolded next0]
  have "(s, v) \<in> set (session_keys ?d)" unfolding keys using up by (simp add: same_tables_def)
  ultimately have "store_ok e (fold (insert_message e now s v) (numbered 0 ms) ?d)"
    using store_ok_appended [OF _ new(1,2)] by blast
  then show ?thesis unfolding d' using store_ok_same_tables touch_session_tables by blast
qed

lemma store_ok_delete:
  assumes "store_ok e d" shows "store_ok e (snd (delete_sessions now v i n d))"
proof -
  let ?gone = "filter (deletes now v i n) (cd_sessions d)" and ?d = "snd (delete_sessions now v i n d)"
  let ?owned = "\<lambda>i v. list_ex (\<lambda>s. st_session_id s = i \<and> st_vault_name s = v) ?gone"
  have d: "cd_messages ?d = filter (\<lambda>r. \<not> ?owned (mr_session_id r) (mr_vault_name r)) (cd_messages d)"
    "cd_tool_events ?d = filter (\<lambda>r. \<not> ?owned (tr_session_id r) (tr_vault_name r)) (cd_tool_events d)"
    "cd_checkpoints ?d = filter (\<lambda>c. \<not> ?owned (ck_session_id c) (ck_vault_name c)) (cd_checkpoints d)"
    "cd_last_checkpoint_id ?d = cd_last_checkpoint_id d"
    "session_keys ?d = map (\<lambda>s. (st_session_id s, st_vault_name s)) (filter (\<lambda>s. \<not> deletes now v i n s) (cd_sessions d))"
    by (simp_all add: delete_sessions_def session_keys_def Let_def)
  have kept: "(a, b) \<in> set (session_keys ?d)" if "(a, b) \<in> set (session_keys d)" "\<not> ?owned a b" for a b
    using that unfolding d(5) by (force simp: session_keys_def list_ex_iff)
  have "distinct (map fst (session_keys ?d))"
    using assms unfolding d(5) by (auto simp: store_ok_def session_keys_def comp_def intro: distinct_map_filter)
  then show ?thesis
    using d(1-4)
  proof (rule store_ok_removed [OF assms])
    fix c assume "c \<in> set (cd_checkpoints d)" "\<not> ?owned (ck_session_id c) (ck_vault_name c)"
    then show "(ck_session_id c, ck_vault_name c) \<in> set (session_keys ?d) \<and>
        messages_of (ck_session_id c) (ck_vault_name c) ?d = messages_of (ck_session_id c) (ck_vault_name c) d"
      using assms kept unfolding messages_of_def d(1)
      by (auto simp: store_ok_def list_all_iff intro!: arg_cong [where f = "sort_key _"] filter_cong)
  qed (use assms kept in \<open>auto simp: store_ok_def list_all_iff\<close>)
qed

section \<open>Checkpoints, events and settings\<close>

lemma origins_json_canonical: "json_canonical (origins_json os)"
  by (simp add: origins_json_def list_all_iff comp_def split: option.split)

lemma loads_origins: "json_loads (json_dumps True (origins_json os)) = Some (origins_json os)"
  unfolding json_dumps_text by (rule json_default.loads_json_text) (rule origins_json_canonical)

definition persisted_history :: "chat_env \<Rightarrow> model_message list \<Rightarrow> int option list \<Rightarrow> model_message list" where
  "persisted_history e hist os =
     map (\<lambda>(m, origin). if origin \<noteq> None then m else message_for_persistence (ce_persist_reasoning e) m) (zip hist os)"

definition checkpoint_row ::
  "chat_env \<Rightarrow> timestamp \<Rightarrow> nat \<Rightarrow> string \<Rightarrow> string \<Rightarrow> string \<Rightarrow> string \<Rightarrow> string \<Rightarrow> int \<Rightarrow> int \<Rightarrow> model_message \<Rightarrow> model_message list \<Rightarrow>
    int option list option \<Rightarrow> (string, json) dict option \<Rightarrow> StoredContextCheckpoint" where
  "checkpoint_row e now k cid s v kind source before t summary hist os metadata =
     \<lparr>ck_id = k, ck_checkpoint_id = cid, ck_session_id = s, ck_vault_name = v, ck_created_at = now, ck_source = source,
      ck_checkpoint_kind = kind, ck_message_count_before = before, ck_last_message_sequence_index = t,
      ck_summary_message_json = ce_dump e (message_for_persistence (ce_persist_reasoning e) summary),
      ck_replacement_history_json = ce_dump_list e hist,
      ck_replacement_source_sequence_indexes_json = map_option (\<lambda>os. json_dumps True (origins_json os)) os,
      ck_metadata_json = map_option dumped metadata\<rparr>"

lemma add_context_checkpoint_row:
  assumes "add_context_checkpoint e now s v cid kind source before t summary hist os metadata u expected d = Inr (row, d')"
  shows "\<exists>d1 ro. upsert_session now s v None d = Inr d1 \<and> (kind = ''recovery_card'' \<or> kind = ''session_map'') \<and>
    cid \<notin> set (map ck_checkpoint_id (cd_checkpoints d1)) \<and>
    row = checkpoint_row e now (Suc (cd_last_checkpoint_id d1)) cid s v kind source before t summary (persisted_history e hist ro) os metadata \<and>
    (case os of None \<Rightarrow> True | Some os \<Rightarrow>
      \<exists>x. validate_checkpoint_replacement_origins e s v (persisted_history e hist ro) (origins_json os) t d1 = Inr x) \<and>
    d' = touch_session now s v u True
      (d1\<lparr>cd_last_checkpoint_id := Suc (cd_last_checkpoint_id d1), cd_checkpoints := cd_checkpoints d1 @ [row]\<rparr>)"
proof -
  obtain d1 ro x where step: "upsert_session now s v None d = Inr d1" "kind = ''recovery_card'' \<or> kind = ''session_map''"
    "(case os of None \<Rightarrow> Inr [] | Some os \<Rightarrow>
      validate_checkpoint_replacement_origins e s v (persisted_history e hist ro) (origins_json os) t d1) = Inr x"
    "cid \<notin> set (map ck_checkpoint_id (cd_checkpoints d1))"
    "row = checkpoint_row e now (Suc (cd_last_checkpoint_id d1)) cid s v kind source before t summary (persisted_history e hist ro) os metadata"
    "d' = touch_session now s v u True
      (d1\<lparr>cd_last_checkpoint_id := Suc (cd_last_checkpoint_id d1), cd_checkpoints := cd_checkpoints d1 @ [row]\<rparr>)"
    using assms unfolding add_context_checkpoint_def Let_def persisted_history_def [symmetric]
    by (simp add: cbind_eq_Inr checkpoint_row_def split: if_split_asm) blast+
  then show ?thesis by (intro exI [of _ d1] exI [of _ ro]) (simp split: option.splits)
qed

lemma checkpoint_row_readable:
  assumes "codec_ok e" "case os of None \<Rightarrow> True | Some os \<Rightarrow> \<exists>x. validate_checkpoint_replacement_origins e s v hist (origins_json os) t d = Inr x"
  shows "replacement_readable e d (checkpoint_row e now k cid s v kind source before t summary hist os metadata)"
proof -
  have "\<exists>x. checkpoint_replacement_origins e (checkpoint_row e now k cid s v kind source before t summary hist os metadata) hist s v d = Inr x"
    using assms(2) by (auto simp: checkpoint_replacement_origins_def checkpoint_row_def loads_origins Let_def split: option.splits)
  then show ?thesis
    by (auto simp: replacement_readable_def checkpoint_replacement_messages_def checkpoint_row_def codec_okD [OF assms(1)])
qed

lemma store_ok_checkpoint:
  assumes "store_ok e d" "codec_ok e"
    "add_context_checkpoint e now s v cid kind source before t summary hist os metadata u expected d = Inr (row, d')"
    "t \<le> highest_message_sequence_index s v d"
  shows "store_ok e d'"
proof -
  obtain d1 ro where d1: "upsert_session now s v None d = Inr d1" "kind = ''recovery_card'' \<or> kind = ''session_map''"
    "cid \<notin> set (map ck_checkpoint_id (cd_checkpoints d1))"
    and row: "row = checkpoint_row e now (Suc (cd_last_checkpoint_id d1)) cid s v kind source before t summary (persisted_history e hist ro) os metadata"
    and valid: "case os of None \<Rightarrow> True | Some os \<Rightarrow>
      \<exists>x. validate_checkpoint_replacement_origins e s v (persisted_history e hist ro) (origins_json os) t d1 = Inr x"
    and d': "d' = touch_session now s v u True
      (d1\<lparr>cd_last_checkpoint_id := Suc (cd_last_checkpoint_id d1), cd_checkpoints := cd_checkpoints d1 @ [row]\<rparr>)"
    using add_context_checkpoint_row [OF assms(3)] by blast
  let ?d = "d1\<lparr>cd_last_checkpoint_id := Suc (cd_last_checkpoint_id d1), cd_checkpoints := cd_checkpoints d1 @ [row]\<rparr>"
  note up = upsert_existing [OF d1(1)]
  then have ok1: "store_ok e d1" using assms(1) store_ok_same_tables by blast
  have "highest_message_sequence_index s v d1 = highest_message_sequence_index s v d"
    using up by (simp add: highest_message_sequence_index_def same_tables_messages [of d d1])
  then have "checkpoint_ok e d1 row"
    using checkpoint_row_readable [OF assms(2) valid] assms(4) d1(2) unfolding row
    by (auto simp: checkpoint_ok_def checkpoint_row_def)
  then have "checkpoint_ok e ?d c" if "c \<in> set (cd_checkpoints ?d)" for c
    using that ok1 checkpoint_ok_cong [of ?d d1] by (auto simp: store_ok_def list_all_iff)
  moreover have "session_keys ?d = session_keys d1" by (simp add: session_keys_def)
  moreover have "ck_id row = Suc (cd_last_checkpoint_id d1)" "ck_checkpoint_id row = cid" "ck_session_id row = s" "ck_vault_name row = v"
    unfolding row by (simp_all add: checkpoint_row_def)
  moreover have "(s, v) \<in> set (session_keys d1)" using up by (simp add: same_tables_def)
  ultimately have "store_ok e ?d" using ok1 d1(3)
    by (auto simp: store_ok_def messages_ok_def list_all_iff sorted_wrt_append le_Suc_eq less_Suc_eq_le)
  then show ?thesis unfolding d' using store_ok_same_tables touch_session_tables by blast
qed

lemma store_ok_tool_event:
  assumes "store_ok e d" "add_tool_event now s v cid name typ args text metadata ref d = Inr (x, d')"
  shows "store_ok e d'"
proof -
  obtain d1 event where d1: "upsert_session now s v None d = Inr d1"
    and d': "d' = touch_session now s v [] False (insert_tool_event s v event d1)"
    using assms(2) by (auto simp: add_tool_event_def cbind_eq_Inr Let_def)
  note up = upsert_existing [OF d1]
  then have ok1: "store_ok e d1" using assms(1) store_ok_same_tables by blast
  let ?d = "insert_tool_event s v event d1"
  have "session_keys ?d = session_keys d1" by (simp add: session_keys_def insert_tool_event_def)
  moreover have "cd_messages ?d = cd_messages d1" "cd_checkpoints ?d = cd_checkpoints d1"
    "cd_last_checkpoint_id ?d = cd_last_checkpoint_id d1" by (simp_all add: insert_tool_event_def)
  moreover have "list_all (\<lambda>r. r \<in> set (cd_tool_events d1) \<or> (tr_session_id r, tr_vault_name r) = (s, v)) (cd_tool_events ?d)"
    by (simp add: insert_tool_event_def list_all_iff)
  moreover have "(s, v) \<in> set (session_keys d1)" using up by (simp add: same_tables_def)
  ultimately have "store_ok e ?d"
    using ok1 checkpoint_ok_cong [of ?d d1] by (auto simp: store_ok_def messages_ok_def list_all_iff)
  then show ?thesis unfolding d' using store_ok_same_tables touch_session_tables by blast
qed

lemma settings_tables:
  "same_tables d (set_session_favorite i v b d)" "same_tables d (set_session_title i v title d)"
  "update_session_metadata now i v u r a d = Inr (x, d') \<Longrightarrow> same_tables d d'"
  "set_session_workspace now i v w d = Inr (x, d') \<Longrightarrow> same_tables d d'"
proof -
  show "same_tables d (set_session_favorite i v b d)" "same_tables d (set_session_title i v title d)"
    by (simp_all add: set_session_favorite_def set_session_title_def Let_def update_session_tables)
  have metadata: "same_tables d1 (write_metadata now i v m d1)" for m d1 by (simp add: write_metadata_def update_session_tables)
  show "update_session_metadata now i v u r a d = Inr (x, d') \<Longrightarrow> same_tables d d'"
    "set_session_workspace now i v w d = Inr (x, d') \<Longrightarrow> same_tables d d'"
    using metadata by (auto simp: update_session_metadata_def set_session_workspace_def cbind_eq_Inr Let_def
        dest!: upsert_existing intro: same_tables_trans)
qed

end
