(* ===== verification/Chat_Fork_Props.thy ===== *)
theory Chat_Fork_Props
  imports Chat_Store_Inv
begin

text \<open>
  The fork of a session: the child starts with the history that the source had at the fork point, no other session is
  changed, and the tables stay consistent.
\<close>

section \<open>What a fork copies\<close>

lemma fork_session_parts:
  assumes "fork_session e now uuid src new v t title u d = Inr (n, d')"
  shows "\<exists>source messages checkpoints metadata record_of_fork. find_session src v d = Some source \<and>
    fetch_raw_messages e src v None None (Some t) d = Inr messages \<and> messages \<noteq> [] \<and> sm_sequence_index (last messages) = t \<and>
    eligible_checkpoints src v t d = Inr checkpoints \<and>
    copy_session e now uuid source new v title metadata record_of_fork messages checkpoints d = Inr (n, d')"
  using assms
  by (auto simp: fork_session_def cbind_eq_Inr Let_def split: option.splits if_split_asm) 

lemma eligible_checkpoints_bound:
  assumes "eligible_checkpoints src v t d = Inr cs" "c \<in> set cs"
  shows "c \<in> set (cd_checkpoints d)" "ck_session_id c = src" "ck_vault_name c = v" "ck_last_message_sequence_index c \<le> t"
proof -
  obtain xs where xs: "list_all2 (\<lambda>row cb. cbind (checkpoint_from_row row) (\<lambda>c. cbind (of_py (checkpoint_observation_boundary c)) (\<lambda>b. Inr (c, b))) = Inr cb)
      (checkpoint_rows src v d) xs" and cs: "cs = map fst (filter (\<lambda>(_, b). b \<le> t) xs)"
    using assms(1) by (auto simp: eligible_checkpoints_def cbind_eq_Inr cmap_eq_Inr)
  obtain b where b: "(c, b) \<in> set xs" "b \<le> t" using assms(2) cs by auto
  from xs b(1) obtain row where row: "row \<in> set (checkpoint_rows src v d)" "checkpoint_from_row row = Inr c" "checkpoint_observation_boundary c = Inr b"
    by (induction rule: list_all2_induct) (auto simp: cbind_eq_Inr of_py_eq_Inr)
  have "row = c" using row(2) by (auto simp: checkpoint_from_row_def split: if_splits)
  with row(1) show "c \<in> set (cd_checkpoints d)" "ck_session_id c = src" "ck_vault_name c = v" by (auto simp: checkpoint_rows_def)
  show "ck_last_message_sequence_index c \<le> t"
    using row(3) b(2) by (auto simp: checkpoint_observation_boundary_def Let_def split: if_splits option.splits json.splits)
qed

definition new_session_row :: "timestamp \<Rightarrow> StoredChatSession \<Rightarrow> string \<Rightarrow> string \<Rightarrow> string option \<Rightarrow> (string, json) dict \<Rightarrow> StoredChatSession" where
  "new_session_row now source new v title metadata =
     \<lparr>st_session_id = new, st_vault_name = v, st_owner_principal_id = st_owner_principal_id source, st_created_at = now,
      st_last_activity_at = now, st_title = (case title of Some t \<Rightarrow> if t = [] then None else Some t | None \<Rightarrow> None),
      st_metadata_json = Some (dumped metadata)\<rparr>"

lemma copy_session_parts:
  assumes "copy_session e now uuid source new v title metadata record_of_fork messages checkpoints d = Inr (n, d')"
  shows "\<exists>metadata' metadata'' events d4. find_session_by_id new d = None \<and> n = length messages \<and>
    copy_checkpoints (st_session_id source) new v uuid (List.enumerate 0 checkpoints)
      (fold (insert_tool_event new v) events (fold (copy_message new v) messages
        (d\<lparr>cd_sessions := cd_sessions d @ [new_session_row now source new v title metadata']\<rparr>))) = Inr d4 \<and>
    d' = touch_session now new v [] True (update_session new v (\<lambda>s. s\<lparr>st_metadata_json := Some (dumped metadata'')\<rparr>) d4)"
  using assms by (auto simp: copy_session_def cbind_eq_Inr Let_def new_session_row_def split: if_split_asm)

lemma store_ok_new_session:
  assumes "store_ok e d" "find_session_by_id new d = None" "st_session_id row = new"
  shows "store_ok e (d\<lparr>cd_sessions := cd_sessions d @ [row]\<rparr>)"
proof -
  let ?d = "d\<lparr>cd_sessions := cd_sessions d @ [row]\<rparr>"
  have "session_keys ?d = session_keys d @ [(new, st_vault_name row)]" using assms(3) by (simp add: session_keys_def)
  moreover have "new \<notin> fst ` set (session_keys d)" using assms(2) by (simp add: find_by_id)
  moreover have "checkpoint_ok e ?d c = checkpoint_ok e d c" for c by (rule checkpoint_ok_cong) simp
  ultimately show ?thesis using assms(1) by (auto simp: store_ok_def messages_ok_def list_all_iff)
qed

lemma row_content_copied: "row_content (copied_row new v (k, stored_of_row e r)) = row_content r"
  by (cases r) (simp add: row_content_def copied_row_def stored_of_row_def)

lemma row_ok_content: "row_content r = row_content r' \<Longrightarrow> row_ok e r = row_ok e r'"
  by (metis row_content_simps(4))

lemma fold_insert_events:
  "fold (insert_tool_event s v) events d = d\<lparr>cd_last_event_id := cd_last_event_id d + length events,
    cd_tool_events := cd_tool_events d @ map (\<lambda>(k, x). \<lparr>tr_id = k, tr_session_id = s, tr_vault_name = v, tr_event = x\<rparr>)
      (List.enumerate (Suc (cd_last_event_id d)) events)\<rparr>"
  by (induction events arbitrary: d) (simp_all add: insert_tool_event_def)

lemma store_ok_events:
  assumes "store_ok e d" "(s, v) \<in> set (session_keys d)" shows "store_ok e (fold (insert_tool_event s v) events d)"
proof -
  let ?d = "fold (insert_tool_event s v) events d"
  have "session_keys ?d = session_keys d" by (simp add: session_keys_def fold_insert_events)
  moreover have "checkpoint_ok e ?d c = checkpoint_ok e d c" for c by (rule checkpoint_ok_cong) (simp add: fold_insert_events)
  moreover have "list_all (\<lambda>r. r \<in> set (cd_tool_events d) \<or> (tr_session_id r, tr_vault_name r) = (s, v)) (cd_tool_events ?d)"
    by (auto simp: fold_insert_events list_all_iff)
  ultimately show ?thesis using assms by (auto simp: store_ok_def messages_ok_def list_all_iff fold_insert_events)
qed

lemma same_content_facts:
  assumes "same_content rs rs'"
  shows "map mr_sequence_index rs = map mr_sequence_index rs'" "list_all (row_ok e) rs = list_all (row_ok e) rs'" "length rs = length rs'"
proof -
  have content: "map mr_sequence_index xs = map mr_sequence_index (map row_content xs)"
    "list_all (row_ok e) xs = list_all (row_ok e) (map row_content xs)" for xs by (simp_all add: list.pred_map comp_def)
  show "map mr_sequence_index rs = map mr_sequence_index rs'" "list_all (row_ok e) rs = list_all (row_ok e) rs'"
    using content [of rs] content [of rs'] assms unfolding same_content_def by argo+
  show "length rs = length rs'" using assms map_eq_imp_length_eq unfolding same_content_def by blast
qed

lemma same_content_agree:
  assumes "same_content (filter (\<lambda>r. mr_sequence_index r \<le> t) rs) rs'" "u \<le> t" shows "agree_through u rs rs'"
proof -
  have "filter (\<lambda>r. mr_sequence_index r \<le> u) (filter (\<lambda>r. mr_sequence_index r \<le> t) rs) = filter (\<lambda>r. mr_sequence_index r \<le> u) rs"
    using assms(2) by (auto intro: filter_cong)
  with same_content_filter [OF assms(1), where P = "\<lambda>i. i \<le> u"] show ?thesis by (simp add: agree_through_def)
qed

section \<open>Copies of checkpoints\<close>

text \<open>A copy that the child gets for a checkpoint of the source: everything that its replacement history depends on.\<close>

definition copy_of :: "string \<Rightarrow> string \<Rightarrow> StoredContextCheckpoint \<Rightarrow> StoredContextCheckpoint \<Rightarrow> bool" where
  "copy_of new v c c' \<longleftrightarrow> ck_session_id c' = new \<and> ck_vault_name c' = v \<and> ck_checkpoint_kind c' = ck_checkpoint_kind c \<and>
     ck_last_message_sequence_index c' = ck_last_message_sequence_index c \<and>
     ck_replacement_source_sequence_indexes_json c' = ck_replacement_source_sequence_indexes_json c \<and>
     ck_replacement_history_json c' = ck_replacement_history_json c \<and> ck_created_at c' = ck_created_at c"

definition copyable :: "chat_env \<Rightarrow> string \<Rightarrow> string \<Rightarrow> string \<Rightarrow> chat_db \<Rightarrow> StoredContextCheckpoint \<Rightarrow> bool" where
  "copyable e src new v d c \<longleftrightarrow> (ck_checkpoint_kind c = ''recovery_card'' \<or> ck_checkpoint_kind c = ''session_map'') \<and>
     ck_last_message_sequence_index c \<le> highest_message_sequence_index new v d \<and>
     agree_through (ck_last_message_sequence_index c) (messages_of src v d) (messages_of new v d) \<and>
     (case checkpoint_replacement_messages e c src v d of Inl _ \<Rightarrow> False | Inr _ \<Rightarrow> True)"

lemma copy_of_readable:
  assumes "messages_ok e d" "copyable e src new v d c" "copy_of new v c c'"
  shows "checkpoint_replacement_messages e c' new v d = checkpoint_replacement_messages e c src v d"
proof -
  obtain ms where "checkpoint_replacement_messages e c src v d = Inr ms" using assms(2) by (auto simp: copyable_def split: sum.splits)
  with assms replacement_agree [of e src v d new v d c c' ms] messages_session_rows [OF assms(1)] show ?thesis
    by (simp add: copyable_def copy_of_def)
qed

lemma copy_checkpoints_ok:
  assumes "copy_checkpoints src new v uuid ics d = Inr d'" "store_ok e d" "(new, v) \<in> set (session_keys d)"
    and "list_all (copyable e src new v d) (map snd ics)"
  shows "store_ok e d' \<and> (\<exists>cs. cd_checkpoints d' = cd_checkpoints d @ cs \<and> list_all2 (copy_of new v) (map snd ics) cs) \<and>
    session_keys d' = session_keys d \<and> cd_sessions d' = cd_sessions d \<and> cd_messages d' = cd_messages d \<and> cd_tool_events d' = cd_tool_events d"
  using assms
proof (induction ics arbitrary: d)
  case (Cons ic ics)
  obtain i c where ic: "ic = (i, c)" by (cases ic)
  obtain d1 where d1: "copy_checkpoint src new v uuid ic d = Inr d1" "copy_checkpoints src new v uuid ics d1 = Inr d'"
    using Cons.prems(1) by (auto simp: cbind_eq_Inr)
  obtain metadata c' where c': "c' = c\<lparr>ck_id := Suc (cd_last_checkpoint_id d), ck_checkpoint_id := uuid i, ck_session_id := new,
      ck_vault_name := v, ck_metadata_json := Some metadata\<rparr>"
    and db: "d1 = d\<lparr>cd_last_checkpoint_id := Suc (cd_last_checkpoint_id d), cd_checkpoints := cd_checkpoints d @ [c']\<rparr>"
    and fresh: "uuid i \<notin> ck_checkpoint_id ` set (cd_checkpoints d)"
    using d1(1) ic by (auto simp: copy_checkpoint_def Let_def split: if_splits)
  have copy: "copy_of new v c c'" by (simp add: c' copy_of_def)
  have can: "copyable e src new v d c" using Cons.prems(4) ic by simp
  have m: "messages_ok e d" using Cons.prems(2) by (simp add: store_ok_def)
  have "checkpoint_ok e d c'"
    using can copy_of_readable [OF m can copy] copy
    by (auto simp: checkpoint_ok_def replacement_readable_def copyable_def copy_of_def)
  then have "checkpoint_ok e d1 x" if "x \<in> set (cd_checkpoints d1)" for x
    using that Cons.prems(2) checkpoint_ok_cong [of d1 d] by (auto simp: db store_ok_def list_all_iff)
  moreover have keys: "session_keys d1 = session_keys d" by (simp add: db session_keys_def)
  moreover have "ck_id c' = Suc (cd_last_checkpoint_id d)" "ck_checkpoint_id c' = uuid i" "ck_session_id c' = new" "ck_vault_name c' = v"
    by (simp_all add: c')
  ultimately have ok: "store_ok e d1" using Cons.prems(2,3) fresh
    by (auto simp: db store_ok_def messages_ok_def list_all_iff sorted_wrt_append le_Suc_eq less_Suc_eq_le)
  have same: "messages_of s' v' d1 = messages_of s' v' d" for s' v' by (rule messages_of_cong) (simp add: db)
  then have "copyable e src new v d1 = copyable e src new v d"
    by (auto simp: fun_eq_iff copyable_def highest_message_sequence_index_def replacement_cong [of src v d1 d])
  then have "list_all (copyable e src new v d1) (map snd ics)" using Cons.prems(4) by simp
  from Cons.IH [OF d1(2) ok _ this] Cons.prems(3) keys copy show ?case by (auto simp: db ic)
qed simp


section \<open>The tables after a fork\<close>

lemma update_other_sessions:
  assumes "\<And>s. st_session_id (f s) = st_session_id s"
  shows "filter (\<lambda>s. st_session_id s \<noteq> i) (cd_sessions (update_session i v f d)) = filter (\<lambda>s. st_session_id s \<noteq> i) (cd_sessions d)"
proof -
  have "filter (\<lambda>s. st_session_id s \<noteq> i) (map (\<lambda>s. if st_session_id s = i \<and> st_vault_name s = v then f s else s) xs) =
      filter (\<lambda>s. st_session_id s \<noteq> i) xs" for xs
    by (induction xs) (auto simp: assms)
  then show ?thesis by (simp add: update_session_def)
qed

lemma touch_other_sessions:
  "filter (\<lambda>s. st_session_id s \<noteq> i) (cd_sessions (touch_session now i v u a d)) = filter (\<lambda>s. st_session_id s \<noteq> i) (cd_sessions d)"
  by (simp add: touch_session_def Let_def update_other_sessions)

lemmas other_sessions = update_other_sessions touch_other_sessions

text \<open>The rows of the child are those of the source up to the fork point.\<close>

definition forked :: "string \<Rightarrow> string \<Rightarrow> string \<Rightarrow> int \<Rightarrow> StoredContextCheckpoint list \<Rightarrow> chat_db \<Rightarrow> chat_db \<Rightarrow> bool" where
  "forked src new v t checkpoints d d' \<longleftrightarrow>
     session_keys d' = session_keys d @ [(new, v)] \<and> filter (\<lambda>s. st_session_id s \<noteq> new) (cd_sessions d') = cd_sessions d \<and>
     messages_of new v d' = drop (length (cd_messages d)) (cd_messages d') \<and> take (length (cd_messages d)) (cd_messages d') = cd_messages d \<and>
     same_content (filter (\<lambda>r. mr_sequence_index r \<le> t) (messages_of src v d)) (messages_of new v d') \<and>
     filter (\<lambda>r. tr_session_id r \<noteq> new) (cd_tool_events d') = cd_tool_events d \<and>
     take (length (cd_checkpoints d)) (cd_checkpoints d') = cd_checkpoints d \<and>
     list_all2 (copy_of new v) checkpoints (drop (length (cd_checkpoints d)) (cd_checkpoints d'))"

lemma store_ok_fork:
  assumes "store_ok e d" "fork_session e now uuid src new v t title u d = Inr (n, d')"
  shows "store_ok e d' \<and> new \<notin> fst ` set (session_keys d) \<and>
    (\<exists>checkpoints. eligible_checkpoints src v t d = Inr checkpoints \<and> forked src new v t checkpoints d d') \<and>
    n = length (filter (\<lambda>r. mr_sequence_index r \<le> t) (messages_of src v d)) \<and>
    find_session src v d \<noteq> None"
proof -
  obtain source messages checkpoints metadata record_of_fork where source: "find_session src v d = Some source"
    and messages: "fetch_raw_messages e src v None None (Some t) d = Inr messages" "messages \<noteq> []" "sm_sequence_index (last messages) = t"
    and checkpoints: "eligible_checkpoints src v t d = Inr checkpoints"
    and copied: "copy_session e now uuid source new v title metadata record_of_fork messages checkpoints d = Inr (n, d')"
    using fork_session_parts [OF assms(2)] by blast
  obtain metadata' metadata'' events d4 where new: "find_session_by_id new d = None" "n = length messages"
    and d4: "copy_checkpoints (st_session_id source) new v uuid (List.enumerate 0 checkpoints)
      (fold (insert_tool_event new v) events (fold (copy_message new v) messages
        (d\<lparr>cd_sessions := cd_sessions d @ [new_session_row now source new v title metadata']\<rparr>))) = Inr d4"
    and d': "d' = touch_session now new v [] True (update_session new v (\<lambda>s. s\<lparr>st_metadata_json := Some (dumped metadata'')\<rparr>) d4)"
    using copy_session_parts [OF copied] by blast
  define d1 where "d1 = d\<lparr>cd_sessions := cd_sessions d @ [new_session_row now source new v title metadata']\<rparr>"
  define d2 where "d2 = fold (copy_message new v) messages d1"
  define d3 where "d3 = fold (insert_tool_event new v) events d2"
  let ?rows = "filter (\<lambda>r. mr_sequence_index r \<le> t) (messages_of src v d)"
  define copies where "copies = map (copied_row new v) (List.enumerate (Suc (cd_last_message_id d)) messages)"
  have src: "st_session_id source = src" using source by (auto simp: find_session_def find_Some_iff)
  have fresh: "new \<notin> fst ` set (session_keys d)" using new(1) by (simp add: find_by_id)
  have m: "messages = map (stored_of_row e) ?rows" using messages(1) fetch_rows [OF store_session_rows [OF assms(1)]] by simp
  have same: "same_content ?rows copies"
  proof -
    have "map row_content (map (copied_row new v) (List.enumerate k (map (stored_of_row e) rs))) = map row_content rs" for k rs
      by (induction rs arbitrary: k) (simp_all add: row_content_copied)
    then show ?thesis by (simp only: same_content_def m copies_def)
  qed
  note seqs = same_content_facts(1) [OF same, symmetric]
  have ok1: "store_ok e d1" unfolding d1_def by (rule store_ok_new_session [OF assms(1) new(1)]) (simp add: new_session_row_def)
  have keys1: "session_keys d1 = session_keys d @ [(new, v)]" by (simp add: d1_def session_keys_def new_session_row_def)
  have "mr_session_id r \<noteq> new" if "r \<in> set (cd_messages d)" for r
    using assms(1) fresh that by (auto simp: store_ok_def list_all_iff) (metis fst_conv image_eqI)
  then have none: "messages_of new v d1 = []" by (auto simp: d1_def messages_of_def filter_empty_conv)
  have rows_ok: "list_all (\<lambda>r. row_ok e r \<and> 0 \<le> mr_sequence_index r) ?rows"
    using assms(1) by (auto simp: store_ok_def messages_ok_def list_all_iff set_messages_of)
  have copies_ok: "list_all (row_ok e) copies"
    using rows_ok same_content_facts(2) [OF same, of e] by (auto simp: list_all_iff)
  have app: "appended new v copies d1 d2"
  proof -
    have "sorted_wrt (<) (map mr_sequence_index ?rows)"
      using store_session_rows [OF assms(1), of src v] sorted_messages_of [of src v d]
      by (auto simp: session_rows_ok_def strict_sorted_iff sorted_filter distinct_map_filter)
    moreover have "list_all ((<) (- 1)) (map mr_sequence_index copies)"
      using rows_ok unfolding seqs by (auto simp: list_all_iff)
    then have "\<forall>r\<in>set copies. - 1 < mr_sequence_index r" by (simp add: list_all_iff)
    moreover have "list_all (\<lambda>r. mr_session_id r = new \<and> mr_vault_name r = v) copies"
      by (auto simp: copies_def list_all_iff)
    moreover have "cd_messages d2 = cd_messages d1 @ copies" "cd_sessions d2 = cd_sessions d1" "cd_tool_events d2 = cd_tool_events d1"
      "cd_checkpoints d2 = cd_checkpoints d1" "cd_last_checkpoint_id d2 = cd_last_checkpoint_id d1"
      by (simp_all add: d2_def fold_copy_message copies_def d1_def)
    ultimately show ?thesis
      by (simp add: appended_def seqs session_keys_def list_all_iff highest_message_sequence_index_def none)
  qed
  have msgs2: "messages_of new v d2 = copies" using appended_messages [OF app, of new v] none by simp
  have src_new: "src \<noteq> new" using source fresh by (auto simp: find_session_def find_Some_iff session_keys_def image_iff)
  then have src2: "messages_of src v d2 = messages_of src v d"
    using appended_messages [OF app, of src v] by (simp add: d1_def messages_of_def)
  have keys2: "session_keys d2 = session_keys d1" using app by (simp add: appended_def)
  then have ok3: "store_ok e d3" unfolding d3_def
    using store_ok_events [OF store_ok_appended [OF ok1 app copies_ok]] by (simp add: keys1)
  have same3: "messages_of s' v' d3 = messages_of s' v' d2" for s' v' by (rule messages_of_cong) (simp add: d3_def fold_insert_events)
  have keys3: "session_keys d3 = session_keys d @ [(new, v)]" using keys1 keys2 by (simp add: d3_def session_keys_def fold_insert_events)
  have top: "t \<le> highest_message_sequence_index new v d3"
  proof -
    have "mr_sequence_index (last ?rows) = t" using messages(2,3) unfolding m by (simp add: last_map stored_of_row_def)
    moreover have "mr_sequence_index (last ?rows) \<in> set (map mr_sequence_index copies)"
      unfolding seqs using messages(2) last_in_set [of ?rows] unfolding m by auto
    ultimately show ?thesis using le_highest [of _ new v d3] unfolding same3 msgs2 by auto
  qed
  have "copyable e src new v d3 c" if c: "c \<in> set checkpoints" for c
  proof -
    note bound = eligible_checkpoints_bound [OF checkpoints c]
    have "checkpoint_ok e d c" using assms(1) bound(1) by (auto simp: store_ok_def list_all_iff)
    moreover have "agree_through (ck_last_message_sequence_index c) (messages_of src v d) copies"
      by (rule same_content_agree [OF same bound(4)])
    ultimately show ?thesis using bound top replacement_cong(1) [of src v d3 d e c]
      by (auto simp: copyable_def checkpoint_ok_def replacement_readable_def same3 src2 msgs2)
  qed
  then have "list_all (copyable e src new v d3) (map snd (List.enumerate 0 checkpoints))" by (simp add: list_all_iff)
  from copy_checkpoints_ok [OF d4 [folded d1_def, folded d2_def, folded d3_def, unfolded src] ok3 _ this]
  have ok4: "store_ok e d4" "session_keys d4 = session_keys d3" "cd_sessions d4 = cd_sessions d3" "cd_messages d4 = cd_messages d3"
      "cd_tool_events d4 = cd_tool_events d3"
    and "\<exists>cs. cd_checkpoints d4 = cd_checkpoints d3 @ cs \<and> list_all2 (copy_of new v) checkpoints cs"
    by (auto simp: keys3)
  then obtain cs where cs: "cd_checkpoints d4 = cd_checkpoints d @ cs" "list_all2 (copy_of new v) checkpoints cs"
    by (auto simp: d3_def d2_def d1_def fold_insert_events fold_copy_message)
  have tables: "same_tables d4 d'" unfolding d' by (rule same_tables_trans [OF update_session_tables touch_session_tables]) simp
  have "filter (\<lambda>s. st_session_id s \<noteq> new) (cd_sessions d') = filter (\<lambda>s. st_session_id s \<noteq> new) (cd_sessions d4)"
    by (simp add: d' other_sessions)
  moreover have "cd_sessions d4 = cd_sessions d @ [new_session_row now source new v title metadata']" using ok4(3)
    by (simp add: d3_def d2_def d1_def fold_insert_events fold_copy_message)
  moreover have "filter (\<lambda>s. st_session_id s \<noteq> new) (cd_sessions d) = cd_sessions d"
    using fresh by (auto simp: session_keys_def image_iff intro!: filter_True)
  moreover have "filter (\<lambda>r. tr_session_id r \<noteq> new) (cd_tool_events d) = cd_tool_events d"
    using assms(1) fresh by (auto simp: store_ok_def list_all_iff intro!: filter_True) (metis fst_conv image_eqI)
  moreover have "cd_messages d' = cd_messages d @ copies"
    using tables ok4(4) by (simp add: same_tables_def d3_def d2_def d1_def fold_insert_events fold_copy_message copies_def)
  moreover have "messages_of new v d' = copies"
    using messages_of_cong [of d4 d3 new v] ok4(4) by (simp add: same_tables_messages [OF tables] same3 msgs2)
  moreover have "cd_tool_events d' = cd_tool_events d @ map (\<lambda>(k, x). \<lparr>tr_id = k, tr_session_id = new, tr_vault_name = v, tr_event = x\<rparr>)
      (List.enumerate (Suc (cd_last_event_id d2)) events)"
    using tables ok4(5) by (simp add: same_tables_def d3_def d2_def d1_def fold_insert_events fold_copy_message)
  moreover have "session_keys d' = session_keys d @ [(new, v)]" "cd_checkpoints d' = cd_checkpoints d @ cs"
    using tables ok4(2) cs(1) by (simp_all add: same_tables_def keys3)
  ultimately have "forked src new v t checkpoints d d'"
    using same cs(2) by (auto simp: forked_def new_session_row_def filter_empty_conv)
  then show ?thesis using store_ok_same_tables [OF tables ok4(1)] fresh checkpoints new(2) source m by auto
qed


section \<open>The effective history\<close>

definition session_checkpoints :: "string \<Rightarrow> string \<Rightarrow> chat_db \<Rightarrow> StoredContextCheckpoint list" where
  "session_checkpoints s v d = filter (\<lambda>c. ck_session_id c = s \<and> ck_vault_name c = v) (cd_checkpoints d)"

lemma sorted_by_id: "sorted_wrt (<) (map ck_id cs) \<Longrightarrow> sort_key ck_id (filter P cs) = filter P cs"
  by (rule sort_key_id_if_sorted) (simp add: sorted_filter strict_sorted_imp_sorted)

lemma checkpoint_rows_filter: "store_ok e d \<Longrightarrow> checkpoint_rows s v d = session_checkpoints s v d"
  by (simp add: checkpoint_rows_def session_checkpoints_def store_ok_def sorted_by_id)

lemma latest_checkpoint_last:
  assumes "store_ok e d"
  shows "latest_context_checkpoint s v d =
    (if session_checkpoints s v d = [] then None else Some (last (session_checkpoints s v d)))"
  using checkpoint_rows_filter [OF assms, of s v]
  by (simp add: latest_context_checkpoint_def checkpoint_rows_def split: list.split)

definition after_index :: "int \<Rightarrow> message_row list \<Rightarrow> message_row list" where
  "after_index a rows = filter (\<lambda>r. a < mr_sequence_index r) rows"

lemma effective_history_rows:
  assumes "session_rows_ok e s v d" "\<And>c. latest_context_checkpoint s v d = Some c \<Longrightarrow> checkpoint_from_row c = Inr c"
  shows "fetch_effective_messages e s v None d =
    (case latest_context_checkpoint s v d of None \<Rightarrow> Inr (map (stored_of_row e) (messages_of s v d))
     | Some c \<Rightarrow> cbind (checkpoint_replacement_messages e c s v d)
         (\<lambda>ms. Inr (ms @ map (stored_of_row e) (after_index (ck_last_message_sequence_index c) (messages_of s v d)))))"
proof (cases "latest_context_checkpoint s v d")
  case (Some c)
  from assms(2) [OF this] Some show ?thesis
    by (simp add: fetch_effective_messages_def fetch_rows [OF assms(1)] after_index_def)
qed (simp add: fetch_effective_messages_def fetch_all_rows [OF assms(1)])

lemma latest_checkpoint_ok:
  assumes "store_ok e d" "latest_context_checkpoint s v d = Some c"
  shows "checkpoint_ok e d c" "ck_session_id c = s" "ck_vault_name c = v" "c \<in> set (cd_checkpoints d)"
proof -
  have "c \<in> set (session_checkpoints s v d)" using assms by (auto simp: latest_checkpoint_last split: if_splits)
  then show "checkpoint_ok e d c" "ck_session_id c = s" "ck_vault_name c = v" "c \<in> set (cd_checkpoints d)"
    using assms(1) by (auto simp: session_checkpoints_def store_ok_def list_all_iff)
qed

lemma known_checkpoint: "checkpoint_ok e d c \<Longrightarrow> checkpoint_from_row c = Inr c"
  by (auto simp: checkpoint_ok_def checkpoint_from_row_def)

lemmas effective_history = effective_history_rows [OF store_session_rows known_checkpoint [OF latest_checkpoint_ok(1)]]

lemma effective_readable:
  assumes "store_ok e d" shows "\<exists>ms. fetch_effective_messages e s v None d = Inr ms"
proof (cases "latest_context_checkpoint s v d")
  case (Some c)
  from latest_checkpoint_ok [OF assms Some] show ?thesis
    by (auto simp: effective_history [OF assms assms] Some checkpoint_ok_def replacement_readable_def cbind_def split: sum.splits)
qed (simp add: effective_history [OF assms assms])

text \<open>
  What the source would be had nothing happened after the fork point: its messages up to there, and the checkpoints whose
  author had seen no later message. The author of a session map has seen the messages that the map's metadata names, and not
  only those that the map stands for.
\<close>

definition observed_through :: "StoredContextCheckpoint \<Rightarrow> int" where
  "observed_through c =
     (let metadata = (case map_option json_loads (ck_metadata_json c) of Some (Some (JDict entries)) \<Rightarrow> entries | _ \<Rightarrow> [])
      in if ck_checkpoint_kind c \<noteq> ''session_map'' then ck_last_message_sequence_index c
         else (case map_of metadata ''map_observed_through_sequence_index'' of
           Some (JInt observed) \<Rightarrow> observed | _ \<Rightarrow> ck_last_message_sequence_index c))"

lemma boundary_observed: "checkpoint_observation_boundary c = Inr b \<Longrightarrow> observed_through c = b"
  by (auto simp: checkpoint_observation_boundary_def observed_through_def Let_def split: option.splits json.splits if_splits)

definition truncated_session :: "string \<Rightarrow> string \<Rightarrow> int \<Rightarrow> chat_db \<Rightarrow> chat_db" where
  "truncated_session s v t d =
     d\<lparr>cd_messages := filter (\<lambda>r. mr_session_id r = s \<and> mr_vault_name r = v \<longrightarrow> mr_sequence_index r \<le> t) (cd_messages d),
       cd_checkpoints := filter (\<lambda>c. ck_session_id c = s \<and> ck_vault_name c = v \<longrightarrow> observed_through c \<le> t) (cd_checkpoints d)\<rparr>"

lemma truncated_messages: "messages_of s v (truncated_session s v t d) = filter (\<lambda>r. mr_sequence_index r \<le> t) (messages_of s v d)"
  by (auto simp: messages_of_def truncated_session_def filter_sort intro!: arg_cong [where f = "sort_key _"] filter_cong)

lemma eligible_visible:
  assumes "eligible_checkpoints s v t d = Inr cs"
  shows "cs = filter (\<lambda>c. observed_through c \<le> t) (checkpoint_rows s v d)"
    "list_all (\<lambda>c. \<exists>b. checkpoint_observation_boundary c = Inr b) (checkpoint_rows s v d)"
proof -
  obtain xs where xs: "list_all2 (\<lambda>row cb. cbind (checkpoint_from_row row) (\<lambda>c. cbind (of_py (checkpoint_observation_boundary c)) (\<lambda>b. Inr (c, b))) = Inr cb)
      (checkpoint_rows s v d) xs" and cs: "cs = map fst (filter (\<lambda>(_, b). b \<le> t) xs)"
    using assms by (auto simp: eligible_checkpoints_def cbind_eq_Inr cmap_eq_Inr)
  from xs show "list_all (\<lambda>c. \<exists>b. checkpoint_observation_boundary c = Inr b) (checkpoint_rows s v d)"
    by (induction rule: list_all2_induct) (auto simp: cbind_eq_Inr of_py_eq_Inr checkpoint_from_row_def split: if_splits)
  from xs show "cs = filter (\<lambda>c. observed_through c \<le> t) (checkpoint_rows s v d)" unfolding cs
    by (induction rule: list_all2_induct)
      (auto simp: cbind_eq_Inr of_py_eq_Inr checkpoint_from_row_def boundary_observed split: if_splits)
qed

text \<open>
  An earlier state of the source, in which the fork point was its last message: nothing of it has been replaced or deleted
  since, and the checkpoints written since have seen later messages.
\<close>

definition source_stood_at :: "string \<Rightarrow> string \<Rightarrow> int \<Rightarrow> chat_db \<Rightarrow> chat_db \<Rightarrow> bool" where
  "source_stood_at s v t d0 d \<longleftrightarrow>
     messages_of s v d0 \<noteq> [] \<and> mr_sequence_index (last (messages_of s v d0)) = t \<and>
     take (length (messages_of s v d0)) (messages_of s v d) = messages_of s v d0 \<and>
     take (length (checkpoint_rows s v d0)) (checkpoint_rows s v d) = checkpoint_rows s v d0 \<and>
     list_all (\<lambda>c. observed_through c \<le> t) (checkpoint_rows s v d0) \<and>
     list_all (\<lambda>c. t < observed_through c) (drop (length (checkpoint_rows s v d0)) (checkpoint_rows s v d))"

lemma filter_prefix:
  assumes "take n xs = ys" "list_all P ys" "list_all (\<lambda>x. \<not> P x) (drop n xs)" shows "filter P xs = ys"
proof -
  have "filter P (take n xs) = ys" unfolding assms(1) using assms(2) by (simp add: list_all_iff)
  moreover have "filter P (drop n xs) = []" using assms(3) by (simp add: list_all_iff filter_empty_conv)
  ultimately show ?thesis using filter_append [of P "take n xs" "drop n xs"] by simp
qed

lemma stood_at_truncated:
  assumes "source_stood_at s v t d0 d" "distinct (map mr_sequence_index (messages_of s v d))"
  shows "messages_of s v (truncated_session s v t d) = messages_of s v d0"
    "checkpoint_rows s v (truncated_session s v t d) = checkpoint_rows s v d0"
proof -
  let ?ms = "messages_of s v d0" and ?n = "length (messages_of s v d0)"
  have "sorted_wrt (<) (map mr_sequence_index (messages_of s v d))"
    using assms(2) sorted_messages_of by (simp add: strict_sorted_iff)
  moreover have split: "messages_of s v d = ?ms @ drop ?n (messages_of s v d)"
    using assms(1) by (metis append_take_drop_id source_stood_at_def)
  ultimately have strict: "sorted_wrt (<) (map mr_sequence_index ?ms @ map mr_sequence_index (drop ?n (messages_of s v d)))"
    by (metis map_append)
  have ne: "?ms \<noteq> []" and t: "mr_sequence_index (last ?ms) = t" using assms(1) by (simp_all add: source_stood_at_def)
  have "list_all (\<lambda>r. mr_sequence_index r \<le> t) ?ms"
    using sorted_le_last [of "map mr_sequence_index ?ms"] strict t ne
    by (auto simp: list_all_iff sorted_wrt_append strict_sorted_iff last_map)
  moreover have "list_all (\<lambda>r. \<not> mr_sequence_index r \<le> t) (drop ?n (messages_of s v d))"
    using strict t last_in_set [OF ne] by (auto simp: list_all_iff sorted_wrt_append not_le)
  ultimately show "messages_of s v (truncated_session s v t d) = ?ms"
    unfolding truncated_messages using assms(1) by (intro filter_prefix [where n = ?n]) (simp_all add: source_stood_at_def)
  have "checkpoint_rows s v (truncated_session s v t d) = filter (\<lambda>c. observed_through c \<le> t) (checkpoint_rows s v d)"
    by (auto simp: checkpoint_rows_def truncated_session_def filter_sort intro!: arg_cong [where f = "sort_key _"] filter_cong)
  also have "\<dots> = checkpoint_rows s v d0"
    using assms(1) by (intro filter_prefix [where n = "length (checkpoint_rows s v d0)"]) (simp_all add: source_stood_at_def not_le)
  finally show "checkpoint_rows s v (truncated_session s v t d) = checkpoint_rows s v d0" .
qed

lemma effective_cong:
  assumes "messages_of s v d = messages_of s v d'" "checkpoint_rows s v d = checkpoint_rows s v d'"
  shows "fetch_effective_messages e s v None d = fetch_effective_messages e s v None d'"
proof -
  have "latest_context_checkpoint s v d = latest_context_checkpoint s v d'"
    using assms(2) by (simp add: latest_context_checkpoint_def checkpoint_rows_def)
  then show ?thesis unfolding fetch_effective_messages_def
    by (simp add: fetch_cong [OF assms(1)] replacement_cong(1) [OF assms(1)] split: option.split)
qed

section \<open>The child and the source\<close>

lemma forked_effective:
  assumes "store_ok e d" "store_ok e d'" "new \<notin> fst ` set (session_keys d)"
    and cs: "eligible_checkpoints src v t d = Inr cs" and f: "forked src new v t cs d d'"
  shows "fetch_effective_messages e new v None d' = fetch_effective_messages e src v None (truncated_session src v t d)"
proof -
  let ?d = "truncated_session src v t d" and ?new = "messages_of new v d'"
  have rows: "same_content (messages_of src v ?d) ?new" using f unfolding forked_def truncated_messages by blast
  have ok: "session_rows_ok e src v d" "session_rows_ok e new v d'" using assms(1,2) by (simp_all add: store_session_rows)
  then have ok_t: "session_rows_ok e src v ?d"
    unfolding session_rows_ok_def truncated_messages by (auto simp: list_all_iff distinct_map_filter)
  have "checkpoint_rows src v ?d = cs"
    using eligible_visible(1) [OF cs] by (auto simp: checkpoint_rows_def truncated_session_def filter_sort
        intro!: arg_cong [where f = "sort_key _"] filter_cong)
  then have latest_t: "latest_context_checkpoint src v ?d = (if cs = [] then None else Some (last cs))"
    by (auto simp: latest_context_checkpoint_def checkpoint_rows_def split: list.split)
  obtain cs' where cs': "cd_checkpoints d' = cd_checkpoints d @ cs'" "list_all2 (copy_of new v) cs cs'"
    using f by (metis append_take_drop_id forked_def)
  have "ck_session_id c \<noteq> new" if "c \<in> set (cd_checkpoints d)" for c
    using assms(1,3) that by (auto simp: store_ok_def list_all_iff) (metis fst_conv image_eqI)
  moreover have "list_all (\<lambda>c. ck_session_id c = new \<and> ck_vault_name c = v) cs'"
    using cs'(2) by (induction rule: list_all2_induct) (simp_all add: copy_of_def)
  ultimately have "session_checkpoints new v d' = cs'"
    by (auto simp: session_checkpoints_def cs'(1) list_all_iff filter_empty_conv intro!: filter_True)
  then have latest: "latest_context_checkpoint new v d' = (if cs' = [] then None else Some (last cs'))"
    by (simp add: latest_checkpoint_last [OF assms(2)])
  have from_t: "checkpoint_from_row c = Inr c" if "latest_context_checkpoint src v ?d = Some c" for c
  proof -
    have "c \<in> set cs" using that latest_t by (auto split: if_splits)
    then have "c \<in> set (cd_checkpoints d)" by (rule eligible_checkpoints_bound [OF cs])
    then have "checkpoint_ok e d c" using assms(1) by (auto simp: store_ok_def list_all_iff)
    then show ?thesis by (rule known_checkpoint)
  qed
  note effective_t = effective_history_rows [OF ok_t, OF from_t, simplified]
  show ?thesis
  proof (cases "cs = []")
    case True
    with cs'(2) have "cs' = []" by simp
    with True show ?thesis using same_content_stored [OF rows] latest latest_t
      by (simp add: effective_history [OF assms(2) assms(2)] effective_t)
  next
    case False
    let ?c = "last cs" and ?c' = "last cs'"
    have ne: "cs' \<noteq> []" using False cs'(2) by auto
    have copy: "copy_of new v ?c ?c'" using cs'(2) False ne list_all2_nthD2 [OF cs'(2), of "length cs' - 1"]
      by (simp add: last_conv_nth list_all2_lengthD)
    note bound = eligible_checkpoints_bound [OF cs last_in_set [OF False]]
    have c_ok: "checkpoint_ok e d ?c" using assms(1) bound(1) by (auto simp: store_ok_def list_all_iff)
    then obtain ms where ms: "checkpoint_replacement_messages e ?c src v d = Inr ms"
      using bound(2,3) by (auto simp: checkpoint_ok_def replacement_readable_def split: sum.splits)
    have content: "same_content (filter (\<lambda>r. mr_sequence_index r \<le> t) (messages_of src v d)) ?new"
      "same_content (filter (\<lambda>r. mr_sequence_index r \<le> t) (messages_of src v d)) (messages_of src v ?d)"
      using rows by (simp_all add: truncated_messages)
    have "checkpoint_replacement_messages e ?c' new v d' = Inr ms"
      using copy same_content_agree [OF content(1) bound(4)] ms by (intro replacement_agree [OF ok, of ?c]) (auto simp: copy_of_def)
    moreover have "checkpoint_replacement_messages e ?c src v ?d = Inr ms"
      using same_content_agree [OF content(2) bound(4)] ms by (intro replacement_agree [OF ok(1) ok_t, of ?c]) auto
    moreover have "map (stored_of_row e) (after_index a (messages_of src v ?d)) = map (stored_of_row e) (after_index a ?new)" for a
      unfolding after_index_def by (rule same_content_stored) (rule same_content_filter [OF rows, where P = "\<lambda>i. a < i"])
    moreover have "ck_last_message_sequence_index ?c' = ck_last_message_sequence_index ?c" using copy by (simp add: copy_of_def)
    ultimately show ?thesis using latest latest_t ne False
      by (simp add: effective_history [OF assms(2) assms(2)] effective_t)
  qed
qed

lemma filter_idem: "filter P (filter P xs) = filter P xs"
  by simp

lemma find_filter: "find P (filter Q xs) = find (\<lambda>x. Q x \<and> P x) xs"
  by (induction xs) auto

text \<open>Every other session is left as it was.\<close>

lemma forked_others:
  assumes "store_ok e d" "store_ok e d'" "forked src new v t cs d d'" "s' \<noteq> new"
  shows "messages_of s' v' d' = messages_of s' v' d" "fetch_effective_messages e s' v' None d' = fetch_effective_messages e s' v' None d"
    "tool_events_of s' v' d' = tool_events_of s' v' d" "find_session s' v' d' = find_session s' v' d"
proof -
  let ?news = "drop (length (cd_messages d)) (cd_messages d')"
  have split: "cd_messages d' = cd_messages d @ ?news" using assms(3) by (metis append_take_drop_id forked_def)
  have "messages_of new v d' = ?news" using assms(3) unfolding forked_def by blast
  then have "set ?news = set (messages_of new v d')" by simp
  then have "filter (\<lambda>m. mr_session_id m = s' \<and> mr_vault_name m = v') ?news = []"
    using assms(4) by (auto simp: filter_empty_conv set_messages_of)
  then show msgs: "messages_of s' v' d' = messages_of s' v' d"
    unfolding messages_of_def by (subst split) (simp only: filter_append append_Nil2)
  have other: "filter (\<lambda>r. tr_session_id r = s' \<and> tr_vault_name r = v') xs =
      filter (\<lambda>r. tr_session_id r = s' \<and> tr_vault_name r = v') (filter (\<lambda>r. tr_session_id r \<noteq> new) xs)" for xs
    using assms(4) by (auto intro!: filter_cong)
  have "filter (\<lambda>r. tr_session_id r \<noteq> new) (cd_tool_events d') = cd_tool_events d" using assms(3) by (simp add: forked_def)
  then show "tool_events_of s' v' d' = tool_events_of s' v' d"
    unfolding tool_events_of_def other [of "cd_tool_events d'"] by (rule arg_cong)
  have "find_session s' v' db = find (\<lambda>s. st_session_id s = s' \<and> st_vault_name s = v') (filter (\<lambda>s. st_session_id s \<noteq> new) (cd_sessions db))" for db
    using assms(4) unfolding find_session_def find_filter by (auto intro!: arg_cong [where f = "\<lambda>P. find P _"])
  moreover have "filter (\<lambda>s. st_session_id s \<noteq> new) (cd_sessions d') = cd_sessions d" using assms(3) by (simp add: forked_def)
  moreover from this have "filter (\<lambda>s. st_session_id s \<noteq> new) (cd_sessions d) = cd_sessions d" by (metis (no_types) filter_idem)
  ultimately show "find_session s' v' d' = find_session s' v' d" by simp
  obtain cs' where cs': "cd_checkpoints d' = cd_checkpoints d @ cs'" "list_all2 (copy_of new v) cs cs'"
    using assms(3) by (metis append_take_drop_id forked_def)
  have "list_all (\<lambda>c. ck_session_id c = new) cs'" using cs'(2) by (induction rule: list_all2_induct) (simp_all add: copy_of_def)
  then have "session_checkpoints s' v' d' = session_checkpoints s' v' d"
    using assms(4) by (auto simp: session_checkpoints_def cs'(1) list_all_iff filter_empty_conv)
  then have "latest_context_checkpoint s' v' d' = latest_context_checkpoint s' v' d"
    by (simp add: latest_checkpoint_last [OF assms(1)] latest_checkpoint_last [OF assms(2)])
  then show "fetch_effective_messages e s' v' None d' = fetch_effective_messages e s' v' None d"
    using replacement_cong(1) [of s' v' d' d e, OF msgs]
    by (simp add: effective_history [OF assms(1) assms(1)] effective_history [OF assms(2) assms(2)] msgs split: option.split)
qed

end
