(* ===== verification/Chat_History_Props.thy ===== *)
theory Chat_History_Props
  imports Chat_Fork_Props
begin

text \<open>
  The chat store under any sequence of its operations: the history of every session can always be read, added messages
  extend it, and a fork gives a child with the history of the fork point and touches no other session.
\<close>

section \<open>Runs of the store\<close>

text \<open>A checkpoint stands for messages that exist, as in compaction and in the session map, the two callers.\<close>

inductive chat_step :: "chat_env \<Rightarrow> chat_db \<Rightarrow> chat_db \<Rightarrow> bool" for e where
  step_ensure: "ensure_session now s v p d = Inr (x, d') \<Longrightarrow> chat_step e d d'"
| step_add: "add_messages e now s v ms d = Inr (idx, d') \<Longrightarrow> chat_step e d d'"
| step_replace: "replace_session_messages e now s v ms u d = Inr (y, d') \<Longrightarrow> chat_step e d d'"
| step_checkpoint: "add_context_checkpoint e now s v cid kind source before t summary hist os metadata u expected d = Inr (row, d') \<Longrightarrow>
    t \<le> highest_message_sequence_index s v d \<Longrightarrow> chat_step e d d'"
| step_fork: "fork_session e now uuid src new v t title u d = Inr (n, d') \<Longrightarrow> chat_step e d d'"
| step_event: "add_tool_event now s v cid name kind args result_text metadata ref d = Inr (y, d') \<Longrightarrow> chat_step e d d'"
| step_favorite: "chat_step e d (set_session_favorite s v b d)"
| step_title: "chat_step e d (set_session_title s v title d)"
| step_metadata: "update_session_metadata now s v u r a d = Inr (y, d') \<Longrightarrow> chat_step e d d'"
| step_workspace: "set_session_workspace now s v w d = Inr (y, d') \<Longrightarrow> chat_step e d d'"
| step_mode: "set_session_chat_mode now s v mode d = Inr (y, d') \<Longrightarrow> chat_step e d d'"
| step_delete: "chat_step e d (snd (delete_sessions now v i days d))"

inductive chat_reachable :: "chat_env \<Rightarrow> chat_db \<Rightarrow> bool" for e where
  reach_empty: "chat_reachable e empty_chat_db"
| reach_step: "chat_reachable e d \<Longrightarrow> chat_step e d d' \<Longrightarrow> chat_reachable e d'"

lemma store_ok_step:
  assumes "chat_step e d d'" "codec_ok e" "store_ok e d" shows "store_ok e d'"
  using assms(1)
proof cases
  case (step_ensure now s v p x)
  then show ?thesis using store_ok_ensure assms(3) by (auto simp: ensure_session_def cbind_eq_Inr split: option.splits)
next
  case (step_add now s v ms idx)
  then show ?thesis using store_ok_add_messages assms by blast
next
  case (step_replace now s v ms u y)
  then show ?thesis using store_ok_replace assms by blast
next
  case (step_checkpoint now s v cid kind source before t summary hist os metadata u expected row)
  then show ?thesis using store_ok_checkpoint assms by blast
next
  case (step_fork now uuid src new v t title u n)
  then show ?thesis using store_ok_fork assms by blast
next
  case (step_event now s v cid name kind args result_text metadata ref y)
  then show ?thesis using store_ok_tool_event assms by blast
next
  case (step_favorite s v b)
  then show ?thesis using settings_tables(1) store_ok_same_tables assms by blast
next
  case (step_title s v title)
  then show ?thesis using settings_tables(2) store_ok_same_tables assms by blast
next
  case (step_metadata now s v u r a y)
  then show ?thesis using settings_tables(3) store_ok_same_tables assms by blast
next
  case (step_workspace now s v w y)
  then show ?thesis using settings_tables(4) store_ok_same_tables assms by blast
next
  case (step_mode now s v mode y)
  then show ?thesis using settings_tables(3) store_ok_same_tables assms unfolding set_session_chat_mode_def by blast
next
  case (step_delete now v i days)
  then show ?thesis using store_ok_delete assms by blast
qed

lemma store_ok_reachable: "chat_reachable e d \<Longrightarrow> codec_ok e \<Longrightarrow> store_ok e d"
  by (induction rule: chat_reachable.induct) (auto simp: store_ok_empty intro: store_ok_step)

section \<open>Reading\<close>

lemma raw_readable: "store_ok e d \<Longrightarrow> \<exists>ms. fetch_raw_messages e s v limit None None d = Inr ms"
proof -
  assume "store_ok e d"
  then have "list_all (row_ok e) (messages_of s v d)" using store_session_rows by (auto simp: session_rows_ok_def)
  then have "list_all (row_ok e) (case limit of None \<Rightarrow> messages_of s v d | Some n \<Rightarrow> newest n (messages_of s v d))"
    by (auto simp: list_all_iff newest_def split: option.split dest: in_set_dropD)
  then show ?thesis by (simp add: fetch_raw_messages_def cmap_rows Let_def)
qed

lemma effective_limit:
  assumes "store_ok e d" shows "\<exists>ms. fetch_effective_messages e s v limit d = Inr ms"
proof (cases "latest_context_checkpoint s v d")
  case None
  then show ?thesis using raw_readable [OF assms] by (simp add: fetch_effective_messages_def)
next
  case (Some c)
  with effective_readable [OF assms, of s v] show ?thesis
    by (auto simp: fetch_effective_messages_def cbind_eq_Inr Let_def)
qed

text \<open>
  C8. Whatever operations the store has run, the raw and the effective history of every session can be read, with any
  limit: no row is corrupt and the replacement history of every checkpoint passes the validation of its origins.
\<close>

theorem stored_history_readable:
  assumes "codec_ok e" "chat_reachable e d"
  shows "(\<exists>ms. fetch_messages e s v limit ''effective'' d = Inr ms) \<and> (\<exists>ms. fetch_messages e s v limit ''raw'' d = Inr ms)"
  using raw_readable effective_limit store_ok_reachable [OF assms(2,1)]
  by (simp add: fetch_messages_def history_mode_of_def)

section \<open>Adding messages\<close>

lemma new_row_message:
  "codec_ok e \<Longrightarrow> row_message e (new_row e now s v (k, i, m)) = message_for_persistence (ce_persist_reasoning e) m"
  by (simp add: row_message_def new_row_def Let_def codec_okD split: prod.split)

lemma new_rows_stored:
  assumes "codec_ok e"
  shows "map sm_message (map (stored_of_row e) (map (new_row e now s v) (List.enumerate k (numbered i ms)))) = map (message_for_persistence (ce_persist_reasoning e)) ms"
    "map sm_sequence_index (map (stored_of_row e) (map (new_row e now s v) (List.enumerate k (numbered i ms)))) = map fst (numbered i ms)"
proof -
  have "map (\<lambda>x. sm_message (stored_of_row e (new_row e now s v x))) (List.enumerate k xs) =
      map (\<lambda>x. message_for_persistence (ce_persist_reasoning e) (snd x)) xs"
    "map (\<lambda>x. sm_sequence_index (stored_of_row e (new_row e now s v x))) (List.enumerate k xs) = map fst xs" for xs
    by (induction xs arbitrary: k) (auto simp: stored_of_row_def new_row_message [OF assms(1)])
  note enum = this [of "numbered i ms"]
  have "map (\<lambda>x. message_for_persistence (ce_persist_reasoning e) (snd x)) (numbered i ms) =
      map (message_for_persistence (ce_persist_reasoning e)) (map snd (numbered i ms))" by (simp add: comp_def)
  with enum show "map sm_message (map (stored_of_row e) (map (new_row e now s v) (List.enumerate k (numbered i ms)))) =
      map (message_for_persistence (ce_persist_reasoning e)) ms"
    "map sm_sequence_index (map (stored_of_row e) (map (new_row e now s v) (List.enumerate k (numbered i ms)))) = map fst (numbered i ms)"
    by (simp_all add: comp_def numbered_simps)
qed

lemma appended_effective:
  assumes "store_ok e d" "store_ok e d'" "appended s v news d d'"
  shows "\<exists>old. fetch_effective_messages e s v None d = Inr old \<and>
    fetch_effective_messages e s v None d' = Inr (old @ map (stored_of_row e) news)"
proof -
  have rows: "messages_of s v d' = messages_of s v d @ news" using appended_messages [OF assms(3), of s v] by simp
  have "session_checkpoints s v d' = session_checkpoints s v d" using assms(3) by (simp add: session_checkpoints_def appended_def)
  then have latest: "latest_context_checkpoint s v d' = latest_context_checkpoint s v d"
    by (simp add: latest_checkpoint_last [OF assms(1)] latest_checkpoint_last [OF assms(2)])
  show ?thesis
  proof (cases "latest_context_checkpoint s v d")
    case None
    then show ?thesis by (simp add: effective_history [OF assms(1) assms(1)] effective_history [OF assms(2) assms(2)] latest rows)
  next
    case (Some c)
    note ok = latest_checkpoint_ok [OF assms(1) Some]
    then obtain ms where ms: "checkpoint_replacement_messages e c s v d = Inr ms"
      by (auto simp: checkpoint_ok_def replacement_readable_def split: sum.splits)
    have bound: "ck_last_message_sequence_index c \<le> highest_message_sequence_index s v d"
      using ok by (auto simp: checkpoint_ok_def)
    have "checkpoint_replacement_messages e c s v d' = Inr ms"
      using appended_agree [OF assms(3) bound] ms store_session_rows [OF assms(1)] store_session_rows [OF assms(2)]
      by (intro replacement_agree [of e s v d s v d' c]) auto
    moreover have "after_index (ck_last_message_sequence_index c) news = news"
      using assms(3) bound by (auto simp: after_index_def appended_def list_all_iff intro!: filter_True)
    ultimately show ?thesis using Some ms
      by (simp add: effective_history [OF assms(1) assms(1)] effective_history [OF assms(2) assms(2)] latest rows after_index_def)
  qed
qed

lemma same_tables_effective:
  assumes "same_tables d d'" shows "fetch_effective_messages e s v None d' = fetch_effective_messages e s v None d"
proof -
  have "messages_of s v d' = messages_of s v d" using assms by (rule same_tables_messages)
  moreover have "latest_context_checkpoint s v d' = latest_context_checkpoint s v d"
    using assms by (simp add: latest_context_checkpoint_def same_tables_def)
  ultimately show ?thesis
    unfolding fetch_effective_messages_def by (simp add: fetch_cong [of s v d' d] replacement_cong(1) [of s v d' d] split: option.split)
qed

text \<open>
  C20. Messages that are added to a session come last in its effective history, whatever was compacted before, in the form in
  which they are persisted and under the numbers that the call returns; nothing of the history before is lost or changed.
\<close>

theorem added_messages_extend_history:
  assumes "codec_ok e" "chat_reachable e d" "add_messages e now s v ms d = Inr (idx, d')"
  shows "\<exists>old new. fetch_messages e s v None ''effective'' d = Inr old \<and> fetch_messages e s v None ''effective'' d' = Inr (old @ new) \<and>
    map sm_message new = map (message_for_persistence (ce_persist_reasoning e)) ms \<and> map sm_sequence_index new = idx"
proof -
  have ok: "store_ok e d" "store_ok e d'"
    using store_ok_reachable [OF assms(2,1)] store_ok_add_messages assms(1,3) by blast+
  obtain d1 d2 news where steps: "same_tables d d1" "appended s v news d1 d2" "same_tables d2 d'"
    and news: "news = map (new_row e now s v) (List.enumerate (Suc (cd_last_message_id d)) (numbered (next_sequence_index s v d) ms))"
    using add_messages_appended [OF ok(1) assms(1,3)] by blast
  have idx: "idx = map fst (numbered (next_sequence_index s v d) ms)"
  proof (cases "ms = []")
    case False
    then obtain db where "upsert_session now s v None d = Inr db" "idx = map fst (numbered (next_sequence_index s v db) ms)"
      using assms(3) by (auto simp: add_messages_def cbind_eq_Inr Let_def)
    then show ?thesis using upsert_existing [of now s v d db] by (simp add: next_sequence_index_def same_tables_messages [of d db])
  qed (use assms(3) in \<open>simp add: add_messages_def numbered_def\<close>)
  have ok1: "store_ok e d1" using store_ok_same_tables [OF steps(1) ok(1)] .
  have "same_tables d' d2" using steps(3) by (simp add: same_tables_def)
  then have ok2: "store_ok e d2" using store_ok_same_tables ok(2) by blast
  from appended_effective [OF ok1 ok2 steps(2)] show ?thesis
    using new_rows_stored [OF assms(1)] unfolding idx news
    by (auto simp: fetch_messages_def history_mode_of_def same_tables_effective [OF steps(1)] same_tables_effective [OF steps(3)])
qed

section \<open>Forks\<close>

text \<open>
  C7. A fork gives the new session the canonical messages of the source up to the fork point, and the effective history that the
  source would have had with these messages and the checkpoints that had seen no later one; if the source once ended at the
  fork point, and nothing of it was replaced or deleted since and every checkpoint written since has seen later messages, this
  is the history, raw and effective, that it had there. The messages, history, tool events and record of every other session
  stay as they were.
\<close>

theorem fork_isolated:
  assumes "codec_ok e" "chat_reachable e d" "fork_session e now uuid src new v t title u d = Inr (n, d')"
  shows "find_session_by_id new d = None \<and>
    fetch_messages e new v None ''raw'' d' = fetch_raw_messages e src v None None (Some t) d \<and>
    fetch_messages e new v None ''effective'' d' = fetch_messages e src v None ''effective'' (truncated_session src v t d) \<and>
    (\<forall>d0. source_stood_at src v t d0 d \<longrightarrow>
      fetch_messages e new v None ''raw'' d' = fetch_messages e src v None ''raw'' d0 \<and>
      fetch_messages e new v None ''effective'' d' = fetch_messages e src v None ''effective'' d0) \<and>
    (\<forall>s' v'. s' \<noteq> new \<longrightarrow> messages_of s' v' d' = messages_of s' v' d \<and>
      fetch_messages e s' v' None ''effective'' d' = fetch_messages e s' v' None ''effective'' d \<and>
      tool_events_of s' v' d' = tool_events_of s' v' d \<and> find_session s' v' d' = find_session s' v' d)"
proof -
  have ok: "store_ok e d" using store_ok_reachable [OF assms(2,1)] .
  obtain cs where fork: "store_ok e d'" "new \<notin> fst ` set (session_keys d)" "eligible_checkpoints src v t d = Inr cs"
      "forked src new v t cs d d'"
    using store_ok_fork [OF ok assms(3)] by blast
  have "same_content (filter (\<lambda>r. mr_sequence_index r \<le> t) (messages_of src v d)) (messages_of new v d')"
    using fork(4) unfolding forked_def by blast
  then have raw: "fetch_raw_messages e new v None None None d' = fetch_raw_messages e src v None None (Some t) d"
    using same_content_stored by (simp add: fetch_all_rows [OF store_session_rows [OF fork(1)]] fetch_rows [OF store_session_rows [OF ok]])
  note effective = forked_effective [OF ok fork]
  have earlier: "fetch_raw_messages e new v None None None d' = fetch_raw_messages e src v None None None d0 \<and>
      fetch_effective_messages e new v None d' = fetch_effective_messages e src v None d0" if "source_stood_at src v t d0 d" for d0
  proof -
    have distinct: "distinct (map mr_sequence_index (messages_of src v d))"
      using store_session_rows [OF ok] by (simp add: session_rows_ok_def)
    note same = stood_at_truncated [OF that distinct]
    have "session_rows_ok e src v d0"
      using store_session_rows [OF ok, of src v] unfolding session_rows_ok_def same(1) [symmetric] truncated_messages
      by (auto simp: list_all_iff distinct_map_filter)
    then have "fetch_raw_messages e src v None None None d0 = fetch_raw_messages e src v None None (Some t) d"
      by (simp add: fetch_all_rows fetch_rows [OF store_session_rows [OF ok]] same(1) [symmetric] truncated_messages)
    with raw effective effective_cong [OF same] show ?thesis by simp
  qed
  with fork(2) raw effective forked_others [OF ok fork(1,4)] show ?thesis
    by (simp add: fetch_messages_def history_mode_of_def find_by_id)
qed

section \<open>When a fork succeeds\<close>

lemma copy_checkpoints_succeed:
  assumes "distinct (map uuid [k..<k + length cs])" "list_all (\<lambda>i. uuid i \<notin> ck_checkpoint_id ` set (cd_checkpoints d)) [k..<k + length cs]"
  shows "\<exists>d'. copy_checkpoints src new v uuid (List.enumerate k cs) d = Inr d'"
  using assms
proof (induction cs arbitrary: k d)
  case (Cons c cs)
  have upt: "[k..<k + length (c # cs)] = k # [Suc k..<Suc k + length cs]" using upt_conv_Cons [of k "k + length (c # cs)"] by simp
  obtain d1 where d1: "copy_checkpoint src new v uuid (k, c) d = Inr d1"
    "ck_checkpoint_id ` set (cd_checkpoints d1) = insert (uuid k) (ck_checkpoint_id ` set (cd_checkpoints d))"
    using Cons.prems(2) unfolding upt by (auto simp: copy_checkpoint_def Let_def)
  have "\<exists>d'. copy_checkpoints src new v uuid (List.enumerate (Suc k) cs) d1 = Inr d'"
  proof (rule Cons.IH)
    have tail: "uuid k \<notin> uuid ` set [Suc k..<Suc k + length cs]" "distinct (map uuid [Suc k..<Suc k + length cs])"
      using Cons.prems(1) unfolding upt list.map distinct.simps set_map by blast+
    show "distinct (map uuid [Suc k..<Suc k + length cs])" by (rule tail)
    have "list_all (\<lambda>i. uuid i \<notin> ck_checkpoint_id ` set (cd_checkpoints d)) [Suc k..<Suc k + length cs]"
      using Cons.prems(2) unfolding upt by (simp only: list.pred_inject)
    with tail(1) show "list_all (\<lambda>i. uuid i \<notin> ck_checkpoint_id ` set (cd_checkpoints d1)) [Suc k..<Suc k + length cs]"
      unfolding list_all_iff d1(2) by (metis image_eqI insertE)
  qed
  with d1(1) show ?case by simp
qed simp

lemma safe_events_readable:
  assumes "list_all (row_ok e) (messages_of s v d)" shows "\<exists>events. safe_tool_events e s v messages d = Inr events"
proof -
  have "\<exists>counts. tool_call_declaration_counts e s v ids d = Inr counts" for ids
    by (simp add: tool_call_declaration_counts_def cmap_rows(2) [OF assms] Let_def)
  then show ?thesis by (auto simp: safe_tool_events_def Let_def cbind_eq_Inr)
qed

text \<open>Nothing else can stop a fork: the points the store offers, with fresh identifiers, can be forked.\<close>

lemma fork_succeeds:
  assumes "codec_ok e" "chat_reachable e d" "find_session src v d = Some source" "find_session_by_id new d = None"
    and m: "fetch_raw_messages e src v None None (Some t) d = Inr messages" "messages \<noteq> []" "sm_sequence_index (last messages) = t"
      "t \<in> canonical_assistant_fork_points messages"
    and c: "eligible_checkpoints src v t d = Inr cs"
    and u: "distinct (map uuid [0..<length cs])" "list_all (\<lambda>i. uuid i \<notin> ck_checkpoint_id ` set (cd_checkpoints d)) [0..<length cs]"
  shows "\<exists>d'. fork_session e now uuid src new v t title u d = Inr (length messages, d')"
proof -
  have ok: "store_ok e d" using store_ok_reachable [OF assms(2,1)] .
  have src: "st_session_id source = src" "source \<in> set (cd_sessions d)" using assms(3) by (auto simp: find_session_def find_Some_iff)
  then have src_new: "src \<noteq> new" using assms(4) by (auto simp: find_session_by_id_def find_None_iff)
  have readable: "\<exists>ms. checkpoint_replacement_messages e c src v d = Inr ms" if "c \<in> set cs" for c
  proof -
    note bound = eligible_checkpoints_bound [OF c that]
    have "checkpoint_ok e d c" using bound(1) ok by (auto simp: store_ok_def list_all_iff)
    then show ?thesis using bound by (auto simp: checkpoint_ok_def replacement_readable_def split: sum.splits)
  qed
  then have "\<exists>x. cmap (\<lambda>c. checkpoint_replacement_messages e c src v d) cs = Inr x"
    by (induction cs) (auto simp: cbind_eq_Inr)
  moreover have "\<exists>d'. copy_session e now uuid source new v title metadata record_of_fork messages cs d = Inr (length messages, d')"
    for metadata record_of_fork
  proof -
    define d2 where "d2 = fold (copy_message new v) messages (d\<lparr>cd_sessions := cd_sessions d @ [new_session_row now source new v title
      (dict_update metadata [(''fork'', JDict record_of_fork)])]\<rparr>)"
    have "r \<in> set (cd_messages d)" if "r \<in> set (messages_of src v d2)" for r
    proof -
      have "list_all (\<lambda>r. mr_session_id r = new) (map (copied_row new v) xs)" for xs by (auto simp: list_all_iff)
      then show ?thesis using that src_new unfolding list_all_iff by (auto simp: d2_def fold_copy_message set_messages_of simp del: set_map)
    qed
    then have "list_all (row_ok e) (messages_of src v d2)" using ok by (auto simp: list_all_iff store_ok_def messages_ok_def)
    then obtain events where events: "safe_tool_events e src v messages d2 = Inr events" using safe_events_readable by blast
    have "cd_checkpoints (fold (insert_tool_event new v) events d2) = cd_checkpoints d"
      by (simp add: d2_def fold_copy_message fold_insert_events)
    then obtain d4 where "copy_checkpoints src new v uuid (List.enumerate 0 cs) (fold (insert_tool_event new v) events d2) = Inr d4"
      using copy_checkpoints_succeed [of uuid 0 cs "fold (insert_tool_event new v) events d2" src new v] u by auto
    moreover have "\<exists>x. latest_checkpoint_metadata uuid cs = Inr x"
    proof (cases "cs = []")
      case False
      have "last cs \<in> set (checkpoint_rows src v d)" using last_in_set [OF False] eligible_visible(1) [OF c] by simp
      then have "\<exists>b. checkpoint_observation_boundary (last cs) = Inr b" using eligible_visible(2) [OF c] by (simp add: list_all_iff)
      then show ?thesis by (auto simp: latest_checkpoint_metadata_def Let_def cbind_eq_Inr of_py_eq_Inr)
    qed (simp add: latest_checkpoint_metadata_def)
    ultimately show ?thesis
      using assms(4) events [unfolded d2_def] unfolding d2_def by (auto simp: copy_session_def src(1) new_session_row_def cbind_eq_Inr Let_def)
  qed
  ultimately show ?thesis
    using m by (auto simp: fork_session_def assms(3) c Let_def)
qed

end
