(* ===== verification/Chat_History_Run.thy ===== *)
theory Chat_History_Run
  imports Chat_History_Props
begin

text \<open>
  A run of the chat store with any serialization that satisfies the contract: a session with an exchange, its compaction, a
  second exchange and a fork at the end of the first.
\<close>

definition wit_part :: "part_kind \<Rightarrow> string \<Rightarrow> string option \<Rightarrow> message_part" where
  "wit_part k t i = \<lparr>mp_kind = k, mp_content = TextContent t, mp_tool_name = (if i = None then None else Some ''f''), mp_tool_call_id = i,
     mp_item_id = None\<rparr>"

definition wit_messages :: "model_message list" where
  "wit_messages =
     [\<lparr>mm_type = ModelRequest, mm_parts = [wit_part UserPrompt ''q'' None], mm_other = []\<rparr>,
      \<lparr>mm_type = ModelResponse, mm_parts = [wit_part ToolCall [] (Some ''c'')], mm_other = []\<rparr>,
      \<lparr>mm_type = ModelRequest, mm_parts = [wit_part ToolReturn ''r'' (Some ''c'')], mm_other = []\<rparr>,
      \<lparr>mm_type = ModelResponse, mm_parts = [wit_part TextPart ''a'' None], mm_other = []\<rparr>]"

definition wit_summary :: model_message where
  "wit_summary = \<lparr>mm_type = ModelRequest, mm_parts = [wit_part UserPrompt ''s'' None], mm_other = []\<rparr>"

definition wit_db :: "message_row list \<Rightarrow> StoredContextCheckpoint list \<Rightarrow> timestamp \<Rightarrow> string option \<Rightarrow> nat \<Rightarrow> nat \<Rightarrow> chat_db" where
  "wit_db rows checkpoints now m k c =
     \<lparr>cd_sessions = [\<lparr>st_session_id = ''a'', st_vault_name = ''v'', st_owner_principal_id = ''u'', st_created_at = 1,
        st_last_activity_at = now, st_title = None, st_metadata_json = m\<rparr>],
      cd_messages = rows, cd_tool_events = [], cd_checkpoints = checkpoints, cd_last_message_id = k, cd_last_event_id = 0,
      cd_last_checkpoint_id = c\<rparr>"

definition wit_rows :: "chat_env \<Rightarrow> timestamp \<Rightarrow> nat \<Rightarrow> message_row list" where
  "wit_rows e now k = map (new_row e now ''a'' ''v'') (List.enumerate (Suc k) (numbered (int k) wit_messages))"

definition wit_checkpoint :: "chat_env \<Rightarrow> StoredContextCheckpoint" where
  "wit_checkpoint e = checkpoint_row e 3 1 ''k'' ''a'' ''v'' ''recovery_card'' ''auto'' 4 3 wit_summary [wit_summary, wit_messages ! 3]
     (Some [None, Some 3]) None"

lemma wit_stage1: "ensure_session 1 ''a'' ''v'' ''u'' empty_chat_db = Inr (hd (cd_sessions (wit_db [] [] 1 None 0 0)), wit_db [] [] 1 None 0 0)"
  by code_simp

lemma wit_db_simps [simp]:
  "cd_checkpoints (wit_db rows cs t m k c) = cs" "cd_last_checkpoint_id (wit_db rows cs t m k c) = c"
  "cd_messages (wit_db rows cs t m k c) = rows" "cd_last_message_id (wit_db rows cs t m k c) = k"
  "(wit_db rows cs t m k c)\<lparr>cd_last_checkpoint_id := c', cd_checkpoints := cs'\<rparr> = wit_db rows cs' t m k c'"
  "(wit_db rows cs t m k c)\<lparr>cd_checkpoints := cs', cd_last_checkpoint_id := c'\<rparr> = wit_db rows cs' t m k c'"
  by (simp_all add: wit_db_def)

lemma wit_upsert: "upsert_session now ''a'' ''v'' None (wit_db rows cs t m k c) = Inr (wit_db rows cs now m k c)"
proof -
  have "normalize_principal_id ''u'' = Inr ''u''" by code_simp
  then show ?thesis
    by (simp add: upsert_session_def find_session_by_id_def wit_db_def update_session_def of_py_def)
qed

lemma wit_touch: "\<exists>m'. touch_session now ''a'' ''v'' u True (wit_db rows cs t m k c) = wit_db rows cs now (Some m') k c"
  by (simp add: touch_session_def update_session_def wit_db_def Let_def)

lemma wit_row_facts:
  "list_all (\<lambda>r. mr_session_id r = ''a'' \<and> mr_vault_name r = ''v'') (wit_rows e now k)"
  "map mr_sequence_index (wit_rows e now k) = [int k, int k + 1, int k + 2, int k + 3]"
  "length (wit_rows e now k) = 4"
  by (simp_all add: wit_rows_def numbered_def wit_messages_def upt_conv_Cons)

lemma wit_fold_rows:
  "fold (insert_message e now ''a'' ''v'') (numbered (int k) wit_messages) (wit_db rows cs t m k c) =
    wit_db (rows @ wit_rows e now k) cs t m (k + 4) c"
proof -
  have "length wit_messages = 4" by (simp add: wit_messages_def)
  then show ?thesis unfolding fold_insert_message wit_rows_def by (simp add: wit_db_def numbered_simps(1))
qed

lemma wit_stage2: "\<exists>m'. add_messages e 2 ''a'' ''v'' wit_messages (wit_db [] [] t m 0 0) = Inr ([0, 1, 2, 3], wit_db (wit_rows e 2 0) [] 2 (Some m') 4 0)"
proof -
  have "next_sequence_index ''a'' ''v'' (wit_db [] [] 2 m 0 0) = int 0" by (simp add: next_sequence_index_def messages_of_def wit_db_def)
  moreover have "map fst (numbered (int 0) wit_messages) = [0, 1, 2, 3]" by (simp add: numbered_def wit_messages_def upt_conv_Cons)
  moreover have "wit_messages \<noteq> []" by (simp add: wit_messages_def)
  ultimately show ?thesis
    using wit_touch [of 2 "[]" "[] @ wit_rows e 2 0" "[]" 2 m "0 + 4" 0] wit_fold_rows [of e 2 0 "[]" "[]" 2 m 0]
    by (auto simp: add_messages_def wit_upsert)
qed


definition wit_ok :: "chat_env \<Rightarrow> bool" where
  "wit_ok e \<longleftrightarrow> codec_ok e \<and> ce_persist_reasoning e"

lemma wit_messages_of:
  assumes "list_all (\<lambda>r. mr_session_id r = ''a'' \<and> mr_vault_name r = ''v'') rows" "sorted (map mr_sequence_index rows)"
  shows "messages_of ''a'' ''v'' (wit_db rows cs t m k c) = rows"
proof -
  have "filter (\<lambda>m. mr_session_id m = ''a'' \<and> mr_vault_name m = ''v'') rows = rows" using assms(1) by (auto simp: list_all_iff intro!: filter_True)
  then show ?thesis using assms(2) by (simp add: messages_of_def wit_db_def sort_key_id_if_sorted)
qed

lemma wit_rows_of: "messages_of ''a'' ''v'' (wit_db (wit_rows e 2 0) cs t m k c) = wit_rows e 2 0"
  by (rule wit_messages_of) (simp_all add: wit_row_facts)

lemma wit_more_rows_of:
  "messages_of ''a'' ''v'' (wit_db (wit_rows e 2 0 @ wit_rows e 4 4) cs t m k c) = wit_rows e 2 0 @ wit_rows e 4 4"
  by (rule wit_messages_of) (simp_all add: wit_row_facts)

lemma wit_rows_ok: "wit_ok e \<Longrightarrow> list_all (row_ok e) (wit_rows e now k)"
  by (auto simp: wit_ok_def wit_rows_def list_all_iff new_row_ok)

lemma wit_session_rows:
  assumes "wit_ok e"
  shows "session_rows_ok e ''a'' ''v'' (wit_db (wit_rows e 2 0) cs t m k c)"
    "session_rows_ok e ''a'' ''v'' (wit_db (wit_rows e 2 0 @ wit_rows e 4 4) cs t m k c)"
  using wit_rows_ok [OF assms] by (simp_all add: session_rows_ok_def wit_rows_of wit_more_rows_of wit_row_facts)

text \<open>The loaded rows: the messages as they were added, since reasoning is persisted.\<close>

lemma wit_stored:
  assumes "wit_ok e"
  shows "map sm_message (map (stored_of_row e) (wit_rows e now k)) = wit_messages"
    "map sm_sequence_index (map (stored_of_row e) (wit_rows e now k)) = [int k, int k + 1, int k + 2, int k + 3]"
proof -
  have "message_for_persistence (ce_persist_reasoning e) = (\<lambda>m. m)"
    using assms by (simp add: fun_eq_iff message_for_persistence_def wit_ok_def)
  then show "map sm_message (map (stored_of_row e) (wit_rows e now k)) = wit_messages"
    using new_rows_stored(1) [of e now "''a''" "''v''" "Suc k" "int k" wit_messages] assms by (simp add: wit_rows_def wit_ok_def)
  show "map sm_sequence_index (map (stored_of_row e) (wit_rows e now k)) = [int k, int k + 1, int k + 2, int k + 3]"
    using wit_row_facts(2) [of e now k] by (simp add: stored_of_row_def comp_def)
qed

lemma wit_row_list:
  assumes "wit_ok e"
  obtains r0 r1 r2 r3 where "wit_rows e now k = [r0, r1, r2, r3]" "mr_sequence_index r0 = int k" "mr_sequence_index r1 = int k + 1"
    "mr_sequence_index r2 = int k + 2" "mr_sequence_index r3 = int k + 3"
    "row_message e r0 = wit_messages ! 0" "row_message e r1 = wit_messages ! 1" "row_message e r2 = wit_messages ! 2" "row_message e r3 = wit_messages ! 3"
proof -
  obtain r0 r1 r2 r3 where rows: "wit_rows e now k = [r0, r1, r2, r3]"
    using wit_row_facts(3) [of e now k] by (auto simp: length_Suc_conv numeral_eq_Suc)
  have messages: "wit_messages = [row_message e r0, row_message e r1, row_message e r2, row_message e r3]"
    using wit_stored(1) [OF assms, of now k] by (simp add: rows stored_of_row_def)
  have "row_message e r0 = wit_messages ! 0" "row_message e r1 = wit_messages ! 1" "row_message e r2 = wit_messages ! 2"
    "row_message e r3 = wit_messages ! 3" unfolding messages by simp_all
  with rows wit_row_facts(2) [of e now k] show ?thesis by (intro that [of r0 r1 r2 r3]) simp_all
qed

lemma wit_valid_origins:
  assumes "wit_ok e" "rows = wit_rows e 2 0 \<or> rows = wit_rows e 2 0 @ wit_rows e 4 4"
  shows "validate_checkpoint_replacement_origins e ''a'' ''v'' [wit_summary, wit_messages ! 3] (origins_json [None, Some 3]) 3
    (wit_db rows cs t m k c) = Inr [None, Some 3]"
proof -
  obtain r0 r1 r2 r3 where r: "wit_rows e 2 0 = [r0, r1, r2, r3]" "mr_sequence_index r0 = 0" "mr_sequence_index r1 = 1"
    "mr_sequence_index r2 = 2" "mr_sequence_index r3 = 3" "row_message e r3 = wit_messages ! 3"
    using wit_row_list [OF assms(1), of 2 0] by (metis add_0 of_nat_0)
  have "filter (\<lambda>r. 2 < mr_sequence_index r \<and> mr_sequence_index r \<le> 3) (wit_rows e 4 4) = []"
    using wit_row_facts(2) [of e 4 4] wit_row_list [OF assms(1), of 4 4] by fastforce
  then have "filter (\<lambda>r. 2 < mr_sequence_index r \<and> mr_sequence_index r \<le> 3) rows = [r3]" using assms(2) r by auto
  moreover have "messages_of ''a'' ''v'' (wit_db rows cs t m k c) = rows" "session_rows_ok e ''a'' ''v'' (wit_db rows cs t m k c)"
    using assms(2) wit_session_rows [OF assms(1), of cs t m k c] by (elim disjE; simp add: wit_rows_of wit_more_rows_of)+
  ultimately have "fetch_raw_messages e ''a'' ''v'' None (Some 2) (Some 3) (wit_db rows cs t m k c) = Inr [stored_of_row e r3]"
    by (simp add: fetch_rows)
  then show ?thesis
    by (simp add: validate_checkpoint_replacement_origins_def aligned_checkpoint_replacement_origins_def origins_json_def of_py_def
        stored_of_row_def r(5,6))
qed

lemma wit_stage3:
  assumes "wit_ok e"
  shows "\<exists>m'. add_context_checkpoint e 3 ''a'' ''v'' ''k'' ''recovery_card'' ''auto'' 4 3 wit_summary
    [wit_summary, wit_messages ! 3] (Some [None, Some 3]) None [] None (wit_db (wit_rows e 2 0) [] 2 m 4 0) =
    Inr (wit_checkpoint e, wit_db (wit_rows e 2 0) [wit_checkpoint e] 3 (Some m') 4 1)"
proof -
  have p: "message_for_persistence (ce_persist_reasoning e) x = x" for x using assms by (simp add: message_for_persistence_def wit_ok_def)
  have aligned: "of_py (aligned_checkpoint_replacement_origins (Suc (Suc 0)) (origins_json [None, Some 3])) = Inr [None, Some 3]" by code_simp
  have row: "wit_checkpoint e = \<lparr>ck_id = Suc 0, ck_checkpoint_id = ''k'', ck_session_id = ''a'', ck_vault_name = ''v'', ck_created_at = 3,
      ck_source = ''auto'', ck_checkpoint_kind = ''recovery_card'', ck_message_count_before = 4, ck_last_message_sequence_index = 3,
      ck_summary_message_json = ce_dump e wit_summary, ck_replacement_history_json = ce_dump_list e [wit_summary, wit_messages ! 3],
      ck_replacement_source_sequence_indexes_json = Some (json_dumps True (origins_json [None, Some 3])), ck_metadata_json = None\<rparr>"
    by (simp add: wit_checkpoint_def checkpoint_row_def p)
  obtain m' where touch: "touch_session 3 ''a'' ''v'' [] True (wit_db (wit_rows e 2 0) [wit_checkpoint e] 3 m 4 (Suc 0)) =
      wit_db (wit_rows e 2 0) [wit_checkpoint e] 3 (Some m') 4 1"
    using wit_touch [of 3 "[]" "wit_rows e 2 0" "[wit_checkpoint e]" 3 m 4 "Suc 0"] by auto
  show ?thesis
    using touch wit_valid_origins [OF assms, of "wit_rows e 2 0" "[]" 3 m 4 0]
    by (auto simp: add_context_checkpoint_def wit_upsert p aligned row [symmetric] Let_def)
qed


lemma wit_stage4:
  "\<exists>m'. add_messages e 4 ''a'' ''v'' wit_messages (wit_db (wit_rows e 2 0) cs t m 4 1) =
    Inr ([4, 5, 6, 7], wit_db (wit_rows e 2 0 @ wit_rows e 4 4) cs 4 (Some m') 8 1)"
proof -
  have "map mr_sequence_index (messages_of ''a'' ''v'' (wit_db (wit_rows e 2 0) cs 4 m 4 1)) = [0, 1, 2, 3]"
    using wit_row_facts(2) [of e 2 0] by (simp add: wit_rows_of)
  then have "next_sequence_index ''a'' ''v'' (wit_db (wit_rows e 2 0) cs 4 m 4 1) = int 4" by (simp add: next_sequence_index_def)
  moreover have "map fst (numbered (int 4) wit_messages) = [4, 5, 6, 7]" by (simp add: numbered_def wit_messages_def upt_conv_Cons)
  moreover have "wit_messages \<noteq> []" by (simp add: wit_messages_def)
  ultimately show ?thesis
    using wit_touch [of 4 "[]" "wit_rows e 2 0 @ wit_rows e 4 4" cs 4 m "4 + 4" 1] wit_fold_rows [of e 4 4 "wit_rows e 2 0" cs 4 m 1]
    by (auto simp: add_messages_def wit_upsert)
qed

section \<open>The run with the JSON serialization\<close>

definition wit_env :: chat_env where
  "wit_env = json_env True"

lemma wit_env_ok: "wit_ok wit_env"
  by (simp add: wit_ok_def wit_env_def codec_json_env) (simp add: json_env_def)

definition wit_d1 :: chat_db where
  "wit_d1 = snd (projr (ensure_session 1 ''a'' ''v'' ''u'' empty_chat_db))"

definition wit_d2 :: chat_db where
  "wit_d2 = snd (projr (add_messages wit_env 2 ''a'' ''v'' wit_messages wit_d1))"

definition wit_d3 :: chat_db where
  "wit_d3 = snd (projr (add_context_checkpoint wit_env 3 ''a'' ''v'' ''k'' ''recovery_card'' ''auto'' 4 3 wit_summary
     [wit_summary, wit_messages ! 3] (Some [None, Some 3]) None [] None wit_d2))"

definition wit_d4 :: chat_db where
  "wit_d4 = snd (projr (add_messages wit_env 4 ''a'' ''v'' wit_messages wit_d3))"

definition wit_d5 :: chat_db where
  "wit_d5 = snd (projr (fork_session wit_env 5 (\<lambda>_. ''n'') ''a'' ''b'' ''v'' 3 None [] wit_d4))"

lemma wit_dbs:
  shows "wit_d1 = wit_db [] [] 1 None 0 0"
    and "\<exists>m. wit_d2 = wit_db (wit_rows wit_env 2 0) [] 2 (Some m) 4 0"
    and "\<exists>m. wit_d3 = wit_db (wit_rows wit_env 2 0) [wit_checkpoint wit_env] 3 (Some m) 4 1"
    and "\<exists>m. wit_d4 = wit_db (wit_rows wit_env 2 0 @ wit_rows wit_env 4 4) [wit_checkpoint wit_env] 4 (Some m) 8 1"
    and wit_step1: "ensure_session 1 ''a'' ''v'' ''u'' empty_chat_db = Inr (hd (cd_sessions wit_d1), wit_d1)"
    and wit_step2: "add_messages wit_env 2 ''a'' ''v'' wit_messages wit_d1 = Inr ([0, 1, 2, 3], wit_d2)"
    and wit_step3: "add_context_checkpoint wit_env 3 ''a'' ''v'' ''k'' ''recovery_card'' ''auto'' 4 3 wit_summary
      [wit_summary, wit_messages ! 3] (Some [None, Some 3]) None [] None wit_d2 = Inr (wit_checkpoint wit_env, wit_d3)"
    and wit_step4: "add_messages wit_env 4 ''a'' ''v'' wit_messages wit_d3 = Inr ([4, 5, 6, 7], wit_d4)"
proof -
  show d1: "wit_d1 = wit_db [] [] 1 None 0 0" unfolding wit_d1_def wit_stage1 by simp
  show "ensure_session 1 ''a'' ''v'' ''u'' empty_chat_db = Inr (hd (cd_sessions wit_d1), wit_d1)" unfolding d1 by (rule wit_stage1)
  obtain m2 where s2: "add_messages wit_env 2 ''a'' ''v'' wit_messages wit_d1 = Inr ([0, 1, 2, 3], wit_db (wit_rows wit_env 2 0) [] 2 (Some m2) 4 0)"
    using wit_stage2 [of wit_env 1 None] unfolding d1 by blast
  then have d2: "wit_d2 = wit_db (wit_rows wit_env 2 0) [] 2 (Some m2) 4 0" by (simp add: wit_d2_def)
  then show "\<exists>m. wit_d2 = wit_db (wit_rows wit_env 2 0) [] 2 (Some m) 4 0" ..
  show "add_messages wit_env 2 ''a'' ''v'' wit_messages wit_d1 = Inr ([0, 1, 2, 3], wit_d2)" using s2 d2 by simp
  obtain m3 where s3: "add_context_checkpoint wit_env 3 ''a'' ''v'' ''k'' ''recovery_card'' ''auto'' 4 3 wit_summary
      [wit_summary, wit_messages ! 3] (Some [None, Some 3]) None [] None wit_d2 =
      Inr (wit_checkpoint wit_env, wit_db (wit_rows wit_env 2 0) [wit_checkpoint wit_env] 3 (Some m3) 4 1)"
    using wit_stage3 [OF wit_env_ok, of "Some m2"] unfolding d2 by blast
  then have d3: "wit_d3 = wit_db (wit_rows wit_env 2 0) [wit_checkpoint wit_env] 3 (Some m3) 4 1" by (simp add: wit_d3_def)
  then show "\<exists>m. wit_d3 = wit_db (wit_rows wit_env 2 0) [wit_checkpoint wit_env] 3 (Some m) 4 1" ..
  show "add_context_checkpoint wit_env 3 ''a'' ''v'' ''k'' ''recovery_card'' ''auto'' 4 3 wit_summary
      [wit_summary, wit_messages ! 3] (Some [None, Some 3]) None [] None wit_d2 = Inr (wit_checkpoint wit_env, wit_d3)" using s3 d3 by simp
  obtain m4 where s4: "add_messages wit_env 4 ''a'' ''v'' wit_messages wit_d3 =
      Inr ([4, 5, 6, 7], wit_db (wit_rows wit_env 2 0 @ wit_rows wit_env 4 4) [wit_checkpoint wit_env] 4 (Some m4) 8 1)"
    using wit_stage4 [of wit_env "[wit_checkpoint wit_env]" 3 "Some m3"] unfolding d3 by blast
  then have d4: "wit_d4 = wit_db (wit_rows wit_env 2 0 @ wit_rows wit_env 4 4) [wit_checkpoint wit_env] 4 (Some m4) 8 1" by (simp add: wit_d4_def)
  then show "\<exists>m. wit_d4 = wit_db (wit_rows wit_env 2 0 @ wit_rows wit_env 4 4) [wit_checkpoint wit_env] 4 (Some m) 8 1" ..
  show "add_messages wit_env 4 ''a'' ''v'' wit_messages wit_d3 = Inr ([4, 5, 6, 7], wit_d4)" using s4 d4 by simp
qed

lemma wit_reachable: "chat_reachable wit_env wit_d2" "chat_reachable wit_env wit_d3" "chat_reachable wit_env wit_d4"
proof -
  have "messages_of ''a'' ''v'' wit_d2 = wit_rows wit_env 2 0" using wit_dbs(2) wit_rows_of by metis
  then have "set (map mr_sequence_index (messages_of ''a'' ''v'' wit_d2)) = {0, 1, 2, 3}"
    using wit_row_facts(2) [of wit_env 2 0] by (simp del: set_map)
  then have "3 \<in> set (map mr_sequence_index (messages_of ''a'' ''v'' wit_d2))" by blast
  then have high: "3 \<le> highest_message_sequence_index ''a'' ''v'' wit_d2" using le_highest [of _ "''a''" "''v''" wit_d2] by fastforce
  show d2: "chat_reachable wit_env wit_d2"
    using reach_step [OF reach_step [OF reach_empty step_ensure [OF wit_step1]] step_add [OF wit_step2]] .
  show d3: "chat_reachable wit_env wit_d3" using reach_step [OF d2 step_checkpoint [OF wit_step3 high]] .
  show "chat_reachable wit_env wit_d4" using reach_step [OF d3 step_add [OF wit_step4]] .
qed

lemma wit_step5: "fork_session wit_env 5 (\<lambda>_. ''n'') ''a'' ''b'' ''v'' 3 None [] wit_d4 = Inr (4, wit_d5)"
proof -
  obtain m where d4: "wit_d4 = wit_db (wit_rows wit_env 2 0 @ wit_rows wit_env 4 4) [wit_checkpoint wit_env] 4 (Some m) 8 1"
    using wit_dbs(4) by blast
  let ?messages = "map (stored_of_row wit_env) (wit_rows wit_env 2 0)"
  obtain r0 r1 r2 r3 where r: "wit_rows wit_env 2 0 = [r0, r1, r2, r3]" "mr_sequence_index r0 = int 0" "mr_sequence_index r1 = int 0 + 1"
    "mr_sequence_index r2 = int 0 + 2" "mr_sequence_index r3 = int 0 + 3" and r3: "row_message wit_env r3 = wit_messages ! 3" by (rule wit_row_list [OF wit_env_ok, of 2 0])
  obtain q0 q1 q2 q3 where q: "wit_rows wit_env 4 4 = [q0, q1, q2, q3]" "mr_sequence_index q0 = int 4" "mr_sequence_index q1 = int 4 + 1"
    "mr_sequence_index q2 = int 4 + 2" "mr_sequence_index q3 = int 4 + 3" by (rule wit_row_list [OF wit_env_ok, of 4 4])
  have "filter (\<lambda>r. mr_sequence_index r \<le> 3) (wit_rows wit_env 2 0 @ wit_rows wit_env 4 4) = wit_rows wit_env 2 0"
    using r q by simp
  then have fetch: "fetch_raw_messages wit_env ''a'' ''v'' None None (Some 3) wit_d4 = Inr ?messages"
    unfolding d4 using wit_session_rows(2) [OF wit_env_ok] by (simp add: fetch_rows wit_more_rows_of)
  have end3: "sm_sequence_index (last ?messages) = 3" "?messages \<noteq> []" "length ?messages = 4" using r by (simp_all add: stored_of_row_def)
  have complete: "protocol_complete (fold step_message (List.enumerate 0 wit_messages) new_protocol)" by code_simp
  have at3: "sm_fork_sequence_index (?messages ! 3) = Some 3" "map sm_message (take (Suc 3) ?messages) = wit_messages"
      "sm_message (?messages ! 3) = wit_messages ! 3"
    using r r3 wit_stored(1) [OF wit_env_ok, of 2 0] by (simp_all add: stored_of_row_def take_Cons')
  have "ph_issues new_protocol = []" by (simp add: new_protocol_def)
  note points = fork_points_from_analysed [OF this, of 0 ?messages]
  have canonical: "3 \<in> canonical_assistant_fork_points ?messages"
    unfolding canonical_assistant_fork_points_def points mem_Collect_eq
  proof (intro exI [of _ 3] conjI)
    show "protocol_complete (fold step_message (List.enumerate 0 (map sm_message (take (Suc 3) ?messages))) new_protocol)"
      unfolding at3(2) by (rule complete)
    show "mm_type (sm_message (?messages ! 3)) = ModelResponse" unfolding at3(3) by (simp add: wit_messages_def)
  qed (use at3(1) end3(3) in simp_all)
  have eligible: "eligible_checkpoints ''a'' ''v'' 3 wit_d4 = Inr [wit_checkpoint wit_env]"
    unfolding d4 by (simp add: eligible_checkpoints_def checkpoint_rows_def checkpoint_from_row_def checkpoint_observation_boundary_def
      wit_checkpoint_def checkpoint_row_def of_py_def)
  have found: "find_session ''a'' ''v'' wit_d4 = Some (hd (cd_sessions wit_d4))" "find_session_by_id ''b'' wit_d4 = None"
    unfolding d4 by (simp_all add: find_session_def find_session_by_id_def wit_db_def)
  have "list_all (\<lambda>i. ''n'' \<notin> ck_checkpoint_id ` set (cd_checkpoints wit_d4)) [0..<length [wit_checkpoint wit_env]]"
    unfolding d4 by (simp add: wit_checkpoint_def checkpoint_row_def)
  then obtain d5 where "fork_session wit_env 5 (\<lambda>_. ''n'') ''a'' ''b'' ''v'' 3 None [] wit_d4 = Inr (length ?messages, d5)"
    using fork_succeeds [OF _ wit_reachable(3) found fetch end3(2,1) canonical eligible, of "\<lambda>_. ''n''" 5 None "[]"] wit_env_ok
    by (auto simp: wit_ok_def)
  then show ?thesis by (simp add: wit_d5_def end3(3) del: length_map)
qed


section \<open>The properties at this run\<close>

lemma wit_codec: "codec_ok wit_env"
  using wit_env_ok by (simp add: wit_ok_def)

lemma wit_session_ok: "session_rows_ok wit_env ''a'' ''v'' wit_d4"
  using store_session_rows [OF store_ok_reachable [OF wit_reachable(3) wit_codec]] .

lemma compact_fork_points_agree_witness:
  "get_canonical_fork_points_for_sequences wit_env ''a'' ''v'' [1, 3] wit_d4 =
    cbind (fetch_raw_messages wit_env ''a'' ''v'' None None None wit_d4)
      (\<lambda>messages. Inr (set [1, 3] \<inter> canonical_assistant_fork_points messages))"
proof (rule compact_fork_points_agree [OF wit_session_ok])
  obtain m where d4: "wit_d4 = wit_db (wit_rows wit_env 2 0 @ wit_rows wit_env 4 4) [wit_checkpoint wit_env] 4 (Some m) 8 1"
    using wit_dbs(4) by blast
  obtain r0 r1 r2 r3 where r: "wit_rows wit_env 2 0 = [r0, r1, r2, r3]" "mr_sequence_index r1 = int 0 + 1" "mr_sequence_index r3 = int 0 + 3"
    "row_message wit_env r1 = wit_messages ! 1" "row_message wit_env r3 = wit_messages ! 3" by (rule wit_row_list [OF wit_env_ok, of 2 0])
  have "list_all (row_ok wit_env) [r0, r1, r2, r3]" using wit_rows_ok [OF wit_env_ok, of 2 0] r(1) by simp
  then have "mr_message_type r1 = ''ModelResponse''" "mr_message_type r3 = ''ModelResponse''"
    using row_okD(3) [of wit_env r1] row_okD(3) [of wit_env r3] r(4,5) by (simp_all add: message_type_name_def wit_messages_def)
  moreover have rows: "messages_of ''a'' ''v'' wit_d4 = wit_rows wit_env 2 0 @ wit_rows wit_env 4 4"
    unfolding d4 by (rule wit_more_rows_of)
  ultimately show "list_all (\<lambda>c. list_ex (\<lambda>r. mr_sequence_index r = c \<and> mr_message_type r = ''ModelResponse'') (messages_of ''a'' ''v'' wit_d4)) [1, 3]"
    unfolding rows r(1) using r(2,3) by simp
qed

lemma stored_history_readable_witness:
  "(\<exists>ms. fetch_messages wit_env ''a'' ''v'' (Some 2) ''effective'' wit_d4 = Inr ms) \<and>
   (\<exists>ms. fetch_messages wit_env ''a'' ''v'' (Some 2) ''raw'' wit_d4 = Inr ms)"
  by (rule stored_history_readable [OF wit_codec wit_reachable(3)])

lemma added_messages_extend_history_witness:
  "\<exists>old new. fetch_messages wit_env ''a'' ''v'' None ''effective'' wit_d3 = Inr old \<and>
    fetch_messages wit_env ''a'' ''v'' None ''effective'' wit_d4 = Inr (old @ new) \<and>
    map sm_message new = map (message_for_persistence (ce_persist_reasoning wit_env)) wit_messages \<and>
    map sm_sequence_index new = [4, 5, 6, 7]"
  by (rule added_messages_extend_history [OF wit_codec wit_reachable(2) wit_step4])

lemma wit_stood_at: "source_stood_at ''a'' ''v'' 3 wit_d3 wit_d4"
proof -
  obtain m3 m4 where d3: "wit_d3 = wit_db (wit_rows wit_env 2 0) [wit_checkpoint wit_env] 3 (Some m3) 4 1"
    and d4: "wit_d4 = wit_db (wit_rows wit_env 2 0 @ wit_rows wit_env 4 4) [wit_checkpoint wit_env] 4 (Some m4) 8 1"
    using wit_dbs(3,4) by blast
  have rows: "messages_of ''a'' ''v'' wit_d3 = wit_rows wit_env 2 0"
    "messages_of ''a'' ''v'' wit_d4 = wit_rows wit_env 2 0 @ wit_rows wit_env 4 4"
    unfolding d3 d4 by (rule wit_rows_of wit_more_rows_of)+
  have "checkpoint_rows ''a'' ''v'' wit_d3 = [wit_checkpoint wit_env]" "checkpoint_rows ''a'' ''v'' wit_d4 = [wit_checkpoint wit_env]"
    unfolding d3 d4 by (simp_all add: checkpoint_rows_def wit_checkpoint_def checkpoint_row_def)
  moreover have "observed_through (wit_checkpoint wit_env) = 3"
    by (simp add: observed_through_def wit_checkpoint_def checkpoint_row_def)
  moreover obtain r0 r1 r2 r3 where "wit_rows wit_env 2 0 = [r0, r1, r2, r3]" "mr_sequence_index r3 = int 0 + 3"
    by (rule wit_row_list [OF wit_env_ok, of 2 0])
  ultimately show ?thesis by (simp add: source_stood_at_def rows)
qed

lemma fork_isolated_witness:
  "find_session_by_id ''b'' wit_d4 = None \<and>
    fetch_messages wit_env ''b'' ''v'' None ''raw'' wit_d5 = fetch_messages wit_env ''a'' ''v'' None ''raw'' wit_d3 \<and>
    fetch_messages wit_env ''b'' ''v'' None ''effective'' wit_d5 = fetch_messages wit_env ''a'' ''v'' None ''effective'' wit_d3 \<and>
    messages_of ''a'' ''v'' wit_d5 = messages_of ''a'' ''v'' wit_d4"
proof -
  note fork = fork_isolated [OF wit_codec wit_reachable(3) wit_step5]
  from fork have earlier: "\<forall>d0. source_stood_at ''a'' ''v'' 3 d0 wit_d4 \<longrightarrow>
      fetch_messages wit_env ''b'' ''v'' None ''raw'' wit_d5 = fetch_messages wit_env ''a'' ''v'' None ''raw'' d0 \<and>
      fetch_messages wit_env ''b'' ''v'' None ''effective'' wit_d5 = fetch_messages wit_env ''a'' ''v'' None ''effective'' d0"
    by (elim conjE)
  show ?thesis using earlier [rule_format, OF wit_stood_at] fork by simp
qed

end
