(* ===== verification/Chat_Persistence.thy ===== *)
theory Chat_Persistence
  imports Chat_Fork_Points
begin

text \<open>
  What persistence without reasoning does to the tool protocol of a history: \<open>_message_for_persistence\<close> of
  core/chat/chat_store.py cuts the provider's suffix of the call ids in the responses, and leaves the replies, which stand in
  requests, as they are.
\<close>

definition combined_id :: "string \<Rightarrow> bool" where
  "combined_id i \<longleftrightarrow> CHR ''|'' \<in> set i"

definition makes_combined_call :: "model_message \<Rightarrow> bool" where
  "makes_combined_call m \<longleftrightarrow> list_ex (\<lambda>p. combined_id (part_call_id p)) (tool_call_parts m)"

abbreviation pending_ids :: "ToolHistoryProtocolState \<Rightarrow> string set" where
  "pending_ids p \<equiv> fst ` set (ph_pending p)"

lemma partition_not_combined: "\<not> combined_id (fst (str_partition (CHR ''|'') i))"
  by (auto simp: combined_id_def str_partition_def Let_def dest: set_takeWhileD split: if_splits)

lemma partition_plain: "\<not> combined_id i \<Longrightarrow> fst (str_partition (CHR ''|'') i) = i"
  by (auto simp: combined_id_def str_partition_def Let_def takeWhile_eq_all_conv)

lemma combined_not_blank: "combined_id i \<Longrightarrow> \<not> blank i"
proof
  assume "combined_id i" "blank i"
  then have "py_isspace (CHR ''|'')" by (auto simp: combined_id_def blank_def py_str)
  then show False by (simp add: py_isspace_def)
qed

lemma tool_call_parts_persisted:
  "tool_call_parts (message_for_persistence False m) = map strip_response_part_provider_item_id (tool_call_parts m)"
proof -
  have "filter (\<lambda>p. mp_kind p = ToolCall) (map strip_response_part_provider_item_id (filter (\<lambda>p. mp_kind p \<noteq> ThinkingPart) ps)) =
      map strip_response_part_provider_item_id (filter (\<lambda>p. mp_kind p = ToolCall) ps)" for ps
    by (induction ps) (simp_all add: strip_response_part_provider_item_id_def)
  then show ?thesis by (cases "mm_type m") (simp_all add: tool_call_parts_def message_for_persistence_def)
qed

lemma replies_persisted:
  "tool_reply_parts (message_for_persistence False m) = tool_reply_parts m"
  "model_message_is_tool_reply_only (message_for_persistence False m) = model_message_is_tool_reply_only m"
  by (simp_all add: message_for_persistence_def tool_reply_parts_def model_message_is_tool_reply_only_def)

lemma part_call_id_stripped:
  "part_call_id (strip_response_part_provider_item_id p) = fst (str_partition (CHR ''|'') (part_call_id p))"
  by (cases "mp_tool_call_id p") (simp_all add: part_call_id_def strip_response_part_provider_item_id_def str_partition_def)

text \<open>A message that makes no combined call is to the protocol what it was.\<close>

lemma invocations_persisted:
  assumes "\<not> makes_combined_call m"
  shows "model_message_tool_invocations (message_for_persistence False m) = model_message_tool_invocations m"
proof -
  have "part_call_id (strip_response_part_provider_item_id p) = part_call_id p" if "p \<in> set (tool_call_parts m)" for p
    using assms that by (auto simp: makes_combined_call_def list_ex_iff part_call_id_stripped partition_plain)
  moreover have "mp_tool_name (strip_response_part_provider_item_id p) = mp_tool_name p" for p
    by (simp add: strip_response_part_provider_item_id_def)
  ultimately show ?thesis
    by (simp add: model_message_tool_invocations_def tool_call_parts_persisted replies_persisted)
qed

lemma steps_persisted:
  assumes "list_all (\<lambda>m. \<not> makes_combined_call m) ms"
  shows "fold step_message (List.enumerate n (map (message_for_persistence False) ms)) p = fold step_message (List.enumerate n ms) p"
  using assms
  by (induction ms arbitrary: n p) (simp_all add: step_message_def invocations_persisted replies_persisted)

lemma integrity_protocol:
  "integrity_ok (analyze_tool_history ms) \<longleftrightarrow> protocol_complete (fold step_message (List.enumerate 0 ms) new_protocol)"
  by (simp add: integrity_ok_def analyze_tool_history_def Let_def protocol_complete_def unmatched_call_issues_def)

section \<open>A call waits for its reply\<close>

lemma keys_update: "fst ` set (AList.update k v d) = insert k (fst ` set d)"
  by (simp add: dom_map_of_conv_image_fst [symmetric] AList.update_conv')

lemma keys_delete: "fst ` set (AList.delete k d) = fst ` set d - {k}"
  by (auto simp: AList.delete_eq)

lemma pending_issue [simp]: "ph_pending (add_issue c s t k d p) = ph_pending p"
  by (simp add: add_issue_def)

lemma pending_issues: "ph_pending (fold (\<lambda>i. add_issue c s i k d) xs p) = ph_pending p"
  by (induction xs arbitrary: p) simp_all

lemma pending_call:
  "pending_ids (record_call k call p) = pending_ids p \<union> ({hv_tool_call_id call} - Collect blank)"
  by (auto simp: record_call_def Let_def keys_update)

lemma pending_calls:
  "pending_ids (fold (record_call k) calls p) = pending_ids p \<union> (hv_tool_call_id ` set calls - Collect blank)"
  by (induction calls arbitrary: p) (auto simp: pending_call)

lemma pending_reply:
  "pending_ids (fst (record_reply k ro pm po r so)) = pending_ids (fst so) \<or>
   pending_ids (fst (record_reply k ro pm po r so)) = pending_ids (fst so) - {hv_tool_call_id r}"
  by (simp add: record_reply_def Let_def split_beta keys_delete split: option.split)

lemma pending_replies:
  "pending_ids (fst (fold (record_reply k ro pm po) replies so)) \<subseteq> pending_ids (fst so)" (is "?upper replies so")
  "pending_ids (fst so) \<subseteq> pending_ids (fst (fold (record_reply k ro pm po) replies so)) \<union> hv_tool_call_id ` set replies"
    (is "?lower replies so")
proof -
  have "?upper replies so \<and> ?lower replies so"
  proof (induction replies arbitrary: so)
    case (Cons r rs)
    have "B \<subseteq> A \<and> A \<subseteq> B \<union> insert x X" if "A' = A \<or> A' = A - {x}" "B \<subseteq> A' \<and> A' \<subseteq> B \<union> X" for A A' B X :: "string set" and x
      using that by blast
    from this [OF pending_reply Cons.IH] show ?case unfolding fold_simps(2) list.set(2) image_insert .
  qed simp
  then show "?upper replies so" "?lower replies so" by blast+
qed

lemma pending_message:
  "pending_ids (record_message k calls replies ro p) \<subseteq> pending_ids p \<union> (hv_tool_call_id ` set calls - Collect blank)"
  "pending_ids p \<union> (hv_tool_call_id ` set calls - Collect blank) \<subseteq>
    pending_ids (record_message k calls replies ro p) \<union> hv_tool_call_id ` set replies"
proof -
  let ?p3 = "fold (record_call k) calls (fold (\<lambda>i. add_issue ''duplicate_tool_return_in_message'' ''error'' i k
      ''A single message contains duplicate tool-return ids.'') (duplicates (filter (\<lambda>i. \<not> blank i) (map hv_tool_call_id replies)))
    (fold (\<lambda>i. add_issue ''duplicate_tool_call_in_message'' ''error'' i k
      ''A single message contains duplicate tool-call ids.'') (duplicates (filter (\<lambda>i. \<not> blank i) (map hv_tool_call_id calls))) p))"
  have calls: "pending_ids ?p3 = pending_ids p \<union> (hv_tool_call_id ` set calls - Collect blank)"
    unfolding pending_calls pending_issues ..
  have message: "ph_pending (record_message k calls replies ro p) =
      ph_pending (fst (fold (record_reply k ro (ph_last_message_index p) (ph_last_reply_origins p)) replies (?p3, {})))"
    by (simp add: record_message_advance settled_def advance_def Let_def)
  show "pending_ids (record_message k calls replies ro p) \<subseteq> pending_ids p \<union> (hv_tool_call_id ` set calls - Collect blank)"
    using pending_replies(1) [where ?so = "(?p3, {})"] unfolding message fst_conv calls .
  show "pending_ids p \<union> (hv_tool_call_id ` set calls - Collect blank) \<subseteq>
      pending_ids (record_message k calls replies ro p) \<union> hv_tool_call_id ` set replies"
    using pending_replies(2) [where ?so = "(?p3, {})"] unfolding message fst_conv calls .
qed

text \<open>The ids of the calls and of the replies of a message.\<close>

abbreviation call_ids :: "model_message \<Rightarrow> string set" where
  "call_ids m \<equiv> part_call_id ` set (tool_call_parts m)"

abbreviation reply_ids :: "model_message \<Rightarrow> string set" where
  "reply_ids m \<equiv> part_call_id ` set (tool_reply_parts m)"

lemma pending_step:
  "pending_ids (step_message (n, m) p) \<subseteq> pending_ids p \<union> (call_ids m - Collect blank)"
  "pending_ids p \<union> (call_ids m - Collect blank) \<subseteq> pending_ids (step_message (n, m) p) \<union> reply_ids m"
  using pending_message [where ?k = n and ?calls = "fst (model_message_tool_invocations m)" and ?p = p and
      ?replies = "snd (model_message_tool_invocations m)" and ?ro = "model_message_is_tool_reply_only m"]
  by (simp_all add: step_message_def model_message_tool_invocations_def image_image)

lemma pending_steps:
  "pending_ids p \<union> (\<Union> (call_ids ` set ms) - Collect blank) \<subseteq>
    pending_ids (fold step_message (List.enumerate n ms) p) \<union> \<Union> (reply_ids ` set ms)"
proof (induction ms arbitrary: n p)
  case (Cons m ms)
  have "A \<union> ((C \<union> CS) - D) \<subseteq> F \<union> (R \<union> RS)" if "A \<union> (C - D) \<subseteq> A' \<union> R" "A' \<union> (CS - D) \<subseteq> F \<union> RS"
    for A A' C CS D F R RS :: "string set"
    using that by blast
  from this [OF pending_step(2) [of p m n] Cons.IH [where ?n = "Suc n" and ?p = "step_message (n, m) p"]] show ?case
    unfolding list.set(2) image_insert complete_lattice_class.Sup_insert enumerate_simps(2) fold_simps(2) .
qed simp

section \<open>A reply that has no call\<close>

lemma reply_without_call:
  assumes "i \<in> hv_tool_call_id ` set replies" "\<not> blank i" "i \<notin> pending_ids (fst so)"
  shows "list_ex (\<lambda>h. hi_code h = ''orphan_tool_return'' \<and> hi_tool_call_id h = i)
    (ph_issues (fst (fold (record_reply k ro pm po) replies so)))"
  using assms
proof (induction replies arbitrary: so)
  case (Cons r rs)
  let ?so = "record_reply k ro pm po r so"
  show ?case
  proof (cases "hv_tool_call_id r = i")
    case True
    then have "map_of (ph_pending (fst so)) i = None" using Cons.prems(3) by (simp add: map_of_eq_None_iff)
    then have "list_ex (\<lambda>h. hi_code h = ''orphan_tool_return'' \<and> hi_tool_call_id h = i) (ph_issues (fst ?so))"
      using True Cons.prems(2) by (simp add: record_reply_def split_beta Let_def add_issue_def)
    then show ?thesis using issues_folds(3) [of ?so k ro pm po rs] by (auto simp: list_ex_iff)
  next
    case False
    then have "i \<in> hv_tool_call_id ` set rs" using Cons.prems(1) by auto
    moreover have "i \<notin> pending_ids (fst ?so)" using Cons.prems(3) pending_reply [of k ro pm po r so] by auto
    ultimately show ?thesis using Cons.IH [of ?so] Cons.prems(2) by simp
  qed
qed simp

definition orphan_replies :: "ToolHistoryIssue list \<Rightarrow> string set" where
  "orphan_replies issues = set (map hi_tool_call_id (filter (\<lambda>h. hi_code h = ''orphan_tool_return'') issues))"

lemma orphan_replies_ex:
  "list_ex (\<lambda>h. hi_code h = ''orphan_tool_return'' \<and> hi_tool_call_id h = i) issues \<longleftrightarrow> i \<in> orphan_replies issues"
  by (auto simp: orphan_replies_def list_ex_iff)

lemma orphan_replies_mono: "set xs \<subseteq> set ys \<Longrightarrow> orphan_replies xs \<subseteq> orphan_replies ys"
  by (auto simp: orphan_replies_def)

lemma step_reply_without_call:
  assumes "i \<in> reply_ids m" "\<not> blank i" "i \<notin> pending_ids p" "i \<notin> call_ids m"
  shows "i \<in> orphan_replies (ph_issues (step_message (n, m) p))"
proof -
  let ?calls = "fst (model_message_tool_invocations m)" and ?replies = "snd (model_message_tool_invocations m)"
  have ids: "hv_tool_call_id ` set ?calls = call_ids m" "hv_tool_call_id ` set ?replies = reply_ids m"
    by (simp_all add: model_message_tool_invocations_def image_image)
  define so where "so = fold (record_call n) ?calls (fold (\<lambda>i. add_issue ''duplicate_tool_return_in_message'' ''error'' i n
      ''A single message contains duplicate tool-return ids.'') (duplicates (filter (\<lambda>i. \<not> blank i) (map hv_tool_call_id ?replies)))
    (fold (\<lambda>i. add_issue ''duplicate_tool_call_in_message'' ''error'' i n
      ''A single message contains duplicate tool-call ids.'') (duplicates (filter (\<lambda>i. \<not> blank i) (map hv_tool_call_id ?calls))) p))"
  have "i \<notin> pending_ids so" unfolding so_def pending_calls pending_issues ids using assms by blast
  from reply_without_call [where ?so = "(so, {})", unfolded fst_conv, OF assms(1) [folded ids(2)] assms(2) this]
  show ?thesis
    by (simp add: orphan_replies_ex step_message_def split_beta record_message_advance settled_def advance_def Let_def so_def)
qed

lemma combined_replies_orphaned:
  assumes "list_all (\<lambda>m. \<not> list_ex combined_id (map part_call_id (tool_call_parts m))) ms" "pending_ids p \<inter> Collect combined_id = {}"
  shows "\<Union> (reply_ids ` set ms) \<inter> Collect combined_id \<subseteq> orphan_replies (ph_issues (fold step_message (List.enumerate n ms) p))"
  using assms
proof (induction ms arbitrary: n p)
  case (Cons m ms)
  have calls: "call_ids m \<inter> Collect combined_id = {}" using Cons.prems(1) by (auto simp: list_ex_iff)
  then have "pending_ids (step_message (n, m) p) \<inter> Collect combined_id = {}"
    using pending_step(1) [of n m p] Cons.prems(2) by blast
  with Cons have "\<Union> (reply_ids ` set ms) \<inter> Collect combined_id \<subseteq>
      orphan_replies (ph_issues (fold step_message (List.enumerate n (m # ms)) p))" by simp
  moreover have "reply_ids m \<inter> Collect combined_id \<subseteq> orphan_replies (ph_issues (step_message (n, m) p))"
    using step_reply_without_call [of _ m p n] calls Cons.prems(2) combined_not_blank by blast
  moreover have "\<dots> \<subseteq> orphan_replies (ph_issues (fold step_message (List.enumerate n (m # ms)) p))"
    using issues_fold_messages by (simp add: orphan_replies_mono)
  ultimately show ?case by auto
qed simp

section \<open>Persistence of a complete history\<close>

definition combined_call_ids :: "model_message list \<Rightarrow> string list" where
  "combined_call_ids ms = filter combined_id (concat (map (\<lambda>m. map part_call_id (tool_call_parts m)) ms))"

lemma combined_call_ids_set: "set (combined_call_ids ms) = \<Union> (call_ids ` set ms) \<inter> Collect combined_id"
  by (auto simp: combined_call_ids_def)

lemma combined_call_ids_empty: "combined_call_ids ms = [] \<longleftrightarrow> list_all (\<lambda>m. \<not> makes_combined_call m) ms"
  by (auto simp: combined_call_ids_def makes_combined_call_def filter_empty_conv list_all_iff list_ex_iff)

text \<open>
  C37. A history whose tool calls all have their replies is stored, with the persistence of reasoning off, as one that the
  integrity check accepts exactly if no call id has a provider suffix, a part after \<open>|\<close>. Otherwise every call id with a suffix
  is left with an orphan return: the suffix is cut in the call, and not in its reply.
\<close>

theorem persistence_orphans_combined_replies:
  assumes "integrity_ok (analyze_tool_history ms)"
  shows "(integrity_ok (analyze_tool_history (map (message_for_persistence False) ms)) \<longleftrightarrow> combined_call_ids ms = []) \<and>
    set (combined_call_ids ms) \<subseteq> orphan_replies (ti_issues (analyze_tool_history (map (message_for_persistence False) ms)))"
proof (rule conjI)
  let ?ps = "map (message_for_persistence False) ms"
  let ?p = "fold step_message (List.enumerate 0 ms) new_protocol" and ?q = "fold step_message (List.enumerate 0 ?ps) new_protocol"
  have "pending_ids ?p = {}" using assms by (simp add: integrity_protocol protocol_complete_def)
  then have "\<Union> (call_ids ` set ms) - Collect blank \<subseteq> \<Union> (reply_ids ` set ms)"
    using pending_steps [of new_protocol ms 0] by simp
  also have "\<dots> = \<Union> (reply_ids ` set ?ps)" by (simp add: replies_persisted image_image)
  finally have replied: "set (combined_call_ids ms) \<subseteq> \<Union> (reply_ids ` set ?ps) \<inter> Collect combined_id"
    unfolding combined_call_ids_set using combined_not_blank by blast
  have "list_all (\<lambda>m. \<not> list_ex combined_id (map part_call_id (tool_call_parts m))) ?ps"
    by (auto simp: list_all_iff list_ex_iff tool_call_parts_persisted part_call_id_stripped partition_not_combined)
  then have "\<Union> (reply_ids ` set ?ps) \<inter> Collect combined_id \<subseteq> orphan_replies (ph_issues ?q)"
    by (rule combined_replies_orphaned) (simp add: new_protocol_def)
  with replied have orphans: "set (combined_call_ids ms) \<subseteq> orphan_replies (ph_issues ?q)" by (rule order_trans)
  moreover have "orphan_replies (ph_issues ?q) \<subseteq> orphan_replies (ti_issues (analyze_tool_history ?ps))"
    by (intro orphan_replies_mono) (simp add: analyze_tool_history_def Let_def)
  ultimately show "set (combined_call_ids ms) \<subseteq> orphan_replies (ti_issues (analyze_tool_history ?ps))" by (rule order_trans)
  show "integrity_ok (analyze_tool_history ?ps) \<longleftrightarrow> combined_call_ids ms = []"
  proof (cases "combined_call_ids ms = []")
    case True
    from steps_persisted [OF this [unfolded combined_call_ids_empty]] show ?thesis using True assms by (simp add: integrity_protocol)
  next
    case False
    then have "orphan_replies (ph_issues ?q) \<noteq> {}" using orphans by auto
    then have "ph_issues ?q \<noteq> []" by (auto simp: orphan_replies_def)
    with False show ?thesis by (simp add: integrity_protocol protocol_complete_def)
  qed
qed

text \<open>A call with a combined id and its reply, as a provider gives them.\<close>

definition combined_call :: "model_message list" where
  "combined_call =
     [\<lparr>mm_type = ModelRequest, mm_parts = [\<lparr>mp_kind = UserPrompt, mp_content = TextContent ''q'', mp_tool_name = None,
        mp_tool_call_id = None, mp_item_id = None\<rparr>], mm_other = []\<rparr>,
      \<lparr>mm_type = ModelResponse, mm_parts = [\<lparr>mp_kind = ToolCall, mp_content = NoContent, mp_tool_name = Some ''read'',
        mp_tool_call_id = Some ''c|i'', mp_item_id = None\<rparr>], mm_other = []\<rparr>,
      \<lparr>mm_type = ModelRequest, mm_parts = [\<lparr>mp_kind = ToolReturn, mp_content = TextContent ''r'', mp_tool_name = Some ''read'',
        mp_tool_call_id = Some ''c|i'', mp_item_id = None\<rparr>], mm_other = []\<rparr>]"

lemma combined_call_complete: "integrity_ok (analyze_tool_history combined_call)"
  by code_simp

lemma persistence_orphans_combined_replies_witness:
  "\<not> integrity_ok (analyze_tool_history (map (message_for_persistence False) combined_call)) \<and>
   ''c|i'' \<in> orphan_replies (ti_issues (analyze_tool_history (map (message_for_persistence False) combined_call)))"
proof -
  have "combined_call_ids combined_call = [''c|i'']" by code_simp
  with persistence_orphans_combined_replies [OF combined_call_complete] show ?thesis by simp
qed

end
