(* ===== verification/Spec2Isabelle.thy ===== *)
theory Spec2Isabelle
  imports Task_Properties Task_Access Runner_Gates Workflow_Run_Props Goal_Props Auth_Middleware
    Ingestion_Props Value_Parser Governor_Props Governor_Permits Vault_Lock Vault_Undo Vault_Activity_Props Chat_Event_Log Chat_Replay Chat_History_Run Chat_Persistence
begin

text \<open>
  \<^bold>\<open>The program.\<close> AssistantMD is a self-hosted assistant: a FastAPI application (\<open>src/api\<close>) over services
  (\<open>src/core\<close>) that run chats, workflows and imports against vaults of Markdown files. Every long-running piece of
  work is an execution task of the in-process coordinator, started and supervised by the task runner; workflow
  runs, goals and import jobs are rows of SQLite tables; in front of all routes stands the ingress middleware that
  authenticates the single local user. This library models these parts from the source and proves what makes them
  correct.

  \<^bold>\<open>Common ground.\<close> \<open>Py_Prelude\<close> has Python exceptions as values of a sum type (\<open>result\<close>), strings, decimal
  numbers and insertion-ordered dictionaries as association lists. A \<open>str\<close> is a list of code points below 256.
  \<open>Py_Datetime\<close> has UTC timestamps in microseconds since year 1 and shows that the text order of \<open>isoformat\<close> is the
  time order. \<open>Json_Value\<close> prints JSON and makes values JSON-safe; \<open>Json_Parse\<close> is \<open>json.loads\<close>, with
  a recursion bound of twice the length of the text that is proved to be enough, and reads back what the
  printer writes (locale \<open>json_separators\<close>, interpreted for both separator styles). \<open>Base64\<close>, \<open>Sha256\<close>,
  \<open>Py_Float\<close> and \<open>Ip_Address\<close> model the parts of \<open>base64\<close>, \<open>hashlib\<close>/\<open>hmac\<close>, \<open>float\<close> and \<open>ipaddress\<close> that the
  sources call. \<open>Lifecycle\<close> and \<open>Simulation\<close> are the two interfaces the components share: invariants, ids that are
  never reissued and final states along runs of a step relation, and functional refinement of a component by
  its answers to sequences of events.

  \<^bold>\<open>Identity\<close> (\<open>core/identity\<close>): \<open>Identity\<close> models principals, execution authority and the authorization policy.

  \<^bold>\<open>Execution tasks\<close> (\<open>core/runtime/execution_tasks.py\<close>): \<open>Execution_Tasks\<close> has the record of a task, the coordinator's
  state and every operation; \<open>cancel_task\<close>, which recurses through the children, is a partial function into options and
  is proved to return. \<open>Result_Bounds\<close> bounds stored results. \<open>Task_Cascade\<close>, \<open>Task_Lifecycle\<close>, \<open>Task_Steps\<close>
  and \<open>Task_Publish\<close> hold the invariant, the step relation and the preservation lemmas, and interpret
  the lifecycle locale as \<open>coord\<close>; \<open>Task_Properties\<close> states the results: terminal outcomes are final, the
  cancellation cascade ends, reaches all children and stays within one authority, waiters are woken, observers are
  told once, the history is bounded. \<open>Task_Access\<close> is the identity-enforcing facade of \<open>task_access.py\<close>.

  \<^bold>\<open>Task runner\<close> (\<open>core/runtime/task_runner.py\<close>): \<open>Task_Runner\<close> has the concurrency lanes and the gates, \<open>Runner_Shell\<close>
  the background and inline runs with timeouts and hooks, \<open>Runner_Gates\<close> the properties: every run ends with a
  terminal task, lanes stay within their limit and admit in order, slots and gates are released on every path. The limit of a
  lane is the one of the last reservation; a lane may be over it as far as it was when the limit was lowered.

  \<^bold>\<open>Workflow runs\<close> (\<open>core/workflow_runs\<close>): \<open>Workflow_Runs\<close> is the history table with its unique indexes and retention;
  \<open>Workflow_Run_Props\<close> (lifecycle interpretation \<open>runs\<close>) shows that finished runs are immutable, that
  retention keeps the latest run of each workflow and removes only old ones, and that the table is well formed.

  \<^bold>\<open>Workflow execution\<close> (\<open>core/authoring/workflow_execution.py\<close>): \<open>Workflow_Execution\<close> loads, validates and runs one
  workflow; the host, the loader and the files it meets are parameter records.

  \<^bold>\<open>Workflow governor\<close> (\<open>core/runtime/workflow_governor.py\<close>): \<open>Workflow_Governor\<close> extends the state of the runner with the
  run store and the semaphore of \<open>asyncio\<close> (Python 3.13), and has the whole path of a run: creation, global permit,
  vault gate, execution, timeout, publication and closing. What other tasks do while one is suspended are arguments at
  the suspension points; a suspension of \<open>update_metadata\<close> does not exist, so its handler \<open>workflow_setup\<close> is never
  entered. \<open>Governor_Props\<close> states what such interleavings may do (\<open>orderly\<close>) and what the execution promises
  (\<open>sound\<close>, \<open>settling\<close>), and shows that a run is closed on every path; the fuel is the recursion bound of the coordinator,
  and the theorem has the bound that is enough; a workflow that reports the status \<open>timed_out\<close> itself is outside of it, since the
  governor leaves the run of such a result open. \<open>Governor_Permits\<close> has the permits as a step relation: they are
  conserved and bound the running workflows while the setting is constant, and not after it was changed.

  \<^bold>\<open>Failure envelopes\<close> (\<open>core/tools/failures.py\<close>): \<open>Failures\<close> classifies exceptions and tool results and bounds messages.

  \<^bold>\<open>Goals\<close> (\<open>core/goals\<close>): \<open>Goal_Store\<close> is the store of goals, events and checkpoints; \<open>Goal_Props\<close> (lifecycle
  interpretation \<open>goals\<close>) shows the consistency of the three tables, immutable provenance, the frame of updates
  and what a purge may remove.

  \<^bold>\<open>Ingress authentication\<close> (\<open>core/authentication\<close>): \<open>Auth_Limiter\<close> is the failure throttle, proved to refine the history
  of failures (interpretations \<open>limiter_exact\<close> and \<open>limiter_sound\<close> of the simulation locale); \<open>Auth_Policy\<close> the
  policy built from the settings; \<open>Auth_Session\<close> the signed owner sessions with their round trip;
  \<open>Auth_Middleware\<close> the ASGI middleware, proved to fail closed and to keep the throttle's storage bounded.

  \<^bold>\<open>Import jobs\<close> (\<open>core/ingestion/jobs.py\<close>, \<open>worker.py\<close>, the listing of \<open>api/services/ingestion.py\<close>): \<open>Ingestion_Jobs\<close>
  and \<open>Ingestion_Props\<close>: a job leaves the queue once, the pages of the listing are the whole listing,
  and the worker's window of the hundred newest jobs can starve an older one.

  \<^bold>\<open>Value parser\<close> (\<open>core/utils/value_parser.py\<close>): \<open>Value_Parser\<close>, with the round trip of values with parameters whose
  parentheses match, and a quoted parenthesis that hides the parameters.

  \<^bold>\<open>Vault state\<close> (\<open>core/vault_state\<close>): \<open>Vault_Lock\<close> is the read-write lock of the vault mutations as a step relation of any
  number of threads: exclusion, and no lost wakeup but by an exception in the wait of a writer. \<open>Vault_Files\<close> has vault paths and their confinement, exclusion
  patterns and content hashes; \<open>Vault_World\<close> the tables, the file system and a script of failures, one entry per call of the
  operating system or commit, with what a failing write leaves behind; \<open>Vault_State\<close> identities, activities, favorites and
  snapshots; \<open>Vault_Manifest\<close> the refresh of the manifest, the change feed, revisions and cleanup. \<open>Vault_Frames\<close> has the
  locales \<open>io_frame\<close> and \<open>db_frame\<close> for relations that every operation keeps; \<open>Vault_Feed\<close> interprets them (\<open>feed\<close>, \<open>rows\<close>) and
  shows that the events rebuild the manifest, and that snapshot ids are given out again. \<open>Vault_Restore\<close> is the atomic
  restoration of file states, \<open>Vault_Atomic\<close> (interpretation \<open>on\<close>) proves it all-or-nothing for paths that are not nested and
  shows what is lost when they are. \<open>Vault_Mutations\<close> has the recorded mutations: writes, appends, deletions, moves and
  directory operations with their snapshots and journal rows; \<open>Vault_Rollback\<close> the rollback of a task, its terminal observers
  and the confirmed deletion of paths; \<open>Vault_Activity_Rollback\<close> the planned rollback of an activity. \<open>Vault_Journal\<close> (interpretation \<open>quiet\<close>) shows that every recorded mutation keeps
  \<open>task_inv\<close>: the first row of a path and its snapshot say what the file was before the task, the last row what it is now.
  \<open>Vault_Undo\<close> concludes that the rollback gives the files back their content from before the task, for vaults without symbolic
  links and paths that are not nested, and shows a write that it cannot see. \<open>Vault_Activity_Props\<close> shows that a rollback of an activity that
  reports success has verified the state of every file, and that a refused one changes nothing; \<open>Vault_Activity_Run\<close> evaluates one. \<open>realpath\<close>, YAML and the settings are fields of \<open>vault_env\<close>; operations run alone, as they
  do under the locks; the removal of a temporary directory does not fail.

  \<^bold>\<open>Chat task events\<close> (\<open>core/chat/task_events.py\<close>): \<open>Chat_Events\<close> has the event buffers, the projection that replays
  a stream in brief, subscriptions as state machines and the checks of the two routes. \<open>Chat_Event_Props\<close> runs appends and
  subscribers in every order, and bounds the buffers; a dropped stream is made again, empty, by a subscription. \<open>Chat_Event_Log\<close> compares
  what subscribers get with the log of all appended events: all after their cursor, in order, unless the cursor has
  expired, and none of them waits while there is one, unless the stream of a task that has ended was dropped. \<open>Chat_Replay\<close> shows that
  a snapshot followed by the later events is as good as the whole history, as long as the tools fit the limit.

  \<^bold>\<open>Chat history\<close> (\<open>core/chat/tool_history.py\<close>, \<open>core/chat/chat_store.py\<close>, \<open>core/chat/session_access.py\<close>): \<open>Tool_History\<close> is the
  protocol of tool calls and replies; \<open>Chat_Store\<close> the tables of sessions, messages, tool events and checkpoints with the
  storing and loading of messages and the effective history; \<open>Chat_Sessions\<close> sessions, titles, settings and display rows,
  \<open>Chat_Forks\<close> canonical fork points and forks, \<open>Chat_Session_Ops\<close> listing, deletion and the service that conceals other
  principals' sessions. The serialization of messages by the provider library is an argument (\<open>chat_env\<close>); \<open>Chat_Codec\<close> states what the store relies on
  (\<open>codec_ok\<close>) and has a serialization in JSON for which it is proved. \<open>Chat_Fork_Points\<close> shows that the scan of the protocol rows gives
  the fork points of the loaded history. \<open>Chat_Store_Inv\<close> has the invariant of the tables, \<open>Chat_Fork_Props\<close> what a
  fork copies, \<open>Chat_History_Props\<close> the results over all runs: histories can always be read, additions extend them, forks are
  isolated and have the history of their fork point, as the source had it there. \<open>Chat_History_Run\<close> is a run with a compaction
  and a fork. \<open>Chat_Persistence\<close> shows that persistence without reasoning keeps a complete history complete exactly if no call id has a
  provider suffix.

  \<^bold>\<open>Conventions.\<close> Clocks, random bytes, generated ids, callbacks and database errors are arguments of the operations
  that meet them. Awaited calls are interleaving points of the step relations; code between two awaits is one step, as
  in the event loop. Loops are structural or have a measure; the recursion of the JSON parser and the client
  that follows pages carry a bound that is part of the theorem.

  \<^bold>\<open>Not modelled.\<close> Code points from U+0100 on, the recursion limit of the interpreter, \<open>SimpleCookie\<close> (an argument), and
  the components that are I/O or adapters of third-party packages: chat streaming and compaction, the vault file tools
  (\<open>file_operations.py\<close>, \<open>search.py\<close>), log records,
  authoring runtime, tools, language model clients, MCP, OAuth, secrets encryption, web retrieval, document
  extraction, migrations and logging, and the route functions of the API. The schedule parser and the address
  checks of web retrieval are the next parts to model.
\<close>

end
